(* ===== verification/Prelude.thy ===== *)
theory Prelude
  imports Main "HOL-Library.Word" "HOL-Library.Monad_Syntax"
begin

text \<open>
  Shared vocabulary of the development: the machine integers of the C sources, memory as
  byte lists with checked access, and the little-endian layout of multi-byte fields.

  A C expression that may leave its object (an array index, a pointer dereference, a
  \<open>memmove\<close>) is a partial operation: \<open>rd\<close>, \<open>wr\<close>, \<open>rd_bytes\<close> and \<open>wr_bytes\<close> give \<open>None\<close>
  when the access is out of bounds, which stands for the undefined behaviour of the C
  abstract machine. A function that reaches such an access therefore evaluates to \<open>None\<close>,
  and a theorem that it evaluates to \<open>Some r\<close> is a memory-safety statement besides a
  functional one. Sizes and indices (\<open>size_t\<close>, loop counters that never leave the range of
  their type) are natural numbers; where a cast or a wrap-around matters the width is
  written out with a word type.
\<close>

unbundle bit_operations_syntax

section \<open>Machine integers\<close>

type_synonym u8 = "8 word"
type_synonym u16 = "16 word"
type_synonym u32 = "32 word"
type_synonym u64 = "64 word"
type_synonym bytes = "u8 list"

text \<open>The value of a \<open>size_t\<close> after the cast \<open>(int)\<close>: two's complement in 32 bits.\<close>

definition int_cast :: "nat \<Rightarrow> int" where
  "int_cast n = sint (word_of_nat n :: 32 word)"

named_theorems mem_simps \<open>evaluation of in-bounds and out-of-bounds accesses\<close>
named_theorems layout \<open>lengths and positions of the fields of packed structures\<close>

lemma int_cast_small: "n < 2 ^ 31 \<Longrightarrow> int_cast n = int n"
  unfolding int_cast_def
  by (simp add: sint_word_ariths signed_of_nat signed_take_bit_int_eq_self)

section \<open>Pointers to heap objects\<close>

text \<open>A pointer variable that owns a heap object: \<open>NULL\<close>, a freed object, or an object.\<close>

datatype 'a ptr = Null | Dangling | Valid 'a

section \<open>Checked memory access\<close>

definition rd :: "'a list \<Rightarrow> nat \<Rightarrow> 'a option" where
  "rd xs i = (if i < length xs then Some (xs ! i) else None)"

definition wr :: "'a list \<Rightarrow> nat \<Rightarrow> 'a \<Rightarrow> 'a list option" where
  "wr xs i v = (if i < length xs then Some (xs[i := v]) else None)"

definition rd_bytes :: "'a list \<Rightarrow> nat \<Rightarrow> nat \<Rightarrow> 'a list option" where
  "rd_bytes xs off n = (if off + n \<le> length xs then Some (take n (drop off xs)) else None)"

definition wr_bytes :: "'a list \<Rightarrow> nat \<Rightarrow> 'a list \<Rightarrow> 'a list option" where
  "wr_bytes xs off ys =
     (if off + length ys \<le> length xs
      then Some (take off xs @ ys @ drop (off + length ys) xs) else None)"

lemma rd_in [mem_simps]: "i < length xs \<Longrightarrow> rd xs i = Some (xs ! i)"
  by (simp add: rd_def)

lemma rd_out [mem_simps]: "length xs \<le> i \<Longrightarrow> rd xs i = None"
  by (simp add: rd_def)

lemma rd_eq_Some: "rd xs i = Some v \<longleftrightarrow> i < length xs \<and> xs ! i = v"
  by (auto simp: rd_def)

lemma wr_in [mem_simps]: "i < length xs \<Longrightarrow> wr xs i v = Some (xs[i := v])"
  by (simp add: wr_def)

lemma wr_eq_Some: "wr xs i v = Some ys \<longleftrightarrow> i < length xs \<and> ys = xs[i := v]"
  by (auto simp: wr_def)

lemma wr_length: "wr xs i v = Some ys \<Longrightarrow> length ys = length xs"
  by (auto simp: wr_def split: if_splits)

lemma rd_bytes_in [mem_simps]:
  "off + n \<le> length xs \<Longrightarrow> rd_bytes xs off n = Some (take n (drop off xs))"
  by (simp add: rd_bytes_def)

lemma rd_bytes_eq_Some:
  "rd_bytes xs off n = Some ys \<longleftrightarrow> off + n \<le> length xs \<and> ys = take n (drop off xs)"
  by (auto simp: rd_bytes_def)

lemma rd_bytes_length: "rd_bytes xs off n = Some ys \<Longrightarrow> length ys = n"
  by (auto simp: rd_bytes_eq_Some)

lemma wr_bytes_in [mem_simps]:
  "off + length ys \<le> length xs \<Longrightarrow>
   wr_bytes xs off ys = Some (take off xs @ ys @ drop (off + length ys) xs)"
  by (simp add: wr_bytes_def)

lemma wr_bytes_length: "wr_bytes xs off ys = Some zs \<Longrightarrow> length zs = length xs"
  by (auto simp: wr_bytes_def split: if_splits)

lemma rd_wr_bytes_same:
  "wr_bytes xs off ys = Some zs \<Longrightarrow> rd_bytes zs off (length ys) = Some ys"
  by (auto simp: wr_bytes_def rd_bytes_def min_def split: if_splits)

section \<open>Little-endian fields\<close>

fun le_nat :: "bytes \<Rightarrow> nat" where
  "le_nat [] = 0"
| "le_nat (b # bs) = unat b + 256 * le_nat bs"

fun le_bytes :: "nat \<Rightarrow> nat \<Rightarrow> bytes" where
  "le_bytes 0 v = []"
| "le_bytes (Suc n) v = word_of_nat (v mod 256) # le_bytes n (v div 256)"

lemma length_le_bytes [simp]: "length (le_bytes n v) = n"
  by (induction n arbitrary: v) auto

lemma le_nat_bound: "le_nat bs < 256 ^ length bs"
proof (induction bs)
  case Nil
  then show ?case by simp
next
  case (Cons b bs)
  have "unat b < 256" using unsigned_less [of b] by simp
  with Cons show ?case by simp
qed

lemma unat_byte_of_nat [simp]: "unat (word_of_nat (v mod 256) :: u8) = v mod 256"
  by (simp add: unsigned_of_nat take_bit_eq_mod)

lemma le_nat_le_bytes [simp]: "le_nat (le_bytes n v) = v mod 256 ^ n"
proof (induction n arbitrary: v)
  case 0
  then show ?case by simp
next
  case (Suc n)
  then show ?case by (simp add: mod_mult2_eq)
qed

lemma le_nat_zeros [simp]: "le_nat (replicate n 0) = 0"
  by (induction n) auto

lemma le_bytes_le_nat [simp]: "le_bytes (length bs) (le_nat bs) = bs"
proof (induction bs)
  case Nil
  then show ?case by simp
next
  case (Cons b bs)
  have "unat b < 256" using unsigned_less [of b] by simp
  with Cons show ?case by simp
qed

definition rd16 :: "bytes \<Rightarrow> nat \<Rightarrow> u16 option" where
  "rd16 b off = map_option (\<lambda>bs. word_of_nat (le_nat bs)) (rd_bytes b off 2)"

definition rd32 :: "bytes \<Rightarrow> nat \<Rightarrow> u32 option" where
  "rd32 b off = map_option (\<lambda>bs. word_of_nat (le_nat bs)) (rd_bytes b off 4)"

definition rd64 :: "bytes \<Rightarrow> nat \<Rightarrow> u64 option" where
  "rd64 b off = map_option (\<lambda>bs. word_of_nat (le_nat bs)) (rd_bytes b off 8)"

lemma rd16_in: "off + 2 \<le> length b \<Longrightarrow> \<exists>v. rd16 b off = Some v"
  by (simp add: rd16_def mem_simps)

lemma rd32_in: "off + 4 \<le> length b \<Longrightarrow> \<exists>v. rd32 b off = Some v"
  by (simp add: rd32_def mem_simps)

text \<open>The value of a field of a packed structure: \<open>n\<close> bytes at offset \<open>off\<close>.\<close>

definition fld :: "bytes \<Rightarrow> nat \<Rightarrow> nat \<Rightarrow> 'a::len word" where
  "fld b off n = word_of_nat (le_nat (take n (drop off b)))"

lemma fld_append: "off + n \<le> length b \<Longrightarrow> fld (b @ c) off n = fld b off n"
  by (simp add: fld_def)

lemma fld_take: "off + n \<le> k \<Longrightarrow> fld (take k b) off n = fld b off n"
  by (simp add: fld_def drop_take min_def)

definition wr32 :: "bytes \<Rightarrow> nat \<Rightarrow> u32 \<Rightarrow> bytes option" where
  "wr32 b off v = wr_bytes b off (le_bytes 4 (unat v))"

section \<open>Lists\<close>

lemma sum_list_update_word:
  "k < length (xs :: 'a::ab_group_add list) \<Longrightarrow> sum_list (xs[k := v]) = sum_list xs + v - xs ! k"
proof (induction xs arbitrary: k)
  case (Cons x xs)
  then show ?case by (cases k) (auto simp: algebra_simps)
qed simp

lemma takeWhile_take: "takeWhile P (take n xs) = take n (takeWhile P xs)"
  by (induction xs arbitrary: n) (auto simp: take_Cons split: nat.splits)

lemma length_takeWhile_nth:
  "i < length (takeWhile P xs) \<Longrightarrow> P (xs ! i)"
  using nth_mem set_takeWhileD takeWhile_nth by metis

lemma list_update_append_middle:
  "i = length xs \<Longrightarrow> (xs @ y # ys)[i := v] = xs @ v # ys"
  by simp

lemma rd_drop: "drop p m = x # xs \<Longrightarrow> rd m p = Some x \<and> drop (Suc p) m = xs"
proof -
  assume a: "drop p m = x # xs"
  then have "p < length m" by (metis drop_all leI list.distinct(1))
  with a show ?thesis by (metis Cons_nth_drop_Suc list.inject rd_in)
qed

lemma drop_append_at: "drop p m = xs @ ys \<Longrightarrow> drop (p + length xs) m = ys"
  by (metis append_eq_conv_conj drop_drop add.commute)

lemma rd_bytes_at:
  "drop off m = b @ r \<Longrightarrow> n \<le> length b \<Longrightarrow> 0 < length b \<Longrightarrow> rd_bytes m off n = Some (take n b)"
proof -
  assume a: "drop off m = b @ r" "n \<le> length b" "0 < length b"
  then have "length b \<le> length m - off" using length_drop [of off m] by simp
  then have "off + n \<le> length m" using a(2,3) by arith
  then show ?thesis using a by (simp add: rd_bytes_def)
qed

lemma rd_at: "drop off m = b @ r \<Longrightarrow> n < length b \<Longrightarrow> rd m (off + n) = Some (b ! n)"
proof -
  assume a: "drop off m = b @ r" "n < length b"
  then have l: "off + n < length m" using length_drop [of off m] by simp
  then have "m ! (off + n) = drop off m ! n" by simp
  then show ?thesis using a l by (simp add: rd_def nth_append)
qed

lemma rd16_at: "drop off m = b @ r \<Longrightarrow> k + 2 \<le> length b \<Longrightarrow> rd16 m (off + k) = Some (fld b k 2)"
proof -
  assume a: "drop off m = b @ r" "k + 2 \<le> length b"
  have d: "drop (off + k) m = drop k b @ r" using a by (simp add: drop_drop [symmetric] add.commute)
  show ?thesis using rd_bytes_at [OF d, of 2] a(2) by (simp add: rd16_def fld_def)
qed

lemma rd32_at: "drop off m = b @ r \<Longrightarrow> k + 4 \<le> length b \<Longrightarrow> rd32 m (off + k) = Some (fld b k 4)"
proof -
  assume a: "drop off m = b @ r" "k + 4 \<le> length b"
  have d: "drop (off + k) m = drop k b @ r" using a by (simp add: drop_drop [symmetric] add.commute)
  show ?thesis using rd_bytes_at [OF d, of 4] a(2) by (simp add: rd32_def fld_def)
qed

lemma rd64_at: "drop off m = b @ r \<Longrightarrow> k + 8 \<le> length b \<Longrightarrow> rd64 m (off + k) = Some (fld b k 8)"
proof -
  assume a: "drop off m = b @ r" "k + 8 \<le> length b"
  have d: "drop (off + k) m = drop k b @ r" using a by (simp add: drop_drop [symmetric] add.commute)
  show ?thesis using rd_bytes_at [OF d, of 8] a(2) by (simp add: rd64_def fld_def)
qed

lemma wr_bytes_at:
  "m = a @ b @ c \<Longrightarrow> length a = off \<Longrightarrow> length b = length ys \<Longrightarrow> wr_bytes m off ys = Some (a @ ys @ c)"
  by (simp add: wr_bytes_def)

text \<open>The position of the first element with a property.\<close>

fun find_index :: "('a \<Rightarrow> bool) \<Rightarrow> 'a list \<Rightarrow> nat option" where
  "find_index P [] = None"
| "find_index P (x # xs) = (if P x then Some 0 else map_option Suc (find_index P xs))"

lemma find_index_Some:
  "find_index P xs = Some i \<Longrightarrow> i < length xs \<and> P (xs ! i) \<and> (\<forall>j < i. \<not> P (xs ! j))"
  by (induction xs arbitrary: i) (auto simp: less_Suc_eq_0_disj split: if_splits)

lemma find_index_None: "find_index P xs = None \<longleftrightarrow> (\<forall>x \<in> set xs. \<not> P x)"
  by (induction xs) auto

lemma find_index_map: "find_index (\<lambda>x. P (f x)) xs = find_index P (map f xs)"
  by (induction xs) auto

end
