(* ===== verification/S_Str.thy ===== *)
theory S_Str
  imports Prelude
begin

text \<open>
  The safe string routines of \<open>common/string/s_str.c\<close>. A \<open>char\<close> buffer is the list of the
  bytes of its object, so \<open>rd\<close> and \<open>wr\<close> fail where the C code would leave it. A pointer that
  the code compares with \<open>NULL\<close> is an \<open>option\<close>. A routine that stores through a pointer
  returns the new contents of the buffer. \<open>cstr\<close> is the abstract string a buffer holds: the
  bytes in front of the first terminator.

  \<open>isdigit\<close>, \<open>isspace\<close> and \<open>toupper\<close> are the C library's in the C locale, and the output of
  \<open>vsnprintf\<close> is passed to \<open>s_snprintf\<close> as the formatted text.
\<close>

section \<open>Character classes and the abstraction of a buffer\<close>

definition isdigit :: "u8 \<Rightarrow> bool" where
  "isdigit c \<longleftrightarrow> 48 \<le> c \<and> c \<le> 57"

definition isspace :: "u8 \<Rightarrow> bool" where
  "isspace c \<longleftrightarrow> c = 32 \<or> (9 \<le> c \<and> c \<le> 13)"

definition toupper :: "u8 \<Rightarrow> u8" where
  "toupper c = (if 97 \<le> c \<and> c \<le> 122 then c - 32 else c)"

definition cstr :: "'a::zero list \<Rightarrow> 'a list" where
  "cstr b = takeWhile (\<lambda>c. c \<noteq> 0) b"

text \<open>The bytes \<open>0, 1, \<dots>\<close> of a buffer may be read up to a limit or a terminator.\<close>

definition readable :: "'a::zero list \<Rightarrow> nat \<Rightarrow> bool" where
  "readable b n \<longleftrightarrow> n \<le> length b \<or> 0 \<in> set b"

text \<open>A negative \<open>int\<close> compared with a \<open>size_t\<close> is converted to \<open>size_t\<close>.\<close>

definition size_cast :: "int \<Rightarrow> nat" where
  "size_cast i = nat (i mod 2 ^ 64)"

text \<open>\<open>n - 1\<close> on \<open>size_t\<close>.\<close>

definition size_dec :: "nat \<Rightarrow> nat" where
  "size_dec n = (if n = 0 then 2 ^ 64 - 1 else n - 1)"

section \<open>Searching and measuring\<close>

function s_strrchr_loop :: "bytes \<Rightarrow> u8 \<Rightarrow> int \<Rightarrow> nat \<Rightarrow> nat option \<Rightarrow> nat option option" where
  "s_strrchr_loop str ch max_len i last_char =
     (if int i < max_len then do {
        c \<leftarrow> rd str i;
        if c \<noteq> 0
        then s_strrchr_loop str ch max_len (Suc i) (if c = ch then Some i else last_char)
        else Some last_char }
      else Some last_char)"
  by pat_completeness auto
termination
  by (relation "measure (\<lambda>(str, ch, max_len, i, l). nat max_len - i)") auto

definition s_strrchr :: "bytes option \<Rightarrow> u8 \<Rightarrow> int \<Rightarrow> nat option option" where
  "s_strrchr str ch max_len =
     (case str of None \<Rightarrow> Some None | Some s \<Rightarrow> s_strrchr_loop s ch max_len 0 None)"

function s_strnlen_loop :: "'a::zero list \<Rightarrow> nat \<Rightarrow> nat \<Rightarrow> nat option" where
  "s_strnlen_loop str max_len i =
     (if i < max_len then do {
        c \<leftarrow> rd str i;
        if c \<noteq> 0 then s_strnlen_loop str max_len (Suc i) else Some i }
      else Some i)"
  by pat_completeness auto
termination
  by (relation "measure (\<lambda>(str, max_len, i). max_len - i)") auto

definition s_strnlen :: "bytes option \<Rightarrow> nat \<Rightarrow> nat option" where
  "s_strnlen str max_len =
     (case str of None \<Rightarrow> Some 0 | Some s \<Rightarrow> s_strnlen_loop s max_len 0)"

section \<open>Copying\<close>

text \<open>
  The loop \<open>while (i < n && (dst[j] = src[i]) != 0)\<close> shared by \<open>s_strncat\<close>, \<open>s_strcat\<close> and
  \<open>s_strncpy\<close>: the byte is stored before it is compared with the terminator.
\<close>

function copy_loop :: "bytes \<Rightarrow> nat \<Rightarrow> bytes \<Rightarrow> nat \<Rightarrow> int \<Rightarrow> (bytes \<times> nat) option" where
  "copy_loop dst di src si n =
     (if int si < n then do {
        c \<leftarrow> rd src si;
        dst' \<leftarrow> wr dst di c;
        if c \<noteq> 0 then copy_loop dst' (Suc di) src (Suc si) n else Some (dst', di) }
      else Some (dst, di))"
  by pat_completeness auto
termination
  by (relation "measure (\<lambda>(dst, di, src, si, n). nat n - si)") auto

definition s_strncat ::
  "bytes option \<Rightarrow> nat \<Rightarrow> bytes option \<Rightarrow> nat \<Rightarrow> bytes option option" where
  "s_strncat dst dst_size src src_size =
     (case (dst, src) of
        (Some d, Some s) \<Rightarrow>
          if dst_size \<noteq> 0 \<and> src_size \<noteq> 0 then do {
            dst_i \<leftarrow> s_strnlen (Some d) dst_size;
            let free_dst_chars = (int_cast dst_size - 1) - int_cast dst_i;
            if free_dst_chars > 0 then do {
              let chars_to_copy =
                (if int_cast src_size < free_dst_chars then int_cast src_size
                 else free_dst_chars);
              (d', j) \<leftarrow> copy_loop d dst_i s 0 chars_to_copy;
              d'' \<leftarrow> wr d' j 0;
              Some (Some d'') }
            else Some (Some d) }
          else Some (Some d)
      | _ \<Rightarrow> Some dst)"

definition s_strcat :: "bytes option \<Rightarrow> nat \<Rightarrow> bytes option \<Rightarrow> bytes option option" where
  "s_strcat dst dst_size src =
     (case (dst, src) of
        (Some d, Some s) \<Rightarrow>
          if dst_size \<noteq> 0 then do {
            dst_i \<leftarrow> s_strnlen (Some d) dst_size;
            let free_dst_chars = (int_cast dst_size - 1) - int_cast dst_i;
            if free_dst_chars > 0 then do {
              (d', j) \<leftarrow> copy_loop d dst_i s 0 free_dst_chars;
              d'' \<leftarrow> wr d' j 0;
              Some (Some d'') }
            else Some (Some d) }
          else Some (Some d)
      | _ \<Rightarrow> Some dst)"

definition s_strncpy ::
  "bytes option \<Rightarrow> nat \<Rightarrow> bytes option \<Rightarrow> nat \<Rightarrow> bytes option option" where
  "s_strncpy dst dst_size src src_size =
     (case (dst, src) of
        (Some d, Some s) \<Rightarrow>
          if dst_size \<noteq> 0 then do {
            let all = int_cast (dst_size - 1);
            let chars_to_copy =
              (if src_size < size_cast all then int_cast src_size else all);
            (d', j) \<leftarrow> copy_loop d 0 s 0 chars_to_copy;
            d'' \<leftarrow> wr d' j 0;
            Some (Some d'') }
          else Some (Some d)
      | _ \<Rightarrow> Some dst)"

text \<open>
  The pointer loop of \<open>s_strcpy\<close> and \<open>ws_strcpy\<close> tests the source for the terminator before
  it copies. The returned position is the returned pointer: where the terminator was put.
\<close>

function strcpy_loop ::
  "'a::zero list \<Rightarrow> nat \<Rightarrow> nat \<Rightarrow> 'a list \<Rightarrow> nat \<Rightarrow> ('a list \<times> nat) option" where
  "strcpy_loop dst di end_i src si =
     (if di < end_i then do {
        c \<leftarrow> rd src si;
        if c \<noteq> 0 then do {
          dst' \<leftarrow> wr dst di c;
          strcpy_loop dst' (Suc di) end_i src (Suc si) }
        else Some (dst, di) }
      else Some (dst, di))"
  by pat_completeness auto
termination
  by (relation "measure (\<lambda>(dst, di, end_i, src, si). end_i - di)") auto

definition strcpy_gen ::
  "'a::zero list option \<Rightarrow> 'a list option \<Rightarrow> nat \<Rightarrow> ('a list option \<times> nat) option" where
  "strcpy_gen dst src dst_size =
     (case (dst, src) of
        (Some d, Some s) \<Rightarrow>
          if dst_size \<noteq> 0 then do {
            (d', j) \<leftarrow> strcpy_loop d 0 (dst_size - 1) s 0;
            d'' \<leftarrow> wr d' j 0;
            Some (Some d'', j) }
          else Some (Some d, 0)
      | _ \<Rightarrow> Some (dst, 0))"

definition s_strcpy :: "bytes option \<Rightarrow> bytes option \<Rightarrow> nat \<Rightarrow> (bytes option \<times> nat) option" where
  "s_strcpy dst src dst_size = strcpy_gen dst src dst_size"

definition ws_strcpy ::
  "u32 list option \<Rightarrow> u32 list option \<Rightarrow> nat \<Rightarrow> (u32 list option \<times> nat) option" where
  "ws_strcpy dst src dst_size = strcpy_gen dst src dst_size"

function strncpy_unterm_loop :: "bytes \<Rightarrow> bytes \<Rightarrow> nat \<Rightarrow> int \<Rightarrow> bytes option" where
  "strncpy_unterm_loop dst src i n =
     (if int i < n then do {
        c \<leftarrow> rd src i;
        if c \<noteq> 0 then do {
          dst' \<leftarrow> wr dst i c;
          strncpy_unterm_loop dst' src (Suc i) n }
        else Some dst }
      else Some dst)"
  by pat_completeness auto
termination
  by (relation "measure (\<lambda>(dst, src, i, n). nat n - i)") auto

definition s_strncpy_unterm ::
  "bytes option \<Rightarrow> nat \<Rightarrow> bytes option \<Rightarrow> nat \<Rightarrow> bytes option option" where
  "s_strncpy_unterm dst dst_size src src_size =
     (case (dst, src) of
        (Some d, Some s) \<Rightarrow>
          map_option Some (strncpy_unterm_loop d s 0
            (if dst_size < src_size then int_cast dst_size else int_cast src_size))
      | _ \<Rightarrow> Some dst)"

text \<open>
  \<open>s_snprintf\<close> copies the text that \<open>make_message\<close> formatted into a heap buffer, and returns
  its length; the formatted text is the argument \<open>msg\<close>, \<open>None\<close> where \<open>make_message\<close> fails.
\<close>

definition s_snprintf :: "bytes option \<Rightarrow> nat \<Rightarrow> bytes option \<Rightarrow> (bytes option \<times> int) option" where
  "s_snprintf str n msg =
     (case msg of
        None \<Rightarrow> Some (str, -1)
      | Some m \<Rightarrow> do {
          (str', j) \<leftarrow> s_strcpy str (Some (m @ [0])) n;
          Some (str', int (length m)) })"

section \<open>Reading decimal numbers\<close>

definition todigit :: "u8 \<Rightarrow> nat" where
  "todigit c = unat c - 48"

function skip_nondigits :: "bytes \<Rightarrow> nat \<Rightarrow> nat \<Rightarrow> nat option" where
  "skip_nondigits str str_len i =
     (if i < str_len then do {
        c \<leftarrow> rd str i;
        if \<not> isdigit c \<and> c \<noteq> 0 then skip_nondigits str str_len (Suc i) else Some i }
      else Some i)"
  by pat_completeness auto
termination
  by (relation "measure (\<lambda>(str, str_len, i). str_len - i)") auto

text \<open>
  The conversion loop of \<open>s_digitstrtouc\<close>, \<open>s_strtous\<close> and \<open>s_strtoui\<close>. The intermediate
  \<open>tmp_result\<close> is computed in a type that holds \<open>10 * max + 9\<close>, so it does not wrap.
\<close>

function digits_loop :: "nat \<Rightarrow> bytes \<Rightarrow> nat \<Rightarrow> nat \<Rightarrow> nat \<Rightarrow> (nat \<times> nat) option" where
  "digits_loop max_val str str_len i res =
     (if i < str_len then do {
        c \<leftarrow> rd str i;
        if isdigit c then
          (let tmp_result = res * 10 + todigit c
           in if tmp_result \<le> max_val
              then digits_loop max_val str str_len (Suc i) tmp_result
              else Some (i, res))
        else Some (i, res) }
      else Some (i, res))"
  by pat_completeness auto
termination
  by (relation "measure (\<lambda>(m, str, str_len, i, r). str_len - i)") auto

text \<open>
  The result of a conversion: the number of characters consumed, the position stored through
  \<open>pp_end\<close> (\<open>None\<close> for \<open>NULL\<close>) and the number stored through \<open>p_result\<close>. The old values of
  the two outputs are arguments, since a guard may leave them untouched.
\<close>

definition strto_gen ::
  "nat \<Rightarrow> bytes option \<Rightarrow> nat \<Rightarrow> nat option \<Rightarrow> nat \<Rightarrow> (nat \<times> nat option \<times> nat) option" where
  "strto_gen max_val str str_len end0 res0 =
     (case str of
        Some s \<Rightarrow>
          if str_len \<noteq> 0 then do {
            i \<leftarrow> skip_nondigits s str_len 0;
            (j, res) \<leftarrow> digits_loop max_val s str_len i 0;
            Some (j, if j < str_len then Some j else None, res) }
          else Some (0, end0, res0)
      | None \<Rightarrow> Some (0, end0, res0))"

definition s_digitstrtouc ::
  "bytes option \<Rightarrow> nat \<Rightarrow> nat option \<Rightarrow> nat \<Rightarrow> (nat \<times> nat option \<times> nat) option" where
  "s_digitstrtouc str str_len end0 res0 = strto_gen 255 str str_len end0 res0"

definition s_strtous ::
  "bytes option \<Rightarrow> nat \<Rightarrow> nat option \<Rightarrow> nat \<Rightarrow> (nat \<times> nat option \<times> nat) option" where
  "s_strtous str str_len end0 res0 = strto_gen 65535 str str_len end0 res0"

definition s_strtoui ::
  "bytes option \<Rightarrow> nat \<Rightarrow> nat option \<Rightarrow> nat \<Rightarrow> (nat \<times> nat option \<times> nat) option" where
  "s_strtoui str str_len end0 res0 = strto_gen 4294967295 str str_len end0 res0"

text \<open>\<open>s_strtoull\<close> has no wider type and tests for a wrap-around of \<open>unsigned long long\<close>.\<close>

function ull_loop :: "bytes \<Rightarrow> nat \<Rightarrow> nat \<Rightarrow> u64 \<Rightarrow> (nat \<times> u64) option" where
  "ull_loop str str_len i res =
     (if i < str_len then do {
        c \<leftarrow> rd str i;
        if isdigit c then
          (if res * 10 \<ge> res then
             (let tmp_result = res * 10; d = of_nat (todigit c)
              in if tmp_result + d \<ge> tmp_result
                 then ull_loop str str_len (Suc i) (tmp_result + d)
                 else Some (i, res))
           else Some (i, res))
        else Some (i, res) }
      else Some (i, res))"
  by pat_completeness auto
termination
  by (relation "measure (\<lambda>(str, str_len, i, r). str_len - i)") auto

definition s_strtoull ::
  "bytes option \<Rightarrow> nat \<Rightarrow> nat option \<Rightarrow> u64 \<Rightarrow> (nat \<times> nat option \<times> u64) option" where
  "s_strtoull str str_len end0 res0 =
     (case str of
        Some s \<Rightarrow>
          if str_len \<noteq> 0 then do {
            i \<leftarrow> skip_nondigits s str_len 0;
            (j, res) \<leftarrow> ull_loop s str_len i 0;
            Some (j, if j < str_len then Some j else None, res) }
          else Some (0, end0, res0)
      | None \<Rightarrow> Some (0, end0, res0))"

section \<open>Comparing\<close>

function strncmp_loop :: "(u8 \<Rightarrow> u8) \<Rightarrow> bytes \<Rightarrow> bytes \<Rightarrow> nat \<Rightarrow> nat \<Rightarrow> nat option" where
  "strncmp_loop f str1 str2 n idx =
     (if idx < n then do {
        a \<leftarrow> rd str1 idx;
        b \<leftarrow> rd str2 idx;
        if f a = f b then strncmp_loop f str1 str2 n (Suc idx) else Some idx }
      else Some idx)"
  by pat_completeness auto
termination
  by (relation "measure (\<lambda>(f, s1, s2, n, idx). n - idx)") auto

definition strncmp_gen :: "(u8 \<Rightarrow> u8) \<Rightarrow> bytes option \<Rightarrow> bytes option \<Rightarrow> nat \<Rightarrow> int option" where
  "strncmp_gen f str1 str2 n =
     (case (str1, str2) of
        (Some s1, Some s2) \<Rightarrow>
          if n \<noteq> 0 then do {
            idx \<leftarrow> strncmp_loop f s1 s2 n 0;
            Some (if int idx = int_cast n then 0 else int idx + 1) }
          else Some (-1)
      | _ \<Rightarrow> Some (-1))"

definition s_strncmpi :: "bytes option \<Rightarrow> bytes option \<Rightarrow> nat \<Rightarrow> int option" where
  "s_strncmpi str1 str2 n = strncmp_gen toupper str1 str2 n"

definition s_strncmp :: "bytes option \<Rightarrow> bytes option \<Rightarrow> nat \<Rightarrow> int option" where
  "s_strncmp str1 str2 n = strncmp_gen id str1 str2 n"

section \<open>Trimming\<close>

text \<open>\<open>memchr(s, 0, len)\<close>.\<close>

function memchr0 :: "bytes \<Rightarrow> nat \<Rightarrow> nat \<Rightarrow> nat option option" where
  "memchr0 s len i =
     (if i < len then do {
        c \<leftarrow> rd s i;
        if c = 0 then Some (Some i) else memchr0 s len (Suc i) }
      else Some None)"
  by pat_completeness auto
termination
  by (relation "measure (\<lambda>(s, len, i). len - i)") auto

text \<open>
  The backward scan: the argument is one more than the index of \<open>ptr\<close>, so 0 stands for
  \<open>ptr < s\<close>; the result is the index at which the terminator is written.
\<close>

fun rtrim_scan :: "bytes \<Rightarrow> nat \<Rightarrow> nat option" where
  "rtrim_scan s 0 = Some 0"
| "rtrim_scan s (Suc p) = do {
     c \<leftarrow> rd s p;
     if isspace c then rtrim_scan s p else Some (Suc p) }"

definition s_strtrim_right :: "bytes option \<Rightarrow> nat \<Rightarrow> bytes option option" where
  "s_strtrim_right s len =
     (case s of
        Some b \<Rightarrow>
          if len \<noteq> 0 then do {
            found \<leftarrow> memchr0 b len 0;
            (b', ptr) \<leftarrow> (case found of
               Some p \<Rightarrow> Some (b, p)
             | None \<Rightarrow> do { b' \<leftarrow> wr b (len - 1) 0; Some (b', len - 1) });
            p \<leftarrow> rtrim_scan b' ptr;
            b'' \<leftarrow> wr b' p 0;
            Some (Some b'') }
          else Some (Some b)
      | None \<Rightarrow> Some None)"

function ltrim_scan :: "bytes \<Rightarrow> nat \<Rightarrow> nat \<Rightarrow> nat option" where
  "ltrim_scan s len i =
     (if i < len then do {
        c \<leftarrow> rd s i;
        if c \<noteq> 0 \<and> isspace c then ltrim_scan s len (Suc i) else Some i }
      else Some i)"
  by pat_completeness auto
termination
  by (relation "measure (\<lambda>(s, len, i). len - i)") auto

function ltrim_move :: "bytes \<Rightarrow> nat \<Rightarrow> nat \<Rightarrow> nat \<Rightarrow> (bytes \<times> nat \<times> nat) option" where
  "ltrim_move s len src_idx dst_idx =
     (if src_idx < len then do {
        c \<leftarrow> rd s src_idx;
        if c \<noteq> 0 then do {
          s' \<leftarrow> wr s dst_idx c;
          ltrim_move s' len (Suc src_idx) (Suc dst_idx) }
        else Some (s, src_idx, dst_idx) }
      else Some (s, src_idx, dst_idx))"
  by pat_completeness auto
termination
  by (relation "measure (\<lambda>(s, len, i, j). len - i)") auto

definition s_strtrim_left :: "bytes option \<Rightarrow> nat \<Rightarrow> bytes option option" where
  "s_strtrim_left s len =
     (case s of
        Some b \<Rightarrow>
          if len \<noteq> 0 then do {
            i \<leftarrow> ltrim_scan b len 0;
            (b', src_idx, dst_idx) \<leftarrow> ltrim_move b len i 0;
            b'' \<leftarrow> (if src_idx = len \<and> dst_idx \<noteq> 0 then wr b' (dst_idx - 1) 0
                   else wr b' dst_idx 0);
            Some (Some b'') }
          else Some (Some b)
      | None \<Rightarrow> Some None)"

definition s_strtrim :: "bytes option \<Rightarrow> nat \<Rightarrow> bytes option option" where
  "s_strtrim s len =
     (case s of
        Some b \<Rightarrow>
          if len \<noteq> 0 then do {
            s1 \<leftarrow> s_strtrim_left (Some b) len;
            s_strtrim_right s1 len }
          else Some (Some b)
      | None \<Rightarrow> Some None)"

section \<open>Replacing\<close>

text \<open>
  The loop of \<open>s_strrep_char\<close>: the state is the destination buffer, the two indices and the
  return code so far. \<open>dst_size - 1\<close> and \<open>src_size - 1\<close> are \<open>size_t\<close> expressions.
\<close>

function strrep_loop ::
  "nat \<Rightarrow> bytes \<Rightarrow> nat \<Rightarrow> u8 \<Rightarrow> bytes \<Rightarrow> nat \<Rightarrow> bytes \<Rightarrow> nat \<Rightarrow> nat \<Rightarrow> int \<Rightarrow>
   (bytes \<times> nat \<times> nat \<times> int) option" where
  "strrep_loop dst_size src src_size target rep rep_size dst di si rc =
     (if si < src_size \<and> di < size_dec dst_size then do {
        c \<leftarrow> rd src si;
        if c = target then
          (if di + rep_size < dst_size then do {
             ys \<leftarrow> rd_bytes rep 0 rep_size;
             dst' \<leftarrow> wr_bytes dst di ys;
             strrep_loop dst_size src src_size target rep rep_size dst' (di + rep_size) (Suc si) rc }
           else Some (dst, di, si, int_cast si))
        else if c = 0 then Some (dst, di, si, 0)
        else do {
          dst' \<leftarrow> wr dst di c;
          strrep_loop dst_size src src_size target rep rep_size dst' (Suc di) (Suc si)
            (if si = size_dec src_size then 0 else rc) } }
      else Some (dst, di, si, rc))"
  by pat_completeness auto
termination
  by (relation "measure (\<lambda>(ds, src, src_size, t, r, rs, dst, di, si, rc). src_size - si)") auto

definition s_strrep_char ::
  "bytes \<Rightarrow> nat \<Rightarrow> bytes \<Rightarrow> nat \<Rightarrow> u8 \<Rightarrow> bytes \<Rightarrow> nat \<Rightarrow> (bytes \<times> int) option" where
  "s_strrep_char dst dst_size src src_size target rep rep_size = do {
     (dst', di, si, rc) \<leftarrow> strrep_loop dst_size src src_size target rep rep_size dst 0 0 (-1);
     dst'' \<leftarrow> wr dst' di 0;
     Some (dst'', if rc = -1 then int_cast si else rc) }"

declare s_strrchr_loop.simps [simp del] s_strnlen_loop.simps [simp del] copy_loop.simps [simp del]
  strcpy_loop.simps [simp del] strncpy_unterm_loop.simps [simp del] skip_nondigits.simps [simp del]
  digits_loop.simps [simp del] ull_loop.simps [simp del] strncmp_loop.simps [simp del]
  memchr0.simps [simp del] ltrim_scan.simps [simp del] ltrim_move.simps [simp del]
  strrep_loop.simps [simp del]

end
