(* ===== verification/S_Str_Facts.thy ===== *)
theory S_Str_Facts
  imports S_Str
begin

text \<open>
  The behaviour of the string routines. Every lemma gives the result as \<open>Some\<close> of a value, so it
  is a memory-safety statement as well: under the stated buffer sizes no byte outside the
  buffers is read or written. \<open>put_str\<close> describes what a copying routine leaves in its
  destination, \<open>dec_val\<close> the value of a decimal numeral, \<open>rtrim\<close> and \<open>ltrim\<close> trimming and
  \<open>rep_text\<close> replacement on abstract strings.
\<close>

section \<open>Scans\<close>

lemma readable_drop_Suc:
  assumes "readable (drop i b) n" and "0 < n"
  shows "i < length b" and "b ! i \<noteq> 0 \<Longrightarrow> readable (drop (Suc i) b) (n - 1)"
proof -
  show i: "i < length b"
    using assms by (cases "i < length b") (auto simp: readable_def)
  then have "drop i b = b ! i # drop (Suc i) b"
    by (simp add: Cons_nth_drop_Suc)
  then show "b ! i \<noteq> 0 \<Longrightarrow> readable (drop (Suc i) b) (n - 1)"
    using assms by (auto simp: readable_def)
qed

lemma cstr_simps [simp]:
  "cstr [] = []" "cstr (0 # b) = []" "c \<noteq> 0 \<Longrightarrow> cstr (c # b) = c # cstr b"
  by (simp_all add: cstr_def)

lemma cstr_no_zero: "0 \<notin> set (cstr b)"
  unfolding cstr_def using set_takeWhileD by fastforce

lemma cstr_append_zero: "0 \<notin> set w \<Longrightarrow> cstr (w @ 0 # r) = w"
  by (induction w) auto

lemma cstr_id: "0 \<notin> set w \<Longrightarrow> cstr w = w"
  by (induction w) auto

lemma cstr_take: "cstr (take n b) = take n (cstr b)"
  by (simp add: cstr_def takeWhile_take)

lemma length_cstr_take: "length (cstr (take n b)) \<le> n"
  by (simp add: cstr_take)

lemma length_cstr: "length (cstr b) \<le> length b"
  by (simp add: cstr_def length_takeWhile_le)

lemma cstr_prefix: "b = cstr b @ drop (length (cstr b)) b"
  by (metis append_take_drop_id cstr_def takeWhile_eq_take)

text \<open>One step of a scan: where the limit is not reached, the next byte is in bounds.\<close>

lemma cstr_take_drop_step:
  assumes "i < length b" and "0 < n"
  shows "cstr (take n (drop i b)) =
           (if b ! i = 0 then [] else b ! i # cstr (take (n - 1) (drop (Suc i) b)))"
proof -
  have "drop i b = b ! i # drop (Suc i) b" using assms by (simp add: Cons_nth_drop_Suc)
  then show ?thesis using assms by (cases n) auto
qed

lemma s_strnlen_loop_eq:
  "readable (drop i b) (m - i) \<Longrightarrow> i \<le> m \<Longrightarrow>
   s_strnlen_loop b m i = Some (i + length (cstr (take (m - i) (drop i b))))"
proof (induction b m i rule: s_strnlen_loop.induct)
  case (1 b m i)
  show ?case
  proof (cases "i < m")
    case False
    with 1(3) have "i = m" by simp
    then show ?thesis by (simp add: s_strnlen_loop.simps [of b m m])
  next
    case True
    have i: "i < length b" and r: "b ! i \<noteq> 0 \<Longrightarrow> readable (drop (Suc i) b) (m - Suc i)"
      using readable_drop_Suc [OF 1(2)] True by auto
    show ?thesis
    proof (cases "b ! i = 0")
      case z: True
      then show ?thesis using True i
        by (simp add: s_strnlen_loop.simps [of b m i] rd_in cstr_take_drop_step)
    next
      case False
      have "s_strnlen_loop b m (Suc i) =
              Some (Suc i + length (cstr (take (m - Suc i) (drop (Suc i) b))))"
        by (rule 1(1) [OF True, of "b ! i"]) (use True False r i in \<open>auto simp: rd_in\<close>)
      then show ?thesis using True False i
        by (simp add: s_strnlen_loop.simps [of b m i] rd_in cstr_take_drop_step)
    qed
  qed
qed

lemma s_strnlen_eq:
  "readable b m \<Longrightarrow> s_strnlen (Some b) m = Some (length (cstr (take m b)))"
  using s_strnlen_loop_eq [of 0 b m] by (simp add: s_strnlen_def)

text \<open>
  The effect of the copy loops, together with the terminator that is written at the end: the
  string that was read replaces what was at the position, followed by a terminator.
\<close>

definition put_str :: "'a::zero list \<Rightarrow> nat \<Rightarrow> 'a list \<Rightarrow> 'a list" where
  "put_str dst di w = take di dst @ w @ 0 # drop (Suc (di + length w)) dst"

lemma length_put_str: "di + length w < length dst \<Longrightarrow> length (put_str dst di w) = length dst"
  by (simp add: put_str_def)

lemma put_str_Nil: "di < length dst \<Longrightarrow> put_str dst di [] = dst[di := 0]"
  by (simp add: put_str_def upd_conv_take_nth_drop)

lemma put_str_Cons:
  "di < length dst \<Longrightarrow> put_str (dst[di := c]) (Suc di) w = put_str dst di (c # w)"
  by (simp add: put_str_def take_Suc_conv_app_nth)

lemma put_str_update: "di < length dst \<Longrightarrow> put_str (dst[di := c]) di w = put_str dst di w"
  by (simp add: put_str_def)

lemma copy_loop_eq:
  "readable (drop si src) (nat n - si) \<Longrightarrow> di + (nat n - si) < length dst \<Longrightarrow>
   w = cstr (take (nat n - si) (drop si src)) \<Longrightarrow>
   (copy_loop dst di src si n \<bind> (\<lambda>(d, j). wr d j 0)) = Some (put_str dst di w)"
proof (induction dst di src si n arbitrary: w rule: copy_loop.induct)
  case (1 dst di src si n)
  show ?case
  proof (cases "int si < n")
    case False
    with 1(3,4) show ?thesis
      by (simp add: copy_loop.simps [of dst di src si n] wr_in put_str_Nil)
  next
    case True
    have i: "si < length src"
      and r: "src ! si \<noteq> 0 \<Longrightarrow> readable (drop (Suc si) src) (nat n - Suc si)"
      using readable_drop_Suc [OF 1(2)] True by auto
    have di: "di < length dst" using 1(3) by simp
    show ?thesis
    proof (cases "src ! si = 0")
      case z: True
      then show ?thesis using True i di 1(4)
        by (simp add: copy_loop.simps [of dst di src si n] rd_in wr_in cstr_take_drop_step
             put_str_Nil put_str_update)
    next
      case False
      define w' where "w' = cstr (take (nat n - Suc si) (drop (Suc si) src))"
      have w: "w = src ! si # w'"
        using 1(4) False True i by (simp add: cstr_take_drop_step w'_def)
      have "(copy_loop (dst[di := src ! si]) (Suc di) src (Suc si) n \<bind> (\<lambda>(d, j). wr d j 0)) =
              Some (put_str (dst[di := src ! si]) (Suc di) w')"
        using True False i di r 1(3)
        by (intro 1(1) [of "src ! si" "dst[di := src ! si]"]) (auto simp: rd_in wr_in w'_def)
      then show ?thesis using True False i di w
        by (simp add: copy_loop.simps [of dst di src si n] rd_in wr_in put_str_Cons)
    qed
  qed
qed

lemma strcpy_loop_eq:
  "readable (drop si src) (end_i - di) \<Longrightarrow> end_i < length dst \<Longrightarrow> di \<le> end_i \<Longrightarrow>
   w = cstr (take (end_i - di) (drop si src)) \<Longrightarrow>
   (strcpy_loop dst di end_i src si \<bind> (\<lambda>(d, j). wr d j 0 \<bind> (\<lambda>d'. Some (d', j)))) =
     Some (put_str dst di w, di + length w)"
proof (induction dst di end_i src si arbitrary: w rule: strcpy_loop.induct)
  case (1 dst di end_i src si)
  show ?case
  proof (cases "di < end_i")
    case False
    with 1(4) have "di = end_i" by simp
    with 1(3,5) show ?thesis
      by (simp add: strcpy_loop.simps [of dst end_i end_i src si] wr_in put_str_Nil)
  next
    case True
    have i: "si < length src"
      and r: "src ! si \<noteq> 0 \<Longrightarrow> readable (drop (Suc si) src) (end_i - Suc di)"
      using readable_drop_Suc [OF 1(2)] True by auto
    have di: "di < length dst" using True 1(3) by simp
    show ?thesis
    proof (cases "src ! si = 0")
      case z: True
      then show ?thesis using True i di 1(5)
        by (simp add: strcpy_loop.simps [of dst di end_i src si] rd_in wr_in cstr_take_drop_step
             put_str_Nil)
    next
      case False
      define w' where "w' = cstr (take (end_i - Suc di) (drop (Suc si) src))"
      have w: "w = src ! si # w'"
        using 1(5) False True i by (simp add: cstr_take_drop_step w'_def)
      have "(strcpy_loop (dst[di := src ! si]) (Suc di) end_i src (Suc si) \<bind>
               (\<lambda>(d, j). wr d j 0 \<bind> (\<lambda>d'. Some (d', j)))) =
              Some (put_str (dst[di := src ! si]) (Suc di) w', Suc di + length w')"
        using True False i di r 1(3)
        by (intro 1(1) [of "src ! si" "dst[di := src ! si]"]) (auto simp: rd_in wr_in w'_def)
      then show ?thesis using True False i di w
        by (simp add: strcpy_loop.simps [of dst di end_i src si] rd_in wr_in put_str_Cons)
    qed
  qed
qed

lemma strcpy_gen_eq:
  assumes "0 < n" and "n \<le> length d" and "readable s (n - 1)"
  shows "strcpy_gen (Some d) (Some s) n =
           Some (Some (put_str d 0 (cstr (take (n - 1) s))), length (cstr (take (n - 1) s)))"
proof -
  have "(strcpy_loop d 0 (n - 1) s 0 \<bind> (\<lambda>(d, j). wr d j 0 \<bind> (\<lambda>d'. Some (d', j)))) =
          Some (put_str d 0 (cstr (take (n - 1) s)), 0 + length (cstr (take (n - 1) s)))"
    by (rule strcpy_loop_eq) (use assms in auto)
  then show ?thesis using assms
    by (cases "strcpy_loop d 0 (n - 1) s 0") (auto simp: strcpy_gen_def bind_eq_Some_conv)
qed

lemma cstr_put_str:
  assumes "0 \<notin> set w" and "0 \<notin> set (take di dst)" and "di \<le> length dst"
  shows "cstr (put_str dst di w) = take di dst @ w"
  using cstr_append_zero [of "take di dst @ w"] assms by (simp add: put_str_def)

section \<open>Functional behaviour of the copying routines\<close>

lemma s_strcpy_eq:
  assumes "0 < n" and "n \<le> length d" and "readable s (n - 1)"
  shows "s_strcpy (Some d) (Some s) n =
           Some (Some (put_str d 0 (cstr (take (n - 1) s))), length (cstr (take (n - 1) s)))"
  using strcpy_gen_eq [OF assms] by (simp add: s_strcpy_def)

lemma s_strcpy_cstr:
  assumes "0 < n" and "n \<le> length d" and "readable s (n - 1)"
    and "s_strcpy (Some d) (Some s) n = Some (Some d', j)"
  shows "cstr d' = take (n - 1) (cstr s)" and "length d' = length d" and "drop n d' = drop n d"
    and "j = length (cstr d')"
proof -
  let ?w = "cstr (take (n - 1) s)"
  have d': "d' = put_str d 0 ?w" and j: "j = length ?w"
    using s_strcpy_eq [OF assms(1-3)] assms(4) by auto
  have len: "length ?w < n" using length_cstr_take [of "n - 1" s] assms(1) by linarith
  have "0 \<notin> set ?w" by (rule cstr_no_zero)
  then have "cstr d' = ?w" using cstr_put_str [of ?w 0 d] by (simp add: d')
  then show "cstr d' = take (n - 1) (cstr s)" by (simp add: cstr_take)
  then show "j = length (cstr d')" by (simp add: j cstr_take)
  show "length d' = length d"
    unfolding d' using len assms(2) by (intro length_put_str) simp
  show "drop n d' = drop n d"
    using len by (simp add: d' put_str_def drop_Cons')
qed

lemma take_length_cstr: "take (length (cstr (take n d))) d = cstr (take n d)"
proof -
  have "take (length (cstr (take n d))) (take n d) = cstr (take n d)"
    unfolding cstr_def by (rule takeWhile_eq_take [symmetric])
  then show ?thesis using length_cstr_take [of n d] by (simp add: min_def)
qed

lemma s_strcat_eq:
  assumes size: "n < 2 ^ 31" "n \<le> length d" and l: "l = length (cstr (take n d))"
    and room: "Suc l < n" and src: "readable s (n - 1 - l)"
  shows "s_strcat (Some d) n (Some s) =
           Some (Some (put_str d l (take (n - 1 - l) (cstr s))))"
proof -
  have len: "s_strnlen (Some d) n = Some l"
    unfolding l using size by (intro s_strnlen_eq) (simp add: readable_def)
  have c: "int_cast n = int n" "int_cast l = int l"
    using size room by (auto simp: int_cast_small)
  have "(copy_loop d l s 0 (int n - 1 - int l) \<bind> (\<lambda>(d, j). wr d j 0)) =
          Some (put_str d l (cstr (take (n - 1 - l) s)))"
    by (rule copy_loop_eq) (use size room src in \<open>simp_all add: nat_diff_distrib\<close>)
  then show ?thesis
    using room by (auto simp: s_strcat_def len c cstr_take bind_eq_Some_conv split: prod.splits)
qed

lemma s_strcat_cstr:
  assumes size: "n < 2 ^ 31" "n \<le> length d"
    and room: "Suc (length (cstr (take n d))) < n"
    and src: "readable s (n - 1 - length (cstr (take n d)))"
  obtains d' where "s_strcat (Some d) n (Some s) = Some (Some d')"
    and "cstr d' = take (n - 1) (cstr d @ cstr s)" and "length d' = length d"
    and "drop n d' = drop n d"
proof -
  define l where "l = length (cstr (take n d))"
  define w where "w = take (n - 1 - l) (cstr s)"
  have l: "Suc l < n" using room by (simp add: l_def)
  have d: "cstr d = take l d" and ln: "length (cstr d) = l"
    using l take_length_cstr [of n d] length_cstr [of d] by (auto simp: l_def cstr_take)
  have w: "length w \<le> n - 1 - l" by (simp add: w_def)
  have "cstr (put_str d l w) = take l d @ w"
    using l size by (intro cstr_put_str)
      (auto simp: w_def d [symmetric] cstr_no_zero dest: in_set_takeD)
  moreover have "take (n - 1) (cstr d @ cstr s) = take l d @ w"
    using l by (simp add: ln w_def d [symmetric])
  moreover have "length (put_str d l w) = length d"
    using w l size by (intro length_put_str) simp
  moreover have "drop n (put_str d l w) = drop n d"
    using w l size by (simp add: put_str_def drop_Cons')
  ultimately show ?thesis
    using that [of "put_str d l w"] s_strcat_eq [OF size l_def] l src by (simp add: l_def w_def)
qed

lemma s_strncpy_eq:
  assumes "0 < n" "n \<le> 2 ^ 31" "n \<le> length d" "readable s (min (n - 1) m)"
  shows "s_strncpy (Some d) n (Some s) m =
           Some (Some (put_str d 0 (cstr (take (min (n - 1) m) s))))"
proof -
  obtain k where n: "n = Suc k" using assms by (cases n) auto
  have all: "int_cast k = int k" using assms by (intro int_cast_small) (simp add: n)
  have m: "int_cast m = int m" if "m < k" using that assms by (intro int_cast_small) (simp add: n)
  have size: "size_cast (int k) = k"
    using assms by (simp add: size_cast_def nat_mod_distrib n)
  define c where "c = (if m < k then int_cast m else int k)"
  have c: "nat c = min k m" using m by (auto simp: c_def)
  have "(copy_loop d 0 s 0 c \<bind> (\<lambda>(d, j). wr d j 0)) = Some (put_str d 0 (cstr (take (min k m) s)))"
    by (rule copy_loop_eq) (use assms c in \<open>auto simp: n\<close>)
  moreover have "s_strncpy (Some d) n (Some s) m =
      (copy_loop d 0 s 0 c \<bind> (\<lambda>(d', j). wr d' j 0 \<bind> (\<lambda>d''. Some (Some d''))))"
    by (simp add: s_strncpy_def n all size c_def)
  ultimately show ?thesis
    by (auto simp: n bind_eq_Some_conv split: prod.splits)
qed

section \<open>Functional behaviour of the numeric conversions\<close>

definition dec_step :: "nat \<Rightarrow> u8 \<Rightarrow> nat" where
  "dec_step r c = r * 10 + todigit c"

definition dec_val :: "bytes \<Rightarrow> nat" where
  "dec_val ds = foldl dec_step 0 ds"

lemma isdigit_nonzero [simp]: "\<not> isdigit 0"
  by (simp add: isdigit_def)

lemma skip_nondigits_eq:
  "readable (drop i s) (len - i) \<Longrightarrow> i \<le> len \<Longrightarrow>
   skip_nondigits s len i =
     Some (i + length (takeWhile (\<lambda>c. \<not> isdigit c \<and> c \<noteq> 0) (take (len - i) (drop i s))))"
proof (induction s len i rule: skip_nondigits.induct)
  case (1 s len i)
  show ?case
  proof (cases "i < len")
    case False
    with 1(3) have "i = len" by simp
    then show ?thesis by (simp add: skip_nondigits.simps [of s len len])
  next
    case True
    have i: "i < length s" and r: "s ! i \<noteq> 0 \<Longrightarrow> readable (drop (Suc i) s) (len - Suc i)"
      using readable_drop_Suc [OF 1(2)] True by auto
    have d: "take (len - i) (drop i s) = s ! i # take (len - Suc i) (drop (Suc i) s)"
      using i True by (simp add: Cons_nth_drop_Suc [symmetric] take_Cons' )
    show ?thesis
    proof (cases "\<not> isdigit (s ! i) \<and> s ! i \<noteq> 0")
      case False
      then show ?thesis using True i
        by (auto simp: skip_nondigits.simps [of s len i] rd_in d)
    next
      case c: True
      then have "skip_nondigits s len (Suc i) = Some (Suc i +
          length (takeWhile (\<lambda>c. \<not> isdigit c \<and> c \<noteq> 0) (take (len - Suc i) (drop (Suc i) s))))"
        using True i r by (intro 1(1) [of "s ! i"]) (auto simp: rd_in)
      then show ?thesis using True i c
        by (simp add: skip_nondigits.simps [of s len i] rd_in d)
    qed
  qed
qed

lemma foldl_dec_step_ge: "r \<le> foldl dec_step r ds"
proof (induction ds arbitrary: r)
  case (Cons d ds)
  have "r \<le> dec_step r d" by (simp add: dec_step_def)
  with Cons [of "dec_step r d"] show ?case by simp
qed simp

lemma foldl_dec_step_mono: "foldl dec_step r (take k ds) \<le> foldl dec_step r ds"
  by (metis append_take_drop_id foldl_append foldl_dec_step_ge)

text \<open>
  The conversion loop takes the longest prefix of the digits whose value does not pass the
  limit: the result is the value of that prefix, and one more digit would pass the limit.
\<close>

lemma digits_loop_eq:
  "readable (drop i s) (len - i) \<Longrightarrow> i \<le> len \<Longrightarrow> res \<le> M \<Longrightarrow>
   ds = takeWhile isdigit (take (len - i) (drop i s)) \<Longrightarrow>
   \<exists>k. digits_loop M s len i res = Some (i + k, foldl dec_step res (take k ds)) \<and>
       k \<le> length ds \<and> foldl dec_step res (take k ds) \<le> M \<and>
       (k < length ds \<longrightarrow> M < foldl dec_step res (take (Suc k) ds))"
proof (induction M s len i res arbitrary: ds rule: digits_loop.induct)
  case (1 M s len i res)
  show ?case
  proof (cases "i < len")
    case False
    with 1(3) have "i = len" by simp
    with 1(4,5) show ?thesis
      by (intro exI [of _ 0]) (simp add: digits_loop.simps [of M s len len])
  next
    case True
    have i: "i < length s" and r: "s ! i \<noteq> 0 \<Longrightarrow> readable (drop (Suc i) s) (len - Suc i)"
      using readable_drop_Suc [OF 1(2)] True by auto
    have d: "take (len - i) (drop i s) = s ! i # take (len - Suc i) (drop (Suc i) s)"
      using i True by (simp add: Cons_nth_drop_Suc [symmetric] take_Cons')
    define ds' where "ds' = takeWhile isdigit (take (len - Suc i) (drop (Suc i) s))"
    show ?thesis
    proof (cases "isdigit (s ! i) \<and> dec_step res (s ! i) \<le> M")
      case False
      then show ?thesis using True i 1(4,5)
        by (intro exI [of _ 0])
           (auto simp: digits_loop.simps [of M s len i] rd_in d dec_step_def Let_def)
    next
      case c: True
      then have nz: "s ! i \<noteq> 0" by auto
      have ds: "ds = s ! i # ds'" using c 1(5) by (simp add: d ds'_def)
      obtain k where k: "digits_loop M s len (Suc i) (dec_step res (s ! i)) =
            Some (Suc i + k, foldl dec_step (dec_step res (s ! i)) (take k ds'))"
          "k \<le> length ds'" "foldl dec_step (dec_step res (s ! i)) (take k ds') \<le> M"
          "k < length ds' \<Longrightarrow> M < foldl dec_step (dec_step res (s ! i)) (take (Suc k) ds')"
        using 1(1) [OF True, of "s ! i" "dec_step res (s ! i)" ds'] c True i r nz
        by (auto simp: rd_in ds'_def simp flip: dec_step_def)
      then show ?thesis using True i c
        by (intro exI [of _ "Suc k"])
           (auto simp: digits_loop.simps [of M s len i] rd_in ds Let_def simp flip: dec_step_def)
    qed
  qed
qed

lemma readable_drop:
  assumes "readable b n" and "0 \<notin> set (take i b)"
  shows "readable (drop i b) (n - i)"
proof (cases "n \<le> length b")
  case True
  then show ?thesis by (simp add: readable_def diff_le_mono)
next
  case False
  then have "0 \<in> set (take i b @ drop i b)" using assms(1) by (simp add: readable_def)
  then have "0 \<in> set (drop i b)" using assms(2) by (metis Un_iff set_append)
  then show ?thesis by (simp add: readable_def)
qed

text \<open>
  A conversion reads a number written in decimal: it skips what comes before the digits and
  returns their value, the position behind them, and that position through \<open>pp_end\<close>.
\<close>

lemma strto_gen_decimal:
  assumes s: "s = pre @ ds @ rest" and pre: "\<forall>c \<in> set pre. \<not> isdigit c \<and> c \<noteq> 0"
    and ds: "\<forall>c \<in> set ds. isdigit c" "ds \<noteq> []" and val: "dec_val ds \<le> M"
    and n: "n = length pre + length ds" "n \<le> len" and r: "readable s len"
    and stop: "n < len \<Longrightarrow> rest \<noteq> [] \<and> \<not> isdigit (hd rest)"
  shows "strto_gen M (Some s) len e res =
           Some (n, if n < len then Some n else None, dec_val ds)"
proof -
  let ?i = "length pre"
  define t where "t = take (len - n) rest"
  have t: "takeWhile isdigit t = []"
    using stop by (cases rest; cases "n < len") (auto simp: t_def take_Cons')
  have all: "take len s = pre @ ds @ t"
    using n by (simp add: s t_def)
  have pre0: "takeWhile (\<lambda>c. \<not> isdigit c \<and> c \<noteq> 0) (pre @ ds @ t) = pre"
    using pre ds by (cases ds) (auto simp: takeWhile_append)
  have skip: "skip_nondigits s len 0 = Some ?i"
    using skip_nondigits_eq [of 0 s len] r by (simp add: all pre0)
  have "take (len - ?i) (drop ?i s) = ds @ t"
    using n by (simp add: s t_def)
  then have ds': "takeWhile isdigit (take (len - ?i) (drop ?i s)) = ds"
    using ds t by (simp add: takeWhile_append2 [OF ds(1) [rule_format]])
  have "0 \<notin> set (take ?i s)" using pre by (auto simp: s)
  from readable_drop [OF r this] have rd': "readable (drop ?i s) (len - ?i)" .
  obtain k where k: "digits_loop M s len ?i 0 = Some (?i + k, foldl dec_step 0 (take k ds))"
      "k \<le> length ds" "k < length ds \<Longrightarrow> M < foldl dec_step 0 (take (Suc k) ds)"
    using digits_loop_eq [OF rd' _ _ ds' [symmetric], of 0 M] n by auto
  have "k = length ds"
    using foldl_dec_step_mono k val by (metis dec_val_def le_neq_implies_less not_less order_trans)
  with k(1) have dl: "digits_loop M s len ?i 0 = Some (n, dec_val ds)"
    by (simp add: dec_val_def n)
  have "0 < len" using n ds by (cases ds) auto
  then show ?thesis by (simp add: strto_gen_def skip dl)
qed

text \<open>In general the value stays within the limit and at most \<open>len\<close> characters are consumed.\<close>

lemma strto_gen_bound:
  assumes "readable s len"
  obtains j e' v where "strto_gen M (Some s) len e res = Some (j, e', v)"
    and "j \<le> len" and "v \<le> max M res" and "0 < len \<Longrightarrow> v \<le> M"
    and "0 < len \<Longrightarrow> e' = (if j < len then Some j else None)"
proof (cases "len = 0")
  case True
  then show ?thesis using that by (simp add: strto_gen_def)
next
  case False
  let ?w = "takeWhile (\<lambda>c. \<not> isdigit c \<and> c \<noteq> 0) (take len s)"
  define i where "i = length ?w"
  have i: "i \<le> len" using length_takeWhile_le [of _ "take len s"] by (simp add: i_def)
  have skip: "skip_nondigits s len 0 = Some i"
    using skip_nondigits_eq [of 0 s len] assms by (simp add: i_def)
  have "take i (take len s) = ?w" unfolding i_def by (rule takeWhile_eq_take [symmetric])
  then have "take i s = ?w" using i by (simp add: min_def)
  then have "0 \<notin> set (take i s)" by (auto dest: set_takeWhileD)
  from readable_drop [OF assms this]
  obtain k where "digits_loop M s len i 0 = Some (i + k,
        foldl dec_step 0 (take k (takeWhile isdigit (take (len - i) (drop i s)))))"
      "k \<le> length (takeWhile isdigit (take (len - i) (drop i s)))"
      "foldl dec_step 0 (take k (takeWhile isdigit (take (len - i) (drop i s)))) \<le> M"
    using digits_loop_eq [of i s len 0 M] i by auto
  moreover have "length (takeWhile isdigit (take (len - i) (drop i s))) \<le> len - i"
    using length_takeWhile_le [of isdigit "take (len - i) (drop i s)"] by simp
  ultimately show ?thesis
    using that False i by (simp add: strto_gen_def skip)
qed

text \<open>
  The wrap-around test of \<open>s_strtoull\<close> is not an overflow test: ten times a number may wrap to
  a value that is still larger than the number. A number of twenty digits is then accepted
  with a wrong value.
\<close>

lemma s_strtoull_wraps:
  "s_strtoull (Some (51 # replicate 19 48)) 20 None 0 = Some (20, None, 11553255926290448384)"
  by code_simp

section \<open>Comparison\<close>

lemma strncmp_loop_eq:
  "n \<le> length s1 \<Longrightarrow> n \<le> length s2 \<Longrightarrow> idx \<le> n \<Longrightarrow>
   \<exists>k. strncmp_loop f s1 s2 n idx = Some k \<and> idx \<le> k \<and> k \<le> n \<and>
       (\<forall>i. idx \<le> i \<and> i < k \<longrightarrow> f (s1 ! i) = f (s2 ! i)) \<and>
       (k < n \<longrightarrow> f (s1 ! k) \<noteq> f (s2 ! k))"
proof (induction f s1 s2 n idx rule: strncmp_loop.induct)
  case (1 f s1 s2 n idx)
  show ?case
  proof (cases "idx < n \<and> f (s1 ! idx) = f (s2 ! idx)")
    case False
    with 1 show ?thesis
      by (intro exI [of _ idx]) (auto simp: strncmp_loop.simps [of f s1 s2 n idx] rd_in)
  next
    case True
    with 1(2-4) have b: "rd s1 idx = Some (s1 ! idx)" "rd s2 idx = Some (s2 ! idx)"
      by (auto simp: rd_in)
    from True obtain k where k: "strncmp_loop f s1 s2 n (Suc idx) = Some k" "Suc idx \<le> k" "k \<le> n"
        "\<forall>i. Suc idx \<le> i \<and> i < k \<longrightarrow> f (s1 ! i) = f (s2 ! i)" "k < n \<longrightarrow> f (s1 ! k) \<noteq> f (s2 ! k)"
      using 1(1) [OF _ b] 1(2-4) by auto
    have "f (s1 ! i) = f (s2 ! i)" if "idx \<le> i" "i < k" for i
      using k(4) True that by (cases "i = idx") auto
    with True k 1(2,3) show ?thesis
      by (intro exI [of _ k]) (auto simp: strncmp_loop.simps [of f s1 s2 n idx] rd_in)
  qed
qed

text \<open>0 is returned exactly for two equal prefixes, and else one more than the first difference.\<close>

lemma strncmp_gen_eq:
  assumes "0 < n" "n < 2 ^ 31" "n \<le> length s1" "n \<le> length s2"
  obtains r where "strncmp_gen f (Some s1) (Some s2) n = Some r"
    and "r = 0 \<longleftrightarrow> map f (take n s1) = map f (take n s2)"
    and "r \<noteq> 0 \<Longrightarrow> 0 < r \<and> r \<le> int n \<and> f (s1 ! nat (r - 1)) \<noteq> f (s2 ! nat (r - 1)) \<and>
           map f (take (nat (r - 1)) s1) = map f (take (nat (r - 1)) s2)"
proof -
  obtain k where k: "strncmp_loop f s1 s2 n 0 = Some k" "k \<le> n"
      "\<And>i. i < k \<Longrightarrow> f (s1 ! i) = f (s2 ! i)" "k < n \<Longrightarrow> f (s1 ! k) \<noteq> f (s2 ! k)"
    using strncmp_loop_eq [of n s1 s2 0 f] assms by auto
  have pre: "map f (take k s1) = map f (take k s2)"
    using k(2,3) assms by (intro nth_equalityI) auto
  have ne: "map f (take n s1) \<noteq> map f (take n s2)" if "k < n"
  proof
    assume "map f (take n s1) = map f (take n s2)"
    then have "map f (take n s1) ! k = map f (take n s2) ! k" by simp
    then show False using that k(4) assms by simp
  qed
  let ?r = "if k = n then 0 else int k + 1"
  have "strncmp_gen f (Some s1) (Some s2) n = Some ?r"
    using assms k by (auto simp: strncmp_gen_def int_cast_small)
  moreover have "?r = 0 \<longleftrightarrow> map f (take n s1) = map f (take n s2)"
    using pre ne k(2) by (cases "k = n") auto
  moreover have "0 < ?r \<and> ?r \<le> int n \<and> f (s1 ! nat (?r - 1)) \<noteq> f (s2 ! nat (?r - 1)) \<and>
      map f (take (nat (?r - 1)) s1) = map f (take (nat (?r - 1)) s2)" if "?r \<noteq> 0"
    using that pre k(2,4) by (cases "k = n") auto
  ultimately show ?thesis by (rule that)
qed

lemma s_strncmp_eq_0:
  assumes "0 < n" "n < 2 ^ 31" "n \<le> length s1" "n \<le> length s2"
  shows "s_strncmp (Some s1) (Some s2) n = Some 0 \<longleftrightarrow> take n s1 = take n s2"
proof -
  obtain r where "strncmp_gen id (Some s1) (Some s2) n = Some r"
      "r = 0 \<longleftrightarrow> map id (take n s1) = map id (take n s2)"
    by (rule strncmp_gen_eq [OF assms, of id])
  then show ?thesis by (simp add: s_strncmp_def)
qed

section \<open>Trimming\<close>

definition rtrim :: "bytes \<Rightarrow> bytes" where
  "rtrim w = rev (dropWhile isspace (rev w))"

definition ltrim :: "bytes \<Rightarrow> bytes" where
  "ltrim w = dropWhile isspace w"

lemma isspace_nonzero [simp]: "\<not> isspace 0"
  by (simp add: isspace_def)

lemma rtrim_snoc: "rtrim (w @ [c]) = (if isspace c then rtrim w else w @ [c])"
  by (simp add: rtrim_def)

lemma rtrim_Nil [simp]: "rtrim [] = []"
  by (simp add: rtrim_def)

lemma rtrim_prefix: "\<exists>r. w = rtrim w @ r"
proof (induction w rule: rev_induct)
  case (snoc c w)
  then obtain r where "w = rtrim w @ r" by blast
  then show ?case by (auto simp: rtrim_snoc intro: exI [of _ "r @ [c]"] exI [of _ "[]"])
qed simp

lemma length_rtrim: "length (rtrim w) \<le> length w"
  using rtrim_prefix [of w] by (metis le_add1 length_append)

lemma take_rtrim: "take (length (rtrim w)) w = rtrim w"
  using rtrim_prefix [of w] by (metis append_eq_conv_conj)

lemma set_rtrim: "set (rtrim w) \<subseteq> set w"
  by (auto simp: rtrim_def dest: set_dropWhileD)

lemma rtrim_scan_eq: "p \<le> length b \<Longrightarrow> rtrim_scan b p = Some (length (rtrim (take p b)))"
proof (induction p)
  case (Suc p)
  then have "take (Suc p) b = take p b @ [b ! p]" by (simp add: take_Suc_conv_app_nth)
  with Suc show ?case by (simp add: rd_in rtrim_snoc)
qed simp

lemma memchr0_eq:
  "len \<le> length s \<Longrightarrow> i \<le> len \<Longrightarrow>
   memchr0 s len i = Some (let w = cstr (take (len - i) (drop i s)) in
     if i + length w < len then Some (i + length w) else None)"
proof (induction s len i rule: memchr0.induct)
  case (1 s len i)
  show ?case
  proof (cases "i < len")
    case False
    with 1(3) have "i = len" by simp
    then show ?thesis by (simp add: memchr0.simps [of s len len])
  next
    case True
    then have i: "i < length s" using 1(2) by simp
    show ?thesis
    proof (cases "s ! i = 0")
      case z: True
      then show ?thesis using True i
        by (simp add: memchr0.simps [of s len i] rd_in cstr_take_drop_step)
    next
      case False
      then have "memchr0 s len (Suc i) =
          Some (let w = cstr (take (len - Suc i) (drop (Suc i) s)) in
            if Suc i + length w < len then Some (Suc i + length w) else None)"
        using True i 1(2) by (intro 1(1) [of "s ! i"]) (auto simp: rd_in)
      then show ?thesis using True False i
        by (simp add: memchr0.simps [of s len i] rd_in cstr_take_drop_step Let_def)
    qed
  qed
qed

lemma ltrim_scan_eq:
  "len \<le> length s \<Longrightarrow> i \<le> len \<Longrightarrow>
   ltrim_scan s len i =
     Some (i + length (takeWhile isspace (cstr (take (len - i) (drop i s)))))"
proof (induction s len i rule: ltrim_scan.induct)
  case (1 s len i)
  show ?case
  proof (cases "i < len")
    case False
    with 1(3) have "i = len" by simp
    then show ?thesis by (simp add: ltrim_scan.simps [of s len len])
  next
    case True
    then have i: "i < length s" using 1(2) by simp
    show ?thesis
    proof (cases "s ! i \<noteq> 0 \<and> isspace (s ! i)")
      case False
      then show ?thesis using True i
        by (auto simp: ltrim_scan.simps [of s len i] rd_in cstr_take_drop_step)
    next
      case c: True
      then have "ltrim_scan s len (Suc i) =
          Some (Suc i + length (takeWhile isspace (cstr (take (len - Suc i) (drop (Suc i) s)))))"
        using True i 1(2) by (intro 1(1) [of "s ! i"]) (auto simp: rd_in)
      then show ?thesis using True c i
        by (auto simp: ltrim_scan.simps [of s len i] rd_in cstr_take_drop_step)
    qed
  qed
qed

lemma ltrim_move_eq:
  "len \<le> length s \<Longrightarrow> di \<le> si \<Longrightarrow> si \<le> len \<Longrightarrow> w = cstr (take (len - si) (drop si s)) \<Longrightarrow>
   ltrim_move s len si di =
     Some (take di s @ w @ drop (di + length w) s, si + length w, di + length w)"
proof (induction s len si di arbitrary: w rule: ltrim_move.induct)
  case (1 s len si di)
  show ?case
  proof (cases "si < len")
    case False
    with 1(4,5) have "si = len" "w = []" by auto
    then show ?thesis by (simp add: ltrim_move.simps [of s len len di])
  next
    case True
    then have i: "si < length s" and di: "di < length s" using 1(2,3) by simp_all
    show ?thesis
    proof (cases "s ! si = 0")
      case z: True
      then have "w = []" using True i 1(5) by (simp add: cstr_take_drop_step)
      then show ?thesis using True z i
        by (simp add: ltrim_move.simps [of s len si di] rd_in)
    next
      case False
      define w' where "w' = cstr (take (len - Suc si) (drop (Suc si) s))"
      have w: "w = s ! si # w'" using 1(5) False True i by (simp add: cstr_take_drop_step w'_def)
      let ?s = "s[di := s ! si]"
      have "drop (Suc si) ?s = drop (Suc si) s" using 1(3) by simp
      then have "ltrim_move ?s len (Suc si) (Suc di) =
          Some (take (Suc di) ?s @ w' @ drop (Suc di + length w') ?s, Suc si + length w', Suc di + length w')"
        using True False i di 1(2,3)
        by (intro 1(1) [of "s ! si"]) (auto simp: rd_in wr_in w'_def)
      moreover have "take (Suc di) ?s = take di s @ [s ! si]"
        using di by (simp add: take_Suc_conv_app_nth)
      ultimately show ?thesis using True False i di w
        by (simp add: ltrim_move.simps [of s len si di] rd_in wr_in)
    qed
  qed
qed

lemma put_str_alt:
  assumes a: "di + length w < length d"
  shows "(take di d @ w @ drop (di + length w) d)[di + length w := 0] = put_str d di w"
proof -
  from a have "drop (di + length w) d = d ! (di + length w) # drop (Suc (di + length w)) d"
    by (simp add: Cons_nth_drop_Suc)
  with a show ?thesis
    by (simp add: put_str_def list_update_append)
qed

lemma s_strtrim_left_eq:
  assumes "0 < len" "len \<le> length b" and nul: "length (cstr b) < len"
  shows "s_strtrim_left (Some b) len = Some (Some (put_str b 0 (ltrim (cstr b))))"
proof -
  let ?w = "cstr b" and ?k = "length (takeWhile isspace (cstr b))"
  have w: "cstr (take len b) = ?w" using nul by (simp add: cstr_take)
  have k: "?k \<le> length ?w" by (rule length_takeWhile_le)
  have b: "b = ?w @ drop (length ?w) b" by (rule cstr_prefix)
  have dw: "drop ?k ?w = ltrim ?w" by (simp add: ltrim_def dropWhile_eq_drop)
  have "cstr (take (len - ?k) (drop ?k b)) = ltrim ?w"
  proof -
    have "drop (length ?w) b = 0 # drop (Suc (length ?w)) b"
      using nul assms(2) nth_length_takeWhile [of "\<lambda>c. c \<noteq> 0" b]
      by (simp add: Cons_nth_drop_Suc [symmetric] cstr_def)
    then have "drop ?k b = ltrim ?w @ 0 # drop (Suc (length ?w)) b"
      using k b dw by (metis append_eq_conv_conj drop_append diff_is_0_eq drop0)
    moreover have "0 \<notin> set (ltrim ?w)"
      using cstr_no_zero [of b] by (auto simp: ltrim_def dest: set_dropWhileD)
    moreover have "length (ltrim ?w) < len - ?k"
      using nul k by (simp add: dw [symmetric])
    ultimately have "cstr (drop ?k b) = ltrim ?w" and "length (ltrim ?w) \<le> len - ?k"
      by (simp_all add: cstr_append_zero)
    then show ?thesis by (simp only: cstr_take) simp
  qed
  moreover have "?k + length (ltrim ?w) < len" using nul k by (simp add: dw [symmetric])
  ultimately show ?thesis
    using assms ltrim_scan_eq [of len b 0] ltrim_move_eq [of len b 0 ?k "ltrim ?w"] k
      put_str_alt [of 0 "ltrim ?w" b]
    by (simp add: s_strtrim_left_def w wr_in)
qed


lemma take_length_cstr_self: "take (length (cstr b)) b = cstr b"
  unfolding cstr_def by (rule takeWhile_eq_take [symmetric])

lemma s_strtrim_right_eq:
  assumes "0 < len" "len \<le> length b" and nul: "length (cstr b) < len"
  shows "s_strtrim_right (Some b) len = Some (Some (b[length (rtrim (cstr b)) := 0]))"
proof -
  have "cstr (take len b) = cstr b" using nul by (simp add: cstr_take)
  then have "memchr0 b len 0 = Some (Some (length (cstr b)))"
    using memchr0_eq [of len b 0] assms by simp
  moreover have "rtrim_scan b (length (cstr b)) = Some (length (rtrim (cstr b)))"
    using rtrim_scan_eq [of "length (cstr b)" b] nul assms(2) by (simp add: take_length_cstr_self)
  ultimately show ?thesis
    using assms length_rtrim [of "cstr b"] by (simp add: s_strtrim_right_def wr_in)
qed

lemma cstr_update_rtrim:
  assumes "length (cstr b) < length b"
  shows "cstr (b[length (rtrim (cstr b)) := 0]) = rtrim (cstr b)"
proof -
  let ?r = "rtrim (cstr b)"
  have l: "length ?r \<le> length (cstr b)" by (rule length_rtrim)
  have "take (length ?r) b = take (length ?r) (cstr b)"
    using l take_length_cstr_self [of b] by (metis min.absorb1 take_take)
  then have "take (length ?r) b = ?r" by (simp add: take_rtrim)
  then have "b[length ?r := 0] = ?r @ 0 # drop (Suc (length ?r)) b"
    using l assms by (simp add: upd_conv_take_nth_drop)
  moreover have "0 \<notin> set ?r" using set_rtrim [of "cstr b"] cstr_no_zero [of b] by blast
  ultimately show ?thesis by (simp add: cstr_append_zero)
qed

text \<open>Trimming a terminated buffer strips the white space at both ends of its string.\<close>

lemma s_strtrim_cstr:
  assumes "0 < len" "len \<le> length b" and nul: "length (cstr b) < len"
  obtains b' where "s_strtrim (Some b) len = Some (Some b')"
    and "cstr b' = rtrim (ltrim (cstr b))" and "length b' = length b" and "drop len b' = drop len b"
proof -
  let ?l = "ltrim (cstr b)" and ?b = "put_str b 0 (ltrim (cstr b))"
  have ll: "length ?l \<le> length (cstr b)" by (simp add: ltrim_def length_dropWhile_le)
  have "0 \<notin> set ?l" using cstr_no_zero [of b] by (auto simp: ltrim_def dest: set_dropWhileD)
  then have c: "cstr ?b = ?l" using cstr_put_str [of ?l 0 b] by simp
  have len: "length ?b = length b" using ll nul assms(2) by (intro length_put_str) simp
  have r: "length (rtrim ?l) < len" using length_rtrim [of ?l] ll nul by linarith
  have "s_strtrim_right (Some ?b) len = Some (Some (?b[length (rtrim ?l) := 0]))"
    using s_strtrim_right_eq [of len ?b] assms ll nul by (simp add: c len)
  then have "s_strtrim (Some b) len = Some (Some (?b[length (rtrim ?l) := 0]))"
    using assms by (simp add: s_strtrim_def s_strtrim_left_eq)
  moreover have "cstr (?b[length (rtrim ?l) := 0]) = rtrim ?l"
    using cstr_update_rtrim [of ?b] ll nul assms(2) by (simp add: c len)
  moreover have "drop len ?b = drop len b"
    using ll nul by (simp add: put_str_def drop_Cons')
  ultimately show ?thesis
    using that [of "?b[length (rtrim ?l) := 0]"] len r by simp
qed

section \<open>Character replacement\<close>

text \<open>
  What \<open>s_strrep_char\<close> builds from the string of the source: each occurrence of the target
  becomes the replacement text, as far as the destination has room.
\<close>

definition rep_text :: "u8 \<Rightarrow> bytes \<Rightarrow> bytes \<Rightarrow> bytes" where
  "rep_text t r w = concat (map (\<lambda>c. if c = t then r else [c]) w)"

lemma rep_text_simps [simp]:
  "rep_text t r [] = []"
  "rep_text t r (c # w) = (if c = t then r else [c]) @ rep_text t r w"
  by (simp_all add: rep_text_def)

lemma strrep_loop_eq:
  "r = take rep_size rep \<Longrightarrow> rep_size \<le> length rep \<Longrightarrow> src_size \<le> length src \<Longrightarrow> t \<noteq> 0 \<Longrightarrow>
   dst_size \<le> length dst \<Longrightarrow> di + length (rep_text t r w) < dst_size \<Longrightarrow>
   si \<le> src_size \<Longrightarrow> w = cstr (take (src_size - si) (drop si src)) \<Longrightarrow>
   \<exists>si' rc'. strrep_loop dst_size src src_size t rep rep_size dst di si rc =
      Some (take di dst @ rep_text t r w @ drop (di + length (rep_text t r w)) dst,
            di + length (rep_text t r w), si', rc')"
proof (induction dst_size src src_size t rep rep_size dst di si rc arbitrary: w
       rule: strrep_loop.induct)
  case (1 dst_size src src_size t rep rep_size dst di si rc)
  note unf = strrep_loop.simps [of dst_size src src_size t rep rep_size dst di si rc]
  have sd: "size_dec dst_size = dst_size - 1" using 1(8) by (simp add: size_dec_def)
  show ?case
  proof (cases "si < src_size \<and> di < dst_size - 1")
    case False
    have full: "length (rep_text t r w) = 0" if "\<not> di < dst_size - 1" using that 1(8) by linarith
    have "rep_text t r w = []"
    proof (cases "si < src_size")
      case True
      with False full show ?thesis by simp
    next
      case False
      with 1(10) show ?thesis by simp
    qed
    moreover have "strrep_loop dst_size src src_size t rep rep_size dst di si rc =
        Some (dst, di, si, rc)"
      unfolding unf by (rule if_not_P) (use False sd in simp)
    ultimately show ?thesis by simp
  next
    case True
    then have i: "si < length src" using 1(5) by simp
    define w' where "w' = cstr (take (src_size - Suc si) (drop (Suc si) src))"
    have w: "w = (if src ! si = 0 then [] else src ! si # w')"
      using 1(10) True i by (simp add: cstr_take_drop_step w'_def)
    have lr: "length r = rep_size" using 1(3,4) by simp
    consider "src ! si = t" | "src ! si \<noteq> t" "src ! si = 0" | "src ! si \<noteq> t" "src ! si \<noteq> 0" by blast
    then show ?thesis
    proof cases
      case a: 1
      let ?dst = "take di dst @ r @ drop (di + rep_size) dst"
      have wt: "w = t # w'" using w a 1(6) by simp
      have room: "di + rep_size < dst_size" using 1(8) by (simp add: wt lr)
      have wrb: "wr_bytes dst di r = Some ?dst" using room 1(7) lr by (simp add: wr_bytes_def)
      have rdb: "rd_bytes rep 0 rep_size = Some r" using 1(3,4) by (simp add: rd_bytes_def)
      obtain si' rc' where "strrep_loop dst_size src src_size t rep rep_size ?dst (di + rep_size) (Suc si) rc =
          Some (take (di + rep_size) ?dst @ rep_text t r w' @
             drop (di + rep_size + length (rep_text t r w')) ?dst,
             di + rep_size + length (rep_text t r w'), si', rc')"
        using 1(1) [of t r ?dst w'] True a i room wrb rdb 1(3-8) lr
        by (auto simp: rd_in sd w'_def wt)
      moreover have "take (di + rep_size) ?dst = take di dst @ r"
        using room 1(7) lr by simp
      moreover have "drop (di + rep_size + n) ?dst = drop (di + rep_size + n) dst" for n
        using room 1(7) lr by (simp add: ac_simps)
      ultimately show ?thesis
        using True a i room wrb rdb by (simp add: unf rd_in sd wt lr add.assoc)
    next
      case b: 2
      then show ?thesis using True i w by (simp add: unf rd_in sd)
    next
      case c: 3
      let ?dst = "dst[di := src ! si]"
      have wt: "w = src ! si # w'" using w c by simp
      have di: "di < length dst" using True 1(7) by linarith
      obtain si' rc' where "strrep_loop dst_size src src_size t rep rep_size ?dst (Suc di) (Suc si)
            (if si = size_dec src_size then 0 else rc) =
          Some (take (Suc di) ?dst @ rep_text t r w' @
             drop (Suc di + length (rep_text t r w')) ?dst,
             Suc di + length (rep_text t r w'), si', rc')"
        using 1(2) [of "src ! si" ?dst w'] True c i di 1(3-8)
        by (auto simp: rd_in wr_in sd w'_def wt)
      moreover have "take (Suc di) ?dst = take di dst @ [src ! si]"
        using di by (simp add: take_Suc_conv_app_nth)
      ultimately show ?thesis
        using True c i di by (simp add: unf rd_in wr_in sd wt)
    qed
  qed
qed

text \<open>With room for the result, \<open>s_strrep_char\<close> writes the source with every target replaced.\<close>

lemma s_strrep_char_eq:
  assumes "rep_size \<le> length rep" "src_size \<le> length src" "t \<noteq> 0" "dst_size \<le> length dst"
    and w: "w = rep_text t (take rep_size rep) (cstr (take src_size src))"
    and room: "length w < dst_size"
  obtains rc where "s_strrep_char dst dst_size src src_size t rep rep_size = Some (put_str dst 0 w, rc)"
proof -
  have "\<exists>si rc. strrep_loop dst_size src src_size t rep rep_size dst 0 0 (-1) =
      Some (take 0 dst @ w @ drop (0 + length w) dst, 0 + length w, si, rc)"
    unfolding w by (rule strrep_loop_eq) (use assms in simp_all)
  then obtain si rc where "strrep_loop dst_size src src_size t rep rep_size dst 0 0 (-1) =
      Some (w @ drop (length w) dst, length w, si, rc)" by auto
  moreover have "(w @ drop (length w) dst)[length w := 0] = put_str dst 0 w"
    using put_str_alt [of 0 w dst] room assms(4) by simp
  ultimately show ?thesis
    using that room assms(4) by (simp add: s_strrep_char_def wr_in)
qed

section \<open>Properties\<close>

text \<open> C40: \<open>s_strcpy\<close> never writes outside the destination buffer of \<open>n\<close> bytes, leaves it terminated
  with the longest prefix of the source string that fits, leaves the bytes behind the buffer
  untouched and returns the length of the copied string.\<close>

theorem s_strcpy_correct:
  assumes "0 < n" and "n \<le> length d" and "readable s (n - 1)"
  shows "\<exists>d'. s_strcpy (Some d) (Some s) n = Some (Some d', length (cstr d')) \<and>
           cstr d' = take (n - 1) (cstr s) \<and> length d' = length d \<and> drop n d' = drop n d"
proof -
  obtain d' j where r: "s_strcpy (Some d) (Some s) n = Some (Some d', j)"
    using s_strcpy_eq [OF assms] by blast
  note c = s_strcpy_cstr [OF assms r]
  show ?thesis using r c by (intro exI [of _ d']) simp
qed

theorem s_strcpy_correct_witness:
  "\<exists>d'. s_strcpy (Some [1, 2, 3, 4]) (Some [72, 73, 74, 75, 0]) 3 = Some (Some d', length (cstr d')) \<and>
        cstr d' = [72, 73] \<and> drop 3 d' = [4]"
  using s_strcpy_correct [of 3 "[1, 2, 3, 4]" "[72, 73, 74, 75, 0]"]
  by (auto simp: readable_def cstr_def)

text \<open> C35: \<open>s_strcat\<close> on a buffer whose string leaves room for at least one character appends the
  source cut to the buffer, keeps the result terminated and writes nothing behind the buffer.\<close>

theorem s_strcat_correct:
  assumes "n < 2 ^ 31" and "n \<le> length d" and "Suc (length (cstr (take n d))) < n"
    and "readable s (n - 1 - length (cstr (take n d)))"
  shows "\<exists>d'. s_strcat (Some d) n (Some s) = Some (Some d') \<and>
           cstr d' = take (n - 1) (cstr d @ cstr s) \<and> length d' = length d \<and> drop n d' = drop n d"
  by (rule s_strcat_cstr [OF assms]) blast

theorem s_strcat_correct_witness:
  "\<exists>d'. s_strcat (Some [72, 0, 9, 9, 9]) 4 (Some [73, 74, 75, 0]) = Some (Some d') \<and>
        cstr d' = [72, 73, 74] \<and> drop 4 d' = [9]"
  using s_strcat_correct [of 4 "[72, 0, 9, 9, 9]" "[73, 74, 75, 0]"]
  by (auto simp: readable_def cstr_def)

text \<open> C36: \<open>s_strtous\<close> reads at most \<open>str_len\<close> characters of any buffer and its value fits in an
  \<open>unsigned short\<close>; on text that holds a decimal number it returns the value of that number, the
  count of consumed characters and the position behind the digits.\<close>

theorem s_strtous_correct:
  assumes "readable s len" and "0 < len"
  shows "(\<exists>j e' v. s_strtous (Some s) len e res = Some (j, e', v) \<and> j \<le> len \<and> v \<le> 65535 \<and>
            e' = (if j < len then Some j else None)) \<and>
         (\<forall>pre ds rest. s = pre @ ds @ rest \<and> (\<forall>c \<in> set pre. \<not> isdigit c \<and> c \<noteq> 0) \<and>
            (\<forall>c \<in> set ds. isdigit c) \<and> ds \<noteq> [] \<and> rest \<noteq> [] \<and> \<not> isdigit (hd rest) \<and>
            dec_val ds \<le> 65535 \<and> length pre + length ds < len \<longrightarrow>
            s_strtous (Some s) len e res =
              Some (length pre + length ds, Some (length pre + length ds), dec_val ds))"
proof (intro conjI allI impI)
  show "\<exists>j e' v. s_strtous (Some s) len e res = Some (j, e', v) \<and> j \<le> len \<and> v \<le> 65535 \<and>
            e' = (if j < len then Some j else None)"
    unfolding s_strtous_def
    by (rule strto_gen_bound [OF assms(1), of 65535 e res]) (use assms(2) in blast)
next
  fix pre ds rest
  assume a: "s = pre @ ds @ rest \<and> (\<forall>c \<in> set pre. \<not> isdigit c \<and> c \<noteq> 0) \<and>
            (\<forall>c \<in> set ds. isdigit c) \<and> ds \<noteq> [] \<and> rest \<noteq> [] \<and> \<not> isdigit (hd rest) \<and>
            dec_val ds \<le> 65535 \<and> length pre + length ds < len"
  then show "s_strtous (Some s) len e res =
              Some (length pre + length ds, Some (length pre + length ds), dec_val ds)"
    unfolding s_strtous_def
    using strto_gen_decimal [of s pre ds rest 65535 "length pre + length ds" len e res] assms(1)
    by simp
qed

theorem s_strtous_correct_witness:
  "s_strtous (Some [46, 52, 50, 46]) 4 None 0 = Some (3, Some 3, 42)"
proof -
  have "readable [46, 52, 50, 46 :: u8] 4" by (simp add: readable_def)
  note t = s_strtous_correct [OF this, of None 0, THEN conjunct2, rule_format,
      of "[46]" "[52, 50]" "[46]"]
  show ?thesis using t by (simp add: isdigit_def dec_val_def dec_step_def todigit_def)
qed

text \<open> C37: \<open>s_strtrim\<close> on a terminated buffer strips exactly the white space at both ends of its
  string, in place, and touches nothing behind the given length.\<close>

theorem s_strtrim_correct:
  assumes "0 < len" and "len \<le> length b" and "length (cstr b) < len"
  shows "\<exists>b'. s_strtrim (Some b) len = Some (Some b') \<and>
           cstr b' = rev (dropWhile isspace (rev (dropWhile isspace (cstr b)))) \<and>
           length b' = length b \<and> drop len b' = drop len b"
  by (rule s_strtrim_cstr [OF assms]) (auto simp: rtrim_def ltrim_def)

theorem s_strtrim_correct_witness:
  "\<exists>b'. s_strtrim (Some [32, 65, 32, 66, 9, 0, 7]) 6 = Some (Some b') \<and> cstr b' = [65, 32, 66]"
  using s_strtrim_correct [of 6 "[32, 65, 32, 66, 9, 0, 7]"]
  by (auto simp: cstr_def isspace_def)

text \<open> When the destination has room, \<open>s_strrep_char\<close> writes the source string with every
  occurrence of the target character replaced by the replacement text, and terminates it.\<close>

theorem s_strrep_char_correct:
  assumes "rep_size \<le> length rep" and "src_size \<le> length src" and "t \<noteq> 0"
    and "dst_size \<le> length dst"
    and "length (rep_text t (take rep_size rep) (cstr (take src_size src))) < dst_size"
  shows "\<exists>rc. s_strrep_char dst dst_size src src_size t rep rep_size =
           Some (rep_text t (take rep_size rep) (cstr (take src_size src)) @ 0 #
                 drop (Suc (length (rep_text t (take rep_size rep) (cstr (take src_size src))))) dst, rc)"
  by (rule s_strrep_char_eq [OF assms(1-4) refl assms(5)]) (auto simp: put_str_def)

theorem s_strrep_char_correct_witness:
  "\<exists>rc. s_strrep_char [9, 9, 9, 9, 9, 9] 6 [65, 38, 66, 0] 4 38 [43, 43] 2 =
     Some ([65, 43, 43, 66, 0, 9], rc)"
  using s_strrep_char_correct [of 2 "[43, 43]" 4 "[65, 38, 66, 0]" 38 6 "[9, 9, 9, 9, 9, 9]"]
  by (simp add: cstr_def)

end
