(* ===== verification/Common_Types.thy ===== *)
theory Common_Types
  imports S_Str_Facts
begin

text \<open>
  The inline helpers of \<open>common/common_types.h\<close>: byte comparison, packed decimal, the additive
  checksum that the ACPI and platform-configuration tables carry, and byte swapping.
\<close>

unbundle bit_operations_syntax

section \<open>Definitions\<close>

function cmp_bytes_loop :: "bytes \<Rightarrow> bytes \<Rightarrow> nat \<Rightarrow> nat \<Rightarrow> int option" where
  "cmp_bytes_loop bytes1 bytes2 len count =
     (if count < len then do {
        a \<leftarrow> rd bytes1 count;
        b \<leftarrow> rd bytes2 count;
        if a \<noteq> b then Some 0 else cmp_bytes_loop bytes1 bytes2 len (Suc count) }
      else Some 1)"
  by pat_completeness auto
termination
  by (relation "measure (\<lambda>(a, b, len, count). len - count)") auto

definition cmp_bytes :: "bytes option \<Rightarrow> bytes option \<Rightarrow> nat \<Rightarrow> int option" where
  "cmp_bytes bytes1 bytes2 len =
     (case (bytes1, bytes2) of
        (Some b1, Some b2) \<Rightarrow> cmp_bytes_loop b1 b2 len 0
      | _ \<Rightarrow> Some (-1))"

definition bcd_byte_to_dec :: "u8 \<Rightarrow> u8" where
  "bcd_byte_to_dec num =
     (if drop_bit 4 (num AND 0xF0) \<ge> 10 then 0xFF
      else if num AND 0x0F \<ge> 10 then 0xFF
      else drop_bit 4 (num AND 0xF0) * 10 + (num AND 0x0F))"

definition single_byte_bcd_to_two_byte_bcd :: "u8 \<Rightarrow> u16" where
  "single_byte_bcd_to_two_byte_bcd num =
     (if drop_bit 4 (num AND 0xF0) \<ge> 0xA then 0xFF
      else if num AND 0x0F \<ge> 0xA then 0xFF
      else push_bit 4 (ucast (num AND 0xF0)) OR ucast (num AND 0x0F))"

function generate_checksum_loop :: "bytes \<Rightarrow> nat \<Rightarrow> nat \<Rightarrow> nat \<Rightarrow> u8 \<Rightarrow> u8 option" where
  "generate_checksum_loop p_raw_data len checksum_offset i checksum =
     (if i < len then
        (if i \<noteq> checksum_offset then do {
           c \<leftarrow> rd p_raw_data i;
           generate_checksum_loop p_raw_data len checksum_offset (Suc i) (checksum + c) }
         else generate_checksum_loop p_raw_data len checksum_offset (Suc i) checksum)
      else Some checksum)"
  by pat_completeness auto
termination
  by (relation "measure (\<lambda>(p, len, off, i, c). len - i)") auto

definition generate_checksum :: "bytes \<Rightarrow> nat \<Rightarrow> nat \<Rightarrow> bytes option" where
  "generate_checksum p_raw_data len checksum_offset = do {
     checksum \<leftarrow> generate_checksum_loop p_raw_data len checksum_offset 0 0;
     wr p_raw_data checksum_offset ((0xFF - checksum) + 1) }"

function verify_checksum_loop :: "bytes \<Rightarrow> nat \<Rightarrow> nat \<Rightarrow> u8 \<Rightarrow> u8 option" where
  "verify_checksum_loop p_raw_data len i acc =
     (if i < len then do {
        c \<leftarrow> rd p_raw_data i;
        verify_checksum_loop p_raw_data len (Suc i) (acc + c) }
      else Some acc)"
  by pat_completeness auto
termination
  by (relation "measure (\<lambda>(p, len, i, c). len - i)") auto

definition verify_checksum :: "bytes \<Rightarrow> nat \<Rightarrow> bool option" where
  "verify_checksum p_raw_data len = do {
     acc \<leftarrow> verify_checksum_loop p_raw_data len 0 0;
     Some (acc = 0) }"

function swap_bytes_loop :: "bytes \<Rightarrow> bytes \<Rightarrow> nat \<Rightarrow> nat \<Rightarrow> bytes option" where
  "swap_bytes_loop p_dest p_src len i =
     (if i < len then do {
        c \<leftarrow> rd p_src i;
        p_dest' \<leftarrow> wr p_dest ((len - 1) - i) c;
        swap_bytes_loop p_dest' p_src len (Suc i) }
      else Some p_dest)"
  by pat_completeness auto
termination
  by (relation "measure (\<lambda>(d, s, len, i). len - i)") auto

definition swap_bytes :: "bytes \<Rightarrow> bytes \<Rightarrow> nat \<Rightarrow> bytes option" where
  "swap_bytes p_dest p_src len = swap_bytes_loop p_dest p_src len 0"

declare cmp_bytes_loop.simps [simp del] generate_checksum_loop.simps [simp del]
  verify_checksum_loop.simps [simp del] swap_bytes_loop.simps [simp del]

section \<open>Comparison\<close>

lemma cmp_bytes_loop_eq:
  "len \<le> length b1 \<Longrightarrow> len \<le> length b2 \<Longrightarrow> i \<le> len \<Longrightarrow>
   cmp_bytes_loop b1 b2 len i =
     Some (if take (len - i) (drop i b1) = take (len - i) (drop i b2) then 1 else 0)"
proof (induction b1 b2 len i rule: cmp_bytes_loop.induct)
  case (1 b1 b2 len i)
  show ?case
  proof (cases "i < len")
    case False
    with 1(4) have "i = len" by simp
    then show ?thesis by (simp add: cmp_bytes_loop.simps [of b1 b2 len len])
  next
    case True
    then have "take (len - i) (drop i b1) = b1 ! i # take (len - Suc i) (drop (Suc i) b1)"
      "take (len - i) (drop i b2) = b2 ! i # take (len - Suc i) (drop (Suc i) b2)"
      using 1(2,3) by (simp_all add: Cons_nth_drop_Suc [symmetric] take_Cons')
    then show ?thesis using True 1 by (auto simp: cmp_bytes_loop.simps [of b1 b2 len i] rd_in)
  qed
qed

lemma cmp_bytes_eq:
  "len \<le> length b1 \<Longrightarrow> len \<le> length b2 \<Longrightarrow>
   cmp_bytes (Some b1) (Some b2) len = Some (if take len b1 = take len b2 then 1 else 0)"
  using cmp_bytes_loop_eq [of len b1 b2 0] by (simp add: cmp_bytes_def)

section \<open>The additive checksum\<close>

lemma verify_checksum_loop_eq:
  "len \<le> length p \<Longrightarrow> i \<le> len \<Longrightarrow>
   verify_checksum_loop p len i s = Some (s + sum_list (take (len - i) (drop i p)))"
proof (induction p len i s rule: verify_checksum_loop.induct)
  case (1 p len i s)
  show ?case
  proof (cases "i < len")
    case False
    with 1(3) have "i = len" by simp
    then show ?thesis by (simp add: verify_checksum_loop.simps [of p len len])
  next
    case True
    then have "take (len - i) (drop i p) = p ! i # take (len - Suc i) (drop (Suc i) p)"
      using 1(2) by (simp add: Cons_nth_drop_Suc [symmetric] take_Cons')
    then show ?thesis using True 1
      by (simp add: verify_checksum_loop.simps [of p len i] rd_in algebra_simps)
  qed
qed

lemma verify_checksum_eq:
  "len \<le> length p \<Longrightarrow> verify_checksum p len = Some (sum_list (take len p) = 0)"
  using verify_checksum_loop_eq [of len p 0 0] by (simp add: verify_checksum_def)

lemma verify_checksum_append:
  "verify_checksum (p @ q) (length p + n) = Some (sum_list p + sum_list (take n q) = 0)"
  if "n \<le> length q"
  using verify_checksum_eq [of "length p + n" "p @ q"] that by simp

lemma generate_checksum_loop_eq:
  "len \<le> length p \<Longrightarrow> i \<le> len \<Longrightarrow> off < len \<Longrightarrow>
   generate_checksum_loop p len off i s =
     Some (s + sum_list (take (len - i) (drop i p)) - (if i \<le> off then p ! off else 0))"
proof (induction p len off i s rule: generate_checksum_loop.induct)
  case (1 p len off i s)
  note unf = generate_checksum_loop.simps [of p len off i]
  show ?case
  proof (cases "i < len")
    case False
    with 1(4,5) have "i = len" "\<not> i \<le> off" by simp_all
    then show ?thesis by (simp add: generate_checksum_loop.simps [of p len off len])
  next
    case True
    then have d: "take (len - i) (drop i p) = p ! i # take (len - Suc i) (drop (Suc i) p)"
      using 1(3) by (simp add: Cons_nth_drop_Suc [symmetric] take_Cons')
    show ?thesis
    proof (cases "i = off")
      case eq: True
      then show ?thesis using True 1(2) [OF True] 1(3-5) d
        by (simp add: generate_checksum_loop.simps [of p len off off])
    next
      case False
      then show ?thesis using True 1(1) [OF True False, of "p ! i"] 1(3-5) d
        by (simp add: unf rd_in algebra_simps)
    qed
  qed
qed

lemma complement_byte: "(0xFF - c) + 1 = - (c :: u8)"
proof -
  have "(0xFF :: u8) = - 1" by simp
  then show ?thesis by (simp add: algebra_simps)
qed

lemma generate_checksum_eq:
  assumes "len \<le> length p" "off < len"
  shows "generate_checksum p len off = Some (p[off := p ! off - sum_list (take len p)])"
  using generate_checksum_loop_eq [of len p 0 off 0] assms
  by (simp add: generate_checksum_def wr_in complement_byte)

lemma generate_checksum_sum:
  assumes "len \<le> length p" "off < len" "generate_checksum p len off = Some p'"
  shows "sum_list (take len p') = 0" and "length p' = length p"
    and "\<And>i. i \<noteq> off \<Longrightarrow> p' ! i = p ! i" and "drop len p' = drop len p"
proof -
  have p': "p' = p[off := p ! off - sum_list (take len p)]"
    using generate_checksum_eq [OF assms(1,2)] assms(3) by simp
  show "sum_list (take len p') = 0"
    using assms(1,2) by (simp add: p' take_update_swap sum_list_update_word)
  show "length p' = length p" "\<And>i. i \<noteq> off \<Longrightarrow> p' ! i = p ! i" "drop len p' = drop len p"
    using assms(2) by (simp_all add: p')
qed

section \<open>Byte swapping\<close>

lemma swap_bytes_loop_eq:
  "len \<le> length s \<Longrightarrow> len \<le> length d \<Longrightarrow> i \<le> len \<Longrightarrow>
   swap_bytes_loop d s len i =
     Some (rev (take (len - i) (drop i s)) @ drop (len - i) d)"
proof (induction d s len i rule: swap_bytes_loop.induct)
  case (1 d s len i)
  show ?case
  proof (cases "i < len")
    case False
    with 1(4) have "i = len" by simp
    then show ?thesis by (simp add: swap_bytes_loop.simps [of d s len len])
  next
    case True
    let ?d = "d[len - Suc i := s ! i]"
    have "swap_bytes_loop ?d s len (Suc i) =
        Some (rev (take (len - Suc i) (drop (Suc i) s)) @ drop (len - Suc i) ?d)"
      using True 1(2-4) by (intro 1(1) [of "s ! i"]) (auto simp: rd_in wr_in)
    moreover have "drop (len - Suc i) ?d = s ! i # drop (len - i) d"
      using True 1(3) by (simp add: drop_update_swap Cons_nth_drop_Suc [symmetric] Suc_diff_Suc)
    moreover have "take (len - i) (drop i s) = s ! i # take (len - Suc i) (drop (Suc i) s)"
      using True 1(2) by (simp add: Cons_nth_drop_Suc [symmetric] take_Cons')
    ultimately show ?thesis using True 1(2,3)
      by (simp add: swap_bytes_loop.simps [of d s len i] rd_in wr_in)
  qed
qed

lemma swap_bytes_eq:
  "len \<le> length s \<Longrightarrow> len \<le> length d \<Longrightarrow>
   swap_bytes d s len = Some (rev (take len s) @ drop len d)"
  using swap_bytes_loop_eq [of len s d 0] by (simp add: swap_bytes_def)

section \<open>Properties\<close>

text \<open> After \<open>generate_checksum\<close> the table verifies, only the checksum byte has changed, and a
  later change of any single byte of the table is detected by \<open>verify_checksum\<close>.\<close>

theorem checksum_correct:
  assumes "len \<le> length p" and "off < len"
  shows "\<exists>p'. generate_checksum p len off = Some p' \<and> verify_checksum p' len = Some True \<and>
           length p' = length p \<and> (\<forall>i. i = off \<or> p' ! i = p ! i) \<and>
           (\<forall>i v. len \<le> i \<or> verify_checksum (p'[i := v]) len = Some (v = p' ! i))"
proof -
  obtain p' where g: "generate_checksum p len off = Some p'" using generate_checksum_eq [OF assms] by blast
  note s = generate_checksum_sum [OF assms g]
  have l: "len \<le> length p'" using assms s(2) by simp
  have "verify_checksum (p'[i := v]) len = Some (v = p' ! i)" if "i < len" for i v
  proof -
    have "sum_list (take len (p'[i := v])) = sum_list (take len p') + v - p' ! i"
      using that l sum_list_update_word [of i "take len p'" v] by (simp add: take_update_swap)
    then show ?thesis using verify_checksum_eq [of len "p'[i := v]"] l s(1) by simp
  qed
  then show ?thesis
    using g s verify_checksum_eq [OF l] by (intro exI [of _ p']) (auto simp: not_le)
qed

theorem checksum_correct_witness:
  "\<exists>p'. generate_checksum [1, 2, 3, 4] 3 1 = Some p' \<and> verify_checksum p' 3 = Some True"
  using checksum_correct [of 3 "[1, 2, 3, 4]" 1] by auto

section \<open>Return codes\<close>

text \<open>The first error is kept; the new code is computed in any case.\<close>

definition KEEP_ERROR :: "int \<Rightarrow> int \<Rightarrow> int" where
  "KEEP_ERROR rc rc_new = (if rc < 0 then rc else rc_new)"

end
