(* ===== verification/Guid.thy ===== *)
theory Guid
  imports Common_Types
begin

text \<open>
  GUIDs and UIDs: \<open>common/guid/guid.c\<close> and \<open>common/uid/uid.c\<close>. A GUID is a buffer of 16 bytes, a
  UID the buffer of its textual form. OpenSSL's \<open>SHA1\<close> and the C library's \<open>rand\<close> are arguments
  of the definitions that call them.
\<close>

unbundle bit_operations_syntax

section \<open>Hexadecimal digits\<close>

text \<open>The digit characters that \<open>snprintf\<close> writes for \<open>%02x\<close>.\<close>

definition hexdigit :: "nat \<Rightarrow> u8" where
  "hexdigit n = (if n < 10 then word_of_nat (48 + n) else word_of_nat (87 + n))"

definition hex2 :: "u8 \<Rightarrow> bytes" where
  "hex2 v = [hexdigit (unat v div 16), hexdigit (unat v mod 16)]"

definition int_to_hex_digits :: "u8 \<Rightarrow> bytes \<Rightarrow> nat \<Rightarrow> bytes option" where
  "int_to_hex_digits v destination off = do {
     d1 \<leftarrow> wr destination off 48;
     d2 \<leftarrow> wr d1 (off + 1) 48;
     if v \<noteq> 0 then do {
       let buf = hex2 v;
       d3 \<leftarrow> wr d2 off (buf ! 0);
       wr d3 (off + 1) (buf ! 1) }
     else Some d2 }"

text \<open>
  The table of 256 \<open>char\<close>s: entry 0 is -1, the entries the initialiser does not name are 0. A
  negative \<open>char\<close> is sign-extended when it is combined with the \<open>unsigned int\<close> result.
\<close>

definition hextable :: "u8 \<Rightarrow> u32" where
  "hextable c =
     (if c = 0 then - 1
      else if 48 \<le> c \<and> c \<le> 57 then ucast c - 48
      else if 65 \<le> c \<and> c \<le> 70 then ucast c - 55
      else if 97 \<le> c \<and> c \<le> 102 then ucast c - 87
      else 0)"

fun hexdec_loop :: "bytes \<Rightarrow> u32 \<Rightarrow> u32 option" where
  "hexdec_loop [] res = None"
| "hexdec_loop (h # hex) res =
     (if h \<noteq> 0 then hexdec_loop hex (push_bit 4 res OR hextable h) else Some res)"

definition hexdec :: "bytes \<Rightarrow> u32 option" where
  "hexdec hex = hexdec_loop hex 0"

definition hexstr_to_int :: "bytes \<Rightarrow> nat \<Rightarrow> u32 option" where
  "hexstr_to_int hex_str off = do {
     a \<leftarrow> rd hex_str off;
     b \<leftarrow> rd hex_str (off + 1);
     hexdec [a, b, 0] }"

section \<open>Printing and parsing\<close>

text \<open>
  The straight-line body of \<open>guid_to_str\<close> as the list of its statements: \<open>Hex i p\<close> is
  \<open>int_to_hex_digits(guid[i], &guid_str[p])\<close> and \<open>Put p c\<close> is \<open>guid_str[p] = c\<close>.
\<close>

datatype guid_stmt = Hex nat nat | Put nat u8

fun exec_guid_stmt :: "bytes \<Rightarrow> guid_stmt \<Rightarrow> bytes \<Rightarrow> bytes option" where
  "exec_guid_stmt guid (Hex i p) guid_str = do { v \<leftarrow> rd guid i; int_to_hex_digits v guid_str p }"
| "exec_guid_stmt guid (Put p c) guid_str = wr guid_str p c"

fun exec_guid_stmts :: "bytes \<Rightarrow> guid_stmt list \<Rightarrow> bytes \<Rightarrow> bytes option" where
  "exec_guid_stmts guid [] guid_str = Some guid_str"
| "exec_guid_stmts guid (s # ss) guid_str = do {
     str' \<leftarrow> exec_guid_stmt guid s guid_str;
     exec_guid_stmts guid ss str' }"

definition guid_to_str_body :: "guid_stmt list" where
  "guid_to_str_body =
     [Hex 0 0, Hex 1 2, Hex 2 4, Hex 3 6, Put 8 45,
      Hex 4 9, Hex 5 11, Put 13 45,
      Hex 6 14, Hex 7 16, Put 18 45,
      Hex 8 19, Hex 9 21, Put 23 45,
      Hex 10 24, Hex 11 26, Hex 12 28, Hex 13 30, Hex 14 32, Hex 15 34, Put 36 0]"

definition guid_to_str :: "bytes option \<Rightarrow> bytes option \<Rightarrow> bytes option option" where
  "guid_to_str guid guid_str =
     (case guid_str of
        None \<Rightarrow> Some None
      | Some s \<Rightarrow> do {
          s' \<leftarrow> wr s 0 0;
          case guid of
            None \<Rightarrow> Some (Some s')
          | Some g \<Rightarrow> map_option Some (exec_guid_stmts g guid_to_str_body s') })"

text \<open>The assignments \<open>guid[i] = hexstr_to_int(&guid_str[p])\<close>, in the order of the code.\<close>

definition str_to_guid_body :: "(nat \<times> nat) list" where
  "str_to_guid_body =
     [(0, 0), (1, 2), (2, 4), (3, 6), (4, 9), (5, 11), (6, 14), (7, 16), (8, 19), (9, 21),
      (10, 24), (11, 26), (12, 28), (13, 30), (14, 32), (15, 34)]"

fun exec_str_to_guid :: "bytes \<Rightarrow> (nat \<times> nat) list \<Rightarrow> bytes \<Rightarrow> bytes option" where
  "exec_str_to_guid guid_str [] guid = Some guid"
| "exec_str_to_guid guid_str ((i, p) # ss) guid = do {
     v \<leftarrow> hexstr_to_int guid_str p;
     guid' \<leftarrow> wr guid i (ucast v);
     exec_str_to_guid guid_str ss guid' }"

definition str_to_guid :: "bytes option \<Rightarrow> bytes option \<Rightarrow> bytes option option" where
  "str_to_guid guid_str guid =
     (case guid of
        None \<Rightarrow> Some None
      | Some g \<Rightarrow>
          (case guid_str of
             Some s \<Rightarrow> map_option Some (exec_str_to_guid s str_to_guid_body g)
           | None \<Rightarrow> map_option Some (wr_bytes g 0 (replicate 16 0))))"

definition guid_cmp :: "bytes option \<Rightarrow> bytes option \<Rightarrow> int option" where
  "guid_cmp guid1 guid2 = cmp_bytes guid1 guid2 16"

section \<open>Generation\<close>

text \<open>
  \<open>rand_seq seed k\<close> is the \<open>k\<close>-th result of \<open>rand()\<close> after \<open>srand(seed)\<close>; the state is the global
  \<open>randomSeed\<close>, which every call advances.
\<close>

fun generate_guid_loop :: "(nat \<Rightarrow> u32) \<Rightarrow> nat \<Rightarrow> nat \<Rightarrow> bytes \<Rightarrow> bytes option" where
  "generate_guid_loop rand_k count 0 guid = Some guid"
| "generate_guid_loop rand_k count (Suc k) guid = do {
     let randomNum = rand_k (count div 2);
     g1 \<leftarrow> wr guid count (ucast randomNum);
     g2 \<leftarrow> wr g1 (count + 1) (ucast (drop_bit 8 randomNum));
     generate_guid_loop rand_k (count + 2) k g2 }"

definition generate_guid ::
  "(u32 \<Rightarrow> nat \<Rightarrow> u32) \<Rightarrow> u32 \<Rightarrow> u32 \<Rightarrow> bytes option \<Rightarrow> (bytes option \<times> u32) option" where
  "generate_guid rand_seq now randomSeed guid =
     (case guid of
        None \<Rightarrow> Some (None, randomSeed)
      | Some g \<Rightarrow> do {
          g' \<leftarrow> generate_guid_loop (rand_seq (now + randomSeed)) 0 8 g;
          Some (Some g', randomSeed + 1) })"

definition generate_guid_str ::
  "(u32 \<Rightarrow> nat \<Rightarrow> u32) \<Rightarrow> u32 \<Rightarrow> u32 \<Rightarrow> bytes \<Rightarrow> bytes option \<Rightarrow> (bytes option \<times> u32) option"
  where
  "generate_guid_str rand_seq now randomSeed garbage guid_str =
     (case guid_str of
        None \<Rightarrow> Some (None, randomSeed)
      | Some s \<Rightarrow> do {
          (guid, seed') \<leftarrow> generate_guid rand_seq now randomSeed (Some garbage);
          s' \<leftarrow> guid_to_str guid (Some s);
          Some (s', seed') })"

text \<open>The name-based GUID of RFC 4122; \<open>sha1\<close> gives \<open>None\<close> where the library call fails.\<close>

definition guid_hash :: "(bytes \<Rightarrow> bytes option) \<Rightarrow> bytes \<Rightarrow> bytes \<Rightarrow> (bytes \<times> bool) option" where
  "guid_hash sha1 source p_guid =
     (case sha1 source of
        None \<Rightarrow> Some (p_guid, False)
      | Some outHash \<Rightarrow> do {
          h \<leftarrow> rd_bytes outHash 0 16;
          g1 \<leftarrow> wr_bytes p_guid 0 (take 8 h);
          b7 \<leftarrow> rd g1 7;
          g2 \<leftarrow> wr g1 7 ((b7 AND 0x0F) XOR 0x50);
          g3 \<leftarrow> wr g2 8 (h ! 8);
          b8 \<leftarrow> rd g3 8;
          g4 \<leftarrow> wr g3 8 ((b8 AND 0x3F) XOR 0x80);
          g5 \<leftarrow> wr_bytes g4 9 (drop 9 h);
          Some (g5, True) })"

definition guid_hash_str ::
  "(bytes \<Rightarrow> bytes option) \<Rightarrow> bytes \<Rightarrow> bytes \<Rightarrow> bytes option \<Rightarrow> (bytes option \<times> bool) option"
  where
  "guid_hash_str sha1 source garbage p_guid = do {
     (guid_old, rc) \<leftarrow> guid_hash sha1 source garbage;
     if rc then do { s \<leftarrow> guid_to_str (Some guid_old) p_guid; Some (s, rc) }
     else Some (p_guid, rc) }"

section \<open>UIDs\<close>

definition COMMON_UID_LEN :: nat where "COMMON_UID_LEN = 37"

definition uid_copy :: "bytes option \<Rightarrow> bytes option \<Rightarrow> bytes option option" where
  "uid_copy src dst =
     (case (src, dst) of
        (Some s, Some d) \<Rightarrow> map_option fst (s_strcpy dst src COMMON_UID_LEN)
      | _ \<Rightarrow> Some dst)"

definition guid_to_uid :: "bytes option \<Rightarrow> bytes option \<Rightarrow> bytes option option" where
  "guid_to_uid guid uid = guid_to_str guid uid"

text \<open>\<open>strncmp(a, b, n) == 0\<close>: equal up to a terminator or the limit.\<close>

function strncmp0_loop :: "bytes \<Rightarrow> bytes \<Rightarrow> nat \<Rightarrow> nat \<Rightarrow> bool option" where
  "strncmp0_loop a b n i =
     (if i < n then do {
        x \<leftarrow> rd a i;
        y \<leftarrow> rd b i;
        if x \<noteq> y then Some False
        else if x = 0 then Some True
        else strncmp0_loop a b n (Suc i) }
      else Some True)"
  by pat_completeness auto
termination
  by (relation "measure (\<lambda>(a, b, n, i). n - i)") auto

definition uid_cmp :: "bytes \<Rightarrow> bytes \<Rightarrow> bool option" where
  "uid_cmp guid1 guid2 = strncmp0_loop guid1 guid2 COMMON_UID_LEN 0"

function uid_index_loop :: "bytes \<Rightarrow> bytes list \<Rightarrow> nat \<Rightarrow> nat \<Rightarrow> int option" where
  "uid_index_loop uid uid_list uid_list_len i =
     (if i < uid_list_len then do {
        u \<leftarrow> rd uid_list i;
        eq \<leftarrow> uid_cmp uid u;
        if eq then Some (int i) else uid_index_loop uid uid_list uid_list_len (Suc i) }
      else Some (-1))"
  by pat_completeness auto
termination
  by (relation "measure (\<lambda>(u, l, n, i). n - i)") auto

definition get_uid_index :: "bytes \<Rightarrow> bytes list \<Rightarrow> nat \<Rightarrow> int option" where
  "get_uid_index uid uid_list uid_list_len = uid_index_loop uid uid_list uid_list_len 0"

definition is_uid_in_list :: "bytes \<Rightarrow> bytes list \<Rightarrow> nat \<Rightarrow> bool option" where
  "is_uid_in_list uid uid_list uid_list_len =
     map_option (\<lambda>i. i \<ge> 0) (get_uid_index uid uid_list uid_list_len)"

declare strncmp0_loop.simps [simp del] uid_index_loop.simps [simp del]

section \<open>The printed form\<close>

lemma length_hex2 [simp]: "length (hex2 v) = 2"
  by (simp add: hex2_def)

lemma two_updates:
  assumes "Suc off < length d"
  shows "d[off := x, Suc off := y] = take off d @ x # y # drop (Suc (Suc off)) d"
proof -
  define xs where "xs = take off d"
  have l: "length xs = off" using assms by (simp add: xs_def)
  have "d = xs @ d ! off # d ! Suc off # drop (Suc (Suc off)) d"
    using assms by (simp add: xs_def Cons_nth_drop_Suc)
  then obtain a b zs where d: "d = xs @ a # b # zs" by blast
  then show ?thesis by (simp add: l [symmetric] list_update_append)
qed

lemma int_to_hex_digits_eq:
  assumes "Suc off < length d"
  shows "int_to_hex_digits v d off = Some (take off d @ hex2 v @ drop (Suc (Suc off)) d)"
proof (cases "v = 0")
  case True
  then show ?thesis using assms
    by (simp add: int_to_hex_digits_def wr_in two_updates hex2_def hexdigit_def)
next
  case False
  have "d[off := a, Suc off := b, off := x, Suc off := y] = d[off := x, Suc off := y]" for a b x y
    by (simp add: list_update_swap)
  then show ?thesis using assms False
    by (simp add: int_to_hex_digits_def wr_in two_updates hex2_def)
qed

text \<open>What a statement contributes to the text, and where the next one must continue.\<close>

fun stmt_pos :: "guid_stmt \<Rightarrow> nat" where
  "stmt_pos (Hex i p) = p" | "stmt_pos (Put p c) = p"

fun stmt_text :: "bytes \<Rightarrow> guid_stmt \<Rightarrow> bytes" where
  "stmt_text g (Hex i p) = hex2 (g ! i)" | "stmt_text g (Put p c) = [c]"

fun contiguous :: "bytes \<Rightarrow> nat \<Rightarrow> guid_stmt list \<Rightarrow> bool" where
  "contiguous g p [] = True"
| "contiguous g p (s # ss) =
     (stmt_pos s = p \<and> (case s of Hex i _ \<Rightarrow> i < length g | _ \<Rightarrow> True) \<and>
      contiguous g (p + length (stmt_text g s)) ss)"

lemma exec_guid_stmt_eq:
  "contiguous g p [s] \<Longrightarrow> p + length (stmt_text g s) \<le> length d \<Longrightarrow>
   exec_guid_stmt g s d = Some (take p d @ stmt_text g s @ drop (p + length (stmt_text g s)) d)"
proof (cases s)
  case (Hex i q)
  assume "contiguous g p [s]" "p + length (stmt_text g s) \<le> length d"
  then show ?thesis
    by (simp add: Hex rd_in int_to_hex_digits_eq)
next
  case (Put q c)
  assume "contiguous g p [s]" "p + length (stmt_text g s) \<le> length d"
  then show ?thesis by (simp add: Put wr_in upd_conv_take_nth_drop)
qed

lemma exec_guid_stmts_eq:
  "contiguous g p ss \<Longrightarrow> w = concat (map (stmt_text g) ss) \<Longrightarrow> p + length w \<le> length d \<Longrightarrow>
   exec_guid_stmts g ss d = Some (take p d @ w @ drop (p + length w) d)"
proof (induction ss arbitrary: p d w)
  case Nil
  then show ?case by simp
next
  case (Cons s ss)
  let ?t = "stmt_text g s" and ?w = "concat (map (stmt_text g) ss)"
  let ?d = "take p d @ ?t @ drop (p + length ?t) d"
  have c: "contiguous g p [s]" "contiguous g (p + length ?t) ss" using Cons.prems(1) by auto
  have l: "p + length ?t + length ?w \<le> length d" using Cons.prems(2,3) by (simp add: add.assoc)
  have "exec_guid_stmt g s d = Some ?d" using c l by (intro exec_guid_stmt_eq) auto
  moreover have "exec_guid_stmts g ss ?d =
      Some (take (p + length ?t) ?d @ ?w @ drop (p + length ?t + length ?w) ?d)"
    using c l by (intro Cons.IH) auto
  ultimately show ?case using l Cons.prems(2) by (simp add: ac_simps min_def)
qed

definition guid_text :: "bytes \<Rightarrow> bytes" where
  "guid_text g = concat (map (stmt_text g) (butlast guid_to_str_body))"

lemma guid_to_str_eq:
  assumes "length g = 16" "37 \<le> length s"
  shows "guid_to_str (Some g) (Some s) = Some (Some (guid_text g @ 0 # drop 37 s))"
    and "length (guid_text g) = 36"
proof -
  let ?w = "concat (map (stmt_text g) guid_to_str_body)"
  have w: "?w = guid_text g @ [0]" by (simp add: guid_text_def guid_to_str_body_def)
  show l: "length (guid_text g) = 36" by (simp add: guid_text_def guid_to_str_body_def)
  have "contiguous g 0 guid_to_str_body" using assms by (simp add: guid_to_str_body_def)
  from exec_guid_stmts_eq [OF this refl, of "s[0 := 0]"]
  have "exec_guid_stmts g guid_to_str_body (s[0 := 0]) = Some (?w @ drop 37 (s[0 := 0]))"
    using assms l by (simp add: w)
  moreover have "wr s 0 0 = Some (s[0 := 0])" using assms by (intro wr_in) linarith
  ultimately show "guid_to_str (Some g) (Some s) = Some (Some (guid_text g @ 0 # drop 37 s))"
    using assms by (simp add: guid_to_str_def w)
qed

section \<open>Parsing the printed form\<close>

lemma hexdigit_table: "n < 16 \<Longrightarrow> hextable (hexdigit n) = word_of_nat n \<and> hexdigit n \<noteq> 0"
proof -
  have "list_all (\<lambda>n. hextable (hexdigit n) = word_of_nat n \<and> hexdigit n \<noteq> 0) [0..<16]"
    by code_simp
  then show "n < 16 \<Longrightarrow> ?thesis" by (simp add: list_all_iff)
qed

lemma hexdec_hex2: "hexdec (hex2 v @ [0]) = Some (ucast v)"
proof -
  have v: "unat v < 256" using unsigned_less [of v] by simp
  have hi: "unat v div 16 < 16" and lo: "unat v mod 16 < 16" using v by auto
  let ?h = "word_of_nat (unat v div 16) :: u32" and ?l = "word_of_nat (unat v mod 16) :: u32"
  have "push_bit 4 ?h OR ?l = push_bit 4 ?h + ?l"
  proof (rule disjunctive_add [symmetric])
    fix n
    show "\<not> bit (push_bit 4 ?h) n \<or> \<not> bit ?l n"
    proof (cases "n < 4")
      case False
      then have "(2::nat) ^ 4 \<le> 2 ^ n" by (intro power_increasing) auto
      with lo have "unat v mod 16 div 2 ^ n = 0" by simp
      then show ?thesis by (simp add: bit_simps bit_nat_def)
    qed (simp add: bit_simps)
  qed
  also have "\<dots> = word_of_nat (unat v div 16 * 16 + unat v mod 16)"
    by (simp only: push_bit_eq_mult of_nat_add of_nat_mult) simp
  also have "\<dots> = (ucast v :: u32)" by (simp only: div_mult_mod_eq) simp
  finally show ?thesis
    using hexdigit_table [OF hi] hexdigit_table [OF lo] by (simp add: hexdec_def hex2_def)
qed

lemma guid_text_nth:
  "(i, p) \<in> set str_to_guid_body \<Longrightarrow>
   guid_text g ! p = hex2 (g ! i) ! 0 \<and> guid_text g ! Suc p = hex2 (g ! i) ! 1 \<and> Suc p < 36 \<and> i < 16"
  by (auto simp: str_to_guid_body_def guid_text_def guid_to_str_body_def hex2_def)

lemma hexstr_to_int_eq:
  assumes "Suc p < length s" "s ! p = hex2 v ! 0" "s ! Suc p = hex2 v ! 1"
  shows "hexstr_to_int s p = Some (ucast v)"
proof -
  have e: "hex2 v @ [0] = [hex2 v ! 0, hex2 v ! Suc 0, 0]" by (simp add: hex2_def)
  show ?thesis using assms hexdec_hex2 [of v, unfolded e] by (simp add: hexstr_to_int_def rd_in)
qed

lemma ucast_u8_u32 [simp]: "(ucast (ucast x :: u32) :: u8) = x"
  by (rule bit_word_eqI) (auto simp: bit_simps)

lemma exec_str_to_guid_eq:
  "\<forall>(i, p) \<in> set ss. hexstr_to_int s p = Some (ucast (g ! i)) \<and> i < length d \<Longrightarrow>
   \<exists>d'. exec_str_to_guid s ss d = Some d' \<and> length d' = length d \<and>
        (\<forall>j. d' ! j = (if j \<in> fst ` set ss then g ! j else d ! j))"
proof (induction ss arbitrary: d)
  case Nil
  then show ?case by simp
next
  case (Cons x ss)
  obtain i p where x: "x = (i, p)" by fastforce
  have i: "hexstr_to_int s p = Some (ucast (g ! i))" "i < length d" using Cons.prems by (auto simp: x)
  obtain d' where "exec_str_to_guid s ss (d[i := g ! i]) = Some d'" "length d' = length d"
      "\<And>j. d' ! j = (if j \<in> fst ` set ss then g ! j else d[i := g ! i] ! j)"
    using Cons.IH [of "d[i := g ! i]"] Cons.prems by auto
  then show ?case using i by (auto simp: x wr_in nth_list_update)
qed

text \<open>Parsing a printed GUID gives the GUID back.\<close>

lemma str_to_guid_text:
  assumes "length g = 16" "length d = 16" "36 \<le> length s" "take 36 s = guid_text g"
  shows "str_to_guid (Some s) (Some d) = Some (Some g)"
proof -
  have nth: "s ! k = guid_text g ! k" if "k < 36" for k
    using assms(4) that by (metis nth_take)
  have "\<forall>(i, p) \<in> set str_to_guid_body. hexstr_to_int s p = Some (ucast (g ! i)) \<and> i < length d"
  proof (clarify)
    fix i p
    assume "(i, p) \<in> set str_to_guid_body"
    from guid_text_nth [OF this, of g] nth [of p] nth [of "Suc p"] assms
    show "hexstr_to_int s p = Some (ucast (g ! i)) \<and> i < length d"
      by (auto intro!: hexstr_to_int_eq)
  qed
  from exec_str_to_guid_eq [OF this] obtain d' where
    d': "exec_str_to_guid s str_to_guid_body d = Some d'" "length d' = length d"
      "\<And>j. d' ! j = (if j \<in> fst ` set str_to_guid_body then g ! j else d ! j)" by blast
  have "j \<in> fst ` set str_to_guid_body" if "j < 16" for j
    using that by (simp add: str_to_guid_body_def) arith
  then have "d' = g" using d'(2,3) assms by (intro nth_equalityI) auto
  then show ?thesis using d'(1) by (simp add: str_to_guid_def)
qed

lemma guid_text_inject:
  assumes "length g = 16" "length g' = 16" "guid_text g = guid_text g'"
  shows "g = g'"
proof -
  have l: "length (guid_text g) = 36" using guid_to_str_eq(2) [of g "replicate 37 0"] assms by simp
  have "str_to_guid (Some (guid_text g)) (Some g) = Some (Some g)"
    by (rule str_to_guid_text) (use assms l in auto)
  moreover have "str_to_guid (Some (guid_text g)) (Some g) = Some (Some g')"
    by (rule str_to_guid_text) (use assms l in auto)
  ultimately show ?thesis by simp
qed

lemma hexdigit_nonzero: "n < 16 \<Longrightarrow> hexdigit n \<noteq> 0"
  using hexdigit_table by blast

lemma guid_text_nonzero: "0 \<notin> set (guid_text g)"
proof -
  have "0 \<notin> set (hex2 v)" for v
  proof -
    have "unat v < 256" using unsigned_less [of v] by simp
    then have "hexdigit (unat v div 16) \<noteq> 0" "hexdigit (unat v mod 16) \<noteq> 0"
      by (auto intro!: hexdigit_nonzero)
    then show ?thesis by (auto simp: hex2_def)
  qed
  then show ?thesis by (auto simp: guid_text_def guid_to_str_body_def)
qed

section \<open>Comparing UIDs\<close>

lemma strncmp0_loop_eq:
  "readable (drop i a) (n - i) \<Longrightarrow> readable (drop i b) (n - i) \<Longrightarrow> i \<le> n \<Longrightarrow>
   strncmp0_loop a b n i =
     Some (cstr (take (n - i) (drop i a)) = cstr (take (n - i) (drop i b)))"
proof (induction a b n i rule: strncmp0_loop.induct)
  case (1 a b n i)
  show ?case
  proof (cases "i < n")
    case False
    with 1(4) have "i = n" by simp
    then show ?thesis by (simp add: strncmp0_loop.simps [of a b n n])
  next
    case True
    have ia: "i < length a" and ra: "a ! i \<noteq> 0 \<Longrightarrow> readable (drop (Suc i) a) (n - Suc i)"
      using readable_drop_Suc [OF 1(2)] True by auto
    have ib: "i < length b" and rb: "b ! i \<noteq> 0 \<Longrightarrow> readable (drop (Suc i) b) (n - Suc i)"
      using readable_drop_Suc [OF 1(3)] True by auto
    show ?thesis
    proof (cases "a ! i = b ! i \<and> a ! i \<noteq> 0")
      case False
      then show ?thesis using True ia ib
        by (auto simp: strncmp0_loop.simps [of a b n i] rd_in cstr_take_drop_step)
    next
      case c: True
      then have "strncmp0_loop a b n (Suc i) =
          Some (cstr (take (n - Suc i) (drop (Suc i) a)) = cstr (take (n - Suc i) (drop (Suc i) b)))"
        using True ia ib ra rb by (intro 1(1) [of "a ! i" "b ! i"]) (auto simp: rd_in)
      then show ?thesis using True c ia ib
        by (simp add: strncmp0_loop.simps [of a b n i] rd_in cstr_take_drop_step)
    qed
  qed
qed

lemma uid_cmp_eq:
  assumes "readable a 37" "readable b 37"
  shows "uid_cmp a b = Some (take 37 (cstr a) = take 37 (cstr b))"
  using strncmp0_loop_eq [of 0 a 37 b] assms by (simp add: uid_cmp_def COMMON_UID_LEN_def cstr_take)

lemma uid_cmp_guid_text:
  assumes "length g = 16" "length g' = 16"
  shows "uid_cmp (guid_text g @ 0 # r) (guid_text g' @ 0 # r') = Some (g = g')"
proof -
  have c: "cstr (guid_text x @ 0 # y) = guid_text x" for x y
    by (intro cstr_append_zero guid_text_nonzero)
  have "length (guid_text x) = 36" if "length x = 16" for x
    using guid_to_str_eq(2) [of x "replicate 37 0"] that by simp
  then show ?thesis using assms guid_text_inject [of g g']
    by (auto simp: uid_cmp_eq readable_def c)
qed

section \<open>Properties\<close>

text \<open> Printing a GUID into a buffer of 37 bytes and parsing the text gives the GUID back, and the
  UIDs that two GUIDs print to compare equal exactly when the GUIDs are equal.\<close>

theorem guid_roundtrip:
  assumes "length g = 16" and "length g' = 16" and "length buf = 37" and "length buf' = 37"
  shows "\<exists>s s'. guid_to_str (Some g) (Some buf) = Some (Some s) \<and>
           guid_to_uid (Some g') (Some buf') = Some (Some s') \<and>
           str_to_guid (Some s) (Some g') = Some (Some g) \<and> uid_cmp s s' = Some (g = g')"
proof -
  have s: "guid_to_str (Some g) (Some buf) = Some (Some (guid_text g @ [0]))"
    "guid_to_uid (Some g') (Some buf') = Some (Some (guid_text g' @ [0]))"
    using guid_to_str_eq(1) [of g buf] guid_to_str_eq(1) [of g' buf'] assms
    by (simp_all add: guid_to_uid_def)
  have "length (guid_text g) = 36" using guid_to_str_eq(2) [of g buf] assms by simp
  then have "str_to_guid (Some (guid_text g @ [0])) (Some g') = Some (Some g)"
    using str_to_guid_text [of g g' "guid_text g @ [0]"] assms by simp
  with s show ?thesis using uid_cmp_guid_text [of g g' "[]" "[]"] assms by auto
qed

theorem guid_roundtrip_witness:
  "\<exists>s s'. guid_to_str (Some (replicate 16 171)) (Some (replicate 37 1)) = Some (Some s) \<and>
     guid_to_uid (Some (replicate 16 0)) (Some (replicate 37 0)) = Some (Some s') \<and>
     uid_cmp s s' = Some False"
  using guid_roundtrip [of "replicate 16 171" "replicate 16 0" "replicate 37 1" "replicate 37 0"]
  by auto

lemma guid_hash_digest:
  assumes "length h \<ge> 16" and "length g = 16" and "sha1 source = Some h"
  shows "guid_hash sha1 source g =
           Some (take 7 h @ [(h ! 7 AND 0x0F) XOR 0x50, (h ! 8 AND 0x3F) XOR 0x80] @
                 take 7 (drop 9 h), True)"
proof -
  obtain t r where tr: "h = t @ r" and t: "length t = 16"
  proof (rule that)
    show "h = take 16 h @ drop 16 h" by simp
    show "length (take 16 h) = 16" using assms(1) by simp
  qed
  obtain h0 h1 h2 h3 h4 h5 h6 h7 h8 h9 h10 h11 h12 h13 h14 h15 where
    "t = [h0, h1, h2, h3, h4, h5, h6, h7, h8, h9, h10, h11, h12, h13, h14, h15]"
    using t by (auto simp: numeral_eq_Suc length_Suc_conv)
  note h = tr [unfolded this]
  obtain g0 g1 g2 g3 g4 g5 g6 g7 g8 g9 g10 g11 g12 g13 g14 g15 where
    g: "g = [g0, g1, g2, g3, g4, g5, g6, g7, g8, g9, g10, g11, g12, g13, g14, g15]"
    using assms(2) by (auto simp: numeral_eq_Suc length_Suc_conv)
  show ?thesis
    by (simp add: guid_hash_def assms(3) h g rd_bytes_def wr_bytes_def rd_def wr_def)
qed

text \<open> When SHA-1 gives its digest, the GUID of \<open>guid_hash\<close> is the first sixteen bytes of the
  digest with the version nibble set to 5 and the two variant bits set to 10, as RFC 4122 requires;
  when the digest fails the destination is left alone and failure is reported.\<close>

theorem guid_hash_version_variant:
  assumes "length g = 16" and "\<forall>h. sha1 source = Some h \<longrightarrow> length h = 20"
  shows "\<exists>g' ok. guid_hash sha1 source g = Some (g', ok) \<and> ok = (sha1 source \<noteq> None) \<and>
           length g' = 16 \<and>
           (if ok then drop_bit 4 (g' ! 7) = 5 \<and> drop_bit 6 (g' ! 8) = 2 \<and>
               (\<forall>i < 16. i = 7 \<or> i = 8 \<or> g' ! i = the (sha1 source) ! i)
            else g' = g)"
proof (cases "sha1 source")
  case None
  then show ?thesis using assms(1) by (auto simp: guid_hash_def intro: exI [of _ False])
next
  case (Some h)
  then have h: "length h = 20" using assms(2) by simp
  have v: "drop_bit 4 ((x AND 0x0F) XOR 0x50) = (5 :: u8)" for x
    by (rule bit_word_eqI) (auto simp: bit_simps bit_numeral_rec less_Suc_eq numeral_eq_Suc)
  have w: "drop_bit 6 ((x AND 0x3F) XOR 0x80) = (2 :: u8)" for x
    by (rule bit_word_eqI) (auto simp: bit_simps bit_numeral_rec less_Suc_eq numeral_eq_Suc)
  let ?g = "take 7 h @ [(h ! 7 AND 0x0F) XOR 0x50, (h ! 8 AND 0x3F) XOR 0x80] @ take 7 (drop 9 h)"
  have "?g ! i = h ! i" if "i < 16" "i \<noteq> 7" "i \<noteq> 8" for i
  proof (cases "i < 7")
    case True
    then show ?thesis using h by (simp add: nth_append)
  next
    case False
    then have "9 \<le> i" using that by simp
    then show ?thesis using h that by (simp add: nth_append nth_Cons')
  qed
  moreover have "?g ! 7 = (h ! 7 AND 0x0F) XOR 0x50" "?g ! 8 = (h ! 8 AND 0x3F) XOR 0x80"
    using h by (simp_all add: nth_append)
  ultimately show ?thesis
    using guid_hash_digest [of h g sha1 source] h assms(1) Some v w by auto
qed

theorem guid_hash_version_variant_witness:
  "\<exists>g'. guid_hash (\<lambda>_. Some (replicate 20 255)) [1, 2] (replicate 16 0) = Some (g', True) \<and>
        drop_bit 4 (g' ! 7) = 5 \<and> drop_bit 6 (g' ! 8) = 2"
  using guid_hash_version_variant [of "replicate 16 0" "\<lambda>_. Some (replicate 20 255)" "[1, 2]"]
  by auto

end
