(* ===== verification/Nfit.thy ===== *)
theory Nfit
  imports Guid
begin

text \<open>
  ACPI tables and the NFIT parser: \<open>acpi/acpi.c\<close>, \<open>acpi/lnx_acpi.c\<close>, \<open>acpi/nfit.c\<close> and
  \<open>acpi/nfit_parser.c\<close>, with the structures of \<open>acpi/nfit_tables.h\<close>. Functions that return a count
  or an error return \<open>int\<close>. The growing arrays of \<open>struct parsed_nfit\<close> are lists, whose lengths are
  the counts; \<open>alloc n\<close> tells whether an allocation of \<open>n\<close> bytes succeeds.
\<close>

section \<open>ACPI tables\<close>

abbreviation ACPI_SUCCESS :: int where "ACPI_SUCCESS \<equiv> 0"
abbreviation ACPI_ERR_BADINPUT :: int where "ACPI_ERR_BADINPUT \<equiv> -1"
abbreviation ACPI_ERR_CHECKSUMFAIL :: int where "ACPI_ERR_CHECKSUMFAIL \<equiv> -2"
abbreviation ACPI_ERR_BADTABLE :: int where "ACPI_ERR_BADTABLE \<equiv> -3"
abbreviation ACPI_ERR_BADTABLESIGNATURE :: int where "ACPI_ERR_BADTABLESIGNATURE \<equiv> -4"
abbreviation ACPI_ERR_TABLENOTFOUND :: int where "ACPI_ERR_TABLENOTFOUND \<equiv> -5"

text \<open>\<open>sizeof (struct acpi_table)\<close>, which is that of its header.\<close>

definition ACPI_HEADER_LEN :: nat where "ACPI_HEADER_LEN = 40"

definition acpi_length :: "bytes \<Rightarrow> nat option" where
  "acpi_length p_table = map_option unat (rd32 p_table 4)"

definition check_acpi_table :: "bytes \<Rightarrow> bytes option \<Rightarrow> int option" where
  "check_acpi_table signature p_table =
     (case p_table of
        None \<Rightarrow> Some ACPI_ERR_BADINPUT
      | Some t \<Rightarrow> do {
          len \<leftarrow> acpi_length t;
          ok \<leftarrow> verify_checksum t len;
          if \<not> ok then Some ACPI_ERR_CHECKSUMFAIL
          else if len < ACPI_HEADER_LEN then Some ACPI_ERR_BADTABLE
          else do {
            same \<leftarrow> strncmp0_loop signature (take 4 t) 4 0;
            Some (if same then ACPI_SUCCESS else ACPI_ERR_BADTABLESIGNATURE) } })"

text \<open>
  The read loop of \<open>get_acpi_table\<close>: every \<open>read\<close> asks for \<open>requested\<close> bytes and gets at most
  \<open>chunk\<close> of what is left of the file, none at its end. When the file is too short the loop does
  not end.
\<close>

partial_function (option) acpi_read_loop ::
    "nat \<Rightarrow> bytes \<Rightarrow> nat \<Rightarrow> bytes \<Rightarrow> nat \<Rightarrow> bytes option" where
  "acpi_read_loop chunk rest requested p_table total_read =
     (if total_read < requested then
        (case wr_bytes p_table (ACPI_HEADER_LEN + total_read) (take (min chunk requested) rest) of
           None \<Rightarrow> None
         | Some p_table' \<Rightarrow>
             acpi_read_loop chunk (drop (min chunk requested) rest) requested p_table'
               (total_read + length (take (min chunk requested) rest)))
      else Some p_table)"

definition get_acpi_table ::
    "nat \<Rightarrow> bytes option \<Rightarrow> bytes \<Rightarrow> bytes option \<Rightarrow> nat \<Rightarrow> (int \<times> bytes option) option" where
  "get_acpi_table chunk table_file signature p_table buf_size =
     (case table_file of
        None \<Rightarrow> Some (ACPI_ERR_TABLENOTFOUND, p_table)
      | Some f \<Rightarrow>
          if length f < ACPI_HEADER_LEN \<or> chunk < ACPI_HEADER_LEN
          then Some (ACPI_ERR_BADTABLE, p_table)
          else do {
            total \<leftarrow> acpi_length f;
            case p_table of
              None \<Rightarrow> Some (int_cast total, None)
            | Some t \<Rightarrow> do {
                t0 \<leftarrow> wr_bytes t 0 (replicate buf_size 0);
                t1 \<leftarrow> wr_bytes t0 0 (take ACPI_HEADER_LEN f);
                if buf_size < total then Some (ACPI_ERR_BADTABLE, Some t1)
                else do {
                  let requested = (if total \<ge> ACPI_HEADER_LEN then total - ACPI_HEADER_LEN
                                   else 2 ^ 64 + total - ACPI_HEADER_LEN);
                  t2 \<leftarrow> acpi_read_loop chunk (drop ACPI_HEADER_LEN f) requested t1 0;
                  rc \<leftarrow> check_acpi_table signature (Some t2);
                  Some (rc, Some t2) } } })"

section \<open>The tables of the NFIT\<close>

record nfit_header =
  nf_signature :: bytes
  nf_length :: u32
  nf_revision :: u8
  nf_checksum :: u8
  nf_oem_id :: bytes
  nf_oem_table_id :: bytes
  nf_oem_revision :: u32
  nf_creator_id :: bytes
  nf_creator_revision :: u32

record spa =
  sp_type :: u16
  sp_length :: u16
  spa_range_index :: u16
  sp_flags :: u16
  proximity_domain :: u32
  address_range_type_guid :: bytes
  spa_range_base :: u64
  spa_range_length :: u64
  address_range_memory_mapping_attribute :: u64

record region_mapping =
  rm_type :: u16
  rm_length :: u16
  rm_handle :: u32
  rm_physical_id :: u16
  rm_region_id :: u16
  rm_spa_index :: u16
  rm_control_region_index :: u16
  rm_region_size :: u64
  rm_region_offset :: u64
  rm_physical_address_region_base :: u64
  rm_interleave_index :: u16
  rm_interleave_ways :: u16
  rm_state_flag :: u16

record interleave =
  il_type :: u16
  il_length :: u16
  il_interleave_index :: u16
  il_number_of_lines :: u32
  il_line_size_bytes :: u32

record smbios_management_info =
  sb_type :: u16
  sb_length :: u16

record control_region =
  cr_type :: u16
  cr_length :: u16
  cr_index :: u16
  cr_vendor_id :: u16
  cr_device_id :: u16
  cr_revision_id :: u16
  cr_subsystem_vendor_id :: u16
  cr_subsystem_device_id :: u16
  cr_subsystem_revision_id :: u16
  cr_valid_fields :: u8
  cr_manufacturing_location :: u8
  cr_manufacturing_date :: u16
  cr_serial_number :: u32
  cr_ifc :: u16
  cr_block_window_count :: u16
  cr_block_window_size :: u64
  cr_register_offset :: u64
  cr_register_size :: u64
  cr_status_register_offset :: u64
  cr_status_register_size :: u64
  cr_region_flag :: u16

record block_data_window_region =
  bw_type :: u16
  bw_length :: u16
  bw_control_region_index :: u16
  bw_windows_count :: u16
  bw_window_start_offset :: u64
  bw_window_size :: u64
  bw_memory_capacity :: u64
  bw_first_block_address :: u64

record flush_hint_address =
  fh_type :: u16
  fh_length :: u16
  fh_handle :: u32
  fh_address_count :: u16

record parsed_nfit =
  pn_nfit :: nfit_header
  spa_list :: "spa list"
  region_mapping_list :: "region_mapping list"
  interleave_list :: "interleave list"
  smbios_management_info_list :: "smbios_management_info list"
  control_region_list :: "control_region list"
  block_data_window_region_list :: "block_data_window_region list"
  flush_hint_address_list :: "flush_hint_address list"

text \<open>A packed structure read from the buffer, field by field at its offset.\<close>

definition dec_nfit_header :: "bytes \<Rightarrow> nfit_header" where
  "dec_nfit_header b =
     \<lparr>nf_signature = take 4 b, nf_length = fld b 4 4, nf_revision = fld b 8 1,
      nf_checksum = fld b 9 1, nf_oem_id = take 6 (drop 10 b), nf_oem_table_id = take 8 (drop 16 b),
      nf_oem_revision = fld b 24 4, nf_creator_id = take 4 (drop 28 b),
      nf_creator_revision = fld b 32 4\<rparr>"

definition dec_spa :: "bytes \<Rightarrow> spa" where
  "dec_spa b =
     \<lparr>sp_type = fld b 0 2, sp_length = fld b 2 2, spa_range_index = fld b 4 2, sp_flags = fld b 6 2,
      proximity_domain = fld b 12 4, address_range_type_guid = take 16 (drop 16 b),
      spa_range_base = fld b 32 8, spa_range_length = fld b 40 8,
      address_range_memory_mapping_attribute = fld b 48 8\<rparr>"

definition dec_region_mapping :: "bytes \<Rightarrow> region_mapping" where
  "dec_region_mapping b =
     \<lparr>rm_type = fld b 0 2, rm_length = fld b 2 2, rm_handle = fld b 4 4, rm_physical_id = fld b 8 2,
      rm_region_id = fld b 10 2, rm_spa_index = fld b 12 2, rm_control_region_index = fld b 14 2,
      rm_region_size = fld b 16 8, rm_region_offset = fld b 24 8,
      rm_physical_address_region_base = fld b 32 8, rm_interleave_index = fld b 40 2,
      rm_interleave_ways = fld b 42 2, rm_state_flag = fld b 44 2\<rparr>"

definition dec_interleave :: "bytes \<Rightarrow> interleave" where
  "dec_interleave b =
     \<lparr>il_type = fld b 0 2, il_length = fld b 2 2, il_interleave_index = fld b 4 2,
      il_number_of_lines = fld b 8 4, il_line_size_bytes = fld b 12 4\<rparr>"

definition dec_smbios_management_info :: "bytes \<Rightarrow> smbios_management_info" where
  "dec_smbios_management_info b = \<lparr>sb_type = fld b 0 2, sb_length = fld b 2 2\<rparr>"

definition dec_control_region :: "bytes \<Rightarrow> control_region" where
  "dec_control_region b =
     \<lparr>cr_type = fld b 0 2, cr_length = fld b 2 2, cr_index = fld b 4 2, cr_vendor_id = fld b 6 2,
      cr_device_id = fld b 8 2, cr_revision_id = fld b 10 2, cr_subsystem_vendor_id = fld b 12 2,
      cr_subsystem_device_id = fld b 14 2, cr_subsystem_revision_id = fld b 16 2,
      cr_valid_fields = fld b 18 1, cr_manufacturing_location = fld b 19 1,
      cr_manufacturing_date = fld b 20 2, cr_serial_number = fld b 24 4, cr_ifc = fld b 28 2,
      cr_block_window_count = fld b 30 2, cr_block_window_size = fld b 32 8,
      cr_register_offset = fld b 40 8, cr_register_size = fld b 48 8,
      cr_status_register_offset = fld b 56 8, cr_status_register_size = fld b 64 8,
      cr_region_flag = fld b 72 2\<rparr>"

definition dec_block_data_window_region :: "bytes \<Rightarrow> block_data_window_region" where
  "dec_block_data_window_region b =
     \<lparr>bw_type = fld b 0 2, bw_length = fld b 2 2, bw_control_region_index = fld b 4 2,
      bw_windows_count = fld b 6 2, bw_window_start_offset = fld b 8 8, bw_window_size = fld b 16 8,
      bw_memory_capacity = fld b 24 8, bw_first_block_address = fld b 32 8\<rparr>"

definition dec_flush_hint_address :: "bytes \<Rightarrow> flush_hint_address" where
  "dec_flush_hint_address b =
     \<lparr>fh_type = fld b 0 2, fh_length = fld b 2 2, fh_handle = fld b 4 4, fh_address_count = fld b 8 2\<rparr>"

section \<open>Parsing\<close>

abbreviation NFIT_SUCCESS :: int where "NFIT_SUCCESS \<equiv> 0"
abbreviation NFIT_ERR_TABLENOTFOUND :: int where "NFIT_ERR_TABLENOTFOUND \<equiv> -1"
abbreviation NFIT_ERR_CHECKSUMFAIL :: int where "NFIT_ERR_CHECKSUMFAIL \<equiv> -2"
abbreviation NFIT_ERR_BADNFIT :: int where "NFIT_ERR_BADNFIT \<equiv> -3"
abbreviation NFIT_ERR_NOMEMORY :: int where "NFIT_ERR_NOMEMORY \<equiv> -4"
abbreviation NFIT_ERR_BADINPUT :: int where "NFIT_ERR_BADINPUT \<equiv> -5"

text \<open>
  The \<open>add_\<dots>_to_parsed_nfit\<close> functions. The copy reads the whole structure from the buffer, also
  when the length of the extension table is smaller. A failed \<open>realloc\<close> leaves \<open>NULL\<close> in the list.
\<close>

definition add_spa_to_parsed_nfit ::
    "(nat \<Rightarrow> bool) \<Rightarrow> parsed_nfit \<Rightarrow> bytes \<Rightarrow> nat \<Rightarrow> (int \<times> parsed_nfit) option" where
  "add_spa_to_parsed_nfit alloc p_nfit buffer offset =
     (if alloc (56 * (length (spa_list p_nfit) + 1)) then do {
        raw \<leftarrow> rd_bytes buffer offset 56;
        Some (NFIT_SUCCESS, p_nfit\<lparr>spa_list := spa_list p_nfit @ [dec_spa raw]\<rparr>) }
      else Some (NFIT_ERR_NOMEMORY, p_nfit\<lparr>spa_list := []\<rparr>))"

definition add_region_mapping_to_parsed_nfit ::
    "(nat \<Rightarrow> bool) \<Rightarrow> parsed_nfit \<Rightarrow> bytes \<Rightarrow> nat \<Rightarrow> (int \<times> parsed_nfit) option" where
  "add_region_mapping_to_parsed_nfit alloc p_nfit buffer offset =
     (if alloc (48 * (length (region_mapping_list p_nfit) + 1)) then do {
        raw \<leftarrow> rd_bytes buffer offset 48;
        Some (NFIT_SUCCESS,
          p_nfit\<lparr>region_mapping_list := region_mapping_list p_nfit @ [dec_region_mapping raw]\<rparr>) }
      else Some (NFIT_ERR_NOMEMORY, p_nfit\<lparr>region_mapping_list := []\<rparr>))"

definition add_interleave_to_parsed_nfit ::
    "(nat \<Rightarrow> bool) \<Rightarrow> parsed_nfit \<Rightarrow> bytes \<Rightarrow> nat \<Rightarrow> (int \<times> parsed_nfit) option" where
  "add_interleave_to_parsed_nfit alloc p_nfit buffer offset =
     (if alloc (16 * (length (interleave_list p_nfit) + 1)) then do {
        raw \<leftarrow> rd_bytes buffer offset 16;
        Some (NFIT_SUCCESS,
          p_nfit\<lparr>interleave_list := interleave_list p_nfit @ [dec_interleave raw]\<rparr>) }
      else Some (NFIT_ERR_NOMEMORY, p_nfit\<lparr>interleave_list := []\<rparr>))"

definition add_smbios_management_info_to_parsed_nfit ::
    "(nat \<Rightarrow> bool) \<Rightarrow> parsed_nfit \<Rightarrow> bytes \<Rightarrow> nat \<Rightarrow> (int \<times> parsed_nfit) option" where
  "add_smbios_management_info_to_parsed_nfit alloc p_nfit buffer offset =
     (if alloc (8 * (length (smbios_management_info_list p_nfit) + 1)) then do {
        raw \<leftarrow> rd_bytes buffer offset 8;
        Some (NFIT_SUCCESS,
          p_nfit\<lparr>smbios_management_info_list :=
            smbios_management_info_list p_nfit @ [dec_smbios_management_info raw]\<rparr>) }
      else Some (NFIT_ERR_NOMEMORY, p_nfit\<lparr>smbios_management_info_list := []\<rparr>))"

definition add_control_region_to_parsed_nfit ::
    "(nat \<Rightarrow> bool) \<Rightarrow> parsed_nfit \<Rightarrow> bytes \<Rightarrow> nat \<Rightarrow> (int \<times> parsed_nfit) option" where
  "add_control_region_to_parsed_nfit alloc p_nfit buffer offset =
     (if alloc (80 * (length (control_region_list p_nfit) + 1)) then do {
        raw \<leftarrow> rd_bytes buffer offset 80;
        Some (NFIT_SUCCESS,
          p_nfit\<lparr>control_region_list := control_region_list p_nfit @ [dec_control_region raw]\<rparr>) }
      else Some (NFIT_ERR_NOMEMORY, p_nfit\<lparr>control_region_list := []\<rparr>))"

definition add_block_data_window_region_to_parsed_nfit ::
    "(nat \<Rightarrow> bool) \<Rightarrow> parsed_nfit \<Rightarrow> bytes \<Rightarrow> nat \<Rightarrow> (int \<times> parsed_nfit) option" where
  "add_block_data_window_region_to_parsed_nfit alloc p_nfit buffer offset =
     (if alloc (40 * (length (block_data_window_region_list p_nfit) + 1)) then do {
        raw \<leftarrow> rd_bytes buffer offset 40;
        Some (NFIT_SUCCESS,
          p_nfit\<lparr>block_data_window_region_list :=
            block_data_window_region_list p_nfit @ [dec_block_data_window_region raw]\<rparr>) }
      else Some (NFIT_ERR_NOMEMORY, p_nfit\<lparr>block_data_window_region_list := []\<rparr>))"

definition add_flush_hint_address_to_parsed_nfit ::
    "(nat \<Rightarrow> bool) \<Rightarrow> parsed_nfit \<Rightarrow> bytes \<Rightarrow> nat \<Rightarrow> (int \<times> parsed_nfit) option" where
  "add_flush_hint_address_to_parsed_nfit alloc p_nfit buffer offset =
     (if alloc (16 * (length (flush_hint_address_list p_nfit) + 1)) then do {
        raw \<leftarrow> rd_bytes buffer offset 16;
        Some (NFIT_SUCCESS,
          p_nfit\<lparr>flush_hint_address_list :=
            flush_hint_address_list p_nfit @ [dec_flush_hint_address raw]\<rparr>) }
      else Some (NFIT_ERR_NOMEMORY, p_nfit\<lparr>flush_hint_address_list := []\<rparr>))"

definition add_extension_table ::
    "(nat \<Rightarrow> bool) \<Rightarrow> nat \<Rightarrow> parsed_nfit \<Rightarrow> bytes \<Rightarrow> nat \<Rightarrow> (int \<times> parsed_nfit) option" where
  "add_extension_table alloc t p_nfit buffer offset =
     (if t = 0 then add_spa_to_parsed_nfit alloc p_nfit buffer offset
      else if t = 1 then add_region_mapping_to_parsed_nfit alloc p_nfit buffer offset
      else if t = 2 then add_interleave_to_parsed_nfit alloc p_nfit buffer offset
      else if t = 3 then add_smbios_management_info_to_parsed_nfit alloc p_nfit buffer offset
      else if t = 4 then add_control_region_to_parsed_nfit alloc p_nfit buffer offset
      else if t = 5 then add_block_data_window_region_to_parsed_nfit alloc p_nfit buffer offset
      else if t = 6 then add_flush_hint_address_to_parsed_nfit alloc p_nfit buffer offset
      else Some (NFIT_SUCCESS, p_nfit))"

text \<open>The type and the length are each read through an \<open>unsigned char *\<close>: one byte.\<close>

function nfit_ext_loop ::
    "(nat \<Rightarrow> bool) \<Rightarrow> bytes \<Rightarrow> nat \<Rightarrow> nat \<Rightarrow> parsed_nfit \<Rightarrow> (int \<times> parsed_nfit) option" where
  "nfit_ext_loop alloc buffer buffer_size offset p =
     (if offset < buffer_size then do {
        t \<leftarrow> rd buffer offset;
        len \<leftarrow> rd buffer (offset + 2);
        if len = 0 \<or> unat len + offset > buffer_size then Some (NFIT_ERR_BADNFIT, p)
        else do {
          (result, p') \<leftarrow> add_extension_table alloc (unat t) p buffer offset;
          if result = NFIT_SUCCESS then nfit_ext_loop alloc buffer buffer_size (offset + unat len) p'
          else Some (result, p') } }
      else Some (NFIT_SUCCESS, p))"
  by pat_completeness auto
termination
  by (relation "measure (\<lambda>(alloc, buffer, buffer_size, offset, p). buffer_size - offset)")
    (auto simp: unat_gt_0 intro!: diff_less_mono2)

declare nfit_ext_loop.simps [simp del]

text \<open>\<open>free_parsed_nfit\<close> releases the lists and the structure; the pointer of the caller dangles.\<close>

definition free_parsed_nfit :: "parsed_nfit ptr \<Rightarrow> parsed_nfit ptr option" where
  "free_parsed_nfit p_parsed_nfit =
     (case p_parsed_nfit of Null \<Rightarrow> Some Null | Dangling \<Rightarrow> None | Valid _ \<Rightarrow> Some Dangling)"

definition nfit_parse_raw_nfit ::
    "(nat \<Rightarrow> bool) \<Rightarrow> bytes option \<Rightarrow> nat \<Rightarrow> parsed_nfit ptr \<Rightarrow> (int \<times> parsed_nfit ptr) option"
  where
  "nfit_parse_raw_nfit alloc buffer buffer_size pp_parsed_nfit =
     (case buffer of
        None \<Rightarrow> Some (NFIT_ERR_BADINPUT, pp_parsed_nfit)
      | Some b \<Rightarrow>
          if buffer_size = 0 then Some (NFIT_ERR_BADINPUT, pp_parsed_nfit)
          else if \<not> alloc 152 then Some (NFIT_ERR_NOMEMORY, Null)
          else do {
            hdr \<leftarrow> rd_bytes b 0 ACPI_HEADER_LEN;
            let p0 = \<lparr>pn_nfit = dec_nfit_header hdr, spa_list = [], region_mapping_list = [],
                      interleave_list = [], smbios_management_info_list = [],
                      control_region_list = [], block_data_window_region_list = [],
                      flush_hint_address_list = []\<rparr>;
            (result, p) \<leftarrow> nfit_ext_loop alloc b buffer_size ACPI_HEADER_LEN p0;
            if result \<noteq> NFIT_SUCCESS then do {
              freed \<leftarrow> free_parsed_nfit (Valid p);
              Some (result, freed) }
            else Some (result, Valid p) })"

definition acpi_error_to_nfit_error :: "int \<Rightarrow> int" where
  "acpi_error_to_nfit_error acpi_err =
     (if acpi_err = ACPI_ERR_CHECKSUMFAIL then NFIT_ERR_CHECKSUMFAIL
      else if acpi_err = ACPI_ERR_BADINPUT \<or> acpi_err = ACPI_ERR_BADTABLE \<or>
        acpi_err = ACPI_ERR_BADTABLESIGNATURE then NFIT_ERR_BADNFIT
      else if acpi_err = ACPI_ERR_TABLENOTFOUND then NFIT_ERR_TABLENOTFOUND
      else NFIT_SUCCESS)"

text \<open>\<open>''NFIT''\<close> and the sysfs file of that table.\<close>

definition NFIT_SIGNATURE :: bytes where "NFIT_SIGNATURE = [78, 70, 73, 84]"

definition nfit_get_parsed_nfit ::
    "(nat \<Rightarrow> bool) \<Rightarrow> nat \<Rightarrow> bytes option \<Rightarrow> parsed_nfit ptr \<Rightarrow> (int \<times> parsed_nfit ptr) option" where
  "nfit_get_parsed_nfit alloc chunk table_file pp_parsed_nfit = do {
     (buffer_size, _) \<leftarrow> get_acpi_table chunk table_file (NFIT_SIGNATURE @ [0]) None 0;
     if buffer_size \<le> 0 then Some (acpi_error_to_nfit_error buffer_size, pp_parsed_nfit)
     else if \<not> alloc (nat buffer_size) then Some (NFIT_ERR_NOMEMORY, pp_parsed_nfit)
     else do {
       (rc, buffer) \<leftarrow> get_acpi_table chunk table_file (NFIT_SIGNATURE @ [0])
                         (Some (replicate (nat buffer_size) 0)) (nat buffer_size);
       let result = acpi_error_to_nfit_error rc;
       if result = NFIT_SUCCESS
       then nfit_parse_raw_nfit alloc buffer (nat buffer_size) pp_parsed_nfit
       else Some (result, pp_parsed_nfit) } }"

section \<open>Reference reading of a table\<close>

text \<open>
  An NFIT as the ACPI specification lays it out: a header of 40 bytes and extension tables, each
  with a 16-bit type and a 16-bit length in front. \<open>wf_sub\<close> describes the extension tables whose
  type and length fit the single bytes that the parser reads.
\<close>

definition sub_type :: "bytes \<Rightarrow> nat" where
  "sub_type b = le_nat (take 2 b)"

definition sub_length :: "bytes \<Rightarrow> nat" where
  "sub_length b = le_nat (take 2 (drop 2 b))"

definition min_size :: "nat \<Rightarrow> nat" where
  "min_size t = (if t = 0 then 56 else if t = 1 then 48 else if t = 2 then 16 else if t = 3 then 8
     else if t = 4 then 80 else if t = 5 then 40 else if t = 6 then 16 else 4)"

definition wf_ext :: "bytes \<Rightarrow> bool" where
  "wf_ext b \<longleftrightarrow> 4 \<le> length b \<and> sub_length b = length b \<and> min_size (sub_type b) \<le> length b"

definition wf_sub :: "bytes \<Rightarrow> bool" where
  "wf_sub b \<longleftrightarrow> wf_ext b \<and> length b < 256 \<and> sub_type b < 256"

definition subs :: "nat \<Rightarrow> (bytes \<Rightarrow> 'a) \<Rightarrow> bytes list \<Rightarrow> 'a list" where
  "subs t dec ts = map dec (filter (\<lambda>b. sub_type b = t) ts)"

definition extend_nfit :: "parsed_nfit \<Rightarrow> bytes list \<Rightarrow> parsed_nfit" where
  "extend_nfit p ts =
     \<lparr>pn_nfit = pn_nfit p, spa_list = spa_list p @ subs 0 dec_spa ts,
      region_mapping_list = region_mapping_list p @ subs 1 dec_region_mapping ts,
      interleave_list = interleave_list p @ subs 2 dec_interleave ts,
      smbios_management_info_list =
        smbios_management_info_list p @ subs 3 dec_smbios_management_info ts,
      control_region_list = control_region_list p @ subs 4 dec_control_region ts,
      block_data_window_region_list =
        block_data_window_region_list p @ subs 5 dec_block_data_window_region ts,
      flush_hint_address_list = flush_hint_address_list p @ subs 6 dec_flush_hint_address ts\<rparr>"

definition nfit_of :: "bytes \<Rightarrow> bytes list \<Rightarrow> parsed_nfit" where
  "nfit_of hdr ts =
     \<lparr>pn_nfit = dec_nfit_header hdr, spa_list = subs 0 dec_spa ts,
      region_mapping_list = subs 1 dec_region_mapping ts, interleave_list = subs 2 dec_interleave ts,
      smbios_management_info_list = subs 3 dec_smbios_management_info ts,
      control_region_list = subs 4 dec_control_region ts,
      block_data_window_region_list = subs 5 dec_block_data_window_region ts,
      flush_hint_address_list = subs 6 dec_flush_hint_address ts\<rparr>"

lemma subs_simps [simp]:
  "subs t dec [] = []"
  "subs t dec (b # ts) = (if sub_type b = t then [dec b] else []) @ subs t dec ts"
  by (simp_all add: subs_def)

lemma extend_nfit_Cons: "extend_nfit (extend_nfit p [b]) ts = extend_nfit p (b # ts)"
  by (simp add: extend_nfit_def)

lemma extend_nfit_Nil [simp]: "extend_nfit p [] = p"
  by (simp add: extend_nfit_def)

lemma min_size_pos: "4 \<le> min_size t"
  by (simp add: min_size_def)

lemma sub_bytes:
  assumes "4 \<le> length b"
  shows "sub_type b = unat (b ! 0) + 256 * unat (b ! 1)"
    and "sub_length b = unat (b ! 2) + 256 * unat (b ! 3)"
proof -
  obtain b0 b1 b2 b3 r where b: "b = b0 # b1 # b2 # b3 # r"
    using assms by (auto simp: numeral_eq_Suc Suc_le_length_iff)
  show "sub_type b = unat (b ! 0) + 256 * unat (b ! 1)"
    by (simp add: sub_type_def b numeral_2_eq_2)
  show "sub_length b = unat (b ! 2) + 256 * unat (b ! 3)"
    by (simp add: sub_length_def b numeral_2_eq_2 numeral_3_eq_3)
qed

lemma wf_sub_bytes:
  assumes "wf_sub b"
  shows "unat (b ! 0) = sub_type b" and "unat (b ! 2) = length b" and "4 \<le> length b"
  using assms sub_bytes [of b] by (auto simp: wf_sub_def wf_ext_def)

lemma dec_take:
  "dec_spa (take 56 b) = dec_spa b" "dec_region_mapping (take 48 b) = dec_region_mapping b"
  "dec_interleave (take 16 b) = dec_interleave b"
  "dec_smbios_management_info (take 8 b) = dec_smbios_management_info b"
  "dec_control_region (take 80 b) = dec_control_region b"
  "dec_block_data_window_region (take 40 b) = dec_block_data_window_region b"
  "dec_flush_hint_address (take 16 b) = dec_flush_hint_address b"
  by (simp_all add: dec_spa_def dec_region_mapping_def dec_interleave_def
      dec_smbios_management_info_def dec_control_region_def dec_block_data_window_region_def
      dec_flush_hint_address_def fld_take drop_take)

lemma add_extension_table_eq:
  assumes "\<And>n. alloc n" and "drop off buffer = b @ r" and "wf_sub b"
  shows "add_extension_table alloc (sub_type b) p buffer off = Some (NFIT_SUCCESS, extend_nfit p [b])"
proof -
  let ?t = "sub_type b"
  have sz: "min_size ?t \<le> length b" "0 < length b"
    using assms(3) by (auto simp: wf_sub_def wf_ext_def)
  have rb: "rd_bytes buffer off n = Some (take n b)" if "n \<le> length b" for n
    using rd_bytes_at [OF assms(2) that sz(2)] .
  consider "?t = 0" | "?t = 1" | "?t = 2" | "?t = 3" | "?t = 4" | "?t = 5" | "?t = 6" | "?t > 6"
    by linarith
  then show ?thesis
    using sz(1) assms(1)
    by cases (auto simp: add_extension_table_def min_size_def rb dec_take extend_nfit_def
        add_spa_to_parsed_nfit_def add_region_mapping_to_parsed_nfit_def
        add_interleave_to_parsed_nfit_def add_smbios_management_info_to_parsed_nfit_def
        add_control_region_to_parsed_nfit_def add_block_data_window_region_to_parsed_nfit_def
        add_flush_hint_address_to_parsed_nfit_def)
qed

lemma nfit_ext_loop_steps:
  assumes "\<And>n. alloc n" and "\<forall>b \<in> set ts. wf_sub b" and "drop off buffer = concat ts @ r"
    and "off + length (concat ts) \<le> buffer_size"
  shows "nfit_ext_loop alloc buffer buffer_size off p =
         nfit_ext_loop alloc buffer buffer_size (off + length (concat ts)) (extend_nfit p ts)"
  using assms(2-4)
proof (induction ts arbitrary: off p)
  case Nil
  then show ?case by simp
next
  case (Cons b ts)
  have b: "wf_sub b" using Cons.prems(1) by simp
  note f = wf_sub_bytes [OF b]
  have d: "drop off buffer = b @ (concat ts @ r)" using Cons.prems(2) by simp
  have d2: "drop (off + length b) buffer = concat ts @ r" by (rule drop_append_at [OF d])
  have l: "rd buffer off = Some (b ! 0)" "rd buffer (off + 2) = Some (b ! 2)"
    using rd_at [OF d, of 0] rd_at [OF d, of 2] f(3) by fastforce+
  have a: "add_extension_table alloc (unat (b ! 0)) p buffer off = Some (NFIT_SUCCESS, extend_nfit p [b])"
    unfolding f(1) by (rule add_extension_table_eq [OF assms(1) d b])
  have IH: "nfit_ext_loop alloc buffer buffer_size (off + length b) (extend_nfit p [b]) =
      nfit_ext_loop alloc buffer buffer_size (off + length b + length (concat ts))
        (extend_nfit (extend_nfit p [b]) ts)"
    by (rule Cons.IH) (use Cons.prems d2 in auto)
  have nz: "b ! 2 \<noteq> 0" using f(2,3) by (metis not_numeral_le_zero unsigned_0)
  have sz: "off < buffer_size" "\<not> length b + off > buffer_size" using Cons.prems(3) f(3) by auto
  have "nfit_ext_loop alloc buffer buffer_size off p =
      nfit_ext_loop alloc buffer buffer_size (off + length b) (extend_nfit p [b])"
    unfolding nfit_ext_loop.simps [of alloc buffer buffer_size off p]
    using l a nz sz f(2) by simp
  then show ?case using IH by (simp add: extend_nfit_Cons add.assoc)
qed

lemma nfit_ext_loop_eq:
  assumes "\<And>n. alloc n" and "\<forall>b \<in> set ts. wf_sub b" and "drop off buffer = concat ts @ r"
    and "buffer_size = off + length (concat ts)"
  shows "nfit_ext_loop alloc buffer buffer_size off p = Some (NFIT_SUCCESS, extend_nfit p ts)"
proof -
  have "nfit_ext_loop alloc buffer buffer_size off p =
      nfit_ext_loop alloc buffer buffer_size buffer_size (extend_nfit p ts)"
    using nfit_ext_loop_steps [where alloc = alloc and buffer_size = buffer_size and p = p, OF assms(1-3)] assms(4) by simp
  then show ?thesis by (simp add: nfit_ext_loop.simps [of alloc buffer buffer_size buffer_size])
qed

lemma nfit_parse_eq:
  assumes "\<And>n. alloc n" and "\<forall>b \<in> set ts. wf_sub b" and "length hdr = 40"
  shows "nfit_parse_raw_nfit alloc (Some (hdr @ concat ts)) (40 + length (concat ts)) pp =
         Some (NFIT_SUCCESS, Valid (nfit_of hdr ts))"
proof -
  let ?b = "hdr @ concat ts"
  have d: "drop 40 ?b = concat ts @ []" using assms(3) by simp
  have r: "rd_bytes ?b 0 ACPI_HEADER_LEN = Some hdr"
    using assms(3) by (simp add: rd_bytes_def ACPI_HEADER_LEN_def)
  show ?thesis
    using nfit_ext_loop_eq [where alloc = alloc, OF assms(1,2) d refl] assms(1) r
    by (simp add: nfit_parse_raw_nfit_def ACPI_HEADER_LEN_def Let_def nfit_of_def extend_nfit_def)
qed

section \<open>Reading the table through ACPI\<close>

lemma acpi_read_loop_eq:
  assumes "0 < chunk" and "40 + requested \<le> length p_table" and "total_read + length rest = requested"
    and "rest \<noteq> []  \<or> total_read = requested"
  shows "acpi_read_loop chunk rest requested p_table total_read =
         Some (take (40 + total_read) p_table @ rest @ drop (40 + requested) p_table)"
  using assms(2-4)
proof (induction "length rest" arbitrary: rest p_table total_read rule: less_induct)
  case less
  show ?case
  proof (cases "total_read < requested")
    case False
    then have "rest = []" "total_read = requested" using less.prems by auto
    then show ?thesis using less.prems
      by (subst acpi_read_loop.simps) simp
  next
    case True
    define w where "w = take (min chunk requested) rest"
    define v where "v = drop (min chunk requested) rest"
    have wv: "w @ v = rest" by (simp add: w_def v_def)
    have r: "rest \<noteq> []" using True less.prems by auto
    have w: "0 < length w" using r assms(1) True by (simp add: w_def)
    have lr: "length w + length v = length rest" using wv by (metis length_append)
    let ?p = "take (40 + total_read) p_table @ w @ drop (40 + total_read + length w) p_table"
    have wr: "wr_bytes p_table (ACPI_HEADER_LEN + total_read) w = Some ?p"
      using less.prems lr by (simp add: wr_bytes_def ACPI_HEADER_LEN_def)
    have lp: "40 + requested \<le> length ?p" using less.prems lr by simp
    have IH: "acpi_read_loop chunk v requested ?p (total_read + length w) =
          Some (take (40 + (total_read + length w)) ?p @ v @ drop (40 + requested) ?p)"
    proof (rule less.hyps)
      show "length v < length rest" using w lr by linarith
      show "40 + requested \<le> length ?p" by (rule lp)
      show "total_read + length w + length v = requested" using less.prems(2) lr by linarith
      show "v \<noteq> [] \<or> total_read + length w = requested"
        using less.prems(2) lr by (cases "v = []") auto
    qed
    have lt: "length (take (40 + total_read) p_table) = 40 + total_read" using less.prems by simp
    then have t: "take (40 + (total_read + length w)) ?p = take (40 + total_read) p_table @ w"
      by (simp add: add.assoc [symmetric])
    have "40 + requested = length (take (40 + total_read) p_table @ w) + length v"
      using lt lr less.prems(2) by simp
    then have "drop (40 + requested) ?p = drop (length v) (drop (40 + total_read + length w) p_table)"
      using lt by (simp add: add.commute)
    also have "\<dots> = drop (40 + requested) p_table"
    proof -
      have "length v + (40 + total_read + length w) = 40 + requested" using lr less.prems(2) by linarith
      then show ?thesis by (simp only: drop_drop)
    qed
    finally have dr: "drop (40 + requested) ?p = drop (40 + requested) p_table" .
    have "acpi_read_loop chunk rest requested p_table total_read =
        acpi_read_loop chunk v requested ?p (total_read + length w)"
      using True wr by (subst acpi_read_loop.simps) (simp add: w_def v_def)
    also have "\<dots> = Some (take (40 + total_read) p_table @ w @ v @ drop (40 + requested) p_table)"
      using IH t dr by simp
    finally show ?thesis using wv by (metis append_assoc)
  qed
qed

lemma acpi_length_append: "4 + 4 \<le> length h \<Longrightarrow> acpi_length (h @ r) = acpi_length h"
  by (simp add: acpi_length_def rd32_def rd_bytes_def)

definition acpi_valid :: "bytes \<Rightarrow> bytes \<Rightarrow> bool" where
  "acpi_valid sig f \<longleftrightarrow> 40 \<le> length f \<and> acpi_length f = Some (length f) \<and> sum_list f = 0 \<and>
     take 4 f = sig"

lemma check_acpi_table_eq:
  assumes "length sig = 4" and "40 \<le> length f" and "acpi_length f = Some (length f)"
  shows "check_acpi_table (sig @ [0]) (Some f) =
           Some (if sum_list f \<noteq> 0 then ACPI_ERR_CHECKSUMFAIL
                 else if cstr (take 4 f) = cstr sig then ACPI_SUCCESS else ACPI_ERR_BADTABLESIGNATURE)"
proof -
  have v: "verify_checksum f (length f) = Some (sum_list f = 0)"
    using verify_checksum_eq [of "length f" f] by simp
  have c: "strncmp0_loop (sig @ [0]) (take 4 f) 4 0 = Some (cstr sig = cstr (take 4 f))"
    using strncmp0_loop_eq [of 0 "sig @ [0]" 4 "take 4 f"] assms by (simp add: readable_def)
  show ?thesis using assms v c by (auto simp: check_acpi_table_def ACPI_HEADER_LEN_def)
qed

text \<open>A table in a buffer that may be longer than it.\<close>

lemma check_acpi_table_padded:
  assumes "length sig = 4" and "40 \<le> length f" and "acpi_length f = Some (length f)"
  shows "check_acpi_table (sig @ [0]) (Some (f @ z)) = check_acpi_table (sig @ [0]) (Some f)"
proof -
  have l: "acpi_length (f @ z) = Some (length f)" using acpi_length_append [of f z] assms(2,3) by simp
  have v: "verify_checksum (f @ z) (length f) = verify_checksum f (length f)"
    using verify_checksum_eq [of "length f" "f @ z"] verify_checksum_eq [of "length f" f] by simp
  have t: "take 4 (f @ z) = take 4 f" using assms(2) by simp
  show ?thesis unfolding check_acpi_table_def option.case l assms(3) bind.bind_lunit v t ..
qed

lemma get_acpi_table_padded:
  assumes "40 \<le> length f" and "acpi_length f = Some (length f)" and "40 \<le> chunk"
    and "length t = n" and "length f \<le> n"
  shows "get_acpi_table chunk (Some f) sig (Some t) n =
         map_option (\<lambda>rc. (rc, Some (f @ replicate (n - length f) 0)))
           (check_acpi_table sig (Some (f @ replicate (n - length f) 0)))"
proof -
  let ?t = "take 40 f @ replicate (n - 40) 0"
  have l: "40 + (length f - 40) \<le> length ?t" using assms(1,5) by simp
  have "acpi_read_loop chunk (drop 40 f) (length f - 40) ?t 0 =
      Some (take (40 + 0) ?t @ drop 40 f @ drop (40 + (length f - 40)) ?t)"
    by (rule acpi_read_loop_eq [OF _ l]) (use assms in auto)
  moreover have "drop (40 + (length f - 40)) ?t = replicate (n - length f) 0"
    using assms(1,5) by (simp add: drop_replicate)
  moreover have "take (40 + 0) ?t @ drop 40 f = f" using assms(1) by simp
  ultimately have r: "acpi_read_loop chunk (drop 40 f) (length f - 40) ?t 0 = Some (f @ replicate (n - length f) 0)"
    by (metis append_assoc)
  have w: "wr_bytes t 0 (replicate n 0) = Some (replicate n 0)"
    "wr_bytes (replicate n 0) 0 (take 40 f) = Some ?t"
    using assms by (auto simp: wr_bytes_def min_def drop_replicate)
  show ?thesis
    using assms r w
    by (simp add: get_acpi_table_def ACPI_HEADER_LEN_def Let_def map_option_case bind_eq_Some_conv
        split: option.splits)
qed

lemma get_acpi_table_eq:
  assumes "40 \<le> length f" and "acpi_length f = Some (length f)" and "40 \<le> chunk"
    and "length t = length f"
  shows "get_acpi_table chunk (Some f) sig (Some t) (length f) =
         map_option (\<lambda>rc. (rc, Some f)) (check_acpi_table sig (Some f))"
  using get_acpi_table_padded [OF assms(1,2,3,4)] by simp

section \<open>Properties\<close>

text \<open> C6: when memory can be allocated and a read of the file gets at least 40 bytes unless it ends
  before, for every table file below 2 GiB whose ACPI header carries the length of the file and whose
  extension tables carry their own lengths, are at least as long as the structure of their type, shorter
  than 256 bytes and of a type below 256, the parser accepts exactly when the checksum is right and the
  signature is \<open>NFIT\<close>; it then returns, without leaving the buffer, the header and one entry for
  each extension table, in order and by type, and it returns the error of the failed check otherwise.
  The limits on an extension table come from the parser, which reads its 16-bit type and length through
  one byte: \<open>nfit_long_table_rejected\<close> shows a longer one refused.\<close>

theorem nfit_get_parsed_nfit_correct:
  assumes "\<forall>n. alloc n" and "40 \<le> chunk" and "\<forall>b \<in> set ts. wf_sub b" and "length hdr = 40"
    and "acpi_length hdr = Some (40 + length (concat ts))" and "40 + length (concat ts) < 2 ^ 31"
  shows "nfit_get_parsed_nfit alloc chunk (Some (hdr @ concat ts)) pp =
         Some (if sum_list (hdr @ concat ts) \<noteq> 0 then (NFIT_ERR_CHECKSUMFAIL, pp)
               else if cstr (take 4 hdr) \<noteq> NFIT_SIGNATURE then (NFIT_ERR_BADNFIT, pp)
               else (NFIT_SUCCESS, Valid (nfit_of hdr ts)))"
proof -
  let ?f = "hdr @ concat ts"
  have l: "acpi_length ?f = Some (length ?f)" "40 \<le> length ?f"
    using assms acpi_length_append [of hdr "concat ts"] by auto
  have c: "int_cast (length ?f) = int (length ?f)"
    by (rule int_cast_small) (use assms(4,6) in simp)
  have s1: "get_acpi_table chunk (Some ?f) (NFIT_SIGNATURE @ [0]) None 0 = Some (int (length ?f), None)"
    using l c assms(2) by (simp add: get_acpi_table_def ACPI_HEADER_LEN_def)
  have sig: "length NFIT_SIGNATURE = 4" "cstr NFIT_SIGNATURE = NFIT_SIGNATURE"
    by (simp_all add: NFIT_SIGNATURE_def)
  have t4: "take 4 ?f = take 4 hdr" using assms(4) by simp
  note s2 = get_acpi_table_eq [OF l(2,1) assms(2), of "replicate (length ?f) 0" "NFIT_SIGNATURE @ [0]"]
  note s3 = check_acpi_table_eq [OF sig(1) l(2,1), unfolded sig(2) t4]
  have s4: "nfit_parse_raw_nfit alloc (Some ?f) (length ?f) pp = Some (NFIT_SUCCESS, Valid (nfit_of hdr ts))"
    using nfit_parse_eq [of alloc ts hdr pp] assms by simp
  have pos: "\<not> int (length ?f) \<le> 0" "nat (int (length ?f)) = length ?f" using l(2) by auto
  have s5: "nfit_get_parsed_nfit alloc chunk (Some ?f) pp = do {
      (rc, buffer) \<leftarrow> map_option (\<lambda>rc. (rc, Some ?f)) (check_acpi_table (NFIT_SIGNATURE @ [0]) (Some ?f));
      (if acpi_error_to_nfit_error rc = NFIT_SUCCESS
       then nfit_parse_raw_nfit alloc buffer (length ?f) pp
       else Some (acpi_error_to_nfit_error rc, pp)) }"
    unfolding nfit_get_parsed_nfit_def s1 using s2 pos assms(1)
    by (simp only: bind.bind_lunit case_prod_conv if_False if_True Let_def length_replicate refl
        not_True_eq_False)
  show ?thesis
    unfolding s5 s3 by (simp add: s4 acpi_error_to_nfit_error_def del: length_append)
qed

definition sample_header :: bytes where
  "sample_header = [78, 70, 73, 84, 48, 0, 0, 0, 0, 148] @ replicate 30 0"

definition sample_ext :: bytes where
  "sample_ext = [3, 0, 8, 0, 0, 0, 0, 0]"

lemma wf_sample_ext: "wf_sub sample_ext"
  by code_simp

theorem nfit_get_parsed_nfit_correct_witness:
  "nfit_get_parsed_nfit (\<lambda>_. True) 4096 (Some (sample_header @ sample_ext)) Null =
     Some (NFIT_SUCCESS, Valid (nfit_of sample_header [sample_ext]))"
proof -
  have w: "wf_sub sample_ext" by (rule wf_sample_ext)
  have l: "length sample_header = 40" "length sample_ext = 8"
    by (simp_all add: sample_header_def sample_ext_def)
  have a: "acpi_length sample_header = Some 48"
    by (simp add: acpi_length_def rd32_def rd_bytes_def sample_header_def unsigned_of_nat)
  have c: "sum_list (sample_header @ sample_ext) = 0"
    by (simp add: sample_header_def sample_ext_def sum_list_replicate)
  have g: "cstr (take 4 sample_header) = NFIT_SIGNATURE"
    by (simp add: sample_header_def NFIT_SIGNATURE_def)
  show ?thesis
    using nfit_get_parsed_nfit_correct [of "\<lambda>_. True" 4096 "[sample_ext]" sample_header Null] w l a c g
    by simp
qed

text \<open> The parser reads the 16-bit length of an extension table through one byte. An extension
  table of 256 bytes, the flush hint addresses of a DIMM with 30 hints for one, is rejected as a
  corrupt table wherever it stands behind tables that parse, although the table is well-formed.\<close>

theorem nfit_long_table_rejected:
  assumes "\<forall>n. alloc n" and "\<forall>b \<in> set ts. wf_sub b" and "length hdr = 40"
    and "wf_ext b" and "length b = 256"
  shows "nfit_parse_raw_nfit alloc (Some (hdr @ concat ts @ b)) (40 + length (concat ts) + 256) pp =
         Some (NFIT_ERR_BADNFIT, Dangling)"
proof -
  let ?m = "hdr @ concat ts @ b"
  let ?n = "40 + length (concat ts)"
  have d: "drop 40 ?m = concat ts @ b" using assms(3) by simp
  have db: "drop ?n ?m = b @ []" using assms(3) by simp
  have "256 = unat (b ! 2) + 256 * unat (b ! 3)"
    using sub_bytes(2) [of b] assms(4,5) by (simp add: wf_ext_def)
  moreover have "unat (b ! 2) < 256" using unsigned_less [of "b ! 2"] by simp
  ultimately have "unat (b ! 2) = 0" by presburger
  then have z: "b ! 2 = 0" by (simp add: unsigned_eq_0_iff)
  have r: "rd ?m ?n = Some (b ! 0)" "rd ?m (?n + 2) = Some (b ! 2)"
    using rd_at [OF db, of 0] rd_at [OF db, of 2] assms(5) by fastforce+
  have "nfit_ext_loop alloc ?m (?n + 256) 40 p = Some (NFIT_ERR_BADNFIT, extend_nfit p ts)" for p
  proof -
    have "nfit_ext_loop alloc ?m (?n + 256) 40 p =
        nfit_ext_loop alloc ?m (?n + 256) ?n (extend_nfit p ts)"
      using nfit_ext_loop_steps [where alloc = alloc, OF _ assms(2) d] assms(1) by simp
    then show ?thesis
      unfolding nfit_ext_loop.simps [of alloc ?m "?n + 256" ?n] using r z by simp
  qed
  moreover have "rd_bytes ?m 0 ACPI_HEADER_LEN = Some hdr"
    using assms(3) by (simp add: rd_bytes_def ACPI_HEADER_LEN_def)
  ultimately show ?thesis
    using assms(1)
    by (simp add: nfit_parse_raw_nfit_def ACPI_HEADER_LEN_def Let_def free_parsed_nfit_def)
qed

theorem nfit_long_table_rejected_witness:
  "nfit_parse_raw_nfit (\<lambda>_. True) (Some (sample_header @ sample_ext @ [6, 0, 0, 1] @ replicate 252 0))
     304 Null = Some (NFIT_ERR_BADNFIT, Dangling)"
proof -
  have "wf_sub sample_ext" by (rule wf_sample_ext)
  moreover have "wf_ext ([6, 0, 0, 1] @ replicate 252 0)"
    by (simp add: wf_ext_def sub_length_def sub_type_def min_size_def numeral_2_eq_2)
  moreover have "length sample_header = 40" "length sample_ext = 8"
    by (simp_all add: sample_header_def sample_ext_def)
  ultimately show ?thesis
    using nfit_long_table_rejected [of "\<lambda>_. True" "[sample_ext]" sample_header
        "[6, 0, 0, 1] @ replicate 252 0" Null] by simp
qed

end
