(* ===== verification/Nvm_Types.thy ===== *)
theory Nvm_Types
  imports Prelude
begin

text \<open>
  Types of \<open>lib/nvm_types.h\<close> that the native library shares: the return codes of
  \<open>enum return_code\<close> that the model uses, and the device handle, a bit field over 32 bits.
\<close>

unbundle bit_operations_syntax

abbreviation NVM_SUCCESS :: int where "NVM_SUCCESS \<equiv> 0"
abbreviation NVM_ERR_UNKNOWN :: int where "NVM_ERR_UNKNOWN \<equiv> - 1"
abbreviation NVM_ERR_NOMEMORY :: int where "NVM_ERR_NOMEMORY \<equiv> - 2"
abbreviation NVM_ERR_NOTSUPPORTED :: int where "NVM_ERR_NOTSUPPORTED \<equiv> - 3"
abbreviation NVM_ERR_INVALIDPARAMETER :: int where "NVM_ERR_INVALIDPARAMETER \<equiv> - 4"
abbreviation NVM_ERR_NOTMANAGEABLE :: int where "NVM_ERR_NOTMANAGEABLE \<equiv> - 5"
abbreviation NVM_ERR_INVALIDPERMISSIONS :: int where "NVM_ERR_INVALIDPERMISSIONS \<equiv> - 6"
abbreviation NVM_ERR_BADERRORCODE :: int where "NVM_ERR_BADERRORCODE \<equiv> - 7"
abbreviation NVM_ERR_DATATRANSFERERROR :: int where "NVM_ERR_DATATRANSFERERROR \<equiv> - 8"
abbreviation NVM_ERR_DEVICEERROR :: int where "NVM_ERR_DEVICEERROR \<equiv> - 9"
abbreviation NVM_ERR_DEVICEBUSY :: int where "NVM_ERR_DEVICEBUSY \<equiv> - 10"
abbreviation NVM_ERR_BADPASSPHRASE :: int where "NVM_ERR_BADPASSPHRASE \<equiv> - 11"
abbreviation NVM_ERR_INVALIDPASSPHRASE :: int where "NVM_ERR_INVALIDPASSPHRASE \<equiv> - 12"
abbreviation NVM_ERR_SECURITYFROZEN :: int where "NVM_ERR_SECURITYFROZEN \<equiv> - 13"
abbreviation NVM_ERR_LIMITPASSPHRASE :: int where "NVM_ERR_LIMITPASSPHRASE \<equiv> - 14"
abbreviation NVM_ERR_SECURITYDISABLED :: int where "NVM_ERR_SECURITYDISABLED \<equiv> - 15"
abbreviation NVM_ERR_BADDEVICE :: int where "NVM_ERR_BADDEVICE \<equiv> - 16"
abbreviation NVM_ERR_ARRAYTOOSMALL :: int where "NVM_ERR_ARRAYTOOSMALL \<equiv> - 17"
abbreviation NVM_ERR_BADCALLBACK :: int where "NVM_ERR_BADCALLBACK \<equiv> - 18"
abbreviation NVM_ERR_BADFILE :: int where "NVM_ERR_BADFILE \<equiv> - 19"
abbreviation NVM_ERR_NOSIMULATOR :: int where "NVM_ERR_NOSIMULATOR \<equiv> - 20"
abbreviation NVM_ERR_BADPOOL :: int where "NVM_ERR_BADPOOL \<equiv> - 21"
abbreviation NVM_ERR_BADBLOCKSIZE :: int where "NVM_ERR_BADBLOCKSIZE \<equiv> - 23"
abbreviation NVM_ERR_BADSIZE :: int where "NVM_ERR_BADSIZE \<equiv> - 24"
abbreviation NVM_ERR_BADFIRMWARE :: int where "NVM_ERR_BADFIRMWARE \<equiv> - 25"
abbreviation NVM_ERR_DRIVERFAILED :: int where "NVM_ERR_DRIVERFAILED \<equiv> - 26"
abbreviation NVM_ERR_BADSOCKET :: int where "NVM_ERR_BADSOCKET \<equiv> - 29"
abbreviation NVM_ERR_BADSECURITYSTATE :: int where "NVM_ERR_BADSECURITYSTATE \<equiv> - 30"
abbreviation NVM_ERR_REQUIRESFORCE :: int where "NVM_ERR_REQUIRESFORCE \<equiv> - 31"
abbreviation NVM_ERR_NAMESPACESEXIST :: int where "NVM_ERR_NAMESPACESEXIST \<equiv> - 32"
abbreviation NVM_ERR_NOTFOUND :: int where "NVM_ERR_NOTFOUND \<equiv> - 33"
abbreviation NVM_ERR_BADDEVICECONFIG :: int where "NVM_ERR_BADDEVICECONFIG \<equiv> - 34"
abbreviation NVM_ERR_DRIVERNOTALLOWED :: int where "NVM_ERR_DRIVERNOTALLOWED \<equiv> - 35"
abbreviation NVM_ERR_BADALIGNMENT :: int where "NVM_ERR_BADALIGNMENT \<equiv> - 36"
abbreviation NVM_ERR_BADTHRESHOLD :: int where "NVM_ERR_BADTHRESHOLD \<equiv> - 37"
abbreviation NVM_ERR_EXCEEDSMAXSUBSCRIBERS :: int where "NVM_ERR_EXCEEDSMAXSUBSCRIBERS \<equiv> - 38"
abbreviation NVM_ERR_BADNAMESPACETYPE :: int where "NVM_ERR_BADNAMESPACETYPE \<equiv> - 39"
abbreviation NVM_ERR_BADNAMESPACEENABLESTATE :: int where "NVM_ERR_BADNAMESPACEENABLESTATE \<equiv> - 40"
abbreviation NVM_ERR_BADNAMESPACESETTINGS :: int where "NVM_ERR_BADNAMESPACESETTINGS \<equiv> - 41"
abbreviation NVM_ERR_BADPCAT :: int where "NVM_ERR_BADPCAT \<equiv> - 42"
abbreviation NVM_ERR_TOOMANYNAMESPACES :: int where "NVM_ERR_TOOMANYNAMESPACES \<equiv> - 43"
abbreviation NVM_ERR_CONFIGNOTSUPPORTED :: int where "NVM_ERR_CONFIGNOTSUPPORTED \<equiv> - 44"
abbreviation NVM_ERR_SKUVIOLATION :: int where "NVM_ERR_SKUVIOLATION \<equiv> - 45"
abbreviation NVM_ERR_BADDRIVER :: int where "NVM_ERR_BADDRIVER \<equiv> - 46"
abbreviation NVM_ERR_BADSECURITYGOAL :: int where "NVM_ERR_BADSECURITYGOAL \<equiv> - 48"
abbreviation NVM_ERR_INVALIDPASSPHRASEFILE :: int where "NVM_ERR_INVALIDPASSPHRASEFILE \<equiv> - 49"
abbreviation NVM_ERR_GOALPENDING :: int where "NVM_ERR_GOALPENDING \<equiv> - 50"
abbreviation NVM_ERR_BADPOOLHEALTH :: int where "NVM_ERR_BADPOOLHEALTH \<equiv> - 51"
abbreviation NVM_ERR_INVALIDMEMORYTYPE :: int where "NVM_ERR_INVALIDMEMORYTYPE \<equiv> - 52"
abbreviation NVM_ERR_INCOMPATIBLEFW :: int where "NVM_ERR_INCOMPATIBLEFW \<equiv> - 53"
abbreviation NVM_ERR_NAMESPACEBUSY :: int where "NVM_ERR_NAMESPACEBUSY \<equiv> - 54"
abbreviation NVM_ERR_FWALREADYSTAGED :: int where "NVM_ERR_FWALREADYSTAGED \<equiv> - 55"
abbreviation NVM_ERR_BADNFIT :: int where "NVM_ERR_BADNFIT \<equiv> - 56"
abbreviation NVM_ERR_TIMEOUT :: int where "NVM_ERR_TIMEOUT \<equiv> - 57"
abbreviation NVM_ERR_BADNAMESPACELABELS :: int where "NVM_ERR_BADNAMESPACELABELS \<equiv> - 58"
abbreviation NVM_ERR_NAMESPACEENABLEFAILED :: int where "NVM_ERR_NAMESPACEENABLEFAILED \<equiv> - 59"
abbreviation NVM_ERR_NOFADATAAVAILABLE :: int where "NVM_ERR_NOFADATAAVAILABLE \<equiv> - 60"
abbreviation NVM_ERR_INTERLEAVESET :: int where "NVM_ERR_INTERLEAVESET \<equiv> - 61"
abbreviation NVM_ERR_CONTEXT :: int where "NVM_ERR_CONTEXT \<equiv> - 62"

text \<open>\<open>NVM_NFIT_DEVICE_HANDLE\<close>: \<open>parts.socket_id\<close> is the fourth nibble.\<close>

definition handle_socket_id :: "u32 \<Rightarrow> u32" where
  "handle_socket_id handle = drop_bit 12 handle AND 0xF"

end
