(* ===== verification/Utility.thy ===== *)
theory Utility
  imports Guid Nvm_Types
begin

text \<open>
  The inline helpers of \<open>lib/utility.h\<close> (versions, interleave formats, common multiples, rounding,
  block sizes) and the alignment of namespaces of \<open>lib/namespace_utils.c\<close>.
\<close>

unbundle bit_operations_syntax

section \<open>Identifiers\<close>

definition MANUFACTURER_TO_UINT :: "bytes \<Rightarrow> u32 option" where
  "MANUFACTURER_TO_UINT manufacturer = do {
     b1 \<leftarrow> rd manufacturer 1;
     b0 \<leftarrow> rd manufacturer 0;
     Some (push_bit 8 (ucast b1) OR ucast b0) }"

definition SERIAL_NUMBER_TO_UINT :: "bytes \<Rightarrow> u32 option" where
  "SERIAL_NUMBER_TO_UINT serial_number = do {
     b3 \<leftarrow> rd serial_number 3; b2 \<leftarrow> rd serial_number 2;
     b1 \<leftarrow> rd serial_number 1; b0 \<leftarrow> rd serial_number 0;
     Some (push_bit 24 (ucast b3) OR push_bit 16 (ucast b2) OR push_bit 8 (ucast b1) OR ucast b0) }"

definition UINT_TO_MANUFACTURER :: "u16 \<Rightarrow> bytes \<Rightarrow> bytes option" where
  "UINT_TO_MANUFACTURER v manufacturer = do {
     m \<leftarrow> wr manufacturer 1 (ucast (drop_bit 8 v AND 0xFF));
     wr m 0 (ucast (v AND 0xFF)) }"

definition UINT_TO_SERIAL_NUMBER :: "u32 \<Rightarrow> bytes \<Rightarrow> bytes option" where
  "UINT_TO_SERIAL_NUMBER v serial_number = do {
     s3 \<leftarrow> wr serial_number 3 (ucast (drop_bit 24 v AND 0xFF));
     s2 \<leftarrow> wr s3 2 (ucast (drop_bit 16 v AND 0xFF));
     s1 \<leftarrow> wr s2 1 (ucast (drop_bit 8 v AND 0xFF));
     wr s1 0 (ucast (v AND 0xFF)) }"

definition SERIAL_NUMBER_TO_STRING :: "bytes option \<Rightarrow> bytes option \<Rightarrow> bytes option option" where
  "SERIAL_NUMBER_TO_STRING serial_number serial_number_str =
     (case serial_number_str of
        None \<Rightarrow> Some None
      | Some s \<Rightarrow> do {
          s0 \<leftarrow> wr s 0 0;
          case serial_number of
            None \<Rightarrow> Some (Some s0)
          | Some n \<Rightarrow> do {
              a0 \<leftarrow> wr s0 0 48;
              a1 \<leftarrow> wr a0 1 120;
              b3 \<leftarrow> rd n 3; c3 \<leftarrow> int_to_hex_digits b3 a1 2;
              b2 \<leftarrow> rd n 2; c2 \<leftarrow> int_to_hex_digits b2 c3 4;
              b1 \<leftarrow> rd n 1; c1 \<leftarrow> int_to_hex_digits b1 c2 6;
              b0 \<leftarrow> rd n 0; c0 \<leftarrow> int_to_hex_digits b0 c1 8;
              s' \<leftarrow> wr c0 10 0;
              Some (Some s') } })"

definition version_cmp :: "u32 \<Rightarrow> u32 \<Rightarrow> u32 \<Rightarrow> u32 \<Rightarrow> int" where
  "version_cmp version1_major version1_minor version2_major version2_minor =
     (if version1_major > version2_major \<or>
        (version1_major = version2_major \<and> version1_minor > version2_minor) then 1
      else if version1_major < version2_major \<or>
        (version1_major = version2_major \<and> version1_minor < version2_minor) then - 1
      else 0)"

section \<open>Interleave formats\<close>

datatype interleave_ways =
    INTERLEAVE_WAYS_0 | INTERLEAVE_WAYS_1 | INTERLEAVE_WAYS_2 | INTERLEAVE_WAYS_3 | INTERLEAVE_WAYS_4
  | INTERLEAVE_WAYS_6 | INTERLEAVE_WAYS_8 | INTERLEAVE_WAYS_12 | INTERLEAVE_WAYS_16 | INTERLEAVE_WAYS_24

datatype interleave_size =
    INTERLEAVE_SIZE_NONE | INTERLEAVE_SIZE_64B | INTERLEAVE_SIZE_128B | INTERLEAVE_SIZE_256B
  | INTERLEAVE_SIZE_4KB | INTERLEAVE_SIZE_1GB

record interleave_format =
  fmt_recommended :: bool
  fmt_channel :: interleave_size
  fmt_imc :: interleave_size
  fmt_ways :: interleave_ways

definition PCAT_FORMAT_WAYS_SHIFT :: nat where "PCAT_FORMAT_WAYS_SHIFT = 16"
definition PCAT_FORMAT_IMC_SHIFT :: nat where "PCAT_FORMAT_IMC_SHIFT = 8"
definition PCAT_FORMAT_RECOMMENDED_SHIFT :: nat where "PCAT_FORMAT_RECOMMENDED_SHIFT = 31"

definition interleave_way_to_enum :: "u32 \<Rightarrow> interleave_ways" where
  "interleave_way_to_enum way =
     (if way = 1 then INTERLEAVE_WAYS_1
      else if way = 2 then INTERLEAVE_WAYS_2
      else if way = 4 then INTERLEAVE_WAYS_3
      else if way = 8 then INTERLEAVE_WAYS_4
      else if way = 16 then INTERLEAVE_WAYS_6
      else if way = 32 then INTERLEAVE_WAYS_8
      else if way = 64 then INTERLEAVE_WAYS_12
      else if way = 128 then INTERLEAVE_WAYS_16
      else if way = 256 then INTERLEAVE_WAYS_24
      else INTERLEAVE_WAYS_0)"

text \<open>The two switches over a size have no default: an unknown value leaves the field as it was.\<close>

definition size_of_bits :: "u32 \<Rightarrow> interleave_size \<Rightarrow> interleave_size" where
  "size_of_bits cr_size old =
     (if cr_size = 1 then INTERLEAVE_SIZE_64B
      else if cr_size = 2 then INTERLEAVE_SIZE_128B
      else if cr_size = 4 then INTERLEAVE_SIZE_256B
      else if cr_size = 64 then INTERLEAVE_SIZE_4KB
      else if cr_size = 128 then INTERLEAVE_SIZE_1GB
      else old)"

definition interleave_format_to_struct :: "u32 \<Rightarrow> interleave_format option \<Rightarrow> interleave_format option" where
  "interleave_format_to_struct format p_format = map_option (\<lambda>f.
     f\<lparr>fmt_recommended := (drop_bit PCAT_FORMAT_RECOMMENDED_SHIFT format AND 1 \<noteq> 0),
       fmt_ways := interleave_way_to_enum (drop_bit PCAT_FORMAT_WAYS_SHIFT format AND 0x1ff),
       fmt_channel := size_of_bits (format AND 0xff) (fmt_channel f),
       fmt_imc := size_of_bits (drop_bit PCAT_FORMAT_IMC_SHIFT format AND 0xff) (fmt_imc f)\<rparr>) p_format"

fun ways_bits :: "interleave_ways \<Rightarrow> u32" where
  "ways_bits INTERLEAVE_WAYS_1 = 1"
| "ways_bits INTERLEAVE_WAYS_2 = 2"
| "ways_bits INTERLEAVE_WAYS_3 = 4"
| "ways_bits INTERLEAVE_WAYS_4 = 8"
| "ways_bits INTERLEAVE_WAYS_6 = 16"
| "ways_bits INTERLEAVE_WAYS_8 = 32"
| "ways_bits INTERLEAVE_WAYS_12 = 64"
| "ways_bits INTERLEAVE_WAYS_16 = 128"
| "ways_bits INTERLEAVE_WAYS_24 = 256"
| "ways_bits INTERLEAVE_WAYS_0 = 0"

fun size_bits :: "interleave_size \<Rightarrow> u32" where
  "size_bits INTERLEAVE_SIZE_64B = 1"
| "size_bits INTERLEAVE_SIZE_128B = 2"
| "size_bits INTERLEAVE_SIZE_256B = 4"
| "size_bits INTERLEAVE_SIZE_4KB = 64"
| "size_bits INTERLEAVE_SIZE_1GB = 128"
| "size_bits INTERLEAVE_SIZE_NONE = 0"

definition interleave_struct_to_format :: "interleave_format option \<Rightarrow> u32 option \<Rightarrow> u32 option" where
  "interleave_struct_to_format p_struct p_format =
     (case (p_format, p_struct) of
        (Some _, Some s) \<Rightarrow> Some (
          push_bit PCAT_FORMAT_WAYS_SHIFT (ways_bits (fmt_ways s) AND 0x1ff)
          OR (if fmt_recommended s then push_bit PCAT_FORMAT_RECOMMENDED_SHIFT 1 else 0)
          OR (size_bits (fmt_channel s) AND 0xff)
          OR push_bit PCAT_FORMAT_IMC_SHIFT (size_bits (fmt_imc s) AND 0xff))
      | _ \<Rightarrow> p_format)"

section \<open>Arithmetic\<close>

text \<open>The loop of \<open>GET_GCD\<close>: two reductions per round.\<close>

function gcd_loop :: "u32 \<Rightarrow> u32 \<Rightarrow> u32" where
  "gcd_loop a b =
     (if a = 0 then b
      else if b mod a = 0 then a
      else gcd_loop (a mod (b mod a)) (b mod a))"
  by pat_completeness auto
termination
proof (relation "measure (\<lambda>(a, b). unat a)", simp)
  fix a b :: u32
  assume a: "a \<noteq> 0" "b mod a \<noteq> 0"
  have "unat (x mod y) < unat y" if "y \<noteq> 0" for x y :: u32
  proof -
    have "0 < unat y" using that by (simp add: unat_gt_0)
    then show ?thesis by (simp add: unat_mod_distrib)
  qed
  then have "unat (a mod (b mod a)) < unat (b mod a)" "unat (b mod a) < unat a" using a by blast+
  then show "((a mod (b mod a), b mod a), a, b) \<in> measure (\<lambda>(a, b). unat a)" by simp
qed

declare gcd_loop.simps [simp del]

definition get_greatest_common_divisor :: "u32 \<Rightarrow> u32 \<Rightarrow> u32" where
  "get_greatest_common_divisor a b = gcd_loop a b"

text \<open>
  The divisor is held in an \<open>int\<close> and converted back for the division; dividing by 0 is
  undefined.
\<close>

definition get_lowest_common_multiple :: "u32 \<Rightarrow> u32 \<Rightarrow> u32 option" where
  "get_lowest_common_multiple a b =
     (let g = get_greatest_common_divisor a b in
      if g = 0 then None else Some (a div g * b))"

definition round_up :: "u64 \<Rightarrow> u64 \<Rightarrow> u64" where
  "round_up num_to_round multiple_of =
     (if multiple_of \<noteq> 0 \<and> num_to_round mod multiple_of \<noteq> 0
      then num_to_round + (multiple_of - num_to_round mod multiple_of) else num_to_round)"

definition round_down :: "u64 \<Rightarrow> u64 \<Rightarrow> u64" where
  "round_down num_to_round multiple_of =
     (if multiple_of \<noteq> 0 \<and> num_to_round mod multiple_of \<noteq> 0
      then num_to_round - num_to_round mod multiple_of else num_to_round)"

definition CACHE_LINE_SIZE :: u64 where "CACHE_LINE_SIZE = 64"
definition PAGE_SIZE_x86 :: u32 where "PAGE_SIZE_x86 = 4096"

definition get_real_block_size :: "u32 \<Rightarrow> u32" where
  "get_real_block_size block_size =
     (if block_size \<noteq> 1 then ucast (round_up (ucast block_size) CACHE_LINE_SIZE) else 1)"

definition adjust_namespace_size :: "u16 \<Rightarrow> u64 \<Rightarrow> u64" where
  "adjust_namespace_size block_size block_count =
     ucast (ucast (get_real_block_size (ucast block_size)) :: u16) * block_count"

definition calculateBlockCount :: "u64 \<Rightarrow> u16 \<Rightarrow> u64 option" where
  "calculateBlockCount namespace_size block_size =
     (let bs = ucast (get_real_block_size (ucast block_size)) :: u16 in
      if bs = 0 then None else Some (namespace_size div ucast bs))"

definition BYTES_PER_GIB :: u64 where "BYTES_PER_GIB = 0x40000000"

definition RESERVED_CAPACITY_BYTES :: "u64 \<Rightarrow> u64" where
  "RESERVED_CAPACITY_BYTES cap = cap mod BYTES_PER_GIB"

definition USABLE_CAPACITY_BYTES :: "u64 \<Rightarrow> u64" where
  "USABLE_CAPACITY_BYTES cap = cap - RESERVED_CAPACITY_BYTES cap"

definition bytesToConfigGoalSize :: "u64 \<Rightarrow> u64" where
  "bytesToConfigGoalSize b = b div BYTES_PER_GIB"

definition configGoalSizeToBytes :: "u64 \<Rightarrow> u64" where
  "configGoalSizeToBytes s = s * BYTES_PER_GIB"

section \<open>Alignment of namespaces\<close>

definition get_alignment_size :: "u32 \<Rightarrow> u32 \<Rightarrow> u32 option" where
  "get_alignment_size block_size ways = get_lowest_common_multiple block_size (PAGE_SIZE_x86 * ways)"

definition adjust_namespace_block_count :: "u64 \<Rightarrow> u16 \<Rightarrow> u8 \<Rightarrow> u64 option" where
  "adjust_namespace_block_count block_count block_size ways = do {
     let real_block_size = get_real_block_size (ucast block_size);
     alignment_size \<leftarrow> get_alignment_size real_block_size (ucast ways);
     let capacity = round_up (block_count * ucast real_block_size) (ucast alignment_size);
     if real_block_size = 0 then None else Some (capacity div ucast real_block_size) }"

definition adjust_namespace_block_count_if_allowed :: "u64 \<Rightarrow> u16 \<Rightarrow> u8 \<Rightarrow> bool \<Rightarrow> u64 option" where
  "adjust_namespace_block_count_if_allowed block_count block_size ways allow_adjustment =
     (if allow_adjustment then adjust_namespace_block_count block_count block_size ways
      else Some block_count)"

definition check_namespace_alignment :: "u64 \<Rightarrow> u32 \<Rightarrow> u8 \<Rightarrow> bool option" where
  "check_namespace_alignment capacity block_size ways = do {
     alignment_size \<leftarrow> get_alignment_size block_size (ucast ways);
     if alignment_size = 0 then None else Some (capacity mod ucast alignment_size = 0) }"

text \<open>The product of the block size and the count is taken in 64 bits.\<close>

definition capacity_to_real_block_count :: "u64 \<Rightarrow> u32 \<Rightarrow> u64 option" where
  "capacity_to_real_block_count capacity block_size = do {
     let real_block_size = get_real_block_size block_size;
     block_count \<leftarrow> (if real_block_size = 0 then None else Some (capacity div ucast real_block_size));
     aligned \<leftarrow> check_namespace_alignment (ucast real_block_size * block_count) real_block_size 1;
     if \<not> aligned then do {
       alignment_size \<leftarrow> get_alignment_size real_block_size 1;
       let count1 = (capacity - ucast alignment_size) div ucast real_block_size;
       adjust_namespace_block_count_if_allowed count1 (ucast real_block_size) 1 True }
     else Some block_count }"

definition is_capacity_larger :: "u64 \<Rightarrow> u64 \<Rightarrow> u64 \<Rightarrow> u64 \<Rightarrow> bool" where
  "is_capacity_larger new_total old_total new_preferred old_preferred \<longleftrightarrow>
     new_total > old_total \<or> (new_total = old_total \<and> new_preferred > old_preferred)"

end
