(* ===== verification/Revision.thy ===== *)
theory Revision
  imports S_Str_Facts
begin

text \<open>
  Revision strings, \<open>common/string/revision.c\<close>. The four or two parts are \<open>unsigned short\<close>s,
  numbers below \<open>2 ^ 16\<close>. A call of \<open>snprintf\<close> with a fixed format is the text of the format
  (\<open>fmt_pad\<close> for \<open>%02d\<close> and \<open>%04d\<close>, \<open>fmt_hd\<close> for \<open>%hd\<close>), cut to the buffer and terminated.
\<close>

section \<open>Definitions\<close>

definition digit_char :: "nat \<Rightarrow> u8" where
  "digit_char d = word_of_nat (48 + d)"

fun fmt_dec :: "nat \<Rightarrow> bytes" where
  "fmt_dec n = (if n < 10 then [digit_char n] else fmt_dec (n div 10) @ [digit_char (n mod 10)])"

declare fmt_dec.simps [simp del]

definition fmt_pad :: "nat \<Rightarrow> nat \<Rightarrow> bytes" where
  "fmt_pad width n = replicate (width - length (fmt_dec n)) 48 @ fmt_dec n"

text \<open>\<open>%hd\<close> prints its argument as a signed \<open>short\<close>.\<close>

definition fmt_hd :: "nat \<Rightarrow> bytes" where
  "fmt_hd n = (if n < 32768 then fmt_dec n else 45 # fmt_dec (65536 - n))"

definition snprintf_text :: "bytes \<Rightarrow> nat \<Rightarrow> bytes \<Rightarrow> bytes option" where
  "snprintf_text buf len msg = wr_bytes buf 0 (take (len - 1) msg @ [0])"

definition main_revision_text :: "nat \<Rightarrow> nat \<Rightarrow> nat \<Rightarrow> nat \<Rightarrow> bytes" where
  "main_revision_text major minor hotfix build =
     fmt_pad 2 major @ 46 # fmt_pad 2 minor @ 46 # fmt_pad 2 hotfix @ 46 # fmt_pad 4 build"

definition build_revision ::
  "bytes option \<Rightarrow> nat \<Rightarrow> nat \<Rightarrow> nat \<Rightarrow> nat \<Rightarrow> nat \<Rightarrow> bytes option option" where
  "build_revision revision revision_len major minor hotfix build =
     (case revision of
        Some r \<Rightarrow>
          if revision_len \<noteq> 0
          then map_option Some
                 (snprintf_text r revision_len (main_revision_text major minor hotfix build))
          else Some (Some r)
      | None \<Rightarrow> Some None)"

definition build_fw_revision :: "bytes option \<Rightarrow> nat \<Rightarrow> nat \<Rightarrow> nat \<Rightarrow> bytes option option" where
  "build_fw_revision fw_revision fw_revision_len major minor =
     (case fw_revision of
        Some r \<Rightarrow>
          if fw_revision_len \<noteq> 0
          then map_option Some (snprintf_text r fw_revision_len (fmt_hd major @ 46 # fmt_hd minor))
          else Some (Some r)
      | None \<Rightarrow> Some None)"

text \<open>
  The loop of \<open>parse_revision\<close>: the part number, the characters left, the position \<open>p_end\<close> in the
  string (\<open>None\<close> for \<open>NULL\<close>) and the parts filled in so far. It returns the loop counter and the
  parts.
\<close>

function parse_revision_loop ::
  "bytes \<Rightarrow> nat \<Rightarrow> nat \<Rightarrow> nat \<Rightarrow> nat option \<Rightarrow> nat list \<Rightarrow> (nat \<times> nat list) option" where
  "parse_revision_loop revision parts_count i left p_end parts =
     (if i < parts_count \<and> left > 0 then
        (case p_end of
           None \<Rightarrow> Some (i, parts)
         | Some off \<Rightarrow> do {
             c \<leftarrow> rd revision off;
             if c \<noteq> 0 then do {
               old \<leftarrow> rd parts i;
               (n, e, v) \<leftarrow> s_strtous (Some (drop off revision)) left None old;
               parse_revision_loop revision parts_count (Suc i) (left - n)
                 (map_option ((+) off) e) (parts[i := v]) }
             else Some (i, parts) })
      else Some (i, parts))"
  by pat_completeness auto
termination
  by (relation "measure (\<lambda>(r, n, i, l, e, p). n - i)") auto

declare parse_revision_loop.simps [simp del]

definition parse_revision :: "nat list \<Rightarrow> nat \<Rightarrow> bytes \<Rightarrow> nat \<Rightarrow> (bool \<times> nat list) option" where
  "parse_revision parts parts_count revision revision_len = do {
     (i, parts') \<leftarrow> parse_revision_loop revision parts_count 0 revision_len (Some 0) parts;
     Some (i = parts_count, parts') }"

function truncate_us :: "nat \<Rightarrow> nat \<Rightarrow> nat" where
  "truncate_us v cnt = (if v \<ge> 10 ^ cnt then truncate_us (v div 10) cnt else v)"
  by pat_completeness auto
termination
proof (relation "measure fst")
  fix v cnt :: nat
  assume "10 ^ cnt \<le> v"
  then have "0 < v" by (rule less_le_trans [rotated]) simp
  then show "((v div 10, cnt), v, cnt) \<in> measure fst" by simp
qed simp

declare truncate_us.simps [simp del]

text \<open>The outputs are \<open>(success, major, minor, hotfix, build)\<close>; \<open>old\<close> are the values before the call.\<close>

definition parse_main_revision ::
  "nat \<times> nat \<times> nat \<times> nat \<Rightarrow> bytes option \<Rightarrow> nat \<Rightarrow> (bool \<times> nat \<times> nat \<times> nat \<times> nat) option" where
  "parse_main_revision old revision revision_len =
     (case revision of
        Some r \<Rightarrow>
          if revision_len \<noteq> 0 then do {
            (success, parts) \<leftarrow> parse_revision [0, 0, 0, 0] 4 r revision_len;
            Some (success, truncate_us (parts ! 0) 2, truncate_us (parts ! 1) 2,
                  truncate_us (parts ! 2) 2, truncate_us (parts ! 3) 4) }
          else Some (False, old)
      | None \<Rightarrow> Some (False, old))"

definition parse_fw_revision ::
  "nat \<times> nat \<Rightarrow> bytes option \<Rightarrow> nat \<Rightarrow> (bool \<times> nat \<times> nat) option" where
  "parse_fw_revision old fw_revision revision_len =
     (case fw_revision of
        Some r \<Rightarrow>
          if revision_len \<noteq> 0 then do {
            (success, parts) \<leftarrow> parse_revision [0, 0] 2 r revision_len;
            Some (success, parts ! 0, parts ! 1) }
          else Some (False, old)
      | None \<Rightarrow> Some (False, old))"

definition format_revision ::
  "bytes option \<Rightarrow> nat \<Rightarrow> bytes option \<Rightarrow> nat \<Rightarrow> (bool \<times> bytes option) option" where
  "format_revision rev_str rev_len fmt_rev fmt_rev_len =
     (case (rev_str, fmt_rev) of
        (Some r, Some f) \<Rightarrow>
          if rev_len \<noteq> 0 \<and> fmt_rev_len \<noteq> 0 then do {
            (valid_rev, major, minor, hotfix, build) \<leftarrow>
              parse_main_revision (0, 0, 0, 0) rev_str rev_len;
            f' \<leftarrow> build_revision fmt_rev fmt_rev_len major minor hotfix build;
            Some (valid_rev, f') }
          else Some (False, fmt_rev)
      | _ \<Rightarrow> Some (False, fmt_rev))"

definition format_fw_revision ::
  "bytes option \<Rightarrow> nat \<Rightarrow> bytes option \<Rightarrow> nat \<Rightarrow> (bool \<times> bytes option) option" where
  "format_fw_revision p_firmware_rev fw_rev_len fmt_rev fmt_rev_len =
     (case (p_firmware_rev, fmt_rev) of
        (Some r, Some f) \<Rightarrow>
          if fw_rev_len \<noteq> 0 \<and> fmt_rev_len \<noteq> 0 then do {
            (valid_rev, major, minor) \<leftarrow> parse_fw_revision (0, 0) p_firmware_rev fw_rev_len;
            f' \<leftarrow> build_fw_revision fmt_rev fmt_rev_len major minor;
            Some (valid_rev, f') }
          else Some (False, fmt_rev)
      | _ \<Rightarrow> Some (False, fmt_rev))"

definition convert_fw_version_str_to_array ::
  "bytes option \<Rightarrow> nat \<Rightarrow> bytes \<Rightarrow> bytes option" where
  "convert_fw_version_str_to_array str len arr = do {
     (s, major, minor, hotfix, build) \<leftarrow> parse_main_revision (0, 0, 0, 0) str len;
     a4 \<leftarrow> wr arr 4 (word_of_nat ((major div 10) * 16 + major mod 10));
     a3 \<leftarrow> wr a4 3 (word_of_nat ((minor div 10) * 16 + minor mod 10));
     a2 \<leftarrow> wr a3 2 (word_of_nat ((hotfix div 10) * 16 + hotfix mod 10));
     a1 \<leftarrow> wr a2 1 (word_of_nat ((build div 1000) * 16 + (build div 100) mod 10));
     wr a1 0 (word_of_nat (((build div 10) mod 10) * 16 + build mod 10)) }"

section \<open>Decimal text\<close>

lemma unat_digit_char: "d < 10 \<Longrightarrow> unat (digit_char d) = 48 + d"
  unfolding digit_char_def by (simp only: unat_of_nat) simp

lemma todigit_digit_char [simp]: "d < 10 \<Longrightarrow> todigit (digit_char d) = d"
  by (simp add: todigit_def unat_digit_char)

lemma isdigit_digit_char [simp]: "d < 10 \<Longrightarrow> isdigit (digit_char d)"
  by (simp add: isdigit_def word_le_nat_alt unat_digit_char)

lemma fmt_dec_nonempty [simp]: "fmt_dec n \<noteq> []"
  by (subst fmt_dec.simps) simp

lemma fmt_dec_digits: "c \<in> set (fmt_dec n) \<Longrightarrow> isdigit c"
proof (induction n rule: fmt_dec.induct)
  case (1 n)
  then show ?case by (cases "n < 10") (auto simp: fmt_dec.simps [of n])
qed

lemma dec_val_append: "dec_val (xs @ ys) = foldl dec_step (dec_val xs) ys"
  by (simp add: dec_val_def)

lemma dec_val_fmt_dec [simp]: "dec_val (fmt_dec n) = n"
proof (induction n rule: fmt_dec.induct)
  case (1 n)
  show ?case
  proof (cases "n < 10")
    case True
    then show ?thesis by (subst fmt_dec.simps) (simp add: dec_val_def dec_step_def)
  next
    case False
    with 1 show ?thesis
      by (subst fmt_dec.simps) (simp add: dec_val_append dec_step_def)
  qed
qed

lemma dec_val_zeros: "dec_val (replicate k 48 @ w) = dec_val w"
proof -
  have "foldl dec_step 0 (replicate k 48) = 0"
    by (induction k) (simp_all add: dec_step_def todigit_def)
  then show ?thesis by (simp add: dec_val_def)
qed

lemma dec_val_fmt_pad [simp]: "dec_val (fmt_pad w n) = n"
  by (simp add: fmt_pad_def dec_val_zeros)

lemma isdigit_48 [simp]: "isdigit 48"
  by (simp add: isdigit_def)

lemma not_isdigit_46 [simp]: "\<not> isdigit 46"
  by (simp add: isdigit_def)

lemma fmt_pad_digits: "c \<in> set (fmt_pad w n) \<Longrightarrow> isdigit c"
  by (auto simp: fmt_pad_def dest: fmt_dec_digits)

lemma fmt_pad_nonempty [simp]: "fmt_pad w n \<noteq> []"
  by (simp add: fmt_pad_def)

lemma fmt_dec_length: "n < 10 ^ k \<Longrightarrow> 0 < k \<Longrightarrow> length (fmt_dec n) \<le> k"
proof (induction n arbitrary: k rule: fmt_dec.induct)
  case (1 n)
  show ?case
  proof (cases "n < 10")
    case True
    with 1 show ?thesis by (subst fmt_dec.simps) simp
  next
    case False
    then obtain j where k: "k = Suc j" "0 < j"
      using 1(2,3) by (cases k; cases "k - 1") auto
    have "n div 10 < 10 ^ j" using 1(2) k by (simp add: less_mult_imp_div_less)
    then have "length (fmt_dec (n div 10)) \<le> j" using 1(1) False k by blast
    then show ?thesis using False k by (subst fmt_dec.simps) simp
  qed
qed

lemma fmt_pad_length: "n < 10 ^ w \<Longrightarrow> 0 < w \<Longrightarrow> length (fmt_pad w n) = w"
  using fmt_dec_length [of n w] by (simp add: fmt_pad_def)

section \<open>Truncation\<close>

lemma truncate_us_less: "truncate_us v cnt < 10 ^ cnt"
proof (induction v cnt rule: truncate_us.induct)
  case (1 v cnt)
  then show ?case
    by (cases "10 ^ cnt \<le> v") (auto simp: truncate_us.simps [of v cnt])
qed

lemma truncate_us_id: "v < 10 ^ cnt \<Longrightarrow> truncate_us v cnt = v"
  by (simp add: truncate_us.simps [of v cnt])

text \<open>Truncation keeps the leading digits: it divides by the least sufficient power of ten.\<close>

lemma truncate_us_div: "\<exists>k. truncate_us v cnt = v div 10 ^ k \<and> (\<forall>j < k. 10 ^ cnt \<le> v div 10 ^ j)"
proof (induction v cnt rule: truncate_us.induct)
  case (1 v cnt)
  show ?case
  proof (cases "10 ^ cnt \<le> v")
    case True
    from 1 [OF this] obtain k where k: "truncate_us (v div 10) cnt = v div 10 div 10 ^ k"
      "\<forall>j < k. 10 ^ cnt \<le> v div 10 div 10 ^ j" by blast
    have "10 ^ cnt \<le> v div 10 ^ j" if "j < Suc k" for j
      using that k(2) True by (cases j) (auto simp: div_mult2_eq)
    then show ?thesis using True k(1)
      by (intro exI [of _ "Suc k"]) (simp add: truncate_us.simps [of v cnt] div_mult2_eq)
  next
    case False
    then show ?thesis by (intro exI [of _ 0]) (simp add: truncate_us.simps [of v cnt])
  qed
qed

section \<open>Parsing\<close>

text \<open>
  One round of the loop on a string whose next part is written in decimal, after a separator
  that holds no digit and before a byte that is not a digit.
\<close>

lemma parse_revision_loop_step:
  assumes rev: "drop off s = pre @ ds @ rest" and off: "off \<le> length s"
    and pre: "\<forall>c \<in> set pre. \<not> isdigit c \<and> c \<noteq> 0" and ds: "\<forall>c \<in> set ds. isdigit c" "ds \<noteq> []"
    and val: "dec_val ds \<le> 65535" and rest: "rest \<noteq> []" "\<not> isdigit (hd rest)"
    and left: "left = length s - off" and i: "i < n" "i < length parts"
    and next_i: "i' = Suc i" and off': "off' = off + length pre + length ds"
    and left': "left' = length s - off'" and parts': "parts' = parts[i := dec_val ds]"
  shows "parse_revision_loop s n i left (Some off) parts =
           parse_revision_loop s n i' left' (Some off') parts'"
proof -
  let ?k = "length pre + length ds"
  have len: "length s - off = ?k + length rest"
    using arg_cong [OF rev, of length] by simp
  have off_s: "off < length s" using len ds by (cases ds) auto
  have "s ! off = hd (drop off s)" using off_s by (simp add: hd_drop_conv_nth)
  also have "\<dots> \<noteq> 0" using pre ds by (cases pre; cases ds) (auto simp: rev)
  finally have c: "rd s off = Some (s ! off)" "s ! off \<noteq> 0" using off_s by (simp_all add: rd_in)
  have k: "?k < left" using len left rest(1) by (cases rest) auto
  have "s_strtous (Some (drop off s)) left None (parts ! i) = Some (?k, Some ?k, dec_val ds)"
    unfolding s_strtous_def
    using strto_gen_decimal [OF rev pre ds val refl, of left None "parts ! i"] k rest left
    by (simp add: readable_def)
  then show ?thesis
    using c i k left off_s
    by (simp add: parse_revision_loop.simps [of s n i] rd_in next_i off' left' parts' add.assoc)
qed

text \<open>A revision printed by \<open>build_revision\<close> is parsed back into its parts.\<close>

lemma parse_main_revision_text:
  assumes parts: "major < 100" "minor < 100" "hotfix < 100" "build < 10000"
    and s: "s = main_revision_text major minor hotfix build @ 0 # t"
  shows "parse_main_revision old (Some s) (length s) = Some (True, major, minor, hotfix, build)"
proof -
  have len: "length (fmt_pad 2 major) = 2" "length (fmt_pad 2 minor) = 2"
    "length (fmt_pad 2 hotfix) = 2" "length (fmt_pad 4 build) = 4"
    using parts by (simp_all add: fmt_pad_length)
  have u: "[major, minor, 0, 0][2 := hotfix] = [major, minor, hotfix, 0]"
    "[major, minor, hotfix, 0][3 := build] = [major, minor, hotfix, build]"
    by (simp_all add: numeral_2_eq_2 numeral_3_eq_3)
  note step = parse_revision_loop_step [where s = s and n = 4]
  have s': "s = fmt_pad 2 major @ 46 # fmt_pad 2 minor @ 46 # fmt_pad 2 hotfix @ 46 #
      fmt_pad 4 build @ 0 # t"
    by (simp add: s main_revision_text_def)
  have d: "drop 2 s = [46] @ fmt_pad 2 minor @ 46 # fmt_pad 2 hotfix @ 46 # fmt_pad 4 build @ 0 # t"
    "drop 5 s = [46] @ fmt_pad 2 hotfix @ 46 # fmt_pad 4 build @ 0 # t"
    "drop 8 s = [46] @ fmt_pad 4 build @ 0 # t"
    by (simp_all add: s' len drop_Cons')
  have l: "length s = 14 + length t" using len by (simp add: s')
  have "parse_revision_loop s 4 0 (length s) (Some 0) [0, 0, 0, 0] =
      parse_revision_loop s 4 1 (length s - 2) (Some 2) [major, 0, 0, 0]"
    by (rule step [where pre = "[]" and ds = "fmt_pad 2 major"])
       (use parts len l fmt_pad_digits in \<open>auto simp: s'\<close>)
  also have "\<dots> = parse_revision_loop s 4 2 (length s - 5) (Some 5) [major, minor, 0, 0]"
    by (rule step [OF d(1)]) (use parts len l fmt_pad_digits in auto)
  also have "\<dots> = parse_revision_loop s 4 3 (length s - 8) (Some 8) [major, minor, hotfix, 0]"
    by (rule step [OF d(2)]) (use parts len l fmt_pad_digits u in auto)
  also have "\<dots> = parse_revision_loop s 4 4 (length s - 13) (Some 13) [major, minor, hotfix, build]"
    by (rule step [OF d(3)]) (use parts len l fmt_pad_digits u in auto)
  also have "\<dots> = Some (4, [major, minor, hotfix, build])"
    by (simp add: parse_revision_loop.simps)
  finally show ?thesis
    using parts l by (simp add: parse_main_revision_def parse_revision_def truncate_us_id)
qed

section \<open>Properties\<close>

lemma length_main_revision_text:
  assumes "major < 100" "minor < 100" "hotfix < 100" "build < 10000"
  shows "length (main_revision_text major minor hotfix build) = 13"
  using assms by (simp add: main_revision_text_def fmt_pad_length)

text \<open> A revision whose parts fit their columns is printed by \<open>build_revision\<close> into any buffer of
  at least 14 bytes without truncation, and \<open>parse_main_revision\<close> reads the same four parts back
  from that buffer.\<close>

theorem revision_roundtrip:
  assumes "major < 100" "minor < 100" "hotfix < 100" "build < 10000" and "14 \<le> length buf"
  shows "\<exists>buf'. build_revision (Some buf) (length buf) major minor hotfix build = Some (Some buf') \<and>
           length buf' = length buf \<and>
           parse_main_revision old (Some buf') (length buf') = Some (True, major, minor, hotfix, build)"
proof -
  let ?t = "main_revision_text major minor hotfix build"
  have l: "length ?t = 13" by (rule length_main_revision_text) (use assms in auto)
  have "build_revision (Some buf) (length buf) major minor hotfix build =
        Some (Some (?t @ 0 # drop 14 buf))"
    using assms(5) l by (auto simp: build_revision_def snprintf_text_def wr_bytes_def)
  moreover have "parse_main_revision old (Some (?t @ 0 # drop 14 buf)) (length (?t @ 0 # drop 14 buf)) =
      Some (True, major, minor, hotfix, build)"
    by (rule parse_main_revision_text) (use assms in auto)
  moreover have "length (?t @ 0 # drop 14 buf) = length buf" using l assms(5) by simp
  ultimately show ?thesis by metis
qed

theorem revision_roundtrip_witness:
  "\<exists>buf'. build_revision (Some (replicate 14 0)) 14 1 2 3 4567 = Some (Some buf') \<and>
     parse_main_revision (0, 0, 0, 0) (Some buf') (length buf') = Some (True, 1, 2, 3, 4567)"
  using revision_roundtrip [of 1 2 3 4567 "replicate 14 0" "(0, 0, 0, 0)"] by auto

text \<open> C30: \<open>truncate_us\<close> returns a number of at most \<open>count\<close> digits, namely the value with just
  enough trailing digits removed, and leaves a number that fits unchanged.\<close>

theorem truncate_us_correct:
  "truncate_us v cnt < 10 ^ cnt \<and>
   (\<exists>k. truncate_us v cnt = v div 10 ^ k \<and> (\<forall>j < k. 10 ^ cnt \<le> v div 10 ^ j))"
  using truncate_us_less truncate_us_div by blast

theorem truncate_us_correct_witness: "truncate_us 12345 2 < 100"
  using truncate_us_correct [of 12345 2] by simp

text \<open>\<open>build_fw_revision\<close> prints its \<open>unsigned short\<close> arguments with \<open>%hd\<close>: a part of 32768 or
  more is printed as a negative number and is not read back.\<close>

lemma build_fw_revision_negative:
  "build_fw_revision (Some [0, 0, 0, 0, 0, 0, 0, 0]) 8 65535 7 = Some (Some [45, 49, 46, 55, 0, 0, 0, 0])"
  by (simp add: build_fw_revision_def snprintf_text_def wr_bytes_def fmt_hd_def fmt_dec.simps
      digit_char_def)

lemma parse_fw_revision_negative:
  "parse_fw_revision (0, 0) (Some [45, 49, 46, 55, 0, 0, 0, 0]) 8 = Some (True, 1, 7)"
proof -
  let ?s = "[45, 49, 46, 55, 0, 0, 0, 0] :: bytes"
  have v: "dec_val [49] = 1" "dec_val [55] = 7"
    by (simp_all add: dec_val_def dec_step_def todigit_def)
  have "parse_revision_loop ?s 2 0 8 (Some 0) [0, 0] = parse_revision_loop ?s 2 1 6 (Some 2) [1, 0]"
    by (rule parse_revision_loop_step [where pre = "[45]" and ds = "[49]"])
      (auto simp: v isdigit_def)
  also have "\<dots> = parse_revision_loop ?s 2 2 4 (Some 4) [1, 7]"
    by (rule parse_revision_loop_step [where pre = "[46]" and ds = "[55]" and rest = "[0, 0, 0, 0]"])
      (auto simp: v isdigit_def)
  also have "\<dots> = Some (2, [1, 7])" by (simp add: parse_revision_loop.simps)
  finally show ?thesis by (simp add: parse_fw_revision_def parse_revision_def)
qed

end
