(* ===== verification/Nfit_Dimms.thy ===== *)
theory Nfit_Dimms
  imports Nfit
begin

text \<open>
  The DIMMs and the interleave sets that a parsed NFIT describes: \<open>acpi/nfit_dimm.c\<close> and
  \<open>acpi/nfit_interleave.c\<close>. The loops over the arrays of \<open>struct parsed_nfit\<close> are recursions over
  its lists; the arrays that the code fills are lists accessed with \<open>rd\<close> and \<open>wr\<close>.
\<close>

section \<open>DIMMs\<close>

definition NFIT_MAX_IFC_COUNT :: nat where "NFIT_MAX_IFC_COUNT = 9"

record nfit_dimm =
  nd_handle :: u32
  nd_physical_id :: u16
  nd_serial_number :: u32
  nd_vendor_id :: u16
  nd_device_id :: u16
  nd_revision_id :: u16
  nd_subsystem_vendor_id :: u16
  nd_subsystem_device_id :: u16
  nd_subsystem_revision_id :: u16
  nd_valid_fields :: u8
  nd_manufacturing_location :: u8
  nd_manufacturing_date :: u16
  nd_state_flags :: u16
  nd_ifc :: "u16 list"

definition zero_dimm :: nfit_dimm where
  "zero_dimm =
     \<lparr>nd_handle = 0, nd_physical_id = 0, nd_serial_number = 0, nd_vendor_id = 0, nd_device_id = 0,
      nd_revision_id = 0, nd_subsystem_vendor_id = 0, nd_subsystem_device_id = 0,
      nd_subsystem_revision_id = 0, nd_valid_fields = 0, nd_manufacturing_location = 0,
      nd_manufacturing_date = 0, nd_state_flags = 0, nd_ifc = replicate NFIT_MAX_IFC_COUNT 0\<rparr>"

function add_ifc_loop :: "u16 \<Rightarrow> u16 list \<Rightarrow> nat \<Rightarrow> nat \<Rightarrow> u16 list option" where
  "add_ifc_loop ifc p_ifc_list ifc_list_length i =
     (if i < ifc_list_length then do {
        c \<leftarrow> rd p_ifc_list i;
        if c = ifc then Some p_ifc_list
        else if c = 0 then wr p_ifc_list i ifc
        else add_ifc_loop ifc p_ifc_list ifc_list_length (Suc i) }
      else Some p_ifc_list)"
  by pat_completeness auto
termination
  by (relation "measure (\<lambda>(ifc, p, n, i). n - i)") auto

declare add_ifc_loop.simps [simp del]

definition add_ifc_to_list :: "u16 \<Rightarrow> u16 list \<Rightarrow> nat \<Rightarrow> u16 list option" where
  "add_ifc_to_list ifc p_ifc_list ifc_list_length = add_ifc_loop ifc p_ifc_list ifc_list_length 0"

fun add_format_codes_loop :: "control_region list \<Rightarrow> nfit_dimm \<Rightarrow> nfit_dimm option" where
  "add_format_codes_loop [] p_dimm = Some p_dimm"
| "add_format_codes_loop (cr # crs) p_dimm =
     (if cr_serial_number cr = nd_serial_number p_dimm then do {
        l \<leftarrow> add_ifc_to_list (cr_ifc cr) (nd_ifc p_dimm) NFIT_MAX_IFC_COUNT;
        add_format_codes_loop crs (p_dimm\<lparr>nd_ifc := l\<rparr>) }
      else add_format_codes_loop crs p_dimm)"

definition add_all_dimm_format_codes_from_nfit :: "parsed_nfit \<Rightarrow> nfit_dimm \<Rightarrow> nfit_dimm option" where
  "add_all_dimm_format_codes_from_nfit p_parsed_nfit p_dimm =
     add_format_codes_loop (control_region_list p_parsed_nfit) p_dimm"

definition copy_control_region :: "control_region \<Rightarrow> nfit_dimm \<Rightarrow> nfit_dimm" where
  "copy_control_region cr p_dimm =
     p_dimm\<lparr>nd_serial_number := cr_serial_number cr, nd_vendor_id := cr_vendor_id cr,
       nd_device_id := cr_device_id cr, nd_revision_id := cr_revision_id cr,
       nd_subsystem_vendor_id := cr_subsystem_vendor_id cr,
       nd_subsystem_device_id := cr_subsystem_device_id cr,
       nd_subsystem_revision_id := cr_subsystem_revision_id cr,
       nd_valid_fields := cr_valid_fields cr,
       nd_manufacturing_location := cr_manufacturing_location cr,
       nd_manufacturing_date := cr_manufacturing_date cr\<rparr>"

text \<open>The loop has no \<open>break\<close>: the last matching control region wins.\<close>

fun add_control_region_loop ::
    "parsed_nfit \<Rightarrow> control_region list \<Rightarrow> u16 \<Rightarrow> nfit_dimm \<Rightarrow> int \<Rightarrow> (int \<times> nfit_dimm) option" where
  "add_control_region_loop p_nfit [] idx p_dimm result = Some (result, p_dimm)"
| "add_control_region_loop p_nfit (cr # crs) idx p_dimm result =
     (if cr_index cr = idx then do {
        p_dimm' \<leftarrow> add_all_dimm_format_codes_from_nfit p_nfit (copy_control_region cr p_dimm);
        add_control_region_loop p_nfit crs idx p_dimm' NFIT_SUCCESS }
      else add_control_region_loop p_nfit crs idx p_dimm result)"

definition add_dimm_control_region_info_from_index ::
    "parsed_nfit \<Rightarrow> u16 \<Rightarrow> nfit_dimm \<Rightarrow> (int \<times> nfit_dimm) option" where
  "add_dimm_control_region_info_from_index p_nfit idx p_dimm =
     add_control_region_loop p_nfit (control_region_list p_nfit) idx p_dimm NFIT_ERR_BADNFIT"

fun add_dimm_info_loop ::
    "parsed_nfit \<Rightarrow> region_mapping list \<Rightarrow> u32 \<Rightarrow> nfit_dimm \<Rightarrow> (int \<times> nfit_dimm) option" where
  "add_dimm_info_loop p_nfit [] handle p_dimm = Some (NFIT_ERR_BADNFIT, p_dimm)"
| "add_dimm_info_loop p_nfit (r # rs) handle p_dimm =
     (if rm_handle r = handle then
        add_dimm_control_region_info_from_index p_nfit (rm_control_region_index r)
          (p_dimm\<lparr>nd_handle := handle, nd_physical_id := rm_physical_id r,
             nd_state_flags := rm_state_flag r\<rparr>)
      else add_dimm_info_loop p_nfit rs handle p_dimm)"

definition add_dimm_info_from_handle ::
    "parsed_nfit \<Rightarrow> u32 \<Rightarrow> nfit_dimm \<Rightarrow> (int \<times> nfit_dimm) option" where
  "add_dimm_info_from_handle p_nfit handle p_dimm =
     add_dimm_info_loop p_nfit (region_mapping_list p_nfit) handle p_dimm"

definition has_matching_control_region_table :: "parsed_nfit \<Rightarrow> u16 \<Rightarrow> bool" where
  "has_matching_control_region_table p_nfit idx =
     list_ex (\<lambda>cr. cr_index cr = idx) (control_region_list p_nfit)"

function is_unique_loop :: "u32 \<Rightarrow> u32 list \<Rightarrow> nat \<Rightarrow> nat \<Rightarrow> bool option" where
  "is_unique_loop handle p_unique_handles dimm_count j =
     (if j < dimm_count then do {
        h \<leftarrow> rd p_unique_handles j;
        if handle = h then Some False
        else is_unique_loop handle p_unique_handles dimm_count (Suc j) }
      else Some True)"
  by pat_completeness auto
termination
  by (relation "measure (\<lambda>(h, p, n, j). n - j)") auto

declare is_unique_loop.simps [simp del]

fun unique_handles_loop ::
    "parsed_nfit \<Rightarrow> region_mapping list \<Rightarrow> u32 list \<Rightarrow> nat \<Rightarrow> (int \<times> u32 list) option" where
  "unique_handles_loop p_nfit [] p_unique_handles dimm_count = Some (int dimm_count, p_unique_handles)"
| "unique_handles_loop p_nfit (r # rs) p_unique_handles dimm_count = do {
     is_unique \<leftarrow> is_unique_loop (rm_handle r) p_unique_handles dimm_count 0;
     if is_unique then
       (if \<not> has_matching_control_region_table p_nfit (rm_control_region_index r)
        then Some (NFIT_ERR_BADNFIT, p_unique_handles)
        else do {
          h' \<leftarrow> wr p_unique_handles dimm_count (rm_handle r);
          unique_handles_loop p_nfit rs h' (Suc dimm_count) })
     else unique_handles_loop p_nfit rs p_unique_handles dimm_count }"

definition get_unique_dimm_region_handles ::
    "parsed_nfit \<Rightarrow> u32 list \<Rightarrow> (int \<times> u32 list) option" where
  "get_unique_dimm_region_handles p_nfit p_unique_handles =
     unique_handles_loop p_nfit (region_mapping_list p_nfit) p_unique_handles 0"

text \<open>The loop that fills \<open>p_nfit_dimms\<close>: \<open>i\<close>, the number of iterations left, \<open>result\<close>.\<close>

fun fill_dimms_loop ::
    "parsed_nfit \<Rightarrow> u32 list \<Rightarrow> nat \<Rightarrow> nat \<Rightarrow> nfit_dimm list \<Rightarrow> int \<Rightarrow> (int \<times> nfit_dimm list) option"
  where
  "fill_dimms_loop p_nfit handles i 0 dimms result = Some (result, dimms)"
| "fill_dimms_loop p_nfit handles i (Suc k) dimms result = do {
     h \<leftarrow> rd handles i;
     d \<leftarrow> rd dimms i;
     (add_result, d') \<leftarrow> add_dimm_info_from_handle p_nfit h d;
     dimms' \<leftarrow> wr dimms i d';
     if add_result \<noteq> NFIT_SUCCESS then Some (add_result, dimms')
     else fill_dimms_loop p_nfit handles (Suc i) k dimms' result }"

text \<open>The result of \<open>malloc\<close> is not checked, and a negative \<open>count\<close> reaches \<open>memset\<close> as a huge size.\<close>

definition nfit_get_dimms_from_parsed_nfit ::
    "(nat \<Rightarrow> bool) \<Rightarrow> int \<Rightarrow> nfit_dimm list option \<Rightarrow> parsed_nfit \<Rightarrow>
     (int \<times> nfit_dimm list option) option" where
  "nfit_get_dimms_from_parsed_nfit alloc cnt p_nfit_dimms p_nfit =
     (let n = length (region_mapping_list p_nfit) in
      if n \<noteq> 0 then
        if \<not> alloc (n * 4) then None
        else do {
          (result, handles) \<leftarrow> get_unique_dimm_region_handles p_nfit (replicate n 0);
          if cnt \<noteq> 0 then
            (case p_nfit_dimms of
               None \<Rightarrow> Some (NFIT_ERR_BADINPUT, None)
             | Some dimms \<Rightarrow>
                 if cnt < result then Some (NFIT_ERR_BADINPUT, Some dimms)
                 else if cnt < 0 then None
                 else do {
                   dimms0 \<leftarrow> wr_bytes dimms 0 (replicate (nat cnt) zero_dimm);
                   (result', dimms') \<leftarrow>
                     fill_dimms_loop p_nfit handles 0 (nat result) dimms0 result;
                   Some (result', Some dimms') })
          else Some (result, p_nfit_dimms) }
      else Some (0, p_nfit_dimms))"

text \<open>The local pointer is uninitialised before the call; using it then is undefined.\<close>

definition nfit_get_dimms ::
    "(nat \<Rightarrow> bool) \<Rightarrow> nat \<Rightarrow> bytes option \<Rightarrow> int \<Rightarrow> nfit_dimm list option \<Rightarrow>
     (int \<times> nfit_dimm list option) option" where
  "nfit_get_dimms alloc chunk table_file cnt p_nfit_dimms = do {
     (result, p_parsed_nfit) \<leftarrow> nfit_get_parsed_nfit alloc chunk table_file Dangling;
     if result = NFIT_SUCCESS then
       (case p_parsed_nfit of
          Null \<Rightarrow> Some (result, p_nfit_dimms)
        | Dangling \<Rightarrow> None
        | Valid p \<Rightarrow> nfit_get_dimms_from_parsed_nfit alloc cnt p_nfit_dimms p)
     else Some (result, p_nfit_dimms) }"

section \<open>Interleave sets\<close>

definition NFIT_MAX_DIMMS :: nat where "NFIT_MAX_DIMMS = 12"

record nfit_interleave_set =
  is_id :: u16
  is_proximity_domain :: u32
  is_address :: u64
  is_size :: u64
  is_attributes :: u64
  is_dimm_count :: nat
  is_dimms :: "u32 list"
  is_dimm_region_pdas :: "u64 list"
  is_dimm_region_offsets :: "u64 list"
  is_dimm_sizes :: "u64 list"

definition zero_iset :: nfit_interleave_set where
  "zero_iset =
     \<lparr>is_id = 0, is_proximity_domain = 0, is_address = 0, is_size = 0, is_attributes = 0,
      is_dimm_count = 0, is_dimms = replicate NFIT_MAX_DIMMS 0,
      is_dimm_region_pdas = replicate NFIT_MAX_DIMMS 0,
      is_dimm_region_offsets = replicate NFIT_MAX_DIMMS 0, is_dimm_sizes = replicate NFIT_MAX_DIMMS 0\<rparr>"

definition is_dimm_already_added :: "u32 \<Rightarrow> nfit_interleave_set \<Rightarrow> bool option" where
  "is_dimm_already_added handle p_set =
     map_option Not (is_unique_loop handle (is_dimms p_set) (is_dimm_count p_set) 0)"

fun populate_loop ::
    "region_mapping list \<Rightarrow> nfit_interleave_set \<Rightarrow> nfit_interleave_set option" where
  "populate_loop [] s = Some s"
| "populate_loop (r # rs) s =
     (if rm_spa_index r = is_id s then do {
        added \<leftarrow> is_dimm_already_added (rm_handle r) s;
        if \<not> added then do {
          d \<leftarrow> wr (is_dimms s) (is_dimm_count s) (rm_handle r);
          a \<leftarrow> wr (is_dimm_region_pdas s) (is_dimm_count s) (rm_physical_address_region_base r);
          o' \<leftarrow> wr (is_dimm_region_offsets s) (is_dimm_count s) (rm_region_offset r);
          z \<leftarrow> wr (is_dimm_sizes s) (is_dimm_count s) (rm_region_size r);
          populate_loop rs (s\<lparr>is_dimms := d, is_dimm_region_pdas := a, is_dimm_region_offsets := o',
            is_dimm_sizes := z, is_dimm_count := Suc (is_dimm_count s)\<rparr>) }
        else populate_loop rs s }
      else populate_loop rs s)"

definition populate_interleave_set_dimm_info ::
    "nfit_interleave_set \<Rightarrow> parsed_nfit \<Rightarrow> nfit_interleave_set option" where
  "populate_interleave_set_dimm_info s p_nfit = populate_loop (region_mapping_list p_nfit) s"

text \<open>\<open>SPA_RANGE_PM_REGION_GUID_STR\<close>\<close>

definition spa_range_pm_region_guid_str :: bytes where
  "spa_range_pm_region_guid_str =
     [55, 57, 68, 51, 70, 48, 54, 54, 45, 70, 51, 66, 52, 45, 55, 52, 52, 48, 45, 65, 67, 52, 51,
      45, 48, 68, 51, 51, 49, 56, 66, 55, 56, 67, 68, 66, 0]"

fun iset_loop ::
    "parsed_nfit \<Rightarrow> spa list \<Rightarrow> int \<Rightarrow> nfit_interleave_set list option \<Rightarrow> nat \<Rightarrow>
     (int \<times> nfit_interleave_set list option) option" where
  "iset_loop p_nfit [] cnt p_sets set_count = Some (int set_count, p_sets)"
| "iset_loop p_nfit (x # xs) cnt p_sets set_count = do {
     pm_guid \<leftarrow> str_to_guid (Some spa_range_pm_region_guid_str) (Some (replicate 16 0));
     eq \<leftarrow> guid_cmp pm_guid (Some (address_range_type_guid x));
     if eq \<noteq> 0 then
       (case p_sets of
          None \<Rightarrow> iset_loop p_nfit xs cnt p_sets (Suc set_count)
        | Some sets \<Rightarrow>
            if cnt = 0 then iset_loop p_nfit xs cnt p_sets (Suc set_count)
            else if cnt \<le> int set_count then Some (NFIT_ERR_BADINPUT, p_sets)
            else do {
              s \<leftarrow> rd sets set_count;
              s' \<leftarrow> populate_interleave_set_dimm_info
                     (s\<lparr>is_id := spa_range_index x, is_proximity_domain := proximity_domain x,
                        is_address := spa_range_base x, is_size := spa_range_length x,
                        is_attributes := address_range_memory_mapping_attribute x\<rparr>) p_nfit;
              sets' \<leftarrow> wr sets set_count s';
              iset_loop p_nfit xs cnt (Some sets') (Suc set_count) })
     else iset_loop p_nfit xs cnt p_sets set_count }"

definition nfit_get_interleave_sets_from_parsed_nfit ::
    "int \<Rightarrow> nfit_interleave_set list option \<Rightarrow> parsed_nfit \<Rightarrow>
     (int \<times> nfit_interleave_set list option) option" where
  "nfit_get_interleave_sets_from_parsed_nfit cnt p_sets p_nfit = do {
     sets0 \<leftarrow> (case p_sets of
                 Some sets \<Rightarrow>
                   if cnt < 0 then None
                   else map_option Some (wr_bytes sets 0 (replicate (nat cnt) zero_iset))
               | None \<Rightarrow> Some None);
     iset_loop p_nfit (spa_list p_nfit) cnt sets0 0 }"

definition nfit_get_interleave_sets ::
    "(nat \<Rightarrow> bool) \<Rightarrow> nat \<Rightarrow> bytes option \<Rightarrow> int \<Rightarrow> nfit_interleave_set list option \<Rightarrow>
     (int \<times> nfit_interleave_set list option) option" where
  "nfit_get_interleave_sets alloc chunk table_file cnt p_sets = do {
     (result, p_parsed_nfit) \<leftarrow> nfit_get_parsed_nfit alloc chunk table_file Dangling;
     if result = NFIT_SUCCESS then
       (case p_parsed_nfit of
          Null \<Rightarrow> Some (result, p_sets)
        | Dangling \<Rightarrow> None
        | Valid p \<Rightarrow> nfit_get_interleave_sets_from_parsed_nfit cnt p_sets p)
     else Some (result, p_sets) }"

section \<open>Collecting distinct handles\<close>

definition add_new :: "'a list \<Rightarrow> 'a \<Rightarrow> 'a list" where
  "add_new us x = (if x \<in> set us then us else us @ [x])"

definition firsts :: "'a list \<Rightarrow> 'a list" where
  "firsts xs = foldl add_new [] xs"

lemma set_foldl_add_new: "set (foldl add_new us xs) = set us \<union> set xs"
  by (induction xs arbitrary: us) (auto simp: add_new_def)

lemma distinct_foldl_add_new: "distinct us \<Longrightarrow> distinct (foldl add_new us xs)"
  by (induction xs arbitrary: us) (auto simp: add_new_def)

lemma set_firsts [simp]: "set (firsts xs) = set xs"
  by (simp add: firsts_def set_foldl_add_new)

lemma distinct_firsts [simp]: "distinct (firsts xs)"
  by (simp add: firsts_def distinct_foldl_add_new)

lemma length_firsts: "length (firsts xs) = card (set xs)"
  using distinct_card [OF distinct_firsts, of xs] by simp

lemma length_foldl_add_new: "length us \<le> length (foldl add_new us xs)"
proof (induction xs arbitrary: us)
  case (Cons x xs)
  have "length us \<le> length (add_new us x)" by (simp add: add_new_def)
  then show ?case using Cons [of "add_new us x"] by simp
qed simp

lemma length_foldl_add_new_le: "length (foldl add_new us xs) \<le> length us + length xs"
proof (induction xs arbitrary: us)
  case (Cons x xs)
  have "length (add_new us x) \<le> length us + 1" by (simp add: add_new_def)
  then show ?case using Cons [of "add_new us x"] by simp
qed simp

lemma is_unique_loop_eq:
  "n \<le> length p \<Longrightarrow> j \<le> n \<Longrightarrow>
   is_unique_loop h p n j = Some (h \<notin> set (take (n - j) (drop j p)))"
proof (induction h p n j rule: is_unique_loop.induct)
  case (1 h p n j)
  show ?case
  proof (cases "j < n")
    case False
    then have "j = n" using 1 by simp
    then show ?thesis by (simp add: is_unique_loop.simps [of h p n n])
  next
    case True
    then have "take (n - j) (drop j p) = p ! j # take (n - Suc j) (drop (Suc j) p)"
      using 1(2) by (simp add: Cons_nth_drop_Suc [symmetric] take_Cons')
    then show ?thesis using True 1
      by (auto simp: is_unique_loop.simps [of h p n j] rd_in)
  qed
qed

lemma is_unique_prefix: "is_unique_loop h (us @ ys) (length us) 0 = Some (h \<notin> set us)"
  using is_unique_loop_eq [of "length us" "us @ ys" 0 h] by simp

lemma wr_append: "ys \<noteq> [] \<Longrightarrow> wr (us @ ys) (length us) x = Some ((us @ [x]) @ tl ys)"
  by (cases ys) (auto simp: wr_def)

lemma unique_handles_loop_eq:
  assumes "length rs \<le> length ys"
  shows "\<exists>r ys'. unique_handles_loop p rs (us @ ys) (length us) = Some (r, ys') \<and>
     ((\<forall>x \<in> set rs. has_matching_control_region_table p (rm_control_region_index x)) \<longrightarrow>
        r = int (length (foldl add_new us (map rm_handle rs)))) \<and>
     (r = NFIT_ERR_BADNFIT \<or> (r = int (length (foldl add_new us (map rm_handle rs))) \<and>
        take (nat r) ys' = foldl add_new us (map rm_handle rs)))"
  using assms
proof (induction rs arbitrary: us ys)
  case Nil
  then show ?case by simp
next
  case (Cons x rs)
  show ?case
  proof (cases "rm_handle x \<in> set us")
    case True
    then show ?thesis using Cons.IH [of ys us] Cons.prems by (auto simp: is_unique_prefix add_new_def)
  next
    case new: False
    show ?thesis
    proof (cases "has_matching_control_region_table p (rm_control_region_index x)")
      case False
      then show ?thesis using new by (simp add: is_unique_prefix)
    next
      case True
      have y: "ys \<noteq> []" "length rs \<le> length (tl ys)" using Cons.prems by auto
      have "length (us @ [rm_handle x]) = Suc (length us)" by simp
      then show ?thesis
        using new True Cons.IH [of "tl ys" "us @ [rm_handle x]"] y
        by (simp add: is_unique_prefix wr_append add_new_def)
    qed
  qed
qed

lemma get_unique_handles_eq:
  "\<exists>r ys. get_unique_dimm_region_handles p (replicate (length (region_mapping_list p)) 0) = Some (r, ys) \<and>
     ((\<forall>x \<in> set (region_mapping_list p).
         has_matching_control_region_table p (rm_control_region_index x)) \<longrightarrow>
        r = int (length (firsts (map rm_handle (region_mapping_list p))))) \<and>
     (r = NFIT_ERR_BADNFIT \<or> (r = int (length (firsts (map rm_handle (region_mapping_list p)))) \<and>
        take (nat r) ys = firsts (map rm_handle (region_mapping_list p))))"
  using unique_handles_loop_eq [of "region_mapping_list p" "replicate (length (region_mapping_list p)) 0" p "[]"]
  by (simp add: get_unique_dimm_region_handles_def firsts_def)

section \<open>Filling in a DIMM\<close>

text \<open>The array of format codes: those of the list that fit, then zeros.\<close>

definition ifc_array :: "u16 list \<Rightarrow> u16 list" where
  "ifc_array us = take NFIT_MAX_IFC_COUNT (us @ replicate NFIT_MAX_IFC_COUNT 0)"

lemma ifc_array_full [simp]: "length us \<ge> 9 \<Longrightarrow> ifc_array us = take 9 us"
  by (simp add: ifc_array_def NFIT_MAX_IFC_COUNT_def)

lemma length_ifc_array [simp]: "length (ifc_array us) = 9"
  by (simp add: ifc_array_def NFIT_MAX_IFC_COUNT_def)

lemma ifc_array_nth: "i < 9 \<Longrightarrow> ifc_array us ! i = (if i < length us then us ! i else 0)"
  by (simp add: ifc_array_def NFIT_MAX_IFC_COUNT_def nth_append)

lemma ifc_array_add: "length us < 9 \<Longrightarrow> (ifc_array us)[length us := c] = ifc_array (us @ [c])"
  by (rule nth_equalityI) (auto simp: ifc_array_nth nth_list_update nth_append)

definition add_code :: "u16 list \<Rightarrow> u16 \<Rightarrow> u16 list" where
  "add_code us c = (if c = 0 then us else add_new us c)"

lemma add_ifc_loop_array:
  assumes "0 \<notin> set us" and "i \<le> 9" and "i \<le> length us" and "c \<notin> set (take i us)"
  shows "add_ifc_loop c (ifc_array us) NFIT_MAX_IFC_COUNT i = Some (ifc_array (add_code us c))"
  using assms(2-4)
proof (induction "9 - i" arbitrary: i)
  case 0
  have "i = 9" using 0 by simp
  moreover have "ifc_array (us @ [c]) = ifc_array us" if "9 \<le> length us" using that by (simp add: ifc_array_def NFIT_MAX_IFC_COUNT_def)
  ultimately show ?case using 0
    by (auto simp: add_ifc_loop.simps [of c _ 9 9] NFIT_MAX_IFC_COUNT_def add_code_def add_new_def)
next
  case (Suc k)
  then have i: "i < 9" by simp
  have r: "rd (ifc_array us) i = Some (if i < length us then us ! i else 0)"
    using i by (simp add: rd_in ifc_array_nth)
  show ?case
  proof (cases "i < length us")
    case True
    then have nz: "us ! i \<noteq> 0" using assms(1) by (metis nth_mem)
    show ?thesis
    proof (cases "us ! i = c")
      case True
      then have "c \<in> set us" using \<open>i < length us\<close> by auto
      then show ?thesis using True r \<open>i < length us\<close> i nz
        by (simp add: add_ifc_loop.simps [of c "ifc_array us" 9 i] NFIT_MAX_IFC_COUNT_def add_code_def
            add_new_def)
    next
      case False
      have "c \<notin> set (take (Suc i) us)" using Suc.prems(3) False \<open>i < length us\<close> by (simp add: take_Suc_conv_app_nth)
      then have "add_ifc_loop c (ifc_array us) NFIT_MAX_IFC_COUNT (Suc i) = Some (ifc_array (add_code us c))"
        using Suc.hyps i \<open>i < length us\<close> by simp
      then show ?thesis using False r \<open>i < length us\<close> i nz
        by (simp add: add_ifc_loop.simps [of c "ifc_array us" 9 i] NFIT_MAX_IFC_COUNT_def)
    qed
  next
    case False
    then have l: "i = length us" using Suc.prems(2) by simp
    then have "c \<notin> set us" using Suc.prems(3) by simp
    then show ?thesis using r i l ifc_array_add [of us c]
      by (simp add: add_ifc_loop.simps [of _ "ifc_array us" 9 "length us"] NFIT_MAX_IFC_COUNT_def add_code_def
          add_new_def wr_in)
  qed
qed

lemma add_code_nonzero: "0 \<notin> set us \<Longrightarrow> 0 \<notin> set (add_code us c)"
  by (auto simp: add_code_def add_new_def)

lemma add_codes_nonzero: "0 \<notin> set us \<Longrightarrow> 0 \<notin> set (foldl add_code us cs)"
  by (induction cs arbitrary: us) (simp_all add: add_code_nonzero)

lemma add_codes_firsts: "foldl add_code us cs = foldl add_new us (filter (\<lambda>c. c \<noteq> 0) cs)"
  by (induction cs arbitrary: us) (simp_all add: add_code_def)

text \<open>The format codes of all control regions with the serial number of the given one\<close>

definition codes_of :: "control_region list \<Rightarrow> u32 \<Rightarrow> u16 list" where
  "codes_of crs serial = map cr_ifc (filter (\<lambda>c. cr_serial_number c = serial) crs)"

lemma add_format_codes_eq:
  "nd_ifc d = ifc_array us \<Longrightarrow> 0 \<notin> set us \<Longrightarrow>
   add_format_codes_loop crs d =
     Some (d\<lparr>nd_ifc := ifc_array (foldl add_code us (codes_of crs (nd_serial_number d)))\<rparr>)"
proof (induction crs arbitrary: d us)
  case Nil
  then show ?case by (simp add: codes_of_def)
next
  case (Cons cr crs)
  have "add_ifc_to_list (cr_ifc cr) (nd_ifc d) NFIT_MAX_IFC_COUNT = Some (ifc_array (add_code us (cr_ifc cr)))"
    using add_ifc_loop_array [of us 0 "cr_ifc cr"] Cons.prems by (simp add: add_ifc_to_list_def)
  then show ?case
    using Cons.IH [of d us] Cons.IH [of "d\<lparr>nd_ifc := ifc_array (add_code us (cr_ifc cr))\<rparr>" "add_code us (cr_ifc cr)"]
      Cons.prems add_code_nonzero
    by (simp add: codes_of_def)
qed

lemma copy_control_region_twice:
  "copy_control_region c2 ((copy_control_region c1 d)\<lparr>nd_ifc := l1\<rparr>)\<lparr>nd_ifc := l2\<rparr> =
   (copy_control_region c2 d)\<lparr>nd_ifc := l2\<rparr>"
  by (simp add: copy_control_region_def)

definition all_codes :: "parsed_nfit \<Rightarrow> control_region list \<Rightarrow> u16 list" where
  "all_codes p crs = concat (map (\<lambda>cr. codes_of (control_region_list p) (cr_serial_number cr)) crs)"

lemma add_control_region_loop_eq:
  "nd_ifc d = ifc_array us \<Longrightarrow> 0 \<notin> set us \<Longrightarrow> fs = filter (\<lambda>cr. cr_index cr = idx) crs \<Longrightarrow>
   add_control_region_loop p crs idx d r0 =
     Some (if fs = [] then (r0, d)
       else (NFIT_SUCCESS, (copy_control_region (last fs) d)\<lparr>nd_ifc := ifc_array (foldl add_code us (all_codes p fs))\<rparr>))"
proof (induction crs arbitrary: d us r0 fs)
  case Nil
  then show ?case by simp
next
  case (Cons cr crs)
  show ?case
  proof (cases "cr_index cr = idx")
    case False
    then show ?thesis using Cons.IH [OF Cons.prems(1,2) refl, of r0] Cons.prems(3) by simp
  next
    case True
    let ?gs = "filter (\<lambda>cr. cr_index cr = idx) crs"
    let ?us = "foldl add_code us (codes_of (control_region_list p) (cr_serial_number cr))"
    let ?d = "(copy_control_region cr d)\<lparr>nd_ifc := ifc_array ?us\<rparr>"
    have c: "nd_ifc (copy_control_region cr d) = ifc_array us"
      "nd_serial_number (copy_control_region cr d) = cr_serial_number cr"
      using Cons.prems(1) by (simp_all add: copy_control_region_def)
    have a: "add_all_dimm_format_codes_from_nfit p (copy_control_region cr d) = Some ?d"
      using add_format_codes_eq [OF c(1) Cons.prems(2), of "control_region_list p"] c(2)
      by (simp add: add_all_dimm_format_codes_from_nfit_def)
    have i: "nd_ifc ?d = ifc_array ?us" by simp
    have all: "foldl add_code us (all_codes p (cr # ?gs)) = foldl add_code ?us (all_codes p ?gs)"
      by (simp add: all_codes_def)
    have n: "all_codes p [cr] = codes_of (control_region_list p) (cr_serial_number cr)" by (simp add: all_codes_def)
    show ?thesis
      using Cons.IH [OF i add_codes_nonzero [OF Cons.prems(2)] refl, of NFIT_SUCCESS] True a Cons.prems(3) all n
      by (cases "?gs = []") (simp_all add: copy_control_region_twice)
  qed
qed

text \<open>
  What the code makes of a region mapping: its handle, physical id and state, the identity of the last
  of the control regions it names, and the first nine distinct format codes of the regions with the
  serial numbers of these.
\<close>

definition regions_of :: "parsed_nfit \<Rightarrow> region_mapping \<Rightarrow> control_region list" where
  "regions_of p r = filter (\<lambda>cr. cr_index cr = rm_control_region_index r) (control_region_list p)"

definition dimm_entry :: "parsed_nfit \<Rightarrow> region_mapping \<Rightarrow> nfit_dimm" where
  "dimm_entry p r =
     (let cr = last (regions_of p r) in
      \<lparr>nd_handle = rm_handle r, nd_physical_id = rm_physical_id r,
       nd_serial_number = cr_serial_number cr, nd_vendor_id = cr_vendor_id cr, nd_device_id = cr_device_id cr,
       nd_revision_id = cr_revision_id cr, nd_subsystem_vendor_id = cr_subsystem_vendor_id cr,
       nd_subsystem_device_id = cr_subsystem_device_id cr,
       nd_subsystem_revision_id = cr_subsystem_revision_id cr, nd_valid_fields = cr_valid_fields cr,
       nd_manufacturing_location = cr_manufacturing_location cr,
       nd_manufacturing_date = cr_manufacturing_date cr, nd_state_flags = rm_state_flag r,
       nd_ifc = ifc_array (firsts (filter (\<lambda>c. c \<noteq> 0) (all_codes p (regions_of p r))))\<rparr>)"

text \<open>The entry of \<open>handle\<close> describes its first region mapping.\<close>

definition dimm_of :: "parsed_nfit \<Rightarrow> u32 \<Rightarrow> nfit_dimm" where
  "dimm_of p handle =
     (case find (\<lambda>r. rm_handle r = handle) (region_mapping_list p) of
        None \<Rightarrow> zero_dimm
      | Some r \<Rightarrow> dimm_entry p r)"

lemma add_dimm_info_loop_find:
  "add_dimm_info_loop p rs h d =
     (case find (\<lambda>r. rm_handle r = h) rs of
        None \<Rightarrow> Some (NFIT_ERR_BADNFIT, d)
      | Some r \<Rightarrow> add_dimm_control_region_info_from_index p (rm_control_region_index r)
          (d\<lparr>nd_handle := h, nd_physical_id := rm_physical_id r, nd_state_flags := rm_state_flag r\<rparr>))"
  by (induction rs) auto

lemma add_dimm_info_eq:
  assumes "h \<in> rm_handle ` set (region_mapping_list p)"
    and "\<forall>x \<in> set (region_mapping_list p). has_matching_control_region_table p (rm_control_region_index x)"
  shows "add_dimm_info_from_handle p h zero_dimm = Some (NFIT_SUCCESS, dimm_of p h)"
proof -
  obtain r where r: "find (\<lambda>r. rm_handle r = h) (region_mapping_list p) = Some r"
    using assms(1) by (cases "find (\<lambda>r. rm_handle r = h) (region_mapping_list p)")
      (auto simp: find_None_iff)
  then have rs: "r \<in> set (region_mapping_list p)" "rm_handle r = h" by (auto simp: find_Some_iff)
  then have m: "regions_of p r \<noteq> []"
    using assms(2) by (auto simp: has_matching_control_region_table_def list_ex_iff regions_of_def filter_empty_conv)
  let ?d = "zero_dimm\<lparr>nd_handle := h, nd_physical_id := rm_physical_id r, nd_state_flags := rm_state_flag r\<rparr>"
  have "nd_ifc ?d = ifc_array []" by (simp add: zero_dimm_def ifc_array_def)
  then have "add_control_region_loop p (control_region_list p) (rm_control_region_index r) ?d NFIT_ERR_BADNFIT =
      Some (if regions_of p r = [] then (NFIT_ERR_BADNFIT, ?d)
        else (NFIT_SUCCESS, (copy_control_region (last (regions_of p r)) ?d)
          \<lparr>nd_ifc := ifc_array (foldl add_code [] (all_codes p (regions_of p r)))\<rparr>))"
    by (rule add_control_region_loop_eq) (simp_all add: regions_of_def)
  then show ?thesis
    using r m rs(2)
    by (simp add: add_dimm_info_from_handle_def add_dimm_info_loop_find regions_of_def [symmetric]
        add_dimm_control_region_info_from_index_def dimm_of_def dimm_entry_def copy_control_region_def zero_dimm_def
        add_codes_firsts firsts_def Let_def)
qed

lemma fill_dimms_loop_eq:
  assumes "\<forall>h \<in> set hs. h \<in> rm_handle ` set (region_mapping_list p)"
    and "\<forall>x \<in> set (region_mapping_list p). has_matching_control_region_table p (rm_control_region_index x)"
    and "take (length ds + length hs) ys = gs @ hs" and "length gs = length ds"
  shows "fill_dimms_loop p ys (length ds) (length hs) (ds @ replicate (length hs) zero_dimm @ es) r =
    Some (r, ds @ map (dimm_of p) hs @ es)"
  using assms(1,3,4)
proof (induction hs arbitrary: ds gs)
  case Nil
  then show ?case by simp
next
  case (Cons h hs)
  let ?n = "length ds"
  have "rd ys ?n = Some h"
  proof -
    have "length (take (?n + length (h # hs)) ys) = length gs + length (h # hs)" using Cons.prems(2) by simp
    then have l: "?n < length ys" using Cons.prems(3) by simp
    have "ys ! ?n = take (?n + length (h # hs)) ys ! ?n" by simp
    also have "\<dots> = h" unfolding Cons.prems(2) using Cons.prems(3) by (simp add: nth_append)
    finally show ?thesis using l by (simp add: rd_in)
  qed
  moreover have "rd (ds @ zero_dimm # replicate (length hs) zero_dimm @ es) ?n = Some zero_dimm"
    by (simp add: rd_def nth_append)
  moreover have "wr (ds @ zero_dimm # replicate (length hs) zero_dimm @ es) ?n (dimm_of p h) =
      Some ((ds @ [dimm_of p h]) @ replicate (length hs) zero_dimm @ es)"
    by (simp add: wr_def list_update_append)
  moreover have "add_dimm_info_from_handle p h zero_dimm = Some (NFIT_SUCCESS, dimm_of p h)"
    by (rule add_dimm_info_eq [OF _ assms(2)]) (use Cons.prems(1) in simp)
  moreover have "fill_dimms_loop p ys (length (ds @ [dimm_of p h])) (length hs)
      ((ds @ [dimm_of p h]) @ replicate (length hs) zero_dimm @ es) r =
      Some (r, (ds @ [dimm_of p h]) @ map (dimm_of p) hs @ es)"
    by (rule Cons.IH [of _ "gs @ [h]"]) (use Cons.prems in simp_all)
  ultimately show ?case by simp
qed

section \<open>The DIMMs of an interleave set\<close>

definition iset_room :: "nfit_interleave_set \<Rightarrow> bool" where
  "iset_room s \<longleftrightarrow> length (is_dimms s) = 12 \<and> length (is_dimm_region_pdas s) = 12 \<and>
     length (is_dimm_region_offsets s) = 12 \<and> length (is_dimm_sizes s) = 12"

definition set_handles :: "nfit_interleave_set \<Rightarrow> region_mapping list \<Rightarrow> u32 list" where
  "set_handles s rs = map rm_handle (filter (\<lambda>r. rm_spa_index r = is_id s) rs)"

lemma set_handles_Cons:
  "set_handles s (r # rs) =
     (if rm_spa_index r = is_id s then [rm_handle r] else []) @ set_handles s rs"
  by (simp add: set_handles_def)

lemma populate_loop_eq:
  assumes "iset_room s" and "is_dimms s = us @ ys" and "is_dimm_count s = length us"
    and "hs = foldl add_new us (set_handles s rs)"
  shows "if length hs \<le> 12
     then \<exists>s'. populate_loop rs s = Some s' \<and> iset_room s' \<and> is_id s' = is_id s \<and>
            is_dimm_count s' = length hs \<and> take (length hs) (is_dimms s') = hs
     else populate_loop rs s = None"
  using assms
proof (induction rs arbitrary: s us ys hs)
  case Nil
  have "length us \<le> 12" using Nil(1,2) by (simp add: iset_room_def)
  then show ?case using Nil by (simp add: set_handles_def)
next
  case (Cons r rs)
  have u: "is_unique_loop (rm_handle r) (is_dimms s) (is_dimm_count s) 0 = Some (rm_handle r \<notin> set us)"
    using is_unique_prefix [of "rm_handle r" us ys] Cons.prems(2,3) by simp
  consider "rm_spa_index r \<noteq> is_id s" | "rm_spa_index r = is_id s" "rm_handle r \<in> set us"
    | "rm_spa_index r = is_id s" "rm_handle r \<notin> set us" by blast
  then show ?case
  proof cases
    case 1
    then show ?thesis using Cons.IH [OF Cons.prems(1-3) refl] Cons.prems(4) by (simp add: set_handles_Cons)
  next
    case 2
    have "add_new us (rm_handle r) = us" using 2 by (simp add: add_new_def)
    then have hs: "hs = foldl add_new us (set_handles s rs)"
      using 2 Cons.prems(4) by (simp add: set_handles_Cons)
    show ?thesis using Cons.IH [OF Cons.prems(1-3) hs] 2 u
      by (simp add: is_dimm_already_added_def)
  next
    case 3
    have "add_new us (rm_handle r) = us @ [rm_handle r]" using 3 by (simp add: add_new_def)
    then have hs: "hs = foldl add_new (us @ [rm_handle r]) (set_handles s rs)"
      using 3 Cons.prems(4) by (simp add: set_handles_Cons)
    show ?thesis
    proof (cases ys)
      case Nil
      then have l: "length us = 12" using Cons.prems(1,2) by (simp add: iset_room_def)
      then have "12 < length hs" using length_foldl_add_new [of "us @ [rm_handle r]"] hs
        by (metis Suc_le_eq length_append_singleton)
      moreover have "wr (is_dimms s) (is_dimm_count s) x = None" for x
        using l Nil Cons.prems(2,3) by (simp add: wr_def)
      ultimately show ?thesis using 3 u by (simp add: is_dimm_already_added_def)
    next
      case (Cons y ys')
      have len: "length us < 12"
        using \<open>ys = y # ys'\<close> Cons.prems(1,2) by (simp add: iset_room_def)
      let ?n = "is_dimm_count s"
      let ?s = "s\<lparr>is_dimms := (is_dimms s)[?n := rm_handle r],
        is_dimm_region_pdas := (is_dimm_region_pdas s)[?n := rm_physical_address_region_base r],
        is_dimm_region_offsets := (is_dimm_region_offsets s)[?n := rm_region_offset r],
        is_dimm_sizes := (is_dimm_sizes s)[?n := rm_region_size r], is_dimm_count := Suc ?n\<rparr>"
      have w: "wr (is_dimms s) ?n a = Some ((is_dimms s)[?n := a])"
        "wr (is_dimm_region_pdas s) ?n b = Some ((is_dimm_region_pdas s)[?n := b])"
        "wr (is_dimm_region_offsets s) ?n b = Some ((is_dimm_region_offsets s)[?n := b])"
        "wr (is_dimm_sizes s) ?n b = Some ((is_dimm_sizes s)[?n := b])" for a b
        using len Cons.prems(1,3) by (auto simp: wr_def iset_room_def)
      have e: "populate_loop (r # rs) s = populate_loop rs ?s"
        using 3 u w by (simp add: is_dimm_already_added_def)
      have room: "iset_room ?s" using Cons.prems(1) by (simp add: iset_room_def)
      have d: "is_dimms ?s = (us @ [rm_handle r]) @ ys'"
        using Cons.prems(2,3) \<open>ys = y # ys'\<close> by simp
      have cnt: "is_dimm_count ?s = length (us @ [rm_handle r])" using Cons.prems(3) by simp
      have id: "is_id ?s = is_id s" by simp
      have sh: "set_handles ?s rs = set_handles s rs" by (simp add: set_handles_def)
      show ?thesis
        using Cons.IH [OF room d cnt refl] unfolding e sh hs id .
    qed
  qed
qed

section \<open>Properties\<close>

text \<open> C30: for a parsed table with at least one region mapping in which every region mapping names an
  existing control region, and as long as memory can be allocated, the list
  of DIMMs has one entry for each distinct device handle, in the order of their first region mappings,
  and zeros behind them. Each entry carries the handle, the physical id and the state of that mapping,
  the serial number, vendor, device, revision, subsystem, valid fields and manufacturing data of the
  last of the control regions that the mapping names, and the first nine distinct non-zero format codes of the
  regions with the same serial number. No array is overrun when the caller provides room for the
  number, which a call with the count 0 returns.\<close>

theorem nfit_get_dimms_correct:
  assumes "\<forall>n. alloc n" and "region_mapping_list p \<noteq> []"
    and "\<forall>x \<in> set (region_mapping_list p). has_matching_control_region_table p (rm_control_region_index x)"
    and "hs = firsts (map rm_handle (region_mapping_list p))"
    and "int (length hs) \<le> cnt" and "length dimms = nat cnt"
  shows "nfit_get_dimms_from_parsed_nfit alloc 0 None p = Some (int (length hs), None) \<and>
    nfit_get_dimms_from_parsed_nfit alloc cnt (Some dimms) p =
      Some (int (length hs), Some (map (dimm_of p) hs @ replicate (nat cnt - length hs) zero_dimm)) \<and>
    distinct hs \<and> set hs = rm_handle ` set (region_mapping_list p)"
proof -
  let ?rs = "region_mapping_list p"
  obtain ys where g: "get_unique_dimm_region_handles p (replicate (length ?rs) 0) =
      Some (int (length hs), ys)" "take (length hs) ys = hs"
    using get_unique_handles_eq [of p] assms(3,4) by auto
  have "set hs = rm_handle ` set ?rs" by (simp add: assms(4))
  then have "hs \<noteq> []" using assms(2) by auto
  then have pos: "cnt \<noteq> 0" "\<not> cnt < 0" "\<not> cnt < int (length hs)" using assms(5) by auto
  have k: "replicate (nat cnt) zero_dimm = replicate (length hs) zero_dimm @ replicate (nat cnt - length hs) zero_dimm"
    using assms(5) by (simp add: replicate_add [symmetric])
  have w: "wr_bytes dimms 0 (replicate (nat cnt) zero_dimm) = Some (replicate (nat cnt) zero_dimm)"
    using assms(6) by (simp add: wr_bytes_def)
  have "fill_dimms_loop p ys 0 (length hs) (replicate (nat cnt) zero_dimm) (int (length hs)) =
      Some (int (length hs), map (dimm_of p) hs @ replicate (nat cnt - length hs) zero_dimm)"
    using fill_dimms_loop_eq [OF _ assms(3), of hs "[]" ys "[]" "replicate (nat cnt - length hs) zero_dimm"] g(2) assms(4) k
    by simp
  then show ?thesis
    using assms(1,2,4) g(1) pos w by (simp add: nfit_get_dimms_from_parsed_nfit_def Let_def)
qed

definition sample_nfit :: parsed_nfit where
  "sample_nfit = nfit_of (replicate 40 0)
     [[1, 0, 48, 0, 7, 0, 0, 0, 3] @ replicate 5 0 @ [1] @ replicate 33 0,
      [4, 0, 80, 0, 1] @ replicate 75 0]"

theorem nfit_get_dimms_correct_witness:
  "nfit_get_dimms_from_parsed_nfit (\<lambda>_. True) 2 (Some [zero_dimm, zero_dimm]) sample_nfit =
     Some (1, Some [dimm_of sample_nfit 7, zero_dimm]) \<and> dimm_of sample_nfit 7 \<noteq> zero_dimm"
proof -
  have "region_mapping_list sample_nfit \<noteq> []" by code_simp
  moreover have "list_all (\<lambda>x. has_matching_control_region_table sample_nfit (rm_control_region_index x))
      (region_mapping_list sample_nfit)" by code_simp
  moreover have "firsts (map rm_handle (region_mapping_list sample_nfit)) = [7]" by code_simp
  moreover have "nd_handle (dimm_of sample_nfit 7) = 7" by code_simp
  moreover have "nd_handle zero_dimm = 0" by (simp add: zero_dimm_def)
  ultimately show ?thesis
    using nfit_get_dimms_correct [of "\<lambda>_. True" sample_nfit "[7]" 2 "[zero_dimm, zero_dimm]"]
    by (auto simp: list_all_iff)
qed

text \<open> C30: \<open>struct nfit_interleave_set\<close> has room for twelve DIMMs. When the region mappings of a system
  address range name at most twelve distinct devices the set lists exactly these, each once; when
  they name more, the code writes behind its arrays.\<close>

theorem nfit_interleave_set_capacity:
  assumes "iset_room s" and "is_dimm_count s = 0"
  shows "if card (set (set_handles s (region_mapping_list p))) \<le> 12
     then \<exists>s' hs. populate_interleave_set_dimm_info s p = Some s' \<and> distinct hs \<and>
            set hs = set (set_handles s (region_mapping_list p)) \<and>
            is_dimm_count s' = length hs \<and> take (length hs) (is_dimms s') = hs
     else populate_interleave_set_dimm_info s p = None"
proof -
  let ?xs = "set_handles s (region_mapping_list p)"
  let ?hs = "firsts ?xs"
  have l: "length ?hs = card (set ?xs)" by (rule length_firsts)
  have e: "if length ?hs \<le> 12
     then \<exists>s'. populate_loop (region_mapping_list p) s = Some s' \<and> iset_room s' \<and>
            is_id s' = is_id s \<and> is_dimm_count s' = length ?hs \<and> take (length ?hs) (is_dimms s') = ?hs
     else populate_loop (region_mapping_list p) s = None"
    unfolding firsts_def
    by (rule populate_loop_eq [OF assms(1), of "[]" "is_dimms s" _ "region_mapping_list p", OF _ _ refl])
      (use assms(2) in simp_all)
  show ?thesis
  proof (cases "length ?hs \<le> 12")
    case True
    then obtain s' where "populate_loop (region_mapping_list p) s = Some s'"
      "is_dimm_count s' = length ?hs" "take (length ?hs) (is_dimms s') = ?hs" using e by auto
    then show ?thesis using True l
      by (auto simp: populate_interleave_set_dimm_info_def intro!: exI [of _ ?hs])
  next
    case False
    then show ?thesis using e l by (simp add: populate_interleave_set_dimm_info_def)
  qed
qed

theorem nfit_interleave_set_capacity_witness:
  "populate_interleave_set_dimm_info (zero_iset\<lparr>is_id := 5\<rparr>)
     (sample_nfit\<lparr>region_mapping_list := map (\<lambda>k. (dec_region_mapping [])\<lparr>rm_spa_index := 5,
        rm_handle := word_of_nat k\<rparr>) [0..<13]\<rparr>) = None"
proof -
  let ?p = "sample_nfit\<lparr>region_mapping_list := map (\<lambda>k. (dec_region_mapping [])\<lparr>rm_spa_index := 5,
        rm_handle := word_of_nat k\<rparr>) [0..<13]\<rparr>"
  let ?s = "zero_iset\<lparr>is_id := 5\<rparr>"
  have room: "iset_room ?s" "is_dimm_count ?s = 0"
    by (simp_all add: iset_room_def zero_iset_def NFIT_MAX_DIMMS_def)
  have "set_handles ?s (region_mapping_list ?p) = map word_of_nat [0..<13]"
    by (simp add: set_handles_def upt_rec zero_iset_def)
  moreover have "distinct (map word_of_nat [0..<13] :: u32 list)" by code_simp
  then have "card (set (map word_of_nat [0..<13] :: u32 list)) = 13"
    by (metis diff_zero distinct_card length_map length_upt)
  ultimately show ?thesis
    using nfit_interleave_set_capacity [OF room, of ?p] by simp
qed

end
