(* ===== verification/Nfit_Utilities.thy ===== *)
theory Nfit_Utilities
  imports Nfit_Dimms Nvm_Types
begin

text \<open>
  The native library's view of the NFIT: \<open>lib/nfit_utilities.c\<close>, and the NFIT slot of the library
  context that \<open>lib/nvm_context.c\<close> keeps (\<open>get_nvm_context_nfit_size\<close>, \<open>get_nvm_context_nfit\<close>,
  \<open>set_nvm_context_nfit\<close>, \<open>free_nfit\<close>). The context is \<open>None\<close> before \<open>nvm_create_context\<close>.
  \<open>alloc\<close>, \<open>chunk\<close> and \<open>table_file\<close> are the environment of the parser; \<open>lock\<close> and \<open>unlock\<close> are the
  results of the operations on the context mutex.
\<close>

unbundle bit_operations_syntax

section \<open>The NFIT slot of the context\<close>

record nfit_context =
  ctx_nfit_size :: int
  ctx_p_nfit :: "parsed_nfit ptr"

text \<open>\<open>sizeof (struct parsed_nfit)\<close>\<close>

definition PARSED_NFIT_SIZE :: nat where "PARSED_NFIT_SIZE = 152"

definition get_nvm_context_nfit_size :: "bool \<Rightarrow> bool \<Rightarrow> nfit_context option \<Rightarrow> int" where
  "get_nvm_context_nfit_size lock unlock ctx =
     (if \<not> lock then NVM_ERR_CONTEXT
      else if \<not> unlock then NVM_ERR_CONTEXT
      else (case ctx of
              Some c \<Rightarrow> if ctx_nfit_size c \<ge> 0 then ctx_nfit_size c else NVM_ERR_CONTEXT
            | None \<Rightarrow> NVM_ERR_CONTEXT))"

text \<open>The copy of the cached structure; a copy of part of it is not represented.\<close>

definition get_nvm_context_nfit ::
    "bool \<Rightarrow> bool \<Rightarrow> nfit_context option \<Rightarrow> int \<Rightarrow> parsed_nfit ptr \<Rightarrow>
     (int \<times> parsed_nfit ptr) option" where
  "get_nvm_context_nfit lock unlock ctx nfit_size p_nfit =
     (if nfit_size \<noteq> 0 \<and> p_nfit \<noteq> Null \<and> lock then do {
        (rc, p') \<leftarrow>
          (case ctx of
             None \<Rightarrow> Some (NVM_ERR_CONTEXT, p_nfit)
           | Some c \<Rightarrow>
               if ctx_nfit_size c > 0 \<and> ctx_p_nfit c \<noteq> Null \<and> nfit_size \<ge> ctx_nfit_size c then
                 (case ctx_p_nfit c of
                    Valid p \<Rightarrow> if ctx_nfit_size c = int PARSED_NFIT_SIZE
                              then Some (NVM_SUCCESS, Valid p) else None
                  | _ \<Rightarrow> None)
               else Some (NVM_ERR_CONTEXT, p_nfit));
        Some (if unlock then rc else NVM_ERR_CONTEXT, p') }
      else Some (NVM_ERR_CONTEXT, p_nfit))"

definition free_nfit :: "nfit_context \<Rightarrow> nfit_context option" where
  "free_nfit c =
     (if ctx_nfit_size c > 0 \<and> ctx_p_nfit c \<noteq> Null then do {
        _ \<leftarrow> free_parsed_nfit (ctx_p_nfit c);
        Some (c\<lparr>ctx_p_nfit := Null, ctx_nfit_size := -1\<rparr>) }
      else Some c)"

definition set_nvm_context_nfit ::
    "(nat \<Rightarrow> bool) \<Rightarrow> bool \<Rightarrow> bool \<Rightarrow> nfit_context option \<Rightarrow> int \<Rightarrow> parsed_nfit ptr \<Rightarrow>
     (int \<times> nfit_context option) option" where
  "set_nvm_context_nfit alloc lock unlock ctx nfit_size p_nfit =
     (if nfit_size \<noteq> 0 \<and> p_nfit \<noteq> Null \<and> lock then do {
        (rc, ctx') \<leftarrow>
          (case ctx of
             None \<Rightarrow> Some (NVM_ERR_CONTEXT, None)
           | Some c \<Rightarrow> do {
               c' \<leftarrow> free_nfit c;
               if \<not> alloc (size_cast nfit_size)
               then Some (NVM_ERR_NOMEMORY, Some (c'\<lparr>ctx_p_nfit := Null\<rparr>))
               else (case p_nfit of
                       Valid p \<Rightarrow>
                         if nfit_size = int PARSED_NFIT_SIZE
                         then Some (NVM_SUCCESS,
                           Some (c'\<lparr>ctx_p_nfit := Valid p, ctx_nfit_size := nfit_size\<rparr>))
                         else None
                     | _ \<Rightarrow> None) });
        Some (if unlock then rc else NVM_ERR_CONTEXT, ctx') }
      else Some (NVM_ERR_CONTEXT, ctx))"

section \<open>Errors and the cached table\<close>

definition nfit_err_to_lib_err :: "int \<Rightarrow> int" where
  "nfit_err_to_lib_err err =
     (if err = NFIT_SUCCESS then NVM_SUCCESS
      else if err = NFIT_ERR_NOMEMORY then NVM_ERR_NOMEMORY
      else NVM_ERR_BADNFIT)"

text \<open>
  \<open>get_parsed_nfit\<close>. On the path that reads the table, \<open>nfit_size\<close> holds the result code of
  \<open>nfit_get_parsed_nfit\<close>, 0 on success.
\<close>

definition get_parsed_nfit ::
    "(nat \<Rightarrow> bool) \<Rightarrow> nat \<Rightarrow> bytes option \<Rightarrow> bool \<Rightarrow> bool \<Rightarrow> nfit_context option \<Rightarrow> parsed_nfit ptr \<Rightarrow>
     (int \<times> parsed_nfit ptr \<times> nfit_context option) option" where
  "get_parsed_nfit alloc chunk table_file lock unlock ctx pp_parsed_nfit =
     (let nfit_size = get_nvm_context_nfit_size lock unlock ctx in
      if nfit_size > 0 then
        (if \<not> alloc (nat nfit_size) then Some (NVM_ERR_NOMEMORY, Null, ctx)
         else do {
           let zero = Valid \<lparr>pn_nfit = dec_nfit_header (replicate 40 0), spa_list = [],
             region_mapping_list = [], interleave_list = [], smbios_management_info_list = [],
             control_region_list = [], block_data_window_region_list = [],
             flush_hint_address_list = []\<rparr>;
           (rc, p) \<leftarrow> get_nvm_context_nfit lock unlock ctx nfit_size zero;
           Some (rc, p, ctx) })
      else do {
        (nfit_rc, p) \<leftarrow> nfit_get_parsed_nfit alloc chunk table_file pp_parsed_nfit;
        if nfit_rc \<noteq> 0 \<and> p \<noteq> Null then do {
          (rc, ctx') \<leftarrow> set_nvm_context_nfit alloc lock unlock ctx nfit_rc p;
          Some (rc, p, ctx') }
        else Some (nfit_err_to_lib_err nfit_rc, p, ctx) })"

section \<open>Topology\<close>

record nvm_topology =
  tp_device_handle :: u32
  tp_id :: u16
  tp_vendor_id :: u16
  tp_device_id :: u16
  tp_revision_id :: u16
  tp_subsystem_vendor_id :: u16
  tp_subsystem_device_id :: u16
  tp_subsystem_revision_id :: u16
  tp_manufacturing_info_valid :: u8
  tp_manufacturing_location :: u8
  tp_manufacturing_date :: u16
  tp_serial_number :: bytes
  tp_state_flags :: u16
  tp_fmt_interface_codes :: "u16 list"

definition NVM_MAX_IFCS_PER_DIMM :: nat where "NVM_MAX_IFCS_PER_DIMM = 9"

definition zero_topology :: nvm_topology where
  "zero_topology =
     \<lparr>tp_device_handle = 0, tp_id = 0, tp_vendor_id = 0, tp_device_id = 0, tp_revision_id = 0,
      tp_subsystem_vendor_id = 0, tp_subsystem_device_id = 0, tp_subsystem_revision_id = 0,
      tp_manufacturing_info_valid = 0, tp_manufacturing_location = 0, tp_manufacturing_date = 0,
      tp_serial_number = replicate 4 0, tp_state_flags = 0,
      tp_fmt_interface_codes = replicate NVM_MAX_IFCS_PER_DIMM 0\<rparr>"

text \<open>\<open>swap_bytes\<close> between two objects of type \<open>unsigned short\<close>.\<close>

definition swap_u16 :: "u16 \<Rightarrow> u16 \<Rightarrow> u16 option" where
  "swap_u16 dest src = map_option (\<lambda>b. fld b 0 2) (swap_bytes (le_bytes 2 (unat dest)) (le_bytes 2 (unat src)) 2)"

fun copy_ifc_loop :: "u16 list \<Rightarrow> u16 list \<Rightarrow> nat \<Rightarrow> nat \<Rightarrow> u16 list option" where
  "copy_ifc_loop dest src j 0 = Some dest"
| "copy_ifc_loop dest src j (Suc k) = do {
     c \<leftarrow> rd src j;
     dest' \<leftarrow> wr dest j c;
     copy_ifc_loop dest' src (Suc j) k }"

definition nfit_dimm_to_nvm_topology :: "nfit_dimm \<Rightarrow> nvm_topology \<Rightarrow> nvm_topology option" where
  "nfit_dimm_to_nvm_topology d t = do {
     vendor \<leftarrow> swap_u16 (tp_vendor_id t) (nd_vendor_id d);
     device \<leftarrow> swap_u16 (tp_device_id t) (nd_device_id d);
     sub_vendor \<leftarrow> swap_u16 (tp_subsystem_vendor_id t) (nd_subsystem_vendor_id d);
     sub_device \<leftarrow> swap_u16 (tp_subsystem_device_id t) (nd_subsystem_device_id d);
     loc \<leftarrow> swap_bytes [tp_manufacturing_location t] [nd_manufacturing_location d] 1;
     date \<leftarrow> swap_u16 (tp_manufacturing_date t) (nd_manufacturing_date d);
     ifcs \<leftarrow> copy_ifc_loop (tp_fmt_interface_codes t) (nd_ifc d) 0
               (min NFIT_MAX_IFC_COUNT NVM_MAX_IFCS_PER_DIMM);
     Some (t\<lparr>tp_device_handle := nd_handle d, tp_id := nd_physical_id d,
       tp_serial_number := le_bytes 4 (unat (nd_serial_number d)), tp_vendor_id := vendor,
       tp_device_id := device, tp_subsystem_vendor_id := sub_vendor,
       tp_subsystem_device_id := sub_device, tp_manufacturing_location := loc ! 0,
       tp_manufacturing_date := date, tp_revision_id := nd_revision_id d,
       tp_subsystem_revision_id := nd_subsystem_revision_id d,
       tp_manufacturing_info_valid := nd_valid_fields d, tp_fmt_interface_codes := ifcs\<rparr>) }"

definition get_topology_count_from_nfit ::
    "(nat \<Rightarrow> bool) \<Rightarrow> nat \<Rightarrow> bytes option \<Rightarrow> bool \<Rightarrow> bool \<Rightarrow> nfit_context option \<Rightarrow>
     (int \<times> nfit_context option) option" where
  "get_topology_count_from_nfit alloc chunk table_file lock unlock ctx = do {
     (rc, p_nfit, ctx') \<leftarrow> get_parsed_nfit alloc chunk table_file lock unlock ctx Null;
     if rc = NVM_SUCCESS then
       (case p_nfit of
          Null \<Rightarrow> Some (rc, ctx')
        | Dangling \<Rightarrow> None
        | Valid p \<Rightarrow> do {
            (topo_count, _) \<leftarrow> nfit_get_dimms_from_parsed_nfit alloc 0 None p;
            Some (if topo_count < 0 then nfit_err_to_lib_err topo_count else topo_count, ctx') })
     else Some (rc, ctx') }"

fun topology_loop :: "nfit_dimm list \<Rightarrow> nat \<Rightarrow> nat \<Rightarrow> nvm_topology list \<Rightarrow> nvm_topology list option" where
  "topology_loop nfit_dimms i 0 topo = Some topo"
| "topology_loop nfit_dimms i (Suc k) topo = do {
     d \<leftarrow> rd nfit_dimms i;
     t \<leftarrow> rd topo i;
     t' \<leftarrow> nfit_dimm_to_nvm_topology d t;
     topo' \<leftarrow> wr topo i t';
     topology_loop nfit_dimms (Suc i) k topo' }"

definition get_topology_from_nfit ::
    "(nat \<Rightarrow> bool) \<Rightarrow> nat \<Rightarrow> bytes option \<Rightarrow> bool \<Rightarrow> bool \<Rightarrow> nfit_context option \<Rightarrow> nat \<Rightarrow>
     nvm_topology list option \<Rightarrow> (int \<times> nvm_topology list option \<times> nfit_context option) option" where
  "get_topology_from_nfit alloc chunk table_file lock unlock ctx cnt p_dimm_topo =
     (case p_dimm_topo of
        None \<Rightarrow> Some (NVM_ERR_INVALIDPARAMETER, None, ctx)
      | Some topo \<Rightarrow>
          if cnt = 0 then Some (NVM_ERR_INVALIDPARAMETER, Some topo, ctx)
          else do {
            (rc, p_nfit, ctx1) \<leftarrow> get_parsed_nfit alloc chunk table_file lock unlock ctx Null;
            if rc = NVM_SUCCESS then
              (case p_nfit of
                 Null \<Rightarrow> Some (rc, Some topo, ctx1)
               | Dangling \<Rightarrow> None
               | Valid p \<Rightarrow> do {
                   (rc2, ctx2) \<leftarrow> get_topology_count_from_nfit alloc chunk table_file lock unlock ctx1;
                   if rc2 > 0 then
                     (if \<not> alloc (nat rc2 * 48) then None
                      else do {
                        (topo_count, dimms) \<leftarrow> nfit_get_dimms_from_parsed_nfit alloc rc2
                          (Some (replicate (nat rc2) zero_dimm)) p;
                        if topo_count < 0 then Some (nfit_err_to_lib_err topo_count, Some topo, ctx2)
                        else if int cnt < topo_count then Some (NVM_ERR_ARRAYTOOSMALL, Some topo, ctx2)
                        else if topo_count > 0 then do {
                          topo0 \<leftarrow> wr_bytes topo 0 (replicate cnt zero_topology);
                          nfit_dimms \<leftarrow> dimms;
                          topo' \<leftarrow> topology_loop nfit_dimms 0 (nat topo_count) topo0;
                          Some (topo_count, Some topo', ctx2) }
                        else Some (rc2, Some topo, ctx2) })
                   else Some (rc2, Some topo, ctx2) })
            else Some (rc, Some topo, ctx1) })"

section \<open>Interleave sets\<close>

record nvm_interleave_set =
  ni_id :: u8
  ni_socket_id :: u8
  ni_size :: u64
  ni_attributes :: u64
  ni_dimm_count :: u8
  ni_dimms :: "u32 list"
  ni_dimm_region_pdas :: "u64 list"
  ni_dimm_region_offsets :: "u64 list"
  ni_dimm_sizes :: "u64 list"

definition NVM_MAX_DEVICES_PER_SOCKET :: nat where "NVM_MAX_DEVICES_PER_SOCKET = 24"

definition zero_nvm_iset :: nvm_interleave_set where
  "zero_nvm_iset =
     \<lparr>ni_id = 0, ni_socket_id = 0, ni_size = 0, ni_attributes = 0, ni_dimm_count = 0,
      ni_dimms = replicate NVM_MAX_DEVICES_PER_SOCKET 0,
      ni_dimm_region_pdas = replicate NVM_MAX_DEVICES_PER_SOCKET 0,
      ni_dimm_region_offsets = replicate NVM_MAX_DEVICES_PER_SOCKET 0,
      ni_dimm_sizes = replicate NVM_MAX_DEVICES_PER_SOCKET 0\<rparr>"

definition get_interleave_set_count_from_nfit ::
    "(nat \<Rightarrow> bool) \<Rightarrow> nat \<Rightarrow> bytes option \<Rightarrow> bool \<Rightarrow> bool \<Rightarrow> nfit_context option \<Rightarrow>
     (int \<times> nfit_context option) option" where
  "get_interleave_set_count_from_nfit alloc chunk table_file lock unlock ctx = do {
     (rc, p_nfit, ctx') \<leftarrow> get_parsed_nfit alloc chunk table_file lock unlock ctx Null;
     if rc = NVM_SUCCESS then
       (case p_nfit of
          Null \<Rightarrow> Some (rc, ctx')
        | Dangling \<Rightarrow> None
        | Valid p \<Rightarrow> do {
            (cnt, _) \<leftarrow> nfit_get_interleave_sets_from_parsed_nfit 0 None p;
            Some (if cnt < 0 then nfit_err_to_lib_err cnt else cnt, ctx') })
     else Some (rc, ctx') }"

fun iset_dimm_loop ::
    "nfit_interleave_set \<Rightarrow> nat \<Rightarrow> nat \<Rightarrow> nvm_interleave_set \<Rightarrow> int \<Rightarrow> (int \<times> nvm_interleave_set) option"
  where
  "iset_dimm_loop p_nfit_iset i 0 s rc = Some (rc, s)"
| "iset_dimm_loop p_nfit_iset i (Suc k) s rc = do {
     h \<leftarrow> rd (is_dimms p_nfit_iset) i;
     a \<leftarrow> rd (is_dimm_region_pdas p_nfit_iset) i;
     b \<leftarrow> rd (is_dimm_region_offsets p_nfit_iset) i;
     z \<leftarrow> rd (is_dimm_sizes p_nfit_iset) i;
     h' \<leftarrow> wr (ni_dimms s) i h;
     a' \<leftarrow> wr (ni_dimm_region_pdas s) i a;
     b' \<leftarrow> wr (ni_dimm_region_offsets s) i b;
     z' \<leftarrow> wr (ni_dimm_sizes s) i z;
     iset_dimm_loop p_nfit_iset (Suc i) k
       (s\<lparr>ni_dimms := h', ni_dimm_region_pdas := a', ni_dimm_region_offsets := b', ni_dimm_sizes := z'\<rparr>)
       (if ucast (ni_socket_id s) \<noteq> handle_socket_id h then NVM_ERR_INTERLEAVESET else rc) }"

definition nfit_iset_to_nvm_iset ::
    "nfit_interleave_set \<Rightarrow> nvm_interleave_set \<Rightarrow> (int \<times> nvm_interleave_set) option" where
  "nfit_iset_to_nvm_iset p_nfit_iset p_nvm_iset =
     (let s = p_nvm_iset\<lparr>ni_id := ucast (is_id p_nfit_iset), ni_size := is_size p_nfit_iset,
                ni_attributes := is_attributes p_nfit_iset,
                ni_dimm_count := word_of_nat (is_dimm_count p_nfit_iset)\<rparr>
      in do {
        s' \<leftarrow> (if ni_dimm_count s > 0 then do {
                 h \<leftarrow> rd (is_dimms p_nfit_iset) 0;
                 Some (s\<lparr>ni_socket_id := ucast (handle_socket_id h)\<rparr>) }
               else Some s);
        iset_dimm_loop p_nfit_iset 0 (unat (ni_dimm_count s')) s' NVM_SUCCESS })"

fun iset_conv_loop ::
    "nfit_interleave_set list \<Rightarrow> nat \<Rightarrow> nat \<Rightarrow> nvm_interleave_set list \<Rightarrow> int \<Rightarrow>
     (int \<times> nvm_interleave_set list) option" where
  "iset_conv_loop nfit_isets i 0 sets rc = Some (rc, sets)"
| "iset_conv_loop nfit_isets i (Suc k) sets rc = do {
     x \<leftarrow> rd nfit_isets i;
     s \<leftarrow> rd sets i;
     (rc', s') \<leftarrow> nfit_iset_to_nvm_iset x s;
     sets' \<leftarrow> wr sets i s';
     if rc' \<noteq> NVM_SUCCESS then Some (rc', sets')
     else iset_conv_loop nfit_isets (Suc i) k sets' rc' }"

definition get_interleave_sets_from_nfit ::
    "(nat \<Rightarrow> bool) \<Rightarrow> nat \<Rightarrow> bytes option \<Rightarrow> bool \<Rightarrow> bool \<Rightarrow> nfit_context option \<Rightarrow> nat \<Rightarrow>
     nvm_interleave_set list option \<Rightarrow>
     (int \<times> nvm_interleave_set list option \<times> nfit_context option) option" where
  "get_interleave_sets_from_nfit alloc chunk table_file lock unlock ctx cnt p_interleaves =
     (case p_interleaves of
        None \<Rightarrow> Some (NVM_ERR_INVALIDPARAMETER, None, ctx)
      | Some sets \<Rightarrow>
          if cnt = 0 then Some (NVM_ERR_INVALIDPARAMETER, Some sets, ctx)
          else do {
            (rc, p_nfit, ctx1) \<leftarrow> get_parsed_nfit alloc chunk table_file lock unlock ctx Null;
            if rc = NVM_SUCCESS then
              (case p_nfit of
                 Null \<Rightarrow> Some (rc, Some sets, ctx1)
               | Dangling \<Rightarrow> None
               | Valid p \<Rightarrow> do {
                   (rc2, ctx2) \<leftarrow>
                     get_interleave_set_count_from_nfit alloc chunk table_file lock unlock ctx1;
                   if rc2 > 0 then
                     (if \<not> alloc (nat rc2 * 376) then None
                      else do {
                        (set_count, isets) \<leftarrow> nfit_get_interleave_sets_from_parsed_nfit rc2
                          (Some (replicate (nat rc2) zero_iset)) p;
                        if set_count < 0 then Some (nfit_err_to_lib_err set_count, Some sets, ctx2)
                        else if int cnt < set_count then Some (NVM_ERR_ARRAYTOOSMALL, Some sets, ctx2)
                        else if set_count > 0 then do {
                          sets0 \<leftarrow> wr_bytes sets 0 (replicate cnt zero_nvm_iset);
                          nfit_isets \<leftarrow> isets;
                          (rc3, sets') \<leftarrow> iset_conv_loop nfit_isets 0 (nat set_count) sets0 set_count;
                          Some (if rc3 = NVM_SUCCESS then set_count else rc3, Some sets', ctx2) }
                        else Some (rc2, Some sets, ctx2) })
                   else Some (rc2, Some sets, ctx2) })
            else Some (rc, Some sets, ctx1) })"

section \<open>Result codes of the parser\<close>

lemma add_extension_table_code:
  "add_extension_table alloc t p b off = Some (r, p') \<Longrightarrow> r = NFIT_SUCCESS \<or> r = NFIT_ERR_NOMEMORY"
  by (auto simp: add_extension_table_def add_spa_to_parsed_nfit_def
      add_region_mapping_to_parsed_nfit_def add_interleave_to_parsed_nfit_def
      add_smbios_management_info_to_parsed_nfit_def add_control_region_to_parsed_nfit_def
      add_block_data_window_region_to_parsed_nfit_def add_flush_hint_address_to_parsed_nfit_def
      bind_eq_Some_conv split: if_splits)

lemma nfit_ext_loop_code:
  "nfit_ext_loop alloc b n off p = Some (r, p') \<Longrightarrow> -5 \<le> r \<and> r \<le> 0"
proof (induction alloc b n off p rule: nfit_ext_loop.induct)
  case (1 alloc b n off p)
  show ?case
  proof (cases "off < n")
    case False
    then show ?thesis using 1(2) by (simp add: nfit_ext_loop.simps [of alloc b n off p])
  next
    case True
    obtain t len where t: "rd b off = Some t" "rd b (off + 2) = Some len"
      using 1(2) True by (auto simp: nfit_ext_loop.simps [of alloc b n off p] bind_eq_Some_conv)
    show ?thesis
    proof (cases "len = 0 \<or> unat len + off > n")
      case bad: True
      then show ?thesis using 1(2) True t by (simp add: nfit_ext_loop.simps [of alloc b n off p])
    next
      case good: False
      obtain r1 p1 where a: "add_extension_table alloc (unat t) p b off = Some (r1, p1)"
        using 1(2) True t good
        by (auto simp: nfit_ext_loop.simps [of alloc b n off p] bind_eq_Some_conv)
      show ?thesis
      proof (cases "r1 = NFIT_SUCCESS")
        case r: True
        then have "nfit_ext_loop alloc b n (off + unat len) p1 = Some (r, p')"
          using 1(2) True t good a by (simp add: nfit_ext_loop.simps [of alloc b n off p])
        then show ?thesis using 1(1) [OF True t good a refl r] by simp
      next
        case r: False
        then have "r = r1"
          using 1(2) True t good a by (simp add: nfit_ext_loop.simps [of alloc b n off p])
        then show ?thesis using add_extension_table_code [OF a] r by auto
      qed
    qed
  qed
qed

lemma nfit_parse_code:
  "nfit_parse_raw_nfit alloc b n pp = Some (r, p) \<Longrightarrow> -5 \<le> r \<and> r \<le> 0"
  by (auto simp: nfit_parse_raw_nfit_def Let_def bind_eq_Some_conv free_parsed_nfit_def
      dest!: nfit_ext_loop_code split: option.splits if_splits prod.splits)

lemma acpi_error_code: "-5 \<le> acpi_error_to_nfit_error e \<and> acpi_error_to_nfit_error e \<le> 0"
  by (simp add: acpi_error_to_nfit_error_def)

lemma nfit_get_parsed_code:
  "nfit_get_parsed_nfit alloc chunk f pp = Some (r, p) \<Longrightarrow> -5 \<le> r \<and> r \<le> 0"
  using acpi_error_code
  by (auto simp: nfit_get_parsed_nfit_def Let_def bind_eq_Some_conv
      dest!: nfit_parse_code split: if_splits prod.splits)

lemma size_cast_negative: "-5 \<le> i \<Longrightarrow> i < 0 \<Longrightarrow> 2 ^ 63 \<le> size_cast i"
proof -
  assume a: "-5 \<le> i" "i < 0"
  have "i mod 2 ^ 64 = (i + 2 ^ 64) mod 2 ^ 64" by simp
  also have "\<dots> = i + 2 ^ 64" using a by (intro mod_pos_pos_trivial) auto
  finally show ?thesis using a by (simp add: size_cast_def nat_le_iff)
qed

section \<open>Converting a DIMM\<close>

lemma swap_u16_eq: "swap_u16 d s = Some (word_of_nat (unat s div 256 + 256 * (unat s mod 256)))"
proof -
  have s: "unat s < 65536" using unsigned_less [of s] by simp
  have "unat s div 256 mod 256 = unat s div 256" using s by simp
  then have l: "le_bytes 2 (unat s) = [word_of_nat (unat s mod 256), word_of_nat (unat s div 256)]"
    by (simp add: numeral_2_eq_2)
  have u: "unat (word_of_nat (unat s div 256) :: u8) = unat s div 256"
    using unat_byte_of_nat [of "unat s div 256"] s by simp
  have "swap_bytes (le_bytes 2 (unat d)) (le_bytes 2 (unat s)) 2 =
      Some [word_of_nat (unat s div 256), word_of_nat (unat s mod 256)]"
    using swap_bytes_eq [of 2 "le_bytes 2 (unat s)" "le_bytes 2 (unat d)"] l by simp
  then show ?thesis
    unfolding swap_u16_def option.map fld_def by (simp add: u del: of_nat_add)
qed

lemma copy_ifc_loop_eq:
  "j + k \<le> length d \<Longrightarrow> j + k \<le> length s \<Longrightarrow>
   copy_ifc_loop d s j k = Some (take j d @ take k (drop j s) @ drop (j + k) d)"
proof (induction k arbitrary: j d)
  case 0
  then show ?case by simp
next
  case (Suc k)
  let ?d = "d[j := s ! j]"
  have "copy_ifc_loop ?d s (Suc j) k =
      Some (take (Suc j) ?d @ take k (drop (Suc j) s) @ drop (Suc j + k) ?d)"
    by (rule Suc.IH) (use Suc.prems in auto)
  moreover have "take (Suc j) ?d = take j d @ [s ! j]" using Suc.prems by (simp add: take_Suc_conv_app_nth)
  moreover have "take (Suc k) (drop j s) = s ! j # take k (drop (Suc j) s)"
    using Suc.prems by (simp add: Cons_nth_drop_Suc [symmetric])
  ultimately show ?case using Suc.prems by (simp add: rd_in wr_in)
qed

section \<open>Properties\<close>

text \<open> On a context whose NFIT slot is empty, \<open>get_parsed_nfit\<close> never fills the slot, whatever the
  table: every call reads and parses the table again. When the parser has rejected the table and
  freed its structure, the call reports a lack of memory instead of a bad NFIT.\<close>

theorem nfit_cache_never_filled:
  assumes "\<forall>n. 2 ^ 63 \<le> n \<longrightarrow> \<not> alloc n" and "ctx_nfit_size c = -1" and "ctx_p_nfit c = Null"
  shows "get_parsed_nfit alloc chunk table_file True True (Some c) pp =
     map_option (\<lambda>(rc, p). (if rc \<noteq> NFIT_SUCCESS \<and> p \<noteq> Null then NVM_ERR_NOMEMORY
                              else nfit_err_to_lib_err rc, p, Some c))
       (nfit_get_parsed_nfit alloc chunk table_file pp)"
proof -
  have sz: "\<not> get_nvm_context_nfit_size True True (Some c) > 0"
    using assms(2) by (simp add: get_nvm_context_nfit_size_def)
  have fr: "free_nfit c = Some c" using assms(2) by (simp add: free_nfit_def)
  have c: "c\<lparr>ctx_p_nfit := Null\<rparr> = c" using assms(3) by (cases c) simp
  show ?thesis
  proof (cases "nfit_get_parsed_nfit alloc chunk table_file pp")
    case None
    then show ?thesis using sz by (simp add: get_parsed_nfit_def Let_def)
  next
    case (Some rp)
    obtain rc p where rp: "rp = (rc, p)" by (cases rp)
    have "-5 \<le> rc \<and> rc \<le> 0" using nfit_get_parsed_code Some rp by blast
    then have "rc \<noteq> 0 \<Longrightarrow> \<not> alloc (size_cast rc)"
      using size_cast_negative [of rc] assms(1) by simp
    then have "rc \<noteq> 0 \<Longrightarrow> p \<noteq> Null \<Longrightarrow>
        set_nvm_context_nfit alloc True True (Some c) rc p = Some (NVM_ERR_NOMEMORY, Some c)"
      using fr c by (simp add: set_nvm_context_nfit_def)
    then show ?thesis using sz Some rp by (simp add: get_parsed_nfit_def Let_def)
  qed
qed

theorem nfit_cache_never_filled_witness:
  "get_parsed_nfit (\<lambda>n. n < 1000) 4096 None True True
     (Some \<lparr>ctx_nfit_size = -1, ctx_p_nfit = Null\<rparr>) Null =
     Some (NVM_ERR_BADNFIT, Null, Some \<lparr>ctx_nfit_size = -1, ctx_p_nfit = Null\<rparr>)"
proof -
  have "nfit_get_parsed_nfit (\<lambda>n. n < 1000) 4096 None Null = Some (NFIT_ERR_TABLENOTFOUND, Null)"
    by (simp add: nfit_get_parsed_nfit_def get_acpi_table_def acpi_error_to_nfit_error_def)
  then show ?thesis
    using nfit_cache_never_filled [of "\<lambda>n. n < 1000" "\<lparr>ctx_nfit_size = -1, ctx_p_nfit = Null\<rparr>"
        4096 None Null]
    by (simp add: nfit_err_to_lib_err_def)
qed

text \<open> The conversion of a DIMM copies the handle, the physical id, the serial number and the
  interface codes and swaps the bytes of the JEDEC identifiers, but it does not transfer the state
  flags: the topology entry keeps whatever flags it had.\<close>

theorem nfit_dimm_to_topology_correct:
  assumes "length (nd_ifc d) = 9" and "length (tp_fmt_interface_codes t) = 9"
  shows "\<exists>t'. nfit_dimm_to_nvm_topology d t = Some t' \<and> tp_device_handle t' = nd_handle d \<and>
     tp_id t' = nd_physical_id d \<and> fld (tp_serial_number t') 0 4 = nd_serial_number d \<and>
     tp_fmt_interface_codes t' = nd_ifc d \<and>
     unat (tp_vendor_id t') = unat (nd_vendor_id d) div 256 + 256 * (unat (nd_vendor_id d) mod 256) \<and>
     unat (tp_device_id t') = unat (nd_device_id d) div 256 + 256 * (unat (nd_device_id d) mod 256) \<and>
     tp_state_flags t' = tp_state_flags t"
proof -
  have i: "copy_ifc_loop (tp_fmt_interface_codes t) (nd_ifc d) 0 (min NFIT_MAX_IFC_COUNT NVM_MAX_IFCS_PER_DIMM) =
      Some (nd_ifc d)"
    using copy_ifc_loop_eq [of 0 9 "tp_fmt_interface_codes t" "nd_ifc d"] assms
    by (simp add: NFIT_MAX_IFC_COUNT_def NVM_MAX_IFCS_PER_DIMM_def)
  have l: "swap_bytes [a] [b] 1 = Some [b]" for a b :: u8
    using swap_bytes_eq [of 1 "[b]" "[a]"] by simp
  have u: "unat (word_of_nat (unat s div 256 + 256 * (unat s mod 256)) :: u16) =
      unat s div 256 + 256 * (unat s mod 256)" for s :: u16
  proof -
    have "unat s < 65536" using unsigned_less [of s] by simp
    then have "unat s div 256 + 256 * (unat s mod 256) < 65536" by auto
    then show ?thesis by (simp only: unsigned_of_nat take_bit_nat_eq_self) (simp add: take_bit_nat_eq_self)
  qed
  have s: "fld (le_bytes 4 (unat x)) 0 4 = x" for x :: u32
  proof -
    have "unat x < 4294967296" using unsigned_less [of x] by simp
    then show ?thesis by (simp add: fld_def)
  qed
  show ?thesis
    unfolding nfit_dimm_to_nvm_topology_def swap_u16_eq i l bind.bind_lunit
    by (simp add: u s del: of_nat_add)
qed

theorem nfit_dimm_to_topology_correct_witness:
  "\<exists>t'. nfit_dimm_to_nvm_topology (zero_dimm\<lparr>nd_vendor_id := 0x8980, nd_state_flags := 32\<rparr>)
     zero_topology = Some t' \<and> unat (tp_vendor_id t') = 0x8089 \<and> tp_state_flags t' = 0"
  using nfit_dimm_to_topology_correct [of "zero_dimm\<lparr>nd_vendor_id := 0x8980, nd_state_flags := 32\<rparr>"
      zero_topology]
  by (auto simp: zero_dimm_def zero_topology_def NFIT_MAX_IFC_COUNT_def NVM_MAX_IFCS_PER_DIMM_def)

definition nvm_iset_room :: "nvm_interleave_set \<Rightarrow> bool" where
  "nvm_iset_room s \<longleftrightarrow> length (ni_dimms s) = 24 \<and> length (ni_dimm_region_pdas s) = 24 \<and>
     length (ni_dimm_region_offsets s) = 24 \<and> length (ni_dimm_sizes s) = 24"

lemma iset_dimm_loop_eq:
  assumes "iset_room x" and "nvm_iset_room s" and "i + k \<le> 12"
  shows "\<exists>s'. iset_dimm_loop x i k s rc =
       Some (if list_all (\<lambda>h. handle_socket_id h = ucast (ni_socket_id s)) (take k (drop i (is_dimms x)))
             then rc else NVM_ERR_INTERLEAVESET, s') \<and>
     take (i + k) (ni_dimms s') = take i (ni_dimms s) @ take k (drop i (is_dimms x)) \<and>
     ni_id s' = ni_id s \<and> ni_dimm_count s' = ni_dimm_count s \<and> ni_size s' = ni_size s"
  using assms(2,3)
proof (induction k arbitrary: i s rc)
  case 0
  then show ?case by simp
next
  case (Suc k)
  have i: "i < 12" using Suc.prems by simp
  let ?s = "s\<lparr>ni_dimms := (ni_dimms s)[i := is_dimms x ! i],
      ni_dimm_region_pdas := (ni_dimm_region_pdas s)[i := is_dimm_region_pdas x ! i],
      ni_dimm_region_offsets := (ni_dimm_region_offsets s)[i := is_dimm_region_offsets x ! i],
      ni_dimm_sizes := (ni_dimm_sizes s)[i := is_dimm_sizes x ! i]\<rparr>"
  let ?rc = "if ucast (ni_socket_id s) \<noteq> handle_socket_id (is_dimms x ! i) then NVM_ERR_INTERLEAVESET else rc"
  have e: "iset_dimm_loop x i (Suc k) s rc = iset_dimm_loop x (Suc i) k ?s ?rc"
    using i assms(1) Suc.prems(1) by (simp add: iset_room_def nvm_iset_room_def rd_in wr_in)
  have room: "nvm_iset_room ?s" using Suc.prems(1) by (simp add: nvm_iset_room_def)
  have d: "take (Suc k) (drop i (is_dimms x)) = is_dimms x ! i # take k (drop (Suc i) (is_dimms x))"
    using i assms(1) by (simp add: iset_room_def Cons_nth_drop_Suc [symmetric])
  have t: "take (Suc i) (ni_dimms ?s) = take i (ni_dimms s) @ [is_dimms x ! i]"
    using i Suc.prems(1) by (simp add: nvm_iset_room_def take_Suc_conv_app_nth)
  obtain s' where s': "iset_dimm_loop x (Suc i) k ?s ?rc =
       Some (if list_all (\<lambda>h. handle_socket_id h = ucast (ni_socket_id ?s)) (take k (drop (Suc i) (is_dimms x)))
             then ?rc else NVM_ERR_INTERLEAVESET, s')"
     "take (Suc i + k) (ni_dimms s') = take (Suc i) (ni_dimms ?s) @ take k (drop (Suc i) (is_dimms x))"
     "ni_id s' = ni_id ?s" "ni_dimm_count s' = ni_dimm_count ?s" "ni_size s' = ni_size ?s"
    using Suc.IH [OF room, of "Suc i" ?rc] Suc.prems(2) by auto
  have "take (i + Suc k) (ni_dimms s') = take i (ni_dimms s) @ take (Suc k) (drop i (is_dimms x))"
    using s'(2) t d by simp
  then show ?case using e s'(1,3-5) d by auto
qed

lemma socket_id_byte: "(ucast (ucast (handle_socket_id h) :: u8) :: u32) = handle_socket_id h"
  unfolding handle_socket_id_def
  by (rule bit_word_eqI) (auto simp: bit_simps bit_numeral_rec numeral_eq_Suc less_Suc_eq)

text \<open> An interleave set of the NFIT is converted without leaving its arrays, and the conversion
  fails with \<open>NVM_ERR_INTERLEAVESET\<close> exactly when two of its DIMMs are on different sockets.\<close>

theorem nfit_iset_conversion_correct:
  assumes "iset_room x" and "nvm_iset_room s" and "is_dimm_count x \<le> 12"
  defines "hs \<equiv> take (is_dimm_count x) (is_dimms x)"
  shows "\<exists>s'. nfit_iset_to_nvm_iset x s =
       Some (if \<forall>a \<in> set hs. \<forall>b \<in> set hs. handle_socket_id a = handle_socket_id b
             then NVM_SUCCESS else NVM_ERR_INTERLEAVESET, s') \<and>
     unat (ni_dimm_count s') = length hs \<and> take (length hs) (ni_dimms s') = hs \<and>
     ni_size s' = is_size x"
proof -
  let ?n = "is_dimm_count x"
  have n: "unat (word_of_nat ?n :: u8) = ?n" using assms(3) unat_byte_of_nat [of ?n] by simp
  have lh: "length hs = ?n" using assms(1,3) by (simp add: hs_def iset_room_def)
  let ?s = "s\<lparr>ni_id := ucast (is_id x), ni_size := is_size x, ni_attributes := is_attributes x,
      ni_dimm_count := word_of_nat ?n\<rparr>"
  show ?thesis
  proof (cases "?n = 0")
    case True
    then show ?thesis by (simp add: nfit_iset_to_nvm_iset_def Let_def hs_def)
  next
    case False
    then have "(word_of_nat ?n :: u8) \<noteq> 0" using n by (metis unsigned_0)
    then have pos: "ni_dimm_count ?s > 0" by (simp add: word_greater_zero_iff)
    obtain h hs' where hs: "hs = h # hs'" using lh False by (cases hs) auto
    have r: "rd (is_dimms x) 0 = Some h"
    proof -
      have "0 < length (is_dimms x)" using assms(1) by (simp add: iset_room_def)
      moreover have "is_dimms x ! 0 = h" using hs False by (metis hs_def nth_Cons_0 nth_take gr0I)
      ultimately show ?thesis by (simp add: rd_in)
    qed
    let ?t = "?s\<lparr>ni_socket_id := ucast (handle_socket_id h)\<rparr>"
    have room: "nvm_iset_room ?t" using assms(2) by (simp add: nvm_iset_room_def)
    have cnt: "unat (ni_dimm_count ?t) = ?n" using n by simp
    have e: "nfit_iset_to_nvm_iset x s = iset_dimm_loop x 0 ?n ?t NVM_SUCCESS"
      using pos r cnt by (simp add: nfit_iset_to_nvm_iset_def Let_def)
    have all: "list_all (\<lambda>a. handle_socket_id a = handle_socket_id h) hs \<longleftrightarrow>
        (\<forall>a \<in> set hs. \<forall>b \<in> set hs. handle_socket_id a = handle_socket_id b)"
      by (auto simp: hs list_all_iff)
    show ?thesis
      using iset_dimm_loop_eq [OF assms(1) room, of 0 ?n NVM_SUCCESS] assms(3) cnt
      unfolding e all [symmetric] lh by (auto simp: socket_id_byte hs_def [symmetric])
  qed
qed

theorem nfit_iset_conversion_correct_witness:
  "\<exists>s'. nfit_iset_to_nvm_iset (zero_iset\<lparr>is_dimm_count := 2, is_dimms := [0x1000, 0x2000] @ replicate 10 0\<rparr>)
     zero_nvm_iset = Some (NVM_ERR_INTERLEAVESET, s')"
proof -
  let ?x = "zero_iset\<lparr>is_dimm_count := 2, is_dimms := [0x1000, 0x2000] @ replicate 10 0\<rparr>"
  have "iset_room ?x" "nvm_iset_room zero_nvm_iset"
    by (simp_all add: iset_room_def nvm_iset_room_def zero_iset_def zero_nvm_iset_def
        NFIT_MAX_DIMMS_def NVM_MAX_DEVICES_PER_SOCKET_def)
  moreover have "handle_socket_id 0x1000 \<noteq> handle_socket_id 0x2000" by code_simp
  ultimately show ?thesis
    using nfit_iset_conversion_correct [of ?x zero_nvm_iset] by auto
qed

end
