(* ===== verification/Nvm_Context.thy ===== *)
theory Nvm_Context
  imports Nfit_Utilities
begin

text \<open>
  The library context of \<open>lib/nvm_context.c\<close>: one heap object per process, counted by
  \<open>g_ctx_count\<close>, that caches capabilities, devices (discovery, details and PCD), pools, namespaces and
  the NFIT. Each operation takes the context lock; the results of the lock operations and of the
  allocations of a call (numbered in the order of the call) are its environment. Structures that the
  context only copies are their bytes; of those it looks into, the fields it reads are named. \<open>None\<close> is
  an access to a null pointer or past an array.
\<close>

section \<open>State\<close>

definition NVM_UID_LEN :: nat where "NVM_UID_LEN = 37"
definition NVM_NAMESPACE_NAME_LEN :: nat where "NVM_NAMESPACE_NAME_LEN = 64"

record device_discovery =
  disc_uid :: bytes
  disc_handle :: u32
  disc_manageability :: nat
  disc_rest :: bytes

record nvm_device_context =
  dev_uid :: bytes
  p_device_discovery :: "device_discovery option"
  p_device_details :: "bytes option"
  dev_pcd_size :: nat
  p_pcd :: "bytes option"

record pool =
  pool_uid :: bytes
  pool_rest :: bytes

record namespace_discovery =
  namespace_uid :: bytes
  friendly_name :: bytes

text \<open>\<open>struct nvm_namespace_details\<close>; the enumerations are their numbers.\<close>

record nvm_namespace_details =
  ns_discovery :: namespace_discovery
  ns_block_size :: u32
  ns_block_count :: u64
  ns_type :: nat
  ns_health :: nat
  ns_enabled :: nat
  ns_btt :: bool
  ns_creation_id :: u32
  ns_memory_page_allocation :: nat
  ns_nlabels :: u16
  ns_label_sum :: u32

record nvm_namespace_context =
  nsc_uid :: bytes
  p_namespace_discovery :: "namespace_discovery option"
  p_namespace_details :: "bytes option"

record nvm_context =
  p_capabilities :: "bytes option"
  device_count :: int
  p_devices :: "nvm_device_context list option"
  pool_count :: int
  p_pools :: "pool list option"
  namespace_count :: int
  p_namespaces :: "nvm_namespace_context list option"
  pcd_namespace_count :: int
  p_pcd_namespaces :: "nvm_namespace_details list option"
  nfit :: nfit_context

record process =
  p_context :: "nvm_context option"
  g_ctx_count :: int

record context_env =
  lock_ok :: bool
  unlock_ok :: bool
  alloc_ok :: "nat \<Rightarrow> bool"

text \<open>\<open>-1\<close> as an \<open>NVM_SIZE\<close>\<close>

definition NO_SIZE :: nat where "NO_SIZE = 2 ^ 64 - 1"

definition locked :: "context_env \<Rightarrow> 's \<Rightarrow> ('s \<Rightarrow> (int \<times> 's) option) \<Rightarrow> (int \<times> 's) option" where
  "locked e s body =
     (if \<not> lock_ok e then Some (NVM_ERR_CONTEXT, s)
      else do {
        (rc, s') \<leftarrow> body s;
        Some (if unlock_ok e then rc else NVM_ERR_CONTEXT, s') })"

section \<open>Life cycle\<close>

definition new_context :: nvm_context where
  "new_context = \<lparr>p_capabilities = None, device_count = -1, p_devices = None, pool_count = -1,
     p_pools = None, namespace_count = -1, p_namespaces = None, pcd_namespace_count = -1,
     p_pcd_namespaces = None, nfit = \<lparr>ctx_nfit_size = -1, ctx_p_nfit = Null\<rparr>\<rparr>"

definition nvm_create_context :: "context_env \<Rightarrow> process \<Rightarrow> (int \<times> process) option" where
  "nvm_create_context e s = locked e s (\<lambda>s.
     case p_context s of
       Some _ \<Rightarrow> Some (NVM_SUCCESS, s\<lparr>g_ctx_count := g_ctx_count s + 1\<rparr>)
     | None \<Rightarrow>
         if \<not> alloc_ok e 0 then Some (NVM_ERR_NOMEMORY, s)
         else Some (NVM_SUCCESS, s\<lparr>g_ctx_count := 1, p_context := Some new_context\<rparr>))"

text \<open>The helpers that free the lists; their loops visit the first \<open>count\<close> entries of the array.\<close>

definition free_device_list :: "nvm_context \<Rightarrow> nvm_context option" where
  "free_device_list c =
     (case p_devices c of
        Some ds \<Rightarrow>
          if device_count c > 0 then
            if nat (device_count c) \<le> length ds
            then Some (c\<lparr>p_devices := None, device_count := -1\<rparr>) else None
          else Some c
      | None \<Rightarrow> Some c)"

definition free_pool_list :: "nvm_context \<Rightarrow> nvm_context" where
  "free_pool_list c =
     (if pool_count c > 0 \<and> p_pools c \<noteq> None then c\<lparr>p_pools := None, pool_count := -1\<rparr> else c)"

definition free_namespace_list :: "nvm_context \<Rightarrow> nvm_context option" where
  "free_namespace_list c =
     (case p_namespaces c of
        Some ns \<Rightarrow>
          if namespace_count c > 0 then
            if nat (namespace_count c) \<le> length ns
            then Some (c\<lparr>p_namespaces := None, namespace_count := -1\<rparr>) else None
          else Some c
      | None \<Rightarrow> Some c)"

definition free_pcd_namespace_list :: "nvm_context \<Rightarrow> nvm_context" where
  "free_pcd_namespace_list c =
     (if pcd_namespace_count c > 0 \<and> p_pcd_namespaces c \<noteq> None
      then c\<lparr>p_pcd_namespaces := None, pcd_namespace_count := -1\<rparr> else c)"

definition nvm_free_context :: "context_env \<Rightarrow> bool \<Rightarrow> process \<Rightarrow> (int \<times> process) option" where
  "nvm_free_context e force s = locked e s (\<lambda>s.
     case p_context s of
       None \<Rightarrow> Some (NVM_SUCCESS, s)
     | Some c \<Rightarrow>
         let count = (if force then 0 else g_ctx_count s - 1) in
         if count \<le> 0 then do {
           c1 \<leftarrow> free_device_list (c\<lparr>p_capabilities := None\<rparr>);
           c2 \<leftarrow> free_namespace_list (free_pool_list c1);
           _ \<leftarrow> free_nfit (nfit (free_pcd_namespace_list c2));
           Some (NVM_SUCCESS, s\<lparr>g_ctx_count := 0, p_context := None\<rparr>) }
         else Some (NVM_SUCCESS, s\<lparr>g_ctx_count := count\<rparr>))"

text \<open>An operation on the context, \<open>NVM_ERR_CONTEXT\<close> when there is none.\<close>

definition on_context ::
    "context_env \<Rightarrow> process \<Rightarrow> (nvm_context \<Rightarrow> (int \<times> nvm_context) option) \<Rightarrow> (int \<times> process) option" where
  "on_context e s body = locked e s (\<lambda>s.
     case p_context s of
       None \<Rightarrow> Some (NVM_ERR_CONTEXT, s)
     | Some c \<Rightarrow> do { (rc, c') \<leftarrow> body c; Some (rc, s\<lparr>p_context := Some c'\<rparr>) })"

text \<open>A getter leaves the context alone and returns, besides the code, the caller's buffer.\<close>

definition from_context ::
    "context_env \<Rightarrow> process \<Rightarrow> 'b \<Rightarrow> (nvm_context \<Rightarrow> (int \<times> 'b) option) \<Rightarrow> (int \<times> 'b) option" where
  "from_context e s buf body =
     (if \<not> lock_ok e then Some (NVM_ERR_CONTEXT, buf)
      else do {
        (rc, buf') \<leftarrow> (case p_context s of None \<Rightarrow> Some (NVM_ERR_CONTEXT, buf) | Some c \<Rightarrow> body c);
        Some (if unlock_ok e then rc else NVM_ERR_CONTEXT, buf') })"

section \<open>Capabilities\<close>

definition get_nvm_context_capabilities :: "context_env \<Rightarrow> process \<Rightarrow> bytes \<Rightarrow> (int \<times> bytes) option" where
  "get_nvm_context_capabilities e s buf = from_context e s buf (\<lambda>c.
     case p_capabilities c of
       Some b \<Rightarrow> Some (NVM_SUCCESS, b)
     | None \<Rightarrow> Some (NVM_ERR_CONTEXT, buf))"

definition set_nvm_context_capabilities :: "context_env \<Rightarrow> bytes \<Rightarrow> process \<Rightarrow> (int \<times> process) option" where
  "set_nvm_context_capabilities e caps s = on_context e s (\<lambda>c.
     if alloc_ok e 0 then Some (NVM_SUCCESS, c\<lparr>p_capabilities := Some caps\<rparr>)
     else Some (NVM_ERR_CONTEXT, c\<lparr>p_capabilities := None\<rparr>))"

section \<open>Search by UID\<close>

text \<open>The first index below \<open>count\<close> whose entry has the UID.\<close>

function uid_find :: "('a \<Rightarrow> bytes) \<Rightarrow> bytes \<Rightarrow> 'a list \<Rightarrow> nat \<Rightarrow> nat \<Rightarrow> nat option option" where
  "uid_find key uid xs count i =
     (if i < count then do {
        x \<leftarrow> rd xs i;
        same \<leftarrow> uid_cmp uid (key x);
        if same then Some (Some i) else uid_find key uid xs count (Suc i) }
      else Some None)"
  by pat_completeness auto
termination
  by (relation "measure (\<lambda>(key, uid, xs, count, i). count - i)") auto

declare uid_find.simps [simp del]

section \<open>Devices\<close>

definition get_nvm_context_device_count :: "context_env \<Rightarrow> process \<Rightarrow> int option" where
  "get_nvm_context_device_count e s = map_option fst (from_context e s () (\<lambda>c.
     Some (if device_count c \<ge> 0 then device_count c else NVM_ERR_CONTEXT, ())))"

definition zero_discovery :: device_discovery where
  "zero_discovery = \<lparr>disc_uid = replicate NVM_UID_LEN 0, disc_handle = 0,
     disc_manageability = 0, disc_rest = []\<rparr>"

function get_devices_loop ::
    "nvm_device_context list \<Rightarrow> nat \<Rightarrow> device_discovery list \<Rightarrow> nat \<Rightarrow>
     (device_discovery list \<times> bool) option" where
  "get_devices_loop ds copy_count buf i =
     (if i < copy_count then do {
        d \<leftarrow> rd ds i;
        (case p_device_discovery d of
           Some x \<Rightarrow> do { buf' \<leftarrow> wr buf i x; get_devices_loop ds copy_count buf' (Suc i) }
         | None \<Rightarrow> Some (buf, False)) }
      else Some (buf, True))"
  by pat_completeness auto
termination
  by (relation "measure (\<lambda>(ds, n, buf, i). n - i)") auto

declare get_devices_loop.simps [simp del]

text \<open>The context is tested before the lock is taken. \<open>memset\<close> clears the entries to be copied.\<close>

definition get_nvm_context_devices ::
    "context_env \<Rightarrow> device_discovery list \<Rightarrow> int \<Rightarrow> process \<Rightarrow>
     (int \<times> device_discovery list \<times> process) option" where
  "get_nvm_context_devices e buf dev_count s =
     (case p_context s of
        None \<Rightarrow> Some (NVM_ERR_CONTEXT, buf, s)
      | Some c \<Rightarrow>
          (case p_devices c of
             None \<Rightarrow> Some (NVM_ERR_CONTEXT, buf, s)
           | Some ds \<Rightarrow>
               if device_count c < 0 then Some (NVM_ERR_CONTEXT, buf, s)
               else if dev_count < device_count c then Some (NVM_ERR_ARRAYTOOSMALL, buf, s)
               else if \<not> lock_ok e then Some (NVM_ERR_CONTEXT, buf, s)
               else do {
                 let copy_count = nat (device_count c);
                 buf1 \<leftarrow> wr_bytes buf 0 (replicate copy_count zero_discovery);
                 (buf2, ok) \<leftarrow> get_devices_loop ds copy_count buf1 0;
                 c' \<leftarrow> (if ok then Some c else free_device_list c);
                 Some (if \<not> unlock_ok e then NVM_ERR_CONTEXT
                       else if ok then device_count c else NVM_ERR_CONTEXT,
                       buf2, s\<lparr>p_context := Some c'\<rparr>) }))"

definition zero_device :: nvm_device_context where
  "zero_device = \<lparr>dev_uid = replicate NVM_UID_LEN 0, p_device_discovery = None,
     p_device_details = None, dev_pcd_size = 0, p_pcd = None\<rparr>"

function set_devices_loop ::
    "(nat \<Rightarrow> bool) \<Rightarrow> device_discovery list \<Rightarrow> nat \<Rightarrow> nvm_device_context list \<Rightarrow> nat \<Rightarrow>
     (int \<times> nvm_device_context list) option" where
  "set_devices_loop alloc src n ds i =
     (if i < n then do {
        d \<leftarrow> rd ds i;
        let d1 = d\<lparr>p_device_details := None, p_pcd := None, dev_pcd_size := NO_SIZE,
                   p_device_discovery := None\<rparr>;
        if \<not> alloc (Suc i) then do { ds' \<leftarrow> wr ds i d1; Some (NVM_ERR_NOMEMORY, ds') }
        else do {
          x \<leftarrow> rd src i;
          ds' \<leftarrow> wr ds i (d1\<lparr>dev_uid := disc_uid x, p_device_discovery := Some x\<rparr>);
          set_devices_loop alloc src n ds' (Suc i) } }
      else Some (NVM_SUCCESS, ds))"
  by pat_completeness auto
termination
  by (relation "measure (\<lambda>(a, src, n, ds, i). n - i)") auto

declare set_devices_loop.simps [simp del]

definition set_nvm_context_devices ::
    "context_env \<Rightarrow> device_discovery list \<Rightarrow> int \<Rightarrow> process \<Rightarrow> (int \<times> process) option" where
  "set_nvm_context_devices e src dev_count s = on_context e s (\<lambda>c. do {
     c1 \<leftarrow> free_device_list c;
     if \<not> alloc_ok e 0 then Some (NVM_ERR_NOMEMORY, c1\<lparr>p_devices := None\<rparr>)
     else do {
       (rc, ds) \<leftarrow> set_devices_loop (alloc_ok e) src (nat dev_count)
                    (replicate (nat dev_count) zero_device) 0;
       Some (rc, c1\<lparr>p_devices := Some ds, device_count := dev_count\<rparr>) } })"

definition invalidate_devices :: "context_env \<Rightarrow> process \<Rightarrow> (int \<times> process) option" where
  "invalidate_devices e s = on_context e s (\<lambda>c. do { c' \<leftarrow> free_device_list c; Some (0, c') })"

text \<open>
  The operations that look a device up: \<open>at_device\<close> runs the body on the entry with the UID and puts
  the entry it returns back; a UID that is not found gives \<open>NVM_ERR_CONTEXT\<close>.
\<close>

definition at_device ::
    "bytes \<Rightarrow> nvm_context \<Rightarrow> (nvm_device_context \<Rightarrow> (int \<times> nvm_device_context) option) \<Rightarrow>
     (int \<times> nvm_context) option" where
  "at_device uid c body =
     (case p_devices c of
        Some ds \<Rightarrow>
          if device_count c > 0 then do {
            found \<leftarrow> uid_find dev_uid uid ds (nat (device_count c)) 0;
            (case found of
               None \<Rightarrow> Some (NVM_ERR_CONTEXT, c)
             | Some i \<Rightarrow> do {
                 d \<leftarrow> rd ds i;
                 (rc, d') \<leftarrow> body d;
                 ds' \<leftarrow> wr ds i d';
                 Some (rc, c\<lparr>p_devices := Some ds'\<rparr>) }) }
          else Some (NVM_ERR_CONTEXT, c)
      | None \<Rightarrow> Some (NVM_ERR_CONTEXT, c))"

definition of_device ::
    "bytes \<Rightarrow> nvm_context \<Rightarrow> 'b \<Rightarrow> (nvm_device_context \<Rightarrow> (int \<times> 'b) option) \<Rightarrow> (int \<times> 'b) option" where
  "of_device uid c buf body =
     (case p_devices c of
        Some ds \<Rightarrow>
          if device_count c > 0 then do {
            found \<leftarrow> uid_find dev_uid uid ds (nat (device_count c)) 0;
            (case found of
               None \<Rightarrow> Some (NVM_ERR_CONTEXT, buf)
             | Some i \<Rightarrow> do { d \<leftarrow> rd ds i; body d }) }
          else Some (NVM_ERR_CONTEXT, buf)
      | None \<Rightarrow> Some (NVM_ERR_CONTEXT, buf))"

definition invalidate_device_pcd :: "context_env \<Rightarrow> bytes \<Rightarrow> process \<Rightarrow> (int \<times> process) option" where
  "invalidate_device_pcd e uid s = on_context e s (\<lambda>c. at_device uid c (\<lambda>d.
     if p_pcd d \<noteq> None then Some (0, d\<lparr>p_pcd := None, dev_pcd_size := NO_SIZE\<rparr>) else Some (0, d)))"

definition get_nvm_context_device_details ::
    "context_env \<Rightarrow> bytes \<Rightarrow> process \<Rightarrow> bytes \<Rightarrow> (int \<times> bytes) option" where
  "get_nvm_context_device_details e uid s buf = from_context e s buf (\<lambda>c. of_device uid c buf (\<lambda>d.
     Some (case p_device_details d of
             Some b \<Rightarrow> (NVM_SUCCESS, b)
           | None \<Rightarrow> (NVM_ERR_CONTEXT, buf))))"

definition set_nvm_context_device_details ::
    "context_env \<Rightarrow> bytes \<Rightarrow> bytes \<Rightarrow> process \<Rightarrow> (int \<times> process) option" where
  "set_nvm_context_device_details e uid details s = on_context e s (\<lambda>c. at_device uid c (\<lambda>d.
     if \<not> alloc_ok e 0 then Some (NVM_ERR_NOMEMORY, d\<lparr>p_device_details := None\<rparr>)
     else Some (NVM_SUCCESS, d\<lparr>p_device_details := Some details\<rparr>)))"

text \<open>The PCD: the caller gets a copy in a new buffer, and its size.\<close>

definition get_nvm_context_device_pcd ::
    "context_env \<Rightarrow> bytes \<Rightarrow> process \<Rightarrow> bytes ptr \<times> nat \<Rightarrow> (int \<times> bytes ptr \<times> nat) option" where
  "get_nvm_context_device_pcd e uid s buf = from_context e s buf (\<lambda>c. of_device uid c buf (\<lambda>d.
     case p_pcd d of
       Some b \<Rightarrow>
         if dev_pcd_size d > 0 then
           if \<not> alloc_ok e 0 then Some (NVM_ERR_NOMEMORY, Null, snd buf)
           else do {
             b' \<leftarrow> rd_bytes b 0 (dev_pcd_size d);
             Some (NVM_SUCCESS, Valid b', dev_pcd_size d) }
         else Some (NVM_ERR_CONTEXT, buf)
     | None \<Rightarrow> Some (NVM_ERR_CONTEXT, buf)))"

definition set_nvm_context_device_pcd ::
    "context_env \<Rightarrow> bytes \<Rightarrow> bytes \<Rightarrow> nat \<Rightarrow> process \<Rightarrow> (int \<times> process) option" where
  "set_nvm_context_device_pcd e uid pcd pcd_size s = on_context e s (\<lambda>c. at_device uid c (\<lambda>d.
     let d1 = (if dev_pcd_size d > 0 \<and> p_pcd d \<noteq> None
               then d\<lparr>p_pcd := None, dev_pcd_size := NO_SIZE\<rparr> else d) in
     if \<not> alloc_ok e 0 then Some (NVM_ERR_NOMEMORY, d1\<lparr>p_pcd := None\<rparr>)
     else do {
       b \<leftarrow> rd_bytes pcd 0 pcd_size;
       Some (NVM_SUCCESS, d1\<lparr>p_pcd := Some b, dev_pcd_size := pcd_size\<rparr>) }))"

section \<open>Pools\<close>

definition invalidate_pools :: "context_env \<Rightarrow> process \<Rightarrow> (int \<times> process) option" where
  "invalidate_pools e s = on_context e s (\<lambda>c. Some (0, free_pool_list c))"

definition get_nvm_context_pool_count :: "context_env \<Rightarrow> process \<Rightarrow> int option" where
  "get_nvm_context_pool_count e s = map_option fst (from_context e s () (\<lambda>c.
     Some (if pool_count c \<ge> 0 then pool_count c else NVM_ERR_CONTEXT, ())))"

text \<open>
  How many entries a getter copies and what it returns. A negative count, converted to
  \<open>size_t\<close> in the \<open>memset\<close>, is not represented.
\<close>

definition copy_plan :: "int \<Rightarrow> int \<Rightarrow> int \<times> int" where
  "copy_plan count cached =
     (if count > cached then (cached, cached)
      else if count < cached then (count, NVM_ERR_ARRAYTOOSMALL)
      else (count, count))"

definition get_nvm_context_pools ::
    "context_env \<Rightarrow> process \<Rightarrow> pool list \<Rightarrow> int \<Rightarrow> (int \<times> pool list) option" where
  "get_nvm_context_pools e s buf count = from_context e s buf (\<lambda>c.
     case p_pools c of
       Some ps \<Rightarrow>
         if pool_count c > 0 then
           (case copy_plan count (pool_count c) of
              (n, rc) \<Rightarrow>
                if n < 0 then None
                else do { xs \<leftarrow> rd_bytes ps 0 (nat n); buf' \<leftarrow> wr_bytes buf 0 xs; Some (rc, buf') })
         else Some (NVM_ERR_CONTEXT, buf)
     | None \<Rightarrow> Some (NVM_ERR_CONTEXT, buf))"

definition set_nvm_context_pools ::
    "context_env \<Rightarrow> pool list \<Rightarrow> int \<Rightarrow> process \<Rightarrow> (int \<times> process) option" where
  "set_nvm_context_pools e src count s = on_context e s (\<lambda>c.
     let c1 = free_pool_list c in
     if \<not> alloc_ok e 0 then Some (NVM_ERR_NOMEMORY, c1\<lparr>p_pools := None\<rparr>)
     else do {
       xs \<leftarrow> (if count < 0 then None else rd_bytes src 0 (nat count));
       Some (NVM_SUCCESS, c1\<lparr>p_pools := Some xs, pool_count := count\<rparr>) })"

definition get_nvm_context_pool ::
    "context_env \<Rightarrow> bytes \<Rightarrow> process \<Rightarrow> pool \<Rightarrow> (int \<times> pool) option" where
  "get_nvm_context_pool e uid s buf = from_context e s buf (\<lambda>c.
     case p_pools c of
       Some ps \<Rightarrow>
         if pool_count c > 0 then do {
           found \<leftarrow> uid_find pool_uid uid ps (nat (pool_count c)) 0;
           (case found of
              None \<Rightarrow> Some (NVM_ERR_CONTEXT, buf)
            | Some i \<Rightarrow> do { p \<leftarrow> rd ps i; Some (NVM_SUCCESS, p) }) }
         else Some (NVM_ERR_CONTEXT, buf)
     | None \<Rightarrow> Some (NVM_ERR_CONTEXT, buf))"

section \<open>Namespaces\<close>

definition invalidate_namespaces :: "context_env \<Rightarrow> process \<Rightarrow> (int \<times> process) option" where
  "invalidate_namespaces e s = on_context e s (\<lambda>c. do {
     c' \<leftarrow> free_namespace_list c; Some (0, free_pcd_namespace_list c') })"

definition get_nvm_context_namespace_count :: "context_env \<Rightarrow> process \<Rightarrow> int option" where
  "get_nvm_context_namespace_count e s = map_option fst (from_context e s () (\<lambda>c.
     Some (if namespace_count c \<ge> 0 then namespace_count c else NVM_ERR_CONTEXT, ())))"

definition zero_namespace :: namespace_discovery where
  "zero_namespace = \<lparr>namespace_uid = replicate NVM_UID_LEN 0, friendly_name = replicate NVM_NAMESPACE_NAME_LEN 0\<rparr>"

definition zero_namespace_details :: nvm_namespace_details where
  "zero_namespace_details =
     \<lparr>ns_discovery = zero_namespace, ns_block_size = 0, ns_block_count = 0, ns_type = 0, ns_health = 0,
      ns_enabled = 0, ns_btt = False, ns_creation_id = 0, ns_memory_page_allocation = 0,
      ns_nlabels = 0, ns_label_sum = 0\<rparr>"

function get_namespaces_loop ::
    "nvm_namespace_context list \<Rightarrow> nat \<Rightarrow> namespace_discovery list \<Rightarrow> nat \<Rightarrow>
     namespace_discovery list option" where
  "get_namespaces_loop ns count buf i =
     (if i < count then do {
        x \<leftarrow> rd ns i;
        d \<leftarrow> p_namespace_discovery x;
        buf' \<leftarrow> wr buf i d;
        get_namespaces_loop ns count buf' (Suc i) }
      else Some buf)"
  by pat_completeness auto
termination
  by (relation "measure (\<lambda>(ns, n, buf, i). n - i)") auto

declare get_namespaces_loop.simps [simp del]

text \<open>The loop runs to the caller's count, not to the number of entries to copy.\<close>

definition get_nvm_context_namespaces ::
    "context_env \<Rightarrow> process \<Rightarrow> namespace_discovery list \<Rightarrow> int \<Rightarrow>
     (int \<times> namespace_discovery list) option" where
  "get_nvm_context_namespaces e s buf count = from_context e s buf (\<lambda>c.
     case p_namespaces c of
       Some ns \<Rightarrow>
         if namespace_count c > 0 then
           (case copy_plan count (namespace_count c) of
              (n, rc) \<Rightarrow>
                if n < 0 then None
                else do {
                  buf1 \<leftarrow> wr_bytes buf 0 (replicate (nat n) zero_namespace);
                  buf2 \<leftarrow> get_namespaces_loop ns (nat count) buf1 0;
                  Some (rc, buf2) })
         else Some (NVM_ERR_CONTEXT, buf)
     | None \<Rightarrow> Some (NVM_ERR_CONTEXT, buf))"

definition zero_namespace_context :: nvm_namespace_context where
  "zero_namespace_context = \<lparr>nsc_uid = replicate NVM_UID_LEN 0, p_namespace_discovery = None,
     p_namespace_details = None\<rparr>"

function set_namespaces_loop ::
    "(nat \<Rightarrow> bool) \<Rightarrow> namespace_discovery list \<Rightarrow> nat \<Rightarrow> nvm_namespace_context list \<Rightarrow> nat \<Rightarrow>
     (int \<times> nvm_namespace_context list) option" where
  "set_namespaces_loop alloc src n ns i =
     (if i < n then do {
        x \<leftarrow> rd ns i;
        let x1 = x\<lparr>p_namespace_details := None, p_namespace_discovery := None\<rparr>;
        if \<not> alloc (Suc i) then do { ns' \<leftarrow> wr ns i x1; Some (NVM_ERR_NOMEMORY, ns') }
        else do {
          d \<leftarrow> rd src i;
          ns' \<leftarrow> wr ns i (x1\<lparr>nsc_uid := namespace_uid d, p_namespace_discovery := Some d\<rparr>);
          set_namespaces_loop alloc src n ns' (Suc i) } }
      else Some (NVM_SUCCESS, ns))"
  by pat_completeness auto
termination
  by (relation "measure (\<lambda>(a, src, n, ns, i). n - i)") auto

declare set_namespaces_loop.simps [simp del]

definition set_nvm_context_namespaces ::
    "context_env \<Rightarrow> namespace_discovery list \<Rightarrow> int \<Rightarrow> process \<Rightarrow> (int \<times> process) option" where
  "set_nvm_context_namespaces e src count s = on_context e s (\<lambda>c. do {
     c1 \<leftarrow> free_namespace_list c;
     if \<not> alloc_ok e 0 then Some (NVM_ERR_NOMEMORY, c1\<lparr>p_namespaces := None\<rparr>)
     else do {
       (rc, ns) \<leftarrow> set_namespaces_loop (alloc_ok e) src (nat count)
                    (replicate (nat count) zero_namespace_context) 0;
       Some (rc, c1\<lparr>p_namespaces := Some ns, namespace_count := count\<rparr>) } })"

definition get_nvm_context_namespace_details ::
    "context_env \<Rightarrow> bytes \<Rightarrow> process \<Rightarrow> bytes \<Rightarrow> (int \<times> bytes) option" where
  "get_nvm_context_namespace_details e uid s buf = from_context e s buf (\<lambda>c.
     case p_namespaces c of
       Some ns \<Rightarrow>
         if namespace_count c > 0 then do {
           found \<leftarrow> uid_find nsc_uid uid ns (nat (namespace_count c)) 0;
           (case found of
              None \<Rightarrow> Some (NVM_ERR_CONTEXT, buf)
            | Some i \<Rightarrow> do {
                x \<leftarrow> rd ns i;
                Some (case p_namespace_details x of
                        Some b \<Rightarrow> (NVM_SUCCESS, b)
                      | None \<Rightarrow> (NVM_ERR_CONTEXT, buf)) }) }
         else Some (NVM_ERR_CONTEXT, buf)
     | None \<Rightarrow> Some (NVM_ERR_CONTEXT, buf))"

definition set_nvm_context_namespace_details ::
    "context_env \<Rightarrow> bytes \<Rightarrow> bytes \<Rightarrow> process \<Rightarrow> (int \<times> process) option" where
  "set_nvm_context_namespace_details e uid details s = on_context e s (\<lambda>c.
     case p_namespaces c of
       Some ns \<Rightarrow>
         if namespace_count c > 0 then do {
           found \<leftarrow> uid_find nsc_uid uid ns (nat (namespace_count c)) 0;
           (case found of
              None \<Rightarrow> Some (NVM_ERR_CONTEXT, c)
            | Some i \<Rightarrow> do {
                x \<leftarrow> rd ns i;
                let x' = x\<lparr>p_namespace_details := (if alloc_ok e 0 then Some details else None)\<rparr>;
                ns' \<leftarrow> wr ns i x';
                Some (if alloc_ok e 0 then NVM_SUCCESS else NVM_ERR_NOMEMORY,
                      c\<lparr>p_namespaces := Some ns'\<rparr>) }) }
         else Some (NVM_ERR_CONTEXT, c)
     | None \<Rightarrow> Some (NVM_ERR_CONTEXT, c))"

section \<open>Namespaces from the PCD\<close>

definition get_nvm_context_pcd_namespace_count :: "context_env \<Rightarrow> process \<Rightarrow> int option" where
  "get_nvm_context_pcd_namespace_count e s = map_option fst (from_context e s () (\<lambda>c.
     Some (if pcd_namespace_count c \<ge> 0 then pcd_namespace_count c else NVM_ERR_CONTEXT, ())))"

text \<open>There is no test of \<open>p_context\<close> in this one.\<close>

definition set_nvm_context_pcd_namespace_count ::
    "context_env \<Rightarrow> int \<Rightarrow> process \<Rightarrow> (int \<times> process) option" where
  "set_nvm_context_pcd_namespace_count e count s = locked e s (\<lambda>s. do {
     c \<leftarrow> p_context s;
     Some (NVM_SUCCESS, s\<lparr>p_context := Some (c\<lparr>pcd_namespace_count := count\<rparr>)\<rparr>) })"

definition get_nvm_context_pcd_namespaces ::
    "context_env \<Rightarrow> process \<Rightarrow> nvm_namespace_details list \<Rightarrow> int \<Rightarrow>
     (int \<times> nvm_namespace_details list) option" where
  "get_nvm_context_pcd_namespaces e s buf count = from_context e s buf (\<lambda>c.
     case p_pcd_namespaces c of
       Some ns \<Rightarrow>
         if pcd_namespace_count c > 0 then
           (case copy_plan count (pcd_namespace_count c) of
              (n, rc) \<Rightarrow>
                if count < 0 then None
                else do {
                  buf1 \<leftarrow> wr_bytes buf 0 (replicate (nat count) zero_namespace_details);
                  xs \<leftarrow> rd_bytes ns 0 (nat n);
                  buf2 \<leftarrow> wr_bytes buf1 0 xs;
                  Some (rc, buf2) })
         else Some (NVM_ERR_CONTEXT, buf)
     | None \<Rightarrow> Some (NVM_ERR_CONTEXT, buf))"

definition set_nvm_context_pcd_namespaces ::
    "context_env \<Rightarrow> nvm_namespace_details list \<Rightarrow> int \<Rightarrow> process \<Rightarrow> (int \<times> process) option" where
  "set_nvm_context_pcd_namespaces e src count s = on_context e s (\<lambda>c. do {
     c1 \<leftarrow> free_namespace_list c;
     let c2 = free_pcd_namespace_list c1;
     if \<not> alloc_ok e 0 then Some (NVM_ERR_NOMEMORY, c2\<lparr>p_pcd_namespaces := None\<rparr>)
     else do {
       xs \<leftarrow> rd_bytes src 0 (nat count);
       Some (NVM_SUCCESS, c2\<lparr>p_pcd_namespaces := Some xs\<rparr>) } })"

end
