(* ===== verification/Device_Utilities.thy ===== *)
theory Device_Utilities
  imports Utility Revision Nfit_Utilities Nvm_Context
begin

text \<open>
  Device helpers of \<open>lib/device_utilities.c\<close>, with the version tests of \<open>lib/device_fw.c\<close>: looking a
  device up, its UID in text and in bytes, translating what the firmware reports, and the capabilities
  of a SKU. \<open>devices\<close> is what \<open>nvm_get_device_count\<close> and \<open>nvm_get_devices\<close> return; the firmware
  commands of \<open>lib/device_fw.c\<close> that fill a payload are arguments.
\<close>

unbundle bit_operations_syntax

section \<open>Data\<close>

record device_security_capabilities =
  passphrase_capable :: bool
  unlock_device_capable :: bool
  erase_crypto_capable :: bool

record device_capabilities =
  die_sparing_capable :: bool
  memory_mode_capable :: bool
  storage_mode_capable :: bool
  app_direct_mode_capable :: bool

text \<open>
  \<open>struct device_discovery\<close>: the fields that the library computes with, besides those that the
  context compares.
\<close>

record dimm_identity = device_discovery +
  disc_vendor_id :: u16
  disc_dimm_sku :: u32
  disc_manufacturer :: bytes
  disc_serial_number :: bytes
  disc_subsystem_vendor_id :: u16
  disc_subsystem_device_id :: u16
  disc_manufacturing_info_valid :: bool
  disc_manufacturing_location :: u8
  disc_manufacturing_date :: u16
  disc_part_number :: bytes
  disc_interface_format_codes :: "u16 list"
  disc_security_capabilities :: device_security_capabilities
  disc_device_capabilities :: device_capabilities

section \<open>Looking a device up\<close>

definition MANAGEMENT_VALIDCONFIG :: nat where "MANAGEMENT_VALIDCONFIG = 1"

text \<open>\<open>get_devices\<close>: the count, the code of the second call, and its list.\<close>

definition get_devices ::
    "(nat \<Rightarrow> bool) \<Rightarrow> int \<Rightarrow> int \<times> 'a device_discovery_scheme list \<Rightarrow> int \<times> 'a device_discovery_scheme list option" where
  "get_devices alloc count devices =
     (if count > 0 then
        if alloc (nat count) then (fst devices, Some (snd devices)) else (NVM_ERR_NOMEMORY, None)
      else (count, None))"

function find_device_loop ::
    "('a device_discovery_scheme \<Rightarrow> bool option) \<Rightarrow> 'a device_discovery_scheme list \<Rightarrow> nat \<Rightarrow> nat \<Rightarrow>
     'a device_discovery_scheme option option" where
  "find_device_loop test devs dev_count i =
     (if i < dev_count then do {
        x \<leftarrow> rd devs i;
        hit \<leftarrow> test x;
        if hit then Some (Some x) else find_device_loop test devs dev_count (Suc i) }
      else Some None)"
  by pat_completeness auto
termination
  by (relation "measure (\<lambda>(t, ds, n, i). n - i)") auto

declare find_device_loop.simps [simp del]

definition lookup_dev ::
    "('a device_discovery_scheme \<Rightarrow> bool option) \<Rightarrow> int \<times> 'a device_discovery_scheme list option \<Rightarrow>
     (int \<times> 'a device_discovery_scheme option) option" where
  "lookup_dev test devices =
     (case devices of (dev_count, devs) \<Rightarrow>
        if dev_count < 0 then Some (dev_count, None)
        else if dev_count > 0 then do {
          ds \<leftarrow> devs;
          found \<leftarrow> find_device_loop test ds (nat dev_count) 0;
          Some (case found of None \<Rightarrow> (NVM_ERR_BADDEVICE, None) | Some x \<Rightarrow> (NVM_SUCCESS, Some x)) }
        else Some (NVM_ERR_BADDEVICE, None))"

definition lookup_dev_uid ::
    "int \<times> 'a device_discovery_scheme list option \<Rightarrow> bytes option \<Rightarrow> (int \<times> 'a device_discovery_scheme option) option" where
  "lookup_dev_uid devices uid =
     (case uid of
        None \<Rightarrow> Some (NVM_ERR_INVALIDPARAMETER, None)
      | Some u \<Rightarrow> lookup_dev (\<lambda>x. uid_cmp u (disc_uid x)) devices)"

definition lookup_dev_handle ::
    "int \<times> 'a device_discovery_scheme list option \<Rightarrow> u32 \<Rightarrow> (int \<times> 'a device_discovery_scheme option) option" where
  "lookup_dev_handle devices handle = lookup_dev (\<lambda>x. Some (handle = disc_handle x)) devices"

definition exists_and_manageable ::
    "int \<times> 'a device_discovery_scheme list option \<Rightarrow> bytes option \<Rightarrow> bool \<Rightarrow> (int \<times> 'a device_discovery_scheme option) option" where
  "exists_and_manageable devices uid check_manageability = do {
     (rc, p_dev) \<leftarrow> lookup_dev_uid devices uid;
     if rc = NVM_SUCCESS then do {
       x \<leftarrow> p_dev;
       Some (if check_manageability \<and> disc_manageability x \<noteq> MANAGEMENT_VALIDCONFIG
             then NVM_ERR_NOTMANAGEABLE else rc, p_dev) }
     else Some (rc, p_dev) }"

text \<open>Collecting the devices whose UIDs are listed; \<open>p_devs\<close> has room for what is written.\<close>

function lookup_dev_uids_loop ::
    "bytes list \<Rightarrow> nat \<Rightarrow> 'a device_discovery_scheme list \<Rightarrow> nat \<Rightarrow> nat \<Rightarrow> u16 \<Rightarrow>
     'a device_discovery_scheme list \<Rightarrow> (u16 \<times> 'a device_discovery_scheme list) option" where
  "lookup_dev_uids_loop uids uid_count devs devices_count i matched_uids p_devs =
     (if i < devices_count then do {
        x \<leftarrow> rd devs i;
        hit \<leftarrow> is_uid_in_list (disc_uid x) uids uid_count;
        if hit then do {
          p_devs' \<leftarrow> wr p_devs (unat matched_uids) x;
          lookup_dev_uids_loop uids uid_count devs devices_count (Suc i) (matched_uids + 1) p_devs' }
        else lookup_dev_uids_loop uids uid_count devs devices_count (Suc i) matched_uids p_devs }
      else Some (matched_uids, p_devs))"
  by pat_completeness auto
termination
  by (relation "measure (\<lambda>(u, k, ds, n, i, m, p). n - i)") auto

declare lookup_dev_uids_loop.simps [simp del]

definition lookup_dev_uids ::
    "int \<times> 'a device_discovery_scheme list option \<Rightarrow> bytes list option \<Rightarrow> u16 \<Rightarrow>
     'a device_discovery_scheme list \<Rightarrow> (int \<times> 'a device_discovery_scheme list) option" where
  "lookup_dev_uids devices uids uid_count p_devs =
     (case uids of
        None \<Rightarrow> Some (NVM_ERR_INVALIDPARAMETER, p_devs)
      | Some us \<Rightarrow>
          if fst devices < 0 then Some (fst devices, p_devs)
          else do {
            ds \<leftarrow> (if fst devices = 0 then Some [] else snd devices);
            (matched_uids, p_devs') \<leftarrow>
              lookup_dev_uids_loop us (unat uid_count) ds (nat (fst devices)) 0 0 p_devs;
            Some (if matched_uids \<noteq> uid_count then NVM_ERR_BADDEVICE else NVM_SUCCESS, p_devs') })"

definition NVM_MANUFACTURER_LEN :: nat where "NVM_MANUFACTURER_LEN = 2"
definition NVM_SERIAL_LEN :: nat where "NVM_SERIAL_LEN = 4"
definition NVM_PART_NUM_LEN :: nat where "NVM_PART_NUM_LEN = 21"

definition lookup_dev_manufacturer_serial_part ::
    "int \<times> 'a dimm_identity_scheme list option \<Rightarrow> bytes option \<Rightarrow> bytes option \<Rightarrow> bytes option \<Rightarrow>
     (int \<times> 'a dimm_identity_scheme option) option" where
  "lookup_dev_manufacturer_serial_part devices manufacturer serial_number part_number =
     lookup_dev (\<lambda>x. do {
       a \<leftarrow> cmp_bytes (Some (disc_manufacturer x)) manufacturer NVM_MANUFACTURER_LEN;
       if a = 1 then do {
         b \<leftarrow> cmp_bytes (Some (disc_serial_number x)) serial_number NVM_SERIAL_LEN;
         if b = 1 then do {
           c \<leftarrow> cmp_bytes (Some (disc_part_number x)) part_number (NVM_PART_NUM_LEN - 1);
           Some (c = 1) }
         else Some False }
       else Some False }) devices"

text \<open>The manageable devices, counted first and then copied.\<close>

definition get_manageable_dimms ::
    "(nat \<Rightarrow> bool) \<Rightarrow> int \<times> 'a device_discovery_scheme list option \<Rightarrow>
     'a device_discovery_scheme list option \<Rightarrow> (int \<times> 'a device_discovery_scheme list option) option" where
  "get_manageable_dimms alloc devices pp_dimms =
     (case devices of (dev_count, p_all_dimms) \<Rightarrow>
        if dev_count \<le> 0 \<or> p_all_dimms = None then Some (dev_count, pp_dimms)
        else do {
          ds \<leftarrow> p_all_dimms;
          xs \<leftarrow> rd_bytes ds 0 (nat dev_count);
          let ms = filter (\<lambda>x. disc_manageability x = MANAGEMENT_VALIDCONFIG) xs;
          if length ms > 0 then
            Some (if alloc (length ms) then (int (length ms), Some ms) else (NVM_ERR_NOMEMORY, None))
          else Some (0, pp_dimms) })"

definition is_device_manageable ::
    "int \<times> 'a device_discovery_scheme list option \<Rightarrow> u32 \<Rightarrow> int option" where
  "is_device_manageable devices handle = do {
     (rc, p_dev) \<leftarrow> lookup_dev_handle devices handle;
     if rc = NVM_SUCCESS then do {
       x \<leftarrow> p_dev;
       Some (if disc_manageability x = MANAGEMENT_VALIDCONFIG then 1 else 0) }
     else Some rc }"

section \<open>The UID of a device\<close>

definition NVM_MAX_UID_LEN :: nat where "NVM_MAX_UID_LEN = 37"
definition DEVICE_UID_BYTES :: nat where "DEVICE_UID_BYTES = 9"

text \<open>
  The directives of the UID formats: \<open>%02hhx\<close> into a byte of the result, and a literal dash.
\<close>

datatype uid_item = Byte nat | Dash

definition with_manufacturing :: "uid_item list" where
  "with_manufacturing =
     [Byte 0, Byte 1, Dash, Byte 2, Dash, Byte 3, Byte 4, Dash, Byte 5, Byte 6, Byte 7, Byte 8]"

definition without_manufacturing :: "uid_item list" where
  "without_manufacturing = [Byte 0, Byte 1, Dash, Byte 5, Byte 6, Byte 7, Byte 8]"

text \<open>
  \<open>sscanf\<close> of \<open>%2hhx\<close>: leading white space is skipped, then at most two characters are used, which may
  be a sign and a digit; a sign or \<open>0x\<close> without a digit is a failure. The result is the value and the
  rest of the input.
\<close>

definition isxdigit :: "u8 \<Rightarrow> bool" where
  "isxdigit c \<longleftrightarrow> (48 \<le> c \<and> c \<le> 57) \<or> (65 \<le> c \<and> c \<le> 70) \<or> (97 \<le> c \<and> c \<le> 102)"

definition xdigit :: "u8 \<Rightarrow> u8" where "xdigit c = ucast (hextable c)"

definition scan_hhx2 :: "bytes \<Rightarrow> (u8 \<times> bytes) option" where
  "scan_hhx2 s =
     (case dropWhile isspace s of
        c # d # r \<Rightarrow>
          if c = 43 \<or> c = 45 then
            if isxdigit d then Some (if c = 45 then - xdigit d else xdigit d, r) else None
          else if c = 48 \<and> (d = 120 \<or> d = 88) then None
          else if isxdigit c then
            if isxdigit d then Some (16 * xdigit c + xdigit d, r) else Some (xdigit c, d # r)
          else None
      | [c] \<Rightarrow> if isxdigit c then Some (xdigit c, []) else None
      | [] \<Rightarrow> None)"

text \<open>The number of conversions before the first failure; an end of input counts as a failure.\<close>

fun scan_uid :: "uid_item list \<Rightarrow> bytes \<Rightarrow> bytes \<Rightarrow> nat \<Rightarrow> (nat \<times> bytes) option" where
  "scan_uid [] s p_bytes n = Some (n, p_bytes)"
| "scan_uid (Dash # items) s p_bytes n =
     (case s of c # r \<Rightarrow> if c = 45 then scan_uid items r p_bytes n else Some (n, p_bytes)
      | [] \<Rightarrow> Some (n, p_bytes))"
| "scan_uid (Byte i # items) s p_bytes n =
     (case scan_hhx2 s of
        None \<Rightarrow> Some (n, p_bytes)
      | Some (v, r) \<Rightarrow> do { b \<leftarrow> wr p_bytes i v; scan_uid items r b (Suc n) })"

text \<open>Both conversions clear the result first. The text ends at the first terminator.\<close>

definition convert_uid_with_manufacturing_data_to_bytes :: "bytes \<Rightarrow> bytes \<Rightarrow> nat \<Rightarrow> (bool \<times> bytes) option" where
  "convert_uid_with_manufacturing_data_to_bytes uid p_bytes bytes_len = do {
     b0 \<leftarrow> wr_bytes p_bytes 0 (replicate bytes_len 0);
     (bytes_filled, b) \<leftarrow> (if 0 \<in> set uid then scan_uid with_manufacturing (cstr uid) b0 0 else None);
     Some (bytes_filled = DEVICE_UID_BYTES, b) }"

definition convert_uid_without_manufacturing_data_to_bytes :: "bytes \<Rightarrow> bytes \<Rightarrow> nat \<Rightarrow> (bool \<times> bytes) option" where
  "convert_uid_without_manufacturing_data_to_bytes uid p_bytes bytes_len = do {
     b0 \<leftarrow> wr_bytes p_bytes 0 (replicate bytes_len 0);
     (bytes_filled, b) \<leftarrow> (if 0 \<in> set uid then scan_uid without_manufacturing (cstr uid) b0 0 else None);
     Some (bytes_filled = DEVICE_UID_BYTES - 3, b) }"

definition device_uid_string_to_bytes :: "bytes option \<Rightarrow> bytes option \<Rightarrow> nat \<Rightarrow> (int \<times> bytes option) option" where
  "device_uid_string_to_bytes uid p_bytes bytes_len =
     (case (uid, p_bytes) of
        (Some u, Some b) \<Rightarrow>
          if bytes_len \<ge> DEVICE_UID_BYTES then do {
            (ok1, b1) \<leftarrow> convert_uid_with_manufacturing_data_to_bytes u b bytes_len;
            if ok1 then Some (NVM_SUCCESS, Some b1)
            else do {
              (ok2, b2) \<leftarrow> convert_uid_without_manufacturing_data_to_bytes u b1 bytes_len;
              Some (if ok2 then NVM_SUCCESS else NVM_ERR_INVALIDPARAMETER, Some b2) } }
          else Some (NVM_ERR_INVALIDPARAMETER, p_bytes)
      | _ \<Rightarrow> Some (NVM_ERR_INVALIDPARAMETER, p_bytes))"

definition uid_manufacturing_bytes_empty :: "bytes \<Rightarrow> bool option" where
  "uid_manufacturing_bytes_empty p_bytes = do {
     b2 \<leftarrow> rd p_bytes 2; b3 \<leftarrow> rd p_bytes 3; b4 \<leftarrow> rd p_bytes 4;
     Some (b2 = 0 \<and> b3 = 0 \<and> b4 = 0) }"

text \<open>What \<open>printf\<close> makes of the directives.\<close>

fun print_uid :: "uid_item list \<Rightarrow> bytes \<Rightarrow> bytes option" where
  "print_uid [] p_bytes = Some []"
| "print_uid (Dash # items) p_bytes = map_option (\<lambda>r. 45 # r) (print_uid items p_bytes)"
| "print_uid (Byte i # items) p_bytes = do {
     v \<leftarrow> rd p_bytes i;
     r \<leftarrow> print_uid items p_bytes;
     Some (hex2 v @ r) }"

definition device_uid_bytes_to_string :: "bytes option \<Rightarrow> nat \<Rightarrow> bytes option \<Rightarrow> (int \<times> bytes option) option" where
  "device_uid_bytes_to_string p_bytes bytes_len uid =
     (case (uid, p_bytes) of
        (Some u, Some b) \<Rightarrow>
          if bytes_len \<ge> DEVICE_UID_BYTES then do {
            u0 \<leftarrow> wr_bytes u 0 (replicate NVM_MAX_UID_LEN 0);
            empty \<leftarrow> uid_manufacturing_bytes_empty b;
            msg \<leftarrow> print_uid (if empty then without_manufacturing else with_manufacturing) b;
            (u', _) \<leftarrow> s_snprintf (Some u0) NVM_MAX_UID_LEN (Some msg);
            Some (NVM_SUCCESS, u') }
          else Some (NVM_ERR_INVALIDPARAMETER, uid)
      | _ \<Rightarrow> Some (NVM_ERR_INVALIDPARAMETER, uid))"

text \<open>\<open>%04x\<close> of a 16-bit value.\<close>

definition hex4 :: "u16 \<Rightarrow> bytes" where
  "hex4 v = hex2 (ucast (drop_bit 8 v)) @ hex2 (ucast v)"

definition calculate_uid_without_manufacturing_info :: "bytes \<Rightarrow> u16 \<Rightarrow> bytes \<Rightarrow> bytes option" where
  "calculate_uid_without_manufacturing_info uid vendor_id serial_number = do {
     s3 \<leftarrow> rd serial_number 3; s2 \<leftarrow> rd serial_number 2; s1 \<leftarrow> rd serial_number 1; s0 \<leftarrow> rd serial_number 0;
     (u, _) \<leftarrow> s_snprintf (Some uid) NVM_MAX_UID_LEN
       (Some (hex4 vendor_id @ [45] @ hex2 s3 @ hex2 s2 @ hex2 s1 @ hex2 s0));
     u }"

definition calculate_uid_with_valid_manufacturing_info ::
    "bytes \<Rightarrow> u16 \<Rightarrow> bytes \<Rightarrow> u8 \<Rightarrow> u16 \<Rightarrow> bytes option" where
  "calculate_uid_with_valid_manufacturing_info uid vendor_id serial_number manufacturing_loc manufacturing_date = do {
     s3 \<leftarrow> rd serial_number 3; s2 \<leftarrow> rd serial_number 2; s1 \<leftarrow> rd serial_number 1; s0 \<leftarrow> rd serial_number 0;
     (u, _) \<leftarrow> s_snprintf (Some uid) NVM_MAX_UID_LEN
       (Some (hex4 vendor_id @ [45] @ hex2 manufacturing_loc @ [45] @ hex4 manufacturing_date @ [45]
         @ hex2 s3 @ hex2 s2 @ hex2 s1 @ hex2 s0));
     u }"

text \<open>\<open>garbage\<close> is the content of the local array before the bytes are swapped into it.\<close>

definition calculate_device_uid ::
    "bytes \<Rightarrow> 'a dimm_identity_scheme option \<Rightarrow> (int \<times> 'a dimm_identity_scheme option) option" where
  "calculate_device_uid garbage p_device =
     (case p_device of
        None \<Rightarrow> Some (NVM_ERR_INVALIDPARAMETER, None)
      | Some x \<Rightarrow> do {
          display_serial_number \<leftarrow> swap_bytes garbage (disc_serial_number x) NVM_SERIAL_LEN;
          uid \<leftarrow>
            (if disc_manufacturing_info_valid x
             then calculate_uid_with_valid_manufacturing_info (disc_uid x) (disc_vendor_id x)
               display_serial_number (disc_manufacturing_location x) (disc_manufacturing_date x)
             else calculate_uid_without_manufacturing_info (disc_uid x) (disc_vendor_id x)
               display_serial_number);
          Some (NVM_SUCCESS, Some (x\<lparr>disc_uid := uid\<rparr>)) })"

end
