(* ===== verification/Device_Capacities.thy ===== *)
theory Device_Capacities
  imports Device_Utilities
begin

text \<open>
  Status and capacities of a device (\<open>lib/device_utilities.c\<close>): translation of the firmware's codes, the
  support tests, the capabilities that the SKU and the interface format codes allow, and the division
  of the raw capacity, which the SKU then restricts. The firmware payloads that are read, and the
  interleave sets of the driver, are arguments.
\<close>

unbundle bit_operations_syntax

section \<open>Translation of firmware codes\<close>

datatype device_ars_status =
    DEVICE_ARS_STATUS_UNKNOWN | DEVICE_ARS_STATUS_NOTSTARTED | DEVICE_ARS_STATUS_INPROGRESS
  | DEVICE_ARS_STATUS_COMPLETE | DEVICE_ARS_STATUS_ABORTED

datatype device_sanitize_status =
    DEVICE_SANITIZE_STATUS_UNKNOWN | DEVICE_SANITIZE_STATUS_NOTSTARTED
  | DEVICE_SANITIZE_STATUS_INPROGRESS | DEVICE_SANITIZE_STATUS_COMPLETE

datatype device_health =
    DEVICE_HEALTH_UNKNOWN | DEVICE_HEALTH_NORMAL | DEVICE_HEALTH_NONCRITICAL
  | DEVICE_HEALTH_CRITICAL | DEVICE_HEALTH_FATAL

datatype device_fw_type =
    DEVICE_FW_TYPE_UNKNOWN | DEVICE_FW_TYPE_PRODUCTION | DEVICE_FW_TYPE_DFX | DEVICE_FW_TYPE_DEBUG

datatype fw_update_status = FW_UPDATE_UNKNOWN | FW_UPDATE_STAGED | FW_UPDATE_SUCCESS | FW_UPDATE_FAILED

datatype memory_type = MEMORY_TYPE_UNKNOWN | MEMORY_TYPE_DDR4 | MEMORY_TYPE_NVMDIMM

datatype device_form_factor =
    DEVICE_FORM_FACTOR_UNKNOWN | DEVICE_FORM_FACTOR_DIMM | DEVICE_FORM_FACTOR_SODIMM

datatype lock_state =
    LOCK_STATE_UNKNOWN | LOCK_STATE_DISABLED | LOCK_STATE_UNLOCKED | LOCK_STATE_LOCKED
  | LOCK_STATE_FROZEN | LOCK_STATE_PASSPHRASE_LIMIT | LOCK_STATE_NOT_SUPPORTED

record pt_payload_long_op_stat =
  lo_command :: u16
  lo_percent_complete :: u16
  lo_etc :: u32
  lo_status_code :: u8
  lo_command_specific_data :: bytes

text \<open>The opcode is the low byte of the command, the sub-opcode the high byte.\<close>

definition is_command :: "u16 \<Rightarrow> u16 \<Rightarrow> u16 \<Rightarrow> bool" where
  "is_command command opcode sub_opcode \<longleftrightarrow>
     command AND 0x00FF = opcode \<and> drop_bit 8 (command AND 0xFF00) = sub_opcode"

definition translate_to_ars_status :: "pt_payload_long_op_stat \<Rightarrow> device_ars_status option" where
  "translate_to_ars_status p =
     (if is_command (lo_command p) 0x05 0x04 then do {
        ars_state \<leftarrow> rd (lo_command_specific_data p) 1;
        Some (if ars_state = 0 then
                if lo_percent_complete p = 0x100 then DEVICE_ARS_STATUS_COMPLETE
                else DEVICE_ARS_STATUS_INPROGRESS
              else if ars_state = 1 \<or> ars_state = 2 \<or> ars_state = 3 then DEVICE_ARS_STATUS_ABORTED
              else DEVICE_ARS_STATUS_UNKNOWN) }
      else Some DEVICE_ARS_STATUS_NOTSTARTED)"

definition translate_to_sanitize_status :: "pt_payload_long_op_stat \<Rightarrow> device_sanitize_status" where
  "translate_to_sanitize_status p =
     (if is_command (lo_command p) 0x03 0x01 then
        if lo_status_code p = 0x05 then DEVICE_SANITIZE_STATUS_INPROGRESS
        else if lo_status_code p = 0x00 then DEVICE_SANITIZE_STATUS_COMPLETE
        else DEVICE_SANITIZE_STATUS_UNKNOWN
      else DEVICE_SANITIZE_STATUS_NOTSTARTED)"

text \<open>\<open>long_op\<close> is the result of \<open>fw_get_status_for_long_op\<close> and the payload that it filled.\<close>

definition get_long_status ::
    "int \<times> pt_payload_long_op_stat \<Rightarrow> (int \<times> device_ars_status \<times> device_sanitize_status) option" where
  "get_long_status long_op =
     (case long_op of (rc, payload) \<Rightarrow>
        if rc = NVM_ERR_DEVICEERROR
        then Some (NVM_SUCCESS, DEVICE_ARS_STATUS_NOTSTARTED, DEVICE_SANITIZE_STATUS_NOTSTARTED)
        else if rc \<noteq> NVM_SUCCESS
        then Some (rc, DEVICE_ARS_STATUS_UNKNOWN, DEVICE_SANITIZE_STATUS_UNKNOWN)
        else do {
          ars \<leftarrow> translate_to_ars_status payload;
          Some (rc, ars, translate_to_sanitize_status payload) })"

definition NVM_ERR_ARSINPROGRESS :: int where "NVM_ERR_ARSINPROGRESS = - 47"

text \<open>The loop keeps the code of the last device, an error of an earlier one is overwritten.\<close>

function is_ars_loop ::
    "(u32 \<Rightarrow> int \<times> pt_payload_long_op_stat) \<Rightarrow> 'a device_discovery_scheme list \<Rightarrow> nat \<Rightarrow> nat \<Rightarrow> int \<Rightarrow> int option" where
  "is_ars_loop long_op p_dimms n i rc =
     (if i < n then do {
        x \<leftarrow> rd p_dimms i;
        (rc1, ars, _) \<leftarrow> get_long_status (long_op (disc_handle x));
        if rc1 = NVM_SUCCESS \<and> ars = DEVICE_ARS_STATUS_INPROGRESS then Some NVM_ERR_ARSINPROGRESS
        else is_ars_loop long_op p_dimms n (Suc i) rc1 }
      else Some rc)"
  by pat_completeness auto
termination
  by (relation "measure (\<lambda>(f, ds, n, i, rc). n - i)") auto

declare is_ars_loop.simps [simp del]

definition is_ars_in_progress ::
    "(nat \<Rightarrow> bool) \<Rightarrow> int \<times> 'a device_discovery_scheme list option \<Rightarrow>
     (u32 \<Rightarrow> int \<times> pt_payload_long_op_stat) \<Rightarrow> int option" where
  "is_ars_in_progress alloc devices long_op = do {
     (n, p_dimms) \<leftarrow> get_manageable_dimms alloc devices None;
     (case p_dimms of
        None \<Rightarrow> Some n
      | Some ds \<Rightarrow> if n \<le> 0 then Some n else is_ars_loop long_op ds (nat n) 0 NVM_SUCCESS) }"

definition smart_health_status_to_device_health :: "u8 \<Rightarrow> device_health" where
  "smart_health_status_to_device_health smart_health =
     (if smart_health = 0 then DEVICE_HEALTH_NORMAL
      else if smart_health = 1 then DEVICE_HEALTH_NONCRITICAL
      else if smart_health = 2 then DEVICE_HEALTH_CRITICAL
      else if smart_health = 4 then DEVICE_HEALTH_FATAL
      else DEVICE_HEALTH_UNKNOWN)"

text \<open>\<open>smart\<close>: the result of \<open>fw_get_smart_health\<close>, whether the status field is valid, and the status.\<close>

definition get_dimm_health :: "int \<times> bool \<times> u8 \<Rightarrow> int \<times> device_health" where
  "get_dimm_health smart =
     (case smart of (rc, health_status_field, health_status) \<Rightarrow>
        (rc, if rc = NVM_SUCCESS \<and> health_status_field
             then smart_health_status_to_device_health health_status else DEVICE_HEALTH_UNKNOWN))"

definition firmware_type_to_enum :: "u8 \<Rightarrow> device_fw_type" where
  "firmware_type_to_enum fw_type =
     (if fw_type = 0x29 then DEVICE_FW_TYPE_PRODUCTION
      else if fw_type = 0x30 then DEVICE_FW_TYPE_DFX
      else if fw_type = 0x32 then DEVICE_FW_TYPE_DEBUG
      else DEVICE_FW_TYPE_UNKNOWN)"

definition firmware_update_status_to_enum :: "u8 \<Rightarrow> fw_update_status" where
  "firmware_update_status_to_enum s =
     (if s = 1 then FW_UPDATE_STAGED
      else if s = 2 then FW_UPDATE_SUCCESS
      else if s = 3 then FW_UPDATE_FAILED
      else FW_UPDATE_UNKNOWN)"

definition get_memory_type_from_smbios_memory_type :: "u8 \<Rightarrow> u16 \<Rightarrow> memory_type" where
  "get_memory_type_from_smbios_memory_type smbios_type smbios_type_detail_bits =
     (if smbios_type = 0x1A then
        if smbios_type_detail_bits AND push_bit 12 1 \<noteq> 0 then MEMORY_TYPE_NVMDIMM else MEMORY_TYPE_DDR4
      else if smbios_type = 0x15 then MEMORY_TYPE_NVMDIMM
      else MEMORY_TYPE_UNKNOWN)"

definition get_device_form_factor_from_smbios_form_factor :: "u16 \<Rightarrow> device_form_factor" where
  "get_device_form_factor_from_smbios_form_factor f =
     (if f = 0x9 then DEVICE_FORM_FACTOR_DIMM
      else if f = 0xD then DEVICE_FORM_FACTOR_SODIMM
      else DEVICE_FORM_FACTOR_UNKNOWN)"

definition device_is_encryption_enabled :: "lock_state \<Rightarrow> bool" where
  "device_is_encryption_enabled s \<longleftrightarrow>
     s \<noteq> LOCK_STATE_DISABLED \<and> s \<noteq> LOCK_STATE_UNKNOWN \<and> s \<noteq> LOCK_STATE_NOT_SUPPORTED"

definition device_is_erase_capable :: "device_security_capabilities \<Rightarrow> bool" where
  "device_is_erase_capable c \<longleftrightarrow> erase_crypto_capable c"

section \<open>Supported devices\<close>

definition FORMAT_BYTE_STANDARD :: u16 where "FORMAT_BYTE_STANDARD = 0x301"
definition FORMAT_BLOCK_STANDARD :: u16 where "FORMAT_BLOCK_STANDARD = 0x201"

definition SWAP_BYTES_U16 :: "u16 \<Rightarrow> u16" where
  "SWAP_BYTES_U16 v = (drop_bit 8 v AND 0x00FF) OR (push_bit 8 v AND 0xFF00)"

function ifc_supported_loop :: "u16 list \<Rightarrow> nat \<Rightarrow> bool \<Rightarrow> bool option" where
  "ifc_supported_loop codes i supported =
     (if i < NVM_MAX_IFCS_PER_DIMM then do {
        c \<leftarrow> rd codes i;
        ifc_supported_loop codes (Suc i) (if c = FORMAT_BYTE_STANDARD \<or> c = FORMAT_BLOCK_STANDARD then True else supported) }
      else Some supported)"
  by pat_completeness auto
termination
  by (relation "measure (\<lambda>(cs, i, s). NVM_MAX_IFCS_PER_DIMM - i)") auto

declare ifc_supported_loop.simps [simp del]

definition is_device_interface_format_supported :: "nvm_topology \<Rightarrow> bool option" where
  "is_device_interface_format_supported t = ifc_supported_loop (tp_fmt_interface_codes t) 0 False"

definition is_subsystem_vendor_id_supported :: "u16 \<Rightarrow> bool" where
  "is_subsystem_vendor_id_supported vendor_id \<longleftrightarrow> vendor_id = SWAP_BYTES_U16 0x8980"

definition SUPPORTED_DEVICE_IDS :: "u16 list" where
  "SUPPORTED_DEVICE_IDS = [SWAP_BYTES_U16 0x0979, SWAP_BYTES_U16 0x097A, SWAP_BYTES_U16 0x097B]"

definition is_subsystem_device_id_supported :: "u16 \<Rightarrow> bool" where
  "is_subsystem_device_id_supported device_id \<longleftrightarrow> device_id \<in> set SUPPORTED_DEVICE_IDS"

definition is_device_subsystem_controller_supported :: "nvm_topology \<Rightarrow> bool" where
  "is_device_subsystem_controller_supported t \<longleftrightarrow>
     is_subsystem_vendor_id_supported (tp_subsystem_vendor_id t) \<and>
     is_subsystem_device_id_supported (tp_subsystem_device_id t)"

definition get_fw_api_major_version :: "u16 \<Rightarrow> u32" where
  "get_fw_api_major_version fw_api_version = ucast (bcd_byte_to_dec (ucast (drop_bit 8 fw_api_version AND 0xFF)))"

definition get_fw_api_minor_version :: "u16 \<Rightarrow> u32" where
  "get_fw_api_minor_version fw_api_version = ucast (bcd_byte_to_dec (ucast (fw_api_version AND 0xFF)))"

definition is_fw_api_version_supported :: "u32 \<Rightarrow> u32 \<Rightarrow> bool" where
  "is_fw_api_version_supported major_version minor_version \<longleftrightarrow> version_cmp major_version minor_version 1 2 \<ge> 0"

definition is_fw_api_version_downgraded :: "u32 \<Rightarrow> u32 \<Rightarrow> u32 \<Rightarrow> u32 \<Rightarrow> bool" where
  "is_fw_api_version_downgraded current_major current_minor img_major img_minor \<longleftrightarrow>
     img_major < current_major \<or> (img_major = current_major \<and> img_minor < current_minor)"

definition check_firmware_revision :: "u16 \<Rightarrow> bool" where
  "check_firmware_revision fw_api_version =
     is_fw_api_version_supported (get_fw_api_major_version fw_api_version) (get_fw_api_minor_version fw_api_version)"

definition MANAGEMENT_INVALIDCONFIG :: nat where "MANAGEMENT_INVALIDCONFIG = 2"

definition set_device_manageability_from_firmware :: "u16 \<Rightarrow> nat \<Rightarrow> nat" where
  "set_device_manageability_from_firmware api_ver manageability =
     (if \<not> check_firmware_revision api_ver then MANAGEMENT_INVALIDCONFIG else manageability)"

section \<open>Interface format codes and capabilities\<close>

function has_ifc_loop :: "u16 list \<Rightarrow> u16 \<Rightarrow> nat \<Rightarrow> bool option" where
  "has_ifc_loop codes ifc i =
     (if i < NVM_MAX_IFCS_PER_DIMM then do {
        c \<leftarrow> rd codes i;
        if c = ifc then Some True else has_ifc_loop codes ifc (Suc i) }
      else Some False)"
  by pat_completeness auto
termination
  by (relation "measure (\<lambda>(cs, k, i). NVM_MAX_IFCS_PER_DIMM - i)") auto

function add_ifc_to_codes_loop :: "u16 \<Rightarrow> u16 list \<Rightarrow> nat \<Rightarrow> u16 list option" where
  "add_ifc_to_codes_loop ifc codes i =
     (if i < NVM_MAX_IFCS_PER_DIMM then do {
        c \<leftarrow> rd codes i;
        if ifc = c then Some codes
        else if c = 0 then wr codes i ifc
        else add_ifc_to_codes_loop ifc codes (Suc i) }
      else Some codes)"
  by pat_completeness auto
termination
  by (relation "measure (\<lambda>(k, cs, i). NVM_MAX_IFCS_PER_DIMM - i)") auto

declare has_ifc_loop.simps [simp del] add_ifc_to_codes_loop.simps [simp del]

definition device_has_interface_format_code :: "'a dimm_identity_scheme \<Rightarrow> u16 \<Rightarrow> bool option" where
  "device_has_interface_format_code p_dev ifc = has_ifc_loop (disc_interface_format_codes p_dev) ifc 0"

definition add_ifc_to_device :: "u16 \<Rightarrow> 'a dimm_identity_scheme \<Rightarrow> 'a dimm_identity_scheme option" where
  "add_ifc_to_device ifc p_device =
     (if ifc \<noteq> 0 then
        map_option (\<lambda>cs. p_device\<lparr>disc_interface_format_codes := cs\<rparr>)
          (add_ifc_to_codes_loop ifc (disc_interface_format_codes p_device) 0)
      else Some p_device)"

definition add_ifcs_from_identify_dimm_to_device ::
    "'a dimm_identity_scheme \<Rightarrow> u16 \<Rightarrow> u16 \<Rightarrow> 'a dimm_identity_scheme option" where
  "add_ifcs_from_identify_dimm_to_device p_device ifc ifce = do {
     d \<leftarrow> add_ifc_to_device ifc p_device;
     add_ifc_to_device ifce d }"

definition convert_sku_to_device_capabilities :: "u32 \<Rightarrow> device_capabilities" where
  "convert_sku_to_device_capabilities sku_bits =
     \<lparr>die_sparing_capable = (sku_bits AND 8 \<noteq> 0), memory_mode_capable = (sku_bits AND 1 \<noteq> 0),
      storage_mode_capable = (sku_bits AND 2 \<noteq> 0), app_direct_mode_capable = (sku_bits AND 4 \<noteq> 0)\<rparr>"

definition update_device_mode_capabilities_from_interface_format_codes ::
    "'a dimm_identity_scheme \<Rightarrow> 'a dimm_identity_scheme option" where
  "update_device_mode_capabilities_from_interface_format_codes p_dev = do {
     let caps = disc_device_capabilities p_dev;
     no_byte \<leftarrow> (if app_direct_mode_capable caps
                 then map_option Not (device_has_interface_format_code p_dev FORMAT_BYTE_STANDARD) else Some False);
     let caps1 = (if no_byte then caps\<lparr>app_direct_mode_capable := False\<rparr> else caps);
     no_block \<leftarrow> (if storage_mode_capable caps1
                  then map_option Not (device_has_interface_format_code p_dev FORMAT_BLOCK_STANDARD) else Some False);
     let caps2 = (if no_block then caps1\<lparr>storage_mode_capable := False\<rparr> else caps1);
     Some (p_dev\<lparr>disc_device_capabilities := caps2\<rparr>) }"

definition calculate_device_capabilities :: "'a dimm_identity_scheme \<Rightarrow> 'a dimm_identity_scheme option" where
  "calculate_device_capabilities p_dev =
     update_device_mode_capabilities_from_interface_format_codes
       (p_dev\<lparr>disc_device_capabilities := convert_sku_to_device_capabilities (disc_dimm_sku p_dev)\<rparr>)"

definition map_sku_security_capabilities :: "u32 \<Rightarrow> device_security_capabilities" where
  "map_sku_security_capabilities dimm_sku =
     (let enc = (drop_bit 17 dimm_sku AND 1 \<noteq> 0) in
      \<lparr>passphrase_capable = enc, unlock_device_capable = enc, erase_crypto_capable = enc\<rparr>)"

section \<open>Capacities\<close>

definition MULTIPLES_TO_BYTES :: "u32 \<Rightarrow> u64" where
  "MULTIPLES_TO_BYTES v = 4096 * ucast v"

record pt_payload_get_dimm_partition_info =
  pi_volatile_capacity :: u32
  pi_start_volatile :: u64
  pi_pmem_capacity :: u32
  pi_start_pmem :: u64
  pi_raw_capacity :: u32

record device_capacities =
  dc_capacity :: u64
  dc_memory_capacity :: u64
  dc_app_direct_capacity :: u64
  dc_mirrored_app_direct_capacity :: u64
  dc_storage_capacity :: u64
  dc_unconfigured_capacity :: u64
  dc_inaccessible_capacity :: u64
  dc_reserved_capacity :: u64

definition zero_capacities :: device_capacities where
  "zero_capacities =
     \<lparr>dc_capacity = 0, dc_memory_capacity = 0, dc_app_direct_capacity = 0,
      dc_mirrored_app_direct_capacity = 0, dc_storage_capacity = 0, dc_unconfigured_capacity = 0,
      dc_inaccessible_capacity = 0, dc_reserved_capacity = 0\<rparr>"

datatype volatile_mode = VOLATILE_MODE_1LM | VOLATILE_MODE_MEMORY | VOLATILE_MODE_AUTO | VOLATILE_MODE_UNKNOWN

text \<open>What the capacity computation uses of \<open>struct nvm_capabilities\<close>.\<close>

record nvm_capabilities =
  cap_memory_mode :: bool
  cap_app_direct_mode :: bool
  cap_storage_mode :: bool
  cap_mixed_sku :: bool
  cap_current_volatile_mode :: volatile_mode

definition MIRRORED_INTERLEAVE :: "u64 \<Rightarrow> bool" where
  "MIRRORED_INTERLEAVE attributes \<longleftrightarrow> attributes AND 0x00010000 = 0x00010000"

text \<open>\<open>pi\<close>: the result of \<open>get_partition_info\<close> and the payload.\<close>

definition check_sku_violation_for_memory_mode ::
    "int \<times> pt_payload_get_dimm_partition_info \<Rightarrow> 'a dimm_identity_scheme \<Rightarrow> bool \<Rightarrow> int \<times> bool" where
  "check_sku_violation_for_memory_mode pi p_discovery p_sku_violation =
     (if disc_dimm_sku p_discovery AND 1 = 0 then
        (fst pi, if fst pi = NVM_SUCCESS \<and> pi_volatile_capacity (snd pi) > 0 then True else p_sku_violation)
      else (NVM_SUCCESS, p_sku_violation))"

text \<open>One interleave set: the first entry of the DIMM counts.\<close>

function ad_dimm_loop ::
    "'b nvm_interleave_set_scheme \<Rightarrow> u32 \<Rightarrow> nat \<Rightarrow> u64 \<times> u64 \<Rightarrow> (u64 \<times> u64) option" where
  "ad_dimm_loop s handle dimm_idx acc =
     (if dimm_idx < unat (ni_dimm_count s) then do {
        h \<leftarrow> rd (ni_dimms s) dimm_idx;
        if h = handle then do {
          dimm_size \<leftarrow> rd (ni_dimm_sizes s) dimm_idx;
          Some (if MIRRORED_INTERLEAVE (ni_attributes s)
                then (fst acc + dimm_size * 2, snd acc + dimm_size)
                else (fst acc + dimm_size, snd acc)) }
        else ad_dimm_loop s handle (Suc dimm_idx) acc }
      else Some acc)"
  by pat_completeness auto
termination
  by (relation "measure (\<lambda>(s, h, i, acc). unat (ni_dimm_count s) - i)") auto

function ad_set_loop ::
    "'b nvm_interleave_set_scheme list \<Rightarrow> u32 \<Rightarrow> nat \<Rightarrow> nat \<Rightarrow> u64 \<times> u64 \<Rightarrow> (u64 \<times> u64) option" where
  "ad_set_loop sets handle set_count iset_idx acc =
     (if iset_idx < set_count then do {
        s \<leftarrow> rd sets iset_idx;
        acc' \<leftarrow> ad_dimm_loop s handle 0 acc;
        ad_set_loop sets handle set_count (Suc iset_idx) acc' }
      else Some acc)"
  by pat_completeness auto
termination
  by (relation "measure (\<lambda>(ss, h, n, i, acc). n - i)") auto

declare ad_dimm_loop.simps [simp del] ad_set_loop.simps [simp del]

text \<open>
  \<open>isets\<close>: the result of \<open>get_interleave_set_count\<close>, and the result of \<open>get_interleave_sets\<close> with the sets.
\<close>

definition get_app_direct_capacity_on_device ::
    "int \<times> int \<times> 'b nvm_interleave_set_scheme list \<Rightarrow> u32 \<Rightarrow> (int \<times> u64 \<times> u64) option" where
  "get_app_direct_capacity_on_device isets handle =
     (case isets of (count, set_count, sets) \<Rightarrow>
        if count < 0 then Some (count, 0, 0)
        else if count > 0 then
          if set_count < 0 then Some (set_count, 0, 0)
          else if set_count > 0 then do {
            (ad, mirrored) \<leftarrow> ad_set_loop sets handle (nat set_count) 0 (0, 0);
            Some (NVM_SUCCESS, ad, mirrored) }
          else Some (NVM_SUCCESS, 0, 0)
        else Some (NVM_SUCCESS, 0, 0))"

definition check_sku_violation_for_appdirect_mode ::
    "int \<times> int \<times> 'b nvm_interleave_set_scheme list \<Rightarrow> 'a dimm_identity_scheme \<Rightarrow> (int \<times> bool) option" where
  "check_sku_violation_for_appdirect_mode isets p_discovery =
     (if disc_dimm_sku p_discovery AND 4 = 0 then do {
        (rc, ad_capacity, _) \<leftarrow> get_app_direct_capacity_on_device isets (disc_handle p_discovery);
        Some (rc, rc = NVM_SUCCESS \<and> ad_capacity > 0) }
      else Some (NVM_SUCCESS, False))"

text \<open>The restriction by the capabilities of the platform software and of the DIMM.\<close>

definition restrict_capacities ::
    "nvm_capabilities \<Rightarrow> device_capabilities \<Rightarrow> device_capacities \<Rightarrow> device_capacities" where
  "restrict_capacities p_caps dimm c =
     (let raw_capacity = dc_capacity c;
          memory_capacity = dc_memory_capacity c;
          pm_capacity = dc_app_direct_capacity c + dc_unconfigured_capacity c in
      if (\<not> cap_memory_mode p_caps \<and> \<not> cap_app_direct_mode p_caps \<and> \<not> cap_storage_mode p_caps)
         \<or> cap_mixed_sku p_caps
         \<or> (\<not> memory_mode_capable dimm \<and> \<not> app_direct_mode_capable dimm \<and> \<not> storage_mode_capable dimm)
      then c\<lparr>dc_inaccessible_capacity := dc_inaccessible_capacity c + raw_capacity,
             dc_memory_capacity := 0, dc_app_direct_capacity := 0, dc_mirrored_app_direct_capacity := 0,
             dc_storage_capacity := 0, dc_unconfigured_capacity := 0\<rparr>
      else if memory_capacity > 0 \<and> (\<not> cap_memory_mode p_caps \<or> \<not> memory_mode_capable dimm)
      then c\<lparr>dc_inaccessible_capacity := dc_inaccessible_capacity c + memory_capacity, dc_memory_capacity := 0\<rparr>
      else if pm_capacity > 0 then
        if (\<not> cap_app_direct_mode p_caps \<and> \<not> cap_storage_mode p_caps)
           \<or> (\<not> app_direct_mode_capable dimm \<and> \<not> storage_mode_capable dimm)
        then c\<lparr>dc_inaccessible_capacity := dc_inaccessible_capacity c + pm_capacity,
               dc_app_direct_capacity := 0, dc_mirrored_app_direct_capacity := 0, dc_storage_capacity := 0,
               dc_unconfigured_capacity := 0, dc_reserved_capacity := 0\<rparr>
        else if dc_app_direct_capacity c > 0 \<and> (\<not> cap_app_direct_mode p_caps \<or> \<not> app_direct_mode_capable dimm)
        then c\<lparr>dc_inaccessible_capacity := dc_inaccessible_capacity c + dc_app_direct_capacity c,
               dc_app_direct_capacity := 0, dc_mirrored_app_direct_capacity := 0\<rparr>
        else if dc_storage_capacity c > 0 \<and> (\<not> cap_storage_mode p_caps \<or> \<not> storage_mode_capable dimm)
        then c\<lparr>dc_storage_capacity :=
                 (if dc_storage_capacity c > dc_unconfigured_capacity c
                  then dc_storage_capacity c - dc_unconfigured_capacity c else 0)\<rparr>
        else c
      else c)"

definition update_capacities_based_on_sku ::
    "int \<times> 'a dimm_identity_scheme list option \<Rightarrow> u32 \<Rightarrow> nvm_capabilities \<Rightarrow> device_capacities \<Rightarrow>
     (int \<times> device_capacities) option" where
  "update_capacities_based_on_sku devices handle p_caps p_capacities = do {
     (rc, discovery) \<leftarrow> lookup_dev_handle devices handle;
     if rc = NVM_SUCCESS then do {
       x \<leftarrow> discovery;
       Some (rc, restrict_capacities p_caps (disc_device_capabilities x) p_capacities) }
     else Some (rc, p_capacities) }"

definition is_in_memory_mode :: "nvm_capabilities \<Rightarrow> pt_payload_get_dimm_partition_info \<Rightarrow> bool" where
  "is_in_memory_mode p_caps p_partition_info \<longleftrightarrow>
     cap_current_volatile_mode p_caps = VOLATILE_MODE_MEMORY \<or>
     (cap_current_volatile_mode p_caps = VOLATILE_MODE_AUTO \<and> pi_volatile_capacity p_partition_info \<noteq> 0)"

text \<open>The capacities before the restriction.\<close>

definition raw_capacities ::
    "nvm_capabilities \<Rightarrow> pt_payload_get_dimm_partition_info \<Rightarrow> u64 \<Rightarrow> u64 \<Rightarrow> device_capacities" where
  "raw_capacities p_caps pi ad_capacity mirrored_ad_capacity =
     (let capacity = MULTIPLES_TO_BYTES (pi_raw_capacity pi);
          pm_capacity = MULTIPLES_TO_BYTES (pi_pmem_capacity pi);
          memory = (if is_in_memory_mode p_caps pi then MULTIPLES_TO_BYTES (pi_volatile_capacity pi) else 0) in
      zero_capacities
        \<lparr>dc_capacity := capacity, dc_memory_capacity := memory,
         dc_storage_capacity := pm_capacity - mirrored_ad_capacity * 2,
         dc_app_direct_capacity := ad_capacity, dc_mirrored_app_direct_capacity := mirrored_ad_capacity,
         dc_reserved_capacity := capacity - pm_capacity - memory,
         dc_unconfigured_capacity := pm_capacity - ad_capacity\<rparr>)"

definition get_dimm_capacities ::
    "int \<times> 'a dimm_identity_scheme list option \<Rightarrow> int \<times> int \<times> 'b nvm_interleave_set_scheme list \<Rightarrow>
     int \<times> pt_payload_get_dimm_partition_info \<Rightarrow> 'a dimm_identity_scheme \<Rightarrow> nvm_capabilities \<Rightarrow>
     device_capacities option \<Rightarrow> (int \<times> device_capacities option) option" where
  "get_dimm_capacities devices isets pi p_dimm p_caps p_capacities =
     (if p_capacities = None then Some (NVM_ERR_UNKNOWN, None)
      else do {
        (ad_rc, ad, mirrored) \<leftarrow> get_app_direct_capacity_on_device isets (disc_handle p_dimm);
        if fst pi = NVM_SUCCESS then do {
          let c = raw_capacities p_caps (snd pi)
            (if ad_rc \<noteq> NVM_SUCCESS then 0 else ad) (if ad_rc \<noteq> NVM_SUCCESS then 0 else mirrored);
          (rc, c') \<leftarrow> update_capacities_based_on_sku devices (disc_handle p_dimm) p_caps c;
          Some (rc, Some c') }
        else Some (fst pi, Some zero_capacities) })"

end
