(* ===== verification/Pcat.thy ===== *)
theory Pcat
  imports Nfit Utility Device_Capacities
begin

text \<open>
  The platform capability table of the BIOS (\<open>lib/platform_capabilities.c\<close>, and its readers in
  \<open>lib/capabilities.c\<close> and \<open>lib/system.c\<close>). The table is the structure \<open>bios_capabilities\<close> as bytes: an
  ACPI header, with the length of the whole in it, and extension tables up to that length, in a buffer
  of 4096 bytes.
\<close>

unbundle bit_operations_syntax

definition PCAT_MAX_LEN :: nat where "PCAT_MAX_LEN = 4096"
definition PCAT_TABLE_SIGNATURE :: bytes where "PCAT_TABLE_SIGNATURE = [80, 67, 65, 84]"

abbreviation PCAT_TABLE_SIZE :: nat where "PCAT_TABLE_SIZE \<equiv> ACPI_HEADER_LEN"
abbreviation PCAT_TABLE_PLATFORM_INFO :: u16 where "PCAT_TABLE_PLATFORM_INFO \<equiv> 0"
abbreviation PCAT_TABLE_MEMORY_INTERLEAVE_INFO :: u16 where "PCAT_TABLE_MEMORY_INTERLEAVE_INFO \<equiv> 1"
abbreviation PCAT_TABLE_SOCKET_INFO :: u16 where "PCAT_TABLE_SOCKET_INFO \<equiv> 6"

section \<open>The table\<close>

text \<open>\<open>chunk\<close> and \<open>table_file\<close> are the environment of \<open>get_acpi_table\<close>.\<close>

definition get_pcat :: "nat \<Rightarrow> bytes option \<Rightarrow> bytes option \<Rightarrow> (int \<times> bytes option) option" where
  "get_pcat chunk table_file p_pcat =
     (case p_pcat of
        None \<Rightarrow> Some (NVM_ERR_INVALIDPARAMETER, None)
      | Some p \<Rightarrow> do {
          p0 \<leftarrow> wr_bytes p 0 (replicate PCAT_MAX_LEN 0);
          (rc, p') \<leftarrow> get_acpi_table chunk table_file (PCAT_TABLE_SIGNATURE @ [0]) (Some p0) PCAT_MAX_LEN;
          Some (if rc < 0 then rc else NVM_SUCCESS, p') })"

text \<open>
  The search for an extension table: the result (the code of a bad length is lost with the rest when
  nothing is found) as an \<open>NVM_UINT32\<close>.
\<close>

function ext_table_loop :: "bytes \<Rightarrow> nat \<Rightarrow> u16 \<Rightarrow> nat \<Rightarrow> nat option option" where
  "ext_table_loop p limit type offset =
     (if offset < limit then do {
        t \<leftarrow> rd16 p offset;
        len \<leftarrow> rd16 p (offset + 2);
        if len = 0 \<or> unat len + offset > limit then Some None
        else if t = type then Some (Some offset)
        else ext_table_loop p limit type (offset + unat len) }
      else Some None)"
  by pat_completeness auto
termination
  by (relation "measure (\<lambda>(p, limit, type, offset). limit - offset)") (auto simp: unat_gt_0 intro!: diff_less_mono2)

declare ext_table_loop.simps [simp del]

definition get_offset_of_ext_table :: "bytes option \<Rightarrow> u16 \<Rightarrow> nat \<Rightarrow> u32 option" where
  "get_offset_of_ext_table p_caps type offset =
     (case p_caps of
        None \<Rightarrow> Some (- 1)
      | Some p \<Rightarrow> do {
          limit \<leftarrow> acpi_length p;
          found \<leftarrow> ext_table_loop p limit type offset;
          Some (case found of None \<Rightarrow> - 1 | Some off \<Rightarrow> word_of_nat off) })"

section \<open>Platform capabilities\<close>

datatype app_direct_mode = APP_DIRECT_MODE_DISABLED | APP_DIRECT_MODE_ENABLED | APP_DIRECT_MODE_UNKNOWN

definition NVM_INTERLEAVE_FORMATS :: nat where "NVM_INTERLEAVE_FORMATS = 32"

record memory_capabilities =
  supported :: bool
  interleave_alignment_size :: u16
  interleave_formats_count :: nat
  interleave_formats :: "interleave_format list"

record platform_capabilities =
  bios_config_support :: bool
  bios_runtime_support :: bool
  memory_mirror_supported :: bool
  storage_mode_supported :: bool
  memory_spare_supported :: bool
  memory_migration_supported :: bool
  one_lm_mode :: memory_capabilities
  mc_memory_mode :: memory_capabilities
  mc_app_direct_mode :: memory_capabilities
  current_volatile_mode :: volatile_mode
  allowed_volatile_mode :: volatile_mode
  current_app_direct_mode :: app_direct_mode

definition zero_memory_capabilities :: memory_capabilities where
  "zero_memory_capabilities =
     \<lparr>supported = False, interleave_alignment_size = 0, interleave_formats_count = 0,
      interleave_formats = replicate NVM_INTERLEAVE_FORMATS
        \<lparr>fmt_recommended = False, fmt_channel = INTERLEAVE_SIZE_NONE, fmt_imc = INTERLEAVE_SIZE_NONE,
         fmt_ways = INTERLEAVE_WAYS_0\<rparr>\<rparr>"

definition zero_platform_capabilities :: platform_capabilities where
  "zero_platform_capabilities =
     \<lparr>bios_config_support = False, bios_runtime_support = False, memory_mirror_supported = False,
      storage_mode_supported = False, memory_spare_supported = False, memory_migration_supported = False,
      one_lm_mode = zero_memory_capabilities, mc_memory_mode = zero_memory_capabilities,
      mc_app_direct_mode = zero_memory_capabilities, current_volatile_mode = VOLATILE_MODE_1LM,
      allowed_volatile_mode = VOLATILE_MODE_1LM, current_app_direct_mode = APP_DIRECT_MODE_DISABLED\<rparr>"

definition get_current_app_direct_mode :: "u8 \<Rightarrow> app_direct_mode" where
  "get_current_app_direct_mode current_mode =
     (let m = drop_bit 2 current_mode AND 3 in
      if m = 0 then APP_DIRECT_MODE_DISABLED
      else if m = 1 then APP_DIRECT_MODE_ENABLED
      else APP_DIRECT_MODE_UNKNOWN)"

text \<open>The two bits of \<open>CURRENT_VOLATILE_MODE\<close> and \<open>ALLOWED_VOLATILE_MODE\<close>.\<close>

definition volatile_mode_of_bits :: "u8 \<Rightarrow> volatile_mode" where
  "volatile_mode_of_bits b =
     (if b = 0 then VOLATILE_MODE_1LM else if b = 1 then VOLATILE_MODE_MEMORY
      else if b = 2 then VOLATILE_MODE_AUTO else VOLATILE_MODE_UNKNOWN)"

definition platform_info_table :: "bytes \<Rightarrow> nat \<Rightarrow> platform_capabilities \<Rightarrow> platform_capabilities option" where
  "platform_info_table p offset caps = do {
     mgmt_sw_config_support \<leftarrow> rd p (offset + 4);
     mem_mode_capabilities \<leftarrow> rd p (offset + 5);
     current_mem_mode \<leftarrow> rd p (offset + 6);
     pmem_ras_capabilities \<leftarrow> rd p (offset + 7);
     let on = (\<lambda>m c. if mem_mode_capabilities AND m \<noteq> 0 then c\<lparr>supported := True\<rparr> else c);
     Some (caps\<lparr>
       bios_config_support := bit mgmt_sw_config_support 0,
       bios_runtime_support := bit mgmt_sw_config_support 1,
       current_volatile_mode := volatile_mode_of_bits (current_mem_mode AND 3),
       allowed_volatile_mode := volatile_mode_of_bits (drop_bit 4 current_mem_mode AND 3),
       current_app_direct_mode := get_current_app_direct_mode current_mem_mode,
       memory_mirror_supported := bit pmem_ras_capabilities 0,
       memory_spare_supported := bit pmem_ras_capabilities 1,
       memory_migration_supported := bit pmem_ras_capabilities 2,
       one_lm_mode := on 1 (one_lm_mode caps),
       mc_memory_mode := on 2 (mc_memory_mode caps),
       mc_app_direct_mode := on 4 (mc_app_direct_mode caps),
       storage_mode_supported := (storage_mode_supported caps \<or> mem_mode_capabilities AND 16 \<noteq> 0)\<rparr>) }"

text \<open>One entry for every supported number of ways of a format; nothing bounds the entries.\<close>

function ways_loop :: "u32 \<Rightarrow> nat \<Rightarrow> memory_capabilities \<Rightarrow> memory_capabilities option" where
  "ways_loop format way_bit p_cap =
     (if way_bit \<le> 8 then
        (let cr_channel_ways = drop_bit PCAT_FORMAT_WAYS_SHIFT format AND 0x1ff in
         if bit cr_channel_ways way_bit then do {
           f \<leftarrow> rd (interleave_formats p_cap) (interleave_formats_count p_cap);
           f' \<leftarrow> interleave_format_to_struct format (Some f);
           fs \<leftarrow> wr (interleave_formats p_cap) (interleave_formats_count p_cap)
                   (f'\<lparr>fmt_ways := interleave_way_to_enum (cr_channel_ways AND push_bit way_bit 1)\<rparr>);
           ways_loop format (Suc way_bit)
             (p_cap\<lparr>interleave_formats := fs, interleave_formats_count := Suc (interleave_formats_count p_cap)\<rparr>) }
         else ways_loop format (Suc way_bit) p_cap)
      else Some p_cap)"
  by pat_completeness auto
termination
  by (relation "measure (\<lambda>(fmt, w, c). 9 - w)") auto

function formats_loop :: "bytes \<Rightarrow> nat \<Rightarrow> nat \<Rightarrow> nat \<Rightarrow> memory_capabilities \<Rightarrow> memory_capabilities option" where
  "formats_loop p offset n j p_cap =
     (if j < n then do {
        format \<leftarrow> rd32 p (offset + 12 + 4 * j);
        p_cap' \<leftarrow> ways_loop format 0 p_cap;
        formats_loop p offset n (Suc j) p_cap' }
      else Some p_cap)"
  by pat_completeness auto
termination
  by (relation "measure (\<lambda>(p, off, n, j, c). n - j)") auto

declare ways_loop.simps [simp del] formats_loop.simps [simp del]

definition interleave_table :: "bytes \<Rightarrow> nat \<Rightarrow> memory_capabilities \<Rightarrow> memory_capabilities option" where
  "interleave_table p offset p_cap = do {
     align \<leftarrow> rd16 p (offset + 8);
     n \<leftarrow> rd16 p (offset + 10);
     formats_loop p offset (unat n) 0 (p_cap\<lparr>interleave_formats_count := 0, interleave_alignment_size := align\<rparr>) }"

text \<open>
  What one extension table does to the capabilities, and whether the loop goes on: an unknown memory
  mode leaves the loop over the tables, not only the switch.
\<close>

definition bios_ext_table :: "bytes \<Rightarrow> nat \<Rightarrow> u16 \<Rightarrow> platform_capabilities \<Rightarrow> (platform_capabilities \<times> bool) option" where
  "bios_ext_table p offset t caps =
     (if t = PCAT_TABLE_PLATFORM_INFO then map_option (\<lambda>c. (c, True)) (platform_info_table p offset caps)
      else if t = PCAT_TABLE_MEMORY_INTERLEAVE_INFO then do {
        memory_mode \<leftarrow> rd p (offset + 4);
        if memory_mode = 0 then
          map_option (\<lambda>c. (caps\<lparr>one_lm_mode := c\<rparr>, True)) (interleave_table p offset (one_lm_mode caps))
        else if memory_mode = 1 then
          map_option (\<lambda>c. (caps\<lparr>mc_memory_mode := c\<rparr>, True)) (interleave_table p offset (mc_memory_mode caps))
        else if memory_mode = 3 then
          map_option (\<lambda>c. (caps\<lparr>mc_app_direct_mode := c\<rparr>, True)) (interleave_table p offset (mc_app_direct_mode caps))
        else Some (caps, False) }
      else Some (caps, True))"

function bios_tables_loop ::
    "bytes \<Rightarrow> nat \<Rightarrow> nat \<Rightarrow> int \<times> platform_capabilities \<Rightarrow> (int \<times> platform_capabilities) option" where
  "bios_tables_loop p limit offset s =
     (if offset < limit then do {
        len \<leftarrow> rd16 p (offset + 2);
        if len = 0 \<or> unat len + offset > limit then Some (NVM_ERR_BADPCAT, snd s)
        else do {
          t \<leftarrow> rd16 p offset;
          (caps, go_on) \<leftarrow> bios_ext_table p offset t (snd s);
          if go_on then bios_tables_loop p limit (offset + unat len) (fst s, caps) else Some (fst s, caps) } }
      else Some s)"
  by pat_completeness auto
termination
  by (relation "measure (\<lambda>(p, limit, offset, s). limit - offset)") (auto simp: unat_gt_0 intro!: diff_less_mono2)

declare bios_tables_loop.simps [simp del]

section \<open>Sockets\<close>

record socket_sku =
  sock_id :: u16
  sock_mapped_memory_limit :: u64
  sock_total_mapped_memory :: u64
  sock_total_2lm_ddr_cache_memory :: u64
  is_capacity_skuing_supported :: bool

definition socket_info_table :: "bytes \<Rightarrow> nat \<Rightarrow> socket_sku \<Rightarrow> ((int \<times> socket_sku) option) option" where
  "socket_info_table p offset p_socket = do {
     node_id \<leftarrow> rd16 p (offset + 4);
     if node_id = sock_id p_socket then do {
       mapped_memory_limit \<leftarrow> rd64 p (offset + 8);
       total_mapped_memory \<leftarrow> rd64 p (offset + 16);
       cache \<leftarrow> rd64 p (offset + 24);
       Some (Some
         (if mapped_memory_limit = 0 \<or> total_mapped_memory \<ge> mapped_memory_limit \<or> total_mapped_memory = 0
          then NVM_ERR_BADPCAT else NVM_SUCCESS,
          p_socket\<lparr>sock_mapped_memory_limit := mapped_memory_limit, sock_total_mapped_memory := total_mapped_memory,
            sock_total_2lm_ddr_cache_memory := cache, is_capacity_skuing_supported := True\<rparr>)) }
     else Some None }"

function socket_tables_loop :: "bytes \<Rightarrow> nat \<Rightarrow> nat \<Rightarrow> int \<times> socket_sku \<Rightarrow> (int \<times> socket_sku) option" where
  "socket_tables_loop p limit offset s =
     (if offset < limit then do {
        len \<leftarrow> rd16 p (offset + 2);
        if len = 0 \<or> unat len + offset > limit then Some (NVM_ERR_BADPCAT, snd s)
        else do {
          t \<leftarrow> rd16 p offset;
          hit \<leftarrow> (if t = PCAT_TABLE_SOCKET_INFO then socket_info_table p offset (snd s) else Some None);
          (case hit of Some r \<Rightarrow> Some r
           | None \<Rightarrow> socket_tables_loop p limit (offset + unat len) s) } }
      else Some s)"
  by pat_completeness auto
termination
  by (relation "measure (\<lambda>(p, limit, offset, s). limit - offset)") (auto simp: unat_gt_0 intro!: diff_less_mono2)

declare socket_tables_loop.simps [simp del]

definition get_socket_sku :: "bytes \<Rightarrow> socket_sku \<Rightarrow> (int \<times> socket_sku) option" where
  "get_socket_sku p_pcat p_socket = do {
     limit \<leftarrow> acpi_length p_pcat;
     socket_tables_loop p_pcat limit PCAT_TABLE_SIZE
       (NVM_SUCCESS, p_socket\<lparr>sock_mapped_memory_limit := 0, sock_total_mapped_memory := 0,
          sock_total_2lm_ddr_cache_memory := 0, is_capacity_skuing_supported := False\<rparr>) }"

text \<open>The allocation of the table is not checked; \<open>get_pcat\<close> refuses a null pointer.\<close>

definition get_mapped_memory_info ::
    "nat \<Rightarrow> bytes option \<Rightarrow> bool \<Rightarrow> socket_sku option \<Rightarrow> (int \<times> socket_sku option) option" where
  "get_mapped_memory_info chunk table_file alloc p_socket =
     (case p_socket of
        None \<Rightarrow> Some (NVM_ERR_INVALIDPARAMETER, None)
      | Some sk \<Rightarrow> do {
          (rc, p) \<leftarrow> get_pcat chunk table_file (if alloc then Some (replicate PCAT_MAX_LEN 0) else None);
          if rc \<noteq> NVM_SUCCESS then Some (rc, p_socket)
          else do {
            b \<leftarrow> p;
            (rc', sk') \<leftarrow> get_socket_sku b sk;
            Some (rc', Some sk') } })"

definition get_pcat_revision :: "nat \<Rightarrow> bytes option \<Rightarrow> bool \<Rightarrow> u8 option \<Rightarrow> (int \<times> u8 option) option" where
  "get_pcat_revision chunk table_file alloc p_pcat_revision =
     (case p_pcat_revision of
        None \<Rightarrow> Some (NVM_ERR_INVALIDPARAMETER, None)
      | Some r \<Rightarrow>
          if \<not> alloc then Some (NVM_ERR_NOMEMORY, Some r)
          else do {
            (rc, p) \<leftarrow> get_pcat chunk table_file (Some (replicate PCAT_MAX_LEN 0));
            if rc = NVM_SUCCESS then do {
              b \<leftarrow> p;
              revision \<leftarrow> rd b 8;
              Some (rc, Some revision) }
            else Some (rc, Some r) })"

end
