(* ===== verification/Device_Fw.thy ===== *)
theory Device_Fw
  imports Device_Capacities
begin

text \<open>
  The firmware commands of \<open>lib/device_fw.c\<close>: the command structure that is passed through the driver,
  one operation per command, and the translation of the driver's status. The pass-through function is a
  parameter: given the state of the device and a command, it returns the code, the contents of the two
  output buffers after the call, and the new state. A payload is its bytes; the fields that are read are
  at the offsets of the packed structures of \<open>lib/fis_types.h\<close>.
\<close>

unbundle bit_operations_syntax

section \<open>Commands\<close>

record fw_cmd =
  cmd_device_handle :: u32
  cmd_opcode :: u8
  cmd_sub_opcode :: u8
  cmd_input_payload_size :: u32
  cmd_input_payload :: "bytes option"
  cmd_output_payload_size :: u32
  cmd_output_payload :: "bytes option"
  cmd_large_input_payload_size :: u32
  cmd_large_input_payload :: "bytes option"
  cmd_large_output_payload_size :: u32
  cmd_large_output_payload :: "bytes option"

type_synonym 'd passthrough = "'d \<Rightarrow> fw_cmd \<Rightarrow> int \<times> bytes \<times> bytes \<times> 'd"

abbreviation PT_IDENTIFY_DIMM :: u8 where "PT_IDENTIFY_DIMM \<equiv> 0x01"
abbreviation PT_GET_SEC_INFO :: u8 where "PT_GET_SEC_INFO \<equiv> 0x02"
abbreviation PT_SET_SEC_INFO :: u8 where "PT_SET_SEC_INFO \<equiv> 0x03"
abbreviation PT_GET_FEATURES :: u8 where "PT_GET_FEATURES \<equiv> 0x04"
abbreviation PT_SET_FEATURES :: u8 where "PT_SET_FEATURES \<equiv> 0x05"
abbreviation PT_GET_ADMIN_FEATURES :: u8 where "PT_GET_ADMIN_FEATURES \<equiv> 0x06"
abbreviation PT_GET_LOG :: u8 where "PT_GET_LOG \<equiv> 0x08"
abbreviation BIOS_EMULATED_COMMAND :: u8 where "BIOS_EMULATED_COMMAND \<equiv> 0xFD"

abbreviation SUBOP_ALARM_THRESHOLDS :: u8 where "SUBOP_ALARM_THRESHOLDS \<equiv> 0x01"
abbreviation SUBOP_OPT_CONFIG_DATA_POLICY :: u8 where "SUBOP_OPT_CONFIG_DATA_POLICY \<equiv> 0x06"
abbreviation SUBOP_SMART_HEALTH :: u8 where "SUBOP_SMART_HEALTH \<equiv> 0x00"
abbreviation SUBOP_FW_IMAGE_INFO :: u8 where "SUBOP_FW_IMAGE_INFO \<equiv> 0x01"
abbreviation SUBOP_MEM_INFO :: u8 where "SUBOP_MEM_INFO \<equiv> 0x03"
abbreviation SUBOP_LONG_OPERATION_STATUS :: u8 where "SUBOP_LONG_OPERATION_STATUS \<equiv> 0x04"
abbreviation SUBOP_ERROR_LOG :: u8 where "SUBOP_ERROR_LOG \<equiv> 0x05"
abbreviation SUBOP_FAILURE_ANALYSIS_DATA :: u8 where "SUBOP_FAILURE_ANALYSIS_DATA \<equiv> 0xFA"
abbreviation SUBOP_DDRT_IO_INIT_INFO :: u8 where "SUBOP_DDRT_IO_INIT_INFO \<equiv> 0x06"
abbreviation SUBOP_GET_BOOT_STATUS :: u8 where "SUBOP_GET_BOOT_STATUS \<equiv> 0x03"

text \<open>The size of a small payload structure, and a cleared one.\<close>

abbreviation SMALL_PAYLOAD :: nat where "SMALL_PAYLOAD \<equiv> 128"

text \<open>\<open>sizeof (struct pt_payload_smart_health)\<close>, more than a small payload holds.\<close>

abbreviation SMART_HEALTH_SIZE :: nat where "SMART_HEALTH_SIZE \<equiv> 139"

definition zeros :: "nat \<Rightarrow> bytes" where "zeros n = replicate n 0"

definition wr16 :: "bytes \<Rightarrow> nat \<Rightarrow> u16 \<Rightarrow> bytes option" where
  "wr16 b off v = wr_bytes b off (le_bytes 2 (unat v))"

text \<open>A cleared command for a device, and its payloads.\<close>

definition new_cmd :: "u32 \<Rightarrow> u8 \<Rightarrow> u8 \<Rightarrow> fw_cmd" where
  "new_cmd handle opcode sub_opcode =
     \<lparr>cmd_device_handle = handle, cmd_opcode = opcode, cmd_sub_opcode = sub_opcode,
      cmd_input_payload_size = 0, cmd_input_payload = None,
      cmd_output_payload_size = 0, cmd_output_payload = None,
      cmd_large_input_payload_size = 0, cmd_large_input_payload = None,
      cmd_large_output_payload_size = 0, cmd_large_output_payload = None\<rparr>"

definition with_input :: "bytes \<Rightarrow> fw_cmd \<Rightarrow> fw_cmd" where
  "with_input b c = c\<lparr>cmd_input_payload_size := of_nat (length b), cmd_input_payload := Some b\<rparr>"

definition with_output :: "bytes \<Rightarrow> fw_cmd \<Rightarrow> fw_cmd" where
  "with_output b c = c\<lparr>cmd_output_payload_size := of_nat (length b), cmd_output_payload := Some b\<rparr>"

definition run_get :: "'d passthrough \<Rightarrow> fw_cmd \<Rightarrow> 'd \<Rightarrow> int \<times> bytes \<times> 'd" where
  "run_get pt c d = (case pt d c of (rc, out, _, d') \<Rightarrow> (rc, out, d'))"

definition run_set :: "'d passthrough \<Rightarrow> fw_cmd \<Rightarrow> 'd \<Rightarrow> int \<times> 'd" where
  "run_set pt c d = (case pt d c of (rc, _, _, d') \<Rightarrow> (rc, d'))"

text \<open>The pass-through function that a caller may set; only one command uses it.\<close>

definition set_ioctl_passthrough_function :: "'d passthrough \<Rightarrow> 'd passthrough option \<Rightarrow> 'd passthrough option" where
  "set_ioctl_passthrough_function f s = Some f"

definition unset_ioctl_passthrough_function :: "'d passthrough option \<Rightarrow> 'd passthrough option" where
  "unset_ioctl_passthrough_function s = None"

definition local_ioctl_passthrough_cmd :: "'d passthrough \<Rightarrow> 'd passthrough option \<Rightarrow> 'd passthrough" where
  "local_ioctl_passthrough_cmd pt s = (case s of Some f \<Rightarrow> f | None \<Rightarrow> pt)"

section \<open>Identity and state of the device\<close>

definition fw_get_bsr :: "'d passthrough \<Rightarrow> u32 \<Rightarrow> bytes \<Rightarrow> 'd \<Rightarrow> int \<times> bytes \<times> 'd" where
  "fw_get_bsr pt handle p_bsr =
     run_get pt (with_output p_bsr (new_cmd handle BIOS_EMULATED_COMMAND SUBOP_GET_BOOT_STATUS))"

text \<open>The identification: interface format code at 6, the old version byte at 13, the extra code at 66, the version at 68.\<close>

definition fix_identify_dimm :: "bytes \<Rightarrow> bytes option" where
  "fix_identify_dimm p = do {
     api_ver \<leftarrow> rd16 p 68;
     if api_ver = 0 then do {
       rsrvd_a \<leftarrow> rd p 13;
       p1 \<leftarrow> wr16 p 68 (single_byte_bcd_to_two_byte_bcd rsrvd_a);
       ifc \<leftarrow> rd16 p1 6;
       if ifc = FORMAT_BLOCK_STANDARD then wr16 p1 66 FORMAT_BYTE_STANDARD
       else if ifc = FORMAT_BYTE_STANDARD then wr16 p1 66 FORMAT_BLOCK_STANDARD
       else Some p1 }
     else Some p }"

definition fw_get_identify_dimm :: "'d passthrough \<Rightarrow> u32 \<Rightarrow> bytes \<Rightarrow> 'd \<Rightarrow> (int \<times> bytes \<times> 'd) option" where
  "fw_get_identify_dimm pt handle p_id_dimm d =
     (case run_get pt (with_output p_id_dimm (new_cmd handle PT_IDENTIFY_DIMM 0x00)) d of (rc, p, d') \<Rightarrow>
        if rc = NVM_SUCCESS then do { p' \<leftarrow> fix_identify_dimm p; Some (rc, p', d') }
        else Some (rc, p, d'))"

definition fw_get_id_dimm_device_characteristics ::
    "'d passthrough \<Rightarrow> 'd passthrough option \<Rightarrow> u32 \<Rightarrow> 'd \<Rightarrow> int \<times> bytes \<times> 'd" where
  "fw_get_id_dimm_device_characteristics pt s handle =
     run_get (local_ioctl_passthrough_cmd pt s) (with_output (zeros 8) (new_cmd handle PT_IDENTIFY_DIMM 0x01))"

definition fw_get_security_state :: "'d passthrough \<Rightarrow> u32 \<Rightarrow> 'd \<Rightarrow> int \<times> bytes \<times> 'd" where
  "fw_get_security_state pt handle =
     run_get pt (with_output (zeros SMALL_PAYLOAD) (new_cmd handle PT_GET_SEC_INFO 0x00))"

definition fw_get_ddrt_io_init :: "'d passthrough \<Rightarrow> u32 \<Rightarrow> 'd \<Rightarrow> int \<times> bytes \<times> 'd" where
  "fw_get_ddrt_io_init pt handle =
     run_get pt (with_output (zeros SMALL_PAYLOAD) (new_cmd handle PT_GET_ADMIN_FEATURES SUBOP_DDRT_IO_INIT_INFO))"

definition fw_get_fw_image_info :: "'d passthrough \<Rightarrow> u32 \<Rightarrow> 'd \<Rightarrow> int \<times> bytes \<times> 'd" where
  "fw_get_fw_image_info pt handle =
     run_get pt (with_output (zeros SMALL_PAYLOAD) (new_cmd handle PT_GET_LOG SUBOP_FW_IMAGE_INFO))"

definition fw_get_status_for_long_op :: "'d passthrough \<Rightarrow> u32 \<Rightarrow> bytes \<Rightarrow> 'd \<Rightarrow> int \<times> bytes \<times> 'd" where
  "fw_get_status_for_long_op pt handle payload =
     run_get pt (with_output payload (new_cmd handle PT_GET_LOG SUBOP_LONG_OPERATION_STATUS))"

section \<open>Features\<close>

definition fw_get_alarm_thresholds :: "'d passthrough \<Rightarrow> u32 \<Rightarrow> 'd \<Rightarrow> int \<times> bytes \<times> 'd" where
  "fw_get_alarm_thresholds pt handle =
     run_get pt (with_output (zeros SMALL_PAYLOAD) (new_cmd handle PT_GET_FEATURES SUBOP_ALARM_THRESHOLDS))"

definition fw_set_alarm_thresholds :: "'d passthrough \<Rightarrow> u32 \<Rightarrow> bytes \<Rightarrow> 'd \<Rightarrow> int \<times> 'd" where
  "fw_set_alarm_thresholds pt handle p_thresholds =
     run_set pt (with_input p_thresholds (new_cmd handle PT_SET_FEATURES SUBOP_ALARM_THRESHOLDS))"

definition fw_get_config_data_policy :: "'d passthrough \<Rightarrow> u32 \<Rightarrow> bytes \<Rightarrow> 'd \<Rightarrow> int \<times> bytes \<times> 'd" where
  "fw_get_config_data_policy pt handle p_config_data =
     run_get pt (with_output p_config_data (new_cmd handle PT_GET_FEATURES SUBOP_OPT_CONFIG_DATA_POLICY))"

definition fw_set_config_data_policy :: "'d passthrough \<Rightarrow> u32 \<Rightarrow> bytes \<Rightarrow> 'd \<Rightarrow> int \<times> 'd" where
  "fw_set_config_data_policy pt handle p_config_data =
     run_set pt (with_input p_config_data (new_cmd handle PT_SET_FEATURES SUBOP_OPT_CONFIG_DATA_POLICY))"

section \<open>Logs\<close>

definition fw_get_smart_health :: "'d passthrough \<Rightarrow> u32 \<Rightarrow> 'd \<Rightarrow> int \<times> bytes \<times> 'd" where
  "fw_get_smart_health pt handle =
     run_get pt (with_output (zeros SMART_HEALTH_SIZE) (new_cmd handle PT_GET_LOG SUBOP_SMART_HEALTH))"

definition fw_get_memory_info_page :: "'d passthrough \<Rightarrow> u32 \<Rightarrow> u8 \<Rightarrow> nat \<Rightarrow> 'd \<Rightarrow> int \<times> bytes \<times> 'd" where
  "fw_get_memory_info_page pt handle page_num page_size =
     run_get pt (with_output (zeros page_size)
       (with_input (page_num # zeros 127) (new_cmd handle PT_GET_LOG SUBOP_MEM_INFO)))"

abbreviation DEV_FW_ERR_LOG_LOW :: u8 where "DEV_FW_ERR_LOG_LOW \<equiv> 0"
abbreviation DEV_FW_ERR_LOG_HIGH :: u8 where "DEV_FW_ERR_LOG_HIGH \<equiv> 1"
abbreviation DEV_FW_ERR_LOG_MEDIA :: u8 where "DEV_FW_ERR_LOG_MEDIA \<equiv> 0"
abbreviation DEV_FW_ERR_LOG_THERMAL :: u8 where "DEV_FW_ERR_LOG_THERMAL \<equiv> 2"
abbreviation DEV_FW_ERR_LOG_RETRIEVE_ENTRIES :: u8 where "DEV_FW_ERR_LOG_RETRIEVE_ENTRIES \<equiv> 0"
abbreviation DEV_FW_ERR_LOG_RETRIEVE_INFO_DATA :: u8 where "DEV_FW_ERR_LOG_RETRIEVE_INFO_DATA \<equiv> 4"
abbreviation DEV_FW_ERR_LOG_SMALL_PAYLOAD :: u8 where "DEV_FW_ERR_LOG_SMALL_PAYLOAD \<equiv> 0"
abbreviation DEV_FW_ERR_LOG_LARGE_PAYLOAD :: u8 where "DEV_FW_ERR_LOG_LARGE_PAYLOAD \<equiv> 8"

definition error_log_input :: "u8 \<Rightarrow> u16 \<Rightarrow> u16 \<Rightarrow> bytes" where
  "error_log_input params sequence_number request_count =
     params # le_bytes 2 (unat sequence_number) @ le_bytes 2 (unat request_count) @ zeros 123"

definition fw_get_fw_error_log_info_data ::
    "'d passthrough \<Rightarrow> u32 \<Rightarrow> u8 \<Rightarrow> u8 \<Rightarrow> bytes \<Rightarrow> 'd \<Rightarrow> int \<times> bytes \<times> 'd" where
  "fw_get_fw_error_log_info_data pt handle log_level log_type p_log_info_data =
     run_get pt (with_output p_log_info_data
       (with_input (error_log_input (log_level OR log_type OR DEV_FW_ERR_LOG_RETRIEVE_INFO_DATA
                      OR DEV_FW_ERR_LOG_SMALL_PAYLOAD) 0 0)
         (new_cmd handle PT_GET_LOG SUBOP_ERROR_LOG)))"

text \<open>The current sequence number is at offset 2, the oldest one at 4; \<open>log_info\<close> is the uninitialised local variable.\<close>

definition fw_get_fw_error_log_count ::
    "'d passthrough \<Rightarrow> bytes \<Rightarrow> u32 \<Rightarrow> u8 \<Rightarrow> u8 \<Rightarrow> 'd \<Rightarrow> (int \<times> 'd) option" where
  "fw_get_fw_error_log_count pt log_info handle log_level log_type d =
     (case fw_get_fw_error_log_info_data pt handle log_level log_type log_info d of (rc, li, d') \<Rightarrow>
        if rc = NVM_SUCCESS then do {
          current_sequence_number \<leftarrow> rd16 li 2;
          oldest_sequence_number \<leftarrow> rd16 li 4;
          Some (int (unat current_sequence_number) - int (unat oldest_sequence_number), d') }
        else Some (rc, d'))"

definition fw_get_fw_error_logs ::
    "'d passthrough \<Rightarrow> u32 \<Rightarrow> u32 \<Rightarrow> bytes option \<Rightarrow> u8 \<Rightarrow> u8 \<Rightarrow> 'd \<Rightarrow> int \<times> bytes option \<times> 'd" where
  "fw_get_fw_error_logs pt handle error_count p_large_buffer log_level log_type d =
     (if error_count \<noteq> 0 then
        let c = with_input (error_log_input (log_level OR log_type OR DEV_FW_ERR_LOG_RETRIEVE_ENTRIES
                              OR DEV_FW_ERR_LOG_LARGE_PAYLOAD) 0 (ucast error_count))
                  (new_cmd handle PT_GET_LOG SUBOP_ERROR_LOG) in
        (case pt d (c\<lparr>cmd_large_output_payload_size :=
                        error_count * (if log_type = DEV_FW_ERR_LOG_MEDIA then 32 else 16),
                      cmd_large_output_payload := p_large_buffer\<rparr>) of
           (rc, _, large, d') \<Rightarrow> (rc, map_option (\<lambda>_. large) p_large_buffer, d'))
      else (NVM_ERR_INVALIDPARAMETER, p_large_buffer, d))"

text \<open>One entry in a small payload; the entry starts after the count of two bytes.\<close>

definition fw_get_fw_error_log ::
    "'d passthrough \<Rightarrow> u32 \<Rightarrow> u16 \<Rightarrow> bytes option \<Rightarrow> nat \<Rightarrow> u8 \<Rightarrow> u8 \<Rightarrow> 'd \<Rightarrow> (int \<times> bytes option \<times> 'd) option" where
  "fw_get_fw_error_log pt handle seq_number p_small_buffer small_buffer_size log_level log_type d =
     (case run_get pt (with_output (zeros 127)
         (with_input (error_log_input (log_level OR log_type OR DEV_FW_ERR_LOG_RETRIEVE_ENTRIES
                        OR DEV_FW_ERR_LOG_SMALL_PAYLOAD) seq_number 1)
           (new_cmd handle PT_GET_LOG SUBOP_ERROR_LOG))) d of (rc, fw_error_log, d') \<Rightarrow>
        (case p_small_buffer of
           Some b \<Rightarrow>
             if rc = NVM_SUCCESS \<and> small_buffer_size \<ge> 125 then do {
               entry \<leftarrow> rd_bytes fw_error_log 2 125;
               b' \<leftarrow> wr_bytes b 0 entry;
               Some (rc, Some b', d') }
             else Some (rc, Some b, d')
         | None \<Rightarrow> Some (rc, None, d')))"

text \<open>Failure analysis data: the size of the output depends on the action, the first byte of the input.\<close>

definition fa_output_size :: "u8 \<Rightarrow> u32" where
  "fa_output_size action =
     (if action = 0x00 then 128
      else if action = 0x01 then 128
      else if action = 0x02 then 128
      else if action = 0x03 then 2 ^ 20
      else 0)"

definition fw_get_fa_data ::
    "'d passthrough \<Rightarrow> u32 \<Rightarrow> bytes \<Rightarrow> bytes option \<Rightarrow> 'd \<Rightarrow> (int \<times> bytes option \<times> 'd) option" where
  "fw_get_fa_data pt handle p_input_register p_output_data d = do {
     action \<leftarrow> rd p_input_register 0;
     (case pt d ((with_input p_input_register (new_cmd handle PT_GET_LOG SUBOP_FAILURE_ANALYSIS_DATA))
               \<lparr>cmd_output_payload_size := fa_output_size action, cmd_output_payload := p_output_data\<rparr>) of
        (rc, out, _, d') \<Rightarrow> Some (rc, map_option (\<lambda>_. out) p_output_data, d')) }"

section \<open>Status of the driver and of the mailbox\<close>

definition DSM_VENDOR_ERROR :: "u32 \<Rightarrow> u32" where
  "DSM_VENDOR_ERROR status = drop_bit 0 (status AND 0xFFFF)"

definition DSM_EXTENDED_ERROR :: "u32 \<Rightarrow> u32" where
  "DSM_EXTENDED_ERROR status = drop_bit 16 (status AND 0xFFFF0000)"

definition DSM_BACKGROUND_OP_STATE :: "u32 \<Rightarrow> u32" where
  "DSM_BACKGROUND_OP_STATE status = drop_bit 24 (status AND 0x1000000)"

definition fw_mb_err_to_nvm_lib_err :: "u32 \<Rightarrow> int" where
  "fw_mb_err_to_nvm_lib_err status =
     (let e = DSM_EXTENDED_ERROR status in
      if e = 0x00 then NVM_ERR_TIMEOUT
      else if e = 0x01 then NVM_ERR_INVALIDPARAMETER
      else if e = 0x02 then NVM_ERR_DATATRANSFERERROR
      else if e = 0x03 then NVM_ERR_DEVICEERROR
      else if e = 0x04 then NVM_ERR_NOTSUPPORTED
      else if e = 0x05 then NVM_ERR_DEVICEBUSY
      else if e = 0x06 then NVM_ERR_BADPASSPHRASE
      else if e = 0x07 then NVM_ERR_BADFIRMWARE
      else if e = 0x08 then NVM_ERR_BADSECURITYSTATE
      else if e = 0x09 then NVM_ERR_DEVICEERROR
      else if e = 0x0A then NVM_ERR_DEVICEERROR
      else if e = 0x0B then NVM_ERR_DEVICEERROR
      else if e = 0x0D then NVM_ERR_BADFIRMWARE
      else if e = 0x0E then NVM_ERR_NOTSUPPORTED
      else if e = 0x0F then NVM_ERR_NOTSUPPORTED
      else if e = 0x10 then NVM_ERR_DEVICEERROR
      else if e = 0x11 then NVM_ERR_NOTSUPPORTED
      else if e = 0x12 then NVM_ERR_DEVICEBUSY
      else if e = 0x14 then NVM_ERR_DEVICEERROR
      else if e = 0x15 then NVM_ERR_FWALREADYSTAGED
      else if e = 0x16 then NVM_ERR_DEVICEERROR
      else NVM_ERR_DEVICEERROR)"

definition dsm_err_to_nvm_lib_err :: "u32 \<Rightarrow> int" where
  "dsm_err_to_nvm_lib_err status =
     (if status \<noteq> 0 then
        let e = DSM_VENDOR_ERROR status in
        if e = 0x0001 then NVM_ERR_NOTSUPPORTED
        else if e = 0x0002 then NVM_ERR_BADDEVICE
        else if e = 0x0003 then NVM_ERR_UNKNOWN
        else if e = 0x0004 then NVM_ERR_DEVICEERROR
        else if e = 0x0005 then NVM_ERR_TIMEOUT
        else if e = 0x0006 then NVM_ERR_UNKNOWN
        else if e = 0x0007 then fw_mb_err_to_nvm_lib_err status
        else NVM_ERR_DRIVERFAILED
      else NVM_SUCCESS)"

section \<open>Facts about the translation\<close>

lemma DSM_parts: "status = push_bit 16 (DSM_EXTENDED_ERROR status) OR DSM_VENDOR_ERROR status"
proof -
  have v: "0xFFFF = (mask 16 :: u32)" and e: "0xFFFF0000 = push_bit 16 (mask 16 :: u32)"
    by (simp_all add: mask_eq_exp_minus_1)
  show ?thesis unfolding DSM_EXTENDED_ERROR_def DSM_VENDOR_ERROR_def v e
    by (rule bit_word_eqI) (auto simp: bit_simps)
qed

lemma fw_mb_err_busy:
  "fw_mb_err_to_nvm_lib_err status = NVM_ERR_DEVICEBUSY \<longleftrightarrow>
     DSM_EXTENDED_ERROR status = 0x05 \<or> DSM_EXTENDED_ERROR status = 0x12"
  by (auto simp: fw_mb_err_to_nvm_lib_err_def Let_def)

lemma dsm_err_busy:
  "dsm_err_to_nvm_lib_err status = NVM_ERR_DEVICEBUSY \<longleftrightarrow>
     DSM_VENDOR_ERROR status = 7 \<and> fw_mb_err_to_nvm_lib_err status = NVM_ERR_DEVICEBUSY"
  by (auto simp: dsm_err_to_nvm_lib_err_def Let_def DSM_VENDOR_ERROR_def)

text \<open>
  A failed status never becomes success, and it is reported as a busy device exactly when the
  mailbox code is one of the two busy codes and no other bit of the upper half is set; the flag of a
  background operation in bit 24 hides the code.
\<close>

theorem dsm_status_translation:
  "(dsm_err_to_nvm_lib_err status = NVM_SUCCESS \<longleftrightarrow> status = 0) \<and>
   dsm_err_to_nvm_lib_err status \<le> 0 \<and>
   (dsm_err_to_nvm_lib_err status = NVM_ERR_DEVICEBUSY \<longleftrightarrow> status = 0x00050007 \<or> status = 0x00120007) \<and>
   dsm_err_to_nvm_lib_err 0x01050007 = NVM_ERR_DEVICEERROR"
proof (intro conjI)
  show "dsm_err_to_nvm_lib_err status = NVM_SUCCESS \<longleftrightarrow> status = 0" and "dsm_err_to_nvm_lib_err status \<le> 0"
    and "dsm_err_to_nvm_lib_err 0x01050007 = NVM_ERR_DEVICEERROR"
    by (simp_all add: dsm_err_to_nvm_lib_err_def fw_mb_err_to_nvm_lib_err_def Let_def
        DSM_VENDOR_ERROR_def DSM_EXTENDED_ERROR_def)
  show "dsm_err_to_nvm_lib_err status = NVM_ERR_DEVICEBUSY \<longleftrightarrow> status = 0x00050007 \<or> status = 0x00120007"
    (is "?l \<longleftrightarrow> ?r")
  proof
    assume ?l
    then have "DSM_VENDOR_ERROR status = 7" "DSM_EXTENDED_ERROR status = 0x05 \<or> DSM_EXTENDED_ERROR status = 0x12"
      by (simp_all add: dsm_err_busy fw_mb_err_busy)
    then show ?r using DSM_parts [of status] by auto
  qed (auto simp: dsm_err_busy fw_mb_err_busy DSM_VENDOR_ERROR_def DSM_EXTENDED_ERROR_def)
qed

end
