(* ===== verification/Nvm_Context_Facts.thy ===== *)
theory Nvm_Context_Facts
  imports Nvm_Context
begin

text \<open>
  Facts about the library context: the search by UID, the invariant that the operations keep, and the
  caches that are filled and read by UID, as instances of one interface.
\<close>

section \<open>Search by UID\<close>

definition uid_key :: "bytes \<Rightarrow> bytes" where "uid_key u = take NVM_UID_LEN (cstr u)"

lemma uid_find_eq:
  "\<forall>x \<in> set xs. length (key x) = NVM_UID_LEN \<Longrightarrow> length uid = NVM_UID_LEN \<Longrightarrow> i \<le> length xs \<Longrightarrow>
   uid_find key uid xs (length xs) i =
     Some (map_option (\<lambda>j. i + j) (find_index (\<lambda>x. uid_key (key x) = uid_key uid) (drop i xs)))"
proof (induction key uid xs "length xs" i rule: uid_find.induct)
  case (1 key uid xs i)
  show ?case
  proof (cases "i < length xs")
    case False
    then show ?thesis using 1(4) by (simp add: uid_find.simps)
  next
    case True
    have d: "drop i xs = xs ! i # drop (Suc i) xs" using True by (simp add: Cons_nth_drop_Suc)
    have "uid_cmp uid (key (xs ! i)) = Some (uid_key (key (xs ! i)) = uid_key uid)"
      using uid_cmp_eq [of uid "key (xs ! i)"] 1(2,3) True
      by (auto simp: readable_def uid_key_def NVM_UID_LEN_def)
    then show ?thesis
      using 1(1) [of "xs ! i" False] 1(2,3) True
      by (auto simp: uid_find.simps [of key uid xs "length xs" i] rd_in d option.map_comp comp_def intro!: option.map_cong)
  qed
qed

lemma uid_find_0:
  "\<forall>x \<in> set xs. length (key x) = NVM_UID_LEN \<Longrightarrow> length uid = NVM_UID_LEN \<Longrightarrow>
   uid_find key uid xs (length xs) 0 = Some (find_index (\<lambda>k. uid_key k = uid_key uid) (map key xs))"
  using uid_find_eq [of xs key uid 0] find_index_map [of "\<lambda>k. uid_key k = uid_key uid" key xs]
  by (simp add: option.map_ident)

section \<open>The invariant of the context\<close>

definition device_ok :: "nvm_device_context \<Rightarrow> bool" where
  "device_ok d \<longleftrightarrow> length (dev_uid d) = NVM_UID_LEN \<and>
     (\<forall>b. p_pcd d = Some b \<longrightarrow> length b = dev_pcd_size d) \<and>
     (\<forall>x. p_device_discovery d = Some x \<longrightarrow> disc_uid x = dev_uid d)"

definition namespace_ok :: "nvm_namespace_context \<Rightarrow> bool" where
  "namespace_ok n \<longleftrightarrow> length (nsc_uid n) = NVM_UID_LEN \<and>
     (\<forall>x. p_namespace_discovery n = Some x \<longrightarrow> namespace_uid x = nsc_uid n)"

definition pool_ok :: "pool \<Rightarrow> bool" where "pool_ok p \<longleftrightarrow> length (pool_uid p) = NVM_UID_LEN"

definition array_ok :: "('a \<Rightarrow> bool) \<Rightarrow> int \<Rightarrow> 'a list option \<Rightarrow> bool" where
  "array_ok ok n xs = (case xs of None \<Rightarrow> n \<le> 0 | Some l \<Rightarrow> n = int (length l) \<and> (\<forall>x \<in> set l. ok x))"

lemma array_ok_simps [simp]:
  "array_ok ok n None \<longleftrightarrow> n \<le> 0"
  "array_ok ok n (Some l) \<longleftrightarrow> n = int (length l) \<and> (\<forall>x \<in> set l. ok x)"
  by (simp_all add: array_ok_def)

definition nfit_ok :: "nfit_context \<Rightarrow> bool" where
  "nfit_ok n \<longleftrightarrow> ctx_p_nfit n \<noteq> Dangling"

definition context_ok :: "nvm_context \<Rightarrow> bool" where
  "context_ok c \<longleftrightarrow> array_ok device_ok (device_count c) (p_devices c) \<and>
     array_ok pool_ok (pool_count c) (p_pools c) \<and>
     array_ok namespace_ok (namespace_count c) (p_namespaces c) \<and> nfit_ok (nfit c)"

definition process_ok :: "process \<Rightarrow> bool" where
  "process_ok s \<longleftrightarrow> (\<forall>c. p_context s = Some c \<longrightarrow> context_ok c)"

named_theorems context_defs \<open>the parts of the invariant of the context\<close>
lemmas [context_defs] = context_ok_def nfit_ok_def

lemma free_device_list_ok:
  assumes "context_ok c"
  shows "\<exists>c'. free_device_list c = Some c' \<and> context_ok c' \<and> device_count c' \<le> 0"
  using assms by (cases "p_devices c") (auto simp: free_device_list_def context_defs)

lemma free_namespace_list_ok:
  assumes "context_ok c"
  shows "\<exists>c'. free_namespace_list c = Some c' \<and> context_ok c' \<and> namespace_count c' \<le> 0"
  using assms by (cases "p_namespaces c") (auto simp: free_namespace_list_def context_defs)

lemma free_pool_list_ok: "context_ok c \<Longrightarrow> context_ok (free_pool_list c)"
  by (auto simp: free_pool_list_def context_defs)

lemma free_pcd_namespace_list_ok: "context_ok c \<Longrightarrow> context_ok (free_pcd_namespace_list c)"
  by (auto simp: free_pcd_namespace_list_def context_defs)

lemma free_nfit_ok: "nfit_ok n \<Longrightarrow> \<exists>n'. free_nfit n = Some n' \<and> nfit_ok n'"
  by (cases "ctx_p_nfit n") (auto simp: free_nfit_def nfit_ok_def free_parsed_nfit_def)

lemma on_context_ok:
  assumes "process_ok s" and "\<And>c. context_ok c \<Longrightarrow> \<exists>rc c'. body c = Some (rc, c') \<and> context_ok c'"
  shows "\<exists>rc s'. on_context e s body = Some (rc, s') \<and> process_ok s'"
proof (cases "p_context s")
  case None
  then show ?thesis using assms(1) by (simp add: on_context_def locked_def)
next
  case (Some c)
  then have "context_ok c" using assms(1) by (simp add: process_ok_def)
  from assms(2) [OF this] obtain rc c' where "body c = Some (rc, c')" "context_ok c'" by blast
  then show ?thesis using Some assms(1) by (auto simp: on_context_def locked_def process_ok_def)
qed

lemma at_device_ok:
  assumes "context_ok c" and "length uid = NVM_UID_LEN"
    and "\<And>d. device_ok d \<Longrightarrow> \<exists>rc d'. body d = Some (rc, d') \<and> device_ok d'"
  shows "\<exists>rc c'. at_device uid c body = Some (rc, c') \<and> context_ok c'"
proof (cases "p_devices c")
  case None
  then show ?thesis using assms(1) by (simp add: at_device_def)
next
  case (Some ds)
  have ds: "device_count c = int (length ds)" "\<forall>d \<in> set ds. device_ok d"
    using assms(1) Some by (auto simp: context_defs)
  have f: "uid_find dev_uid uid ds (length ds) 0 =
      Some (find_index (\<lambda>k. uid_key k = uid_key uid) (map dev_uid ds))"
    by (rule uid_find_0) (use ds(2) assms(2) in \<open>auto simp: device_ok_def\<close>)
  show ?thesis
  proof (cases "find_index (\<lambda>k. uid_key k = uid_key uid) (map dev_uid ds)")
    case None
    then show ?thesis using f Some ds(1) assms(1) by (simp add: at_device_def)
  next
    case (Some i)
    then have i: "i < length ds" using find_index_Some by fastforce
    then obtain rc d' where d': "body (ds ! i) = Some (rc, d')" "device_ok d'"
      using assms(3) ds(2) nth_mem by blast
    have "\<forall>d \<in> set (ds[i := d']). device_ok d" using ds(2) d'(2) set_update_subset_insert by fast
    then show ?thesis
      using f Some \<open>p_devices c = Some ds\<close> ds(1) assms(1) i d'(1)
      by (auto simp: at_device_def rd_in wr_in context_defs)
  qed
qed


section \<open>The operations keep the invariant\<close>

definition new_device :: "device_discovery \<Rightarrow> nvm_device_context" where
  "new_device x = \<lparr>dev_uid = disc_uid x, p_device_discovery = Some x, p_device_details = None,
     dev_pcd_size = NO_SIZE, p_pcd = None\<rparr>"

lemma set_devices_loop_ok:
  "length ds = n \<Longrightarrow> n \<le> length src \<Longrightarrow> \<forall>x \<in> set src. length (disc_uid x) = NVM_UID_LEN \<Longrightarrow>
   \<forall>d \<in> set ds. device_ok d \<Longrightarrow>
   \<exists>rc ds'. set_devices_loop alloc src n ds i = Some (rc, ds') \<and> length ds' = n \<and> (\<forall>d \<in> set ds'. device_ok d)"
proof (induction alloc src n ds i rule: set_devices_loop.induct)
  case (1 alloc src n ds i)
  show ?case
  proof (cases "i < n")
    case False
    then show ?thesis using 1 by (simp add: set_devices_loop.simps [of alloc src n ds i])
  next
    case True
    define d1 where "d1 = (ds ! i)\<lparr>p_device_details := None, p_pcd := None, dev_pcd_size := NO_SIZE,
      p_device_discovery := None\<rparr>"
    define d2 where "d2 = d1\<lparr>dev_uid := disc_uid (src ! i), p_device_discovery := Some (src ! i)\<rparr>"
    have s: "src ! i \<in> set src" "ds ! i \<in> set ds" using True 1(2,3) by auto
    have ok: "device_ok d1" "device_ok d2" using 1(4,5) s by (auto simp: device_ok_def d1_def d2_def)
    have upd: "\<forall>d \<in> set (ds[i := d1]). device_ok d" "\<forall>d \<in> set (ds[i := d2]). device_ok d"
      using 1(5) ok set_update_subset_insert [of ds i] by blast+
    have l: "i < length ds" "i < length src" using True 1(2,3) by auto
    have step: "set_devices_loop alloc src n ds i =
        (if alloc (Suc i) then set_devices_loop alloc src n (ds[i := d2]) (Suc i)
         else Some (NVM_ERR_NOMEMORY, ds[i := d1]))"
      using True l by (simp add: set_devices_loop.simps [of alloc src n ds i] rd_in wr_in Let_def d1_def d2_def)
    show ?thesis
    proof (cases "alloc (Suc i)")
      case False
      then show ?thesis using step upd(1) 1(2) by simp
    next
      case alloc: True
      have "\<exists>rc ds'. set_devices_loop alloc src n (ds[i := d2]) (Suc i) = Some (rc, ds') \<and> length ds' = n \<and>
          (\<forall>d \<in> set ds'. device_ok d)"
        by (rule 1(1) [of "ds ! i" d1 "src ! i" "ds[i := d2]"])
          (use True l alloc upd(2) 1(2,3,4) in \<open>auto simp: rd_in wr_in d1_def d2_def\<close>)
      then show ?thesis using step alloc by simp
    qed
  qed
qed

lemma set_namespaces_loop_ok:
  "length ns = n \<Longrightarrow> n \<le> length src \<Longrightarrow> \<forall>x \<in> set src. length (namespace_uid x) = NVM_UID_LEN \<Longrightarrow>
   \<forall>d \<in> set ns. namespace_ok d \<Longrightarrow>
   \<exists>rc ns'. set_namespaces_loop alloc src n ns i = Some (rc, ns') \<and> length ns' = n \<and>
     (\<forall>d \<in> set ns'. namespace_ok d)"
proof (induction alloc src n ns i rule: set_namespaces_loop.induct)
  case (1 alloc src n ns i)
  show ?case
  proof (cases "i < n")
    case False
    then show ?thesis using 1 by (simp add: set_namespaces_loop.simps [of alloc src n ns i])
  next
    case True
    define x1 where "x1 = (ns ! i)\<lparr>p_namespace_details := None, p_namespace_discovery := None\<rparr>"
    define x2 where "x2 = x1\<lparr>nsc_uid := namespace_uid (src ! i), p_namespace_discovery := Some (src ! i)\<rparr>"
    have s: "src ! i \<in> set src" "ns ! i \<in> set ns" using True 1(2,3) by auto
    have ok: "namespace_ok x1" "namespace_ok x2" using 1(4,5) s by (auto simp: namespace_ok_def x1_def x2_def)
    have upd: "\<forall>d \<in> set (ns[i := x1]). namespace_ok d" "\<forall>d \<in> set (ns[i := x2]). namespace_ok d"
      using 1(5) ok set_update_subset_insert [of ns i] by blast+
    have l: "i < length ns" "i < length src" using True 1(2,3) by auto
    have step: "set_namespaces_loop alloc src n ns i =
        (if alloc (Suc i) then set_namespaces_loop alloc src n (ns[i := x2]) (Suc i)
         else Some (NVM_ERR_NOMEMORY, ns[i := x1]))"
      using True l by (simp add: set_namespaces_loop.simps [of alloc src n ns i] rd_in wr_in Let_def x1_def x2_def)
    show ?thesis
    proof (cases "alloc (Suc i)")
      case False
      then show ?thesis using step upd(1) 1(2) by simp
    next
      case alloc: True
      have "\<exists>rc ns'. set_namespaces_loop alloc src n (ns[i := x2]) (Suc i) = Some (rc, ns') \<and> length ns' = n \<and>
          (\<forall>d \<in> set ns'. namespace_ok d)"
        by (rule 1(1) [of "ns ! i" x1 "src ! i" "ns[i := x2]"])
          (use True l alloc upd(2) 1(2,3,4) in \<open>auto simp: rd_in wr_in x1_def x2_def\<close>)
      then show ?thesis using step alloc by simp
    qed
  qed
qed


section \<open>Calls and reachable contexts\<close>

text \<open>The calls that change the process state, with well-formed arguments.\<close>

datatype context_call =
    Create
  | Free bool
  | Set_capabilities bytes
  | Set_devices "device_discovery list"
  | Get_devices nat
  | Invalidate_devices
  | Invalidate_device_pcd bytes
  | Set_device_details bytes bytes
  | Set_device_pcd bytes bytes
  | Set_pools "pool list"
  | Invalidate_pools
  | Set_namespaces "namespace_discovery list"
  | Invalidate_namespaces
  | Set_namespace_details bytes bytes
  | Set_pcd_namespace_count int
  | Set_pcd_namespaces "nvm_namespace_details list"
  | Set_nfit parsed_nfit

definition call_set_nfit :: "context_env \<Rightarrow> parsed_nfit \<Rightarrow> process \<Rightarrow> (int \<times> process) option" where
  "call_set_nfit e p s = do {
     (rc, n) \<leftarrow> set_nvm_context_nfit (\<lambda>_. alloc_ok e 0) (lock_ok e) (unlock_ok e)
                 (map_option nfit (p_context s)) (int PARSED_NFIT_SIZE) (Valid p);
     Some (rc, (case (p_context s, n) of
                  (Some c, Some n') \<Rightarrow> s\<lparr>p_context := Some (c\<lparr>nfit := n'\<rparr>)\<rparr>
                | _ \<Rightarrow> s)) }"

fun exec_call :: "context_env \<Rightarrow> context_call \<Rightarrow> process \<Rightarrow> (int \<times> process) option" where
  "exec_call e Create s = nvm_create_context e s"
| "exec_call e (Free force) s = nvm_free_context e force s"
| "exec_call e (Set_capabilities b) s = set_nvm_context_capabilities e b s"
| "exec_call e (Set_devices xs) s = set_nvm_context_devices e xs (int (length xs)) s"
| "exec_call e (Get_devices n) s =
     map_option (\<lambda>(rc, _, s'). (rc, s')) (get_nvm_context_devices e (replicate n zero_discovery) (int n) s)"
| "exec_call e Invalidate_devices s = invalidate_devices e s"
| "exec_call e (Invalidate_device_pcd u) s = invalidate_device_pcd e u s"
| "exec_call e (Set_device_details u b) s = set_nvm_context_device_details e u b s"
| "exec_call e (Set_device_pcd u b) s = set_nvm_context_device_pcd e u b (length b) s"
| "exec_call e (Set_pools ps) s = set_nvm_context_pools e ps (int (length ps)) s"
| "exec_call e Invalidate_pools s = invalidate_pools e s"
| "exec_call e (Set_namespaces xs) s = set_nvm_context_namespaces e xs (int (length xs)) s"
| "exec_call e Invalidate_namespaces s = invalidate_namespaces e s"
| "exec_call e (Set_namespace_details u b) s = set_nvm_context_namespace_details e u b s"
| "exec_call e (Set_pcd_namespace_count n) s = set_nvm_context_pcd_namespace_count e n s"
| "exec_call e (Set_pcd_namespaces xs) s = set_nvm_context_pcd_namespaces e xs (int (length xs)) s"
| "exec_call e (Set_nfit p) s = call_set_nfit e p s"

text \<open>
  UIDs are arrays of \<open>NVM_UID_LEN\<close> bytes. \<open>set_nvm_context_pcd_namespace_count\<close> is called without
  a test of \<open>p_context\<close> in it: \<open>null_call\<close> tells when it writes through a null pointer.
\<close>

fun valid_call :: "process \<Rightarrow> context_call \<Rightarrow> bool" where
  "valid_call s (Set_devices xs) = (\<forall>x \<in> set xs. length (disc_uid x) = NVM_UID_LEN)"
| "valid_call s (Invalidate_device_pcd u) = (length u = NVM_UID_LEN)"
| "valid_call s (Set_device_details u b) = (length u = NVM_UID_LEN)"
| "valid_call s (Set_device_pcd u b) = (length u = NVM_UID_LEN)"
| "valid_call s (Set_pools ps) = (\<forall>p \<in> set ps. length (pool_uid p) = NVM_UID_LEN)"
| "valid_call s (Set_namespaces xs) = (\<forall>x \<in> set xs. length (namespace_uid x) = NVM_UID_LEN)"
| "valid_call s (Set_namespace_details u b) = (length u = NVM_UID_LEN)"
| "valid_call s _ = True"

definition null_call :: "context_env \<Rightarrow> process \<Rightarrow> context_call \<Rightarrow> bool" where
  "null_call e s call \<longleftrightarrow>
     (\<exists>n. call = Set_pcd_namespace_count n) \<and> lock_ok e \<and> p_context s = None"

text \<open>
  The namespaces of the PCD: their number is stored by a call of its own, before or without the list,
  so that no call keeps the two together by itself. \<open>pcd_call_ok\<close> is what the callers must respect: a
  number is stored while there is no list, or is at most its length, and a list that replaces none has
  at least the number of entries stored.
\<close>

definition pcd_list_ok :: "nvm_context \<Rightarrow> bool" where
  "pcd_list_ok c \<longleftrightarrow> (\<forall>l. p_pcd_namespaces c = Some l \<longrightarrow> pcd_namespace_count c \<le> int (length l))"

definition pcd_namespaces_ok :: "process \<Rightarrow> bool" where
  "pcd_namespaces_ok s \<longleftrightarrow> (\<forall>c. p_context s = Some c \<longrightarrow> pcd_list_ok c)"

fun pcd_call_ok :: "process \<Rightarrow> context_call \<Rightarrow> bool" where
  "pcd_call_ok s (Set_pcd_namespace_count n) =
     (\<forall>c l. p_context s = Some c \<longrightarrow> p_pcd_namespaces c = Some l \<longrightarrow> n \<le> int (length l))"
| "pcd_call_ok s (Set_pcd_namespaces xs) =
     (\<forall>c. p_context s = Some c \<longrightarrow> p_pcd_namespaces c = None \<longrightarrow>
        pcd_namespace_count c \<le> int (length xs))"
| "pcd_call_ok s _ = True"

definition initial_process :: process where
  "initial_process = \<lparr>p_context = None, g_ctx_count = 0\<rparr>"

inductive reachable :: "process \<Rightarrow> bool" where
  reachable_init: "reachable initial_process"
| reachable_call: "reachable s \<Longrightarrow> valid_call s call \<Longrightarrow> exec_call e call s = Some (rc, s') \<Longrightarrow> reachable s'"

inductive_cases reachableE: "reachable s"

abbreviation steps_ok :: "(int \<times> process) option \<Rightarrow> bool" where
  "steps_ok r \<equiv> \<exists>rc s'. r = Some (rc, s') \<and> process_ok s'"

lemma create_ok: "process_ok s \<Longrightarrow> steps_ok (nvm_create_context e s)"
  by (cases "p_context s")
    (auto simp: nvm_create_context_def locked_def process_ok_def new_context_def context_defs)

lemma free_ok:
  assumes "process_ok s"
  shows "steps_ok (nvm_free_context e force s)"
proof (cases "p_context s")
  case None
  then show ?thesis using assms by (simp add: nvm_free_context_def locked_def)
next
  case (Some c)
  then have c: "context_ok (c\<lparr>p_capabilities := None\<rparr>)" using assms by (simp add: process_ok_def context_defs)
  obtain c1 where c1: "free_device_list (c\<lparr>p_capabilities := None\<rparr>) = Some c1" "context_ok c1"
    using free_device_list_ok [OF c] by blast
  obtain c2 where c2: "free_namespace_list (free_pool_list c1) = Some c2" "context_ok c2"
    using free_namespace_list_ok [OF free_pool_list_ok [OF c1(2)]] by blast
  obtain n where "free_nfit (nfit (free_pcd_namespace_list c2)) = Some n"
    using free_nfit_ok free_pcd_namespace_list_ok [OF c2(2)] by (auto simp: context_ok_def)
  then show ?thesis
    using Some assms c1(1) c2(1) by (auto simp: nvm_free_context_def locked_def Let_def process_ok_def)
qed

lemma set_devices_ok:
  assumes "process_ok s" and "\<forall>x \<in> set xs. length (disc_uid x) = NVM_UID_LEN"
  shows "steps_ok (set_nvm_context_devices e xs (int (length xs)) s)"
  unfolding set_nvm_context_devices_def
proof (rule on_context_ok [OF assms(1)], goal_cases)
  case (1 c)
  obtain c1 where c1: "free_device_list c = Some c1" "context_ok c1" "device_count c1 \<le> 0"
    using free_device_list_ok [OF 1] by blast
  have "\<forall>d \<in> set (replicate (length xs) zero_device). device_ok d"
    by (auto simp: zero_device_def device_ok_def)
  from set_devices_loop_ok [OF _ order_refl assms(2) this, of "alloc_ok e" 0]
  obtain rc ds where "set_devices_loop (alloc_ok e) xs (length xs) (replicate (length xs) zero_device) 0 =
      Some (rc, ds)" "length ds = length xs" "\<forall>d \<in> set ds. device_ok d" by auto
  then show ?case using c1 by (auto simp: context_defs)
qed

lemma set_namespaces_ok:
  assumes "process_ok s" and "\<forall>x \<in> set xs. length (namespace_uid x) = NVM_UID_LEN"
  shows "steps_ok (set_nvm_context_namespaces e xs (int (length xs)) s)"
  unfolding set_nvm_context_namespaces_def
proof (rule on_context_ok [OF assms(1)], goal_cases)
  case (1 c)
  obtain c1 where c1: "free_namespace_list c = Some c1" "context_ok c1"
      "namespace_count c1 \<le> 0"
    using free_namespace_list_ok [OF 1] by blast
  have "\<forall>d \<in> set (replicate (length xs) zero_namespace_context). namespace_ok d"
    by (auto simp: zero_namespace_context_def namespace_ok_def)
  from set_namespaces_loop_ok [OF _ order_refl assms(2) this, of "alloc_ok e" 0]
  obtain rc ns where "set_namespaces_loop (alloc_ok e) xs (length xs)
      (replicate (length xs) zero_namespace_context) 0 = Some (rc, ns)"
    "length ns = length xs" "\<forall>d \<in> set ns. namespace_ok d" by auto
  then show ?case using c1 by (auto simp: context_defs)
qed

lemma set_pools_ok:
  assumes "process_ok s" and "\<forall>p \<in> set ps. length (pool_uid p) = NVM_UID_LEN"
  shows "steps_ok (set_nvm_context_pools e ps (int (length ps)) s)"
  unfolding set_nvm_context_pools_def
proof (rule on_context_ok [OF assms(1)], goal_cases)
  case (1 c)
  then have "context_ok (free_pool_list c)" "p_pools (free_pool_list c) = None \<or> pool_count (free_pool_list c) = 0"
    using free_pool_list_ok [OF 1] by (cases "p_pools c"; auto simp: free_pool_list_def context_defs)+
  then show ?case using assms(2) by (auto simp: context_defs pool_ok_def Let_def rd_bytes_in)
qed

lemma get_devices_loop_ok:
  "length buf = n \<Longrightarrow> k \<le> n \<Longrightarrow> k \<le> length ds \<Longrightarrow> \<exists>r. get_devices_loop ds k buf i = Some r"
  by (induction ds k buf i rule: get_devices_loop.induct)
    (auto simp: get_devices_loop.simps rd_in wr_in split: option.splits)

lemma get_devices_ok:
  assumes "process_ok s"
  shows "steps_ok (exec_call e (Get_devices n) s)"
proof (cases "p_context s")
  case None
  then show ?thesis using assms by (simp add: get_nvm_context_devices_def)
next
  case c: (Some c)
  show ?thesis
  proof (cases "p_devices c")
    case None
    then show ?thesis using assms c by (simp add: get_nvm_context_devices_def)
  next
    case (Some ds)
    have ok: "context_ok c" using assms c by (simp add: process_ok_def)
    then have count: "device_count c = int (length ds)" using Some by (simp add: context_ok_def)
    show ?thesis
    proof (cases "length ds \<le> n")
      case False
      then show ?thesis using assms c Some count by (simp add: get_nvm_context_devices_def)
    next
      case True
      define buf where "buf = replicate (length ds) zero_discovery @ drop (length ds) (replicate n zero_discovery)"
      have w: "wr_bytes (replicate n zero_discovery) 0 (replicate (length ds) zero_discovery) = Some buf"
        using True by (simp add: wr_bytes_def buf_def)
      obtain buf' go_on where l: "get_devices_loop ds (length ds) buf 0 = Some (buf', go_on)"
        using get_devices_loop_ok [of buf n "length ds" ds 0] True by (auto simp: buf_def)
      obtain c' where "(if go_on then Some c else free_device_list c) = Some c'" "context_ok c'"
        using free_device_list_ok [OF ok] ok by (cases go_on) auto
      then show ?thesis
        using assms c Some count True w l
        by (auto simp: get_nvm_context_devices_def Let_def process_ok_def)
    qed
  qed
qed


lemma set_namespace_details_ok:
  assumes "process_ok s" and "length u = NVM_UID_LEN"
  shows "steps_ok (set_nvm_context_namespace_details e u b s)"
  unfolding set_nvm_context_namespace_details_def
proof (rule on_context_ok [OF assms(1)], goal_cases)
  case (1 c)
  show ?case
  proof (cases "p_namespaces c")
    case None
    then show ?thesis using 1 by simp
  next
    case (Some ns)
    have ns: "namespace_count c = int (length ns)" "\<forall>x \<in> set ns. namespace_ok x"
      using 1 Some by (auto simp: context_defs)
    have f: "uid_find nsc_uid u ns (length ns) 0 =
        Some (find_index (\<lambda>k. uid_key k = uid_key u) (map nsc_uid ns))"
      by (rule uid_find_0) (use ns(2) assms(2) in \<open>auto simp: namespace_ok_def\<close>)
    show ?thesis
    proof (cases "find_index (\<lambda>k. uid_key k = uid_key u) (map nsc_uid ns)")
      case None
      then show ?thesis using f Some ns(1) 1 by simp
    next
      case i: (Some i)
      then have l: "i < length ns" using find_index_Some by fastforce
      let ?x = "(ns ! i)\<lparr>p_namespace_details := if alloc_ok e 0 then Some b else None\<rparr>"
      have "namespace_ok ?x" using ns(2) l by (auto simp: namespace_ok_def)
      then have "\<forall>x \<in> set (ns[i := ?x]). namespace_ok x"
        using ns(2) set_update_subset_insert [of ns i] by blast
      then show ?thesis
        using f Some ns(1) 1 i l by (simp add: rd_in wr_in context_defs Let_def)
    qed
  qed
qed

lemma set_nfit_ok:
  assumes "process_ok s"
  shows "steps_ok (call_set_nfit e p s)"
proof (cases "p_context s")
  case None
  then show ?thesis using assms by (simp add: call_set_nfit_def set_nvm_context_nfit_def)
next
  case (Some c)
  then have c: "context_ok c" using assms by (simp add: process_ok_def)
  obtain n where "free_nfit (nfit c) = Some n" using free_nfit_ok c by (auto simp: context_ok_def)
  then show ?thesis
    using Some c assms by (auto simp: call_set_nfit_def set_nvm_context_nfit_def process_ok_def context_defs)
qed

lemma exec_call_ok:
  assumes "process_ok s" and "valid_call s call" and "\<not> null_call e s call"
  shows "steps_ok (exec_call e call s)"
proof (cases call)
  case (Get_devices n)
  then show ?thesis using get_devices_ok [OF assms(1)] by blast
next
  case (Set_pcd_namespace_count n)
  then show ?thesis using assms
    by (auto simp: set_nvm_context_pcd_namespace_count_def locked_def process_ok_def context_defs
        null_call_def)
next
  case (Set_pcd_namespaces xs)
  have "steps_ok (set_nvm_context_pcd_namespaces e xs (int (length xs)) s)"
    unfolding set_nvm_context_pcd_namespaces_def
  proof (rule on_context_ok [OF assms(1)], goal_cases)
    case (1 c)
    obtain c' where "free_namespace_list c = Some c'" "context_ok (free_pcd_namespace_list c')"
      using free_namespace_list_ok [OF 1] free_pcd_namespace_list_ok by blast
    then show ?case by (auto simp: context_defs Let_def rd_bytes_in)
  qed
  then show ?thesis using Set_pcd_namespaces by simp
next
  case (Invalidate_device_pcd u)
  have "steps_ok (invalidate_device_pcd e u s)"
    unfolding invalidate_device_pcd_def using assms(2) Invalidate_device_pcd
    by (intro on_context_ok [OF assms(1)] at_device_ok) (auto simp: device_ok_def)
  then show ?thesis using Invalidate_device_pcd by simp
next
  case (Set_device_details u b)
  have "steps_ok (set_nvm_context_device_details e u b s)"
    unfolding set_nvm_context_device_details_def using assms(2) Set_device_details
    by (intro on_context_ok [OF assms(1)] at_device_ok) (auto simp: device_ok_def)
  then show ?thesis using Set_device_details by simp
next
  case (Set_device_pcd u b)
  have "steps_ok (set_nvm_context_device_pcd e u b (length b) s)"
    unfolding set_nvm_context_device_pcd_def using assms(2) Set_device_pcd
    by (intro on_context_ok [OF assms(1)] at_device_ok) (auto simp: device_ok_def Let_def rd_bytes_in)
  then show ?thesis using Set_device_pcd by simp
next
  case (Set_capabilities b)
  have "steps_ok (set_nvm_context_capabilities e b s)"
    unfolding set_nvm_context_capabilities_def
    by (intro on_context_ok [OF assms(1)]) (auto simp: context_defs)
  then show ?thesis using Set_capabilities by simp
next
  case Invalidate_devices
  have "steps_ok (invalidate_devices e s)"
    unfolding invalidate_devices_def
    by (intro on_context_ok [OF assms(1)]) (use free_device_list_ok in fastforce)
  then show ?thesis using Invalidate_devices by simp
next
  case Invalidate_pools
  have "steps_ok (invalidate_pools e s)"
    unfolding invalidate_pools_def
    by (intro on_context_ok [OF assms(1)]) (use free_pool_list_ok in fastforce)
  then show ?thesis using Invalidate_pools by simp
next
  case Invalidate_namespaces
  have "steps_ok (invalidate_namespaces e s)"
    unfolding invalidate_namespaces_def
    by (intro on_context_ok [OF assms(1)])
      (use free_namespace_list_ok free_pcd_namespace_list_ok in fastforce)
  then show ?thesis using Invalidate_namespaces by simp
qed (use assms create_ok free_ok set_devices_ok set_pools_ok set_namespaces_ok set_namespace_details_ok
       set_nfit_ok in auto)

lemma reachable_ok: "reachable s \<Longrightarrow> process_ok s"
proof (induction rule: reachable.induct)
  case reachable_init
  then show ?case by (simp add: initial_process_def process_ok_def)
next
  case (reachable_call s call e rc s')
  moreover have "\<not> null_call e s call"
    using reachable_call(3)
    by (auto simp: null_call_def set_nvm_context_pcd_namespace_count_def locked_def)
  ultimately show ?case using exec_call_ok [of s call e] by auto
qed

lemma not_null_call [simp]: "\<forall>n. call \<noteq> Set_pcd_namespace_count n \<Longrightarrow> \<not> null_call e s call"
  by (simp add: null_call_def)

lemma null_call_fails: "null_call e s call \<Longrightarrow> exec_call e call s = None"
  by (auto simp: null_call_def set_nvm_context_pcd_namespace_count_def locked_def)


section \<open>The namespaces of the PCD\<close>

definition pcd_pair :: "nvm_context \<Rightarrow> int \<times> nvm_namespace_details list option" where
  "pcd_pair c = (pcd_namespace_count c, p_pcd_namespaces c)"

lemma pcd_list_ok_pair:
  "pcd_list_ok c \<longleftrightarrow> (\<forall>l. snd (pcd_pair c) = Some l \<longrightarrow> fst (pcd_pair c) \<le> int (length l))"
  by (simp add: pcd_list_ok_def pcd_pair_def)

text \<open>The helpers that leave the number and the list alone\<close>

named_theorems pcd_kept \<open>the operations on the context that keep the namespaces of the PCD\<close>

lemma free_device_list_pcd [pcd_kept]: "free_device_list c = Some c' \<Longrightarrow> pcd_pair c' = pcd_pair c"
  by (auto simp: free_device_list_def pcd_pair_def split: option.splits if_splits)

lemma free_pool_list_pcd [simp]: "pcd_pair (free_pool_list c) = pcd_pair c"
  by (simp add: free_pool_list_def pcd_pair_def)

lemma free_namespace_list_pcd [pcd_kept]: "free_namespace_list c = Some c' \<Longrightarrow> pcd_pair c' = pcd_pair c"
  by (auto simp: free_namespace_list_def pcd_pair_def split: option.splits if_splits)

lemma at_device_pcd [pcd_kept]: "at_device u c body = Some (rc, c') \<Longrightarrow> pcd_pair c' = pcd_pair c"
  by (auto simp: at_device_def pcd_pair_def bind_eq_Some_conv split: option.splits if_splits prod.splits)

lemma free_pcd_namespace_list_pcd:
  "pcd_list_ok c \<Longrightarrow> pcd_list_ok (free_pcd_namespace_list c)"
  by (simp add: free_pcd_namespace_list_def pcd_list_ok_def)

lemma on_context_pcd:
  assumes "on_context e s body = Some (rc, s')" and "pcd_namespaces_ok s"
    and "\<And>c rc c'. p_context s = Some c \<Longrightarrow> body c = Some (rc, c') \<Longrightarrow> pcd_list_ok c \<Longrightarrow> pcd_list_ok c'"
  shows "pcd_namespaces_ok s'"
  using assms(1,2)
  by (auto simp: on_context_def locked_def pcd_namespaces_ok_def bind_eq_Some_conv
      split: option.splits if_splits prod.splits intro: assms(3))

lemma pcd_list_ok_eq: "pcd_pair c' = pcd_pair c \<Longrightarrow> pcd_list_ok c' = pcd_list_ok c"
  by (simp add: pcd_list_ok_pair)

lemma pcd_list_ok_update [simp]:
  "pcd_list_ok (c\<lparr>p_devices := x\<rparr>) = pcd_list_ok c" "pcd_list_ok (c\<lparr>device_count := n\<rparr>) = pcd_list_ok c"
  "pcd_list_ok (c\<lparr>p_pools := y\<rparr>) = pcd_list_ok c" "pcd_list_ok (c\<lparr>pool_count := n\<rparr>) = pcd_list_ok c"
  "pcd_list_ok (c\<lparr>p_namespaces := z\<rparr>) = pcd_list_ok c" "pcd_list_ok (c\<lparr>namespace_count := n\<rparr>) = pcd_list_ok c"
  "pcd_list_ok (c\<lparr>p_capabilities := v\<rparr>) = pcd_list_ok c" "pcd_list_ok (c\<lparr>nfit := w\<rparr>) = pcd_list_ok c"
  by (simp_all add: pcd_list_ok_def)

lemma free_pool_list_list [simp]: "pcd_list_ok (free_pool_list c) = pcd_list_ok c"
  by (rule pcd_list_ok_eq) simp

lemma exec_call_pcd:
  assumes "exec_call e call s = Some (rc, s')" and "pcd_namespaces_ok s" and "pcd_call_ok s call"
  shows "pcd_namespaces_ok s'"
proof (cases call)
  case Create
  then show ?thesis using assms
    by (auto simp: nvm_create_context_def locked_def pcd_namespaces_ok_def pcd_list_ok_def new_context_def
        split: option.splits if_splits)
next
  case (Free force)
  then show ?thesis using assms
    by (auto simp: nvm_free_context_def locked_def pcd_namespaces_ok_def Let_def bind_eq_Some_conv
        split: option.splits if_splits)
next
  case (Set_capabilities b)
  then show ?thesis using assms(1)
    by (auto simp: set_nvm_context_capabilities_def split: if_splits intro: on_context_pcd [OF _ assms(2)])
next
  case (Set_devices xs)
  then show ?thesis using assms(1)
    by (auto simp: set_nvm_context_devices_def bind_eq_Some_conv pcd_kept [THEN pcd_list_ok_eq]
        split: if_splits prod.splits elim!: on_context_pcd [OF _ assms(2)])
next
  case (Get_devices n)
  then obtain buf where "get_nvm_context_devices e (replicate n zero_discovery) (int n) s = Some (rc, buf, s')"
    using assms(1) by (auto simp: map_option_case split: option.splits)
  then show ?thesis using assms(2)
    by (auto simp: get_nvm_context_devices_def pcd_namespaces_ok_def Let_def bind_eq_Some_conv
        pcd_kept [THEN pcd_list_ok_eq] split: option.splits if_splits prod.splits)
next
  case Invalidate_devices
  then show ?thesis using assms(1)
    by (auto simp: invalidate_devices_def bind_eq_Some_conv pcd_kept [THEN pcd_list_ok_eq]
        elim!: on_context_pcd [OF _ assms(2)])
next
  case (Invalidate_device_pcd u)
  then show ?thesis using assms(1)
    by (auto simp: invalidate_device_pcd_def dest: at_device_pcd [THEN pcd_list_ok_eq]
        elim!: on_context_pcd [OF _ assms(2)])
next
  case (Set_device_details u b)
  then show ?thesis using assms(1)
    by (auto simp: set_nvm_context_device_details_def dest: at_device_pcd [THEN pcd_list_ok_eq]
        elim!: on_context_pcd [OF _ assms(2)])
next
  case (Set_device_pcd u b)
  then show ?thesis using assms(1)
    by (auto simp: set_nvm_context_device_pcd_def dest: at_device_pcd [THEN pcd_list_ok_eq]
        elim!: on_context_pcd [OF _ assms(2)])
next
  case (Set_pools ps)
  then show ?thesis using assms(1)
    by (auto simp: set_nvm_context_pools_def bind_eq_Some_conv Let_def split: if_splits
        elim!: on_context_pcd [OF _ assms(2)])
next
  case Invalidate_pools
  then show ?thesis using assms(1)
    by (auto simp: invalidate_pools_def elim!: on_context_pcd [OF _ assms(2)])
next
  case (Set_namespaces xs)
  then show ?thesis using assms(1)
    by (auto simp: set_nvm_context_namespaces_def bind_eq_Some_conv pcd_kept [THEN pcd_list_ok_eq]
        split: if_splits prod.splits elim!: on_context_pcd [OF _ assms(2)])
next
  case Invalidate_namespaces
  then show ?thesis using assms(1)
    by (auto simp: invalidate_namespaces_def bind_eq_Some_conv elim!: on_context_pcd [OF _ assms(2)]
        intro!: free_pcd_namespace_list_pcd dest!: free_namespace_list_pcd [THEN pcd_list_ok_eq])
next
  case (Set_namespace_details u b)
  then show ?thesis using assms(1)
    by (auto simp: set_nvm_context_namespace_details_def bind_eq_Some_conv Let_def
        split: if_splits option.splits elim!: on_context_pcd [OF _ assms(2)])
next
  case (Set_pcd_namespace_count n)
  then show ?thesis using assms
    by (auto simp: set_nvm_context_pcd_namespace_count_def locked_def pcd_namespaces_ok_def pcd_list_ok_def
        bind_eq_Some_conv split: if_splits)
next
  case (Set_pcd_namespaces xs)
  then show ?thesis using assms(1)
    apply (simp add: set_nvm_context_pcd_namespaces_def)
    apply (erule on_context_pcd [OF _ assms(2)])
    using assms(3) Set_pcd_namespaces
    apply (auto simp: bind_eq_Some_conv Let_def rd_bytes_def free_pcd_namespace_list_def pcd_list_ok_def
        pcd_pair_def split: if_splits dest!: free_namespace_list_pcd)
    done
next
  case (Set_nfit p)
  then show ?thesis using assms(1,2)
    by (cases "p_context s")
      (auto simp: call_set_nfit_def pcd_namespaces_ok_def bind_eq_Some_conv split: option.splits)
qed

text \<open>With the invariant the list is read inside its array; a number above its length reads past it.\<close>

lemma pcd_namespaces_readable:
  assumes "pcd_namespaces_ok s"
  shows "get_nvm_context_pcd_namespaces e s buf (int (length buf)) \<noteq> None"
  using assms
  by (auto simp: get_nvm_context_pcd_namespaces_def from_context_def pcd_namespaces_ok_def pcd_list_ok_def
      copy_plan_def rd_bytes_def wr_bytes_def bind_eq_None_conv split: option.splits if_splits prod.splits)

lemma short_pcd_list_overread:
  assumes "p_context s = Some c" and "p_pcd_namespaces c = Some l" and "lock_ok e"
    and "int (length l) < pcd_namespace_count c" and "length l < length buf"
  shows "get_nvm_context_pcd_namespaces e s buf (int (length buf)) = None"
  using assms
  by (auto simp: get_nvm_context_pcd_namespaces_def from_context_def copy_plan_def rd_bytes_def wr_bytes_def)

end
