(* ===== verification/Context_Cache.thy ===== *)
theory Context_Cache
  imports Nvm_Context_Facts
begin

text \<open>
  The interface of the caches of the context that are filled and read by UID, its instances for the
  details and the PCD of a device, and the properties of the context.
\<close>

section \<open>Interface\<close>

locale keyed_cache =
  fixes inv :: "'s \<Rightarrow> bool"
    and key_ok :: "bytes \<Rightarrow> bool"
    and val_ok :: "'v \<Rightarrow> bool"
    and same :: "bytes \<Rightarrow> bytes \<Rightarrow> bool"
    and has :: "'s \<Rightarrow> bytes \<Rightarrow> bool"
    and lookup :: "'s \<Rightarrow> bytes \<Rightarrow> 'v option"
    and store :: "bytes \<Rightarrow> 'v \<Rightarrow> 's \<Rightarrow> 's"
  assumes store_inv: "inv s \<Longrightarrow> key_ok k \<Longrightarrow> inv (store k v s)"
    and store_has: "inv s \<Longrightarrow> key_ok k \<Longrightarrow> key_ok k' \<Longrightarrow> has (store k v s) k' = has s k'"
    and lookup_store: "inv s \<Longrightarrow> key_ok k \<Longrightarrow> key_ok k' \<Longrightarrow> val_ok v \<Longrightarrow> has s k' \<Longrightarrow>
      lookup (store k v s) k' = (if same k k' then Some v else lookup s k')"
begin

definition store_all :: "(bytes \<times> 'v) list \<Rightarrow> 's \<Rightarrow> 's" where
  "store_all kvs s = fold (\<lambda>(k, v). store k v) kvs s"

lemma store_all_inv:
  "inv s \<Longrightarrow> \<forall>(k, v) \<in> set kvs. key_ok k \<Longrightarrow> inv (store_all kvs s)"
  unfolding store_all_def by (induction kvs arbitrary: s) (auto intro: store_inv)

lemma store_all_has:
  "inv s \<Longrightarrow> \<forall>(k, v) \<in> set kvs. key_ok k \<Longrightarrow> key_ok k' \<Longrightarrow> has (store_all kvs s) k' = has s k'"
  unfolding store_all_def by (induction kvs arbitrary: s) (auto simp: store_inv store_has)

lemma lookup_store_all:
  assumes "inv s" and "\<forall>(k, v) \<in> set kvs. key_ok k \<and> val_ok v" and "key_ok k'" and "has s k'"
  shows "lookup (store_all kvs s) k' =
    (case List.find (\<lambda>(k, v). same k k') (rev kvs) of Some (k, v) \<Rightarrow> Some v | None \<Rightarrow> lookup s k')"
  using assms(2)
proof (induction kvs rule: rev_induct)
  case Nil
  then show ?case by (simp add: store_all_def)
next
  case (snoc kv kvs)
  obtain k v where kv: "kv = (k, v)" by (cases kv)
  have p: "\<forall>(k, v) \<in> set kvs. key_ok k" "key_ok k" "val_ok v" using snoc.prems by (auto simp: kv)
  have "lookup (store k v (store_all kvs s)) k' =
      (if same k k' then Some v else lookup (store_all kvs s) k')"
    by (rule lookup_store [OF store_all_inv [OF assms(1) p(1)] p(2) assms(3) p(3)])
      (simp add: store_all_has [OF assms(1) p(1) assms(3)] assms(4))
  moreover have "store_all (kvs @ [kv]) s = store k v (store_all kvs s)" by (simp add: store_all_def kv)
  ultimately show ?case using snoc by (simp add: kv)
qed

end

section \<open>Looking devices up\<close>

definition all_ok :: context_env where
  "all_ok = \<lparr>lock_ok = True, unlock_ok = True, alloc_ok = (\<lambda>_. True)\<rparr>"

lemma all_ok_simps [simp]: "lock_ok all_ok" "unlock_ok all_ok" "alloc_ok all_ok n"
  by (simp_all add: all_ok_def)

definition device_index :: "bytes \<Rightarrow> nvm_device_context list \<Rightarrow> nat option" where
  "device_index u ds = find_index (\<lambda>k. uid_key k = uid_key u) (map dev_uid ds)"

text \<open>The entry of the context for a UID.\<close>

definition device_of :: "process \<Rightarrow> bytes \<Rightarrow> nvm_device_context option" where
  "device_of s u =
     (case p_context s of
        None \<Rightarrow> None
      | Some c \<Rightarrow> (case p_devices c of None \<Rightarrow> None | Some ds \<Rightarrow> map_option ((!) ds) (device_index u ds)))"

lemma device_index_found: "device_index u ds = Some i \<Longrightarrow> i < length ds \<and> uid_key (dev_uid (ds ! i)) = uid_key u"
  using find_index_Some [of "\<lambda>k. uid_key k = uid_key u" "map dev_uid ds" i] by (auto simp: device_index_def)

lemma device_find:
  assumes "context_ok c" and "p_devices c = Some ds" and "length u = NVM_UID_LEN"
  shows "uid_find dev_uid u ds (nat (device_count c)) 0 = Some (device_index u ds)"
proof -
  have "device_count c = int (length ds)" "\<forall>d \<in> set ds. length (dev_uid d) = NVM_UID_LEN"
    using assms by (auto simp: context_defs device_ok_def)
  then show ?thesis using uid_find_0 [of ds dev_uid u] assms(3) by (simp add: device_index_def)
qed

lemma device_count_pos:
  "context_ok c \<Longrightarrow> p_devices c = Some ds \<Longrightarrow> device_index u ds = Some i \<Longrightarrow> 0 < device_count c"
  using device_index_found [of u ds i] by (auto simp: context_ok_def)

lemma device_get:
  assumes "process_ok s" and "length u = NVM_UID_LEN"
  shows "from_context all_ok s buf (\<lambda>c. of_device u c buf body) =
    (case device_of s u of Some d \<Rightarrow> body d | None \<Rightarrow> Some (NVM_ERR_CONTEXT, buf))"
proof (cases "p_context s")
  case None
  then show ?thesis by (simp add: from_context_def device_of_def)
next
  case c: (Some c)
  then have ok: "context_ok c" using assms(1) by (simp add: process_ok_def)
  show ?thesis
  proof (cases "p_devices c")
    case None
    then show ?thesis using c by (simp add: from_context_def device_of_def of_device_def)
  next
    case (Some ds)
    note f = device_find [OF ok Some assms(2)]
    show ?thesis
    proof (cases "device_index u ds")
      case None
      then show ?thesis using c Some f by (simp add: from_context_def device_of_def of_device_def)
    next
      case (Some i)
      have "rd ds i = Some (ds ! i)" using device_index_found [OF Some] by (simp add: rd_in)
      then show ?thesis
        using c \<open>p_devices c = Some ds\<close> f Some device_count_pos [OF ok \<open>p_devices c = Some ds\<close> Some]
        by (cases "body (ds ! i)") (auto simp: from_context_def device_of_def of_device_def)
    qed
  qed
qed

lemma device_put:
  assumes "process_ok s" and "length u = NVM_UID_LEN" and "length u' = NVM_UID_LEN"
    and "\<And>d. device_ok d \<Longrightarrow> body d = Some (r, f d)" and "\<And>d. dev_uid (f d) = dev_uid d"
  shows "\<exists>s'. on_context all_ok s (\<lambda>c. at_device u c body) =
      Some (if device_of s u = None then NVM_ERR_CONTEXT else r, s') \<and>
    device_of s' u' = (if uid_key u = uid_key u' then map_option f (device_of s u') else device_of s u')"
proof (cases "p_context s")
  case None
  then show ?thesis by (simp add: on_context_def locked_def device_of_def)
next
  case c: (Some c)
  then have ok: "context_ok c" using assms(1) by (simp add: process_ok_def)
  show ?thesis
  proof (cases "p_devices c")
    case None
    then show ?thesis using c by (simp add: on_context_def locked_def device_of_def at_device_def)
  next
    case ds: (Some ds)
    note find = device_find [OF ok ds assms(2)]
    have congr: "device_index u' ds = device_index u ds" if "uid_key u = uid_key u'"
      using that by (simp add: device_index_def)
    show ?thesis
    proof (cases "device_index u ds")
      case None
      then show ?thesis
        using c ds find congr by (auto simp: on_context_def locked_def device_of_def at_device_def)
    next
      case i: (Some i)
      have l: "i < length ds" and k: "uid_key (dev_uid (ds ! i)) = uid_key u"
        using device_index_found [OF i] by auto
      have "device_ok (ds ! i)" using ok ds l by (auto simp: context_ok_def)
      then have b: "body (ds ! i) = Some (r, f (ds ! i))" by (rule assms(4))
      let ?ds = "ds[i := f (ds ! i)]"
      have m: "map dev_uid ?ds = map dev_uid ds" using assms(5) l by (simp add: map_update list_update_same_conv)
      have e: "on_context all_ok s (\<lambda>c. at_device u c body) =
          Some (r, s\<lparr>p_context := Some (c\<lparr>p_devices := Some ?ds\<rparr>)\<rparr>)"
        using c ds find i b l device_count_pos [OF ok ds i]
        by (simp add: on_context_def locked_def at_device_def rd_in wr_in)
      have idx: "device_index u' ?ds = device_index u' ds" by (simp add: device_index_def m)
      have "device_index u' ds \<noteq> Some i" if "uid_key u \<noteq> uid_key u'"
        using device_index_found [of u' ds i] k that by auto
      then show ?thesis
        using c ds e i l congr idx
        by (cases "device_index u' ds") (auto simp: device_of_def nth_list_update)
    qed
  qed
qed

section \<open>The device caches\<close>

definition details_lookup :: "process \<Rightarrow> bytes \<Rightarrow> bytes option" where
  "details_lookup s u =
     (case get_nvm_context_device_details all_ok u s [] of
        Some (rc, b) \<Rightarrow> if rc = NVM_SUCCESS then Some b else None
      | None \<Rightarrow> None)"

definition details_store :: "bytes \<Rightarrow> bytes \<Rightarrow> process \<Rightarrow> process" where
  "details_store u b s = (case set_nvm_context_device_details all_ok u b s of Some (_, s') \<Rightarrow> s' | None \<Rightarrow> s)"

definition pcd_lookup :: "process \<Rightarrow> bytes \<Rightarrow> bytes option" where
  "pcd_lookup s u =
     (case get_nvm_context_device_pcd all_ok u s (Null, 0) of
        Some (rc, Valid b, n) \<Rightarrow> if rc = NVM_SUCCESS then Some b else None
      | _ \<Rightarrow> None)"

definition pcd_store :: "bytes \<Rightarrow> bytes \<Rightarrow> process \<Rightarrow> process" where
  "pcd_store u b s = (case set_nvm_context_device_pcd all_ok u b (length b) s of Some (_, s') \<Rightarrow> s' | None \<Rightarrow> s)"

definition has_device :: "process \<Rightarrow> bytes \<Rightarrow> bool" where
  "has_device s u \<longleftrightarrow> device_of s u \<noteq> None"

abbreviation uid_ok :: "bytes \<Rightarrow> bool" where "uid_ok u \<equiv> length u = NVM_UID_LEN"
abbreviation same_uid :: "bytes \<Rightarrow> bytes \<Rightarrow> bool" where "same_uid u u' \<equiv> uid_key u = uid_key u'"

lemma details_lookup_eq:
  "process_ok s \<Longrightarrow> uid_ok u \<Longrightarrow> details_lookup s u = Option.bind (device_of s u) p_device_details"
  by (auto simp: details_lookup_def get_nvm_context_device_details_def device_get split: option.splits)

lemma device_of_ok: "process_ok s \<Longrightarrow> device_of s u = Some d \<Longrightarrow> device_ok d"
  using device_index_found
  by (fastforce simp: process_ok_def device_of_def context_ok_def split: option.splits)

lemma pcd_lookup_eq:
  assumes "process_ok s" and "uid_ok u"
  shows "pcd_lookup s u = Option.bind (device_of s u) (\<lambda>d. if dev_pcd_size d > 0 then p_pcd d else None)"
proof (cases "device_of s u")
  case None
  then show ?thesis using assms by (simp add: pcd_lookup_def get_nvm_context_device_pcd_def device_get)
next
  case (Some d)
  have "device_ok d" using device_of_ok assms(1) Some by blast
  then show ?thesis using assms Some
    by (cases "p_pcd d") (auto simp: pcd_lookup_def get_nvm_context_device_pcd_def device_get device_ok_def
        rd_bytes_def)
qed

lemma details_store_eq:
  assumes "process_ok s" and "uid_ok u" and "uid_ok u'"
  shows "device_of (details_store u b s) u' =
    (if same_uid u u' then map_option (\<lambda>d. d\<lparr>p_device_details := Some b\<rparr>) (device_of s u') else device_of s u')"
  using device_put [OF assms(1-3), of "\<lambda>d. if \<not> alloc_ok all_ok 0 then Some (NVM_ERR_NOMEMORY, d\<lparr>p_device_details := None\<rparr>)
     else Some (NVM_SUCCESS, d\<lparr>p_device_details := Some b\<rparr>)" NVM_SUCCESS "\<lambda>d. d\<lparr>p_device_details := Some b\<rparr>"]
  by (auto simp: details_store_def set_nvm_context_device_details_def)

lemma pcd_put:
  assumes "process_ok s" and "uid_ok u" and "uid_ok u'"
  shows "\<exists>s'. set_nvm_context_device_pcd all_ok u b (length b) s =
      Some (if device_of s u = None then NVM_ERR_CONTEXT else NVM_SUCCESS, s') \<and>
    device_of s' u' = (if same_uid u u' then map_option (\<lambda>d. d\<lparr>p_pcd := Some b, dev_pcd_size := length b\<rparr>) (device_of s u')
                       else device_of s u')"
  unfolding set_nvm_context_device_pcd_def
  by (rule device_put [OF assms(1-3)]) (auto simp: Let_def rd_bytes_def)

lemma pcd_store_eq:
  assumes "process_ok s" and "uid_ok u" and "uid_ok u'"
  shows "device_of (pcd_store u b s) u' =
    (if same_uid u u' then map_option (\<lambda>d. d\<lparr>p_pcd := Some b, dev_pcd_size := length b\<rparr>) (device_of s u')
     else device_of s u')"
  using pcd_put [OF assms, of b] by (auto simp: pcd_store_def)

lemma store_ok:
  assumes "process_ok s" and "uid_ok u"
  shows "process_ok (details_store u b s)" and "process_ok (pcd_store u b s)"
  using exec_call_ok [of s "Set_device_details u b" all_ok] exec_call_ok [of s "Set_device_pcd u b" all_ok] assms
  by (auto simp: details_store_def pcd_store_def)

interpretation device_details: keyed_cache process_ok uid_ok "\<lambda>_. True" same_uid has_device details_lookup details_store
  by unfold_locales (auto simp: store_ok details_store_eq details_lookup_eq has_device_def)

interpretation device_pcd: keyed_cache process_ok uid_ok "\<lambda>b. b \<noteq> []" same_uid has_device pcd_lookup pcd_store
  by unfold_locales (auto simp: store_ok pcd_store_eq pcd_lookup_eq has_device_def)


lemma reachable_created: "reachable \<lparr>p_context = Some new_context, g_ctx_count = 1\<rparr>"
  by (rule reachable_call [OF reachable_init, of Create all_ok NVM_SUCCESS])
    (simp_all add: nvm_create_context_def locked_def initial_process_def)

section \<open>Properties\<close>

text \<open>
  C1: In a state that is reached from the start of the process by calls whose UIDs are arrays of
  \<open>NVM_UID_LEN\<close> bytes, whatever the locks and allocations do,
  a call that changes the context reads and writes inside its arrays and through no null pointer, with
  one exception: storing the number of the namespaces of the PCD while there is no context writes
  through the null \<open>p_context\<close>. Every other call keeps the invariant of the context: the numbers of
  devices, pools and namespaces are the lengths of the arrays, the size of a cached PCD is the length of
  its buffer, and an entry carries the UID of its discovery structure. No call keeps the number of the
  namespaces of the PCD together with their list by itself; when the callers store a number only while
  there is no list, or one that is at most its length, and a list that replaces none has at least the
  number of entries stored, the number never exceeds the length and the list is read inside its array.
\<close>

theorem context_calls_safe:
  assumes "reachable s" and "valid_call s call"
  shows "if null_call e s call then exec_call e call s = None
    else \<exists>rc s'. exec_call e call s = Some (rc, s') \<and> process_ok s' \<and>
      (pcd_namespaces_ok s \<and> pcd_call_ok s call \<longrightarrow> pcd_namespaces_ok s' \<and>
        (\<forall>e' buf. get_nvm_context_pcd_namespaces e' s' buf (int (length buf)) \<noteq> None))"
proof (cases "null_call e s call")
  case True
  then show ?thesis by (simp add: null_call_fails)
next
  case False
  obtain rc s' where "exec_call e call s = Some (rc, s')" "process_ok s'"
    using exec_call_ok [OF reachable_ok [OF assms(1)] assms(2) False] by blast
  then show ?thesis using False exec_call_pcd pcd_namespaces_readable by auto
qed

text \<open>
  C26: After any sequence of PCDs put into the context, the PCD that is read for a device the context
  knows is the last one put for its UID, and the one cached before when there was none.
\<close>

theorem device_pcd_cache_correct:
  assumes "reachable s" and "\<forall>(u, b) \<in> set kvs. length u = NVM_UID_LEN \<and> b \<noteq> []"
    and "length u' = NVM_UID_LEN" and "has_device s u'"
  shows "pcd_lookup (fold (\<lambda>(u, b). pcd_store u b) kvs s) u' =
    (case List.find (\<lambda>(u, b). uid_key u = uid_key u') (rev kvs) of
       Some (u, b) \<Rightarrow> Some b
     | None \<Rightarrow> pcd_lookup s u')"
  using device_pcd.lookup_store_all [OF reachable_ok [OF assms(1)] assms(2-4)]
  by (simp add: device_pcd.store_all_def)

lemma set_devices_loop_eq:
  "length ds = n \<Longrightarrow> n = length src \<Longrightarrow> i \<le> n \<Longrightarrow>
   set_devices_loop (\<lambda>_. True) src n ds i = Some (NVM_SUCCESS, take i ds @ map new_device (drop i src))"
proof (induction "\<lambda>_::nat. True" src n ds i rule: set_devices_loop.induct)
  case (1 src n ds i)
  show ?case
  proof (cases "i < n")
    case False
    then show ?thesis using 1 by (simp add: set_devices_loop.simps)
  next
    case True
    let ?d = "new_device (src ! i)"
    let ?d1 = "(ds ! i)\<lparr>p_device_details := None, p_pcd := None, dev_pcd_size := NO_SIZE,
      p_device_discovery := None\<rparr>"
    have d: "?d = ?d1\<lparr>dev_uid := disc_uid (src ! i), p_device_discovery := Some (src ! i)\<rparr>"
      by (simp add: new_device_def)
    have "set_devices_loop (\<lambda>_. True) src n (ds[i := ?d]) (Suc i) =
        Some (NVM_SUCCESS, take (Suc i) (ds[i := ?d]) @ map new_device (drop (Suc i) src))"
      by (rule 1(1) [of "ds ! i" ?d1 "src ! i"]) (use True 1(2-4) in \<open>auto simp: rd_in wr_in d\<close>)
    moreover have "set_devices_loop (\<lambda>_. True) src n ds i = set_devices_loop (\<lambda>_. True) src n (ds[i := ?d]) (Suc i)"
      using True 1(2,3) by (simp add: set_devices_loop.simps [of "\<lambda>_. True" src "length src" ds i] rd_in wr_in Let_def d)
    moreover have "take (Suc i) (ds[i := ?d]) @ map new_device (drop (Suc i) src) =
        take i ds @ map new_device (drop i src)"
      using True 1(2,3) by (simp add: take_Suc_conv_app_nth Cons_nth_drop_Suc [symmetric])
    ultimately show ?thesis by simp
  qed
qed

lemma get_devices_loop_eq:
  "ds = map new_device xs \<Longrightarrow> length buf = n \<Longrightarrow> length xs \<le> n \<Longrightarrow> i \<le> length xs \<Longrightarrow>
   get_devices_loop ds (length xs) buf i = Some (take i buf @ drop i xs @ drop (length xs) buf, True)"
proof (induction ds "length xs" buf i rule: get_devices_loop.induct)
  case (1 ds buf i)
  show ?case
  proof (cases "i < length xs")
    case False
    then show ?thesis using 1 by (simp add: get_devices_loop.simps)
  next
    case True
    have "get_devices_loop ds (length xs) (buf[i := xs ! i]) (Suc i) =
        Some (take (Suc i) (buf[i := xs ! i]) @ drop (Suc i) xs @ drop (length xs) (buf[i := xs ! i]), True)"
      by (rule 1(1) [of "new_device (xs ! i)" "xs ! i"])
        (use True 1(2-5) in \<open>auto simp: rd_in wr_in new_device_def\<close>)
    moreover have "take (Suc i) (buf[i := xs ! i]) @ drop (Suc i) xs @ z = take i buf @ drop i xs @ z" for z
      using True 1(3,4) by (simp add: take_Suc_conv_app_nth Cons_nth_drop_Suc [symmetric])
    ultimately show ?thesis
      using True 1(2-4)
      by (simp add: get_devices_loop.simps [of "map new_device xs" "length xs" buf i] rd_in wr_in new_device_def)
  qed
qed

lemma zero_discovery_uid [simp]: "disc_uid zero_discovery = replicate NVM_UID_LEN 0"
  by (simp add: zero_discovery_def)

text \<open>The state after \<open>set_nvm_context_devices\<close>.\<close>

lemma set_devices_eq:
  assumes "process_ok s" and "p_context s \<noteq> None"
  shows "\<exists>s' c. set_nvm_context_devices all_ok xs (int (length xs)) s = Some (NVM_SUCCESS, s') \<and>
    p_context s' = Some c \<and> p_devices c = Some (map new_device xs) \<and> device_count c = int (length xs)"
proof -
  obtain c where c: "p_context s = Some c" "context_ok c" using assms by (auto simp: process_ok_def)
  obtain c1 where "free_device_list c = Some c1" using free_device_list_ok [OF c(2)] by blast
  moreover have "set_devices_loop (alloc_ok all_ok) xs (length xs) (replicate (length xs) zero_device) 0 =
      Some (NVM_SUCCESS, map new_device xs)"
    using set_devices_loop_eq [of "replicate (length xs) zero_device" "length xs" xs 0] by (simp add: all_ok_def)
  ultimately show ?thesis using c(1) by (simp add: set_nvm_context_devices_def on_context_def locked_def)
qed

text \<open>
  C29: Devices that are put into the context are read back in order: a caller's array of the same
  length or longer gets them all, with their number as the result, and a shorter one is refused
  unchanged; right after it no device has a cached PCD.
\<close>

theorem devices_roundtrip:
  assumes "reachable s" and "p_context s \<noteq> None" and "\<forall>x \<in> set xs. length (disc_uid x) = NVM_UID_LEN"
  shows "\<exists>s'. set_nvm_context_devices all_ok xs (int (length xs)) s = Some (NVM_SUCCESS, s') \<and>
    (length xs \<le> length buf \<longrightarrow> get_nvm_context_devices all_ok buf (int (length buf)) s' =
        Some (int (length xs), xs @ drop (length xs) buf, s')) \<and>
    (length buf < length xs \<longrightarrow> get_nvm_context_devices all_ok buf (int (length buf)) s' =
        Some (NVM_ERR_ARRAYTOOSMALL, buf, s')) \<and>
    (length u = NVM_UID_LEN \<longrightarrow> pcd_lookup s' u = None)"
proof -
  obtain s' c where s': "set_nvm_context_devices all_ok xs (int (length xs)) s = Some (NVM_SUCCESS, s')"
    "p_context s' = Some c" "p_devices c = Some (map new_device xs)" "device_count c = int (length xs)"
    using set_devices_eq [OF reachable_ok [OF assms(1)] assms(2)] by blast
  have ok: "process_ok s'" using set_devices_ok [OF reachable_ok [OF assms(1)] assms(3), of all_ok] s'(1) by auto
  have pcd: "pcd_lookup s' u = None" if "uid_ok u"
    using device_index_found [of u "map new_device xs"]
    by (auto simp: pcd_lookup_eq [OF ok that] device_of_def s'(2,3) new_device_def split: option.splits bind_splits)
  have full: "get_nvm_context_devices all_ok buf (int (length buf)) s' =
      Some (int (length xs), xs @ drop (length xs) buf, s')" if l: "length xs \<le> length buf"
  proof -
    define b where "b = replicate (length xs) zero_discovery @ drop (length xs) buf"
    have "wr_bytes buf 0 (replicate (length xs) zero_discovery) = Some b"
      using l by (simp add: wr_bytes_def b_def)
    moreover have "get_devices_loop (map new_device xs) (length xs) b 0 = Some (xs @ drop (length xs) b, True)"
      using get_devices_loop_eq [of "map new_device xs" xs b "length b" 0] l by (simp add: b_def)
    moreover have "s'\<lparr>p_context := Some c\<rparr> = s'" using s'(2) by (cases s') simp
    ultimately show ?thesis using s'(2-4) l by (simp add: get_nvm_context_devices_def Let_def b_def)
  qed
  show ?thesis using s'(1) pcd full by (auto simp: get_nvm_context_devices_def s'(2-4))
qed


theorem devices_roundtrip_witness:
  "\<exists>s'. set_nvm_context_devices all_ok [zero_discovery] 1 \<lparr>p_context = Some new_context, g_ctx_count = 1\<rparr> =
      Some (NVM_SUCCESS, s') \<and>
    get_nvm_context_devices all_ok [zero_discovery, zero_discovery] 2 s' =
      Some (1, [zero_discovery, zero_discovery], s')"
proof -
  have "reachable \<lparr>p_context = Some new_context, g_ctx_count = 1\<rparr>"
    by (rule reachable_created)
  from devices_roundtrip [OF this, of "[zero_discovery]" "[zero_discovery, zero_discovery]" "[]"]
  show ?thesis by (auto simp: zero_discovery_def)
qed

text \<open>A context with one device.\<close>

definition one_device :: process where
  "one_device = \<lparr>p_context = Some (new_context\<lparr>p_devices := Some [new_device zero_discovery],
     device_count := 1\<rparr>), g_ctx_count = 1\<rparr>"

lemma reachable_one_device: "reachable one_device"
proof -
  have "set_devices_loop (alloc_ok all_ok) [zero_discovery] (Suc 0) [zero_device] 0 =
      Some (NVM_SUCCESS, [new_device zero_discovery])"
    using set_devices_loop_eq [of "[zero_device]" 1 "[zero_discovery]" 0] by (simp add: all_ok_def)
  then show ?thesis
    by (intro reachable_call [OF reachable_created, of "Set_devices [zero_discovery]" all_ok NVM_SUCCESS])
      (simp_all add: set_nvm_context_devices_def on_context_def locked_def one_device_def new_context_def
        free_device_list_def)
qed

lemma has_one_device: "has_device one_device (replicate NVM_UID_LEN 0)"
  by (simp add: has_device_def device_of_def one_device_def device_index_def new_device_def)

theorem context_calls_safe_witness:
  "\<exists>rc s'. exec_call all_ok (Set_device_pcd (replicate NVM_UID_LEN 0) [1]) one_device = Some (rc, s') \<and>
     process_ok s' \<and> pcd_namespaces_ok s' \<and>
     get_nvm_context_pcd_namespaces all_ok s' [zero_namespace_details] 1 \<noteq> None"
proof -
  have "pcd_namespaces_ok one_device"
    by (simp add: pcd_namespaces_ok_def pcd_list_ok_def one_device_def new_context_def)
  then obtain rc s' where s': "exec_call all_ok (Set_device_pcd (replicate NVM_UID_LEN 0) [1]) one_device = Some (rc, s')"
      "process_ok s'" "pcd_namespaces_ok s'"
      "\<forall>e' buf. get_nvm_context_pcd_namespaces e' s' buf (int (length buf)) \<noteq> None"
    using context_calls_safe [OF reachable_one_device, of "Set_device_pcd (replicate NVM_UID_LEN 0) [1]" all_ok]
    by (simp del: exec_call.simps not_None_eq) blast
  have "get_nvm_context_pcd_namespaces all_ok s' [zero_namespace_details] 1 \<noteq> None"
    using s'(4) [rule_format, of all_ok "[zero_namespace_details]"] by simp
  then show ?thesis using s'(1-3) by blast
qed

theorem device_pcd_cache_correct_witness:
  "pcd_lookup (pcd_store (replicate NVM_UID_LEN 0) [2] (pcd_store (replicate NVM_UID_LEN 0) [1] one_device))
     (replicate NVM_UID_LEN 0) = Some [2]"
  using device_pcd_cache_correct [OF reachable_one_device _ _ has_one_device,
      of "[(replicate NVM_UID_LEN 0, [1]), (replicate NVM_UID_LEN 0, [2])]"]
  by simp

text \<open>
  C14: \<open>invalidate_device_pcd\<close> forgets the PCD of its device and of no other one.
\<close>

theorem invalidate_device_pcd_correct:
  assumes "reachable s" and "length u = NVM_UID_LEN"
  shows "\<exists>rc s'. invalidate_device_pcd all_ok u s = Some (rc, s') \<and> process_ok s' \<and>
    (\<forall>u'. length u' = NVM_UID_LEN \<longrightarrow>
       pcd_lookup s' u' = (if uid_key u = uid_key u' then None else pcd_lookup s u') \<and>
       details_lookup s' u' = details_lookup s u')"
proof -
  have ok: "process_ok s" by (rule reachable_ok [OF assms(1)])
  obtain rc s' where s': "invalidate_device_pcd all_ok u s = Some (rc, s')" "process_ok s'"
    using exec_call_ok [OF ok, of "Invalidate_device_pcd u" all_ok] assms(2) by auto
  let ?f = "\<lambda>d. if p_pcd d \<noteq> None then d\<lparr>p_pcd := None, dev_pcd_size := NO_SIZE\<rparr> else d"
  have d: "device_of s' u' = (if uid_key u = uid_key u' then map_option ?f (device_of s u') else device_of s u')"
    if "uid_ok u'" for u'
    using device_put [OF ok assms(2) that,
        of "\<lambda>d. if p_pcd d \<noteq> None then Some (0, d\<lparr>p_pcd := None, dev_pcd_size := NO_SIZE\<rparr>) else Some (0, d)" 0 ?f] s'(1)
    by (auto simp: invalidate_device_pcd_def)
  have "pcd_lookup s' u' = (if uid_key u = uid_key u' then None else pcd_lookup s u') \<and>
       details_lookup s' u' = details_lookup s u'" if "uid_ok u'" for u'
    using that by (cases "device_of s u'") (auto simp: pcd_lookup_eq ok s'(2) details_lookup_eq d)
  then show ?thesis using s' by blast
qed

theorem invalidate_device_pcd_correct_witness:
  "\<exists>rc s'. invalidate_device_pcd all_ok (replicate NVM_UID_LEN 0) initial_process = Some (rc, s') \<and> process_ok s'"
  using invalidate_device_pcd_correct [OF reachable_init, of "replicate NVM_UID_LEN 0"] by auto


text \<open>Sequences of calls with working locks and allocations.\<close>

fun run_calls :: "context_call list \<Rightarrow> process \<Rightarrow> process option" where
  "run_calls [] s = Some s"
| "run_calls (call # calls) s = (case exec_call all_ok call s of None \<Rightarrow> None | Some (_, s') \<Rightarrow> run_calls calls s')"

lemma run_calls_append:
  "run_calls (xs @ ys) s = (case run_calls xs s of None \<Rightarrow> None | Some s' \<Rightarrow> run_calls ys s')"
  by (induction xs arbitrary: s) (auto split: option.splits)

lemma run_creates:
  "run_calls (replicate n Create) \<lparr>p_context = Some c, g_ctx_count = k\<rparr> =
     Some \<lparr>p_context = Some c, g_ctx_count = k + int n\<rparr>"
  by (induction n arbitrary: k) (auto simp: nvm_create_context_def locked_def)

lemma run_frees:
  "int n < k \<Longrightarrow> run_calls (replicate n (Free False)) \<lparr>p_context = Some c, g_ctx_count = k\<rparr> =
     Some \<lparr>p_context = Some c, g_ctx_count = k - int n\<rparr>"
  by (induction n arbitrary: k) (auto simp: nvm_free_context_def locked_def Let_def)

text \<open>
  The context is counted: after \<open>n + 1\<close> calls of \<open>nvm_create_context\<close> it outlives \<open>k\<close> calls of
  \<open>nvm_free_context\<close> exactly when \<open>k \<le> n\<close>, further calls to free it do nothing, and one forced call
  frees it whatever the count is.
\<close>

theorem context_counted:
  "\<exists>s. run_calls (replicate (Suc n) Create @ replicate k (Free False)) initial_process = Some s \<and>
     (p_context s \<noteq> None \<longleftrightarrow> k \<le> n) \<and>
     run_calls (replicate (Suc n) Create @ replicate k (Free False) @ [Free True]) initial_process =
       Some initial_process"
proof -
  have c: "run_calls (replicate (Suc n) Create) initial_process =
      Some \<lparr>p_context = Some new_context, g_ctx_count = int n + 1\<rparr>"
    using run_creates [of n new_context 1] by (simp add: nvm_create_context_def locked_def initial_process_def)
  have last: "exec_call all_ok (Free force) \<lparr>p_context = Some new_context, g_ctx_count = j\<rparr> = Some (0, initial_process)"
    if "force \<or> j = 1" for j force
    using that by (auto simp: nvm_free_context_def locked_def Let_def new_context_def free_device_list_def
        free_pool_list_def free_namespace_list_def free_pcd_namespace_list_def free_nfit_def initial_process_def)
  have idle: "run_calls (replicate m (Free False)) initial_process = Some initial_process" for m
    by (induction m) (auto simp: nvm_free_context_def locked_def initial_process_def)
  have forced: "exec_call all_ok (Free True) initial_process = Some (0, initial_process)"
    by (simp add: nvm_free_context_def locked_def initial_process_def)
  show ?thesis
  proof (cases "k \<le> n")
    case True
    have "run_calls (replicate k (Free False)) \<lparr>p_context = Some new_context, g_ctx_count = int n + 1\<rparr> =
        Some \<lparr>p_context = Some new_context, g_ctx_count = int n + 1 - int k\<rparr>"
      by (rule run_frees) (use True in simp)
    then show ?thesis using c last [of True] True by (simp add: run_calls_append del: replicate_Suc)
  next
    case False
    then have k: "replicate k (Free False) = replicate n (Free False) @ Free False # replicate (k - Suc n) (Free False)"
      by (simp add: replicate_add [symmetric] flip: replicate_Suc)
    have "run_calls (replicate n (Free False)) \<lparr>p_context = Some new_context, g_ctx_count = int n + 1\<rparr> =
        Some \<lparr>p_context = Some new_context, g_ctx_count = 1\<rparr>"
      using run_frees [of n "int n + 1" new_context] by simp
    then have "run_calls (replicate k (Free False)) \<lparr>p_context = Some new_context, g_ctx_count = int n + 1\<rparr> =
        Some initial_process"
      unfolding k using last [of False 1] idle by (simp add: run_calls_append del: exec_call.simps)
    then show ?thesis
      using c False forced by (simp add: run_calls_append initial_process_def del: replicate_Suc exec_call.simps)
  qed
qed

text \<open>
  The count of the namespaces from the PCD and their list are set by two calls, and nothing ties
  them: after a list shorter than the count, as \<open>populate_namespaces\<close> caches when it leaves incomplete
  namespaces out, a reader whose array has room for the count copies past the end of the cached list.
\<close>

theorem pcd_namespaces_overread:
  assumes "reachable s" and "p_context s = Some c" and "p_pcd_namespaces c = None"
    and "int (length xs) < n" and "n \<le> int (length buf)"
  shows "\<exists>s'. run_calls [Set_pcd_namespace_count n, Set_pcd_namespaces xs] s = Some s' \<and> process_ok s' \<and>
    get_nvm_context_pcd_namespace_count all_ok s' = Some n \<and>
    get_nvm_context_pcd_namespaces all_ok s' buf (int (length buf)) = None"
proof -
  have ok: "process_ok s" by (rule reachable_ok [OF assms(1)])
  define s1 where "s1 = s\<lparr>p_context := Some (c\<lparr>pcd_namespace_count := n\<rparr>)\<rparr>"
  have 1: "exec_call all_ok (Set_pcd_namespace_count n) s = Some (0, s1)"
    using assms(2) by (simp add: set_nvm_context_pcd_namespace_count_def locked_def s1_def)
  have ok1: "process_ok s1" using exec_call_ok [OF ok, of "Set_pcd_namespace_count n" all_ok] assms(2) 1 by (simp add: null_call_def)
  then have c1: "context_ok (c\<lparr>pcd_namespace_count := n\<rparr>)" by (simp add: process_ok_def s1_def)
  obtain c2 where c2: "free_namespace_list (c\<lparr>pcd_namespace_count := n\<rparr>) = Some c2"
    using free_namespace_list_ok [OF c1] by blast
  have k: "pcd_namespace_count c2 = n" "p_pcd_namespaces c2 = None"
    using c2 assms(3) by (auto simp: free_namespace_list_def split: option.splits if_splits)
  define s2 where "s2 = s1\<lparr>p_context := Some (c2\<lparr>p_pcd_namespaces := Some xs\<rparr>)\<rparr>"
  have 2: "exec_call all_ok (Set_pcd_namespaces xs) s1 = Some (0, s2)"
    using c2 k by (simp add: set_nvm_context_pcd_namespaces_def on_context_def locked_def s1_def s2_def
        free_pcd_namespace_list_def Let_def rd_bytes_def)
  have ok2: "process_ok s2" using exec_call_ok [OF ok1, of "Set_pcd_namespaces xs" all_ok] 2 by simp
  have "get_nvm_context_pcd_namespaces all_ok s2 buf (int (length buf)) = None"
    using assms(4,5) k(1)
    by (auto simp: get_nvm_context_pcd_namespaces_def from_context_def s2_def copy_plan_def rd_bytes_def wr_bytes_def)
  moreover have "get_nvm_context_pcd_namespace_count all_ok s2 = Some n"
    using k(1) assms(4) by (simp add: get_nvm_context_pcd_namespace_count_def from_context_def s2_def)
  ultimately show ?thesis using 1 2 ok2 by (simp del: exec_call.simps)
qed

theorem pcd_namespaces_overread_witness:
  "\<exists>s'. run_calls [Set_pcd_namespace_count 2, Set_pcd_namespaces [zero_namespace_details]] \<lparr>p_context = Some new_context, g_ctx_count = 1\<rparr> =
      Some s' \<and> get_nvm_context_pcd_namespaces all_ok s' [zero_namespace_details, zero_namespace_details] 2 = None"
proof -
  have c: "reachable \<lparr>p_context = Some new_context, g_ctx_count = 1\<rparr>"
    by (rule reachable_created)
  from pcd_namespaces_overread [OF c, of new_context "[zero_namespace_details]" 2 "[zero_namespace_details, zero_namespace_details]"] show ?thesis
    by (auto simp: new_context_def)
qed


definition new_namespace :: "namespace_discovery \<Rightarrow> nvm_namespace_context" where
  "new_namespace x = \<lparr>nsc_uid = namespace_uid x, p_namespace_discovery = Some x, p_namespace_details = None\<rparr>"

lemma set_namespaces_loop_eq:
  "length ns = n \<Longrightarrow> n = length src \<Longrightarrow> i \<le> n \<Longrightarrow>
   set_namespaces_loop (\<lambda>_. True) src n ns i = Some (NVM_SUCCESS, take i ns @ map new_namespace (drop i src))"
proof (induction "\<lambda>_::nat. True" src n ns i rule: set_namespaces_loop.induct)
  case (1 src n ns i)
  show ?case
  proof (cases "i < n")
    case False
    then show ?thesis using 1 by (simp add: set_namespaces_loop.simps)
  next
    case True
    let ?d = "new_namespace (src ! i)"
    let ?d1 = "(ns ! i)\<lparr>p_namespace_details := None, p_namespace_discovery := None\<rparr>"
    have d: "?d = ?d1\<lparr>nsc_uid := namespace_uid (src ! i), p_namespace_discovery := Some (src ! i)\<rparr>"
      by (simp add: new_namespace_def)
    have "set_namespaces_loop (\<lambda>_. True) src n (ns[i := ?d]) (Suc i) =
        Some (NVM_SUCCESS, take (Suc i) (ns[i := ?d]) @ map new_namespace (drop (Suc i) src))"
      by (rule 1(1) [of "ns ! i" ?d1 "src ! i"]) (use True 1(2-4) in \<open>auto simp: rd_in wr_in d\<close>)
    moreover have "set_namespaces_loop (\<lambda>_. True) src n ns i =
        set_namespaces_loop (\<lambda>_. True) src n (ns[i := ?d]) (Suc i)"
      using True 1(2,3)
      by (simp add: set_namespaces_loop.simps [of "\<lambda>_. True" src "length src" ns i] rd_in wr_in Let_def d)
    moreover have "take (Suc i) (ns[i := ?d]) @ map new_namespace (drop (Suc i) src) =
        take i ns @ map new_namespace (drop i src)"
      using True 1(2,3) by (simp add: take_Suc_conv_app_nth Cons_nth_drop_Suc [symmetric])
    ultimately show ?thesis by simp
  qed
qed

lemma get_namespaces_loop_eq:
  "length buf = n \<Longrightarrow> i \<le> n \<Longrightarrow> i \<le> length xs \<Longrightarrow>
   get_namespaces_loop (map new_namespace xs) n buf i =
     (if n \<le> length xs then Some (take i buf @ drop i (take n xs)) else None)"
proof (induction "n - i" arbitrary: i buf)
  case 0
  then show ?case by (simp add: get_namespaces_loop.simps)
next
  case (Suc k)
  note u = get_namespaces_loop.simps [of "map new_namespace xs" n buf i]
  show ?case
  proof (cases "i < length xs")
    case False
    then show ?thesis using Suc(2-5) u by (simp add: rd_def)
  next
    case True
    let ?buf = "buf[i := xs ! i]"
    have l: "i < n" using Suc(2) by simp
    have step: "get_namespaces_loop (map new_namespace xs) n buf i =
        get_namespaces_loop (map new_namespace xs) n ?buf (Suc i)"
      using u True l Suc(3) by (simp add: rd_in wr_in new_namespace_def)
    have "get_namespaces_loop (map new_namespace xs) n ?buf (Suc i) =
        (if n \<le> length xs then Some (take (Suc i) ?buf @ drop (Suc i) (take n xs)) else None)"
      by (rule Suc(1)) (use Suc(2-4) True l in auto)
    moreover have "take (Suc i) ?buf @ drop (Suc i) (take n xs) = take i buf @ drop i (take n xs)" if "n \<le> length xs"
      using l Suc(3) that Cons_nth_drop_Suc [of i "take n xs"]
      by (simp add: take_Suc_conv_app_nth)
    ultimately show ?thesis using step by simp
  qed
qed

text \<open>
  Namespaces that are put into the context are read back by a caller whose array has the same
  length; a shorter array gets a prefix and the code that says so. An array that is longer makes the
  copy loop, which runs to the caller's count, read past the end of the cached list.
\<close>

theorem namespaces_roundtrip:
  assumes "reachable s" and "p_context s \<noteq> None" and "xs \<noteq> []"
  shows "\<exists>s'. set_nvm_context_namespaces all_ok xs (int (length xs)) s = Some (NVM_SUCCESS, s') \<and>
    get_nvm_context_namespaces all_ok s' buf (int (length buf)) =
      (if length xs < length buf then None
       else if length buf < length xs then Some (NVM_ERR_ARRAYTOOSMALL, take (length buf) xs)
       else Some (int (length xs), xs))"
proof -
  obtain c where c: "p_context s = Some c" "context_ok c"
    using assms(2) reachable_ok [OF assms(1)] by (auto simp: process_ok_def)
  obtain c1 where c1: "free_namespace_list c = Some c1" using free_namespace_list_ok [OF c(2)] by blast
  define s' where "s' = s\<lparr>p_context := Some (c1\<lparr>p_namespaces := Some (map new_namespace xs),
    namespace_count := int (length xs)\<rparr>)\<rparr>"
  have "set_namespaces_loop (alloc_ok all_ok) xs (length xs) (replicate (length xs) zero_namespace_context) 0 =
      Some (NVM_SUCCESS, map new_namespace xs)"
    using set_namespaces_loop_eq [of "replicate (length xs) zero_namespace_context" "length xs" xs 0]
    by (simp add: all_ok_def)
  then have s: "set_nvm_context_namespaces all_ok xs (int (length xs)) s = Some (NVM_SUCCESS, s')"
    using c(1) c1 by (simp add: set_nvm_context_namespaces_def on_context_def locked_def s'_def)
  have get: "get_nvm_context_namespaces all_ok s' buf (int (length buf)) =
      map_option (\<lambda>b. (snd (copy_plan (int (length buf)) (int (length xs))), b))
        (get_namespaces_loop (map new_namespace xs) (length buf)
          (replicate (min (length buf) (length xs)) zero_namespace @ drop (min (length buf) (length xs)) buf) 0)"
    using assms(3)
    by (auto simp: get_nvm_context_namespaces_def from_context_def s'_def copy_plan_def wr_bytes_def min_def
        map_option_case split: option.splits)
  show ?thesis
    using s get_namespaces_loop_eq [of "replicate (min (length buf) (length xs)) zero_namespace @
        drop (min (length buf) (length xs)) buf" "length buf" 0 xs]
    by (intro exI [of _ s']) (auto simp: get copy_plan_def)
qed

theorem namespaces_roundtrip_witness:
  "\<exists>s'. set_nvm_context_namespaces all_ok [zero_namespace] 1 \<lparr>p_context = Some new_context, g_ctx_count = 1\<rparr> =
      Some (NVM_SUCCESS, s') \<and>
    get_nvm_context_namespaces all_ok s' [zero_namespace, zero_namespace] 2 = None"
proof -
  have c: "reachable \<lparr>p_context = Some new_context, g_ctx_count = 1\<rparr>"
    by (rule reachable_created)
  from namespaces_roundtrip [OF c, of "[zero_namespace]" "[zero_namespace, zero_namespace]"] show ?thesis
    by auto
qed

end
