(* ===== verification/Devices.thy ===== *)
theory Devices
  imports Device_Fw Context_Cache
begin

text \<open>
  The devices of the system (\<open>lib/device.c\<close>): a device is described from the topology of the NFIT, the
  SMBIOS details, and, for the full description, from what its firmware reports; the descriptions are
  kept in the library context. \<open>topo_count\<close> and \<open>topo\<close> are what \<open>get_topology_count\<close> and
  \<open>get_topology\<close> return, \<open>smbios\<close> what \<open>get_dimm_details\<close> returns for a handle. The context copies a
  description as its bytes: \<open>view\<close> gives them and \<open>unview\<close> reads them back.
\<close>

unbundle bit_operations_syntax

section \<open>State\<close>

record dimm_device = dimm_identity +
  disc_all_properties_populated :: bool
  disc_physical_id :: u16
  disc_device_id :: u16
  disc_revision_id :: u16
  disc_channel_pos :: u16
  disc_channel_id :: u16
  disc_memory_controller_id :: u16
  disc_socket_id :: u16
  disc_node_controller_id :: u16
  disc_memory_type :: memory_type
  disc_subsystem_revision_id :: u16
  disc_fw_revision :: bytes
  disc_fw_api_version :: bytes
  disc_capacity :: u64
  disc_lock_state :: lock_state

abbreviation NVM_VERSION_LEN :: nat where "NVM_VERSION_LEN \<equiv> 25"

definition zero_device_discovery :: dimm_device where
  "zero_device_discovery =
     \<lparr>disc_uid = replicate NVM_UID_LEN 0, disc_handle = 0, disc_manageability = 0, disc_rest = [],
      disc_vendor_id = 0, disc_dimm_sku = 0, disc_manufacturer = replicate NVM_MANUFACTURER_LEN 0,
      disc_serial_number = replicate NVM_SERIAL_LEN 0, disc_subsystem_vendor_id = 0,
      disc_subsystem_device_id = 0, disc_manufacturing_info_valid = False,
      disc_manufacturing_location = 0, disc_manufacturing_date = 0,
      disc_part_number = replicate NVM_PART_NUM_LEN 0,
      disc_interface_format_codes = replicate NVM_MAX_IFCS_PER_DIMM 0,
      disc_security_capabilities =
        \<lparr>passphrase_capable = False, unlock_device_capable = False, erase_crypto_capable = False\<rparr>,
      disc_device_capabilities =
        \<lparr>die_sparing_capable = False, memory_mode_capable = False, storage_mode_capable = False,
         app_direct_mode_capable = False\<rparr>,
      disc_all_properties_populated = False, disc_physical_id = 0, disc_device_id = 0, disc_revision_id = 0,
      disc_channel_pos = 0, disc_channel_id = 0, disc_memory_controller_id = 0, disc_socket_id = 0,
      disc_node_controller_id = 0, disc_memory_type = MEMORY_TYPE_UNKNOWN, disc_subsystem_revision_id = 0,
      disc_fw_revision = replicate NVM_VERSION_LEN 0, disc_fw_api_version = replicate NVM_VERSION_LEN 0,
      disc_capacity = 0, disc_lock_state = LOCK_STATE_UNKNOWN\<rparr>"

record nvm_details =
  nd_id :: u16
  nd_type :: u8
  nd_type_detail_bits :: u32
  nd_form_factor :: u16
  nd_data_width :: u64
  nd_total_width :: u64
  nd_size :: u64
  nd_speed :: u64
  nd_part_number :: bytes
  nd_device_locator :: bytes
  nd_bank_label :: bytes

abbreviation MANAGEMENT_NON_FUNCTIONAL :: nat where "MANAGEMENT_NON_FUNCTIONAL \<equiv> 3"

section \<open>Memory topology\<close>

record memory_topology =
  mt_physical_id :: u16
  mt_memory_type :: memory_type
  mt_form_factor :: device_form_factor
  mt_raw_capacity :: u64
  mt_data_width :: u64
  mt_total_width :: u64
  mt_speed :: u64
  mt_part_number :: bytes
  mt_device_locator :: bytes
  mt_bank_label :: bytes

abbreviation NVM_DEVICE_LOCATOR_LEN :: nat where "NVM_DEVICE_LOCATOR_LEN \<equiv> 128"
abbreviation NVM_BANK_LABEL_LEN :: nat where "NVM_BANK_LABEL_LEN \<equiv> 128"

definition zero_memory_topology :: memory_topology where
  "zero_memory_topology =
     \<lparr>mt_physical_id = 0, mt_memory_type = MEMORY_TYPE_UNKNOWN, mt_form_factor = DEVICE_FORM_FACTOR_UNKNOWN,
      mt_raw_capacity = 0, mt_data_width = 0, mt_total_width = 0, mt_speed = 0,
      mt_part_number = replicate NVM_PART_NUM_LEN 0, mt_device_locator = replicate NVM_DEVICE_LOCATOR_LEN 0,
      mt_bank_label = replicate NVM_BANK_LABEL_LEN 0\<rparr>"

definition nvm_get_memory_topology_count :: "bool \<Rightarrow> int \<Rightarrow> int" where
  "nvm_get_memory_topology_count permitted smbios_count =
     (if \<not> permitted then NVM_ERR_INVALIDPERMISSIONS else smbios_count)"

definition nvm_details_to_memory_topology :: "nvm_details \<Rightarrow> memory_topology \<Rightarrow> memory_topology option" where
  "nvm_details_to_memory_topology p_details p_mem_device = do {
     part \<leftarrow> rd_bytes (nd_part_number p_details) 0 NVM_PART_NUM_LEN;
     part' \<leftarrow> wr_bytes (mt_part_number p_mem_device) 0 part;
     loc \<leftarrow> rd_bytes (nd_device_locator p_details) 0 NVM_DEVICE_LOCATOR_LEN;
     loc' \<leftarrow> wr_bytes (mt_device_locator p_mem_device) 0 loc;
     bank \<leftarrow> rd_bytes (nd_bank_label p_details) 0 NVM_BANK_LABEL_LEN;
     bank' \<leftarrow> wr_bytes (mt_bank_label p_mem_device) 0 bank;
     Some (p_mem_device\<lparr>mt_physical_id := nd_id p_details,
       mt_memory_type := get_memory_type_from_smbios_memory_type (nd_type p_details) (ucast (nd_type_detail_bits p_details)),
       mt_form_factor := get_device_form_factor_from_smbios_form_factor (nd_form_factor p_details),
       mt_raw_capacity := nd_size p_details, mt_data_width := nd_data_width p_details,
       mt_total_width := nd_total_width p_details, mt_speed := nd_speed p_details,
       mt_part_number := part', mt_device_locator := loc', mt_bank_label := bank'\<rparr>) }"

function memory_topology_loop ::
    "nvm_details list \<Rightarrow> nat \<Rightarrow> nat \<Rightarrow> memory_topology list \<Rightarrow> memory_topology list option" where
  "memory_topology_loop details n i ts =
     (if i < n then do {
        d \<leftarrow> rd details i;
        t \<leftarrow> rd ts i;
        t' \<leftarrow> nvm_details_to_memory_topology d t;
        ts' \<leftarrow> wr ts i t';
        memory_topology_loop details n (Suc i) ts' }
      else Some ts)"
  by pat_completeness auto
termination
  by (relation "measure (\<lambda>(ds, n, i, ts). n - i)") auto

declare memory_topology_loop.simps [simp del]

text \<open>\<open>inventory count\<close> is what \<open>get_smbios_inventory\<close> returns for an array of \<open>count\<close> entries.\<close>

definition nvm_get_memory_topology ::
    "bool \<Rightarrow> int \<Rightarrow> (nat \<Rightarrow> bool) \<Rightarrow> (nat \<Rightarrow> int \<times> nvm_details list) \<Rightarrow> memory_topology list option \<Rightarrow> nat \<Rightarrow>
     (int \<times> memory_topology list option) option" where
  "nvm_get_memory_topology permitted smbios_count alloc inventory p_memory_devices count =
     (if \<not> permitted then Some (NVM_ERR_INVALIDPERMISSIONS, p_memory_devices)
      else (case p_memory_devices of
        None \<Rightarrow> Some (NVM_ERR_INVALIDPARAMETER, None)
      | Some ts \<Rightarrow>
          let rc = nvm_get_memory_topology_count permitted smbios_count in
          if rc > 0 then do {
            ts0 \<leftarrow> wr_bytes ts 0 (replicate count zero_memory_topology);
            if \<not> alloc count then Some (NVM_ERR_NOMEMORY, Some ts0)
            else (case inventory count of (rc', details) \<Rightarrow>
              if rc' > 0 \<or> rc' = NVM_ERR_ARRAYTOOSMALL then do {
                ts' \<leftarrow> memory_topology_loop details (if rc' \<ge> 0 then nat rc' mod 256 else count) 0 ts0;
                Some (rc', Some ts') }
              else Some (rc', Some ts0)) }
          else Some (rc, p_memory_devices)))"

section \<open>Topology\<close>

definition NFIT_DIMM_STATE_IS_DISABLED :: "u16 \<Rightarrow> bool" where
  "NFIT_DIMM_STATE_IS_DISABLED flag \<longleftrightarrow> drop_bit 6 flag AND 1 \<noteq> 0"

definition get_manageability_from_topology :: "nvm_topology \<Rightarrow> nat option" where
  "get_manageability_from_topology t =
     (if NFIT_DIMM_STATE_IS_DISABLED (tp_state_flags t) then Some MANAGEMENT_NON_FUNCTIONAL
      else do {
        ifc_ok \<leftarrow> is_device_interface_format_supported t;
        Some (if \<not> ifc_ok then MANAGEMENT_INVALIDCONFIG
              else if \<not> is_device_subsystem_controller_supported t then MANAGEMENT_INVALIDCONFIG
              else MANAGEMENT_VALIDCONFIG) })"

definition nvm_topology_to_device :: "nvm_topology \<Rightarrow> dimm_device \<Rightarrow> dimm_device option" where
  "nvm_topology_to_device t x = do {
     sn \<leftarrow> rd_bytes (tp_serial_number t) 0 NVM_SERIAL_LEN;
     serial \<leftarrow> wr_bytes (disc_serial_number x) 0 sn;
     ifcs \<leftarrow> copy_ifc_loop (disc_interface_format_codes x) (tp_fmt_interface_codes t) 0 NVM_MAX_IFCS_PER_DIMM;
     manageability \<leftarrow> get_manageability_from_topology t;
     let h = tp_device_handle t;
     let valid = (tp_manufacturing_info_valid t = 1);
     Some (x\<lparr>disc_handle := h, disc_physical_id := tp_id t, disc_vendor_id := tp_vendor_id t,
       disc_device_id := tp_device_id t, disc_revision_id := tp_revision_id t,
       disc_subsystem_vendor_id := tp_subsystem_vendor_id t,
       disc_subsystem_device_id := tp_subsystem_device_id t,
       disc_subsystem_revision_id := tp_subsystem_revision_id t,
       disc_manufacturing_info_valid := (tp_manufacturing_info_valid t \<noteq> 0),
       disc_manufacturing_location := (if valid then tp_manufacturing_location t else 0),
       disc_manufacturing_date := (if valid then tp_manufacturing_date t else 0),
       disc_serial_number := serial, disc_interface_format_codes := ifcs,
       disc_manageability := manageability,
       disc_socket_id := ucast (drop_bit 12 h AND 0xF),
       disc_memory_controller_id := ucast (drop_bit 8 h AND 0xF),
       disc_node_controller_id := ucast (drop_bit 16 h AND 0xFFF),
       disc_channel_id := ucast (drop_bit 4 h AND 0xF),
       disc_channel_pos := ucast (h AND 0xF)\<rparr>) }"

text \<open>The loop over the topologies: the code or the count, and the devices.\<close>

function from_topologies_loop ::
    "nvm_topology list \<Rightarrow> nat \<Rightarrow> nat \<Rightarrow> nat \<Rightarrow> dimm_device list \<Rightarrow> (int \<times> dimm_device list) option" where
  "from_topologies_loop ts topo_count dev_count i devs =
     (if i < topo_count then
        if i \<ge> dev_count then Some (NVM_ERR_ARRAYTOOSMALL, devs)
        else do {
          t \<leftarrow> rd ts i;
          x \<leftarrow> rd devs i;
          x' \<leftarrow> nvm_topology_to_device t x;
          devs' \<leftarrow> wr devs i x';
          from_topologies_loop ts topo_count dev_count (Suc i) devs' }
      else Some (int i, devs))"
  by pat_completeness auto
termination
  by (relation "measure (\<lambda>(ts, n, m, i, ds). n - i)") auto

declare from_topologies_loop.simps [simp del]

definition populate_devices_from_topologies ::
    "dimm_device list \<Rightarrow> nat \<Rightarrow> nvm_topology list \<Rightarrow> nat \<Rightarrow> (int \<times> dimm_device list) option" where
  "populate_devices_from_topologies devs dev_count ts topo_count = from_topologies_loop ts topo_count dev_count 0 devs"

text \<open>A loop that updates every device below a count.\<close>

function for_devices ::
    "('x \<Rightarrow> 'x option) \<Rightarrow> nat \<Rightarrow> nat \<Rightarrow> 'x list \<Rightarrow> 'x list option" where
  "for_devices f n i devs =
     (if i < n then do {
        x \<leftarrow> rd devs i;
        x' \<leftarrow> f x;
        devs' \<leftarrow> wr devs i x';
        for_devices f n (Suc i) devs' }
      else Some devs)"
  by pat_completeness auto
termination
  by (relation "measure (\<lambda>(f, n, i, ds). n - i)") auto

declare for_devices.simps [simp del]

definition add_smbios_properties_to_populated_devices ::
    "(u32 \<Rightarrow> int \<times> nvm_details) \<Rightarrow> dimm_device list \<Rightarrow> nat \<Rightarrow> dimm_device list option" where
  "add_smbios_properties_to_populated_devices smbios devs dev_count =
     for_devices (\<lambda>x. Some (case smbios (disc_handle x) of (rc, d) \<Rightarrow>
       if rc = NVM_SUCCESS
       then x\<lparr>disc_capacity := nd_size d,
              disc_memory_type := get_memory_type_from_smbios_memory_type (nd_type d) (ucast (nd_type_detail_bits d))\<rparr>
       else x)) dev_count 0 devs"

section \<open>Firmware\<close>

text \<open>The security status of \<open>lib/fis_types.h\<close>, bit by bit.\<close>

definition security_state_to_enum :: "u8 \<Rightarrow> lock_state" where
  "security_state_to_enum security_status =
     (if security_status AND 0x20 \<noteq> 0 then LOCK_STATE_NOT_SUPPORTED
      else if security_status AND 0x08 \<noteq> 0 then LOCK_STATE_FROZEN
      else if security_status AND 0x02 = 0 then LOCK_STATE_DISABLED
      else if security_status AND 0x10 \<noteq> 0 then LOCK_STATE_PASSPHRASE_LIMIT
      else if security_status AND 0x04 \<noteq> 0 then LOCK_STATE_LOCKED
      else LOCK_STATE_UNLOCKED)"

definition add_security_state_to_device ::
    "'d passthrough \<Rightarrow> dimm_device \<Rightarrow> 'd \<Rightarrow> (int \<times> dimm_device \<times> 'd) option" where
  "add_security_state_to_device pt x d =
     (case fw_get_security_state pt (disc_handle x) d of (rc, p, d') \<Rightarrow>
        if rc \<noteq> NVM_SUCCESS then Some (rc, x\<lparr>disc_lock_state := LOCK_STATE_UNKNOWN\<rparr>, d')
        else do {
          security_status \<leftarrow> rd p 0;
          Some (rc, x\<lparr>disc_lock_state := security_state_to_enum security_status\<rparr>, d') })"

text \<open>\<open>FW_VER_ARR_TO_STR\<close>: the five bytes of the version, two decimal digits each.\<close>

definition bcd_digits :: "u8 \<Rightarrow> nat" where
  "bcd_digits b = unat (drop_bit 4 b AND 0xF) * 10 + unat (b AND 0xF)"

definition FW_VER_ARR_TO_STR :: "bytes \<Rightarrow> bytes \<Rightarrow> nat \<Rightarrow> bytes option" where
  "FW_VER_ARR_TO_STR arr str len = do {
     a4 \<leftarrow> rd arr 4; a3 \<leftarrow> rd arr 3; a2 \<leftarrow> rd arr 2; a1 \<leftarrow> rd arr 1; a0 \<leftarrow> rd arr 0;
     s \<leftarrow> build_revision (Some str) len (bcd_digits a4) (bcd_digits a3) (bcd_digits a2)
           (unat (drop_bit 4 a1 AND 0xF) * 1000 + unat (a1 AND 0xF) * 100
            + unat (drop_bit 4 a0 AND 0xF) * 10 + unat (a0 AND 0xF));
     s }"

definition add_identify_dimm_properties_to_device :: "dimm_device \<Rightarrow> bytes \<Rightarrow> dimm_device option" where
  "add_identify_dimm_properties_to_device x p = do {
     api_ver \<leftarrow> rd16 p 68;
     dimm_sku \<leftarrow> rd32 p 62;
     mf \<leftarrow> rd_bytes p 36 2;
     manufacturer \<leftarrow> wr_bytes (disc_manufacturer x) 0 mf;
     pn \<leftarrow> rd_bytes p 42 20;
     part_number \<leftarrow> wr_bytes (disc_part_number x) 0 pn;
     fwr \<leftarrow> rd_bytes p 8 5;
     fw_revision \<leftarrow> FW_VER_ARR_TO_STR fwr (disc_fw_revision x) NVM_VERSION_LEN;
     api \<leftarrow> build_fw_revision (Some (disc_fw_api_version x)) NVM_VERSION_LEN
              (unat (get_fw_api_major_version api_ver)) (unat (get_fw_api_minor_version api_ver));
     fw_api_version \<leftarrow> api;
     raw_capacity \<leftarrow> rd32 p 32;
     ifc \<leftarrow> rd16 p 6;
     ifce \<leftarrow> rd16 p 66;
     add_ifcs_from_identify_dimm_to_device
       (x\<lparr>disc_manageability := set_device_manageability_from_firmware api_ver (disc_manageability x),
          disc_dimm_sku := dimm_sku, disc_manufacturer := manufacturer, disc_part_number := part_number,
          disc_fw_revision := fw_revision, disc_fw_api_version := fw_api_version,
          disc_capacity := MULTIPLES_TO_BYTES raw_capacity\<rparr>) ifc ifce }"

abbreviation IS_DEVICE_MANAGEABLE :: "'a device_discovery_scheme \<Rightarrow> bool" where
  "IS_DEVICE_MANAGEABLE x \<equiv> disc_manageability x = MANAGEMENT_VALIDCONFIG"

text \<open>\<open>id_dimm\<close> is the uninitialised local payload.\<close>

definition add_firmware_properties_to_device ::
    "'d passthrough \<Rightarrow> bytes \<Rightarrow> dimm_device \<Rightarrow> 'd \<Rightarrow> (int \<times> dimm_device \<times> 'd) option" where
  "add_firmware_properties_to_device pt id_dimm x d =
     (if IS_DEVICE_MANAGEABLE x then do {
        (rc, p, d1) \<leftarrow> fw_get_identify_dimm pt (disc_handle x) id_dimm d;
        if rc \<noteq> NVM_SUCCESS then Some (rc, x\<lparr>disc_manageability := MANAGEMENT_NON_FUNCTIONAL\<rparr>, d1)
        else do {
          x1 \<leftarrow> add_identify_dimm_properties_to_device x p;
          if IS_DEVICE_MANAGEABLE x1 then do {
            (_, x2, d2) \<leftarrow> add_security_state_to_device pt x1 d1;
            Some (rc, x2, d2) }
          else Some (rc, x1, d1) } }
      else Some (NVM_SUCCESS, x, d))"

function add_firmware_loop ::
    "'d passthrough \<Rightarrow> bytes \<Rightarrow> nat \<Rightarrow> nat \<Rightarrow> dimm_device list \<Rightarrow> 'd \<Rightarrow> (int \<times> dimm_device list \<times> 'd) option" where
  "add_firmware_loop pt id_dimm n i devs d =
     (if i < n then do {
        x \<leftarrow> rd devs i;
        (rc, x', d') \<leftarrow> add_firmware_properties_to_device pt id_dimm x d;
        devs' \<leftarrow> wr devs i x';
        if rc \<noteq> NVM_SUCCESS then Some (rc, devs', d')
        else add_firmware_loop pt id_dimm n (Suc i) devs' d' }
      else Some (NVM_SUCCESS, devs, d))"
  by pat_completeness auto
termination
  by (relation "measure (\<lambda>(pt, g, n, i, ds, d). n - i)") auto

declare add_firmware_loop.simps [simp del]

definition add_firmware_properties_to_populated_devices ::
    "'d passthrough \<Rightarrow> bytes \<Rightarrow> dimm_device list \<Rightarrow> nat \<Rightarrow> 'd \<Rightarrow> (int \<times> dimm_device list \<times> 'd) option" where
  "add_firmware_properties_to_populated_devices pt id_dimm devs dev_count d =
     add_firmware_loop pt id_dimm dev_count 0 devs d"

definition calculate_capabilities_for_populated_devices :: "dimm_device list \<Rightarrow> nat \<Rightarrow> dimm_device list option" where
  "calculate_capabilities_for_populated_devices devs n =
     for_devices (\<lambda>x. do {
       x' \<leftarrow> calculate_device_capabilities x;
       Some (x'\<lparr>disc_security_capabilities := map_sku_security_capabilities (disc_dimm_sku x')\<rparr>) }) n 0 devs"

text \<open>\<open>garbage\<close> is the uninitialised local array of \<open>calculate_device_uid\<close>.\<close>

definition calculate_uids_for_populated_devices :: "bytes \<Rightarrow> dimm_device list \<Rightarrow> nat \<Rightarrow> dimm_device list option" where
  "calculate_uids_for_populated_devices garbage devs n =
     for_devices (\<lambda>x. do { (_, x') \<leftarrow> calculate_device_uid garbage (Some x); x' }) n 0 devs"

section \<open>All devices\<close>

text \<open>What the environment of a call gives: see the head of the theory.\<close>

record device_env =
  env_context :: context_env
  env_alloc :: "nat \<Rightarrow> bool"
  env_topo_count :: int
  env_topo :: "int \<times> nvm_topology list"
  env_smbios :: "u32 \<Rightarrow> int \<times> nvm_details"
  env_view :: "dimm_device \<Rightarrow> device_discovery"
  env_unview :: "device_discovery \<Rightarrow> dimm_device"
  env_id_dimm :: bytes
  env_garbage :: bytes
  env_permitted :: bool
  env_driver :: bool

text \<open>Describing all devices afresh; the result of the firmware replaces that of the topology.\<close>

definition describe_devices ::
    "device_env \<Rightarrow> 'd passthrough \<Rightarrow> dimm_device list \<Rightarrow> nat \<Rightarrow> bool \<Rightarrow> nat \<Rightarrow> 'd \<Rightarrow>
     (int \<times> dimm_device list \<times> 'd) option" where
  "describe_devices E pt devs count populate_all n d = do {
     (rc, devs1) \<leftarrow> populate_devices_from_topologies devs count (snd (env_topo E)) (nat (env_topo_count E));
     devs2 \<leftarrow> add_smbios_properties_to_populated_devices (env_smbios E) devs1 n;
     (rc', devs3, d') \<leftarrow>
       (if populate_all then do {
          (fw_rc, ds1, d1) \<leftarrow> add_firmware_properties_to_populated_devices pt (env_id_dimm E) devs2 n d;
          ds2 \<leftarrow> calculate_capabilities_for_populated_devices ds1 n;
          ds3 \<leftarrow> calculate_uids_for_populated_devices (env_garbage E) ds2 n;
          Some (if fw_rc \<noteq> NVM_SUCCESS then fw_rc else rc, ds3, d1) }
        else Some (rc, devs2, d));
     devs4 \<leftarrow> for_devices (\<lambda>x. Some (x\<lparr>disc_all_properties_populated := populate_all\<rparr>)) n 0 devs3;
     Some (rc', devs4, d') }"

definition populate_devices ::
    "device_env \<Rightarrow> 'd passthrough \<Rightarrow> dimm_device list \<Rightarrow> nat \<Rightarrow> bool \<Rightarrow> process \<times> 'd \<Rightarrow>
     (int \<times> dimm_device list \<times> process \<times> 'd) option" where
  "populate_devices E pt devs count populate_all st =
     (case st of (s, d) \<Rightarrow>
        if env_topo_count E \<le> 0 then Some (env_topo_count E, devs, s, d)
        else if int count < env_topo_count E then Some (NVM_ERR_ARRAYTOOSMALL, devs, s, d)
        else do {
          (rc, raw, s1) \<leftarrow> get_nvm_context_devices (env_context E) (map (env_view E) devs) (int count) s;
          let devs1 = map (env_unview E) raw;
          stale \<leftarrow>
            (if rc < 0 \<and> rc \<noteq> NVM_ERR_ARRAYTOOSMALL then Some True
             else if rc > 0 \<and> populate_all
             then map_option (\<lambda>x. \<not> disc_all_properties_populated x) (rd devs1 0)
             else Some False);
          if \<not> stale then Some (rc, devs1, s1, d)
          else do {
            devs2 \<leftarrow> wr_bytes devs1 0 (replicate count zero_device_discovery);
            if \<not> env_alloc E (nat (env_topo_count E)) then Some (NVM_ERR_NOMEMORY, devs2, s1, d)
            else if fst (env_topo E) > 0 then do {
              (rc', devs3, d') \<leftarrow> describe_devices E pt devs2 count populate_all (nat (fst (env_topo E))) d;
              (_, s2) \<leftarrow> set_nvm_context_devices (env_context E) (map (env_view E) devs3) rc' s1;
              Some (rc', devs3, s2, d') }
            else Some (fst (env_topo E), devs2, s1, d) } })"

section \<open>The interface\<close>

definition nvm_get_device_count :: "device_env \<Rightarrow> process \<Rightarrow> int option" where
  "nvm_get_device_count E s =
     (if \<not> env_permitted E then Some NVM_ERR_INVALIDPERMISSIONS
      else if \<not> env_driver E then Some NVM_ERR_BADDRIVER
      else do {
        n \<leftarrow> get_nvm_context_device_count (env_context E) s;
        Some (if n < 0 then env_topo_count E else n) })"

text \<open>
  The tests of \<open>nvm_get_devices_nfit\<close> only set the code: the block that follows them is not an
  \<open>else\<close>, so it always runs, with a null pointer too.
\<close>

definition nvm_get_devices_nfit ::
    "device_env \<Rightarrow> 'd passthrough \<Rightarrow> dimm_device list option \<Rightarrow> nat \<Rightarrow> process \<times> 'd \<Rightarrow>
     (int \<times> dimm_device list option \<times> process \<times> 'd) option" where
  "nvm_get_devices_nfit E pt p_devs count st =
     (let rc = (if \<not> env_permitted E then NVM_ERR_INVALIDPERMISSIONS
                else if \<not> env_driver E then NVM_ERR_BADDRIVER
                else if p_devs = None then NVM_ERR_INVALIDPARAMETER
                else NVM_ERR_UNKNOWN) in
      do {
        (rc, devs, s, d) \<leftarrow> populate_devices E pt (case p_devs of None \<Rightarrow> [] | Some b \<Rightarrow> b) count False st;
        Some (rc, map_option (\<lambda>_. devs) p_devs, s, d) })"

definition nvm_get_devices ::
    "device_env \<Rightarrow> 'd passthrough \<Rightarrow> dimm_device list option \<Rightarrow> nat \<Rightarrow> process \<times> 'd \<Rightarrow>
     (int \<times> dimm_device list option \<times> process \<times> 'd) option" where
  "nvm_get_devices E pt p_devs count st =
     (if \<not> env_permitted E then Some (NVM_ERR_INVALIDPERMISSIONS, p_devs, st)
      else if \<not> env_driver E then Some (NVM_ERR_BADDRIVER, p_devs, st)
      else (case p_devs of
        None \<Rightarrow> Some (NVM_ERR_INVALIDPARAMETER, None, st)
      | Some b \<Rightarrow> do {
          (rc, devs, s, d) \<leftarrow> populate_devices E pt b count True st;
          Some (rc, Some devs, s, d) }))"

text \<open>\<open>devices\<close>: what \<open>lookup_dev_uid\<close> gets from \<open>get_devices\<close>.\<close>

definition nvm_get_device_discovery ::
    "bool \<Rightarrow> bool \<Rightarrow> int \<times> 'a device_discovery_scheme list option \<Rightarrow> bytes option \<Rightarrow> bool \<Rightarrow>
     (int \<times> 'a device_discovery_scheme option) option" where
  "nvm_get_device_discovery permitted driver devices device_uid given =
     (if \<not> permitted then Some (NVM_ERR_INVALIDPERMISSIONS, None)
      else if \<not> driver then Some (NVM_ERR_BADDRIVER, None)
      else if device_uid = None then Some (NVM_ERR_INVALIDPARAMETER, None)
      else if \<not> given then Some (NVM_ERR_INVALIDPARAMETER, None)
      else lookup_dev_uid devices device_uid)"

text \<open>A negative device count makes the allocation fail.\<close>

definition lookup_device_nfit_by_handle ::
    "device_env \<Rightarrow> 'd passthrough \<Rightarrow> dimm_device list \<Rightarrow> u32 \<Rightarrow> process \<times> 'd \<Rightarrow>
     (int \<times> dimm_device option \<times> process \<times> 'd) option" where
  "lookup_device_nfit_by_handle E pt garbage_devs dev_handle st =
     (let dev_count = env_topo_count E in
      if dev_count < 0 \<or> \<not> env_alloc E (nat dev_count) then Some (NVM_ERR_NOMEMORY, None, st)
      else do {
        (_, devs, s, d) \<leftarrow> nvm_get_devices_nfit E pt (Some garbage_devs) (nat dev_count mod 256) st;
        ds \<leftarrow> devs;
        found \<leftarrow> find_device_loop (\<lambda>x. Some (disc_handle x = dev_handle)) ds (nat dev_count) 0;
        Some (case found of Some x \<Rightarrow> (NVM_SUCCESS, Some x, s, d)
              | None \<Rightarrow> (NVM_ERR_INVALIDPARAMETER, None, s, d)) })"

end
