(* ===== verification/Capabilities.thy ===== *)
theory Capabilities
  imports Pcat Devices
begin

text \<open>
  The capabilities of the host software (\<open>lib/capabilities.c\<close>): what the driver offers, cut down by what
  the BIOS and the SKUs of the DIMMs allow, and kept in the library context.
\<close>

unbundle bit_operations_syntax

section \<open>State\<close>

record driver_feature_flags =
  df_get_platform_capabilities :: bool
  df_get_interleave :: bool
  df_get_namespaces :: bool
  df_get_namespace_detail :: bool
  df_get_address_scrub_data :: bool
  df_create_namespace :: bool
  df_rename_namespace :: bool
  df_grow_namespace :: bool
  df_shrink_namespace :: bool
  df_delete_namespace :: bool
  df_enable_namespace :: bool
  df_disable_namespace :: bool
  df_run_diagnostic :: bool
  df_passthrough :: bool
  df_app_direct_mode :: bool
  df_storage_mode :: bool

record nvm_driver_capabilities =
  drv_min_namespace_size :: u64
  drv_namespace_memory_page_allocation_capable :: bool
  drv_features :: driver_feature_flags

record nvm_features =
  get_platform_capabilities_f :: bool
  get_devices_f :: bool
  get_device_smbios_f :: bool
  get_device_health_f :: bool
  get_device_settings_f :: bool
  modify_device_settings_f :: bool
  get_device_security_f :: bool
  modify_device_security_f :: bool
  get_device_performance_f :: bool
  get_device_firmware_f :: bool
  update_device_firmware_f :: bool
  get_sensors_f :: bool
  modify_sensors_f :: bool
  get_device_capacity_f :: bool
  modify_device_capacity_f :: bool
  get_pools_f :: bool
  get_namespaces_f :: bool
  get_namespace_details_f :: bool
  create_namespace_f :: bool
  rename_namespace_f :: bool
  grow_namespace_f :: bool
  shrink_namespace_f :: bool
  enable_namespace_f :: bool
  disable_namespace_f :: bool
  delete_namespace_f :: bool
  get_address_scrub_data_f :: bool
  start_address_scrub_f :: bool
  quick_diagnostic_f :: bool
  platform_config_diagnostic_f :: bool
  pm_metadata_diagnostic_f :: bool
  security_diagnostic_f :: bool
  fw_consistency_diagnostic_f :: bool
  memory_mode_f :: bool
  app_direct_mode_f :: bool
  storage_mode_f :: bool
  error_injection_f :: bool

record dimm_sku_capabilities =
  mixed_sku :: bool
  sku_violation :: bool
  memory_sku :: bool
  app_direct_sku :: bool
  storage_sku :: bool

text \<open>The structure \<open>nvm_capabilities\<close>.\<close>

record nvm_caps =
  nvm_features :: nvm_features
  sw_min_namespace_size :: u64
  sw_namespace_memory_page_allocation_capable :: bool
  platform_caps :: platform_capabilities
  sku_capabilities :: dimm_sku_capabilities

definition zero_nvm_features :: nvm_features where
  "zero_nvm_features =
     \<lparr>get_platform_capabilities_f = False, get_devices_f = False, get_device_smbios_f = False,
      get_device_health_f = False, get_device_settings_f = False, modify_device_settings_f = False,
      get_device_security_f = False, modify_device_security_f = False, get_device_performance_f = False,
      get_device_firmware_f = False, update_device_firmware_f = False, get_sensors_f = False,
      modify_sensors_f = False, get_device_capacity_f = False, modify_device_capacity_f = False,
      get_pools_f = False, get_namespaces_f = False, get_namespace_details_f = False,
      create_namespace_f = False, rename_namespace_f = False, grow_namespace_f = False,
      shrink_namespace_f = False, enable_namespace_f = False, disable_namespace_f = False,
      delete_namespace_f = False, get_address_scrub_data_f = False, start_address_scrub_f = False,
      quick_diagnostic_f = False, platform_config_diagnostic_f = False, pm_metadata_diagnostic_f = False,
      security_diagnostic_f = False, fw_consistency_diagnostic_f = False, memory_mode_f = False,
      app_direct_mode_f = False, storage_mode_f = False, error_injection_f = False\<rparr>"

definition zero_nvm_caps :: nvm_caps where
  "zero_nvm_caps =
     \<lparr>nvm_features = zero_nvm_features, sw_min_namespace_size = 0,
      sw_namespace_memory_page_allocation_capable = False, platform_caps = zero_platform_capabilities,
      sku_capabilities = \<lparr>mixed_sku = False, sku_violation = False, memory_sku = False, app_direct_sku = False,
        storage_sku = False\<rparr>\<rparr>"

text \<open>What the computation of capacities reads of the capabilities.\<close>

definition capacity_view :: "nvm_caps \<Rightarrow> nvm_capabilities" where
  "capacity_view c =
     \<lparr>cap_memory_mode = memory_mode_f (nvm_features c), cap_app_direct_mode = app_direct_mode_f (nvm_features c),
      cap_storage_mode = storage_mode_f (nvm_features c), cap_mixed_sku = mixed_sku (sku_capabilities c),
      cap_current_volatile_mode = current_volatile_mode (platform_caps c)\<rparr>"

section \<open>The driver\<close>

definition driver_features_to_nvm_features :: "driver_feature_flags \<Rightarrow> nvm_features \<Rightarrow> nvm_features" where
  "driver_features_to_nvm_features d f =
     (let pt = df_passthrough d in
      f\<lparr>get_device_health_f := pt, get_device_settings_f := pt, modify_device_settings_f := pt,
        get_device_security_f := pt, modify_device_security_f := pt, get_device_performance_f := pt,
        get_device_firmware_f := pt, update_device_firmware_f := pt, get_sensors_f := pt, modify_sensors_f := pt,
        get_device_capacity_f := pt, modify_device_capacity_f := pt,
        get_pools_f := (pt \<and> df_get_interleave d), get_address_scrub_data_f := df_get_address_scrub_data d,
        start_address_scrub_f := pt, quick_diagnostic_f := pt, security_diagnostic_f := pt,
        platform_config_diagnostic_f := (df_get_platform_capabilities d \<and> pt),
        fw_consistency_diagnostic_f := pt, error_injection_f := pt,
        get_namespaces_f := df_get_namespaces d, get_namespace_details_f := df_get_namespace_detail d,
        create_namespace_f := df_create_namespace d, rename_namespace_f := df_rename_namespace d,
        grow_namespace_f := df_grow_namespace d, shrink_namespace_f := df_shrink_namespace d,
        enable_namespace_f := df_enable_namespace d, disable_namespace_f := df_disable_namespace d,
        delete_namespace_f := df_delete_namespace d, pm_metadata_diagnostic_f := df_run_diagnostic d,
        app_direct_mode_f := df_app_direct_mode d, storage_mode_f := df_storage_mode d\<rparr>)"

definition apply_driver_capabilities :: "int \<times> nvm_driver_capabilities \<Rightarrow> nvm_caps \<Rightarrow> int \<times> nvm_caps" where
  "apply_driver_capabilities driver c =
     (case driver of (tmp_rc, driver_caps) \<Rightarrow>
        if tmp_rc \<noteq> NVM_SUCCESS then (tmp_rc, c)
        else (NVM_SUCCESS, c\<lparr>
          sw_min_namespace_size := (if drv_min_namespace_size driver_caps < BYTES_PER_GIB then BYTES_PER_GIB
                                    else drv_min_namespace_size driver_caps),
          sw_namespace_memory_page_allocation_capable := drv_namespace_memory_page_allocation_capable driver_caps,
          nvm_features := driver_features_to_nvm_features (drv_features driver_caps) (nvm_features c)\<rparr>))"

section \<open>The BIOS\<close>

definition platform_capabilities_to_nvm_features :: "platform_capabilities \<Rightarrow> nvm_features \<Rightarrow> nvm_features" where
  "platform_capabilities_to_nvm_features p f =
     f\<lparr>modify_device_capacity_f := (bios_config_support p \<and> modify_device_capacity_f f),
       memory_mode_f := supported (mc_memory_mode p),
       app_direct_mode_f := (supported (mc_app_direct_mode p) \<and> app_direct_mode_f f),
       storage_mode_f := (storage_mode_supported p \<and> storage_mode_f f)\<rparr>"

text \<open>\<open>chunk\<close> and \<open>table_file\<close> are the environment of \<open>get_platform_capabilities\<close>.\<close>

definition apply_bios_capabilities ::
    "nat \<Rightarrow> bytes option \<Rightarrow> bool \<Rightarrow> nvm_caps option \<Rightarrow> (int \<times> nvm_caps option) option" where
  "apply_bios_capabilities chunk table_file alloc p_caps =
     (case p_caps of
        None \<Rightarrow> Some (NVM_ERR_UNKNOWN, None)
      | Some c \<Rightarrow>
          if \<not> alloc then Some (NVM_ERR_NOMEMORY, Some c)
          else do {
            (rc, p) \<leftarrow> get_pcat chunk table_file (Some (replicate PCAT_MAX_LEN 0));
            if rc = NVM_SUCCESS then do {
              b \<leftarrow> p;
              limit \<leftarrow> acpi_length b;
              (rc', pc) \<leftarrow> bios_tables_loop b limit PCAT_TABLE_SIZE (NVM_SUCCESS, platform_caps c);
              Some (rc', Some (c\<lparr>platform_caps := pc,
                nvm_features := platform_capabilities_to_nvm_features pc (nvm_features c)\<rparr>)) }
            else Some (rc, Some c) })"

section \<open>The SKUs\<close>

definition dimm_sku_capabilities_to_nvm_features :: "dimm_sku_capabilities \<Rightarrow> nvm_features \<Rightarrow> nvm_features" where
  "dimm_sku_capabilities_to_nvm_features k f =
     (let f1 = (if mixed_sku k then
                  f\<lparr>modify_device_capacity_f := False, modify_device_security_f := False, modify_device_settings_f := False,
                    get_pools_f := False, get_namespaces_f := False, get_namespace_details_f := False,
                    create_namespace_f := False, rename_namespace_f := False, grow_namespace_f := False,
                    shrink_namespace_f := False, enable_namespace_f := False, disable_namespace_f := False,
                    delete_namespace_f := False\<rparr>
                else f) in
      f1\<lparr>memory_mode_f := (memory_sku k \<and> memory_mode_f f1),
         app_direct_mode_f := (app_direct_sku k \<and> app_direct_mode_f f1),
         storage_mode_f := (storage_sku k \<and> storage_mode_f f1)\<rparr>)"

definition COMPARE_BIT :: "u32 \<Rightarrow> u32 \<Rightarrow> nat \<Rightarrow> bool" where
  "COMPARE_BIT dimm_sku1 dimm_sku2 b \<longleftrightarrow> (dimm_sku1 AND push_bit b 1) XOR (dimm_sku2 AND push_bit b 1) \<noteq> 0"

definition sku_value_is_different :: "u32 \<Rightarrow> u32 \<Rightarrow> bool" where
  "sku_value_is_different dimm_sku1 dimm_sku2 =
     (if COMPARE_BIT dimm_sku1 dimm_sku2 0 then True
      else if COMPARE_BIT dimm_sku1 dimm_sku2 1 then True
      else if COMPARE_BIT dimm_sku1 dimm_sku2 2 then True
      else if COMPARE_BIT dimm_sku1 dimm_sku2 3 then True
      else COMPARE_BIT dimm_sku1 dimm_sku2 17)"

text \<open>The loop over the devices; \<open>first\<close> is the SKU of the first manageable one.\<close>

function sku_loop ::
    "dimm_device list \<Rightarrow> nat \<Rightarrow> nat \<Rightarrow> u32 option \<Rightarrow> dimm_sku_capabilities \<Rightarrow> dimm_sku_capabilities option" where
  "sku_loop devices dev_count i first k =
     (if i < dev_count then do {
        x \<leftarrow> rd devices i;
        if IS_DEVICE_MANAGEABLE x then
          (let s = disc_dimm_sku x;
               k1 = (case first of None \<Rightarrow> k
                     | Some f \<Rightarrow> if sku_value_is_different f s then k\<lparr>mixed_sku := True\<rparr> else k);
               k2 = (if s AND 1 \<noteq> 0 then k1\<lparr>memory_sku := True\<rparr> else k1);
               k3 = (if s AND 4 \<noteq> 0 then k2\<lparr>app_direct_sku := True\<rparr> else k2);
               k4 = (if s AND 2 \<noteq> 0 then k3\<lparr>storage_sku := True\<rparr> else k3) in
           sku_loop devices dev_count (Suc i) (case first of None \<Rightarrow> Some s | Some f \<Rightarrow> Some f) k4)
        else sku_loop devices dev_count (Suc i) first k }
      else Some k)"
  by pat_completeness auto
termination
  by (relation "measure (\<lambda>(ds, n, i, f, k). n - i)") auto

declare sku_loop.simps [simp del]

text \<open>
  \<open>count\<close> is what \<open>nvm_get_device_count\<close> returns, \<open>devs\<close> what \<open>nvm_get_devices\<close> returns with the
  devices it fills in. The features are cut down only if there are devices.
\<close>

definition apply_dimm_sku_capabilities ::
    "int \<Rightarrow> (nat \<Rightarrow> bool) \<Rightarrow> int \<times> dimm_device list \<Rightarrow> nvm_caps \<Rightarrow> (int \<times> nvm_caps) option" where
  "apply_dimm_sku_capabilities count alloc devs c =
     (if count > 0 then
        if \<not> alloc (nat count) then Some (NVM_ERR_NOMEMORY, c)
        else do {
          (rc, k) \<leftarrow>
            (if fst devs = count then
               map_option (\<lambda>k. (NVM_SUCCESS, k)) (sku_loop (snd devs) (nat count) 0 None (sku_capabilities c))
             else Some (fst devs, sku_capabilities c));
          Some (rc, c\<lparr>sku_capabilities := k, nvm_features := dimm_sku_capabilities_to_nvm_features k (nvm_features c)\<rparr>) }
      else Some (count, c))"

definition TRI_MODE_ENABLED :: "u32 \<Rightarrow> bool" where
  "TRI_MODE_ENABLED dimmsku \<longleftrightarrow> dimmsku AND 1 \<noteq> 0 \<and> dimmsku AND 2 \<noteq> 0 \<and> dimmsku AND 4 \<noteq> 0"

text \<open>
  \<open>part_info\<close> gives the result of \<open>get_partition_info\<close> for a device, \<open>isets\<close> the interleave sets; the
  code of the second check replaces that of the first.
\<close>

definition device_in_sku_violation ::
    "(u32 \<Rightarrow> int \<times> pt_payload_get_dimm_partition_info) \<Rightarrow> int \<times> int \<times> 'b nvm_interleave_set_scheme list \<Rightarrow>
     dimm_device \<Rightarrow> (int \<times> bool) option" where
  "device_in_sku_violation part_info isets x =
     (if \<not> TRI_MODE_ENABLED (disc_dimm_sku x) then
        (case check_sku_violation_for_memory_mode (part_info (disc_handle x)) x False of (rc, v) \<Rightarrow>
           if \<not> v then check_sku_violation_for_appdirect_mode isets x else Some (rc, v))
      else Some (NVM_SUCCESS, False))"

function violation_loop ::
    "(dimm_device \<Rightarrow> (int \<times> bool) option) \<Rightarrow> dimm_device list \<Rightarrow> nat \<Rightarrow> nat \<Rightarrow> int \<Rightarrow> bool \<Rightarrow> (int \<times> bool) option" where
  "violation_loop check devices n i rc v =
     (if i < n then do {
        x \<leftarrow> rd devices i;
        (rc', v') \<leftarrow>
          (if IS_DEVICE_MANAGEABLE x then do { (r, v') \<leftarrow> check x; Some (KEEP_ERROR rc r, v') } else Some (rc, v));
        if v' then Some (rc', v') else violation_loop check devices n (Suc i) rc' v' }
      else Some (rc, v))"
  by pat_completeness auto
termination
  by (relation "measure (\<lambda>(c, ds, n, i, rc, v). n - i)") auto

declare violation_loop.simps [simp del]

definition system_in_sku_violation ::
    "int \<Rightarrow> (nat \<Rightarrow> bool) \<Rightarrow> int \<times> dimm_device list \<Rightarrow> (dimm_device \<Rightarrow> (int \<times> bool) option) \<Rightarrow> (int \<times> bool) option" where
  "system_in_sku_violation count alloc devs check =
     (if count > 0 then
        if \<not> alloc (nat count) then Some (NVM_ERR_NOMEMORY, False)
        else if fst devs > 0 then violation_loop check (snd devs) (nat (fst devs)) 0 NVM_SUCCESS False
        else Some (fst devs, False)
      else Some (count, False))"

section \<open>The interface\<close>

record caps_env =
  ce_permitted :: bool
  ce_driver_available :: bool
  ce_driver :: "int \<times> nvm_driver_capabilities"
  ce_chunk :: nat
  ce_table_file :: "bytes option"
  ce_alloc :: "nat \<Rightarrow> bool"
  ce_count :: int
  ce_devices :: "int \<times> dimm_device list"
  ce_partition :: "u32 \<Rightarrow> int \<times> pt_payload_get_dimm_partition_info"
  ce_isets :: "int \<times> int \<times> nvm_interleave_set list"

definition collect_capabilities :: "caps_env \<Rightarrow> nvm_caps \<Rightarrow> (int \<times> nvm_caps) option" where
  "collect_capabilities E c0 =
     (case apply_driver_capabilities (ce_driver E) c0 of (tmprc, c1) \<Rightarrow>
        if tmprc \<noteq> NVM_SUCCESS then Some (if tmprc \<noteq> NVM_ERR_DRIVERFAILED then tmprc else NVM_SUCCESS, c1)
        else do {
          (rc, c2) \<leftarrow> apply_bios_capabilities (ce_chunk E) (ce_table_file E) (ce_alloc E PCAT_MAX_LEN) (Some c1);
          c2' \<leftarrow> c2;
          (rc1, c3) \<leftarrow> apply_dimm_sku_capabilities (ce_count E) (ce_alloc E) (ce_devices E) c2';
          (rc2, v) \<leftarrow> system_in_sku_violation (ce_count E) (ce_alloc E) (ce_devices E)
            (device_in_sku_violation (ce_partition E) (ce_isets E));
          Some (KEEP_ERROR (KEEP_ERROR rc rc1) rc2,
                c3\<lparr>sku_capabilities := (sku_capabilities c3)\<lparr>sku_violation := v\<rparr>\<rparr>) })"

definition hide_persistent_memory :: "nvm_caps \<Rightarrow> nvm_caps" where
  "hide_persistent_memory c =
     (let f = nvm_features c in
      if \<not> app_direct_mode_f f \<and> \<not> storage_mode_f f then
        c\<lparr>nvm_features := f\<lparr>get_namespaces_f := False, get_namespace_details_f := False, create_namespace_f := False,
            rename_namespace_f := False, grow_namespace_f := False, shrink_namespace_f := False,
            enable_namespace_f := False, disable_namespace_f := False, delete_namespace_f := False\<rparr>\<rparr>
      else c)"

text \<open>The state is the copy of the capabilities in the library context.\<close>

definition nvm_get_nvm_capabilities ::
    "caps_env \<Rightarrow> nvm_caps option \<Rightarrow> nvm_caps option \<Rightarrow> (int \<times> nvm_caps option \<times> nvm_caps option) option" where
  "nvm_get_nvm_capabilities E p_caps cache =
     (if \<not> ce_permitted E then Some (NVM_ERR_INVALIDPERMISSIONS, p_caps, cache)
      else if \<not> ce_driver_available E then Some (NVM_ERR_BADDRIVER, p_caps, cache)
      else if p_caps = None then Some (NVM_ERR_INVALIDPARAMETER, None, cache)
      else (case cache of
        Some c \<Rightarrow> Some (NVM_SUCCESS, Some c, cache)
      | None \<Rightarrow> do {
          (rc, c) \<leftarrow> collect_capabilities E
            (zero_nvm_caps\<lparr>nvm_features := zero_nvm_features\<lparr>get_devices_f := True,
               get_platform_capabilities_f := True, get_device_smbios_f := True\<rparr>\<rparr>);
          let c' = hide_persistent_memory c;
          Some (rc, Some c', if rc = NVM_SUCCESS then Some c' else None) }))"

text \<open>A feature is named by its selector, which is the offset of its field in C.\<close>

definition is_nvm_feature_supported ::
    "caps_env \<Rightarrow> (nvm_features \<Rightarrow> bool) \<Rightarrow> nvm_caps option \<Rightarrow> (int \<times> nvm_caps option) option" where
  "is_nvm_feature_supported E feature cache = do {
     (rc, p, cache') \<leftarrow> nvm_get_nvm_capabilities E (Some zero_nvm_caps) cache;
     if rc = NVM_SUCCESS then do {
       c \<leftarrow> p;
       Some (if \<not> feature (nvm_features c) then NVM_ERR_NOTSUPPORTED else rc, cache') }
     else Some (rc, cache') }"

definition is_nvm_feature_licensed ::
    "caps_env \<Rightarrow> (nvm_features \<Rightarrow> bool) \<Rightarrow> nvm_caps option \<Rightarrow> (int \<times> nvm_caps option) option" where
  "is_nvm_feature_licensed E feature cache = do {
     (rc, p, cache') \<leftarrow> nvm_get_nvm_capabilities E (Some zero_nvm_caps) cache;
     if rc = NVM_SUCCESS then do {
       c \<leftarrow> p;
       Some (if \<not> feature (nvm_features c) then NVM_ERR_NOTSUPPORTED
             else if sku_violation (sku_capabilities c) then NVM_ERR_SKUVIOLATION else rc, cache') }
     else Some (rc, cache') }"

definition check_device_app_direct_namespaces_for_sku_violation ::
    "(u32 \<Rightarrow> int) \<Rightarrow> dimm_device \<Rightarrow> bool \<Rightarrow> int \<times> bool" where
  "check_device_app_direct_namespaces_for_sku_violation dimm_has_namespaces x v =
     (if \<not> app_direct_mode_capable (disc_device_capabilities x) then
        let has_namespaces = dimm_has_namespaces (disc_handle x) in
        if has_namespaces < 0 then (KEEP_ERROR NVM_SUCCESS has_namespaces, v)
        else if has_namespaces \<noteq> 0 then (NVM_SUCCESS, True)
        else (NVM_SUCCESS, v)
      else (NVM_SUCCESS, v))"

end
