(* ===== verification/Table_Walk.thy ===== *)
theory Table_Walk
  imports Prelude
begin

text \<open>
  The interface of the loops that walk over length-prefixed tables in a buffer. Several loops of the
  library have this shape: from an offset they read a table, act on it, and either leave the loop or
  advance by the length of the table. \<open>visit\<close> is the effect of one well-formed table on the state of
  the loop, with the flag that says whether the loop goes on. In \<open>guarded_table_loop\<close> a step is only
  promised for states in \<open>inv\<close>, which the visits keep; \<open>table_loop\<close> is the case without a condition.
\<close>

fun walk :: "(bytes \<Rightarrow> 's \<Rightarrow> 's \<times> bool) \<Rightarrow> bytes list \<Rightarrow> 's \<Rightarrow> 's" where
  "walk visit [] s = s"
| "walk visit (b # bs) s =
     (case visit b s of (s', go_on) \<Rightarrow> if go_on then walk visit bs s' else s')"

locale guarded_table_loop =
  fixes loop :: "bytes \<Rightarrow> nat \<Rightarrow> nat \<Rightarrow> nat \<Rightarrow> 's \<Rightarrow> 's option"
    and visit :: "bytes \<Rightarrow> 's \<Rightarrow> 's \<times> bool"
    and wf :: "bytes \<Rightarrow> bool"
    and inv :: "'s \<Rightarrow> bool"
  assumes loop_done: "loop m base limit limit s = Some s"
    and loop_step: "drop (base + off) m = b @ r \<Longrightarrow> wf b \<Longrightarrow> off + length b \<le> limit \<Longrightarrow> inv s \<Longrightarrow>
      loop m base limit off s =
        (case visit b s of (s', go_on) \<Rightarrow>
           if go_on then loop m base limit (off + length b) s' else Some s')"
    and visit_inv: "wf b \<Longrightarrow> inv s \<Longrightarrow> inv (fst (visit b s))"
begin

lemma walk_inv: "\<forall>b \<in> set bs. wf b \<Longrightarrow> inv s \<Longrightarrow> inv (walk visit bs s)"
proof (induction bs arbitrary: s)
  case (Cons b bs)
  then show ?case using visit_inv [of b s] by (auto split: prod.split)
qed simp

lemma loop_tables:
  assumes "drop (base + off) m = concat bs @ r" and "\<forall>b \<in> set bs. wf b"
    and "limit = off + length (concat bs)" and "inv s"
  shows "loop m base limit off s = Some (walk visit bs s)"
  using assms
proof (induction bs arbitrary: off s)
  case Nil
  then show ?case using loop_done by simp
next
  case (Cons b bs)
  have d: "drop (base + off) m = b @ (concat bs @ r)" using Cons.prems(1) by simp
  have d2: "drop (base + (off + length b)) m = concat bs @ r"
    using drop_append_at [OF d] by (simp add: add.assoc)
  obtain s' go_on where v: "visit b s = (s', go_on)" by (cases "visit b s")
  have l: "off + length b \<le> limit" using Cons.prems(3) by simp
  have i: "inv s'" using visit_inv [of b s] Cons.prems(2,4) v by simp
  have "loop m base limit (off + length b) s' = Some (walk visit bs s')"
    by (rule Cons.IH) (use Cons.prems d2 i in auto)
  then show ?case
    using loop_step [OF d _ l Cons.prems(4)] Cons.prems(2) v by simp
qed

end

locale table_loop =
  fixes loop :: "bytes \<Rightarrow> nat \<Rightarrow> nat \<Rightarrow> nat \<Rightarrow> 's \<Rightarrow> 's option"
    and visit :: "bytes \<Rightarrow> 's \<Rightarrow> 's \<times> bool"
    and wf :: "bytes \<Rightarrow> bool"
  assumes loop_done: "loop m base limit limit s = Some s"
    and loop_step: "drop (base + off) m = b @ r \<Longrightarrow> wf b \<Longrightarrow> off + length b \<le> limit \<Longrightarrow>
      loop m base limit off s =
        (case visit b s of (s', go_on) \<Rightarrow>
           if go_on then loop m base limit (off + length b) s' else Some s')"

sublocale table_loop \<subseteq> guarded: guarded_table_loop loop visit wf "\<lambda>_. True"
  by unfold_locales (use loop_done loop_step in auto)

context table_loop
begin

lemma loop_tables:
  "drop (base + off) m = concat bs @ r \<Longrightarrow> \<forall>b \<in> set bs. wf b \<Longrightarrow> limit = off + length (concat bs) \<Longrightarrow>
   loop m base limit off s = Some (walk visit bs s)"
  by (rule guarded.loop_tables) simp_all

end

end
