(* ===== verification/Pcat_Facts.thy ===== *)
theory Pcat_Facts
  imports Pcat Table_Walk
begin

text \<open>
  What the readers of the platform capability table promise: the interleave formats that one table
  gives, and when they fit; and that the loop over the tables is the walk over well-formed ones.
\<close>

unbundle bit_operations_syntax

section \<open>Interleave formats\<close>

text \<open>The supported numbers of ways of a format, from bit \<open>w\<close> on, and the entry for one of them.\<close>

definition ways_of :: "u32 \<Rightarrow> nat \<Rightarrow> nat list" where
  "ways_of format w = filter (\<lambda>b. bit (drop_bit PCAT_FORMAT_WAYS_SHIFT format AND 0x1ff) b) [w..<9]"

definition known_size :: "u32 \<Rightarrow> bool" where
  "known_size v \<longleftrightarrow> v = 1 \<or> v = 2 \<or> v = 4 \<or> v = 64 \<or> v = 128"

definition known_sizes :: "u32 \<Rightarrow> bool" where
  "known_sizes format \<longleftrightarrow> known_size (format AND 0xff) \<and> known_size (drop_bit PCAT_FORMAT_IMC_SHIFT format AND 0xff)"

definition format_entry :: "u32 \<Rightarrow> nat \<Rightarrow> interleave_format" where
  "format_entry format b =
     \<lparr>fmt_recommended = (drop_bit PCAT_FORMAT_RECOMMENDED_SHIFT format AND 1 \<noteq> 0),
      fmt_channel = size_of_bits (format AND 0xff) INTERLEAVE_SIZE_NONE,
      fmt_imc = size_of_bits (drop_bit PCAT_FORMAT_IMC_SHIFT format AND 0xff) INTERLEAVE_SIZE_NONE,
      fmt_ways = interleave_way_to_enum
        ((drop_bit PCAT_FORMAT_WAYS_SHIFT format AND 0x1ff) AND push_bit b 1)\<rparr>"

definition expand :: "u32 \<Rightarrow> interleave_format list" where
  "expand format = map (format_entry format) (ways_of format 0)"

lemma size_of_bits_known: "known_size v \<Longrightarrow> size_of_bits v old = size_of_bits v old'"
  by (auto simp: known_size_def size_of_bits_def)

lemma format_to_struct_entry:
  "known_sizes format \<Longrightarrow>
   \<exists>f'. interleave_format_to_struct format (Some f) = Some f' \<and>
     f'\<lparr>fmt_ways := interleave_way_to_enum
       ((drop_bit PCAT_FORMAT_WAYS_SHIFT format AND 0x1ff) AND push_bit b 1)\<rparr> = format_entry format b"
  unfolding known_sizes_def interleave_format_to_struct_def format_entry_def
  using size_of_bits_known by (cases f) auto

lemma ways_of_step:
  "w \<le> 8 \<Longrightarrow> ways_of format w =
     (if bit (drop_bit PCAT_FORMAT_WAYS_SHIFT format AND 0x1ff) w then [w] else []) @ ways_of format (Suc w)"
  by (simp add: ways_of_def upt_conv_Cons)

lemma ways_of_end: "\<not> w \<le> 8 \<Longrightarrow> ways_of format w = []"
  by (simp add: ways_of_def)

definition formats_ok :: "memory_capabilities \<Rightarrow> bool" where
  "formats_ok c \<longleftrightarrow> length (interleave_formats c) = NVM_INTERLEAVE_FORMATS"

definition listed :: "memory_capabilities \<Rightarrow> interleave_format list" where
  "listed c = take (interleave_formats_count c) (interleave_formats c)"

lemma ways_loop_result:
  assumes "known_sizes format" "formats_ok c" "interleave_formats_count c \<le> NVM_INTERLEAVE_FORMATS"
  shows "if interleave_formats_count c + length (ways_of format w) \<le> NVM_INTERLEAVE_FORMATS
    then \<exists>c'. ways_loop format w c = Some c' \<and> formats_ok c' \<and>
      interleave_formats_count c' = interleave_formats_count c + length (ways_of format w) \<and>
      listed c' = listed c @ map (format_entry format) (ways_of format w) \<and>
      supported c' = supported c \<and> interleave_alignment_size c' = interleave_alignment_size c
    else ways_loop format w c = None"
  using assms
proof (induction format w c rule: ways_loop.induct)
  case (1 format w c)
  let ?ways = "drop_bit PCAT_FORMAT_WAYS_SHIFT format AND 0x1ff"
  show ?case
  proof (cases "w \<le> 8")
    case False
    then show ?thesis using "1.prems" by (simp add: ways_of_end ways_loop.simps [of format w c])
  next
    case w: True
    show ?thesis
    proof (cases "bit ?ways w")
      case False
      have "ways_loop format w c = ways_loop format (Suc w) c"
        using w False by (subst ways_loop.simps) simp
      then show ?thesis using "1.IH"(2) [OF w refl False "1.prems"] False by (simp add: ways_of_step [OF w])
    next
      case b: True
      have s: "ways_of format w = w # ways_of format (Suc w)" using b by (simp add: ways_of_step [OF w])
      show ?thesis
      proof (cases "interleave_formats_count c < NVM_INTERLEAVE_FORMATS")
        case False
        then have "rd (interleave_formats c) (interleave_formats_count c) = None"
          using "1.prems"(2) by (simp add: rd_def formats_ok_def)
        then have "ways_loop format w c = None" using w b by (subst ways_loop.simps) simp
        then show ?thesis using False s by simp
      next
        case l: True
        let ?n = "interleave_formats_count c" and ?fs = "interleave_formats c"
        have r: "rd ?fs ?n = Some (?fs ! ?n)" using l "1.prems"(2) by (simp add: rd_def formats_ok_def)
        obtain f' where f': "interleave_format_to_struct format (Some (?fs ! ?n)) = Some f'"
          "f'\<lparr>fmt_ways := interleave_way_to_enum (?ways AND push_bit w 1)\<rparr> = format_entry format w"
          using format_to_struct_entry [OF "1.prems"(1)] by blast
        have wr: "wr ?fs ?n (format_entry format w) = Some (?fs[?n := format_entry format w])"
          using l "1.prems"(2) by (simp add: wr_def formats_ok_def)
        let ?c' = "c\<lparr>interleave_formats := ?fs[?n := format_entry format w], interleave_formats_count := Suc ?n\<rparr>"
        have step: "ways_loop format w c = ways_loop format (Suc w) ?c'"
          using w b r f' wr by (subst ways_loop.simps) simp
        have ok: "formats_ok ?c'" "interleave_formats_count ?c' \<le> NVM_INTERLEAVE_FORMATS"
          using "1.prems"(2) l by (simp_all add: formats_ok_def)
        have li: "listed ?c' = listed c @ [format_entry format w]"
          using l "1.prems"(2) by (simp add: listed_def formats_ok_def take_Suc_conv_app_nth)
        have wr': "wr ?fs ?n (f'\<lparr>fmt_ways := interleave_way_to_enum (?ways AND push_bit w 1)\<rparr>) =
            Some (?fs[?n := format_entry format w])" using wr f'(2) by simp
        note ih = "1.IH"(1) [OF w refl b r f'(1) wr' "1.prems"(1) ok]
        show ?thesis using ih step s li by (auto split: if_splits)
      qed
    qed
  qed
qed

definition fmts_at :: "bytes \<Rightarrow> nat \<Rightarrow> u32 list" where
  "fmts_at p n = map (\<lambda>j. fld p (12 + 4 * j) 4) [0..<n]"

lemma formats_loop_result:
  assumes "drop offset m = b @ r" "12 + 4 * n \<le> length b" "j \<le> n"
    and "\<forall>f \<in> set (drop j (fmts_at b n)). known_sizes f"
    and "formats_ok c" "interleave_formats_count c \<le> NVM_INTERLEAVE_FORMATS"
  shows "let es = concat (map expand (drop j (fmts_at b n))) in
    if interleave_formats_count c + length es \<le> NVM_INTERLEAVE_FORMATS
    then \<exists>c'. formats_loop m offset n j c = Some c' \<and> formats_ok c' \<and>
      interleave_formats_count c' = interleave_formats_count c + length es \<and> listed c' = listed c @ es \<and>
      supported c' = supported c \<and> interleave_alignment_size c' = interleave_alignment_size c
    else formats_loop m offset n j c = None"
  using assms(3-6)
proof (induction "n - j" arbitrary: j c)
  case 0
  then have "j = n" by simp
  then show ?case using 0 by (simp add: formats_loop.simps [of m offset n n] fmts_at_def)
next
  case (Suc d)
  then have j: "j < n" by simp
  let ?f = "fld b (12 + 4 * j) 4 :: u32"
  have dr: "drop j (fmts_at b n) = ?f # drop (Suc j) (fmts_at b n)"
    using j by (simp add: fmts_at_def drop_map drop_upt upt_conv_Cons [of j n])
  have rd: "rd32 m (offset + 12 + 4 * j) = Some ?f"
    using rd32_at [OF assms(1), of "12 + 4 * j"] assms(2) j by (simp add: add.assoc)
  have k: "known_sizes ?f" using Suc.prems(2) dr by simp
  have le: "length (expand ?f) = length (ways_of ?f 0)" by (simp add: expand_def)
  note w = ways_loop_result [OF k Suc.prems(3,4), of 0]
  show ?case
  proof (cases "interleave_formats_count c + length (ways_of ?f 0) \<le> NVM_INTERLEAVE_FORMATS")
    case False
    then have "formats_loop m offset n j c = None"
      using w j rd by (subst formats_loop.simps) simp
    then show ?thesis using False dr le by (simp add: Let_def)
  next
    case True
    with w obtain c' where c': "ways_loop ?f 0 c = Some c'" "formats_ok c'"
      "interleave_formats_count c' = interleave_formats_count c + length (ways_of ?f 0)"
      "listed c' = listed c @ expand ?f" "supported c' = supported c"
      "interleave_alignment_size c' = interleave_alignment_size c"
      by (auto simp: expand_def)
    have step: "formats_loop m offset n j c = formats_loop m offset n (Suc j) c'"
      using j rd c'(1) by (subst formats_loop.simps) simp
    have k': "\<forall>f \<in> set (drop (Suc j) (fmts_at b n)). known_sizes f" using Suc.prems(2) dr by simp
    have d: "d = n - Suc j" "Suc j \<le> n" using Suc.hyps(2) j by simp_all
    have b': "interleave_formats_count c' \<le> NVM_INTERLEAVE_FORMATS" using c'(3) True by simp
    note ih = Suc.hyps(1) [OF d k' c'(2) b']
    have n: "interleave_formats_count c' = interleave_formats_count c + length (expand ?f)" using c'(3) le by simp
    have es: "concat (map expand (drop j (fmts_at b n))) = expand ?f @ concat (map expand (drop (Suc j) (fmts_at b n)))"
      by (simp add: dr)
    show ?thesis
      using ih unfolding Let_def step n c'(4,5,6) es length_append add.assoc append_assoc .
  qed
qed

text \<open>A well-formed interleave table, and the formats that it gives.\<close>

definition table_formats :: "bytes \<Rightarrow> u32 list" where
  "table_formats b = fmts_at b (unat (fld b 10 2 :: u16))"

definition wf_interleave :: "bytes \<Rightarrow> bool" where
  "wf_interleave b \<longleftrightarrow> 12 + 4 * unat (fld b 10 2 :: u16) \<le> length b \<and> (\<forall>f \<in> set (table_formats b). known_sizes f)"

lemma interleave_table_result:
  assumes "drop offset m = b @ r" "wf_interleave b" "formats_ok c"
  shows "let es = concat (map expand (table_formats b)) in
    if length es \<le> NVM_INTERLEAVE_FORMATS
    then \<exists>c'. interleave_table m offset c = Some c' \<and> formats_ok c' \<and>
      interleave_formats_count c' = length es \<and> listed c' = es \<and>
      supported c' = supported c \<and> interleave_alignment_size c' = fld b 8 2
    else interleave_table m offset c = None"
proof -
  define c0 where "c0 = c\<lparr>interleave_formats_count := 0, interleave_alignment_size := fld b 8 2\<rparr>"
  have len: "12 \<le> length b" and l: "12 + 4 * unat (fld b 10 2 :: u16) \<le> length b"
    using assms(2) by (auto simp: wf_interleave_def)
  have r: "rd16 m (offset + 8) = Some (fld b 8 2)" "rd16 m (offset + 10) = Some (fld b 10 2)"
    using rd16_at [OF assms(1), of 8] rd16_at [OF assms(1), of 10] len by simp_all
  have e: "interleave_table m offset c = formats_loop m offset (unat (fld b 10 2 :: u16)) 0 c0"
    by (simp add: interleave_table_def r c0_def)
  have f: "formats_ok c0" "listed c0 = []" "interleave_formats_count c0 = 0" "supported c0 = supported c"
    "interleave_alignment_size c0 = fld b 8 2"
    using assms(3) by (simp_all add: formats_ok_def listed_def c0_def)
  have k: "\<forall>f \<in> set (drop 0 (table_formats b)). known_sizes f" "interleave_formats_count c0 \<le> NVM_INTERLEAVE_FORMATS"
    using assms(2) f(3) by (simp_all add: wf_interleave_def)
  show ?thesis
    using formats_loop_result [OF assms(1) l le0 k(1) [unfolded table_formats_def] f(1) k(2)]
    unfolding f(2-5) add_0 append_Nil drop_0 table_formats_def [symmetric] e [symmetric] .
qed

text \<open>
  A memory interleave table whose formats have known sizes gives one entry for every supported number
  of ways of every format, in order, with that number of ways, if these are at most 32. With more
  the entries are written past the end of the array: for the table nothing bounds them.
\<close>

theorem interleave_formats_listed:
  assumes "drop offset m = b @ r" "wf_interleave b" "formats_ok c"
  shows "if length (concat (map expand (table_formats b))) \<le> NVM_INTERLEAVE_FORMATS
    then \<exists>c'. interleave_table m offset c = Some c' \<and>
      interleave_formats_count c' = length (concat (map expand (table_formats b))) \<and>
      take (interleave_formats_count c') (interleave_formats c') = concat (map expand (table_formats b)) \<and>
      interleave_alignment_size c' = fld b 8 2
    else interleave_table m offset c = None"
  using interleave_table_result [OF assms] by (auto simp: Let_def listed_def split: if_splits)

text \<open>Four formats with all the nine numbers of ways: 36 entries; and one with a single way.\<close>

definition ways_table :: "u16 \<Rightarrow> bytes" where
  "ways_table n = [1, 0, 28, 0, 3, 0, 0, 0, 26, 0, ucast n, 0,
     2, 2, 0xff, 1, 2, 2, 0xff, 1, 2, 2, 0xff, 1, 2, 2, 0xff, 1]"

theorem interleave_formats_listed_witness:
  "interleave_table (ways_table 4) 0 zero_memory_capabilities = None \<and>
   (\<exists>c'. interleave_table (ways_table 3) 0 zero_memory_capabilities = Some c' \<and> interleave_formats_count c' = 27)"
proof -
  have w: "known_sizes 0x01FF0202" "length (expand 0x01FF0202) = 9"
    by (simp_all add: known_sizes_def known_size_def expand_def ways_of_def PCAT_FORMAT_IMC_SHIFT_def
      PCAT_FORMAT_WAYS_SHIFT_def upt_rec [of _ 9] upt_conv_Cons bit_simps)
  have e: "(fld (ways_table 4) 10 2 :: u16) = 4" "(fld (ways_table 3) 10 2 :: u16) = 3"
    by (simp_all add: ways_table_def fld_def)
  have q: "(fld (ways_table k) 12 4 :: u32) = 0x01FF0202" "(fld (ways_table k) 16 4 :: u32) = 0x01FF0202"
    "(fld (ways_table k) 20 4 :: u32) = 0x01FF0202" "(fld (ways_table k) 24 4 :: u32) = 0x01FF0202" for k
    by (simp_all add: ways_table_def fld_def)
  have u: "[0..<4] = [0, 1, 2, 3]" "[0..<3] = [0, 1, 2]" by (simp_all add: upt_rec)
  have f: "table_formats (ways_table 4) = [0x01FF0202, 0x01FF0202, 0x01FF0202, 0x01FF0202]"
    "table_formats (ways_table 3) = [0x01FF0202, 0x01FF0202, 0x01FF0202]"
    by (simp_all add: table_formats_def fmts_at_def e u q)
  have n: "length (ways_table 4) = 28" "length (ways_table 3) = 28" by (simp_all add: ways_table_def)
  have wf: "wf_interleave (ways_table 4)" "wf_interleave (ways_table 3)"
    using w(1) by (simp_all add: wf_interleave_def f n e)
  have a: "formats_ok zero_memory_capabilities" by (simp add: formats_ok_def zero_memory_capabilities_def)
  have d: "drop 0 (ways_table k) = ways_table k @ []" for k by simp
  have l: "length (concat (map expand (table_formats (ways_table 4)))) = 36"
    "length (concat (map expand (table_formats (ways_table 3)))) = 27"
    using w(2) by (simp_all add: f)
  show ?thesis
    using interleave_formats_listed [OF d wf(1) a] interleave_formats_listed [OF d wf(2) a] l
    by (auto simp: NVM_INTERLEAVE_FORMATS_def)
qed


section \<open>The loops over the tables\<close>

text \<open>A table in a buffer is read as it is by itself.\<close>

lemma formats_loop_at:
  assumes "drop offset m = b @ r" "12 + 4 * n \<le> length b"
  shows "formats_loop m offset n j c = formats_loop b 0 n j c"
proof (induction "n - j" arbitrary: j c)
  case 0
  then show ?case by (simp add: formats_loop.simps [of _ _ n j])
next
  case (Suc d)
  then have j: "j < n" by simp
  have "rd32 m (offset + 12 + 4 * j) = rd32 b (0 + 12 + 4 * j)"
    using rd32_at [OF assms(1), of "12 + 4 * j"] rd32_at [of 0 b b "[]" "12 + 4 * j"] assms(2) j
    by (simp add: add.assoc)
  moreover have "formats_loop m offset n (Suc j) = formats_loop b 0 n (Suc j)"
    by (rule ext, rule Suc.hyps(1)) (use Suc.hyps(2) in simp)
  ultimately show ?case by (simp add: formats_loop.simps [of _ _ n j])
qed

lemma interleave_table_at:
  assumes "drop offset m = b @ r" "wf_interleave b"
  shows "interleave_table m offset c = interleave_table b 0 c"
proof -
  have l: "12 + 4 * unat (fld b 10 2 :: u16) \<le> length b" using assms(2) by (simp add: wf_interleave_def)
  have r: "rd16 m (offset + 8) = Some (fld b 8 2)" "rd16 m (offset + 10) = Some (fld b 10 2)"
    "rd16 b (0 + 8) = Some (fld b 8 2)" "rd16 b (0 + 10) = Some (fld b 10 2)"
    using rd16_at [OF assms(1), of 8] rd16_at [OF assms(1), of 10] rd16_at [of 0 b b "[]" 8]
      rd16_at [of 0 b b "[]" 10] l by simp_all
  show ?thesis unfolding interleave_table_def r using formats_loop_at [OF assms(1) l] by simp
qed

definition table_type :: "bytes \<Rightarrow> u16" where "table_type b = fld b 0 2"

text \<open>A well-formed extension table: with its length in the header, and as long as its type needs.\<close>

definition wf_table :: "bytes \<Rightarrow> bool" where
  "wf_table b \<longleftrightarrow> 4 \<le> length b \<and> unat (fld b 2 2 :: u16) = length b \<and>
     (table_type b = PCAT_TABLE_PLATFORM_INFO \<longrightarrow> 8 \<le> length b) \<and>
     (table_type b = PCAT_TABLE_MEMORY_INTERLEAVE_INFO \<longrightarrow> wf_interleave b \<and>
        length (concat (map expand (table_formats b))) \<le> NVM_INTERLEAVE_FORMATS) \<and>
     (table_type b = PCAT_TABLE_SOCKET_INFO \<longrightarrow> 32 \<le> length b)"

definition arrays_ok :: "platform_capabilities \<Rightarrow> bool" where
  "arrays_ok c \<longleftrightarrow> formats_ok (one_lm_mode c) \<and> formats_ok (mc_memory_mode c) \<and> formats_ok (mc_app_direct_mode c)"

lemma wf_table_header:
  assumes "drop off m = b @ r" "wf_table b"
  shows "rd16 m off = Some (table_type b)" "rd16 m (off + 2) = Some (fld b 2 2)"
    "(fld b 2 2 :: u16) \<noteq> 0" "unat (fld b 2 2 :: u16) = length b" "0 < length b"
  using rd16_at [OF assms(1), of 0] rd16_at [OF assms(1), of 2] assms(2)
  by (auto simp: wf_table_def table_type_def)

lemma platform_info_at:
  assumes "drop offset m = b @ r" "8 \<le> length b"
  shows "platform_info_table m offset c = platform_info_table b 0 c" "platform_info_table b 0 c \<noteq> None"
  using rd_at [OF assms(1), of 4] rd_at [OF assms(1), of 5] rd_at [OF assms(1), of 6] rd_at [OF assms(1), of 7]
    rd_at [of 0 b b "[]" 4] rd_at [of 0 b b "[]" 5] rd_at [of 0 b b "[]" 6] rd_at [of 0 b b "[]" 7] assms(2)
  by (simp_all add: platform_info_table_def)

lemma platform_info_arrays:
  "platform_info_table b off c = Some c' \<Longrightarrow> arrays_ok c \<Longrightarrow> arrays_ok c'"
  by (auto simp: platform_info_table_def bind_eq_Some_conv arrays_ok_def formats_ok_def Let_def)

lemma interleave_table_wf:
  assumes "wf_interleave b" "length (concat (map expand (table_formats b))) \<le> NVM_INTERLEAVE_FORMATS" "formats_ok c"
  shows "\<exists>c'. interleave_table b 0 c = Some c' \<and> formats_ok c'"
proof -
  have d: "drop 0 b = b @ []" by simp
  show ?thesis using interleave_table_result [OF d assms(1,3)] assms(2) by (auto simp: Let_def)
qed

lemma bios_ext_table_at:
  assumes "drop offset m = b @ r" "wf_table b"
  shows "bios_ext_table m offset (table_type b) c = bios_ext_table b 0 (table_type b) c"
proof -
  have i: "rd m (offset + 4) = rd b (0 + 4)" "interleave_table m offset = interleave_table b 0" if "wf_interleave b"
    using rd_at [OF assms(1), of 4] rd_at [of 0 b b "[]" 4] interleave_table_at [OF assms(1)] that
    by (auto simp: wf_interleave_def)
  have w: "wf_interleave b" if "table_type b = PCAT_TABLE_MEMORY_INTERLEAVE_INFO"
    using assms(2) that by (simp add: wf_table_def)
  have p: "platform_info_table m offset c = platform_info_table b 0 c" if "table_type b = PCAT_TABLE_PLATFORM_INFO"
    using platform_info_at(1) [OF assms(1)] assms(2) that by (simp add: wf_table_def)
  show ?thesis unfolding bios_ext_table_def using p i [OF w] by (simp cong: if_cong)
qed

lemma bios_ext_table_ok:
  assumes "wf_table b" "arrays_ok c"
  shows "\<exists>c' g. bios_ext_table b 0 (table_type b) c = Some (c', g) \<and> arrays_ok c'"
proof (cases "table_type b = PCAT_TABLE_PLATFORM_INFO")
  case True
  then have l: "8 \<le> length b" using assms(1) by (simp add: wf_table_def)
  have d: "drop 0 b = b @ []" by simp
  from platform_info_at(2) [OF d l, of c] obtain c' where c': "platform_info_table b 0 c = Some c'" by auto
  then show ?thesis using True platform_info_arrays [OF c' assms(2)] by (auto simp: bios_ext_table_def)
next
  case p: False
  show ?thesis
  proof (cases "table_type b = PCAT_TABLE_MEMORY_INTERLEAVE_INFO")
    case True
    then have w: "wf_interleave b" "length (concat (map expand (table_formats b))) \<le> NVM_INTERLEAVE_FORMATS"
      using assms(1) by (simp_all add: wf_table_def)
    have r: "rd b 4 = Some (b ! 4)" using rd_at [of 0 b b "[]" 4] w(1) by (simp add: wf_interleave_def)
    have a: "formats_ok (one_lm_mode c)" "formats_ok (mc_memory_mode c)" "formats_ok (mc_app_direct_mode c)"
      using assms(2) by (simp_all add: arrays_ok_def)
    from interleave_table_wf [OF w a(1)] interleave_table_wf [OF w a(2)] interleave_table_wf [OF w a(3)]
    show ?thesis using True assms(2) by (auto simp: bios_ext_table_def r arrays_ok_def)
  next
    case False
    then show ?thesis using p assms(2) by (auto simp: bios_ext_table_def)
  qed
qed

definition bios_visit :: "bytes \<Rightarrow> int \<times> platform_capabilities \<Rightarrow> (int \<times> platform_capabilities) \<times> bool" where
  "bios_visit b s = (case bios_ext_table b 0 (table_type b) (snd s) of
     None \<Rightarrow> (s, False) | Some (c, go_on) \<Rightarrow> ((fst s, c), go_on))"

interpretation bios_walk: guarded_table_loop "\<lambda>m base limit off. bios_tables_loop (drop base m) limit off"
  bios_visit wf_table "\<lambda>s. arrays_ok (snd s)"
proof (unfold_locales, goal_cases)
  case (1 m base limit s)
  then show ?case by (simp add: bios_tables_loop.simps)
next
  case (2 base off m b r limit s)
  have d: "drop off (drop base m) = b @ r" using 2(1) by (simp add: add.commute)
  note h = wf_table_header [OF d 2(2)]
  obtain c g where c: "bios_ext_table b 0 (table_type b) (snd s) = Some (c, g)"
    using bios_ext_table_ok [OF 2(2,4)] by blast
  have lim: "off < limit" using 2(3) h(5) by linarith
  show ?case
    using h 2(3) c bios_ext_table_at [OF d 2(2), of "snd s"]
    by (simp add: bios_tables_loop.simps [of "drop base m" limit off] bios_visit_def add.commute lim)
next
  case (3 b s)
  then show ?case using bios_ext_table_ok [of b "snd s"] by (auto simp: bios_visit_def)
qed

text \<open>The search for a socket.\<close>

definition socket_visit :: "bytes \<Rightarrow> int \<times> socket_sku \<Rightarrow> (int \<times> socket_sku) \<times> bool" where
  "socket_visit b s =
     (if table_type b = PCAT_TABLE_SOCKET_INFO \<and> fld b 4 2 = sock_id (snd s) then
        ((if fld b 8 8 = (0 :: u64) \<or> fld b 16 8 \<ge> (fld b 8 8 :: u64) \<or> fld b 16 8 = (0 :: u64)
          then NVM_ERR_BADPCAT else NVM_SUCCESS,
          (snd s)\<lparr>sock_mapped_memory_limit := fld b 8 8, sock_total_mapped_memory := fld b 16 8,
            sock_total_2lm_ddr_cache_memory := fld b 24 8, is_capacity_skuing_supported := True\<rparr>), False)
      else (s, True))"

interpretation socket_walk: table_loop "\<lambda>m base limit off. socket_tables_loop (drop base m) limit off"
  socket_visit wf_table
proof (unfold_locales, goal_cases)
  case (1 m base limit s)
  then show ?case by (simp add: socket_tables_loop.simps)
next
  case (2 base off m b r limit s)
  have d: "drop off (drop base m) = b @ r" using 2(1) by (simp add: add.commute)
  note h = wf_table_header [OF d 2(2)]
  have r: "rd16 (drop base m) (off + 4) = Some (fld b 4 2)" "rd64 (drop base m) (off + 8) = Some (fld b 8 8)"
    "rd64 (drop base m) (off + 16) = Some (fld b 16 8)" "rd64 (drop base m) (off + 24) = Some (fld b 24 8)"
    if "table_type b = PCAT_TABLE_SOCKET_INFO"
    using rd16_at [OF d, of 4] rd64_at [OF d, of 8] rd64_at [OF d, of 16] rd64_at [OF d, of 24] 2(2) that
    by (simp_all add: wf_table_def)
  have lim: "off < limit" using 2(3) h(5) by linarith
  show ?case
    using h 2(3) r
    by (auto simp: socket_tables_loop.simps [of "drop base m" limit off] socket_visit_def socket_info_table_def
        Let_def add.commute lim)
qed


section \<open>The readers\<close>

lemma get_pcat_valid:
  assumes "acpi_valid PCAT_TABLE_SIGNATURE f" "length f \<le> PCAT_MAX_LEN" "40 \<le> chunk"
  shows "get_pcat chunk (Some f) (Some (replicate PCAT_MAX_LEN 0)) =
    Some (NVM_SUCCESS, Some (f @ replicate (PCAT_MAX_LEN - length f) 0))"
proof -
  let ?p = "f @ replicate (PCAT_MAX_LEN - length f) 0"
  have f: "40 \<le> length f" "acpi_length f = Some (length f)" "sum_list f = 0" "take 4 f = PCAT_TABLE_SIGNATURE"
    using assms(1) by (simp_all add: acpi_valid_def)
  have s: "length PCAT_TABLE_SIGNATURE = 4" by (simp add: PCAT_TABLE_SIGNATURE_def)
  have c: "check_acpi_table (PCAT_TABLE_SIGNATURE @ [0]) (Some ?p) = Some ACPI_SUCCESS"
    using check_acpi_table_padded [OF s f(1,2)] check_acpi_table_eq [OF s f(1,2)] f(3,4) by simp
  have g: "get_acpi_table chunk (Some f) (PCAT_TABLE_SIGNATURE @ [0]) (Some (replicate PCAT_MAX_LEN 0)) PCAT_MAX_LEN =
      Some (ACPI_SUCCESS, Some ?p)"
    using get_acpi_table_padded [OF f(1,2) assms(3) _ assms(2), of "replicate PCAT_MAX_LEN 0"] c by simp
  show ?thesis using g by (simp add: get_pcat_def wr_bytes_def)
qed

definition socket_entry :: "u16 \<Rightarrow> bytes \<Rightarrow> bool" where
  "socket_entry i b \<longleftrightarrow> table_type b = PCAT_TABLE_SOCKET_INFO \<and> fld b 4 2 = i"

lemma walk_socket:
  "walk socket_visit bs (rc, k) =
     (case find (socket_entry (sock_id k)) bs of None \<Rightarrow> (rc, k) | Some b \<Rightarrow> fst (socket_visit b (rc, k)))"
  by (induction bs) (auto simp: socket_visit_def socket_entry_def)

lemma pcat_parts:
  assumes "acpi_valid PCAT_TABLE_SIGNATURE (h @ concat bs)" "length h = PCAT_TABLE_SIZE"
  shows "acpi_length ((h @ concat bs) @ z) = Some (PCAT_TABLE_SIZE + length (concat bs))"
    "drop (0 + PCAT_TABLE_SIZE) ((h @ concat bs) @ z) = concat bs @ z"
  using assms acpi_length_append [of "h @ concat bs" z] by (simp_all add: acpi_valid_def ACPI_HEADER_LEN_def)

text \<open>
  C28: For a valid PCAT file of up to 4096 bytes with any well-formed extension tables, the mapped
  memory limits of a socket are those of the first socket table with its identifier, which are refused
  if the limit is zero, nothing is mapped, or all the memory of the limit is; a socket without a
  table is success with zero limits, and the other fields of the request stay.
\<close>

theorem socket_limits_found:
  assumes "acpi_valid PCAT_TABLE_SIGNATURE (h @ concat bs)" "length h = PCAT_TABLE_SIZE" "\<forall>b \<in> set bs. wf_table b"
    and "length (h @ concat bs) \<le> PCAT_MAX_LEN" "40 \<le> chunk"
  shows "get_mapped_memory_info chunk (Some (h @ concat bs)) True (Some k) =
    (case find (\<lambda>b. table_type b = PCAT_TABLE_SOCKET_INFO \<and> fld b 4 2 = sock_id k) bs of
       None \<Rightarrow> Some (NVM_SUCCESS, Some (k\<lparr>sock_mapped_memory_limit := 0, sock_total_mapped_memory := 0,
         sock_total_2lm_ddr_cache_memory := 0, is_capacity_skuing_supported := False\<rparr>))
     | Some b \<Rightarrow> Some (if (fld b 8 8 :: u64) = 0 \<or> (fld b 16 8 :: u64) = 0 \<or> fld b 8 8 \<le> (fld b 16 8 :: u64)
         then NVM_ERR_BADPCAT else NVM_SUCCESS,
         Some (k\<lparr>sock_mapped_memory_limit := fld b 8 8, sock_total_mapped_memory := fld b 16 8,
           sock_total_2lm_ddr_cache_memory := fld b 24 8, is_capacity_skuing_supported := True\<rparr>)))"
proof -
  let ?z = "replicate (PCAT_MAX_LEN - length (h @ concat bs)) 0"
  let ?k0 = "k\<lparr>sock_mapped_memory_limit := 0, sock_total_mapped_memory := 0,
    sock_total_2lm_ddr_cache_memory := 0, is_capacity_skuing_supported := False\<rparr>"
  note g = get_pcat_valid [OF assms(1,4,5)] and p = pcat_parts [OF assms(1,2), of ?z]
  have w: "socket_tables_loop ((h @ concat bs) @ ?z) (PCAT_TABLE_SIZE + length (concat bs)) PCAT_TABLE_SIZE (NVM_SUCCESS, ?k0) =
      Some (walk socket_visit bs (NVM_SUCCESS, ?k0))"
    using socket_walk.loop_tables [OF p(2) assms(3) refl] by simp
  have "get_socket_sku ((h @ concat bs) @ ?z) k = Some (walk socket_visit bs (NVM_SUCCESS, ?k0))"
    unfolding get_socket_sku_def p(1) bind.bind_lunit w ..
  then show ?thesis
    unfolding get_mapped_memory_info_def option.case if_True g bind.bind_lunit prod.case walk_socket
    by (auto simp: socket_entry_def [abs_def] socket_visit_def disj_commute dest!: find_Some_iff [THEN iffD1] split: option.splits)
qed


definition pcat_header :: bytes where
  "pcat_header = [80, 67, 65, 84, 72, 0, 0, 0, 0, 99] @ replicate 30 0"

definition socket_one :: bytes where
  "socket_one = [6, 0, 32, 0, 1, 0, 0, 0, 4, 0, 0, 0, 0, 0, 0, 0, 2, 0, 0, 0, 0, 0, 0, 0, 0, 0, 0, 0, 0, 0, 0, 0]"

lemma socket_one_fields:
  "table_type socket_one = 6" "(fld socket_one 2 2 :: u16) = 32" "(fld socket_one 4 2 :: u16) = 1"
  "(fld socket_one 8 8 :: u64) = 4" "(fld socket_one 16 8 :: u64) = 2" "(fld socket_one 24 8 :: u64) = 0"
  "length socket_one = 32"
  by (simp_all add: table_type_def socket_one_def fld_def)

lemma pcat_file_valid:
  "acpi_valid PCAT_TABLE_SIGNATURE (pcat_header @ concat [socket_one])" "length pcat_header = PCAT_TABLE_SIZE"
  "wf_table socket_one"
  using socket_one_fields
  by (simp_all add: acpi_valid_def pcat_header_def PCAT_TABLE_SIGNATURE_def ACPI_HEADER_LEN_def wf_table_def
      acpi_length_def rd32_def rd_bytes_def unsigned_of_nat socket_one_def sum_list_replicate)

theorem socket_limits_found_witness:
  "get_mapped_memory_info 4096 (Some (pcat_header @ socket_one)) True
     (Some \<lparr>sock_id = 1, sock_mapped_memory_limit = 9, sock_total_mapped_memory = 9,
        sock_total_2lm_ddr_cache_memory = 9, is_capacity_skuing_supported = False\<rparr>) =
   Some (NVM_SUCCESS, Some \<lparr>sock_id = 1, sock_mapped_memory_limit = 4, sock_total_mapped_memory = 2,
        sock_total_2lm_ddr_cache_memory = 0, is_capacity_skuing_supported = True\<rparr>)"
proof -
  have l: "length (pcat_header @ concat [socket_one]) \<le> PCAT_MAX_LEN"
    by (simp add: pcat_header_def socket_one_def PCAT_MAX_LEN_def)
  have w: "\<forall>b \<in> set [socket_one]. wf_table b" using pcat_file_valid(3) by simp
  show ?thesis
    using socket_limits_found [OF pcat_file_valid(1,2) w l, of 4096 "\<lparr>sock_id = 1, sock_mapped_memory_limit = 9,
      sock_total_mapped_memory = 9, sock_total_2lm_ddr_cache_memory = 9, is_capacity_skuing_supported = False\<rparr>"]
    by (simp add: socket_one_fields)
qed

end
