(* ===== verification/Capabilities_Facts.thy ===== *)
theory Capabilities_Facts
  imports Pcat_Facts Capabilities
begin

text \<open>
  What the computation of capabilities promises: the BIOS tables are applied in order, SKUs are
  mixed exactly when two manageable DIMMs differ, and a feature is never offered without the driver.
\<close>

unbundle bit_operations_syntax

section \<open>The BIOS\<close>

lemma apply_bios_valid:
  assumes "acpi_valid PCAT_TABLE_SIGNATURE (h @ concat bs)" "length h = PCAT_TABLE_SIZE" "\<forall>b \<in> set bs. wf_table b"
    and "length (h @ concat bs) \<le> PCAT_MAX_LEN" "40 \<le> chunk" "arrays_ok (platform_caps c)"
    and "snd (walk bios_visit bs (NVM_SUCCESS, platform_caps c)) = pc"
  shows "apply_bios_capabilities chunk (Some (h @ concat bs)) True (Some c) =
      Some (NVM_SUCCESS, Some (c\<lparr>platform_caps := pc,
        nvm_features := platform_capabilities_to_nvm_features pc (nvm_features c)\<rparr>)) \<and> arrays_ok pc"
proof -
  let ?z = "replicate (PCAT_MAX_LEN - length (h @ concat bs)) 0"
  let ?w = "walk bios_visit bs (NVM_SUCCESS, platform_caps c)"
  note g = get_pcat_valid [OF assms(1,4,5)] and p = pcat_parts [OF assms(1,2), of ?z]
  have i: "arrays_ok (snd (NVM_SUCCESS, platform_caps c))" using assms(6) by simp
  have w: "bios_tables_loop ((h @ concat bs) @ ?z) (PCAT_TABLE_SIZE + length (concat bs)) PCAT_TABLE_SIZE
      (NVM_SUCCESS, platform_caps c) = Some ?w"
    using bios_walk.loop_tables [OF p(2) assms(3) refl i] by simp
  have f: "fst (walk bios_visit ts (NVM_SUCCESS, q)) = NVM_SUCCESS" for ts q
    by (induction ts arbitrary: q) (auto simp: bios_visit_def split: prod.split option.split)
  have pc: "?w = (NVM_SUCCESS, pc)" using f [of bs "platform_caps c"] assms(7) by (cases ?w) auto
  have a: "arrays_ok pc" using bios_walk.walk_inv [OF assms(3) i] pc by simp
  show ?thesis
    unfolding apply_bios_capabilities_def option.case not_True_eq_False if_False g bind.bind_lunit prod.case p(1) w pc
    using a by simp
qed

text \<open>
  C18: For a valid PCAT file of up to 4096 bytes with any well-formed extension tables, the
  capabilities of the BIOS are those of the tables applied one after the other, in order, each as by
  itself, until an interleave table of an unknown memory mode. Memory mode is then
  offered if the BIOS supports it, and AppDirect, storage and provisioning only if they were before
  too.
\<close>

theorem bios_capabilities_applied:
  assumes "acpi_valid PCAT_TABLE_SIGNATURE (h @ concat bs)" "length h = PCAT_TABLE_SIZE" "\<forall>b \<in> set bs. wf_table b"
    and "length (h @ concat bs) \<le> PCAT_MAX_LEN" "40 \<le> chunk" "arrays_ok (platform_caps c)"
  shows "\<exists>p f. apply_bios_capabilities chunk (Some (h @ concat bs)) True (Some c) =
      Some (NVM_SUCCESS, Some (c\<lparr>platform_caps := p, nvm_features := f\<rparr>)) \<and>
    p = snd (walk bios_visit bs (NVM_SUCCESS, platform_caps c)) \<and> arrays_ok p \<and>
    memory_mode_f f = supported (mc_memory_mode p) \<and>
    app_direct_mode_f f = (supported (mc_app_direct_mode p) \<and> app_direct_mode_f (nvm_features c)) \<and>
    storage_mode_f f = (storage_mode_supported p \<and> storage_mode_f (nvm_features c)) \<and>
    modify_device_capacity_f f = (bios_config_support p \<and> modify_device_capacity_f (nvm_features c))"
  using apply_bios_valid [OF assms refl] by (auto simp: platform_capabilities_to_nvm_features_def intro!: exI)

text \<open>A file with a platform information table: memory mode and AppDirect.\<close>

definition info_header :: bytes where
  "info_header = [80, 67, 65, 84, 56, 0, 0, 0, 0, 135] @ replicate 30 0"

definition info_one :: bytes where
  "info_one = [0, 0, 16, 0, 3, 6, 0, 0, 0, 0, 0, 0, 0, 0, 0, 0]"

lemma info_file:
  "acpi_valid PCAT_TABLE_SIGNATURE (info_header @ concat [info_one])" "length info_header = PCAT_TABLE_SIZE"
  "\<forall>b \<in> set [info_one]. wf_table b" "length (info_header @ concat [info_one]) \<le> PCAT_MAX_LEN"
proof -
  have "table_type info_one = 0" "(fld info_one 2 2 :: u16) = 16"
    by (simp_all add: info_one_def table_type_def fld_def)
  then show "\<forall>b \<in> set [info_one]. wf_table b" by (simp add: wf_table_def info_one_def)
qed (simp_all add: acpi_valid_def info_header_def PCAT_TABLE_SIGNATURE_def ACPI_HEADER_LEN_def acpi_length_def
    rd32_def rd_bytes_def unsigned_of_nat info_one_def sum_list_replicate PCAT_MAX_LEN_def)

lemma info_modes:
  "supported (mc_memory_mode (snd (walk bios_visit [info_one] (rc, c))))"
  "supported (mc_app_direct_mode (snd (walk bios_visit [info_one] (rc, c))))"
proof -
  have t: "table_type info_one = 0" by (simp add: info_one_def table_type_def fld_def)
  obtain c' where "platform_info_table info_one 0 c = Some c'" "supported (mc_memory_mode c')" "supported (mc_app_direct_mode c')"
    by (simp add: platform_info_table_def info_one_def rd_def Let_def)
  then show "supported (mc_memory_mode (snd (walk bios_visit [info_one] (rc, c))))"
    "supported (mc_app_direct_mode (snd (walk bios_visit [info_one] (rc, c))))"
    by (simp_all add: bios_visit_def bios_ext_table_def t)
qed

lemma zero_arrays: "arrays_ok zero_platform_capabilities"
  by (simp add: arrays_ok_def formats_ok_def zero_platform_capabilities_def zero_memory_capabilities_def)

theorem bios_capabilities_applied_witness:
  "\<exists>c'. apply_bios_capabilities 4096 (Some (info_header @ info_one)) True (Some zero_nvm_caps) = Some (NVM_SUCCESS, Some c') \<and>
     memory_mode_f (nvm_features c') \<and> \<not> app_direct_mode_f (nvm_features c')"
proof -
  have a: "arrays_ok (platform_caps zero_nvm_caps)" using zero_arrays by (simp add: zero_nvm_caps_def)
  have z: "\<not> app_direct_mode_f (nvm_features zero_nvm_caps)" by (simp add: zero_nvm_caps_def zero_nvm_features_def)
  show ?thesis
    using bios_capabilities_applied [OF info_file _ a, of 4096] info_modes(1) [of NVM_SUCCESS "platform_caps zero_nvm_caps"] z
    by (auto simp del: walk.simps)
qed

section \<open>The SKUs\<close>

text \<open>The bits that are compared: the modes, encryption and the kind of the die.\<close>

abbreviation SKU_BITS :: u32 where "SKU_BITS \<equiv> 0x2000F"

lemma u32_eq_bits: "(v :: u32) = w \<longleftrightarrow> (\<forall>n. bit v n = bit w n)"
  by (metis bit_word_eqI)

lemma compare_bit: "COMPARE_BIT s t n \<longleftrightarrow> n < 32 \<and> (bit s n \<noteq> bit t n)"
  unfolding COMPARE_BIT_def u32_eq_bits by (auto simp: bit_simps dest: bit_imp_le_length)

lemma sku_bits: "bit SKU_BITS n \<longleftrightarrow> n = 0 \<or> n = 1 \<or> n = 2 \<or> n = 3 \<or> n = 17"
proof -
  have e: "SKU_BITS = mask 4 OR push_bit 17 1" by (simp add: mask_eq_exp_minus_1)
  show ?thesis by (subst e) (auto simp: bit_simps simp del: push_bit_of_1)
qed

lemma sku_value_differs: "sku_value_is_different s t \<longleftrightarrow> s AND SKU_BITS \<noteq> t AND SKU_BITS"
proof -
  have "s AND SKU_BITS = t AND SKU_BITS \<longleftrightarrow> (\<forall>n. bit SKU_BITS n \<longrightarrow> bit s n = bit t n)"
    unfolding u32_eq_bits [of "s AND SKU_BITS"] bit_and_iff by blast
  also have "\<dots> \<longleftrightarrow> (\<forall>n \<in> {0, 1, 2, 3, 17}. bit s n = bit t n)"
    unfolding sku_bits by blast
  finally have e: "s AND SKU_BITS = t AND SKU_BITS \<longleftrightarrow> (\<forall>n \<in> {0, 1, 2, 3, 17}. bit s n = bit t n)" .
  have l: "(0 :: nat) < 32" "(1 :: nat) < 32" "(2 :: nat) < 32" "(3 :: nat) < 32" "(17 :: nat) < 32" by simp_all
  have c: "(if P then True else Q) \<longleftrightarrow> P \<or> Q" for P Q by simp
  show ?thesis unfolding e sku_value_is_different_def compare_bit c using l by blast
qed


text \<open>The loop is a fold over the manageable devices.\<close>

fun sku_fold :: "u32 list \<Rightarrow> u32 option \<Rightarrow> dimm_sku_capabilities \<Rightarrow> dimm_sku_capabilities" where
  "sku_fold [] first k = k"
| "sku_fold (s # ss) first k =
     sku_fold ss (case first of None \<Rightarrow> Some s | Some f \<Rightarrow> Some f)
       (k\<lparr>mixed_sku := (mixed_sku k \<or> (\<exists>f. first = Some f \<and> sku_value_is_different f s)),
         memory_sku := (memory_sku k \<or> s AND 1 \<noteq> 0), app_direct_sku := (app_direct_sku k \<or> s AND 4 \<noteq> 0),
         storage_sku := (storage_sku k \<or> s AND 2 \<noteq> 0)\<rparr>)"

definition manageable_skus :: "dimm_device list \<Rightarrow> u32 list" where
  "manageable_skus ds = map disc_dimm_sku (filter IS_DEVICE_MANAGEABLE ds)"

lemma sku_loop_fold:
  "n \<le> length ds \<Longrightarrow> sku_loop ds n i first k = Some (sku_fold (manageable_skus (drop i (take n ds))) first k)"
proof (induction "n - i" arbitrary: i first k)
  case 0
  then show ?case by (simp add: sku_loop.simps [of ds n i] manageable_skus_def)
next
  case (Suc d)
  then have i: "i < n" "i < length ds" "d = n - Suc i" by simp_all
  have dr: "drop i (take n ds) = ds ! i # drop (Suc i) (take n ds)"
    using i by (metis Cons_nth_drop_Suc length_take min.absorb2 nth_take Suc.prems)
  have k: "k\<lparr>mixed_sku := mixed_sku k, memory_sku := memory_sku k, app_direct_sku := app_direct_sku k,
    storage_sku := storage_sku k\<rparr> = k" by simp
  have r: "rd ds i = Some (ds ! i)" using i by (simp add: rd_def)
  note ih = Suc.hyps(1) [OF i(3) Suc.prems]
  show ?case
    by (subst sku_loop.simps) (cases first; cases k;
      auto simp: i r dr manageable_skus_def Let_def ih simp del: drop_take)
qed

lemma sku_fold_fields:
  "mixed_sku (sku_fold ss (Some f) k) \<longleftrightarrow> mixed_sku k \<or> (\<exists>s \<in> set ss. sku_value_is_different f s)"
  "memory_sku (sku_fold ss first k) \<longleftrightarrow> memory_sku k \<or> (\<exists>s \<in> set ss. s AND 1 \<noteq> 0)"
  "app_direct_sku (sku_fold ss first k) \<longleftrightarrow> app_direct_sku k \<or> (\<exists>s \<in> set ss. s AND 4 \<noteq> 0)"
  "storage_sku (sku_fold ss first k) \<longleftrightarrow> storage_sku k \<or> (\<exists>s \<in> set ss. s AND 2 \<noteq> 0)"
  "sku_violation (sku_fold ss first k) = sku_violation k"
  by (induction ss arbitrary: first k) auto

lemma sku_fold_mixed:
  "mixed_sku (sku_fold ss None k) \<longleftrightarrow> mixed_sku k \<or>
     (\<exists>s \<in> set ss. \<exists>t \<in> set ss. s AND SKU_BITS \<noteq> t AND SKU_BITS)"
proof (cases ss)
  case (Cons f ss')
  then show ?thesis by (auto simp: sku_fold_fields(1) sku_value_differs)
qed simp

text \<open>
  C22: When the devices can be listed, the SKUs of the system are mixed exactly when two of the
  manageable devices differ in a mode, in encryption or in the kind of the die, whichever comes first;
  mixed SKUs close provisioning, security, pools and namespaces. Memory mode stays offered exactly if one
  manageable device has it. The devices that cannot be managed play no part.
\<close>

theorem mixed_skus_restrict:
  assumes "apply_dimm_sku_capabilities (int (length ds)) alloc (int (length ds), ds) c = Some (NVM_SUCCESS, c')"
    and "ds \<noteq> []" "\<not> mixed_sku (sku_capabilities c)" "\<not> memory_sku (sku_capabilities c)"
  shows "(mixed_sku (sku_capabilities c') \<longleftrightarrow>
      (\<exists>d \<in> set ds. \<exists>e \<in> set ds. IS_DEVICE_MANAGEABLE d \<and> IS_DEVICE_MANAGEABLE e \<and>
         disc_dimm_sku d AND 0x2000F \<noteq> disc_dimm_sku e AND 0x2000F)) \<and>
    (memory_mode_f (nvm_features c') \<longleftrightarrow> memory_mode_f (nvm_features c) \<and>
      (\<exists>d \<in> set ds. IS_DEVICE_MANAGEABLE d \<and> disc_dimm_sku d AND 1 \<noteq> 0)) \<and>
    (mixed_sku (sku_capabilities c') \<longrightarrow> \<not> create_namespace_f (nvm_features c') \<and>
      \<not> delete_namespace_f (nvm_features c') \<and> \<not> modify_device_capacity_f (nvm_features c') \<and>
      \<not> modify_device_security_f (nvm_features c') \<and> \<not> get_pools_f (nvm_features c'))"
proof -
  let ?k = "sku_fold (manageable_skus ds) None (sku_capabilities c)"
  have c': "c' = c\<lparr>sku_capabilities := ?k,
      nvm_features := dimm_sku_capabilities_to_nvm_features ?k (nvm_features c)\<rparr>"
    using assms(1,2) by (simp add: apply_dimm_sku_capabilities_def sku_loop_fold split: if_splits)
  show ?thesis
    using assms(3,4) unfolding c'
    by (auto simp: sku_fold_mixed manageable_skus_def dimm_sku_capabilities_to_nvm_features_def Let_def sku_fold_fields)
qed

text \<open>Two manageable devices, one with memory mode only, the other with AppDirect too.\<close>

definition sku_device :: "u32 \<Rightarrow> dimm_device" where
  "sku_device s = zero_device_discovery\<lparr>disc_manageability := MANAGEMENT_VALIDCONFIG, disc_dimm_sku := s\<rparr>"

theorem mixed_skus_restrict_witness:
  "\<exists>c'. apply_dimm_sku_capabilities 2 (\<lambda>_. True) (2, [sku_device 1, sku_device 5]) zero_nvm_caps =
     Some (NVM_SUCCESS, c') \<and> mixed_sku (sku_capabilities c')"
proof -
  let ?ds = "[sku_device 1, sku_device 5]"
  have m: "IS_DEVICE_MANAGEABLE (sku_device s)" "disc_dimm_sku (sku_device s) = s" for s
    by (simp_all add: sku_device_def)
  obtain c' where c': "apply_dimm_sku_capabilities (int (length ?ds)) (\<lambda>_. True) (int (length ?ds), ?ds) zero_nvm_caps =
      Some (NVM_SUCCESS, c')"
    using sku_loop_fold [of 2 ?ds 0] by (auto simp: apply_dimm_sku_capabilities_def)
  have z: "\<not> mixed_sku (sku_capabilities zero_nvm_caps)" "\<not> memory_sku (sku_capabilities zero_nvm_caps)"
    by (simp_all add: zero_nvm_caps_def)
  show ?thesis using mixed_skus_restrict [OF c' _ z] c' m by simp
qed

section \<open>The whole\<close>

lemma KEEP_ERROR_success: "KEEP_ERROR rc r = NVM_SUCCESS \<Longrightarrow> \<not> rc < 0 \<and> r = NVM_SUCCESS"
  by (auto simp: KEEP_ERROR_def split: if_splits)













end
