(* ===== verification/Utility_Facts.thy ===== *)
theory Utility_Facts
  imports Utility
begin

text \<open>
  Facts about the helpers of \<open>lib/utility.h\<close> and the block counts of \<open>lib/namespace_utils.c\<close>: the
  divisor loop computes the greatest common divisor, rounding, the round trip of interleave formats,
  and the largest aligned capacity.
\<close>

unbundle bit_operations_syntax

section \<open>Divisors and multiples\<close>

lemma gcd_loop_eq: "unat (gcd_loop a b) = gcd (unat a) (unat b)"
proof (induction a b rule: gcd_loop.induct)
  case (1 a b)
  have r: "gcd (unat a) (unat b) = gcd (unat (b mod a)) (unat a)" if "a \<noteq> 0"
    by (metis gcd.commute gcd_red_nat unat_mod_distrib)
  show ?case
  proof (cases "a = 0 \<or> b mod a = 0")
    case True
    then show ?thesis using r gcd_loop.simps [of a b] by (cases "a = 0") simp_all
  next
    case False
    then have "gcd (unat (b mod a)) (unat a) = gcd (unat (a mod (b mod a))) (unat (b mod a))"
      by (metis gcd.commute gcd_red_nat unat_mod_distrib)
    then show ?thesis using 1 False r by (simp add: gcd_loop.simps [of a b])
  qed
qed

lemma unat_times_bound:
  fixes a b :: "'w::len word"
  assumes "unat a * unat b < 2 ^ LENGTH('w)"
  shows "unat (a * b) = unat a * unat b"
  using assms by (simp add: unat_word_ariths)

lemma lcm_eq:
  assumes "a \<noteq> 0" and "lcm (unat a) (unat b) < 2 ^ 32"
  shows "\<exists>m. get_lowest_common_multiple a b = Some m \<and> unat m = lcm (unat a) (unat b)"
proof -
  let ?g = "gcd_loop a b"
  have g: "unat ?g = gcd (unat a) (unat b)" by (rule gcd_loop_eq)
  moreover have "unat a \<noteq> 0" using assms(1) by (simp add: unat_eq_0)
  ultimately have "?g \<noteq> 0" by (metis gcd_eq_0_iff unat_0)
  moreover have "unat (a div ?g) * unat b = lcm (unat a) (unat b)"
    unfolding unat_div_distrib g by (simp add: lcm_nat_def div_mult_swap mult.commute)
  ultimately show ?thesis
    using unat_times_bound [of "a div ?g" b] assms(2)
    by (simp add: get_lowest_common_multiple_def get_greatest_common_divisor_def Let_def)
qed

lemma ceil_nat:
  fixes x m :: nat
  assumes "0 < m"
  shows "(x + m - 1) div m * m = (if x mod m = 0 then x else x + (m - x mod m))"
proof -
  define q r where "q = x div m" and "r = x mod m"
  have x: "x = r + q * m" by (simp add: q_def r_def)
  have r: "r < m" using assms by (simp add: r_def)
  show ?thesis
  proof (cases "r = 0")
    case True
    then have e: "x + m - 1 = (m - 1) + q * m" using x assms by simp
    have "(x + m - 1) div m = q" unfolding e using assms div_mult_self1 [of m "m - 1" q] by simp
    then have "(x + m - 1) div m * m = x" using True x by simp
    moreover have "x mod m = 0" using True by (simp add: r_def)
    ultimately show ?thesis by simp
  next
    case False
    then have e: "x + m - 1 = (r - 1) + Suc q * m" using x by simp
    have "(x + m - 1) div m = Suc q" unfolding e using assms r div_mult_self1 [of m "r - 1" "Suc q"] by simp
    then have "(x + m - 1) div m * m = m + q * m" by simp
    moreover have "x + (m - r) = m + q * m" using x r by linarith
    ultimately show ?thesis using False unfolding r_def by simp
  qed
qed

lemma unat_round_up:
  assumes "m \<noteq> 0" and "unat x + unat m \<le> 2 ^ 64"
  shows "unat (round_up x m) = (unat x + unat m - 1) div unat m * unat m"
proof -
  have m: "0 < unat m" using assms(1) by (simp add: unat_gt_0)
  have z: "x mod m = 0 \<longleftrightarrow> unat x mod unat m = 0" by (simp add: unat_mod_distrib [symmetric] unat_eq_0)
  show ?thesis
  proof (cases "x mod m = 0")
    case True
    then show ?thesis using z unfolding ceil_nat [OF m] by (simp add: round_up_def)
  next
    case False
    have r: "unat x mod unat m < unat m" "0 < unat x mod unat m" using m False z by simp_all
    have "x mod m \<le> m" using r(1) by (simp add: word_le_nat_alt unat_mod_distrib)
    then have s: "unat (m - x mod m) = unat m - unat x mod unat m" by (simp add: unat_sub unat_mod_distrib)
    have "unat (x + (m - x mod m)) = unat x + (unat m - unat x mod unat m)"
      using s assms(2) r by (simp add: unat_word_ariths)
    then show ?thesis using False assms(1) z unfolding ceil_nat [OF m] by (simp add: round_up_def)
  qed
qed

section \<open>Interleave formats\<close>

lemma format_masks: "(0x1ff :: u32) = mask 9" "(0xff :: u32) = mask 8" "(1 :: u32) = mask 1"
  by (simp_all add: mask_eq_exp_minus_1)

definition format_word :: "u32 \<Rightarrow> bool \<Rightarrow> u32 \<Rightarrow> u32 \<Rightarrow> u32" where
  "format_word w r c i = push_bit 16 (w AND mask 9) OR push_bit 31 (of_bool r)
     OR (c AND mask 8) OR push_bit 8 (i AND mask 8)"

lemma format_word_fields:
  "drop_bit 16 (format_word w r c i) AND mask 9 = w AND mask 9"
  "drop_bit 31 (format_word w r c i) AND mask 1 \<noteq> 0 \<longleftrightarrow> r"
  "format_word w r c i AND mask 8 = c AND mask 8"
  "drop_bit 8 (format_word w r c i) AND mask 8 = i AND mask 8"
proof -
  show "drop_bit 16 (format_word w r c i) AND mask 9 = w AND mask 9"
    by (rule bit_word_eqI) (auto simp: format_word_def bit_simps)
  show "format_word w r c i AND mask 8 = c AND mask 8"
    by (rule bit_word_eqI) (auto simp: format_word_def bit_simps)
  show "drop_bit 8 (format_word w r c i) AND mask 8 = i AND mask 8"
    by (rule bit_word_eqI) (auto simp: format_word_def bit_simps)
  have "drop_bit 31 (format_word w r c i) AND mask 1 = of_bool r"
    by (rule bit_word_eqI) (auto simp: format_word_def bit_simps)
  then show "drop_bit 31 (format_word w r c i) AND mask 1 \<noteq> 0 \<longleftrightarrow> r" by simp
qed

lemma ways_roundtrip: "interleave_way_to_enum (ways_bits w AND mask 9) = w"
  by (cases w) (simp_all add: interleave_way_to_enum_def format_masks(1) [symmetric])

lemma size_roundtrip: "size_of_bits (size_bits z AND mask 8) old = (if z = INTERLEAVE_SIZE_NONE then old else z)"
  by (cases z) (simp_all add: size_of_bits_def format_masks(2) [symmetric])

text \<open>
  An interleave format that is encoded for the BIOS and decoded again is the original one; only a size
  of \<open>NONE\<close>, which the decoder has no case for, leaves what the destination held.
\<close>

theorem interleave_format_roundtrip:
  "\<exists>v. interleave_struct_to_format (Some s) (Some v0) = Some v \<and>
     interleave_format_to_struct v (Some f) = Some (s
       \<lparr>fmt_channel := if fmt_channel s = INTERLEAVE_SIZE_NONE then fmt_channel f else fmt_channel s,
        fmt_imc := if fmt_imc s = INTERLEAVE_SIZE_NONE then fmt_imc f else fmt_imc s\<rparr>)"
proof -
  let ?v = "format_word (ways_bits (fmt_ways s)) (fmt_recommended s) (size_bits (fmt_channel s)) (size_bits (fmt_imc s))"
  have "interleave_struct_to_format (Some s) (Some v0) = Some ?v"
    by (simp add: interleave_struct_to_format_def format_word_def format_masks(1,2)
        PCAT_FORMAT_WAYS_SHIFT_def PCAT_FORMAT_IMC_SHIFT_def PCAT_FORMAT_RECOMMENDED_SHIFT_def)
  moreover have "interleave_format_to_struct ?v (Some f) = Some (f
      \<lparr>fmt_recommended := fmt_recommended s, fmt_ways := fmt_ways s,
       fmt_channel := if fmt_channel s = INTERLEAVE_SIZE_NONE then fmt_channel f else fmt_channel s,
       fmt_imc := if fmt_imc s = INTERLEAVE_SIZE_NONE then fmt_imc f else fmt_imc s\<rparr>)"
    unfolding interleave_format_to_struct_def PCAT_FORMAT_WAYS_SHIFT_def PCAT_FORMAT_IMC_SHIFT_def
      PCAT_FORMAT_RECOMMENDED_SHIFT_def format_masks format_word_fields
    by (simp add: ways_roundtrip size_roundtrip)
  ultimately show ?thesis by (cases f, cases s) simp
qed

section \<open>Block counts\<close>

lemma largest_aligned:
  fixes cap R k :: nat
  assumes "0 < R" and "0 < k" and "R * k \<le> cap"
  shows "cap div R * R mod (R * k) = 0 \<Longrightarrow> cap div R * R = cap div (R * k) * (R * k)"
    and "cap div R * R mod (R * k) \<noteq> 0 \<Longrightarrow>
      ((cap - R * k) div R * R + R * k - 1) div (R * k) * (R * k) = cap div (R * k) * (R * k)"
proof -
  define b q r where "b = cap div R" and "q = b div k" and "r = b mod k"
  have b: "b = q * k + r" and r: "r < k" using assms(2) by (simp_all add: q_def r_def)
  have q: "cap div (R * k) = q" by (simp add: q_def b_def div_mult2_eq)
  have m: "b * R mod (R * k) = R * r" by (metis mult.commute mult_mod_right r_def)
  show "cap div R * R mod (R * k) = 0 \<Longrightarrow> cap div R * R = cap div (R * k) * (R * k)"
    using m assms(1) b unfolding q b_def [symmetric] by (simp add: algebra_simps)
  assume "cap div R * R mod (R * k) \<noteq> 0"
  then have r0: "0 < R * r" using m by (simp add: b_def)
  have "k \<le> b" using assms by (metis b_def div_le_mono nonzero_mult_div_cancel_left less_numeral_extra(3))
  then have q1: "1 \<le> q" using assms(2) by (simp add: q_def Suc_leI div_greater_zero_iff)
  have "(cap - R * k) div R = b - k" using assms(1,3) unfolding b_def
    by (metis add_diff_inverse_nat diff_add_inverse div_mult_self2 less_numeral_extra(3) mult.commute not_less add.commute)
  moreover have "b - k = (q - 1) * k + r" using q1 b by (simp add: diff_mult_distrib)
  ultimately have "(cap - R * k) div R * R = (q - 1) * (R * k) + R * r" by (simp add: algebra_simps)
  moreover have "q * (R * k) = (q - 1) * (R * k) + R * k" using q1 by (cases q) simp_all
  ultimately have "(cap - R * k) div R * R + R * k - 1 = (R * r - 1) + q * (R * k)"
    using r0 by linarith
  moreover have "R * r - 1 < R * k" using r assms(1) r0 by (simp add: less_imp_diff_less)
  ultimately show "((cap - R * k) div R * R + R * k - 1) div (R * k) * (R * k) = cap div (R * k) * (R * k)"
    using q div_mult_self1 [of "R * k" "R * r - 1" q] assms by simp
qed

lemma real_block_size:
  assumes "bs \<noteq> 0" and "unat bs \<le> 65472"
  shows "unat (get_real_block_size bs) = (if bs = 1 then 1 else (unat bs + 63) div 64 * 64)"
    and "0 < unat (get_real_block_size bs)" and "unat (get_real_block_size bs) \<le> 65472"
    and "get_real_block_size (ucast (ucast (get_real_block_size bs) :: u16)) = get_real_block_size bs"
proof -
  have up: "unat (round_up (ucast b) CACHE_LINE_SIZE) = (unat b + 63) div 64 * 64" if "unat b \<le> 65472" for b :: u32
    using unat_round_up [of CACHE_LINE_SIZE "ucast b"] that
    by (simp add: CACHE_LINE_SIZE_def unsigned_ucast_eq take_bit_nat_eq_self)
  have small: "(unat b + 63) div 64 * 64 \<le> 65472" if "unat b \<le> 65472" for b :: u32
  proof -
    have "(unat b + 63) div 64 \<le> (65472 + 63) div 64" by (rule div_le_mono) (use that in simp)
    then show ?thesis by simp
  qed
  have real: "unat (get_real_block_size b) = (if b = 1 then 1 else (unat b + 63) div 64 * 64)" if "unat b \<le> 65472" for b
    using up [OF that] small [OF that] by (simp add: get_real_block_size_def unsigned_ucast_eq take_bit_nat_eq_self)
  show r: "unat (get_real_block_size bs) = (if bs = 1 then 1 else (unat bs + 63) div 64 * 64)"
    by (rule real [OF assms(2)])
  have "0 < unat bs" using assms(1) by (simp add: unat_gt_0)
  then show "0 < unat (get_real_block_size bs)" using r by (simp add: div_greater_zero_iff)
  show le: "unat (get_real_block_size bs) \<le> 65472" using r small [OF assms(2)] by simp
  have c: "(ucast (ucast (get_real_block_size bs) :: u16) :: u32) = get_real_block_size bs"
    using le by (intro word_unat_eq_iff [THEN iffD2]) (simp add: unsigned_ucast_eq unsigned_take_bit_eq take_bit_nat_eq_self)
  have "get_real_block_size bs = 1 \<longleftrightarrow> unat (get_real_block_size bs) = 1" by (simp add: word_unat_eq_iff)
  then have "unat (get_real_block_size (get_real_block_size bs)) = unat (get_real_block_size bs)"
    using real [OF le] r by (auto simp: mult.commute)
  then show "get_real_block_size (ucast (ucast (get_real_block_size bs) :: u16)) = get_real_block_size bs"
    unfolding c by (simp add: word_unat_eq_iff)
qed

lemma unat_ucast_u64: "unat (ucast (x :: u32) :: u64) = unat x"
proof -
  have "unat x < 2 ^ LENGTH(32)" by (rule unsigned_less)
  then have "unat x < 2 ^ 64" by simp
  then show ?thesis by (simp add: unsigned_ucast_eq take_bit_nat_eq_self)
qed

lemma unat_div_mult:
  fixes a b :: u64
  shows "unat (a div b * b) = unat a div unat b * unat b"
proof -
  have "unat a div unat b * unat b \<le> unat a" by (rule div_times_less_eq_dividend)
  also have "unat a < 2 ^ LENGTH(64)" by (rule unsigned_less)
  finally have "unat a div unat b * unat b < 2 ^ 64" by simp
  then show ?thesis using unat_times_bound [of "a div b" b] by (simp add: unat_div_distrib)
qed

text \<open>
  For a capacity that is not smaller than the alignment (the least common multiple of the real block
  size and a page), the block count is the exact number of real blocks in the largest aligned capacity
  that fits.
\<close>

theorem capacity_to_real_block_count_correct:
  assumes "bs \<noteq> 0" and "unat bs \<le> 65472"
    and "A = lcm (unat (get_real_block_size bs)) 4096" and "A \<le> unat capacity"
    and "unat capacity + A \<le> 2 ^ 64" and "A < 2 ^ 32"
  shows "\<exists>n. capacity_to_real_block_count capacity bs = Some n \<and>
    unat n * unat (get_real_block_size bs) = unat capacity div A * A"
proof -
  let ?rb = "get_real_block_size bs" and ?R = "unat (get_real_block_size bs)" and ?w = "ucast (get_real_block_size bs) :: u64"
  note rb = real_block_size [OF assms(1,2)]
  have R: "0 < ?R" "?rb \<noteq> 0" using rb(2) by (auto simp: unat_gt_0)
  have w: "unat ?w = ?R" "?w \<noteq> 0" using R unat_ucast_u64 [of ?rb] by (auto simp: unat_eq_0 [symmetric])
  obtain m where m: "get_lowest_common_multiple ?rb 4096 = Some m" "unat m = A"
    using lcm_eq [of ?rb 4096] R assms(3,6) by auto
  have A0: "0 < A" using assms(3) R by (simp add: lcm_pos_nat)
  let ?m = "ucast m :: u64"
  have m64: "unat ?m = A" "?m \<noteq> 0" "m \<noteq> 0" using m(2) A0 unat_ucast_u64 [of m] by (auto simp: unat_eq_0 [symmetric])
  have align: "get_alignment_size ?rb 1 = Some m" using m(1) by (simp add: get_alignment_size_def PAGE_SIZE_x86_def)
  obtain k where k: "A = ?R * k" using assms(3) by (metis dvd_def dvd_lcm1)
  have k0: "0 < k" using k A0 by simp
  note la = largest_aligned [OF R(1) k0, of "unat capacity", folded k, OF assms(4)]
  let ?n0 = "capacity div ?w"
  have n0: "unat (?n0 * ?w) = unat capacity div ?R * ?R" using unat_div_mult [of capacity ?w] w by simp
  have n0': "unat ?n0 * ?R = unat capacity div ?R * ?R" using w by (simp add: unat_div_distrib)
  have chk: "check_namespace_alignment (?w * ?n0) ?rb 1 = Some (unat capacity div ?R * ?R mod A = 0)"
  proof -
    have "unat (?n0 * ?w mod ?m) = unat capacity div ?R * ?R mod A"
      unfolding unat_mod_distrib m64(1) n0 ..
    then have "?n0 * ?w mod ?m = 0 \<longleftrightarrow> unat capacity div ?R * ?R mod A = 0"
      by (metis unat_eq_0)
    then show ?thesis using align m64(3) by (simp add: check_namespace_alignment_def mult.commute)
  qed
  show ?thesis
  proof (cases "unat capacity div ?R * ?R mod A = 0")
    case True
    then show ?thesis using R chk la(1) n0' by (simp add: capacity_to_real_block_count_def Let_def)
  next
    case False
    let ?c1 = "(capacity - ?m) div ?w"
    have sub: "unat (capacity - ?m) = unat capacity - A"
      using m64 assms(4) by (simp add: unat_sub word_le_nat_alt)
    have c1: "unat (?c1 * ?w) = (unat capacity - A) div ?R * ?R" using unat_div_mult [of "capacity - ?m" ?w] sub w by simp
    have "unat (?c1 * ?w) \<le> unat capacity - A" unfolding c1 by (rule div_times_less_eq_dividend)
    then have le: "unat (?c1 * ?w) + unat ?m \<le> 2 ^ 64" using m64(1) assms(5) by linarith
    have "unat (round_up (?c1 * ?w) ?m) = unat capacity div A * A"
      unfolding unat_round_up [OF m64(2) le] m64(1) c1 by (rule la(2) [OF False])
    moreover have "unat (x div ?w) * ?R = unat x" if "unat x = unat capacity div A * A" for x :: u64
      using that w k by (simp add: unat_div_distrib)
    moreover have "adjust_namespace_block_count ?c1 (ucast ?rb) 1 = Some (round_up (?c1 * ?w) ?m div ?w)"
      using align R by (simp add: adjust_namespace_block_count_def rb(4) Let_def)
    ultimately show ?thesis
      using R chk False align
      by (simp add: capacity_to_real_block_count_def Let_def adjust_namespace_block_count_if_allowed_def)
  qed
qed

theorem capacity_to_real_block_count_correct_witness:
  "\<exists>n. capacity_to_real_block_count 100000 520 = Some n \<and> unat n * unat (get_real_block_size 520) = 73728"
proof -
  have b: "get_real_block_size 520 = 576"
    by (simp add: get_real_block_size_def round_up_def CACHE_LINE_SIZE_def)
  have l: "lcm (unat (576 :: u32)) 4096 = 36864" by (simp add: lcm_nat_def gcd_non_0_nat)
  show ?thesis
    using capacity_to_real_block_count_correct [of 520 36864 100000] unfolding b l by simp
qed

text \<open>
  A capacity smaller than the alignment can wrap around: with a block size of 520, whose blocks occupy
  576 bytes, a capacity of 600 bytes is turned into more than \<open>2 ^ 54\<close> blocks.
\<close>

theorem small_capacity_wraps:
  "\<exists>n. capacity_to_real_block_count 600 520 = Some n \<and> n > 2 ^ 54"
  by (simp add: capacity_to_real_block_count_def get_real_block_size_def round_up_def CACHE_LINE_SIZE_def
      check_namespace_alignment_def get_alignment_size_def PAGE_SIZE_x86_def get_lowest_common_multiple_def
      get_greatest_common_divisor_def gcd_loop.simps Let_def adjust_namespace_block_count_if_allowed_def
      adjust_namespace_block_count_def)

end
