(* ===== verification/Device_Facts.thy ===== *)
theory Device_Facts
  imports Device_Capacities Utility_Facts
begin

text \<open>
  Facts about devices: the textual UID and its bytes are inverse, how the raw capacity is divided and
  restricted, and which firmware versions are accepted.
\<close>

unbundle bit_operations_syntax

section \<open>Capacities\<close>

lemma unat_MULTIPLES: "unat (MULTIPLES_TO_BYTES v) = 4096 * unat v"
proof -
  have "unat v < 2 ^ LENGTH(32)" by (rule unsigned_less)
  then have v: "4096 * unat v < 2 ^ 64" by simp
  have u: "unat (ucast v :: u64) = unat v" by (rule unat_ucast_u64)
  have "unat (4096 * (ucast v :: u64)) = unat (4096 :: u64) * unat (ucast v :: u64)"
    by (rule unat_times_bound) (use v u in simp)
  then show ?thesis using u by (simp add: MULTIPLES_TO_BYTES_def)
qed

text \<open>A partition report that fits the DIMM, and App Direct capacity that fits its partition.\<close>

definition partition_ok :: "pt_payload_get_dimm_partition_info \<Rightarrow> u64 \<Rightarrow> bool" where
  "partition_ok pi ad \<longleftrightarrow> unat (pi_volatile_capacity pi) + unat (pi_pmem_capacity pi) \<le> unat (pi_raw_capacity pi) \<and>
     unat ad \<le> 4096 * unat (pi_pmem_capacity pi)"

text \<open>Nothing of the DIMM can be used: no mode of the software, mixed SKUs, or no mode of the DIMM.\<close>

definition all_blocked :: "nvm_capabilities \<Rightarrow> device_capabilities \<Rightarrow> bool" where
  "all_blocked p dimm \<longleftrightarrow>
     (\<not> cap_memory_mode p \<and> \<not> cap_app_direct_mode p \<and> \<not> cap_storage_mode p) \<or> cap_mixed_sku p \<or>
     (\<not> memory_mode_capable dimm \<and> \<not> app_direct_mode_capable dimm \<and> \<not> storage_mode_capable dimm)"

lemma raw_capacities_sum:
  assumes "partition_ok pi ad" and c_def: "c = raw_capacities p pi ad mirrored"
  shows "unat (dc_memory_capacity c) + unat (dc_app_direct_capacity c) + unat (dc_unconfigured_capacity c)
      + unat (dc_reserved_capacity c) = 4096 * unat (pi_raw_capacity pi)"
    and "unat (dc_app_direct_capacity c + dc_unconfigured_capacity c) =
      unat (dc_app_direct_capacity c) + unat (dc_unconfigured_capacity c)"
    and "unat (dc_capacity c) = 4096 * unat (pi_raw_capacity pi)"
proof -
  let ?raw = "MULTIPLES_TO_BYTES (pi_raw_capacity pi)" and ?pm = "MULTIPLES_TO_BYTES (pi_pmem_capacity pi)"
  let ?mem = "if is_in_memory_mode p pi then MULTIPLES_TO_BYTES (pi_volatile_capacity pi) else 0"
  have mem: "unat ?mem \<le> 4096 * unat (pi_volatile_capacity pi)" by (simp add: unat_MULTIPLES)
  have le: "4096 * unat (pi_volatile_capacity pi) + 4096 * unat (pi_pmem_capacity pi) \<le> 4096 * unat (pi_raw_capacity pi)"
    using assms(1) unfolding partition_ok_def by linarith
  have ad: "unat ad \<le> unat ?pm" using assms(1) by (simp add: partition_ok_def unat_MULTIPLES)
  have s1: "unat (?pm - ad) = unat ?pm - unat ad" using ad by (simp add: unat_sub word_le_nat_alt)
  have s2: "unat (?raw - ?pm) = unat ?raw - unat ?pm"
    using le by (intro unat_sub) (simp add: word_le_nat_alt unat_MULTIPLES)
  have s3: "unat (?raw - ?pm - ?mem) = unat ?raw - unat ?pm - unat ?mem"
    using s2 le mem by (subst unat_sub) (simp_all add: word_le_nat_alt unat_MULTIPLES)
  have f: "dc_memory_capacity c = ?mem" "dc_app_direct_capacity c = ad" "dc_unconfigured_capacity c = ?pm - ad"
    "dc_reserved_capacity c = ?raw - ?pm - ?mem" "dc_capacity c = ?raw"
    by (simp_all add: c_def raw_capacities_def Let_def)
  show "unat (dc_memory_capacity c) + unat (dc_app_direct_capacity c) + unat (dc_unconfigured_capacity c)
      + unat (dc_reserved_capacity c) = 4096 * unat (pi_raw_capacity pi)"
    unfolding f s1 s3 using ad le mem by (simp add: unat_MULTIPLES)
  show "unat (dc_app_direct_capacity c + dc_unconfigured_capacity c) =
      unat (dc_app_direct_capacity c) + unat (dc_unconfigured_capacity c)"
    unfolding f s1 using ad by simp
  show "unat (dc_capacity c) = 4096 * unat (pi_raw_capacity pi)" unfolding f by (rule unat_MULTIPLES)
qed

lemma unat_plus_bound:
  fixes a b :: "'w::len word"
  assumes "unat a + unat b < 2 ^ LENGTH('w)"
  shows "unat (a + b) = unat a + unat b"
  using assms by (simp add: unat_word_ariths)

text \<open>The persistent capacity that is not mirrored\<close>

lemma raw_storage_capacity:
  assumes "partition_ok pi ad" and "2 * unat mirrored \<le> unat ad"
  shows "unat (dc_storage_capacity (raw_capacities p pi ad mirrored)) =
    4096 * unat (pi_pmem_capacity pi) - 2 * unat mirrored"
proof -
  have ad: "unat ad \<le> 4096 * unat (pi_pmem_capacity pi)" using assms(1) by (simp add: partition_ok_def)
  have "unat mirrored * unat (2 :: u64) < 2 ^ 64"
    using assms(2) unsigned_less [of ad, where 'a = nat] by simp
  then have m: "unat (mirrored * 2) = 2 * unat mirrored" by (subst unat_times_bound) simp_all
  have "unat (MULTIPLES_TO_BYTES (pi_pmem_capacity pi) - mirrored * 2) =
      4096 * unat (pi_pmem_capacity pi) - 2 * unat mirrored"
    using m ad assms(2) by (subst unat_sub) (simp_all add: word_le_nat_alt unat_MULTIPLES)
  then show ?thesis by (simp add: raw_capacities_def Let_def)
qed

text \<open>
  C7: The capacities of a DIMM add up when the report of the firmware is consistent: the volatile and
  the persistent partition together are at most the raw capacity, the App Direct capacity of the
  interleave sets fits the persistent partition, and twice its mirrored part fits the App Direct
  capacity. Then the capacity is the raw capacity, the storage capacity before the restriction is the
  persistent capacity without twice the mirrored part, and no amount wraps around. After the restriction
  memory, App Direct, unconfigured and inaccessible capacity together are the capacity without what was
  reserved before the restriction, whatever the SKU allows, and all of the capacity when the DIMM is
  blocked altogether; the capacity is unchanged, the reserved part is unchanged or cleared, and the
  storage capacity is kept, cleared or reduced by the unconfigured capacity, never below 0.
\<close>

theorem capacities_add_up:
  assumes "partition_ok pi ad" and "2 * unat mirrored \<le> unat ad"
    and "c = raw_capacities p pi ad mirrored" and "c' = restrict_capacities p dimm c"
  shows "unat (dc_capacity c) = 4096 * unat (pi_raw_capacity pi) \<and>
    unat (dc_reserved_capacity c) =
      4096 * unat (pi_raw_capacity pi) - 4096 * unat (pi_pmem_capacity pi) - unat (dc_memory_capacity c) \<and>
    unat (dc_storage_capacity c) = 4096 * unat (pi_pmem_capacity pi) - 2 * unat mirrored \<and>
    unat (dc_memory_capacity c') + unat (dc_app_direct_capacity c') + unat (dc_unconfigured_capacity c')
      + unat (dc_inaccessible_capacity c') =
    unat (dc_capacity c) - (if all_blocked p dimm then 0 else unat (dc_reserved_capacity c)) \<and>
    dc_capacity c' = dc_capacity c \<and> dc_reserved_capacity c' \<in> {dc_reserved_capacity c, 0} \<and>
    unat (dc_storage_capacity c') \<in>
      {unat (dc_storage_capacity c), 0, unat (dc_storage_capacity c) - unat (dc_unconfigured_capacity c)}"
proof -
  note r = raw_capacities_sum [OF assms(1,3)]
  have z: "dc_inaccessible_capacity c = 0" by (simp add: assms(3) raw_capacities_def Let_def zero_capacities_def)
  have a: "unat (dc_app_direct_capacity c) + unat (dc_unconfigured_capacity c) = 4096 * unat (pi_pmem_capacity pi)"
    using assms(1) by (simp add: assms(3) raw_capacities_def Let_def partition_ok_def unat_sub word_le_nat_alt
        unat_MULTIPLES)
  have add: "unat (dc_memory_capacity c') + unat (dc_app_direct_capacity c') + unat (dc_unconfigured_capacity c')
      + unat (dc_inaccessible_capacity c') =
    unat (dc_capacity c) - (if all_blocked p dimm then 0 else unat (dc_reserved_capacity c))"
    unfolding assms(4) restrict_capacities_def Let_def all_blocked_def [symmetric]
    using r z by (auto split: if_splits)
  have "dc_capacity c' = dc_capacity c \<and> dc_reserved_capacity c' \<in> {dc_reserved_capacity c, 0} \<and>
    unat (dc_storage_capacity c') \<in>
      {unat (dc_storage_capacity c), 0, unat (dc_storage_capacity c) - unat (dc_unconfigured_capacity c)}"
    unfolding assms(4) restrict_capacities_def Let_def by (simp add: unat_sub order.strict_implies_order)
  moreover have "unat (dc_reserved_capacity c) =
      4096 * unat (pi_raw_capacity pi) - 4096 * unat (pi_pmem_capacity pi) - unat (dc_memory_capacity c)"
    using r(1) a by linarith
  ultimately show ?thesis
    using add r(3) raw_storage_capacity [OF assms(1,2), of p] by (simp add: assms(3))
qed

theorem capacities_add_up_witness:
  "let pi = \<lparr>pi_volatile_capacity = 1, pi_start_volatile = 0, pi_pmem_capacity = 2, pi_start_pmem = 0, pi_raw_capacity = 4\<rparr>;
     p = \<lparr>cap_memory_mode = True, cap_app_direct_mode = True, cap_storage_mode = False, cap_mixed_sku = False,
       cap_current_volatile_mode = VOLATILE_MODE_MEMORY\<rparr>;
     dimm = convert_sku_to_device_capabilities 5;
     c' = restrict_capacities p dimm (raw_capacities p pi 4096 2048) in
   unat (dc_memory_capacity c') + unat (dc_app_direct_capacity c') + unat (dc_unconfigured_capacity c')
     + unat (dc_inaccessible_capacity c') = 3 * 4096 \<and> unat (dc_storage_capacity (raw_capacities p pi 4096 2048)) = 4096"
proof -
  let ?pi = "\<lparr>pi_volatile_capacity = 1, pi_start_volatile = 0, pi_pmem_capacity = 2, pi_start_pmem = 0, pi_raw_capacity = 4\<rparr>"
  let ?p = "\<lparr>cap_memory_mode = True, cap_app_direct_mode = True, cap_storage_mode = False, cap_mixed_sku = False,
       cap_current_volatile_mode = VOLATILE_MODE_MEMORY\<rparr>"
  have ok: "partition_ok ?pi 4096" by (simp add: partition_ok_def)
  have v: "\<not> all_blocked ?p (convert_sku_to_device_capabilities 5)"
    "unat (dc_capacity (raw_capacities ?p ?pi 4096 2048)) = 4 * 4096"
    "unat (dc_reserved_capacity (raw_capacities ?p ?pi 4096 2048)) = 4096"
    by (simp_all add: all_blocked_def convert_sku_to_device_capabilities_def raw_capacities_def Let_def
        MULTIPLES_TO_BYTES_def is_in_memory_mode_def)
  show ?thesis
    using capacities_add_up [OF ok _ refl refl, where p = ?p and mirrored = 2048 and dimm = "convert_sku_to_device_capabilities 5"] v
    by (simp add: Let_def)
qed

text \<open>
  The tests are a chain: when a DIMM has memory capacity that its SKU or the platform does not support,
  the persistent capacity is not examined any more, and App Direct capacity is reported as usable on a DIMM
  that is not capable of App Direct.
\<close>

theorem unsupported_app_direct_kept:
  assumes "\<not> all_blocked p dimm" and "dc_memory_capacity c > 0"
    and "\<not> cap_memory_mode p \<or> \<not> memory_mode_capable dimm"
  shows "dc_app_direct_capacity (restrict_capacities p dimm c) = dc_app_direct_capacity c \<and>
    dc_unconfigured_capacity (restrict_capacities p dimm c) = dc_unconfigured_capacity c"
  unfolding restrict_capacities_def Let_def all_blocked_def [symmetric] using assms by simp

theorem unsupported_app_direct_kept_witness:
  "let p = \<lparr>cap_memory_mode = True, cap_app_direct_mode = True, cap_storage_mode = True, cap_mixed_sku = False,
       cap_current_volatile_mode = VOLATILE_MODE_MEMORY\<rparr>;
     c = zero_capacities\<lparr>dc_capacity := 12288, dc_memory_capacity := 4096, dc_app_direct_capacity := 8192\<rparr>;
     dimm = convert_sku_to_device_capabilities 2 in
   \<not> app_direct_mode_capable dimm \<and> dc_app_direct_capacity (restrict_capacities p dimm c) = 8192"
  using unsupported_app_direct_kept [of "\<lparr>cap_memory_mode = True, cap_app_direct_mode = True, cap_storage_mode = True,
      cap_mixed_sku = False, cap_current_volatile_mode = VOLATILE_MODE_MEMORY\<rparr>"
      "convert_sku_to_device_capabilities 2"
      "zero_capacities\<lparr>dc_capacity := 12288, dc_memory_capacity := 4096, dc_app_direct_capacity := 8192\<rparr>"]
  by (simp add: Let_def all_blocked_def convert_sku_to_device_capabilities_def)

section \<open>UIDs\<close>

lemma hexdigit_class:
  assumes "n < 16"
  shows "isxdigit (hexdigit n)" "\<not> isspace (hexdigit n)" "hexdigit n \<noteq> 43" "hexdigit n \<noteq> 45"
    "hexdigit n \<noteq> 120" "hexdigit n \<noteq> 88" "xdigit (hexdigit n) = word_of_nat n"
proof -
  have "list_all (\<lambda>n. isxdigit (hexdigit n) \<and> \<not> isspace (hexdigit n) \<and> hexdigit n \<noteq> 43 \<and> hexdigit n \<noteq> 45 \<and>
      hexdigit n \<noteq> 120 \<and> hexdigit n \<noteq> 88 \<and> xdigit (hexdigit n) = word_of_nat n) [0..<16]"
    by code_simp
  then show "isxdigit (hexdigit n)" "\<not> isspace (hexdigit n)" "hexdigit n \<noteq> 43" "hexdigit n \<noteq> 45"
    "hexdigit n \<noteq> 120" "hexdigit n \<noteq> 88" "xdigit (hexdigit n) = word_of_nat n"
    using assms by (auto simp: list_all_iff)
qed

lemma scan_hhx2_hex2 [simp]: "scan_hhx2 (hex2 v @ r) = Some (v, r)"
proof -
  have n: "unat v div 16 < 16" "unat v mod 16 < 16" using unsigned_less [of v, where 'a = nat] by simp_all
  have e: "16 * (unat v div 16) + unat v mod 16 = unat v" by simp
  have "(word_of_nat (16 * (unat v div 16) + unat v mod 16) :: u8) = v" unfolding e by simp
  then have "16 * word_of_nat (unat v div 16) + word_of_nat (unat v mod 16) = v"
    by (simp only: of_nat_add of_nat_mult of_nat_numeral)
  then show ?thesis
    using hexdigit_class [OF n(1)] hexdigit_class [OF n(2)] by (simp add: scan_hhx2_def hex2_def)
qed

lemma scan_hhx2_hex2_end [simp]: "scan_hhx2 (hex2 v) = Some (v, [])"
  using scan_hhx2_hex2 [of v "[]"] by simp

text \<open>The text of the 9 bytes, and reading it back.\<close>

definition uid_text :: "bytes \<Rightarrow> bytes" where
  "uid_text b =
     (if b ! 2 = 0 \<and> b ! 3 = 0 \<and> b ! 4 = 0
      then hex2 (b ! 0) @ hex2 (b ! 1) @ 45 # hex2 (b ! 5) @ hex2 (b ! 6) @ hex2 (b ! 7) @ hex2 (b ! 8)
      else hex2 (b ! 0) @ hex2 (b ! 1) @ 45 # hex2 (b ! 2) @ 45 # hex2 (b ! 3) @ hex2 (b ! 4) @ 45 #
        hex2 (b ! 5) @ hex2 (b ! 6) @ hex2 (b ! 7) @ hex2 (b ! 8))"

text \<open>The two forms of the text\<close>

definition long_text :: "bytes \<Rightarrow> bytes" where
  "long_text b = hex2 (b ! 0) @ hex2 (b ! 1) @ 45 # hex2 (b ! 2) @ 45 # hex2 (b ! 3) @ hex2 (b ! 4) @ 45 #
     hex2 (b ! 5) @ hex2 (b ! 6) @ hex2 (b ! 7) @ hex2 (b ! 8)"

definition short_text :: "bytes \<Rightarrow> bytes" where
  "short_text b = hex2 (b ! 0) @ hex2 (b ! 1) @ 45 # hex2 (b ! 5) @ hex2 (b ! 6) @ hex2 (b ! 7) @ hex2 (b ! 8)"

lemma uid_text_forms:
  "uid_text b = (if b ! 2 = 0 \<and> b ! 3 = 0 \<and> b ! 4 = 0 then short_text b else long_text b)"
  by (simp add: uid_text_def short_text_def long_text_def)

lemma short_long: "short_text b \<noteq> long_text b'"
proof
  assume "short_text b = long_text b'"
  then have "length (short_text b) = length (long_text b')" by simp
  then show False by (simp add: short_text_def long_text_def)
qed

lemma uid_text_length: "length (uid_text b) \<le> 21"
  by (simp add: uid_text_def)

lemma hex2_nonzero: "0 \<notin> set (hex2 v)"
proof -
  have n: "unat v div 16 < 16" "unat v mod 16 < 16" using unsigned_less [of v, where 'a = nat] by simp_all
  show ?thesis using hexdigit_nonzero [OF n(1)] hexdigit_nonzero [OF n(2)] by (simp add: hex2_def)
qed

lemma uid_text_nonzero: "0 \<notin> set (uid_text b)"
  using hex2_nonzero by (simp add: uid_text_def)

lemma hex2_no_dash: "\<exists>c d. hex2 v = [c, d] \<and> c \<noteq> 45"
proof -
  have n: "unat v div 16 < 16" using unsigned_less [of v, where 'a = nat] by simp
  show ?thesis using hexdigit_class(4) [OF n] by (simp add: hex2_def)
qed

lemma nine_bytes: "length b = 9 \<Longrightarrow> \<exists>b0 b1 b2 b3 b4 b5 b6 b7 b8. b = [b0, b1, b2, b3, b4, b5, b6, b7, b8]"
  by (auto simp: numeral_eq_Suc length_Suc_conv)

lemma bytes_to_string_eq:
  assumes "length b = 9" and "37 \<le> length u"
  shows "\<exists>u'. device_uid_bytes_to_string (Some b) 9 (Some u) = Some (NVM_SUCCESS, Some u') \<and>
    cstr u' = uid_text b \<and> 0 \<in> set u' \<and> length u' = length u"
proof -
  obtain b0 b1 b2 b3 b4 b5 b6 b7 b8 where b: "b = [b0, b1, b2, b3, b4, b5, b6, b7, b8]"
    using nine_bytes [OF assms(1)] by blast
  define u0 where "u0 = replicate NVM_MAX_UID_LEN 0 @ drop NVM_MAX_UID_LEN u"
  have u0: "wr_bytes u 0 (replicate NVM_MAX_UID_LEN 0) = Some u0" "length u0 = length u" "NVM_MAX_UID_LEN \<le> length u0"
    using assms(2) by (simp_all add: wr_bytes_def u0_def NVM_MAX_UID_LEN_def)
  have "print_uid (if b2 = 0 \<and> b3 = 0 \<and> b4 = 0 then without_manufacturing else with_manufacturing) b = Some (uid_text b)"
    by (simp add: b uid_text_def with_manufacturing_def without_manufacturing_def rd_def)
  moreover have "uid_manufacturing_bytes_empty b = Some (b2 = 0 \<and> b3 = 0 \<and> b4 = 0)"
    by (simp add: b uid_manufacturing_bytes_empty_def rd_def)
  moreover have r: "readable (uid_text b @ [0]) (NVM_MAX_UID_LEN - 1)" by (simp add: readable_def)
  moreover obtain u' j where u': "s_strcpy (Some u0) (Some (uid_text b @ [0])) NVM_MAX_UID_LEN = Some (Some u', j)"
    using s_strcpy_eq [OF _ u0(3) r] by (simp add: NVM_MAX_UID_LEN_def)
  ultimately have e: "device_uid_bytes_to_string (Some b) 9 (Some u) = Some (NVM_SUCCESS, Some u')"
    using u0(1) by (simp add: device_uid_bytes_to_string_def DEVICE_UID_BYTES_def s_snprintf_def)
  have c: "cstr (uid_text b @ [0]) = uid_text b" using cstr_append_zero [OF uid_text_nonzero, of b "[]"] by simp
  note sc = s_strcpy_cstr [OF _ u0(3) r u']
  have "cstr u' = uid_text b" "length u' = length u"
    using sc(1,2) c uid_text_length [of b] u0(2) by (simp_all add: NVM_MAX_UID_LEN_def)
  moreover have "0 \<in> set u'"
  proof (rule ccontr)
    assume "0 \<notin> set u'"
    then have "length (cstr u') = length u'" by (simp add: cstr_id)
    then show False using calculation assms(2) uid_text_length [of b] by simp
  qed
  ultimately show ?thesis using e by blast
qed

lemma string_to_bytes_eq:
  assumes "length b = 9" and "length p = 9" and "0 \<in> set u"
    and "cstr u = long_text b \<or> cstr u = short_text b \<and> b ! 2 = 0 \<and> b ! 3 = 0 \<and> b ! 4 = 0"
  shows "device_uid_string_to_bytes (Some u) (Some p) 9 = Some (NVM_SUCCESS, Some b)"
proof -
  obtain b0 b1 b2 b3 b4 b5 b6 b7 b8 where b: "b = [b0, b1, b2, b3, b4, b5, b6, b7, b8]"
    using nine_bytes [OF assms(1)] by blast
  have z: "wr_bytes q 0 (replicate 9 0) = Some (replicate 9 0)" if "length q = 9" for q :: bytes
    using that by (simp add: wr_bytes_def)
  show ?thesis
  proof (cases "cstr u = long_text b")
    case True
    have t: "long_text b = hex2 b0 @ hex2 b1 @ 45 # hex2 b2 @ 45 # hex2 b3 @ hex2 b4 @ 45 #
        hex2 b5 @ hex2 b6 @ hex2 b7 @ hex2 b8 @ []" by (simp add: b long_text_def)
    have "scan_uid with_manufacturing (long_text b) (replicate 9 0) 0 = Some (9, b)"
      unfolding t by (simp add: b with_manufacturing_def wr_def numeral_eq_Suc)
    then show ?thesis using True assms z [OF assms(2)]
      by (simp add: device_uid_string_to_bytes_def convert_uid_with_manufacturing_data_to_bytes_def DEVICE_UID_BYTES_def)
  next
    case False
    then have c: "cstr u = short_text b" "b2 = 0 \<and> b3 = 0 \<and> b4 = 0" using assms(4) by (auto simp: b)
    have t: "short_text b = hex2 b0 @ hex2 b1 @ 45 # hex2 b5 @ hex2 b6 @ hex2 b7 @ hex2 b8 @ []"
      by (simp add: b short_text_def)
    obtain c d where cd: "hex2 b6 = [c, d]" "c \<noteq> 45" using hex2_no_dash by blast
    have "\<exists>q. scan_uid with_manufacturing (short_text b) (replicate 9 0) 0 = Some (3, q) \<and> length q = 9"
      unfolding t by (simp add: with_manufacturing_def wr_def numeral_eq_Suc cd)
    then obtain q where q: "scan_uid with_manufacturing (short_text b) (replicate 9 0) 0 = Some (3, q)" "length q = 9"
      by blast
    have "scan_uid without_manufacturing (short_text b) (replicate 9 0) 0 = Some (6, b)"
      unfolding t using c(2) by (simp add: b without_manufacturing_def wr_def numeral_eq_Suc)
    then show ?thesis using c(1) assms(1-3) z [OF assms(2)] z [OF q(2)] q
      by (simp add: device_uid_string_to_bytes_def convert_uid_with_manufacturing_data_to_bytes_def
          convert_uid_without_manufacturing_data_to_bytes_def DEVICE_UID_BYTES_def)
  qed
qed

definition sample_identity :: "bool \<Rightarrow> dimm_identity" where
  "sample_identity valid =
     \<lparr>disc_uid = replicate NVM_UID_LEN 0, disc_handle = 1, disc_manageability = 1, disc_rest = [],
      disc_vendor_id = 0x8089, disc_dimm_sku = 5, disc_manufacturer = [0, 0],
      disc_serial_number = [0xde, 0xad, 0xbe, 0xef], disc_subsystem_vendor_id = 0,
      disc_subsystem_device_id = 0, disc_manufacturing_info_valid = valid, disc_manufacturing_location = 3,
      disc_manufacturing_date = 0x1742, disc_part_number = [], disc_interface_format_codes = replicate 9 0,
      disc_security_capabilities = map_sku_security_capabilities 0,
      disc_device_capabilities = convert_sku_to_device_capabilities 5\<rparr>"

text \<open>The bytes that identify a device; without manufacturing data three of them are 0.\<close>

definition identity_bytes :: "'a dimm_identity_scheme \<Rightarrow> bytes" where
  "identity_bytes x =
     [ucast (drop_bit 8 (disc_vendor_id x)), ucast (disc_vendor_id x)] @
     (if disc_manufacturing_info_valid x
      then [disc_manufacturing_location x, ucast (drop_bit 8 (disc_manufacturing_date x)),
        ucast (disc_manufacturing_date x)]
      else [0, 0, 0]) @ disc_serial_number x"

lemma date_zero: "(ucast (drop_bit 8 d) :: u8) = 0 \<and> (ucast d :: u8) = 0 \<longleftrightarrow> d = 0" for d :: u16
proof
  assume z: "(ucast (drop_bit 8 d) :: u8) = 0 \<and> (ucast d :: u8) = 0"
  have "\<not> bit d k" for k
  proof
    assume b: "bit d k"
    then have k: "k < 16" using bit_imp_le_length by fastforce
    show False
    proof (cases "k < 8")
      case True
      then have "bit (ucast d :: u8) k" using b by (simp add: bit_simps)
      then show ?thesis using z by simp
    next
      case False
      then have "bit (ucast (drop_bit 8 d) :: u8) (k - 8)" using b k by (simp add: bit_simps)
      then show ?thesis using z by simp
    qed
  qed
  then show "d = 0" by (intro bit_word_eqI) simp
qed simp

text \<open>What is printed for a device: the form depends on whether its manufacturing data is valid.\<close>

definition identity_text :: "'a dimm_identity_scheme \<Rightarrow> bytes" where
  "identity_text x =
     (if disc_manufacturing_info_valid x then long_text (identity_bytes x) else short_text (identity_bytes x))"

lemma identity_text_length: "length (identity_text x) \<le> 21"
  by (simp add: identity_text_def long_text_def short_text_def)

lemma identity_text_nonzero: "0 \<notin> set (identity_text x)"
  using hex2_nonzero by (simp add: identity_text_def long_text_def short_text_def)

lemma calculate_device_uid_text:
  assumes "length g = 4" and "length (disc_serial_number x) = 4" and "37 \<le> length (disc_uid x)"
  shows "\<exists>u. calculate_device_uid g (Some x) = Some (NVM_SUCCESS, Some (x\<lparr>disc_uid := u\<rparr>)) \<and>
    cstr u = identity_text x \<and> 0 \<in> set u \<and> length u = length (disc_uid x)"
proof -
  obtain s0 s1 s2 s3 where s: "disc_serial_number x = [s0, s1, s2, s3]"
    using assms(2) by (auto simp: numeral_eq_Suc length_Suc_conv)
  have sw: "swap_bytes g (disc_serial_number x) NVM_SERIAL_LEN = Some [s3, s2, s1, s0]"
    using assms(1) by (simp add: swap_bytes_eq NVM_SERIAL_LEN_def s)
  let ?m = "identity_text x"
  have r: "readable (?m @ [0]) (NVM_MAX_UID_LEN - 1)" by (simp add: readable_def)
  have l: "NVM_MAX_UID_LEN \<le> length (disc_uid x)" using assms(3) by (simp add: NVM_MAX_UID_LEN_def)
  obtain u j where u: "s_strcpy (Some (disc_uid x)) (Some (?m @ [0])) NVM_MAX_UID_LEN = Some (Some u, j)"
    using s_strcpy_eq [OF _ l r] by (simp add: NVM_MAX_UID_LEN_def)
  have c: "cstr (?m @ [0]) = ?m" using cstr_append_zero [OF identity_text_nonzero [of x], of "[]"] by simp
  note sc = s_strcpy_cstr [OF _ l r u]
  have cu: "cstr u = ?m" "length u = length (disc_uid x)"
    using sc(1,2) c identity_text_length [of x] by (simp_all add: NVM_MAX_UID_LEN_def)
  have "0 \<in> set u"
  proof (rule ccontr)
    assume "0 \<notin> set u"
    then have "length (cstr u) = length u" by (simp add: cstr_id)
    then show False using cu assms(3) identity_text_length [of x] by simp
  qed
  moreover have "calculate_device_uid g (Some x) = Some (NVM_SUCCESS, Some (x\<lparr>disc_uid := u\<rparr>))"
  proof (cases "disc_manufacturing_info_valid x")
    case True
    then have m: "?m = hex4 (disc_vendor_id x) @ [45] @ hex2 (disc_manufacturing_location x) @ [45] @
        hex4 (disc_manufacturing_date x) @ [45] @ hex2 s0 @ hex2 s1 @ hex2 s2 @ hex2 s3"
      by (simp add: identity_text_def long_text_def identity_bytes_def s hex4_def)
    show ?thesis using True sw u unfolding m
      by (simp add: calculate_device_uid_def calculate_uid_with_valid_manufacturing_info_def s_snprintf_def rd_def)
  next
    case False
    then have m: "?m = hex4 (disc_vendor_id x) @ [45] @ hex2 s0 @ hex2 s1 @ hex2 s2 @ hex2 s3"
      by (simp add: identity_text_def short_text_def identity_bytes_def s hex4_def)
    show ?thesis using False sw u unfolding m
      by (simp add: calculate_device_uid_def calculate_uid_without_manufacturing_info_def s_snprintf_def rd_def)
  qed
  ultimately show ?thesis using cu by blast
qed

lemma identity_text_printed:
  assumes "length (disc_serial_number x) = 4"
  shows "uid_text (identity_bytes x) = identity_text x \<longleftrightarrow>
    \<not> (disc_manufacturing_info_valid x \<and> disc_manufacturing_location x = 0 \<and> disc_manufacturing_date x = 0)"
proof -
  have "identity_bytes x ! 2 = 0 \<and> identity_bytes x ! 3 = 0 \<and> identity_bytes x ! 4 = 0 \<longleftrightarrow>
      (disc_manufacturing_info_valid x \<longrightarrow> disc_manufacturing_location x = 0 \<and> disc_manufacturing_date x = 0)"
    using date_zero [of "disc_manufacturing_date x"] by (simp add: identity_bytes_def)
  then show ?thesis using short_long by (auto simp: uid_text_forms identity_text_def)
qed

text \<open>
  C35: The UID of a device and the bytes made of it: the text that is calculated from vendor, manufacturing
  data and serial number converts to the 9 bytes made of them (0 for missing manufacturing data), and these
  bytes are printed as the same text again, except for a device whose manufacturing data is marked valid
  and is all zero: its UID has the long form, and its bytes are printed in the short form.
\<close>

theorem device_uid_roundtrip:
  assumes "length g = 4" and "length (disc_serial_number x) = 4" and "37 \<le> length (disc_uid x)"
    and "length p = 9" and "37 \<le> length v"
  shows "\<exists>u v'. calculate_device_uid g (Some x) = Some (NVM_SUCCESS, Some (x\<lparr>disc_uid := u\<rparr>)) \<and>
    device_uid_string_to_bytes (Some u) (Some p) 9 = Some (NVM_SUCCESS, Some (identity_bytes x)) \<and>
    device_uid_bytes_to_string (Some (identity_bytes x)) 9 (Some v) = Some (NVM_SUCCESS, Some v') \<and>
    (cstr v' = cstr u \<longleftrightarrow> \<not> (disc_manufacturing_info_valid x \<and>
       disc_manufacturing_location x = 0 \<and> disc_manufacturing_date x = 0))"
proof -
  obtain u where u: "calculate_device_uid g (Some x) = Some (NVM_SUCCESS, Some (x\<lparr>disc_uid := u\<rparr>))"
    "cstr u = identity_text x" "0 \<in> set u"
    using calculate_device_uid_text [OF assms(1-3)] by blast
  have l: "length (identity_bytes x) = 9" using assms(2) by (simp add: identity_bytes_def)
  have "cstr u = long_text (identity_bytes x) \<or>
      cstr u = short_text (identity_bytes x) \<and>
      identity_bytes x ! 2 = 0 \<and> identity_bytes x ! 3 = 0 \<and> identity_bytes x ! 4 = 0"
    using u(2) by (auto simp: identity_text_def identity_bytes_def split: if_splits)
  from string_to_bytes_eq [OF l assms(4) u(3) this] u(1,2) bytes_to_string_eq [OF l assms(5)]
  show ?thesis using identity_text_printed [OF assms(2)] by auto
qed

text \<open>The exception: a device with valid manufacturing data that is all zero.\<close>

theorem zero_manufacturing_data_not_printed_back:
  "\<exists>u v'. calculate_device_uid [0, 0, 0, 0] (Some (sample_identity True\<lparr>disc_manufacturing_location := 0,
        disc_manufacturing_date := 0\<rparr>)) =
      Some (NVM_SUCCESS, Some (sample_identity True\<lparr>disc_manufacturing_location := 0,
        disc_manufacturing_date := 0, disc_uid := u\<rparr>)) \<and>
    device_uid_bytes_to_string (Some [0x80, 0x89, 0, 0, 0, 0xde, 0xad, 0xbe, 0xef]) 9
      (Some (replicate 37 1)) = Some (NVM_SUCCESS, Some v') \<and>
    length (cstr u) = 21 \<and> length (cstr v') = 13"
proof -
  let ?x = "sample_identity True\<lparr>disc_manufacturing_location := 0, disc_manufacturing_date := 0\<rparr>"
  have i: "identity_bytes ?x = [0x80, 0x89, 0, 0, 0, 0xde, 0xad, 0xbe, 0xef]"
    by (simp add: identity_bytes_def sample_identity_def)
  have "length (identity_text ?x) = 21" "length (uid_text (identity_bytes ?x)) = 13"
    unfolding identity_text_def uid_text_def i by (simp_all add: sample_identity_def long_text_def)
  then show ?thesis
    using calculate_device_uid_text [of "[0, 0, 0, 0]" ?x]
      bytes_to_string_eq [of "identity_bytes ?x" "replicate 37 1"]
    unfolding i by (auto simp: sample_identity_def NVM_UID_LEN_def)
qed

theorem device_uid_roundtrip_witness:
  "\<exists>u v'. calculate_device_uid [0, 0, 0, 0] (Some (sample_identity True)) =
      Some (NVM_SUCCESS, Some (sample_identity True\<lparr>disc_uid := u\<rparr>)) \<and>
    device_uid_string_to_bytes (Some u) (Some (replicate 9 1)) 9 =
      Some (NVM_SUCCESS, Some [0x80, 0x89, 3, 0x17, 0x42, 0xde, 0xad, 0xbe, 0xef]) \<and>
    device_uid_bytes_to_string (Some [0x80, 0x89, 3, 0x17, 0x42, 0xde, 0xad, 0xbe, 0xef]) 9
      (Some (replicate 37 1)) = Some (NVM_SUCCESS, Some v') \<and> cstr v' = cstr u"
proof -
  have i: "identity_bytes (sample_identity True) = [0x80, 0x89, 3, 0x17, 0x42, 0xde, 0xad, 0xbe, 0xef]"
    by (simp add: identity_bytes_def sample_identity_def)
  show ?thesis
    using device_uid_roundtrip [of "[0, 0, 0, 0]" "sample_identity True" "replicate 9 1" "replicate 37 1"] unfolding i
    by (simp add: sample_identity_def NVM_UID_LEN_def)
qed

end
