(* ===== verification/Firmware.thy ===== *)
theory Firmware
  imports Devices Revision
begin

text \<open>
  The firmware of a device (\<open>lib/update_firmware.c\<close>): its description, the examination of an image, and the update
  with its transfer as one large payload (the build sets \<open>__SET_LARGE_FW_UPDATE__\<close> to 1 and not \<open>__EARLY_HW__\<close>). The
  state \<open>'s\<close> is that of the devices and the caches; a file is given by the environment. The size of an image is an
  \<open>unsigned int\<close>, below 2^32.
\<close>

unbundle bit_operations_syntax

section \<open>Constants\<close>

abbreviation PT_UPDATE_FW :: u8 where "PT_UPDATE_FW \<equiv> 0x09"
abbreviation SUBOP_UPDATE_FW :: u8 where "SUBOP_UPDATE_FW \<equiv> 0x00"
abbreviation NVM_PATH_LEN :: nat where "NVM_PATH_LEN \<equiv> 4096"
abbreviation FW_IMAGE_HEADER_SIZE :: nat where "FW_IMAGE_HEADER_SIZE \<equiv> 128"
abbreviation FW_HEADER_MODULEVENDOR :: u32 where "FW_HEADER_MODULEVENDOR \<equiv> 0x8086"
abbreviation FW_HEADER_MODULETYPE :: u32 where "FW_HEADER_MODULETYPE \<equiv> 6"
abbreviation MB_SUCCESS :: u8 where "MB_SUCCESS \<equiv> 0"

text \<open>What reading a file gives: the code of \<open>copy_file_to_buffer\<close> and the bytes.\<close>

abbreviation COMMON_ERR_NOMEMORY :: int where "COMMON_ERR_NOMEMORY \<equiv> - 2"

record 's firmware_env =
  fu_permitted :: bool
  fu_driver :: bool
  fu_feature :: int
  fu_devices :: "'s \<Rightarrow> int \<times> dimm_device list option \<times> 's"
  fu_ioctl :: "'s passthrough"
  fu_file_exists :: "bytes \<Rightarrow> nat \<Rightarrow> bool"
  fu_copy_file :: "bytes \<Rightarrow> nat \<Rightarrow> int \<times> bytes"
  fu_sleep :: "'s \<Rightarrow> 's"
  fu_invalidate :: "'s \<Rightarrow> 's"
  fu_event :: "bytes \<Rightarrow> bytes \<Rightarrow> 's \<Rightarrow> 's"

definition firmware_device ::
    "'s firmware_env \<Rightarrow> bytes option \<Rightarrow> 's \<Rightarrow> (int \<times> dimm_device option \<times> 's) option" where
  "firmware_device E device_uid s =
     (case fu_devices E s of (n, devs, s1) \<Rightarrow> do {
        (rc, x) \<leftarrow> exists_and_manageable (n, devs) device_uid True;
        Some (rc, x, s1) })"

section \<open>The description\<close>

record device_fw_info =
  fi_active_fw_revision :: bytes
  fi_staged_fw_revision :: bytes
  fi_active_fw_type :: device_fw_type
  fi_active_fw_commit_id :: bytes
  fi_active_fw_build_configuration :: bytes
  fi_fw_update_status :: fw_update_status

text \<open>
  The image information: the active revision at 0, the type at 5, the staged revision at 16, the status of the
  last update at 22, the commit id at 32 and the build configuration at 72.
\<close>

definition read_fw_image_info :: "bytes \<Rightarrow> device_fw_info \<Rightarrow> device_fw_info option" where
  "read_fw_image_info p i = do {
     fw_rev \<leftarrow> rd_bytes p 0 5;
     active \<leftarrow> FW_VER_ARR_TO_STR fw_rev (fi_active_fw_revision i) NVM_VERSION_LEN;
     staged_rev \<leftarrow> rd_bytes p 16 5;
     staged \<leftarrow> FW_VER_ARR_TO_STR staged_rev (fi_staged_fw_revision i) NVM_VERSION_LEN;
     fw_type \<leftarrow> rd p 5;
     commit \<leftarrow> rd_bytes p 32 40;
     c1 \<leftarrow> wr_bytes (fi_active_fw_commit_id i) 0 commit;
     build \<leftarrow> rd_bytes p 72 16;
     b1 \<leftarrow> wr_bytes (fi_active_fw_build_configuration i) 0 build;
     c2 \<leftarrow> wr c1 40 0;
     b2 \<leftarrow> wr b1 16 0;
     status \<leftarrow> rd p 22;
     Some \<lparr>fi_active_fw_revision = active, fi_staged_fw_revision = staged,
       fi_active_fw_type = firmware_type_to_enum fw_type, fi_active_fw_commit_id = c2,
       fi_active_fw_build_configuration = b2, fi_fw_update_status = firmware_update_status_to_enum status\<rparr> }"

definition nvm_get_device_fw_image_info ::
    "'s firmware_env \<Rightarrow> bytes option \<Rightarrow> device_fw_info option \<Rightarrow> 's \<Rightarrow> (int \<times> device_fw_info option \<times> 's) option" where
  "nvm_get_device_fw_image_info E device_uid p_fw_info s =
     (if \<not> fu_permitted E then Some (NVM_ERR_INVALIDPERMISSIONS, p_fw_info, s)
      else if \<not> fu_driver E then Some (NVM_ERR_BADDRIVER, p_fw_info, s)
      else (case (device_uid, p_fw_info) of
        (Some _, Some i) \<Rightarrow> do {
          (rc, discovery, s1) \<leftarrow> firmware_device E device_uid s;
          if rc \<noteq> NVM_SUCCESS then Some (rc, Some i, s1)
          else do {
            x \<leftarrow> discovery;
            (case fw_get_fw_image_info (fu_ioctl E) (disc_handle x) s1 of (rc1, p, s2) \<Rightarrow>
               if rc1 \<noteq> NVM_SUCCESS then Some (rc1, Some i, s2)
               else do { i' \<leftarrow> read_fw_image_info p i; Some (rc1, Some i', s2) }) } }
      | _ \<Rightarrow> Some (NVM_ERR_INVALIDPARAMETER, p_fw_info, s)))"

section \<open>The transfer\<close>

definition read_file_bytes :: "int \<times> bytes \<Rightarrow> int \<times> bytes" where
  "read_file_bytes file =
     (if fst file = 0 then (NVM_SUCCESS, snd file)
      else (if fst file = COMMON_ERR_NOMEMORY then NVM_ERR_NOMEMORY else NVM_ERR_BADFILE, snd file))"

text \<open>One command carries the whole image.\<close>

definition send_new_firmware_to_device :: "'s passthrough \<Rightarrow> u32 \<Rightarrow> bytes \<Rightarrow> nat \<Rightarrow> 's \<Rightarrow> int \<times> 's" where
  "send_new_firmware_to_device pt handle p_fw_image fw_image_size s =
     run_set pt ((new_cmd handle PT_UPDATE_FW SUBOP_UPDATE_FW)
       \<lparr>cmd_large_input_payload_size := of_nat fw_image_size, cmd_large_input_payload := Some p_fw_image\<rparr>) s"

section \<open>The update\<close>

text \<open>The status of the long operation has the command at 0 and the code at 8.\<close>

definition is_fw_update_operation :: "bytes \<Rightarrow> bool option" where
  "is_fw_update_operation p_long_op_status = do {
     opcode \<leftarrow> rd p_long_op_status 0;
     subopcode \<leftarrow> rd p_long_op_status 1;
     Some (opcode = PT_UPDATE_FW \<and> subopcode = SUBOP_UPDATE_FW) }"

definition get_firmware_update_status :: "'s passthrough \<Rightarrow> u32 \<Rightarrow> 's \<Rightarrow> (int \<times> 's) option" where
  "get_firmware_update_status pt handle s =
     (case fw_get_status_for_long_op pt handle (zeros SMALL_PAYLOAD) s of (rc, p, s') \<Rightarrow> do {
        update \<leftarrow> (if rc = NVM_SUCCESS then is_fw_update_operation p else Some False);
        if update then do {
          status_code \<leftarrow> rd p 8;
          Some (if status_code = MB_SUCCESS then NVM_SUCCESS
                else fw_mb_err_to_nvm_lib_err (push_bit 16 (ucast status_code)), s') }
        else Some (NVM_SUCCESS, s') })"

text \<open>The device is asked once a second for as long as it is busy.\<close>

partial_function (option) wait_for_update :: "'s passthrough \<Rightarrow> ('s \<Rightarrow> 's) \<Rightarrow> u32 \<Rightarrow> 's \<Rightarrow> (int \<times> 's) option" where
  "wait_for_update pt sleep handle s =
     Option.bind (get_firmware_update_status pt handle s) (\<lambda>r.
       if fst r = NVM_ERR_DEVICEBUSY then wait_for_update pt sleep handle (sleep (snd r)) else Some r)"

definition update_firmware :: "'s firmware_env \<Rightarrow> u32 \<Rightarrow> bytes \<Rightarrow> nat \<Rightarrow> 's \<Rightarrow> (int \<times> 's) option" where
  "update_firmware E handle path path_len s =
     (case read_file_bytes (fu_copy_file E path path_len) of (rc, p_fw) \<Rightarrow>
        if rc \<noteq> NVM_SUCCESS then Some (rc, s)
        else (case send_new_firmware_to_device (fu_ioctl E) handle p_fw (length p_fw) s of (rc1, s1) \<Rightarrow>
          if rc1 \<noteq> NVM_SUCCESS then Some (rc1, s1)
          else do {
            (rc2, s2) \<leftarrow> wait_for_update (fu_ioctl E) (fu_sleep E) handle s1;
            Some (rc2, fu_invalidate E s2) }))"

section \<open>The examination\<close>

text \<open>The header of an image: the numbers of the version are the bytes as they are.\<close>

record image_header =
  ih_module_type :: u32
  ih_module_vendor :: u32
  ih_build :: nat
  ih_hotfix :: nat
  ih_minor :: nat
  ih_major :: nat
  ih_fw_api_version :: u16

definition read_image_header :: "bytes \<Rightarrow> image_header option" where
  "read_image_header b = do {
     mt \<leftarrow> rd32 b 0; mv \<leftarrow> rd32 b 16; build \<leftarrow> rd16 b 41; hotfix \<leftarrow> rd b 43; minor \<leftarrow> rd b 44; major \<leftarrow> rd b 45;
     api \<leftarrow> rd16 b 58;
     Some \<lparr>ih_module_type = mt, ih_module_vendor = mv, ih_build = unat build, ih_hotfix = unat hotfix,
       ih_minor = unat minor, ih_major = unat major, ih_fw_api_version = api\<rparr> }"

definition BSR_OPTIN_ENABLED :: "u64 \<Rightarrow> bool" where
  "BSR_OPTIN_ENABLED bits = bit bits 25"

text \<open>The comparison of the image with the firmware that is running.\<close>

definition compare_versions ::
    "'s passthrough \<Rightarrow> u32 \<Rightarrow> image_header \<Rightarrow> nat \<times> nat \<times> nat \<times> nat \<Rightarrow> nat \<times> nat \<Rightarrow> 's \<Rightarrow> (int \<times> 's) option" where
  "compare_versions pt handle h current current_api s =
     (case (current, current_api) of ((major, minor, hotfix, build), (api_major, api_minor)) \<Rightarrow>
        let img_major = get_fw_api_major_version (ih_fw_api_version h);
            img_minor = get_fw_api_minor_version (ih_fw_api_version h) in
        if ih_major h \<noteq> major then Some (NVM_ERR_BADFIRMWARE, s)
        else if ih_major h = major \<and> ih_minor h < minor then Some (NVM_ERR_BADFIRMWARE, s)
        else if is_fw_api_version_downgraded (of_nat api_major) (of_nat api_minor) img_major img_minor then
          Some (if \<not> is_fw_api_version_supported img_major img_minor then NVM_ERR_INCOMPATIBLEFW else NVM_ERR_REQUIRESFORCE, s)
        else if ih_hotfix h < hotfix then
          (case fw_get_bsr pt handle (zeros 8) s of (rc, p, s') \<Rightarrow>
             if rc = NVM_SUCCESS then do {
               bsr \<leftarrow> rd64 p 0;
               Some (if \<not> BSR_OPTIN_ENABLED bsr then NVM_ERR_BADFIRMWARE else NVM_ERR_REQUIRESFORCE, s') }
             else Some (rc, s'))
        else if ih_build h < build then Some (NVM_ERR_REQUIRESFORCE, s)
        else Some (NVM_SUCCESS, s))"

definition examine_image ::
    "'s passthrough \<Rightarrow> dimm_device \<Rightarrow> bytes \<Rightarrow> bytes \<Rightarrow> nat \<Rightarrow> 's \<Rightarrow> (int \<times> bytes \<times> 's) option" where
  "examine_image pt x p_buf image_version image_version_len s =
     (if length p_buf < FW_IMAGE_HEADER_SIZE then Some (NVM_ERR_BADFIRMWARE, image_version, s)
      else do {
        h \<leftarrow> read_image_header p_buf;
        if ih_module_type h \<noteq> FW_HEADER_MODULETYPE \<or> ih_module_vendor h \<noteq> FW_HEADER_MODULEVENDOR
        then Some (NVM_ERR_BADFIRMWARE, image_version, s)
        else do {
          v \<leftarrow> build_revision (Some image_version) image_version_len (ih_major h) (ih_minor h) (ih_hotfix h) (ih_build h);
          version \<leftarrow> v;
          (_, current) \<leftarrow> parse_main_revision (0, 0, 0, 0) (Some (disc_fw_revision x)) NVM_VERSION_LEN;
          (_, current_api) \<leftarrow> parse_fw_revision (0, 0) (Some (disc_fw_api_version x)) NVM_VERSION_LEN;
          (rc, s') \<leftarrow> compare_versions pt (disc_handle x) h current current_api s;
          Some (rc, version, s') } })"

text \<open>The tests of the path; the file is tested last.\<close>

definition path_guards :: "'s firmware_env \<Rightarrow> bytes option \<Rightarrow> nat \<Rightarrow> int" where
  "path_guards E path path_len =
     (case path of
        None \<Rightarrow> NVM_ERR_BADFILE
      | Some _ \<Rightarrow> if path_len \<ge> NVM_PATH_LEN then NVM_ERR_INVALIDPARAMETER
                  else if path_len = 0 then NVM_ERR_INVALIDPARAMETER
                  else NVM_SUCCESS)"

definition nvm_examine_device_fw ::
    "'s firmware_env \<Rightarrow> bytes option \<Rightarrow> bytes option \<Rightarrow> nat \<Rightarrow> bytes option \<Rightarrow> nat \<Rightarrow> 's \<Rightarrow>
     (int \<times> bytes option \<times> 's) option" where
  "nvm_examine_device_fw E device_uid path path_len image_version image_version_len s =
     (if \<not> fu_permitted E then Some (NVM_ERR_INVALIDPERMISSIONS, image_version, s)
      else if \<not> fu_driver E then Some (NVM_ERR_BADDRIVER, image_version, s)
      else if device_uid = None then Some (NVM_ERR_INVALIDPARAMETER, image_version, s)
      else if path_guards E path path_len \<noteq> NVM_SUCCESS then Some (path_guards E path path_len, image_version, s)
      else (case image_version of
        None \<Rightarrow> Some (NVM_ERR_INVALIDPARAMETER, None, s)
      | Some v \<Rightarrow>
          if image_version_len = 0 then Some (NVM_ERR_INVALIDPARAMETER, Some v, s)
          else if \<not> fu_file_exists E (the path) path_len then Some (NVM_ERR_BADFILE, Some v, s)
          else do {
            (rc, discovery, s1) \<leftarrow> firmware_device E device_uid s;
            if rc \<noteq> NVM_SUCCESS then Some (rc, Some v, s1)
            else do {
              x \<leftarrow> discovery;
              cleared \<leftarrow> wr_bytes v 0 (zeros image_version_len);
              (case read_file_bytes (fu_copy_file E (the path) path_len) of (rc1, p_buf) \<Rightarrow>
                 if rc1 \<noteq> NVM_SUCCESS then Some (rc1, Some cleared, s1)
                 else do {
                   (rc2, v2, s2) \<leftarrow> examine_image (fu_ioctl E) x p_buf cleared image_version_len s1;
                   Some (rc2, Some v2, s2) }) } }))"

text \<open>\<open>garbage\<close> is the memory of the version before the examination.\<close>

definition nvm_update_device_fw ::
    "'s firmware_env \<Rightarrow> bytes \<Rightarrow> bytes option \<Rightarrow> bytes option \<Rightarrow> nat \<Rightarrow> bool \<Rightarrow> 's \<Rightarrow> (int \<times> 's) option" where
  "nvm_update_device_fw E garbage device_uid path path_len force s =
     (if \<not> fu_permitted E then Some (NVM_ERR_INVALIDPERMISSIONS, s)
      else if \<not> fu_driver E then Some (NVM_ERR_BADDRIVER, s)
      else if fu_feature E \<noteq> NVM_SUCCESS then Some (fu_feature E, s)
      else (case device_uid of
        None \<Rightarrow> Some (NVM_ERR_INVALIDPARAMETER, s)
      | Some uid \<Rightarrow>
          if path_guards E path path_len \<noteq> NVM_SUCCESS then Some (path_guards E path path_len, s)
          else if \<not> fu_file_exists E (the path) path_len then Some (NVM_ERR_BADFILE, s)
          else do {
            (rc, discovery, s1) \<leftarrow> firmware_device E device_uid s;
            if rc \<noteq> NVM_SUCCESS then Some (rc, s1)
            else do {
              x \<leftarrow> discovery;
              (rc1, v, s2) \<leftarrow> nvm_examine_device_fw E device_uid path path_len (Some garbage) NVM_VERSION_LEN s1;
              if rc1 = NVM_SUCCESS \<or> (rc1 = NVM_ERR_REQUIRESFORCE \<and> force) then do {
                (rc2, s3) \<leftarrow> update_firmware E (disc_handle x) (the path) path_len s2;
                fw_version \<leftarrow> v;
                Some (rc2, if rc2 = NVM_SUCCESS then fu_event E uid (cstr fw_version) s3 else s3) }
              else Some (rc1, s2) } }))"

end
