(* ===== verification/Temperature.thy ===== *)
theory Temperature
  imports Device_Capacities Complex_Main
begin

text \<open>
  Temperatures (\<open>fw_convert_fw_celsius_to_float\<close> and its inverse in \<open>lib/device_fw.c\<close>, and the
  encoding of \<open>lib/nvm_management.h\<close>). A \<open>float\<close> is the rational number that it stands for, an
  operation whose exact result may need more than 24 significant bits is followed by \<open>REAL32\<close>,
  rounding to nearest, ties to even; the exponents stay far inside the range of the format. A cast to
  an integer type that cannot hold the truncated value is undefined, \<open>None\<close>.
\<close>

unbundle bit_operations_syntax

section \<open>Rounding\<close>

text \<open>The number of binary digits, and the exponent of the leading one.\<close>

fun digits2 :: "nat \<Rightarrow> nat" where
  "digits2 n = (if n = 0 then 0 else Suc (digits2 (n div 2)))"

declare digits2.simps [simp del]

definition ilog2 :: "rat \<Rightarrow> int" where
  "ilog2 x = (case quotient_of \<bar>x\<bar> of (a, b) \<Rightarrow>
     let e = int (digits2 (nat a)) - int (digits2 (nat b)) in
     if 2 powi e \<le> \<bar>x\<bar> then e else e - 1)"

definition round_even :: "rat \<Rightarrow> int" where
  "round_even y =
     (let f = \<lfloor>y\<rfloor>; d = y - of_int f in
      if d < 1 / 2 then f else if d > 1 / 2 then f + 1 else if even f then f else f + 1)"

definition round_sig :: "nat \<Rightarrow> rat \<Rightarrow> rat" where
  "round_sig p x =
     (if x = 0 then 0
      else let u = 2 powi (ilog2 x + 1 - int p) in of_int (round_even (x / u)) * u)"

definition REAL32 :: "rat \<Rightarrow> rat" where "REAL32 = round_sig 24"
definition REAL64 :: "rat \<Rightarrow> rat" where "REAL64 = round_sig 53"

text \<open>\<open>(int)\<close> of a floating-point value.\<close>

definition trunc :: "rat \<Rightarrow> int" where
  "trunc x = (if 0 \<le> x then \<lfloor>x\<rfloor> else \<lceil>x\<rceil>)"

section \<open>The words of the firmware\<close>

text \<open>The four fraction bits, from the highest; \<open>i\<close> counts the bits that are left.\<close>

fun celsius_fraction_loop :: "nat \<Rightarrow> nat \<Rightarrow> u8 \<Rightarrow> rat \<Rightarrow> rat" where
  "celsius_fraction_loop 0 divisor fraction celsius = celsius"
| "celsius_fraction_loop (Suc i) divisor fraction celsius =
     celsius_fraction_loop i (divisor * 2) fraction
       (celsius + of_nat (unat (drop_bit i fraction AND 1)) / of_nat divisor)"

definition fw_convert_fw_celsius_to_float :: "u16 \<Rightarrow> rat" where
  "fw_convert_fw_celsius_to_float fw_celsius =
     (let is_negative = drop_bit 15 fw_celsius;
          digit = drop_bit 4 fw_celsius AND 0x7FF;
          fraction = ucast (fw_celsius AND 0xF);
          celsius = celsius_fraction_loop 4 2 fraction (of_nat (unat digit)) in
      if is_negative \<noteq> 0 then celsius * - 1 else celsius)"

fun fw_fraction_loop :: "nat \<Rightarrow> rat \<Rightarrow> u16 \<Rightarrow> u16" where
  "fw_fraction_loop 0 left fraction = fraction"
| "fw_fraction_loop (Suc i) left fraction =
     (let left2 = left * 2 in
      if left2 \<ge> 1 then fw_fraction_loop i (left2 - of_int (trunc left2)) (fraction OR push_bit i 1)
      else fw_fraction_loop i left2 fraction)"

definition fw_convert_float_to_fw_celsius :: "rat \<Rightarrow> u16 option" where
  "fw_convert_float_to_fw_celsius celsius =
     (if - 32768 \<le> trunc celsius \<and> trunc celsius \<le> 32767 then
        (let digit = word_of_int (trunc celsius) :: u16;
             is_negative = (if celsius < 0 then 1 else 0 :: u16);
             left = REAL32 (celsius - of_nat (unat digit));
             fraction = fw_fraction_loop 4 (if celsius < 0 then left * - 1 else left) 0 in
         Some (push_bit 15 is_negative OR push_bit 4 digit OR fraction))
      else None)"

section \<open>The encoding of the interface\<close>

definition nvm_encode_temperature :: "rat \<Rightarrow> u32 option" where
  "nvm_encode_temperature value =
     (let t = trunc (REAL32 (value * 10000)) in
      if 0 \<le> t \<and> t < 2 ^ 32 then Some (word_of_int t) else None)"

definition nvm_decode_temperature :: "u32 \<Rightarrow> rat" where
  "nvm_decode_temperature value = REAL32 (REAL64 (of_nat (unat value) / 10000))"

section \<open>Exact values\<close>

lemma digits2_bounds: "n < 2 ^ digits2 n \<and> (0 < n \<longrightarrow> 1 \<le> digits2 n \<and> 2 ^ (digits2 n - 1) \<le> n)"
proof (induction n rule: digits2.induct)
  case (1 n)
  then show ?case
  proof (cases "n < 2")
    case True
    then show ?thesis by (cases n) (auto simp: digits2.simps [of n] digits2.simps [of 0] digits2.simps [of "Suc 0"])
  next
    case False
    then have "n div 2 < 2 ^ digits2 (n div 2)" "1 \<le> digits2 (n div 2)"
        "2 ^ (digits2 (n div 2) - 1) \<le> n div 2"
      using 1 by auto
    moreover have "digits2 n = Suc (digits2 (n div 2))" using False by (simp add: digits2.simps [of n])
    moreover from \<open>1 \<le> digits2 (n div 2)\<close> obtain m where "digits2 (n div 2) = Suc m"
      by (cases "digits2 (n div 2)") auto
    ultimately show ?thesis by auto
  qed
qed

lemma ilog2_le: "x \<noteq> 0 \<Longrightarrow> 2 powi (ilog2 x) \<le> \<bar>x\<bar>"
proof -
  assume x: "x \<noteq> 0"
  obtain a b where q: "quotient_of \<bar>x\<bar> = (a, b)" by fastforce
  have b: "0 < b" using quotient_of_denom_pos [OF q] .
  have ab: "\<bar>x\<bar> = of_int a / of_int b" using quotient_of_div [OF q] .
  have a: "0 < a" using x b ab by (metis abs_ge_zero abs_of_nonneg divide_eq_0_iff of_int_0_less_iff
        order_le_less zero_less_abs_iff zero_less_divide_iff of_int_pos less_le_not_le)
  define la lb where "la = digits2 (nat a)" and "lb = digits2 (nat b)"
  have la: "1 \<le> la" and "2 ^ (la - 1) \<le> nat a" and "nat b < 2 ^ lb"
    using digits2_bounds [of "nat a"] digits2_bounds [of "nat b"] a by (auto simp: la_def lb_def)
  then have "(2::int) ^ (la - 1) \<le> a" and "b < 2 ^ lb" using a b
    by (metis int_nat_eq less_le of_nat_le_iff of_nat_power of_nat_numeral)
      (metis \<open>nat b < 2 ^ lb\<close> b int_nat_eq less_le of_nat_less_iff of_nat_power of_nat_numeral)
  then have l: "(2::rat) ^ (la - 1) \<le> of_int a" and u: "of_int b < (2::rat) ^ lb"
    by (metis of_int_le_iff of_int_numeral of_int_power) (metis of_int_less_iff of_int_numeral of_int_power \<open>b < 2 ^ lb\<close>)
  have "2 powi (int la - int lb - 1) = (2::rat) ^ (la - 1) / 2 ^ lb"
    using la by (simp add: power_int_diff of_nat_diff power_diff)
  also have "\<dots> \<le> of_int a / of_int b" using l u a b by (intro frac_le) auto
  finally have "2 powi (int la - int lb - 1) \<le> \<bar>x\<bar>" using ab by simp
  then show ?thesis using q by (simp add: ilog2_def Let_def la_def lb_def)
qed

lemma round_even_int [simp]: "round_even (of_int k) = k"
  by (simp add: round_even_def)

lemma round_sig_exact:
  assumes "\<bar>k\<bar> < 2 ^ p"
  shows "round_sig p (of_int k / 2 ^ j) = of_int k / 2 ^ j"
proof (cases "k = 0")
  case True
  then show ?thesis by (simp add: round_sig_def)
next
  case False
  let ?x = "of_int k / 2 ^ j :: rat"
  have x: "?x \<noteq> 0" using False by simp
  have "2 powi (ilog2 ?x) \<le> \<bar>?x\<bar>" by (rule ilog2_le [OF x])
  also have "\<dots> = of_int \<bar>k\<bar> / 2 ^ j" by simp
  also have "\<dots> < 2 ^ p / 2 ^ j"
  proof (rule divide_strict_right_mono)
    show "of_int \<bar>k\<bar> < (2::rat) ^ p" using assms by (metis of_int_less_iff of_int_numeral of_int_power)
  qed simp
  also have "\<dots> = 2 powi (int p - int j)" by (simp add: power_int_diff)
  finally have "ilog2 ?x < int p - int j"
    using power_int_increasing [of "int p - int j" "ilog2 ?x" "2 :: rat"] by (auto simp: not_le [symmetric])
  then obtain n where n: "int p - int j - ilog2 ?x = int (Suc n)"
    by (metis zero_less_imp_eq_int diff_gt_0_iff_gt Suc_pred)
  let ?u = "2 powi (ilog2 ?x + 1 - int p) :: rat"
  have "?u = 2 powi (- int j - int n)" using n by (intro arg_cong [of _ _ "\<lambda>e. 2 powi e"]) simp
  also have "\<dots> = 1 / 2 ^ j / 2 ^ n" by (simp add: power_int_diff power_int_minus field_simps)
  finally have u: "?u = 1 / 2 ^ j / 2 ^ n" .
  have "?x / ?u = of_int (k * 2 ^ n)" by (simp add: u)
  then have "round_even (?x / ?u) = k * 2 ^ n" by (metis round_even_int)
  then show ?thesis using x by (simp add: round_sig_def u Let_def)
qed

lemma REAL32_exact: "\<bar>k\<bar> < 2 ^ 24 \<Longrightarrow> REAL32 (of_int k / 2 ^ j) = of_int k / 2 ^ j"
  and REAL64_exact: "\<bar>k\<bar> < 2 ^ 53 \<Longrightarrow> REAL64 (of_int k / 2 ^ j) = of_int k / 2 ^ j"
  unfolding REAL32_def REAL64_def by (rule round_sig_exact, assumption)+


lemma trunc_of_int [simp]: "trunc (of_int k) = k"
  by (simp add: trunc_def)

section \<open>Sixteenths of a degree\<close>

lemma less_16_cases: "n < (16::nat) \<Longrightarrow> n \<in> {0, 1, 2, 3, 4, 5, 6, 7, 8, 9, 10, 11, 12, 13, 14, 15}"
  by (simp only: insert_iff empty_iff) arith

lemma celsius_fraction_loop_numeral [simp]:
  "celsius_fraction_loop (numeral k) d f c =
     celsius_fraction_loop (pred_numeral k) (d * 2) f
       (c + of_nat (unat (drop_bit (pred_numeral k) f AND 1)) / of_nat d)"
  by (simp add: numeral_eq_Suc)

lemma fw_fraction_loop_numeral [simp]:
  "fw_fraction_loop (numeral k) left f =
     (if left * 2 \<ge> 1
      then fw_fraction_loop (pred_numeral k) (left * 2 - of_int (trunc (left * 2))) (f OR push_bit (pred_numeral k) 1)
      else fw_fraction_loop (pred_numeral k) (left * 2) f)"
  by (simp add: numeral_eq_Suc Let_def)

lemma trunc_1: "1 \<le> x \<Longrightarrow> x < 2 \<Longrightarrow> trunc x = 1"
  by (simp add: trunc_def floor_eq_iff)

lemma celsius_fraction:
  "m < 16 \<Longrightarrow> celsius_fraction_loop 4 2 (word_of_nat m) c = c + of_nat m / 16"
  by (drule less_16_cases) (elim insertE emptyE; simp)

lemma fw_fraction: "m < 16 \<Longrightarrow> fw_fraction_loop 4 (of_nat m / 16) 0 = word_of_nat m"
  by (drule less_16_cases) (elim insertE emptyE; simp add: trunc_1)

lemma fw_celsius_digit: "unat (drop_bit 4 w AND 0x7FF) = unat w div 16 mod 2048" for w :: u16
proof -
  have m: "0x7FF = (mask 11 :: u16)" by (simp add: mask_eq_exp_minus_1)
  show ?thesis unfolding m by (simp add: take_bit_eq_mask [symmetric] take_bit_eq_mod drop_bit_eq_div unat_div unat_mod)
qed

lemma fw_celsius_sixteenths: "(ucast (w AND 0xF) :: u8) = word_of_nat (unat w mod 16)" for w :: u16
proof -
  have m: "0xF = (mask 4 :: u16)" by (simp add: mask_eq_exp_minus_1)
  have "unat (w AND 0xF) = unat w mod 16"
    unfolding m by (simp add: take_bit_eq_mask [symmetric] take_bit_eq_mod unat_mod)
  then show ?thesis by (metis of_nat_unat)
qed

lemma fw_celsius_sign: "drop_bit 15 w \<noteq> 0 \<longleftrightarrow> 2 ^ 15 \<le> unat w" for w :: u16
proof -
  have u: "unat (drop_bit 15 w) = unat w div 2 ^ 15" by (simp add: drop_bit_eq_div unat_div)
  have "drop_bit 15 w \<noteq> 0 \<longleftrightarrow> unat w div 2 ^ 15 \<noteq> 0"
    using unat_eq_0 [of "drop_bit 15 w"] by (simp only: u)
  also have "\<dots> \<longleftrightarrow> 2 ^ 15 \<le> unat w" by (simp add: div_eq_0_iff not_less)
  finally show ?thesis .
qed

lemma fw_celsius_value:
  "fw_convert_fw_celsius_to_float w =
     (if 2 ^ 15 \<le> unat w then - 1 else 1) * of_nat (unat w mod 2 ^ 15) / 16"
proof -
  have "unat w mod 2 ^ 15 = unat w div 16 mod 2048 * 16 + unat w mod 16"
    using mod_mult2_eq [of "unat w" 16 2048] by simp
  then have "of_nat (unat w div 16 mod 2048) + of_nat (unat w mod 16) / 16 = (of_nat (unat w mod 2 ^ 15) / 16 :: rat)"
    by (simp add: field_simps)
  moreover have "unat w mod 16 < 16" by simp
  then have "fw_convert_fw_celsius_to_float w =
      (let c = of_nat (unat w div 16 mod 2048) + of_nat (unat w mod 16) / 16 in
       if 2 ^ 15 \<le> unat w then c * - 1 else c)"
    by (simp only: fw_convert_fw_celsius_to_float_def Let_def fw_celsius_digit fw_celsius_sixteenths
        fw_celsius_sign celsius_fraction)
  ultimately show ?thesis by (simp only: Let_def) simp
qed

lemma float_to_fw_celsius_value:
  assumes "n < 2 ^ 15"
  shows "fw_convert_float_to_fw_celsius (of_nat n / 16) = Some (word_of_nat n)"
proof -
  have t: "trunc (of_nat n / 16) = int (n div 16)"
    using floor_divide_of_nat_eq [of n 16, where ?'a = rat] by (simp add: trunc_def)
  have d: "unat (word_of_nat (n div 16) :: u16) = n div 16" using assms by (simp add: unsigned_of_nat take_bit_eq_mod)
  have "of_nat n = (of_nat (n div 16) * 16 + of_nat (n mod 16) :: rat)"
    by (metis div_mult_mod_eq of_nat_add of_nat_mult of_nat_numeral)
  then have diff: "of_nat n / 16 - of_nat (n div 16) = (of_int (int (n mod 16)) / 2 ^ 4 :: rat)"
    by (simp add: field_simps)
  have left: "REAL32 (of_nat n / 16 - of_nat (n div 16)) = of_nat (n mod 16) / 16"
    unfolding diff using REAL32_exact [of "int (n mod 16)" 4] by (simp add: order_less_trans [of _ 16])
  have w: "push_bit 4 (word_of_nat (n div 16)) OR word_of_nat (n mod 16) = (word_of_nat n :: u16)"
  proof -
    have "(word_of_nat (n div 16) :: u16) = word_of_nat (drop_bit 4 n)" "n mod 16 = take_bit 4 n"
      by (simp_all add: drop_bit_eq_div take_bit_eq_mod)
    then show ?thesis by (auto intro!: bit_word_eqI simp: bit_simps)
  qed
  have m: "n mod 16 < 16" and r: "- 32768 \<le> int (n div 16) \<and> int (n div 16) \<le> 32767" using assms by auto
  have p: "\<not> of_nat n / 16 < (0 :: rat)" by (simp add: not_less)
  have "fw_convert_float_to_fw_celsius (of_nat n / 16) =
      Some (push_bit 15 0 OR push_bit 4 (word_of_nat (n div 16)) OR word_of_nat (n mod 16))"
    unfolding fw_convert_float_to_fw_celsius_def Let_def t of_int_of_nat_eq d left if_not_P [OF p]
      fw_fraction [OF m] if_P [OF r] ..
  then show ?thesis by (simp add: w)
qed


section \<open>Round trips\<close>

text \<open>
  A temperature word of the firmware that is not negative survives the conversion to a \<open>float\<close> and
  back; and up to 1677 degrees it also survives the encoding in ten-thousandths of a degree of the
  interface, which is how a threshold travels from the firmware to a caller and back.
\<close>

lemma temperature_roundtrip:
  assumes "w < 0x8000"
  shows "fw_convert_float_to_fw_celsius (fw_convert_fw_celsius_to_float w) = Some w \<and>
    (unat w * 625 < 2 ^ 24 \<longrightarrow>
         (\<exists>v. nvm_encode_temperature (fw_convert_fw_celsius_to_float w) = Some v \<and>
             unat v = unat w * 625 \<and> nvm_decode_temperature v = fw_convert_fw_celsius_to_float w))"
proof -
  define n where "n = unat w"
  have n: "n < 2 ^ 15" and w: "w = word_of_nat n" using assms by (simp_all add: word_less_nat_alt n_def)
  have f: "fw_convert_fw_celsius_to_float w = of_nat n / 16"
    unfolding fw_celsius_value n_def [symmetric] using n by simp
  have "\<exists>v. nvm_encode_temperature (of_nat n / 16) = Some v \<and>
      unat v = n * 625 \<and> nvm_decode_temperature v = of_nat n / 16" if b: "n * 625 < 2 ^ 24"
  proof -
    let ?v = "word_of_nat (n * 625) :: u32"
    have "of_nat n / 16 * 10000 = (of_int (int (n * 625)) / 2 ^ 0 :: rat)" by simp
    then have r: "REAL32 (of_nat n / 16 * 10000) = of_int (int (n * 625))"
      using REAL32_exact [of "int (n * 625)" 0] b by (simp add: mult.commute)
    have e: "nvm_encode_temperature (of_nat n / 16) = Some ?v"
      unfolding nvm_encode_temperature_def r trunc_of_int Let_def using b by simp
    have v: "unat ?v = n * 625" unfolding unsigned_of_nat using b by (simp add: take_bit_eq_mod)
    have q: "of_nat (n * 625) / 10000 = (of_int (int n) / 2 ^ 4 :: rat)" by simp
    have k64: "\<bar>int n\<bar> < 2 ^ 53" and k32: "\<bar>int n\<bar> < 2 ^ 24" using n by simp_all
    have d: "nvm_decode_temperature ?v = of_nat n / 16"
      unfolding nvm_decode_temperature_def v q REAL64_exact [OF k64] REAL32_exact [OF k32] by simp
    show ?thesis using e v d by blast
  qed
  then show ?thesis unfolding f n_def [symmetric] using float_to_fw_celsius_value [OF n] w by simp
qed

theorem temperature_roundtrip_witness:
  "fw_convert_float_to_fw_celsius (fw_convert_fw_celsius_to_float 0x540) = Some 0x540 \<and>
   (\<exists>v. nvm_encode_temperature (fw_convert_fw_celsius_to_float 0x540) = Some v \<and>
      unat v = 840000 \<and> nvm_decode_temperature v = fw_convert_fw_celsius_to_float 0x540)"
  using temperature_roundtrip [of "0x540"] by simp

text \<open>
  Below zero the inverse is wrong: the word for -5 degrees comes back as the word for -2043.5
  degrees, because the truncated value is kept in an unsigned variable; and no negative temperature
  has a defined encoding in the interface.
\<close>

theorem negative_temperature_broken:
  "fw_convert_fw_celsius_to_float 0x8050 = - 5 \<and>
   fw_convert_float_to_fw_celsius (- 5) = Some 0xFFB8 \<and>
   fw_convert_fw_celsius_to_float 0xFFB8 = - 2043.5 \<and>
   nvm_encode_temperature (- 5) = None"
proof (intro conjI)
  show "fw_convert_fw_celsius_to_float 0x8050 = - 5" and "fw_convert_fw_celsius_to_float 0xFFB8 = - 2043.5"
    by (simp_all add: fw_celsius_value)
  have "trunc (- 5) = - 5" and "trunc 131072 = 131072"
    using trunc_of_int [of "- 5"] trunc_of_int [of 131072] by simp_all
  moreover have "REAL32 (- 65536) = - 65536" using REAL32_exact [of "- 65536" 0] by simp
  ultimately show "fw_convert_float_to_fw_celsius (- 5) = Some 0xFFB8"
    by (simp add: fw_convert_float_to_fw_celsius_def Let_def)
  have "REAL32 (- 50000) = - 50000" using REAL32_exact [of "- 50000" 0] by simp
  then show "nvm_encode_temperature (- 5) = None"
    using trunc_of_int [of "- 50000"] by (simp add: nvm_encode_temperature_def Let_def)
qed

end
