(* ===== verification/Security.thy ===== *)
theory Security
  imports Devices S_Str
begin

text \<open>
  The security of a device (\<open>lib/security.c\<close>): removing its passphrase, erasing it, and the checks
  of its lock state that come before. The state is whatever the calls share: the firmware, the
  library context and the store of events. \<open>se_feature\<close> is the answer of
  \<open>IS_NVM_FEATURE_SUPPORTED\<close>, \<open>se_devices\<close> what \<open>lookup_dev_uid\<close> gets from \<open>get_devices\<close>.
\<close>

unbundle bit_operations_syntax

abbreviation SUBOP_DISABLE_PASS :: u8 where "SUBOP_DISABLE_PASS \<equiv> 0xF2"
abbreviation SUBOP_UNLOCK_UNIT :: u8 where "SUBOP_UNLOCK_UNIT \<equiv> 0xF3"
abbreviation SUBOP_SEC_ERASE_UNIT :: u8 where "SUBOP_SEC_ERASE_UNIT \<equiv> 0xF5"
abbreviation SUBOP_SEC_FREEZE_LOCK :: u8 where "SUBOP_SEC_FREEZE_LOCK \<equiv> 0xF6"

definition NVM_PASSPHRASE_LEN :: nat where "NVM_PASSPHRASE_LEN = 32"

text \<open>The events: their code within \<open>EVENT_TYPE_MGMT\<close>, the device and the arguments.\<close>

datatype event_code_mgmt =
    EVENT_CODE_MGMT_SENSOR_SETTINGS_CHANGE | EVENT_CODE_MGMT_SECURITY_PASSWORD_REMOVED
  | EVENT_CODE_MGMT_SECURITY_SECURE_ERASE | EVENT_CODE_MGMT_SECURITY_FROZEN

record mgmt_event =
  ev_code :: event_code_mgmt
  ev_uid :: bytes
  ev_args :: "bytes list"

record 's security_env =
  se_permitted :: bool
  se_driver :: bool
  se_feature :: int
  se_devices :: "'s \<Rightarrow> int \<times> dimm_device list option \<times> 's"
  se_ioctl :: "'s passthrough"
  se_reenumerate :: "u32 \<Rightarrow> 's \<Rightarrow> int \<times> 's"
  se_invalidate :: "'s \<Rightarrow> 's"
  se_event :: "mgmt_event \<Rightarrow> 's \<Rightarrow> 's"

section \<open>Helpers\<close>

definition freeze_security :: "'s security_env \<Rightarrow> dimm_device \<Rightarrow> 's \<Rightarrow> int \<times> 's" where
  "freeze_security E p_discovery s =
     (case run_set (se_ioctl E) (new_cmd (disc_handle p_discovery) PT_SET_SEC_INFO SUBOP_SEC_FREEZE_LOCK) s of (rc, s1) \<Rightarrow>
        if rc = NVM_SUCCESS
        then (rc, se_event E \<lparr>ev_code = EVENT_CODE_MGMT_SECURITY_FROZEN, ev_uid = disc_uid p_discovery,
                ev_args = [disc_uid p_discovery]\<rparr> s1)
        else (rc, s1))"

definition check_lock_state :: "dimm_device \<Rightarrow> int" where
  "check_lock_state p_discovery =
     (case disc_lock_state p_discovery of
        LOCK_STATE_FROZEN \<Rightarrow> NVM_ERR_SECURITYFROZEN
      | LOCK_STATE_PASSPHRASE_LIMIT \<Rightarrow> NVM_ERR_LIMITPASSPHRASE
      | LOCK_STATE_UNKNOWN \<Rightarrow> NVM_ERR_LIMITPASSPHRASE
      | LOCK_STATE_NOT_SUPPORTED \<Rightarrow> NVM_ERR_NOTSUPPORTED
      | _ \<Rightarrow> NVM_SUCCESS)"

text \<open>The payload of a command with a passphrase, and the command: 32 bytes of passphrase, 96 reserved.\<close>

definition passphrase_payload :: "bytes option \<Rightarrow> nat \<Rightarrow> bytes option" where
  "passphrase_payload passphrase passphrase_len = do {
     p \<leftarrow> s_strncpy (Some (zeros NVM_PASSPHRASE_LEN)) NVM_PASSPHRASE_LEN passphrase passphrase_len;
     passphrase_current \<leftarrow> p;
     Some (passphrase_current @ zeros 96) }"

definition passphrase_command ::
    "'s security_env \<Rightarrow> dimm_device \<Rightarrow> u8 \<Rightarrow> bytes option \<Rightarrow> nat \<Rightarrow> 's \<Rightarrow> (int \<times> 's) option" where
  "passphrase_command E p_discovery sub_opcode passphrase passphrase_len s = do {
     input_payload \<leftarrow> passphrase_payload passphrase passphrase_len;
     Some (run_set (se_ioctl E)
       (with_input input_payload (new_cmd (disc_handle p_discovery) PT_SET_SEC_INFO sub_opcode)) s) }"

definition security_change_prepare ::
    "'s security_env \<Rightarrow> dimm_device \<Rightarrow> bytes option \<Rightarrow> nat \<Rightarrow> 's \<Rightarrow> (int \<times> 's) option" where
  "security_change_prepare E p_discovery passphrase passphrase_len s =
     (let rc = check_lock_state p_discovery in
      if rc \<noteq> NVM_SUCCESS then Some (rc, s)
      else if passphrase_len > 0 \<and> disc_lock_state p_discovery = LOCK_STATE_DISABLED
      then Some (NVM_ERR_SECURITYDISABLED, s)
      else if disc_lock_state p_discovery = LOCK_STATE_LOCKED then do {
        (rc', s1) \<leftarrow> passphrase_command E p_discovery SUBOP_UNLOCK_UNIT passphrase passphrase_len s;
        if rc' = NVM_SUCCESS then
          (case se_reenumerate E (disc_handle p_discovery) s1 of (tmprc, s2) \<Rightarrow>
             Some (if tmprc \<noteq> NVM_ERR_NOTSUPPORTED \<and> tmprc \<noteq> NVM_SUCCESS
                   then NVM_ERR_NAMESPACEENABLEFAILED else rc', s2))
        else Some (rc', s1) }
      else Some (rc, s))"

definition check_passphrase :: "bytes option \<Rightarrow> nat \<Rightarrow> int" where
  "check_passphrase passphrase passphrase_len =
     (if passphrase = None then NVM_ERR_BADPASSPHRASE
      else if passphrase_len > NVM_PASSPHRASE_LEN then NVM_ERR_BADPASSPHRASE
      else if passphrase_len = 0 then NVM_ERR_BADPASSPHRASE
      else NVM_SUCCESS)"

text \<open>The lookups, each with its own reading of the devices.\<close>

definition exists_manageable_device ::
    "'s security_env \<Rightarrow> bytes option \<Rightarrow> 's \<Rightarrow> (int \<times> dimm_device option \<times> 's) option" where
  "exists_manageable_device E device_uid s =
     (case se_devices E s of (n, devs, s1) \<Rightarrow> do {
        (rc, x) \<leftarrow> exists_and_manageable (n, devs) device_uid True;
        Some (rc, x, s1) })"

definition get_discovery ::
    "'s security_env \<Rightarrow> bytes option \<Rightarrow> 's \<Rightarrow> (int \<times> dimm_device option \<times> 's) option" where
  "get_discovery E device_uid s =
     (case se_devices E s of (n, devs, s1) \<Rightarrow> do {
        (rc, x) \<leftarrow> nvm_get_device_discovery (se_permitted E) (se_driver E) (n, devs) device_uid True;
        Some (rc, x, if se_permitted E \<and> se_driver E \<and> device_uid \<noteq> None then s1 else s) })"

definition check_capable ::
    "(device_security_capabilities \<Rightarrow> bool) \<Rightarrow> 's security_env \<Rightarrow> bytes option \<Rightarrow> 's \<Rightarrow> (int \<times> 's) option" where
  "check_capable capable E device_uid s = do {
     (rc, discovery, s1) \<leftarrow> get_discovery E device_uid s;
     if rc = NVM_SUCCESS then do {
       x \<leftarrow> discovery;
       Some (if capable (disc_security_capabilities x) then NVM_SUCCESS else NVM_ERR_NOTSUPPORTED, s1) }
     else Some (rc, s1) }"

definition check_passphrase_capable :: "'s security_env \<Rightarrow> bytes option \<Rightarrow> 's \<Rightarrow> (int \<times> 's) option" where
  "check_passphrase_capable = check_capable passphrase_capable"

definition check_unlock_device_capable :: "'s security_env \<Rightarrow> bytes option \<Rightarrow> 's \<Rightarrow> (int \<times> 's) option" where
  "check_unlock_device_capable = check_capable unlock_device_capable"

section \<open>The interface\<close>

definition nvm_set_passphrase :: "bytes option \<Rightarrow> bytes option \<Rightarrow> nat \<Rightarrow> bytes option \<Rightarrow> nat \<Rightarrow> int" where
  "nvm_set_passphrase device_uid old_passphrase old_passphrase_len new_passphrase new_passphrase_len = NVM_ERR_NOTSUPPORTED"

definition nvm_unlock_device :: "bytes option \<Rightarrow> bytes option \<Rightarrow> nat \<Rightarrow> int" where
  "nvm_unlock_device device_uid passphrase passphrase_len = NVM_ERR_NOTSUPPORTED"

definition nvm_freezelock_device :: "bytes option \<Rightarrow> int" where
  "nvm_freezelock_device device_uid = NVM_ERR_NOTSUPPORTED"

text \<open>The tests that open every operation that changes the security.\<close>

definition security_guards :: "'s security_env \<Rightarrow> bytes option \<Rightarrow> int" where
  "security_guards E device_uid =
     (if \<not> se_permitted E then NVM_ERR_INVALIDPERMISSIONS
      else if \<not> se_driver E then NVM_ERR_BADDRIVER
      else if se_feature E \<noteq> NVM_SUCCESS then se_feature E
      else if device_uid = None then NVM_ERR_INVALIDPARAMETER
      else NVM_SUCCESS)"

definition nvm_remove_passphrase ::
    "'s security_env \<Rightarrow> bytes option \<Rightarrow> bytes option \<Rightarrow> nat \<Rightarrow> 's \<Rightarrow> (int \<times> 's) option" where
  "nvm_remove_passphrase E device_uid passphrase passphrase_len s =
     (let rc = security_guards E device_uid in
      if rc \<noteq> NVM_SUCCESS then Some (rc, s)
      else
        let rc1 = check_passphrase passphrase passphrase_len in
        if rc1 \<noteq> NVM_SUCCESS then Some (rc1, s)
        else do {
          (rc2, discovery, s1) \<leftarrow> exists_manageable_device E device_uid s;
          if rc2 \<noteq> NVM_SUCCESS then Some (rc2, s1)
          else do {
            (rc3, s2) \<leftarrow> check_passphrase_capable E device_uid s1;
            if rc3 \<noteq> NVM_SUCCESS then Some (rc3, s2)
            else do {
              x \<leftarrow> discovery;
              (rc4, s3) \<leftarrow> security_change_prepare E x passphrase passphrase_len s2;
              if rc4 \<noteq> NVM_SUCCESS then Some (rc4, s3)
              else do {
                (rc5, s4) \<leftarrow> passphrase_command E x SUBOP_DISABLE_PASS passphrase passphrase_len s3;
                u \<leftarrow> device_uid;
                let s5 = (if rc5 = NVM_SUCCESS
                  then se_event E \<lparr>ev_code = EVENT_CODE_MGMT_SECURITY_PASSWORD_REMOVED, ev_uid = u, ev_args = [u]\<rparr> s4
                  else s4);
                Some (rc5, se_invalidate E s5) } } } })"

text \<open>The body of the loop is executed at least once; \<open>count\<close> is the number of commands sent.\<close>

function erase_loop ::
    "'s security_env \<Rightarrow> dimm_device \<Rightarrow> bytes option \<Rightarrow> nat \<Rightarrow> nat \<Rightarrow> 's \<Rightarrow> (int \<times> 's) option" where
  "erase_loop E p_discovery passphrase passphrase_len count s = do {
     (rc, s1) \<leftarrow> passphrase_command E p_discovery SUBOP_SEC_ERASE_UNIT passphrase passphrase_len s;
     if rc = NVM_ERR_DEVICEBUSY \<and> Suc count < 5
     then erase_loop E p_discovery passphrase passphrase_len (Suc count) s1
     else Some (rc, s1) }"
  by pat_completeness auto
termination
  by (relation "measure (\<lambda>(E, x, p, n, count, s). 5 - count)") auto

declare erase_loop.simps [simp del]

definition secure_erase ::
    "'s security_env \<Rightarrow> bytes option \<Rightarrow> nat \<Rightarrow> dimm_device \<Rightarrow> 's \<Rightarrow> (int \<times> 's) option" where
  "secure_erase E passphrase passphrase_len p_discovery s = do {
     (rc, s1) \<leftarrow> erase_loop E p_discovery passphrase passphrase_len 0 s;
     Some (rc, if rc = NVM_SUCCESS
               then se_event E \<lparr>ev_code = EVENT_CODE_MGMT_SECURITY_SECURE_ERASE, ev_uid = disc_uid p_discovery,
                      ev_args = [disc_uid p_discovery]\<rparr> s1
               else s1) }"

definition nvm_erase_device ::
    "'s security_env \<Rightarrow> bytes option \<Rightarrow> bytes option \<Rightarrow> nat \<Rightarrow> 's \<Rightarrow> (int \<times> 's) option" where
  "nvm_erase_device E device_uid passphrase passphrase_len s =
     (let rc = security_guards E device_uid in
      if rc \<noteq> NVM_SUCCESS then Some (rc, s)
      else do {
        (rc1, discovery, s1) \<leftarrow> exists_manageable_device E device_uid s;
        if rc1 \<noteq> NVM_SUCCESS then Some (rc1, s1)
        else do {
          x \<leftarrow> discovery;
          if passphrase_capable (disc_security_capabilities x) then
            if check_passphrase passphrase passphrase_len \<noteq> NVM_SUCCESS then Some (NVM_ERR_BADPASSPHRASE, s1)
            else do {
              (rc2, s2) \<leftarrow> security_change_prepare E x passphrase passphrase_len s1;
              if rc2 \<noteq> NVM_SUCCESS then Some (rc2, s2)
              else do {
                (rc3, s3) \<leftarrow> secure_erase E passphrase passphrase_len x s2;
                Some (rc3, se_invalidate E s3) } }
          else Some (NVM_ERR_INVALIDPARAMETER, s1) } })"

definition nvm_get_security_permission :: "dimm_device \<Rightarrow> int" where
  "nvm_get_security_permission p_discovery =
     (let rc = check_lock_state p_discovery in
      if rc = NVM_SUCCESS then
        (if disc_lock_state p_discovery = LOCK_STATE_DISABLED then NVM_SUCCESS
         else if disc_lock_state p_discovery = LOCK_STATE_UNLOCKED then NVM_SUCCESS
         else NVM_ERR_UNKNOWN)
      else rc)"

end
