(* ===== verification/Sensors.thy ===== *)
theory Sensors
  imports Temperature Security
begin

text \<open>
  The sensors of a device (\<open>lib/sensor.c\<close>): they are filled from the SMART and health page, the alarm
  thresholds and the error logs of the firmware; the alarm thresholds can be changed. \<open>None\<close> is
  undefined behaviour, here mostly the encoding of a negative temperature.
\<close>

unbundle bit_operations_syntax

section \<open>State\<close>

datatype sensor_status =
    SENSOR_NOT_INITIALIZED | SENSOR_UNKNOWN | SENSOR_NORMAL | SENSOR_NONCRITICAL | SENSOR_CRITICAL | SENSOR_FATAL

abbreviation SENSOR_MEDIA_TEMPERATURE :: nat where "SENSOR_MEDIA_TEMPERATURE \<equiv> 0"
abbreviation SENSOR_SPARECAPACITY :: nat where "SENSOR_SPARECAPACITY \<equiv> 1"
abbreviation SENSOR_WEARLEVEL :: nat where "SENSOR_WEARLEVEL \<equiv> 2"
abbreviation SENSOR_POWERCYCLES :: nat where "SENSOR_POWERCYCLES \<equiv> 3"
abbreviation SENSOR_POWERONTIME :: nat where "SENSOR_POWERONTIME \<equiv> 4"
abbreviation SENSOR_UPTIME :: nat where "SENSOR_UPTIME \<equiv> 5"
abbreviation SENSOR_UNSAFESHUTDOWNS :: nat where "SENSOR_UNSAFESHUTDOWNS \<equiv> 6"
abbreviation SENSOR_FWERRORLOGCOUNT :: nat where "SENSOR_FWERRORLOGCOUNT \<equiv> 7"
abbreviation SENSOR_CONTROLLER_TEMPERATURE :: nat where "SENSOR_CONTROLLER_TEMPERATURE \<equiv> 8"
abbreviation SENSOR_HEALTH :: nat where "SENSOR_HEALTH \<equiv> 9"
definition NVM_MAX_DEVICE_SENSORS :: nat where "NVM_MAX_DEVICE_SENSORS = 10"

abbreviation UNIT_COUNT :: nat where "UNIT_COUNT \<equiv> 1"
abbreviation UNIT_CELSIUS :: nat where "UNIT_CELSIUS \<equiv> 2"
abbreviation UNIT_SECONDS :: nat where "UNIT_SECONDS \<equiv> 21"
abbreviation UNIT_CYCLES :: nat where "UNIT_CYCLES \<equiv> 39"
abbreviation UNIT_PERCENT :: nat where "UNIT_PERCENT \<equiv> 65"

abbreviation SENSOR_CAT_SMART_HEALTH :: u64 where "SENSOR_CAT_SMART_HEALTH \<equiv> 1"
abbreviation SENSOR_CAT_FW_ERROR :: u64 where "SENSOR_CAT_FW_ERROR \<equiv> 4"
abbreviation SENSOR_CAT_ALL :: u64 where "SENSOR_CAT_ALL \<equiv> 7"

abbreviation THRESHOLD_ENABLED_SPARE :: u16 where "THRESHOLD_ENABLED_SPARE \<equiv> 1"
abbreviation THRESHOLD_ENABLED_MEDIA_TEMP :: u16 where "THRESHOLD_ENABLED_MEDIA_TEMP \<equiv> 2"
abbreviation THRESHOLD_ENABLED_CONTROLLER_TEMP :: u16 where "THRESHOLD_ENABLED_CONTROLLER_TEMP \<equiv> 4"
abbreviation SPARE_BLOCKS_TRIP_BIT :: u8 where "SPARE_BLOCKS_TRIP_BIT \<equiv> 1"
abbreviation MEDIA_TEMPERATURE_TRIP_BIT :: u8 where "MEDIA_TEMPERATURE_TRIP_BIT \<equiv> 2"
abbreviation CONTROLLER_TEMP_TRIP_BIT :: u8 where "CONTROLLER_TEMP_TRIP_BIT \<equiv> 4"

definition LIMIT_SPARE_THRESHOLD_VALUE :: nat where "LIMIT_SPARE_THRESHOLD_VALUE = 100"

record sensor_settings =
  set_enabled :: bool
  upper_critical_threshold :: u64
  lower_critical_threshold :: u64
  upper_fatal_threshold :: u64
  lower_fatal_threshold :: u64
  upper_noncritical_threshold :: u64
  lower_noncritical_threshold :: u64

record sensor =
  sensor_type :: nat
  sensor_units :: nat
  current_state :: sensor_status
  reading :: u64
  settings :: sensor_settings
  lower_critical_settable :: bool
  upper_critical_settable :: bool
  lower_critical_support :: bool
  upper_critical_support :: bool
  lower_fatal_settable :: bool
  upper_fatal_settable :: bool
  lower_fatal_support :: bool
  upper_fatal_support :: bool
  lower_noncritical_settable :: bool
  upper_noncritical_settable :: bool
  lower_noncritical_support :: bool
  upper_noncritical_support :: bool

definition zero_sensor :: sensor where
  "zero_sensor =
     \<lparr>sensor_type = 0, sensor_units = 0, current_state = SENSOR_UNKNOWN, reading = 0,
      settings = \<lparr>set_enabled = False, upper_critical_threshold = 0, lower_critical_threshold = 0,
        upper_fatal_threshold = 0, lower_fatal_threshold = 0, upper_noncritical_threshold = 0,
        lower_noncritical_threshold = 0\<rparr>,
      lower_critical_settable = False, upper_critical_settable = False, lower_critical_support = False,
      upper_critical_support = False, lower_fatal_settable = False, upper_fatal_settable = False,
      lower_fatal_support = False, upper_fatal_support = False, lower_noncritical_settable = False,
      upper_noncritical_settable = False, lower_noncritical_support = False, upper_noncritical_support = False\<rparr>"

record sensor_thresholds =
  controller_temp_shutdown :: rat
  media_temp_shutdown :: rat
  throttling_start :: rat
  throttling_stop :: rat
  alarm_media_temp_threshold :: rat
  alarm_controller_temp_threshold :: rat
  alarm_spare_block_threshold :: u8
  is_media_alarm_threshold_enabled :: bool
  is_controller_alarm_threshold_enabled :: bool
  is_spare_alarm_threshold_enabled :: bool

definition zero_sensor_thresholds :: sensor_thresholds where
  "zero_sensor_thresholds =
     \<lparr>controller_temp_shutdown = 0, media_temp_shutdown = 0, throttling_start = 0, throttling_stop = 0,
      alarm_media_temp_threshold = 0, alarm_controller_temp_threshold = 0, alarm_spare_block_threshold = 0,
      is_media_alarm_threshold_enabled = False, is_controller_alarm_threshold_enabled = False,
      is_spare_alarm_threshold_enabled = False\<rparr>"

text \<open>The fields of the SMART and health page that are read.\<close>

record smart_health =
  validation_flags :: u32
  health_status :: u8
  spare :: u8
  percentage_used :: u8
  alarm_trips :: u8
  media_temperature :: u16
  controller_temperature :: u16
  power_cycles :: u64
  power_on_seconds :: u64
  uptime :: u64
  unsafe_shutdowns :: u32

definition read_smart_health :: "bytes \<Rightarrow> smart_health option" where
  "read_smart_health p = do {
     flags \<leftarrow> rd32 p 0; h \<leftarrow> rd p 8; sp \<leftarrow> rd p 9; pu \<leftarrow> rd p 10; al \<leftarrow> rd p 11;
     mt \<leftarrow> rd16 p 12; ct \<leftarrow> rd16 p 14;
     pc \<leftarrow> rd64 p 36; po \<leftarrow> rd64 p 44; up \<leftarrow> rd64 p 52; us \<leftarrow> rd32 p 60;
     Some \<lparr>validation_flags = flags, health_status = h, spare = sp, percentage_used = pu, alarm_trips = al,
       media_temperature = mt, controller_temperature = ct, power_cycles = pc, power_on_seconds = po,
       uptime = up, unsafe_shutdowns = us\<rparr> }"

definition health_status_field :: "smart_health \<Rightarrow> bool" where "health_status_field h \<longleftrightarrow> bit (validation_flags h) 0"
definition spare_block_field :: "smart_health \<Rightarrow> bool" where "spare_block_field h \<longleftrightarrow> bit (validation_flags h) 1"
definition percentage_used_field :: "smart_health \<Rightarrow> bool" where "percentage_used_field h \<longleftrightarrow> bit (validation_flags h) 2"
definition media_temperature_field :: "smart_health \<Rightarrow> bool" where "media_temperature_field h \<longleftrightarrow> bit (validation_flags h) 3"
definition alarm_trips_field :: "smart_health \<Rightarrow> bool" where "alarm_trips_field h \<longleftrightarrow> bit (validation_flags h) 9"
definition sizeof_vendor_data_field :: "smart_health \<Rightarrow> bool" where "sizeof_vendor_data_field h \<longleftrightarrow> bit (validation_flags h) 11"

section \<open>Thresholds\<close>

definition get_sensor_thresholds ::
    "'d passthrough \<Rightarrow> 'd passthrough option \<Rightarrow> u32 \<Rightarrow> 'd \<Rightarrow> (int \<times> sensor_thresholds \<times> 'd) option" where
  "get_sensor_thresholds pt local device_handle d =
     (case fw_get_id_dimm_device_characteristics pt local device_handle d of (rc, ch, d1) \<Rightarrow> do {
        th \<leftarrow>
          (if rc = NVM_SUCCESS then do {
             ms \<leftarrow> rd16 ch 2; cs \<leftarrow> rd16 ch 0; t1 \<leftarrow> rd16 ch 4; t2 \<leftarrow> rd16 ch 6;
             Some (zero_sensor_thresholds\<lparr>media_temp_shutdown := fw_convert_fw_celsius_to_float ms,
               controller_temp_shutdown := fw_convert_fw_celsius_to_float cs,
               throttling_start := fw_convert_fw_celsius_to_float t1,
               throttling_stop := fw_convert_fw_celsius_to_float t2\<rparr>) }
           else Some zero_sensor_thresholds);
        (case fw_get_alarm_thresholds pt device_handle d1 of (threshold_rc, al, d2) \<Rightarrow> do {
           th' \<leftarrow>
             (if threshold_rc = NVM_SUCCESS then do {
                en \<leftarrow> rd16 al 0; sp \<leftarrow> rd al 2; mt \<leftarrow> rd16 al 3; ct \<leftarrow> rd16 al 5;
                Some (th\<lparr>alarm_media_temp_threshold := fw_convert_fw_celsius_to_float mt,
                  alarm_controller_temp_threshold := fw_convert_fw_celsius_to_float ct,
                  alarm_spare_block_threshold := sp,
                  is_media_alarm_threshold_enabled := (en AND THRESHOLD_ENABLED_MEDIA_TEMP \<noteq> 0),
                  is_controller_alarm_threshold_enabled := (en AND THRESHOLD_ENABLED_CONTROLLER_TEMP \<noteq> 0),
                  is_spare_alarm_threshold_enabled := (en AND THRESHOLD_ENABLED_SPARE \<noteq> 0)\<rparr>) }
              else Some th);
           Some (KEEP_ERROR rc threshold_rc, th', d2) }) })"

section \<open>The sensors of the health page\<close>

text \<open>Updating the entry \<open>i\<close> of the array.\<close>

definition on_sensor :: "nat \<Rightarrow> (sensor \<Rightarrow> sensor option) \<Rightarrow> sensor list \<Rightarrow> sensor list option" where
  "on_sensor i f p_sensors = do { x \<leftarrow> rd p_sensors i; x' \<leftarrow> f x; wr p_sensors i x' }"

definition media_temperature_sensor :: "smart_health \<Rightarrow> sensor_thresholds \<Rightarrow> sensor \<Rightarrow> sensor option" where
  "media_temperature_sensor h th x = do {
     let media_temp_celsius = (if media_temperature_field h then fw_convert_fw_celsius_to_float (media_temperature h) else 0);
     x1 \<leftarrow> (if media_temperature_field h
            then map_option (\<lambda>v. x\<lparr>reading := ucast v\<rparr>) (nvm_encode_temperature media_temp_celsius)
            else Some (x\<lparr>current_state := SENSOR_UNKNOWN\<rparr>));
     unc \<leftarrow> nvm_encode_temperature (alarm_media_temp_threshold th);
     ucr \<leftarrow> nvm_encode_temperature (throttling_start th);
     lcr \<leftarrow> nvm_encode_temperature (throttling_stop th);
     uft \<leftarrow> nvm_encode_temperature (media_temp_shutdown th);
     let tripped = (alarm_trips_field h \<and> alarm_trips h AND MEDIA_TEMPERATURE_TRIP_BIT \<noteq> 0);
     Some (x1\<lparr>upper_noncritical_settable := True, upper_noncritical_support := True, upper_critical_support := True,
       upper_fatal_support := True,
       settings := (settings x1)\<lparr>set_enabled := is_media_alarm_threshold_enabled th,
         upper_noncritical_threshold := ucast unc, upper_critical_threshold := ucast ucr,
         lower_critical_threshold := ucast lcr, upper_fatal_threshold := ucast uft\<rparr>,
       current_state :=
         (if media_temp_celsius > media_temp_shutdown th then SENSOR_FATAL
          else if media_temp_celsius > throttling_start th then SENSOR_CRITICAL
          else if tripped then SENSOR_NONCRITICAL
          else if \<not> alarm_trips_field h \<or> \<not> media_temperature_field h then SENSOR_UNKNOWN
          else SENSOR_NORMAL)\<rparr>) }"

definition spare_capacity_sensor :: "smart_health \<Rightarrow> sensor_thresholds \<Rightarrow> sensor \<Rightarrow> sensor option" where
  "spare_capacity_sensor h th x =
     (let x1 = (if spare_block_field h then x\<lparr>reading := ucast (spare h)\<rparr> else x\<lparr>current_state := SENSOR_UNKNOWN\<rparr>);
          tripped = (alarm_trips_field h \<and> alarm_trips h AND SPARE_BLOCKS_TRIP_BIT \<noteq> 0) in
      Some (x1\<lparr>lower_noncritical_settable := True, lower_noncritical_support := True,
        settings := (settings x1)\<lparr>set_enabled := is_spare_alarm_threshold_enabled th,
          lower_noncritical_threshold := ucast (alarm_spare_block_threshold th)\<rparr>,
        current_state :=
          (if tripped then SENSOR_NONCRITICAL
           else if \<not> alarm_trips_field h \<or> \<not> spare_block_field h then SENSOR_UNKNOWN
           else SENSOR_NORMAL)\<rparr>))"

text \<open>\<open>percent_used_threshold\<close> is what \<open>get_config_value_int\<close> leaves in the variable.\<close>

definition wear_level_sensor :: "int \<Rightarrow> smart_health \<Rightarrow> sensor \<Rightarrow> sensor option" where
  "wear_level_sensor percent_used_threshold h x =
     (if \<not> percentage_used_field h then Some (x\<lparr>current_state := SENSOR_UNKNOWN\<rparr>)
      else
        let x1 = x\<lparr>reading := ucast (percentage_used h)\<rparr> in
        Some (x1\<lparr>current_state :=
          (if reading x1 \<ge> word_of_int percent_used_threshold then SENSOR_CRITICAL else SENSOR_NORMAL)\<rparr>))"

text \<open>The four sensors that show a field of the vendor data.\<close>

definition vendor_data_sensor :: "(smart_health \<Rightarrow> u64) \<Rightarrow> smart_health \<Rightarrow> sensor \<Rightarrow> sensor option" where
  "vendor_data_sensor field h x =
     Some (if sizeof_vendor_data_field h then x\<lparr>reading := field h, current_state := SENSOR_NORMAL\<rparr>
           else x\<lparr>current_state := SENSOR_UNKNOWN\<rparr>)"

definition controller_temperature_sensor :: "smart_health \<Rightarrow> sensor_thresholds \<Rightarrow> sensor \<Rightarrow> sensor option" where
  "controller_temperature_sensor h th x = do {
     let controller_temp_celsius =
       (if sizeof_vendor_data_field h then fw_convert_fw_celsius_to_float (controller_temperature h) else 0);
     x1 \<leftarrow> (if sizeof_vendor_data_field h
            then map_option (\<lambda>v. x\<lparr>reading := ucast v\<rparr>) (nvm_encode_temperature controller_temp_celsius)
            else Some (x\<lparr>current_state := SENSOR_UNKNOWN\<rparr>));
     unc \<leftarrow> nvm_encode_temperature (alarm_controller_temp_threshold th);
     uft \<leftarrow> nvm_encode_temperature (controller_temp_shutdown th);
     let tripped = (alarm_trips_field h \<and> alarm_trips h AND CONTROLLER_TEMP_TRIP_BIT \<noteq> 0);
     Some (x1\<lparr>upper_noncritical_settable := True, upper_noncritical_support := True, upper_critical_support := True,
       upper_fatal_support := True,
       settings := (settings x1)\<lparr>set_enabled := is_controller_alarm_threshold_enabled th,
         upper_noncritical_threshold := ucast unc, upper_fatal_threshold := ucast uft\<rparr>,
       current_state :=
         (if controller_temp_celsius > controller_temp_shutdown th then SENSOR_FATAL
          else if tripped then SENSOR_NONCRITICAL
          else if \<not> alarm_trips_field h \<or> \<not> sizeof_vendor_data_field h then SENSOR_UNKNOWN
          else SENSOR_NORMAL)\<rparr>) }"

definition health_sensor :: "smart_health \<Rightarrow> sensor \<Rightarrow> sensor option" where
  "health_sensor h x =
     Some (if health_status_field h
           then x\<lparr>reading := ucast (health_status h),
                  current_state :=
                    (if health_status h = 0 then SENSOR_NORMAL
                     else if health_status h = 2 then SENSOR_CRITICAL
                     else if health_status h = 1 then SENSOR_NONCRITICAL
                     else if health_status h = 4 then SENSOR_FATAL
                     else SENSOR_UNKNOWN)\<rparr>
           else x\<lparr>current_state := SENSOR_UNKNOWN\<rparr>)"

definition fill_smart_sensors ::
    "int \<Rightarrow> smart_health \<Rightarrow> sensor_thresholds \<Rightarrow> sensor list \<Rightarrow> sensor list option" where
  "fill_smart_sensors percent_used_threshold h th s0 = do {
     s1 \<leftarrow> on_sensor SENSOR_MEDIA_TEMPERATURE (media_temperature_sensor h th) s0;
     s2 \<leftarrow> on_sensor SENSOR_SPARECAPACITY (spare_capacity_sensor h th) s1;
     s3 \<leftarrow> on_sensor SENSOR_WEARLEVEL (wear_level_sensor percent_used_threshold h) s2;
     s4 \<leftarrow> on_sensor SENSOR_POWERCYCLES (vendor_data_sensor power_cycles h) s3;
     s5 \<leftarrow> on_sensor SENSOR_POWERONTIME (vendor_data_sensor power_on_seconds h) s4;
     s6 \<leftarrow> on_sensor SENSOR_UPTIME (vendor_data_sensor uptime h) s5;
     s7 \<leftarrow> on_sensor SENSOR_UNSAFESHUTDOWNS (vendor_data_sensor (\<lambda>h. ucast (unsafe_shutdowns h)) h) s6;
     s8 \<leftarrow> on_sensor SENSOR_CONTROLLER_TEMPERATURE (controller_temperature_sensor h th) s7;
     on_sensor SENSOR_HEALTH (health_sensor h) s8 }"

section \<open>The environment\<close>

text \<open>
  What a call gets from elsewhere: the guards, lookups and events of \<open>security_env\<close> (the feature is
  \<open>modify_sensors\<close> here), the device that
  \<open>lookup_device_nfit_by_handle\<close> finds, the pass-through function that a caller may have set, the
  configured limit of wear, and the contents of the uninitialised variables: the thresholds of
  \<open>get_smart_log_sensors\<close>, the payload of the error log, and the event argument.
\<close>

record 's sensor_env =
  sn_base :: "'s security_env"
  sn_by_handle :: "u32 \<Rightarrow> 's \<Rightarrow> int \<times> dimm_device option \<times> 's"
  sn_local :: "'s passthrough option"
  sn_percent_used_threshold :: int
  sn_thresholds :: sensor_thresholds
  sn_log_info :: bytes
  sn_type_arg :: bytes

abbreviation sn_ioctl :: "'s sensor_env \<Rightarrow> 's passthrough" where "sn_ioctl E \<equiv> se_ioctl (sn_base E)"

definition get_smart_log_sensors ::
    "'s sensor_env \<Rightarrow> u32 \<Rightarrow> sensor list \<Rightarrow> bool \<Rightarrow> 's \<Rightarrow> (int \<times> sensor list \<times> 's) option" where
  "get_smart_log_sensors E dev_handle p_sensors include_thresholds s =
     (case fw_get_smart_health (sn_ioctl E) dev_handle s of (rc, dimm_smart, s1) \<Rightarrow>
        if rc = NVM_SUCCESS then do {
          (rc', th, s2) \<leftarrow>
            (if include_thresholds then do {
               (threshold_rc, th, s2) \<leftarrow> get_sensor_thresholds (sn_ioctl E) (sn_local E) dev_handle s1;
               Some (KEEP_ERROR rc threshold_rc, th, s2) }
             else Some (rc, sn_thresholds E, s1));
          h \<leftarrow> read_smart_health dimm_smart;
          p_sensors' \<leftarrow> fill_smart_sensors (sn_percent_used_threshold E) h th p_sensors;
          Some (rc', p_sensors', s2) }
        else Some (rc, p_sensors, s1))"

section \<open>The error logs\<close>

definition fw_error_logs :: "(u8 \<times> u8) list" where
  "fw_error_logs = [(DEV_FW_ERR_LOG_LOW, DEV_FW_ERR_LOG_MEDIA), (DEV_FW_ERR_LOG_HIGH, DEV_FW_ERR_LOG_MEDIA),
     (DEV_FW_ERR_LOG_LOW, DEV_FW_ERR_LOG_THERMAL), (DEV_FW_ERR_LOG_HIGH, DEV_FW_ERR_LOG_THERMAL)]"

text \<open>\<open>IF_SUCCESS_EXEC_AND_SUM\<close> for each log: the first negative result ends the counting.\<close>

fun sum_error_counts ::
    "'s passthrough \<Rightarrow> bytes \<Rightarrow> u32 \<Rightarrow> (u8 \<times> u8) list \<Rightarrow> u32 \<Rightarrow> 's \<Rightarrow> (int \<times> u32 \<times> 's) option" where
  "sum_error_counts pt log_info h [] error_count s = Some (NVM_SUCCESS, error_count, s)"
| "sum_error_counts pt log_info h ((log_level, log_type) # logs) error_count s = do {
     (r, s1) \<leftarrow> fw_get_fw_error_log_count pt log_info h log_level log_type s;
     if r \<ge> 0 then sum_error_counts pt log_info h logs (error_count + word_of_int r) s1
     else Some (r, error_count, s1) }"

definition get_fw_error_log_sensors ::
    "'s sensor_env \<Rightarrow> u32 \<Rightarrow> sensor list \<Rightarrow> 's \<Rightarrow> (int \<times> sensor list \<times> 's) option" where
  "get_fw_error_log_sensors E dev_handle sensors s = do {
     (rc, error_count, s1) \<leftarrow> sum_error_counts (sn_ioctl E) (sn_log_info E) dev_handle fw_error_logs 0 s;
     if rc = NVM_SUCCESS then do {
       sensors' \<leftarrow> on_sensor SENSOR_FWERRORLOGCOUNT
         (\<lambda>x. Some (x\<lparr>reading := ucast error_count, current_state := SENSOR_NORMAL\<rparr>)) sensors;
       Some (rc, sensors', s1) }
     else Some (rc, sensors, s1) }"

section \<open>The interface\<close>

definition set_units :: "nat \<Rightarrow> sensor \<Rightarrow> sensor option" where
  "set_units u x = Some (x\<lparr>sensor_units := u\<rparr>)"

text \<open>\<open>count\<close> entries are cleared and numbered; then the units of the ten types are set.\<close>

definition initialize_sensors :: "sensor list \<Rightarrow> nat \<Rightarrow> sensor list option" where
  "initialize_sensors p_sensors count = do {
     s \<leftarrow> wr_bytes p_sensors 0
       (map (\<lambda>i. zero_sensor\<lparr>sensor_type := i, current_state := SENSOR_NOT_INITIALIZED\<rparr>) [0..<count]);
     s \<leftarrow> on_sensor SENSOR_MEDIA_TEMPERATURE (set_units UNIT_CELSIUS) s;
     s \<leftarrow> on_sensor SENSOR_SPARECAPACITY (set_units UNIT_PERCENT) s;
     s \<leftarrow> on_sensor SENSOR_WEARLEVEL (set_units UNIT_PERCENT) s;
     s \<leftarrow> on_sensor SENSOR_POWERCYCLES (set_units UNIT_CYCLES) s;
     s \<leftarrow> on_sensor SENSOR_POWERONTIME (set_units UNIT_SECONDS) s;
     s \<leftarrow> on_sensor SENSOR_UPTIME (set_units UNIT_SECONDS) s;
     s \<leftarrow> on_sensor SENSOR_UNSAFESHUTDOWNS (set_units UNIT_COUNT) s;
     s \<leftarrow> on_sensor SENSOR_FWERRORLOGCOUNT (set_units UNIT_COUNT) s;
     s \<leftarrow> on_sensor SENSOR_CONTROLLER_TEMPERATURE (set_units UNIT_CELSIUS) s;
     on_sensor SENSOR_HEALTH (set_units UNIT_COUNT) s }"

definition get_sensors_by_category ::
    "'s sensor_env \<Rightarrow> dimm_device \<Rightarrow> sensor list \<Rightarrow> nat \<Rightarrow> u64 \<Rightarrow> u64 \<Rightarrow> 's \<Rightarrow> (int \<times> sensor list \<times> 's) option" where
  "get_sensors_by_category E p_discovery p_sensors count categories thresholds s = do {
     s0 \<leftarrow> initialize_sensors p_sensors count;
     (rc, s1, d1) \<leftarrow>
       (if categories AND SENSOR_CAT_SMART_HEALTH \<noteq> 0 then do {
          (r, s1, d1) \<leftarrow> get_smart_log_sensors E (disc_handle p_discovery) s0
            ((ucast (thresholds AND SENSOR_CAT_SMART_HEALTH) :: u8) \<noteq> 0) s;
          Some (KEEP_ERROR NVM_SUCCESS r, s1, d1) }
        else Some (NVM_SUCCESS, s0, s));
     if categories AND SENSOR_CAT_FW_ERROR \<noteq> 0 then do {
       (r, s2, d2) \<leftarrow> get_fw_error_log_sensors E (disc_handle p_discovery) s1 d1;
       Some (KEEP_ERROR rc r, s2, d2) }
     else Some (rc, s1, d1) }"

definition nvm_get_sensors_by_category ::
    "'s sensor_env \<Rightarrow> u32 \<Rightarrow> sensor list option \<Rightarrow> nat \<Rightarrow> u64 \<Rightarrow> u64 \<Rightarrow> 's \<Rightarrow> (int \<times> sensor list option \<times> 's) option" where
  "nvm_get_sensors_by_category E dev_handle p_sensors count categories thresholds s =
     (if \<not> se_permitted (sn_base E) then Some (NVM_ERR_INVALIDPERMISSIONS, p_sensors, s)
      else if \<not> se_driver (sn_base E) then Some (NVM_ERR_BADDRIVER, p_sensors, s)
      else (case p_sensors of
        None \<Rightarrow> Some (NVM_ERR_INVALIDPARAMETER, p_sensors, s)
      | Some ps \<Rightarrow>
          if count < NVM_MAX_DEVICE_SENSORS then Some (NVM_ERR_ARRAYTOOSMALL, p_sensors, s)
          else (case sn_by_handle E dev_handle s of (rc, discovery, s1) \<Rightarrow>
            if rc \<noteq> NVM_SUCCESS then Some (rc, p_sensors, s1)
            else do {
              x \<leftarrow> discovery;
              if \<not> IS_DEVICE_MANAGEABLE x then Some (NVM_ERR_NOTMANAGEABLE, p_sensors, s1)
              else do {
                (rc', ps', s2) \<leftarrow> get_sensors_by_category E x ps count categories thresholds s1;
                Some (rc', Some ps', s2) } })))"

definition nvm_get_sensors ::
    "'s sensor_env \<Rightarrow> bytes option \<Rightarrow> sensor list option \<Rightarrow> nat \<Rightarrow> 's \<Rightarrow> (int \<times> sensor list option \<times> 's) option" where
  "nvm_get_sensors E device_uid p_sensors count s =
     (if \<not> se_permitted (sn_base E) then Some (NVM_ERR_INVALIDPERMISSIONS, p_sensors, s)
      else if \<not> se_driver (sn_base E) then Some (NVM_ERR_BADDRIVER, p_sensors, s)
      else if device_uid = None then Some (NVM_ERR_INVALIDPARAMETER, p_sensors, s)
      else (case p_sensors of
        None \<Rightarrow> Some (NVM_ERR_INVALIDPARAMETER, p_sensors, s)
      | Some ps \<Rightarrow>
          if count < NVM_MAX_DEVICE_SENSORS then Some (NVM_ERR_ARRAYTOOSMALL, p_sensors, s)
          else do {
            (rc, discovery, s1) \<leftarrow> exists_manageable_device (sn_base E) device_uid s;
            if rc = NVM_SUCCESS then do {
              x \<leftarrow> discovery;
              (rc', ps', s2) \<leftarrow> get_sensors_by_category E x ps count SENSOR_CAT_ALL SENSOR_CAT_ALL s1;
              Some (rc', Some ps', s2) }
            else Some (rc, p_sensors, s1) }))"

text \<open>\<open>garbage\<close> is the uninitialised array of ten sensors.\<close>

definition nvm_get_sensor ::
    "'s sensor_env \<Rightarrow> sensor list \<Rightarrow> bytes option \<Rightarrow> nat \<Rightarrow> sensor option \<Rightarrow> 's \<Rightarrow> (int \<times> sensor option \<times> 's) option" where
  "nvm_get_sensor E garbage device_uid type p_sensor s =
     (if p_sensor = None then Some (NVM_ERR_INVALIDPARAMETER, p_sensor, s)
      else if type \<ge> NVM_MAX_DEVICE_SENSORS then Some (NVM_ERR_INVALIDPARAMETER, p_sensor, s)
      else do {
        (rc, sensors, s1) \<leftarrow> nvm_get_sensors E device_uid (Some garbage) NVM_MAX_DEVICE_SENSORS s;
        if rc = NVM_SUCCESS then do {
          ps \<leftarrow> sensors;
          x \<leftarrow> rd ps type;
          Some (rc, Some x, s1) }
        else Some (rc, p_sensor, s1) })"

section \<open>Changing a threshold\<close>

definition SENSOR_STRINGS :: "string list" where
  "SENSOR_STRINGS = [''Media Temperature'', ''Spare Capacity'', ''Wear Level'', ''Power Cycles'', ''Power On Time'',
     ''Uptime'', ''Unsafe Shutdowns'', ''FW Error Log Count'', ''Controller Temperature'', ''Health'']"

definition sensor_type_to_string :: "nat \<Rightarrow> bytes option \<Rightarrow> nat \<Rightarrow> bytes option option" where
  "sensor_type_to_string type p_dst dst_size =
     map_option fst (s_strcpy p_dst
       (Some (map of_char (if type < NVM_MAX_DEVICE_SENSORS then SENSOR_STRINGS ! type else ''Unknown'') @ [0])) dst_size)"

definition NVM_EVENT_ARG_LEN :: nat where "NVM_EVENT_ARG_LEN = 1024"

text \<open>The alarm thresholds after the change, or the code that refuses it.\<close>

definition set_enable :: "u16 \<Rightarrow> bool \<Rightarrow> bytes \<Rightarrow> bytes option" where
  "set_enable flag enabled th = do {
     en \<leftarrow> rd16 th 0;
     wr16 th 0 (if enabled then en OR flag else en AND NOT flag) }"

definition change_alarm_thresholds :: "nat \<Rightarrow> sensor_settings \<Rightarrow> bytes \<Rightarrow> (int + bytes) option" where
  "change_alarm_thresholds type p_settings th =
     (if type = SENSOR_MEDIA_TEMPERATURE then do {
        v \<leftarrow> fw_convert_float_to_fw_celsius (nvm_decode_temperature (ucast (upper_noncritical_threshold p_settings)));
        th1 \<leftarrow> wr16 th 3 v;
        th2 \<leftarrow> set_enable THRESHOLD_ENABLED_MEDIA_TEMP (set_enabled p_settings) th1;
        Some (Inr th2) }
      else if type = SENSOR_CONTROLLER_TEMPERATURE then do {
        v \<leftarrow> fw_convert_float_to_fw_celsius (nvm_decode_temperature (ucast (upper_noncritical_threshold p_settings)));
        th1 \<leftarrow> wr16 th 5 v;
        th2 \<leftarrow> set_enable THRESHOLD_ENABLED_CONTROLLER_TEMP (set_enabled p_settings) th1;
        Some (Inr th2) }
      else
        let threshold = lower_noncritical_threshold p_settings in
        if threshold > 0 \<and> unat threshold < LIMIT_SPARE_THRESHOLD_VALUE then do {
          th1 \<leftarrow> wr th 2 (ucast threshold);
          th2 \<leftarrow> set_enable THRESHOLD_ENABLED_SPARE (set_enabled p_settings) th1;
          Some (Inr th2) }
        else Some (Inl NVM_ERR_BADTHRESHOLD))"

definition nvm_set_sensor_settings ::
    "'s sensor_env \<Rightarrow> bytes option \<Rightarrow> nat \<Rightarrow> sensor_settings option \<Rightarrow> 's \<Rightarrow> (int \<times> 's) option" where
  "nvm_set_sensor_settings E device_uid type p_settings s =
     (let rc = security_guards (sn_base E) device_uid in
      if rc \<noteq> NVM_SUCCESS then Some (rc, s)
      else if type \<noteq> SENSOR_CONTROLLER_TEMPERATURE \<and> type \<noteq> SENSOR_MEDIA_TEMPERATURE \<and> type \<noteq> SENSOR_SPARECAPACITY
      then Some (NVM_ERR_INVALIDPARAMETER, s)
      else (case p_settings of
        None \<Rightarrow> Some (NVM_ERR_INVALIDPARAMETER, s)
      | Some p \<Rightarrow> do {
          (rc1, discovery, s1) \<leftarrow> exists_manageable_device (sn_base E) device_uid s;
          if rc1 \<noteq> NVM_SUCCESS then Some (rc1, s1)
          else do {
            x \<leftarrow> discovery;
            (case fw_get_alarm_thresholds (sn_ioctl E) (disc_handle x) s1 of (rc2, th, s2) \<Rightarrow>
              if rc2 \<noteq> NVM_SUCCESS then Some (rc2, s2)
              else do {
                change \<leftarrow> change_alarm_thresholds type p th;
                (case change of
                  Inl e \<Rightarrow> Some (e, s2)
                | Inr th' \<Rightarrow> (case fw_set_alarm_thresholds (sn_ioctl E) (disc_handle x) th' s2 of (rc3, s3) \<Rightarrow>
                    if rc3 = NVM_SUCCESS then do {
                      arg \<leftarrow> sensor_type_to_string type (Some (sn_type_arg E)) NVM_EVENT_ARG_LEN;
                      a \<leftarrow> arg;
                      u \<leftarrow> device_uid;
                      Some (rc3, se_invalidate (sn_base E) (se_event (sn_base E)
                        \<lparr>ev_code = EVENT_CODE_MGMT_SENSOR_SETTINGS_CHANGE, ev_uid = u, ev_args = [a, u]\<rparr> s3)) }
                    else Some (rc3, se_invalidate (sn_base E) s3))) }) } }))"

end
