(* ===== verification/Pcd_Tables.thy ===== *)
theory Pcd_Tables
  imports Guid Nvm_Types
begin

text \<open>
  The platform configuration data (PCD) of a DIMM, \<open>lib/platform_config_data.c\<close> and its header: the
  checks of the header and of the three sub-tables, the construction of a new PCD, and the readers
  that walk over extension tables. The PCD is the byte buffer that the code casts its packed
  structures onto; a pointer to a table in it is an index. \<open>None\<close> is a read outside the buffer or a
  loop that does not end.
\<close>

section \<open>Layout\<close>

definition CHECKSUM_OFFSET :: nat where "CHECKSUM_OFFSET = 9"
definition PCD_SIZE :: nat where "PCD_SIZE = 60"
definition CURRENT_CONFIG_SIZE :: nat where "CURRENT_CONFIG_SIZE = 56"
definition CONFIG_INPUT_SIZE :: nat where "CONFIG_INPUT_SIZE = 48"
definition CONFIG_OUTPUT_SIZE :: nat where "CONFIG_OUTPUT_SIZE = 48"
definition EXT_HEADER_SIZE :: nat where "EXT_HEADER_SIZE = 4"
definition PARTITION_TABLE_SIZE :: nat where "PARTITION_TABLE_SIZE = 16"
definition INTERLEAVE_TABLE_SIZE :: nat where "INTERLEAVE_TABLE_SIZE = 24"
definition DIMM_INFO_SIZE :: nat where "DIMM_INFO_SIZE = 48"
definition DEV_PLT_CFG_OEM_PARTITION_SIZE :: nat where
  "DEV_PLT_CFG_OEM_PARTITION_SIZE = 65536"

lemmas pcd_sizes [layout] = CHECKSUM_OFFSET_def PCD_SIZE_def CURRENT_CONFIG_SIZE_def
  CONFIG_INPUT_SIZE_def CONFIG_OUTPUT_SIZE_def EXT_HEADER_SIZE_def PARTITION_TABLE_SIZE_def
  INTERLEAVE_TABLE_SIZE_def DIMM_INFO_SIZE_def DEV_PLT_CFG_OEM_PARTITION_SIZE_def

abbreviation PARTITION_CHANGE_TABLE :: u16 where "PARTITION_CHANGE_TABLE \<equiv> 4"
abbreviation INTERLEAVE_TABLE :: u16 where "INTERLEAVE_TABLE \<equiv> 5"

text \<open>The signatures \<open>DMHD\<close>, \<open>CCUR\<close>, \<open>CIN_\<close> and \<open>COUT\<close>.\<close>

definition PLATFORM_CONFIG_TABLE_SIGNATURE :: bytes where
  "PLATFORM_CONFIG_TABLE_SIGNATURE = [68, 77, 72, 68]"
definition CURRENT_CONFIG_TABLE_SIGNATURE :: bytes where
  "CURRENT_CONFIG_TABLE_SIGNATURE = [67, 67, 85, 82]"
definition CONFIG_INPUT_TABLE_SIGNATURE :: bytes where
  "CONFIG_INPUT_TABLE_SIGNATURE = [67, 73, 78, 95]"
definition CONFIG_OUTPUT_TABLE_SIGNATURE :: bytes where
  "CONFIG_OUTPUT_TABLE_SIGNATURE = [67, 79, 85, 84]"

lemmas pcd_signatures = PLATFORM_CONFIG_TABLE_SIGNATURE_def CURRENT_CONFIG_TABLE_SIGNATURE_def
  CONFIG_INPUT_TABLE_SIGNATURE_def CONFIG_OUTPUT_TABLE_SIGNATURE_def

text \<open>Fields: \<open>header.length\<close>, and the sizes and offsets of the sub-tables of the PCD.\<close>

definition header_length :: "bytes \<Rightarrow> nat \<Rightarrow> nat option" where
  "header_length m p = map_option unat (rd32 m (p + 4))"

definition cast_sub_table :: "bytes \<Rightarrow> nat \<Rightarrow> nat option option" where
  "cast_sub_table m size_field = do {
     sz \<leftarrow> rd32 m size_field;
     if sz > 0 then do { off \<leftarrow> rd32 m (size_field + 4); Some (Some (unat off)) }
     else Some None }"

definition cast_current_config :: "bytes \<Rightarrow> nat option option" where
  "cast_current_config m = cast_sub_table m 36"

definition cast_config_input :: "bytes \<Rightarrow> nat option option" where
  "cast_config_input m = cast_sub_table m 44"

definition cast_config_output :: "bytes \<Rightarrow> nat option option" where
  "cast_config_output m = cast_sub_table m 52"

section \<open>Logging\<close>

text \<open>
  \<open>print_extension_tables\<close> runs before the extension tables are checked. The arguments of its log
  statements are evaluated whether or not they are logged; the loop advances by the length field of
  a table it knows, also when that is 0.
\<close>

partial_function (option) print_extension_tables ::
    "bytes \<Rightarrow> nat \<Rightarrow> nat \<Rightarrow> nat \<Rightarrow> unit option" where
  "print_extension_tables m p_ext_table total_length offset =
     (if offset < total_length then
        (case rd16 m (p_ext_table + offset) of
           None \<Rightarrow> None
         | Some t \<Rightarrow>
             (case rd16 m (p_ext_table + offset + 2) of
                None \<Rightarrow> None
              | Some len \<Rightarrow>
                  if t = PARTITION_CHANGE_TABLE then
                    (case rd_bytes m (p_ext_table + offset) PARTITION_TABLE_SIZE of
                       None \<Rightarrow> None
                     | Some _ \<Rightarrow> print_extension_tables m p_ext_table total_length (offset + unat len))
                  else if t = INTERLEAVE_TABLE then
                    (case rd_bytes m (p_ext_table + offset) 14 of
                       None \<Rightarrow> None
                     | Some b \<Rightarrow>
                         (case (if b ! 6 = 0 then Some [] else
                                  rd_bytes m (p_ext_table + offset + INTERLEAVE_TABLE_SIZE)
                                    (DIMM_INFO_SIZE * unat (b ! 6))) of
                            None \<Rightarrow> None
                          | Some _ \<Rightarrow>
                              print_extension_tables m p_ext_table total_length (offset + unat len)))
                  else Some ()))
      else Some ())"

definition print_config_table :: "bytes \<Rightarrow> nat \<Rightarrow> nat \<Rightarrow> nat \<Rightarrow> unit option" where
  "print_config_table m p logged table_size = do {
     _ \<leftarrow> rd_bytes m p logged;
     len \<leftarrow> header_length m p;
     if len > table_size then print_extension_tables m (p + table_size) (len - table_size) 0
     else Some () }"

definition print_pcd_current :: "bytes \<Rightarrow> nat \<Rightarrow> unit option" where
  "print_pcd_current m p = print_config_table m p CURRENT_CONFIG_SIZE CURRENT_CONFIG_SIZE"

definition print_pcd_input :: "bytes \<Rightarrow> nat \<Rightarrow> unit option" where
  "print_pcd_input m p = print_config_table m p 40 CONFIG_INPUT_SIZE"

definition print_pcd_output :: "bytes \<Rightarrow> nat \<Rightarrow> unit option" where
  "print_pcd_output m p = print_config_table m p 41 CONFIG_OUTPUT_SIZE"

definition print_pcd_header :: "bytes \<Rightarrow> unit option" where
  "print_pcd_header m = do { _ \<leftarrow> rd_bytes m 0 PCD_SIZE; Some () }"

section \<open>Checks\<close>

definition is_config_data_table_header_valid ::
    "bytes \<Rightarrow> nat \<Rightarrow> nat \<Rightarrow> bytes \<Rightarrow> bool option" where
  "is_config_data_table_header_valid m p table_length table_signature = do {
     len \<leftarrow> header_length m p;
     if len > table_length then Some False
     else do {
       ok \<leftarrow> verify_checksum (drop p m) table_length;
       if \<not> ok then Some False
       else strncmp0_loop (take 4 (drop p m)) (table_signature @ [0]) 4 0 } }"

function extension_list_loop :: "bytes \<Rightarrow> nat \<Rightarrow> nat \<Rightarrow> nat \<Rightarrow> bool \<Rightarrow> bool option" where
  "extension_list_loop m start ext_table_length offset is_valid =
     (if offset < ext_table_length then do {
        _ \<leftarrow> rd16 m (start + offset);
        len \<leftarrow> rd16 m (start + offset + 2);
        if unat len < EXT_HEADER_SIZE then Some False
        else if offset + unat len > ext_table_length then Some False
        else extension_list_loop m start ext_table_length (offset + unat len) is_valid }
      else Some is_valid)"
  by pat_completeness auto
termination
  by (relation "measure (\<lambda>(m, start, n, offset, v). n - offset)") (auto simp: EXT_HEADER_SIZE_def)

declare extension_list_loop.simps [simp del]

definition is_extension_table_list_valid :: "bytes \<Rightarrow> nat \<Rightarrow> nat \<Rightarrow> bool option" where
  "is_extension_table_list_valid m start ext_table_length =
     (if ext_table_length > 0 then extension_list_loop m start ext_table_length 0 True else Some True)"

definition is_sub_table_valid ::
    "(bytes \<Rightarrow> nat \<Rightarrow> unit option) \<Rightarrow> nat \<Rightarrow> bytes \<Rightarrow> bytes \<Rightarrow> nat option \<Rightarrow> nat \<Rightarrow> bool option" where
  "is_sub_table_valid print table_size table_signature m p_table table_length =
     (case p_table of
        None \<Rightarrow> Some False
      | Some p \<Rightarrow>
          if table_length \<ge> table_size then do {
            len \<leftarrow> header_length m p;
            if len = table_length then do {
              _ \<leftarrow> print m p;
              ok \<leftarrow> is_config_data_table_header_valid m p table_length table_signature;
              if ok then is_extension_table_list_valid m (p + table_size) (table_length - table_size)
              else Some False }
            else Some False }
          else Some False)"

definition is_current_config_table_valid :: "bytes \<Rightarrow> nat option \<Rightarrow> nat \<Rightarrow> bool option" where
  "is_current_config_table_valid =
     is_sub_table_valid print_pcd_current CURRENT_CONFIG_SIZE CURRENT_CONFIG_TABLE_SIGNATURE"

definition is_config_input_table_valid :: "bytes \<Rightarrow> nat option \<Rightarrow> nat \<Rightarrow> bool option" where
  "is_config_input_table_valid =
     is_sub_table_valid print_pcd_input CONFIG_INPUT_SIZE CONFIG_INPUT_TABLE_SIGNATURE"

definition is_config_output_table_valid :: "bytes \<Rightarrow> nat option \<Rightarrow> nat \<Rightarrow> bool option" where
  "is_config_output_table_valid =
     is_sub_table_valid print_pcd_output CONFIG_OUTPUT_SIZE CONFIG_OUTPUT_TABLE_SIGNATURE"

definition check_config_output :: "bytes \<Rightarrow> int option" where
  "check_config_output m = do {
     sz \<leftarrow> rd32 m 52;
     if sz > 0 then do {
       p \<leftarrow> cast_config_output m;
       ok \<leftarrow> is_config_output_table_valid m p (unat sz);
       Some (if ok then NVM_SUCCESS else NVM_ERR_BADDEVICECONFIG) }
     else Some NVM_SUCCESS }"

definition check_config_input :: "bytes \<Rightarrow> int option" where
  "check_config_input m = do {
     sz \<leftarrow> rd32 m 44;
     if sz > 0 then do {
       p \<leftarrow> cast_config_input m;
       ok \<leftarrow> is_config_input_table_valid m p (unat sz);
       Some (if ok then NVM_SUCCESS else NVM_ERR_BADDEVICECONFIG) }
     else Some NVM_SUCCESS }"

definition check_current_config :: "bytes \<Rightarrow> int option" where
  "check_current_config m = do {
     sz \<leftarrow> rd32 m 36;
     if sz > 0 then do {
       p \<leftarrow> cast_current_config m;
       ok \<leftarrow> is_current_config_table_valid m p (unat sz);
       Some (if ok then NVM_SUCCESS else NVM_ERR_BADDEVICECONFIG) }
     else Some NVM_SUCCESS }"

definition are_pcd_header_table_size_and_offset_valid :: "u32 \<Rightarrow> u32 \<Rightarrow> bool" where
  "are_pcd_header_table_size_and_offset_valid table_size table_offset \<longleftrightarrow>
     (table_size = 0 \<and> table_offset = 0) \<or> (table_size > 0 \<and> unat table_offset \<ge> PCD_SIZE)"

definition is_pcd_header_current_config_info_valid :: "bytes \<Rightarrow> bool option" where
  "is_pcd_header_current_config_info_valid m = do {
     s \<leftarrow> rd32 m 36; off \<leftarrow> rd32 m 40; Some (are_pcd_header_table_size_and_offset_valid s off) }"

definition is_pcd_header_config_input_info_valid :: "bytes \<Rightarrow> bool option" where
  "is_pcd_header_config_input_info_valid m = do {
     s \<leftarrow> rd32 m 44; off \<leftarrow> rd32 m 48; Some (are_pcd_header_table_size_and_offset_valid s off) }"

definition is_pcd_header_config_output_info_valid :: "bytes \<Rightarrow> bool option" where
  "is_pcd_header_config_output_info_valid m = do {
     s \<leftarrow> rd32 m 52; off \<leftarrow> rd32 m 56; Some (are_pcd_header_table_size_and_offset_valid s off) }"

definition is_pcd_header_table_info_valid :: "bytes \<Rightarrow> bool option" where
  "is_pcd_header_table_info_valid m = do {
     a \<leftarrow> is_pcd_header_current_config_info_valid m;
     if \<not> a then Some False else do {
       b \<leftarrow> is_pcd_header_config_input_info_valid m;
       if \<not> b then Some False else is_pcd_header_config_output_info_valid m } }"

definition is_platform_config_header_valid :: "bytes option \<Rightarrow> nat \<Rightarrow> bool option" where
  "is_platform_config_header_valid p_config pcd_size =
     (case p_config of
        None \<Rightarrow> Some False
      | Some m \<Rightarrow> do {
          len \<leftarrow> header_length m 0;
          if len < PCD_SIZE then Some False
          else do {
            _ \<leftarrow> print_pcd_header m;
            ok \<leftarrow> is_config_data_table_header_valid m 0 pcd_size PLATFORM_CONFIG_TABLE_SIGNATURE;
            if \<not> ok then Some False else is_pcd_header_table_info_valid m } })"

definition check_platform_config_header :: "bytes option \<Rightarrow> nat \<Rightarrow> int option" where
  "check_platform_config_header p_config pcd_size = do {
     ok \<leftarrow> is_platform_config_header_valid p_config pcd_size;
     Some (if ok then NVM_SUCCESS else NVM_ERR_BADDEVICECONFIG) }"

definition check_platform_config :: "bytes option \<Rightarrow> nat \<Rightarrow> int option" where
  "check_platform_config p_config pcd_size =
     (case p_config of
        None \<Rightarrow> Some NVM_ERR_BADDEVICECONFIG
      | Some m \<Rightarrow> do {
          rc \<leftarrow> check_platform_config_header (Some m) pcd_size;
          if rc \<noteq> NVM_SUCCESS then Some rc
          else do {
            rc1 \<leftarrow> check_current_config m;
            if rc1 \<noteq> NVM_SUCCESS then Some rc1
            else do {
              rc2 \<leftarrow> check_config_input m;
              if rc2 \<noteq> NVM_SUCCESS then Some rc2 else check_config_output m } } })"

section \<open>Construction\<close>

definition place_sub_table :: "bytes \<Rightarrow> nat \<Rightarrow> bytes option \<Rightarrow> nat \<Rightarrow> nat \<Rightarrow> (int \<times> bytes \<times> nat) option" where
  "place_sub_table m size_field p_table sz offset =
     (if sz > 0 then do {
        m1 \<leftarrow> wr32 m (size_field + 4) (word_of_nat offset);
        m2 \<leftarrow> wr32 m1 size_field (word_of_nat sz);
        p \<leftarrow> cast_sub_table m2 size_field;
        (case p of
           None \<Rightarrow> Some (NVM_ERR_UNKNOWN, m2, offset + sz)
         | Some dest \<Rightarrow> do {
             src \<leftarrow> p_table;
             raw \<leftarrow> rd_bytes src 0 sz;
             m3 \<leftarrow> wr_bytes m2 dest raw;
             Some (NVM_SUCCESS, m3, offset + sz) }) }
      else Some (NVM_SUCCESS, m, offset))"

definition build_platform_config_data ::
    "(nat \<Rightarrow> bool) \<Rightarrow> bytes option \<Rightarrow> bytes option \<Rightarrow> bytes option \<Rightarrow> bytes ptr option \<Rightarrow>
     (int \<times> bytes ptr option) option" where
  "build_platform_config_data alloc p_current_config p_config_input p_config_output pp_config = do {
     current_cfg_size \<leftarrow> (case p_current_config of None \<Rightarrow> Some 0 | Some t \<Rightarrow> header_length t 0);
     input_size \<leftarrow> (case p_config_input of None \<Rightarrow> Some 0 | Some t \<Rightarrow> header_length t 0);
     output_size \<leftarrow> (case p_config_output of None \<Rightarrow> Some 0 | Some t \<Rightarrow> header_length t 0);
     if \<not> alloc DEV_PLT_CFG_OEM_PARTITION_SIZE then Some (NVM_ERR_NOMEMORY, pp_config)
     else do {
       let m0 = replicate DEV_PLT_CFG_OEM_PARTITION_SIZE 0;
       m1 \<leftarrow> wr32 m0 4 (word_of_nat PCD_SIZE);
       m2 \<leftarrow> wr_bytes m1 0 PLATFORM_CONFIG_TABLE_SIGNATURE;
       m3 \<leftarrow> wr m2 8 1;
       m4 \<leftarrow> wr_bytes m3 10 [73, 78, 84, 69, 76, 32];
       m5 \<leftarrow> wr_bytes m4 16 [80, 85, 82, 76, 69, 89, 32, 32];
       m6 \<leftarrow> wr32 m5 24 2;
       m7 \<leftarrow> wr_bytes m6 28 [73, 78, 84, 76];
       m8 \<leftarrow> wr32 m7 32 0;
       (rc1, m9, off1) \<leftarrow> place_sub_table m8 36 p_current_config current_cfg_size PCD_SIZE;
       (rc2, m10, off2) \<leftarrow> (if rc1 = NVM_SUCCESS
          then place_sub_table m9 44 p_config_input input_size off1 else Some (rc1, m9, off1));
       (rc3, m11, off3) \<leftarrow> (if rc2 = NVM_SUCCESS
          then place_sub_table m10 52 p_config_output output_size off2 else Some (rc2, m10, off2));
       if rc3 = NVM_SUCCESS then do {
         len \<leftarrow> header_length m11 0;
         m12 \<leftarrow> generate_checksum m11 len CHECKSUM_OFFSET;
         Some (if pp_config = Some Null then (NVM_SUCCESS, Some (Valid m12))
               else (NVM_ERR_INVALIDPARAMETER, pp_config)) }
       else Some (rc3, pp_config) } }"

section \<open>Readers of the extension tables\<close>

datatype config_error =
    CONFIG_ERROR_NOTFOUND
  | CONFIG_ERROR_BADREQUEST
  | CONFIG_ERROR_INSUFFICIENTRESOURCES
  | CONFIG_ERROR_FW
  | CONFIG_ERROR_BROKENINTERLEAVE
  | CONFIG_ERROR_UNKNOWN

definition partition_status_error :: "u32 \<Rightarrow> config_error" where
  "partition_status_error st =
     (if st = 3 then CONFIG_ERROR_BROKENINTERLEAVE
      else if st = 4 \<or> st = 8 then CONFIG_ERROR_BADREQUEST
      else if st = 5 \<or> st = 7 then CONFIG_ERROR_INSUFFICIENTRESOURCES
      else if st = 6 then CONFIG_ERROR_FW
      else if st = 1 then CONFIG_ERROR_NOTFOUND
      else CONFIG_ERROR_UNKNOWN)"

definition interleave_status_error :: "u8 \<Rightarrow> config_error" where
  "interleave_status_error st =
     (if st = 3 then CONFIG_ERROR_BROKENINTERLEAVE
      else if st = 4 \<or> st = 9 \<or> st = 10 \<or> st = 11 then CONFIG_ERROR_BADREQUEST
      else if st = 5 \<or> st = 6 \<or> st = 7 then CONFIG_ERROR_INSUFFICIENTRESOURCES
      else if st = 2 \<or> st = 1 \<or> st = 8 then CONFIG_ERROR_NOTFOUND
      else CONFIG_ERROR_UNKNOWN)"

function config_error_loop ::
    "bytes \<Rightarrow> nat \<Rightarrow> nat \<Rightarrow> nat \<Rightarrow> config_error \<Rightarrow> config_error option" where
  "config_error_loop m p_ext table_length offset status =
     (if offset < table_length \<and> status = CONFIG_ERROR_NOTFOUND then do {
        t \<leftarrow> rd16 m (p_ext + offset);
        len \<leftarrow> rd16 m (p_ext + offset + 2);
        if unat len \<le> EXT_HEADER_SIZE then Some CONFIG_ERROR_BADREQUEST
        else do {
          status' \<leftarrow>
            (if t = PARTITION_CHANGE_TABLE then
               map_option partition_status_error (rd32 m (p_ext + offset + 4))
             else if t = INTERLEAVE_TABLE then
               map_option interleave_status_error (rd m (p_ext + offset + 13))
             else Some status);
          config_error_loop m p_ext table_length (offset + unat len) status' } }
      else Some status)"
  by pat_completeness auto
termination
  by (relation "measure (\<lambda>(m, p, n, offset, s). n - offset)") (auto simp: EXT_HEADER_SIZE_def)

declare config_error_loop.simps [simp del]

text \<open>The subtraction of the table size from the length is done on \<open>size_t\<close> and may wrap.\<close>

definition size_sub :: "nat \<Rightarrow> nat \<Rightarrow> nat" where
  "size_sub a b = (if b \<le> a then a - b else 2 ^ 64 + a - b)"

definition get_config_error_from_config_output :: "bytes \<Rightarrow> nat \<Rightarrow> config_error option" where
  "get_config_error_from_config_output m p_config_output = do {
     len \<leftarrow> header_length m p_config_output;
     config_error_loop m (p_config_output + CONFIG_OUTPUT_SIZE) (size_sub len CONFIG_OUTPUT_SIZE) 0
       CONFIG_ERROR_NOTFOUND }"

datatype config_status =
    CONFIG_STATUS_NOT_CONFIGURED
  | CONFIG_STATUS_VALID
  | CONFIG_STATUS_ERR_CORRUPT
  | CONFIG_STATUS_ERR_BROKEN_INTERLEAVE
  | CONFIG_STATUS_ERR_REVERTED
  | CONFIG_STATUS_ERR_NOT_SUPPORTED
  | CONFIG_STATUS_UNKNOWN

definition get_config_status_from_current_config :: "bytes \<Rightarrow> nat \<Rightarrow> config_status option" where
  "get_config_status_from_current_config m p_current_config = do {
     st \<leftarrow> rd16 m (p_current_config + 36);
     Some (if st = 1 then CONFIG_STATUS_VALID
           else if st = 3 then CONFIG_STATUS_ERR_BROKEN_INTERLEAVE
           else if st = 5 \<or> st = 7 then CONFIG_STATUS_NOT_CONFIGURED
           else if st = 6 \<or> st = 8 \<or> st = 9 then CONFIG_STATUS_ERR_REVERTED
           else if st = 0 \<or> st = 4 \<or> st = 10 then CONFIG_STATUS_ERR_CORRUPT
           else CONFIG_STATUS_ERR_NOT_SUPPORTED) }"

text \<open>The result code and the highest index of the interleave sets seen so far.\<close>

function max_index_loop ::
    "bytes \<Rightarrow> nat \<Rightarrow> nat \<Rightarrow> nat \<Rightarrow> int \<times> u32 \<Rightarrow> (int \<times> u32) option" where
  "max_index_loop m p_ext table_length offset s =
     (if offset < table_length \<and> fst s = NVM_SUCCESS then do {
        len \<leftarrow> rd16 m (p_ext + offset + 2);
        if len = 0 then Some (NVM_ERR_UNKNOWN, snd s)
        else do {
          t \<leftarrow> rd16 m (p_ext + offset);
          s' \<leftarrow> (if t = INTERLEAVE_TABLE then do {
                   idx \<leftarrow> rd16 m (p_ext + offset + 4);
                   Some (fst s, if snd s < ucast idx then ucast idx else snd s) }
                 else Some s);
          max_index_loop m p_ext table_length (offset + unat len) s' } }
      else Some s)"
  by pat_completeness auto
termination
  by (relation "measure (\<lambda>(m, p, n, offset, s). n - offset)") (auto simp: unat_gt_0 intro!: diff_less_mono2)

declare max_index_loop.simps [simp del]

definition max_index_of_table :: "bytes \<Rightarrow> nat \<Rightarrow> nat \<Rightarrow> int \<times> u32 \<Rightarrow> (int \<times> u32) option" where
  "max_index_of_table m size_field table_size s = do {
     sz \<leftarrow> rd32 m size_field;
     if sz > 0 then do {
       off \<leftarrow> rd32 m (size_field + 4);
       len \<leftarrow> header_length m (unat off);
       if len > table_size
       then max_index_loop m (unat off + table_size) (len - table_size) 0 s
       else Some s }
     else Some s }"

text \<open>The walk of \<open>get_dimm_interleave_info_max_set_index\<close> over the PCD that it has fetched.\<close>

definition pcd_max_set_index :: "bytes \<Rightarrow> (int \<times> u32) option" where
  "pcd_max_set_index m = do {
     s \<leftarrow> max_index_of_table m 44 CONFIG_INPUT_SIZE (NVM_SUCCESS, 0);
     max_index_of_table m 36 CURRENT_CONFIG_SIZE s }"

definition interleave_set_has_offset :: "bytes \<Rightarrow> nat \<Rightarrow> u64 \<Rightarrow> bool option" where
  "interleave_set_has_offset m p_interleave_table interleave_set_offset = do {
     len \<leftarrow> rd16 m (p_interleave_table + 2);
     if INTERLEAVE_TABLE_SIZE + DIMM_INFO_SIZE \<le> unat len then do {
       off \<leftarrow> rd64 m (p_interleave_table + INTERLEAVE_TABLE_SIZE + 32);
       Some (interleave_set_offset = off) }
     else Some False }"

definition get_last_config_output_sequence_number :: "bytes \<Rightarrow> u32 option" where
  "get_last_config_output_sequence_number m = do {
     p \<leftarrow> cast_config_output m;
     (case p of None \<Rightarrow> Some 0 | Some q \<Rightarrow> rd32 m (q + 36)) }"

text \<open>
  The loop of \<open>get_interleave_settings_from_platform_config_data\<close>: the result code and, when an
  App Direct interleave set with the wanted offset is found, its index, its mirror flag and its
  interleave format.
\<close>

function interleave_settings_loop ::
    "bytes \<Rightarrow> nat \<Rightarrow> nat \<Rightarrow> u64 \<Rightarrow> nat \<Rightarrow> (int \<times> (u16 \<times> u8 \<times> u32) option) option" where
  "interleave_settings_loop m p_current_cfg table_length set_offset offset =
     (if offset < table_length then do {
        t \<leftarrow> rd16 m (p_current_cfg + offset);
        len \<leftarrow> rd16 m (p_current_cfg + offset + 2);
        if len = 0 \<or> offset + unat len > table_length then Some (NVM_ERR_BADDEVICECONFIG, None)
        else if t = INTERLEAVE_TABLE then do {
          mt \<leftarrow> rd m (p_current_cfg + offset + 7);
          has \<leftarrow> (if mt = 2 then interleave_set_has_offset m (p_current_cfg + offset) set_offset
                  else Some False);
          if has then do {
            idx \<leftarrow> rd16 m (p_current_cfg + offset + 4);
            mirror \<leftarrow> rd m (p_current_cfg + offset + 12);
            format \<leftarrow> rd32 m (p_current_cfg + offset + 8);
            Some (NVM_SUCCESS, Some (idx, mirror, format)) }
          else interleave_settings_loop m p_current_cfg table_length set_offset (offset + unat len) }
        else interleave_settings_loop m p_current_cfg table_length set_offset (offset + unat len) }
      else Some (NVM_SUCCESS, None))"
  by pat_completeness auto
termination
  by (relation "measure (\<lambda>(m, p, n, s, offset). n - offset)")
    (auto simp: unat_gt_0 intro!: diff_less_mono2)

declare interleave_settings_loop.simps [simp del]

definition interleave_settings_of_pcd ::
    "bytes \<Rightarrow> u64 \<Rightarrow> (int \<times> (u16 \<times> u8 \<times> u32) option) option" where
  "interleave_settings_of_pcd m set_offset = do {
     p \<leftarrow> cast_current_config m;
     (case p of
        None \<Rightarrow> Some (NVM_SUCCESS, None)
      | Some q \<Rightarrow> do {
          len \<leftarrow> header_length m q;
          (rc, found) \<leftarrow> interleave_settings_loop m q len set_offset CURRENT_CONFIG_SIZE;
          Some (if found = None then NVM_ERR_NOTFOUND else rc, found) }) }"

end
