(* ===== verification/Device_Status.thy ===== *)
theory Device_Status
  imports Firmware Sensors Capabilities Pcd_Tables
begin

text \<open>
  The state, the settings, the performance and the details of one device, and the capacities of all of them: the second
  half of \<open>lib/device.c\<close>. The state \<open>'s\<close> is that of the devices and the caches. The environment gives what other
  parts of the library answer: the capabilities, the listing of the devices, the PCD of a device, the interleave sets
  and partitions, the SMBIOS description and the cached details.
\<close>

unbundle bit_operations_syntax

section \<open>The state of a device\<close>

abbreviation SUBOP_POLICY_POW_MGMT :: u8 where "SUBOP_POLICY_POW_MGMT \<equiv> 0x02"
abbreviation SUBOP_POLICY_DIE_SPARING :: u8 where "SUBOP_POLICY_DIE_SPARING \<equiv> 0x03"
abbreviation SHUTDOWN_STATUS_UNKNOWN :: u8 where "SHUTDOWN_STATUS_UNKNOWN \<equiv> 0"
abbreviation CURRENT_CONFIG_STATUS_SUCCESS :: u16 where "CURRENT_CONFIG_STATUS_SUCCESS \<equiv> 1"
abbreviation CURRENT_CONFIG_STATUS_ERROR_USING_OLD :: u16 where "CURRENT_CONFIG_STATUS_ERROR_USING_OLD \<equiv> 6"

record fw_error_log_sequence_numbers =
  sq_oldest :: u16
  sq_current :: u16

record device_state =
  ds_health :: device_health
  ds_is_new :: bool
  ds_is_configured :: bool
  ds_is_missing :: bool
  ds_die_spares_available :: u8
  ds_last_shutdown_status :: u8
  ds_last_shutdown_status_extended :: bytes
  ds_config_status :: config_status
  ds_last_shutdown_time :: u64
  ds_mixed_sku :: bool
  ds_sku_violation :: bool
  ds_viral_state :: bool
  ds_ars_status :: device_ars_status
  ds_sanitize_status :: device_sanitize_status
  ds_new_error_count :: u32
  ds_newest_error_log_timestamp :: u64
  ds_ait_dram_enabled :: bool
  ds_boot_status :: u64
  ds_injected_media_errors :: u32
  ds_injected_non_media_errors :: u32
  ds_therm_low :: fw_error_log_sequence_numbers
  ds_therm_high :: fw_error_log_sequence_numbers
  ds_media_low :: fw_error_log_sequence_numbers
  ds_media_high :: fw_error_log_sequence_numbers

definition zero_device_state :: device_state where
  "zero_device_state =
     \<lparr>ds_health = DEVICE_HEALTH_UNKNOWN, ds_is_new = False, ds_is_configured = False, ds_is_missing = False,
      ds_die_spares_available = 0, ds_last_shutdown_status = SHUTDOWN_STATUS_UNKNOWN,
      ds_last_shutdown_status_extended = [0, 0, 0], ds_config_status = CONFIG_STATUS_NOT_CONFIGURED,
      ds_last_shutdown_time = 0, ds_mixed_sku = False, ds_sku_violation = False, ds_viral_state = False,
      ds_ars_status = DEVICE_ARS_STATUS_UNKNOWN, ds_sanitize_status = DEVICE_SANITIZE_STATUS_UNKNOWN,
      ds_new_error_count = 0, ds_newest_error_log_timestamp = 0, ds_ait_dram_enabled = False, ds_boot_status = 0,
      ds_injected_media_errors = 0, ds_injected_non_media_errors = 0,
      ds_therm_low = \<lparr>sq_oldest = 0, sq_current = 0\<rparr>, ds_therm_high = \<lparr>sq_oldest = 0, sq_current = 0\<rparr>,
      ds_media_low = \<lparr>sq_oldest = 0, sq_current = 0\<rparr>, ds_media_high = \<lparr>sq_oldest = 0, sq_current = 0\<rparr>\<rparr>"

definition get_fw_die_spare_policy :: "'s passthrough \<Rightarrow> u32 \<Rightarrow> bytes \<Rightarrow> 's \<Rightarrow> int \<times> bytes \<times> 's" where
  "get_fw_die_spare_policy pt handle payload =
     run_get pt (with_output payload (new_cmd handle PT_GET_FEATURES SUBOP_POLICY_DIE_SPARING))"

definition get_fw_power_mgmt_policy :: "'s passthrough \<Rightarrow> u32 \<Rightarrow> bytes \<Rightarrow> 's \<Rightarrow> int \<times> bytes \<times> 's" where
  "get_fw_power_mgmt_policy pt handle payload =
     run_get pt (with_output payload (new_cmd handle PT_GET_FEATURES SUBOP_POLICY_POW_MGMT))"

text \<open>\<open>pcd\<close> is what \<open>get_dimm_platform_config\<close> returns: its code and the PCD; the status of the current table is at 36.\<close>

definition config_status_of_pcd :: "bytes \<Rightarrow> device_state \<Rightarrow> device_state option" where
  "config_status_of_pcd m st = do {
     cur \<leftarrow> cast_current_config m;
     (case cur of
        None \<Rightarrow> Some (st\<lparr>ds_config_status := CONFIG_STATUS_UNKNOWN\<rparr>)
      | Some p \<Rightarrow> do {
          cs \<leftarrow> get_config_status_from_current_config m p;
          raw \<leftarrow> rd16 m (p + 36);
          let st1 = (if cs = CONFIG_STATUS_NOT_CONFIGURED then st\<lparr>ds_config_status := cs, ds_is_new := True\<rparr>
                     else st\<lparr>ds_config_status := cs\<rparr>);
          Some (if raw = CURRENT_CONFIG_STATUS_SUCCESS \<or> raw = CURRENT_CONFIG_STATUS_ERROR_USING_OLD
                then st1\<lparr>ds_is_configured := True\<rparr> else st1) }) }"

definition fill_device_config_status ::
    "nvm_caps \<Rightarrow> int \<times> bytes option \<Rightarrow> device_state \<Rightarrow> (int \<times> device_state) option" where
  "fill_device_config_status caps pcd st =
     (let st0 = st\<lparr>ds_config_status := CONFIG_STATUS_ERR_CORRUPT, ds_is_new := False, ds_is_configured := False\<rparr> in
      if \<not> get_device_capacity_f (nvm_features caps) then Some (NVM_ERR_NOTSUPPORTED, st0)
      else let st1 = st0\<lparr>ds_config_status := CONFIG_STATUS_NOT_CONFIGURED\<rparr> in
        if fst pcd = NVM_SUCCESS then do {
          m \<leftarrow> snd pcd;
          st2 \<leftarrow> config_status_of_pcd m st1;
          Some (NVM_SUCCESS, st2) }
        else Some (fst pcd, st1))"

text \<open>
  The vendor data begins at 36: the last shutdown at 64, its time at 65, its extension at 73 and the injected errors
  at 76 and 80, which are taken whatever the flags say. The flag of the AIT DRAM is bit 6.
\<close>

definition status_of_smart_health :: "bytes \<Rightarrow> device_state \<Rightarrow> device_state option" where
  "status_of_smart_health p st = do {
     h \<leftarrow> read_smart_health p;
     lss \<leftarrow> rd p 64; time \<leftarrow> rd64 p 65; ext \<leftarrow> rd_bytes p 73 3; ait \<leftarrow> rd p 20;
     media \<leftarrow> rd32 p 76; non_media \<leftarrow> rd32 p 80;
     let st1 = st\<lparr>ds_health := (if health_status_field h then smart_health_status_to_device_health (health_status h)
                             else DEVICE_HEALTH_UNKNOWN)\<rparr>;
     let st2 = (if sizeof_vendor_data_field h
                then st1\<lparr>ds_last_shutdown_status := lss, ds_last_shutdown_status_extended := ext, ds_last_shutdown_time := time\<rparr>
                else st1);
     let st3 = (if bit (validation_flags h) 6 then st2\<lparr>ds_ait_dram_enabled := (ait \<noteq> 0)\<rparr> else st2);
     Some (st3\<lparr>ds_injected_media_errors := media, ds_injected_non_media_errors := non_media\<rparr>) }"

definition fill_device_status_from_smart_health ::
    "'s passthrough \<Rightarrow> u32 \<Rightarrow> device_state \<Rightarrow> 's \<Rightarrow> (int \<times> device_state \<times> 's) option" where
  "fill_device_status_from_smart_health pt handle st s =
     (case fw_get_smart_health pt handle s of (rc, p, s1) \<Rightarrow>
        if rc \<noteq> NVM_SUCCESS then Some (rc, st, s1)
        else do { st1 \<leftarrow> status_of_smart_health p st; Some (rc, st1, s1) })"

text \<open>
  The log information has the current sequence number at 2, the oldest at 4 and the newest time at 14. The difference of
  the numbers is added as an int to a counter of 32 bits.
\<close>

definition set_sequence_numbers ::
    "u8 \<Rightarrow> u8 \<Rightarrow> fw_error_log_sequence_numbers \<Rightarrow> device_state \<Rightarrow> device_state" where
  "set_sequence_numbers log_type log_level sq st =
     (if log_type = DEV_FW_ERR_LOG_MEDIA \<and> log_level = DEV_FW_ERR_LOG_LOW then st\<lparr>ds_media_low := sq\<rparr>
      else if log_type = DEV_FW_ERR_LOG_MEDIA \<and> log_level = DEV_FW_ERR_LOG_HIGH then st\<lparr>ds_media_high := sq\<rparr>
      else if log_type = DEV_FW_ERR_LOG_THERMAL \<and> log_level = DEV_FW_ERR_LOG_LOW then st\<lparr>ds_therm_low := sq\<rparr>
      else if log_type = DEV_FW_ERR_LOG_THERMAL \<and> log_level = DEV_FW_ERR_LOG_HIGH then st\<lparr>ds_therm_high := sq\<rparr>
      else st)"

definition update_status_fw_error_log_info_by_type_and_level ::
    "'s passthrough \<Rightarrow> u32 \<Rightarrow> u8 \<Rightarrow> u8 \<Rightarrow> device_state \<Rightarrow> 's \<Rightarrow> (int \<times> device_state \<times> 's) option" where
  "update_status_fw_error_log_info_by_type_and_level pt handle log_type log_level st s =
     (case fw_get_fw_error_log_info_data pt handle log_level log_type (zeros SMALL_PAYLOAD) s of (rc, p, s1) \<Rightarrow> do {
        current \<leftarrow> rd16 p 2; oldest \<leftarrow> rd16 p 4; newest \<leftarrow> rd64 p 14;
        let st1 = st\<lparr>ds_new_error_count := ds_new_error_count st + (ucast current - ucast oldest),
          ds_newest_error_log_timestamp := max (ds_newest_error_log_timestamp st) newest\<rparr>;
        Some (KEEP_ERROR NVM_SUCCESS rc, set_sequence_numbers log_type log_level \<lparr>sq_oldest = oldest, sq_current = current\<rparr> st1, s1) })"

fun error_logs_loop ::
    "'s passthrough \<Rightarrow> u32 \<Rightarrow> (u8 \<times> u8) list \<Rightarrow> int \<Rightarrow> device_state \<Rightarrow> 's \<Rightarrow> (int \<times> device_state \<times> 's) option" where
  "error_logs_loop pt handle [] rc st s = Some (rc, st, s)"
| "error_logs_loop pt handle ((type, level) # logs) rc st s = do {
     (r, st1, s1) \<leftarrow> update_status_fw_error_log_info_by_type_and_level pt handle type level st s;
     error_logs_loop pt handle logs (KEEP_ERROR rc r) st1 s1 }"

definition fill_fw_error_log_status ::
    "'s passthrough \<Rightarrow> u32 \<Rightarrow> device_state \<Rightarrow> 's \<Rightarrow> (int \<times> device_state \<times> 's) option" where
  "fill_fw_error_log_status pt handle st s =
     error_logs_loop pt handle
       [(DEV_FW_ERR_LOG_MEDIA, DEV_FW_ERR_LOG_LOW), (DEV_FW_ERR_LOG_MEDIA, DEV_FW_ERR_LOG_HIGH),
        (DEV_FW_ERR_LOG_THERMAL, DEV_FW_ERR_LOG_LOW), (DEV_FW_ERR_LOG_THERMAL, DEV_FW_ERR_LOG_HIGH)]
       NVM_SUCCESS (st\<lparr>ds_new_error_count := 0, ds_newest_error_log_timestamp := 0\<rparr>) s"

section \<open>The environment\<close>

record device_performance =
  pf_time :: u64
  pf_bytes_read :: u64
  pf_host_reads :: u64
  pf_bytes_written :: u64
  pf_host_writes :: u64
  pf_block_reads :: u64
  pf_block_writes :: u64

record device_settings =
  dv_first_fast_refresh :: u8
  dv_viral_policy :: u8

record device_details =
  dt_discovery :: dimm_device
  dt_status :: device_state
  dt_fw_info :: device_fw_info
  dt_performance :: device_performance
  dt_sensors :: "sensor list"
  dt_capacities :: device_capacities
  dt_form_factor :: device_form_factor
  dt_data_width :: u64
  dt_total_width :: u64
  dt_speed :: u64
  dt_device_locator :: bytes
  dt_bank_label :: bytes
  dt_power_management_enabled :: u8
  dt_power_limit :: u8
  dt_peak_power_budget :: u16
  dt_avg_power_budget :: u16
  dt_die_sparing_enabled :: u8
  dt_die_sparing_level :: u8
  dt_settings :: device_settings

text \<open>\<open>sv_count\<close> and \<open>sv_list\<close> are the results of \<open>nvm_get_device_count\<close> and \<open>nvm_get_devices\<close>, \<open>sv_time\<close> is the clock.\<close>

record 's status_env =
  sv_sensors :: "'s sensor_env"
  sv_firmware :: "'s firmware_env"
  sv_caps :: "'s \<Rightarrow> int \<times> nvm_caps \<times> 's"
  sv_count :: int
  sv_list :: "int \<times> dimm_device list"
  sv_alloc :: "nat \<Rightarrow> bool"
  sv_pcd :: "u32 \<Rightarrow> int \<times> bytes option"
  sv_partition :: "u32 \<Rightarrow> int \<times> pt_payload_get_dimm_partition_info"
  sv_isets :: "int \<times> int \<times> nvm_interleave_set list"
  sv_smbios :: "u32 \<Rightarrow> int \<times> nvm_details"
  sv_time :: u64
  sv_get_details :: "bytes \<Rightarrow> 's \<Rightarrow> device_details option"
  sv_set_details :: "bytes \<Rightarrow> device_details \<Rightarrow> 's \<Rightarrow> 's"

abbreviation sv_base :: "'s status_env \<Rightarrow> 's security_env" where "sv_base E \<equiv> sn_base (sv_sensors E)"
abbreviation sv_ioctl :: "'s status_env \<Rightarrow> 's passthrough" where "sv_ioctl E \<equiv> se_ioctl (sv_base E)"

text \<open>The tests that open the operations on a device with a feature: \<open>IS_NVM_FEATURE_SUPPORTED\<close> is the third.\<close>

definition feature_guards :: "'s status_env \<Rightarrow> (nvm_features \<Rightarrow> bool) \<Rightarrow> bytes option \<Rightarrow> bool \<Rightarrow> 's \<Rightarrow> int \<times> 's" where
  "feature_guards E feature device_uid given s =
     (if \<not> se_permitted (sv_base E) then (NVM_ERR_INVALIDPERMISSIONS, s)
      else if \<not> se_driver (sv_base E) then (NVM_ERR_BADDRIVER, s)
      else (case sv_caps E s of (rc, caps, s1) \<Rightarrow>
        (if rc \<noteq> NVM_SUCCESS then rc
         else if \<not> feature (nvm_features caps) then NVM_ERR_NOTSUPPORTED
         else if device_uid = None then NVM_ERR_INVALIDPARAMETER
         else if \<not> given then NVM_ERR_INVALIDPARAMETER
         else NVM_SUCCESS, s1)))"

section \<open>The status\<close>

text \<open>The violation of the devices with the handle; the list has as many entries as were counted.\<close>

function sku_violation_loop ::
    "'s status_env \<Rightarrow> u32 \<Rightarrow> dimm_device list \<Rightarrow> nat \<Rightarrow> nat \<Rightarrow> int \<Rightarrow> bool \<Rightarrow> (int \<times> bool) option" where
  "sku_violation_loop E handle devices n i rc v =
     (if i < n then do {
        x \<leftarrow> rd devices i;
        (rc', v') \<leftarrow>
          (if disc_handle x = handle then do {
             (r, w) \<leftarrow> device_in_sku_violation (sv_partition E) (sv_isets E) x;
             Some (KEEP_ERROR rc r, w) }
           else Some (rc, v));
        sku_violation_loop E handle devices n (Suc i) rc' v' }
      else Some (rc, v))"
  by pat_completeness auto
termination
  by (relation "measure (\<lambda>(E, h, ds, n, i, rc, v). n - i)") auto

declare sku_violation_loop.simps [simp del]

definition get_sku_violation_state_for_device :: "'s status_env \<Rightarrow> u32 \<Rightarrow> bool \<Rightarrow> (int \<times> bool) option" where
  "get_sku_violation_state_for_device E handle v =
     (if sv_count E > 0 then
        if \<not> sv_alloc E (nat (sv_count E)) then Some (NVM_ERR_NOMEMORY, v)
        else if fst (sv_list E) = sv_count E
        then sku_violation_loop E handle (snd (sv_list E)) (nat (sv_count E)) 0 NVM_SUCCESS v
        else Some (fst (sv_list E), v)
      else Some (sv_count E, v))"

text \<open>The value of the text of a version as \<open>atof\<close> reads it: the digits before the point, and those behind it.\<close>

definition version_number :: "bytes \<Rightarrow> rat" where
  "version_number v =
     (let t = cstr v; whole = takeWhile isdigit t; rest = dropWhile isdigit t;
          frac = (case rest of [] \<Rightarrow> [] | c # r \<Rightarrow> if c = 46 then takeWhile isdigit r else []) in
      of_nat (dec_val whole) + of_nat (dec_val frac) / 10 ^ length frac)"

definition is_fw_version_greater_than_1_3 :: "int \<times> dimm_device list option \<Rightarrow> u32 \<Rightarrow> bool option" where
  "is_fw_version_greater_than_1_3 devices handle = do {
     (rc, x) \<leftarrow> lookup_dev_handle devices handle;
     if rc = NVM_SUCCESS then do { y \<leftarrow> x; Some (version_number (disc_fw_api_version y) > 13 / 10) }
     else Some False }"

definition spares_of_ranks :: "u8 \<Rightarrow> u8" where
  "spares_of_ranks b =
     (b AND 0x01) + drop_bit 1 (b AND 0x02) + drop_bit 2 (b AND 0x04) + drop_bit 3 (b AND 0x08)"

definition die_spares_status ::
    "'s status_env \<Rightarrow> u32 \<Rightarrow> device_state \<Rightarrow> 's \<Rightarrow> (device_state \<times> 's) option" where
  "die_spares_status E handle st s =
     (case get_fw_die_spare_policy (sv_ioctl E) handle (zeros SMALL_PAYLOAD) s of (rc, p, s1) \<Rightarrow>
        if rc \<noteq> NVM_SUCCESS then Some (st, s1)
        else (case se_devices (sv_base E) s1 of (n, devs, s2) \<Rightarrow> do {
          newer \<leftarrow> is_fw_version_greater_than_1_3 (n, devs) handle;
          spares \<leftarrow> rd p 2;
          Some (st\<lparr>ds_die_spares_available := (if newer then spares else spares_of_ranks spares)\<rparr>, s2) }))"

text \<open>The long operation status as the fields of its payload; its code is 0 where the command failed.\<close>

definition read_long_op_stat :: "bytes \<Rightarrow> pt_payload_long_op_stat option" where
  "read_long_op_stat p = do {
     command \<leftarrow> rd16 p 0; percent \<leftarrow> rd16 p 2; etc \<leftarrow> rd32 p 4; code \<leftarrow> rd p 8; rest \<leftarrow> rd_bytes p 9 119;
     Some \<lparr>lo_command = command, lo_percent_complete = percent, lo_etc = etc, lo_status_code = code,
       lo_command_specific_data = rest\<rparr> }"

definition long_op_status :: "'s passthrough \<Rightarrow> u32 \<Rightarrow> device_state \<Rightarrow> 's \<Rightarrow> (device_state \<times> 's) option" where
  "long_op_status pt handle st s =
     (case fw_get_status_for_long_op pt handle (zeros SMALL_PAYLOAD) s of (rc, p, s1) \<Rightarrow> do {
        payload \<leftarrow> read_long_op_stat p;
        (_, ars, sanitize) \<leftarrow> get_long_status (rc, payload);
        Some (st\<lparr>ds_ars_status := ars, ds_sanitize_status := sanitize\<rparr>, s1) })"

definition viral_status :: "'s passthrough \<Rightarrow> bytes \<Rightarrow> u32 \<Rightarrow> device_state \<Rightarrow> 's \<Rightarrow> (device_state \<times> 's) option" where
  "viral_status pt garbage handle st s =
     (case fw_get_config_data_policy pt handle garbage s of (rc, p, s1) \<Rightarrow>
        if rc \<noteq> NVM_SUCCESS then Some (st, s1)
        else do { v \<leftarrow> rd p 2; Some (st\<lparr>ds_viral_state := (v \<noteq> 0)\<rparr>, s1) })"

definition boot_status :: "'s passthrough \<Rightarrow> u32 \<Rightarrow> device_state \<Rightarrow> 's \<Rightarrow> (device_state \<times> 's) option" where
  "boot_status pt handle st s =
     (case fw_get_bsr pt handle (le_bytes 8 (unat (ds_boot_status st))) s of (rc, p, s1) \<Rightarrow> do {
        bsr \<leftarrow> rd64 p 0;
        Some (st\<lparr>ds_boot_status := bsr\<rparr>, s1) })"

text \<open>No failure of a part stops the others; \<open>garbage\<close> is the uninitialised payload of the policy.\<close>

definition get_device_status_by_handle ::
    "'s status_env \<Rightarrow> bytes \<Rightarrow> u32 \<Rightarrow> nvm_caps \<Rightarrow> 's \<Rightarrow> (device_state \<times> 's) option" where
  "get_device_status_by_handle E garbage handle caps s = do {
     (st1, s1) \<leftarrow> die_spares_status E handle zero_device_state s;
     (st2, s2) \<leftarrow> long_op_status (sv_ioctl E) handle st1 s1;
     (_, st3, s3) \<leftarrow> fill_device_status_from_smart_health (sv_ioctl E) handle st2 s2;
     (_, st4) \<leftarrow> fill_device_config_status caps (sv_pcd E handle) st3;
     (_, v) \<leftarrow> get_sku_violation_state_for_device E handle (ds_sku_violation st4);
     (st6, s6) \<leftarrow> viral_status (sv_ioctl E) garbage handle
       (st4\<lparr>ds_mixed_sku := mixed_sku (sku_capabilities caps), ds_sku_violation := v\<rparr>) s3;
     (_, st7, s7) \<leftarrow> fill_fw_error_log_status (sv_ioctl E) handle st6 s6;
     boot_status (sv_ioctl E) handle st7 s7 }"

definition nvm_get_device_status ::
    "'s status_env \<Rightarrow> bytes \<Rightarrow> bytes option \<Rightarrow> device_state option \<Rightarrow> 's \<Rightarrow> (int \<times> device_state option \<times> 's) option" where
  "nvm_get_device_status E garbage device_uid p_status s =
     (if \<not> se_permitted (sv_base E) then Some (NVM_ERR_INVALIDPERMISSIONS, p_status, s)
      else if \<not> se_driver (sv_base E) then Some (NVM_ERR_BADDRIVER, p_status, s)
      else if device_uid = None then Some (NVM_ERR_INVALIDPARAMETER, p_status, s)
      else (case sv_caps E s of (rc, caps, s1) \<Rightarrow>
        if rc \<noteq> NVM_SUCCESS then Some (rc, p_status, s1)
        else if \<not> get_device_health_f (nvm_features caps) then Some (NVM_ERR_NOTSUPPORTED, p_status, s1)
        else if p_status = None then Some (NVM_ERR_INVALIDPARAMETER, p_status, s1)
        else do {
          (rc1, discovery, s2) \<leftarrow> exists_manageable_device (sv_base E) device_uid s1;
          if rc1 \<noteq> NVM_SUCCESS then Some (rc1, p_status, s2)
          else do {
            x \<leftarrow> discovery;
            (st, s3) \<leftarrow> get_device_status_by_handle E garbage (disc_handle x) caps s2;
            Some (rc1, Some st, s3) } }))"

section \<open>Settings\<close>

definition nvm_get_device_settings ::
    "'s status_env \<Rightarrow> bytes \<Rightarrow> bytes option \<Rightarrow> device_settings option \<Rightarrow> 's \<Rightarrow> (int \<times> device_settings option \<times> 's) option" where
  "nvm_get_device_settings E garbage device_uid p_settings s =
     (case feature_guards E get_device_settings_f device_uid (p_settings \<noteq> None) s of (rc, s1) \<Rightarrow>
        if rc \<noteq> NVM_SUCCESS then Some (rc, p_settings, s1)
        else do {
          (rc1, discovery, s2) \<leftarrow> exists_manageable_device (sv_base E) device_uid s1;
          if rc1 \<noteq> NVM_SUCCESS then Some (rc1, p_settings, s2)
          else do {
            x \<leftarrow> discovery;
            (case fw_get_config_data_policy (sv_ioctl E) (disc_handle x) garbage s2 of (rc2, p, s3) \<Rightarrow>
               if rc2 \<noteq> NVM_SUCCESS then Some (rc2, Some \<lparr>dv_first_fast_refresh = 0, dv_viral_policy = 0\<rparr>, s3)
               else do {
                 ffr \<leftarrow> rd p 0; viral \<leftarrow> rd p 1;
                 Some (rc2, Some \<lparr>dv_first_fast_refresh = ffr, dv_viral_policy = viral\<rparr>, s3) }) } })"

definition nvm_modify_device_settings ::
    "'s status_env \<Rightarrow> bytes option \<Rightarrow> device_settings option \<Rightarrow> 's \<Rightarrow> (int \<times> 's) option" where
  "nvm_modify_device_settings E device_uid p_settings s =
     (case feature_guards E modify_device_settings_f device_uid (p_settings \<noteq> None) s of (rc, s1) \<Rightarrow>
        if rc \<noteq> NVM_SUCCESS then Some (rc, s1)
        else do {
          (rc1, discovery, s2) \<leftarrow> exists_manageable_device (sv_base E) device_uid s1;
          if rc1 \<noteq> NVM_SUCCESS then Some (rc1, s2)
          else do {
            x \<leftarrow> discovery;
            st \<leftarrow> p_settings;
            (case fw_set_config_data_policy (sv_ioctl E) (disc_handle x)
                ([dv_first_fast_refresh st, dv_viral_policy st] @ zeros 126) s2 of (rc2, s3) \<Rightarrow>
               Some (rc2, if rc2 = NVM_SUCCESS then se_invalidate (sv_base E) s3 else s3)) } })"

section \<open>Performance\<close>

text \<open>Of every counter of sixteen bytes the low eight are taken.\<close>

definition NVM_8_BYTE_ARRAY_TO_64_BIT_VALUE :: "bytes \<Rightarrow> nat \<Rightarrow> u64 option" where
  "NVM_8_BYTE_ARRAY_TO_64_BIT_VALUE arr off = rd64 arr off"

definition read_memory_info_page1 :: "bytes \<Rightarrow> u64 \<Rightarrow> device_performance option" where
  "read_memory_info_page1 p time = do {
     br \<leftarrow> NVM_8_BYTE_ARRAY_TO_64_BIT_VALUE p 0;
     bw \<leftarrow> NVM_8_BYTE_ARRAY_TO_64_BIT_VALUE p 16;
     hr \<leftarrow> NVM_8_BYTE_ARRAY_TO_64_BIT_VALUE p 32;
     hw \<leftarrow> NVM_8_BYTE_ARRAY_TO_64_BIT_VALUE p 48;
     kr \<leftarrow> NVM_8_BYTE_ARRAY_TO_64_BIT_VALUE p 64;
     kw \<leftarrow> NVM_8_BYTE_ARRAY_TO_64_BIT_VALUE p 80;
     Some \<lparr>pf_time = time, pf_bytes_read = br, pf_host_reads = hr, pf_bytes_written = bw, pf_host_writes = hw,
       pf_block_reads = kr, pf_block_writes = kw\<rparr> }"

definition zero_performance :: "u64 \<Rightarrow> device_performance" where
  "zero_performance time = \<lparr>pf_time = time, pf_bytes_read = 0, pf_host_reads = 0, pf_bytes_written = 0,
     pf_host_writes = 0, pf_block_reads = 0, pf_block_writes = 0\<rparr>"

definition nvm_get_device_performance ::
    "'s status_env \<Rightarrow> bytes option \<Rightarrow> device_performance option \<Rightarrow> 's \<Rightarrow> (int \<times> device_performance option \<times> 's) option" where
  "nvm_get_device_performance E device_uid p_performance s =
     (case feature_guards E get_device_performance_f device_uid (p_performance \<noteq> None) s of (rc, s1) \<Rightarrow>
        if rc \<noteq> NVM_SUCCESS then Some (rc, p_performance, s1)
        else do {
          (rc1, discovery, s2) \<leftarrow> exists_manageable_device (sv_base E) device_uid s1;
          if rc1 \<noteq> NVM_SUCCESS then Some (rc1, p_performance, s2)
          else do {
            x \<leftarrow> discovery;
            (case fw_get_memory_info_page (sv_ioctl E) (disc_handle x) 1 128 s2 of (rc2, p, s3) \<Rightarrow>
               if rc2 \<noteq> NVM_SUCCESS then Some (rc2, Some (zero_performance (sv_time E)), s3)
               else do { pf \<leftarrow> read_memory_info_page1 p (sv_time E); Some (rc2, Some pf, s3) }) } })"

section \<open>Capacities\<close>

text \<open>The mirrored capacity is not among the sums.\<close>

definition sum_capacities :: "device_capacities \<Rightarrow> device_capacities \<Rightarrow> device_capacities" where
  "sum_capacities a d = a\<lparr>dc_capacity := dc_capacity a + dc_capacity d,
     dc_memory_capacity := dc_memory_capacity a + dc_memory_capacity d,
     dc_app_direct_capacity := dc_app_direct_capacity a + dc_app_direct_capacity d,
     dc_unconfigured_capacity := dc_unconfigured_capacity a + dc_unconfigured_capacity d,
     dc_storage_capacity := dc_storage_capacity a + dc_storage_capacity d,
     dc_inaccessible_capacity := dc_inaccessible_capacity a + dc_inaccessible_capacity d,
     dc_reserved_capacity := dc_reserved_capacity a + dc_reserved_capacity d\<rparr>"

definition device_capacities_of ::
    "'s status_env \<Rightarrow> nvm_caps \<Rightarrow> int \<times> dimm_device list option \<Rightarrow> dimm_device \<Rightarrow> device_capacities \<Rightarrow>
     (int \<times> device_capacities option) option" where
  "device_capacities_of E caps devices x c =
     get_dimm_capacities devices (sv_isets E) (sv_partition E (disc_handle x)) x (capacity_view caps) (Some c)"

text \<open>The local structure of the loop is uninitialised; \<open>get_dimm_capacities\<close> clears it.\<close>

function total_capacities_loop ::
    "'s status_env \<Rightarrow> nvm_caps \<Rightarrow> int \<times> dimm_device list option \<Rightarrow> dimm_device list \<Rightarrow> nat \<Rightarrow> nat \<Rightarrow> int \<Rightarrow> device_capacities \<Rightarrow>
     (int \<times> device_capacities) option" where
  "total_capacities_loop E caps looked devices n i rc acc =
     (if i < n then do {
        x \<leftarrow> rd devices i;
        (rc', acc') \<leftarrow>
          (if disc_manageability x = MANAGEMENT_VALIDCONFIG then do {
             (temp_rc, c) \<leftarrow> device_capacities_of E caps looked x zero_capacities;
             d \<leftarrow> c;
             Some (if temp_rc = NVM_SUCCESS then (rc, sum_capacities acc d) else (KEEP_ERROR rc temp_rc, acc)) }
           else Some (rc, acc));
        total_capacities_loop E caps looked devices n (Suc i) rc' acc' }
      else Some (rc, acc))"
  by pat_completeness auto
termination
  by (relation "measure (\<lambda>(E, c, l, ds, n, i, rc, a). n - i)") auto

declare total_capacities_loop.simps [simp del]

text \<open>\<open>looked\<close>: what the look-up of a device by its handle reads.\<close>

definition nvm_get_nvm_capacities ::
    "'s status_env \<Rightarrow> int \<times> dimm_device list option \<Rightarrow> device_capacities option \<Rightarrow> 's \<Rightarrow>
     (int \<times> device_capacities option \<times> 's) option" where
  "nvm_get_nvm_capacities E looked p_capacities s =
     (if \<not> se_permitted (sv_base E) then Some (NVM_ERR_INVALIDPERMISSIONS, p_capacities, s)
      else if \<not> se_driver (sv_base E) then Some (NVM_ERR_BADDRIVER, p_capacities, s)
      else (case sv_caps E s of (rc, caps, s1) \<Rightarrow>
        if rc \<noteq> NVM_SUCCESS then Some (rc, p_capacities, s1)
        else if \<not> get_device_capacity_f (nvm_features caps) then Some (NVM_ERR_NOTSUPPORTED, p_capacities, s1)
        else if p_capacities = None then Some (NVM_ERR_INVALIDPARAMETER, None, s1)
        else if sv_count E > 0 then
          if \<not> sv_alloc E (nat (sv_count E)) then Some (NVM_ERR_NOMEMORY, Some zero_capacities, s1)
          else if fst (sv_list E) = sv_count E then do {
            (rc', c) \<leftarrow> total_capacities_loop E caps looked (snd (sv_list E)) (nat (sv_count E)) 0 NVM_SUCCESS zero_capacities;
            Some (rc', Some c, s1) }
          else Some (fst (sv_list E), Some zero_capacities, s1)
        else Some (sv_count E, Some zero_capacities, s1)))"

section \<open>Details\<close>

definition get_details :: "'s status_env \<Rightarrow> device_details \<Rightarrow> (int \<times> device_details) option" where
  "get_details E dt =
     (case sv_smbios E (disc_handle (dt_discovery dt)) of (rc, nd) \<Rightarrow>
        if rc = NVM_SUCCESS then do {
          (loc, _) \<leftarrow> s_strcpy (Some (dt_device_locator dt)) (Some (nd_device_locator nd)) 128;
          (bank, _) \<leftarrow> s_strcpy (Some (dt_bank_label dt)) (Some (nd_bank_label nd)) 128;
          l \<leftarrow> loc; b \<leftarrow> bank;
          Some (rc, dt\<lparr>dt_form_factor := get_device_form_factor_from_smbios_form_factor (nd_form_factor nd),
            dt_data_width := nd_data_width nd, dt_total_width := nd_total_width nd, dt_speed := nd_speed nd,
            dt_device_locator := l, dt_bank_label := b\<rparr>) }
        else Some (rc, dt))"

definition populate_power_mgmt_policy_details ::
    "'s passthrough \<Rightarrow> device_details \<Rightarrow> 's \<Rightarrow> (int \<times> device_details \<times> 's) option" where
  "populate_power_mgmt_policy_details pt dt s =
     (case get_fw_power_mgmt_policy pt (disc_handle (dt_discovery dt)) (zeros SMALL_PAYLOAD) s of (rc, p, s1) \<Rightarrow>
        if rc = NVM_SUCCESS then do {
          en \<leftarrow> rd p 0; peak \<leftarrow> rd16 p 1; avg \<leftarrow> rd16 p 3; tdp \<leftarrow> rd p 5;
          Some (rc, dt\<lparr>dt_power_management_enabled := en, dt_power_limit := tdp, dt_peak_power_budget := peak,
            dt_avg_power_budget := avg\<rparr>, s1) }
        else Some (rc, dt, s1))"

definition populate_die_sparing_policy_details ::
    "'s passthrough \<Rightarrow> device_details \<Rightarrow> 's \<Rightarrow> (int \<times> device_details \<times> 's) option" where
  "populate_die_sparing_policy_details pt dt s =
     (case get_fw_die_spare_policy pt (disc_handle (dt_discovery dt)) (zeros SMALL_PAYLOAD) s of (rc, p, s1) \<Rightarrow>
        if rc = NVM_SUCCESS then do {
          en \<leftarrow> rd p 0; level \<leftarrow> rd p 1;
          Some (rc, dt\<lparr>dt_die_sparing_enabled := en, dt_die_sparing_level := level\<rparr>, s1) }
        else Some (rc, dt, s1))"

definition populate_manageable_device_details ::
    "'s status_env \<Rightarrow> bytes \<Rightarrow> bytes \<Rightarrow> int \<times> dimm_device list option \<Rightarrow> device_details \<Rightarrow> nvm_caps \<Rightarrow> 's \<Rightarrow>
     (int \<times> device_details \<times> 's) option" where
  "populate_manageable_device_details E garbage device_uid looked dt caps s = do {
     (r1, st, s1) \<leftarrow> nvm_get_device_status E garbage (Some device_uid) (Some (dt_status dt)) s;
     st' \<leftarrow> st;
     (r2, fi, s2) \<leftarrow> nvm_get_device_fw_image_info (sv_firmware E) (Some device_uid) (Some (dt_fw_info dt)) s1;
     fi' \<leftarrow> fi;
     (r3, pf, s3) \<leftarrow> nvm_get_device_performance E (Some device_uid) (Some (dt_performance dt)) s2;
     pf' \<leftarrow> pf;
     (r4, sn, s4) \<leftarrow> nvm_get_sensors (sv_sensors E) (Some device_uid) (Some (dt_sensors dt)) NVM_MAX_DEVICE_SENSORS s3;
     sn' \<leftarrow> sn;
     (r5, dt1) \<leftarrow> get_details E (dt\<lparr>dt_status := st', dt_fw_info := fi', dt_performance := pf', dt_sensors := sn'\<rparr>);
     (r6, c) \<leftarrow> (if get_device_capacity_f (nvm_features caps)
                then device_capacities_of E caps looked (dt_discovery dt1) (dt_capacities dt1)
                else Some (NVM_SUCCESS, Some (dt_capacities dt1)));
     c' \<leftarrow> c;
     (r7, ss, s7) \<leftarrow> nvm_get_device_settings E garbage (Some device_uid) (Some (dt_settings dt1)) s4;
     ss' \<leftarrow> ss;
     (r8, dt2, s8) \<leftarrow> populate_power_mgmt_policy_details (sv_ioctl E) (dt1\<lparr>dt_capacities := c', dt_settings := ss'\<rparr>) s7;
     (r9, dt3, s9) \<leftarrow> populate_die_sparing_policy_details (sv_ioctl E) dt2 s8;
     Some (foldl KEEP_ERROR NVM_SUCCESS [r1, r2, r3, r4, r5, r6, r7, r8, r9], dt3, s9) }"

text \<open>\<open>zero\<close> is the cleared structure; the errors of the parts are dropped.\<close>

definition populate_device_details ::
    "'s status_env \<Rightarrow> bytes \<Rightarrow> device_details \<Rightarrow> bytes \<Rightarrow> nvm_caps \<Rightarrow> 's \<Rightarrow> (int \<times> device_details \<times> 's) option" where
  "populate_device_details E garbage zero device_uid caps s =
     (case se_devices (sv_base E) s of (n, devs, s1) \<Rightarrow> do {
        (rc, x) \<leftarrow> lookup_dev_uid (n, devs) (Some device_uid);
        if rc = NVM_SUCCESS then do {
          d \<leftarrow> x;
          (_, dt1) \<leftarrow> get_details E (zero\<lparr>dt_discovery := d\<rparr>);
          if disc_manageability d = MANAGEMENT_VALIDCONFIG then do {
            (_, dt2, s2) \<leftarrow> populate_manageable_device_details E garbage device_uid (n, devs) dt1 caps s1;
            Some (NVM_SUCCESS, dt2, s2) }
          else Some (NVM_SUCCESS, dt1, s1) }
        else Some (rc, zero, s1) })"

definition nvm_get_device_details ::
    "'s status_env \<Rightarrow> bytes \<Rightarrow> device_details \<Rightarrow> bytes option \<Rightarrow> device_details option \<Rightarrow> 's \<Rightarrow>
     (int \<times> device_details option \<times> 's) option" where
  "nvm_get_device_details E garbage zero device_uid p_details s =
     (if \<not> se_permitted (sv_base E) then Some (NVM_ERR_INVALIDPERMISSIONS, p_details, s)
      else if \<not> se_driver (sv_base E) then Some (NVM_ERR_BADDRIVER, p_details, s)
      else (case sv_caps E s of (rc, caps, s1) \<Rightarrow>
        if rc \<noteq> NVM_SUCCESS then Some (rc, p_details, s1)
        else if \<not> get_devices_f (nvm_features caps) then Some (NVM_ERR_NOTSUPPORTED, p_details, s1)
        else (case (device_uid, p_details) of
          (Some uid, Some _) \<Rightarrow>
            (case sv_get_details E uid s1 of
               Some dt \<Rightarrow> Some (rc, Some dt, s1)
             | None \<Rightarrow> do {
                 (rc1, dt, s2) \<leftarrow> populate_device_details E garbage zero uid caps s1;
                 Some (rc1, Some dt, if rc1 = NVM_SUCCESS then sv_set_details E uid dt s2 else s2) })
        | _ \<Rightarrow> Some (NVM_ERR_INVALIDPARAMETER, p_details, s1))))"

section \<open>Any command\<close>

record device_pt_cmd =
  ptc_opcode :: u8
  ptc_sub_opcode :: u8
  ptc_input_payload_size :: u32
  ptc_input_payload :: "bytes option"
  ptc_output_payload_size :: u32
  ptc_output_payload :: "bytes option"
  ptc_large_input_payload_size :: u32
  ptc_large_input_payload :: "bytes option"
  ptc_large_output_payload_size :: u32
  ptc_large_output_payload :: "bytes option"
  ptc_result :: int

definition fw_cmd_of :: "u32 \<Rightarrow> device_pt_cmd \<Rightarrow> fw_cmd" where
  "fw_cmd_of handle p_cmd =
     \<lparr>cmd_device_handle = handle, cmd_opcode = ptc_opcode p_cmd, cmd_sub_opcode = ptc_sub_opcode p_cmd,
      cmd_input_payload_size = ptc_input_payload_size p_cmd, cmd_input_payload = ptc_input_payload p_cmd,
      cmd_output_payload_size = ptc_output_payload_size p_cmd, cmd_output_payload = ptc_output_payload p_cmd,
      cmd_large_input_payload_size = ptc_large_input_payload_size p_cmd,
      cmd_large_input_payload = ptc_large_input_payload p_cmd,
      cmd_large_output_payload_size = ptc_large_output_payload_size p_cmd,
      cmd_large_output_payload = ptc_large_output_payload p_cmd\<rparr>"

text \<open>
  The device need not be manageable. The output buffers of the caller have what the command left in them;
  its code goes to the caller's structure, and the function succeeds whatever it is.
\<close>

definition nvm_send_device_passthrough_cmd ::
    "'s status_env \<Rightarrow> bytes option \<Rightarrow> device_pt_cmd option \<Rightarrow> 's \<Rightarrow> (int \<times> device_pt_cmd option \<times> 's) option" where
  "nvm_send_device_passthrough_cmd E device_uid p_cmd s =
     (if \<not> se_permitted (sv_base E) then Some (NVM_ERR_INVALIDPERMISSIONS, p_cmd, s)
      else (case sv_caps E s of (rc, caps, s1) \<Rightarrow>
        if rc \<noteq> NVM_SUCCESS then Some (rc, p_cmd, s1)
        else if \<not> get_device_health_f (nvm_features caps) then Some (NVM_ERR_NOTSUPPORTED, p_cmd, s1)
        else (case (device_uid, p_cmd) of
          (Some _, Some c) \<Rightarrow>
            (case se_devices (sv_base E) s1 of (n, devs, s2) \<Rightarrow> do {
               (rc1, discovery) \<leftarrow> exists_and_manageable (n, devs) device_uid False;
               if rc1 \<noteq> NVM_SUCCESS then Some (rc1, p_cmd, s2)
               else do {
                 x \<leftarrow> discovery;
                 (case sv_ioctl E s2 (fw_cmd_of (disc_handle x) c) of (result, out, large_out, s3) \<Rightarrow>
                    Some (NVM_SUCCESS,
                      Some (c\<lparr>ptc_output_payload := map_option (\<lambda>_. out) (ptc_output_payload c),
                        ptc_large_output_payload := map_option (\<lambda>_. large_out) (ptc_large_output_payload c),
                        ptc_result := result\<rparr>), s3)) } })
        | _ \<Rightarrow> Some (NVM_ERR_INVALIDPARAMETER, p_cmd, s1))))"

end
