(* ===== verification/Device_Status_Facts.thy ===== *)
theory Device_Status_Facts
  imports Device_Status
begin

text \<open>
  What the second half of \<open>lib/device.c\<close> promises: the total capacities are the sums over the manageable devices, the
  settings that were written are read back, and a device that does not answer is never reported as healthy.
\<close>

section \<open>An example environment\<close>

text \<open>
  A manageable device and one that is not, with the same handle 0; \<open>pt\<close> answers the commands. The health, the
  settings and the capacities are supported, and the PCD cannot be read.
\<close>

definition status_device :: dimm_device where
  "status_device = zero_device_discovery\<lparr>disc_manageability := MANAGEMENT_VALIDCONFIG,
     disc_device_capabilities := \<lparr>die_sparing_capable = False, memory_mode_capable = True, storage_mode_capable = False,
       app_direct_mode_capable = True\<rparr>\<rparr>"

definition status_caps :: nvm_caps where
  "status_caps = zero_nvm_caps\<lparr>nvm_features := zero_nvm_features\<lparr>get_device_health_f := True,
     get_device_settings_f := True, modify_device_settings_f := True, get_device_capacity_f := True,
     memory_mode_f := True, app_direct_mode_f := True\<rparr>\<rparr>"

definition status_base :: "'s passthrough \<Rightarrow> 's security_env" where
  "status_base pt = \<lparr>se_permitted = True, se_driver = True, se_feature = 0, se_devices = \<lambda>s. (1, Some [status_device], s),
     se_ioctl = pt, se_reenumerate = \<lambda>h s. (0, s), se_invalidate = id, se_event = \<lambda>e s. s\<rparr>"

definition status_example :: "'s passthrough \<Rightarrow> 's status_env" where
  "status_example pt =
     \<lparr>sv_sensors = \<lparr>sn_base = status_base pt, sn_by_handle = \<lambda>h s. (0, None, s), sn_local = None,
        sn_percent_used_threshold = 90, sn_thresholds = zero_sensor_thresholds, sn_log_info = zeros 128,
        sn_type_arg = zeros 1024\<rparr>,
      sv_firmware = \<lparr>fu_permitted = True, fu_driver = True, fu_feature = 0, fu_devices = \<lambda>s. (1, Some [status_device], s),
        fu_ioctl = pt, fu_file_exists = \<lambda>_ _. False, fu_copy_file = \<lambda>_ _. (- 1, []), fu_sleep = id, fu_invalidate = id,
        fu_event = \<lambda>_ _ s. s\<rparr>,
      sv_caps = \<lambda>s. (0, status_caps, s), sv_count = 2, sv_list = (2, [status_device, zero_device_discovery]),
      sv_alloc = \<lambda>_. True, sv_pcd = \<lambda>_. (- 1, None),
      sv_partition = \<lambda>_. (0, \<lparr>pi_volatile_capacity = 2, pi_start_volatile = 0, pi_pmem_capacity = 6, pi_start_pmem = 0,
        pi_raw_capacity = 8\<rparr>),
      sv_isets = (0, 0, []), sv_smbios = \<lambda>_. (- 1, \<lparr>nd_id = 0, nd_type = 0, nd_type_detail_bits = 0, nd_form_factor = 0,
        nd_data_width = 0, nd_total_width = 0, nd_size = 0, nd_speed = 0, nd_part_number = [], nd_device_locator = [],
        nd_bank_label = []\<rparr>), sv_time = 0,
      sv_get_details = \<lambda>_ _. None, sv_set_details = \<lambda>_ _ s. s\<rparr>"

text \<open>A device that keeps two bytes.\<close>

definition settings_driver :: "(u8 \<times> u8) passthrough" where
  "settings_driver s c =
     (if cmd_opcode c = PT_SET_FEATURES
      then (NVM_SUCCESS, [], [], (the (cmd_input_payload c) ! 0, the (cmd_input_payload c) ! 1))
      else (NVM_SUCCESS, [fst s, snd s] @ zeros 126, [], s))"

lemma status_found:
  "exists_manageable_device (status_base pt) (Some (replicate 37 0)) s = Some (NVM_SUCCESS, Some status_device, s)"
proof -
  have "exists_and_manageable (1, Some [status_device]) (Some (replicate 37 0)) True = Some (NVM_SUCCESS, Some status_device)"
    by code_simp
  then show ?thesis by (simp add: exists_manageable_device_def status_base_def)
qed

lemma status_example_fields:
  "sn_base (sv_sensors (status_example pt)) = status_base pt" "sn_ioctl (sv_sensors (status_example pt)) = pt"
  "sv_caps (status_example pt) = (\<lambda>s. (0, status_caps, s))" "se_permitted (status_base pt)" "se_driver (status_base pt)"
  "se_invalidate (status_base pt) = id" "se_ioctl (status_base pt) = pt"
  by (simp_all add: status_example_def status_base_def)

lemma status_caps_fields:
  "get_device_health_f (nvm_features status_caps)" "get_device_settings_f (nvm_features status_caps)"
  "modify_device_settings_f (nvm_features status_caps)" "get_device_capacity_f (nvm_features status_caps)"
  by (simp_all add: status_caps_def)

section \<open>The total capacities\<close>

text \<open>The capacities that are counted: those of the manageable devices that could be read.\<close>

definition counted_capacities ::
    "'s status_env \<Rightarrow> nvm_caps \<Rightarrow> int \<times> dimm_device list option \<Rightarrow> dimm_device \<Rightarrow> device_capacities list" where
  "counted_capacities E caps looked x =
     (if disc_manageability x = MANAGEMENT_VALIDCONFIG then
        (case device_capacities_of E caps looked x zero_capacities of
           Some (rc, Some d) \<Rightarrow> if rc = NVM_SUCCESS then [d] else []
         | _ \<Rightarrow> [])
      else [])"

definition capacities_readable ::
    "'s status_env \<Rightarrow> nvm_caps \<Rightarrow> int \<times> dimm_device list option \<Rightarrow> dimm_device \<Rightarrow> bool" where
  "capacities_readable E caps looked x \<longleftrightarrow>
     (disc_manageability x = MANAGEMENT_VALIDCONFIG \<longrightarrow> counted_capacities E caps looked x \<noteq> [])"

lemma sum_fold:
  "dc_capacity (foldl sum_capacities a cs) = dc_capacity a + sum_list (map dc_capacity cs)"
  "dc_memory_capacity (foldl sum_capacities a cs) = dc_memory_capacity a + sum_list (map dc_memory_capacity cs)"
  "dc_app_direct_capacity (foldl sum_capacities a cs) = dc_app_direct_capacity a + sum_list (map dc_app_direct_capacity cs)"
  "dc_unconfigured_capacity (foldl sum_capacities a cs) = dc_unconfigured_capacity a + sum_list (map dc_unconfigured_capacity cs)"
  "dc_storage_capacity (foldl sum_capacities a cs) = dc_storage_capacity a + sum_list (map dc_storage_capacity cs)"
  "dc_inaccessible_capacity (foldl sum_capacities a cs) = dc_inaccessible_capacity a + sum_list (map dc_inaccessible_capacity cs)"
  "dc_reserved_capacity (foldl sum_capacities a cs) = dc_reserved_capacity a + sum_list (map dc_reserved_capacity cs)"
  "dc_mirrored_app_direct_capacity (foldl sum_capacities a cs) = dc_mirrored_app_direct_capacity a"
  by (induction cs arbitrary: a) (simp_all add: sum_capacities_def add.assoc)

lemma KEEP_ERROR_fails: "r \<noteq> NVM_SUCCESS \<Longrightarrow> KEEP_ERROR rc r \<noteq> NVM_SUCCESS"
  by (auto simp: KEEP_ERROR_def)

lemma one_device_counted:
  assumes "(if disc_manageability x = MANAGEMENT_VALIDCONFIG then do {
        (temp_rc, c) \<leftarrow> device_capacities_of E caps looked x zero_capacities;
        d \<leftarrow> c;
        Some (if temp_rc = NVM_SUCCESS then (rc, sum_capacities acc d) else (KEEP_ERROR rc temp_rc, acc)) }
      else Some (rc, acc)) = Some (rc1, acc1)"
  shows "acc1 = foldl sum_capacities acc (counted_capacities E caps looked x) \<and>
      (rc1 = NVM_SUCCESS \<longleftrightarrow> rc = NVM_SUCCESS \<and> capacities_readable E caps looked x)"
proof (cases "disc_manageability x = MANAGEMENT_VALIDCONFIG")
  case m: True
  obtain r d where rd: "device_capacities_of E caps looked x zero_capacities = Some (r, Some d)"
    "(if r = NVM_SUCCESS then (rc, sum_capacities acc d) else (KEEP_ERROR rc r, acc)) = (rc1, acc1)"
    using assms [unfolded if_P [OF m] bind_eq_Some_conv split_paired_Ex case_prod_conv option.inject] by blast
  show ?thesis
  proof (cases "r = NVM_SUCCESS")
    case True
    then show ?thesis using rd m by (simp add: counted_capacities_def capacities_readable_def)
  next
    case False
    then show ?thesis using rd m KEEP_ERROR_fails [OF False, of rc]
      by (auto simp: counted_capacities_def capacities_readable_def)
  qed
next
  case False
  then show ?thesis using assms by (auto simp: counted_capacities_def capacities_readable_def)
qed

lemma total_loop_sums:
  assumes "total_capacities_loop E caps looked ds n i rc acc = Some (rc', acc')"
  shows "acc' = foldl sum_capacities acc (concat (map (counted_capacities E caps looked) (drop i (take n ds)))) \<and>
    (rc' = NVM_SUCCESS \<longleftrightarrow> rc = NVM_SUCCESS \<and> (\<forall>x \<in> set (drop i (take n ds)). capacities_readable E caps looked x))"
  using assms
proof (induction "n - i" arbitrary: i rc acc)
  case 0
  then show ?case by (simp add: total_capacities_loop.simps [of E caps looked ds n i])
next
  case (Suc m)
  then have i: "i < n" "m = n - Suc i" by simp_all
  obtain x rc1 acc1 where x: "rd ds i = Some x"
    "(if disc_manageability x = MANAGEMENT_VALIDCONFIG then do {
        (temp_rc, c) \<leftarrow> device_capacities_of E caps looked x zero_capacities;
        d \<leftarrow> c;
        Some (if temp_rc = NVM_SUCCESS then (rc, sum_capacities acc d) else (KEEP_ERROR rc temp_rc, acc)) }
      else Some (rc, acc)) = Some (rc1, acc1)"
    "total_capacities_loop E caps looked ds n (Suc i) rc1 acc1 = Some (rc', acc')"
    using Suc.prems [unfolded total_capacities_loop.simps [of E caps looked ds n i]] i(1)
    unfolding if_P [OF i(1)] bind_eq_Some_conv split_paired_Ex case_prod_conv by blast
  have r: "i < length ds" "x = ds ! i" using x(1) by (auto simp: rd_def split: if_splits)
  have d: "drop i (take n ds) = x # drop (Suc i) (take n ds)"
    using r i(1) by (metis Cons_nth_drop_Suc length_take min_less_iff_conj nth_take)
  have s: "acc1 = foldl sum_capacities acc (counted_capacities E caps looked x) \<and>
      (rc1 = NVM_SUCCESS \<longleftrightarrow> rc = NVM_SUCCESS \<and> capacities_readable E caps looked x)"
    by (rule one_device_counted [OF x(2)])
  show ?case using Suc.hyps(1) [OF i(2) x(3)] s by (auto simp: d)
qed

text \<open>
  C12: the capacities that \<open>nvm_get_nvm_capacities\<close> of lib/device.c returns are the sums over the manageable devices whose
  capacities can be read, and the code is that of success if and only if all of them can; the mirrored capacity is
  left at 0.
\<close>

theorem total_capacities_added:
  assumes "nvm_get_nvm_capacities E looked (Some c0) s = Some (rc, Some c, s')" "se_permitted (sv_base E)" "se_driver (sv_base E)"
    and "sv_caps E s = (NVM_SUCCESS, caps, s1)" "get_device_capacity_f (nvm_features caps)"
    and "sv_count E = int (length ds)" "ds \<noteq> []" "sv_list E = (int (length ds), ds)" "sv_alloc E (length ds)"
  shows "let cs = concat (map (counted_capacities E caps looked) ds) in
    dc_capacity c = sum_list (map dc_capacity cs) \<and>
    dc_memory_capacity c = sum_list (map dc_memory_capacity cs) \<and>
    dc_app_direct_capacity c = sum_list (map dc_app_direct_capacity cs) \<and>
    dc_unconfigured_capacity c = sum_list (map dc_unconfigured_capacity cs) \<and>
    dc_storage_capacity c = sum_list (map dc_storage_capacity cs) \<and>
    dc_inaccessible_capacity c = sum_list (map dc_inaccessible_capacity cs) \<and>
    dc_reserved_capacity c = sum_list (map dc_reserved_capacity cs) \<and>
    dc_mirrored_app_direct_capacity c = 0 \<and>
    (rc = NVM_SUCCESS \<longleftrightarrow> (\<forall>x \<in> set ds. capacities_readable E caps looked x))"
proof -
  have "total_capacities_loop E caps looked ds (length ds) 0 NVM_SUCCESS zero_capacities = Some (rc, c)"
    using assms by (auto simp: nvm_get_nvm_capacities_def bind_eq_Some_conv split: if_splits)
  from total_loop_sums [OF this] show ?thesis by (simp add: sum_fold Let_def zero_capacities_def)
qed

definition example_capacities :: device_capacities where
  "example_capacities = zero_capacities\<lparr>dc_capacity := 32768,
     dc_reserved_capacity := 8192, dc_unconfigured_capacity := 24576\<rparr>"

lemma status_device_capacities:
  "device_capacities_of (status_example pt) status_caps (1, Some [status_device]) status_device zero_capacities =
     Some (NVM_SUCCESS, Some example_capacities)"
proof -
  have "get_dimm_capacities (1, Some [status_device]) (0, 0, [])
      (0, \<lparr>pi_volatile_capacity = 2, pi_start_volatile = 0, pi_pmem_capacity = 6, pi_start_pmem = 0, pi_raw_capacity = 8\<rparr>)
      status_device (capacity_view status_caps) (Some zero_capacities) = Some (NVM_SUCCESS, Some example_capacities)"
    by code_simp
  then show ?thesis by (simp add: device_capacities_of_def status_example_def)
qed

lemma unmanageable_zero: "disc_manageability zero_device_discovery \<noteq> MANAGEMENT_VALIDCONFIG"
  "disc_manageability status_device = MANAGEMENT_VALIDCONFIG"
  by (simp_all add: zero_device_discovery_def status_device_def MANAGEMENT_VALIDCONFIG_def)

lemma example_total:
  "nvm_get_nvm_capacities (status_example pt) (1, Some [status_device]) (Some zero_capacities) s =
     Some (NVM_SUCCESS, Some example_capacities, s)"
proof -
  have "total_capacities_loop (status_example pt) status_caps (1, Some [status_device])
      [status_device, zero_device_discovery] 2 0 NVM_SUCCESS zero_capacities = Some (NVM_SUCCESS, example_capacities)"
    by (simp add: total_capacities_loop.simps rd_def status_device_capacities unmanageable_zero)
      (simp add: sum_capacities_def example_capacities_def zero_capacities_def)
  moreover have "sv_count (status_example pt) = 2" "sv_list (status_example pt) = (2, [status_device, zero_device_discovery])"
    "sv_alloc (status_example pt) 2"
    by (simp_all add: status_example_def)
  ultimately show ?thesis by (simp add: nvm_get_nvm_capacities_def status_example_fields status_caps_fields)
qed

theorem total_capacities_added_witness:
  "let cs = concat (map (counted_capacities (status_example settings_driver) status_caps (1, Some [status_device]))
     [status_device, zero_device_discovery]) in
   dc_capacity example_capacities = sum_list (map dc_capacity cs) \<and> dc_capacity example_capacities = 32768"
proof -
  have "sv_count (status_example settings_driver) = int (length [status_device, zero_device_discovery])"
    "sv_list (status_example settings_driver) =
       (int (length [status_device, zero_device_discovery]), [status_device, zero_device_discovery])"
    "sv_alloc (status_example settings_driver) (length [status_device, zero_device_discovery])"
    "sv_caps (status_example settings_driver) (0, 0) = (NVM_SUCCESS, status_caps, (0, 0))"
    by (simp_all add: status_example_def)
  then show ?thesis
    using total_capacities_added [OF example_total [of settings_driver "(0, 0)"], of status_caps "(0, 0)"
        "[status_device, zero_device_discovery]"]
    by (simp add: status_example_fields status_caps_fields Let_def example_capacities_def)
qed

section \<open>The settings\<close>

text \<open>
  C20: settings that \<open>nvm_modify_device_settings\<close> of lib/device.c has written are those that \<open>nvm_get_device_settings\<close>
  reads, for a device that keeps its policy.
\<close>

theorem device_settings_roundtrip:
  fixes policy :: "'s \<Rightarrow> bytes"
  assumes "nvm_modify_device_settings E (Some uid) (Some st) s = Some (NVM_SUCCESS, s1)"
    and "nvm_get_device_settings E garbage (Some uid) (Some old) s1 = Some (NVM_SUCCESS, got, s2)"
    and "\<And>s x t. exists_manageable_device (sv_base E) (Some uid) s = Some (NVM_SUCCESS, Some x, t) \<Longrightarrow>
      disc_handle x = h \<and> policy t = policy s"
    and "\<And>s rc c t. sv_caps E s = (rc, c, t) \<Longrightarrow> policy t = policy s" "\<And>s. policy (se_invalidate (sv_base E) s) = policy s"
    and "\<And>b s t. length b = 128 \<Longrightarrow> fw_set_config_data_policy (sv_ioctl E) h b s = (NVM_SUCCESS, t) \<Longrightarrow>
      policy t = take 2 b"
    and "\<And>b p s t. fw_get_config_data_policy (sv_ioctl E) h b s = (NVM_SUCCESS, p, t) \<Longrightarrow> take 2 p = policy s"
  shows "got = Some st"
proof -
  let ?p = "[dv_first_fast_refresh st, dv_viral_policy st]"
  obtain rc1 a1 where f1: "feature_guards E modify_device_settings_f (Some uid) True s = (rc1, a1)" by fastforce
  obtain x a2 where x1: "exists_manageable_device (sv_base E) (Some uid) a1 = Some (NVM_SUCCESS, Some x, a2)"
    "(case fw_set_config_data_policy (sv_ioctl E) (disc_handle x) (?p @ zeros 126) a2 of (rc2, s3) \<Rightarrow>
       Some (rc2, if rc2 = NVM_SUCCESS then se_invalidate (sv_base E) s3 else s3)) = Some (NVM_SUCCESS, s1)"
    using assms(1) f1 by (simp add: nvm_modify_device_settings_def bind_eq_Some_conv split: if_splits) blast
  obtain rc2 a3 where f2: "fw_set_config_data_policy (sv_ioctl E) (disc_handle x) (?p @ zeros 126) a2 = (rc2, a3)" by fastforce
  have x: "exists_manageable_device (sv_base E) (Some uid) a1 = Some (NVM_SUCCESS, Some x, a2)"
    "fw_set_config_data_policy (sv_ioctl E) (disc_handle x) (?p @ zeros 126) a2 = (NVM_SUCCESS, a3)"
    "s1 = se_invalidate (sv_base E) a3"
    using x1 f2 by (auto split: if_splits)
  have h: "disc_handle x = h" using assms(3) [OF x(1)] by simp
  have "policy s1 = ?p" using assms(5) assms(6) [of "?p @ zeros 126" a2 a3] x(2,3) h by (simp add: zeros_def)
  obtain rc0 b0 where f0: "feature_guards E get_device_settings_f (Some uid) True s1 = (rc0, b0)" by fastforce
  obtain y b1 where y1: "rc0 = NVM_SUCCESS"
    "exists_manageable_device (sv_base E) (Some uid) b0 = Some (NVM_SUCCESS, Some y, b1)"
    "(case fw_get_config_data_policy (sv_ioctl E) (disc_handle y) garbage b1 of (rc2, p, s3) \<Rightarrow>
       if rc2 \<noteq> NVM_SUCCESS then Some (rc2, Some \<lparr>dv_first_fast_refresh = 0, dv_viral_policy = 0\<rparr>, s3)
       else do {
         ffr \<leftarrow> rd p 0; viral \<leftarrow> rd p 1;
         Some (rc2, Some \<lparr>dv_first_fast_refresh = ffr, dv_viral_policy = viral\<rparr>, s3) }) = Some (NVM_SUCCESS, got, s2)"
    using assms(2) f0 by (simp add: nvm_get_device_settings_def bind_eq_Some_conv split: if_splits) blast
  obtain rc3 p b2 where f3: "fw_get_config_data_policy (sv_ioctl E) (disc_handle y) garbage b1 = (rc3, p, b2)"
    by (cases "fw_get_config_data_policy (sv_ioctl E) (disc_handle y) garbage b1")
  have y: "feature_guards E get_device_settings_f (Some uid) True s1 = (NVM_SUCCESS, b0)"
    "exists_manageable_device (sv_base E) (Some uid) b0 = Some (NVM_SUCCESS, Some y, b1)"
    "fw_get_config_data_policy (sv_ioctl E) (disc_handle y) garbage b1 = (NVM_SUCCESS, p, b2)"
    "got = Some \<lparr>dv_first_fast_refresh = p ! 0, dv_viral_policy = p ! 1\<rparr>"
    using y1 f0 f3 by (auto simp: bind_eq_Some_conv rd_def split: if_splits)
  have "policy b0 = policy s1"
    using y(1) assms(4) by (auto simp: feature_guards_def split: if_splits prod.splits)
  moreover have "disc_handle y = h" "policy b1 = policy b0" using assms(3) [OF y(2)] by simp_all
  ultimately have "take 2 p = ?p" using assms(7) y(3) \<open>policy s1 = ?p\<close> by fastforce
  then have "p ! 0 = dv_first_fast_refresh st" "p ! 1 = dv_viral_policy st"
    by (metis nth_Cons_0 nth_take zero_less_numeral, metis One_nat_def nth_Cons_0 nth_Cons_Suc nth_take one_less_numeral_iff semiring_norm(76))
  then show ?thesis using y(4) by simp
qed

lemma settings_driver_answers:
  "fw_set_config_data_policy settings_driver h b s = (NVM_SUCCESS, b ! 0, b ! 1)"
  "fw_get_config_data_policy settings_driver h b s = (NVM_SUCCESS, [fst s, snd s] @ zeros 126, s)"
  by (simp_all add: fw_set_config_data_policy_def fw_get_config_data_policy_def run_set_def run_get_def settings_driver_def
      with_input_def with_output_def new_cmd_def)

lemma settings_written:
  "nvm_modify_device_settings (status_example settings_driver) (Some (replicate 37 0)) (Some st) s =
     Some (NVM_SUCCESS, dv_first_fast_refresh st, dv_viral_policy st)"
  by (simp add: nvm_modify_device_settings_def feature_guards_def status_example_fields status_caps_fields status_found
      settings_driver_answers)

lemma settings_read:
  "nvm_get_device_settings (status_example settings_driver) g (Some (replicate 37 0)) (Some old) s =
     Some (NVM_SUCCESS, Some \<lparr>dv_first_fast_refresh = fst s, dv_viral_policy = snd s\<rparr>, s)"
  by (simp add: nvm_get_device_settings_def feature_guards_def status_example_fields status_caps_fields status_found
      settings_driver_answers rd_def)

theorem device_settings_roundtrip_witness:
  "nvm_get_device_settings (status_example settings_driver) (zeros 128) (Some (replicate 37 0))
     (Some \<lparr>dv_first_fast_refresh = 0, dv_viral_policy = 0\<rparr>) (1, 0) =
   Some (NVM_SUCCESS, Some \<lparr>dv_first_fast_refresh = 1, dv_viral_policy = 0\<rparr>, (1, 0))"
proof -
  let ?E = "status_example settings_driver" and ?st = "\<lparr>dv_first_fast_refresh = 1, dv_viral_policy = (0 :: u8)\<rparr>"
  have "Some \<lparr>dv_first_fast_refresh = fst (1, 0), dv_viral_policy = snd (1, 0)\<rparr> = Some ?st"
  proof (rule device_settings_roundtrip [of ?E "replicate 37 0" ?st "(0, 0)" "(1, 0)" "zeros 128"
        "\<lparr>dv_first_fast_refresh = 0, dv_viral_policy = 0\<rparr>" _ "(1, 0)" "disc_handle status_device" "\<lambda>s. [fst s, snd s]"])
    show "nvm_modify_device_settings ?E (Some (replicate 37 0)) (Some ?st) (0, 0) = Some (NVM_SUCCESS, 1, 0)"
      using settings_written [of ?st "(0, 0)"] by simp
    show "take 2 p = [fst s, snd s]" if "fw_get_config_data_policy (sv_ioctl ?E) (disc_handle status_device) b s = (NVM_SUCCESS, p, t)"
      for b p s t using that by (auto simp: status_example_fields settings_driver_answers)
    show "[fst t, snd t] = take 2 b" if "length b = 128"
      "fw_set_config_data_policy (sv_ioctl ?E) (disc_handle status_device) b s = (NVM_SUCCESS, t)" for b s t
      using that by (cases b; cases "tl b") (auto simp: status_example_fields settings_driver_answers)
  qed (auto simp: status_example_fields status_found settings_read)
  then show ?thesis using settings_read [of "zeros 128" "\<lparr>dv_first_fast_refresh = 0, dv_viral_policy = 0\<rparr>" "(1, 0)"] by simp
qed

section \<open>The status\<close>

lemma die_spares_frame:
  "die_spares_status E handle st s = Some (st', s') \<Longrightarrow>
   ds_health st' = ds_health st \<and> ds_viral_state st' = ds_viral_state st \<and> ds_last_shutdown_status st' = ds_last_shutdown_status st"
  by (auto simp: die_spares_status_def bind_eq_Some_conv split: prod.splits if_splits)

lemma long_op_frame:
  "long_op_status pt handle st s = Some (st', s') \<Longrightarrow>
   ds_health st' = ds_health st \<and> ds_viral_state st' = ds_viral_state st \<and> ds_last_shutdown_status st' = ds_last_shutdown_status st"
  by (auto simp: long_op_status_def bind_eq_Some_conv split: prod.splits)

lemma config_status_frame:
  "fill_device_config_status caps pcd st = Some (rc, st') \<Longrightarrow>
   ds_health st' = ds_health st \<and> ds_viral_state st' = ds_viral_state st \<and> ds_last_shutdown_status st' = ds_last_shutdown_status st"
  by (auto simp: fill_device_config_status_def config_status_of_pcd_def bind_eq_Some_conv Let_def
      split: if_splits option.splits)

lemma sequence_numbers_frame:
  "ds_health (set_sequence_numbers log_type level sq st) = ds_health st"
  "ds_viral_state (set_sequence_numbers log_type level sq st) = ds_viral_state st"
  "ds_last_shutdown_status (set_sequence_numbers log_type level sq st) = ds_last_shutdown_status st"
  "ds_is_configured (set_sequence_numbers log_type level sq st) = ds_is_configured st"
  by (simp_all add: set_sequence_numbers_def)

lemma error_log_frame:
  assumes "update_status_fw_error_log_info_by_type_and_level pt handle log_type level st s = Some (rc, st', s')"
  shows "ds_health st' = ds_health st \<and> ds_viral_state st' = ds_viral_state st \<and>
    ds_last_shutdown_status st' = ds_last_shutdown_status st \<and> ds_is_configured st' = ds_is_configured st"
proof -
  obtain r p s1 where f: "fw_get_fw_error_log_info_data pt handle level log_type (zeros SMALL_PAYLOAD) s = (r, p, s1)"
    by (metis surj_pair)
  obtain a b c where "st' = set_sequence_numbers log_type level \<lparr>sq_oldest = b, sq_current = a\<rparr>
      (st\<lparr>ds_new_error_count := ds_new_error_count st + (ucast a - ucast b),
        ds_newest_error_log_timestamp := max (ds_newest_error_log_timestamp st) c\<rparr>)"
    using assms unfolding update_status_fw_error_log_info_by_type_and_level_def f Let_def bind_eq_Some_conv case_prod_conv
      option.inject prod.inject by metis
  then show ?thesis by (simp add: sequence_numbers_frame)
qed

lemma error_logs_frame:
  "error_logs_loop pt handle logs rc st s = Some (rc', st', s') \<Longrightarrow>
   ds_health st' = ds_health st \<and> ds_viral_state st' = ds_viral_state st \<and>
   ds_last_shutdown_status st' = ds_last_shutdown_status st \<and> ds_is_configured st' = ds_is_configured st"
proof (induction logs arbitrary: rc st s)
  case (Cons l logs)
  obtain type level where l: "l = (type, level)" by fastforce
  obtain r st1 s1 where u: "update_status_fw_error_log_info_by_type_and_level pt handle type level st s = Some (r, st1, s1)"
    "error_logs_loop pt handle logs (KEEP_ERROR rc r) st1 s1 = Some (rc', st', s')"
    using Cons.prems unfolding l error_logs_loop.simps bind_eq_Some_conv split_paired_Ex case_prod_conv by blast
  show ?case using Cons.IH [OF u(2)] error_log_frame [OF u(1)] by simp
qed simp

lemma fill_error_log_frame:
  "fill_fw_error_log_status pt handle st s = Some (rc, st', s') \<Longrightarrow>
   ds_health st' = ds_health st \<and> ds_viral_state st' = ds_viral_state st \<and>
   ds_last_shutdown_status st' = ds_last_shutdown_status st \<and> ds_is_configured st' = ds_is_configured st"
  unfolding fill_fw_error_log_status_def by (drule error_logs_frame) simp

lemma boot_frame:
  "boot_status pt handle st s = Some (st', s') \<Longrightarrow>
   ds_health st' = ds_health st \<and> ds_viral_state st' = ds_viral_state st \<and>
   ds_last_shutdown_status st' = ds_last_shutdown_status st \<and> ds_is_configured st' = ds_is_configured st"
  by (auto simp: boot_status_def bind_eq_Some_conv split: prod.splits)

lemma configured_by_current:
  assumes "config_status_of_pcd m st = Some st'" "\<not> ds_is_configured st" "ds_is_configured st'"
  shows "\<exists>p raw. cast_current_config m = Some (Some p) \<and> rd16 m (p + 36) = Some raw \<and>
    (raw = CURRENT_CONFIG_STATUS_SUCCESS \<or> raw = CURRENT_CONFIG_STATUS_ERROR_USING_OLD)"
proof -
  obtain cur where c: "cast_current_config m = Some cur" using assms(1) by (auto simp: config_status_of_pcd_def bind_eq_Some_conv)
  then obtain p where p: "cur = Some p" using assms by (cases cur) (auto simp: config_status_of_pcd_def)
  obtain cs raw where r: "get_config_status_from_current_config m p = Some cs" "rd16 m (p + 36) = Some raw"
    using assms(1) c p by (auto simp: config_status_of_pcd_def bind_eq_Some_conv)
  have "ds_is_configured (the (config_status_of_pcd m st)) \<longleftrightarrow>
      raw = CURRENT_CONFIG_STATUS_SUCCESS \<or> raw = CURRENT_CONFIG_STATUS_ERROR_USING_OLD"
    using assms(2) by (simp add: config_status_of_pcd_def c p r Let_def)
  then show ?thesis using assms(1,3) c p r(2) by simp
qed

lemma configured_by_pcd:
  assumes "fill_device_config_status caps pcd st = Some (rc, st')" "ds_is_configured st'"
  shows "get_device_capacity_f (nvm_features caps) \<and> (\<exists>m p raw. pcd = (NVM_SUCCESS, Some m) \<and> cast_current_config m = Some (Some p) \<and>
    rd16 m (p + 36) = Some raw \<and> (raw = CURRENT_CONFIG_STATUS_SUCCESS \<or> raw = CURRENT_CONFIG_STATUS_ERROR_USING_OLD))"
proof -
  have f: "get_device_capacity_f (nvm_features caps)"
    using assms by (auto simp: fill_device_config_status_def Let_def split: if_splits)
  have s: "fst pcd = NVM_SUCCESS"
    using assms f by (auto simp: fill_device_config_status_def Let_def split: if_splits)
  obtain m where m: "pcd = (NVM_SUCCESS, Some m)"
    "config_status_of_pcd m (st\<lparr>ds_is_new := False, ds_is_configured := False, ds_config_status := CONFIG_STATUS_NOT_CONFIGURED\<rparr>) = Some st'"
    using assms(1) f s by (cases pcd) (auto simp: fill_device_config_status_def Let_def bind_eq_Some_conv)
  show ?thesis using configured_by_current [OF m(2) _ assms(2)] f m(1) by simp
qed

lemma viral_by_policy:
  assumes "viral_status pt garbage handle st s = Some (st', s')" "\<not> ds_viral_state st"
  shows "ds_health st' = ds_health st \<and> ds_last_shutdown_status st' = ds_last_shutdown_status st \<and>
    ds_is_configured st' = ds_is_configured st \<and>
    (ds_viral_state st' \<longrightarrow> (\<exists>p v. fw_get_config_data_policy pt handle garbage s = (NVM_SUCCESS, p, s') \<and> rd p 2 = Some v \<and> v \<noteq> 0))"
  using assms by (auto simp: viral_status_def bind_eq_Some_conv split: prod.splits if_splits)

lemma health_of_page:
  assumes "status_of_smart_health p st = Some st'"
    "ds_health st = DEVICE_HEALTH_UNKNOWN" "ds_last_shutdown_status st = SHUTDOWN_STATUS_UNKNOWN"
  shows "ds_viral_state st' = ds_viral_state st \<and> (\<exists>h. read_smart_health p = Some h \<and>
    (ds_health st' \<noteq> DEVICE_HEALTH_UNKNOWN \<longrightarrow> health_status_field h \<and>
       ds_health st' = smart_health_status_to_device_health (health_status h)) \<and>
    (ds_last_shutdown_status st' \<noteq> SHUTDOWN_STATUS_UNKNOWN \<longrightarrow> sizeof_vendor_data_field h \<and>
       rd p 64 = Some (ds_last_shutdown_status st')))"
proof -
  obtain h lss time ext ait media non_media where r: "read_smart_health p = Some h" "rd p 64 = Some lss" "rd64 p 65 = Some time"
    "rd_bytes p 73 3 = Some ext" "rd p 20 = Some ait" "rd32 p 76 = Some media" "rd32 p 80 = Some non_media"
    using assms(1) unfolding status_of_smart_health_def bind_eq_Some_conv by blast
  have e: "st' = the (status_of_smart_health p st)" using assms(1) by simp
  have "ds_viral_state st' = ds_viral_state st"
    "ds_health st' = (if health_status_field h then smart_health_status_to_device_health (health_status h) else DEVICE_HEALTH_UNKNOWN)"
    "ds_last_shutdown_status st' = (if sizeof_vendor_data_field h then lss else ds_last_shutdown_status st)"
    unfolding e by (simp_all add: status_of_smart_health_def r Let_def)
  then show ?thesis using assms(2,3) r(1,2) by simp
qed

lemma health_by_smart:
  assumes "fill_device_status_from_smart_health pt handle st s = Some (rc, st', s')"
    "ds_health st = DEVICE_HEALTH_UNKNOWN" "ds_last_shutdown_status st = SHUTDOWN_STATUS_UNKNOWN"
  shows "ds_viral_state st' = ds_viral_state st \<and> (\<exists>p. fw_get_smart_health pt handle s = (rc, p, s') \<and>
    (ds_health st' \<noteq> DEVICE_HEALTH_UNKNOWN \<or> ds_last_shutdown_status st' \<noteq> SHUTDOWN_STATUS_UNKNOWN \<longrightarrow> rc = NVM_SUCCESS \<and>
      (\<exists>h. read_smart_health p = Some h \<and>
        (ds_health st' \<noteq> DEVICE_HEALTH_UNKNOWN \<longrightarrow> health_status_field h \<and>
           ds_health st' = smart_health_status_to_device_health (health_status h)) \<and>
        (ds_last_shutdown_status st' \<noteq> SHUTDOWN_STATUS_UNKNOWN \<longrightarrow> sizeof_vendor_data_field h \<and>
           rd p 64 = Some (ds_last_shutdown_status st')))))"
proof -
  obtain rc1 p s1 where f: "fw_get_smart_health pt handle s = (rc1, p, s1)" by (metis surj_pair)
  show ?thesis
  proof (cases "rc1 = NVM_SUCCESS")
    case True
    then have "rc = NVM_SUCCESS" "s' = s1" "status_of_smart_health p st = Some st'"
      using assms(1) f by (auto simp: fill_device_status_from_smart_health_def bind_eq_Some_conv)
    then show ?thesis using health_of_page [OF _ assms(2,3)] f True by blast
  next
    case False
    then have "rc = rc1" "s' = s1" "st' = st" using assms(1) f by (simp_all add: fill_device_status_from_smart_health_def)
    then show ?thesis using f assms(2,3) by simp
  qed
qed

text \<open>
  C11: the status that \<open>nvm_get_device_status\<close> of lib/device.c returns claims nothing that the device has not answered: a
  health other than unknown is that of the health page, which was read and says that its health is valid; a shutdown
  status other than unknown is in the same page, with vendor data; the viral state is set only by the policy that was
  read; and the device is configured only if its PCD was read and its current configuration is of status 1 or 6.
\<close>

theorem device_status_answered:
  assumes "nvm_get_device_status E garbage (Some uid) (Some st0) s = Some (NVM_SUCCESS, Some st, s')"
  shows "\<exists>x caps rc p s1 s2 s3 s4. sv_caps E s = (NVM_SUCCESS, caps, s1) \<and>
    exists_manageable_device (sv_base E) (Some uid) s1 = Some (NVM_SUCCESS, Some x, s2) \<and>
    fw_get_smart_health (sv_ioctl E) (disc_handle x) s3 = (rc, p, s4) \<and>
    (ds_health st \<noteq> DEVICE_HEALTH_UNKNOWN \<or> ds_last_shutdown_status st \<noteq> SHUTDOWN_STATUS_UNKNOWN \<longrightarrow> rc = NVM_SUCCESS \<and>
      (\<exists>h. read_smart_health p = Some h \<and>
        (ds_health st \<noteq> DEVICE_HEALTH_UNKNOWN \<longrightarrow> health_status_field h \<and>
           ds_health st = smart_health_status_to_device_health (health_status h)) \<and>
        (ds_last_shutdown_status st \<noteq> SHUTDOWN_STATUS_UNKNOWN \<longrightarrow> sizeof_vendor_data_field h \<and>
           rd p 64 = Some (ds_last_shutdown_status st)))) \<and>
    (ds_viral_state st \<longrightarrow> (\<exists>q v s5. fw_get_config_data_policy (sv_ioctl E) (disc_handle x) garbage s4 = (NVM_SUCCESS, q, s5) \<and>
      rd q 2 = Some v \<and> v \<noteq> 0)) \<and>
    (ds_is_configured st \<longrightarrow> get_device_capacity_f (nvm_features caps) \<and>
      (\<exists>m c raw. sv_pcd E (disc_handle x) = (NVM_SUCCESS, Some m) \<and> cast_current_config m = Some (Some c) \<and>
        rd16 m (c + 36) = Some raw \<and> (raw = CURRENT_CONFIG_STATUS_SUCCESS \<or> raw = CURRENT_CONFIG_STATUS_ERROR_USING_OLD)))"
proof -
  obtain x caps a1 a2 where x: "exists_manageable_device (sv_base E) (Some uid) a1 = Some (NVM_SUCCESS, Some x, a2)"
    "get_device_status_by_handle E garbage (disc_handle x) caps a2 = Some (st, s')" "sv_caps E s = (NVM_SUCCESS, caps, a1)"
    using assms by (auto simp: nvm_get_device_status_def bind_eq_Some_conv split: prod.splits if_splits)
  obtain st1 b1 st2 b2 rc3 st3 b3 rc4 st4 rc5 v st6 b6 rc7 st7 b7 where p:
    "die_spares_status E (disc_handle x) zero_device_state a2 = Some (st1, b1)"
    "long_op_status (sv_ioctl E) (disc_handle x) st1 b1 = Some (st2, b2)"
    "fill_device_status_from_smart_health (sv_ioctl E) (disc_handle x) st2 b2 = Some (rc3, st3, b3)"
    "fill_device_config_status caps (sv_pcd E (disc_handle x)) st3 = Some (rc4, st4)"
    "viral_status (sv_ioctl E) garbage (disc_handle x)
       (st4\<lparr>ds_mixed_sku := mixed_sku (sku_capabilities caps), ds_sku_violation := v\<rparr>) b3 = Some (st6, b6)"
    "fill_fw_error_log_status (sv_ioctl E) (disc_handle x) st6 b6 = Some (rc7, st7, b7)"
    "boot_status (sv_ioctl E) (disc_handle x) st7 b7 = Some (st, s')"
    using x(2) unfolding get_device_status_by_handle_def bind_eq_Some_conv split_paired_Ex case_prod_conv by blast
  note frames = die_spares_frame [OF p(1)] long_op_frame [OF p(2)] config_status_frame [OF p(4)] fill_error_log_frame [OF p(6)]
    boot_frame [OF p(7)]
  have z: "ds_health st2 = DEVICE_HEALTH_UNKNOWN" "ds_last_shutdown_status st2 = SHUTDOWN_STATUS_UNKNOWN" "\<not> ds_viral_state st2"
    using frames by (simp_all add: zero_device_state_def)
  note h = health_by_smart [OF p(3) z(1,2)]
  have "\<not> ds_viral_state (st4\<lparr>ds_mixed_sku := mixed_sku (sku_capabilities caps), ds_sku_violation := v\<rparr>)"
    using h frames z(3) by simp
  note w = viral_by_policy [OF p(5) this]
  have e: "ds_health st = ds_health st3" "ds_last_shutdown_status st = ds_last_shutdown_status st3"
    "ds_viral_state st = ds_viral_state st6" "ds_is_configured st = ds_is_configured st4"
    using frames w by simp_all
  have c: "ds_is_configured st \<longrightarrow> get_device_capacity_f (nvm_features caps) \<and>
      (\<exists>m c raw. sv_pcd E (disc_handle x) = (NVM_SUCCESS, Some m) \<and> cast_current_config m = Some (Some c) \<and>
        rd16 m (c + 36) = Some raw \<and> (raw = CURRENT_CONFIG_STATUS_SUCCESS \<or> raw = CURRENT_CONFIG_STATUS_ERROR_USING_OLD))"
    using configured_by_pcd [OF p(4)] e(4) by metis
  obtain page where pg: "fw_get_smart_health (sv_ioctl E) (disc_handle x) b2 = (rc3, page, b3)"
    "ds_health st \<noteq> DEVICE_HEALTH_UNKNOWN \<or> ds_last_shutdown_status st \<noteq> SHUTDOWN_STATUS_UNKNOWN \<longrightarrow> rc3 = NVM_SUCCESS \<and>
      (\<exists>h. read_smart_health page = Some h \<and>
        (ds_health st \<noteq> DEVICE_HEALTH_UNKNOWN \<longrightarrow> health_status_field h \<and>
           ds_health st = smart_health_status_to_device_health (health_status h)) \<and>
        (ds_last_shutdown_status st \<noteq> SHUTDOWN_STATUS_UNKNOWN \<longrightarrow> sizeof_vendor_data_field h \<and>
           rd page 64 = Some (ds_last_shutdown_status st)))"
    using h unfolding e by blast
  have vi: "ds_viral_state st \<longrightarrow> (\<exists>q v s5. fw_get_config_data_policy (sv_ioctl E) (disc_handle x) garbage b3 = (NVM_SUCCESS, q, s5) \<and>
      rd q 2 = Some v \<and> v \<noteq> 0)"
    using w unfolding e by blast
  show ?thesis
    apply (intro exI conjI)
         apply (rule x(3))
        apply (rule x(1))
       apply (rule pg(1))
      apply (rule pg(2))
     apply (rule vi)
    apply (rule c)
    done
qed

text \<open>A device that answers with a page that says that the health is valid and critical, and fails every other command.\<close>

definition critical_page :: bytes where "critical_page = [1, 0, 0, 0, 0, 0, 0, 0, 2] @ zeros 119"

definition critical_device :: "unit passthrough" where
  "critical_device s c =
     (if cmd_opcode c = PT_GET_LOG \<and> cmd_sub_opcode c = SUBOP_SMART_HEALTH
      then (NVM_SUCCESS, critical_page, [], s)
      else (NVM_ERR_DRIVERFAILED, case cmd_output_payload c of Some b \<Rightarrow> b | None \<Rightarrow> [], [], s))"

lemma critical_device_answers:
  "fw_get_smart_health critical_device h s = (NVM_SUCCESS, critical_page, s)"
  "get_fw_die_spare_policy critical_device h b s = (NVM_ERR_DRIVERFAILED, b, s)"
  "fw_get_config_data_policy critical_device h b s = (NVM_ERR_DRIVERFAILED, b, s)"
  "fw_get_status_for_long_op critical_device h b s = (NVM_ERR_DRIVERFAILED, b, s)"
  "fw_get_bsr critical_device h b s = (NVM_ERR_DRIVERFAILED, b, s)"
  "fw_get_fw_error_log_info_data critical_device h l y b s = (NVM_ERR_DRIVERFAILED, b, s)"
  by (simp_all add: fw_get_smart_health_def get_fw_die_spare_policy_def fw_get_config_data_policy_def
      fw_get_status_for_long_op_def fw_get_bsr_def fw_get_fw_error_log_info_data_def run_get_def critical_device_def
      with_input_def with_output_def new_cmd_def)

lemma zero_words: "rd16 (zeros SMALL_PAYLOAD) 2 = Some 0" "rd16 (zeros SMALL_PAYLOAD) 4 = Some 0" "rd64 (zeros SMALL_PAYLOAD) 14 = Some 0"
  by code_simp+

lemma no_error_logs:
  "\<exists>rc. error_logs_loop critical_device h logs r st s = Some (rc, foldl (\<lambda>st (type, level).
     set_sequence_numbers type level \<lparr>sq_oldest = 0, sq_current = 0\<rparr> st) st logs, s)"
  by (induction critical_device h logs r st s rule: error_logs_loop.induct)
    (auto simp: update_status_fw_error_log_info_by_type_and_level_def critical_device_answers zero_words Let_def)

lemma no_long_op: "long_op_status critical_device h st s =
    Some (st\<lparr>ds_ars_status := DEVICE_ARS_STATUS_UNKNOWN, ds_sanitize_status := DEVICE_SANITIZE_STATUS_UNKNOWN\<rparr>, s)"
  by (simp add: long_op_status_def critical_device_answers read_long_op_stat_def get_long_status_def rd16_def rd32_def
      rd_bytes_def rd_def zeros_def)

lemma critical_page_read:
  "\<exists>h. read_smart_health critical_page = Some h \<and> health_status_field h \<and> \<not> sizeof_vendor_data_field h \<and>
     health_status h = 2"
  by (simp add: critical_page_def read_smart_health_def rd64_def rd16_def rd32_def rd_bytes_def rd_def zeros_def nth_append
      health_status_field_def sizeof_vendor_data_field_def)

lemma critical_page_words:
  "rd critical_page 64 = Some 0" "rd64 critical_page 65 = Some 0" "rd_bytes critical_page 73 3 = Some (replicate 3 0)"
  "rd critical_page 20 = Some 0" "rd32 critical_page 76 = Some 0" "rd32 critical_page 80 = Some 0"
  by (simp_all add: critical_page_def rd64_def rd32_def rd_bytes_def rd_def zeros_def nth_append)

lemma critical_health:
  "\<exists>st'. fill_device_status_from_smart_health critical_device h st s = Some (NVM_SUCCESS, st', s) \<and>
     ds_health st' = DEVICE_HEALTH_CRITICAL"
proof -
  obtain h' where h: "read_smart_health critical_page = Some h'" "health_status_field h'"
    "\<not> sizeof_vendor_data_field h'" "health_status h' = 2"
    using critical_page_read by blast
  have "\<exists>st'. status_of_smart_health critical_page st = Some st' \<and> ds_health st' = DEVICE_HEALTH_CRITICAL"
    by (simp add: status_of_smart_health_def h critical_page_words Let_def smart_health_status_to_device_health_def)
  then show ?thesis by (auto simp: fill_device_status_from_smart_health_def critical_device_answers)
qed

text \<open>No device is listed for the look-up of the violations.\<close>

definition critical_env :: "unit status_env" where "critical_env = (status_example critical_device)\<lparr>sv_count := 0\<rparr>"

lemma critical_env_fields:
  "sn_base (sv_sensors critical_env) = status_base critical_device" "sv_caps critical_env = (\<lambda>s. (0, status_caps, s))"
  "sv_pcd critical_env h = (- 1, None)" "get_sku_violation_state_for_device critical_env h v = Some (0, v)"
  by (simp_all add: critical_env_def status_example_fields get_sku_violation_state_for_device_def)
    (simp add: status_example_def)

lemma critical_status:
  "\<exists>st. nvm_get_device_status critical_env g (Some (replicate 37 0)) (Some st0) s = Some (NVM_SUCCESS, Some st, s) \<and>
     ds_health st = DEVICE_HEALTH_CRITICAL"
proof -
  let ?h = "disc_handle status_device"
  have 1: "die_spares_status critical_env ?h zero_device_state s = Some (zero_device_state, s)"
    by (simp add: die_spares_status_def critical_env_fields status_example_fields critical_device_answers)
  obtain st3 where 3: "fill_device_status_from_smart_health critical_device ?h (zero_device_state
      \<lparr>ds_ars_status := DEVICE_ARS_STATUS_UNKNOWN, ds_sanitize_status := DEVICE_SANITIZE_STATUS_UNKNOWN\<rparr>) s =
      Some (NVM_SUCCESS, st3, s)" "ds_health st3 = DEVICE_HEALTH_CRITICAL"
    using critical_health by blast
  obtain rc4 st4 where 4: "fill_device_config_status status_caps (- 1, None) st3 = Some (rc4, st4)"
    by (simp add: fill_device_config_status_def status_caps_fields Let_def)
  have 6: "viral_status critical_device g ?h st s = Some (st, s)" for st
    by (simp add: viral_status_def critical_device_answers)
  obtain rc7 st7 where 7: "fill_fw_error_log_status critical_device ?h
      (st4\<lparr>ds_mixed_sku := mixed_sku (sku_capabilities status_caps)\<rparr>) s = Some (rc7, st7, s)"
    using no_error_logs unfolding fill_fw_error_log_status_def by blast
  obtain st where 8: "boot_status critical_device ?h st7 s = Some (st, s)"
    by (simp add: boot_status_def critical_device_answers rd64_def rd_bytes_def)
  have "ds_health st = DEVICE_HEALTH_CRITICAL"
    using 3(2) config_status_frame [OF 4] fill_error_log_frame [OF 7] boot_frame [OF 8] by simp
  moreover have "get_device_status_by_handle critical_env g ?h status_caps s = Some (st, s)"
    using 1 3(1) 4 6 7 8
    by (simp add: get_device_status_by_handle_def critical_env_fields status_example_fields no_long_op)
  ultimately show ?thesis
    by (simp add: nvm_get_device_status_def critical_env_fields status_example_fields status_caps_fields status_found)
qed

theorem device_status_answered_witness:
  "\<exists>st. nvm_get_device_status critical_env [] (Some (replicate 37 0)) (Some zero_device_state) () = Some (NVM_SUCCESS, Some st, ()) \<and>
     ds_health st = DEVICE_HEALTH_CRITICAL \<and> \<not> ds_is_configured st"
proof -
  obtain st where st: "nvm_get_device_status critical_env [] (Some (replicate 37 0)) (Some zero_device_state) () =
      Some (NVM_SUCCESS, Some st, ())" "ds_health st = DEVICE_HEALTH_CRITICAL"
    using critical_status by blast
  have "\<not> ds_is_configured st" using device_status_answered [OF st(1)] by (auto simp: critical_env_fields)
  with st show ?thesis by blast
qed

end
