(* ===== verification/Devices_Facts.thy ===== *)
theory Devices_Facts
  imports Devices
begin

text \<open>
  What the description of the devices promises: a device is reported as manageable only when the NFIT,
  the interface formats, the controller and the firmware all allow it, and the guards of the two
  functions that list the devices.
\<close>

unbundle bit_operations_syntax

section \<open>The loops over the devices\<close>

lemma for_devices_result:
  assumes "for_devices f n i devs = Some devs'"
  shows "length devs' = length devs \<and> (i < n \<longrightarrow> n \<le> length devs) \<and>
    (\<forall>k. i \<le> k \<and> k < n \<longrightarrow> f (devs ! k) = Some (devs' ! k)) \<and>
    (\<forall>k. k < i \<or> n \<le> k \<longrightarrow> devs' ! k = devs ! k)"
  using assms
proof (induction f n i devs rule: for_devices.induct)
  case (1 f n i devs)
  show ?case
  proof (cases "i < n")
    case False
    then show ?thesis using "1.prems" by (subst (asm) for_devices.simps) auto
  next
    case True
    from "1.prems" True obtain x' where
      l: "i < length devs" and x: "f (devs ! i) = Some x'" and
      r: "for_devices f n (Suc i) (devs[i := x']) = Some devs'"
      by (subst (asm) for_devices.simps) (auto simp: rd_eq_Some wr_eq_Some split: Option.bind_splits)
    have ih: "length devs' = length (devs[i := x']) \<and> (Suc i < n \<longrightarrow> n \<le> length (devs[i := x'])) \<and>
      (\<forall>k. Suc i \<le> k \<and> k < n \<longrightarrow> f (devs[i := x'] ! k) = Some (devs' ! k)) \<and>
      (\<forall>k. k < Suc i \<or> n \<le> k \<longrightarrow> devs' ! k = devs[i := x'] ! k)"
      by (rule "1.IH" [OF True _ x _ r]) (use l in \<open>auto simp: rd_eq_Some wr_eq_Some\<close>)
    have at_i: "devs' ! i = x'" using ih l by simp
    have "f (devs ! k) = Some (devs' ! k)" if "i \<le> k" "k < n" for k
    proof (cases "k = i")
      case True
      then show ?thesis using at_i x by simp
    next
      case False
      then show ?thesis using ih that by auto
    qed
    then show ?thesis using ih l True by auto
  qed
qed

definition same_but :: "(dimm_device \<Rightarrow> 'v) \<Rightarrow> (dimm_device \<Rightarrow> dimm_device option) \<Rightarrow> bool" where
  "same_but v f \<longleftrightarrow> (\<forall>x x'. f x = Some x' \<longrightarrow> v x' = v x)"

lemma for_devices_keeps:
  assumes "for_devices f n 0 devs = Some devs'" "same_but v f" "k < length devs"
  shows "v (devs' ! k) = v (devs ! k)"
  using for_devices_result [OF assms(1)] assms(2,3) unfolding same_but_def
  by (metis leI zero_le)

lemma for_devices_length: "for_devices f n 0 devs = Some devs' \<Longrightarrow> length devs' = length devs"
  using for_devices_result by blast

lemma from_topologies_result:
  assumes "from_topologies_loop ts n m i devs = Some (rc, devs')"
  shows "length devs' = length devs \<and>
    (rc = NVM_ERR_ARRAYTOOSMALL \<or>
     rc = int (max i n) \<and> (\<forall>k. i \<le> k \<and> k < n \<longrightarrow> nvm_topology_to_device (ts ! k) (devs ! k) = Some (devs' ! k)) \<and>
     (i < n \<longrightarrow> n \<le> length ts \<and> n \<le> length devs)) \<and>
    (\<forall>k < i. devs' ! k = devs ! k)"
  using assms
proof (induction ts n m i devs rule: from_topologies_loop.induct)
  case (1 ts n m i devs)
  show ?case
  proof (cases "i < n")
    case False
    then show ?thesis using "1.prems" by (subst (asm) from_topologies_loop.simps) auto
  next
    case True
    show ?thesis
    proof (cases "m \<le> i")
      case True
      then show ?thesis using "1.prems" \<open>i < n\<close> by (subst (asm) from_topologies_loop.simps) auto
    next
      case False
      from "1.prems" True False obtain x' where
        l: "i < length ts" "i < length devs" and x: "nvm_topology_to_device (ts ! i) (devs ! i) = Some x'" and
        r: "from_topologies_loop ts n m (Suc i) (devs[i := x']) = Some (rc, devs')"
        by (subst (asm) from_topologies_loop.simps) (auto simp: rd_eq_Some wr_eq_Some split: Option.bind_splits)
      have ih: "length devs' = length (devs[i := x']) \<and>
        (rc = NVM_ERR_ARRAYTOOSMALL \<or>
         rc = int (max (Suc i) n) \<and>
         (\<forall>k. Suc i \<le> k \<and> k < n \<longrightarrow> nvm_topology_to_device (ts ! k) (devs[i := x'] ! k) = Some (devs' ! k)) \<and>
         (Suc i < n \<longrightarrow> n \<le> length ts \<and> n \<le> length (devs[i := x']))) \<and>
        (\<forall>k < Suc i. devs' ! k = devs[i := x'] ! k)"
        by (rule "1.IH" [OF True False _ _ x _ r]) (use l in \<open>auto simp: rd_eq_Some wr_eq_Some\<close>)
      have at_i: "devs' ! i = x'" using ih l by simp
      have mx: "max (Suc i) n = max i n" using True by simp
      show ?thesis
      proof (cases "rc = NVM_ERR_ARRAYTOOSMALL")
        case True
        then show ?thesis using ih by auto
      next
        case f: False
        have "nvm_topology_to_device (ts ! k) (devs ! k) = Some (devs' ! k)" if "i \<le> k" "k < n" for k
        proof (cases "k = i")
          case True
          then show ?thesis using at_i x by simp
        next
          case False
          then have "Suc i \<le> k" using that by simp
          then have "nvm_topology_to_device (ts ! k) (devs[i := x'] ! k) = Some (devs' ! k)"
            using ih f that by blast
          then show ?thesis using False by simp
        qed
        moreover have "n \<le> length ts \<and> n \<le> length devs"
          using ih f l True by (cases "Suc i < n") auto
        ultimately show ?thesis using ih f mx by auto
      qed
    qed
  qed
qed

text \<open>The firmware: every device was updated by its own command, unless an earlier one failed.\<close>

lemma add_firmware_result:
  assumes "add_firmware_loop pt g n i devs d = Some (rc, devs', d')"
  shows "length devs' = length devs \<and> (rc = NVM_SUCCESS \<longrightarrow>
      (\<forall>k. i \<le> k \<and> k < n \<longrightarrow>
        (\<exists>d0 d1. add_firmware_properties_to_device pt g (devs ! k) d0 = Some (NVM_SUCCESS, devs' ! k, d1)))) \<and>
    (\<forall>k < i. devs' ! k = devs ! k) \<and>
    (\<forall>k. devs' ! k = devs ! k \<or>
       (\<exists>c d0 d1. add_firmware_properties_to_device pt g (devs ! k) d0 = Some (c, devs' ! k, d1)))"
  using assms
proof (induction pt g n i devs d rule: add_firmware_loop.induct)
  case (1 pt g n i devs d)
  show ?case
  proof (cases "i < n")
    case False
    then show ?thesis using "1.prems" by (subst (asm) add_firmware_loop.simps) auto
  next
    case True
    from "1.prems" True obtain c x' d1 where
      l: "i < length devs" and x: "add_firmware_properties_to_device pt g (devs ! i) d = Some (c, x', d1)" and
      r: "(if c \<noteq> NVM_SUCCESS then Some (c, devs[i := x'], d1)
           else add_firmware_loop pt g n (Suc i) (devs[i := x']) d1) = Some (rc, devs', d')"
      by (subst (asm) add_firmware_loop.simps) (auto simp: rd_eq_Some wr_eq_Some split: Option.bind_splits)
    show ?thesis
    proof (cases "c = NVM_SUCCESS")
      case False
      then have e: "rc = c" "devs' = devs[i := x']" using r by auto
      have "devs' ! k = devs ! k \<or>
        (\<exists>c d0 d1. add_firmware_properties_to_device pt g (devs ! k) d0 = Some (c, devs' ! k, d1))" for k
        using x l e(2) by (cases "k = i") auto
      then show ?thesis using e False by auto
    next
      case s: True
      have ih: "length devs' = length (devs[i := x']) \<and> (rc = NVM_SUCCESS \<longrightarrow>
          (\<forall>k. Suc i \<le> k \<and> k < n \<longrightarrow>
            (\<exists>d0 d1. add_firmware_properties_to_device pt g (devs[i := x'] ! k) d0 = Some (NVM_SUCCESS, devs' ! k, d1)))) \<and>
        (\<forall>k < Suc i. devs' ! k = devs[i := x'] ! k) \<and>
        (\<forall>k. devs' ! k = devs[i := x'] ! k \<or>
           (\<exists>c d0 d1. add_firmware_properties_to_device pt g (devs[i := x'] ! k) d0 = Some (c, devs' ! k, d1)))"
        by (rule "1.IH" [OF True _ x]) (use l r s in \<open>auto simp: rd_eq_Some wr_eq_Some\<close>)
      have at_i: "devs' ! i = x'" using ih l by simp
      have a: "\<exists>d0 d1. add_firmware_properties_to_device pt g (devs ! k) d0 = Some (NVM_SUCCESS, devs' ! k, d1)"
        if "i \<le> k" "k < n" "rc = NVM_SUCCESS" for k
      proof (cases "k = i")
        case True
        then show ?thesis using at_i x s by auto
      next
        case False
        then have "Suc i \<le> k" using that by simp
        then show ?thesis using ih that(2,3) False by (metis nth_list_update_neq)
      qed
      have b: "devs' ! k = devs ! k \<or>
        (\<exists>c d0 d1. add_firmware_properties_to_device pt g (devs ! k) d0 = Some (c, devs' ! k, d1))" for k
      proof (cases "k = i")
        case True
        then show ?thesis using x at_i by blast
      next
        case False
        then have "devs[i := x'] ! k = devs ! k" by simp
        then show ?thesis using ih by metis
      qed
      show ?thesis using ih a b by auto
    qed
  qed
qed

lemma add_firmware_device_code:
  "add_firmware_properties_to_device pt g x d = Some (rc, x', d') \<Longrightarrow> (\<And>d c. fst (pt d c) \<le> 0) \<Longrightarrow> rc \<le> 0"
  unfolding add_firmware_properties_to_device_def fw_get_identify_dimm_def run_get_def
  by (auto split: if_splits Option.bind_splits prod.splits)
    (metis fst_conv)+

lemma add_firmware_code:
  "add_firmware_loop pt g n i devs d = Some (rc, devs', d') \<Longrightarrow> (\<And>d c. fst (pt d c) \<le> 0) \<Longrightarrow> rc \<le> 0"
proof (induction pt g n i devs d rule: add_firmware_loop.induct)
  case (1 pt g n i devs d)
  then show ?case
    by (subst (asm) add_firmware_loop.simps)
      (auto split: if_splits Option.bind_splits prod.splits dest: add_firmware_device_code)
qed

section \<open>What a device is described from\<close>

lemma update_mode_keeps:
  "update_device_mode_capabilities_from_interface_format_codes (x :: dimm_device) = Some x' \<Longrightarrow>
   disc_handle x' = disc_handle x \<and> disc_manageability x' = disc_manageability x"
  by (auto simp: update_device_mode_capabilities_from_interface_format_codes_def Let_def
      split: Option.bind_splits if_splits)

lemma calculate_capabilities_keeps:
  "calculate_device_capabilities (x :: dimm_device) = Some x' \<Longrightarrow>
   disc_handle x' = disc_handle x \<and> disc_manageability x' = disc_manageability x"
  unfolding calculate_device_capabilities_def by (drule update_mode_keeps) auto

lemma calculate_uid_keeps:
  "calculate_device_uid g (Some x) = Some (c, Some x') \<Longrightarrow>
   disc_handle x' = disc_handle (x :: dimm_device) \<and> disc_manageability x' = disc_manageability x"
  by (auto simp: calculate_device_uid_def split: Option.bind_splits if_splits)

lemma add_ifc_keeps:
  "add_ifc_to_device c (x :: dimm_device) = Some x' \<Longrightarrow>
   disc_handle x' = disc_handle x \<and> disc_manageability x' = disc_manageability x"
  by (auto simp: add_ifc_to_device_def split: if_splits)

lemma add_identify_keeps:
  assumes "add_identify_dimm_properties_to_device x p = Some x'"
  shows "\<exists>api_ver. rd16 p 68 = Some api_ver \<and> disc_handle x' = disc_handle x \<and>
    disc_manageability x' = set_device_manageability_from_firmware api_ver (disc_manageability x)"
  using assms unfolding add_identify_dimm_properties_to_device_def add_ifcs_from_identify_dimm_to_device_def
  by (auto simp: Let_def split: Option.bind_splits dest!: add_ifc_keeps)

lemma add_security_keeps:
  "add_security_state_to_device pt x d = Some (rc, x', d') \<Longrightarrow>
   disc_handle x' = disc_handle x \<and> disc_manageability x' = disc_manageability x"
  by (auto simp: add_security_state_to_device_def split: prod.splits if_splits Option.bind_splits)

definition answers_supported_firmware :: "'d passthrough \<Rightarrow> bytes \<Rightarrow> u32 \<Rightarrow> bool" where
  "answers_supported_firmware pt g h \<longleftrightarrow>
     (\<exists>d0 p d1 api_ver. fw_get_identify_dimm pt h g d0 = Some (NVM_SUCCESS, p, d1) \<and>
        rd16 p 68 = Some api_ver \<and> check_firmware_revision api_ver)"

lemma add_firmware_handle:
  "add_firmware_properties_to_device pt g x d = Some (rc, x', d') \<Longrightarrow> disc_handle x' = disc_handle x"
  unfolding add_firmware_properties_to_device_def
  by (auto split: if_splits Option.bind_splits prod.splits dest!: add_identify_keeps add_security_keeps)

lemma add_firmware_manageable:
  assumes "add_firmware_properties_to_device pt g x d = Some (rc, x', d')" "IS_DEVICE_MANAGEABLE x'"
  shows "IS_DEVICE_MANAGEABLE x \<and> answers_supported_firmware pt g (disc_handle x)"
proof -
  have m: "IS_DEVICE_MANAGEABLE x"
    using assms unfolding add_firmware_properties_to_device_def by (auto split: if_splits)
  then obtain c p d1 where i: "fw_get_identify_dimm pt (disc_handle x) g d = Some (c, p, d1)"
    using assms(1) unfolding add_firmware_properties_to_device_def by (auto split: Option.bind_splits)
  have c: "c = NVM_SUCCESS"
    using assms i m unfolding add_firmware_properties_to_device_def
    by (auto simp: MANAGEMENT_VALIDCONFIG_def split: if_splits)
  then obtain x1 where x1: "add_identify_dimm_properties_to_device x p = Some x1"
    using assms(1) i m unfolding add_firmware_properties_to_device_def by (auto split: Option.bind_splits)
  then have m1: "IS_DEVICE_MANAGEABLE x1"
    using assms i m c unfolding add_firmware_properties_to_device_def by (auto split: if_splits)
  from add_identify_keeps [OF x1] m m1 obtain api_ver where
    "rd16 p 68 = Some api_ver" "check_firmware_revision api_ver"
    by (auto simp: set_device_manageability_from_firmware_def MANAGEMENT_INVALIDCONFIG_def
        MANAGEMENT_VALIDCONFIG_def split: if_splits)
  then show ?thesis using m i c unfolding answers_supported_firmware_def by auto
qed

lemma topology_to_device_keeps:
  assumes "nvm_topology_to_device t x = Some x'"
  shows "disc_handle x' = tp_device_handle t"
    and "IS_DEVICE_MANAGEABLE x' \<Longrightarrow> \<not> NFIT_DIMM_STATE_IS_DISABLED (tp_state_flags t) \<and>
      is_device_interface_format_supported t = Some True \<and> is_device_subsystem_controller_supported t"
  using assms unfolding nvm_topology_to_device_def get_manageability_from_topology_def
  by (auto simp: Let_def MANAGEMENT_INVALIDCONFIG_def MANAGEMENT_VALIDCONFIG_def split: if_splits Option.bind_splits)

text \<open>The claim on one device: the DIMM it is, and the reasons for calling it manageable.\<close>

definition topology_device :: "'d passthrough \<Rightarrow> bytes \<Rightarrow> nvm_topology \<Rightarrow> dimm_device \<Rightarrow> bool" where
  "topology_device pt g t x \<longleftrightarrow>
     disc_handle x = tp_device_handle t \<and> disc_all_properties_populated x \<and>
     (IS_DEVICE_MANAGEABLE x \<longrightarrow>
        \<not> NFIT_DIMM_STATE_IS_DISABLED (tp_state_flags t) \<and>
        is_device_interface_format_supported t = Some True \<and>
        is_device_subsystem_controller_supported t \<and>
        answers_supported_firmware pt g (tp_device_handle t))"


lemma described_device:
  assumes "describe_devices E pt devs count True n d = Some (rc, out, d')"
    and n: "n = nat (env_topo_count E)" and "0 < rc" and code: "\<And>d c. fst (pt d c) \<le> 0"
  shows "rc = int n \<and> length out = length devs \<and>
    (\<forall>k < n. topology_device pt (env_id_dimm E) (snd (env_topo E) ! k) (out ! k))"
proof -
  let ?g = "env_id_dimm E"
  let ?ts = "snd (env_topo E)"
  from assms(1) obtain c1 ds1 ds2 fc ds3 ds4 ds5 d1 where
    t: "from_topologies_loop ?ts n count 0 devs = Some (c1, ds1)" and
    sm: "add_smbios_properties_to_populated_devices (env_smbios E) ds1 n = Some ds2" and
    fw: "add_firmware_loop pt ?g n 0 ds2 d = Some (fc, ds3, d1)" and
    ca: "calculate_capabilities_for_populated_devices ds3 n = Some ds4" and
    ui: "calculate_uids_for_populated_devices (env_garbage E) ds4 n = Some ds5" and
    al: "for_devices (\<lambda>x. Some (x\<lparr>disc_all_properties_populated := True\<rparr>)) n 0 ds5 = Some out" and
    rc: "rc = (if fc \<noteq> NVM_SUCCESS then fc else c1)"
    unfolding describe_devices_def populate_devices_from_topologies_def
      add_firmware_properties_to_populated_devices_def n [symmetric]
    by (clarsimp simp: bind_eq_Some_conv simp del: fst_conv snd_conv)
  have "fc \<le> 0" using add_firmware_code [OF fw code] .
  then have fc: "fc = NVM_SUCCESS" and c1: "0 < c1" using rc assms(3) by (auto split: if_splits)
  note tr = from_topologies_result [OF t]
  have c1n: "c1 = int n" using tr c1 by auto
  have len: "length ds1 = length devs" "length ds2 = length devs" "length ds3 = length devs"
    "length ds4 = length devs" "length ds5 = length devs" "length out = length devs"
    using tr sm add_firmware_result [OF fw] ca ui al
    unfolding add_smbios_properties_to_populated_devices_def calculate_capabilities_for_populated_devices_def
      calculate_uids_for_populated_devices_def
    by (auto dest!: for_devices_length)
  have "topology_device pt ?g (?ts ! k) (out ! k)" if k: "k < n" for k
  proof -
    have a: "nvm_topology_to_device (?ts ! k) (devs ! k) = Some (ds1 ! k)" using tr c1 k by auto
    have "(case env_smbios E (disc_handle (ds1 ! k)) of (rc, d) \<Rightarrow>
        if rc = NVM_SUCCESS
        then (ds1 ! k)\<lparr>disc_capacity := nd_size d,
          disc_memory_type := get_memory_type_from_smbios_memory_type (nd_type d) (ucast (nd_type_detail_bits d))\<rparr>
        else ds1 ! k) = ds2 ! k"
      using for_devices_result [OF sm [unfolded add_smbios_properties_to_populated_devices_def]] k by blast
    then have b: "disc_handle (ds2 ! k) = disc_handle (ds1 ! k) \<and>
        disc_manageability (ds2 ! k) = disc_manageability (ds1 ! k)"
      by (elim subst) (simp split: prod.split)
    obtain d2 d3 where c: "add_firmware_properties_to_device pt ?g (ds2 ! k) d2 = Some (NVM_SUCCESS, ds3 ! k, d3)"
      using add_firmware_result [OF fw] fc k by auto
    have "calculate_device_capabilities (ds3 ! k) \<bind>
        (\<lambda>x'. Some (x'\<lparr>disc_security_capabilities := map_sku_security_capabilities (disc_dimm_sku x')\<rparr>)) = Some (ds4 ! k)"
      using for_devices_result [OF ca [unfolded calculate_capabilities_for_populated_devices_def]] k by blast
    then have e: "disc_handle (ds4 ! k) = disc_handle (ds3 ! k) \<and>
        disc_manageability (ds4 ! k) = disc_manageability (ds3 ! k)"
      by (cases "calculate_device_capabilities (ds3 ! k)")
        (auto dest!: calculate_capabilities_keeps dest: sym [of _ "ds4 ! k"])
    have "calculate_device_uid (env_garbage E) (Some (ds4 ! k)) \<bind> (\<lambda>(_, x'). x') = Some (ds5 ! k)"
      using for_devices_result [OF ui [unfolded calculate_uids_for_populated_devices_def]] k by blast
    then have f: "disc_handle (ds5 ! k) = disc_handle (ds4 ! k) \<and>
        disc_manageability (ds5 ! k) = disc_manageability (ds4 ! k)"
      by (cases "calculate_device_uid (env_garbage E) (Some (ds4 ! k))")
        (auto dest!: calculate_uid_keeps)
    have g: "disc_handle (out ! k) = disc_handle (ds5 ! k) \<and> disc_all_properties_populated (out ! k) \<and>
        disc_manageability (out ! k) = disc_manageability (ds5 ! k)"
    proof -
      have "Some ((ds5 ! k)\<lparr>disc_all_properties_populated := True\<rparr>) = Some (out ! k)"
        using for_devices_result [OF al] k by blast
      then have "out ! k = (ds5 ! k)\<lparr>disc_all_properties_populated := True\<rparr>" by simp
      then show ?thesis by simp
    qed
    show ?thesis
      unfolding topology_device_def
      using topology_to_device_keeps [OF a] b add_firmware_handle [OF c] add_firmware_manageable [OF c] e f g
      by metis
  qed
  then show ?thesis using c1n fc rc len by auto
qed

section \<open>The properties\<close>

text \<open>One DIMM, and a firmware that answers the identify command with version 1.2 of its interface.\<close>

definition one_topology :: nvm_topology where
  "one_topology = zero_topology\<lparr>tp_device_handle := 0x11, tp_subsystem_vendor_id := 0x8089,
     tp_subsystem_device_id := 0x7A09, tp_fmt_interface_codes := 0x301 # replicate 8 0\<rparr>"

definition one_dimm_firmware :: "unit passthrough" where
  "one_dimm_firmware d c =
     (0, if cmd_opcode c = PT_IDENTIFY_DIMM then (zeros SMALL_PAYLOAD)[68 := 2, 69 := 1] else zeros SMALL_PAYLOAD, [], ())"

definition one_dimm_env :: device_env where
  "one_dimm_env =
     \<lparr>env_context = \<lparr>lock_ok = True, unlock_ok = True, alloc_ok = \<lambda>_. True\<rparr>, env_alloc = \<lambda>_. True,
      env_topo_count = 1, env_topo = (1, [one_topology]), env_smbios = \<lambda>_. (NVM_ERR_UNKNOWN, \<lparr>nd_id = 0, nd_type = 0,
        nd_type_detail_bits = 0, nd_form_factor = 0, nd_data_width = 0, nd_total_width = 0, nd_size = 0, nd_speed = 0,
        nd_part_number = [], nd_device_locator = [], nd_bank_label = []\<rparr>),
      env_view = device_discovery.truncate, env_unview = (\<lambda>_. zero_device_discovery), env_id_dimm = zeros SMALL_PAYLOAD, env_garbage = zeros 4,
      env_permitted = True, env_driver = True\<rparr>"

definition one_dimm_found :: dimm_device where
  "one_dimm_found = zero_device_discovery\<lparr>disc_handle := 0x11, disc_subsystem_vendor_id := 0x8089,
     disc_subsystem_device_id := 0x7A09, disc_interface_format_codes := 0x301 # replicate 8 0, disc_manageability := 1,
     disc_channel_id := 1, disc_channel_pos := 1\<rparr>"

definition one_dimm_identified :: dimm_device where
  "one_dimm_identified = one_dimm_found\<lparr>
     disc_fw_revision := [48, 48, 46, 48, 48, 46, 48, 48, 46, 48, 48, 48, 48] @ replicate 12 0,
     disc_fw_api_version := [49, 46, 50] @ replicate 22 0\<rparr>"

lemma one_dimm_api: "build_fw_revision (Some (replicate 25 0)) 25 1 2 = Some (Some ([49, 46, 50] @ replicate 22 0))"
proof -
  have "fmt_hd 1 = [49]" "fmt_hd 2 = [50]" by (simp_all add: fmt_hd_def fmt_dec.simps digit_char_def)
  then show ?thesis
    by (simp add: build_fw_revision_def snprintf_text_def wr_bytes_def numeral_eq_Suc)
qed

lemma one_dimm_identify:
  "add_identify_dimm_properties_to_device one_dimm_found ((zeros SMALL_PAYLOAD)[68 := 2, 69 := 1]) = Some one_dimm_identified"
proof -
  let ?P = "(zeros SMALL_PAYLOAD)[68 := 2, 69 := 1]"
  have a: "rd16 ?P 68 = Some 0x102" "rd32 ?P 62 = Some 0" "rd_bytes ?P 36 2 = Some [0, 0]"
    "rd_bytes ?P 42 20 = Some (zeros 20)" "rd_bytes ?P 8 5 = Some (zeros 5)" "rd32 ?P 32 = Some 0"
    "rd16 ?P 6 = Some 0" "rd16 ?P 66 = Some 0"
    by code_simp+
  have b: "wr_bytes (disc_manufacturer one_dimm_found) 0 [0, 0] = Some [0, 0]"
    "wr_bytes (disc_part_number one_dimm_found) 0 (zeros 20) = Some (zeros 20 @ [0])"
    "FW_VER_ARR_TO_STR (zeros 5) (disc_fw_revision one_dimm_found) 25 =
     Some ([48, 48, 46, 48, 48, 46, 48, 48, 46, 48, 48, 48, 48] @ replicate 12 0)"
    "unat (get_fw_api_major_version 0x102) = 1" "unat (get_fw_api_minor_version 0x102) = 2"
    "set_device_manageability_from_firmware 0x102 (disc_manageability one_dimm_found) = 1"
    "MULTIPLES_TO_BYTES 0 = 0" "disc_fw_api_version one_dimm_found = replicate 25 0"
    by code_simp+
  show ?thesis
    unfolding add_identify_dimm_properties_to_device_def a
    by (simp add: b one_dimm_api [unfolded One_nat_def] add_ifcs_from_identify_dimm_to_device_def add_ifc_to_device_def one_dimm_identified_def)
      (simp add: one_dimm_found_def zero_device_discovery_def zeros_def NVM_MANUFACTURER_LEN_def
        NVM_PART_NUM_LEN_def numeral_eq_Suc)
qed

lemma one_dimm_described:
  "\<exists>x3. IS_DEVICE_MANAGEABLE x3 \<and>
     describe_devices one_dimm_env one_dimm_firmware [zero_device_discovery] 1 True 1 () =
     Some (1, [x3\<lparr>disc_all_properties_populated := True\<rparr>], ())"
proof -
  have t: "populate_devices_from_topologies [zero_device_discovery] 1 [one_topology] 1 = Some (1, [one_dimm_found])"
    by code_simp
  have s: "add_smbios_properties_to_populated_devices (env_smbios one_dimm_env) [one_dimm_found] 1 = Some [one_dimm_found]"
    by code_simp
  have i: "fw_get_identify_dimm one_dimm_firmware 0x11 (zeros SMALL_PAYLOAD) () =
      Some (0, (zeros SMALL_PAYLOAD)[68 := 2, 69 := 1], ())"
    by code_simp
  let ?x = "one_dimm_identified\<lparr>disc_lock_state := LOCK_STATE_DISABLED\<rparr>"
  have l: "add_security_state_to_device one_dimm_firmware one_dimm_identified () = Some (0, ?x, ())"
    by code_simp
  have m: "IS_DEVICE_MANAGEABLE one_dimm_found" "IS_DEVICE_MANAGEABLE one_dimm_identified"
    "disc_handle one_dimm_found = 0x11"
    by code_simp+
  have f1: "add_firmware_properties_to_device one_dimm_firmware (zeros SMALL_PAYLOAD) one_dimm_found () = Some (0, ?x, ())"
    unfolding add_firmware_properties_to_device_def by (simp add: m i one_dimm_identify l)
  have f: "add_firmware_properties_to_populated_devices one_dimm_firmware (zeros SMALL_PAYLOAD) [one_dimm_found] 1 () =
      Some (0, [?x], ())"
    unfolding add_firmware_properties_to_populated_devices_def
    by (simp add: add_firmware_loop.simps [of _ _ _ 0] add_firmware_loop.simps [of _ _ _ "Suc 0"] f1 mem_simps)
  have c: "calculate_capabilities_for_populated_devices [?x] 1 = Some [?x]" by code_simp
  have "map_option (\<lambda>ds. length ds = 1 \<and> IS_DEVICE_MANAGEABLE (ds ! 0))
      (calculate_uids_for_populated_devices (zeros 4) [?x] 1) = Some True"
    by code_simp
  then obtain x3 where u: "calculate_uids_for_populated_devices (zeros 4) [?x] 1 = Some [x3]" and
    x3: "IS_DEVICE_MANAGEABLE x3"
    by (auto simp: length_Suc_conv)
  have "for_devices (\<lambda>x. Some (x\<lparr>disc_all_properties_populated := True\<rparr>)) 1 0 [x3] =
      Some [x3\<lparr>disc_all_properties_populated := True\<rparr>]"
    by (simp add: for_devices.simps [of _ _ 0] for_devices.simps [of _ _ "Suc 0"] mem_simps)
  moreover have "env_topo one_dimm_env = (1, [one_topology])" "env_topo_count one_dimm_env = 1"
    "env_id_dimm one_dimm_env = zeros SMALL_PAYLOAD" "env_garbage one_dimm_env = zeros 4"
    by (simp_all add: one_dimm_env_def)
  ultimately have "describe_devices one_dimm_env one_dimm_firmware [zero_device_discovery] 1 True 1 () =
     Some (1, [x3\<lparr>disc_all_properties_populated := True\<rparr>], ())"
    unfolding describe_devices_def by (simp add: t [unfolded One_nat_def] s [unfolded One_nat_def] f [unfolded One_nat_def]
        c [unfolded One_nat_def] u [unfolded One_nat_def])
  then show ?thesis using x3 by blast
qed

text \<open>
  C10: When all devices are described afresh and the call reports \<open>rc > 0\<close> devices, \<open>rc\<close> is the number
  of topologies, entry \<open>k\<close> has the handle of the \<open>k\<close>-th topology and is marked as fully populated, and
  it is manageable only if the NFIT does not disable it, its interface formats and its controller are
  supported, and its firmware has answered the identify command with a supported API version; for
  a driver that reports no positive code.
\<close>

theorem devices_described:
  assumes "describe_devices E pt devs count True n d = Some (rc, out, d')"
    and "n = nat (env_topo_count E)" and "0 < rc" and "\<And>d c. fst (pt d c) \<le> 0"
  shows "rc = int n \<and> length out = length devs \<and>
    (\<forall>k < n. topology_device pt (env_id_dimm E) (snd (env_topo E) ! k) (out ! k))"
  by (rule described_device [OF assms])

theorem devices_described_witness:
  "\<exists>rc out. describe_devices one_dimm_env one_dimm_firmware [zero_device_discovery] 1 True 1 () = Some (rc, out, ()) \<and>
     rc = 1 \<and> IS_DEVICE_MANAGEABLE (out ! 0) \<and>
     topology_device one_dimm_firmware (zeros SMALL_PAYLOAD) one_topology (out ! 0)"
proof -
  obtain x3 where r: "describe_devices one_dimm_env one_dimm_firmware [zero_device_discovery] 1 True 1 () =
      Some (1, [x3\<lparr>disc_all_properties_populated := True\<rparr>], ())" and m: "IS_DEVICE_MANAGEABLE x3"
    using one_dimm_described by blast
  have "(1 :: int) = int 1 \<and> length [x3\<lparr>disc_all_properties_populated := True\<rparr>] = length [zero_device_discovery] \<and>
    (\<forall>k < 1. topology_device one_dimm_firmware (env_id_dimm one_dimm_env) (snd (env_topo one_dimm_env) ! k)
       ([x3\<lparr>disc_all_properties_populated := True\<rparr>] ! k))"
    by (rule devices_described [OF r]) (simp_all add: one_dimm_env_def one_dimm_firmware_def)
  then show ?thesis using r m by (simp add: one_dimm_env_def)
qed

lemma populate_unguarded:
  "populate_devices (E\<lparr>env_permitted := permitted, env_driver := driver\<rparr>) = populate_devices E"
proof (cases E)
  case (fields c a tc t s v u i g p dr)
  show ?thesis
    unfolding fields populate_devices_def [abs_def] describe_devices_def device_env.update_convs device_env.select_convs ..
qed

text \<open>
  The guards of the two listings: without permission \<open>nvm_get_devices\<close> gives the error and changes
  nothing, but \<open>nvm_get_devices_nfit\<close> answers whoever calls it, and with whatever driver, as it answers a
  permitted caller with a supported driver.
\<close>

theorem nfit_listing_unguarded:
  "nvm_get_devices (E\<lparr>env_permitted := False\<rparr>) pt p_devs count st = Some (NVM_ERR_INVALIDPERMISSIONS, p_devs, st) \<and>
   nvm_get_devices_nfit (E\<lparr>env_permitted := permitted, env_driver := driver\<rparr>) pt p_devs count st =
   nvm_get_devices_nfit (E\<lparr>env_permitted := True, env_driver := True\<rparr>) pt p_devs count st"
  by (simp add: nvm_get_devices_def nvm_get_devices_nfit_def populate_unguarded)


end
