(* ===== verification/Passthrough.thy ===== *)
theory Passthrough
  imports Device_Fw
begin

text \<open>
  The pass-through of a firmware command on Linux (\<open>lib/lnx_adapter_passthrough.c\<close>): a command whose
  payload does not fit in the vendor-specific call is moved through the large mailboxes that the BIOS
  emulates, in transfers of the size that the BIOS reports. The library \<open>libndctl\<close> is a parameter,
  \<open>ndctl\<close>. The transfer loops are partial functions: \<open>None\<close> is an access out of bounds or a loop that
  never ends. The build supports large payloads (\<open>__LARGE_PAYLOAD_NOT_SUPPORTED__\<close> is 0).
\<close>

unbundle bit_operations_syntax

section \<open>The driver library\<close>

text \<open>
  \<open>nd_new\<close> is the result of \<open>ndctl_new\<close>, \<open>nd_has_dimm\<close> whether a bus has the device,
  \<open>nd_cmd_new d opcode in_size out_size\<close> whether a vendor command can be allocated;
  \<open>nd_set_input in_size b\<close> is the count that \<open>ndctl_cmd_vendor_set_input\<close> returns and the input buffer
  that results; \<open>nd_submit d handle opcode input out_size\<close> is the result of \<open>ndctl_cmd_submit\<close>, the
  firmware status, the output and the new state; \<open>nd_get_output out n\<close> the bytes that
  \<open>ndctl_cmd_vendor_get_output\<close> copies.
\<close>

record 'd ndctl =
  nd_new :: "'d \<Rightarrow> int"
  nd_has_dimm :: "'d \<Rightarrow> u32 \<Rightarrow> bool"
  nd_cmd_new :: "'d \<Rightarrow> u32 \<Rightarrow> nat \<Rightarrow> nat \<Rightarrow> bool"
  nd_set_input :: "nat \<Rightarrow> bytes \<Rightarrow> nat \<times> bytes"
  nd_submit :: "'d \<Rightarrow> u32 \<Rightarrow> u32 \<Rightarrow> bytes \<Rightarrow> nat \<Rightarrow> int \<times> u32 \<times> bytes \<times> 'd"
  nd_get_output :: "bytes \<Rightarrow> nat \<Rightarrow> bytes"

definition BUILD_DSM_OPCODE :: "u8 \<Rightarrow> u8 \<Rightarrow> u32" where
  "BUILD_DSM_OPCODE opcode subop_code = push_bit 8 (ucast subop_code) OR ucast opcode"

abbreviation SUBOP_GET_PAYLOAD_SIZE :: u8 where "SUBOP_GET_PAYLOAD_SIZE \<equiv> 0x00"
abbreviation SUBOP_WRITE_LARGE_PAYLOAD_INPUT :: u8 where "SUBOP_WRITE_LARGE_PAYLOAD_INPUT \<equiv> 0x01"
abbreviation SUBOP_READ_LARGE_PAYLOAD_OUTPUT :: u8 where "SUBOP_READ_LARGE_PAYLOAD_OUTPUT \<equiv> 0x02"

definition linux_err_to_nvm_lib_err :: "int \<Rightarrow> int" where
  "linux_err_to_nvm_lib_err crbd_err =
     (if crbd_err < 0 then
        if crbd_err = - 13 then NVM_ERR_INVALIDPERMISSIONS
        else if crbd_err = - 9 then NVM_ERR_BADDEVICE
        else if crbd_err = - 16 then NVM_ERR_DEVICEBUSY
        else if crbd_err = - 14 then NVM_ERR_UNKNOWN
        else if crbd_err = - 22 then NVM_ERR_DRIVERFAILED
        else if crbd_err = - 19 then NVM_ERR_BADDEVICE
        else if crbd_err = - 12 then NVM_ERR_NOMEMORY
        else if crbd_err = - 28 then NVM_ERR_BADSIZE
        else if crbd_err = - 25 then NVM_ERR_UNKNOWN
        else if crbd_err = - 1 then NVM_ERR_BADSECURITYSTATE
        else NVM_ERR_DRIVERFAILED
      else NVM_SUCCESS)"

section \<open>The sizes of the mailboxes\<close>

record pt_bios_get_size =
  large_input_payload_size :: u32
  large_output_payload_size :: u32
  rw_size :: u32

definition bios_size_of :: "bytes \<Rightarrow> pt_bios_get_size" where
  "bios_size_of b = \<lparr>large_input_payload_size = fld b 0 4, large_output_payload_size = fld b 4 4,
     rw_size = fld b 8 4\<rparr>"

text \<open>The structure is cleared first; the copied bytes overwrite its beginning.\<close>

definition bios_get_payload_size ::
    "'d ndctl \<Rightarrow> u32 option \<Rightarrow> pt_bios_get_size option \<Rightarrow> 'd \<Rightarrow> int \<times> pt_bios_get_size option \<times> 'd" where
  "bios_get_payload_size nd p_dimm p_bios_mb_size d =
     (case p_dimm of
        None \<Rightarrow> (NVM_ERR_INVALIDPARAMETER, p_bios_mb_size, d)
      | Some handle \<Rightarrow>
          if p_bios_mb_size = None then (NVM_ERR_INVALIDPARAMETER, None, d)
          else
            let opcode = BUILD_DSM_OPCODE BIOS_EMULATED_COMMAND SUBOP_GET_PAYLOAD_SIZE;
                cleared = Some (bios_size_of (zeros 12)) in
            if \<not> nd_cmd_new nd d opcode 128 12 then (NVM_ERR_DRIVERFAILED, cleared, d)
            else (case nd_submit nd d handle opcode (zeros 128) 12 of (lnx_err_status, dsm_status, out, d') \<Rightarrow>
              if lnx_err_status = 0 then
                if dsm_status \<noteq> 0 then (dsm_err_to_nvm_lib_err dsm_status, cleared, d')
                else
                  let got = nd_get_output nd out 12 in
                  (if length got \<noteq> 12 then NVM_ERR_DRIVERFAILED else NVM_SUCCESS,
                   Some (bios_size_of (got @ drop (length got) (zeros 12))), d')
              else (linux_err_to_nvm_lib_err lnx_err_status, cleared, d')))"

section \<open>Transfers\<close>

text \<open>\<open>sizeof\<close> of the input structure: two words and the buffer, padded to the alignment of a word.\<close>

definition bios_input_size :: "nat \<Rightarrow> nat" where
  "bios_input_size in_len = 8 + (in_len + 3) div 4 * 4"

definition bios_input :: "u32 \<Rightarrow> u32 \<Rightarrow> bytes \<Rightarrow> bytes" where
  "bios_input n offset buffer =
     (let b = le_bytes 4 (unat n) @ le_bytes 4 (unat offset) @ buffer in
      b @ zeros (bios_input_size (length buffer) - length b))"

definition next_transfer :: "u32 \<Rightarrow> u32 \<Rightarrow> u32 \<Rightarrow> u32 \<Rightarrow> u32" where
  "next_transfer rw lsize transfer_size current_offset =
     (if current_offset + rw > lsize then lsize - current_offset else transfer_size)"

text \<open>One round of the write loop: the new code and offset.\<close>

definition bios_write_step ::
    "'d ndctl \<Rightarrow> (nat \<Rightarrow> bool) \<Rightarrow> u32 \<Rightarrow> bytes \<Rightarrow> u32 \<Rightarrow> u32 \<Rightarrow> 'd \<Rightarrow> (int \<times> u32 \<times> 'd) option" where
  "bios_write_step nd alloc handle payload n offset d =
     (let opcode = BUILD_DSM_OPCODE BIOS_EMULATED_COMMAND SUBOP_WRITE_LARGE_PAYLOAD_INPUT;
          in_size = bios_input_size (unat n) in
      if \<not> alloc in_size then Some (NVM_ERR_NOMEMORY, offset, d)
      else if \<not> nd_cmd_new nd d opcode in_size 0 then Some (NVM_ERR_DRIVERFAILED, offset, d)
      else do {
        buffer \<leftarrow> rd_bytes payload (unat offset) (unat n);
        (case nd_set_input nd in_size (bios_input n offset buffer) of (bytes_written, input) \<Rightarrow>
           if bytes_written \<noteq> in_size then Some (NVM_ERR_DRIVERFAILED, offset, d)
           else (case nd_submit nd d handle opcode input 0 of (lnx_err_status, dsm_status, _, d') \<Rightarrow>
             if lnx_err_status = 0 then
               if dsm_status \<noteq> 0 then Some (dsm_err_to_nvm_lib_err dsm_status, offset, d')
               else Some (NVM_SUCCESS, offset + n, d')
             else Some (linux_err_to_nvm_lib_err lnx_err_status, offset, d'))) })"

partial_function (option) bios_write_loop ::
    "'d ndctl \<Rightarrow> (nat \<Rightarrow> bool) \<Rightarrow> u32 \<Rightarrow> u32 \<Rightarrow> bytes \<Rightarrow> u32 \<Rightarrow> u32 \<Rightarrow> u32 \<Rightarrow> int \<Rightarrow> 'd \<Rightarrow>
     (int \<times> u32 \<times> 'd) option" where
  "bios_write_loop nd alloc handle rw payload lsize transfer_size current_offset rc d =
     (if current_offset < lsize \<and> rc = NVM_SUCCESS then
        (case bios_write_step nd alloc handle payload
                (next_transfer rw lsize transfer_size current_offset) current_offset d of
           None \<Rightarrow> None
         | Some (rc', current_offset', d') \<Rightarrow>
             bios_write_loop nd alloc handle rw payload lsize
               (next_transfer rw lsize transfer_size current_offset) current_offset' rc' d')
      else Some (rc, current_offset, d))"

definition bios_write_large_payload ::
    "'d ndctl \<Rightarrow> (nat \<Rightarrow> bool) \<Rightarrow> u32 option \<Rightarrow> fw_cmd \<Rightarrow> 'd \<Rightarrow> (int \<times> 'd) option" where
  "bios_write_large_payload nd alloc p_dimm p_fw_cmd d =
     (case p_dimm of
        None \<Rightarrow> Some (NVM_ERR_INVALIDPARAMETER, d)
      | Some handle \<Rightarrow>
          (case bios_get_payload_size nd p_dimm (Some (bios_size_of [])) d of (rc, mb, d') \<Rightarrow>
             if rc = NVM_SUCCESS then do {
               mb_size \<leftarrow> mb;
               if large_input_payload_size mb_size < cmd_large_input_payload_size p_fw_cmd
               then Some (NVM_ERR_BADSIZE, d')
               else do {
                 payload \<leftarrow> (case cmd_large_input_payload p_fw_cmd of
                   None \<Rightarrow> if cmd_large_input_payload_size p_fw_cmd = 0 then Some [] else None | Some p \<Rightarrow> Some p);
                 (rc', current_offset, d'') \<leftarrow>
                   bios_write_loop nd alloc handle (rw_size mb_size) payload
                     (cmd_large_input_payload_size p_fw_cmd) (rw_size mb_size) 0 NVM_SUCCESS d';
                 Some (if current_offset \<noteq> cmd_large_input_payload_size p_fw_cmd then NVM_ERR_UNKNOWN
                       else rc', d'') } }
             else Some (rc, d')))"

text \<open>
  One round of the read loop: the new code, offset and output buffer. A failed \<open>ndctl_cmd_vendor_set_input\<close>
  does not stop the submission.
\<close>

definition bios_read_step ::
    "'d ndctl \<Rightarrow> (nat \<Rightarrow> bool) \<Rightarrow> u32 \<Rightarrow> u32 \<Rightarrow> u32 \<Rightarrow> bytes \<Rightarrow> int \<Rightarrow> 'd \<Rightarrow>
     (int \<times> u32 \<times> bytes \<times> 'd) option" where
  "bios_read_step nd alloc handle n offset buf rc d =
     (let opcode = BUILD_DSM_OPCODE BIOS_EMULATED_COMMAND SUBOP_READ_LARGE_PAYLOAD_OUTPUT in
      if \<not> alloc (bios_input_size 0) then Some (NVM_ERR_NOMEMORY, offset, buf, d)
      else if \<not> nd_cmd_new nd d opcode (bios_input_size 0) (unat n)
      then Some (NVM_ERR_DRIVERFAILED, offset, buf, d)
      else
        (case nd_set_input nd (bios_input_size 0) (bios_input n offset []) of (bytes_written, input) \<Rightarrow>
           let rc1 = (if bytes_written \<noteq> bios_input_size 0 then NVM_ERR_DRIVERFAILED else rc) in
           (case nd_submit nd d handle opcode input (unat n) of (lnx_err_status, dsm_status, out, d') \<Rightarrow>
             if lnx_err_status = 0 then
               if dsm_status \<noteq> 0 then Some (dsm_err_to_nvm_lib_err dsm_status, offset, buf, d')
               else do {
                 let got = nd_get_output nd out (unat n);
                 buf' \<leftarrow> wr_bytes buf (unat offset) got;
                 Some (if length got \<noteq> unat n then (NVM_ERR_DRIVERFAILED, offset, buf', d')
                       else (rc1, offset + n, buf', d')) }
             else Some (linux_err_to_nvm_lib_err lnx_err_status, offset, buf, d'))))"

partial_function (option) bios_read_loop ::
    "'d ndctl \<Rightarrow> (nat \<Rightarrow> bool) \<Rightarrow> u32 \<Rightarrow> u32 \<Rightarrow> u32 \<Rightarrow> u32 \<Rightarrow> u32 \<Rightarrow> bytes \<Rightarrow> int \<Rightarrow> 'd \<Rightarrow>
     (int \<times> u32 \<times> bytes \<times> 'd) option" where
  "bios_read_loop nd alloc handle rw lsize transfer_size current_offset buf rc d =
     (if current_offset < lsize \<and> rc = NVM_SUCCESS then
        (case bios_read_step nd alloc handle
                (next_transfer rw lsize transfer_size current_offset) current_offset buf rc d of
           None \<Rightarrow> None
         | Some (rc', current_offset', buf', d') \<Rightarrow>
             bios_read_loop nd alloc handle rw lsize
               (next_transfer rw lsize transfer_size current_offset) current_offset' buf' rc' d')
      else Some (rc, current_offset, buf, d))"

definition bios_read_large_payload ::
    "'d ndctl \<Rightarrow> (nat \<Rightarrow> bool) \<Rightarrow> u32 option \<Rightarrow> fw_cmd \<Rightarrow> 'd \<Rightarrow> (int \<times> bytes \<times> 'd) option" where
  "bios_read_large_payload nd alloc p_dimm p_fw_cmd d =
     (let lsize = cmd_large_output_payload_size p_fw_cmd;
          large = (case cmd_large_output_payload p_fw_cmd of None \<Rightarrow> [] | Some p \<Rightarrow> p) in
      case p_dimm of
        None \<Rightarrow> Some (NVM_ERR_INVALIDPARAMETER, large, d)
      | Some handle \<Rightarrow>
          (case bios_get_payload_size nd p_dimm (Some (bios_size_of [])) d of (rc, mb, d') \<Rightarrow>
             if rc = NVM_SUCCESS then do {
               mb_size \<leftarrow> mb;
               if large_output_payload_size mb_size < lsize then Some (NVM_ERR_BADSIZE, large, d')
               else do {
                 (rc', current_offset, large', d'') \<leftarrow>
                   bios_read_loop nd alloc handle (rw_size mb_size) lsize (rw_size mb_size) 0 large
                     NVM_SUCCESS d';
                 Some (if current_offset \<noteq> lsize then NVM_ERR_UNKNOWN else rc', large', d'') } }
             else Some (rc, large, d')))"

section \<open>The command\<close>

definition get_dimm_by_handle :: "'d ndctl \<Rightarrow> 'd \<Rightarrow> u32 \<Rightarrow> int \<times> u32 option" where
  "get_dimm_by_handle nd d handle =
     (if nd_has_dimm nd d handle then (NVM_SUCCESS, Some handle) else (NVM_ERR_DRIVERFAILED, None))"

text \<open>A payload and its size have to be given together.\<close>

definition payload_given :: "u32 \<Rightarrow> bytes option \<Rightarrow> bool" where
  "payload_given n p \<longleftrightarrow> \<not> (n > 0 \<and> p = None) \<and> \<not> (p \<noteq> None \<and> n = 0)"

definition payloads_ok :: "fw_cmd \<Rightarrow> bool" where
  "payloads_ok c \<longleftrightarrow>
     payload_given (cmd_input_payload_size c) (cmd_input_payload c) \<and>
     payload_given (cmd_output_payload_size c) (cmd_output_payload c) \<and>
     payload_given (cmd_large_input_payload_size c) (cmd_large_input_payload c) \<and>
     payload_given (cmd_large_output_payload_size c) (cmd_large_output_payload c)"

definition buffer_of :: "bytes option \<Rightarrow> bytes" where
  "buffer_of p = (case p of None \<Rightarrow> [] | Some b \<Rightarrow> b)"

text \<open>The submission, and the output that it leaves in the two buffers.\<close>

definition submit_cmd ::
    "'d ndctl \<Rightarrow> (nat \<Rightarrow> bool) \<Rightarrow> u32 option \<Rightarrow> fw_cmd \<Rightarrow> bytes \<Rightarrow> 'd \<Rightarrow> (int \<times> bytes \<times> bytes \<times> 'd) option" where
  "submit_cmd nd alloc p_dimm c input d = do {
     handle \<leftarrow> p_dimm;
     let opcode = BUILD_DSM_OPCODE (cmd_opcode c) (cmd_sub_opcode c);
     let out0 = buffer_of (cmd_output_payload c);
     let large0 = buffer_of (cmd_large_output_payload c);
     (case nd_submit nd d handle opcode input SMALL_PAYLOAD of (lnx_err_status, dsm_status, out, d') \<Rightarrow>
        if lnx_err_status \<ge> 0 then
          if dsm_status \<noteq> 0 then Some (dsm_err_to_nvm_lib_err dsm_status, out0, large0, d')
          else do {
            out1 \<leftarrow> (if cmd_output_payload_size c > 0
                     then wr_bytes out0 0 (nd_get_output nd out (unat (cmd_output_payload_size c)))
                     else Some out0);
            if cmd_large_output_payload_size c > 0 then do {
              (rc, large1, d'') \<leftarrow> bios_read_large_payload nd alloc p_dimm c d';
              Some (rc, out1, large1, d'') }
            else Some (NVM_SUCCESS, out1, large0, d') }
        else Some (linux_err_to_nvm_lib_err lnx_err_status, out0, large0, d')) }"

definition ioctl_passthrough_cmd ::
    "'d ndctl \<Rightarrow> (nat \<Rightarrow> bool) \<Rightarrow> fw_cmd option \<Rightarrow> 'd \<Rightarrow> (int \<times> bytes \<times> bytes \<times> 'd) option" where
  "ioctl_passthrough_cmd nd alloc p_fw_cmd d =
     (case p_fw_cmd of
        None \<Rightarrow> Some (NVM_ERR_UNKNOWN, [], [], d)
      | Some c \<Rightarrow>
          let out0 = buffer_of (cmd_output_payload c); large0 = buffer_of (cmd_large_output_payload c) in
          if \<not> payloads_ok c then Some (NVM_ERR_UNKNOWN, out0, large0, d)
          else if nd_new nd d < 0 then Some (linux_err_to_nvm_lib_err (nd_new nd d), out0, large0, d)
          else (case get_dimm_by_handle nd d (cmd_device_handle c) of (rc, p_dimm) \<Rightarrow>
            if rc \<noteq> NVM_SUCCESS then Some (rc, out0, large0, d)
            else if \<not> nd_cmd_new nd d (BUILD_DSM_OPCODE (cmd_opcode c) (cmd_sub_opcode c)) SMALL_PAYLOAD SMALL_PAYLOAD
            then Some (NVM_ERR_DRIVERFAILED, out0, large0, d)
            else do {
              (rc1, input) \<leftarrow>
                (if cmd_input_payload_size c > 0 then do {
                   b \<leftarrow> rd_bytes (buffer_of (cmd_input_payload c)) 0 (unat (cmd_input_payload_size c));
                   (case nd_set_input nd SMALL_PAYLOAD b of (bytes_written, input) \<Rightarrow>
                      Some (if bytes_written \<noteq> unat (cmd_input_payload_size c) then NVM_ERR_DRIVERFAILED
                            else NVM_SUCCESS, input)) }
                 else Some (NVM_SUCCESS, zeros SMALL_PAYLOAD));
              (rc2, d2) \<leftarrow>
                (if rc1 = NVM_SUCCESS \<and> cmd_large_input_payload_size c > 0
                 then bios_write_large_payload nd alloc p_dimm c d
                 else Some (rc1, d));
              if rc2 = NVM_SUCCESS then submit_cmd nd alloc p_dimm c input d2
              else Some (rc2, out0, large0, d2) }))"

end
