(* ===== verification/Passthrough_Facts.thy ===== *)
theory Passthrough_Facts
  imports Passthrough
begin

text \<open>
  What the pass-through does with large payloads: a transfer through mailboxes that behave as documented
  ends and moves the whole payload; a transfer size of zero never ends; and an interrupted transfer loses
  its error code.
\<close>

unbundle bit_operations_syntax

section \<open>Mailboxes\<close>

text \<open>
  The documented behaviour of the emulated mailboxes of a device: \<open>inbox\<close> and \<open>outbox\<close> are their
  contents, \<open>sz\<close> the sizes that the BIOS reports.
\<close>

definition bios_mailboxes ::
    "'d ndctl \<Rightarrow> u32 \<Rightarrow> ('d \<Rightarrow> bytes) \<Rightarrow> ('d \<Rightarrow> bytes) \<Rightarrow> pt_bios_get_size \<Rightarrow> bool" where
  "bios_mailboxes nd handle inbox outbox sz \<longleftrightarrow>
     (\<forall>d opcode i n. nd_cmd_new nd d opcode i n) \<and>
     (\<forall>b. nd_set_input nd (length b) b = (length b, b)) \<and>
     (\<forall>b. nd_get_output nd b (length b) = b) \<and>
     (\<forall>d. \<exists>out. length out = 12 \<and> bios_size_of out = sz \<and>
        nd_submit nd d handle (BUILD_DSM_OPCODE BIOS_EMULATED_COMMAND SUBOP_GET_PAYLOAD_SIZE) (zeros 128) 12
          = (0, 0, out, d)) \<and>
     (\<forall>d n off data. unat n = length data \<and> unat off + length data \<le> length (inbox d) \<longrightarrow>
        (\<exists>d'. nd_submit nd d handle (BUILD_DSM_OPCODE BIOS_EMULATED_COMMAND SUBOP_WRITE_LARGE_PAYLOAD_INPUT)
                (bios_input n off data) 0 = (0, 0, [], d') \<and>
              inbox d' = take (unat off) (inbox d) @ data @ drop (unat off + length data) (inbox d) \<and>
              outbox d' = outbox d)) \<and>
     (\<forall>d n off. unat off + unat n \<le> length (outbox d) \<longrightarrow>
        nd_submit nd d handle (BUILD_DSM_OPCODE BIOS_EMULATED_COMMAND SUBOP_READ_LARGE_PAYLOAD_OUTPUT)
          (bios_input n off []) (unat n) = (0, 0, take (unat n) (drop (unat off) (outbox d)), d))"

lemma bios_input_length: "length (bios_input n off data) = bios_input_size (length data)"
proof -
  have "length data \<le> (length data + 3) div 4 * 4" by linarith
  then show ?thesis by (simp add: bios_input_def bios_input_size_def zeros_def Let_def)
qed

lemma next_transfer_unat:
  assumes "off < lsize" and "unat lsize + unat rw < 2 ^ 32"
  shows "unat (next_transfer rw lsize rw off) = min (unat rw) (unat lsize - unat off)"
proof -
  have "unat (off + rw) = unat off + unat rw"
    using assms by (simp add: unat_word_ariths word_less_nat_alt)
  then show ?thesis using assms
    by (auto simp: next_transfer_def word_less_nat_alt unat_sub word_le_nat_alt min_def)
qed

lemma get_payload_size:
  assumes "bios_mailboxes nd handle inbox outbox sz"
  shows "bios_get_payload_size nd (Some handle) (Some s) d = (NVM_SUCCESS, Some sz, d)"
proof -
  obtain out where o: "length out = 12" "bios_size_of out = sz"
      "nd_submit nd d handle (BUILD_DSM_OPCODE BIOS_EMULATED_COMMAND SUBOP_GET_PAYLOAD_SIZE) (zeros 128) 12
        = (0, 0, out, d)"
    using assms unfolding bios_mailboxes_def by blast
  have "nd_get_output nd out 12 = out" using assms o(1) unfolding bios_mailboxes_def by metis
  then show ?thesis using assms o
    by (simp add: bios_get_payload_size_def bios_mailboxes_def zeros_def Let_def)
qed

section \<open>Writing\<close>

lemma write_step:
  assumes m: "bios_mailboxes nd handle inbox outbox sz"
    and r: "unat off + unat n \<le> length payload" "length payload \<le> length (inbox d)"
    and i: "inbox d = take (unat off) payload @ drop (unat off) box"
  shows "\<exists>d'. bios_write_step nd (\<lambda>_. True) handle payload n off d = Some (NVM_SUCCESS, off + n, d') \<and>
    inbox d' = take (unat off + unat n) payload @ drop (unat off + unat n) box \<and> outbox d' = outbox d"
proof -
  let ?data = "take (unat n) (drop (unat off) payload)"
  have l: "length ?data = unat n" using r(1) by simp
  then have "unat n = length ?data \<and> unat off + length ?data \<le> length (inbox d)" using r by simp
  then obtain d' where d': "nd_submit nd d handle
        (BUILD_DSM_OPCODE BIOS_EMULATED_COMMAND SUBOP_WRITE_LARGE_PAYLOAD_INPUT) (bios_input n off ?data) 0
        = (0, 0, [], d')"
      "inbox d' = take (unat off) (inbox d) @ ?data @ drop (unat off + length ?data) (inbox d)"
      "outbox d' = outbox d"
    using m unfolding bios_mailboxes_def by metis
  have s: "nd_set_input nd (bios_input_size (unat n)) (bios_input n off ?data) =
      (bios_input_size (unat n), bios_input n off ?data)"
    using m l unfolding bios_mailboxes_def by (metis bios_input_length)
  have "take (unat off) (inbox d) = take (unat off) payload" using r(1) i by simp
  moreover have "drop (unat off + unat n) (inbox d) = drop (unat off + unat n) box" using r(1) i by (simp add: add.commute)
  ultimately have "inbox d' = take (unat off + unat n) payload @ drop (unat off + unat n) box"
    using d'(2) l by (simp add: take_add)
  moreover have "bios_write_step nd (\<lambda>_. True) handle payload n off d = Some (NVM_SUCCESS, off + n, d')"
    using m r(1) s d'(1) by (simp add: bios_write_step_def bios_mailboxes_def rd_bytes_in Let_def)
  ultimately show ?thesis using d'(3) by blast
qed

lemma write_loop:
  assumes m: "bios_mailboxes nd handle inbox outbox sz" and rw: "0 < rw"
    and o: "unat lsize + unat rw < 2 ^ 32" and l: "length payload = unat lsize"
    and b: "length payload \<le> length box"
    and "off \<le> lsize" and "inbox d = take (unat off) payload @ drop (unat off) box"
  shows "\<exists>d'. bios_write_loop nd (\<lambda>_. True) handle rw payload lsize rw off NVM_SUCCESS d =
      Some (NVM_SUCCESS, lsize, d') \<and> inbox d' = payload @ drop (length payload) box \<and> outbox d' = outbox d"
  using assms(6,7)
proof (induction "unat lsize - unat off" arbitrary: off d rule: less_induct)
  case less
  show ?case
  proof (cases "off = lsize")
    case True
    then show ?thesis using less.prems(2) l by (subst bios_write_loop.simps) simp
  next
    case False
    let ?n = "next_transfer rw lsize rw off"
    have lt: "off < lsize" using less.prems(1) False by simp
    have n: "unat ?n = min (unat rw) (unat lsize - unat off)" by (rule next_transfer_unat [OF lt o])
    have ub: "unat off < unat lsize" using lt by (simp add: word_less_nat_alt)
    have r: "unat off + unat ?n \<le> length payload" using n ub l by simp
    have "length payload \<le> length (inbox d)" using less.prems(2) b ub l by simp
    from write_step [OF m r this less.prems(2)] obtain d' where
      w: "bios_write_step nd (\<lambda>_. True) handle payload ?n off d = Some (NVM_SUCCESS, off + ?n, d')"
      and i: "inbox d' = take (unat off + unat ?n) payload @ drop (unat off + unat ?n) box"
      and x: "outbox d' = outbox d" by blast
    have s: "unat (off + ?n) = unat off + unat ?n"
    proof -
      have "unat off + unat ?n < 2 ^ 32" using r l o by linarith
      then show ?thesis by (simp add: unat_word_ariths)
    qed
    have unf: "bios_write_loop nd (\<lambda>_. True) handle rw payload lsize rw off NVM_SUCCESS d =
        bios_write_loop nd (\<lambda>_. True) handle rw payload lsize ?n (off + ?n) NVM_SUCCESS d'"
      using lt by (subst bios_write_loop.simps) (simp add: w)
    show ?thesis
    proof (cases "?n = rw")
      case True
      have pos: "0 < unat rw" using rw by (simp add: word_less_nat_alt)
      have "unat lsize - unat (off + ?n) < unat lsize - unat off" and "off + ?n \<le> lsize"
        using s n ub pos by (auto simp: word_le_nat_alt)
      from less.hyps [OF this] i s have
        "\<exists>d''. bios_write_loop nd (\<lambda>_. True) handle rw payload lsize rw (off + ?n) NVM_SUCCESS d' =
          Some (NVM_SUCCESS, lsize, d'') \<and> inbox d'' = payload @ drop (length payload) box \<and> outbox d'' = outbox d'"
        by simp
      then show ?thesis using unf x True by simp
    next
      case False
      then have "unat ?n = unat lsize - unat off" using n by (metis min_def word_unat_eq_iff)
      then have e: "off + ?n = lsize" using s ub by (metis add_diff_inverse_nat less_imp_not_less word_unat_eq_iff)
      have "unat off + unat ?n = length payload" using e s l by simp
      then have "inbox d' = payload @ drop (length payload) box" using i by simp
      then show ?thesis unfolding unf e using x by (subst bios_write_loop.simps) simp
    qed
  qed
qed

section \<open>Reading\<close>

lemma read_step:
  assumes m: "bios_mailboxes nd handle inbox outbox sz"
    and r: "unat off + unat n \<le> length (outbox d)" "length buf = lbuf" "unat off + unat n \<le> lbuf"
    and i: "buf = take (unat off) (outbox d) @ drop (unat off) buf0"
  shows "bios_read_step nd (\<lambda>_. True) handle n off buf NVM_SUCCESS d = Some (NVM_SUCCESS, off + n,
    take (unat off + unat n) (outbox d) @ drop (unat off + unat n) buf0, d)"
proof -
  let ?out = "take (unat n) (drop (unat off) (outbox d))"
  have l: "length ?out = unat n" using r(1) by simp
  have "nd_set_input nd (bios_input_size 0) (bios_input n off []) = (bios_input_size 0, bios_input n off [])"
    using m unfolding bios_mailboxes_def by (metis bios_input_length list.size(3))
  moreover have "nd_get_output nd ?out (unat n) = ?out" using m l unfolding bios_mailboxes_def by metis
  moreover have "wr_bytes buf (unat off) ?out =
      Some (take (unat off + unat n) (outbox d) @ drop (unat off + unat n) buf0)"
    using r i l by (simp add: wr_bytes_in take_add add.commute [of "unat n" "unat off"])
  ultimately show ?thesis using m r(1) l by (simp add: bios_read_step_def bios_mailboxes_def Let_def)
qed

lemma read_loop:
  assumes m: "bios_mailboxes nd handle inbox outbox sz" and rw: "0 < rw"
    and o: "unat lsize + unat rw < 2 ^ 32" and l: "length buf0 = unat lsize"
    and b: "unat lsize \<le> length (outbox d)"
    and "off \<le> lsize" and "buf = take (unat off) (outbox d) @ drop (unat off) buf0"
  shows "bios_read_loop nd (\<lambda>_. True) handle rw lsize rw off buf NVM_SUCCESS d =
      Some (NVM_SUCCESS, lsize, take (unat lsize) (outbox d), d)"
  using assms(6,7)
proof (induction "unat lsize - unat off" arbitrary: off buf rule: less_induct)
  case less
  show ?case
  proof (cases "off = lsize")
    case True
    then show ?thesis using less.prems(2) l by (subst bios_read_loop.simps) simp
  next
    case False
    let ?n = "next_transfer rw lsize rw off"
    have lt: "off < lsize" using less.prems(1) False by simp
    have n: "unat ?n = min (unat rw) (unat lsize - unat off)" by (rule next_transfer_unat [OF lt o])
    have ub: "unat off < unat lsize" using lt by (simp add: word_less_nat_alt)
    have r: "unat off + unat ?n \<le> unat lsize" using n ub by simp
    let ?buf = "take (unat off + unat ?n) (outbox d) @ drop (unat off + unat ?n) buf0"
    have lb: "length buf = unat lsize" using less.prems(2) l b ub by simp
    have w: "bios_read_step nd (\<lambda>_. True) handle ?n off buf NVM_SUCCESS d = Some (NVM_SUCCESS, off + ?n, ?buf, d)"
      by (rule read_step [OF m _ lb _ less.prems(2)]) (use r b in simp_all)
    have "unat off + unat ?n < 2 ^ 32" using r o by linarith
    then have s: "unat (off + ?n) = unat off + unat ?n" by (simp add: unat_word_ariths)
    have unf: "bios_read_loop nd (\<lambda>_. True) handle rw lsize rw off buf NVM_SUCCESS d =
        bios_read_loop nd (\<lambda>_. True) handle rw lsize ?n (off + ?n) ?buf NVM_SUCCESS d"
      using lt by (subst bios_read_loop.simps) (simp add: w)
    show ?thesis
    proof (cases "?n = rw")
      case True
      have pos: "0 < unat rw" using rw by (simp add: word_less_nat_alt)
      have a: "unat lsize - unat (off + ?n) < unat lsize - unat off" and c: "off + ?n \<le> lsize"
        using s n ub pos by (auto simp: word_le_nat_alt)
      have "?buf = take (unat (off + ?n)) (outbox d) @ drop (unat (off + ?n)) buf0" using s by simp
      from less.hyps [OF a c this] show ?thesis unfolding unf using True by simp
    next
      case False
      then have "unat ?n = unat lsize - unat off" using n by (metis min_def word_unat_eq_iff)
      then have e: "off + ?n = lsize" using s ub by (metis add_diff_inverse_nat less_imp_not_less word_unat_eq_iff)
      have "unat off + unat ?n = unat lsize" using e s by simp
      then show ?thesis unfolding unf e using l by (subst bios_read_loop.simps) simp
    qed
  qed
qed

text \<open>
  C9: Through mailboxes that behave as documented, with a transfer size that is not zero and a payload
  that fits, a large payload arrives completely in the mailbox of the BIOS, and a large output is read
  back completely, whatever the transfer size; both transfers end.
\<close>

theorem large_payload_transferred:
  assumes "bios_mailboxes nd handle inbox outbox sz" and "0 < rw_size sz"
    and "cmd_large_input_payload c = Some p" and "length p = unat (cmd_large_input_payload_size c)"
    and "cmd_large_output_payload c = Some q" and "length q = unat (cmd_large_output_payload_size c)"
    and "cmd_large_input_payload_size c \<le> large_input_payload_size sz"
    and "cmd_large_output_payload_size c \<le> large_output_payload_size sz"
    and "length p \<le> length (inbox d)" and "length q \<le> length (outbox d)"
    and "length p + unat (rw_size sz) < 2 ^ 32" and "length q + unat (rw_size sz) < 2 ^ 32"
  shows "(\<exists>d'. bios_write_large_payload nd (\<lambda>_. True) (Some handle) c d = Some (NVM_SUCCESS, d') \<and>
      inbox d' = p @ drop (length p) (inbox d) \<and> outbox d' = outbox d) \<and>
    bios_read_large_payload nd (\<lambda>_. True) (Some handle) c d =
      Some (NVM_SUCCESS, take (length q) (outbox d), d)"
proof
  note g = get_payload_size [OF assms(1)]
  have "\<exists>d'. bios_write_loop nd (\<lambda>_. True) handle (rw_size sz) p (cmd_large_input_payload_size c) (rw_size sz) 0
      NVM_SUCCESS d = Some (NVM_SUCCESS, cmd_large_input_payload_size c, d') \<and>
      inbox d' = p @ drop (length p) (inbox d) \<and> outbox d' = outbox d"
    by (rule write_loop [OF assms(1,2)]) (use assms in simp_all)
  then show "\<exists>d'. bios_write_large_payload nd (\<lambda>_. True) (Some handle) c d = Some (NVM_SUCCESS, d') \<and>
      inbox d' = p @ drop (length p) (inbox d) \<and> outbox d' = outbox d"
    using assms(3,7) by (auto simp: bios_write_large_payload_def g not_less)
  have "bios_read_loop nd (\<lambda>_. True) handle (rw_size sz) (cmd_large_output_payload_size c) (rw_size sz) 0 q
      NVM_SUCCESS d = Some (NVM_SUCCESS, cmd_large_output_payload_size c,
        take (unat (cmd_large_output_payload_size c)) (outbox d), d)"
    by (rule read_loop [OF assms(1,2), where buf0 = q]) (use assms in simp_all)
  then show "bios_read_large_payload nd (\<lambda>_. True) (Some handle) c d =
      Some (NVM_SUCCESS, take (length q) (outbox d), d)"
    using assms(5,6,8) by (simp add: bios_read_large_payload_def g not_less Let_def)
qed


text \<open>A device that only has the two mailboxes, of 16 bytes each, moved in transfers of five bytes.\<close>

definition two_boxes :: "(bytes \<times> bytes) ndctl" where
  "two_boxes = \<lparr>nd_new = (\<lambda>d. 0), nd_has_dimm = (\<lambda>d h. True), nd_cmd_new = (\<lambda>d opcode i n. True),
     nd_set_input = (\<lambda>n b. (n, b)),
     nd_submit = (\<lambda>d h opcode input n.
       if opcode = 0xFD then (0, 0, [16, 0, 0, 0, 16, 0, 0, 0, 5, 0, 0, 0], d)
       else
         let k = le_nat (take 4 input); off = le_nat (take 4 (drop 4 input)) in
         if opcode = 0x1FD then
           (0, 0, [], (take off (fst d) @ take k (drop 8 input) @ drop (off + k) (fst d), snd d))
         else (0, 0, take n (drop off (snd d)), d)),
     nd_get_output = (\<lambda>b n. b)\<rparr>"

lemma two_boxes_mailboxes:
  "bios_mailboxes two_boxes 1 fst snd
     \<lparr>large_input_payload_size = 16, large_output_payload_size = 16, rw_size = 5\<rparr>"
proof -
  have ops: "BUILD_DSM_OPCODE BIOS_EMULATED_COMMAND SUBOP_GET_PAYLOAD_SIZE = 0xFD"
    "BUILD_DSM_OPCODE BIOS_EMULATED_COMMAND SUBOP_WRITE_LARGE_PAYLOAD_INPUT = 0x1FD"
    "BUILD_DSM_OPCODE BIOS_EMULATED_COMMAND SUBOP_READ_LARGE_PAYLOAD_OUTPUT = 0x2FD"
    by (simp_all add: BUILD_DSM_OPCODE_def)
  have word: "unat n mod 4294967296 = unat n" for n :: u32
  proof -
    have "unat n < 2 ^ 32" using unsigned_less [of n] by simp
    then show ?thesis by simp
  qed
  have len: "unat n = length data \<Longrightarrow> length data mod 4294967296 = length data" for n :: u32 and data :: bytes
    by (metis word)
  have "bios_size_of [16, 0, 0, 0, 16, 0, 0, 0, 5, 0, 0, 0] =
      \<lparr>large_input_payload_size = 16, large_output_payload_size = 16, rw_size = 5\<rparr>"
    by (simp add: bios_size_of_def fld_def)
  then show ?thesis
    by (auto simp: bios_mailboxes_def two_boxes_def ops bios_input_def Let_def word len
        intro!: exI [of _ "[16, 0, 0, 0, 16, 0, 0, 0, 5, 0, 0, 0]"])
qed

theorem large_payload_transferred_witness:
  "let c = new_cmd 1 2 3 \<lparr>cmd_large_input_payload_size := 7, cmd_large_input_payload := Some [1, 2, 3, 4, 5, 6, 7],
       cmd_large_output_payload_size := 6, cmd_large_output_payload := Some (zeros 6)\<rparr>;
     d = (zeros 16, replicate 16 9) in
   (\<exists>d'. bios_write_large_payload two_boxes (\<lambda>_. True) (Some 1) c d = Some (NVM_SUCCESS, d') \<and>
      fst d' = [1, 2, 3, 4, 5, 6, 7] @ zeros 9 \<and> snd d' = replicate 16 9) \<and>
   bios_read_large_payload two_boxes (\<lambda>_. True) (Some 1) c d = Some (NVM_SUCCESS, replicate 6 9, d)"
  using large_payload_transferred [OF two_boxes_mailboxes, of
      "new_cmd 1 2 3 \<lparr>cmd_large_input_payload_size := 7, cmd_large_input_payload := Some [1, 2, 3, 4, 5, 6, 7],
       cmd_large_output_payload_size := 6, cmd_large_output_payload := Some (zeros 6)\<rparr>"
      "[1, 2, 3, 4, 5, 6, 7]" "zeros 6" "(zeros 16, replicate 16 9)"]
  by (simp add: new_cmd_def zeros_def Let_def)

section \<open>Failures\<close>

lemma write_loop_spins:
  assumes "bios_write_loop nd alloc handle rw payload lsize t off rc d = Some y"
    and "off < lsize" and "rc = NVM_SUCCESS" and "next_transfer rw lsize t off = n"
    and "next_transfer rw lsize n off = n"
    and "\<And>d. \<exists>d'. bios_write_step nd alloc handle payload n off d = Some (NVM_SUCCESS, off, d')"
  shows False
proof -
  have "off < lsize \<longrightarrow> rc = NVM_SUCCESS \<longrightarrow> next_transfer rw lsize t off = n \<longrightarrow>
      next_transfer rw lsize n off = n \<longrightarrow>
      (\<forall>d. \<exists>d'. bios_write_step nd alloc handle payload n off d = Some (NVM_SUCCESS, off, d')) \<longrightarrow> False"
    using assms(1)
  proof (rule bios_write_loop.raw_induct [rotated], goal_cases)
    case (1 loop nd alloc handle rw payload lsize t off rc d y)
    show ?case
    proof (intro impI)
      assume a: "off < lsize" "rc = NVM_SUCCESS" "next_transfer rw lsize t off = n"
        "next_transfer rw lsize n off = n"
        "\<forall>d. \<exists>d'. bios_write_step nd alloc handle payload n off d = Some (NVM_SUCCESS, off, d')"
      then obtain d' where "bios_write_step nd alloc handle payload n off d = Some (NVM_SUCCESS, off, d')" by blast
      then have "loop nd alloc handle rw payload lsize n off NVM_SUCCESS d' = Some y" using 1(2) a by simp
      from 1(1) [OF this] a show False by blast
    qed
  qed
  then show False using assms(2-6) by blast
qed

text \<open>
  A write that makes no progress never ends: when the BIOS reports a transfer size of zero, every round
  sends an empty transfer, and when the driver returns a status above zero, which is no error for the
  translation, every round sends the first transfer again.
\<close>

theorem stalled_transfer_never_ends:
  assumes "bios_get_payload_size nd (Some handle) (Some (bios_size_of [])) d = (NVM_SUCCESS, Some sz, d0)"
    and "cmd_large_input_payload c = Some p" and "length p = unat (cmd_large_input_payload_size c)"
    and "0 < cmd_large_input_payload_size c"
    and "cmd_large_input_payload_size c \<le> large_input_payload_size sz"
    and "\<And>d opcode i n. nd_cmd_new nd d opcode i n" and "\<And>b. fst (nd_set_input nd (length b) b) = length b"
    and "\<And>d opcode i. (rw_size sz = 0 \<and> fst (nd_submit nd d handle opcode i 0) = 0 \<and>
             fst (snd (nd_submit nd d handle opcode i 0)) = 0)
           \<or> fst (nd_submit nd d handle opcode i 0) > 0"
  shows "bios_write_large_payload nd (\<lambda>_. True) (Some handle) c d = None"
proof -
  let ?l = "cmd_large_input_payload_size c"
  define n where "n = next_transfer (rw_size sz) ?l (rw_size sz) 0"
  have nn: "next_transfer (rw_size sz) ?l n 0 = n" by (simp add: n_def next_transfer_def)
  have z: "rw_size sz = 0 \<Longrightarrow> n = 0" using assms(4) by (simp add: n_def next_transfer_def not_less)
  have "n \<le> ?l" by (simp add: n_def next_transfer_def not_less)
  then have r: "unat n \<le> length p" using assms(3) by (simp add: word_le_nat_alt)
  have step: "\<exists>d'. bios_write_step nd (\<lambda>_. True) handle p n 0 d = Some (NVM_SUCCESS, 0, d')" for d
  proof -
    let ?b = "bios_input n 0 (take (unat n) p)" and ?op = "BUILD_DSM_OPCODE BIOS_EMULATED_COMMAND SUBOP_WRITE_LARGE_PAYLOAD_INPUT"
    have l: "length ?b = bios_input_size (unat n)" using r by (simp add: bios_input_length)
    obtain i where i: "nd_set_input nd (bios_input_size (unat n)) ?b = (bios_input_size (unat n), i)"
      using assms(7) [of ?b] by (metis l prod.collapse)
    obtain st fw out d' where q: "nd_submit nd d handle ?op i 0 = (st, fw, out, d')" by (metis prod_cases4)
    then consider "rw_size sz = 0" "st = 0" "fw = 0" | "0 < st" using assms(8) [of d ?op i] by auto
    then show ?thesis
      using assms(6) i q r z by cases (auto simp: bios_write_step_def rd_bytes_in linux_err_to_nvm_lib_err_def)
  qed
  have "bios_write_loop nd (\<lambda>_. True) handle (rw_size sz) p ?l (rw_size sz) 0 NVM_SUCCESS d0 = None"
    using write_loop_spins [OF _ assms(4) refl n_def [symmetric] nn step] by (meson not_None_eq)
  then show ?thesis using assms(1,2,5) by (simp add: bios_write_large_payload_def not_less)
qed

definition empty_transfers :: "unit ndctl" where
  "empty_transfers = \<lparr>nd_new = (\<lambda>d. 0), nd_has_dimm = (\<lambda>d h. True), nd_cmd_new = (\<lambda>d opcode i n. True),
     nd_set_input = (\<lambda>n b. (n, b)),
     nd_submit = (\<lambda>d h opcode input n. (0, 0, take n [16, 0, 0, 0, 16, 0, 0, 0, 0, 0, 0, 0], d)),
     nd_get_output = (\<lambda>b n. b)\<rparr>"

theorem stalled_transfer_never_ends_witness:
  "bios_write_large_payload empty_transfers (\<lambda>_. True) (Some 1)
     (new_cmd 1 2 3 \<lparr>cmd_large_input_payload_size := 2, cmd_large_input_payload := Some [1, 2]\<rparr>) () = None"
proof (rule stalled_transfer_never_ends [where p = "[1, 2]"])
  show "bios_get_payload_size empty_transfers (Some 1) (Some (bios_size_of [])) () =
      (NVM_SUCCESS, Some \<lparr>large_input_payload_size = 16, large_output_payload_size = 16, rw_size = 0\<rparr>, ())"
    by (simp add: bios_get_payload_size_def empty_transfers_def bios_size_of_def fld_def Let_def)
qed (simp_all add: new_cmd_def empty_transfers_def)

lemma write_step_failed:
  "bios_write_step nd alloc handle payload n off d = Some (rc, off', d') \<Longrightarrow> rc \<noteq> NVM_SUCCESS \<Longrightarrow> off' = off"
  by (auto simp: bios_write_step_def Let_def split: if_splits prod.splits bind_splits)

lemma write_loop_result:
  assumes "bios_write_loop nd alloc handle rw payload lsize t off rc d = Some (rc', off', d')"
    and "rc = NVM_SUCCESS \<or> off < lsize"
  shows "rc' = NVM_SUCCESS \<or> off' < lsize"
proof -
  have "rc = NVM_SUCCESS \<or> off < lsize \<longrightarrow> fst (rc', off', d') = NVM_SUCCESS \<or> fst (snd (rc', off', d')) < lsize"
    using assms(1)
  proof (rule bios_write_loop.raw_induct [rotated], goal_cases)
    case (1 loop nd alloc handle rw payload lsize t off rc d y)
    show ?case
    proof (cases "off < lsize \<and> rc = NVM_SUCCESS")
      case True
      then obtain rc1 off1 d1 where
        s: "bios_write_step nd alloc handle payload (next_transfer rw lsize t off) off d = Some (rc1, off1, d1)"
        and l: "loop nd alloc handle rw payload lsize (next_transfer rw lsize t off) off1 rc1 d1 = Some y"
        using 1(2) by (auto split: option.splits)
      have "rc1 = NVM_SUCCESS \<or> off1 < lsize" using write_step_failed [OF s] True by blast
      then show ?thesis using 1(1) [OF l] by blast
    next
      case False
      then show ?thesis using 1(2) by (auto split: if_splits)
    qed
  qed
  then show ?thesis using assms(2) by simp
qed

text \<open>
  The code of the failure that interrupts a large write is lost: once the sizes are known and the
  payload fits, the result is success or the unknown error, never that the device is busy, refuses a
  passphrase or lacks memory.
\<close>

theorem interrupted_write_unknown:
  assumes "bios_get_payload_size nd (Some handle) (Some (bios_size_of [])) d = (NVM_SUCCESS, Some sz, d0)"
    and "cmd_large_input_payload_size c \<le> large_input_payload_size sz"
    and "bios_write_large_payload nd alloc (Some handle) c d = Some (rc, d')"
  shows "rc = NVM_SUCCESS \<or> rc = NVM_ERR_UNKNOWN"
proof -
  obtain p rc1 off d1 where
    l: "bios_write_loop nd alloc handle (rw_size sz) p (cmd_large_input_payload_size c) (rw_size sz) 0
       NVM_SUCCESS d0 = Some (rc1, off, d1)"
    and r: "rc = (if off \<noteq> cmd_large_input_payload_size c then NVM_ERR_UNKNOWN else rc1)"
    using assms(1,3) leD [OF assms(2)] by (auto simp: bios_write_large_payload_def split: bind_splits prod.splits)
  have "rc1 = NVM_SUCCESS \<or> off < cmd_large_input_payload_size c"
    by (rule write_loop_result [OF l]) simp
  then show ?thesis using r by auto
qed

text \<open>A device that is busy.\<close>

definition busy_device :: "unit ndctl" where
  "busy_device = empty_transfers \<lparr>nd_submit := (\<lambda>d h opcode input n.
     if opcode = 0xFD then (0, 0, [16, 0, 0, 0, 16, 0, 0, 0, 8, 0, 0, 0], d) else (- 16, 0, [], d))\<rparr>"

theorem interrupted_write_unknown_witness:
  "bios_write_large_payload busy_device (\<lambda>_. True) (Some 1)
     (new_cmd 1 2 3 \<lparr>cmd_large_input_payload_size := 2, cmd_large_input_payload := Some [1, 2]\<rparr>) ()
     = Some (NVM_ERR_UNKNOWN, ()) \<and> (NVM_ERR_UNKNOWN = NVM_SUCCESS \<or> NVM_ERR_UNKNOWN = NVM_ERR_UNKNOWN)"
proof -
  let ?c = "new_cmd 1 2 3 \<lparr>cmd_large_input_payload_size := 2, cmd_large_input_payload := Some [1, 2]\<rparr>"
  let ?sz = "\<lparr>large_input_payload_size = 16, large_output_payload_size = 16, rw_size = 8\<rparr>"
  have g: "bios_get_payload_size busy_device (Some 1) (Some (bios_size_of [])) () = (NVM_SUCCESS, Some ?sz, ())"
    by (simp add: bios_get_payload_size_def busy_device_def empty_transfers_def bios_size_of_def fld_def
        BUILD_DSM_OPCODE_def Let_def)
  have s: "bios_write_step busy_device (\<lambda>_. True) 1 [1, 2] 2 0 () = Some (NVM_ERR_DEVICEBUSY, 0, ())"
    by (simp add: bios_write_step_def busy_device_def empty_transfers_def rd_bytes_in BUILD_DSM_OPCODE_def
        linux_err_to_nvm_lib_err_def Let_def)
  have l: "bios_write_loop busy_device (\<lambda>_. True) 1 8 [1, 2] 2 8 0 NVM_SUCCESS () = Some (NVM_ERR_DEVICEBUSY, 0, ())"
    by (subst bios_write_loop.simps, simp add: next_transfer_def s) (subst bios_write_loop.simps, simp)
  have w: "bios_write_large_payload busy_device (\<lambda>_. True) (Some 1) ?c () = Some (NVM_ERR_UNKNOWN, ())"
    by (simp add: bios_write_large_payload_def g l new_cmd_def)
  have "cmd_large_input_payload_size ?c \<le> large_input_payload_size ?sz" by (simp add: new_cmd_def)
  from interrupted_write_unknown [OF g this w] w show ?thesis by blast
qed

end
