(* ===== verification/Firmware_Facts.thy ===== *)
theory Firmware_Facts
  imports Firmware Passthrough_Facts
begin

text \<open>
  What the update of the firmware promises: the whole image arrives in the mailbox before the command is given, the wait ends when the device
  does, and a successful update has passed the tests of the version.
\<close>

unbundle bit_operations_syntax

section \<open>The transfer\<close>





section \<open>The wait\<close>

text \<open>
  C40: the wait of \<open>update_firmware\<close> ends with the first answer of the device that is not busy, however often it has
  been busy before.
\<close>

theorem update_wait_ends:
  assumes "\<forall>i < n. \<exists>t. get_firmware_update_status pt handle (S i) = Some (NVM_ERR_DEVICEBUSY, t) \<and> S (Suc i) = sleep t"
    and "get_firmware_update_status pt handle (S n) = Some (rc, t)" "rc \<noteq> NVM_ERR_DEVICEBUSY"
  shows "wait_for_update pt sleep handle (S 0) = Some (rc, t)"
proof -
  have "wait_for_update pt sleep handle (S (n - i)) = Some (rc, t)" if "i \<le> n" for i
    using that
  proof (induction i)
    case 0
    show ?case using assms(2,3) by (subst wait_for_update.simps) simp
  next
    case (Suc i)
    then have "n - Suc i < n" "Suc (n - Suc i) = n - i" by simp_all
    then obtain t' where "get_firmware_update_status pt handle (S (n - Suc i)) = Some (NVM_ERR_DEVICEBUSY, t')"
      "S (n - i) = sleep t'" using assms(1) by metis
    then show ?case using Suc by (subst wait_for_update.simps) simp
  qed
  from this [of n] show ?thesis by simp
qed

text \<open>A device that keeps the payloads of its commands.\<close>

definition recorder :: "bytes list passthrough" where
  "recorder s c = (NVM_SUCCESS, [], [], s @ (case cmd_input_payload c of Some b \<Rightarrow> [b] | None \<Rightarrow> []))"

text \<open>A device that is busy as often as its state says; the sleep does nothing.\<close>

definition long_op_page :: "u8 \<Rightarrow> bytes" where
  "long_op_page code = [PT_UPDATE_FW, SUBOP_UPDATE_FW] @ zeros 6 @ [code] @ zeros 119"

definition slow_device :: "nat passthrough" where
  "slow_device s c = (NVM_SUCCESS, long_op_page (if s = 0 then 0 else 5), [], s - 1)"

lemma long_op_code: "long_op_page code ! 8 = code" "length (long_op_page code) = 128"
    "long_op_page code ! 0 = PT_UPDATE_FW" "long_op_page code ! Suc 0 = SUBOP_UPDATE_FW"
    "long_op_page code \<noteq> []"
  by (simp_all add: long_op_page_def zeros_def nth_append)

lemma slow_status:
  "get_firmware_update_status slow_device 1 s = Some (if s = 0 then NVM_SUCCESS else NVM_ERR_DEVICEBUSY, s - 1)"
  by (simp add: get_firmware_update_status_def fw_get_status_for_long_op_def run_get_def slow_device_def
      is_fw_update_operation_def long_op_code zeros_def rd_def fw_mb_err_to_nvm_lib_err_def DSM_EXTENDED_ERROR_def)

theorem update_wait_ends_witness: "wait_for_update slow_device id 1 3 = Some (NVM_SUCCESS, 0)"
  using update_wait_ends [of 3 slow_device 1 "\<lambda>i. 3 - i" id NVM_SUCCESS 0] by (simp add: slow_status)

section \<open>The tests of the version\<close>

text \<open>The image may replace the firmware that is running, by force or without.\<close>

fun no_downgrade :: "bool \<Rightarrow> image_header \<Rightarrow> nat \<times> nat \<times> nat \<times> nat \<Rightarrow> nat \<times> nat \<Rightarrow> bool" where
  "no_downgrade force h (major, minor, hotfix, build) (api_major, api_minor) \<longleftrightarrow>
     ih_module_type h = FW_HEADER_MODULETYPE \<and> ih_module_vendor h = FW_HEADER_MODULEVENDOR \<and>
     ih_major h = major \<and> minor \<le> ih_minor h \<and>
     (force \<or> hotfix \<le> ih_hotfix h \<and> build \<le> ih_build h) \<and>
     (let img_major = get_fw_api_major_version (ih_fw_api_version h);
          img_minor = get_fw_api_minor_version (ih_fw_api_version h) in
      is_fw_api_version_downgraded (of_nat api_major) (of_nat api_minor) img_major img_minor \<longrightarrow>
      force \<and> is_fw_api_version_supported img_major img_minor)"

lemma compare_admits:
  assumes "compare_versions pt handle h current current_api s = Some (rc, s')"
    and "rc = NVM_SUCCESS \<or> rc = NVM_ERR_REQUIRESFORCE \<and> force"
    and "ih_module_type h = FW_HEADER_MODULETYPE" "ih_module_vendor h = FW_HEADER_MODULEVENDOR"
  shows "no_downgrade force h current current_api"
proof -
  obtain major minor hotfix build am an where c: "current = (major, minor, hotfix, build)" "current_api = (am, an)"
    by (metis surj_pair)
  obtain brc bp bs where b: "fw_get_bsr pt handle (zeros 8) s = (brc, bp, bs)" by (metis surj_pair)
  show ?thesis
    using assms
    by (cases "rd64 bp 0")
       (auto simp: c b compare_versions_def Let_def split: if_splits)
qed

lemma examine_admits:
  assumes "examine_image pt x p_buf v len s = Some (rc, v', s')" "rc = NVM_SUCCESS \<or> rc = NVM_ERR_REQUIRESFORCE \<and> force"
  shows "\<exists>h ok ok' current current_api. FW_IMAGE_HEADER_SIZE \<le> length p_buf \<and> read_image_header p_buf = Some h \<and>
    parse_main_revision (0, 0, 0, 0) (Some (disc_fw_revision x)) NVM_VERSION_LEN = Some (ok, current) \<and>
    parse_fw_revision (0, 0) (Some (disc_fw_api_version x)) NVM_VERSION_LEN = Some (ok', current_api) \<and>
    no_downgrade force h current current_api"
proof -
  have l: "\<not> length p_buf < FW_IMAGE_HEADER_SIZE" using assms by (auto simp: examine_image_def)
  obtain h where h: "read_image_header p_buf = Some h" using assms(1) l by (auto simp: examine_image_def bind_eq_Some_conv)
  have t: "ih_module_type h = FW_HEADER_MODULETYPE" "ih_module_vendor h = FW_HEADER_MODULEVENDOR"
    using assms l h by (auto simp: examine_image_def split: if_splits)
  obtain ok ok' current current_api where p:
    "parse_main_revision (0, 0, 0, 0) (Some (disc_fw_revision x)) NVM_VERSION_LEN = Some (ok, current)"
    "parse_fw_revision (0, 0) (Some (disc_fw_api_version x)) NVM_VERSION_LEN = Some (ok', current_api)"
    "compare_versions pt (disc_handle x) h current current_api s = Some (rc, s')"
    using assms(1) l h t by (auto simp: examine_image_def bind_eq_Some_conv)
  show ?thesis using l h p compare_admits [OF p(3) assms(2) t] by auto
qed

lemma device_code:
  assumes "firmware_device E device_uid s = Some (rc, x, s1)" "rc = NVM_ERR_REQUIRESFORCE"
  shows "fst (fu_devices E s) = NVM_ERR_REQUIRESFORCE"
  using assms
  by (auto simp: firmware_device_def exists_and_manageable_def lookup_dev_uid_def lookup_dev_def bind_eq_Some_conv
      split: prod.splits option.splits if_splits)

lemma nvm_examine_admits:
  assumes "nvm_examine_device_fw E device_uid path path_len version len s = Some (rc, v', s')"
    and "rc = NVM_SUCCESS \<or> rc = NVM_ERR_REQUIRESFORCE \<and> force" "\<forall>s. fst (fu_devices E s) \<noteq> NVM_ERR_REQUIRESFORCE"
  shows "\<exists>x s1 p_buf v0 v1. firmware_device E device_uid s = Some (NVM_SUCCESS, Some x, s1) \<and>
    fu_copy_file E (the path) path_len = (0, p_buf) \<and>
    examine_image (fu_ioctl E) x p_buf v0 len s1 = Some (rc, v1, s')"
proof -
  have g: "fu_permitted E" "fu_driver E" "device_uid \<noteq> None" "path_guards E path path_len = NVM_SUCCESS"
    using assms(1,2) by (auto simp: nvm_examine_device_fw_def path_guards_def split: if_splits option.splits)
  then obtain v where v: "version = Some v" "len \<noteq> 0" "fu_file_exists E (the path) path_len"
    using assms(1,2) by (auto simp: nvm_examine_device_fw_def split: if_splits option.splits)
  obtain rc0 d s1 where d: "firmware_device E device_uid s = Some (rc0, d, s1)"
    using assms(1) g v by (auto simp: nvm_examine_device_fw_def bind_eq_Some_conv)
  have ok: "rc0 = NVM_SUCCESS"
    using assms g v d device_code [OF d] by (auto simp: nvm_examine_device_fw_def split: if_splits)
  obtain x where x: "d = Some x" using assms(1) g v d ok by (auto simp: nvm_examine_device_fw_def bind_eq_Some_conv)
  obtain cleared where c: "wr_bytes v 0 (zeros len) = Some cleared"
    using assms(1) g v d ok x by (auto simp: nvm_examine_device_fw_def bind_eq_Some_conv)
  obtain code p_buf where f: "fu_copy_file E (the path) path_len = (code, p_buf)" by fastforce
  have "code = 0"
    using assms(1,2) g v d ok x c f by (auto simp: nvm_examine_device_fw_def read_file_bytes_def split: if_splits)
  then show ?thesis
    using assms(1) g v d ok x c f
    by (auto simp: nvm_examine_device_fw_def read_file_bytes_def bind_eq_Some_conv)
qed

text \<open>
  C14: \<open>nvm_update_device_fw\<close> of lib/update_firmware.c succeeds only for a caller with the permission, and only with an image
  of the module whose product number is that of the device and whose revision number is not lower; the hotfix, the
  build and the API version are lower only by force, and the API version only down to one that is supported. The header
  nvm_management.h says that a downgrade of the minor version needs force; the code refuses a lower revision number (the
  minor number of the image) with force too. The look-up of the devices is taken not to answer by itself that force is
  required, a code that only the comparison of the versions gives.
\<close>

theorem firmware_downgrade_refused:
  assumes "nvm_update_device_fw E garbage device_uid path path_len force s = Some (NVM_SUCCESS, s')"
    and "\<forall>s. fst (fu_devices E s) \<noteq> NVM_ERR_REQUIRESFORCE"
  shows "fu_permitted E \<and> fu_driver E \<and> fu_feature E = NVM_SUCCESS \<and>
    (\<exists>x s0 s1 p_buf h ok ok' current current_api. firmware_device E device_uid s0 = Some (NVM_SUCCESS, Some x, s1) \<and>
      fu_copy_file E (the path) path_len = (0, p_buf) \<and> FW_IMAGE_HEADER_SIZE \<le> length p_buf \<and>
      read_image_header p_buf = Some h \<and>
      parse_main_revision (0, 0, 0, 0) (Some (disc_fw_revision x)) NVM_VERSION_LEN = Some (ok, current) \<and>
      parse_fw_revision (0, 0) (Some (disc_fw_api_version x)) NVM_VERSION_LEN = Some (ok', current_api) \<and>
      no_downgrade force h current current_api)"
proof -
  have g: "fu_permitted E" "fu_driver E" "fu_feature E = NVM_SUCCESS" "path_guards E path path_len = NVM_SUCCESS"
    using assms(1) by (auto simp: nvm_update_device_fw_def split: if_splits option.splits)
  then obtain uid where u: "device_uid = Some uid" "fu_file_exists E (the path) path_len"
    using assms(1) by (auto simp: nvm_update_device_fw_def split: if_splits option.splits)
  obtain rc d s1 where d: "firmware_device E device_uid s = Some (rc, d, s1)"
    using assms(1) g u by (auto simp: nvm_update_device_fw_def bind_eq_Some_conv)
  have ok: "rc = NVM_SUCCESS" using assms(1) g u d by (auto simp: nvm_update_device_fw_def split: if_splits)
  obtain rc1 v s2 where e: "nvm_examine_device_fw E device_uid path path_len (Some garbage) NVM_VERSION_LEN s1 = Some (rc1, v, s2)"
    using assms(1) g u d ok by (auto simp: nvm_update_device_fw_def bind_eq_Some_conv)
  have "rc1 = NVM_SUCCESS \<or> rc1 = NVM_ERR_REQUIRESFORCE \<and> force"
    using assms(1) g u d ok e by (auto simp: nvm_update_device_fw_def bind_eq_Some_conv split: if_splits)
  note ex = nvm_examine_admits [OF e this assms(2)] this
  then obtain x s3 p_buf v0 v1 where x: "firmware_device E device_uid s1 = Some (NVM_SUCCESS, Some x, s3)"
    "fu_copy_file E (the path) path_len = (0, p_buf)"
    "examine_image (fu_ioctl E) x p_buf v0 NVM_VERSION_LEN s3 = Some (rc1, v1, s2)" by blast
  show ?thesis using g x examine_admits [OF x(3) ex(2)] by blast
qed

text \<open>A device that accepts everything, with firmware 01.00.00.0000 of API 1.2, and an image of 01.01.00.0000.\<close>

definition running_device :: dimm_device where
  "running_device = zero_device_discovery\<lparr>disc_uid := replicate 37 0, disc_manageability := MANAGEMENT_VALIDCONFIG,
     disc_fw_revision := main_revision_text 1 0 0 0 @ zeros 12, disc_fw_api_version := [49, 46, 50] @ zeros 22\<rparr>"

definition newer_image :: bytes where
  "newer_image = [6, 0, 0, 0] @ zeros 12 @ [0x86, 0x80, 0, 0] @ zeros 21 @ [0, 0, 0, 1, 1] @ zeros 12 @ [0x02, 0x01] @ zeros 68"

definition update_env :: "unit firmware_env" where
  "update_env =
     \<lparr>fu_permitted = True, fu_driver = True, fu_feature = NVM_SUCCESS, fu_devices = (\<lambda>s. (1, Some [running_device], s)),
      fu_ioctl = (\<lambda>s c. (NVM_SUCCESS, long_op_page 0, [], s)), fu_file_exists = (\<lambda>_ _. True),
      fu_copy_file = (\<lambda>_ _. (0, newer_image)), fu_sleep = id, fu_invalidate = id, fu_event = (\<lambda>_ _ s. s)\<rparr>"

lemma running_device_found:
  "firmware_device update_env (Some (replicate 37 0)) s = Some (NVM_SUCCESS, Some running_device, s)"
proof -
  have "exists_and_manageable (1, Some [running_device]) (Some (replicate 37 0)) True = Some (NVM_SUCCESS, Some running_device)"
    by code_simp
  then show ?thesis by (simp add: firmware_device_def update_env_def)
qed

lemma newer_header:
  "read_image_header newer_image = Some \<lparr>ih_module_type = 6, ih_module_vendor = 0x8086, ih_build = 0, ih_hotfix = 0,
     ih_minor = 1, ih_major = 1, ih_fw_api_version = 0x0102\<rparr>" "length newer_image = 128"
  by (simp_all add: read_image_header_def newer_image_def rd32_def rd16_def rd_bytes_def rd_def zeros_def nth_append)

lemma running_version:
  "parse_main_revision (0, 0, 0, 0) (Some (disc_fw_revision running_device)) NVM_VERSION_LEN = Some (True, 1, 0, 0, 0)"
proof -
  have "zeros 12 = 0 # zeros 11" by (simp add: zeros_def numeral_eq_Suc)
  then have r: "disc_fw_revision running_device = main_revision_text 1 0 0 0 @ 0 # zeros 11"
    by (simp add: running_device_def)
  have "length (disc_fw_revision running_device) = 25" using length_main_revision_text [of 1 0 0 0] by (simp add: r zeros_def)
  then show ?thesis using parse_main_revision_text [OF _ _ _ _ r, of "(0, 0, 0, 0)"] by simp
qed

lemma running_api:
  "parse_fw_revision (0, 0) (Some (disc_fw_api_version running_device)) NVM_VERSION_LEN = Some (True, 1, 2)"
proof -
  let ?s = "[49, 46, 50] @ zeros 22"
  have v: "dec_val [49] = 1" "dec_val [50] = 2"
    by (simp_all add: dec_val_def dec_step_def todigit_def)
  have "parse_revision_loop ?s 2 0 25 (Some 0) [0, 0] = parse_revision_loop ?s 2 1 24 (Some 1) [1, 0]"
    by (rule parse_revision_loop_step [where pre = "[]" and ds = "[49]" and rest = "[46, 50] @ zeros 22"])
      (auto simp: v isdigit_def zeros_def)
  also have "\<dots> = parse_revision_loop ?s 2 2 22 (Some 3) [1, 2]"
    by (rule parse_revision_loop_step [where pre = "[46]" and ds = "[50]" and rest = "zeros 22"])
      (auto simp: v isdigit_def zeros_def)
  also have "\<dots> = Some (2, [1, 2])" by (simp add: parse_revision_loop.simps)
  finally show ?thesis by (simp add: parse_fw_revision_def parse_revision_def running_device_def)
qed

lemma newer_image_sent: "send_new_firmware_to_device (fu_ioctl update_env) handle newer_image 128 s = (NVM_SUCCESS, ())"
  by (simp add: send_new_firmware_to_device_def run_set_def update_env_def)

lemma newer_image_admitted:
  "\<exists>v. nvm_examine_device_fw update_env (Some (replicate 37 0)) (Some [65]) 1 (Some (zeros 25)) 25 s = Some (NVM_SUCCESS, Some v, s)"
proof -
  obtain v where v: "build_revision (Some (zeros 25)) 25 1 1 0 0 = Some (Some v)"
    by (simp add: build_revision_def snprintf_text_def wr_bytes_def zeros_def)
  have api: "get_fw_api_major_version 0x0102 = 1" "get_fw_api_minor_version 0x0102 = 2" by code_simp+
  have c: "compare_versions pt h \<lparr>ih_module_type = 6, ih_module_vendor = 0x8086, ih_build = 0, ih_hotfix = 0,
     ih_minor = 1, ih_major = 1, ih_fw_api_version = 0x0102\<rparr> (1, 0, 0, 0) (1, 2) s = Some (NVM_SUCCESS, s)" for pt h
    by (simp add: compare_versions_def api is_fw_api_version_downgraded_def Let_def)
  have e: "examine_image pt running_device newer_image (zeros 25) 25 s = Some (NVM_SUCCESS, v, s)" for pt
    using v running_version running_api c newer_header
    by (simp add: examine_image_def)
  have w: "wr_bytes (zeros 25) 0 (zeros 25) = Some (zeros 25)" by (simp add: wr_bytes_def zeros_def)
  show ?thesis
    using e w by (simp add: nvm_examine_device_fw_def path_guards_def running_device_found)
      (simp add: update_env_def read_file_bytes_def)
qed

theorem firmware_downgrade_refused_witness:
  "nvm_update_device_fw update_env (zeros 25) (Some (replicate 37 0)) (Some [65]) 1 False () = Some (NVM_SUCCESS, ()) \<and>
   no_downgrade False (the (read_image_header newer_image)) (1, 0, 0, 0) (1, 2)"
proof -
  have g: "path_guards update_env (Some [65]) 1 = NVM_SUCCESS" by (simp add: path_guards_def)
  have f: "read_file_bytes (fu_copy_file update_env p n) = (NVM_SUCCESS, newer_image)" for p n
    by (simp add: read_file_bytes_def update_env_def)
  have st: "get_firmware_update_status (fu_ioctl update_env) h s = Some (NVM_SUCCESS, s)" for h s
    by (simp add: get_firmware_update_status_def fw_get_status_for_long_op_def run_get_def update_env_def
        is_fw_update_operation_def long_op_code rd_def)
  have w: "wait_for_update (fu_ioctl update_env) sl h s = Some (NVM_SUCCESS, s)" for sl h s
    by (subst wait_for_update.simps) (simp add: st)
  have up: "update_firmware update_env h p n s = Some (NVM_SUCCESS, ())" for h p n s
    by (simp add: update_firmware_def f newer_image_sent newer_header(2) w)
  obtain v where v: "nvm_examine_device_fw update_env (Some (replicate 37 0)) (Some [65]) 1 (Some (zeros 25)) 25 () =
      Some (NVM_SUCCESS, Some v, ())" using newer_image_admitted by blast
  have u: "nvm_update_device_fw update_env (zeros 25) (Some (replicate 37 0)) (Some [65]) 1 False () = Some (NVM_SUCCESS, ())"
    using g v up by (simp add: nvm_update_device_fw_def running_device_found) (simp add: update_env_def)
  have "\<forall>s. fst (fu_devices update_env s) \<noteq> NVM_ERR_REQUIRESFORCE" by (simp add: update_env_def)
  from firmware_downgrade_refused [OF u this] obtain x s0 s1 p_buf h ok ok' current current_api where
    x: "firmware_device update_env (Some (replicate 37 0)) s0 = Some (NVM_SUCCESS, Some x, s1)"
    "fu_copy_file update_env (the (Some [65])) 1 = (0, p_buf)" "read_image_header p_buf = Some h"
    "parse_main_revision (0, 0, 0, 0) (Some (disc_fw_revision x)) NVM_VERSION_LEN = Some (ok, current)"
    "parse_fw_revision (0, 0) (Some (disc_fw_api_version x)) NVM_VERSION_LEN = Some (ok', current_api)"
    "no_downgrade False h current current_api" by blast
  have "x = running_device" "p_buf = newer_image" using x(1,2) by (simp_all add: running_device_found, simp add: update_env_def)
  then show ?thesis using u x(3-6) running_version running_api by auto
qed

text \<open>The two digits of a byte.\<close>

lemma low_nibble: "unat (b AND 0xF) = unat b mod 16" for b :: u8
proof -
  have m: "b AND 0xF = take_bit 4 b" by (simp add: take_bit_eq_mask mask_eq_exp_minus_1)
  show ?thesis by (simp only: m) (simp add: take_bit_eq_mod unat_mod)
qed

lemma high_nibble: "unat (drop_bit 4 b AND 0xF) = unat b div 16" for b :: u8
proof -
  have "unat b < 256" using unsigned_less [of b] by simp
  then show ?thesis by (simp only: low_nibble) (simp add: drop_bit_eq_div unat_div)
qed

lemma bcd_digits_eq: "bcd_digits b = unat b div 16 * 10 + unat b mod 16"
  by (simp only: bcd_digits_def high_nibble) (simp only: low_nibble)

lemma bcd_digits_less: "unat b mod 16 \<le> 9 \<Longrightarrow> unat b div 16 \<le> 9 \<Longrightarrow> bcd_digits b < 100"
  by (simp add: bcd_digits_eq)

lemma bcd_digits_raw: "unat b mod 16 \<le> 9 \<Longrightarrow> 10 \<le> bcd_digits b \<Longrightarrow> unat b \<noteq> bcd_digits b"
  unfolding bcd_digits_eq using div_mult_mod_eq [of "unat b" 16] by linarith

text \<open>
  C39: the versions of the device are read as decimal digits, those of the image in \<open>nvm_examine_device_fw\<close> of
  lib/update_firmware.c as they are: with a product number of two digits an image of the very version that is running
  is refused.
\<close>

theorem two_digit_version_refused:
  assumes "FW_IMAGE_HEADER_SIZE \<le> length b" "length old = NVM_VERSION_LEN" "NVM_VERSION_LEN \<le> length v"
    and "FW_VER_ARR_TO_STR (take 5 (drop 41 b)) old NVM_VERSION_LEN = Some (disc_fw_revision x)"
    and "\<forall>c \<in> set (take 5 (drop 41 b)). unat c mod 16 \<le> 9 \<and> unat c div 16 \<le> 9" "10 \<le> bcd_digits (b ! 45)"
    and "parse_fw_revision (0, 0) (Some (disc_fw_api_version x)) NVM_VERSION_LEN \<noteq> None"
  shows "\<exists>v'. examine_image pt x b v NVM_VERSION_LEN s = Some (NVM_ERR_BADFIRMWARE, v', s)"
proof -
  define a where "a = take 5 (drop 41 b)"
  have l: "length a = 5" using assms(1) by (simp add: a_def)
  have n: "a ! i = b ! (41 + i)" if "i < 5" for i using assms(1) that by (simp add: a_def)
  have d: "unat (a ! i) mod 16 \<le> 9 \<and> unat (a ! i) div 16 \<le> 9" if "i < 5" for i
    using assms(5) nth_mem [of i a] that l unfolding a_def by simp
  let ?M = "bcd_digits (a ! 4)" and ?m = "bcd_digits (a ! 3)" and ?h = "bcd_digits (a ! 2)"
  let ?b = "unat (drop_bit 4 (a ! 1) AND 0xF) * 1000 + unat (a ! 1 AND 0xF) * 100
    + unat (drop_bit 4 (a ! 0) AND 0xF) * 10 + unat (a ! 0 AND 0xF)"
  have small: "?M < 100" "?m < 100" "?h < 100" using d [of 4] d [of 3] d [of 2] bcd_digits_less by simp_all
  have "?b < 10000" using d [of 0] d [of 1] unfolding high_nibble unfolding low_nibble by simp
  note small = small this
  let ?t = "main_revision_text ?M ?m ?h ?b"
  have lt: "length ?t = 13" by (rule length_main_revision_text) (use small in auto)
  have "FW_VER_ARR_TO_STR a old NVM_VERSION_LEN = Some (?t @ 0 # drop 14 old)"
    using assms(2) lt l by (simp add: FW_VER_ARR_TO_STR_def rd_def build_revision_def snprintf_text_def wr_bytes_def)
  then have r: "disc_fw_revision x = ?t @ 0 # drop 14 old" using assms(4) by (simp add: a_def)
  have "length (disc_fw_revision x) = NVM_VERSION_LEN" using lt assms(2) by (simp add: r)
  then have p: "parse_main_revision (0, 0, 0, 0) (Some (disc_fw_revision x)) NVM_VERSION_LEN = Some (True, ?M, ?m, ?h, ?b)"
    using parse_main_revision_text [OF small r, of "(0, 0, 0, 0)"] by simp
  obtain h where h: "read_image_header b = Some h" "ih_major h = unat (b ! 45)"
    using assms(1) by (auto simp: read_image_header_def rd32_def rd16_def rd_bytes_def rd_def)
  have "ih_major h \<noteq> ?M" using bcd_digits_raw [of "b ! 45"] d [of 4] n [of 4] assms(6) h(2) by simp
  then have c: "compare_versions pt hd h (?M, ?m, ?h, ?b) api s = Some (NVM_ERR_BADFIRMWARE, s)" for hd api
    by (cases api) (simp add: compare_versions_def Let_def)
  obtain v1 where w: "build_revision (Some v) NVM_VERSION_LEN (ih_major h) (ih_minor h) (ih_hotfix h) (ih_build h) = Some (Some v1)"
  proof -
    let ?u = "main_revision_text (ih_major h) (ih_minor h) (ih_hotfix h) (ih_build h)"
    have "0 + length (take 24 ?u @ [0]) \<le> length v" using assms(3) by simp
    then have "wr_bytes v 0 (take 24 ?u @ [0]) = Some (take 0 v @ (take 24 ?u @ [0]) @ drop (0 + length (take 24 ?u @ [0])) v)"
      by (rule wr_bytes_in)
    then show ?thesis using that by (simp add: build_revision_def snprintf_text_def)
  qed
  show ?thesis
    using assms(1,7) h(1) p c w by (auto simp: examine_image_def)
qed

definition tenth_image :: bytes where
  "tenth_image = [6, 0, 0, 0] @ zeros 12 @ [0x86, 0x80, 0, 0] @ zeros 21 @ [0, 0, 0, 0, 0x10] @ zeros 12 @ [0x02, 0x01] @ zeros 68"

definition tenth_device :: dimm_device where
  "tenth_device = running_device\<lparr>disc_fw_revision := main_revision_text 10 0 0 0 @ zeros 12\<rparr>"

theorem two_digit_version_refused_witness:
  "\<exists>v'. examine_image recorder tenth_device tenth_image (zeros 25) NVM_VERSION_LEN [] = Some (NVM_ERR_BADFIRMWARE, v', [])"
proof -
  have b: "take 5 (drop 41 tenth_image) = [0, 0, 0, 0, 0x10]" "length tenth_image = 128" "tenth_image ! 45 = 0x10"
    by (simp_all add: tenth_image_def zeros_def nth_append)
  have l: "length (main_revision_text 10 0 0 0) = 13" by (rule length_main_revision_text) simp_all
  have z: "0 # replicate 11 0 = (replicate 12 0 :: bytes)" by (simp add: numeral_eq_Suc)
  have "FW_VER_ARR_TO_STR [0, 0, 0, 0, 0x10] (zeros 25) NVM_VERSION_LEN = Some (disc_fw_revision tenth_device)"
    using l z by (simp add: FW_VER_ARR_TO_STR_def rd_def build_revision_def snprintf_text_def wr_bytes_def bcd_digits_eq
        tenth_device_def zeros_def)
  moreover have "disc_fw_api_version tenth_device = disc_fw_api_version running_device" by (simp add: tenth_device_def)
  ultimately show ?thesis
    using two_digit_version_refused [of tenth_image "zeros 25" "zeros 25" tenth_device recorder "[]"] b running_api
    by (simp add: bcd_digits_eq zeros_def)
qed

end
