(* ===== verification/Fletcher.thy ===== *)
theory Fletcher
  imports Prelude
begin

text \<open>
  The Fletcher-64 checksum of \<open>lib/namespace_labels.c\<close>. The data is a buffer at address \<open>addr\<close>;
  the checksum is stored in the data itself or in an object of its own.
\<close>

section \<open>Definition\<close>

text \<open>Where \<open>p_checksum\<close> points: at an offset of the data, or to a variable with a value.\<close>

datatype checksum_place = In_Data nat | Elsewhere u64

text \<open>The word loop; \<open>p\<close> is the byte offset of \<open>p_start\<close>.\<close>

function fletcher_loop ::
    "bytes \<Rightarrow> nat \<Rightarrow> checksum_place \<Rightarrow> nat \<Rightarrow> u32 \<Rightarrow> u32 \<Rightarrow> (u32 \<times> u32) option" where
  "fletcher_loop p_data len p_checksum p lo32 hi32 =
     (if p < len then
        if p_checksum = In_Data p
        then fletcher_loop p_data len p_checksum (p + 8) lo32 (hi32 + lo32 + lo32)
        else do {
          w \<leftarrow> rd32 p_data p;
          fletcher_loop p_data len p_checksum (p + 4) (lo32 + w) (hi32 + (lo32 + w)) }
      else Some (lo32, hi32))"
  by pat_completeness auto
termination
  by (relation "measure (\<lambda>(d, len, c, p, lo, hi). len - p)") auto

declare fletcher_loop.simps [simp del]

text \<open>
  The third guard compares the alignment of the data with the local variable \<open>checksum\<close>, which is
  still 0, not with the address of the checksum. The result is the match, the data and the place
  of the checksum after the call.
\<close>

definition checksum_fletcher64 ::
    "nat \<Rightarrow> bytes option \<Rightarrow> nat \<Rightarrow> checksum_place option \<Rightarrow> bool \<Rightarrow>
     (bool \<times> bytes option \<times> checksum_place option) option" where
  "checksum_fletcher64 addr p_data len p_checksum update =
     (case (p_data, p_checksum) of
        (Some d, Some c) \<Rightarrow>
          if len mod 4 \<noteq> 0 then Some (False, p_data, p_checksum)
          else if addr mod 4 \<noteq> 0 mod 4 then Some (False, p_data, p_checksum)
          else do {
            (lo32, hi32) \<leftarrow> fletcher_loop d len c 0 0 0;
            let checksum = push_bit 32 (ucast hi32) OR (ucast lo32 :: u64);
            if update then
              (case c of
                 In_Data off \<Rightarrow> do {
                   d' \<leftarrow> wr_bytes d off (le_bytes 8 (unat checksum));
                   Some (True, Some d', p_checksum) }
               | Elsewhere _ \<Rightarrow> Some (True, p_data, Some (Elsewhere checksum)))
            else
              (case c of
                 In_Data off \<Rightarrow> do {
                   stored \<leftarrow> rd64 d off;
                   Some (stored = checksum, p_data, p_checksum) }
               | Elsewhere stored \<Rightarrow> Some (stored = checksum, p_data, p_checksum)) }
      | _ \<Rightarrow> Some (False, p_data, p_checksum))"

section \<open>The sums in closed form\<close>

text \<open>The words that are summed, those of the checksum itself counted as 0.\<close>

definition masked :: "checksum_place \<Rightarrow> nat \<Rightarrow> bool" where
  "masked c p = (case c of In_Data q \<Rightarrow> p = q \<or> p = q + 4 | Elsewhere _ \<Rightarrow> False)"

definition fletcher_words :: "bytes \<Rightarrow> nat \<Rightarrow> checksum_place \<Rightarrow> u32 list" where
  "fletcher_words d len c = map (\<lambda>i. if masked c (4 * i) then 0 else fld d (4 * i) 4) [0 ..< len div 4]"

fun weighted :: "u32 list \<Rightarrow> u32" where
  "weighted [] = 0"
| "weighted (w # ws) = of_nat (Suc (length ws)) * w + weighted ws"

definition fletcher64 :: "u32 list \<Rightarrow> u64" where
  "fletcher64 ws = push_bit 32 (ucast (weighted ws)) OR ucast (sum_list ws)"

definition place_ok :: "nat \<Rightarrow> checksum_place \<Rightarrow> bool" where
  "place_ok len c = (case c of In_Data q \<Rightarrow> q mod 4 = 0 \<and> q + 8 \<le> len | Elsewhere _ \<Rightarrow> True)"

lemma weighted_append: "weighted (xs @ ys) = weighted xs + of_nat (length ys) * sum_list xs + weighted ys"
  by (induction xs) (simp_all add: algebra_simps)

lemma weighted_sum: "weighted ws = (\<Sum>i<length ws. of_nat (length ws - i) * ws ! i)"
proof (induction ws)
  case Nil
  then show ?case by simp
next
  case (Cons w ws)
  then show ?case
    using sum.lessThan_Suc_shift [of "\<lambda>i. of_nat (length (w # ws) - i) * (w # ws) ! i :: u32" "length ws"]
    by simp
qed

lemma length_fletcher_words [simp]: "length (fletcher_words d len c) = len div 4"
  by (simp add: fletcher_words_def)

lemma fletcher_words_nth:
  "i < len div 4 \<Longrightarrow>
   fletcher_words d len c ! i = (if masked c (4 * i) then 0 else fld d (4 * i) 4)"
  by (simp add: fletcher_words_def)

lemma rd32_fld: "off + 4 \<le> length b \<Longrightarrow> rd32 b off = Some (fld b off 4)"
  by (simp add: rd32_def fld_def mem_simps)

lemma rd64_fld: "off + 8 \<le> length b \<Longrightarrow> rd64 b off = Some (fld b off 8)"
  by (simp add: rd64_def fld_def mem_simps)

lemma fletcher_loop_eq:
  assumes "len mod 4 = 0" and "len \<le> length d" and "place_ok len c"
    and "i \<le> len div 4" and "c \<noteq> In_Data (4 * i - 4) \<or> i = 0"
  shows "fletcher_loop d len c (4 * i) lo hi =
    Some (lo + sum_list (drop i (fletcher_words d len c)),
          hi + of_nat (len div 4 - i) * lo + weighted (drop i (fletcher_words d len c)))"
  using assms
proof (induction "len div 4 - i" arbitrary: i lo hi rule: less_induct)
  case less
  let ?W = "fletcher_words d len c"
  have len: "4 * (len div 4) = len" using less.prems(1) by presburger
  show ?case
  proof (cases "i < len div 4")
    case False
    then have "i = len div 4" using less.prems by simp
    moreover from this have "\<not> 4 * i < len" using len by simp
    ultimately show ?thesis by (simp add: fletcher_loop.simps [of d len c "4 * (len div 4)"])
  next
    case True
    then have p: "4 * i < len" using len by linarith
    have d1: "drop i ?W = ?W ! i # drop (Suc i) ?W" using True by (simp add: Cons_nth_drop_Suc)
    have k: "len div 4 - i = Suc (len div 4 - Suc i)" using True by simp
    show ?thesis
    proof (cases "c = In_Data (4 * i)")
      case c: True
      have q: "4 * i + 8 \<le> len" using less.prems(3) c by (simp add: place_ok_def)
      then have i2: "Suc i < len div 4" using len by linarith
      have d2: "drop (Suc i) ?W = ?W ! Suc i # drop (i + 2) ?W" using i2 by (simp add: Cons_nth_drop_Suc)
      have z: "?W ! i = 0" "?W ! Suc i = 0"
        using True i2 c by (simp_all add: fletcher_words_nth masked_def)
      have k2: "len div 4 - i = Suc (Suc (len div 4 - (i + 2)))" using i2 by simp
      have "fletcher_loop d len c (4 * (i + 2)) lo (hi + lo + lo) =
        Some (lo + sum_list (drop (i + 2) ?W),
          hi + lo + lo + of_nat (len div 4 - (i + 2)) * lo + weighted (drop (i + 2) ?W))"
        by (rule less.hyps) (use less.prems i2 c in auto)
      moreover have "fletcher_loop d len c (4 * i) lo hi = fletcher_loop d len c (4 * (i + 2)) lo (hi + lo + lo)"
        using p c by (subst fletcher_loop.simps) (simp add: add.commute)
      ultimately show ?thesis unfolding d1 d2 z k2 by (simp add: algebra_simps)
    next
      case c: False
      have m: "\<not> masked c (4 * i)"
        using c less.prems(5) by (cases c) (auto simp: masked_def)
      have z: "?W ! i = fld d (4 * i) 4" using True m by (simp add: fletcher_words_nth)
      have r: "rd32 d (4 * i) = Some (fld d (4 * i) 4)"
        using p less.prems(1,2) len True by (intro rd32_fld) linarith
      have "fletcher_loop d len c (4 * Suc i) (lo + fld d (4 * i) 4) (hi + (lo + fld d (4 * i) 4)) =
        Some (lo + fld d (4 * i) 4 + sum_list (drop (Suc i) ?W),
          hi + (lo + fld d (4 * i) 4) + of_nat (len div 4 - Suc i) * (lo + fld d (4 * i) 4)
            + weighted (drop (Suc i) ?W))"
        by (rule less.hyps) (use less.prems True c in auto)
      moreover have "fletcher_loop d len c (4 * i) lo hi =
        fletcher_loop d len c (4 * Suc i) (lo + fld d (4 * i) 4) (hi + (lo + fld d (4 * i) 4))"
        using p c r by (subst fletcher_loop.simps) (simp add: add.commute)
      ultimately show ?thesis unfolding d1 z k by (simp add: algebra_simps)
    qed
  qed
qed

lemma fletcher_loop_sums:
  assumes "len mod 4 = 0" and "len \<le> length d" and "place_ok len c"
  shows "fletcher_loop d len c 0 0 0 =
    Some (sum_list (fletcher_words d len c), weighted (fletcher_words d len c))"
  using fletcher_loop_eq [OF assms, of 0 0 0] by simp

lemma checksum_update_in:
  assumes "len mod 4 = 0" and "len \<le> length d" and "place_ok len (In_Data q)" and "addr mod 4 = 0"
  shows "checksum_fletcher64 addr (Some d) len (Some (In_Data q)) True =
    Some (True, Some (take q d @ le_bytes 8 (unat (fletcher64 (fletcher_words d len (In_Data q))))
      @ drop (q + 8) d), Some (In_Data q))"
  using assms fletcher_loop_sums [OF assms(1-3)]
  by (simp add: checksum_fletcher64_def fletcher64_def wr_bytes_def place_ok_def)

lemma checksum_verify_in:
  assumes "len mod 4 = 0" and "len \<le> length d" and "place_ok len (In_Data q)" and "addr mod 4 = 0"
  shows "checksum_fletcher64 addr (Some d) len (Some (In_Data q)) False =
    Some (fld d q 8 = fletcher64 (fletcher_words d len (In_Data q)), Some d, Some (In_Data q))"
  using assms fletcher_loop_sums [OF assms(1-3)]
  by (simp add: checksum_fletcher64_def fletcher64_def rd64_fld place_ok_def)

lemma checksum_update_out:
  assumes "len mod 4 = 0" and "len \<le> length d" and "addr mod 4 = 0"
  shows "checksum_fletcher64 addr (Some d) len (Some (Elsewhere v)) True =
    Some (True, Some d, Some (Elsewhere (fletcher64 (fletcher_words d len (Elsewhere v)))))"
  using assms fletcher_loop_sums [of len d "Elsewhere v"]
  by (simp add: checksum_fletcher64_def fletcher64_def place_ok_def)

section \<open>What the checksum detects\<close>

lemma byte_word_eq: "(word_of_nat (le_nat (le_bytes 8 (unat (x :: u64)))) :: u64) = x"
proof -
  have "unat x < 2 ^ 64" using unsigned_less [of x] by simp
  then have "le_nat (le_bytes 8 (unat x)) = unat x" by (simp add: le_nat_le_bytes)
  then show ?thesis by simp
qed

lemma fld_written:
  "q + 8 \<le> length d \<Longrightarrow> fld (take q d @ le_bytes 8 (unat x) @ drop (q + 8) d) q 8 = (x :: u64)"
  using byte_word_eq [of x] by (simp add: fld_def del: le_nat_le_bytes)

lemma fletcher_words_written:
  assumes "len mod 4 = 0" and "len \<le> length d" and "place_ok len (In_Data q)"
  shows "fletcher_words (take q d @ le_bytes 8 v @ drop (q + 8) d) len (In_Data q)
    = fletcher_words d len (In_Data q)"
  unfolding fletcher_words_def
proof (rule map_cong [OF refl])
  fix i assume "i \<in> set [0 ..< len div 4]"
  then have i: "4 * i + 4 \<le> len" by simp
  show "(if masked (In_Data q) (4 * i) then 0
      else fld (take q d @ le_bytes 8 v @ drop (q + 8) d) (4 * i) 4 :: u32)
    = (if masked (In_Data q) (4 * i) then 0 else fld d (4 * i) 4)"
  proof (cases "masked (In_Data q) (4 * i)")
    case True
    then show ?thesis by simp
  next
    case False
    obtain k where k: "q = 4 * k" using assms(3) by (auto simp: place_ok_def dvd_def mod_0_imp_dvd)
    have q: "q + 8 \<le> length d" using assms by (simp add: place_ok_def)
    have "4 * i + 4 \<le> q \<or> q + 8 \<le> 4 * i" using False k by (simp add: masked_def) presburger
    then have "take 4 (drop (4 * i) (take q d @ le_bytes 8 v @ drop (q + 8) d)) = take 4 (drop (4 * i) d)"
      using q by (auto simp: drop_take min_def)
    then show ?thesis using False by (simp add: fld_def)
  qed
qed

lemma le_nat_inj: "length a = length b \<Longrightarrow> le_nat a = le_nat b \<longleftrightarrow> a = b"
  by (metis le_bytes_le_nat)

lemma fld_inj:
  assumes "256 ^ n \<le> (2 :: nat) ^ LENGTH('w)" and "q + n \<le> length d" and "q + n \<le> length d'"
  shows "(fld d q n :: 'w::len word) = fld d' q n \<longleftrightarrow> take n (drop q d) = take n (drop q d')"
proof -
  have b: "le_nat (take n (drop q x)) < 2 ^ LENGTH('w)" if "q + n \<le> length x" for x
  proof -
    have "length (take n (drop q x)) = n" using that by simp
    then show ?thesis using le_nat_bound [of "take n (drop q x)"] assms(1) by (metis order_less_le_trans)
  qed
  have "(fld d q n :: 'w word) = fld d' q n \<longleftrightarrow> le_nat (take n (drop q d)) = le_nat (take n (drop q d'))"
    using b [OF assms(2)] b [OF assms(3)] by (simp add: fld_def word_of_nat_eq_iff take_bit_nat_eq_self)
  then show ?thesis using assms by (simp add: le_nat_inj)
qed

lemma sum_list_update_diff: "i < length ws \<Longrightarrow> sum_list (ws[i := x]) = sum_list ws + (x - ws ! i)"
  for ws :: "'w::len word list"
  by (simp add: sum_list_update_word)

lemma low_fletcher64: "ucast (fletcher64 ws) = sum_list ws"
  by (rule bit_word_eqI) (simp add: fletcher64_def bit_simps)

lemma high_fletcher64: "ucast (drop_bit 32 (fletcher64 ws)) = weighted ws"
  by (rule bit_word_eqI) (auto simp: fletcher64_def bit_simps dest: bit_imp_le_length)

text \<open>Two buffers that differ in one aligned word only.\<close>

definition one_word_differs :: "bytes \<Rightarrow> bytes \<Rightarrow> nat \<Rightarrow> bool" where
  "one_word_differs d d' i \<longleftrightarrow>
     length d' = length d \<and> take (4 * i) d' = take (4 * i) d \<and> drop (4 * i + 4) d' = drop (4 * i + 4) d \<and>
     take 4 (drop (4 * i) d') \<noteq> take 4 (drop (4 * i) d)"

lemma part_before: "take a d' = take a d \<Longrightarrow> p + n \<le> a \<Longrightarrow> take n (drop p d') = take n (drop p d)"
proof -
  assume a: "take a d' = take a d" "p + n \<le> a"
  have "take (n + p) d' = take (n + p) (take a d')" "take (n + p) d = take (n + p) (take a d)"
    using a(2) by (simp_all add: min_def)
  then show ?thesis unfolding take_drop using a(1) by simp
qed

lemma part_after: "drop a d' = drop a d \<Longrightarrow> a \<le> p \<Longrightarrow> take n (drop p d') = take n (drop p d)"
  by (metis drop_drop le_add_diff_inverse2)

lemma other_words:
  assumes "one_word_differs d d' i" and "j \<noteq> i"
  shows "take 4 (drop (4 * j) d') = take 4 (drop (4 * j) d)"
proof (cases "j < i")
  case True
  then show ?thesis using assms by (intro part_before [of "4 * i"]) (simp_all add: one_word_differs_def)
next
  case False
  then have "4 * i + 4 \<le> 4 * j" using assms(2) by simp
  then show ?thesis using assms by (intro part_after [of "4 * i + 4"]) (simp_all add: one_word_differs_def)
qed

lemma words_changed:
  assumes "one_word_differs d d' i" and "i < len div 4"
  shows "fletcher_words d' len c =
    (fletcher_words d len c)[i := if masked c (4 * i) then 0 else fld d' (4 * i) 4]"
proof (rule nth_equalityI)
  fix j assume "j < length (fletcher_words d' len c)"
  then have j: "j < len div 4" by simp
  show "fletcher_words d' len c ! j =
    (fletcher_words d len c)[i := if masked c (4 * i) then 0 else fld d' (4 * i) 4] ! j"
    using j other_words [OF assms(1), of j]
    by (cases "j = i") (simp_all add: fletcher_words_nth fld_def)
qed simp

lemma checksum_detects:
  assumes "len mod 4 = 0" and "len \<le> length d" and "place_ok len (In_Data q)" and "addr mod 4 = 0"
    and "i < len div 4" and dif: "one_word_differs d d' i"
    and ok: "fld d q 8 = fletcher64 (fletcher_words d len (In_Data q))"
  shows "fld d' q 8 \<noteq> fletcher64 (fletcher_words d' len (In_Data q))"
proof -
  let ?W = "fletcher_words d len (In_Data q)"
  obtain k where k: "q = 4 * k" using assms(3) by (auto simp: place_ok_def dvd_def mod_0_imp_dvd)
  have q: "q + 8 \<le> len" using assms(3) by (simp add: place_ok_def)
  have l: "length d' = length d" using dif by (simp add: one_word_differs_def)
  have i4: "4 * i + 4 \<le> len" using assms(1,5) by presburger
  have split8: "take 8 (drop q x) = take 4 (drop (4 * k) x) @ take 4 (drop (4 * Suc k) x)" for x :: bytes
    using take_add [of 4 4 "drop q x"] k by (simp add: drop_drop add.commute)
  show ?thesis
  proof (cases "masked (In_Data q) (4 * i)")
    case True
    then have ik: "i = k \<or> i = Suc k" using k by (auto simp: masked_def)
    have "?W[i := 0] = ?W"
      using True assms(5) by (simp add: list_update_same_conv fletcher_words_nth)
    then have w: "fletcher_words d' len (In_Data q) = ?W"
      using words_changed [OF dif assms(5), of "In_Data q"] True by simp
    have "take 4 (drop (4 * k) d') @ x = take 4 (drop (4 * k) d) @ y \<longleftrightarrow>
        take 4 (drop (4 * k) d') = take 4 (drop (4 * k) d) \<and> x = y" for x y
      using l by (intro append_eq_append_conv) simp
    then have "take 8 (drop q d') \<noteq> take 8 (drop q d)"
      using ik dif unfolding one_word_differs_def split8 by metis
    then have "(fld d' q 8 :: u64) \<noteq> fld d q 8" using fld_inj [of 8 q d' d, where 'w = 64] q assms(2) l by simp
    then show ?thesis using w ok by simp
  next
    case False
    have ki: "k \<noteq> i" "Suc k \<noteq> i" using False k by (auto simp: masked_def)
    have "take 8 (drop q d') = take 8 (drop q d)"
      unfolding split8 other_words [OF dif ki(1)] other_words [OF dif ki(2)] ..
    then have s: "(fld d' q 8 :: u64) = fld d q 8" by (simp add: fld_def)
    have "(fld d' (4 * i) 4 :: u32) \<noteq> fld d (4 * i) 4"
      using fld_inj [of 4 "4 * i" d' d, where 'w = 32] i4 assms(2) l dif by (simp add: one_word_differs_def)
    then have "sum_list (fletcher_words d' len (In_Data q)) \<noteq> sum_list ?W"
      using words_changed [OF dif assms(5), of "In_Data q"] False assms(5)
      by (simp add: sum_list_update_word fletcher_words_nth)
    then show ?thesis using s ok low_fletcher64 by metis
  qed
qed

section \<open>Correctness\<close>

text \<open>
  C23: On aligned data the computed checksum is the pair of sums modulo \<open>2 ^ 32\<close>: the low half adds the
  words, the high half adds each word as often as there are words from it to the end.
\<close>

theorem checksum_fletcher64_sums:
  assumes "len mod 4 = 0" and "len \<le> length d" and "addr mod 4 = 0"
  shows "\<exists>c. checksum_fletcher64 addr (Some d) len (Some (Elsewhere v)) True =
      Some (True, Some d, Some (Elsewhere c)) \<and>
    ucast c = (\<Sum>i<len div 4. fld d (4 * i) 4 :: u32) \<and>
    ucast (drop_bit 32 c) = (\<Sum>i<len div 4. of_nat (len div 4 - i) * fld d (4 * i) 4 :: u32)"
proof -
  let ?W = "fletcher_words d len (Elsewhere v)"
  have n: "?W ! i = fld d (4 * i) 4" if "i < len div 4" for i
    using that by (simp add: fletcher_words_nth masked_def)
  have "sum_list ?W = (\<Sum>i<len div 4. fld d (4 * i) 4)"
    using n by (simp add: sum_list_sum_nth atLeast0LessThan)
  moreover have "weighted ?W = (\<Sum>i<len div 4. of_nat (len div 4 - i) * fld d (4 * i) 4)"
    using n by (simp add: weighted_sum)
  ultimately show ?thesis
    using checksum_update_out [OF assms, of v] low_fletcher64 [of ?W] high_fletcher64 [of ?W] by simp
qed

theorem checksum_fletcher64_sums_witness:
  "\<exists>c. checksum_fletcher64 0 (Some [1, 0, 0, 0, 2, 0, 0, 0]) 8 (Some (Elsewhere 0)) True =
      Some (True, Some [1, 0, 0, 0, 2, 0, 0, 0], Some (Elsewhere c)) \<and>
    ucast c = (\<Sum>i<8 div 4. fld [1, 0, 0, 0, 2, 0, 0, 0] (4 * i) 4 :: u32) \<and>
    ucast (drop_bit 32 c) =
      (\<Sum>i<8 div 4. of_nat (8 div 4 - i) * fld [1, 0, 0, 0, 2, 0, 0, 0] (4 * i) 4 :: u32)"
  by (rule checksum_fletcher64_sums) simp_all

text \<open>
  C33: A structure whose checksum has been updated verifies, and only the 8 bytes of the checksum have
  changed; damage that is confined to one aligned word of it, the checksum included, is detected.
\<close>

theorem checksum_fletcher64_detects:
  assumes "len mod 4 = 0" and "len \<le> length d" and "q mod 4 = 0" and "q + 8 \<le> len" and "addr mod 4 = 0"
  shows "\<exists>d'. checksum_fletcher64 addr (Some d) len (Some (In_Data q)) True =
      Some (True, Some d', Some (In_Data q)) \<and>
    length d' = length d \<and> take q d' = take q d \<and> drop (q + 8) d' = drop (q + 8) d \<and>
    checksum_fletcher64 addr (Some d') len (Some (In_Data q)) False =
      Some (True, Some d', Some (In_Data q)) \<and>
    (\<forall>d2 i. i < len div 4 \<and> one_word_differs d' d2 i \<longrightarrow>
       checksum_fletcher64 addr (Some d2) len (Some (In_Data q)) False =
         Some (False, Some d2, Some (In_Data q)))"
proof -
  have pl: "place_ok len (In_Data q)" using assms by (simp add: place_ok_def)
  note upd = checksum_update_in [OF assms(1,2) pl assms(5)]
  let ?v = "fletcher64 (fletcher_words d len (In_Data q))"
  define d' where "d' = take q d @ le_bytes 8 (unat ?v) @ drop (q + 8) d"
  have l: "length d' = length d" and q: "q + 8 \<le> length d" using assms by (simp_all add: d'_def)
  have l': "len \<le> length d'" using l assms(2) by simp
  have v: "fld d' q 8 = fletcher64 (fletcher_words d' len (In_Data q))"
    unfolding d'_def by (simp only: fletcher_words_written [OF assms(1,2) pl] fld_written [OF q])
  note ver = checksum_verify_in [OF assms(1) _ pl assms(5)]
  have det: "checksum_fletcher64 addr (Some d2) len (Some (In_Data q)) False =
      Some (False, Some d2, Some (In_Data q))" if "i < len div 4 \<and> one_word_differs d' d2 i" for d2 i
  proof -
    have "len \<le> length d2" using that l' by (simp add: one_word_differs_def)
    then show ?thesis
      using ver [of d2] checksum_detects [OF assms(1) l' pl assms(5) _ _ v, of i d2] that by simp
  qed
  have "take q d' = take q d" "drop (q + 8) d' = drop (q + 8) d" using q by (simp_all add: d'_def)
  then show ?thesis using upd l ver [OF l'] v det unfolding d'_def [symmetric] by auto
qed

theorem checksum_fletcher64_detects_witness:
  "\<exists>d'. checksum_fletcher64 4 (Some (replicate 16 1)) 16 (Some (In_Data 4)) True =
      Some (True, Some d', Some (In_Data 4)) \<and>
    length d' = length (replicate 16 (1 :: u8)) \<and> take 4 d' = take 4 (replicate 16 1) \<and>
    drop (4 + 8) d' = drop (4 + 8) (replicate 16 1) \<and>
    checksum_fletcher64 4 (Some d') 16 (Some (In_Data 4)) False = Some (True, Some d', Some (In_Data 4)) \<and>
    (\<forall>d2 i. i < 16 div 4 \<and> one_word_differs d' d2 i \<longrightarrow>
       checksum_fletcher64 4 (Some d2) 16 (Some (In_Data 4)) False =
         Some (False, Some d2, Some (In_Data 4)))"
  by (rule checksum_fletcher64_detects) simp_all

end
