(* ===== verification/Label_Cookies.thy ===== *)
theory Label_Cookies
  imports Fletcher Device_Utilities
begin

text \<open>
  The interleave-set cookies of \<open>lib/namespace_labels.c\<close>: one entry per DIMM of the set, in two
  layouts (labels of version 1.1 and 1.2), sorted by region offset and hashed with Fletcher-64.
\<close>

unbundle bit_operations_syntax

section \<open>Data\<close>

text \<open>\<open>struct nvm_interleave_set\<close> with the two cookies.\<close>

record cookie_set = nvm_interleave_set +
  ni_cookie_v1_1 :: u64
  ni_cookie_v1_2 :: u64

record v1_1_cookie_data =
  c11_region_offset :: u64
  c11_serial_number :: u32
  c11_reserved :: u32

record v1_2_cookie_data =
  c12_region_offset :: u64
  c12_serial_number :: u32
  c12_vendor_id :: u16
  c12_manufacturing_date :: u16
  c12_manufacturing_location :: u8
  c12_reserved :: bytes

definition zero_v1_1 :: v1_1_cookie_data where
  "zero_v1_1 = \<lparr>c11_region_offset = 0, c11_serial_number = 0, c11_reserved = 0\<rparr>"

definition zero_v1_2 :: v1_2_cookie_data where
  "zero_v1_2 =
     \<lparr>c12_region_offset = 0, c12_serial_number = 0, c12_vendor_id = 0, c12_manufacturing_date = 0,
      c12_manufacturing_location = 0, c12_reserved = replicate 31 0\<rparr>"

text \<open>The packed layouts, of 16 and 48 bytes.\<close>

definition enc_v1_1 :: "v1_1_cookie_data \<Rightarrow> bytes" where
  "enc_v1_1 c = le_bytes 8 (unat (c11_region_offset c)) @ le_bytes 4 (unat (c11_serial_number c))
     @ le_bytes 4 (unat (c11_reserved c))"

definition enc_v1_2 :: "v1_2_cookie_data \<Rightarrow> bytes" where
  "enc_v1_2 c = le_bytes 8 (unat (c12_region_offset c)) @ le_bytes 4 (unat (c12_serial_number c))
     @ le_bytes 2 (unat (c12_vendor_id c)) @ le_bytes 2 (unat (c12_manufacturing_date c))
     @ [c12_manufacturing_location c] @ c12_reserved c"

definition SWAP_SHORT :: "u16 \<Rightarrow> u16" where
  "SWAP_SHORT x = push_bit 8 (x AND 0xFF) + drop_bit 8 (x AND 0xFF00)"

section \<open>Sorting\<close>

text \<open>
  The two arrays are sorted side by side; \<open>swap_step\<close> is one conditional swap. The bounds of the
  loops are never negative before they end, so that the subtractions are those of \<open>nat\<close>.
\<close>

definition swap_step :: "('a \<Rightarrow> u64) \<Rightarrow> nat \<Rightarrow> 'a list \<Rightarrow> 'a list option" where
  "swap_step key j p_data = do {
     a \<leftarrow> rd p_data j;
     b \<leftarrow> rd p_data (j + 1);
     if key a > key b then do {
       d1 \<leftarrow> wr p_data j b;
       wr d1 (j + 1) a }
     else Some p_data }"

function sort_inner_loop ::
    "nat \<Rightarrow> nat \<Rightarrow> nat \<Rightarrow> v1_1_cookie_data list \<Rightarrow> v1_2_cookie_data list \<Rightarrow>
     (v1_1_cookie_data list \<times> v1_2_cookie_data list) option" where
  "sort_inner_loop dimm_count i j p_data_v1_1 p_data_v1_2 =
     (if j < dimm_count - i - 1 then do {
        d1 \<leftarrow> swap_step c11_region_offset j p_data_v1_1;
        d2 \<leftarrow> swap_step c12_region_offset j p_data_v1_2;
        sort_inner_loop dimm_count i (Suc j) d1 d2 }
      else Some (p_data_v1_1, p_data_v1_2))"
  by pat_completeness auto
termination
  by (relation "measure (\<lambda>(n, i, j, d1, d2). n - i - 1 - j)") auto

function sort_outer_loop ::
    "nat \<Rightarrow> nat \<Rightarrow> v1_1_cookie_data list \<Rightarrow> v1_2_cookie_data list \<Rightarrow>
     (v1_1_cookie_data list \<times> v1_2_cookie_data list) option" where
  "sort_outer_loop dimm_count i p_data_v1_1 p_data_v1_2 =
     (if i < dimm_count - 1 then do {
        (d1, d2) \<leftarrow> sort_inner_loop dimm_count i 0 p_data_v1_1 p_data_v1_2;
        sort_outer_loop dimm_count (Suc i) d1 d2 }
      else Some (p_data_v1_1, p_data_v1_2))"
  by pat_completeness auto
termination
  by (relation "measure (\<lambda>(n, i, d1, d2). n - 1 - i)") auto

definition sort_cookie_data ::
    "v1_1_cookie_data list \<Rightarrow> v1_2_cookie_data list \<Rightarrow> nat \<Rightarrow>
     (v1_1_cookie_data list \<times> v1_2_cookie_data list) option" where
  "sort_cookie_data p_data_v1_1 p_data_v1_2 dimm_count =
     sort_outer_loop dimm_count 0 p_data_v1_1 p_data_v1_2"

declare sort_inner_loop.simps [simp del] sort_outer_loop.simps [simp del]

section \<open>The cookies of a set\<close>

function dimm_index_loop :: "dimm_identity list \<Rightarrow> nat \<Rightarrow> u32 \<Rightarrow> nat \<Rightarrow> int option" where
  "dimm_index_loop dimm_list dimm_count handle i =
     (if i < dimm_count then do {
        d \<leftarrow> rd dimm_list i;
        if disc_handle d = handle then Some (int i)
        else dimm_index_loop dimm_list dimm_count handle (Suc i) }
      else Some (-1))"
  by pat_completeness auto
termination
  by (relation "measure (\<lambda>(ds, n, h, i). n - i)") auto

declare dimm_index_loop.simps [simp del]

definition get_ns_data_dimm_index_from_handle :: "dimm_identity list \<Rightarrow> int \<Rightarrow> u32 \<Rightarrow> int option" where
  "get_ns_data_dimm_index_from_handle dimm_list dimm_count handle =
     dimm_index_loop dimm_list (nat dimm_count) handle 0"

text \<open>One round of the loop over the DIMMs of a set. A DIMM that is not in the list leaves zeros.\<close>

definition cookie_entry ::
    "dimm_identity list \<Rightarrow> int \<Rightarrow> cookie_set \<Rightarrow> nat \<Rightarrow>
     v1_1_cookie_data \<times> v1_2_cookie_data \<Rightarrow> (v1_1_cookie_data \<times> v1_2_cookie_data) option" where
  "cookie_entry dimm_list dimm_count p_set dimm_idx old = do {
     handle \<leftarrow> rd (ni_dimms p_set) dimm_idx;
     index \<leftarrow> get_ns_data_dimm_index_from_handle dimm_list dimm_count handle;
     if index \<ge> 0 then do {
       dimm \<leftarrow> rd dimm_list (nat index);
       off \<leftarrow> rd (ni_dimm_region_offsets p_set) dimm_idx;
       serial \<leftarrow> rd32 (disc_serial_number dimm) 0;
       Some ((fst old)\<lparr>c11_region_offset := off, c11_serial_number := serial\<rparr>,
         (snd old)\<lparr>c12_region_offset := off, c12_serial_number := serial,
           c12_vendor_id := SWAP_SHORT (disc_vendor_id dimm),
           c12_manufacturing_date := SWAP_SHORT (disc_manufacturing_date dimm),
           c12_manufacturing_location := disc_manufacturing_location dimm\<rparr>) }
     else Some old }"

function cookie_data_loop ::
    "dimm_identity list \<Rightarrow> int \<Rightarrow> cookie_set \<Rightarrow> nat \<Rightarrow> v1_1_cookie_data list \<Rightarrow> v1_2_cookie_data list \<Rightarrow>
     (v1_1_cookie_data list \<times> v1_2_cookie_data list) option" where
  "cookie_data_loop dimm_list dimm_count p_set dimm_idx data_v1_1 data_v1_2 =
     (if dimm_idx < unat (ni_dimm_count p_set) then do {
        a \<leftarrow> rd data_v1_1 dimm_idx;
        b \<leftarrow> rd data_v1_2 dimm_idx;
        (a', b') \<leftarrow> cookie_entry dimm_list dimm_count p_set dimm_idx (a, b);
        d1 \<leftarrow> wr data_v1_1 dimm_idx a';
        d2 \<leftarrow> wr data_v1_2 dimm_idx b';
        cookie_data_loop dimm_list dimm_count p_set (Suc dimm_idx) d1 d2 }
      else Some (data_v1_1, data_v1_2))"
  by pat_completeness auto
termination
  by (relation "measure (\<lambda>(ds, n, s, i, d1, d2). unat (ni_dimm_count s) - i)") auto

declare cookie_data_loop.simps [simp del]

text \<open>The value of a cookie after the checksum is stored in it.\<close>

definition stored_checksum :: "checksum_place option \<Rightarrow> u64 option" where
  "stored_checksum c = (case c of Some (Elsewhere v) \<Rightarrow> Some v | _ \<Rightarrow> None)"

text \<open>
  The arrays come from \<open>malloc\<close>, at addresses aligned for any type, and are not tested for \<open>NULL\<close>
  before they are cleared.
\<close>

definition calculate_iset_cookie ::
    "(nat \<Rightarrow> bool) \<Rightarrow> dimm_identity list \<Rightarrow> int \<Rightarrow> cookie_set \<Rightarrow> cookie_set option" where
  "calculate_iset_cookie alloc dimm_list dimm_count p_set =
     (let n = unat (ni_dimm_count p_set) in
      if \<not> alloc (16 * n) \<or> \<not> alloc (48 * n) then None
      else do {
        (e1, e2) \<leftarrow> cookie_data_loop dimm_list dimm_count p_set 0
          (replicate n zero_v1_1) (replicate n zero_v1_2);
        (s1, s2) \<leftarrow> sort_cookie_data e1 e2 n;
        (_, _, c1) \<leftarrow> checksum_fletcher64 0 (Some (concat (map enc_v1_1 s1))) (16 * n)
          (Some (Elsewhere (ni_cookie_v1_1 p_set))) True;
        (_, _, c2) \<leftarrow> checksum_fletcher64 0 (Some (concat (map enc_v1_2 s2))) (48 * n)
          (Some (Elsewhere (ni_cookie_v1_2 p_set))) True;
        v1 \<leftarrow> stored_checksum c1;
        v2 \<leftarrow> stored_checksum c2;
        Some (p_set\<lparr>ni_cookie_v1_1 := v1, ni_cookie_v1_2 := v2\<rparr>) })"

function calculate_iset_cookies_loop ::
    "(nat \<Rightarrow> bool) \<Rightarrow> dimm_identity list \<Rightarrow> int \<Rightarrow> nat \<Rightarrow> nat \<Rightarrow> cookie_set list \<Rightarrow> cookie_set list option" where
  "calculate_iset_cookies_loop alloc dimm_list dimm_count iset_count iset_idx iset_list =
     (if iset_idx < iset_count then do {
        p_set \<leftarrow> rd iset_list iset_idx;
        p_set' \<leftarrow> calculate_iset_cookie alloc dimm_list dimm_count p_set;
        l \<leftarrow> wr iset_list iset_idx p_set';
        calculate_iset_cookies_loop alloc dimm_list dimm_count iset_count (Suc iset_idx) l }
      else Some iset_list)"
  by pat_completeness auto
termination
  by (relation "measure (\<lambda>(a, ds, n, c, i, l). c - i)") auto

declare calculate_iset_cookies_loop.simps [simp del]

definition calculate_iset_cookies ::
    "(nat \<Rightarrow> bool) \<Rightarrow> dimm_identity list \<Rightarrow> int \<Rightarrow> int \<Rightarrow> cookie_set list \<Rightarrow> cookie_set list option" where
  "calculate_iset_cookies alloc dimm_list dimm_count iset_count iset_list =
     calculate_iset_cookies_loop alloc dimm_list dimm_count (nat iset_count) 0 iset_list"

end
