(* ===== verification/Label_Cookies_Facts.thy ===== *)
theory Label_Cookies_Facts
  imports Label_Cookies "HOL-Library.Multiset"
begin

section \<open>The sort is the stable sort\<close>

text \<open>A conditional swap keeps the elements and, for each key, their order.\<close>

definition keeps :: "('a \<Rightarrow> 'b) \<Rightarrow> 'a list \<Rightarrow> 'a list \<Rightarrow> bool" where
  "keeps key xs ys \<longleftrightarrow> length ys = length xs \<and> mset ys = mset xs \<and>
     (\<forall>k. filter (\<lambda>x. key x = k) ys = filter (\<lambda>x. key x = k) xs)"

lemma keeps_refl [simp]: "keeps key xs xs"
  by (simp add: keeps_def)

lemma keeps_trans: "keeps key xs ys \<Longrightarrow> keeps key ys zs \<Longrightarrow> keeps key xs zs"
  by (simp add: keeps_def)

lemma split_pair: "Suc j < length xs \<Longrightarrow> \<exists>as a b bs. xs = as @ a # b # bs \<and> length as = j"
  by (rule exI [of _ "take j xs"], rule exI [of _ "xs ! j"], rule exI [of _ "xs ! Suc j"],
      rule exI [of _ "drop (Suc (Suc j)) xs"]) (simp add: Cons_nth_drop_Suc)

lemma swap_step_eq:
  assumes "Suc j < length xs"
  shows "\<exists>ys. swap_step key j xs = Some ys \<and> keeps key xs ys \<and> key (ys ! j) \<le> key (ys ! Suc j) \<and>
    (\<forall>p. p \<noteq> j \<and> p \<noteq> Suc j \<longrightarrow> ys ! p = xs ! p) \<and> {ys ! j, ys ! Suc j} = {xs ! j, xs ! Suc j}"
proof -
  obtain as a b bs where xs: "xs = as @ a # b # bs" and l: "length as = j" using split_pair [OF assms] by blast
  have n: "xs ! j = a" "xs ! Suc j = b" using l by (simp_all add: xs nth_append)
  show ?thesis
  proof (cases "key a > key b")
    case False
    then show ?thesis using n assms by (simp add: swap_step_def rd_in)
  next
    case True
    have y: "xs[j := b, Suc j := a] = as @ b # a # bs" using l by (auto simp: xs list_update_append)
    have "keeps key xs (as @ b # a # bs)" using True by (auto simp: keeps_def xs)
    then have "keeps key xs (xs[j := b, Suc j := a])" unfolding y .
    moreover have "swap_step key j xs = Some (xs[j := b, Suc j := a])"
      using True n assms by (simp add: swap_step_def rd_in wr_in)
    moreover have "\<forall>p. p \<noteq> j \<and> p \<noteq> Suc j \<longrightarrow> xs[j := b, Suc j := a] ! p = xs ! p" by simp
    moreover have "xs[j := b, Suc j := a] ! j = b" "xs[j := b, Suc j := a] ! Suc j = a" using assms by simp_all
    ultimately show ?thesis using True n by (intro exI [of _ "xs[j := b, Suc j := a]"]) (simp add: insert_commute)
  qed
qed

text \<open>One pass moves a greatest element of the first \<open>m + 1\<close> to position \<open>m\<close>.\<close>

definition pass_done :: "('a \<Rightarrow> u64) \<Rightarrow> 'a list \<Rightarrow> 'a list \<Rightarrow> nat \<Rightarrow> bool" where
  "pass_done key xs ys j \<longleftrightarrow> keeps key xs ys \<and> (\<forall>p \<le> j. key (ys ! p) \<le> key (ys ! j)) \<and>
     (\<forall>p > j. ys ! p = xs ! p) \<and> (\<forall>p \<le> j. \<exists>q \<le> j. ys ! p = xs ! q)"

lemma pass_step:
  assumes "pass_done key xs ys j" and "Suc j < length xs"
  shows "\<exists>zs. swap_step key j ys = Some zs \<and> pass_done key xs zs (Suc j)"
proof -
  have l: "length ys = length xs" using assms(1) by (simp add: pass_done_def keeps_def)
  then obtain zs where z: "swap_step key j ys = Some zs" "keeps key ys zs" "key (zs ! j) \<le> key (zs ! Suc j)"
    "\<forall>p. p \<noteq> j \<and> p \<noteq> Suc j \<longrightarrow> zs ! p = ys ! p" "{zs ! j, zs ! Suc j} = {ys ! j, ys ! Suc j}"
    using swap_step_eq [of j ys key] assms(2) by auto
  have k: "keeps key xs zs" using assms(1) z(2) by (auto simp: pass_done_def intro: keeps_trans)
  have top: "key (ys ! j) \<le> key (zs ! Suc j)" using z(3,5) by (auto simp: doubleton_eq_iff)
  have le: "key (zs ! p) \<le> key (zs ! Suc j)" if "p \<le> Suc j" for p
  proof (cases "p < j")
    case True
    then have "zs ! p = ys ! p" "key (ys ! p) \<le> key (ys ! j)" using z(4) assms(1) by (auto simp: pass_done_def)
    then show ?thesis using top by simp
  next
    case False
    then show ?thesis using z(3) that by (cases "p = j") (auto simp: le_Suc_eq)
  qed
  have src: "\<exists>q \<le> Suc j. zs ! p = xs ! q" if "p \<le> Suc j" for p
  proof -
    have "\<exists>r \<le> Suc j. zs ! p = ys ! r"
    proof (cases "p = j \<or> p = Suc j")
      case True
      then have "zs ! p = ys ! j \<or> zs ! p = ys ! Suc j" using z(5) by (auto simp: doubleton_eq_iff)
      then show ?thesis by (metis le_SucI order_refl)
    qed (use z(4) that in auto)
    then obtain r where r: "r \<le> Suc j" "zs ! p = ys ! r" by blast
    then show ?thesis using assms(1) by (cases "r = Suc j") (auto simp: pass_done_def le_Suc_eq)
  qed
  have "pass_done key xs zs (Suc j)"
    using k le src z(4) assms(1) by (auto simp: pass_done_def)
  then show ?thesis using z(1) by blast
qed

lemma sort_inner_loop_eq:
  assumes "pass_done c11_region_offset d1 e1 j" and "pass_done c12_region_offset d2 e2 j"
    and "n \<le> length d1" and "n \<le> length d2" and "j \<le> n - i - 1" and "i < n"
  shows "\<exists>f1 f2. sort_inner_loop n i j e1 e2 = Some (f1, f2) \<and>
    pass_done c11_region_offset d1 f1 (n - i - 1) \<and> pass_done c12_region_offset d2 f2 (n - i - 1)"
  using assms
proof (induction "n - i - 1 - j" arbitrary: j e1 e2)
  case 0
  then have j: "j = n - i - 1" by linarith
  then have "sort_inner_loop n i j e1 e2 = Some (e1, e2)" by (subst sort_inner_loop.simps) simp
  then show ?case using 0(2,3) j by simp
next
  case (Suc k)
  then have j: "j < n - i - 1" "Suc j < length d1" "Suc j < length d2" by linarith+
  obtain f1 where f1: "swap_step c11_region_offset j e1 = Some f1" "pass_done c11_region_offset d1 f1 (Suc j)"
    using pass_step [OF Suc.prems(1) j(2)] by blast
  obtain f2 where f2: "swap_step c12_region_offset j e2 = Some f2" "pass_done c12_region_offset d2 f2 (Suc j)"
    using pass_step [OF Suc.prems(2) j(3)] by blast
  have "sort_inner_loop n i j e1 e2 = sort_inner_loop n i (Suc j) f1 f2"
    using j(1) f1(1) f2(1) by (simp add: sort_inner_loop.simps [of n i j e1 e2])
  then show ?case using Suc.hyps(1) [OF _ f1(2) f2(2)] Suc.hyps(2) Suc.prems j(1) by simp
qed

text \<open>After \<open>i\<close> passes the last \<open>i\<close> positions hold their final elements.\<close>

definition tail_sorted :: "('a \<Rightarrow> u64) \<Rightarrow> 'a list \<Rightarrow> 'a list \<Rightarrow> nat \<Rightarrow> bool" where
  "tail_sorted key xs ys i \<longleftrightarrow> keeps key xs ys \<and>
     (\<forall>p q. length xs - i \<le> q \<and> q < length xs \<and> p \<le> q \<longrightarrow> key (ys ! p) \<le> key (ys ! q))"

lemma tail_pass:
  assumes t: "tail_sorted key xs ys i" and p: "pass_done key ys zs (length xs - i - 1)" and "i < length xs"
  shows "tail_sorted key xs zs (Suc i)"
proof -
  let ?m = "length xs - i - 1"
  have m: "length xs - i = Suc ?m" using assms(3) by simp
  have "key (zs ! a) \<le> key (zs ! b)" if "length xs - Suc i \<le> b" "b < length xs" "a \<le> b" for a b
  proof (cases "b = ?m")
    case True
    then show ?thesis using p that by (auto simp: pass_done_def)
  next
    case False
    then have b: "?m < b" using that by linarith
    then have "length xs - i \<le> b" using m by linarith
    then have ord: "key (ys ! c) \<le> key (ys ! b)" if "c \<le> b" for c
      using t that \<open>b < length xs\<close> by (auto simp: tail_sorted_def)
    have zb: "zs ! b = ys ! b" using p b by (auto simp: pass_done_def)
    show ?thesis
    proof (cases "a \<le> ?m")
      case True
      then obtain c where "c \<le> ?m" "zs ! a = ys ! c" using p by (auto simp: pass_done_def)
      then show ?thesis using ord [of c] b zb by simp
    next
      case False
      then have "zs ! a = ys ! a" using p by (auto simp: pass_done_def)
      then show ?thesis using ord [of a] zb that by simp
    qed
  qed
  moreover have "keeps key xs zs" using t p by (auto simp: tail_sorted_def pass_done_def intro: keeps_trans)
  ultimately show ?thesis by (auto simp: tail_sorted_def)
qed

lemma pass_start: "pass_done key xs xs 0"
  by (auto simp: pass_done_def)

lemma sort_outer_loop_eq:
  assumes "tail_sorted c11_region_offset d1 e1 i" and "tail_sorted c12_region_offset d2 e2 i"
    and "length d1 = n" and "length d2 = n" and "i \<le> n - 1"
  shows "\<exists>f1 f2. sort_outer_loop n i e1 e2 = Some (f1, f2) \<and>
    tail_sorted c11_region_offset d1 f1 (n - 1) \<and> tail_sorted c12_region_offset d2 f2 (n - 1)"
  using assms
proof (induction "n - 1 - i" arbitrary: i e1 e2)
  case 0
  then have i: "i = n - 1" by linarith
  then have "sort_outer_loop n i e1 e2 = Some (e1, e2)" by (subst sort_outer_loop.simps) simp
  then show ?case using 0(2,3) i by simp
next
  case (Suc k)
  then have i: "i < n - 1" "i < n" by linarith+
  have l: "length e1 = n" "length e2 = n" using Suc.prems by (simp_all add: tail_sorted_def keeps_def)
  obtain f1 f2 where f: "sort_inner_loop n i 0 e1 e2 = Some (f1, f2)"
    "pass_done c11_region_offset e1 f1 (n - i - 1)" "pass_done c12_region_offset e2 f2 (n - i - 1)"
    using sort_inner_loop_eq [OF pass_start pass_start, of n e1 e2 i] l i by auto
  have t: "tail_sorted c11_region_offset d1 f1 (Suc i)" "tail_sorted c12_region_offset d2 f2 (Suc i)"
    using tail_pass [OF Suc.prems(1), of f1] tail_pass [OF Suc.prems(2), of f2] f i Suc.prems(3,4) by simp_all
  have "sort_outer_loop n i e1 e2 = sort_outer_loop n (Suc i) f1 f2"
    using i f(1) by (simp add: sort_outer_loop.simps [of n i e1 e2])
  then show ?case using Suc.hyps(1) [OF _ t] Suc.hyps(2) Suc.prems i by simp
qed

lemma tail_sorted_sort_key:
  assumes "tail_sorted key xs ys (length xs - 1)"
  shows "ys = sort_key key xs"
proof -
  have k: "keeps key xs ys" using assms by (simp add: tail_sorted_def)
  have "key (ys ! p) \<le> key (ys ! q)" if "p \<le> q" "q < length ys" for p q
  proof (cases "q = 0")
    case False
    then show ?thesis using assms that k by (auto simp: tail_sorted_def keeps_def)
  qed (use that in simp)
  then have "sorted (map key ys)" by (auto simp: sorted_iff_nth_mono)
  moreover have "filter (\<lambda>x. key a = key x) ys = filter (\<lambda>x. key a = key x) xs" for a
  proof -
    have "(\<lambda>x. key a = key x) = (\<lambda>x. key x = key a)" by auto
    then show ?thesis using k by (simp add: keeps_def)
  qed
  ultimately show ?thesis
    using k by (intro properties_for_sort_key [symmetric]) (auto simp: keeps_def)
qed

lemma sort_cookie_data_eq:
  assumes "length d1 = n" and "length d2 = n"
  shows "sort_cookie_data d1 d2 n = Some (sort_key c11_region_offset d1, sort_key c12_region_offset d2)"
proof -
  have t: "tail_sorted key xs xs 0" for key :: "'a \<Rightarrow> u64" and xs by (auto simp: tail_sorted_def)
  obtain f1 f2 where f: "sort_outer_loop n 0 d1 d2 = Some (f1, f2)"
    "tail_sorted c11_region_offset d1 f1 (n - 1)" "tail_sorted c12_region_offset d2 f2 (n - 1)"
    using sort_outer_loop_eq [OF t t assms] by auto
  then show ?thesis
    using tail_sorted_sort_key [of c11_region_offset d1 f1] tail_sorted_sort_key [of c12_region_offset d2 f2] assms
    by (simp add: sort_cookie_data_def)
qed

text \<open>
  C24: The pair of bubble sorts orders both arrays by region offset and is stable: each becomes the stable
  sort of the input, whatever the offsets, and no access leaves the arrays.
\<close>

theorem sort_cookie_data_correct:
  assumes "length d1 = n" and "length d2 = n"
  shows "sort_cookie_data d1 d2 n = Some (sort_key c11_region_offset d1, sort_key c12_region_offset d2)"
  using assms by (rule sort_cookie_data_eq)

theorem sort_cookie_data_correct_witness:
  "sort_cookie_data [zero_v1_1\<lparr>c11_region_offset := 2\<rparr>, zero_v1_1]
      [zero_v1_2, zero_v1_2\<lparr>c12_region_offset := 1\<rparr>] 2 =
    Some ([zero_v1_1, zero_v1_1\<lparr>c11_region_offset := 2\<rparr>], [zero_v1_2, zero_v1_2\<lparr>c12_region_offset := 1\<rparr>])"
  by (subst sort_cookie_data_correct) (simp_all add: zero_v1_1_def zero_v1_2_def)

section \<open>The cookies\<close>

lemma dimm_index_loop_eq:
  assumes "i \<le> length dl"
  shows "dimm_index_loop dl (length dl) handle i =
    Some (case find_index (\<lambda>d. disc_handle d = handle) (drop i dl) of None \<Rightarrow> - 1 | Some k \<Rightarrow> int (i + k))"
  using assms
proof (induction "length dl - i" arbitrary: i)
  case 0
  then have "\<not> i < length dl" "drop i dl = []" by simp_all
  then show ?case by (subst dimm_index_loop.simps) simp
next
  case (Suc k)
  then have i: "i < length dl" by simp
  then have d: "drop i dl = dl ! i # drop (Suc i) dl" by (simp add: Cons_nth_drop_Suc)
  have s: "dimm_index_loop dl (length dl) handle i =
    (if disc_handle (dl ! i) = handle then Some (int i) else dimm_index_loop dl (length dl) handle (Suc i))"
    using i by (subst dimm_index_loop.simps) (simp add: rd_in)
  show ?case using Suc.hyps(1) [of "Suc i"] Suc.hyps(2) i s d
    by (auto split: option.splits)
qed

text \<open>The DIMM with a handle, and the entries it gives.\<close>

definition dimm_with :: "dimm_identity list \<Rightarrow> u32 \<Rightarrow> dimm_identity option" where
  "dimm_with dl handle = List.find (\<lambda>d. disc_handle d = handle) dl"

definition entry_v1_1 :: "dimm_identity \<Rightarrow> u64 \<Rightarrow> v1_1_cookie_data" where
  "entry_v1_1 d off =
     \<lparr>c11_region_offset = off, c11_serial_number = fld (disc_serial_number d) 0 4, c11_reserved = 0\<rparr>"

definition entry_v1_2 :: "dimm_identity \<Rightarrow> u64 \<Rightarrow> v1_2_cookie_data" where
  "entry_v1_2 d off =
     \<lparr>c12_region_offset = off, c12_serial_number = fld (disc_serial_number d) 0 4,
      c12_vendor_id = SWAP_SHORT (disc_vendor_id d),
      c12_manufacturing_date = SWAP_SHORT (disc_manufacturing_date d),
      c12_manufacturing_location = disc_manufacturing_location d, c12_reserved = replicate 31 0\<rparr>"

lemma find_find_index: "List.find P xs = map_option (\<lambda>i. xs ! i) (find_index P xs)"
  by (induction xs) (auto simp: option.map_comp comp_def)

text \<open>A set whose arrays have their full size and whose DIMMs are all in the list.\<close>

definition set_ok :: "dimm_identity list \<Rightarrow> cookie_set \<Rightarrow> bool" where
  "set_ok dl s \<longleftrightarrow> unat (ni_dimm_count s) \<le> length (ni_dimms s) \<and>
     unat (ni_dimm_count s) \<le> length (ni_dimm_region_offsets s) \<and>
     (\<forall>h \<in> set (take (unat (ni_dimm_count s)) (ni_dimms s)).
        \<exists>d. dimm_with dl h = Some d \<and> 4 \<le> length (disc_serial_number d))"

definition members :: "dimm_identity list \<Rightarrow> cookie_set \<Rightarrow> (dimm_identity \<times> u64) list" where
  "members dl s = map (\<lambda>i. (the (dimm_with dl (ni_dimms s ! i)), ni_dimm_region_offsets s ! i))
     [0 ..< unat (ni_dimm_count s)]"

lemma cookie_entry_eq:
  assumes "set_ok dl s" and "i < unat (ni_dimm_count s)"
  shows "cookie_entry dl (int (length dl)) s i (zero_v1_1, zero_v1_2) =
    Some (case_prod entry_v1_1 (members dl s ! i), case_prod entry_v1_2 (members dl s ! i))"
proof -
  let ?h = "ni_dimms s ! i"
  have l: "i < length (ni_dimms s)" "i < length (ni_dimm_region_offsets s)"
    using assms by (auto simp: set_ok_def)
  then have "?h \<in> set (take (unat (ni_dimm_count s)) (ni_dimms s))"
    using assms(2) by (auto simp: in_set_conv_nth intro!: exI [of _ i])
  then obtain d where d: "dimm_with dl ?h = Some d" "4 \<le> length (disc_serial_number d)"
    using assms(1) by (auto simp: set_ok_def)
  then obtain k where k: "find_index (\<lambda>d. disc_handle d = ?h) dl = Some k" "d = dl ! k"
    by (auto simp: dimm_with_def find_find_index)
  have kl: "k < length dl" using find_index_Some [OF k(1)] by simp
  have ix: "get_ns_data_dimm_index_from_handle dl (int (length dl)) ?h = Some (int k)"
    using dimm_index_loop_eq [of 0 dl ?h] k(1) by (simp add: get_ns_data_dimm_index_from_handle_def)
  have m: "members dl s ! i = (d, ni_dimm_region_offsets s ! i)"
    using assms(2) d(1) by (simp add: members_def)
  have r: "rd32 (disc_serial_number d) 0 = Some (fld (disc_serial_number d) 0 4)"
    using rd32_fld [of 0 "disc_serial_number d"] d(2) by simp
  show ?thesis
    unfolding cookie_entry_def m
    using l ix kl k(2) r by (simp add: rd_in entry_v1_1_def entry_v1_2_def zero_v1_1_def zero_v1_2_def)
qed

lemma cookie_data_loop_eq:
  assumes "set_ok dl s" and "n = unat (ni_dimm_count s)" and "i \<le> n"
    and "length d1 = i" and "length d2 = i"
  shows "cookie_data_loop dl (int (length dl)) s i (d1 @ replicate (n - i) zero_v1_1) (d2 @ replicate (n - i) zero_v1_2) =
    Some (d1 @ map (case_prod entry_v1_1) (drop i (members dl s)),
          d2 @ map (case_prod entry_v1_2) (drop i (members dl s)))"
  using assms(3-5)
proof (induction "n - i" arbitrary: i d1 d2)
  case 0
  then have "i = n" by simp
  then have "\<not> i < unat (ni_dimm_count s)" "drop i (members dl s) = []"
    using assms(2) by (simp_all add: members_def)
  then show ?case using 0 by (subst cookie_data_loop.simps) simp
next
  case (Suc k)
  then have i: "i < n" by simp
  have l: "length (members dl s) = n" using assms(2) by (simp add: members_def)
  then have d: "drop i (members dl s) = members dl s ! i # drop (Suc i) (members dl s)"
    using i by (simp add: Cons_nth_drop_Suc)
  have r: "replicate (n - i) x = x # replicate (n - Suc i) x" for x :: 'z
    using i by (metis Suc_diff_Suc replicate_Suc)
  let ?a = "case_prod entry_v1_1 (members dl s ! i)" and ?b = "case_prod entry_v1_2 (members dl s ! i)"
  have "cookie_data_loop dl (int (length dl)) s i (d1 @ replicate (n - i) zero_v1_1) (d2 @ replicate (n - i) zero_v1_2) =
    cookie_data_loop dl (int (length dl)) s (Suc i) ((d1 @ [?a]) @ replicate (n - Suc i) zero_v1_1)
      ((d2 @ [?b]) @ replicate (n - Suc i) zero_v1_2)"
    unfolding r using i assms(2) cookie_entry_eq [OF assms(1), of i] Suc.prems
    by (subst cookie_data_loop.simps) (simp add: rd_def wr_def nth_append list_update_append)
  also have "\<dots> = Some ((d1 @ [?a]) @ map (case_prod entry_v1_1) (drop (Suc i) (members dl s)),
          (d2 @ [?b]) @ map (case_prod entry_v1_2) (drop (Suc i) (members dl s)))"
    by (rule Suc.hyps(1)) (use Suc i in simp_all)
  finally show ?case unfolding d by simp
qed

lemma length_concat_fixed: "\<forall>x \<in> set xs. length (f x) = n \<Longrightarrow> length (concat (map f xs)) = n * length xs"
  by (induction xs) auto

text \<open>The bytes that are hashed.\<close>

definition image_v1_1 :: "(dimm_identity \<times> u64) list \<Rightarrow> bytes" where
  "image_v1_1 ms = concat (map (\<lambda>(d, off). enc_v1_1 (entry_v1_1 d off)) (sort_key snd ms))"

definition image_v1_2 :: "(dimm_identity \<times> u64) list \<Rightarrow> bytes" where
  "image_v1_2 ms = concat (map (\<lambda>(d, off). enc_v1_2 (entry_v1_2 d off)) (sort_key snd ms))"

lemma insort_key_map: "insort_key f (g x) (map g xs) = map g (insort_key (\<lambda>x. f (g x)) x xs)"
  by (induction xs) auto

lemma sort_key_map: "sort_key f (map g xs) = map g (sort_key (\<lambda>x. f (g x)) xs)"
  by (induction xs) (simp_all add: insort_key_map)

lemma sort_key_entries:
  "sort_key c11_region_offset (map (case_prod entry_v1_1) ms) = map (case_prod entry_v1_1) (sort_key snd ms)"
  "sort_key c12_region_offset (map (case_prod entry_v1_2) ms) = map (case_prod entry_v1_2) (sort_key snd ms)"
  by (simp_all add: sort_key_map entry_v1_1_def entry_v1_2_def case_prod_unfold)

lemma length_images: "length (image_v1_1 ms) = 16 * length ms" "length (image_v1_2 ms) = 48 * length ms"
proof -
  have "\<forall>x \<in> set (sort_key snd ms). length (case x of (d, off) \<Rightarrow> enc_v1_1 (entry_v1_1 d off)) = 16"
    "\<forall>x \<in> set (sort_key snd ms). length (case x of (d, off) \<Rightarrow> enc_v1_2 (entry_v1_2 d off)) = 48"
    by (auto simp: enc_v1_1_def enc_v1_2_def entry_v1_2_def)
  then show "length (image_v1_1 ms) = 16 * length ms" "length (image_v1_2 ms) = 48 * length ms"
    unfolding image_v1_1_def image_v1_2_def by (simp_all only: length_concat_fixed length_sort)
qed

definition cookie_v1_1 :: "(dimm_identity \<times> u64) list \<Rightarrow> u64" where
  "cookie_v1_1 ms = fletcher64 (fletcher_words (image_v1_1 ms) (16 * length ms) (Elsewhere 0))"

definition cookie_v1_2 :: "(dimm_identity \<times> u64) list \<Rightarrow> u64" where
  "cookie_v1_2 ms = fletcher64 (fletcher_words (image_v1_2 ms) (48 * length ms) (Elsewhere 0))"

lemma words_elsewhere: "fletcher_words d len (Elsewhere v) = fletcher_words d len (Elsewhere 0)"
  by (simp add: fletcher_words_def masked_def)

lemma calculate_iset_cookie_eq:
  assumes "set_ok dl s" and "\<forall>k. alloc k"
  shows "calculate_iset_cookie alloc dl (int (length dl)) s =
    Some (s\<lparr>ni_cookie_v1_1 := cookie_v1_1 (members dl s), ni_cookie_v1_2 := cookie_v1_2 (members dl s)\<rparr>)"
proof -
  let ?n = "unat (ni_dimm_count s)" and ?ms = "members dl s"
  have l: "length ?ms = ?n" by (simp add: members_def)
  have e: "cookie_data_loop dl (int (length dl)) s 0 (replicate ?n zero_v1_1) (replicate ?n zero_v1_2) =
    Some (map (case_prod entry_v1_1) ?ms, map (case_prod entry_v1_2) ?ms)"
    using cookie_data_loop_eq [OF assms(1) refl, of 0 "[]" "[]"] by simp
  have "sort_cookie_data (map (case_prod entry_v1_1) ?ms) (map (case_prod entry_v1_2) ?ms) ?n =
    Some (map (case_prod entry_v1_1) (sort_key snd ?ms), map (case_prod entry_v1_2) (sort_key snd ?ms))"
    using sort_cookie_data_eq [of "map (case_prod entry_v1_1) ?ms" ?n "map (case_prod entry_v1_2) ?ms"] l
    by (simp add: sort_key_entries)
  moreover have "concat (map enc_v1_1 (map (case_prod entry_v1_1) (sort_key snd ?ms))) = image_v1_1 ?ms"
    "concat (map enc_v1_2 (map (case_prod entry_v1_2) (sort_key snd ?ms))) = image_v1_2 ?ms"
    by (simp_all add: image_v1_1_def image_v1_2_def case_prod_unfold comp_def)
  moreover have "checksum_fletcher64 0 (Some (image_v1_1 ?ms)) (16 * ?n) (Some (Elsewhere v)) True =
      Some (True, Some (image_v1_1 ?ms), Some (Elsewhere (cookie_v1_1 ?ms)))" for v
    using checksum_update_out [of "16 * ?n" "image_v1_1 ?ms" 0 v] words_elsewhere [of "image_v1_1 ?ms" "16 * ?n" v]
    by (simp add: length_images l cookie_v1_1_def mod_mult_left_eq)
  moreover have "checksum_fletcher64 0 (Some (image_v1_2 ?ms)) (48 * ?n) (Some (Elsewhere v)) True =
      Some (True, Some (image_v1_2 ?ms), Some (Elsewhere (cookie_v1_2 ?ms)))" for v
    using checksum_update_out [of "48 * ?n" "image_v1_2 ?ms" 0 v] words_elsewhere [of "image_v1_2 ?ms" "48 * ?n" v]
    by (simp add: length_images l cookie_v1_2_def mod_mult_left_eq)
  ultimately show ?thesis
    using e assms(2) by (simp add: calculate_iset_cookie_def stored_checksum_def Let_def del: map_map)
qed

text \<open>The DIMMs of a set as pairs of a handle and a region offset.\<close>

definition set_pairs :: "cookie_set \<Rightarrow> (u32 \<times> u64) list" where
  "set_pairs s = zip (take (unat (ni_dimm_count s)) (ni_dimms s))
     (take (unat (ni_dimm_count s)) (ni_dimm_region_offsets s))"

lemma members_pairs:
  assumes "set_ok dl s"
  shows "members dl s = map (\<lambda>(h, off). (the (dimm_with dl h), off)) (set_pairs s)"
  using assms by (intro nth_equalityI) (auto simp: members_def set_pairs_def set_ok_def)

lemma cookies_permuted:
  assumes "mset xs = mset ys" and "distinct (map snd xs)"
  shows "cookie_v1_1 xs = cookie_v1_1 ys" "cookie_v1_2 xs = cookie_v1_2 ys"
proof -
  have sets: "set xs = set ys" using assms(1) by (rule mset_eq_setD)
  have "mset (map snd xs) = mset (map snd ys)" using assms(1) by simp
  then have d: "distinct (map snd ys)" using assms(2) mset_eq_imp_distinct_iff by blast
  have k: "distinct (map snd (sort_key snd zs))" if "distinct (map snd zs)" for zs :: "('a \<times> u64) list"
  proof -
    have "mset (map snd (sort_key snd zs)) = mset (map snd zs)" by simp
    then show ?thesis using that mset_eq_imp_distinct_iff by blast
  qed
  have "inj_on snd (set xs)" using assms(2) by (simp add: distinct_map)
  then have "sort_key snd xs = sort_key snd ys"
    using k [OF assms(2)] k [OF d] sets
    by (intro map_sorted_distinct_set_unique [where f = snd]) auto
  moreover have "length xs = length ys" using assms(1) by (rule mset_eq_length)
  ultimately show "cookie_v1_1 xs = cookie_v1_1 ys" "cookie_v1_2 xs = cookie_v1_2 ys"
    by (simp_all add: cookie_v1_1_def cookie_v1_2_def image_v1_1_def image_v1_2_def)
qed

text \<open>
  C32: When all DIMMs of two interleave sets are known, both cookies of a set are computed, and they do not
  depend on the order in which the set lists its DIMMs: the same DIMMs at the same (distinct) offsets give
  the same cookies.
\<close>

theorem iset_cookies_order_independent:
  assumes "set_ok dl a" and "set_ok dl b" and "\<forall>k. alloc k"
    and "mset (set_pairs a) = mset (set_pairs b)" and "distinct (map snd (set_pairs a))"
  shows "\<exists>v1 v2.
    calculate_iset_cookie alloc dl (int (length dl)) a = Some (a\<lparr>ni_cookie_v1_1 := v1, ni_cookie_v1_2 := v2\<rparr>) \<and>
    calculate_iset_cookie alloc dl (int (length dl)) b = Some (b\<lparr>ni_cookie_v1_1 := v1, ni_cookie_v1_2 := v2\<rparr>)"
proof -
  let ?f = "\<lambda>(h, off). (the (dimm_with dl h), off)"
  have "mset (members dl a) = image_mset ?f (mset (set_pairs a))" "mset (members dl b) = image_mset ?f (mset (set_pairs b))"
    unfolding members_pairs [OF assms(1)] members_pairs [OF assms(2)] by (rule mset_map)+
  then have "mset (members dl a) = mset (members dl b)" using assms(4) by simp
  moreover have "map snd (members dl a) = map snd (set_pairs a)"
    unfolding members_pairs [OF assms(1)] by (simp add: case_prod_unfold)
  ultimately have "cookie_v1_1 (members dl a) = cookie_v1_1 (members dl b)"
    "cookie_v1_2 (members dl a) = cookie_v1_2 (members dl b)"
    using cookies_permuted [of "members dl a" "members dl b"] assms(5) by simp_all
  then show ?thesis
    using calculate_iset_cookie_eq [OF assms(1,3)] calculate_iset_cookie_eq [OF assms(2,3)]
    by (intro exI [of _ "cookie_v1_1 (members dl b)"] exI [of _ "cookie_v1_2 (members dl b)"]) simp
qed

definition sample_dimm :: "u32 \<Rightarrow> u8 \<Rightarrow> dimm_identity" where
  "sample_dimm h k =
     \<lparr>disc_uid = replicate NVM_UID_LEN 0, disc_handle = h, disc_manageability = 1, disc_rest = [],
      disc_vendor_id = 0x8089, disc_dimm_sku = 5, disc_manufacturer = [0, 0],
      disc_serial_number = [k, 0, 0, 0], disc_subsystem_vendor_id = 0,
      disc_subsystem_device_id = 0, disc_manufacturing_info_valid = False, disc_manufacturing_location = 0,
      disc_manufacturing_date = 0, disc_part_number = [], disc_interface_format_codes = replicate 9 0,
      disc_security_capabilities = \<lparr>passphrase_capable = False, unlock_device_capable = False,
        erase_crypto_capable = False\<rparr>,
      disc_device_capabilities = \<lparr>die_sparing_capable = False, memory_mode_capable = True,
        storage_mode_capable = False, app_direct_mode_capable = True\<rparr>\<rparr>"

definition sample_set :: "u32 list \<Rightarrow> u64 list \<Rightarrow> cookie_set" where
  "sample_set hs offs =
     \<lparr>ni_id = 1, ni_socket_id = 0, ni_size = 0, ni_attributes = 0, ni_dimm_count = of_nat (length hs),
      ni_dimms = hs, ni_dimm_region_pdas = [], ni_dimm_region_offsets = offs, ni_dimm_sizes = [],
      ni_cookie_v1_1 = 0, ni_cookie_v1_2 = 0\<rparr>"

theorem iset_cookies_order_independent_witness:
  "\<exists>v1 v2.
    calculate_iset_cookie (\<lambda>_. True) [sample_dimm 1 7, sample_dimm 2 9] 2 (sample_set [1, 2] [4096, 0]) =
      Some (sample_set [1, 2] [4096, 0] \<lparr>ni_cookie_v1_1 := v1, ni_cookie_v1_2 := v2\<rparr>) \<and>
    calculate_iset_cookie (\<lambda>_. True) [sample_dimm 1 7, sample_dimm 2 9] 2 (sample_set [2, 1] [0, 4096]) =
      Some (sample_set [2, 1] [0, 4096] \<lparr>ni_cookie_v1_1 := v1, ni_cookie_v1_2 := v2\<rparr>)"
  using iset_cookies_order_independent [of "[sample_dimm 1 7, sample_dimm 2 9]" "sample_set [1, 2] [4096, 0]"
      "sample_set [2, 1] [0, 4096]" "\<lambda>_. True"]
  by (simp add: set_ok_def set_pairs_def sample_set_def sample_dimm_def dimm_with_def)

end
