(* ===== verification/Namespace_Labels.thy ===== *)
theory Namespace_Labels
  imports Label_Cookies
begin

text \<open>
  Namespaces from the label storage area of the DIMMs: \<open>lib/namespace_labels.c\<close>. A label storage area
  (\<open>struct pt_output_namespace_labels\<close>) is the buffer of its bytes: two index blocks of 256 bytes and
  the labels. The code that reads the areas from the DIMMs is parameterised by the pass-through command.
\<close>

unbundle bit_operations_syntax

section \<open>Layout\<close>

text \<open>\<open>struct pt_output_ns_index\<close>\<close>

definition NS_INDEX_LEN :: nat where "NS_INDEX_LEN = 256"
definition NS_INDEX_SIG_LEN :: nat where "NS_INDEX_SIG_LEN = 16"
definition NS_INDEX_MAJOR :: u16 where "NS_INDEX_MAJOR = 1"
definition NS_INDEX_MINOR :: u16 where "NS_INDEX_MINOR = 2"
definition MAX_NS_LABELS :: nat where "MAX_NS_LABELS = 1020"
definition NS_NAME_LEN :: nat where "NS_NAME_LEN = 64"
definition LABELS_SIZE :: nat where "LABELS_SIZE = 129536"
definition NAMESPACE_LABELS_SIZE :: nat where "NAMESPACE_LABELS_SIZE = 130048"
definition LABEL_V1_1_SIZE :: nat where "LABEL_V1_1_SIZE = 128"
definition LABEL_V1_2_SIZE :: nat where "LABEL_V1_2_SIZE = 256"
definition LABEL_SIZE :: nat where "LABEL_SIZE = 124"

definition ix_sequence :: "bytes \<Rightarrow> u32" where "ix_sequence x = fld x 20 4"
definition ix_my_offset :: "bytes \<Rightarrow> u64" where "ix_my_offset x = fld x 24 8"
definition ix_my_size :: "bytes \<Rightarrow> u64" where "ix_my_size x = fld x 32 8"
definition ix_other_offset :: "bytes \<Rightarrow> u64" where "ix_other_offset x = fld x 40 8"
definition ix_nlabel :: "bytes \<Rightarrow> u32" where "ix_nlabel x = fld x 56 4"
definition ix_major :: "bytes \<Rightarrow> u16" where "ix_major x = fld x 60 2"
definition ix_minor :: "bytes \<Rightarrow> u16" where "ix_minor x = fld x 62 2"
definition IX_CHECKSUM :: nat where "IX_CHECKSUM = 64"
definition ix_free :: "bytes \<Rightarrow> bytes" where "ix_free x = take 128 (drop 72 x)"

text \<open>\<open>struct pt_output_ns_label\<close> and the fields that \<open>struct pt_output_ns_label_v1_2\<close> adds\<close>

definition lb_uuid :: "bytes \<Rightarrow> bytes" where "lb_uuid l = take 16 l"
definition lb_flags :: "bytes \<Rightarrow> u32" where "lb_flags l = fld l 80 4"
definition lb_nlabel :: "bytes \<Rightarrow> u16" where "lb_nlabel l = fld l 84 2"
definition lb_position :: "bytes \<Rightarrow> u16" where "lb_position l = fld l 86 2"
definition lb_iset_cookie :: "bytes \<Rightarrow> u64" where "lb_iset_cookie l = fld l 88 8"
definition lb_lba_size :: "bytes \<Rightarrow> u64" where "lb_lba_size l = fld l 96 8"
definition lb_rawsize :: "bytes \<Rightarrow> u64" where "lb_rawsize l = fld l 112 8"
definition LB_TYPE_GUID :: nat where "LB_TYPE_GUID = 128"
definition lb_type_guid :: "bytes \<Rightarrow> bytes" where "lb_type_guid l = take 16 (drop 128 l)"
definition lb_abstraction_guid :: "bytes \<Rightarrow> bytes" where "lb_abstraction_guid l = take 16 (drop 144 l)"
definition LB_CHECKSUM :: nat where "LB_CHECKSUM = 248"

definition NS_FLAGS_UPDATING :: "u32 \<Rightarrow> bool" where "NS_FLAGS_UPDATING flags \<longleftrightarrow> flags AND 4 \<noteq> 0"
definition NS_FLAGS_LOCAL :: "u32 \<Rightarrow> bool" where "NS_FLAGS_LOCAL flags \<longleftrightarrow> flags AND 2 \<noteq> 0"

definition c_literal :: "string \<Rightarrow> bytes" where "c_literal s = map of_char s @ [0]"

definition NS_INDEX_SIGNATURE :: bytes where "NS_INDEX_SIGNATURE = c_literal ''NAMESPACE_INDEX''"
definition NS_BTT_GUID :: bytes where "NS_BTT_GUID = c_literal ''8aed63a2-29a2-4c66-8b12-f05d15d3922a''"
definition NS_PFN_GUID :: bytes where "NS_PFN_GUID = c_literal ''266400ba-fb9f-4677-bcb0-968f11d0d225''"

definition NAMESPACE_HEALTH_NORMAL :: nat where "NAMESPACE_HEALTH_NORMAL = 5"
definition NAMESPACE_HEALTH_CRITICAL :: nat where "NAMESPACE_HEALTH_CRITICAL = 25"
definition NAMESPACE_TYPE_APP_DIRECT :: nat where "NAMESPACE_TYPE_APP_DIRECT = 1"
definition NAMESPACE_ENABLE_STATE_ENABLED :: nat where "NAMESPACE_ENABLE_STATE_ENABLED = 2"
definition NAMESPACE_MEMORY_PAGE_ALLOCATION_APP_DIRECT :: nat where
  "NAMESPACE_MEMORY_PAGE_ALLOCATION_APP_DIRECT = 3"

text \<open>
  What the code takes from its environment: the addresses of the local copies of an area and of a
  label, the allocator, the content of uninitialised local arrays, and of memory that \<open>realloc\<close> adds.
\<close>

record label_env =
  lsa_addr :: nat
  label_addr :: nat
  lb_alloc :: "nat \<Rightarrow> bool"
  guid_garbage :: bytes
  uid_garbage :: bytes
  fresh_details :: "nat \<Rightarrow> nvm_namespace_details"

record ns_data =
  nsd_dimm_count :: int
  nsd_dimm_list :: "dimm_identity list"
  nsd_dimm_nslsa_list :: "bytes list"
  nsd_ns_count :: nat
  nsd_ns_list :: "nvm_namespace_details list option"
  nsd_iset_count :: int
  nsd_iset_list :: "cookie_set list"

section \<open>Index blocks\<close>

text \<open>A checksum that does not match is recorded, and the other tests are made all the same.\<close>

definition is_valid_index_block :: "nat \<Rightarrow> bytes \<Rightarrow> nat \<Rightarrow> bool option" where
  "is_valid_index_block addr p_ns_index index_pos = do {
     (ok, _, _) \<leftarrow> checksum_fletcher64 addr (Some p_ns_index) NS_INDEX_LEN (Some (In_Data IX_CHECKSUM)) False;
     sig \<leftarrow> s_strncmp (Some NS_INDEX_SIGNATURE) (Some p_ns_index) NS_INDEX_SIG_LEN;
     Some (if sig \<noteq> 0 then False
           else if ix_major p_ns_index \<noteq> NS_INDEX_MAJOR then False
           else if ix_minor p_ns_index > NS_INDEX_MINOR then False
           else if ix_my_offset p_ns_index \<noteq> of_nat (index_pos * NS_INDEX_LEN) then False
           else if ix_my_size p_ns_index \<noteq> of_nat NS_INDEX_LEN then False
           else if ix_other_offset p_ns_index \<noteq> (if index_pos = 0 then of_nat NS_INDEX_LEN else 0) then False
           else if ix_sequence p_ns_index = 0 then False
           else if unat (ix_nlabel p_ns_index) > MAX_NS_LABELS then False
           else ok) }"

definition lsa_index1 :: "bytes \<Rightarrow> bytes" where "lsa_index1 a = take 256 a"
definition lsa_index2 :: "bytes \<Rightarrow> bytes" where "lsa_index2 a = take 256 (drop 256 a)"
definition lsa_labels :: "bytes \<Rightarrow> bytes" where "lsa_labels a = take LABELS_SIZE (drop 512 a)"

definition choose_index_block :: "nat \<Rightarrow> bytes \<Rightarrow> int option" where
  "choose_index_block addr p_labels = do {
     let index1 = lsa_index1 p_labels;
     let index2 = lsa_index2 p_labels;
     index1_valid \<leftarrow> is_valid_index_block addr index1 0;
     index2_valid \<leftarrow> is_valid_index_block (addr + NS_INDEX_LEN) index2 1;
     Some (if index1_valid \<and> \<not> index2_valid then 1
           else if index2_valid \<and> \<not> index1_valid then 2
           else if index1_valid \<and> index2_valid then
             if ix_sequence index1 = ix_sequence index2 then
               if ix_other_offset index1 > ix_my_offset index1 then 2 else 1
             else
               let seq_sum = sint (ix_sequence index1 + ix_sequence index2) in
               if seq_sum = 3 \<or> seq_sum = 5 then
                 if ix_sequence index1 > ix_sequence index2 then 1 else 2
               else if ix_sequence index1 < ix_sequence index2 then 1 else 2
           else 0) }"

definition is_slot_free :: "bytes \<Rightarrow> nat \<Rightarrow> bool option" where
  "is_slot_free free_map slot = do {
     b \<leftarrow> rd free_map (slot div 8);
     Some (bit b (slot mod 8)) }"

section \<open>Labels\<close>

definition pm_guid :: "label_env \<Rightarrow> bytes option" where
  "pm_guid e = do {
     g \<leftarrow> str_to_guid (Some spa_range_pm_region_guid_str) (Some (guid_garbage e));
     g }"

definition is_valid_label :: "label_env \<Rightarrow> nat \<Rightarrow> bytes \<Rightarrow> bool option" where
  "is_valid_label e addr p_label = do {
     (ok, _, _) \<leftarrow> checksum_fletcher64 addr (Some p_label) LABEL_V1_2_SIZE (Some (In_Data LB_CHECKSUM)) False;
     if \<not> ok then Some False
     else if NS_FLAGS_UPDATING (lb_flags p_label) then Some False
     else if lb_rawsize p_label = 0 then Some False
     else do {
       g \<leftarrow> pm_guid e;
       same \<leftarrow> guid_cmp (Some g) (Some (lb_type_guid p_label));
       Some (if same = 0 then False
             else if lb_position p_label > lb_nlabel p_label then False
             else True) } }"

function ns_index_loop :: "bytes \<Rightarrow> nvm_namespace_details list \<Rightarrow> nat \<Rightarrow> nat \<Rightarrow> int option" where
  "ns_index_loop label_uid ns_list ns_count i =
     (if i < ns_count then do {
        x \<leftarrow> rd ns_list i;
        same \<leftarrow> uid_cmp label_uid (namespace_uid (ns_discovery x));
        if same then Some (int i) else ns_index_loop label_uid ns_list ns_count (Suc i) }
      else Some (-1))"
  by pat_completeness auto
termination
  by (relation "measure (\<lambda>(u, l, n, i). n - i)") auto

declare ns_index_loop.simps [simp del]

definition get_namespace_index_in_list :: "label_env \<Rightarrow> ns_data \<Rightarrow> bytes \<Rightarrow> int option" where
  "get_namespace_index_in_list e p_ns_data p_label = do {
     u \<leftarrow> guid_to_uid (Some (lb_uuid p_label)) (Some (uid_garbage e));
     label_uid \<leftarrow> u;
     if nsd_ns_count p_ns_data = 0 then Some (-1)
     else do {
       l \<leftarrow> nsd_ns_list p_ns_data;
       ns_index_loop label_uid l (nsd_ns_count p_ns_data) 0 } }"

function iset_id_loop :: "u64 \<Rightarrow> cookie_set list \<Rightarrow> nat \<Rightarrow> nat \<Rightarrow> int option" where
  "iset_id_loop cookie iset_list iset_count i =
     (if i < iset_count then do {
        x \<leftarrow> rd iset_list i;
        if cookie = ni_cookie_v1_1 x \<or> cookie = ni_cookie_v1_2 x then Some (uint (ni_id x))
        else iset_id_loop cookie iset_list iset_count (Suc i) }
      else Some (-1))"
  by pat_completeness auto
termination
  by (relation "measure (\<lambda>(c, l, n, i). n - i)") auto

declare iset_id_loop.simps [simp del]

definition KEEP_NS_HEALTH :: "nat \<Rightarrow> nat \<Rightarrow> nat" where
  "KEEP_NS_HEALTH health new_health = (if new_health > health then new_health else health)"

definition get_isetid_from_nslabel_cookie :: "ns_data \<Rightarrow> u64 \<Rightarrow> nat \<Rightarrow> (int \<times> nat) option" where
  "get_isetid_from_nslabel_cookie p_ns_data cookie p_ns_health = do {
     iset_id \<leftarrow> iset_id_loop cookie (nsd_iset_list p_ns_data) (nat (nsd_iset_count p_ns_data)) 0;
     Some (iset_id, if iset_id < 0 then KEEP_NS_HEALTH p_ns_health NAMESPACE_HEALTH_CRITICAL else p_ns_health) }"

definition namespace_has_abstraction_guid :: "label_env \<Rightarrow> bytes \<Rightarrow> bytes \<Rightarrow> bool option" where
  "namespace_has_abstraction_guid e ns_abstraction_guid match_guid = do {
     u \<leftarrow> guid_to_uid (Some ns_abstraction_guid) (Some (uid_garbage e));
     abstraction_uid \<leftarrow> u;
     uid_cmp abstraction_uid match_guid }"

text \<open>
  The size in blocks. \<open>block_size\<close> has 32 bits and the block size of the label 64; a division by 0 is
  undefined.
\<close>

definition label_block_size :: "bytes \<Rightarrow> u32" where
  "label_block_size p_label = (if lb_lba_size p_label \<noteq> 0 then ucast (lb_lba_size p_label) else 1)"

definition label_blocks :: "bytes \<Rightarrow> u64 option" where
  "label_blocks p_label =
     (if label_block_size p_label = 0 then None
      else Some (lb_rawsize p_label div ucast (label_block_size p_label)))"

definition label_weight :: "bytes \<Rightarrow> u32" where
  "label_weight p_label = ucast (lb_position p_label) + 1"

definition new_details :: "label_env \<Rightarrow> ns_data \<Rightarrow> bytes \<Rightarrow> nvm_namespace_details \<Rightarrow> nvm_namespace_details option" where
  "new_details e p_ns_data p_label p_ns_details = do {
     u \<leftarrow> guid_to_uid (Some (lb_uuid p_label)) (Some (namespace_uid (ns_discovery p_ns_details)));
     uid \<leftarrow> u;
     (n, _) \<leftarrow> s_strcpy (Some (friendly_name (ns_discovery p_ns_details))) (Some (drop 16 p_label)) NS_NAME_LEN;
     name \<leftarrow> n;
     blocks \<leftarrow> label_blocks p_label;
     (iset_id, health) \<leftarrow> get_isetid_from_nslabel_cookie p_ns_data (lb_iset_cookie p_label) NAMESPACE_HEALTH_NORMAL;
     btt \<leftarrow> namespace_has_abstraction_guid e (lb_abstraction_guid p_label) NS_BTT_GUID;
     pfn \<leftarrow> namespace_has_abstraction_guid e (lb_abstraction_guid p_label) NS_PFN_GUID;
     Some (p_ns_details
       \<lparr>ns_discovery := \<lparr>namespace_uid = uid, friendly_name = name\<rparr>,
        ns_health := health, ns_type := NAMESPACE_TYPE_APP_DIRECT,
        ns_enabled := NAMESPACE_ENABLE_STATE_ENABLED,
        ns_block_size := label_block_size p_label, ns_block_count := blocks,
        ns_creation_id := word_of_int iset_id, ns_btt := btt,
        ns_memory_page_allocation :=
          (if pfn then NAMESPACE_MEMORY_PAGE_ALLOCATION_APP_DIRECT
           else ns_memory_page_allocation p_ns_details),
        ns_nlabels := lb_nlabel p_label, ns_label_sum := label_weight p_label\<rparr>) }"

definition add_label :: "bytes \<Rightarrow> nvm_namespace_details \<Rightarrow> nvm_namespace_details option" where
  "add_label p_label p_ns_details = do {
     blocks \<leftarrow> label_blocks p_label;
     Some (p_ns_details
       \<lparr>ns_block_size := label_block_size p_label,
        ns_block_count := ns_block_count p_ns_details + blocks,
        ns_label_sum := ns_label_sum p_ns_details + label_weight p_label\<rparr>) }"

text \<open>A failing \<open>realloc\<close> loses the list that was there, its count stays.\<close>

definition init_namespace_from_label :: "label_env \<Rightarrow> nat \<Rightarrow> ns_data \<Rightarrow> bytes \<Rightarrow> (int \<times> ns_data) option" where
  "init_namespace_from_label e addr p_ns_data p_label = do {
     valid \<leftarrow> is_valid_label e addr p_label;
     if valid then do {
       ns_index \<leftarrow> get_namespace_index_in_list e p_ns_data p_label;
       if ns_index < 0 then
         if \<not> lb_alloc e (nsd_ns_count p_ns_data + 1)
         then Some (NVM_ERR_NOMEMORY, p_ns_data\<lparr>nsd_ns_list := None\<rparr>)
         else do {
           x \<leftarrow> new_details e p_ns_data p_label (fresh_details e (nsd_ns_count p_ns_data));
           let old = (case nsd_ns_list p_ns_data of None \<Rightarrow> [] | Some l \<Rightarrow> l);
           Some (NVM_SUCCESS, p_ns_data\<lparr>nsd_ns_list := Some (old @ [x]), nsd_ns_count := nsd_ns_count p_ns_data + 1\<rparr>) }
       else do {
         l \<leftarrow> nsd_ns_list p_ns_data;
         x \<leftarrow> rd l (nat ns_index);
         x' \<leftarrow> add_label p_label x;
         l' \<leftarrow> wr l (nat ns_index) x';
         Some (NVM_SUCCESS, p_ns_data\<lparr>nsd_ns_list := Some l'\<rparr>) } }
     else Some (NVM_SUCCESS, p_ns_data) }"

text \<open>A label of version 1.1 as one of version 1.2.\<close>

definition convert_label :: "label_env \<Rightarrow> bytes \<Rightarrow> bytes option" where
  "convert_label e l1 = do {
     l \<leftarrow> wr_bytes (replicate LABEL_V1_2_SIZE 0) 0 l1;
     l' \<leftarrow>
       (if \<not> NS_FLAGS_LOCAL (lb_flags l1) then do {
          g \<leftarrow> str_to_guid (Some spa_range_pm_region_guid_str) (Some (replicate 16 0));
          pm \<leftarrow> g;
          wr_bytes l LB_TYPE_GUID pm }
        else Some l);
     (_, d, _) \<leftarrow> checksum_fletcher64 (label_addr e) (Some l') LABEL_V1_2_SIZE (Some (In_Data LB_CHECKSUM)) True;
     d }"

definition parse_slot :: "label_env \<Rightarrow> bytes \<Rightarrow> bytes \<Rightarrow> nat \<Rightarrow> ns_data \<Rightarrow> (int \<times> ns_data) option" where
  "parse_slot e labels ns_index i p_ns_data =
     (if ix_major ns_index = 1 \<and> ix_minor ns_index = 1 then do {
        l1 \<leftarrow> rd_bytes labels (i * LABEL_V1_1_SIZE) LABEL_SIZE;
        label \<leftarrow> convert_label e l1;
        init_namespace_from_label e (label_addr e) p_ns_data label }
      else if ix_major ns_index = 1 \<and> ix_minor ns_index = 2 then do {
        label \<leftarrow> rd_bytes labels (i * LABEL_V1_2_SIZE) LABEL_V1_2_SIZE;
        init_namespace_from_label e (lsa_addr e + 512 + i * LABEL_V1_2_SIZE) p_ns_data label }
      else Some (NVM_SUCCESS, p_ns_data))"

function parse_slots_loop :: "label_env \<Rightarrow> bytes \<Rightarrow> bytes \<Rightarrow> nat \<Rightarrow> nat \<Rightarrow> ns_data \<Rightarrow> (int \<times> ns_data) option" where
  "parse_slots_loop e labels ns_index nlabel i p_ns_data =
     (if i < nlabel then do {
        free \<leftarrow> is_slot_free (ix_free ns_index) i;
        (rc, p') \<leftarrow> (if \<not> free then parse_slot e labels ns_index i p_ns_data else Some (NVM_SUCCESS, p_ns_data));
        if rc \<noteq> NVM_SUCCESS then Some (rc, p')
        else parse_slots_loop e labels ns_index nlabel (Suc i) p' }
      else Some (NVM_SUCCESS, p_ns_data))"
  by pat_completeness auto
termination
  by (relation "measure (\<lambda>(e, ls, x, n, i, p). n - i)") auto

declare parse_slots_loop.simps [simp del]

definition parse_dimm_ns_labels :: "label_env \<Rightarrow> ns_data \<Rightarrow> nat \<Rightarrow> (int \<times> ns_data) option" where
  "parse_dimm_ns_labels e p_ns_data dimm_index = do {
     dimm_lsa \<leftarrow> rd (nsd_dimm_nslsa_list p_ns_data) dimm_index;
     index_to_use \<leftarrow> choose_index_block (lsa_addr e) dimm_lsa;
     if index_to_use \<noteq> 0 then do {
       let ns_index = (if index_to_use = 1 then lsa_index1 dimm_lsa else lsa_index2 dimm_lsa);
       parse_slots_loop e (lsa_labels dimm_lsa) ns_index (unat (ix_nlabel ns_index)) 0 p_ns_data }
     else Some (NVM_SUCCESS, p_ns_data) }"

text \<open>The product is an \<open>int\<close>: beyond its range the behaviour is undefined.\<close>

definition is_namespace_complete :: "nvm_namespace_details \<Rightarrow> bool option" where
  "is_namespace_complete p_ns =
     (let n = unat (ns_nlabels p_ns) in
      if n * (n + 1) \<ge> 2 ^ 31 then None
      else Some (ns_label_sum p_ns = of_nat (n * (n + 1) div 2)))"

end
