(* ===== verification/Namespace_Labels_Facts.thy ===== *)
theory Namespace_Labels_Facts
  imports Namespace_Labels
begin

text \<open>
  The index blocks of \<open>lib/namespace_labels.c\<close>: what makes one valid and which of the two is used.
\<close>

section \<open>Index blocks\<close>

definition index_ok :: "bytes \<Rightarrow> nat \<Rightarrow> bool" where
  "index_ok x pos \<longleftrightarrow>
     fld x 64 8 = fletcher64 (fletcher_words x 256 (In_Data 64)) \<and> take 16 x = NS_INDEX_SIGNATURE \<and>
     ix_major x = 1 \<and> ix_minor x \<le> 2 \<and> ix_my_offset x = of_nat (pos * 256) \<and> ix_my_size x = 256 \<and>
     ix_other_offset x = (if pos = 0 then 256 else 0) \<and> ix_sequence x \<noteq> 0 \<and> unat (ix_nlabel x) \<le> 1020"

lemma length_index_signature: "length NS_INDEX_SIGNATURE = 16"
  by (simp add: NS_INDEX_SIGNATURE_def c_literal_def)

lemma is_valid_index_block_eq:
  assumes "length x = 256" and "addr mod 4 = 0"
  shows "is_valid_index_block addr x pos = Some (index_ok x pos)"
proof -
  have c: "checksum_fletcher64 addr (Some x) 256 (Some (In_Data 64)) False =
      Some (fld x 64 8 = fletcher64 (fletcher_words x 256 (In_Data 64)), Some x, Some (In_Data 64))"
    using assms by (intro checksum_verify_in) (auto simp: place_ok_def)
  obtain r where r: "s_strncmp (Some NS_INDEX_SIGNATURE) (Some x) 16 = Some r"
    using strncmp_gen_eq [of 16 NS_INDEX_SIGNATURE x id] assms length_index_signature
    by (auto simp: s_strncmp_def)
  have r0: "r = 0 \<longleftrightarrow> take 16 x = NS_INDEX_SIGNATURE"
    using s_strncmp_eq_0 [of 16 NS_INDEX_SIGNATURE x] assms r length_index_signature by auto
  show ?thesis
    by (simp add: is_valid_index_block_def index_ok_def c r r0 NS_INDEX_LEN_def IX_CHECKSUM_def
        NS_INDEX_SIG_LEN_def NS_INDEX_MAJOR_def NS_INDEX_MINOR_def MAX_NS_LABELS_def not_le not_less)
qed

lemma choose_index_block_eq:
  assumes "length a = 130048" and "addr mod 4 = 0"
  shows "choose_index_block addr a =
    (let x1 = lsa_index1 a; x2 = lsa_index2 a; s = sint (ix_sequence x1 + ix_sequence x2) in
     Some (if index_ok x1 0 \<and> index_ok x2 1 then
             if ix_sequence x1 = ix_sequence x2 then 2
             else if s = 3 \<or> s = 5 then (if ix_sequence x1 > ix_sequence x2 then 1 else 2)
             else if ix_sequence x1 < ix_sequence x2 then 1 else 2
           else if index_ok x1 0 then 1 else if index_ok x2 1 then 2 else 0))"
proof -
  have l: "length (lsa_index1 a) = 256" "length (lsa_index2 a) = 256"
    using assms by (simp_all add: lsa_index1_def lsa_index2_def)
  have v1: "is_valid_index_block addr (lsa_index1 a) 0 = Some (index_ok (lsa_index1 a) 0)"
    by (rule is_valid_index_block_eq) (use assms l in auto)
  have v2: "is_valid_index_block (addr + 256) (lsa_index2 a) (Suc 0) = Some (index_ok (lsa_index2 a) 1)"
    using is_valid_index_block_eq [OF l(2), of "addr + 256" 1] assms(2) by (simp add: mod_add_eq [symmetric, of addr])
  have o: "ix_other_offset (lsa_index1 a) > ix_my_offset (lsa_index1 a)" if "index_ok (lsa_index1 a) 0"
    using that by (simp add: index_ok_def)
  show ?thesis using o
    by (simp add: choose_index_block_def v1 v2 NS_INDEX_LEN_def Let_def)
qed

text \<open>
  Two index blocks for the examples: one label of version 1.2, in use.
\<close>

definition example_index1 :: bytes where
  "example_index1 =
     [78, 65, 77, 69, 83, 80, 65, 67, 69, 95, 73, 78, 68, 69, 88, 0, 0, 0, 0, 0, 1, 0, 0, 0, 0, 0, 0,
      0, 0, 0, 0, 0, 0, 1, 0, 0, 0, 0, 0, 0, 0, 1, 0, 0, 0, 0, 0, 0, 0, 0, 0, 0, 0, 0, 0, 0, 1, 0, 0,
      0, 1, 0, 2, 0, 28, 56, 50, 215, 223, 23, 147, 235, 254, 255, 255, 255, 255, 255, 255, 255, 255,
      255, 255, 255, 255, 255, 255, 255, 255, 255, 255, 255, 255, 255, 255, 255, 255, 255, 255, 255,
      255, 255, 255, 255, 255, 255, 255, 255, 255, 255, 255, 255, 255, 255, 255, 255, 255, 255, 255,
      255, 255, 255, 255, 255, 255, 255, 255, 255, 255, 255, 255, 255, 255, 255, 255, 255, 0, 0, 0, 0,
      0, 0, 0, 0, 0, 0, 0, 0, 0, 0, 0, 0, 0, 0, 0, 0, 0, 0, 0, 0, 0, 0, 0, 0, 0, 0, 0, 0, 0, 0, 0, 0,
      0, 0, 0, 0, 0, 0, 0, 0, 0, 0, 0, 0, 0, 0, 0, 0, 0, 0, 0, 0, 0, 0, 0, 0, 0, 0, 0, 0, 0, 0, 0, 0,
      0, 0, 0, 0, 0, 0, 0, 0, 0, 0, 0, 0, 0, 0, 0, 0, 0, 0, 0, 0, 0, 0, 0, 0, 0, 0, 0, 0, 0, 0, 0, 0,
      0, 0, 0, 0, 0, 0, 0, 0, 0, 0, 0, 0, 0, 0, 0, 0, 0, 0, 0, 0]"

definition example_index2 :: bytes where
  "example_index2 =
     [78, 65, 77, 69, 83, 80, 65, 67, 69, 95, 73, 78, 68, 69, 88, 0, 0, 0, 0, 0, 3, 0, 0, 0, 0, 1, 0,
      0, 0, 0, 0, 0, 0, 1, 0, 0, 0, 0, 0, 0, 0, 0, 0, 0, 0, 0, 0, 0, 0, 0, 0, 0, 0, 0, 0, 0, 1, 0, 0,
      0, 1, 0, 2, 0, 30, 56, 50, 215, 85, 28, 147, 235, 254, 255, 255, 255, 255, 255, 255, 255, 255,
      255, 255, 255, 255, 255, 255, 255, 255, 255, 255, 255, 255, 255, 255, 255, 255, 255, 255, 255,
      255, 255, 255, 255, 255, 255, 255, 255, 255, 255, 255, 255, 255, 255, 255, 255, 255, 255, 255,
      255, 255, 255, 255, 255, 255, 255, 255, 255, 255, 255, 255, 255, 255, 255, 255, 255, 0, 0, 0, 0,
      0, 0, 0, 0, 0, 0, 0, 0, 0, 0, 0, 0, 0, 0, 0, 0, 0, 0, 0, 0, 0, 0, 0, 0, 0, 0, 0, 0, 0, 0, 0, 0,
      0, 0, 0, 0, 0, 0, 0, 0, 0, 0, 0, 0, 0, 0, 0, 0, 0, 0, 0, 0, 0, 0, 0, 0, 0, 0, 0, 0, 0, 0, 0, 0,
      0, 0, 0, 0, 0, 0, 0, 0, 0, 0, 0, 0, 0, 0, 0, 0, 0, 0, 0, 0, 0, 0, 0, 0, 0, 0, 0, 0, 0, 0, 0, 0,
      0, 0, 0, 0, 0, 0, 0, 0, 0, 0, 0, 0, 0, 0, 0, 0, 0, 0, 0, 0]"

lemmas example_simps = ix_sequence_def ix_major_def ix_minor_def ix_my_offset_def ix_my_size_def
  ix_other_offset_def ix_nlabel_def fld_def le_nat.simps

lemma upto_64: "[0 ..< 64] = [0, 1, 2, 3, 4, 5, 6, 7, 8, 9, 10, 11, 12, 13, 14, 15, 16, 17, 18, 19, 20, 21, 22, 23, 24, 25, 26, 27, 28, 29, 30, 31,
    32, 33, 34, 35, 36, 37, 38, 39, 40, 41, 42, 43, 44, 45, 46, 47, 48, 49, 50, 51, 52, 53, 54, 55, 56, 57, 58, 59, 60, 61, 62, 63 :: nat]"
  by code_simp

lemma example_fletcher1:
  "fletcher64 (fletcher_words example_index1 256 (In_Data 64)) = fld example_index1 64 8"
  by (simp add: fletcher_words_def example_index1_def masked_def upto_64 fld_def fletcher64_def)

lemma example_index1: "length example_index1 = 256" "index_ok example_index1 0" "ix_sequence example_index1 = 1"
proof -
  show "length example_index1 = 256" by (simp add: example_index1_def)
  show "index_ok example_index1 0"
    unfolding index_ok_def example_fletcher1
    by (simp add: example_simps example_index1_def NS_INDEX_SIGNATURE_def c_literal_def)
  show "ix_sequence example_index1 = 1" by (simp add: example_simps example_index1_def)
qed

lemma example_fletcher2:
  "fletcher64 (fletcher_words example_index2 256 (In_Data 64)) = fld example_index2 64 8"
  by (simp add: fletcher_words_def example_index2_def masked_def upto_64 fld_def fletcher64_def)

lemma example_index2: "length example_index2 = 256" "index_ok example_index2 1" "ix_sequence example_index2 = 3"
proof -
  show "length example_index2 = 256" by (simp add: example_index2_def)
  show "index_ok example_index2 1"
    unfolding index_ok_def example_fletcher2
    by (simp add: example_simps example_index2_def NS_INDEX_SIGNATURE_def c_literal_def)
  show "ix_sequence example_index2 = 3" by (simp add: example_simps example_index2_def)
qed

text \<open>
  C34: The index block in use. When both blocks are valid and their sequence numbers are among
  the three that writers cycle through, the block chosen is the one written last: the first block exactly
  when its number is the successor of the second's in 1, 2, 3, 1; else the second, also when the numbers are
  equal. When one block is valid it is chosen, and without a valid block there is no namespace (0).
\<close>

theorem choose_index_block_newest:
  assumes "length a = 130048" and "addr mod 4 = 0"
    and "is_valid_index_block addr (lsa_index1 a) 0 = Some v1"
    and "is_valid_index_block (addr + 256) (lsa_index2 a) 1 = Some v2"
    and "s1 = unat (ix_sequence (lsa_index1 a))" and "s2 = unat (ix_sequence (lsa_index2 a))"
    and "v1 \<and> v2 \<Longrightarrow> s1 \<le> 3 \<and> s2 \<le> 3"
  shows "choose_index_block addr a =
    Some (if v1 \<and> v2 then (if s1 = s2 mod 3 + 1 then 1 else 2)
          else if v1 then 1 else if v2 then 2 else 0)"
proof -
  have l: "length (lsa_index1 a) = 256" "length (lsa_index2 a) = 256"
    using assms(1) by (simp_all add: lsa_index1_def lsa_index2_def)
  have v1: "v1 = index_ok (lsa_index1 a) 0"
    using assms(3) is_valid_index_block_eq [OF l(1) assms(2), of 0] by simp
  have v2: "v2 = index_ok (lsa_index2 a) 1"
    using assms(2,4) is_valid_index_block_eq [OF l(2), of "addr + 256" 1] by (simp add: mod_add_eq [symmetric, of addr])
  have cyc: "(if q1 = q2 then 2
      else if sint (q1 + q2) = 3 \<or> sint (q1 + q2) = 5 then (if q1 > q2 then 1 else 2)
      else if q1 < q2 then 1 else 2) = (if unat q1 = unat q2 mod 3 + 1 then 1 else (2 :: int))"
    if "q1 \<in> {1, 2, 3}" "q2 \<in> {1, 2, 3}" for q1 q2 :: u32
    using that by auto
  have seq: "q \<in> {1, 2, 3}" if "q \<noteq> 0" "unat q \<le> 3" for q :: u32
  proof -
    have "unat q = 1 \<or> unat q = 2 \<or> unat q = 3" using that by (auto simp: unat_eq_0 [symmetric])
    then show ?thesis by (auto simp: word_unat_eq_iff)
  qed
  show ?thesis
  proof (cases "v1 \<and> v2")
    case True
    then have "ix_sequence (lsa_index1 a) \<in> {1, 2, 3}" "ix_sequence (lsa_index2 a) \<in> {1, 2, 3}"
      using assms(5-7) v1 v2 seq [of "ix_sequence (lsa_index1 a)"] seq [of "ix_sequence (lsa_index2 a)"]
      by (simp_all add: index_ok_def del: insert_iff)
    from cyc [OF this] show ?thesis
      using True choose_index_block_eq [OF assms(1,2)] v1 v2 assms(5,6) by (simp add: Let_def)
  next
    case False
    then show ?thesis
      using choose_index_block_eq [OF assms(1,2)] v1 v2 by (auto simp: Let_def)
  qed
qed

theorem choose_index_block_newest_witness:
  "choose_index_block 0 (example_index1 @ example_index2 @ replicate 129536 0) = Some 1"
proof -
  let ?a = "example_index1 @ example_index2 @ replicate 129536 0"
  have x: "lsa_index1 ?a = example_index1" "lsa_index2 ?a = example_index2"
    using example_index1(1) example_index2(1) by (simp_all add: lsa_index1_def lsa_index2_def)
  have "is_valid_index_block 0 example_index1 0 = Some True" "is_valid_index_block (0 + 256) example_index2 1 = Some True"
    using is_valid_index_block_eq [OF example_index1(1), of 0 0] example_index1(2)
      is_valid_index_block_eq [OF example_index2(1), of 256 1] example_index2(2) by simp_all
  then show ?thesis
    using choose_index_block_newest [of ?a 0 True True 1 3] x example_index1 example_index2 by simp
qed

end
