(* ===== verification/Pcd_Facts.thy ===== *)
theory Pcd_Facts
  imports Table_Walk Pcd_Tables
begin

text \<open>
  What the checks and the readers of \<open>Pcd_Tables\<close> compute. The loops over extension tables are
  instances of the interface \<open>table_loop\<close>; a PCD is described by its sub-tables and these by their
  extension tables.
\<close>

section \<open>Extension tables\<close>

definition ext_type :: "bytes \<Rightarrow> u16" where "ext_type b = fld b 0 2"

text \<open>An extension table carries its length and is large enough for the structure of its type.\<close>

definition wf_pcd_ext :: "bytes \<Rightarrow> bool" where
  "wf_pcd_ext b \<longleftrightarrow> 4 < length b \<and> length b < 65536 \<and> fld b 2 2 = (word_of_nat (length b) :: u16) \<and>
     (ext_type b = PARTITION_CHANGE_TABLE \<longrightarrow> 16 \<le> length b) \<and>
     (ext_type b = INTERLEAVE_TABLE \<longrightarrow> 24 + 48 * unat (b ! 6) \<le> length b)"

lemma wf_pcd_ext_length: "wf_pcd_ext b \<Longrightarrow> unat (fld b 2 2 :: u16) = length b"
  by (auto simp: wf_pcd_ext_def unsigned_of_nat take_bit_nat_eq_self)

lemma wf_pcd_ext_header:
  assumes "drop off m = b @ r" and "wf_pcd_ext b"
  shows "rd16 m off = Some (ext_type b)" and "rd16 m (Suc (Suc off)) = Some (fld b 2 2)"
  using rd16_at [OF assms(1), of 0] rd16_at [OF assms(1), of 2] assms(2)
  by (auto simp: wf_pcd_ext_def ext_type_def)

definition print_visit :: "bytes \<Rightarrow> unit \<Rightarrow> unit \<times> bool" where
  "print_visit b s = ((), ext_type b = PARTITION_CHANGE_TABLE \<or> ext_type b = INTERLEAVE_TABLE)"

interpretation print_walk:
  table_loop "\<lambda>m base limit off (s::unit). print_extension_tables m base limit off" print_visit wf_pcd_ext
proof (unfold_locales, goal_cases)
  case (1 m base limit s)
  then show ?case by (subst print_extension_tables.simps) simp
next
  case (2 base off m b r limit s)
  note h = wf_pcd_ext_header [OF 2(1,2)]
  have lim: "off < limit" using 2(2,3) by (simp add: wf_pcd_ext_def)
  have len: "unat (fld b 2 2 :: u16) = length b" by (rule wf_pcd_ext_length [OF 2(2)])
  have lb: "0 < length b" using 2(2) by (auto simp: wf_pcd_ext_def)
  have d: "drop (base + off + INTERLEAVE_TABLE_SIZE) m = drop 24 b @ r" if "24 \<le> length b"
    using drop_append_at [of "base + off" m "take 24 b" "drop 24 b @ r"] 2(1) that
    by (simp add: INTERLEAVE_TABLE_SIZE_def)
  have p: "rd_bytes m (base + off) PARTITION_TABLE_SIZE = Some (take 16 b)"
    if "ext_type b = PARTITION_CHANGE_TABLE"
    using rd_bytes_at [OF 2(1), of 16] 2(2) that lb by (simp add: wf_pcd_ext_def PARTITION_TABLE_SIZE_def)
  have i: "rd_bytes m (base + off) 14 = Some (take 14 b)" "24 + 48 * unat (b ! 6) \<le> length b"
    if "ext_type b = INTERLEAVE_TABLE"
    using rd_bytes_at [OF 2(1), of 14] 2(2) that lb by (auto simp: wf_pcd_ext_def)
  have e: "rd_bytes m (base + off + INTERLEAVE_TABLE_SIZE) (DIMM_INFO_SIZE * unat (b ! 6)) =
      Some (take (48 * unat (b ! 6)) (drop 24 b))"
    if "ext_type b = INTERLEAVE_TABLE" "b ! 6 \<noteq> 0"
  proof -
    have "0 < unat (b ! 6)" using that(2) by (simp add: unat_gt_0)
    then show ?thesis using rd_bytes_at [OF d, of "48 * unat (b ! 6)"] i(2) [OF that(1)]
      by (simp add: DIMM_INFO_SIZE_def)
  qed
  show ?case
    unfolding print_extension_tables.simps [of m base limit off]
    using h lim len p i e by (auto simp: print_visit_def)
qed

definition list_visit :: "bytes \<Rightarrow> bool \<Rightarrow> bool \<times> bool" where
  "list_visit b s = (s, True)"

interpretation list_walk: table_loop extension_list_loop list_visit wf_pcd_ext
proof (unfold_locales, goal_cases)
  case (1 m base limit s)
  then show ?case by (simp add: extension_list_loop.simps)
next
  case (2 base off m b r limit s)
  note h = wf_pcd_ext_header [OF 2(1,2)]
  have "unat (fld b 2 2 :: u16) = length b" by (rule wf_pcd_ext_length [OF 2(2)])
  then show ?case
    using h 2(2,3) by (simp add: extension_list_loop.simps [of m base limit off] list_visit_def
        wf_pcd_ext_def EXT_HEADER_SIZE_def)
qed

definition ext_error :: "bytes \<Rightarrow> config_error" where
  "ext_error b =
     (if ext_type b = PARTITION_CHANGE_TABLE then partition_status_error (fld b 4 4)
      else if ext_type b = INTERLEAVE_TABLE then interleave_status_error (b ! 13)
      else CONFIG_ERROR_NOTFOUND)"

definition error_visit :: "bytes \<Rightarrow> config_error \<Rightarrow> config_error \<times> bool" where
  "error_visit b s = (if s = CONFIG_ERROR_NOTFOUND then (ext_error b, ext_error b = CONFIG_ERROR_NOTFOUND)
                      else (s, False))"

interpretation error_walk: table_loop config_error_loop error_visit wf_pcd_ext
proof (unfold_locales, goal_cases)
  case (1 m base limit s)
  then show ?case by (simp add: config_error_loop.simps)
next
  case (2 base off m b r limit s)
  note h = wf_pcd_ext_header [OF 2(1,2)]
  have len: "unat (fld b 2 2 :: u16) = length b" by (rule wf_pcd_ext_length [OF 2(2)])
  have p: "rd32 m (base + off + 4) = Some (fld b 4 4)" if "ext_type b = PARTITION_CHANGE_TABLE"
    using rd32_at [OF 2(1), of 4] 2(2) that by (simp add: wf_pcd_ext_def)
  have i: "rd m (base + off + 13) = Some (b ! 13)" if "ext_type b = INTERLEAVE_TABLE"
    using rd_at [OF 2(1), of 13] 2(2) that by (simp add: wf_pcd_ext_def)
  have stop: "config_error_loop m base limit o' e = Some e" if "e \<noteq> CONFIG_ERROR_NOTFOUND" for o' e
    using that by (simp add: config_error_loop.simps [of m base limit o' e])
  show ?case
    using h len p i 2(2,3) stop
    by (auto simp: config_error_loop.simps [of m base limit off s] error_visit_def wf_pcd_ext_def
        EXT_HEADER_SIZE_def ext_error_def)
qed

definition index_visit :: "bytes \<Rightarrow> int \<times> u32 \<Rightarrow> (int \<times> u32) \<times> bool" where
  "index_visit b s =
     (if fst s = NVM_SUCCESS
      then ((fst s, if ext_type b = INTERLEAVE_TABLE \<and> snd s < ucast (fld b 4 2 :: u16)
                    then ucast (fld b 4 2 :: u16) else snd s), True)
      else (s, False))"

interpretation index_walk: table_loop max_index_loop index_visit wf_pcd_ext
proof (unfold_locales, goal_cases)
  case (1 m base limit s)
  then show ?case by (simp add: max_index_loop.simps)
next
  case (2 base off m b r limit s)
  note h = wf_pcd_ext_header [OF 2(1,2)]
  have len: "unat (fld b 2 2 :: u16) = length b" by (rule wf_pcd_ext_length [OF 2(2)])
  have nz: "(fld b 2 2 :: u16) \<noteq> 0" using len 2(2) by (auto simp: wf_pcd_ext_def)
  have i: "rd16 m (base + off + 4) = Some (fld b 4 2)" if "ext_type b = INTERLEAVE_TABLE"
    using rd16_at [OF 2(1), of 4] 2(2) that by (simp add: wf_pcd_ext_def)
  show ?case
    using h len i nz 2(2,3)
    by (cases s) (auto simp: max_index_loop.simps [of m base limit off] index_visit_def wf_pcd_ext_def)
qed

section \<open>Walks as list functions\<close>

lemma walk_list: "walk list_visit bs s = s"
  by (induction bs) (auto simp: list_visit_def)

definition first_error :: "bytes list \<Rightarrow> config_error" where
  "first_error bs =
     (case filter (\<lambda>e. e \<noteq> CONFIG_ERROR_NOTFOUND) (map ext_error bs) of
        [] \<Rightarrow> CONFIG_ERROR_NOTFOUND
      | e # _ \<Rightarrow> e)"

lemma walk_error: "walk error_visit bs CONFIG_ERROR_NOTFOUND = first_error bs"
  by (induction bs) (auto simp: error_visit_def first_error_def)

definition set_indices :: "bytes list \<Rightarrow> u32 list" where
  "set_indices bs = map (\<lambda>b. ucast (fld b 4 2 :: u16)) (filter (\<lambda>b. ext_type b = INTERLEAVE_TABLE) bs)"

lemma walk_index: "walk index_visit bs (NVM_SUCCESS, x) = (NVM_SUCCESS, foldl max x (set_indices bs))"
  by (induction bs arbitrary: x) (auto simp: index_visit_def set_indices_def max_def)

section \<open>Sub-tables\<close>

text \<open>A sub-table of a PCD: its fixed part of \<open>n\<close> bytes, and extension tables.\<close>

definition wf_sub_table :: "bytes \<Rightarrow> nat \<Rightarrow> bytes \<Rightarrow> bytes list \<Rightarrow> bool" where
  "wf_sub_table sig n h es \<longleftrightarrow>
     length h = n \<and> header_length h 0 = Some (length (h @ concat es)) \<and> sum_list (h @ concat es) = 0 \<and>
     take 4 h = sig \<and> (\<forall>e \<in> set es. wf_pcd_ext e)"

lemma header_length_at:
  assumes "drop p m = h @ r" and "8 \<le> length h"
  shows "header_length m p = header_length h 0"
proof -
  have "rd32 m (p + 4) = Some (fld h 4 4)" using rd32_at [OF assms(1), of 4] assms(2) by simp
  moreover have "rd32 h (0 + 4) = Some (fld h 4 4)" using rd32_at [of 0 h h "[]" 4] assms(2) by simp
  ultimately show ?thesis by (simp add: header_length_def)
qed

lemma print_config_table_ok:
  assumes "drop p m = h @ concat es @ r" and "wf_sub_table sig n h es" and "36 \<le> n" and "k \<le> n"
  shows "print_config_table m p k n = Some ()"
proof -
  have h: "length h = n" "\<forall>e \<in> set es. wf_pcd_ext e" using assms(2) by (auto simp: wf_sub_table_def)
  have "0 < length h" using h(1) assms(3) by linarith
  then have "rd_bytes m p k = Some (take k h)"
    using rd_bytes_at [OF assms(1), of k] h(1) assms(4) by simp
  moreover have "header_length m p = Some (n + length (concat es))"
    using header_length_at [OF assms(1)] assms(2,3) by (simp add: wf_sub_table_def)
  moreover have "print_extension_tables m (p + n) (length (concat es)) 0 = Some ()"
  proof -
    have "drop (p + n + 0) m = concat es @ r" using drop_append_at [OF assms(1)] h(1) by simp
    from print_walk.loop_tables [OF this h(2)] show ?thesis by simp
  qed
  ultimately show ?thesis by (simp add: print_config_table_def)
qed

lemma config_header_ok:
  assumes "drop p m = t @ r" and "36 \<le> length h" and "t = h @ x" and "header_length h 0 = Some n"
    and "n \<le> length t" and "sum_list t = 0" and "take 4 h = sig"
  shows "is_config_data_table_header_valid m p (length t) sig = Some True"
proof -
  have d: "drop p m = h @ (x @ r)" using assms(1,3) by simp
  have "header_length m p = Some n" using header_length_at [OF d] assms(2,4) by simp
  moreover have "verify_checksum (drop p m) (length t) = Some True"
    using verify_checksum_eq [of "length t" "drop p m"] assms(1,6) by simp
  moreover have "take 4 (drop p m) = sig" using d assms(2,7) by simp
  moreover have "strncmp0_loop sig (sig @ [0]) 4 0 = Some True"
  proof -
    have "length sig = 4" using assms(2,7) by auto
    then show ?thesis
      using strncmp0_loop_eq [of 0 sig 4 "sig @ [0]"] by (simp add: readable_def cstr_take [symmetric])
  qed
  ultimately show ?thesis using assms(5) by (simp add: is_config_data_table_header_valid_def)
qed

lemma sub_table_ok:
  assumes "drop p m = h @ concat es @ r" and "wf_sub_table sig n h es" and "36 \<le> n"
    and "print m p = Some ()"
  shows "is_sub_table_valid print n sig m (Some p) (length (h @ concat es)) = Some True"
proof -
  let ?t = "h @ concat es"
  have h: "length h = n" "\<forall>e \<in> set es. wf_pcd_ext e" "header_length h 0 = Some (length ?t)"
    "sum_list ?t = 0" "take 4 h = sig"
    using assms(2) by (auto simp: wf_sub_table_def)
  have d: "drop p m = ?t @ r" using assms(1) by simp
  have hl: "header_length m p = Some (length ?t)"
    using header_length_at [OF assms(1)] h(1,3) assms(3) by simp
  have v: "is_config_data_table_header_valid m p (length ?t) sig = Some True"
    by (rule config_header_ok [OF d _ refl h(3) _ h(4,5)]) (use h(1) assms(3) in auto)
  have e: "is_extension_table_list_valid m (p + n) (length (concat es)) = Some True"
  proof -
    have "drop (p + n + 0) m = concat es @ r" using drop_append_at [OF assms(1)] h(1) by simp
    from list_walk.loop_tables [OF this h(2), of _ True] show ?thesis
      by (simp add: is_extension_table_list_valid_def walk_list)
  qed
  have "length ?t - n = length (concat es)" "n \<le> length ?t" using h(1) by simp_all
  then show ?thesis
    using hl v e assms(4) by (simp add: is_sub_table_valid_def del: length_append)
qed

section \<open>The image of a PCD\<close>

text \<open>The bytes that \<open>build_platform_config_data\<close> puts into the header: checksum, and the size and
  offset of each sub-table.\<close>

definition pcd_ids :: "u8 \<Rightarrow> bytes" where
  "pcd_ids c =
     PLATFORM_CONFIG_TABLE_SIGNATURE @ le_bytes 4 60 @ [1, c] @ [73, 78, 84, 69, 76, 32] @
     [80, 85, 82, 76, 69, 89, 32, 32] @ le_bytes 4 2 @ [73, 78, 84, 76] @ le_bytes 4 0"

definition pcd_hdr :: "u8 \<Rightarrow> nat \<Rightarrow> nat \<Rightarrow> nat \<Rightarrow> nat \<Rightarrow> nat \<Rightarrow> nat \<Rightarrow> bytes" where
  "pcd_hdr c s1 o1 s2 o2 s3 o3 =
     pcd_ids c @ le_bytes 4 s1 @ le_bytes 4 o1 @ le_bytes 4 s2 @ le_bytes 4 o2 @
     le_bytes 4 s3 @ le_bytes 4 o3"

lemma length_signature [simp]: "length PLATFORM_CONFIG_TABLE_SIGNATURE = 4"
  by (simp add: PLATFORM_CONFIG_TABLE_SIGNATURE_def)

lemma length_pcd_ids [simp]: "length (pcd_ids c) = 36"
  by (simp add: pcd_ids_def)

lemma length_pcd_hdr [simp]: "length (pcd_hdr c s1 o1 s2 o2 s3 o3) = 60"
  by (simp add: pcd_hdr_def)

lemma pcd_ids_parts:
  "take 4 (pcd_ids c) = PLATFORM_CONFIG_TABLE_SIGNATURE"
  "drop 4 (pcd_ids c) = le_bytes 4 60 @ drop 8 (pcd_ids c)"
  "(pcd_ids c)[9 := d] = pcd_ids d"
proof -
  show "take 4 (pcd_ids c) = PLATFORM_CONFIG_TABLE_SIGNATURE"
    "drop 4 (pcd_ids c) = le_bytes 4 60 @ drop 8 (pcd_ids c)"
    by (simp_all add: pcd_ids_def)
  have e: "pcd_ids x = (PLATFORM_CONFIG_TABLE_SIGNATURE @ le_bytes 4 60 @ [1]) @ x # [73, 78, 84, 69, 76, 32] @
      [80, 85, 82, 76, 69, 89, 32, 32] @ le_bytes 4 2 @ [73, 78, 84, 76] @ le_bytes 4 0" for x
    by (simp add: pcd_ids_def)
  show "(pcd_ids c)[9 := d] = pcd_ids d"
    unfolding e by (rule list_update_append_middle) simp
qed

lemma rd32_le: "drop off m = le_bytes 4 n @ r \<Longrightarrow> n < 2 ^ 32 \<Longrightarrow> rd32 m off = Some (word_of_nat n)"
proof -
  assume a: "drop off m = le_bytes 4 n @ r" "n < 2 ^ 32"
  have "rd32 m (off + 0) = Some (fld (le_bytes 4 n) 0 4)" by (rule rd32_at [OF a(1)]) simp
  then show ?thesis using a(2) by (simp add: fld_def)
qed

lemma wr32_le: "wr32 m off (word_of_nat n) = wr_bytes m off (le_bytes 4 n)" if "n < 2 ^ 32"
proof -
  have "unat (word_of_nat n :: u32) = n" using that by (simp add: unsigned_of_nat take_bit_nat_eq_self)
  then show ?thesis by (simp add: wr32_def)
qed

lemma place_sub_table_eq:
  assumes "m = a @ le_bytes 4 0 @ le_bytes 4 0 @ c @ body @ z" and "length a = sf"
    and "sf + 8 + length c + length body = off" and "t = take n (the p_table)" and "length t = n"
    and "n \<noteq> 0 \<Longrightarrow> p_table \<noteq> None" and "n \<le> length z" and "n < 2 ^ 32" and "off < 2 ^ 32"
  shows "place_sub_table m sf p_table n off =
     Some (NVM_SUCCESS, a @ le_bytes 4 n @ le_bytes 4 (if n = 0 then 0 else off) @ c @ body @ t @ drop n z,
           off + n)"
proof (cases "n = 0")
  case True
  then show ?thesis using assms by (simp add: place_sub_table_def)
next
  case False
  obtain src where src: "p_table = Some src" using assms(6) False by blast
  have w1: "wr32 m (sf + 4) (word_of_nat off) =
      Some (a @ le_bytes 4 0 @ le_bytes 4 off @ c @ body @ z)"
    unfolding wr32_le [OF assms(9)] using assms(1,2)
    by (subst wr_bytes_at [where a = "a @ le_bytes 4 0" and b = "le_bytes 4 0" and c = "c @ body @ z"]) auto
  let ?m2 = "a @ le_bytes 4 n @ le_bytes 4 off @ c @ body @ z"
  have w2: "wr32 (a @ le_bytes 4 0 @ le_bytes 4 off @ c @ body @ z) sf (word_of_nat n) = Some ?m2"
    unfolding wr32_le [OF assms(8)] using assms(2) by (intro wr_bytes_at) auto
  have r1: "rd32 ?m2 sf = Some (word_of_nat n)"
    by (rule rd32_le [OF _ assms(8)]) (use assms(2) in simp)
  have r2: "rd32 ?m2 (sf + 4) = Some (word_of_nat off)"
    by (rule rd32_le [OF _ assms(9)]) (use assms(2) in simp)
  have u: "unat (word_of_nat off :: u32) = off" "unat (word_of_nat n :: u32) = n"
    using assms(8,9) by (simp_all add: unsigned_of_nat take_bit_nat_eq_self)
  have nz: "(word_of_nat n :: u32) > 0" using u(2) False by (metis unsigned_0 word_gt_0)
  have ls: "n \<le> length src" using assms(4,5) src by simp
  have rb: "rd_bytes src 0 n = Some t" using ls assms(4) src by (simp add: rd_bytes_def)
  have w3: "wr_bytes ?m2 off t = Some (a @ le_bytes 4 n @ le_bytes 4 off @ c @ body @ t @ drop n z)"
    by (subst wr_bytes_at [where a = "a @ le_bytes 4 n @ le_bytes 4 off @ c @ body" and b = "take n z"
          and c = "drop n z"]) (use assms(2,3,5,7) in auto)
  show ?thesis
    using w1 w2 r1 r2 u nz rb w3 False src
    by (simp add: place_sub_table_def cast_sub_table_def)
qed

lemma wr_wr_bytes: "wr xs i v = wr_bytes xs i [v]"
  by (auto simp: wr_def wr_bytes_def upd_conv_take_nth_drop)

lemma le_bytes_0 [simp]: "le_bytes n 0 = replicate n 0"
  by (induction n) auto

lemma pcd_header_writes:
  assumes "m0 = replicate DEV_PLT_CFG_OEM_PARTITION_SIZE 0"
  shows "(do {
       m1 \<leftarrow> wr32 m0 4 (word_of_nat PCD_SIZE);
       m2 \<leftarrow> wr_bytes m1 0 PLATFORM_CONFIG_TABLE_SIGNATURE;
       m3 \<leftarrow> wr m2 8 1;
       m4 \<leftarrow> wr_bytes m3 10 [73, 78, 84, 69, 76, 32];
       m5 \<leftarrow> wr_bytes m4 16 [80, 85, 82, 76, 69, 89, 32, 32];
       m6 \<leftarrow> wr32 m5 24 2;
       m7 \<leftarrow> wr_bytes m6 28 [73, 78, 84, 76];
       m8 \<leftarrow> wr32 m7 32 0;
       f m8 }) = f (pcd_hdr 0 0 0 0 0 0 0 @ replicate 65476 0)"
proof -
  have m0: "m0 = replicate 60 0 @ replicate 65476 0"
    unfolding assms by (simp add: DEV_PLT_CFG_OEM_PARTITION_SIZE_def replicate_add [symmetric])
  have c: "wr32 m off 2 = wr_bytes m off (le_bytes 4 2)" "wr32 m off 0 = wr_bytes m off (le_bytes 4 0)"
    "wr32 m off (word_of_nat PCD_SIZE) = wr_bytes m off (le_bytes 4 60)" for m off
    using wr32_le [of 2 m off] wr32_le [of 0 m off] wr32_le [of 60 m off] by (simp_all add: PCD_SIZE_def)
  have z: "replicate 24 0 = le_bytes 4 0 @ le_bytes 4 0 @ le_bytes 4 0 @ le_bytes 4 0 @ le_bytes 4 0 @
      le_bytes 4 0"
    by (simp only: le_bytes_0 replicate_add [symmetric]) simp
  show ?thesis
    unfolding m0 c wr_wr_bytes
    by (simp add: wr_bytes_def pcd_hdr_def pcd_ids_def z del: le_bytes_0 le_bytes.simps)
qed

section \<open>Building and checking\<close>

text \<open>An optional sub-table and its bytes.\<close>

type_synonym part = "(bytes \<times> bytes list) option"

definition part_bytes :: "part \<Rightarrow> bytes" where
  "part_bytes p = (case p of None \<Rightarrow> [] | Some (h, es) \<Rightarrow> h @ concat es)"

definition wf_part :: "bytes \<Rightarrow> nat \<Rightarrow> part \<Rightarrow> bool" where
  "wf_part sig n p = (case p of None \<Rightarrow> True | Some (h, es) \<Rightarrow> wf_sub_table sig n h es)"

definition part_arg :: "part \<Rightarrow> bytes option" where
  "part_arg p = map_option (\<lambda>(h, es). h @ concat es) p"

lemma wf_part_sum: "wf_part sig n p \<Longrightarrow> sum_list (part_bytes p) = 0"
  by (auto simp: wf_part_def part_bytes_def wf_sub_table_def split: option.splits)

lemma wf_part_length:
  "wf_part sig n p \<Longrightarrow> 8 \<le> n \<Longrightarrow>
   (case part_arg p of None \<Rightarrow> Some 0 | Some t \<Rightarrow> header_length t 0) = Some (length (part_bytes p))"
  using header_length_at [of 0 "fst (the p) @ concat (snd (the p))" "fst (the p)" "concat (snd (the p))"]
  by (auto simp: wf_part_def part_bytes_def wf_sub_table_def part_arg_def split: option.splits)

lemma check_part:
  assumes "rd32 m sf = Some (word_of_nat (length (part_bytes p)))"
    and "part_bytes p \<noteq> [] \<Longrightarrow> rd32 m (sf + 4) = Some (word_of_nat off) \<and> drop off m = part_bytes p @ r"
    and "wf_part sig n p" and "36 \<le> n" and "k \<le> n"
    and "off < 2 ^ 32" and "length (part_bytes p) < 2 ^ 32"
  shows "(do {
     sz \<leftarrow> rd32 m sf;
     if sz > 0 then do {
       q \<leftarrow> cast_sub_table m sf;
       ok \<leftarrow> is_sub_table_valid (\<lambda>m p. print_config_table m p k n) n sig m q (unat sz);
       Some (if ok then NVM_SUCCESS else NVM_ERR_BADDEVICECONFIG) }
     else Some NVM_SUCCESS }) = Some NVM_SUCCESS"
proof (cases "part_bytes p = []")
  case True
  then show ?thesis using assms(1) by simp
next
  case False
  then obtain h es where p: "p = Some (h, es)" by (auto simp: part_bytes_def split: option.splits)
  have b: "part_bytes p = h @ concat es" by (simp add: p part_bytes_def)
  have w: "wf_sub_table sig n h es" using assms(3) by (simp add: p wf_part_def)
  have r: "rd32 m (sf + 4) = Some (word_of_nat off)" "drop off m = h @ concat es @ r"
    using assms(2) [OF False] b by auto
  have u: "unat (word_of_nat off :: u32) = off"
    "unat (word_of_nat (length (part_bytes p)) :: u32) = length (part_bytes p)"
    using assms(6,7) by (simp_all add: unsigned_of_nat take_bit_nat_eq_self)
  have nz: "(word_of_nat (length (part_bytes p)) :: u32) > 0"
    using u(2) False by (metis length_0_conv unsigned_0 word_gt_0)
  have c: "cast_sub_table m sf = Some (Some off)" using assms(1) r(1) nz u(1) by (simp add: cast_sub_table_def)
  have v: "is_sub_table_valid (\<lambda>m p. print_config_table m p k n) n sig m (Some off) (length (part_bytes p)) =
      Some True"
    unfolding b 
    by (rule sub_table_ok [where print = "\<lambda>m p. print_config_table m p k n", OF r(2) w assms(4)
          print_config_table_ok [OF r(2) w assms(4,5)]])
  show ?thesis using assms(1) c nz v u(2) by simp
qed

lemma print_pcd_eq:
  "print_pcd_current = (\<lambda>m p. print_config_table m p 56 56)"
  "print_pcd_input = (\<lambda>m p. print_config_table m p 40 48)"
  "print_pcd_output = (\<lambda>m p. print_config_table m p 41 48)"
  by (auto simp: fun_eq_iff print_pcd_current_def print_pcd_input_def print_pcd_output_def pcd_sizes)


text \<open>The PCD that is built from three sub-tables: an absent one has size and offset 0.\<close>

definition pcd_offset :: "bytes \<Rightarrow> nat \<Rightarrow> nat" where
  "pcd_offset t off = (if t = [] then 0 else off)"

definition pcd_image :: "u8 \<Rightarrow> bytes \<Rightarrow> bytes \<Rightarrow> bytes \<Rightarrow> bytes \<Rightarrow> bytes" where
  "pcd_image c t1 t2 t3 z =
     pcd_hdr c (length t1) (pcd_offset t1 60) (length t2) (pcd_offset t2 (60 + length t1))
       (length t3) (pcd_offset t3 (60 + length t1 + length t2)) @
     t1 @ t2 @ t3 @ z"

text \<open>The rest of the OEM partition.\<close>

definition pcd_fill :: "bytes \<Rightarrow> bytes \<Rightarrow> bytes \<Rightarrow> bytes" where
  "pcd_fill t1 t2 t3 = replicate (65476 - length (t1 @ t2 @ t3)) 0"

lemma pcd_image_facts:
  "(pcd_image c t1 t2 t3 z)[9 := d] = pcd_image d t1 t2 t3 z"
  "header_length (pcd_image c t1 t2 t3 z) 0 = Some 60"
  "60 \<le> length (pcd_image c t1 t2 t3 z)"
  "take 4 (pcd_image c t1 t2 t3 z) = PLATFORM_CONFIG_TABLE_SIGNATURE"
proof -
  show "(pcd_image c t1 t2 t3 z)[9 := d] = pcd_image d t1 t2 t3 z"
    by (simp add: pcd_image_def pcd_hdr_def list_update_append pcd_ids_parts)
  show "60 \<le> length (pcd_image c t1 t2 t3 z)" by (simp add: pcd_image_def)
  show "take 4 (pcd_image c t1 t2 t3 z) = PLATFORM_CONFIG_TABLE_SIGNATURE"
    by (simp add: pcd_image_def pcd_hdr_def pcd_ids_parts)
  have "drop 4 (pcd_image c t1 t2 t3 z) = le_bytes 4 60 @ drop 8 (pcd_image c t1 t2 t3 z)"
    by (simp add: pcd_image_def pcd_hdr_def pcd_ids_parts)
  from rd32_le [OF this] show "header_length (pcd_image c t1 t2 t3 z) 0 = Some 60"
    by (simp add: header_length_def)
qed

lemma part_arg_bytes: "part_bytes p \<noteq> [] \<Longrightarrow> part_arg p = Some (part_bytes p)"
  by (auto simp: part_bytes_def part_arg_def split: option.splits)

lemma place_part:
  assumes "m = a @ le_bytes 4 0 @ le_bytes 4 0 @ c @ body @ z" and "length a = sf"
    and "sf + 8 + length c + length body = off"
    and "length (part_bytes p) \<le> length z" and "length (part_bytes p) < 2 ^ 32" and "off < 2 ^ 32"
  shows "place_sub_table m sf (part_arg p) (length (part_bytes p)) off =
     Some (NVM_SUCCESS,
           a @ le_bytes 4 (length (part_bytes p)) @ le_bytes 4 (pcd_offset (part_bytes p) off) @ c @ body @
             part_bytes p @ drop (length (part_bytes p)) z,
           off + length (part_bytes p))"
proof (cases "part_bytes p = []")
  case True
  then show ?thesis using assms(1) by (simp add: place_sub_table_def pcd_offset_def)
next
  case False
  then show ?thesis
    using place_sub_table_eq [OF assms(1-3), of "part_bytes p" "length (part_bytes p)" "part_arg p"]
      part_arg_bytes [OF False] assms(4-6) by (simp add: pcd_offset_def)
qed

lemma build_eq:
  assumes "wf_part CURRENT_CONFIG_TABLE_SIGNATURE CURRENT_CONFIG_SIZE cur"
    and "wf_part CONFIG_INPUT_TABLE_SIGNATURE CONFIG_INPUT_SIZE inp"
    and "wf_part CONFIG_OUTPUT_TABLE_SIGNATURE CONFIG_OUTPUT_SIZE out"
    and "length (part_bytes cur @ part_bytes inp @ part_bytes out) \<le> 65476"
    and "alloc DEV_PLT_CFG_OEM_PARTITION_SIZE"
  shows "\<exists>c. sum_list (take 60 (pcd_image c (part_bytes cur) (part_bytes inp) (part_bytes out)
        (pcd_fill (part_bytes cur) (part_bytes inp) (part_bytes out)))) = 0 \<and>
    build_platform_config_data alloc (part_arg cur) (part_arg inp) (part_arg out) (Some Null) =
      Some (NVM_SUCCESS, Some (Valid (pcd_image c (part_bytes cur) (part_bytes inp) (part_bytes out)
        (pcd_fill (part_bytes cur) (part_bytes inp) (part_bytes out)))))"
proof -
  define t1 t2 t3 where t: "t1 = part_bytes cur" "t2 = part_bytes inp" "t3 = part_bytes out"
  have l: "length t1 + length t2 + length t3 \<le> 65476" using assms(4) by (simp add: t)
  have h: "(case part_arg cur of None \<Rightarrow> Some 0 | Some t \<Rightarrow> header_length t 0) = Some (length t1)"
    "(case part_arg inp of None \<Rightarrow> Some 0 | Some t \<Rightarrow> header_length t 0) = Some (length t2)"
    "(case part_arg out of None \<Rightarrow> Some 0 | Some t \<Rightarrow> header_length t 0) = Some (length t3)"
    using wf_part_length [OF assms(1)] wf_part_length [OF assms(2)] wf_part_length [OF assms(3)]
    by (simp_all add: t pcd_sizes)
  let ?o1 = "pcd_offset t1 60" and ?o2 = "pcd_offset t2 (60 + length t1)"
    and ?o3 = "pcd_offset t3 (60 + length t1 + length t2)"
  let ?z = "replicate 65476 (0::u8)" and ?a = "pcd_ids 0"
  let ?n1 = "le_bytes 4 (length t1) @ le_bytes 4 ?o1" and ?n2 = "le_bytes 4 (length t2) @ le_bytes 4 ?o2"
    and ?n3 = "le_bytes 4 (length t3) @ le_bytes 4 ?o3"
  let ?e = "le_bytes 4 0 @ le_bytes 4 0"
  have p1: "place_sub_table (pcd_hdr 0 0 0 0 0 0 0 @ ?z) 36 (part_arg cur) (length t1) 60 =
      Some (NVM_SUCCESS, (?a @ ?n1) @ ?e @ ?e @ t1 @ drop (length t1) ?z, 60 + length t1)"
    using place_part [of _ ?a "?e @ ?e" "[]" ?z 36 60 cur] l by (simp add: pcd_hdr_def t del: le_bytes_0)
  have p2: "place_sub_table ((?a @ ?n1) @ ?e @ ?e @ t1 @ drop (length t1) ?z) 44 (part_arg inp) (length t2)
      (60 + length t1) =
      Some (NVM_SUCCESS, (?a @ ?n1 @ ?n2) @ ?e @ t1 @ t2 @ drop (length t2) (drop (length t1) ?z),
        60 + length t1 + length t2)"
    using place_part [of _ "?a @ ?n1" ?e t1 "drop (length t1) ?z" 44 "60 + length t1" inp] l
    by (simp add: t del: le_bytes_0)
  have p3: "place_sub_table ((?a @ ?n1 @ ?n2) @ ?e @ t1 @ t2 @ drop (length t2) (drop (length t1) ?z)) 52
      (part_arg out) (length t3) (60 + length t1 + length t2) =
      Some (NVM_SUCCESS, pcd_image 0 t1 t2 t3 (pcd_fill t1 t2 t3), 60 + length t1 + length t2 + length t3)"
    using place_part [of _ "?a @ ?n1 @ ?n2" "[]" "t1 @ t2" "drop (length t2) (drop (length t1) ?z)" 52
        "60 + length t1 + length t2" out] l
    by (simp add: t pcd_image_def pcd_fill_def pcd_hdr_def ac_simps del: le_bytes_0)
  have pre: "build_platform_config_data alloc (part_arg cur) (part_arg inp) (part_arg out) (Some Null) = do {
       m12 \<leftarrow> generate_checksum (pcd_image 0 t1 t2 t3 (pcd_fill t1 t2 t3)) 60 CHECKSUM_OFFSET;
       Some (NVM_SUCCESS, Some (Valid m12)) }"
  proof -
    have "(\<not> alloc DEV_PLT_CFG_OEM_PARTITION_SIZE) = False" using assms(5) by simp
    then show ?thesis
      unfolding build_platform_config_data_def h Let_def bind.bind_lunit
      by (simp only: if_False pcd_header_writes [OF refl])
        (simp add: p1 p2 p3 pcd_image_facts PCD_SIZE_def del: append_assoc le_bytes_0 drop_replicate drop_drop)
  qed
  obtain c where g: "generate_checksum (pcd_image 0 t1 t2 t3 (pcd_fill t1 t2 t3)) 60 CHECKSUM_OFFSET = Some (pcd_image c t1 t2 t3 (pcd_fill t1 t2 t3))"
    using generate_checksum_eq [of 60 "pcd_image 0 t1 t2 t3 (pcd_fill t1 t2 t3)" CHECKSUM_OFFSET] pcd_image_facts(3) [of 0 t1 t2 t3 "pcd_fill t1 t2 t3"]
    by (simp add: CHECKSUM_OFFSET_def pcd_image_facts(1))
  have "sum_list (take 60 (pcd_image c t1 t2 t3 (pcd_fill t1 t2 t3))) = 0"
    by (rule generate_checksum_sum(1) [OF pcd_image_facts(3) _ g]) (simp add: CHECKSUM_OFFSET_def)
  then show ?thesis using pre g by (intro exI [of _ c]) (simp add: t)
qed


lemma pcd_image_fields:
  fixes c :: u8 and z :: bytes
  assumes "length (t1 @ t2 @ t3) \<le> 65476"
  defines "m \<equiv> pcd_image c t1 t2 t3 z"
  shows "rd32 m 36 = Some (word_of_nat (length t1))" "rd32 m 40 = Some (word_of_nat (pcd_offset t1 60))"
    "rd32 m 44 = Some (word_of_nat (length t2))"
    "rd32 m 48 = Some (word_of_nat (pcd_offset t2 (60 + length t1)))"
    "rd32 m 52 = Some (word_of_nat (length t3))"
    "rd32 m 56 = Some (word_of_nat (pcd_offset t3 (60 + length t1 + length t2)))"
    "drop 60 m = t1 @ t2 @ t3 @ z"
    "drop (60 + length t1) m = t2 @ t3 @ z"
    "drop (60 + length t1 + length t2) m = t3 @ z"
proof -
  have u: "m = pcd_hdr c (length t1) (pcd_offset t1 60) (length t2) (pcd_offset t2 (60 + length t1))
       (length t3) (pcd_offset t3 (60 + length t1 + length t2)) @
     t1 @ t2 @ t3 @ z"
    by (simp add: m_def pcd_image_def)
  show "drop 60 m = t1 @ t2 @ t3 @ z"
    "drop (60 + length t1) m = t2 @ t3 @ z"
    "drop (60 + length t1 + length t2) m = t3 @ z"
    unfolding u by simp_all
  have o: "pcd_offset t n \<le> n" for t n by (simp add: pcd_offset_def)
  have b: "length t1 < 2 ^ 32" "length t2 < 2 ^ 32" "length t3 < 2 ^ 32" "pcd_offset t1 60 < 2 ^ 32"
    "pcd_offset t2 (60 + length t1) < 2 ^ 32" "pcd_offset t3 (60 + length t1 + length t2) < 2 ^ 32"
    using assms(1) o [of t1 60] o [of t2 "60 + length t1"] o [of t3 "60 + length t1 + length t2"] by auto
  show "rd32 m 36 = Some (word_of_nat (length t1))"
    by (rule rd32_le [OF _ b(1)]) (simp add: u pcd_hdr_def)
  show "rd32 m 40 = Some (word_of_nat (pcd_offset t1 60))"
    by (rule rd32_le [OF _ b(4)]) (simp add: u pcd_hdr_def)
  show "rd32 m 44 = Some (word_of_nat (length t2))"
    by (rule rd32_le [OF _ b(2)]) (simp add: u pcd_hdr_def)
  show "rd32 m 48 = Some (word_of_nat (pcd_offset t2 (60 + length t1)))"
    by (rule rd32_le [OF _ b(5)]) (simp add: u pcd_hdr_def)
  show "rd32 m 52 = Some (word_of_nat (length t3))"
    by (rule rd32_le [OF _ b(3)]) (simp add: u pcd_hdr_def)
  show "rd32 m 56 = Some (word_of_nat (pcd_offset t3 (60 + length t1 + length t2)))"
    by (rule rd32_le [OF _ b(6)]) (simp add: u pcd_hdr_def)
qed

lemma table_info_ok:
  assumes "60 \<le> off" and "off < 2 ^ 32" and "length t < 2 ^ 32"
  shows "are_pcd_header_table_size_and_offset_valid (word_of_nat (length t)) (word_of_nat (pcd_offset t off))"
proof (cases "t = []")
  case True
  then show ?thesis by (simp add: are_pcd_header_table_size_and_offset_valid_def pcd_offset_def)
next
  case False
  have u: "unat (word_of_nat off :: u32) = off" "unat (word_of_nat (length t) :: u32) = length t"
    using assms(2,3) by (simp_all add: unsigned_of_nat take_bit_nat_eq_self)
  have "(word_of_nat (length t) :: u32) > 0" using u(2) False by (metis length_0_conv unsigned_0 word_gt_0)
  then show ?thesis
    using u(1) assms(1) False
    by (simp add: are_pcd_header_table_size_and_offset_valid_def pcd_offset_def PCD_SIZE_def)
qed

lemma check_image:
  fixes c :: u8 and z :: bytes
  assumes "wf_part CURRENT_CONFIG_TABLE_SIGNATURE CURRENT_CONFIG_SIZE cur"
    and "wf_part CONFIG_INPUT_TABLE_SIGNATURE CONFIG_INPUT_SIZE inp"
    and "wf_part CONFIG_OUTPUT_TABLE_SIGNATURE CONFIG_OUTPUT_SIZE out"
    and "length (part_bytes cur @ part_bytes inp @ part_bytes out) \<le> 65476"
  defines "m \<equiv> pcd_image c (part_bytes cur) (part_bytes inp) (part_bytes out) z"
  assumes "sum_list (take 60 m) = 0"
    and "n = 60 + length (part_bytes cur @ part_bytes inp @ part_bytes out)"
  shows "check_platform_config (Some m) n = Some NVM_SUCCESS"
proof -
  define t1 t2 t3 where t: "t1 = part_bytes cur" "t2 = part_bytes inp" "t3 = part_bytes out"
  note f = pcd_image_fields [OF assms(4), where c = c and z = z, folded m_def, folded t]
  have l: "length t1 + length t2 + length t3 \<le> 65476" using assms(4) by (simp add: t)
  let ?h = "take 60 m"
  have tn: "take n m = ?h @ t1 @ t2 @ t3"
    using assms(7) l pcd_image_facts(3) [of c t1 t2 t3 z]
    by (simp add: m_def pcd_image_def t)
  have "is_config_data_table_header_valid m 0 (length (?h @ t1 @ t2 @ t3)) PLATFORM_CONFIG_TABLE_SIGNATURE = Some True"
  proof (rule config_header_ok [where h = ?h and n = 60 and r = "drop n m"])
    show "drop 0 m = (?h @ t1 @ t2 @ t3) @ drop n m" by (metis append_take_drop_id drop0 tn)
    show "36 \<le> length ?h" "60 \<le> length (?h @ t1 @ t2 @ t3)"
      using pcd_image_facts(3) [of c t1 t2 t3 z] by (simp_all add: m_def t)
    show "header_length ?h 0 = Some 60"
      using pcd_image_facts(2,3) [of c t1 t2 t3 z] header_length_at [of 0 m ?h "drop 60 m"]
      by (simp add: m_def t)
    show "sum_list (?h @ t1 @ t2 @ t3) = 0"
      using assms(6) wf_part_sum [OF assms(1)] wf_part_sum [OF assms(2)] wf_part_sum [OF assms(3)]
      by (simp add: t)
    show "take 4 ?h = PLATFORM_CONFIG_TABLE_SIGNATURE"
      using pcd_image_facts(4) [of c t1 t2 t3 z] by (simp add: m_def t)
  qed simp
  moreover have "length (?h @ t1 @ t2 @ t3) = n"
    using assms(7) pcd_image_facts(3) [of c t1 t2 t3 z] by (simp add: m_def t)
  ultimately have v: "is_config_data_table_header_valid m 0 n PLATFORM_CONFIG_TABLE_SIGNATURE = Some True" by simp
  have "is_pcd_header_table_info_valid m = Some True"
    using f(1-6) table_info_ok [of 60 t1] table_info_ok [of "60 + length t1" t2]
      table_info_ok [of "60 + length t1 + length t2" t3] l
    by (simp add: is_pcd_header_table_info_valid_def is_pcd_header_current_config_info_valid_def
        is_pcd_header_config_input_info_valid_def is_pcd_header_config_output_info_valid_def)
  then have hdr: "check_platform_config_header (Some m) n = Some NVM_SUCCESS"
    using v pcd_image_facts(2,3) [of c t1 t2 t3 z]
    by (simp add: check_platform_config_header_def is_platform_config_header_valid_def print_pcd_header_def
        PCD_SIZE_def m_def t rd_bytes_in)
  have c1: "check_current_config m = Some NVM_SUCCESS"
    unfolding check_current_config_def is_current_config_table_valid_def cast_current_config_def
      print_pcd_eq CURRENT_CONFIG_SIZE_def
    by (rule check_part [where p = cur and off = 60, OF f(1) [unfolded t]])
      (use f(2,7) l assms(1) in \<open>auto simp: t pcd_offset_def CURRENT_CONFIG_SIZE_def\<close>)
  have c2: "check_config_input m = Some NVM_SUCCESS"
    unfolding check_config_input_def is_config_input_table_valid_def cast_config_input_def
      print_pcd_eq CONFIG_INPUT_SIZE_def
    by (rule check_part [where p = inp and off = "60 + length t1", OF f(3) [unfolded t]])
      (use f(4,8) l assms(2) in \<open>auto simp: t pcd_offset_def CONFIG_INPUT_SIZE_def\<close>)
  have c3: "check_config_output m = Some NVM_SUCCESS"
    unfolding check_config_output_def is_config_output_table_valid_def cast_config_output_def
      print_pcd_eq CONFIG_OUTPUT_SIZE_def
    by (rule check_part [where p = out and off = "60 + length t1 + length t2", OF f(5) [unfolded t]])
      (use f(6,9) l assms(3) in \<open>auto simp: t pcd_offset_def CONFIG_OUTPUT_SIZE_def\<close>)
  show ?thesis using hdr c1 c2 c3 by (simp add: check_platform_config_def)
qed


section \<open>Properties\<close>

text \<open>
  C2: A PCD that \<open>build_platform_config_data\<close> makes from well-formed sub-tables is the header followed
  by the sub-tables and zeros, in an OEM partition of 64 KiB, and \<open>check_platform_config\<close> accepts it,
  as a whole and cut to the size of the tables:
  the checksums, signatures, lengths, offsets and extension tables it verifies are the ones built.
\<close>

theorem build_check_platform_config:
  assumes "wf_part CURRENT_CONFIG_TABLE_SIGNATURE CURRENT_CONFIG_SIZE cur"
    and "wf_part CONFIG_INPUT_TABLE_SIGNATURE CONFIG_INPUT_SIZE inp"
    and "wf_part CONFIG_OUTPUT_TABLE_SIGNATURE CONFIG_OUTPUT_SIZE out"
    and "length (part_bytes cur @ part_bytes inp @ part_bytes out) \<le> 65476"
    and "alloc DEV_PLT_CFG_OEM_PARTITION_SIZE"
  shows "\<exists>m. build_platform_config_data alloc (part_arg cur) (part_arg inp) (part_arg out) (Some Null) =
             Some (NVM_SUCCESS, Some (Valid m)) \<and>
           length m = DEV_PLT_CFG_OEM_PARTITION_SIZE \<and>
           drop PCD_SIZE m = part_bytes cur @ part_bytes inp @ part_bytes out @
             replicate (65476 - length (part_bytes cur @ part_bytes inp @ part_bytes out)) 0 \<and>
           (\<forall>n m'. n = PCD_SIZE + length (part_bytes cur @ part_bytes inp @ part_bytes out) \<and> m' \<in> {m, take n m} \<longrightarrow>
             check_platform_config (Some m') n = Some NVM_SUCCESS)"
proof -
  define t1 t2 t3 where t: "t1 = part_bytes cur" "t2 = part_bytes inp" "t3 = part_bytes out"
  obtain c where c: "sum_list (take 60 (pcd_image c t1 t2 t3 (pcd_fill t1 t2 t3))) = 0"
    "build_platform_config_data alloc (part_arg cur) (part_arg inp) (part_arg out) (Some Null) =
      Some (NVM_SUCCESS, Some (Valid (pcd_image c t1 t2 t3 (pcd_fill t1 t2 t3))))"
    using build_eq [of cur inp out alloc] assms by (auto simp: t)
  have ok: "check_platform_config (Some (pcd_image c t1 t2 t3 z)) (60 + length (t1 @ t2 @ t3)) = Some NVM_SUCCESS" for z
    using check_image [OF assms(1-4), of c z "60 + length (t1 @ t2 @ t3)"] c(1) by (simp add: t pcd_image_def)
  have "take (60 + length (t1 @ t2 @ t3)) (pcd_image c t1 t2 t3 (pcd_fill t1 t2 t3)) = pcd_image c t1 t2 t3 []"
    by (simp add: pcd_image_def)
  moreover have "length (pcd_image c t1 t2 t3 (pcd_fill t1 t2 t3)) = 65536"
    using assms(4) by (simp add: pcd_image_def pcd_fill_def t)
  moreover have "drop 60 (pcd_image c t1 t2 t3 (pcd_fill t1 t2 t3)) = t1 @ t2 @ t3 @ pcd_fill t1 t2 t3"
    by (simp add: pcd_image_def)
  ultimately show ?thesis
    using c(2) ok
    by (auto simp: PCD_SIZE_def DEV_PLT_CFG_OEM_PARTITION_SIZE_def pcd_fill_def t simp del: length_append)
qed

theorem build_check_platform_config_witness:
  "\<exists>m. build_platform_config_data (\<lambda>_. True)
          (part_arg (Some ([67, 67, 85, 82, 62, 0, 0, 0, 142] @ replicate 47 0, [[1, 0, 6, 0, 0, 0]])))
          (part_arg None) (part_arg None) (Some Null) = Some (NVM_SUCCESS, Some (Valid m)) \<and>
        check_platform_config (Some m) 122 = Some NVM_SUCCESS"
proof -
  have "wf_part CURRENT_CONFIG_TABLE_SIGNATURE CURRENT_CONFIG_SIZE
          (Some ([67, 67, 85, 82, 62, 0, 0, 0, 142] @ replicate 47 0, [[1, 0, 6, 0, 0, 0]]))"
    "wf_part CONFIG_INPUT_TABLE_SIGNATURE CONFIG_INPUT_SIZE None"
    "wf_part CONFIG_OUTPUT_TABLE_SIGNATURE CONFIG_OUTPUT_SIZE None"
    by (simp_all add: wf_part_def wf_sub_table_def header_length_def rd32_def rd_bytes_def wf_pcd_ext_def
        ext_type_def fld_def pcd_sizes pcd_signatures sum_list_replicate)
  from build_check_platform_config [OF this, of "\<lambda>_. True"] show ?thesis
    by (auto simp: part_bytes_def PCD_SIZE_def)
qed

text \<open>
  For a config output table whose extension tables are well formed, the error that is reported is
  the first one that a partition-change or interleave table of the list carries, and
  \<open>CONFIG_ERROR_NOTFOUND\<close> when no table carries one.
\<close>

theorem config_error_first:
  assumes "drop p m = h @ concat es @ r"
    and "wf_sub_table CONFIG_OUTPUT_TABLE_SIGNATURE CONFIG_OUTPUT_SIZE h es"
  shows "get_config_error_from_config_output m p = Some (first_error es)"
proof -
  have h: "length h = 48" "\<forall>e \<in> set es. wf_pcd_ext e" "header_length h 0 = Some (48 + length (concat es))"
    using assms(2) by (auto simp: wf_sub_table_def CONFIG_OUTPUT_SIZE_def)
  have "drop (p + 48 + 0) m = concat es @ r" using drop_append_at [OF assms(1)] h(1) by simp
  from error_walk.loop_tables [OF this h(2)] show ?thesis
    using header_length_at [OF assms(1)] h(1,3)
    by (simp add: get_config_error_from_config_output_def CONFIG_OUTPUT_SIZE_def size_sub_def walk_error)
qed

theorem config_error_first_witness:
  "get_config_error_from_config_output
     ([67, 79, 85, 84, 64, 0, 0, 0, 107] @ replicate 39 0 @ [4, 0, 16, 0, 6, 0, 0, 0] @ replicate 8 0) 0 =
   Some CONFIG_ERROR_FW"
proof -
  let ?h = "[67, 79, 85, 84, 64, 0, 0, 0, 107] @ replicate 39 0 :: bytes"
  let ?e = "[4, 0, 16, 0, 6, 0, 0, 0] @ replicate 8 0 :: bytes"
  have "wf_sub_table CONFIG_OUTPUT_TABLE_SIGNATURE CONFIG_OUTPUT_SIZE ?h [?e]"
    "first_error [?e] = CONFIG_ERROR_FW"
    by (simp_all add: wf_sub_table_def header_length_def rd32_def rd_bytes_def wf_pcd_ext_def
        ext_type_def fld_def pcd_sizes pcd_signatures sum_list_replicate first_error_def ext_error_def partition_status_error_def)
  then show ?thesis using config_error_first [of 0 "?h @ ?e" ?h "[?e]" "[]"] by simp
qed


text \<open>
  A PCD has a sub-table: the size field at \<open>sf\<close> is its length and the offset field after it locates it.
\<close>

definition pcd_part :: "bytes \<Rightarrow> nat \<Rightarrow> bytes \<Rightarrow> nat \<Rightarrow> part \<Rightarrow> bool" where
  "pcd_part m sf sig n p \<longleftrightarrow>
     wf_part sig n p \<and> length (part_bytes p) < 2 ^ 32 \<and>
     rd32 m sf = Some (word_of_nat (length (part_bytes p))) \<and>
     (part_bytes p \<noteq> [] \<longrightarrow>
       (\<exists>off r. off < 2 ^ 32 \<and> rd32 m (sf + 4) = Some (word_of_nat off) \<and> drop off m = part_bytes p @ r))"

definition part_tables :: "part \<Rightarrow> bytes list" where
  "part_tables p = (case p of None \<Rightarrow> [] | Some (h, es) \<Rightarrow> es)"

lemma max_index_of_part:
  assumes "pcd_part m sf sig n p" and "8 \<le> n"
  shows "max_index_of_table m sf n (NVM_SUCCESS, x) =
    Some (NVM_SUCCESS, foldl max x (set_indices (part_tables p)))"
proof (cases "part_bytes p = []")
  case True
  then have "part_tables p = []"
    using assms by (auto simp: pcd_part_def wf_part_def wf_sub_table_def part_bytes_def part_tables_def
        split: option.splits)
  then show ?thesis using assms True by (simp add: pcd_part_def max_index_of_table_def set_indices_def)
next
  case False
  then obtain h es where p: "p = Some (h, es)" by (auto simp: part_bytes_def split: option.splits)
  obtain off r where o: "off < 2 ^ 32" "rd32 m (sf + 4) = Some (word_of_nat off)"
    "drop off m = h @ concat es @ r"
    using assms(1) False by (auto simp: pcd_part_def part_bytes_def p)
  have w: "length h = n" "\<forall>e \<in> set es. wf_pcd_ext e" "header_length h 0 = Some (n + length (concat es))"
    "length (part_bytes p) < 2 ^ 32" "rd32 m sf = Some (word_of_nat (length (part_bytes p)))"
    using assms(1) by (auto simp: pcd_part_def wf_part_def wf_sub_table_def p)
  have u: "unat (word_of_nat off :: u32) = off"
    "unat (word_of_nat (length (part_bytes p)) :: u32) = length (part_bytes p)"
    using o(1) w(4) by (simp_all add: unsigned_of_nat take_bit_nat_eq_self)
  have nz: "(word_of_nat (length (part_bytes p)) :: u32) > 0"
    using u(2) False by (metis length_0_conv unsigned_0 word_gt_0)
  have hl: "header_length m off = Some (n + length (concat es))"
    using header_length_at [OF o(3)] w(1,3) assms(2) by simp
  have "drop (off + n + 0) m = concat es @ r" using drop_append_at [OF o(3)] w(1) by simp
  from index_walk.loop_tables [OF this w(2)]
  have "max_index_loop m (off + n) (length (concat es)) 0 (NVM_SUCCESS, x) =
      Some (NVM_SUCCESS, foldl max x (set_indices es))"
    by (simp add: walk_index)
  then show ?thesis
    using w(5) o(2) u(1) nz hl
    by (cases "concat es = []") (auto simp: max_index_of_table_def part_tables_def p max_index_loop.simps)
qed

text \<open>
  The highest interleave-set index that is found in a PCD with well-formed sub-tables is the
  maximum of the indices of all interleave tables of its config input and current config.
\<close>

theorem pcd_max_set_index_correct:
  assumes "pcd_part m 44 CONFIG_INPUT_TABLE_SIGNATURE CONFIG_INPUT_SIZE inp"
    and "pcd_part m 36 CURRENT_CONFIG_TABLE_SIGNATURE CURRENT_CONFIG_SIZE cur"
  shows "pcd_max_set_index m =
    Some (NVM_SUCCESS, Max (insert 0 (set (set_indices (part_tables inp @ part_tables cur)))))"
proof -
  have f: "foldl max x ys = Max (insert x (set ys))" for x :: u32 and ys
  proof (induction ys arbitrary: x)
    case (Cons y ys)
    have "Max (insert (max x y) A) = Max (insert x (insert y A))" if "finite A" for A
      using that by (cases "A = {}") (auto simp: max.assoc)
    with Cons show ?case by simp
  qed simp
  have a: "set_indices (xs @ ys) = set_indices xs @ set_indices ys" for xs ys
    by (simp add: set_indices_def)
  show ?thesis
    unfolding f [symmetric] a
    using max_index_of_part [OF assms(1)] max_index_of_part [OF assms(2)]
    by (simp add: pcd_max_set_index_def pcd_sizes)
qed

theorem pcd_max_set_index_correct_witness:
  "pcd_max_set_index
     (replicate 36 0 @ [86, 0, 0, 0, 60, 0, 0, 0] @ replicate 16 0 @
      [67, 67, 85, 82, 86, 0, 0, 0, 87] @ replicate 47 0 @ [5, 0, 30, 0, 3, 0] @ replicate 24 0) =
   Some (NVM_SUCCESS, 3)"
proof -
  let ?h = "[67, 67, 85, 82, 86, 0, 0, 0, 87] @ replicate 47 0 :: bytes"
  let ?e = "[5, 0, 30, 0, 3, 0] @ replicate 24 0 :: bytes"
  let ?m = "replicate 36 0 @ [86, 0, 0, 0, 60, 0, 0, 0] @ replicate 16 0 @ ?h @ ?e"
  have "wf_part CURRENT_CONFIG_TABLE_SIGNATURE CURRENT_CONFIG_SIZE (Some (?h, [?e]))"
    by (simp add: wf_part_def wf_sub_table_def header_length_def rd32_def rd_bytes_def wf_pcd_ext_def
        ext_type_def fld_def pcd_sizes pcd_signatures sum_list_replicate)
  then have c: "pcd_part ?m 36 CURRENT_CONFIG_TABLE_SIGNATURE CURRENT_CONFIG_SIZE (Some (?h, [?e]))"
    unfolding pcd_part_def
    by (intro conjI impI exI [of _ 60] exI [of _ "[]"])
      (simp_all add: part_bytes_def rd32_def rd_bytes_def)
  have i: "pcd_part ?m 44 CONFIG_INPUT_TABLE_SIGNATURE CONFIG_INPUT_SIZE None"
    by (simp add: pcd_part_def wf_part_def part_bytes_def rd32_def rd_bytes_def)
  show ?thesis
    using pcd_max_set_index_correct [OF i c]
    by (simp add: part_tables_def set_indices_def ext_type_def fld_def)
qed

lemma print_zero_length:
  assumes "print_extension_tables m base n off = Some y"
    and "off < n" and "rd16 m (base + off) = Some PARTITION_CHANGE_TABLE" and "rd16 m (base + off + 2) = Some 0"
  shows False
proof -
  have "off < n \<longrightarrow> rd16 m (base + off) = Some PARTITION_CHANGE_TABLE \<longrightarrow> rd16 m (base + off + 2) = Some 0 \<longrightarrow> False"
    using assms(1)
    by (rule print_extension_tables.raw_induct [rotated])
      (auto split: if_splits option.splits)
  then show False using assms(2-4) by blast
qed

text \<open>
  A current config table whose first extension table is a partition-change table of length 0 lies
  wholly inside the buffer, and the check of its extension tables would refuse it, but the validation
  does not return: the log loop in front of the check never advances.
\<close>

theorem zero_length_table_hangs:
  assumes "header_length m p = Some n" and "CURRENT_CONFIG_SIZE < n" and "p + n \<le> length m"
    and "p + CURRENT_CONFIG_SIZE + PARTITION_TABLE_SIZE \<le> length m"
    and "rd16 m (p + CURRENT_CONFIG_SIZE) = Some PARTITION_CHANGE_TABLE"
    and "rd16 m (p + CURRENT_CONFIG_SIZE + 2) = Some 0"
  shows "is_extension_table_list_valid m (p + CURRENT_CONFIG_SIZE) (n - CURRENT_CONFIG_SIZE) = Some False \<and>
         is_current_config_table_valid m (Some p) n = None"
proof -
  have v: "is_extension_table_list_valid m (p + CURRENT_CONFIG_SIZE) (n - CURRENT_CONFIG_SIZE) = Some False"
    using assms(2,5,6)
    by (simp add: is_extension_table_list_valid_def extension_list_loop.simps EXT_HEADER_SIZE_def)
  have "print_extension_tables m (p + CURRENT_CONFIG_SIZE) (n - CURRENT_CONFIG_SIZE) 0 = None"
    using print_zero_length [of m "p + CURRENT_CONFIG_SIZE" "n - CURRENT_CONFIG_SIZE" 0] assms(2,5,6)
    by (cases "print_extension_tables m (p + CURRENT_CONFIG_SIZE) (n - CURRENT_CONFIG_SIZE) 0") auto
  then have "print_pcd_current m p = None"
    using assms(1,2) by (cases "rd_bytes m p CURRENT_CONFIG_SIZE")
      (simp_all add: print_pcd_current_def print_config_table_def)
  then show ?thesis
    using v assms(1,2) by (simp add: is_current_config_table_valid_def is_sub_table_valid_def)
qed

theorem zero_length_table_hangs_witness:
  "is_current_config_table_valid
     ([67, 67, 85, 82, 72, 0, 0, 0] @ replicate 48 0 @ [4, 0, 0, 0] @ replicate 12 0) (Some 0) 72 = None"
  using zero_length_table_hangs
    [of "[67, 67, 85, 82, 72, 0, 0, 0] @ replicate 48 0 @ [4, 0, 0, 0] @ replicate 12 0" 0 72]
  by (simp add: header_length_def rd32_def rd16_def rd_bytes_def pcd_sizes)

end
