(* ===== verification/Pcd_Device.thy ===== *)
theory Pcd_Device
  imports Pcd_Facts Context_Cache Device_Utilities
begin

text \<open>
  The PCD of a device: reading it through the mailbox of the DIMM, caching it in the library context,
  writing it back, and the readers that use it (second half of \<open>lib/platform_config_data.c\<close>). The pass-through commands \<open>PT_GET_ADMIN_FEATURES\<close> and
  \<open>PT_SET_ADMIN_FEATURES\<close> for the OS partition are parameters: \<open>pt_get d handle offset\<close> gives the
  result code, the payload of 128 bytes and the new state of the device, \<open>pt_set\<close> writes 64 bytes.
  \<open>devices\<close> is what \<open>nvm_get_device_count\<close> and \<open>nvm_get_devices\<close> return. The build reads PCDs by small
  payloads (\<open>__GET_LARGE_PCD_OS_PARTITION__\<close> is 0).
\<close>

section \<open>Reading the partition\<close>

definition DEV_SMALL_PAYLOAD_SIZE :: nat where "DEV_SMALL_PAYLOAD_SIZE = 128"
definition DEV_PLT_CFG_SMALL_PAYLOAD_WRITE_SIZE :: nat where
  "DEV_PLT_CFG_SMALL_PAYLOAD_WRITE_SIZE = 64"

record 'd mailbox =
  pt_get :: "'d \<Rightarrow> u32 \<Rightarrow> nat \<Rightarrow> int \<times> bytes \<times> 'd"
  pt_set :: "'d \<Rightarrow> u32 \<Rightarrow> nat \<Rightarrow> bytes \<Rightarrow> int \<times> 'd"

text \<open>The sum of the sizes of the header and the sub-tables, in 32 bits.\<close>

definition pcd_total_size :: "bytes \<Rightarrow> nat option" where
  "pcd_total_size m = do {
     len \<leftarrow> rd32 m 4; inp \<leftarrow> rd32 m 44; cur \<leftarrow> rd32 m 36; out \<leftarrow> rd32 m 52;
     Some (unat (len + inp + cur + out)) }"

definition get_pcd_table_size :: "'d mailbox \<Rightarrow> u32 \<Rightarrow> 'd \<Rightarrow> (int \<times> nat \<times> 'd) option" where
  "get_pcd_table_size mb handle d =
     (case pt_get mb d handle 0 of (rc, out_buf, d') \<Rightarrow>
        if rc = NVM_SUCCESS then do {
          pcd_size \<leftarrow> pcd_total_size out_buf;
          Some (rc, pcd_size, d') }
        else Some (rc, 0, d'))"

function read_pcd_loop ::
    "'d mailbox \<Rightarrow> u32 \<Rightarrow> nat \<Rightarrow> bytes \<Rightarrow> nat \<Rightarrow> 'd \<Rightarrow> (int \<times> bytes \<times> 'd) option" where
  "read_pcd_loop mb handle pcd_size m offset d =
     (if offset < pcd_size then
        if offset > DEV_PLT_CFG_OEM_PARTITION_SIZE - DEV_SMALL_PAYLOAD_SIZE
        then Some (NVM_ERR_UNKNOWN, m, d)
        else (case pt_get mb d handle offset of (rc, out_buf, d') \<Rightarrow>
          if rc = NVM_SUCCESS then do {
            raw \<leftarrow> rd_bytes out_buf 0
              (if offset + DEV_SMALL_PAYLOAD_SIZE > pcd_size then pcd_size - offset
               else DEV_SMALL_PAYLOAD_SIZE);
            m' \<leftarrow> wr_bytes m offset raw;
            read_pcd_loop mb handle pcd_size m' (offset + DEV_SMALL_PAYLOAD_SIZE) d' }
          else Some (rc, m, d'))
      else Some (NVM_SUCCESS, m, d))"
  by pat_completeness auto
termination
  by (relation "measure (\<lambda>(mb, h, n, m, offset, d). n - offset)") (auto simp: DEV_SMALL_PAYLOAD_SIZE_def)

declare read_pcd_loop.simps [simp del]

definition free_ptr :: "'a ptr \<Rightarrow> 'a ptr option" where
  "free_ptr p = (case p of Null \<Rightarrow> Some Null | Dangling \<Rightarrow> None | Valid _ \<Rightarrow> Some Dangling)"

definition deref :: "'a ptr \<Rightarrow> 'a option option" where
  "deref p = (case p of Null \<Rightarrow> Some None | Dangling \<Rightarrow> None | Valid x \<Rightarrow> Some (Some x))"

text \<open>
  The pointer of the caller is freed when an error is returned, but it keeps its value; a PCD that is
  read and does not pass the check is not freed.
\<close>

definition get_hw_dimm_platform_config_alloc ::
    "(nat \<Rightarrow> bool) \<Rightarrow> 'd mailbox \<Rightarrow> u32 \<Rightarrow> nat \<Rightarrow> bytes ptr \<Rightarrow> 'd \<Rightarrow>
     (int \<times> nat \<times> bytes ptr \<times> 'd) option" where
  "get_hw_dimm_platform_config_alloc alloc mb handle p_pcd_size pp_config d = do {
     (rc, tmp_pcd_size, d1) \<leftarrow> get_pcd_table_size mb handle d;
     (rc2, size2, pp2, d2) \<leftarrow>
       (if rc \<noteq> NVM_SUCCESS then Some (rc, p_pcd_size, pp_config, d1)
        else if tmp_pcd_size = 0 then do {
          (rcb, pp) \<leftarrow> build_platform_config_data alloc None None None (Some pp_config);
          p \<leftarrow> pp;
          Some (rcb, PCD_SIZE, p, d1) }
        else if tmp_pcd_size < PCD_SIZE \<or> tmp_pcd_size > DEV_PLT_CFG_OEM_PARTITION_SIZE
        then Some (NVM_ERR_UNKNOWN, p_pcd_size, pp_config, d1)
        else if alloc tmp_pcd_size then do {
          (rcr, m, dr) \<leftarrow> read_pcd_loop mb handle tmp_pcd_size (replicate tmp_pcd_size 0) 0 d1;
          Some (rcr, tmp_pcd_size, Valid m, dr) }
        else Some (NVM_ERR_NOMEMORY, p_pcd_size, Null, d1));
     if rc2 = NVM_SUCCESS then do {
       m \<leftarrow> deref pp2;
       rcc \<leftarrow> check_platform_config m size2;
       Some (rcc, size2, pp2, d2) }
     else do {
       pp3 \<leftarrow> free_ptr pp2;
       Some (rc2, size2, pp3, d2) } }"

section \<open>The cached PCD\<close>

definition get_dimm_platform_config ::
    "context_env \<Rightarrow> (nat \<Rightarrow> bool) \<Rightarrow> 'd mailbox \<Rightarrow> int \<times> device_discovery list option \<Rightarrow> u32 \<Rightarrow>
     bytes ptr \<Rightarrow> process \<times> 'd \<Rightarrow> (int \<times> bytes ptr \<times> process \<times> 'd) option" where
  "get_dimm_platform_config e alloc mb devices handle pp_config st =
     (case st of (s, d) \<Rightarrow> do {
        (rc, discovery) \<leftarrow> lookup_dev_handle devices handle;
        (rc1, pp1, s1, d1) \<leftarrow>
          (if rc = NVM_SUCCESS then do {
             x \<leftarrow> discovery;
             (rcc, pp, size1) \<leftarrow> get_nvm_context_device_pcd e (disc_uid x) s (pp_config, 0);
             if rcc \<noteq> NVM_SUCCESS then do {
               (rch, pcd_size, pph, dh) \<leftarrow> get_hw_dimm_platform_config_alloc alloc mb handle size1 pp d;
               m \<leftarrow> (if rch = NVM_SUCCESS then deref pph else Some None);
               (case m of
                  Some b \<Rightarrow> do {
                    (_, s') \<leftarrow> set_nvm_context_device_pcd e (disc_uid x) b pcd_size s;
                    Some (rch, pph, s', dh) }
                | None \<Rightarrow> Some (rch, pph, s, dh)) }
             else Some (rc, pp, s, d) }
           else Some (rc, pp_config, s, d));
        Some (if pp1 = Null then NVM_ERR_BADDEVICECONFIG else rc1, pp1, s1, d1) })"

text \<open>The write loop copies whole blocks of 64 bytes, past the end of a PCD that is not a multiple.\<close>

function write_pcd_loop ::
    "'d mailbox \<Rightarrow> u32 \<Rightarrow> nat \<Rightarrow> bytes \<Rightarrow> nat \<Rightarrow> 'd \<Rightarrow> (int \<times> 'd) option" where
  "write_pcd_loop mb handle pcd_size m offset d =
     (if offset < pcd_size then
        if offset > DEV_PLT_CFG_OEM_PARTITION_SIZE - DEV_PLT_CFG_SMALL_PAYLOAD_WRITE_SIZE
        then Some (NVM_ERR_UNKNOWN, d)
        else do {
          raw \<leftarrow> rd_bytes m offset DEV_PLT_CFG_SMALL_PAYLOAD_WRITE_SIZE;
          (case pt_set mb d handle offset raw of (rc, d') \<Rightarrow>
             if rc = NVM_SUCCESS
             then write_pcd_loop mb handle pcd_size m (offset + DEV_PLT_CFG_SMALL_PAYLOAD_WRITE_SIZE) d'
             else Some (rc, d')) }
      else Some (NVM_SUCCESS, d))"
  by pat_completeness auto
termination
  by (relation "measure (\<lambda>(mb, h, n, m, offset, d). n - offset)")
    (auto simp: DEV_PLT_CFG_SMALL_PAYLOAD_WRITE_SIZE_def)

declare write_pcd_loop.simps [simp del]

definition set_dimm_platform_config ::
    "context_env \<Rightarrow> 'd mailbox \<Rightarrow> int \<times> device_discovery list option \<Rightarrow> u32 \<Rightarrow> bytes \<Rightarrow>
     process \<times> 'd \<Rightarrow> (int \<times> process \<times> 'd) option" where
  "set_dimm_platform_config e mb devices handle p_config st =
     (case st of (s, d) \<Rightarrow> do {
        pcd_size \<leftarrow> pcd_total_size p_config;
        if DEV_PLT_CFG_OEM_PARTITION_SIZE < pcd_size then Some (NVM_ERR_BADSIZE, s, d)
        else do {
          (rc, d') \<leftarrow> write_pcd_loop mb handle pcd_size p_config 0 d;
          if rc = NVM_SUCCESS then do {
            (rcl, discovery) \<leftarrow> lookup_dev_handle devices handle;
            if rcl = NVM_SUCCESS then do {
              x \<leftarrow> discovery;
              (_, s') \<leftarrow> invalidate_device_pcd e (disc_uid x) s;
              Some (rcl, s', d') }
            else Some (rcl, s, d') }
          else Some (rc, s, d') } })"

section \<open>Users of the PCD\<close>

definition get_next_config_input_sequence_number ::
    "context_env \<Rightarrow> (nat \<Rightarrow> bool) \<Rightarrow> 'd mailbox \<Rightarrow> int \<times> device_discovery list option \<Rightarrow>
     device_discovery \<Rightarrow> process \<times> 'd \<Rightarrow> (int \<times> u32 option \<times> process \<times> 'd) option" where
  "get_next_config_input_sequence_number e alloc mb devices p_discovery st = do {
     (rc, p_config, st') \<leftarrow>
       get_dimm_platform_config e alloc mb devices (disc_handle p_discovery) Null st;
     if rc = NVM_SUCCESS then do {
       m \<leftarrow> deref p_config;
       b \<leftarrow> m;
       n \<leftarrow> get_last_config_output_sequence_number b;
       _ \<leftarrow> free_ptr p_config;
       Some (rc, Some (n + 1), st') }
     else Some (rc, None, st') }"

definition get_dimm_interleave_info_max_set_index ::
    "context_env \<Rightarrow> (nat \<Rightarrow> bool) \<Rightarrow> 'd mailbox \<Rightarrow> int \<times> device_discovery list option \<Rightarrow>
     bytes option \<Rightarrow> process \<times> 'd \<Rightarrow> (int \<times> u32 option \<times> process \<times> 'd) option" where
  "get_dimm_interleave_info_max_set_index e alloc mb devices device_uid st =
     (if device_uid = None then Some (NVM_ERR_INVALIDPARAMETER, None, st)
      else do {
        (rc, discovery) \<leftarrow> exists_and_manageable devices device_uid True;
        if rc = NVM_SUCCESS then do {
          x \<leftarrow> discovery;
          (rc1, p_config, st') \<leftarrow> get_dimm_platform_config e alloc mb devices (disc_handle x) Null st;
          (rc2, idx) \<leftarrow>
            (if rc1 = NVM_SUCCESS then do {
               m \<leftarrow> deref p_config;
               b \<leftarrow> m;
               pcd_max_set_index b }
             else Some (rc1, 0));
          _ \<leftarrow> free_ptr p_config;
          Some (rc2, Some idx, st') }
        else Some (rc, None, st) })"

definition get_interleave_settings_from_platform_config_data ::
    "context_env \<Rightarrow> (nat \<Rightarrow> bool) \<Rightarrow> 'd mailbox \<Rightarrow> int \<times> device_discovery list option \<Rightarrow>
     u32 \<Rightarrow> u64 \<Rightarrow> process \<times> 'd \<Rightarrow> (int \<times> (u16 \<times> u8 \<times> u32) option \<times> process \<times> 'd) option" where
  "get_interleave_settings_from_platform_config_data e alloc mb devices handle set_offset st = do {
     (rc, p_cfg_data, st') \<leftarrow> get_dimm_platform_config e alloc mb devices handle Null st;
     (rc2, found) \<leftarrow>
       (if rc = NVM_SUCCESS then do {
          m \<leftarrow> deref p_cfg_data;
          b \<leftarrow> m;
          interleave_settings_of_pcd b set_offset }
        else Some (rc, None));
     _ \<leftarrow> free_ptr p_cfg_data;
     Some (rc2, found, st') }"

text \<open>A sub-table of the old PCD that passes its check, as the bytes from its offset.\<close>

definition keep_sub_table :: "bytes \<Rightarrow> int \<Rightarrow> nat option \<Rightarrow> bytes option" where
  "keep_sub_table m rc p = (if rc = NVM_SUCCESS then map_option (\<lambda>q. drop q m) p else None)"

definition get_repaired_dimm_platform_config ::
    "context_env \<Rightarrow> (nat \<Rightarrow> bool) \<Rightarrow> 'd mailbox \<Rightarrow> int \<times> device_discovery list option \<Rightarrow>
     u32 \<Rightarrow> bytes ptr option \<Rightarrow> process \<times> 'd \<Rightarrow> (int \<times> bytes ptr option \<times> process \<times> 'd) option" where
  "get_repaired_dimm_platform_config e alloc mb devices handle pp_config st =
     (if pp_config = None \<or> pp_config \<noteq> Some Null then Some (NVM_ERR_INVALIDPARAMETER, pp_config, st)
      else do {
        (rc, p_old, s1, d1) \<leftarrow> get_dimm_platform_config e alloc mb devices handle Null st;
        if rc \<noteq> NVM_SUCCESS then
          if p_old \<noteq> Null then do {
            (rcs, pcd_size, d2) \<leftarrow> get_pcd_table_size mb handle d1;
            (cur, inp, out) \<leftarrow>
              (if rcs = NVM_SUCCESS then do {
                 o1 \<leftarrow> deref p_old;
                 m \<leftarrow> o1;
                 rch \<leftarrow> check_platform_config_header (Some m) pcd_size;
                 if rch = NVM_SUCCESS then do {
                   ri \<leftarrow> check_config_input m; pi \<leftarrow> cast_config_input m;
                   rcu \<leftarrow> check_current_config m; pc \<leftarrow> cast_current_config m;
                   ro \<leftarrow> check_config_output m; po \<leftarrow> cast_config_output m;
                   Some (keep_sub_table m rcu pc, keep_sub_table m ri pi, keep_sub_table m ro po) }
                 else Some (None, None, None) }
               else Some (None, None, None));
            (rcb, pp) \<leftarrow> build_platform_config_data alloc cur inp out pp_config;
            _ \<leftarrow> free_ptr p_old;
            Some (rcb, pp, s1, d2) }
          else Some (rc, pp_config, s1, d1)
        else Some (rc, Some p_old, s1, d1) })"

end
