(* ===== verification/Namespace_Populate.thy ===== *)
theory Namespace_Populate
  imports Namespace_Labels Pcd_Device
begin

text \<open>
  Collecting the label areas and caching the namespaces found in them: second half of
  \<open>lib/namespace_labels.c\<close>. \<open>lm_get d handle\<close> is the pass-through command that reads the label partition
  of a DIMM in one large payload (the build defines \<open>__GET_LARGE_PCD_NS_LABEL__\<close>), \<open>lm_set\<close> the one that
  writes it; \<open>devices\<close> is what the device list returns, \<open>isets\<close> the results of
  \<open>get_interleave_set_count\<close> and \<open>get_interleave_sets\<close>.
\<close>

section \<open>Collecting\<close>

record 'd label_mailbox =
  lm_get :: "'d \<Rightarrow> u32 \<Rightarrow> int \<times> bytes \<times> 'd"
  lm_set :: "'d \<Rightarrow> u32 \<Rightarrow> bytes \<Rightarrow> int \<times> 'd"

definition free_ns_data :: "ns_data ptr \<Rightarrow> ns_data ptr option" where
  "free_ns_data p_ns_data = free_ptr p_ns_data"

definition collect_ns_data_manageable_dimms ::
    "label_env \<Rightarrow> int \<times> dimm_identity list option \<Rightarrow> ns_data \<Rightarrow> (int \<times> ns_data) option" where
  "collect_ns_data_manageable_dimms e devices p = do {
     (n, l) \<leftarrow> get_manageable_dimms (lb_alloc e) devices None;
     Some (if n < 0 then n else NVM_SUCCESS,
       p\<lparr>nsd_dimm_count := n, nsd_dimm_list := (case l of None \<Rightarrow> [] | Some ds \<Rightarrow> ds)\<rparr>) }"

function nslsa_loop ::
    "'d label_mailbox \<Rightarrow> dimm_identity list \<Rightarrow> nat \<Rightarrow> nat \<Rightarrow> bytes list \<Rightarrow> 'd \<Rightarrow>
     (int \<times> bytes list \<times> 'd) option" where
  "nslsa_loop lm dimm_list dimm_count i lsa d =
     (if i < dimm_count then do {
        x \<leftarrow> rd dimm_list i;
        (case lm_get lm d (disc_handle x) of (rc, area, d') \<Rightarrow>
           if rc \<noteq> NVM_SUCCESS then Some (rc, lsa, d')
           else do {
             lsa' \<leftarrow> wr lsa i area;
             nslsa_loop lm dimm_list dimm_count (Suc i) lsa' d' }) }
      else Some (NVM_SUCCESS, lsa, d))"
  by pat_completeness auto
termination
  by (relation "measure (\<lambda>(lm, ds, n, i, l, d). n - i)") auto

declare nslsa_loop.simps [simp del]

definition collect_dimm_nslsa_list ::
    "label_env \<Rightarrow> 'd label_mailbox \<Rightarrow> ns_data \<Rightarrow> 'd \<Rightarrow> (int \<times> ns_data \<times> 'd) option" where
  "collect_dimm_nslsa_list e lm p d =
     (let n = nat (nsd_dimm_count p) in
      if \<not> lb_alloc e (n * NAMESPACE_LABELS_SIZE) then Some (NVM_ERR_NOMEMORY, p, d)
      else do {
        (rc, lsa, d') \<leftarrow> nslsa_loop lm (nsd_dimm_list p) n 0 (replicate n (replicate NAMESPACE_LABELS_SIZE 0)) d;
        Some (rc, p\<lparr>nsd_dimm_nslsa_list := lsa\<rparr>, d') })"

definition collect_ns_data_interleave_sets ::
    "label_env \<Rightarrow> int \<times> int \<times> cookie_set list \<Rightarrow> ns_data \<Rightarrow> (int \<times> ns_data) option" where
  "collect_ns_data_interleave_sets e isets p =
     (case isets of (count, iset_count, sets) \<Rightarrow>
        if count < 0 then Some (count, p\<lparr>nsd_iset_count := 0\<rparr>)
        else if count > 0 then
          if \<not> lb_alloc e (nat count) then Some (NVM_ERR_NOMEMORY, p\<lparr>nsd_iset_count := count\<rparr>)
          else if iset_count < 0 then Some (iset_count, p\<lparr>nsd_iset_count := iset_count\<rparr>)
          else do {
            sets' \<leftarrow> calculate_iset_cookies (lb_alloc e) (nsd_dimm_list p) (nsd_dimm_count p) iset_count sets;
            Some (NVM_SUCCESS, p\<lparr>nsd_iset_count := iset_count, nsd_iset_list := sets'\<rparr>) }
        else Some (NVM_SUCCESS, p\<lparr>nsd_iset_count := 0\<rparr>))"

definition empty_ns_data :: ns_data where
  "empty_ns_data =
     \<lparr>nsd_dimm_count = 0, nsd_dimm_list = [], nsd_dimm_nslsa_list = [], nsd_ns_count = 0,
      nsd_ns_list = None, nsd_iset_count = 0, nsd_iset_list = []\<rparr>"

text \<open>After an error the structure is freed and the caller's pointer keeps its value.\<close>

definition collect_required_ns_data ::
    "label_env \<Rightarrow> 'd label_mailbox \<Rightarrow> int \<times> dimm_identity list option \<Rightarrow> int \<times> int \<times> cookie_set list \<Rightarrow> 'd \<Rightarrow>
     (int \<times> ns_data ptr \<times> 'd) option" where
  "collect_required_ns_data e lm devices isets d =
     (if \<not> lb_alloc e 1 then Some (NVM_ERR_NOMEMORY, Null, d)
      else do {
        (rc1, p1) \<leftarrow> collect_ns_data_manageable_dimms e devices empty_ns_data;
        if rc1 \<noteq> NVM_SUCCESS then do { q \<leftarrow> free_ns_data (Valid p1); Some (rc1, q, d) }
        else if nsd_dimm_count p1 > 0 then do {
          (rc2, p2, d2) \<leftarrow> collect_dimm_nslsa_list e lm p1 d;
          if rc2 \<noteq> NVM_SUCCESS then do { q \<leftarrow> free_ns_data (Valid p2); Some (rc2, q, d2) }
          else do {
            (rc3, p3) \<leftarrow> collect_ns_data_interleave_sets e isets p2;
            if rc3 \<noteq> NVM_SUCCESS then do { q \<leftarrow> free_ns_data (Valid p3); Some (rc3, q, d2) }
            else Some (rc3, Valid p3, d2) } }
        else Some (rc1, Valid p1, d) })"

section \<open>The namespace list\<close>

function parse_dimms_loop :: "label_env \<Rightarrow> nat \<Rightarrow> nat \<Rightarrow> int \<Rightarrow> ns_data \<Rightarrow> (int \<times> ns_data) option" where
  "parse_dimms_loop e dimm_count i rc p =
     (if i < dimm_count then do {
        (rc', p') \<leftarrow> parse_dimm_ns_labels e p i;
        if rc' \<noteq> NVM_SUCCESS then Some (rc', p')
        else parse_dimms_loop e dimm_count (Suc i) rc' p' }
      else Some (rc, p))"
  by pat_completeness auto
termination
  by (relation "measure (\<lambda>(e, n, i, rc, p). n - i)") auto

text \<open>
  The loop that copies the complete namespaces: \<open>tmp\<close> is the list for the context, \<open>out\<close> the caller's
  array of \<open>ns_count\<close> entries, when there is one.
\<close>

function copy_complete_loop ::
    "nvm_namespace_details list \<Rightarrow> nat \<Rightarrow> nat \<Rightarrow> int \<Rightarrow> nat \<Rightarrow> nvm_namespace_details list \<Rightarrow>
     nvm_namespace_details list option \<Rightarrow> int \<Rightarrow>
     (int \<times> nat \<times> nvm_namespace_details list \<times> nvm_namespace_details list option) option" where
  "copy_complete_loop ns_list found i ns_count copy_count tmp out rc =
     (if i < found then do {
        x \<leftarrow> rd ns_list i;
        complete \<leftarrow> is_namespace_complete x;
        if complete then do {
          tmp' \<leftarrow> wr tmp copy_count x;
          (rc', out') \<leftarrow>
            (if ns_count \<noteq> 0 \<and> out \<noteq> None then
               if int copy_count \<ge> ns_count then Some (NVM_ERR_ARRAYTOOSMALL, out)
               else do { o1 \<leftarrow> out; o2 \<leftarrow> wr o1 copy_count x; Some (rc, Some o2) }
             else Some (rc, out));
          copy_complete_loop ns_list found (Suc i) ns_count (Suc copy_count) tmp' out' rc' }
        else copy_complete_loop ns_list found (Suc i) ns_count copy_count tmp out rc }
      else Some (rc, copy_count, tmp, out))"
  by pat_completeness auto
termination
  by (relation "measure (\<lambda>(l, n, i, c, k, t, out, rc). n - i)") auto

declare parse_dimms_loop.simps [simp del] copy_complete_loop.simps [simp del]

text \<open>
  Everything after a collection that succeeded. \<open>rc\<close> starts as the value of
  \<open>collect_required_ns_data(&p_ns_data) == NVM_SUCCESS\<close>, that is 1.
\<close>

definition populate_from_dimms ::
    "context_env \<Rightarrow> label_env \<Rightarrow> int \<Rightarrow> nvm_namespace_details list option \<Rightarrow> ns_data \<Rightarrow> process \<Rightarrow>
     (int \<times> nvm_namespace_details list option \<times> process) option" where
  "populate_from_dimms e0 e ns_count out_ns p s = do {
     (rc1, p1) \<leftarrow> parse_dimms_loop e (nat (nsd_dimm_count p)) 0 1 p;
     (rc2, s2) \<leftarrow> (if rc1 = NVM_SUCCESS then set_nvm_context_pcd_namespace_count e0 (int (nsd_ns_count p1)) s
                    else Some (rc1, s));
     if rc2 = NVM_SUCCESS \<and> nsd_ns_count p1 \<noteq> 0 then
       if \<not> lb_alloc e (nsd_ns_count p1) then None
       else do {
         l \<leftarrow> nsd_ns_list p1;
         (rc3, copy_count, tmp, out) \<leftarrow> copy_complete_loop l (nsd_ns_count p1) 0 ns_count 0
           (replicate (nsd_ns_count p1) zero_namespace_details) out_ns rc2;
         if rc3 = NVM_SUCCESS then do {
           (_, s3) \<leftarrow> set_nvm_context_pcd_namespaces e0 tmp (int copy_count) s2;
           Some (int copy_count, out, s3) }
         else Some (rc3, out, s2) }
     else Some (rc2, out_ns, s2) }"

definition populate_namespaces ::
    "context_env \<Rightarrow> label_env \<Rightarrow> 'd label_mailbox \<Rightarrow> int \<times> dimm_identity list option \<Rightarrow>
     int \<times> int \<times> cookie_set list \<Rightarrow> int \<Rightarrow> nvm_namespace_details list option \<Rightarrow> process \<times> 'd \<Rightarrow>
     (int \<times> nvm_namespace_details list option \<times> process \<times> 'd) option" where
  "populate_namespaces e0 e lm devices isets ns_count out_ns st =
     (case st of (s, d) \<Rightarrow> do {
        rc \<leftarrow> get_nvm_context_pcd_namespace_count e0 s;
        if rc > 0 \<and> ns_count \<noteq> 0 \<and> out_ns \<noteq> None then do {
          buf \<leftarrow> out_ns;
          (rc', buf') \<leftarrow> get_nvm_context_pcd_namespaces e0 s buf ns_count;
          Some (rc', Some buf', s, d) }
        else if rc < 0 then do {
          (rc1, q, d1) \<leftarrow> collect_required_ns_data e lm devices isets d;
          if rc1 = NVM_SUCCESS then
            (case q of
               Valid p \<Rightarrow> do {
                 (rc2, out, s2) \<leftarrow> populate_from_dimms e0 e ns_count out_ns p s;
                 Some (rc2, out, s2, d1) }
             | _ \<Rightarrow> None)
          else Some (0, out_ns, s, d1) }
        else Some (rc, out_ns, s, d) })"

section \<open>Operations on namespaces\<close>

definition get_namespace_count_from_pcd ::
    "context_env \<Rightarrow> label_env \<Rightarrow> 'd label_mailbox \<Rightarrow> int \<times> dimm_identity list option \<Rightarrow>
     int \<times> int \<times> cookie_set list \<Rightarrow> process \<times> 'd \<Rightarrow> (int \<times> process \<times> 'd) option" where
  "get_namespace_count_from_pcd e0 e lm devices isets st = do {
     (rc, _, st') \<leftarrow> populate_namespaces e0 e lm devices isets 0 None st;
     Some (rc, st') }"

function copy_discovery_loop ::
    "nvm_namespace_details list \<Rightarrow> nat \<Rightarrow> nat \<Rightarrow> namespace_discovery list \<Rightarrow> namespace_discovery list option" where
  "copy_discovery_loop pcd_namespaces n i out_ns =
     (if i < n then do {
        x \<leftarrow> rd pcd_namespaces i;
        p' \<leftarrow> wr out_ns i (ns_discovery x);
        copy_discovery_loop pcd_namespaces n (Suc i) p' }
      else Some out_ns)"
  by pat_completeness auto
termination
  by (relation "measure (\<lambda>(l, n, i, p). n - i)") auto

function details_loop :: "bytes \<Rightarrow> nvm_namespace_details list \<Rightarrow> nat \<Rightarrow> nat \<Rightarrow> nvm_namespace_details option option" where
  "details_loop uid pcd_namespaces n i =
     (if i < n then do {
        x \<leftarrow> rd pcd_namespaces i;
        same \<leftarrow> uid_cmp uid (namespace_uid (ns_discovery x));
        if same then Some (Some x) else details_loop uid pcd_namespaces n (Suc i) }
      else Some None)"
  by pat_completeness auto
termination
  by (relation "measure (\<lambda>(u, l, n, i). n - i)") auto

declare copy_discovery_loop.simps [simp del] details_loop.simps [simp del]

text \<open>The arrays from \<open>malloc\<close> are cleared without a test for \<open>NULL\<close>.\<close>

definition get_namespaces_from_pcd ::
    "context_env \<Rightarrow> label_env \<Rightarrow> 'd label_mailbox \<Rightarrow> int \<times> dimm_identity list option \<Rightarrow>
     int \<times> int \<times> cookie_set list \<Rightarrow> u32 \<Rightarrow> namespace_discovery list \<Rightarrow> process \<times> 'd \<Rightarrow>
     (int \<times> namespace_discovery list \<times> process \<times> 'd) option" where
  "get_namespaces_from_pcd e0 e lm devices isets count out_ns st =
     (if \<not> lb_alloc e (unat count) then None
      else do {
        (rc, out, st') \<leftarrow> populate_namespaces e0 e lm devices isets (sint count)
          (Some (replicate (unat count) zero_namespace_details)) st;
        pcd \<leftarrow> out;
        p' \<leftarrow> (if rc \<ge> 0 then copy_discovery_loop pcd (nat rc) 0 out_ns else Some out_ns);
        Some (rc, p', st') })"

definition NVM_ERR_BADNAMESPACE :: int where "NVM_ERR_BADNAMESPACE = - 22"

definition get_namespace_details_from_pcd ::
    "context_env \<Rightarrow> label_env \<Rightarrow> 'd label_mailbox \<Rightarrow> int \<times> dimm_identity list option \<Rightarrow>
     int \<times> int \<times> cookie_set list \<Rightarrow> bytes \<Rightarrow> nvm_namespace_details \<Rightarrow> process \<times> 'd \<Rightarrow>
     (int \<times> nvm_namespace_details \<times> process \<times> 'd) option" where
  "get_namespace_details_from_pcd e0 e lm devices isets uid p_details st = do {
     (ns_count, st1) \<leftarrow> get_namespace_count_from_pcd e0 e lm devices isets st;
     if ns_count > 0 then
       if \<not> lb_alloc e (nat ns_count) then None
       else do {
         (n2, out, st2) \<leftarrow> populate_namespaces e0 e lm devices isets ns_count
           (Some (replicate (nat ns_count) zero_namespace_details)) st1;
         pcd \<leftarrow> out;
         found \<leftarrow> (if n2 > 0 then details_loop uid pcd (nat n2) 0 else Some None);
         Some (case found of
                 None \<Rightarrow> (NVM_ERR_BADNAMESPACE, p_details, st2)
               | Some x \<Rightarrow> (NVM_SUCCESS, x, st2)) }
     else Some (NVM_ERR_BADNAMESPACE, p_details, st1) }"

definition zero_dimm_namespace_labels ::
    "context_env \<Rightarrow> 'd label_mailbox \<Rightarrow> u32 \<Rightarrow> process \<times> 'd \<Rightarrow> (int \<times> process \<times> 'd) option" where
  "zero_dimm_namespace_labels e0 lm handle st =
     (case st of (s, d) \<Rightarrow>
        (case lm_set lm d handle (replicate NAMESPACE_LABELS_SIZE 0) of (rc, d') \<Rightarrow>
           if rc = NVM_SUCCESS then do {
             (_, s') \<leftarrow> invalidate_namespaces e0 s;
             Some (rc, s', d') }
           else Some (rc, s, d')))"

end
