(* ===== verification/Namespace_Tally.thy ===== *)
theory Namespace_Tally
  imports Namespace_Labels_Facts "HOL-Library.AList"
begin

text \<open>
  The namespaces as the sums over their labels. The abstract state is an association list from the UID
  of a namespace to its size in blocks, the sum over its labels and the number of labels it should have;
  a label updates one entry or adds one. \<open>init_namespace_from_label\<close> and the loops refine that.
\<close>

section \<open>Association lists and lists of entries\<close>

lemma update_absent:
  "find_index (\<lambda>x. key x = k) l = None \<Longrightarrow>
   AList.update k v (map (\<lambda>x. (key x, val x)) l) = map (\<lambda>x. (key x, val x)) l @ [(k, v)]"
  by (induction l) auto

lemma update_present:
  "find_index (\<lambda>x. key x = k) l = Some j \<Longrightarrow> key y = k \<Longrightarrow> val y = v \<Longrightarrow>
   AList.update k v (map (\<lambda>x. (key x, val x)) l) = map (\<lambda>x. (key x, val x)) (l[j := y])"
  by (induction l arbitrary: j) (auto split: if_splits)

lemma map_of_absent:
  "find_index (\<lambda>x. key x = k) l = None \<Longrightarrow> map_of (map (\<lambda>x. (key x, val x)) l) k = None"
  by (induction l) auto

lemma map_of_present:
  "find_index (\<lambda>x. key x = k) l = Some j \<Longrightarrow> map_of (map (\<lambda>x. (key x, val x)) l) k = Some (val (l ! j))"
  by (induction l arbitrary: j) (auto split: if_splits)

section \<open>The abstract state\<close>

definition ns_key :: "nvm_namespace_details \<Rightarrow> bytes" where
  "ns_key x = namespace_uid (ns_discovery x)"

definition ns_sums :: "nvm_namespace_details \<Rightarrow> u64 \<times> u32 \<times> u16" where
  "ns_sums x = (ns_block_count x, ns_label_sum x, ns_nlabels x)"

definition ns_entries :: "ns_data \<Rightarrow> nvm_namespace_details list" where
  "ns_entries p = (case nsd_ns_list p of None \<Rightarrow> [] | Some l \<Rightarrow> l)"

definition ns_tally :: "ns_data \<Rightarrow> (bytes \<times> u64 \<times> u32 \<times> u16) list" where
  "ns_tally p = map (\<lambda>x. (ns_key x, ns_sums x)) (ns_entries p)"

definition label_key :: "bytes \<Rightarrow> bytes" where
  "label_key l = guid_text (lb_uuid l) @ [0]"

definition label_size :: "bytes \<Rightarrow> u64" where
  "label_size l = lb_rawsize l div ucast (label_block_size l)"

definition count_label :: "bytes \<Rightarrow> (bytes \<times> u64 \<times> u32 \<times> u16) list \<Rightarrow> (bytes \<times> u64 \<times> u32 \<times> u16) list" where
  "count_label l al = AList.update (label_key l)
     (case map_of al (label_key l) of
        None \<Rightarrow> (label_size l, label_weight l, lb_nlabel l)
      | Some (b, s, n) \<Rightarrow> (b + label_size l, s + label_weight l, n)) al"

definition PM_GUID :: bytes where
  "PM_GUID = [121, 211, 240, 102, 243, 180, 116, 64, 172, 67, 13, 51, 24, 183, 140, 219]"

definition label_ok :: "bytes \<Rightarrow> bool" where
  "label_ok l \<longleftrightarrow>
     fld l 248 8 = fletcher64 (fletcher_words l 256 (In_Data 248)) \<and> \<not> NS_FLAGS_UPDATING (lb_flags l) \<and>
     lb_rawsize l \<noteq> 0 \<and> lb_type_guid l = PM_GUID \<and> lb_position l \<le> lb_nlabel l"

text \<open>What the code relies on: allocations succeed, its buffers have the sizes it gives them.\<close>

definition label_env_ok :: "label_env \<Rightarrow> bool" where
  "label_env_ok e \<longleftrightarrow>
     lsa_addr e mod 4 = 0 \<and> label_addr e mod 4 = 0 \<and> (\<forall>n. lb_alloc e n) \<and>
     length (guid_garbage e) = 16 \<and> length (uid_garbage e) = 37 \<and>
     (\<forall>k. length (namespace_uid (ns_discovery (fresh_details e k))) = 37 \<and>
          length (friendly_name (ns_discovery (fresh_details e k))) = 64)"

definition ns_wf :: "ns_data \<Rightarrow> bool" where
  "ns_wf p \<longleftrightarrow>
     length (ns_entries p) = nsd_ns_count p \<and> nat (nsd_iset_count p) \<le> length (nsd_iset_list p) \<and>
     (\<forall>x \<in> set (ns_entries p). \<exists>g. length g = 16 \<and> ns_key x = guid_text g @ [0])"

section \<open>Labels\<close>

lemma pm_guid_bytes:
  "length g = 16 \<Longrightarrow> str_to_guid (Some spa_range_pm_region_guid_str) (Some g) = Some (Some PM_GUID)"
proof -
  assume g: "length g = 16"
  have "list_all (\<lambda>(i, p). hexstr_to_int spa_range_pm_region_guid_str p = Some (ucast (PM_GUID ! i)))
      str_to_guid_body"
    by code_simp
  then have "\<forall>(i, p) \<in> set str_to_guid_body.
      hexstr_to_int spa_range_pm_region_guid_str p = Some (ucast (PM_GUID ! i)) \<and> i < length g"
    using g guid_text_nth by (fastforce simp: list_all_iff)
  from exec_str_to_guid_eq [OF this] obtain d' where d:
    "exec_str_to_guid spa_range_pm_region_guid_str str_to_guid_body g = Some d'" "length d' = length g"
    "\<And>j. d' ! j = (if j \<in> fst ` set str_to_guid_body then PM_GUID ! j else g ! j)" by blast
  have "j \<in> fst ` set str_to_guid_body" if "j < 16" for j
    using that by (simp add: str_to_guid_body_def) arith
  then have "d' = PM_GUID" using d(2,3) g by (intro nth_equalityI) (auto simp: PM_GUID_def)
  then show ?thesis using d(1) by (simp add: str_to_guid_def)
qed

lemma is_valid_label_eq:
  assumes "label_env_ok e" and "length l = 256" and "addr mod 4 = 0"
  shows "is_valid_label e addr l = Some (label_ok l)"
proof -
  have c: "checksum_fletcher64 addr (Some l) 256 (Some (In_Data 248)) False =
      Some (fld l 248 8 = fletcher64 (fletcher_words l 256 (In_Data 248)), Some l, Some (In_Data 248))"
    using assms by (intro checksum_verify_in) (auto simp: place_ok_def)
  have g: "guid_cmp (Some PM_GUID) (Some (lb_type_guid l)) = Some (if lb_type_guid l = PM_GUID then 1 else 0)"
    using assms(2) cmp_bytes_eq [of 16 PM_GUID "lb_type_guid l"]
    by (auto simp: guid_cmp_def lb_type_guid_def PM_GUID_def)
  show ?thesis
    using pm_guid_bytes [of "guid_garbage e"] assms(1)
    by (auto simp: is_valid_label_def label_ok_def c g pm_guid_def label_env_ok_def
        LABEL_V1_2_SIZE_def LB_CHECKSUM_def not_le not_less)
qed

lemma uid_of_guid:
  "length g = 16 \<Longrightarrow> length u = 37 \<Longrightarrow> guid_to_uid (Some g) (Some u) = Some (Some (guid_text g @ [0]))"
  by (simp add: guid_to_uid_def guid_to_str_eq)

lemma uid_cmp_text:
  "length g = 16 \<Longrightarrow> length g' = 16 \<Longrightarrow>
   uid_cmp (guid_text g @ [0]) (guid_text g' @ [0]) = Some (guid_text g @ [0] = guid_text g' @ [0])"
  using uid_cmp_guid_text [of g g' "[]" "[]"] guid_text_inject [of g g'] by auto

lemma ns_index_loop_eq:
  assumes "length g = 16" and "\<forall>x \<in> set l. \<exists>g. length g = 16 \<and> ns_key x = guid_text g @ [0]" and "i \<le> length l"
  shows "ns_index_loop (guid_text g @ [0]) l (length l) i =
    Some (case find_index (\<lambda>x. ns_key x = guid_text g @ [0]) (drop i l) of None \<Rightarrow> - 1 | Some k \<Rightarrow> int (i + k))"
  using assms(3)
proof (induction "length l - i" arbitrary: i)
  case 0
  then show ?case by (simp add: ns_index_loop.simps)
next
  case (Suc n)
  then have i: "i < length l" by simp
  then obtain g' where g': "length g' = 16" "ns_key (l ! i) = guid_text g' @ [0]" using assms(2) by force
  have d: "drop i l = l ! i # drop (Suc i) l" using i by (simp add: Cons_nth_drop_Suc)
  have "uid_cmp (guid_text g @ [0]) (namespace_uid (ns_discovery (l ! i))) =
      Some (ns_key (l ! i) = guid_text g @ [0])"
    using uid_cmp_text [OF assms(1) g'(1)] g'(2) by (auto simp: ns_key_def)
  then show ?case
    using Suc i by (subst ns_index_loop.simps) (auto simp: rd_in d split: option.splits)
qed

lemma get_namespace_index_in_list_eq:
  assumes "label_env_ok e" and "ns_wf p" and "length l = 256"
  shows "get_namespace_index_in_list e p l =
    Some (case find_index (\<lambda>x. ns_key x = label_key l) (ns_entries p) of None \<Rightarrow> - 1 | Some k \<Rightarrow> int k)"
proof -
  have u: "length (lb_uuid l) = 16" using assms(3) by (simp add: lb_uuid_def)
  have g: "guid_to_uid (Some (lb_uuid l)) (Some (uid_garbage e)) = Some (Some (label_key l))"
    using uid_of_guid [OF u, of "uid_garbage e"] assms(1) by (simp add: label_env_ok_def label_key_def)
  have c: "length (ns_entries p) = nsd_ns_count p" using assms(2) by (simp add: ns_wf_def)
  show ?thesis
  proof (cases "nsd_ns_count p = 0")
    case True
    then show ?thesis using c g by (simp add: get_namespace_index_in_list_def)
  next
    case False
    then have l: "nsd_ns_list p = Some (ns_entries p)" using c by (auto simp: ns_entries_def split: option.splits)
    show ?thesis
      using False g ns_index_loop_eq [OF u, of "ns_entries p" 0] assms(2)
      by (simp add: get_namespace_index_in_list_def l ns_wf_def label_key_def split: option.split)
  qed
qed

lemma iset_id_loop_total: "n \<le> length l \<Longrightarrow> \<exists>r. iset_id_loop c l n i = Some r"
proof (induction "n - i" arbitrary: i)
  case 0
  then show ?case by (simp add: iset_id_loop.simps)
next
  case (Suc k)
  then show ?case by (subst iset_id_loop.simps) (auto simp: rd_in)
qed

lemma abstraction_guid_total:
  assumes "label_env_ok e" and "length g = 16" and "readable u 37"
  shows "\<exists>b. namespace_has_abstraction_guid e g u = Some b"
proof -
  have "length (guid_text g) = 36" using guid_to_str_eq(2) [of g "replicate 37 0"] assms(2) by simp
  then have "readable (guid_text g @ [0]) 37" by (simp add: readable_def)
  then show ?thesis
    using uid_of_guid [OF assms(2), of "uid_garbage e"] assms(1,3)
    by (simp add: namespace_has_abstraction_guid_def label_env_ok_def uid_cmp_eq)
qed

lemma new_details_eq:
  assumes "label_env_ok e" and "ns_wf p" and "length l = 256" and "label_block_size l \<noteq> 0"
  obtains x where "new_details e p l (fresh_details e k) = Some x" and "ns_key x = label_key l"
    and "ns_sums x = (label_size l, label_weight l, lb_nlabel l)"
proof -
  let ?d = "fresh_details e k"
  have d: "length (namespace_uid (ns_discovery ?d)) = 37" "length (friendly_name (ns_discovery ?d)) = 64"
    using assms(1) by (simp_all add: label_env_ok_def)
  have u: "length (lb_uuid l) = 16" "length (lb_abstraction_guid l) = 16"
    using assms(3) by (simp_all add: lb_uuid_def lb_abstraction_guid_def)
  have g: "guid_to_uid (Some (lb_uuid l)) (Some (namespace_uid (ns_discovery ?d))) = Some (Some (label_key l))"
    using uid_of_guid [OF u(1) d(1)] by (simp add: label_key_def)
  obtain name j where n: "s_strcpy (Some (friendly_name (ns_discovery ?d))) (Some (drop 16 l)) 64 = Some (Some name, j)"
    using s_strcpy_eq [of 64 "friendly_name (ns_discovery ?d)" "drop 16 l"] d assms(3) by (simp add: readable_def)
  obtain i h where i: "get_isetid_from_nslabel_cookie p (lb_iset_cookie l) 5 = Some (i, h)"
    using iset_id_loop_total [of "nat (nsd_iset_count p)" "nsd_iset_list p" "lb_iset_cookie l" 0] assms(2)
    by (auto simp: get_isetid_from_nslabel_cookie_def ns_wf_def)
  have r: "readable NS_BTT_GUID 37" "readable NS_PFN_GUID 37"
    by (simp_all add: readable_def NS_BTT_GUID_def NS_PFN_GUID_def c_literal_def)
  obtain b where b: "namespace_has_abstraction_guid e (lb_abstraction_guid l) NS_BTT_GUID = Some b"
    using abstraction_guid_total [OF assms(1) u(2) r(1)] by blast
  obtain f where f: "namespace_has_abstraction_guid e (lb_abstraction_guid l) NS_PFN_GUID = Some f"
    using abstraction_guid_total [OF assms(1) u(2) r(2)] by blast
  have s: "label_blocks l = Some (label_size l)" using assms(4) by (simp add: label_blocks_def label_size_def)
  show ?thesis
    by (rule that, simp add: new_details_def g n i b f s NS_NAME_LEN_def NAMESPACE_HEALTH_NORMAL_def)
      (simp_all add: ns_key_def ns_sums_def)
qed

lemma add_label_eq:
  assumes "label_block_size l \<noteq> 0"
  obtains y where "add_label l x = Some y" and "ns_key y = ns_key x"
    and "ns_sums y = (ns_block_count x + label_size l, ns_label_sum x + label_weight l, ns_nlabels x)"
  using assms by (simp add: add_label_def label_blocks_def label_size_def ns_key_def ns_sums_def)

text \<open>One label, one entry: the step that the loops repeat.\<close>

lemma init_namespace_refines:
  assumes "label_env_ok e" and "ns_wf p" and "length l = 256" and "addr mod 4 = 0"
    and "label_ok l \<Longrightarrow> label_block_size l \<noteq> 0"
  obtains p' where "init_namespace_from_label e addr p l = Some (NVM_SUCCESS, p')" and "ns_wf p'"
    and "ns_tally p' = (if label_ok l then count_label l (ns_tally p) else ns_tally p)"
    and "nsd_dimm_nslsa_list p' = nsd_dimm_nslsa_list p"
proof (cases "label_ok l")
  case False
  then show ?thesis
    using is_valid_label_eq [OF assms(1,3,4)] assms(2) by (intro that [of p]) (simp_all add: init_namespace_from_label_def)
next
  case ok: True
  note v = is_valid_label_eq [OF assms(1,3,4)]
  note ix = get_namespace_index_in_list_eq [OF assms(1-3)]
  have uuid: "length (lb_uuid l) = 16" using assms(3) by (simp add: lb_uuid_def)
  show ?thesis
  proof (cases "find_index (\<lambda>x. ns_key x = label_key l) (ns_entries p)")
    case None
    obtain x where x: "new_details e p l (fresh_details e (nsd_ns_count p)) = Some x" "ns_key x = label_key l"
        "ns_sums x = (label_size l, label_weight l, lb_nlabel l)"
      using new_details_eq [OF assms(1-3) assms(5) [OF ok]] by metis
    let ?p = "p\<lparr>nsd_ns_list := Some (ns_entries p @ [x]), nsd_ns_count := nsd_ns_count p + 1\<rparr>"
    have "init_namespace_from_label e addr p l = Some (NVM_SUCCESS, ?p)"
      using assms(1)
      by (simp add: init_namespace_from_label_def v ok ix None x label_env_ok_def ns_entries_def [symmetric])
    moreover have "ns_wf ?p" using assms(2) x(2) uuid by (auto simp: ns_wf_def ns_entries_def label_key_def)
    moreover have "ns_tally ?p = count_label l (ns_tally p)"
      using x(2,3) by (simp add: ns_tally_def count_label_def update_absent [OF None] map_of_absent [OF None])
        (simp add: ns_entries_def)
    ultimately show ?thesis using ok by (intro that [of ?p]) simp_all
  next
    case (Some j)
    have j: "j < length (ns_entries p)" "ns_key (ns_entries p ! j) = label_key l"
      using find_index_Some [OF Some] by simp_all
    then have l: "nsd_ns_list p = Some (ns_entries p)" by (auto simp: ns_entries_def split: option.splits)
    obtain y where y: "add_label l (ns_entries p ! j) = Some y" "ns_key y = label_key l"
        "ns_sums y = (ns_block_count (ns_entries p ! j) + label_size l,
          ns_label_sum (ns_entries p ! j) + label_weight l, ns_nlabels (ns_entries p ! j))"
      using add_label_eq [OF assms(5) [OF ok]] j(2) by metis
    let ?p = "p\<lparr>nsd_ns_list := Some ((ns_entries p)[j := y])\<rparr>"
    have e: "ns_entries ?p = (ns_entries p)[j := y]" by (simp add: ns_entries_def)
    have "init_namespace_from_label e addr p l = Some (NVM_SUCCESS, ?p)"
      using j by (simp add: init_namespace_from_label_def v ok ix Some y rd_in wr_in l)
    moreover have "ns_wf ?p"
      using assms(2) y(2) uuid by (auto simp: ns_wf_def e label_key_def dest!: set_update_subset_insert [THEN subsetD])
    moreover have "ns_tally ?p = count_label l (ns_tally p)"
      unfolding ns_tally_def e count_label_def map_of_present [OF Some]
      by (rule update_present [OF Some y(2), symmetric]) (simp add: y(3), simp add: ns_sums_def)
    ultimately show ?thesis using ok by (intro that [of ?p]) simp_all
  qed
qed

section \<open>Areas and DIMMs\<close>

text \<open>The label of a slot, in the layout of version 1.2, and the labels of an area that count.\<close>

definition slot_label :: "label_env \<Rightarrow> bytes \<Rightarrow> bytes \<Rightarrow> nat \<Rightarrow> bytes option" where
  "slot_label e labels x i =
     (if ix_minor x = 1 then rd_bytes labels (i * 128) 124 \<bind> convert_label e
      else rd_bytes labels (i * 256) 256)"

definition slot_used :: "bytes \<Rightarrow> nat \<Rightarrow> bool" where
  "slot_used x i \<longleftrightarrow> \<not> bit (ix_free x ! (i div 8)) (i mod 8)"

definition used_labels :: "label_env \<Rightarrow> bytes \<Rightarrow> bytes \<Rightarrow> nat list \<Rightarrow> bytes list" where
  "used_labels e labels x is =
     (if ix_minor x = 0 then []
      else filter label_ok (map (\<lambda>i. the (slot_label e labels x i)) (filter (slot_used x) is)))"

definition area_index :: "bytes \<Rightarrow> bytes option" where
  "area_index a =
     (case choose_index_block 0 a of
        Some k \<Rightarrow> if k = 0 then None else Some (if k = 1 then lsa_index1 a else lsa_index2 a)
      | None \<Rightarrow> None)"

definition area_labels :: "label_env \<Rightarrow> bytes \<Rightarrow> bytes list" where
  "area_labels e a =
     (case area_index a of
        None \<Rightarrow> []
      | Some x \<Rightarrow> used_labels e (lsa_labels a) x [0 ..< unat (ix_nlabel x)])"

text \<open>
  How many labels fit an area, and the areas that the code can parse: no more labels than fit, and no
  label whose block size is a multiple of \<open>2 ^ 32\<close>.
\<close>

definition slot_limit :: "bytes \<Rightarrow> nat" where
  "slot_limit x = (if ix_minor x = 1 then 1012 else 506)"

definition area_ok :: "label_env \<Rightarrow> bytes \<Rightarrow> bool" where
  "area_ok e a \<longleftrightarrow>
     length a = 130048 \<and> (\<forall>x. area_index a = Some x \<longrightarrow> unat (ix_nlabel x) \<le> slot_limit x) \<and>
     (\<forall>l \<in> set (area_labels e a). label_block_size l \<noteq> 0)"

lemma convert_label_length:
  assumes "label_env_ok e" and "length l = 124"
  shows "\<exists>l'. convert_label e l = Some l' \<and> length l' = 256"
proof -
  have pm: "str_to_guid (Some spa_range_pm_region_guid_str) (Some (replicate 16 0)) = Some (Some PM_GUID)"
    by (rule pm_guid_bytes) simp
  have l: "length PM_GUID = 16" by (simp add: PM_GUID_def)
  have u: "\<exists>d'. checksum_fletcher64 (label_addr e) (Some d) 256 (Some (In_Data 248)) True =
      Some (True, Some d', Some (In_Data 248)) \<and> length d' = 256" if "length d = 256" for d
    using checksum_update_in [of 256 d 248 "label_addr e"] that assms(1)
    by (simp add: place_ok_def label_env_ok_def)
  let ?z = "l @ replicate 132 0 :: bytes"
  obtain d1 where d1: "checksum_fletcher64 (label_addr e) (Some ?z) 256 (Some (In_Data 248)) True =
      Some (True, Some d1, Some (In_Data 248))" "length d1 = 256"
    using u [of ?z] assms(2) by auto
  obtain d2 where d2: "checksum_fletcher64 (label_addr e) (Some (take 128 ?z @ PM_GUID @ drop 144 ?z)) 256
      (Some (In_Data 248)) True = Some (True, Some d2, Some (In_Data 248))" "length d2 = 256"
    using u [of "take 128 ?z @ PM_GUID @ drop 144 ?z"] assms(2) l by auto
  show ?thesis
  proof (cases "NS_FLAGS_LOCAL (lb_flags l)")
    case True
    then show ?thesis using d1 assms(2)
      by (simp add: convert_label_def wr_bytes_def LABEL_V1_2_SIZE_def LB_CHECKSUM_def)
  next
    case False
    then show ?thesis using d2 assms(2) pm l
      by (simp add: convert_label_def wr_bytes_def LABEL_V1_2_SIZE_def LB_CHECKSUM_def LB_TYPE_GUID_def)
  qed
qed

lemma slot_label_in:
  assumes "label_env_ok e" and "length labels = 129536" and "i < slot_limit x"
  shows "\<exists>l. slot_label e labels x i = Some l \<and> length l = 256"
  using assms convert_label_length [OF assms(1), of "take 124 (drop (i * 128) labels)"]
  by (auto simp: slot_label_def slot_limit_def rd_bytes_def split: if_splits)

lemma parse_slot_refines:
  assumes "label_env_ok e" and "ns_wf p" and "length labels = 129536" and "i < slot_limit x"
    and "ix_major x = 1" and "ix_minor x \<in> {1, 2}"
    and "slot_label e labels x i = Some l" and "label_ok l \<Longrightarrow> label_block_size l \<noteq> 0"
  obtains p' where "parse_slot e labels x i p = Some (NVM_SUCCESS, p')" and "ns_wf p'"
    and "ns_tally p' = (if label_ok l then count_label l (ns_tally p) else ns_tally p)"
    and "nsd_dimm_nslsa_list p' = nsd_dimm_nslsa_list p"
proof -
  have l: "length l = 256" using slot_label_in [OF assms(1,3,4)] assms(7) by auto
  have a: "label_addr e mod 4 = 0" "(lsa_addr e + 512 + i * 256) mod 4 = 0"
    using assms(1) by (auto simp: label_env_ok_def)
  show ?thesis
  proof (cases "ix_minor x = 1")
    case True
    obtain p' where "init_namespace_from_label e (label_addr e) p l = Some (NVM_SUCCESS, p')" "ns_wf p'"
        "ns_tally p' = (if label_ok l then count_label l (ns_tally p) else ns_tally p)"
        "nsd_dimm_nslsa_list p' = nsd_dimm_nslsa_list p"
      using init_namespace_refines [OF assms(1,2) l a(1) assms(8)] by blast
    then show ?thesis using True assms(5,7) that
      by (auto simp: parse_slot_def slot_label_def LABEL_V1_1_SIZE_def LABEL_SIZE_def bind_eq_Some_conv)
  next
    case False
    obtain p' where "init_namespace_from_label e (lsa_addr e + 512 + i * 256) p l = Some (NVM_SUCCESS, p')" "ns_wf p'"
        "ns_tally p' = (if label_ok l then count_label l (ns_tally p) else ns_tally p)"
        "nsd_dimm_nslsa_list p' = nsd_dimm_nslsa_list p"
      using init_namespace_refines [OF assms(1,2) l a(2) assms(8)] by blast
    then show ?thesis using False assms(5,6,7) that
      by (auto simp: parse_slot_def slot_label_def LABEL_V1_2_SIZE_def bind_eq_Some_conv)
  qed
qed

lemma parse_slots_loop_refines:
  assumes "label_env_ok e" and "length labels = 129536" and "length (ix_free x) = 128"
    and "ix_major x = 1" and "ix_minor x \<le> 2" and "n \<le> slot_limit x"
    and "\<forall>l \<in> set (used_labels e labels x [i ..< n]). label_block_size l \<noteq> 0" and "ns_wf p"
  shows "\<exists>p'. parse_slots_loop e labels x n i p = Some (NVM_SUCCESS, p') \<and> ns_wf p' \<and>
    nsd_dimm_nslsa_list p' = nsd_dimm_nslsa_list p \<and>
    ns_tally p' = fold count_label (used_labels e labels x [i ..< n]) (ns_tally p)"
  using assms(7,8)
proof (induction "n - i" arbitrary: i p)
  case 0
  then show ?case by (simp add: parse_slots_loop.simps used_labels_def)
next
  case (Suc k)
  then have i: "i < n" "i < slot_limit x" using assms(6) by simp_all
  have up: "[i ..< n] = i # [Suc i ..< n]" using i by (simp add: upt_conv_Cons)
  have "i div 8 < 128" using i(2) by (auto simp: slot_limit_def split: if_splits)
  then have free: "is_slot_free (ix_free x) i = Some (\<not> slot_used x i)"
    using assms(3) by (simp add: is_slot_free_def slot_used_def rd_in)
  obtain l where l: "slot_label e labels x i = Some l" "length l = 256"
    using slot_label_in [OF assms(1,2) i(2)] by auto
  define us where "us = (if ix_minor x \<noteq> 0 \<and> slot_used x i \<and> label_ok l then [l] else [])"
  have us: "used_labels e labels x [i ..< n] = us @ used_labels e labels x [Suc i ..< n]"
    by (simp add: used_labels_def up us_def l)
  have "\<exists>p1. (if slot_used x i then parse_slot e labels x i p else Some (NVM_SUCCESS, p)) = Some (NVM_SUCCESS, p1) \<and>
      ns_wf p1 \<and> nsd_dimm_nslsa_list p1 = nsd_dimm_nslsa_list p \<and> ns_tally p1 = fold count_label us (ns_tally p)"
  proof (cases "slot_used x i \<and> ix_minor x \<noteq> 0")
    case True
    have m: "ix_minor x \<in> {1, 2}" using True assms(5) by (auto simp: word_le_nat_alt word_unat_eq_iff)
    have b: "label_block_size l \<noteq> 0" if "label_ok l"
      using Suc.prems(1) True that by (simp add: us us_def)
    obtain p1 where "parse_slot e labels x i p = Some (NVM_SUCCESS, p1)" "ns_wf p1"
        "ns_tally p1 = (if label_ok l then count_label l (ns_tally p) else ns_tally p)"
        "nsd_dimm_nslsa_list p1 = nsd_dimm_nslsa_list p"
      using parse_slot_refines [OF assms(1) Suc.prems(2) assms(2) i(2) assms(4) m l(1) b] by blast
    then show ?thesis using True by (auto simp: us_def)
  next
    case False
    then show ?thesis using Suc.prems(2) by (auto simp: us_def parse_slot_def)
  qed
  then obtain p1 where p1: "(if slot_used x i then parse_slot e labels x i p else Some (NVM_SUCCESS, p)) = Some (NVM_SUCCESS, p1)"
    "ns_wf p1" "nsd_dimm_nslsa_list p1 = nsd_dimm_nslsa_list p" "ns_tally p1 = fold count_label us (ns_tally p)" by blast
  have "\<exists>p'. parse_slots_loop e labels x n (Suc i) p1 = Some (NVM_SUCCESS, p') \<and> ns_wf p' \<and>
      nsd_dimm_nslsa_list p' = nsd_dimm_nslsa_list p1 \<and>
      ns_tally p' = fold count_label (used_labels e labels x [Suc i ..< n]) (ns_tally p1)"
    by (rule Suc.hyps) (use Suc p1 us in auto)
  then show ?case
    using p1 i(1) by (subst parse_slots_loop.simps) (auto simp: free us)
qed

lemma choose_index_block_addr:
  "length a = 130048 \<Longrightarrow> addr mod 4 = 0 \<Longrightarrow> choose_index_block addr a = choose_index_block 0 a"
  by (simp add: choose_index_block_eq)

lemma area_index_ok:
  assumes "length a = 130048" and "area_index a = Some x"
  shows "length x = 256" and "ix_major x = 1" and "ix_minor x \<le> 2" and "length (ix_free x) = 128"
proof -
  have "x = lsa_index1 a \<and> index_ok x 0 \<or> x = lsa_index2 a \<and> index_ok x 1"
    using assms(2) choose_index_block_eq [OF assms(1), of 0]
    by (simp add: area_index_def Let_def split: if_splits)
  then show "length x = 256" "ix_major x = 1" "ix_minor x \<le> 2"
    using assms(1) by (auto simp: index_ok_def lsa_index1_def lsa_index2_def)
  then show "length (ix_free x) = 128" by (simp add: ix_free_def)
qed

lemma area_index_nlabel:
  assumes "length a = 130048" and "area_index a = Some x"
  shows "unat (ix_nlabel x) \<le> 1020"
proof -
  have "\<exists>pos. index_ok x pos"
    using assms(2) choose_index_block_eq [OF assms(1), of 0]
    by (simp add: area_index_def Let_def split: if_splits) (blast | fast)+
  then show ?thesis by (auto simp: index_ok_def)
qed

lemma parse_dimm_refines:
  assumes "label_env_ok e" and "ns_wf p" and "i < length (nsd_dimm_nslsa_list p)"
    and "area_ok e (nsd_dimm_nslsa_list p ! i)"
  shows "\<exists>p'. parse_dimm_ns_labels e p i = Some (NVM_SUCCESS, p') \<and> ns_wf p' \<and>
    nsd_dimm_nslsa_list p' = nsd_dimm_nslsa_list p \<and>
    ns_tally p' = fold count_label (area_labels e (nsd_dimm_nslsa_list p ! i)) (ns_tally p)"
proof -
  let ?a = "nsd_dimm_nslsa_list p ! i"
  have a: "length ?a = 130048" using assms(4) by (simp add: area_ok_def)
  have k: "choose_index_block (lsa_addr e) ?a = choose_index_block 0 ?a"
    by (rule choose_index_block_addr [OF a]) (use assms(1) in \<open>simp add: label_env_ok_def\<close>)
  obtain c where c: "choose_index_block 0 ?a = Some c"
    using choose_index_block_eq [OF a, of 0] by (metis mod_0)
  show ?thesis
  proof (cases "c = 0")
    case True
    then show ?thesis using assms(2,3) k c
      by (simp add: parse_dimm_ns_labels_def rd_in area_labels_def area_index_def)
  next
    case False
    let ?x = "if c = 1 then lsa_index1 ?a else lsa_index2 ?a"
    have x: "area_index ?a = Some ?x" using False c by (simp add: area_index_def)
    have "length (lsa_labels ?a) = 129536" using a by (simp add: lsa_labels_def LABELS_SIZE_def)
    from parse_slots_loop_refines [OF assms(1) this area_index_ok(4) [OF a x] area_index_ok(2) [OF a x]
        area_index_ok(3) [OF a x], of "unat (ix_nlabel ?x)" 0 p] assms(2,4) x
    show ?thesis
      by (simp add: parse_dimm_ns_labels_def rd_in assms(3) k c False area_labels_def area_ok_def Let_def)
  qed
qed

section \<open>The sums\<close>

definition sum_sizes :: "bytes list \<Rightarrow> u64" where
  "sum_sizes ls = sum_list (map label_size ls)"

definition sum_weights :: "bytes list \<Rightarrow> u32" where
  "sum_weights ls = sum_list (map label_weight ls)"

lemma tally_step:
  "map_of (count_label l al) k =
    (if k = label_key l then
       (case map_of al k of
          None \<Rightarrow> Some (label_size l, label_weight l, lb_nlabel l)
        | Some (b, s, n) \<Rightarrow> Some (b + label_size l, s + label_weight l, n))
     else map_of al k)"
  by (auto simp: count_label_def AList.update_conv' split: option.splits)

lemma tally_known:
  "map_of al k = Some (b, s, n) \<Longrightarrow>
   map_of (fold count_label ls al) k =
     Some (b + sum_sizes (filter (\<lambda>l. label_key l = k) ls), s + sum_weights (filter (\<lambda>l. label_key l = k) ls), n)"
proof (induction ls arbitrary: al b s)
  case Nil
  then show ?case by (simp add: sum_sizes_def sum_weights_def)
next
  case (Cons l ls)
  show ?case
  proof (cases "label_key l = k")
    case True
    then have "map_of (count_label l al) k = Some (b + label_size l, s + label_weight l, n)"
      using Cons.prems by (simp add: tally_step)
    from Cons.IH [OF this] True show ?thesis by (simp add: sum_sizes_def sum_weights_def add.assoc)
  next
    case False
    then have "map_of (count_label l al) k = Some (b, s, n)" using Cons.prems by (simp add: tally_step)
    from Cons.IH [OF this] False show ?thesis by simp
  qed
qed

lemma tally_new:
  "map_of al k = None \<Longrightarrow>
   map_of (fold count_label ls al) k =
     (case filter (\<lambda>l. label_key l = k) ls of
        [] \<Rightarrow> None
      | l # r \<Rightarrow> Some (sum_sizes (l # r), sum_weights (l # r), lb_nlabel l))"
proof (induction ls arbitrary: al)
  case Nil
  then show ?case by simp
next
  case (Cons l ls)
  show ?case
  proof (cases "label_key l = k")
    case True
    then have "map_of (count_label l al) k = Some (label_size l, label_weight l, lb_nlabel l)"
      using Cons.prems by (simp add: tally_step)
    from tally_known [OF this] True show ?thesis by (simp add: sum_sizes_def sum_weights_def)
  next
    case False
    then have "map_of (count_label l al) k = None" using Cons.prems by (simp add: tally_step)
    from Cons.IH [OF this] False show ?thesis by simp
  qed
qed

lemma count_label_keys:
  "distinct (map fst al) \<Longrightarrow> distinct (map fst (fold count_label ls al))"
  by (induction ls arbitrary: al) (simp_all add: count_label_def AList.distinct_update)

text \<open>
  C5: Reading the labels of a DIMM refines the abstract tally. Whatever was found before,
  parsing an area that holds no more labels than fit it, none with a block size of a multiple of
  \<open>2 ^ 32\<close>, succeeds, and the list of namespaces becomes the old one with every label counted that is in
  a used slot and valid: in the entry of its UID, the size in blocks and the position plus one are added, or
  a new entry is put at the end.
\<close>

theorem parse_dimm_ns_labels_refines:
  assumes "label_env_ok e" and "ns_wf p" and "nsd_dimm_nslsa_list p = areas" and "i < length areas"
    and "area_ok e (areas ! i)"
  shows "\<exists>p'. parse_dimm_ns_labels e p i = Some (NVM_SUCCESS, p') \<and> ns_wf p' \<and>
    ns_tally p' = fold count_label (area_labels e (areas ! i)) (ns_tally p)"
  using parse_dimm_refines [OF assms(1,2), of i] assms(3-5) by blast

text \<open>A label of 4096 bytes in blocks of 512, the only one of its namespace, and an area with it.\<close>

definition example_label :: bytes where
  "example_label =
     [1, 2, 3, 4, 5, 6, 7, 8, 9, 10, 11, 12, 13, 14, 15, 16, 0, 0, 0, 0, 0, 0, 0, 0, 0, 0, 0, 0, 0, 0,
      0, 0, 0, 0, 0, 0, 0, 0, 0, 0, 0, 0, 0, 0, 0, 0, 0, 0, 0, 0, 0, 0, 0, 0, 0, 0, 0, 0, 0, 0, 0, 0,
      0, 0, 0, 0, 0, 0, 0, 0, 0, 0, 0, 0, 0, 0, 0, 0, 0, 0, 0, 0, 0, 0, 1, 0, 0, 0, 7, 0, 0, 0, 0, 0,
      0, 0, 0, 2, 0, 0, 0, 0, 0, 0, 0, 0, 0, 0, 0, 0, 0, 0, 0, 16, 0, 0, 0, 0, 0, 0, 0, 0, 0, 0, 0, 0,
      0, 0, 121, 211, 240, 102, 243, 180, 116, 64, 172, 67, 13, 51, 24, 183, 140, 219, 0, 0, 0, 0, 0,
      0, 0, 0, 0, 0, 0, 0, 0, 0, 0, 0, 0, 0, 0, 0, 0, 0, 0, 0, 0, 0, 0, 0, 0, 0, 0, 0, 0, 0, 0, 0, 0,
      0, 0, 0, 0, 0, 0, 0, 0, 0, 0, 0, 0, 0, 0, 0, 0, 0, 0, 0, 0, 0, 0, 0, 0, 0, 0, 0, 0, 0, 0, 0, 0,
      0, 0, 0, 0, 0, 0, 0, 0, 0, 0, 0, 0, 0, 0, 0, 0, 0, 0, 0, 0, 0, 0, 0, 0, 0, 0, 0, 0, 0, 0, 0, 0,
      0, 0, 0, 84, 181, 35, 222, 128, 88, 123, 63]"

definition area_of :: "bytes \<Rightarrow> bytes" where
  "area_of l = example_index1 @ replicate 256 0 @ l @ replicate 129280 0"

definition example_area :: bytes where
  "example_area = area_of example_label"

definition example_env :: label_env where
  "example_env = \<lparr>lsa_addr = 0, label_addr = 0, lb_alloc = \<lambda>_. True, guid_garbage = replicate 16 0,
     uid_garbage = replicate 37 0,
     fresh_details = \<lambda>_. zero_namespace_details
       \<lparr>ns_discovery := \<lparr>namespace_uid = replicate 37 0, friendly_name = replicate 64 0\<rparr>\<rparr>\<rparr>"

lemma example_env: "label_env_ok example_env"
  by (simp add: label_env_ok_def example_env_def)

lemma example_label_fletcher:
  "fletcher64 (fletcher_words example_label 256 (In_Data 248)) = fld example_label 248 8"
  by (simp add: fletcher_words_def example_label_def masked_def upto_64 fld_def fletcher64_def)

lemma example_label:
  "length example_label = 256" "label_ok example_label" "label_block_size example_label = 512"
  "label_size example_label = 8" "label_weight example_label = 1" "lb_nlabel example_label = 1"
  "lb_uuid example_label = [1, 2, 3, 4, 5, 6, 7, 8, 9, 10, 11, 12, 13, 14, 15, 16]"
proof -
  show "length example_label = 256" by (simp add: example_label_def)
  show "label_ok example_label"
    unfolding label_ok_def example_label_fletcher
    by (simp add: example_label_def fld_def PM_GUID_def NS_FLAGS_UPDATING_def lb_flags_def lb_rawsize_def
        lb_type_guid_def lb_position_def lb_nlabel_def)
qed (simp_all add: example_label_def fld_def label_block_size_def label_size_def label_weight_def
    lb_lba_size_def lb_rawsize_def lb_position_def lb_nlabel_def lb_uuid_def)

lemma area_of:
  assumes "length l = 256" and "label_ok l" and "label_block_size l \<noteq> 0"
  shows "length (area_of l) = 130048" and "area_labels example_env (area_of l) = [l]"
    and "area_ok example_env (area_of l)"
proof -
  show len: "length (area_of l) = 130048"
    by (simp add: area_of_def example_index1 assms)
  have x: "lsa_index1 (area_of l) = example_index1" "lsa_index2 (area_of l) = replicate 256 0"
    "lsa_labels (area_of l) = l @ replicate 129280 0"
    by (simp_all add: lsa_index1_def lsa_index2_def lsa_labels_def LABELS_SIZE_def area_of_def
        example_index1 assms)
  have "\<not> index_ok (replicate 256 0) 1" by (simp add: index_ok_def ix_major_def fld_def numeral_2_eq_2)
  then have i: "area_index (area_of l) = Some example_index1"
    using choose_index_block_eq [OF len, of 0] example_index1 by (simp add: area_index_def x)
  have n: "ix_nlabel example_index1 = 1" "ix_minor example_index1 = 2" "slot_used example_index1 0"
    by (simp_all add: example_simps example_index1_def slot_used_def ix_free_def)
  have "slot_label example_env (l @ replicate 129280 0) example_index1 0 = Some l"
    using assms(1) by (simp add: slot_label_def n rd_bytes_def)
  then show ls: "area_labels example_env (area_of l) = [l]"
    using n assms(2) by (simp add: area_labels_def i x used_labels_def)
  show "area_ok example_env (area_of l)"
    by (simp add: area_ok_def len i ls n slot_limit_def assms)
qed

lemma example_area:
  "length example_area = 130048" "area_labels example_env example_area = [example_label]"
  "area_ok example_env example_area"
  using area_of [of example_label] by (simp_all add: example_area_def example_label)

theorem parse_dimm_ns_labels_refines_witness:
  "\<exists>p'. parse_dimm_ns_labels example_env
      \<lparr>nsd_dimm_count = 1, nsd_dimm_list = [], nsd_dimm_nslsa_list = [example_area], nsd_ns_count = 0,
       nsd_ns_list = None, nsd_iset_count = 0, nsd_iset_list = []\<rparr> 0 = Some (NVM_SUCCESS, p') \<and>
    ns_tally p' = [(label_key example_label, 8, 1, 1)]"
  using parse_dimm_ns_labels_refines [OF example_env _ refl, of "\<lparr>nsd_dimm_count = 1, nsd_dimm_list = [],
      nsd_dimm_nslsa_list = [example_area], nsd_ns_count = 0, nsd_ns_list = None, nsd_iset_count = 0,
      nsd_iset_list = []\<rparr>" 0] example_area
  by (auto simp: ns_wf_def ns_entries_def ns_tally_def count_label_def example_label)

section \<open>Labels outside the area\<close>

lemma slot_label_out:
  assumes "length labels = 129536" and "slot_limit x \<le> i" and "ix_major x = 1" and "ix_minor x \<in> {1, 2}"
  shows "parse_slot e labels x i p = None"
  using assms
  by (auto simp: parse_slot_def slot_limit_def rd_bytes_def LABEL_V1_1_SIZE_def LABEL_SIZE_def LABEL_V1_2_SIZE_def
      split: if_splits)

lemma parse_slots_loop_outside:
  assumes "label_env_ok e" and "length labels = 129536" and "length (ix_free x) = 128"
    and "ix_major x = 1" and "ix_minor x \<in> {1, 2}" and "n \<le> 1024" and "slot_limit x \<le> j" and "j < n" and "slot_used x j"
    and "\<forall>l \<in> set (used_labels e labels x [0 ..< slot_limit x]). label_block_size l \<noteq> 0"
    and "i \<le> j" and "ns_wf p"
  shows "parse_slots_loop e labels x n i p = None"
  using assms(11,12)
proof (induction "j - i" arbitrary: i p)
  case 0
  then have "i = j" by simp
  moreover have "is_slot_free (ix_free x) j = Some False"
    using assms(3,6,8,9) by (simp add: is_slot_free_def slot_used_def rd_in)
  ultimately show ?case
    using slot_label_out [OF assms(2,7,4,5)] assms(8) by (subst parse_slots_loop.simps) simp
next
  case (Suc k)
  then have i: "i < j" "i < n" using assms(8) by simp_all
  have free: "is_slot_free (ix_free x) i = Some (\<not> slot_used x i)"
    using assms(3,6) i by (simp add: is_slot_free_def slot_used_def rd_in)
  consider "\<not> slot_used x i" | "slot_used x i" "slot_limit x \<le> i" | "slot_used x i" "i < slot_limit x"
    by linarith
  then show ?case
  proof cases
    case 1
    have "parse_slots_loop e labels x n (Suc i) p = None" by (rule Suc.hyps) (use Suc i in auto)
    then show ?thesis using 1 i by (subst parse_slots_loop.simps) (simp add: free)
  next
    case 2
    then show ?thesis
      using slot_label_out [OF assms(2) 2(2) assms(4,5)] i by (subst parse_slots_loop.simps) (simp add: free)
  next
    case 3
    obtain l where l: "slot_label e labels x i = Some l" using slot_label_in [OF assms(1,2) 3(2)] by auto
    have b: "label_block_size l \<noteq> 0" if "label_ok l"
      using assms(5,10) 3 l that by (force simp: used_labels_def)
    obtain p' where p': "parse_slot e labels x i p = Some (NVM_SUCCESS, p')" "ns_wf p'"
      using parse_slot_refines [OF assms(1) Suc.prems(2) assms(2) 3(2) assms(4,5) l b] by blast
    have "parse_slots_loop e labels x n (Suc i) p' = None" by (rule Suc.hyps) (use Suc i p' in auto)
    then show ?thesis using 3 i p' by (subst parse_slots_loop.simps) (simp add: free)
  qed
qed

text \<open>
  C36: The limit on the number of labels does not protect the area. The code accepts an index block with
  up to 1020 labels whatever their size, and 1012 labels of version 1.1, or 506 of version 1.2, fill the
  area. When the block in use marks a slot beyond that as used, the code reads outside the area.
\<close>

theorem label_slots_past_the_area:
  assumes "label_env_ok e" and "ns_wf p" and "nsd_dimm_nslsa_list p = areas" and "i < length areas"
    and "length (areas ! i) = 130048" and "area_index (areas ! i) = Some x" and "ix_minor x \<in> {1, 2}"
    and "j < unat (ix_nlabel x)" and "(if ix_minor x = 1 then 1012 else 506) \<le> j" and "slot_used x j"
    and "\<forall>l \<in> set (used_labels e (lsa_labels (areas ! i)) x [0 ..< slot_limit x]). label_block_size l \<noteq> 0"
  shows "parse_dimm_ns_labels e p i = None"
proof -
  let ?a = "areas ! i"
  note x = area_index_ok [OF assms(5,6)]
  obtain c where c: "choose_index_block 0 ?a = Some c" "c \<noteq> 0" "x = (if c = 1 then lsa_index1 ?a else lsa_index2 ?a)"
    using assms(6) by (auto simp: area_index_def split: option.splits if_splits)
  have k: "choose_index_block (lsa_addr e) ?a = choose_index_block 0 ?a"
    by (rule choose_index_block_addr [OF assms(5)]) (use assms(1) in \<open>simp add: label_env_ok_def\<close>)
  have n: "unat (ix_nlabel x) \<le> 1024" using area_index_nlabel [OF assms(5,6)] by simp
  have "length (lsa_labels ?a) = 129536" using assms(5) by (simp add: lsa_labels_def LABELS_SIZE_def)
  from parse_slots_loop_outside [OF assms(1) this x(4,2) assms(7) n _ assms(8,10,11) _ assms(2), of 0] assms(9)
  have "parse_slots_loop e (lsa_labels ?a) x (unat (ix_nlabel x)) 0 p = None" by (simp add: slot_limit_def)
  then show ?thesis
    using c assms(3,4) k by (simp add: parse_dimm_ns_labels_def rd_in Let_def del: if_split)
qed

text \<open>An index block with one label more than an area holds, and that label in use.\<close>

definition long_index :: bytes where
  "long_index =
     [78, 65, 77, 69, 83, 80, 65, 67, 69, 95, 73, 78, 68, 69, 88, 0, 0, 0, 0, 0, 1, 0, 0, 0, 0, 0, 0,
      0, 0, 0, 0, 0, 0, 1, 0, 0, 0, 0, 0, 0, 0, 1, 0, 0, 0, 0, 0, 0, 0, 0, 0, 0, 0, 0, 0, 0, 251, 1,
      0, 0, 1, 0, 2, 0, 23, 58, 50, 211, 225, 122, 147, 111, 255, 255, 255, 255, 255, 255, 255, 255,
      255, 255, 255, 255, 255, 255, 255, 255, 255, 255, 255, 255, 255, 255, 255, 255, 255, 255, 255,
      255, 255, 255, 255, 255, 255, 255, 255, 255, 255, 255, 255, 255, 255, 255, 255, 255, 255, 255,
      255, 255, 255, 255, 255, 255, 255, 255, 255, 255, 255, 255, 255, 255, 255, 255, 255, 251, 0, 0,
      0, 0, 0, 0, 0, 0, 0, 0, 0, 0, 0, 0, 0, 0, 0, 0, 0, 0, 0, 0, 0, 0, 0, 0, 0, 0, 0, 0, 0, 0, 0, 0,
      0, 0, 0, 0, 0, 0, 0, 0, 0, 0, 0, 0, 0, 0, 0, 0, 0, 0, 0, 0, 0, 0, 0, 0, 0, 0, 0, 0, 0, 0, 0, 0,
      0, 0, 0, 0, 0, 0, 0, 0, 0, 0, 0, 0, 0, 0, 0, 0, 0, 0, 0, 0, 0, 0, 0, 0, 0, 0, 0, 0, 0, 0, 0, 0,
      0, 0, 0, 0, 0, 0, 0, 0, 0, 0, 0, 0, 0, 0, 0, 0, 0, 0, 0, 0, 0, 0]"

lemma long_index_fletcher:
  "fletcher64 (fletcher_words long_index 256 (In_Data 64)) = fld long_index 64 8"
  by (simp add: fletcher_words_def long_index_def masked_def upto_64 fld_def fletcher64_def)

lemma long_index: "length long_index = 256" "index_ok long_index 0" "slot_used long_index 506"
  "unat (ix_nlabel long_index) = 507" "ix_minor long_index = 2"
proof -
  show "index_ok long_index 0"
    unfolding index_ok_def long_index_fletcher
    by (simp add: example_simps long_index_def NS_INDEX_SIGNATURE_def c_literal_def)
  show "slot_used long_index 506" by (simp add: long_index_def slot_used_def ix_free_def)
qed (simp_all add: example_simps long_index_def)

theorem label_slots_past_the_area_witness:
  "parse_dimm_ns_labels example_env
     \<lparr>nsd_dimm_count = 1, nsd_dimm_list = [], nsd_dimm_nslsa_list = [long_index @ replicate 129792 0],
      nsd_ns_count = 0, nsd_ns_list = None, nsd_iset_count = 0, nsd_iset_list = []\<rparr> 0 = None"
proof -
  let ?a = "long_index @ replicate 129792 0"
  have len: "length ?a = 130048" by (simp add: long_index)
  have x: "lsa_index1 ?a = long_index" "lsa_index2 ?a = replicate 256 0" "lsa_labels ?a = replicate 129536 0"
    by (simp_all add: lsa_index1_def lsa_index2_def lsa_labels_def LABELS_SIZE_def long_index)
  have "\<not> index_ok (replicate 256 0) 1" by (simp add: index_ok_def ix_major_def fld_def numeral_2_eq_2)
  then have i: "area_index ?a = Some long_index"
    using choose_index_block_eq [OF len, of 0] long_index by (simp add: area_index_def x)
  have z: "\<not> label_ok (take 256 (drop n (replicate m 0)))" for n m
    by (simp add: label_ok_def lb_rawsize_def fld_def take_replicate drop_replicate)
  then have "used_labels example_env (lsa_labels ?a) long_index [0 ..< slot_limit long_index] = []"
    by (auto simp: used_labels_def x slot_label_def long_index rd_bytes_def slot_limit_def filter_empty_conv)
  then show ?thesis
    using label_slots_past_the_area [OF example_env _ refl, of "\<lparr>nsd_dimm_count = 1, nsd_dimm_list = [],
        nsd_dimm_nslsa_list = [?a], nsd_ns_count = 0, nsd_ns_list = None, nsd_iset_count = 0, nsd_iset_list = []\<rparr>"
        0 long_index 506] i long_index len
    by (simp add: ns_wf_def ns_entries_def)
qed

end
