(* ===== verification/Namespace_Populate_Facts.thy ===== *)
theory Namespace_Populate_Facts
  imports Namespace_Populate Namespace_Tally Device_Facts "HOL-Library.Multiset"
begin

text \<open>
  Facts on the namespaces that \<open>populate_namespaces\<close> finds and caches: their sizes as sums over the
  labels of all DIMMs, what the test for completeness accepts, and what later calls read from the cache.
\<close>

section \<open>All DIMMs\<close>

lemma parse_dimms_loop_refines:
  assumes "label_env_ok e" and "ns_wf p" and "nsd_dimm_nslsa_list p = areas"
    and "n \<le> length areas" and "\<forall>a \<in> set areas. area_ok e a" and "i \<le> n"
  shows "\<exists>p'. parse_dimms_loop e n i rc p = Some (if i < n then NVM_SUCCESS else rc, p') \<and> ns_wf p' \<and>
    ns_tally p' = fold count_label (concat (map (area_labels e) (drop i (take n areas)))) (ns_tally p)"
  using assms(2,3,6)
proof (induction "n - i" arbitrary: i p rc)
  case 0
  then show ?case by (simp add: parse_dimms_loop.simps)
next
  case (Suc k)
  then have i: "i < n" "i < length areas" using assms(4) by simp_all
  obtain p1 where p1: "parse_dimm_ns_labels e p i = Some (NVM_SUCCESS, p1)" "ns_wf p1"
      "nsd_dimm_nslsa_list p1 = areas" "ns_tally p1 = fold count_label (area_labels e (areas ! i)) (ns_tally p)"
    using parse_dimm_refines [OF assms(1) Suc.prems(1), of i] Suc.prems(2) i assms(5) by auto
  have d: "drop i (take n areas) = areas ! i # drop (Suc i) (take n areas)"
    using i by (simp add: Cons_nth_drop_Suc [symmetric])
  have "\<exists>p'. parse_dimms_loop e n (Suc i) NVM_SUCCESS p1 = Some (if Suc i < n then NVM_SUCCESS else NVM_SUCCESS, p') \<and>
      ns_wf p' \<and>
      ns_tally p' = fold count_label (concat (map (area_labels e) (drop (Suc i) (take n areas)))) (ns_tally p1)"
    by (rule Suc.hyps) (use Suc p1 i in auto)
  then show ?case using i p1 by (subst parse_dimms_loop.simps) (auto simp: d)
qed

lemma label_sums:
  assumes "label_env_ok e" and "ns_wf p" and "ns_entries p = []" and "areas \<noteq> []"
    and "nsd_dimm_nslsa_list p = areas" and "\<forall>a \<in> set areas. area_ok e a"
    and "ls = concat (map (area_labels e) areas)"
  shows "\<exists>p'. parse_dimms_loop e (length areas) 0 1 p = Some (NVM_SUCCESS, p') \<and>
    distinct (map ns_key (ns_entries p')) \<and>
    (\<forall>k. map_of (ns_tally p') k =
      (case filter (\<lambda>l. label_key l = k) ls of
         [] \<Rightarrow> None
       | l # r \<Rightarrow> Some (sum_sizes (l # r), sum_weights (l # r), lb_nlabel l)))"
proof -
  obtain p' where p': "parse_dimms_loop e (length areas) 0 1 p = Some (NVM_SUCCESS, p')"
      "ns_tally p' = fold count_label ls (ns_tally p)"
    using parse_dimms_loop_refines [OF assms(1,2,5) order_refl assms(6), of 0 1] assms(4,7) by auto
  have t: "ns_tally p = []" using assms(3) by (simp add: ns_tally_def)
  have "map fst (ns_tally p') = map ns_key (ns_entries p')" by (simp add: ns_tally_def)
  then have "distinct (map ns_key (ns_entries p'))"
    using count_label_keys [of "[]" ls] p'(2) t by simp
  then show ?thesis using p' tally_new [of "[]" _ ls] t by simp
qed

lemma mset_area_labels:
  assumes "mset areas = mset areas'"
  shows "mset (concat (map (area_labels e) areas)) = mset (concat (map (area_labels e) areas'))"
proof -
  have "mset (concat (map (area_labels e) as)) = (\<Sum>a \<in># mset as. mset (area_labels e a))" for as
    by (induction as) simp_all
  then show ?thesis using assms by simp
qed

text \<open>The size and the label sum of a namespace, without the number of labels it should have\<close>

definition size_and_sum :: "u64 \<times> u32 \<times> u16 \<Rightarrow> u64 \<times> u32" where
  "size_and_sum v = (fst v, fst (snd v))"

lemma size_and_sum_perm:
  assumes "mset ls = mset ls'"
  shows "map_option size_and_sum
      (case ls of [] \<Rightarrow> None | l # r \<Rightarrow> Some (sum_sizes (l # r), sum_weights (l # r), lb_nlabel l)) =
    map_option size_and_sum
      (case ls' of [] \<Rightarrow> None | l # r \<Rightarrow> Some (sum_sizes (l # r), sum_weights (l # r), lb_nlabel l))"
proof -
  have s: "sum_sizes ls = sum_sizes ls'" "sum_weights ls = sum_weights ls'"
    using assms by (simp_all add: sum_sizes_def sum_weights_def sum_mset_sum_list [symmetric] mset_map)
  have "ls = [] \<longleftrightarrow> ls' = []" using assms by (metis mset_zero_iff)
  then show ?thesis using s by (auto simp: size_and_sum_def split: list.splits)
qed

text \<open>
  C4: The namespaces found on the DIMMs. When allocations succeed, reading the labels of all DIMMs into
  an empty list gives one namespace for each UID that a valid label has, whichever DIMMs its labels are
  on, and no other, for label areas of 130048 bytes whose index block in force has no more slots than
  fit (1012 in version 1.1, 506 otherwise) and in which no label that counts has a block size that is a
  multiple of \<open>2 ^ 32\<close>. The size of a namespace is the sum of the sizes of its labels, its
  label sum that of their positions plus one, and the number of labels it should have is what the first
  of them says. With the DIMMs in another order the same namespaces are found, with the same sizes and
  the same label sums.
\<close>

theorem namespaces_are_label_sums:
  assumes "label_env_ok e" and "ns_wf p" and "ns_entries p = []" and "areas \<noteq> []"
    and "nsd_dimm_nslsa_list p = areas" and "\<forall>a \<in> set areas. area_ok e a"
    and "ls = concat (map (area_labels e) areas)"
  shows "\<exists>p'. parse_dimms_loop e (length areas) 0 1 p = Some (NVM_SUCCESS, p') \<and>
    distinct (map ns_key (ns_entries p')) \<and>
    (\<forall>k. map_of (ns_tally p') k =
      (case filter (\<lambda>l. label_key l = k) ls of
         [] \<Rightarrow> None
       | l # r \<Rightarrow> Some (sum_sizes (l # r), sum_weights (l # r), lb_nlabel l))) \<and>
    (\<forall>q. ns_wf q \<and> ns_entries q = [] \<and> mset (nsd_dimm_nslsa_list q) = mset areas \<longrightarrow>
      (\<exists>q'. parse_dimms_loop e (length areas) 0 1 q = Some (NVM_SUCCESS, q') \<and>
        distinct (map ns_key (ns_entries q')) \<and>
        (\<forall>k. map_option size_and_sum (map_of (ns_tally q') k) =
             map_option size_and_sum (map_of (ns_tally p') k))))"
proof -
  obtain p' where p': "parse_dimms_loop e (length areas) 0 1 p = Some (NVM_SUCCESS, p')"
      "distinct (map ns_key (ns_entries p'))"
      "\<forall>k. map_of (ns_tally p') k =
        (case filter (\<lambda>l. label_key l = k) ls of
           [] \<Rightarrow> None
         | l # r \<Rightarrow> Some (sum_sizes (l # r), sum_weights (l # r), lb_nlabel l))"
    using label_sums [OF assms] by blast
  have "\<exists>q'. parse_dimms_loop e (length areas) 0 1 q = Some (NVM_SUCCESS, q') \<and>
      distinct (map ns_key (ns_entries q')) \<and>
      (\<forall>k. map_option size_and_sum (map_of (ns_tally q') k) = map_option size_and_sum (map_of (ns_tally p') k))"
    if q: "ns_wf q" "ns_entries q = []" "mset (nsd_dimm_nslsa_list q) = mset areas" for q
  proof -
    let ?as = "nsd_dimm_nslsa_list q"
    have l: "length ?as = length areas" "set ?as = set areas"
      using q(3) by (auto dest: mset_eq_length mset_eq_setD)
    then have ne: "?as \<noteq> []" "\<forall>a \<in> set ?as. area_ok e a" using assms(4,6) by auto
    have m: "mset (filter (\<lambda>l. label_key l = k) (concat (map (area_labels e) ?as))) =
        mset (filter (\<lambda>l. label_key l = k) ls)" for k
      using mset_area_labels [OF q(3), of e] assms(7) by simp
    show ?thesis
      using label_sums [OF assms(1) q(1,2) ne(1) refl ne(2) refl] p'(3) size_and_sum_perm [OF m]
      by (auto simp: l(1))
  qed
  then show ?thesis using p' by blast
qed

text \<open>The first of two labels of a namespace, alone in its area.\<close>

definition half_label :: bytes where
  "half_label = example_label[84 := 2, 248 := 85, 252 := 171]"

lemma half_label_fletcher:
  "fletcher64 (fletcher_words half_label 256 (In_Data 248)) = fld half_label 248 8"
  by (simp add: fletcher_words_def half_label_def example_label_def masked_def upto_64 fld_def fletcher64_def)

lemma half_label:
  "length half_label = 256" "label_ok half_label" "label_block_size half_label = 512"
  "label_size half_label = 8" "label_weight half_label = 1" "lb_nlabel half_label = 2"
proof -
  show "length half_label = 256" by (simp add: half_label_def example_label_def)
  show "label_ok half_label"
    unfolding label_ok_def half_label_fletcher
    by (simp add: half_label_def example_label_def fld_def PM_GUID_def NS_FLAGS_UPDATING_def lb_flags_def
        lb_rawsize_def lb_type_guid_def lb_position_def lb_nlabel_def)
qed (simp_all add: half_label_def example_label_def fld_def label_block_size_def label_size_def label_weight_def
    lb_lba_size_def lb_rawsize_def lb_position_def lb_nlabel_def)

lemma half_area:
  "area_ok example_env (area_of half_label)" "area_labels example_env (area_of half_label) = [half_label]"
  using area_of [of half_label] by (simp_all add: half_label)

lemma half_key: "label_key half_label = label_key example_label"
  by (simp add: label_key_def lb_uuid_def half_label_def example_label_def fld_def)

theorem namespaces_are_label_sums_witness:
  "\<exists>p' q'. parse_dimms_loop example_env 2 0 1
      \<lparr>nsd_dimm_count = 2, nsd_dimm_list = [], nsd_dimm_nslsa_list = [area_of half_label, example_area],
       nsd_ns_count = 0, nsd_ns_list = None, nsd_iset_count = 0, nsd_iset_list = []\<rparr> = Some (NVM_SUCCESS, p') \<and>
    map_of (ns_tally p') (label_key example_label) = Some (16, 2, 2) \<and>
    parse_dimms_loop example_env 2 0 1
      \<lparr>nsd_dimm_count = 2, nsd_dimm_list = [], nsd_dimm_nslsa_list = [example_area, area_of half_label],
       nsd_ns_count = 0, nsd_ns_list = None, nsd_iset_count = 0, nsd_iset_list = []\<rparr> = Some (NVM_SUCCESS, q') \<and>
    map_option size_and_sum (map_of (ns_tally q') (label_key example_label)) = Some (16, 2)"
proof -
  let ?p = "\<lambda>as. \<lparr>nsd_dimm_count = 2, nsd_dimm_list = [], nsd_dimm_nslsa_list = as,
     nsd_ns_count = 0, nsd_ns_list = None, nsd_iset_count = 0, nsd_iset_list = []\<rparr>"
  let ?as = "[area_of half_label, example_area]"
  have w: "ns_wf (?p as)" "ns_entries (?p as) = []" for as by (simp_all add: ns_wf_def ns_entries_def)
  have "?as \<noteq> []" "nsd_dimm_nslsa_list (?p ?as) = ?as" "\<forall>a \<in> set ?as. area_ok example_env a"
    "[half_label, example_label] = concat (map (area_labels example_env) ?as)"
    by (simp_all add: example_area half_area)
  from namespaces_are_label_sums [OF example_env w [of ?as] this]
  obtain p' where p': "parse_dimms_loop example_env (length ?as) 0 1 (?p ?as) = Some (NVM_SUCCESS, p')"
    and k: "\<forall>k. map_of (ns_tally p') k =
      (case filter (\<lambda>l. label_key l = k) [half_label, example_label] of
         [] \<Rightarrow> None
       | l # r \<Rightarrow> Some (sum_sizes (l # r), sum_weights (l # r), lb_nlabel l))"
    and q: "\<forall>q. ns_wf q \<and> ns_entries q = [] \<and> mset (nsd_dimm_nslsa_list q) = mset ?as \<longrightarrow>
      (\<exists>q'. parse_dimms_loop example_env (length ?as) 0 1 q = Some (NVM_SUCCESS, q') \<and>
        distinct (map ns_key (ns_entries q')) \<and>
        (\<forall>k. map_option size_and_sum (map_of (ns_tally q') k) =
             map_option size_and_sum (map_of (ns_tally p') k)))"
    by (elim exE conjE, intro that)
  have v: "map_of (ns_tally p') (label_key example_label) = Some (16, 2, 2)"
    using k by (simp add: sum_sizes_def sum_weights_def example_label half_label half_key)
  obtain q' where "parse_dimms_loop example_env 2 0 1 (?p [example_area, area_of half_label]) = Some (NVM_SUCCESS, q')"
      "map_option size_and_sum (map_of (ns_tally q') (label_key example_label)) =
        map_option size_and_sum (map_of (ns_tally p') (label_key example_label))"
    using q [rule_format, of "?p [example_area, area_of half_label]"] w [of "[example_area, area_of half_label]"]
    by (auto simp: numeral_2_eq_2)
  then show ?thesis using p' v by (simp add: size_and_sum_def numeral_2_eq_2)
qed

section \<open>Completeness\<close>

lemma sum_weights_positions:
  "sum_weights ls = of_nat (sum_list (map (\<lambda>l. unat (lb_position l) + 1) ls))"
  by (induction ls) (simp_all add: sum_weights_def label_weight_def add.commute)

lemma sum_of_positions:
  "mset (map (\<lambda>l. unat (lb_position l)) ls) = M \<Longrightarrow>
   sum_list (map (\<lambda>l. unat (lb_position l) + 1) ls) = (\<Sum>m \<in># M. m + 1)"
  by (auto simp: sum_mset_sum_list [symmetric] image_mset.compositionality comp_def)

lemma gauss: "(\<Sum>m \<in># mset [0 ..< n]. m + 1) = n * (n + 1) div 2"
  by (induction n) simp_all

text \<open>
  When the labels of a namespace have each position below the number of labels once, in any
  order, the namespace counts as complete.
\<close>

theorem all_labels_complete:
  assumes "unat (ns_nlabels x) = n" and "n \<le> 46340" and "ns_label_sum x = sum_weights ls"
    and "mset (map (\<lambda>l. unat (lb_position l)) ls) = mset [0 ..< n]"
  shows "is_namespace_complete x = Some True"
proof -
  have "n * (n + 1) \<le> 46340 * 46341" using assms(2) by (intro mult_mono) simp_all
  then have "n * (n + 1) < 2 ^ 31" by simp
  then show ?thesis
    using assms sum_of_positions [OF assms(4)] gauss [of n]
    by (simp add: is_namespace_complete_def sum_weights_positions Let_def)
qed

lemma example_label_position: "lb_position example_label = 0"
  by (simp add: example_label_def lb_position_def fld_def)

theorem all_labels_complete_witness:
  "is_namespace_complete (zero_namespace_details\<lparr>ns_nlabels := 1, ns_label_sum := sum_weights [example_label]\<rparr>) =
   Some True"
  by (rule all_labels_complete [where n = 1 and ls = "[example_label]"])
    (simp_all add: example_label_position)

text \<open>
  A label that is missing can go unnoticed. A label may have the position \<open>nlabel\<close>, one
  past the last, and only the sum of the positions is compared: a namespace of \<open>n\<close> labels of which
  \<open>n - 1\<close> are found, at the positions 1 to \<open>n - 2\<close> and \<open>n\<close>, counts as complete, the
  labels 0 and \<open>n - 1\<close> missing.
\<close>

theorem missing_label_unnoticed:
  assumes "unat (ns_nlabels x) = n" and "2 \<le> n" and "n \<le> 46340" and "ns_label_sum x = sum_weights ls"
    and "mset (map (\<lambda>l. unat (lb_position l)) ls) = mset (n # [1 ..< n - 1])"
  shows "is_namespace_complete x = Some True"
proof -
  have "n * (n + 1) \<le> 46340 * 46341" using assms(3) by (intro mult_mono) simp_all
  then have b: "n * (n + 1) < 2 ^ 31" by simp
  obtain k where k: "n = Suc (Suc k)" using assms(2) by (metis Suc_diff_le add_2_eq_Suc le_Suc_ex)
  have up: "[0 ..< n] = 0 # [1 ..< n - 1] @ [n - 1]" by (simp add: k upt_rec [of 0])
  have "(\<Sum>m \<in># mset (n # [1 ..< n - 1]). m + 1) = (\<Sum>m \<in># mset [0 ..< n]. m + 1)"
    unfolding up by (simp add: k)
  then show ?thesis
    using b assms sum_of_positions [OF assms(5)] gauss [of n]
    by (simp add: is_namespace_complete_def sum_weights_positions Let_def)
qed

theorem missing_label_unnoticed_witness:
  "is_namespace_complete
     (zero_namespace_details\<lparr>ns_nlabels := 2, ns_label_sum := sum_weights [example_label[86 := 2]]\<rparr>) = Some True"
  by (rule missing_label_unnoticed [where n = 2 and ls = "[example_label[86 := 2]]"])
    (simp_all add: example_label_def lb_position_def fld_def)

section \<open>The cached namespaces\<close>

definition complete_of :: "nvm_namespace_details list \<Rightarrow> nvm_namespace_details list" where
  "complete_of l = filter (\<lambda>x. is_namespace_complete x = Some True) l"

lemma complete_of_step:
  "i < length l \<Longrightarrow> is_namespace_complete (l ! i) = Some b \<Longrightarrow>
   complete_of (drop i l) = (if b then l ! i # complete_of (drop (Suc i) l) else complete_of (drop (Suc i) l))"
  by (simp add: complete_of_def Cons_nth_drop_Suc [symmetric])

text \<open>
  The copy loop: the complete entries go to the list for the cache, and to the caller's array as far as
  that has room.
\<close>

lemma copy_complete_loop_eq:
  assumes "\<forall>x \<in> set l. is_namespace_complete x \<noteq> None" and "i \<le> length l"
    and "k + length (complete_of (drop i l)) \<le> length tmp" and "0 < n" and "nat n \<le> length out"
    and "int k \<le> n \<or> rc = NVM_ERR_ARRAYTOOSMALL"
  shows "\<exists>out'. copy_complete_loop l (length l) i n k tmp (Some out) rc =
      Some (if int (k + length (complete_of (drop i l))) \<le> n then rc else NVM_ERR_ARRAYTOOSMALL,
            k + length (complete_of (drop i l)),
            take k tmp @ complete_of (drop i l) @ drop (k + length (complete_of (drop i l))) tmp, Some out') \<and>
    length out' = length out \<and>
    take (min (nat n) (k + length (complete_of (drop i l)))) out' =
      take (min (nat n) (k + length (complete_of (drop i l)))) (take k out @ complete_of (drop i l))"
  using assms(2,3,5,6)
proof (induction "length l - i" arbitrary: i k tmp out rc)
  case 0
  then show ?case by (auto simp: copy_complete_loop.simps complete_of_def)
next
  case (Suc j)
  then have i: "i < length l" by simp
  then obtain b where b: "is_namespace_complete (l ! i) = Some b" using assms(1) by (meson nth_mem option.exhaust)
  let ?r = "complete_of (drop (Suc i) l)"
  have c: "complete_of (drop i l) = (if b then l ! i # ?r else ?r)" by (rule complete_of_step [OF i b])
  show ?case
  proof (cases b)
    case False
    have "\<exists>out'. copy_complete_loop l (length l) (Suc i) n k tmp (Some out) rc =
        Some (if int (k + length ?r) \<le> n then rc else NVM_ERR_ARRAYTOOSMALL, k + length ?r,
          take k tmp @ ?r @ drop (k + length ?r) tmp, Some out') \<and> length out' = length out \<and>
        take (min (nat n) (k + length ?r)) out' = take (min (nat n) (k + length ?r)) (take k out @ ?r)"
      by (rule Suc.hyps) (use Suc c False in auto)
    then show ?thesis using i b False c by (subst copy_complete_loop.simps) (simp add: rd_in)
  next
    case True
    let ?tmp = "tmp[k := l ! i]" and ?out = "if int k \<ge> n then out else out[k := l ! i]"
    let ?rc = "if int k \<ge> n then NVM_ERR_ARRAYTOOSMALL else rc"
    have k: "k < length tmp" "Suc k + length ?r \<le> length ?tmp" using Suc.prems(2) c True by simp_all
    have "\<exists>out'. copy_complete_loop l (length l) (Suc i) n (Suc k) ?tmp (Some ?out) ?rc =
        Some (if int (Suc k + length ?r) \<le> n then ?rc else NVM_ERR_ARRAYTOOSMALL, Suc k + length ?r,
          take (Suc k) ?tmp @ ?r @ drop (Suc k + length ?r) ?tmp, Some out') \<and> length out' = length ?out \<and>
        take (min (nat n) (Suc k + length ?r)) out' = take (min (nat n) (Suc k + length ?r)) (take (Suc k) ?out @ ?r)"
      by (rule Suc.hyps) (use Suc k in auto)
    then obtain out' where o: "copy_complete_loop l (length l) (Suc i) n (Suc k) ?tmp (Some ?out) ?rc =
        Some (if int (Suc k + length ?r) \<le> n then ?rc else NVM_ERR_ARRAYTOOSMALL, Suc k + length ?r,
          take (Suc k) ?tmp @ ?r @ drop (Suc k + length ?r) ?tmp, Some out')" "length out' = length ?out"
        "take (min (nat n) (Suc k + length ?r)) out' = take (min (nat n) (Suc k + length ?r)) (take (Suc k) ?out @ ?r)"
      by blast
    have step: "copy_complete_loop l (length l) i n k tmp (Some out) rc =
        copy_complete_loop l (length l) (Suc i) n (Suc k) ?tmp (Some ?out) ?rc"
      using i b True k assms(4) Suc.prems(3)
      by (subst copy_complete_loop.simps) (auto simp: rd_in wr_in)
    have t: "take (Suc k) ?tmp = take k tmp @ [l ! i]" using k by (simp add: take_Suc_conv_app_nth)
    have "take (min (nat n) (Suc k + length ?r)) (take (Suc k) ?out @ ?r) =
        take (min (nat n) (Suc k + length ?r)) (take k out @ l ! i # ?r)"
    proof (cases "int k \<ge> n")
      case True
      then have "nat n \<le> k" by simp
      then show ?thesis using Suc.prems(3) by (simp add: min_def)
    next
      case False
      then have "k < length out" using Suc.prems(3) by linarith
      then show ?thesis using False by (simp add: take_Suc_conv_app_nth)
    qed
    then have "take (min (nat n) (k + length (l ! i # ?r))) out' =
        take (min (nat n) (k + length (l ! i # ?r))) (take k out @ l ! i # ?r)"
      using o(3) by simp
    moreover have "copy_complete_loop l (length l) i n k tmp (Some out) rc =
        Some (if int (k + length (l ! i # ?r)) \<le> n then rc else NVM_ERR_ARRAYTOOSMALL, k + length (l ! i # ?r),
          take k tmp @ (l ! i # ?r) @ drop (k + length (l ! i # ?r)) tmp, Some out')"
      unfolding step o(1) t by simp
    moreover have "length out' = length out" using o(2) by (simp split: if_splits)
    moreover have "complete_of (drop i l) = l ! i # ?r" using c True by simp
    ultimately show ?thesis by metis
  qed
qed

text \<open>A context that can be used and caches nothing on namespaces, and what the DIMMs hold.\<close>

definition cold_context :: "context_env \<Rightarrow> process \<Rightarrow> bool" where
  "cold_context e0 s \<longleftrightarrow>
     lock_ok e0 \<and> unlock_ok e0 \<and> alloc_ok e0 0 \<and>
     (\<exists>c. p_context s = Some c \<and> pcd_namespace_count c < 0 \<and> p_pcd_namespaces c = None \<and> namespace_count c < 0)"

definition dimms_hold ::
    "label_env \<Rightarrow> 'd label_mailbox \<Rightarrow> int \<times> dimm_identity list option \<Rightarrow> int \<times> int \<times> cookie_set list \<Rightarrow>
     'd \<Rightarrow> 'd \<Rightarrow> nvm_namespace_details list \<Rightarrow> bool" where
  "dimms_hold e lm devices isets d d1 l \<longleftrightarrow>
     l \<noteq> [] \<and> lb_alloc e (length l) \<and> (\<forall>x \<in> set l. is_namespace_complete x \<noteq> None) \<and>
     (\<exists>p p1. collect_required_ns_data e lm devices isets d = Some (NVM_SUCCESS, Valid p, d1) \<and>
        parse_dimms_loop e (nat (nsd_dimm_count p)) 0 1 p = Some (NVM_SUCCESS, p1) \<and>
        nsd_ns_list p1 = Some l \<and> nsd_ns_count p1 = length l)"

lemma populate_cold:
  assumes "cold_context e0 s" and "dimms_hold e lm devices isets d d1 l" and "0 < n" and "nat n \<le> length buf"
  shows "\<exists>out s2 c2. populate_namespaces e0 e lm devices isets n (Some buf) (s, d) =
      Some (if int (length (complete_of l)) \<le> n then int (length (complete_of l)) else NVM_ERR_ARRAYTOOSMALL,
            Some out, s2, d1) \<and>
    take (min (nat n) (length (complete_of l))) out = take (min (nat n) (length (complete_of l))) (complete_of l) \<and>
    p_context s2 = Some c2 \<and> pcd_namespace_count c2 = int (length l) \<and>
    p_pcd_namespaces c2 = (if int (length (complete_of l)) \<le> n then Some (complete_of l) else None)"
proof -
  let ?K = "length (complete_of l)"
  obtain c where c: "lock_ok e0" "unlock_ok e0" "alloc_ok e0 0" "p_context s = Some c" "pcd_namespace_count c < 0"
      "p_pcd_namespaces c = None" "namespace_count c < 0"
    using assms(1) by (auto simp: cold_context_def)
  obtain p p1 where p: "collect_required_ns_data e lm devices isets d = Some (NVM_SUCCESS, Valid p, d1)"
      "parse_dimms_loop e (nat (nsd_dimm_count p)) 0 1 p = Some (NVM_SUCCESS, p1)"
      "nsd_ns_list p1 = Some l" "nsd_ns_count p1 = length l"
    and l: "l \<noteq> []" "lb_alloc e (length l)" "\<forall>x \<in> set l. is_namespace_complete x \<noteq> None"
    using assms(2) by (auto simp: dimms_hold_def)
  let ?c1 = "c\<lparr>pcd_namespace_count := int (length l)\<rparr>"
  let ?s1 = "s\<lparr>p_context := Some ?c1\<rparr>"
  have cnt: "set_nvm_context_pcd_namespace_count e0 (int (length l)) s = Some (NVM_SUCCESS, ?s1)"
    using c by (simp add: set_nvm_context_pcd_namespace_count_def locked_def)
  have "?K \<le> length l" by (simp add: complete_of_def)
  then obtain out where out: "copy_complete_loop l (length l) 0 n 0 (replicate (length l) zero_namespace_details) (Some buf) 0 =
      Some (if int ?K \<le> n then 0 else NVM_ERR_ARRAYTOOSMALL, ?K,
        complete_of l @ drop ?K (replicate (length l) zero_namespace_details), Some out)"
      "take (min (nat n) ?K) out = take (min (nat n) ?K) (complete_of l)"
    using copy_complete_loop_eq [OF l(3), of 0 0 "replicate (length l) zero_namespace_details" n buf 0] assms(3,4)
    by auto
  have set: "set_nvm_context_pcd_namespaces e0 (complete_of l @ drop ?K (replicate (length l) zero_namespace_details))
      (int ?K) ?s1 = Some (NVM_SUCCESS, s\<lparr>p_context := Some (?c1\<lparr>p_pcd_namespaces := Some (complete_of l)\<rparr>)\<rparr>)"
    using c by (simp add: set_nvm_context_pcd_namespaces_def on_context_def locked_def free_namespace_list_def
        free_pcd_namespace_list_def rd_bytes_def split: option.splits)
  have g: "get_nvm_context_pcd_namespace_count e0 s = Some NVM_ERR_CONTEXT"
    using c by (simp add: get_nvm_context_pcd_namespace_count_def from_context_def)
  show ?thesis
  proof (cases "int ?K \<le> n")
    case True
    then show ?thesis
      using out set by (simp add: populate_namespaces_def g p populate_from_dimms_def cnt l)
  next
    case False
    then show ?thesis
      using out c by (simp add: populate_namespaces_def g p populate_from_dimms_def cnt l)
  qed
qed

lemma populate_warm:
  assumes "lock_ok e0" and "unlock_ok e0" and "p_context s = Some c" and "0 < pcd_namespace_count c"
    and "n \<noteq> 0"
  shows "populate_namespaces e0 e lm devices isets n (Some buf) (s, d) =
    map_option (\<lambda>(rc, buf'). (rc, Some buf', s, d)) (get_nvm_context_pcd_namespaces e0 s buf n)"
  using assms
  by (simp add: populate_namespaces_def get_nvm_context_pcd_namespace_count_def from_context_def map_option_case
      split: option.splits prod.splits)

text \<open>
  C25: Later calls answer from the cache. When the DIMMs hold complete namespaces only and the
  caller's array has room for them, the first call returns them and their number; a second call, with an
  array that has room, returns the same namespaces and sends no command to any device, whatever the devices
  have become.
\<close>

theorem namespaces_cached:
  assumes "cold_context e0 s" and "dimms_hold e lm devices isets d d1 l"
    and "\<forall>x \<in> set l. is_namespace_complete x = Some True"
    and "int (length l) \<le> n" and "nat n \<le> length buf" and "int (length l) \<le> n2" and "nat n2 \<le> length buf2"
  shows "\<exists>out s2 out2. populate_namespaces e0 e lm devices isets n (Some buf) (s, d) =
      Some (int (length l), Some out, s2, d1) \<and> take (length l) out = l \<and>
    populate_namespaces e0 e lm devices2 isets2 n2 (Some buf2) (s2, d2) =
      Some (int (length l), Some out2, s2, d2) \<and> take (length l) out2 = l"
proof -
  have l: "l \<noteq> []" using assms(2) by (simp add: dimms_hold_def)
  have k: "complete_of l = l" using assms(3) by (simp add: complete_of_def)
  have pos: "0 < n" "0 < n2" using l assms(4,6) by (cases l; simp)+
  obtain out s2 c2 where o: "populate_namespaces e0 e lm devices isets n (Some buf) (s, d) =
      Some (int (length l), Some out, s2, d1)" "take (length l) out = l"
    and c2: "p_context s2 = Some c2" "pcd_namespace_count c2 = int (length l)" "p_pcd_namespaces c2 = Some l"
    using populate_cold [OF assms(1,2) pos(1) assms(5)] assms(4) k by (auto simp: min_absorb2)
  have e0: "lock_ok e0" "unlock_ok e0" using assms(1) by (simp_all add: cold_context_def)
  have "get_nvm_context_pcd_namespaces e0 s2 buf2 n2 =
      Some (int (length l), l @ drop (length l) (replicate (nat n2) zero_namespace_details @ drop (nat n2) buf2))"
    using e0 c2 l assms(6,7) pos
    by (simp add: get_nvm_context_pcd_namespaces_def from_context_def copy_plan_def rd_bytes_def wr_bytes_def) linarith
  then have "populate_namespaces e0 e lm devices2 isets2 n2 (Some buf2) (s2, d2) =
      Some (int (length l), Some (l @ drop (length l) (replicate (nat n2) zero_namespace_details @ drop (nat n2) buf2)), s2, d2)"
    using c2(2) l pos by (simp add: populate_warm [OF e0 c2(1)])
  then show ?thesis using o by fastforce
qed

text \<open>A DIMM with one label in its area, alone in the system; the commands sent are counted.\<close>

definition one_dimm :: "bytes \<Rightarrow> nat label_mailbox" where
  "one_dimm a = \<lparr>lm_get = \<lambda>d h. (NVM_SUCCESS, a, Suc d), lm_set = \<lambda>d h b. (NVM_SUCCESS, Suc d)\<rparr>"

definition sole_dimm :: "int \<times> dimm_identity list option" where
  "sole_dimm = (1, Some [sample_identity True])"

definition some_context :: context_env where
  "some_context = \<lparr>lock_ok = True, unlock_ok = True, alloc_ok = \<lambda>_. True\<rparr>"

definition fresh_process :: process where
  "fresh_process = \<lparr>p_context = Some new_context, g_ctx_count = 1\<rparr>"

lemma fresh_process_cold: "cold_context some_context fresh_process"
  by (simp add: cold_context_def some_context_def fresh_process_def new_context_def)

lemma one_label_dimm:
  assumes "area_ok example_env a" and "area_labels example_env a = [lab]" and "unat (lb_nlabel lab) \<le> 2"
  shows "\<exists>x. ns_sums x = (label_size lab, label_weight lab, lb_nlabel lab) \<and>
    dimms_hold example_env (one_dimm a) sole_dimm (0, 0, []) d (Suc d) [x]"
proof -
  let ?p = "\<lparr>nsd_dimm_count = 1, nsd_dimm_list = [sample_identity True], nsd_dimm_nslsa_list = [a], nsd_ns_count = 0,
      nsd_ns_list = None, nsd_iset_count = 0, nsd_iset_list = []\<rparr>"
  have c: "collect_required_ns_data example_env (one_dimm a) sole_dimm (0, 0, []) d = Some (NVM_SUCCESS, Valid ?p, Suc d)"
    by (simp add: collect_required_ns_data_def example_env_def collect_ns_data_manageable_dimms_def sole_dimm_def
        get_manageable_dimms_def rd_bytes_def sample_identity_def MANAGEMENT_VALIDCONFIG_def empty_ns_data_def
        collect_dimm_nslsa_list_def nslsa_loop.simps rd_in wr_in one_dimm_def collect_ns_data_interleave_sets_def)
  obtain p1 where p1: "parse_dimms_loop example_env 1 0 1 ?p = Some (NVM_SUCCESS, p1)" "ns_wf p1"
      "ns_tally p1 = [(label_key lab, label_size lab, label_weight lab, lb_nlabel lab)]"
    using parse_dimms_loop_refines [OF example_env, of ?p "[a]" 1 0 1] assms(1,2)
    by (auto simp: ns_wf_def ns_entries_def ns_tally_def count_label_def)
  then obtain x where x: "ns_entries p1 = [x]" "ns_sums x = (label_size lab, label_weight lab, lb_nlabel lab)"
    by (auto simp: ns_tally_def)
  then have l: "nsd_ns_list p1 = Some [x]" "nsd_ns_count p1 = 1"
    using p1(2) by (auto simp: ns_entries_def ns_wf_def split: option.splits)
  have "unat (lb_nlabel lab) * (unat (lb_nlabel lab) + 1) \<le> 2 * 3" using assms(3) by (intro mult_mono) simp_all
  then have n: "is_namespace_complete x \<noteq> None"
    using x(2) by (simp add: is_namespace_complete_def ns_sums_def Let_def)
  have "lb_alloc example_env 1" by (simp add: example_env_def)
  then have "dimms_hold example_env (one_dimm a) sole_dimm (0, 0, []) d (Suc d) [x]"
    unfolding dimms_hold_def
    by (intro conjI exI [of _ ?p] exI [of _ p1]) (use c p1 l n in simp_all)
  then show ?thesis using x(2) by blast
qed

theorem namespaces_cached_witness:
  "\<exists>x out s2 out2. populate_namespaces some_context example_env (one_dimm example_area) sole_dimm (0, 0, []) 1
      (Some [zero_namespace_details]) (fresh_process, 0) = Some (1, Some out, s2, 1) \<and> take 1 out = [x] \<and>
    populate_namespaces some_context example_env (one_dimm example_area) (0, None) (0, 0, []) 2
      (Some (replicate 2 zero_namespace_details)) (s2, 7) = Some (1, Some out2, s2, 7) \<and> take 1 out2 = [x]"
proof -
  obtain x where x: "ns_sums x = (8, 1, 1)"
      "dimms_hold example_env (one_dimm example_area) sole_dimm (0, 0, []) 0 1 [x]"
    using one_label_dimm [OF example_area(3,2), of 0] example_label by auto
  have "is_namespace_complete x = Some True" using x(1) by (simp add: is_namespace_complete_def ns_sums_def)
  then show ?thesis
    using namespaces_cached [OF fresh_process_cold x(2), of 1 "[zero_namespace_details]" 2
        "replicate 2 zero_namespace_details" "(0, None)" "(0, 0, [])" 7] by auto
qed

text \<open>
  Incomplete namespaces break the cache. The number cached counts every namespace found, the
  list cached has the complete ones only. When some namespace is incomplete, the first call returns the
  number of complete ones; asking for the number again returns that of all; and reading that many from the
  cache reads past the end of the cached list.
\<close>

theorem incomplete_namespace_breaks_cache:
  assumes "cold_context e0 s" and "dimms_hold e lm devices isets d d1 l"
    and "x \<in> set l" and "is_namespace_complete x = Some False"
    and "int (length l) \<le> n" and "nat n \<le> length buf" and "int (length l) \<le> n2" and "nat n2 \<le> length buf2"
  shows "\<exists>k out s2. k < length l \<and>
    populate_namespaces e0 e lm devices isets n (Some buf) (s, d) = Some (int k, Some out, s2, d1) \<and>
    get_namespace_count_from_pcd e0 e lm devices isets (s2, d1) = Some (int (length l), s2, d1) \<and>
    populate_namespaces e0 e lm devices isets n2 (Some buf2) (s2, d1) = None"
proof -
  have l: "l \<noteq> []" using assms(3) by auto
  have pos: "0 < n" "0 < n2" using l assms(5,7) by (cases l; simp)+
  let ?k = "length (complete_of l)"
  have k: "?k < length l"
    unfolding complete_of_def by (rule length_filter_less [OF assms(3)]) (simp add: assms(4))
  obtain out s2 c2 where o: "populate_namespaces e0 e lm devices isets n (Some buf) (s, d) =
      Some (int ?k, Some out, s2, d1)"
    and c2: "p_context s2 = Some c2" "pcd_namespace_count c2 = int (length l)" "p_pcd_namespaces c2 = Some (complete_of l)"
    using populate_cold [OF assms(1,2) pos(1) assms(6)] assms(5) k by auto
  have e0: "lock_ok e0" "unlock_ok e0" using assms(1) by (simp_all add: cold_context_def)
  have "get_nvm_context_pcd_namespaces e0 s2 buf2 n2 = None"
    using e0 c2 l k assms(7,8) pos
    by (auto simp: get_nvm_context_pcd_namespaces_def from_context_def copy_plan_def rd_bytes_def wr_bytes_def)
  then have "populate_namespaces e0 e lm devices isets n2 (Some buf2) (s2, d1) = None"
    using c2(2) l pos by (simp add: populate_warm [OF e0 c2(1)])
  moreover have "get_namespace_count_from_pcd e0 e lm devices isets (s2, d1) = Some (int (length l), s2, d1)"
    using e0 c2 l by (simp add: get_namespace_count_from_pcd_def populate_namespaces_def
        get_nvm_context_pcd_namespace_count_def from_context_def)
  ultimately show ?thesis using o k by blast
qed

theorem incomplete_namespace_breaks_cache_witness:
  "\<exists>out s2. populate_namespaces some_context example_env (one_dimm (area_of half_label)) sole_dimm (0, 0, []) 1
      (Some [zero_namespace_details]) (fresh_process, 0) = Some (0, Some out, s2, 1) \<and>
    get_namespace_count_from_pcd some_context example_env (one_dimm (area_of half_label)) sole_dimm (0, 0, [])
      (s2, 1) = Some (1, s2, 1) \<and>
    populate_namespaces some_context example_env (one_dimm (area_of half_label)) sole_dimm (0, 0, []) 1
      (Some [zero_namespace_details]) (s2, 1) = None"
proof -
  have a: "area_ok example_env (area_of half_label)" "area_labels example_env (area_of half_label) = [half_label]"
    using area_of [of half_label] by (simp_all add: half_label)
  obtain x where x: "ns_sums x = (8, 1, 2)"
      "dimms_hold example_env (one_dimm (area_of half_label)) sole_dimm (0, 0, []) 0 1 [x]"
    using one_label_dimm [OF a, of 0] half_label by auto
  have "is_namespace_complete x = Some False" using x(1) by (simp add: is_namespace_complete_def ns_sums_def)
  then show ?thesis
    using incomplete_namespace_breaks_cache [OF fresh_process_cold x(2), of x 1 "[zero_namespace_details]" 1
        "[zero_namespace_details]"] by auto
qed

section \<open>Results of a first call that finds nothing\<close>

text \<open>
  The test of the collection assigns the comparison, not the code. When the device list cannot
  be read, or a label area, the first call returns 0, no namespace and no error; when there is no manageable
  DIMM it returns 1 and leaves the caller's array as it was, as if there were a namespace. Neither result is
  cached.
\<close>

theorem populate_result_of_comparison:
  assumes "cold_context e0 s" and "collect_required_ns_data e lm devices isets d = Some (rc, q, d1)"
    and "rc = NVM_SUCCESS \<Longrightarrow> \<exists>p. q = Valid p \<and> nsd_dimm_count p = 0"
  shows "populate_namespaces e0 e lm devices isets n out (s, d) =
    Some (if rc = NVM_SUCCESS then 1 else 0, out, s, d1)"
proof -
  obtain c where c: "lock_ok e0" "unlock_ok e0" "p_context s = Some c" "pcd_namespace_count c < 0"
    using assms(1) by (auto simp: cold_context_def)
  then have g: "get_nvm_context_pcd_namespace_count e0 s = Some NVM_ERR_CONTEXT"
    by (simp add: get_nvm_context_pcd_namespace_count_def from_context_def)
  show ?thesis
    using assms(2,3)
    by (auto simp: populate_namespaces_def g populate_from_dimms_def parse_dimms_loop.simps)
qed

theorem populate_result_of_comparison_witness:
  "populate_namespaces some_context example_env (one_dimm []) (0, None) (0, 0, []) 1 (Some [zero_namespace_details])
     (fresh_process, 0) = Some (1, Some [zero_namespace_details], fresh_process, 0) \<and>
   populate_namespaces some_context example_env (one_dimm []) (NVM_ERR_NOMEMORY, None) (0, 0, []) 1 None
     (fresh_process, 0) = Some (0, None, fresh_process, 0)"
proof
  let ?p = "empty_ns_data\<lparr>nsd_dimm_count := 0, nsd_dimm_list := []\<rparr>"
  have "collect_required_ns_data example_env (one_dimm []) (0, None) (0, 0, []) 0 = Some (NVM_SUCCESS, Valid ?p, 0)"
    by (simp add: collect_required_ns_data_def example_env_def collect_ns_data_manageable_dimms_def
        get_manageable_dimms_def)
  from populate_result_of_comparison [OF fresh_process_cold this]
  show "populate_namespaces some_context example_env (one_dimm []) (0, None) (0, 0, []) 1
      (Some [zero_namespace_details]) (fresh_process, 0) = Some (1, Some [zero_namespace_details], fresh_process, 0)"
    by simp
  have "collect_required_ns_data example_env (one_dimm []) (NVM_ERR_NOMEMORY, None) (0, 0, []) 0 =
      Some (NVM_ERR_NOMEMORY, Dangling, 0)"
    by (simp add: collect_required_ns_data_def example_env_def collect_ns_data_manageable_dimms_def
        get_manageable_dimms_def free_ns_data_def free_ptr_def)
  from populate_result_of_comparison [OF fresh_process_cold this]
  show "populate_namespaces some_context example_env (one_dimm []) (NVM_ERR_NOMEMORY, None) (0, 0, []) 1 None
      (fresh_process, 0) = Some (0, None, fresh_process, 0)"
    by simp
qed

end
