(* ===== verification/Pcd_Device_Facts.thy ===== *)
theory Pcd_Device_Facts
  imports Pcd_Device
begin

text \<open>
  Reading, caching and writing the PCD of a device: facts about the transfer loops over a mailbox that
  behaves like a partition of 64 KiB, and the properties of the operations.
\<close>

section \<open>A mailbox in front of a partition\<close>

text \<open>
  The documented behaviour of the two commands: reading returns the bytes at the offset and leaves the
  device alone, writing replaces them. \<open>R d mem\<close> says that the device \<open>d\<close> holds \<open>mem\<close>.
\<close>

definition partition_model :: "'d mailbox \<Rightarrow> u32 \<Rightarrow> ('d \<Rightarrow> bytes \<Rightarrow> bool) \<Rightarrow> bool" where
  "partition_model mb handle R \<longleftrightarrow>
     (\<forall>d mem. R d mem \<longrightarrow> length mem = DEV_PLT_CFG_OEM_PARTITION_SIZE \<and>
       (\<forall>off. off + DEV_SMALL_PAYLOAD_SIZE \<le> DEV_PLT_CFG_OEM_PARTITION_SIZE \<longrightarrow>
          pt_get mb d handle off = (NVM_SUCCESS, take DEV_SMALL_PAYLOAD_SIZE (drop off mem), d)) \<and>
       (\<forall>off raw. length raw = DEV_PLT_CFG_SMALL_PAYLOAD_WRITE_SIZE \<longrightarrow>
          off + length raw \<le> DEV_PLT_CFG_OEM_PARTITION_SIZE \<longrightarrow>
          (\<exists>d'. pt_set mb d handle off raw = (NVM_SUCCESS, d') \<and>
                R d' (take off mem @ raw @ drop (off + length raw) mem))))"

lemmas pt_sizes = DEV_PLT_CFG_OEM_PARTITION_SIZE_def DEV_SMALL_PAYLOAD_SIZE_def
  DEV_PLT_CFG_SMALL_PAYLOAD_WRITE_SIZE_def

lemma partition_model_parts:
  assumes "partition_model mb handle R" and "R d mem"
  shows "length mem = 65536"
    and "off + 128 \<le> 65536 \<Longrightarrow> pt_get mb d handle off = (NVM_SUCCESS, take 128 (drop off mem), d)"
    and "off + 64 \<le> 65536 \<Longrightarrow> length raw = 64 \<Longrightarrow>
      \<exists>d'. pt_set mb d handle off raw = (NVM_SUCCESS, d') \<and> R d' (take off mem @ raw @ drop (off + 64) mem)"
proof -
  note m = assms(1) [unfolded partition_model_def pt_sizes, rule_format, OF assms(2)]
  show "length mem = 65536" using m by blast
  show "off + 128 \<le> 65536 \<Longrightarrow> pt_get mb d handle off = (NVM_SUCCESS, take 128 (drop off mem), d)"
    using m by blast
  show "\<exists>d'. pt_set mb d handle off raw = (NVM_SUCCESS, d') \<and> R d' (take off mem @ raw @ drop (off + 64) mem)"
    if "off + 64 \<le> 65536" "length raw = 64"
    using conjunct2 [OF conjunct2 [OF m], rule_format, of raw off] that by auto
qed

lemma read_pcd_loop_eq:
  assumes "partition_model mb handle R" and "R d mem"
  shows "n \<le> 65536 \<Longrightarrow> length m = n \<Longrightarrow> 128 dvd off \<Longrightarrow> off < n + 128 \<Longrightarrow>
    read_pcd_loop mb handle n m off d = Some (NVM_SUCCESS, take off m @ take (n - off) (drop off mem), d)"
proof (induction "n - off" arbitrary: m off rule: less_induct)
  case less
  note mem = partition_model_parts(1) [OF assms]
  show ?case
  proof (cases "off < n")
    case False
    then show ?thesis using less(3) by (simp add: read_pcd_loop.simps [of mb handle n m off d])
  next
    case True
    obtain q where q: "off = 128 * q" using less(4) by (elim dvdE)
    then have "q < 512" using True less(2) by linarith
    then have b: "off + 128 \<le> 65536" using q by simp
    note g = partition_model_parts(2) [OF assms b]
    define k where "k = (if n < off + 128 then n - off else 128)"
    define raw where "raw = take k (drop off mem)"
    define m' where "m' = take off m @ raw @ drop (off + k) m"
    have lr: "length raw = k" using mem b by (simp add: raw_def k_def)
    have w: "wr_bytes m off raw = Some m'"
      using lr less(3) True by (simp add: wr_bytes_def m'_def k_def)
    have r: "rd_bytes (take 128 (drop off mem)) 0 k = Some raw"
      using mem b True less(2) by (auto simp: rd_bytes_def raw_def k_def min_def)
    have step: "read_pcd_loop mb handle n m off d = read_pcd_loop mb handle n m' (off + 128) d"
      unfolding read_pcd_loop.simps [of mb handle n m off d] pt_sizes
      using True b g r [unfolded k_def] w by (simp split del: if_split)
    have "read_pcd_loop mb handle n m' (off + 128) d =
        Some (NVM_SUCCESS, take (off + 128) m' @ take (n - (off + 128)) (drop (off + 128) mem), d)"
      using less.hyps [of "off + 128" m'] True less(2-4) lr by (auto simp: m'_def k_def)
    moreover have "take (off + 128) m' @ take (n - (off + 128)) (drop (off + 128) mem) =
        take off m @ take (n - off) (drop off mem)"
    proof (cases "off + 128 \<le> n")
      case True
      then have "take (n - off) (drop off mem) = take 128 (drop off mem) @ take (n - (off + 128)) (drop (off + 128) mem)"
        using take_add [of 128 "n - (off + 128)" "drop off mem"] by (simp add: add.commute)
      then show ?thesis using lr less(3) True by (simp add: m'_def raw_def k_def min_def)
    next
      case False
      then show ?thesis using lr less(3) \<open>off < n\<close> by (simp add: m'_def raw_def k_def min_def)
    qed
    ultimately show ?thesis using step by simp
  qed
qed

lemma write_pcd_loop_eq:
  assumes "partition_model mb handle R"
  shows "n \<le> 65536 \<Longrightarrow> length m = 65536 \<Longrightarrow> 64 dvd off \<Longrightarrow> off < n + 64 \<Longrightarrow> R d mem \<Longrightarrow>
    take off mem = take off m \<Longrightarrow>
    \<exists>d' mem'. write_pcd_loop mb handle n m off d = Some (NVM_SUCCESS, d') \<and> R d' mem' \<and> take n mem' = take n m"
proof (induction "n - off" arbitrary: d mem off rule: less_induct)
  case less
  show ?case
  proof (cases "off < n")
    case False
    then have "take n mem = take n m" using less(7) by (metis min_def take_take not_less)
    then show ?thesis using False less(6) by (auto simp: write_pcd_loop.simps [of mb handle n m off d])
  next
    case True
    obtain q where q: "off = 64 * q" using less(4) by (elim dvdE)
    then have "q < 1024" using True less(2) by linarith
    then have b: "off + 64 \<le> 65536" using q by simp
    let ?raw = "take 64 (drop off m)"
    note lm = partition_model_parts(1) [OF assms less(6)]
    obtain d' where s: "pt_set mb d handle off ?raw = (NVM_SUCCESS, d')"
      "R d' (take off mem @ ?raw @ drop (off + 64) mem)"
      using partition_model_parts(3) [OF assms less(6) b, of ?raw] less(3) b by auto
    have step: "write_pcd_loop mb handle n m off d = write_pcd_loop mb handle n m (off + 64) d'"
      using True b s(1) less(3)
      by (simp add: write_pcd_loop.simps [of mb handle n m off d] pt_sizes rd_bytes_def)
    have "take (off + 64) (take off mem @ ?raw @ drop (off + 64) mem) = take (off + 64) m"
      using lm b less(3,7) by (simp add: take_add)
    then show ?thesis
      using less.hyps [of "off + 64" d' "take off mem @ ?raw @ drop (off + 64) mem"] True less(2-4) s(2) step
      by auto
  qed
qed

lemma find_device_loop_eq:
  "\<forall>x \<in> set ds. test x = Some (P x) \<Longrightarrow> i \<le> length ds \<Longrightarrow>
   find_device_loop test ds (length ds) i = Some (List.find P (drop i ds))"
proof (induction test ds "length ds" i rule: find_device_loop.induct)
  case (1 test ds i)
  show ?case
  proof (cases "i < length ds")
    case False
    then show ?thesis using 1(3) by (simp add: find_device_loop.simps)
  next
    case True
    have "drop i ds = ds ! i # drop (Suc i) ds" using True by (simp add: Cons_nth_drop_Suc)
    then show ?thesis
      using 1(1) [of "ds ! i" False] 1(2) True
      by (simp add: find_device_loop.simps [of test ds "length ds" i] rd_in)
  qed
qed

lemma lookup_dev_handle_eq:
  "lookup_dev_handle (int (length ds), Some ds) handle =
     Some (case List.find (\<lambda>x. handle = disc_handle x) ds of
             None \<Rightarrow> (NVM_ERR_BADDEVICE, None)
           | Some x \<Rightarrow> (NVM_SUCCESS, Some x))"
  using find_device_loop_eq [of ds "\<lambda>x. Some (handle = disc_handle x)" "\<lambda>x. handle = disc_handle x" 0]
  by (cases "ds = []") (simp_all add: lookup_dev_handle_def lookup_dev_def)


section \<open>The cache in front of the device\<close>

lemma pcd_get_miss:
  "process_ok s \<Longrightarrow> uid_ok u \<Longrightarrow> pcd_lookup s u = None \<Longrightarrow>
   get_nvm_context_device_pcd all_ok u s buf = Some (NVM_ERR_CONTEXT, buf)"
  by (cases "device_of s u")
    (auto simp: get_nvm_context_device_pcd_def device_get pcd_lookup_eq split: option.splits if_splits)

lemma pcd_get_hit:
  assumes "process_ok s" and "uid_ok u" and "pcd_lookup s u = Some b"
  shows "get_nvm_context_device_pcd all_ok u s buf = Some (NVM_SUCCESS, Valid b, length b)"
proof -
  obtain d where d: "device_of s u = Some d" "p_pcd d = Some b" "0 < dev_pcd_size d"
    using assms by (cases "device_of s u") (auto simp: pcd_lookup_eq split: if_splits)
  moreover have "length b = dev_pcd_size d" using device_of_ok [OF assms(1) d(1)] d(2) by (simp add: device_ok_def)
  ultimately show ?thesis
    using assms by (simp add: get_nvm_context_device_pcd_def device_get rd_bytes_def)
qed

lemma pcd_set_take:
  "k \<le> length b \<Longrightarrow>
   set_nvm_context_device_pcd e u b k s = set_nvm_context_device_pcd e u (take k b) (length (take k b)) s"
proof -
  assume k: "k \<le> length b"
  then have e: "rd_bytes (take k b) 0 k = rd_bytes b 0 k" and l: "length (take k b) = k"
    by (simp_all add: rd_bytes_def)
  show ?thesis unfolding l set_nvm_context_device_pcd_def e ..
qed

lemma pcd_set_lookup:
  assumes "process_ok s" and "uid_ok u" and "k \<le> length b" and "0 < k"
  shows "\<exists>rc s'. set_nvm_context_device_pcd all_ok u b k s = Some (rc, s') \<and> process_ok s' \<and>
    (has_device s u \<longrightarrow> pcd_lookup s' u = Some (take k b))"
proof -
  obtain rc s' where s': "set_nvm_context_device_pcd all_ok u (take k b) (length (take k b)) s = Some (rc, s')"
    "process_ok s'"
    using exec_call_ok [OF assms(1), of "Set_device_pcd u (take k b)" all_ok] assms(2) by auto
  have "device_of s' u = map_option (\<lambda>d. d\<lparr>p_pcd := Some (take k b), dev_pcd_size := length (take k b)\<rparr>) (device_of s u)"
    using pcd_put [OF assms(1,2,2), of "take k b"] s'(1) by auto
  then show ?thesis
    using s' assms pcd_set_take [OF assms(3), of all_ok u s] by (auto simp: pcd_lookup_eq has_device_def)
qed

lemma invalidate_pcd_lookup:
  assumes "process_ok s" and "uid_ok u"
  shows "\<exists>rc s'. invalidate_device_pcd all_ok u s = Some (rc, s') \<and> process_ok s' \<and> pcd_lookup s' u = None"
proof -
  obtain rc s' where s': "invalidate_device_pcd all_ok u s = Some (rc, s')" "process_ok s'"
    using exec_call_ok [OF assms(1), of "Invalidate_device_pcd u" all_ok] assms(2) by auto
  have "device_of s' u = map_option (\<lambda>d. if p_pcd d \<noteq> None then d\<lparr>p_pcd := None, dev_pcd_size := NO_SIZE\<rparr> else d) (device_of s u)"
    using device_put [OF assms(1,2,2), of "\<lambda>d. if p_pcd d \<noteq> None then Some (0, d\<lparr>p_pcd := None, dev_pcd_size := NO_SIZE\<rparr>) else Some (0, d)" 0
      "\<lambda>d. if p_pcd d \<noteq> None then d\<lparr>p_pcd := None, dev_pcd_size := NO_SIZE\<rparr> else d"] s'(1)
    by (auto simp: invalidate_device_pcd_def)
  then have "pcd_lookup s' u = None"
    using assms s'(2) by (cases "device_of s u") (auto simp: pcd_lookup_eq)
  then show ?thesis using s' by blast
qed

lemma rd32_take: "off + 4 \<le> k \<Longrightarrow> rd32 (take k m) off = rd32 m off"
  by (auto simp: rd32_def rd_bytes_def drop_take min_def)

lemma pcd_total_size_take: "60 \<le> k \<Longrightarrow> pcd_total_size (take k m) = pcd_total_size m"
  by (simp add: pcd_total_size_def rd32_take)

lemma hw_read:
  assumes "partition_model mb handle R" and "R d mem" and "pcd_total_size mem = Some n" and "60 \<le> n" and "n \<le> 65536"
    and "alloc n"
  shows "get_hw_dimm_platform_config_alloc alloc mb handle sz pp d =
    map_option (\<lambda>rc. (rc, n, Valid (take n mem), d)) (check_platform_config (Some (take n mem)) n)"
proof -
  have "pt_get mb d handle 0 = (NVM_SUCCESS, take 128 mem, d)"
    using partition_model_parts(2) [OF assms(1,2), of 0] by simp
  then have "get_pcd_table_size mb handle d = Some (NVM_SUCCESS, n, d)"
    using assms(3) by (simp add: get_pcd_table_size_def pcd_total_size_take)
  moreover have "read_pcd_loop mb handle n (replicate n 0) 0 d = Some (NVM_SUCCESS, take n mem, d)"
    using read_pcd_loop_eq [OF assms(1,2), of n "replicate n 0" 0] assms(5) by simp
  ultimately show ?thesis
    using assms(4-6)
    by (cases "check_platform_config (Some (take n mem)) n")
      (simp_all add: get_hw_dimm_platform_config_alloc_def PCD_SIZE_def pt_sizes deref_def)
qed

section \<open>Properties\<close>

text \<open>
  A PCD that is written to a device is the PCD that is read from it afterwards: the bytes up to the
  total size that its header states, past any PCD that was cached before.
\<close>

lemma pcd_written_read_back:
  assumes "reachable s" and "partition_model mb handle R" and "R d mem"
    and "devices = (int (length ds), Some ds)" and "List.find (\<lambda>x. handle = disc_handle x) ds = Some x"
    and "length (disc_uid x) = NVM_UID_LEN"
    and "length m = DEV_PLT_CFG_OEM_PARTITION_SIZE" and "pcd_total_size m = Some n"
    and "PCD_SIZE \<le> n" and "n \<le> DEV_PLT_CFG_OEM_PARTITION_SIZE"
    and "check_platform_config (Some (take n m)) n = Some NVM_SUCCESS"
  shows "\<exists>s1 d1 s2. set_dimm_platform_config all_ok mb devices handle m (s, d) = Some (NVM_SUCCESS, s1, d1) \<and>
    get_dimm_platform_config all_ok (\<lambda>_. True) mb devices handle Null (s1, d1) =
      Some (NVM_SUCCESS, Valid (take n m), s2, d1)"
proof -
  let ?u = "disc_uid x"
  have look: "lookup_dev_handle devices handle = Some (NVM_SUCCESS, Some x)"
    using lookup_dev_handle_eq [of ds handle] assms(4,5) by simp
  have sz: "length m = 65536" "60 \<le> n" "n \<le> 65536" using assms(7,9,10) by (simp_all add: pt_sizes PCD_SIZE_def)
  have ok: "process_ok s" by (rule reachable_ok [OF assms(1)])
  obtain d1 mem1 where w: "write_pcd_loop mb handle n m 0 d = Some (NVM_SUCCESS, d1)" "R d1 mem1"
    "take n mem1 = take n m"
    using write_pcd_loop_eq [OF assms(2) sz(3,1), of 0 d mem] assms(3) by auto
  obtain rc s1 where i: "invalidate_device_pcd all_ok ?u s = Some (rc, s1)" "process_ok s1" "pcd_lookup s1 ?u = None"
    using invalidate_pcd_lookup [OF ok assms(6)] assms(6) by auto
  have set_pcd: "set_dimm_platform_config all_ok mb devices handle m (s, d) = Some (NVM_SUCCESS, s1, d1)"
    using assms(8) sz(3) w(1) look i(1) by (simp add: set_dimm_platform_config_def pt_sizes)
  have "pcd_total_size mem1 = Some n"
    using pcd_total_size_take [OF sz(2), of mem1] pcd_total_size_take [OF sz(2), of m] w(3) assms(8) by simp
  then have hw: "get_hw_dimm_platform_config_alloc (\<lambda>_. True) mb handle 0 Null d1 =
      Some (NVM_SUCCESS, n, Valid (take n m), d1)"
    using hw_read [OF assms(2) w(2) _ sz(2,3)] w(3) assms(11) by simp
  obtain rc' s2 where "set_nvm_context_device_pcd all_ok ?u (take n m) n s1 = Some (rc', s2)"
    using pcd_set_lookup [OF i(2) assms(6), of n "take n m"] sz by auto
  then have "get_dimm_platform_config all_ok (\<lambda>_. True) mb devices handle Null (s1, d1) =
      Some (NVM_SUCCESS, Valid (take n m), s2, d1)"
    using look pcd_get_miss [OF i(2) assms(6) i(3)] hw by (simp add: get_dimm_platform_config_def deref_def)
  then show ?thesis using set_pcd by blast
qed

lemma read_pcd_loop_length:
  "read_pcd_loop mb handle n m off d = Some (rc, m', d') \<Longrightarrow> length m' = length m"
proof (induction mb handle n m off d arbitrary: rc m' d' rule: read_pcd_loop.induct)
  case (1 mb handle n m off d)
  then show ?case
    by (auto simp: read_pcd_loop.simps [of mb handle n m off d] bind_eq_Some_conv wr_bytes_length
        split: if_splits prod.splits)
qed

lemma read_pcd_buffer:
  "read_pcd_loop mb handle n (replicate n 0) off d = Some (rc, m', d') \<Longrightarrow> length m' = n"
  by (drule read_pcd_loop_length) simp

text \<open>How long the PCD is that is read from a device\<close>

lemma hw_pcd_size:
  assumes "get_hw_dimm_platform_config_alloc alloc mb handle sz Null d = Some (NVM_SUCCESS, k, Valid b, d')"
  shows "0 < k" and "k = length b \<or> k = PCD_SIZE \<and> (\<exists>d1. get_pcd_table_size mb handle d = Some (NVM_SUCCESS, 0, d1))"
  using assms
  by (auto simp: get_hw_dimm_platform_config_alloc_def PCD_SIZE_def split: bind_splits if_splits
      dest!: read_pcd_buffer)

text \<open>
  C27: A PCD of a listed device that the context knows, once read, is served from the context: the next call returns the bytes that
  the first one returned without a command to any device, and leaves the context alone. There is one
  exception: when nothing was cached and the device reports a PCD of size 0, the first call returns an
  empty PCD it builds, in a buffer as long as the partition, and the next one its header, which is all
  of that PCD.
\<close>

theorem pcd_read_cached:
  assumes "reachable s" and "devices = (int (length ds), Some ds)"
    and "List.find (\<lambda>x. handle = disc_handle x) ds = Some x"
    and "length (disc_uid x) = NVM_UID_LEN" and "has_device s (disc_uid x)"
    and "get_dimm_platform_config all_ok alloc mb devices handle Null (s, d) = Some (NVM_SUCCESS, Valid b, s', d')"
  shows "\<exists>c. get_dimm_platform_config all_ok alloc' mb' devices handle Null (s', d'') =
      Some (NVM_SUCCESS, Valid c, s', d'') \<and>
    (c = b \<or> c = take PCD_SIZE b \<and> pcd_lookup s (disc_uid x) = None \<and>
       (\<exists>d1. get_pcd_table_size mb handle d = Some (NVM_SUCCESS, 0, d1)))"
proof -
  let ?u = "disc_uid x"
  have look: "lookup_dev_handle devices handle = Some (NVM_SUCCESS, Some x)"
    using lookup_dev_handle_eq [of ds handle] assms(2,3) by simp
  have ok: "process_ok s" by (rule reachable_ok [OF assms(1)])
  have hit: "get_dimm_platform_config all_ok alloc' mb' devices handle Null (s', d'') =
      Some (NVM_SUCCESS, Valid c, s', d'')" if "process_ok s'" "pcd_lookup s' ?u = Some c" for c
    using look pcd_get_hit [OF that(1) assms(4) that(2)] by (simp add: get_dimm_platform_config_def)
  show ?thesis
  proof (cases "pcd_lookup s ?u")
    case (Some c)
    have "s' = s" "b = c"
      using assms(6) look pcd_get_hit [OF ok assms(4) Some] by (auto simp: get_dimm_platform_config_def)
    then show ?thesis using hit [of c] ok Some by simp
  next
    case None
    note miss = pcd_get_miss [OF ok assms(4) None, of "(Null, 0)"]
    obtain k where hw: "get_hw_dimm_platform_config_alloc alloc mb handle 0 Null d = Some (NVM_SUCCESS, k, Valid b, d')"
      "\<exists>rc. set_nvm_context_device_pcd all_ok ?u b k s = Some (rc, s')"
      using assms(6) look miss
      by (auto simp: get_dimm_platform_config_def deref_def split: bind_splits if_splits ptr.splits option.splits)
    note k = hw_pcd_size [OF hw(1)]
    have "k \<le> length b"
    proof (rule ccontr)
      assume "\<not> k \<le> length b"
      then have n: "rd_bytes b 0 k = None" by (simp add: rd_bytes_def)
      obtain dd where "device_of s ?u = Some dd" using assms(5) by (auto simp: has_device_def)
      then show False using hw(2) n ok assms(4)
        by (auto simp: set_nvm_context_device_pcd_def on_context_def locked_def at_device_def device_of_def
            process_ok_def device_find Let_def rd_def split: option.splits bind_splits if_splits
            dest: device_index_found device_count_pos)
    qed
    then obtain s2 where "set_nvm_context_device_pcd all_ok ?u b k s = Some s2"
      "process_ok s'" "pcd_lookup s' ?u = Some (take k b)"
      using pcd_set_lookup [OF ok assms(4) _ k(1)] hw(2) assms(5) by fastforce
    then show ?thesis using hit [of "take k b"] k(2) None by auto
  qed
qed


text \<open>
  When the size of the PCD is read but the transfer of the PCD itself fails, the buffer is freed and
  its address is left in the caller's pointer: the reader of the interleave settings, which frees the
  PCD it got, and the repair, which inspects and frees it, then free or read it a second time.
\<close>

theorem pcd_failed_read_freed_twice:
  assumes "reachable s" and "devices = (int (length ds), Some ds)"
    and "List.find (\<lambda>x. handle = disc_handle x) ds = Some x"
    and "length (disc_uid x) = NVM_UID_LEN" and "pcd_lookup s (disc_uid x) = None"
    and "pt_get mb d handle 0 = (NVM_SUCCESS, out, d1)" and "pcd_total_size out = Some n"
    and "PCD_SIZE \<le> n" and "n \<le> DEV_PLT_CFG_OEM_PARTITION_SIZE"
    and "pt_get mb d1 handle 0 = (rc, out1, d2)" and "rc \<noteq> NVM_SUCCESS"
  shows "get_dimm_platform_config all_ok (\<lambda>_. True) mb devices handle Null (s, d) = Some (rc, Dangling, s, d2) \<and>
    get_interleave_settings_from_platform_config_data all_ok (\<lambda>_. True) mb devices handle off (s, d) = None \<and>
    get_repaired_dimm_platform_config all_ok (\<lambda>_. True) mb devices handle (Some Null) (s, d) = None"
proof -
  have look: "lookup_dev_handle devices handle = Some (NVM_SUCCESS, Some x)"
    using lookup_dev_handle_eq [of ds handle] assms(2,3) by simp
  note miss = pcd_get_miss [OF reachable_ok [OF assms(1)] assms(4,5)]
  have "read_pcd_loop mb handle n (replicate n 0) 0 d1 = Some (rc, replicate n 0, d2)"
    using assms(8-11) by (simp add: read_pcd_loop.simps pt_sizes PCD_SIZE_def)
  then have "get_hw_dimm_platform_config_alloc (\<lambda>_. True) mb handle 0 Null d = Some (rc, n, Dangling, d2)"
    using assms(6-9,11)
    by (simp add: get_hw_dimm_platform_config_alloc_def get_pcd_table_size_def free_ptr_def PCD_SIZE_def pt_sizes)
  then have g: "get_dimm_platform_config all_ok (\<lambda>_. True) mb devices handle Null (s, d) = Some (rc, Dangling, s, d2)"
    using look miss assms(11) by (simp add: get_dimm_platform_config_def)
  moreover have "get_interleave_settings_from_platform_config_data all_ok (\<lambda>_. True) mb devices handle off (s, d) = None"
    using g assms(11) by (simp add: get_interleave_settings_from_platform_config_data_def free_ptr_def)
  moreover have "get_repaired_dimm_platform_config all_ok (\<lambda>_. True) mb devices handle (Some Null) (s, d) = None"
  proof (cases "get_pcd_table_size mb handle d2")
    case None
    then show ?thesis using g assms(11) by (simp add: get_repaired_dimm_platform_config_def)
  next
    case (Some t)
    obtain rcs k d3 where t: "t = (rcs, k, d3)" by (cases t)
    have "build_platform_config_data (\<lambda>_. True) a b c p \<bind> (\<lambda>(rcb, pp). None :: (int \<times> bytes ptr option \<times> process \<times> 'a) option) = None"
      for a b c p by (cases "build_platform_config_data (\<lambda>_. True) a b c p") auto
    then show ?thesis
      using g assms(11) Some t
      by (simp add: get_repaired_dimm_platform_config_def free_ptr_def deref_def)
  qed
  ultimately show ?thesis by blast
qed


section \<open>Witnesses\<close>

text \<open>A device that is its partition.\<close>

definition memory_mailbox :: "bytes mailbox" where
  "memory_mailbox = \<lparr>
     pt_get = (\<lambda>d handle off. (NVM_SUCCESS, take 128 (drop off d), d)),
     pt_set = (\<lambda>d handle off raw. (NVM_SUCCESS, take off d @ raw @ drop (off + length raw) d))\<rparr>"

lemma memory_mailbox_model:
  "partition_model memory_mailbox handle (\<lambda>d mem. d = mem \<and> length mem = DEV_PLT_CFG_OEM_PARTITION_SIZE)"
  by (auto simp: partition_model_def memory_mailbox_def DEV_SMALL_PAYLOAD_SIZE_def)

lemma pcd_image_total:
  assumes "length (t1 @ t2 @ t3) \<le> 65476"
  shows "pcd_total_size (pcd_image c t1 t2 t3 z) = Some (60 + length (t1 @ t2 @ t3))"
proof -
  have "rd32 (pcd_image c t1 t2 t3 z) 4 = Some (word_of_nat 60)"
    by (rule rd32_le [where r = "drop 8 (pcd_image c t1 t2 t3 z)"])
      (simp_all add: pcd_image_def pcd_hdr_def pcd_ids_parts)
  moreover have "unat (60 + word_of_nat a + word_of_nat b + word_of_nat k :: u32) = 60 + a + b + k"
    if "a + b + k \<le> 65476" for a b k
  proof -
    have "(60 + word_of_nat a + word_of_nat b + word_of_nat k :: u32) = word_of_nat (60 + a + b + k)" by simp
    then show ?thesis using that by (simp only: unsigned_of_nat take_bit_nat_eq_self)
        (simp add: take_bit_nat_eq_self)
  qed
  ultimately show ?thesis
    using pcd_image_fields(1,3,5) [OF assms, of c z] assms by (simp add: pcd_total_size_def)
qed

text \<open>A mailbox in front of a PCD that is a header only\<close>

definition header_pcd :: bytes where
  "header_pcd = [68, 77, 72, 68, 60, 0, 0, 0, 1, 166] @ replicate 50 0"

definition header_mailbox :: "unit mailbox" where
  "header_mailbox = \<lparr>pt_get = (\<lambda>d handle off. (NVM_SUCCESS, header_pcd @ replicate 68 0, d)),
     pt_set = (\<lambda>d handle off raw. (NVM_SUCCESS, d))\<rparr>"

lemma no_pcd_cached: "pcd_lookup one_device (replicate NVM_UID_LEN 0) = None"
  using pcd_lookup_eq [OF reachable_ok [OF reachable_one_device], of "replicate NVM_UID_LEN 0"]
  by (simp add: device_of_def one_device_def device_index_def new_device_def)

lemma header_pcd_size: "get_pcd_table_size header_mailbox 0 () = Some (NVM_SUCCESS, 60, ())"
  by (simp add: get_pcd_table_size_def header_mailbox_def header_pcd_def pcd_total_size_def rd32_def rd_bytes_def)

lemma header_pcd_checked: "check_platform_config (Some header_pcd) 60 = Some NVM_SUCCESS"
  by code_simp

lemma header_pcd_read:
  "get_hw_dimm_platform_config_alloc (\<lambda>_. True) header_mailbox 0 0 Null () =
     Some (NVM_SUCCESS, 60, Valid header_pcd, ())"
proof -
  have "read_pcd_loop header_mailbox 0 60 (replicate 60 0) 0 () = Some (NVM_SUCCESS, header_pcd, ())"
    by (simp add: read_pcd_loop.simps header_mailbox_def header_pcd_def pt_sizes rd_bytes_def wr_bytes_def)
  then show ?thesis
    by (simp add: get_hw_dimm_platform_config_alloc_def header_pcd_size header_pcd_checked deref_def PCD_SIZE_def
        pt_sizes)
qed

theorem pcd_read_cached_witness:
  "\<exists>s'. get_dimm_platform_config all_ok (\<lambda>_. True) header_mailbox (1, Some [zero_discovery]) 0 Null
      (one_device, ()) = Some (NVM_SUCCESS, Valid header_pcd, s', ()) \<and>
    get_dimm_platform_config all_ok (\<lambda>_. False) memory_mailbox (1, Some [zero_discovery]) 0 Null (s', []) =
      Some (NVM_SUCCESS, Valid header_pcd, s', [])"
proof -
  have look: "lookup_dev_handle (1, Some [zero_discovery]) 0 = Some (NVM_SUCCESS, Some zero_discovery)"
    using lookup_dev_handle_eq [of "[zero_discovery]" 0] by (simp add: zero_discovery_def)
  have u: "disc_uid zero_discovery = replicate NVM_UID_LEN 0" by (simp add: zero_discovery_def)
  note miss = pcd_get_miss [OF reachable_ok [OF reachable_one_device] _ no_pcd_cached, of "(Null, 0)"]
  obtain rc s' where s': "set_nvm_context_device_pcd all_ok (replicate NVM_UID_LEN 0) header_pcd 60 one_device = Some (rc, s')"
    using pcd_set_lookup [OF reachable_ok [OF reachable_one_device], of "replicate NVM_UID_LEN 0" 60 header_pcd]
    by (auto simp: header_pcd_def)
  have g: "get_dimm_platform_config all_ok (\<lambda>_. True) header_mailbox (1, Some [zero_discovery]) 0 Null
      (one_device, ()) = Some (NVM_SUCCESS, Valid header_pcd, s', ())"
    using look miss s' header_pcd_read by (simp add: get_dimm_platform_config_def u deref_def)
  show ?thesis
    using pcd_read_cached [OF reachable_one_device, where ds = "[zero_discovery]" and x = zero_discovery,
        OF _ _ _ _ g, of "\<lambda>_. False" memory_mailbox "[]"] g has_one_device header_pcd_size
    by (auto simp: zero_discovery_def)
qed

theorem pcd_failed_read_freed_twice_witness:
  "get_repaired_dimm_platform_config all_ok (\<lambda>_. True)
     \<lparr>pt_get = (\<lambda>d handle off. if d = (0::nat) then (NVM_SUCCESS, replicate 4 0 @ [60, 0, 0, 0] @ replicate 120 0, 1)
                             else (NVM_ERR_DRIVERFAILED, [], d)),
      pt_set = (\<lambda>d handle off raw. (NVM_SUCCESS, d))\<rparr>
     (1, Some [zero_discovery]) 0 (Some Null) (one_device, 0) = None"
proof -
  note p = no_pcd_cached
  have n: "pcd_total_size (replicate 4 0 @ [60, 0, 0, 0] @ replicate 120 0) = Some 60"
    by (simp add: pcd_total_size_def rd32_def rd_bytes_def)
  show ?thesis
    using pcd_failed_read_freed_twice [OF reachable_one_device, where ds = "[zero_discovery]" and x = zero_discovery
        and handle = 0 and d = 0 and n = 60 and ?out1.0 = "[]" and ?d2.0 = 1 and rc = NVM_ERR_DRIVERFAILED
        and out = "replicate 4 0 @ [60, 0, 0, 0] @ replicate 120 0" and ?d1.0 = 1
        and mb = "\<lparr>pt_get = (\<lambda>d handle off. if d = (0::nat) then (NVM_SUCCESS, replicate 4 0 @ [60, 0, 0, 0] @ replicate 120 0, 1)
                             else (NVM_ERR_DRIVERFAILED, [], d)), pt_set = (\<lambda>d handle off raw. (NVM_SUCCESS, d))\<rparr>"
        and devices = "(1, Some [zero_discovery])" and off = 0] p n
    by (simp add: zero_discovery_def PCD_SIZE_def pt_sizes)
qed

end
