(* ===== verification/Pools.thy ===== *)
theory Pools
  imports Capabilities Namespace_Labels Pcd_Tables Revision
begin

text \<open>
  Pools (\<open>lib/pool.c\<close> and \<open>lib/pool_utilities.c\<close>): the volatile capacity of all DIMMs is one pool, the
  interleave sets of a socket are one pool for the mirrored and one for the others. \<open>pool_data\<close> is what
  is collected first; a pool is built from it DIMM by DIMM and set by set. Counts that are bounded by an array are
  \<open>nat\<close>; the result \<open>None\<close> is an access outside an array.
\<close>

unbundle bit_operations_syntax

section \<open>State\<close>

datatype pool_type = POOL_TYPE_UNKNOWN | POOL_TYPE_VOLATILE | POOL_TYPE_PERSISTENT | POOL_TYPE_PERSISTENT_MIRROR

text \<open>The enumerations of healths are compared by their numbers.\<close>

abbreviation POOL_HEALTH_UNKNOWN :: nat where "POOL_HEALTH_UNKNOWN \<equiv> 0"
abbreviation POOL_HEALTH_NORMAL :: nat where "POOL_HEALTH_NORMAL \<equiv> 1"
abbreviation POOL_HEALTH_PENDING :: nat where "POOL_HEALTH_PENDING \<equiv> 2"
abbreviation POOL_HEALTH_ERROR :: nat where "POOL_HEALTH_ERROR \<equiv> 3"
abbreviation POOL_HEALTH_LOCKED :: nat where "POOL_HEALTH_LOCKED \<equiv> 4"

abbreviation INTERLEAVE_HEALTH_UNKNOWN :: nat where "INTERLEAVE_HEALTH_UNKNOWN \<equiv> 0"
abbreviation INTERLEAVE_HEALTH_NORMAL :: nat where "INTERLEAVE_HEALTH_NORMAL \<equiv> 1"
abbreviation INTERLEAVE_HEALTH_DEGRADED :: nat where "INTERLEAVE_HEALTH_DEGRADED \<equiv> 2"
abbreviation INTERLEAVE_HEALTH_FAILED :: nat where "INTERLEAVE_HEALTH_FAILED \<equiv> 3"

abbreviation NVM_MAX_DEVICES_PER_POOL :: nat where "NVM_MAX_DEVICES_PER_POOL \<equiv> 128"

record interleave_set =
  il_set_index :: u32
  il_driver_id :: u32
  il_size :: u64
  il_available_size :: u64
  il_settings :: interleave_format
  il_socket_id :: u8
  il_dimm_count :: u8
  il_dimms :: "bytes list"
  il_mirrored :: bool
  il_health :: nat
  il_encryption :: bool
  il_erase_capable :: bool

text \<open>\<open>struct pool\<close>; the socket is -1 for the volatile pool.\<close>

record pool_info =
  po_uid :: bytes
  po_type :: pool_type
  po_capacity :: u64
  po_free_capacity :: u64
  po_socket_id :: int
  po_dimm_count :: nat
  po_ilset_count :: nat
  po_raw_capacities :: "u64 list"
  po_memory_capacities :: "u64 list"
  po_dimms :: "bytes list"
  po_ilsets :: "interleave_set list"
  po_health :: nat
  po_encryption_enabled :: bool
  po_encryption_capable :: bool
  po_erase_capable :: bool

datatype config_goal_status =
    CONFIG_GOAL_STATUS_UNKNOWN | CONFIG_GOAL_STATUS_NEW | CONFIG_GOAL_STATUS_SUCCESS
  | CONFIG_GOAL_STATUS_ERR_BADREQUEST | CONFIG_GOAL_STATUS_ERR_INSUFFICIENTRESOURCES
  | CONFIG_GOAL_STATUS_ERR_FW | CONFIG_GOAL_STATUS_ERR_UNKNOWN

text \<open>What the pools read of \<open>struct device_status\<close>.\<close>

record device_status =
  st_health :: device_health
  st_config_status :: config_status
  st_viral_state :: bool

record pool_data =
  pd_host_name :: bytes
  pd_capabilities :: nvm_caps
  pd_dimms :: "dimm_device list"
  pd_capacities :: "device_capacities list"
  pd_statuses :: "device_status list"
  pd_goal_statuses :: "config_goal_status list"
  pd_isets :: "nvm_interleave_set list"
  pd_namespaces :: "nvm_namespace_details list"

record device_free_capacities =
  fc_app_direct_byone :: u64
  fc_app_direct_interleaved :: u64
  fc_app_direct_mirrored :: u64

definition zero_uid :: bytes where "zero_uid = zeros NVM_UID_LEN"

definition zero_interleave_set :: interleave_set where
  "zero_interleave_set =
     \<lparr>il_set_index = 0, il_driver_id = 0, il_size = 0, il_available_size = 0,
      il_settings = \<lparr>fmt_recommended = False, fmt_channel = INTERLEAVE_SIZE_NONE, fmt_imc = INTERLEAVE_SIZE_NONE,
        fmt_ways = INTERLEAVE_WAYS_0\<rparr>,
      il_socket_id = 0, il_dimm_count = 0, il_dimms = replicate NVM_MAX_DEVICES_PER_SOCKET zero_uid,
      il_mirrored = False, il_health = INTERLEAVE_HEALTH_UNKNOWN, il_encryption = False, il_erase_capable = False\<rparr>"

definition zero_pool :: pool_info where
  "zero_pool =
     \<lparr>po_uid = zero_uid, po_type = POOL_TYPE_UNKNOWN, po_capacity = 0, po_free_capacity = 0, po_socket_id = 0,
      po_dimm_count = 0, po_ilset_count = 0,
      po_raw_capacities = replicate NVM_MAX_DEVICES_PER_POOL 0,
      po_memory_capacities = replicate NVM_MAX_DEVICES_PER_POOL 0,
      po_dimms = replicate NVM_MAX_DEVICES_PER_POOL zero_uid,
      po_ilsets = replicate (NVM_MAX_DEVICES_PER_POOL * 2) zero_interleave_set,
      po_health = POOL_HEALTH_UNKNOWN, po_encryption_enabled = False, po_encryption_capable = False,
      po_erase_capable = False\<rparr>"

definition REDUCE_CAPACITY :: "u64 \<Rightarrow> u64 \<Rightarrow> u64" where
  "REDUCE_CAPACITY current amount = (if amount \<ge> current then 0 else current - amount)"

definition KEEP_POOL_HEALTH :: "nat \<Rightarrow> nat \<Rightarrow> nat" where
  "KEEP_POOL_HEALTH health new_health =
     (if new_health > health \<or> health = POOL_HEALTH_NORMAL then new_health else health)"

definition KEEP_INTERLEAVE_HEALTH :: "nat \<Rightarrow> nat \<Rightarrow> nat" where
  "KEEP_INTERLEAVE_HEALTH health new_health =
     (if new_health > health \<or> health = INTERLEAVE_HEALTH_NORMAL then new_health else health)"

section \<open>New pools\<close>

text \<open>\<open>sha1\<close> and \<open>garbage\<close> are the environment of \<open>guid_hash_str\<close>; the name is cut to 511 characters.\<close>

definition pool_name :: "bytes \<Rightarrow> pool_type \<Rightarrow> int \<Rightarrow> bytes" where
  "pool_name host_name type socket =
     take 511
       (if type = POOL_TYPE_VOLATILE then cstr host_name @ map of_char ''volatile''
        else if type = POOL_TYPE_PERSISTENT then map of_char ''persistent'' @ fmt_dec (nat socket)
        else map of_char ''mirrored'' @ fmt_dec (nat socket))"

definition init_pool ::
    "(bytes \<Rightarrow> bytes option) \<Rightarrow> bytes \<Rightarrow> bytes \<Rightarrow> pool_type \<Rightarrow> int \<Rightarrow> (int \<times> pool_info) option" where
  "init_pool sha1 garbage host_name type socket = do {
     (uid, ok) \<leftarrow> guid_hash_str sha1 (pool_name host_name type socket) garbage (Some (po_uid zero_pool));
     u \<leftarrow> uid;
     Some (if ok then NVM_SUCCESS else NVM_ERR_UNKNOWN,
           zero_pool\<lparr>po_uid := u, po_type := type, po_socket_id := socket, po_health := POOL_HEALTH_NORMAL\<rparr>) }"

text \<open>The index of a pool, \<open>None\<close> for -1.\<close>

function pool_index_loop :: "int \<Rightarrow> pool_type \<Rightarrow> pool_info list \<Rightarrow> nat \<Rightarrow> nat \<Rightarrow> nat option option" where
  "pool_index_loop socket type pools count i =
     (if i < count then do {
        p \<leftarrow> rd pools i;
        if po_socket_id p = socket \<and> po_type p = type then Some (Some i)
        else pool_index_loop socket type pools count (Suc i) }
      else Some None)"
  by pat_completeness auto
termination
  by (relation "measure (\<lambda>(s, t, ps, count, i). count - i)") auto

declare pool_index_loop.simps [simp del]

definition get_pool_index :: "int \<Rightarrow> pool_type \<Rightarrow> pool_info list \<Rightarrow> nat \<Rightarrow> nat option option" where
  "get_pool_index socket type pools count = pool_index_loop socket type pools count 0"

section \<open>Interleave sets\<close>

text \<open>The capacity of the namespaces on the set is taken off its size.\<close>

fun iset_free_loop :: "nvm_namespace_details list \<Rightarrow> u32 \<Rightarrow> u64 \<Rightarrow> u64" where
  "iset_free_loop [] driver_id available = available"
| "iset_free_loop (ns # nss) driver_id available =
     iset_free_loop nss driver_id
       (if ns_type ns = NAMESPACE_TYPE_APP_DIRECT \<and> ns_creation_id ns = driver_id
        then REDUCE_CAPACITY available (ns_block_count ns * ucast (ns_block_size ns))
        else available)"

definition calculate_iset_free_capacity :: "pool_data \<Rightarrow> interleave_set \<Rightarrow> interleave_set" where
  "calculate_iset_free_capacity d s = s\<lparr>il_available_size := iset_free_loop (pd_namespaces d) (il_driver_id s) (il_size s)\<rparr>"

text \<open>What a DIMM means for the security and the health of its set.\<close>

definition account_dimm :: "nvm_interleave_set \<Rightarrow> dimm_device \<Rightarrow> device_status \<Rightarrow> interleave_set \<Rightarrow> interleave_set" where
  "account_dimm ni x st s =
     (let capable = passphrase_capable (disc_security_capabilities x) in
      s\<lparr>il_erase_capable := (il_erase_capable s \<and> capable \<and> erase_crypto_capable (disc_security_capabilities x)),
        il_encryption := (il_encryption s \<and> capable \<and> device_is_encryption_enabled (disc_lock_state x)),
        il_health :=
          (if st_health st = DEVICE_HEALTH_UNKNOWN then KEEP_INTERLEAVE_HEALTH (il_health s) INTERLEAVE_HEALTH_UNKNOWN
           else if st_health st = DEVICE_HEALTH_FATAL then KEEP_INTERLEAVE_HEALTH (il_health s) INTERLEAVE_HEALTH_FAILED
           else if st_health st \<noteq> DEVICE_HEALTH_NORMAL \<and> st_health st \<noteq> DEVICE_HEALTH_NONCRITICAL
           then KEEP_INTERLEAVE_HEALTH (il_health s) INTERLEAVE_HEALTH_DEGRADED
           else il_health s),
        il_mirrored := MIRRORED_INTERLEAVE (ni_attributes ni), il_dimm_count := il_dimm_count s + 1\<rparr>)"

text \<open>The offset of the set in the persistent partition; the old value is kept if the partition is not known.\<close>

definition get_interleave_set_offset_from_pm_partition_start ::
    "int \<times> pt_payload_get_dimm_partition_info \<Rightarrow> u64 \<Rightarrow> u64 \<Rightarrow> int \<times> u64" where
  "get_interleave_set_offset_from_pm_partition_start part_info offset_from_dimm_start old =
     (if fst part_info = NVM_SUCCESS then
        (NVM_SUCCESS, if pi_start_pmem (snd part_info) > offset_from_dimm_start then offset_from_dimm_start
                      else offset_from_dimm_start - pi_start_pmem (snd part_info))
      else (fst part_info, old))"

text \<open>
  What the device answers: its partition, and what \<open>get_interleave_settings_from_platform_config_data\<close> finds in
  its PCD for an offset (the index of the set, the mirror flag and the format).
\<close>

type_synonym iset_source =
  "(u32 \<Rightarrow> int \<times> pt_payload_get_dimm_partition_info) \<times> (u32 \<Rightarrow> u64 \<Rightarrow> int \<times> (u16 \<times> u8 \<times> u32) option)"

definition fill_interleave_set_settings_and_id_from_dimm ::
    "iset_source \<Rightarrow> u32 \<Rightarrow> u64 \<Rightarrow> interleave_set \<Rightarrow> int \<times> interleave_set" where
  "fill_interleave_set_settings_and_id_from_dimm fill handle dpa s =
     (case get_interleave_set_offset_from_pm_partition_start (fst fill handle) dpa 0 of (rc, pcd_offset) \<Rightarrow>
        if rc \<noteq> NVM_SUCCESS then (NVM_ERR_DRIVERFAILED, s)
        else (case snd fill handle pcd_offset of (rc', found) \<Rightarrow>
          (if rc' \<noteq> NVM_SUCCESS then NVM_ERR_DRIVERFAILED else NVM_SUCCESS,
           case found of
             None \<Rightarrow> s
           | Some (idx, _, format) \<Rightarrow>
               s\<lparr>il_set_index := ucast idx,
                 il_settings := the (interleave_format_to_struct format (Some (il_settings s)))\<rparr>)))"

text \<open>A DIMM of the set that is found in the list; the settings are read until they are found once.\<close>

definition iset_dimm ::
    "iset_source \<Rightarrow> nvm_interleave_set \<Rightarrow> nat \<Rightarrow> dimm_device \<Rightarrow> device_status \<Rightarrow> interleave_set \<times> bool \<Rightarrow>
     (interleave_set \<times> bool) option" where
  "iset_dimm fill ni dimm_idx x st s = do {
     let (s0, filled) = s;
     old \<leftarrow> rd (il_dimms s0) dimm_idx;
     copied \<leftarrow> uid_copy (Some (disc_uid x)) (Some old);
     uid \<leftarrow> copied;
     dimms \<leftarrow> wr (il_dimms s0) dimm_idx uid;
     pda \<leftarrow> rd (ni_dimm_region_pdas ni) dimm_idx;
     let s1 = account_dimm ni x st (s0\<lparr>il_dimms := dimms\<rparr>);
     Some (if filled then (s1, True)
           else (case fill_interleave_set_settings_and_id_from_dimm fill (disc_handle x) pda s1 of (rc, s2) \<Rightarrow>
                   (s2, rc = NVM_SUCCESS))) }"

text \<open>All the DIMMs of the list with the handle; the list of the states has the same length.\<close>

fun iset_match_loop ::
    "iset_source \<Rightarrow> nvm_interleave_set \<Rightarrow> nat \<Rightarrow> u32 \<Rightarrow> dimm_device list \<Rightarrow> device_status list \<Rightarrow>
     interleave_set \<times> bool \<Rightarrow> (interleave_set \<times> bool) option" where
  "iset_match_loop fill ni dimm_idx handle [] sts s = Some s"
| "iset_match_loop fill ni dimm_idx handle (x # xs) [] s =
     (if handle = disc_handle x then None else iset_match_loop fill ni dimm_idx handle xs [] s)"
| "iset_match_loop fill ni dimm_idx handle (x # xs) (st # sts) s = do {
     s' \<leftarrow> (if handle = disc_handle x then iset_dimm fill ni dimm_idx x st s else Some s);
     iset_match_loop fill ni dimm_idx handle xs sts s' }"

function iset_dimms_loop ::
    "iset_source \<Rightarrow> pool_data \<Rightarrow> nvm_interleave_set \<Rightarrow> nat \<Rightarrow> interleave_set \<Rightarrow>
     interleave_set option" where
  "iset_dimms_loop fill d ni dimm_idx s =
     (if dimm_idx < unat (ni_dimm_count ni) then do {
        handle \<leftarrow> rd (ni_dimms ni) dimm_idx;
        (s', _) \<leftarrow> iset_match_loop fill ni dimm_idx handle (pd_dimms d) (pd_statuses d) (s, False);
        iset_dimms_loop fill d ni (Suc dimm_idx) s' }
      else Some s)"
  by pat_completeness auto
termination
  by (relation "measure (\<lambda>(f, d, ni, i, s). unat (ni_dimm_count ni) - i)") auto

declare iset_dimms_loop.simps [simp del]

definition nvm_interleave_to_interleave ::
    "iset_source \<Rightarrow> pool_data \<Rightarrow> nvm_interleave_set \<Rightarrow> interleave_set \<Rightarrow>
     interleave_set option" where
  "nvm_interleave_to_interleave fill d ni s = do {
     let s1 = (calculate_iset_free_capacity d (s\<lparr>il_driver_id := ucast (ni_id ni), il_size := ni_size ni\<rparr>))
       \<lparr>il_socket_id := ni_socket_id ni\<rparr>;
     s2 \<leftarrow> (if ni_dimm_count ni \<noteq> 0
            then iset_dimms_loop fill d ni 0
              (s1\<lparr>il_health := INTERLEAVE_HEALTH_NORMAL, il_encryption := True, il_erase_capable := True\<rparr>)
            else Some s1);
     Some (if il_dimm_count s2 \<noteq> ni_dimm_count ni
           then s2\<lparr>il_health := INTERLEAVE_HEALTH_FAILED, il_encryption := False, il_erase_capable := False\<rparr>
           else s2) }"

section \<open>Pools from DIMMs\<close>

function dimm_index_in_pool_loop :: "bytes \<Rightarrow> pool_info \<Rightarrow> nat \<Rightarrow> nat option option" where
  "dimm_index_in_pool_loop uid p i =
     (if i < po_dimm_count p then do {
        u \<leftarrow> rd (po_dimms p) i;
        same \<leftarrow> uid_cmp u uid;
        if same then Some (Some i) else dimm_index_in_pool_loop uid p (Suc i) }
      else Some None)"
  by pat_completeness auto
termination
  by (relation "measure (\<lambda>(u, p, i). po_dimm_count p - i)") auto

declare dimm_index_in_pool_loop.simps [simp del]

definition get_dimm_index_from_pool :: "bytes \<Rightarrow> pool_info \<Rightarrow> nat option option" where
  "get_dimm_index_from_pool uid p = dimm_index_in_pool_loop uid p 0"

text \<open>
  The free capacities that the last interleave set of the pool gives a DIMM; the reduction of the copy
  of the set has no effect.
\<close>

function free_capacities_loop ::
    "dimm_device \<Rightarrow> interleave_set \<Rightarrow> nat \<Rightarrow> device_free_capacities \<Rightarrow> device_free_capacities option" where
  "free_capacities_loop x s dimm_idx fc =
     (if dimm_idx < unat (il_dimm_count s) then do {
        u \<leftarrow> rd (il_dimms s) dimm_idx;
        same \<leftarrow> uid_cmp (disc_uid x) u;
        if same then Some
          (let share = il_available_size s div ucast (il_dimm_count s) in
           if il_mirrored s then fc\<lparr>fc_app_direct_mirrored := fc_app_direct_mirrored fc + share\<rparr>
           else if fmt_ways (il_settings s) = INTERLEAVE_WAYS_1
           then fc\<lparr>fc_app_direct_byone := fc_app_direct_byone fc + il_available_size s\<rparr>
           else fc\<lparr>fc_app_direct_interleaved := fc_app_direct_interleaved fc + share\<rparr>)
        else free_capacities_loop x s (Suc dimm_idx) fc }
      else Some fc)"
  by pat_completeness auto
termination
  by (relation "measure (\<lambda>(x, s, i, fc). unat (il_dimm_count s) - i)") auto

declare free_capacities_loop.simps [simp del]

definition get_dimm_free_capacities ::
    "dimm_device \<Rightarrow> pool_info \<Rightarrow> device_free_capacities \<Rightarrow> device_free_capacities option" where
  "get_dimm_free_capacities x p fc =
     (if po_ilset_count p = 0 then None
      else do { s \<leftarrow> rd (po_ilsets p) (po_ilset_count p - 1); free_capacities_loop x s 0 fc })"

definition zero_free_capacities :: device_free_capacities where
  "zero_free_capacities = \<lparr>fc_app_direct_byone = 0, fc_app_direct_interleaved = 0, fc_app_direct_mirrored = 0\<rparr>"

definition add_free_capacity :: "device_free_capacities \<Rightarrow> pool_info \<Rightarrow> pool_info" where
  "add_free_capacity fc p =
     (if po_type p = POOL_TYPE_PERSISTENT
      then p\<lparr>po_free_capacity := po_free_capacity p + (fc_app_direct_byone fc + fc_app_direct_interleaved fc)\<rparr>
      else if po_type p = POOL_TYPE_PERSISTENT_MIRROR
      then p\<lparr>po_free_capacity := po_free_capacity p + fc_app_direct_mirrored fc\<rparr>
      else p)"

text \<open>The health of the pool after that of a DIMM.\<close>

definition dimm_pool_health :: "dimm_device \<Rightarrow> config_goal_status \<Rightarrow> device_status \<Rightarrow> nat \<Rightarrow> nat" where
  "dimm_pool_health x goal st h =
     (let h1 = (if disc_lock_state x = LOCK_STATE_LOCKED \<or> disc_lock_state x = LOCK_STATE_PASSPHRASE_LIMIT
                then KEEP_POOL_HEALTH h POOL_HEALTH_LOCKED else h);
          h2 = (if goal = CONFIG_GOAL_STATUS_NEW then KEEP_POOL_HEALTH h1 POOL_HEALTH_PENDING else h1);
          h3 = (if st_health st = DEVICE_HEALTH_UNKNOWN then KEEP_POOL_HEALTH h2 POOL_HEALTH_UNKNOWN
                else if (st_health st \<noteq> DEVICE_HEALTH_NORMAL \<and> st_health st \<noteq> DEVICE_HEALTH_NONCRITICAL) \<or> st_viral_state st
                then KEEP_POOL_HEALTH h2 POOL_HEALTH_ERROR else h2) in
      if st_config_status st \<noteq> CONFIG_STATUS_NOT_CONFIGURED \<and> st_config_status st \<noteq> CONFIG_STATUS_VALID
      then KEEP_POOL_HEALTH h3 POOL_HEALTH_ERROR else h3)"

text \<open>What a new DIMM of the given type adds to the capacity.\<close>

definition add_capacity :: "device_capacities \<Rightarrow> nat \<Rightarrow> pool_info \<Rightarrow> pool_info option" where
  "add_capacity caps dimm_index p =
     (if po_type p = POOL_TYPE_VOLATILE then do {
        ms \<leftarrow> wr (po_memory_capacities p) dimm_index (dc_memory_capacity caps);
        Some (p\<lparr>po_memory_capacities := ms, po_capacity := po_capacity p + dc_memory_capacity caps,
          po_free_capacity := po_free_capacity p + dc_memory_capacity caps\<rparr>) }
      else if po_type p = POOL_TYPE_PERSISTENT then
        Some (p\<lparr>po_capacity := po_capacity p +
          REDUCE_CAPACITY (dc_app_direct_capacity caps) (dc_mirrored_app_direct_capacity caps * 2)\<rparr>)
      else if po_type p = POOL_TYPE_PERSISTENT_MIRROR then
        Some (p\<lparr>po_capacity := po_capacity p + dc_mirrored_app_direct_capacity caps\<rparr>)
      else Some p)"

definition add_dimm_to_pool :: "pool_data \<Rightarrow> nat \<Rightarrow> pool_info \<Rightarrow> pool_info option" where
  "add_dimm_to_pool d data_idx p = do {
     x \<leftarrow> rd (pd_dimms d) data_idx;
     found \<leftarrow> get_dimm_index_from_pool (disc_uid x) p;
     (case found of
        None \<Rightarrow> do {
          caps \<leftarrow> rd (pd_capacities d) data_idx;
          st \<leftarrow> rd (pd_statuses d) data_idx;
          goal \<leftarrow> rd (pd_goal_statuses d) data_idx;
          fc \<leftarrow> (if app_direct_mode_f (nvm_features (pd_capabilities d)) \<and>
                    (po_type p = POOL_TYPE_PERSISTENT \<or> po_type p = POOL_TYPE_PERSISTENT_MIRROR)
                 then get_dimm_free_capacities x p zero_free_capacities else Some zero_free_capacities);
          let dimm_index = po_dimm_count p;
          old \<leftarrow> rd (po_dimms p) dimm_index;
          copied \<leftarrow> uid_copy (Some (disc_uid x)) (Some old);
          uid \<leftarrow> copied;
          dimms \<leftarrow> wr (po_dimms p) dimm_index uid;
          raws \<leftarrow> wr (po_raw_capacities p) dimm_index (dc_capacity caps);
          p1 \<leftarrow> add_capacity caps dimm_index (p\<lparr>po_dimms := dimms, po_raw_capacities := raws\<rparr>);
          let p2 = add_free_capacity fc p1;
          Some (p2\<lparr>po_health := dimm_pool_health x goal st (po_health p2), po_dimm_count := Suc (po_dimm_count p2)\<rparr>) }
      | Some _ \<Rightarrow> do {
          fc \<leftarrow> get_dimm_free_capacities x p zero_free_capacities;
          Some (add_free_capacity fc p) }) }"

section \<open>Pools from interleave sets\<close>

text \<open>The first DIMM of the list with the UID.\<close>

function dimm_data_loop :: "bytes \<Rightarrow> dimm_device list \<Rightarrow> nat \<Rightarrow> nat option option" where
  "dimm_data_loop uid ds i =
     (if i < length ds then do {
        same \<leftarrow> uid_cmp (disc_uid (ds ! i)) uid;
        if same then Some (Some i) else dimm_data_loop uid ds (Suc i) }
      else Some None)"
  by pat_completeness auto
termination
  by (relation "measure (\<lambda>(u, ds, i). length ds - i)") auto

declare dimm_data_loop.simps [simp del]

text \<open>
  Whether the DIMMs can be encrypted: the DIMMs are looked up in the pool, at the indices of those of the
  set.
\<close>

function encryption_capable_loop :: "pool_data \<Rightarrow> interleave_set \<Rightarrow> nat \<Rightarrow> pool_info \<Rightarrow> pool_info option" where
  "encryption_capable_loop d s i p =
     (if i < unat (il_dimm_count s) \<and> po_encryption_capable p then do {
        u \<leftarrow> rd (po_dimms p) i;
        found \<leftarrow> dimm_data_loop u (pd_dimms d) 0;
        encryption_capable_loop d s (Suc i)
          (case found of
             Some j \<Rightarrow> if \<not> passphrase_capable (disc_security_capabilities (pd_dimms d ! j))
                       then p\<lparr>po_encryption_capable := False\<rparr> else p
           | None \<Rightarrow> p) }
      else Some p)"
  by pat_completeness auto
termination
  by (relation "measure (\<lambda>(d, s, i, p). unat (il_dimm_count s) - i)") auto

declare encryption_capable_loop.simps [simp del]

definition update_pool_security_from_iset :: "pool_data \<Rightarrow> interleave_set \<Rightarrow> pool_info \<Rightarrow> pool_info option" where
  "update_pool_security_from_iset d s p =
     (if il_available_size s > sw_min_namespace_size (pd_capabilities d) then
        encryption_capable_loop d s 0
          (p\<lparr>po_encryption_enabled := (po_encryption_enabled p \<or> il_encryption s),
             po_erase_capable := (po_erase_capable p \<or> il_erase_capable s), po_encryption_capable := True\<rparr>)
      else Some p)"

function add_iset_dimms_loop :: "pool_data \<Rightarrow> interleave_set \<Rightarrow> nat \<Rightarrow> pool_info \<Rightarrow> pool_info option" where
  "add_iset_dimms_loop d s i p =
     (if i < unat (il_dimm_count s) then do {
        u \<leftarrow> rd (il_dimms s) i;
        found \<leftarrow> dimm_data_loop u (pd_dimms d) 0;
        p' \<leftarrow> (case found of Some j \<Rightarrow> add_dimm_to_pool d j p | None \<Rightarrow> Some p);
        add_iset_dimms_loop d s (Suc i) p' }
      else Some p)"
  by pat_completeness auto
termination
  by (relation "measure (\<lambda>(d, s, i, p). unat (il_dimm_count s) - i)") auto

declare add_iset_dimms_loop.simps [simp del]

definition iset_pool_health :: "interleave_set \<Rightarrow> nat \<Rightarrow> nat" where
  "iset_pool_health s h =
     (if il_health s = INTERLEAVE_HEALTH_UNKNOWN then KEEP_POOL_HEALTH h POOL_HEALTH_UNKNOWN
      else if il_health s = INTERLEAVE_HEALTH_DEGRADED \<or> il_health s = INTERLEAVE_HEALTH_FAILED
      then KEEP_POOL_HEALTH h POOL_HEALTH_ERROR
      else h)"

definition add_interleave_set_to_pool ::
    "iset_source \<Rightarrow> pool_data \<Rightarrow> pool_info \<Rightarrow> nvm_interleave_set \<Rightarrow>
     pool_info option" where
  "add_interleave_set_to_pool fill d p ni = do {
     old \<leftarrow> rd (po_ilsets p) (po_ilset_count p);
     s \<leftarrow> nvm_interleave_to_interleave fill d ni old;
     sets \<leftarrow> wr (po_ilsets p) (po_ilset_count p) s;
     p1 \<leftarrow> add_iset_dimms_loop d s 0 (p\<lparr>po_ilsets := sets, po_ilset_count := Suc (po_ilset_count p)\<rparr>);
     update_pool_security_from_iset d s (p1\<lparr>po_health := iset_pool_health s (po_health p1)\<rparr>) }"

definition zero_pool_free_capacity_if_locked :: "pool_info \<Rightarrow> pool_info" where
  "zero_pool_free_capacity_if_locked p = (if po_health p = POOL_HEALTH_LOCKED then p\<lparr>po_free_capacity := 0\<rparr> else p)"

section \<open>All pools\<close>

definition pool_type_of_iset :: "nvm_interleave_set \<Rightarrow> pool_type" where
  "pool_type_of_iset ni = (if MIRRORED_INTERLEAVE (ni_attributes ni) then POOL_TYPE_PERSISTENT_MIRROR else POOL_TYPE_PERSISTENT)"

text \<open>What the environment of a call gives: the results of the calls that collect the data.\<close>

record pool_env =
  pe_permitted :: bool
  pe_driver :: bool
  pe_licensed :: int
  pe_alloc :: "nat \<Rightarrow> bool"
  pe_dimms :: "int \<times> dimm_device list option"
  pe_caps :: "int \<times> nvm_caps"
  pe_capacities :: "dimm_device \<Rightarrow> int \<times> device_capacities"
  pe_isets :: "int \<times> int \<times> nvm_interleave_set list"
  pe_host :: "int \<times> bytes"
  pe_goal_status :: "bytes \<Rightarrow> config_goal_status"
  pe_status :: "u32 \<Rightarrow> device_status"
  pe_namespaces :: "int \<times> int \<times> namespace_discovery list"
  pe_details :: "bytes \<Rightarrow> int \<times> nvm_namespace_details"
  pe_fill :: iset_source
  pe_sha1 :: "bytes \<Rightarrow> bytes option"
  pe_garbage :: bytes

text \<open>The set is added to the pool with the index.\<close>

definition add_iset_at ::
    "pool_env \<Rightarrow> pool_data \<Rightarrow> nvm_interleave_set \<Rightarrow> pool_info list \<Rightarrow> nat \<Rightarrow> pool_info list option" where
  "add_iset_at E d ni pools i = do {
     p \<leftarrow> rd pools i;
     p' \<leftarrow> add_interleave_set_to_pool (pe_fill E) d p ni;
     wr pools i (zero_pool_free_capacity_if_locked p') }"

fun add_interleave_sets_loop ::
    "pool_env \<Rightarrow> pool_data \<Rightarrow> nat \<Rightarrow> nvm_interleave_set list \<Rightarrow> int \<times> pool_info list \<times> nat \<Rightarrow>
     (int \<times> pool_info list \<times> nat) option" where
  "add_interleave_sets_loop E d count [] s = Some s"
| "add_interleave_sets_loop E d count (ni # nis) (rc, pools, pcnt) = do {
     found \<leftarrow> get_pool_index (int (unat (ni_socket_id ni))) (pool_type_of_iset ni) pools pcnt;
     (case found of
        Some i \<Rightarrow> do {
          pools' \<leftarrow> add_iset_at E d ni pools i;
          add_interleave_sets_loop E d count nis (rc, pools', pcnt) }
      | None \<Rightarrow>
          if pcnt \<ge> count then add_interleave_sets_loop E d count nis (NVM_ERR_ARRAYTOOSMALL, pools, pcnt)
          else do {
            (rc', p) \<leftarrow> init_pool (pe_sha1 E) (pe_garbage E) (pd_host_name d) (pool_type_of_iset ni)
              (int (unat (ni_socket_id ni)));
            pools' \<leftarrow> wr pools pcnt p;
            if rc' \<noteq> NVM_SUCCESS then Some (rc', pools', pcnt)
            else do {
              pools'' \<leftarrow> add_iset_at E d ni pools' pcnt;
              add_interleave_sets_loop E d count nis (rc', pools'', Suc pcnt) } }) }"

definition add_interleave_sets_to_pools ::
    "pool_env \<Rightarrow> pool_data \<Rightarrow> pool_info list \<Rightarrow> nat \<Rightarrow> nat \<Rightarrow> (int \<times> pool_info list \<times> nat) option" where
  "add_interleave_sets_to_pools E d pools count pcnt =
     add_interleave_sets_loop E d count (pd_isets d) (NVM_SUCCESS, pools, pcnt)"

definition add_dimm_at :: "pool_data \<Rightarrow> nat \<Rightarrow> pool_info list \<Rightarrow> nat \<Rightarrow> pool_info list option" where
  "add_dimm_at d dimm_idx pools i = do {
     p \<leftarrow> rd pools i;
     p' \<leftarrow> add_dimm_to_pool d dimm_idx p;
     wr pools i (zero_pool_free_capacity_if_locked p') }"

function volatile_loop ::
    "pool_env \<Rightarrow> pool_data \<Rightarrow> nat \<Rightarrow> nat \<Rightarrow> pool_info list \<times> nat \<Rightarrow> (int \<times> pool_info list \<times> nat) option" where
  "volatile_loop E d count dimm_idx s =
     (if dimm_idx < length (pd_dimms d) then do {
        cap \<leftarrow> rd (pd_capacities d) dimm_idx;
        if dc_memory_capacity cap \<noteq> 0 then do {
          let (pools, pcnt) = s;
          found \<leftarrow> get_pool_index (- 1) POOL_TYPE_VOLATILE pools pcnt;
          (case found of
             Some i \<Rightarrow> do {
               pools' \<leftarrow> add_dimm_at d dimm_idx pools i;
               volatile_loop E d count (Suc dimm_idx) (pools', pcnt) }
           | None \<Rightarrow>
               if pcnt \<ge> count then Some (NVM_ERR_ARRAYTOOSMALL, pools, pcnt)
               else do {
                 (rc, p) \<leftarrow> init_pool (pe_sha1 E) (pe_garbage E) (pd_host_name d) POOL_TYPE_VOLATILE (- 1);
                 pools' \<leftarrow> wr pools pcnt p;
                 if rc \<noteq> NVM_SUCCESS then Some (rc, pools', pcnt)
                 else do {
                   pools'' \<leftarrow> add_dimm_at d dimm_idx pools' pcnt;
                   volatile_loop E d count (Suc dimm_idx) (pools'', Suc pcnt) } }) }
        else volatile_loop E d count (Suc dimm_idx) s }
      else Some (NVM_SUCCESS, s))"
  by pat_completeness auto
termination
  by (relation "measure (\<lambda>(E, d, count, i, s). length (pd_dimms d) - i)") auto

declare volatile_loop.simps [simp del]

definition add_dimms_volatile_capacity_to_pools ::
    "pool_env \<Rightarrow> pool_data \<Rightarrow> pool_info list \<Rightarrow> nat \<Rightarrow> nat \<Rightarrow> (int \<times> pool_info list \<times> nat) option" where
  "add_dimms_volatile_capacity_to_pools E d pools count pcnt = volatile_loop E d count 0 (pools, pcnt)"

definition populate_pools ::
    "pool_env \<Rightarrow> pool_data \<Rightarrow> pool_info list \<Rightarrow> nat \<Rightarrow> (int \<times> pool_info list) option" where
  "populate_pools E d pools count = do {
     (rc, pools1, n) \<leftarrow> add_dimms_volatile_capacity_to_pools E d pools count 0;
     let rc1 = (if rc = NVM_SUCCESS then int n else rc);
     if rc1 \<ge> 0 \<and> app_direct_mode_f (nvm_features (pd_capabilities d)) then do {
       (rc2, pools2, n2) \<leftarrow> add_interleave_sets_to_pools E d pools1 count n;
       Some (if rc2 = NVM_SUCCESS then int n2 else rc2, pools2) }
     else Some (rc1, pools1) }"

section \<open>Counting\<close>

definition MAX_POOLS :: nat where "MAX_POOLS = 9"

text \<open>A pool that is not in the list yet is added at the end, without a test of the end.\<close>

definition count_pool :: "int \<Rightarrow> pool_type \<Rightarrow> pool_info list \<times> nat \<Rightarrow> (pool_info list \<times> nat) option" where
  "count_pool socket type s = do {
     let (pools, n) = s;
     found \<leftarrow> get_pool_index socket type pools n;
     (case found of
        Some _ \<Rightarrow> Some s
      | None \<Rightarrow> do {
          p \<leftarrow> rd pools n;
          pools' \<leftarrow> wr pools n (p\<lparr>po_socket_id := socket, po_type := type\<rparr>);
          Some (pools', Suc n) }) }"

function count_volatile_loop :: "pool_data \<Rightarrow> nat \<Rightarrow> pool_info list \<times> nat \<Rightarrow> (pool_info list \<times> nat) option" where
  "count_volatile_loop d i s =
     (if i < length (pd_dimms d) then do {
        cap \<leftarrow> rd (pd_capacities d) i;
        s' \<leftarrow> (if dc_memory_capacity cap \<noteq> 0 then count_pool (- 1) POOL_TYPE_VOLATILE s else Some s);
        count_volatile_loop d (Suc i) s' }
      else Some s)"
  by pat_completeness auto
termination
  by (relation "measure (\<lambda>(d, i, s). length (pd_dimms d) - i)") auto

declare count_volatile_loop.simps [simp del]

fun count_isets_loop :: "nvm_interleave_set list \<Rightarrow> pool_info list \<times> nat \<Rightarrow> int option" where
  "count_isets_loop [] s = Some (int (snd s))"
| "count_isets_loop (ni # nis) s = do {
     s' \<leftarrow> count_pool (int (unat (ni_socket_id ni))) (pool_type_of_iset ni) s;
     if snd s' > snd s \<and> snd s' > MAX_POOLS then Some NVM_ERR_BADPOOLHEALTH
     else count_isets_loop nis s' }"

definition count_pools :: "pool_data \<Rightarrow> bool \<Rightarrow> int option" where
  "count_pools d alloc =
     (if alloc then do {
        s \<leftarrow> count_volatile_loop d 0 (replicate MAX_POOLS zero_pool, 0);
        if app_direct_mode_f (nvm_features (pd_capabilities d)) then count_isets_loop (pd_isets d) s
        else Some (int (snd s)) }
      else Some 0)"

section \<open>Collecting the data\<close>

fun capacities_loop :: "pool_env \<Rightarrow> dimm_device list \<Rightarrow> int \<times> device_capacities list" where
  "capacities_loop E [] = (NVM_SUCCESS, [])"
| "capacities_loop E (x # xs) =
     (case pe_capacities E x of (rc, c) \<Rightarrow>
        if rc \<noteq> NVM_SUCCESS then (rc, c # map (\<lambda>_. zero_capacities) xs)
        else (case capacities_loop E xs of (rc', cs) \<Rightarrow> (rc', c # cs)))"

definition collect_dimm_capacities :: "pool_env \<Rightarrow> dimm_device list \<Rightarrow> int \<times> device_capacities list" where
  "collect_dimm_capacities E ds = (if pe_alloc E (length ds) then capacities_loop E ds else (NVM_ERR_NOMEMORY, []))"

definition collect_interleave_sets :: "pool_env \<Rightarrow> (int \<times> nvm_interleave_set list) option" where
  "collect_interleave_sets E =
     (case pe_isets E of (cnt, n, sets) \<Rightarrow>
        if cnt < 0 then Some (cnt, [])
        else if cnt = 0 then Some (NVM_SUCCESS, [])
        else if \<not> pe_alloc E (nat cnt) then Some (NVM_ERR_NOMEMORY, [])
        else if n < 0 then Some (n, [])
        else map_option (Pair NVM_SUCCESS) (rd_bytes sets 0 (nat n)))"

fun pool_details_loop :: "pool_env \<Rightarrow> namespace_discovery list \<Rightarrow> int \<times> nvm_namespace_details list" where
  "pool_details_loop E [] = (NVM_SUCCESS, [])"
| "pool_details_loop E (x # xs) =
     (case pe_details E (namespace_uid x) of (rc, ns) \<Rightarrow>
        if rc \<noteq> NVM_SUCCESS then (rc, [ns])
        else (case pool_details_loop E xs of (rc', nss) \<Rightarrow> (rc', ns # nss)))"

definition pool_namespaces :: "pool_env \<Rightarrow> (int \<times> nvm_namespace_details list) option" where
  "pool_namespaces E =
     (case pe_namespaces E of (cnt, n, nss) \<Rightarrow>
        if cnt < 0 then Some (cnt, [])
        else if cnt = 0 then Some (NVM_SUCCESS, [])
        else if n < 0 then Some (n, [])
        else if n = 0 then Some (NVM_SUCCESS, [])
        else if \<not> pe_alloc E (nat n) then Some (NVM_ERR_NOMEMORY, [])
        else do { xs \<leftarrow> rd_bytes nss 0 (nat n); Some (pool_details_loop E xs) })"

text \<open>The rest of the data, which a count does not need.\<close>

definition collect_pool_details :: "pool_env \<Rightarrow> pool_data \<Rightarrow> (int \<times> pool_data) option" where
  "collect_pool_details E d =
     (if fst (pe_host E) \<noteq> NVM_SUCCESS then Some (fst (pe_host E), d)
      else if \<not> pe_alloc E (length (pd_dimms d)) then Some (NVM_ERR_NOMEMORY, d)
      else do {
        (rc, nss) \<leftarrow> pool_namespaces E;
        Some (rc, d\<lparr>pd_host_name := snd (pe_host E),
          pd_goal_statuses := map (\<lambda>x. pe_goal_status E (disc_uid x)) (pd_dimms d),
          pd_statuses := map (\<lambda>x. pe_status E (disc_handle x)) (pd_dimms d), pd_namespaces := nss\<rparr>) })"

definition empty_pool_data :: pool_data where
  "empty_pool_data =
     \<lparr>pd_host_name = [], pd_capabilities = zero_nvm_caps, pd_dimms = [], pd_capacities = [], pd_statuses = [],
      pd_goal_statuses = [], pd_isets = [], pd_namespaces = []\<rparr>"

text \<open>The data is freed if it is not complete.\<close>

definition collect_required_pool_data :: "pool_env \<Rightarrow> bool \<Rightarrow> (int \<times> pool_data option) option" where
  "collect_required_pool_data E count_only =
     (if \<not> pe_alloc E 1 then Some (NVM_ERR_NOMEMORY, None)
      else if fst (pe_dimms E) < 0 then Some (fst (pe_dimms E), None)
      else if fst (pe_dimms E) = 0 then Some (NVM_SUCCESS, Some empty_pool_data)
      else do {
        all \<leftarrow> snd (pe_dimms E);
        ds \<leftarrow> rd_bytes all 0 (nat (fst (pe_dimms E)));
        if fst (pe_caps E) \<noteq> NVM_SUCCESS then Some (fst (pe_caps E), None)
        else (case collect_dimm_capacities E ds of (rc, cs) \<Rightarrow>
          if rc \<noteq> NVM_SUCCESS then Some (rc, None)
          else do {
            (rc', sets) \<leftarrow> collect_interleave_sets E;
            let d = empty_pool_data\<lparr>pd_capabilities := snd (pe_caps E), pd_dimms := ds, pd_capacities := cs, pd_isets := sets\<rparr>;
            if rc' \<noteq> NVM_SUCCESS then Some (rc', None)
            else if count_only then Some (NVM_SUCCESS, Some d)
            else do {
              (rc'', d') \<leftarrow> collect_pool_details E d;
              Some (rc'', if rc'' = NVM_SUCCESS then Some d' else None) } }) })"

section \<open>The interface\<close>

text \<open>
  The context keeps the structures as they are in memory: \<open>rep\<close> and \<open>ab\<close> are the layout of
  \<open>struct pool\<close>.
\<close>

definition pool_guards :: "pool_env \<Rightarrow> int" where
  "pool_guards E =
     (if \<not> pe_permitted E then NVM_ERR_INVALIDPERMISSIONS
      else if \<not> pe_driver E then NVM_ERR_BADDRIVER
      else pe_licensed E)"

definition nvm_get_pool_count :: "pool_env \<Rightarrow> context_env \<Rightarrow> process \<Rightarrow> int option" where
  "nvm_get_pool_count E e s =
     (if pool_guards E \<noteq> NVM_SUCCESS then Some (pool_guards E)
      else do {
        cached \<leftarrow> get_nvm_context_pool_count e s;
        if cached \<ge> 0 then Some cached
        else do {
          (rc, data) \<leftarrow> collect_required_pool_data E True;
          (case data of
             Some d \<Rightarrow> if rc = NVM_SUCCESS then count_pools d (pe_alloc E MAX_POOLS) else Some rc
           | None \<Rightarrow> Some rc) } })"

definition nvm_get_pools ::
    "pool_env \<Rightarrow> context_env \<Rightarrow> (pool_info \<Rightarrow> pool) \<Rightarrow> (pool \<Rightarrow> pool_info) \<Rightarrow> pool_info list option \<Rightarrow> nat \<Rightarrow> process \<Rightarrow>
     (int \<times> pool_info list option \<times> process) option" where
  "nvm_get_pools E e rep ab plist count s =
     (if pool_guards E \<noteq> NVM_SUCCESS then Some (pool_guards E, plist, s)
      else (case plist of
        None \<Rightarrow> Some (NVM_ERR_INVALIDPARAMETER, None, s)
      | Some pools \<Rightarrow>
          if count = 0 then Some (NVM_ERR_INVALIDPARAMETER, Some pools, s)
          else do {
            (rc, buf) \<leftarrow> get_nvm_context_pools e s (map rep pools) (int count);
            if rc < 0 \<and> rc \<noteq> NVM_ERR_ARRAYTOOSMALL then do {
              (rc1, data) \<leftarrow> collect_required_pool_data E False;
              (case data of
                 None \<Rightarrow> Some (rc1, Some (map ab buf), s)
               | Some d \<Rightarrow> do {
                   (rc2, pools') \<leftarrow> populate_pools E d (map ab buf) count;
                   (_, s') \<leftarrow> (if rc2 > 0 then set_nvm_context_pools e (map rep pools') rc2 s else Some (NVM_SUCCESS, s));
                   Some (rc2, Some pools', s') }) }
            else Some (rc, Some (map ab buf), s) }))"

function find_pool_loop :: "bytes \<Rightarrow> pool_info list \<Rightarrow> nat \<Rightarrow> nat \<Rightarrow> nat option option" where
  "find_pool_loop uid pools n i =
     (if i < n then do {
        p \<leftarrow> rd pools i;
        same \<leftarrow> uid_cmp (po_uid p) uid;
        if same then Some (Some i) else find_pool_loop uid pools n (Suc i) }
      else Some None)"
  by pat_completeness auto
termination
  by (relation "measure (\<lambda>(u, ps, n, i). n - i)") auto

declare find_pool_loop.simps [simp del]

definition nvm_get_pool ::
    "pool_env \<Rightarrow> context_env \<Rightarrow> (pool_info \<Rightarrow> pool) \<Rightarrow> (pool \<Rightarrow> pool_info) \<Rightarrow> bytes option \<Rightarrow> pool_info option \<Rightarrow> process \<Rightarrow>
     (int \<times> pool_info option) option" where
  "nvm_get_pool E e rep ab want p_pool s =
     (if pool_guards E \<noteq> NVM_SUCCESS then Some (pool_guards E, p_pool)
      else (case (want, p_pool) of
        (Some uid, Some p) \<Rightarrow> do {
          (rc, found) \<leftarrow> get_nvm_context_pool e uid s (rep p);
          if rc = NVM_SUCCESS then Some (rc, Some (ab found))
          else do {
            (rc1, data) \<leftarrow> collect_required_pool_data E False;
            (case data of
               None \<Rightarrow> Some (rc1, Some p)
             | Some d \<Rightarrow> do {
                 n \<leftarrow> count_pools d (pe_alloc E MAX_POOLS);
                 if n \<le> 0 then Some (n, Some p)
                 else if \<not> pe_alloc E (nat n) then Some (NVM_ERR_NOMEMORY, Some p)
                 else do {
                   (rc2, pools) \<leftarrow> populate_pools E d (replicate (nat n) zero_pool) (nat n);
                   if rc2 \<le> 0 then Some (rc2, Some p)
                   else do {
                     hit \<leftarrow> find_pool_loop uid pools (nat rc2) 0;
                     Some (case hit of Some i \<Rightarrow> (NVM_SUCCESS, Some (pools ! i)) | None \<Rightarrow> (NVM_ERR_BADPOOL, Some p)) } } }) } }
      | _ \<Rightarrow> Some (NVM_ERR_INVALIDPARAMETER, p_pool)))"

section \<open>Look-ups\<close>

definition get_interleaveset_by_driver_id ::
    "int \<times> int \<times> nvm_interleave_set list \<Rightarrow> u32 \<Rightarrow> nvm_interleave_set \<Rightarrow> (int \<times> nvm_interleave_set) option" where
  "get_interleaveset_by_driver_id isets driver_id p_interleave =
     (case isets of (cnt, n, sets) \<Rightarrow>
        if cnt \<ge> 0 \<and> n > 0 then do {
          xs \<leftarrow> rd_bytes sets 0 (nat n);
          Some (case find (\<lambda>x. ucast (ni_id x) = driver_id) xs of
                  Some x \<Rightarrow> (NVM_SUCCESS, x)
                | None \<Rightarrow> (NVM_ERR_DRIVERFAILED, p_interleave)) }
        else Some (NVM_ERR_DRIVERFAILED, p_interleave))"

definition interleave_set_has_namespace :: "u32 \<Rightarrow> nvm_namespace_details list \<Rightarrow> bool" where
  "interleave_set_has_namespace driver_id namespaces \<longleftrightarrow>
     list_ex (\<lambda>ns. ns_type ns = NAMESPACE_TYPE_APP_DIRECT \<and> ns_creation_id ns = driver_id) namespaces"

fun dimm_in_set_loop :: "bytes \<Rightarrow> bytes list \<Rightarrow> bool option" where
  "dimm_in_set_loop device_uid [] = Some False"
| "dimm_in_set_loop device_uid (u # us) = do {
     same \<leftarrow> uid_cmp device_uid u;
     if same then Some True else dimm_in_set_loop device_uid us }"

definition dimm_is_in_interleave_set :: "bytes \<Rightarrow> interleave_set \<Rightarrow> bool option" where
  "dimm_is_in_interleave_set device_uid s = do {
     us \<leftarrow> rd_bytes (il_dimms s) 0 (unat (il_dimm_count s));
     dimm_in_set_loop device_uid us }"

text \<open>The pool of a namespace is the last one with its interleave set.\<close>

fun pool_of_set_loop :: "u32 \<Rightarrow> pool_info list \<Rightarrow> pool_info \<Rightarrow> bool \<Rightarrow> (pool_info \<times> bool) option" where
  "pool_of_set_loop driver_id [] p found = Some (p, found)"
| "pool_of_set_loop driver_id (x # xs) p found = do {
     sets \<leftarrow> rd_bytes (po_ilsets x) 0 (po_ilset_count x);
     if list_ex (\<lambda>s. driver_id = il_driver_id s) sets then pool_of_set_loop driver_id xs x True
     else pool_of_set_loop driver_id xs p found }"

definition get_pool_from_namespace_details ::
    "pool_env \<Rightarrow> context_env \<Rightarrow> (pool_info \<Rightarrow> pool) \<Rightarrow> (pool \<Rightarrow> pool_info) \<Rightarrow> nvm_namespace_details \<Rightarrow> pool_info \<Rightarrow>
     process \<Rightarrow> (int \<times> pool_info \<times> process) option" where
  "get_pool_from_namespace_details E e rep ab p_details p s = do {
     cnt \<leftarrow> nvm_get_pool_count E e s;
     if cnt < 0 then Some (cnt, p, s)
     else if cnt = 0 then Some (NVM_SUCCESS, p, s)
     else if \<not> pe_alloc E (nat cnt) then Some (NVM_ERR_NOMEMORY, p, s)
     else do {
       (n, pools, s') \<leftarrow> nvm_get_pools E e rep ab (Some (replicate (nat cnt) zero_pool)) (nat cnt) s;
       ps \<leftarrow> pools;
       if n < 0 then Some (n, p, s')
       else if n = 0 then Some (NVM_SUCCESS, p, s')
       else do {
         xs \<leftarrow> rd_bytes ps 0 (nat n);
         (p', found) \<leftarrow> pool_of_set_loop (ns_creation_id p_details) xs p False;
         Some (if found then NVM_SUCCESS else NVM_ERR_DRIVERFAILED, p', s') } } }"

end
