(* ===== verification/Pools_Facts.thy ===== *)
theory Pools_Facts
  imports Pools
begin

text \<open>
  What the pools promise: there is one for the volatile memory and one for every socket and kind of interleave
  set, each with the sets of that socket and kind in order; counting them gives the number that is listed.
\<close>

section \<open>The abstract list of pools\<close>

type_synonym pool_id = "int \<times> pool_type"

definition pool_key :: "pool_info \<Rightarrow> pool_id" where "pool_key p = (po_socket_id p, po_type p)"
definition iset_key :: "nvm_interleave_set \<Rightarrow> pool_id" where
  "iset_key ni = (int (unat (ni_socket_id ni)), pool_type_of_iset ni)"

text \<open>The identifiers of the interleave sets of a pool.\<close>

definition iset_ids :: "pool_info \<Rightarrow> u32 list" where
  "iset_ids p = map il_driver_id (take (po_ilset_count p) (po_ilsets p))"

text \<open>A set is put into the pool of its key, which is made at the end if it is not there.\<close>

fun put :: "'k \<Rightarrow> 'i \<Rightarrow> ('k \<times> 'i list) list \<Rightarrow> ('k \<times> 'i list) list" where
  "put k i [] = [(k, [i])]"
| "put k i ((k', is) # r) = (if k = k' then (k', is @ [i]) # r else (k', is) # put k i r)"

definition has_memory :: "pool_data \<Rightarrow> bool" where
  "has_memory d \<longleftrightarrow> (\<exists>i < length (pd_dimms d). dc_memory_capacity (pd_capacities d ! i) \<noteq> 0)"

definition volatile_pools :: "pool_data \<Rightarrow> (pool_id \<times> u32 list) list" where
  "volatile_pools d = (if has_memory d then [((- 1, POOL_TYPE_VOLATILE), [])] else [])"

definition put_iset :: "nvm_interleave_set \<Rightarrow> (pool_id \<times> u32 list) list \<Rightarrow> (pool_id \<times> u32 list) list" where
  "put_iset ni = put (iset_key ni) (ucast (ni_id ni))"

definition usable_isets :: "pool_data \<Rightarrow> nvm_interleave_set list" where
  "usable_isets d = (if app_direct_mode_f (nvm_features (pd_capabilities d)) then pd_isets d else [])"

definition expected_pools :: "pool_data \<Rightarrow> (pool_id \<times> u32 list) list" where
  "expected_pools d = fold put_iset (usable_isets d) (volatile_pools d)"

lemma put_keys: "map fst (put k i ps) = (if k \<in> fst ` set ps then map fst ps else map fst ps @ [k])"
  by (induction k i ps rule: put.induct) auto

lemma put_present:
  "find_index (\<lambda>k'. k' = k) (map fst ps) = Some j \<Longrightarrow> put k i ps = ps[j := (k, snd (ps ! j) @ [i])]"
  by (induction k i ps arbitrary: j rule: put.induct) (auto split: if_splits)

lemma put_absent: "k \<notin> fst ` set ps \<Longrightarrow> put k i ps = ps @ [(k, [i])]"
  by (induction k i ps rule: put.induct) auto

lemma put_distinct: "distinct (map fst ps) \<Longrightarrow> distinct (map fst (put k i ps))"
  by (auto simp: put_keys)

lemma length_put_mono: "length ps \<le> length (put k i ps)"
  by (induction k i ps rule: put.induct) auto

lemma fold_put_mono: "length ps \<le> length (fold put_iset nis ps)"
proof (induction nis arbitrary: ps)
  case (Cons ni nis)
  show ?case using Cons [of "put_iset ni ps"] length_put_mono [of ps] by (simp add: put_iset_def) (meson le_trans)
qed simp

text \<open>The abstraction of the first pools of the array.\<close>

definition listed_pools :: "pool_info list \<Rightarrow> nat \<Rightarrow> (pool_id \<times> u32 list) list" where
  "listed_pools ps n = map (\<lambda>p. (pool_key p, iset_ids p)) (take n ps)"

lemma length_listed [simp]: "n \<le> length ps \<Longrightarrow> length (listed_pools ps n) = n"
  by (simp add: listed_pools_def)

lemma listed_nth: "i < n \<Longrightarrow> n \<le> length ps \<Longrightarrow> listed_pools ps n ! i = (pool_key (ps ! i), iset_ids (ps ! i))"
  by (simp add: listed_pools_def)

lemma listed_update:
  "i < n \<Longrightarrow> n \<le> length ps \<Longrightarrow> listed_pools (ps[i := p]) n = (listed_pools ps n)[i := (pool_key p, iset_ids p)]"
  by (simp add: listed_pools_def take_update_swap map_update)

lemma listed_snoc:
  "n < length ps \<Longrightarrow> listed_pools (ps[n := p]) (Suc n) = listed_pools ps n @ [(pool_key p, iset_ids p)]"
  by (simp add: listed_pools_def take_Suc_conv_app_nth)

definition pool_keys :: "pool_info list \<Rightarrow> nat \<Rightarrow> pool_id list" where
  "pool_keys ps n = map fst (listed_pools ps n)"

lemma length_pool_keys [simp]: "n \<le> length ps \<Longrightarrow> length (pool_keys ps n) = n"
  by (simp add: pool_keys_def)

lemma pool_keys_map: "pool_keys ps n = map pool_key (take n ps)"
  by (simp add: pool_keys_def listed_pools_def)

lemma pool_index_loop_eq:
  "n \<le> length ps \<Longrightarrow>
   pool_index_loop s t ps n i = Some (map_option ((+) i) (find_index (\<lambda>p. pool_key p = (s, t)) (drop i (take n ps))))"
proof (induction "n - i" arbitrary: i)
  case 0
  then show ?case by (simp add: pool_index_loop.simps [of s t ps n i])
next
  case (Suc d)
  then have i: "i < n" "i < length ps" "d = n - Suc i" by simp_all
  have dr: "drop i (take n ps) = ps ! i # drop (Suc i) (take n ps)"
    using i Suc.prems by (metis Cons_nth_drop_Suc length_take min.absorb2 nth_take)
  have r: "rd ps i = Some (ps ! i)" using i by (simp add: rd_def)
  have e: "po_socket_id (ps ! i) = s \<and> po_type (ps ! i) = t \<longleftrightarrow> pool_key (ps ! i) = (s, t)" by (simp add: pool_key_def)
  have c: "map_option ((+) (Suc i)) x = map_option ((+) i) (map_option Suc x)" for x :: "nat option"
    by (cases x) simp_all
  show ?case
    unfolding pool_index_loop.simps [of s t ps n i] dr find_index.simps
    using Suc.hyps(1) [OF i(3) Suc.prems] i(1) r e c by simp
qed

lemma get_pool_index_eq:
  "n \<le> length ps \<Longrightarrow> get_pool_index s t ps n = Some (find_index (\<lambda>k. k = (s, t)) (pool_keys ps n))"
  by (simp add: get_pool_index_def pool_index_loop_eq pool_keys_map find_index_map [symmetric] option.map_ident
      plus_nat.add_0 [abs_def])

section \<open>Counting\<close>

lemma find_key_None: "find_index (\<lambda>k. k = key) ks = None \<longleftrightarrow> key \<notin> set ks"
  by (auto simp: find_index_None)

lemma count_pool_eq:
  assumes "n \<le> length ps"
  shows "count_pool s t (ps, n) =
    (if (s, t) \<in> set (pool_keys ps n) then Some (ps, n)
     else if n < length ps then Some (ps[n := (ps ! n)\<lparr>po_socket_id := s, po_type := t\<rparr>], Suc n)
     else None)"
  using find_key_None [of "(s, t)" "pool_keys ps n"] assms
  by (auto simp: count_pool_def get_pool_index_eq Let_def rd_def wr_def split: option.splits)

lemma pool_keys_snoc:
  "n < length ps \<Longrightarrow> pool_keys (ps[n := p]) (Suc n) = pool_keys ps n @ [pool_key p]"
  by (simp add: pool_keys_def listed_snoc)

definition add_key :: "pool_id \<Rightarrow> pool_id list \<Rightarrow> pool_id list" where
  "add_key k ks = (if k \<in> set ks then ks else ks @ [k])"

lemma map_fst_put: "map fst (put k i ps) = add_key k (map fst ps)"
  by (simp add: put_keys add_key_def)

lemma count_pool_step:
  assumes "n \<le> length ps"
  shows "if length (add_key (s, t) (pool_keys ps n)) \<le> length ps
    then \<exists>ps' n'. count_pool s t (ps, n) = Some (ps', n') \<and> length ps' = length ps \<and> n' \<le> length ps \<and>
      pool_keys ps' n' = add_key (s, t) (pool_keys ps n)
    else count_pool s t (ps, n) = None"
  using assms by (auto simp: count_pool_eq add_key_def pool_keys_snoc pool_key_def)

abbreviation VOLATILE_KEY :: pool_id where "VOLATILE_KEY \<equiv> (- 1, POOL_TYPE_VOLATILE)"

text \<open>Whether a DIMM from \<open>i\<close> on has volatile memory.\<close>

definition memory_from :: "pool_data \<Rightarrow> nat \<Rightarrow> bool" where
  "memory_from d i \<longleftrightarrow> (\<exists>j < length (pd_dimms d). i \<le> j \<and> dc_memory_capacity (pd_capacities d ! j) \<noteq> 0)"

lemma memory_from_step:
  "i < length (pd_dimms d) \<Longrightarrow>
   memory_from d i \<longleftrightarrow> dc_memory_capacity (pd_capacities d ! i) \<noteq> 0 \<or> memory_from d (Suc i)"
  unfolding memory_from_def by (metis Suc_leD le_antisym not_less_eq_eq le_refl)

lemma add_key_idem: "add_key k (add_key k ks) = add_key k ks"
  by (simp add: add_key_def)

lemma count_volatile_eq:
  assumes "length (pd_dimms d) \<le> length (pd_capacities d)" "n \<le> length ps" "n < length ps \<or> VOLATILE_KEY \<in> set (pool_keys ps n)"
  shows "\<exists>ps' n'. count_volatile_loop d i (ps, n) = Some (ps', n') \<and> length ps' = length ps \<and> n' \<le> length ps \<and>
     pool_keys ps' n' = (if memory_from d i then add_key VOLATILE_KEY (pool_keys ps n) else pool_keys ps n)"
  using assms(2,3)
proof (induction "length (pd_dimms d) - i" arbitrary: i ps n)
  case 0
  then have "\<not> memory_from d i" by (auto simp: memory_from_def)
  then show ?case using 0 by (subst count_volatile_loop.simps) auto
next
  case (Suc m)
  then have i: "i < length (pd_dimms d)" "m = length (pd_dimms d) - Suc i" by simp_all
  have r: "rd (pd_capacities d) i = Some (pd_capacities d ! i)" using i assms(1) by (simp add: rd_def)
  show ?case
  proof (cases "dc_memory_capacity (pd_capacities d ! i) = 0")
    case True
    have "count_volatile_loop d i (ps, n) = count_volatile_loop d (Suc i) (ps, n)"
      using i r True by (subst count_volatile_loop.simps) simp
    then show ?thesis using Suc.hyps(1) [OF i(2) Suc.prems] True memory_from_step [OF i(1)] by simp
  next
    case False
    have l: "length (add_key VOLATILE_KEY (pool_keys ps n)) \<le> length ps" using Suc.prems by (auto simp: add_key_def)
    obtain ps1 n1 where c: "count_pool (- 1) POOL_TYPE_VOLATILE (ps, n) = Some (ps1, n1)" "length ps1 = length ps"
      "n1 \<le> length ps" "pool_keys ps1 n1 = add_key VOLATILE_KEY (pool_keys ps n)"
      using count_pool_step [OF Suc.prems(1), of "- 1" POOL_TYPE_VOLATILE] l by auto
    have e: "count_volatile_loop d i (ps, n) = count_volatile_loop d (Suc i) (ps1, n1)"
      using i r False c(1) by (subst count_volatile_loop.simps) simp
    have v: "VOLATILE_KEY \<in> set (pool_keys ps1 n1)" by (simp add: c(4) add_key_def)
    have n1: "n1 \<le> length ps1" using c(2,3) by simp
    from Suc.hyps(1) [OF i(2) n1] v obtain ps2 n2 where
      f: "count_volatile_loop d (Suc i) (ps1, n1) = Some (ps2, n2)" "length ps2 = length ps1" "n2 \<le> length ps1"
      "pool_keys ps2 n2 = (if memory_from d (Suc i) then add_key VOLATILE_KEY (pool_keys ps1 n1) else pool_keys ps1 n1)"
      by blast
    have "pool_keys ps2 n2 = add_key VOLATILE_KEY (pool_keys ps n)" using f(4) c(4) by (simp add: add_key_idem)
    then show ?thesis using e f(1-3) c(2) False memory_from_step [OF i(1)] by simp
  qed
qed

definition add_iset_keys :: "nvm_interleave_set list \<Rightarrow> pool_id list \<Rightarrow> pool_id list" where
  "add_iset_keys nis = fold (\<lambda>ni. add_key (iset_key ni)) nis"

lemma add_iset_keys_Cons: "add_iset_keys (ni # nis) ks = add_iset_keys nis (add_key (iset_key ni) ks)"
  by (simp add: add_iset_keys_def)

lemma add_iset_keys_mono: "length ks \<le> length (add_iset_keys nis ks)"
proof (induction nis arbitrary: ks)
  case Nil
  show ?case by (simp add: add_iset_keys_def)
next
  case (Cons ni nis)
  show ?case using Cons [of "add_key (iset_key ni) ks"]
    by (simp add: add_iset_keys_Cons) (metis add_key_def append_Nil2 le_trans length_append le_add1)
qed

lemma count_isets_eq:
  assumes "n \<le> length ps" "length ps = MAX_POOLS"
  shows "count_isets_loop nis (ps, n) =
    (if length (add_iset_keys nis (pool_keys ps n)) \<le> MAX_POOLS
     then Some (int (length (add_iset_keys nis (pool_keys ps n)))) else None)"
  using assms
proof (induction nis arbitrary: ps n)
  case Nil
  then show ?case by (simp add: add_iset_keys_def)
next
  case (Cons ni nis)
  let ?k = "iset_key ni"
  show ?case
  proof (cases "length (add_key ?k (pool_keys ps n)) \<le> length ps")
    case True
    then obtain ps1 n1 where c: "count_pool (int (unat (ni_socket_id ni))) (pool_type_of_iset ni) (ps, n) = Some (ps1, n1)"
      "length ps1 = length ps" "n1 \<le> length ps" "pool_keys ps1 n1 = add_key ?k (pool_keys ps n)"
      using count_pool_step [OF Cons.prems(1), of "int (unat (ni_socket_id ni))" "pool_type_of_iset ni",
          folded iset_key_def] by auto
    have n1: "n1 \<le> length ps1" "length ps1 = MAX_POOLS" using c(2,3) Cons.prems(2) by simp_all
    show ?thesis using Cons.IH [OF n1] c n1 by (simp add: add_iset_keys_Cons)
  next
    case False
    then have "count_pool (int (unat (ni_socket_id ni))) (pool_type_of_iset ni) (ps, n) = None"
      using count_pool_step [OF Cons.prems(1), of "int (unat (ni_socket_id ni))" "pool_type_of_iset ni"]
      by (simp add: iset_key_def split: if_splits)
    moreover have "\<not> length (add_iset_keys (ni # nis) (pool_keys ps n)) \<le> MAX_POOLS"
      using False add_iset_keys_mono [of "add_key ?k (pool_keys ps n)" nis] Cons.prems(2) by (simp add: add_iset_keys_Cons)
    ultimately show ?thesis by simp
  qed
qed

lemma map_fst_fold_put: "map fst (fold put_iset nis ps) = add_iset_keys nis (map fst ps)"
proof (induction nis arbitrary: ps)
  case (Cons ni nis)
  then show ?case by (simp add: add_iset_keys_Cons put_iset_def map_fst_put)
qed (simp add: add_iset_keys_def)

lemma memory_from_0: "memory_from d 0 = has_memory d"
  by (simp add: memory_from_def has_memory_def)

lemma count_pools_eq:
  assumes "length (pd_dimms d) \<le> length (pd_capacities d)"
  shows "count_pools d True =
    (if length (expected_pools d) \<le> MAX_POOLS then Some (int (length (expected_pools d))) else None)"
proof -
  let ?ps = "replicate MAX_POOLS zero_pool"
  have k0: "pool_keys ?ps 0 = []" by (simp add: pool_keys_map)
  have m: "0 < MAX_POOLS" by (simp add: MAX_POOLS_def)
  obtain ps n where v: "count_volatile_loop d 0 (?ps, 0) = Some (ps, n)" "length ps = MAX_POOLS" "n \<le> MAX_POOLS"
    "pool_keys ps n = (if has_memory d then [VOLATILE_KEY] else [])"
    using count_volatile_eq [OF assms, of 0 ?ps 0] m by (auto simp: k0 memory_from_0 add_key_def)
  have e: "map fst (volatile_pools d) = pool_keys ps n" by (simp add: v(4) volatile_pools_def)
  have len: "length (expected_pools d) = length (add_iset_keys (usable_isets d) (pool_keys ps n))"
    using map_fst_fold_put [of "usable_isets d" "volatile_pools d"]
    by (metis e expected_pools_def length_map)
  have n: "n \<le> length ps" using v(2,3) by simp
  have z: "length (pool_keys ps n) = n" using n by simp
  show ?thesis
    using count_isets_eq [OF n v(2), of "pd_isets d"] v(1,3) z
    by (simp add: count_pools_def usable_isets_def len add_iset_keys_def)
qed


section \<open>Adding to a pool\<close>

text \<open>What adding a DIMM leaves as it is.\<close>

definition same_sets :: "pool_info \<Rightarrow> pool_info \<Rightarrow> bool" where
  "same_sets p q \<longleftrightarrow> pool_key q = pool_key p \<and> po_ilsets q = po_ilsets p \<and> po_ilset_count q = po_ilset_count p"

lemma same_sets_refl [simp]: "same_sets p p"
  by (simp add: same_sets_def)

lemma same_sets_trans [trans]: "same_sets p q \<Longrightarrow> same_sets q r \<Longrightarrow> same_sets p r"
  by (simp add: same_sets_def)

lemma same_sets_ids: "same_sets p q \<Longrightarrow> pool_key q = pool_key p \<and> iset_ids q = iset_ids p"
  by (simp add: same_sets_def iset_ids_def)

lemma add_free_capacity_same: "same_sets p q \<Longrightarrow> same_sets p (add_free_capacity fc q)"
  by (simp add: add_free_capacity_def same_sets_def pool_key_def)

lemma add_capacity_same: "add_capacity caps i q = Some q' \<Longrightarrow> same_sets p q \<Longrightarrow> same_sets p q'"
  by (auto simp: add_capacity_def same_sets_def pool_key_def bind_eq_Some_conv split: if_splits)

lemma add_dimm_same: "add_dimm_to_pool d j p = Some q \<Longrightarrow> same_sets p q"
proof -
  assume a: "add_dimm_to_pool d j p = Some q"
  then obtain x found where x: "rd (pd_dimms d) j = Some x" "get_dimm_index_from_pool (disc_uid x) p = Some found"
    by (auto simp: add_dimm_to_pool_def bind_eq_Some_conv)
  show ?thesis
  proof (cases found)
    case (Some k)
    then show ?thesis using a x by (auto simp: add_dimm_to_pool_def bind_eq_Some_conv add_free_capacity_same)
  next
    case None
    then obtain dimms raws caps fc p1 h n where
      "add_capacity caps (po_dimm_count p) (p\<lparr>po_dimms := dimms, po_raw_capacities := raws\<rparr>) = Some p1"
      "q = (add_free_capacity fc p1)\<lparr>po_health := h, po_dimm_count := n\<rparr>"
      using a x by (auto simp: add_dimm_to_pool_def bind_eq_Some_conv Let_def)
    moreover have "same_sets p (p\<lparr>po_dimms := dimms, po_raw_capacities := raws\<rparr>)"
      by (simp add: same_sets_def pool_key_def)
    ultimately have "same_sets p (add_free_capacity fc p1)" using add_capacity_same add_free_capacity_same by blast
    then show ?thesis using \<open>q = _\<close> by (simp add: same_sets_def pool_key_def)
  qed
qed

lemma add_iset_dimms_same: "add_iset_dimms_loop d s i p = Some q \<Longrightarrow> same_sets p q"
proof (induction d s i p rule: add_iset_dimms_loop.induct)
  case (1 d s i p)
  show ?case
  proof (cases "i < unat (il_dimm_count s)")
    case False
    then show ?thesis using "1.prems" by (simp add: add_iset_dimms_loop.simps [of d s i p])
  next
    case True
    then obtain u found p' where f: "rd (il_dimms s) i = Some u" "dimm_data_loop u (pd_dimms d) 0 = Some found"
      "(case found of Some j \<Rightarrow> add_dimm_to_pool d j p | None \<Rightarrow> Some p) = Some p'"
      "add_iset_dimms_loop d s (Suc i) p' = Some q"
      using "1.prems" by (subst (asm) add_iset_dimms_loop.simps) (auto simp: bind_eq_Some_conv)
    have "same_sets p p'" using f(3) add_dimm_same by (auto split: option.splits)
    with "1.IH" [OF True f(1,2,3) f(4)] show ?thesis by (blast intro: same_sets_trans)
  qed
qed

lemma encryption_loop_same: "encryption_capable_loop d s i p = Some q \<Longrightarrow> same_sets p q"
proof (induction d s i p rule: encryption_capable_loop.induct)
  case (1 d s i p)
  show ?case
  proof (cases "i < unat (il_dimm_count s) \<and> po_encryption_capable p")
    case False
    then show ?thesis using "1.prems" encryption_capable_loop.simps [of d s i p] by (simp only: if_False option.inject) simp
  next
    case True
    then obtain u found where f: "rd (po_dimms p) i = Some u" "dimm_data_loop u (pd_dimms d) 0 = Some found"
      "encryption_capable_loop d s (Suc i)
          (case found of
             Some j \<Rightarrow> if \<not> passphrase_capable (disc_security_capabilities (pd_dimms d ! j))
                       then p\<lparr>po_encryption_capable := False\<rparr> else p
           | None \<Rightarrow> p) = Some q"
      using "1.prems" by (subst (asm) encryption_capable_loop.simps) (auto simp: bind_eq_Some_conv)
    from "1.IH" [OF True f(1,2) f(3)] show ?thesis
      by (auto simp: same_sets_def pool_key_def split: option.splits if_splits)
  qed
qed

text \<open>The identifier of an interleave set is that of the driver.\<close>

lemma account_dimm_id: "il_driver_id (account_dimm ni x st s) = il_driver_id s"
  by (simp add: account_dimm_def Let_def)

lemma fill_settings_id: "fill_interleave_set_settings_and_id_from_dimm fill h a s = (rc, s') \<Longrightarrow> il_driver_id s' = il_driver_id s"
  by (auto simp: fill_interleave_set_settings_and_id_from_dimm_def split: prod.splits if_splits option.splits)

lemma iset_dimm_id:
  assumes "iset_dimm fill ni i x st (s, b) = Some (s', b')"
  shows "il_driver_id s' = il_driver_id s"
proof -
  obtain dimms pda where d: "(if b then (account_dimm ni x st (s\<lparr>il_dimms := dimms\<rparr>), True)
      else (case fill_interleave_set_settings_and_id_from_dimm fill (disc_handle x) pda
              (account_dimm ni x st (s\<lparr>il_dimms := dimms\<rparr>)) of (rc, s2) \<Rightarrow> (s2, rc = NVM_SUCCESS))) = (s', b')"
    using assms unfolding iset_dimm_def bind_eq_Some_conv Let_def split option.inject by blast
  show ?thesis
  proof (cases b)
    case True
    then show ?thesis using d by (auto simp: account_dimm_id)
  next
    case False
    obtain rc s2 where f: "fill_interleave_set_settings_and_id_from_dimm fill (disc_handle x) pda
        (account_dimm ni x st (s\<lparr>il_dimms := dimms\<rparr>)) = (rc, s2)" by fastforce
    show ?thesis using d False fill_settings_id [OF f] by (auto simp: f account_dimm_id)
  qed
qed

lemma iset_match_id: "iset_match_loop fill ni i h xs sts sb = Some sb' \<Longrightarrow> il_driver_id (fst sb') = il_driver_id (fst sb)"
proof (induction fill ni i h xs sts sb arbitrary: sb' rule: iset_match_loop.induct)
  case (2 fill ni dimm_idx handle x xs s)
  then show ?case by (simp split: if_splits)
next
  case (3 fill ni dimm_idx handle x xs st sts s)
  from "3.prems" obtain s1 where s1: "(if handle = disc_handle x then iset_dimm fill ni dimm_idx x st s else Some s) = Some s1"
    "iset_match_loop fill ni dimm_idx handle xs sts s1 = Some sb'" unfolding iset_match_loop.simps bind_eq_Some_conv by blast
  have "il_driver_id (fst s1) = il_driver_id (fst s)"
    using s1(1) iset_dimm_id [of fill ni dimm_idx x st "fst s" "snd s" "fst s1" "snd s1"] by (auto split: if_splits)
  then show ?case using "3.IH" [OF s1] by simp
qed simp

lemma iset_dimms_id: "iset_dimms_loop fill d ni i s = Some s' \<Longrightarrow> il_driver_id s' = il_driver_id s"
proof (induction fill d ni i s rule: iset_dimms_loop.induct)
  case (1 fill d ni i s)
  show ?case
  proof (cases "i < unat (ni_dimm_count ni)")
    case False
    then show ?thesis using "1.prems" by (simp add: iset_dimms_loop.simps [of fill d ni i s])
  next
    case True
    then obtain h s1 b where f: "rd (ni_dimms ni) i = Some h"
      "iset_match_loop fill ni i h (pd_dimms d) (pd_statuses d) (s, False) = Some (s1, b)"
      "iset_dimms_loop fill d ni (Suc i) s1 = Some s'"
      using "1.prems" by (subst (asm) iset_dimms_loop.simps) (auto simp: bind_eq_Some_conv)
    from "1.IH" [OF True f(1,2) refl f(3)] iset_match_id [OF f(2)] show ?thesis by simp
  qed
qed

lemma interleave_id: "nvm_interleave_to_interleave fill d ni s = Some s' \<Longrightarrow> il_driver_id s' = ucast (ni_id ni)"
  using iset_dimms_id
  by (fastforce simp: nvm_interleave_to_interleave_def calculate_iset_free_capacity_def bind_eq_Some_conv Let_def
      split: if_splits)

lemma add_set_effect:
  assumes "add_interleave_set_to_pool fill d p ni = Some q"
  shows "pool_key q = pool_key p \<and> iset_ids q = iset_ids p @ [ucast (ni_id ni)]"
proof -
  obtain old s sets p1 where f: "rd (po_ilsets p) (po_ilset_count p) = Some old"
    "nvm_interleave_to_interleave fill d ni old = Some s" "wr (po_ilsets p) (po_ilset_count p) s = Some sets"
    "add_iset_dimms_loop d s 0 (p\<lparr>po_ilsets := sets, po_ilset_count := Suc (po_ilset_count p)\<rparr>) = Some p1"
    "update_pool_security_from_iset d s (p1\<lparr>po_health := iset_pool_health s (po_health p1)\<rparr>) = Some q"
    using assms by (auto simp: add_interleave_set_to_pool_def bind_eq_Some_conv)
  let ?p = "p\<lparr>po_ilsets := sets, po_ilset_count := Suc (po_ilset_count p)\<rparr>"
  have "same_sets ?p p1" by (rule add_iset_dimms_same [OF f(4)])
  moreover have "same_sets p1 q"
  proof (cases "il_available_size s > sw_min_namespace_size (pd_capabilities d)")
    case True
    then show ?thesis using encryption_loop_same [of d s 0 _ q] f(5)
      by (fastforce simp: update_pool_security_from_iset_def same_sets_def pool_key_def)
  next
    case False
    then show ?thesis using f(5) by (auto simp: update_pool_security_from_iset_def same_sets_def pool_key_def)
  qed
  ultimately have "same_sets ?p q" by (rule same_sets_trans)
  moreover have "iset_ids ?p = iset_ids p @ [ucast (ni_id ni)]"
    using f(1,3) interleave_id [OF f(2)]
    by (auto simp: iset_ids_def rd_def wr_def take_Suc_conv_app_nth split: if_splits)
  ultimately show ?thesis using same_sets_ids [of ?p q] by (simp add: pool_key_def)
qed


section \<open>Listing\<close>

definition locked_ok :: "pool_info \<Rightarrow> bool" where
  "locked_ok p \<longleftrightarrow> (po_health p = POOL_HEALTH_LOCKED \<longrightarrow> po_free_capacity p = 0)"

lemma zero_if_locked:
  "locked_ok (zero_pool_free_capacity_if_locked p)" "pool_key (zero_pool_free_capacity_if_locked p) = pool_key p"
  "iset_ids (zero_pool_free_capacity_if_locked p) = iset_ids p"
  by (simp_all add: locked_ok_def zero_pool_free_capacity_if_locked_def pool_key_def iset_ids_def)

lemma add_iset_at_effect:
  assumes "add_iset_at E d ni ps i = Some ps'"
  shows "\<exists>q. i < length ps \<and> ps' = ps[i := q] \<and> locked_ok q \<and> pool_key q = pool_key (ps ! i) \<and>
    iset_ids q = iset_ids (ps ! i) @ [ucast (ni_id ni)]"
proof -
  obtain p q where q: "rd ps i = Some p" "add_interleave_set_to_pool (pe_fill E) d p ni = Some q"
    "wr ps i (zero_pool_free_capacity_if_locked q) = Some ps'"
    using assms by (auto simp: add_iset_at_def bind_eq_Some_conv)
  then have "i < length ps" "p = ps ! i" "ps' = ps[i := zero_pool_free_capacity_if_locked q]"
    by (auto simp: rd_def wr_def split: if_splits)
  then show ?thesis
    using add_set_effect [OF q(2)] zero_if_locked [of q] by (intro exI [of _ "zero_pool_free_capacity_if_locked q"]) simp
qed

lemma add_dimm_at_effect:
  assumes "add_dimm_at d j ps i = Some ps'"
  shows "\<exists>q. i < length ps \<and> ps' = ps[i := q] \<and> locked_ok q \<and> pool_key q = pool_key (ps ! i) \<and> iset_ids q = iset_ids (ps ! i)"
proof -
  obtain p q where q: "rd ps i = Some p" "add_dimm_to_pool d j p = Some q"
    "wr ps i (zero_pool_free_capacity_if_locked q) = Some ps'"
    using assms by (auto simp: add_dimm_at_def bind_eq_Some_conv)
  then have "i < length ps" "p = ps ! i" "ps' = ps[i := zero_pool_free_capacity_if_locked q]"
    by (auto simp: rd_def wr_def split: if_splits)
  then show ?thesis
    using same_sets_ids [OF add_dimm_same [OF q(2)]] zero_if_locked [of q]
    by (intro exI [of _ "zero_pool_free_capacity_if_locked q"]) simp
qed

lemma init_pool_effect:
  assumes "init_pool sha1 g h t s = Some (rc, p)" "\<forall>x. sha1 x \<noteq> None"
  shows "rc = NVM_SUCCESS \<and> pool_key p = (s, t) \<and> iset_ids p = []"
proof -
  obtain uid ok u where i: "guid_hash_str sha1 (pool_name h t s) g (Some (po_uid zero_pool)) = Some (uid, ok)"
    "rc = (if ok then NVM_SUCCESS else NVM_ERR_UNKNOWN)"
    "p = zero_pool\<lparr>po_uid := u, po_type := t, po_socket_id := s, po_health := POOL_HEALTH_NORMAL\<rparr>"
    using assms(1) by (auto simp: init_pool_def bind_eq_Some_conv)
  obtain w where w: "sha1 (pool_name h t s) = Some w" using assms(2) by auto
  have ok using i(1) by (auto simp: guid_hash_str_def guid_hash_def w bind_eq_Some_conv)
  then show ?thesis using i(2,3) by (simp add: pool_key_def iset_ids_def zero_pool_def)
qed

abbreviation all_locked_ok :: "pool_info list \<Rightarrow> nat \<Rightarrow> bool" where
  "all_locked_ok ps n \<equiv> \<forall>p \<in> set (take n ps). locked_ok p"

lemma all_locked_update: "all_locked_ok ps n \<Longrightarrow> locked_ok q \<Longrightarrow> all_locked_ok (ps[i := q]) n"
  by (metis in_set_takeD set_update_subset_insert subsetD insertE list_update_beyond take_update_swap take_all
      set_update_subsetI subset_code(1))

lemma all_locked_snoc: "n < length ps \<Longrightarrow> all_locked_ok ps n \<Longrightarrow> locked_ok q \<Longrightarrow> all_locked_ok (ps[n := q]) (Suc n)"
  by (auto simp: take_Suc_conv_app_nth)

text \<open>The two ways to put a set into the list.\<close>

lemma put_iset_found:
  assumes "find_index (\<lambda>k. k = iset_key ni) (pool_keys ps n) = Some i" "n \<le> length ps" "add_iset_at E d ni ps i = Some ps1"
    and "all_locked_ok ps n"
  shows "length ps1 = length ps \<and> listed_pools ps1 n = put_iset ni (listed_pools ps n) \<and> all_locked_ok ps1 n"
proof -
  obtain q where q: "ps1 = ps[i := q]" "locked_ok q" "pool_key q = pool_key (ps ! i)"
    "iset_ids q = iset_ids (ps ! i) @ [ucast (ni_id ni)]"
    using add_iset_at_effect [OF assms(3)] by blast
  have i: "i < n" "pool_keys ps n ! i = iset_key ni" using find_index_Some [OF assms(1)] assms(2) by simp_all
  have k: "pool_key (ps ! i) = iset_key ni" using i assms(2) by (simp add: pool_keys_map)
  have l: "listed_pools ps n ! i = (iset_key ni, iset_ids (ps ! i))" using listed_nth [OF i(1) assms(2)] k by simp
  have "put_iset ni (listed_pools ps n) = (listed_pools ps n)[i := (iset_key ni, snd (listed_pools ps n ! i) @ [ucast (ni_id ni)])]"
    unfolding put_iset_def by (rule put_present) (use assms(1) in \<open>simp only: pool_keys_def\<close>)
  also have "\<dots> = (listed_pools ps n)[i := (pool_key q, iset_ids q)]" unfolding l snd_conv q(3,4) k ..
  also have "\<dots> = listed_pools ps1 n" unfolding q(1) by (rule listed_update [OF i(1) assms(2), symmetric])
  finally show ?thesis using all_locked_update [OF assms(4) q(2), of i] unfolding q(1) by simp
qed

lemma put_iset_new:
  assumes "find_index (\<lambda>k. k = iset_key ni) (pool_keys ps n) = None" "n < length ps"
    and "pool_key p = iset_key ni" "iset_ids p = []" "add_iset_at E d ni (ps[n := p]) n = Some ps1" "all_locked_ok ps n"
  shows "length ps1 = length ps \<and> listed_pools ps1 (Suc n) = put_iset ni (listed_pools ps n) \<and> all_locked_ok ps1 (Suc n)"
proof -
  obtain q where q: "ps1 = ps[n := q]" "locked_ok q" "pool_key q = iset_key ni" "iset_ids q = [ucast (ni_id ni)]"
    using add_iset_at_effect [OF assms(5)] assms(2,3,4) by auto
  have "iset_key ni \<notin> fst ` set (listed_pools ps n)" using assms(1) by (simp add: find_key_None pool_keys_def)
  then have "put_iset ni (listed_pools ps n) = listed_pools ps n @ [(pool_key q, iset_ids q)]"
    unfolding put_iset_def q(3,4) by (rule put_absent)
  also have "\<dots> = listed_pools ps1 (Suc n)" unfolding q(1) by (rule listed_snoc [OF assms(2), symmetric])
  finally show ?thesis using all_locked_snoc [OF assms(2,6) q(2)] unfolding q(1) by simp
qed

lemma isets_loop_result:
  assumes "add_interleave_sets_loop E d count nis (rc, ps, n) = Some (rc', ps', n')"
    and "n \<le> count" "count \<le> length ps" "\<forall>x. pe_sha1 E x \<noteq> None" "all_locked_ok ps n"
  shows "length ps' = length ps \<and> n' \<le> count \<and> all_locked_ok ps' n' \<and>
    (rc = NVM_SUCCESS \<and> length (fold put_iset nis (listed_pools ps n)) \<le> count \<longrightarrow>
       rc' = NVM_SUCCESS \<and> listed_pools ps' n' = fold put_iset nis (listed_pools ps n)) \<and>
    (rc = NVM_ERR_ARRAYTOOSMALL \<and> n = count \<or> rc = NVM_SUCCESS \<and> count < length (fold put_iset nis (listed_pools ps n)) \<longrightarrow>
       rc' = NVM_ERR_ARRAYTOOSMALL)"
  using assms
proof (induction nis arbitrary: rc ps n)
  case Nil
  then show ?case by auto
next
  case (Cons ni nis)
  have n: "n \<le> length ps" using Cons.prems(2,3) by simp
  have g: "get_pool_index (int (unat (ni_socket_id ni))) (pool_type_of_iset ni) ps n =
      Some (find_index (\<lambda>k. k = iset_key ni) (pool_keys ps n))"
    using get_pool_index_eq [OF n] by (simp add: iset_key_def)
  show ?case
  proof (cases "find_index (\<lambda>k. k = iset_key ni) (pool_keys ps n)")
    case (Some i)
    then obtain ps1 where f: "add_iset_at E d ni ps i = Some ps1"
      "add_interleave_sets_loop E d count nis (rc, ps1, n) = Some (rc', ps', n')"
      using Cons.prems(1) g by (auto simp: bind_eq_Some_conv)
    note e = put_iset_found [OF Some n f(1) Cons.prems(5)]
    show ?thesis using Cons.IH [OF f(2) Cons.prems(2)] Cons.prems(3,4) e by simp
  next
    case None
    have l: "length (listed_pools ps n) < length (put_iset ni (listed_pools ps n))"
      using None by (simp add: put_iset_def put_absent find_key_None pool_keys_def)
    show ?thesis
    proof (cases "n \<ge> count")
      case True
      then have f: "add_interleave_sets_loop E d count nis (NVM_ERR_ARRAYTOOSMALL, ps, n) = Some (rc', ps', n')"
        using Cons.prems(1) g None by simp
      have "count < length (fold put_iset (ni # nis) (listed_pools ps n))"
        using fold_put_mono [of "put_iset ni (listed_pools ps n)" nis] l True n by simp
      then show ?thesis using Cons.IH [OF f Cons.prems(2-5)] True Cons.prems(2) by auto
    next
      case False
      then obtain r p where i: "init_pool (pe_sha1 E) (pe_garbage E) (pd_host_name d) (pool_type_of_iset ni)
          (int (unat (ni_socket_id ni))) = Some (r, p)"
        using Cons.prems(1) g None by (auto simp: bind_eq_Some_conv)
      have p: "r = NVM_SUCCESS" "pool_key p = iset_key ni" "iset_ids p = []"
        using init_pool_effect [OF i Cons.prems(4)] by (simp_all add: iset_key_def)
      have lt: "n < length ps" using False Cons.prems(3) by simp
      obtain ps1 where f: "add_iset_at E d ni (ps[n := p]) n = Some ps1"
        "add_interleave_sets_loop E d count nis (NVM_SUCCESS, ps1, Suc n) = Some (rc', ps', n')"
        using Cons.prems(1) g None False i p(1) lt by (auto simp: bind_eq_Some_conv wr_def)
      note e = put_iset_new [OF None lt p(2,3) f(1) Cons.prems(5)]
      have s: "Suc n \<le> count" using False by simp
      show ?thesis using Cons.IH [OF f(2) s] Cons.prems(3,4) e False by auto
    qed
  qed
qed

lemma volatile_loop_result:
  assumes "volatile_loop E d count i (ps, n) = Some (rc, ps', n')"
    and "n \<le> count" "count \<le> length ps" "\<forall>x. pe_sha1 E x \<noteq> None" "all_locked_ok ps n"
    and "listed_pools ps n = [] \<or> listed_pools ps n = [(VOLATILE_KEY, [])]"
  shows "length ps' = length ps \<and> n' \<le> count \<and> all_locked_ok ps' n' \<and>
    (if memory_from d i \<and> count = 0 then rc = NVM_ERR_ARRAYTOOSMALL
     else rc = NVM_SUCCESS \<and> listed_pools ps' n' = (if memory_from d i then [(VOLATILE_KEY, [])] else listed_pools ps n))"
  using assms
proof (induction "length (pd_dimms d) - i" arbitrary: i ps n)
  case 0
  then have "\<not> memory_from d i" by (auto simp: memory_from_def)
  then show ?case using 0 by (simp add: volatile_loop.simps [of E d count i])
next
  case (Suc m)
  then have i: "i < length (pd_dimms d)" "m = length (pd_dimms d) - Suc i" by simp_all
  obtain cap where cap: "rd (pd_capacities d) i = Some cap"
    using Suc.prems(1) i(1) by (auto simp: volatile_loop.simps [of E d count i] bind_eq_Some_conv)
  then have c: "cap = pd_capacities d ! i" by (simp add: rd_def split: if_splits)
  have n: "n \<le> length ps" using Suc.prems(2,3) by simp
  have g: "get_pool_index (- 1) POOL_TYPE_VOLATILE ps n = Some (find_index (\<lambda>k. k = VOLATILE_KEY) (pool_keys ps n))"
    by (rule get_pool_index_eq [OF n])
  show ?case
  proof (cases "dc_memory_capacity cap = 0")
    case True
    then have "volatile_loop E d count (Suc i) (ps, n) = Some (rc, ps', n')"
      using Suc.prems(1) i(1) cap by (simp add: volatile_loop.simps [of E d count i])
    from Suc.hyps(1) [OF i(2) this Suc.prems(2-6)] show ?thesis using True c memory_from_step [OF i(1)] by simp
  next
    case False
    then have mem: "memory_from d i" using c memory_from_step [OF i(1)] by simp
    show ?thesis
    proof (cases "listed_pools ps n = []")
      case empty: True
      then have n0: "n = 0" using length_listed [OF n] by simp
      have none: "find_index (\<lambda>k. k = VOLATILE_KEY) (pool_keys ps n) = None" by (simp add: pool_keys_def empty)
      show ?thesis
      proof (cases "count = 0")
        case True
        then show ?thesis
          using Suc.prems(1) [unfolded volatile_loop.simps [of E d count i]] Suc.prems(5) i(1) cap False g none n0 mem
          by simp
      next
        case cnt: False
        then obtain r p where p0: "init_pool (pe_sha1 E) (pe_garbage E) (pd_host_name d) POOL_TYPE_VOLATILE (- 1) = Some (r, p)"
          using Suc.prems(1) i(1) cap False g none n0 by (auto simp: volatile_loop.simps [of E d count i] bind_eq_Some_conv)
        have p: "r = NVM_SUCCESS" "pool_key p = VOLATILE_KEY" "iset_ids p = []"
          using init_pool_effect [OF p0 Suc.prems(4)] by simp_all
        have lt: "0 < length ps" using cnt Suc.prems(3) by linarith
        obtain ps1 where f: "add_dimm_at d i (ps[0 := p]) 0 = Some ps1" "volatile_loop E d count (Suc i) (ps1, Suc 0) = Some (rc, ps', n')"
          using Suc.prems(1) i(1) cap False g none n0 cnt p0 p(1) lt
          by (auto simp: volatile_loop.simps [of E d count i] bind_eq_Some_conv wr_def)
        obtain q where q: "ps1 = ps[0 := q]" "locked_ok q" "pool_key q = VOLATILE_KEY" "iset_ids q = []"
          using add_dimm_at_effect [OF f(1)] p lt by auto
        have l1: "listed_pools ps1 (Suc 0) = [(VOLATILE_KEY, [])]" "all_locked_ok ps1 (Suc 0)" "length ps1 = length ps"
          using q lt listed_snoc [OF lt, of q] all_locked_snoc [OF lt _ q(2)] by (auto simp: listed_pools_def)
        show ?thesis
          using Suc.hyps(1) [OF i(2) f(2) _ _ Suc.prems(4) l1(2)] l1(1,3) cnt Suc.prems(3) mem by auto
      qed
    next
      case full: False
      then have li: "listed_pools ps n = [(VOLATILE_KEY, [])]" using Suc.prems(6) by simp
      have n1: "n = 1" using li length_listed [OF n] by simp
      have some: "find_index (\<lambda>k. k = VOLATILE_KEY) (pool_keys ps n) = Some 0" by (simp add: pool_keys_def li)
      obtain ps1 where f: "add_dimm_at d i ps 0 = Some ps1" "volatile_loop E d count (Suc i) (ps1, n) = Some (rc, ps', n')"
        using Suc.prems(1) i(1) cap False g some by (auto simp: volatile_loop.simps [of E d count i] bind_eq_Some_conv)
      obtain q where q: "ps1 = ps[0 := q]" "locked_ok q" "pool_key q = pool_key (ps ! 0)" "iset_ids q = iset_ids (ps ! 0)"
        using add_dimm_at_effect [OF f(1)] by blast
      have l0: "(pool_key (ps ! 0), iset_ids (ps ! 0)) = (VOLATILE_KEY, [])" using li listed_nth [of 0 n ps] n n1 by simp
      have l1: "listed_pools ps1 n = [(VOLATILE_KEY, [])]" "all_locked_ok ps1 n" "length ps1 = length ps"
        using q n n1 l0 li all_locked_update [OF Suc.prems(5) q(2)] listed_update [of 0 n ps q] by simp_all
      show ?thesis
        using Suc.hyps(1) [OF i(2) f(2) Suc.prems(2) _ Suc.prems(4) l1(2)] l1(1,3) Suc.prems(2,3) mem n1 by simp
    qed
  qed
qed


text \<open>The two passes over the DIMMs and the interleave sets together.\<close>

lemma populate_parts:
  assumes "populate_pools E d ps count = Some (rc, ps')"
  obtains rc1 ps1 n1 where "volatile_loop E d count 0 (ps, 0) = Some (rc1, ps1, n1)"
    "rc1 \<noteq> NVM_SUCCESS \<Longrightarrow> rc1 < 0 \<Longrightarrow> rc = rc1"
    "rc1 = NVM_SUCCESS \<Longrightarrow> app_direct_mode_f (nvm_features (pd_capabilities d)) \<Longrightarrow>
      \<exists>rc2 n2. add_interleave_sets_loop E d count (pd_isets d) (NVM_SUCCESS, ps1, n1) = Some (rc2, ps', n2) \<and>
        rc = (if rc2 = NVM_SUCCESS then int n2 else rc2)"
    "rc1 = NVM_SUCCESS \<Longrightarrow> \<not> app_direct_mode_f (nvm_features (pd_capabilities d)) \<Longrightarrow> rc = int n1 \<and> ps' = ps1"
  using assms
  by (auto simp: populate_pools_def add_dimms_volatile_capacity_to_pools_def add_interleave_sets_to_pools_def
      bind_eq_Some_conv Let_def split: if_splits)

text \<open>A platform with interleave sets of no DIMMs.\<close>

definition iset_data :: "nvm_interleave_set list \<Rightarrow> pool_data" where
  "iset_data nis = empty_pool_data\<lparr>pd_isets := nis,
     pd_capabilities := zero_nvm_caps\<lparr>nvm_features := zero_nvm_features\<lparr>app_direct_mode_f := True\<rparr>\<rparr>\<rparr>"

lemma iset_data_simps [simp]:
  "pd_isets (iset_data nis) = nis" "pd_dimms (iset_data nis) = []" "pd_capacities (iset_data nis) = []"
  "pd_namespaces (iset_data nis) = []" "app_direct_mode_f (nvm_features (pd_capabilities (iset_data nis)))"
  by (simp_all add: iset_data_def empty_pool_data_def)

lemma iset_data_expected: "expected_pools (iset_data nis) = fold put_iset nis []"
  by (simp add: expected_pools_def usable_isets_def volatile_pools_def has_memory_def)

abbreviation example_iset :: "u8 \<Rightarrow> u8 \<Rightarrow> nvm_interleave_set" where
  "example_iset s i \<equiv> zero_nvm_iset\<lparr>ni_id := i, ni_socket_id := s\<rparr>"

lemma zero_nvm_iset_dimms: "ni_dimm_count (example_iset s i) = 0"
  by (simp add: zero_nvm_iset_def)

lemma set_without_dimms:
  assumes "ni_dimm_count ni = 0" "il_dimm_count (po_ilsets p ! po_ilset_count p) = 0" "po_ilset_count p < length (po_ilsets p)"
  shows "add_interleave_set_to_pool fill (iset_data nis) p ni \<noteq> None"
proof -
  obtain s where s: "nvm_interleave_to_interleave fill (iset_data nis) ni (po_ilsets p ! po_ilset_count p) = Some s"
    "il_dimm_count s = 0"
    using assms(1,2) by (simp add: nvm_interleave_to_interleave_def calculate_iset_free_capacity_def Let_def)
  then show ?thesis
    using assms(3)
    by (simp add: add_interleave_set_to_pool_def rd_def wr_def add_iset_dimms_loop.simps [of _ s 0]
        update_pool_security_from_iset_def encryption_capable_loop.simps [of _ s 0])
qed

lemma init_pool_example:
  "\<exists>u. init_pool (\<lambda>_. Some (replicate 20 1)) (replicate 16 0) h t s =
    Some (NVM_SUCCESS, zero_pool\<lparr>po_uid := u, po_type := t, po_socket_id := s, po_health := POOL_HEALTH_NORMAL\<rparr>)"
proof -
  let ?g = "take 7 (replicate 20 1) @ [(replicate 20 1 ! 7 AND 0x0F) XOR 0x50, (replicate 20 1 ! 8 AND 0x3F) XOR 0x80] @
                 take 7 (drop 9 (replicate 20 1)) :: bytes"
  have g: "guid_hash (\<lambda>_. Some (replicate 20 1)) x (replicate 16 0) = Some (?g, True)" for x
    by (rule guid_hash_digest) simp_all
  have l: "length ?g = 16" "37 \<le> length (po_uid zero_pool)" by (simp_all add: zero_pool_def zero_uid_def zeros_def NVM_UID_LEN_def)
  obtain u where u: "guid_to_str (Some ?g) (Some (po_uid zero_pool)) = Some (Some u)"
    using guid_to_str_eq(1) [OF l] by blast
  show ?thesis by (intro exI [of _ u]) (simp only: init_pool_def guid_hash_str_def g u bind.bind_lunit split if_True)
qed

definition example_platform :: pool_env where
  "example_platform =
     \<lparr>pe_permitted = True, pe_driver = True, pe_licensed = NVM_SUCCESS, pe_alloc = (\<lambda>_. True),
      pe_dimms = (0, None), pe_caps = (NVM_SUCCESS, zero_nvm_caps), pe_capacities = (\<lambda>_. (NVM_SUCCESS, zero_capacities)),
      pe_isets = (1, 1, [example_iset 0 7]), pe_host = (NVM_SUCCESS, [0]),
      pe_goal_status = (\<lambda>_. CONFIG_GOAL_STATUS_UNKNOWN),
      pe_status = (\<lambda>_. \<lparr>st_health = DEVICE_HEALTH_NORMAL, st_config_status = CONFIG_STATUS_VALID, st_viral_state = False\<rparr>),
      pe_namespaces = (0, 0, []), pe_details = (\<lambda>_. (NVM_ERR_UNKNOWN, zero_namespace_details)),
      pe_fill = (\<lambda>_. (NVM_ERR_UNKNOWN, \<lparr>pi_volatile_capacity = 0, pi_start_volatile = 0, pi_pmem_capacity = 0,
        pi_start_pmem = 0, pi_raw_capacity = 0\<rparr>), \<lambda>_ _. (NVM_ERR_NOTFOUND, None)), pe_sha1 = (\<lambda>_. Some (replicate 20 1)), pe_garbage = replicate 16 0\<rparr>"

text \<open>
  C8: \<open>populate_pools\<close> of lib/pool.c lists one pool for the volatile memory and one for every socket and kind of
  interleave set, in the order in which they are met, each with the identifiers of its sets in order; a locked pool
  has no free capacity; an array that is too short for them is refused.
\<close>

theorem pools_listed:
  assumes "populate_pools E d ps count = Some (rc, ps')" "count \<le> length ps" "\<forall>x. pe_sha1 E x \<noteq> None"
  shows "if length (expected_pools d) \<le> count
    then rc = int (length (expected_pools d)) \<and> listed_pools ps' (nat rc) = expected_pools d \<and>
      (\<forall>p \<in> set (take (nat rc) ps'). po_health p = POOL_HEALTH_LOCKED \<longrightarrow> po_free_capacity p = 0)
    else rc = NVM_ERR_ARRAYTOOSMALL"
proof -
  obtain rc1 ps1 n1 where v: "volatile_loop E d count 0 (ps, 0) = Some (rc1, ps1, n1)"
    "rc1 \<noteq> NVM_SUCCESS \<Longrightarrow> rc1 < 0 \<Longrightarrow> rc = rc1"
    "rc1 = NVM_SUCCESS \<Longrightarrow> app_direct_mode_f (nvm_features (pd_capabilities d)) \<Longrightarrow>
      \<exists>rc2 n2. add_interleave_sets_loop E d count (pd_isets d) (NVM_SUCCESS, ps1, n1) = Some (rc2, ps', n2) \<and>
        rc = (if rc2 = NVM_SUCCESS then int n2 else rc2)"
    "rc1 = NVM_SUCCESS \<Longrightarrow> \<not> app_direct_mode_f (nvm_features (pd_capabilities d)) \<Longrightarrow> rc = int n1 \<and> ps' = ps1"
    by (rule populate_parts [OF assms(1)]) blast
  have l0: "listed_pools ps 0 = []" by (simp add: listed_pools_def)
  have r: "length ps1 = length ps \<and> n1 \<le> count \<and> all_locked_ok ps1 n1 \<and>
    (if has_memory d \<and> count = 0 then rc1 = NVM_ERR_ARRAYTOOSMALL
     else rc1 = NVM_SUCCESS \<and> listed_pools ps1 n1 = volatile_pools d)"
    using volatile_loop_result [OF v(1) _ assms(2,3)] l0 by (simp add: memory_from_0 volatile_pools_def)
  show ?thesis
  proof (cases "has_memory d \<and> count = 0")
    case True
    then have "0 < length (volatile_pools d)" by (simp add: volatile_pools_def)
    then have "\<not> length (expected_pools d) \<le> count"
      using True fold_put_mono [of "volatile_pools d" "usable_isets d"] unfolding expected_pools_def by linarith
    then show ?thesis using True r v(2) by simp
  next
    case False
    then have s: "rc1 = NVM_SUCCESS" "listed_pools ps1 n1 = volatile_pools d" using r by auto
    have n1: "n1 \<le> length ps1" "n1 \<le> count" "count \<le> length ps1" using r assms(2) by simp_all
    show ?thesis
    proof (cases "app_direct_mode_f (nvm_features (pd_capabilities d))")
      case False
      then have e: "expected_pools d = listed_pools ps1 n1" "rc = int n1" "ps' = ps1"
        using v(4) s by (simp_all add: expected_pools_def usable_isets_def)
      then show ?thesis using n1 r length_listed [OF n1(1)] by (simp add: locked_ok_def)
    next
      case True
      then obtain rc2 n2 where f: "add_interleave_sets_loop E d count (pd_isets d) (NVM_SUCCESS, ps1, n1) = Some (rc2, ps', n2)"
        "rc = (if rc2 = NVM_SUCCESS then int n2 else rc2)" using v(3) s(1) by blast
      have e: "expected_pools d = fold put_iset (pd_isets d) (listed_pools ps1 n1)"
        using True s(2) by (simp add: expected_pools_def usable_isets_def)
      have all: "all_locked_ok ps1 n1" using r by simp
      note q = isets_loop_result [OF f(1) n1(2,3) assms(3) all]
      show ?thesis
      proof (cases "length (expected_pools d) \<le> count")
        case True
        then have a: "rc2 = NVM_SUCCESS" "listed_pools ps' n2 = expected_pools d" "n2 \<le> length ps'" "all_locked_ok ps' n2"
          using q e n1 by auto
        then show ?thesis using True f(2) length_listed [OF a(3)] by (simp add: locked_ok_def)
      next
        case False
        then show ?thesis using q e f(2) by simp
      qed
    qed
  qed
qed

theorem pools_listed_witness:
  "\<exists>ps'. populate_pools example_platform (iset_data [example_iset 0 7]) [zero_pool] 1 = Some (1, ps') \<and>
     listed_pools ps' 1 = [((0, POOL_TYPE_PERSISTENT), [7])]"
proof -
  let ?d = "iset_data [example_iset 0 7]"
  have e: "expected_pools ?d = [((0, POOL_TYPE_PERSISTENT), [7])]"
    by (simp add: iset_data_expected put_iset_def iset_key_def pool_type_of_iset_def zero_nvm_iset_def MIRRORED_INTERLEAVE_def)
  have v: "volatile_loop example_platform ?d 1 0 ([zero_pool], 0) = Some (NVM_SUCCESS, [zero_pool], 0)"
    by (simp add: volatile_loop.simps [of _ ?d])
  obtain u where u: "init_pool (pe_sha1 example_platform) (pe_garbage example_platform) (pd_host_name ?d) t s =
      Some (NVM_SUCCESS, zero_pool\<lparr>po_uid := u t s, po_type := t, po_socket_id := s, po_health := POOL_HEALTH_NORMAL\<rparr>)" for t s
    using init_pool_example by (simp add: example_platform_def) metis
  let ?p = "zero_pool\<lparr>po_uid := u POOL_TYPE_PERSISTENT 0, po_type := POOL_TYPE_PERSISTENT, po_socket_id := 0,
    po_health := POOL_HEALTH_NORMAL\<rparr>"
  have "il_dimm_count (po_ilsets ?p ! po_ilset_count ?p) = 0" "po_ilset_count ?p < length (po_ilsets ?p)"
    by (simp_all add: zero_pool_def zero_interleave_set_def)
  then obtain q where q: "add_interleave_set_to_pool (pe_fill example_platform) ?d ?p (example_iset 0 7) = Some q"
    using set_without_dimms [of "example_iset 0 7" ?p "pe_fill example_platform" "[example_iset 0 7]"] zero_nvm_iset_dimms
    by fastforce
  have k: "pool_type_of_iset (example_iset 0 7) = POOL_TYPE_PERSISTENT" "int (unat (ni_socket_id (example_iset 0 7))) = 0"
    by (simp_all add: pool_type_of_iset_def zero_nvm_iset_def MIRRORED_INTERLEAVE_def)
  have g: "get_pool_index t s [zero_pool] 0 = Some None" for t s
    by (simp add: get_pool_index_def pool_index_loop.simps [of _ _ _ 0])
  have w: "wr [zero_pool] 0 x = Some [x]" for x by (simp add: wr_def)
  have a: "add_iset_at example_platform ?d (example_iset 0 7) [?p] 0 = Some [zero_pool_free_capacity_if_locked q]"
    using q by (simp add: add_iset_at_def rd_def wr_def)
  have "add_interleave_sets_loop example_platform ?d 1 [example_iset 0 7] (NVM_SUCCESS, [zero_pool], 0) =
      Some (NVM_SUCCESS, [zero_pool_free_capacity_if_locked q], 1)"
    by (simp only: add_interleave_sets_loop.simps g k u w a bind.bind_lunit option.case split) simp
  then have "populate_pools example_platform ?d [zero_pool] 1 \<noteq> None"
    unfolding populate_pools_def add_dimms_volatile_capacity_to_pools_def v bind.bind_lunit split
    by (simp add: add_interleave_sets_to_pools_def Let_def split del: if_split)
  then obtain rc ps' where p: "populate_pools example_platform ?d [zero_pool] 1 = Some (rc, ps')" by auto
  have h: "\<forall>x. pe_sha1 example_platform x \<noteq> None" by (simp add: example_platform_def)
  note r = pools_listed [OF p _ h, unfolded e, simplified]
  have rc: "rc = 1" using r by blast
  show ?thesis using p r unfolding rc by simp
qed

text \<open>
  C38: \<open>count_pools\<close> of lib/pool.c counts as many pools as are listed if there are at most \<open>MAX_POOLS\<close> of them; the
  tenth pool is written past the end of the list before its number is tested, so that the error for it
  (\<open>NVM_ERR_BADPOOLHEALTH\<close>) is never returned.
\<close>

theorem pools_counted:
  assumes "length (pd_dimms d) \<le> length (pd_capacities d)"
  shows "count_pools d True =
    (if length (expected_pools d) \<le> 9 then Some (int (length (expected_pools d))) else None)"
  using count_pools_eq [OF assms] by (simp add: MAX_POOLS_def)

theorem pools_counted_witness:
  "count_pools (iset_data [example_iset 0 1, example_iset 1 2, example_iset 0 3]) True = Some 2"
  using pools_counted [of "iset_data [example_iset 0 1, example_iset 1 2, example_iset 0 3]"]
  by (simp add: iset_data_expected put_iset_def iset_key_def pool_type_of_iset_def zero_nvm_iset_def MIRRORED_INTERLEAVE_def)

end
