(* ===== verification/Security_Facts.thy ===== *)
theory Security_Facts
  imports Security S_Str_Facts
begin

text \<open>
  What the security operations promise: which security states admit a change, which checks stand
  before a command that erases, how often a busy device is asked, and what is sent as a passphrase.
\<close>

unbundle bit_operations_syntax

section \<open>Lock states\<close>

text \<open>
  The security status that the firmware reports admits a change exactly when its bits
  \<open>not supported\<close> and \<open>frozen\<close> are clear and, if security is enabled, the limit of attempts is not
  reached; access is permitted if moreover an enabled device is not locked.
\<close>

theorem security_status_admits:
  "(check_lock_state (x\<lparr>disc_lock_state := security_state_to_enum b\<rparr>) = NVM_SUCCESS \<longleftrightarrow>
      b AND 0x20 = 0 \<and> b AND 0x08 = 0 \<and> (b AND 0x02 = 0 \<or> b AND 0x10 = 0)) \<and>
   (nvm_get_security_permission (x\<lparr>disc_lock_state := security_state_to_enum b\<rparr>) = NVM_SUCCESS \<longleftrightarrow>
      b AND 0x20 = 0 \<and> b AND 0x08 = 0 \<and> (b AND 0x02 = 0 \<or> b AND 0x10 = 0 \<and> b AND 0x04 = 0))"
  by (simp add: check_lock_state_def nvm_get_security_permission_def security_state_to_enum_def Let_def)

section \<open>The passphrase\<close>

text \<open>The bytes of a string in a cleared buffer of \<open>n\<close> bytes.\<close>

definition padded :: "nat \<Rightarrow> bytes \<Rightarrow> bytes" where
  "padded n w = w @ zeros (n - length w)"

lemma put_str_zeros: "length w < n \<Longrightarrow> put_str (zeros n) 0 w = padded n w"
  by (auto simp: put_str_def padded_def zeros_def list_eq_iff_nth_eq nth_append nth_Cons' )

lemma passphrase_payload_eq:
  assumes "readable p (min 31 n)"
  shows "passphrase_payload (Some p) n = Some (padded 128 (cstr (take (min 31 n) p)))"
proof -
  let ?w = "cstr (take (min 31 n) p)"
  have l: "length ?w \<le> 31" using length_cstr_take [of "min 31 n" p] by simp
  have "s_strncpy (Some (zeros 32)) 32 (Some p) n = Some (Some (put_str (zeros 32) 0 ?w))"
    by (rule s_strncpy_eq [of 32 "zeros 32" p n, simplified]) (use assms in \<open>simp_all add: zeros_def\<close>)
  moreover have "put_str (zeros 32) 0 ?w = padded 32 ?w" using l by (intro put_str_zeros) simp
  moreover have "padded 32 ?w @ zeros 96 = padded 128 ?w"
    using l by (simp add: padded_def zeros_def replicate_add [symmetric])
  ultimately show ?thesis by (simp add: passphrase_payload_def NVM_PASSPHRASE_LEN_def)
qed

text \<open>
  A passphrase of 32 characters passes the check of its length, but only its first 31
  characters are sent, so passphrases that differ in the last character only are the same to the
  firmware; one of at most 31 characters is sent as it is.
\<close>

theorem passphrase_sent:
  assumes "0 \<notin> set p" "0 < length p" "length p \<le> 32"
  shows "check_passphrase (Some p) (length p) = NVM_SUCCESS \<and>
    passphrase_payload (Some p) (length p) = Some (padded 128 (take 31 p)) \<and>
    (length p = 32 \<longrightarrow> passphrase_payload (Some (p[31 := c])) 32 = passphrase_payload (Some p) (length p))"
proof -
  have z: "cstr (take k p) = take k p" for k using assms(1) by (meson cstr_id in_set_takeD)
  have r: "readable p (min 31 (length p))" by (simp add: readable_def)
  have t: "take (min 31 (length p)) p = take 31 p" by (simp add: min_def)
  have a: "passphrase_payload (Some p) (length p) = Some (padded 128 (take 31 p))"
    using passphrase_payload_eq [OF r] unfolding t z .
  have b: "passphrase_payload (Some (p[31 := c])) 32 = Some (padded 128 (take 31 p))" if "length p = 32"
    using passphrase_payload_eq [of "p[31 := c]" 32] that z [of 31] by (simp add: readable_def)
  have "check_passphrase (Some p) (length p) = NVM_SUCCESS"
    using assms(2,3) by (simp add: check_passphrase_def NVM_PASSPHRASE_LEN_def)
  moreover have "length p = 32 \<longrightarrow> passphrase_payload (Some (p[31 := c])) 32 = passphrase_payload (Some p) (length p)"
    using a b by metis
  ultimately show ?thesis using a by blast
qed

theorem passphrase_sent_witness:
  "passphrase_payload (Some ((replicate 32 65)[31 := 66])) 32 = passphrase_payload (Some (replicate 32 65)) 32"
proof -
  have z: "(0 :: u8) \<notin> set (replicate 32 65)" by simp
  show ?thesis using passphrase_sent [OF z, of 66] by (simp only: length_replicate)
qed

section \<open>Erasing\<close>

text \<open>The code of the command that follows \<open>k\<close> others, and the state before it.\<close>

primrec attempt_state :: "'s security_env \<Rightarrow> dimm_device \<Rightarrow> bytes \<Rightarrow> 's \<Rightarrow> nat \<Rightarrow> 's" where
  "attempt_state E x pay s 0 = s"
| "attempt_state E x pay s (Suc k) =
     snd (run_set (se_ioctl E) (with_input pay (new_cmd (disc_handle x) PT_SET_SEC_INFO SUBOP_SEC_ERASE_UNIT))
       (attempt_state E x pay s k))"

definition attempt_code :: "'s security_env \<Rightarrow> dimm_device \<Rightarrow> bytes \<Rightarrow> 's \<Rightarrow> nat \<Rightarrow> int" where
  "attempt_code E x pay s k =
     fst (run_set (se_ioctl E) (with_input pay (new_cmd (disc_handle x) PT_SET_SEC_INFO SUBOP_SEC_ERASE_UNIT))
       (attempt_state E x pay s k))"

lemma passphrase_command_erase:
  "passphrase_payload p n = Some pay \<Longrightarrow>
   passphrase_command E x SUBOP_SEC_ERASE_UNIT p n (attempt_state E x pay s k) =
   Some (attempt_code E x pay s k, attempt_state E x pay s (Suc k))"
  by (simp add: passphrase_command_def attempt_code_def)

lemma erase_loop_eq:
  assumes pay: "passphrase_payload p n = Some pay" and "k < 5"
    and "\<forall>j < k. attempt_code E x pay s j = NVM_ERR_DEVICEBUSY"
    and "attempt_code E x pay s k \<noteq> NVM_ERR_DEVICEBUSY \<or> k = 4" and "i \<le> k"
  shows "erase_loop E x p n i (attempt_state E x pay s i) =
    Some (attempt_code E x pay s k, attempt_state E x pay s (Suc k))"
  using assms(5)
proof (induction "k - i" arbitrary: i)
  case 0
  then have "i = k" by simp
  then show ?case
    using assms(4) by (subst erase_loop.simps) (auto simp: passphrase_command_erase [OF pay])
next
  case (Suc d)
  then have "i < k" by simp
  then have "attempt_code E x pay s i = NVM_ERR_DEVICEBUSY" "Suc i < 5" using assms(2,3) by auto
  moreover have "erase_loop E x p n (Suc i) (attempt_state E x pay s (Suc i)) =
      Some (attempt_code E x pay s k, attempt_state E x pay s (Suc k))"
    using Suc by (intro Suc.hyps) auto
  ultimately show ?case
    by (subst erase_loop.simps) (simp add: passphrase_command_erase [OF pay] del: attempt_state.simps)
qed

text \<open>
  C13: A busy device is asked again: if one of the first five erase commands is accepted and the ones
  before it were answered with busy, the erase succeeds, with exactly that many commands and one
  event; and if all five are answered with busy it gives up with that code.
\<close>

theorem secure_erase_retries:
  assumes "passphrase_payload p n = Some pay" "\<forall>j < k. attempt_code E x pay s j = NVM_ERR_DEVICEBUSY"
  shows "(k < 5 \<and> attempt_code E x pay s k = NVM_SUCCESS \<longrightarrow>
      secure_erase E p n x s =
        Some (NVM_SUCCESS, se_event E \<lparr>ev_code = EVENT_CODE_MGMT_SECURITY_SECURE_ERASE, ev_uid = disc_uid x,
          ev_args = [disc_uid x]\<rparr> (attempt_state E x pay s (Suc k)))) \<and>
    (k = 5 \<longrightarrow> secure_erase E p n x s = Some (NVM_ERR_DEVICEBUSY, attempt_state E x pay s 5))"
proof (intro conjI impI)
  assume a: "k < 5 \<and> attempt_code E x pay s k = NVM_SUCCESS"
  then have "erase_loop E x p n 0 (attempt_state E x pay s 0) =
      Some (attempt_code E x pay s k, attempt_state E x pay s (Suc k))"
    using assms(2) by (intro erase_loop_eq [OF assms(1)]) auto
  then show "secure_erase E p n x s =
        Some (NVM_SUCCESS, se_event E \<lparr>ev_code = EVENT_CODE_MGMT_SECURITY_SECURE_ERASE, ev_uid = disc_uid x,
          ev_args = [disc_uid x]\<rparr> (attempt_state E x pay s (Suc k)))"
    using a by (simp add: secure_erase_def)
next
  assume k: "k = 5"
  then have b: "attempt_code E x pay s 4 = NVM_ERR_DEVICEBUSY" using assms(2) by simp
  have "erase_loop E x p n 0 (attempt_state E x pay s 0) =
      Some (attempt_code E x pay s 4, attempt_state E x pay s (Suc 4))"
    using assms(2) k by (intro erase_loop_eq [OF assms(1)]) auto
  then have "erase_loop E x p n 0 s = Some (NVM_ERR_DEVICEBUSY, attempt_state E x pay s 5)"
    using b by (simp only: attempt_state.simps(1)) (simp del: attempt_state.simps add: eval_nat_numeral)
  then show "secure_erase E p n x s = Some (NVM_ERR_DEVICEBUSY, attempt_state E x pay s 5)"
    by (simp add: secure_erase_def del: attempt_state.simps)
qed

text \<open>A device for the examples, and an environment that writes down what is done to it.\<close>

datatype deed = Looked | Sent u8 | Reenumerated | Invalidated | Logged event_code_mgmt

definition locked_device :: dimm_device where
  "locked_device = zero_device_discovery\<lparr>disc_handle := 7, disc_manageability := 1, disc_lock_state := LOCK_STATE_LOCKED,
     disc_security_capabilities := \<lparr>passphrase_capable = True, unlock_device_capable = True, erase_crypto_capable = True\<rparr>\<rparr>"

definition recording_env :: "(nat \<Rightarrow> int) \<Rightarrow> int \<Rightarrow> deed list security_env" where
  "recording_env answer reenumerated =
     \<lparr>se_permitted = True, se_driver = True, se_feature = 0,
      se_devices = \<lambda>s. (1, Some [locked_device], s @ [Looked]),
      se_ioctl = \<lambda>s c. (answer (length s), [], [], s @ [Sent (cmd_sub_opcode c)]),
      se_reenumerate = \<lambda>h s. (reenumerated, s @ [Reenumerated]), se_invalidate = \<lambda>s. s @ [Invalidated],
      se_event = \<lambda>e s. s @ [Logged (ev_code e)]\<rparr>"

theorem secure_erase_retries_witness:
  "secure_erase (recording_env (\<lambda>n. if n < 2 then NVM_ERR_DEVICEBUSY else 0) 0) (Some [65]) 1 locked_device [] =
   Some (0, replicate 3 (Sent SUBOP_SEC_ERASE_UNIT) @ [Logged EVENT_CODE_MGMT_SECURITY_SECURE_ERASE])"
proof -
  let ?E = "recording_env (\<lambda>n. if n < 2 then NVM_ERR_DEVICEBUSY else 0) 0"
  let ?pay = "padded 128 [65]"
  have "cstr (take 1 [65 :: u8]) = [65]" by (simp add: cstr_def)
  then have pay: "passphrase_payload (Some [65]) 1 = Some ?pay"
    using passphrase_payload_eq [of "[65]" 1] by (simp add: readable_def)
  have l: "length (attempt_state ?E locked_device ?pay [] k) = k" for k
    by (induction k) (auto simp: recording_env_def run_set_def)
  have c: "attempt_code ?E locked_device ?pay [] k = (if k < 2 then NVM_ERR_DEVICEBUSY else 0)" for k
    using l [of k] by (simp add: attempt_code_def run_set_def recording_env_def)
  have st: "attempt_state ?E locked_device ?pay [] 3 = replicate 3 (Sent SUBOP_SEC_ERASE_UNIT)"
    by (simp add: eval_nat_numeral run_set_def recording_env_def with_input_def new_cmd_def)
  show ?thesis
    using secure_erase_retries [OF pay, of 2 ?E locked_device "[]"] c st
    by (simp add: recording_env_def eval_nat_numeral del: attempt_state.simps)
qed

text \<open>What has to hold before a command that erases is sent.\<close>

definition may_erase :: "'s security_env \<Rightarrow> bytes option \<Rightarrow> bytes option \<Rightarrow> nat \<Rightarrow> 's \<Rightarrow> dimm_device \<Rightarrow> 's \<Rightarrow> bool" where
  "may_erase E device_uid p n s x s1 \<longleftrightarrow>
     se_permitted E \<and> se_driver E \<and> se_feature E = NVM_SUCCESS \<and>
     exists_manageable_device E device_uid s = Some (NVM_SUCCESS, Some x, s1) \<and>
     passphrase_capable (disc_security_capabilities x) \<and> p \<noteq> None \<and> 0 < n \<and> n \<le> NVM_PASSPHRASE_LEN \<and>
     (disc_lock_state x = LOCK_STATE_LOCKED \<or> disc_lock_state x = LOCK_STATE_UNLOCKED)"

lemma prepare_refuses:
  "0 < n \<Longrightarrow> disc_lock_state x \<noteq> LOCK_STATE_LOCKED \<Longrightarrow> disc_lock_state x \<noteq> LOCK_STATE_UNLOCKED \<Longrightarrow>
   \<exists>rc. rc \<noteq> NVM_SUCCESS \<and> security_change_prepare E x p n s = Some (rc, s)"
  by (cases "disc_lock_state x") (auto simp: security_change_prepare_def check_lock_state_def)

lemma erase_or_refuse:
  assumes "nvm_erase_device E device_uid p n s = Some (rc, s')"
  shows "(\<exists>x s1. may_erase E device_uid p n s x s1) \<or>
    rc \<noteq> NVM_SUCCESS \<and> (s' = s \<or> s' = snd (snd (se_devices E s)))"
proof (cases "security_guards E device_uid = NVM_SUCCESS")
  case False
  then show ?thesis using assms by (auto simp: nvm_erase_device_def)
next
  case g: True
  then have g': "se_permitted E" "se_driver E" "se_feature E = NVM_SUCCESS"
    by (auto simp: security_guards_def split: if_splits)
  from assms g obtain c d s1 where e: "exists_manageable_device E device_uid s = Some (c, d, s1)"
    by (auto simp: nvm_erase_device_def split: Option.bind_splits)
  then have s1: "s1 = snd (snd (se_devices E s))"
    by (auto simp: exists_manageable_device_def split: prod.splits Option.bind_splits)
  show ?thesis
  proof (cases "c = NVM_SUCCESS")
    case False
    then show ?thesis using assms g e s1 by (auto simp: nvm_erase_device_def)
  next
    case c: True
    from assms g e c obtain x where x: "d = Some x" by (auto simp: nvm_erase_device_def split: Option.bind_splits)
    let ?ok = "passphrase_capable (disc_security_capabilities x) \<and> p \<noteq> None \<and> 0 < n \<and> n \<le> NVM_PASSPHRASE_LEN"
    show ?thesis
    proof (cases "?ok \<and> (disc_lock_state x = LOCK_STATE_LOCKED \<or> disc_lock_state x = LOCK_STATE_UNLOCKED)")
      case True
      then show ?thesis using g' e c x unfolding may_erase_def by blast
    next
      case False
      then have "rc \<noteq> NVM_SUCCESS \<and> s' = s1"
        using assms g e c x prepare_refuses [of n x E p s1]
        by (auto simp: nvm_erase_device_def check_passphrase_def split: if_splits)
      then show ?thesis using s1 by blast
    qed
  qed
qed

text \<open>
  C21: Nothing is done to a device unless all of this holds: the caller has permission, the driver and the
  feature are there, the device exists, is manageable and has a passphrase, the one given has between
  1 and 32 characters, and the device is locked or unlocked. Otherwise the erase fails and the
  state is that of the call or that after looking the device up. In particular a device whose
  security is disabled is never erased, with the code for disabled security if nothing else is
  wrong. The comment on \<open>nvm_erase_device\<close> in \<open>nvm_management.h\<close> names the opposite precondition, a
  device whose security is disabled or sanitize antifreeze; the theorem states what the code does.
\<close>

theorem erase_needs_checks:
  assumes "nvm_erase_device E device_uid p n s = Some (rc, s')"
  shows "((\<exists>x s1. may_erase E device_uid p n s x s1) \<or>
      rc \<noteq> NVM_SUCCESS \<and> (s' = s \<or> s' = snd (snd (se_devices E s)))) \<and>
    (\<forall>x s1. exists_manageable_device E device_uid s = Some (NVM_SUCCESS, Some x, s1) \<and>
        disc_lock_state x = LOCK_STATE_DISABLED \<longrightarrow>
      rc \<noteq> NVM_SUCCESS \<and> (s' = s \<or> s' = snd (snd (se_devices E s))) \<and>
      (security_guards E device_uid = NVM_SUCCESS \<and> passphrase_capable (disc_security_capabilities x) \<and>
         check_passphrase p n = NVM_SUCCESS \<longrightarrow> rc = NVM_ERR_SECURITYDISABLED))"
proof (intro conjI allI impI)
  show "(\<exists>x s1. may_erase E device_uid p n s x s1) \<or>
      rc \<noteq> NVM_SUCCESS \<and> (s' = s \<or> s' = snd (snd (se_devices E s)))"
    by (rule erase_or_refuse [OF assms])
next
  fix x s1
  assume x: "exists_manageable_device E device_uid s = Some (NVM_SUCCESS, Some x, s1) \<and>
    disc_lock_state x = LOCK_STATE_DISABLED"
  then have "\<not> (\<exists>x s1. may_erase E device_uid p n s x s1)" by (auto simp: may_erase_def)
  then show "rc \<noteq> NVM_SUCCESS" "s' = s \<or> s' = snd (snd (se_devices E s))"
    using erase_or_refuse [OF assms] by blast+
  assume "security_guards E device_uid = NVM_SUCCESS \<and> passphrase_capable (disc_security_capabilities x) \<and>
    check_passphrase p n = NVM_SUCCESS"
  then show "rc = NVM_ERR_SECURITYDISABLED"
    using assms x
    by (auto simp: nvm_erase_device_def security_change_prepare_def check_lock_state_def check_passphrase_def
        split: if_splits)
qed

theorem erase_needs_checks_witness:
  "nvm_erase_device ((recording_env (\<lambda>_. 0) 0)
       \<lparr>se_devices := \<lambda>s. (1, Some [locked_device\<lparr>disc_lock_state := LOCK_STATE_DISABLED\<rparr>], s @ [Looked])\<rparr>)
     (Some (replicate 37 0)) (Some [65]) 1 [] = Some (NVM_ERR_SECURITYDISABLED, [Looked])"
proof -
  let ?x = "locked_device\<lparr>disc_lock_state := LOCK_STATE_DISABLED\<rparr>"
  let ?E = "(recording_env (\<lambda>_. 0) 0)\<lparr>se_devices := \<lambda>s. (1, Some [?x], s @ [Looked])\<rparr>"
  let ?u = "Some (replicate 37 0)"
  have g: "security_guards ?E ?u = NVM_SUCCESS" by (simp add: security_guards_def recording_env_def)
  have "exists_and_manageable (1, Some [?x]) ?u True = Some (NVM_SUCCESS, Some ?x)" by code_simp
  then have x: "exists_manageable_device ?E ?u [] = Some (NVM_SUCCESS, Some ?x, [Looked])"
    by (simp add: exists_manageable_device_def recording_env_def)
  have c: "passphrase_capable (disc_security_capabilities ?x)" "disc_lock_state ?x = LOCK_STATE_DISABLED"
    by (simp_all add: locked_device_def)
  have d: "check_passphrase (Some [65]) 1 = NVM_SUCCESS" by (simp add: check_passphrase_def NVM_PASSPHRASE_LEN_def)
  obtain rc s' where r: "nvm_erase_device ?E ?u (Some [65]) 1 [] = Some (rc, s')"
    using g x c d
    by (simp add: nvm_erase_device_def security_change_prepare_def check_lock_state_def)
  have "rc = NVM_ERR_SECURITYDISABLED" "s' = [] \<or> s' = [Looked]"
    using erase_needs_checks [OF r] x c g d by (auto simp: recording_env_def)
  then show ?thesis using r g x c d
    by (simp add: nvm_erase_device_def security_change_prepare_def check_lock_state_def)
qed

text \<open>
  After a command that removes the passphrase or erases, the cached devices are dropped whatever
  it answers; but when the device is unlocked first and the namespaces cannot be enumerated again, the
  call ends there, and the cache still holds the locked device.
\<close>

theorem unlocked_device_cached_as_locked:
  assumes "security_guards E device_uid = NVM_SUCCESS"
    and "exists_manageable_device E device_uid s = Some (NVM_SUCCESS, Some x, s1)"
    and "passphrase_capable (disc_security_capabilities x)"
    and "check_passphrase p n = NVM_SUCCESS" and "disc_lock_state x = LOCK_STATE_LOCKED"
    and "passphrase_command E x SUBOP_UNLOCK_UNIT p n s1 = Some (NVM_SUCCESS, s2)"
    and "se_reenumerate E (disc_handle x) s2 = (tmprc, s3)"
  shows "nvm_erase_device E device_uid p n s =
    (if tmprc = NVM_SUCCESS \<or> tmprc = NVM_ERR_NOTSUPPORTED
     then map_option (\<lambda>(rc, s4). (rc, se_invalidate E s4)) (secure_erase E p n x s3)
     else Some (NVM_ERR_NAMESPACEENABLEFAILED, s3))"
proof -
  have prep: "security_change_prepare E x p n s1 =
      Some (if tmprc \<noteq> NVM_ERR_NOTSUPPORTED \<and> tmprc \<noteq> NVM_SUCCESS then NVM_ERR_NAMESPACEENABLEFAILED else NVM_SUCCESS, s3)"
    using assms(4-7) by (simp add: security_change_prepare_def check_lock_state_def)
  show ?thesis
    using assms(1-4) prep
    by (cases "secure_erase E p n x s3") (auto simp: nvm_erase_device_def)
qed

theorem unlocked_device_cached_as_locked_witness:
  "nvm_erase_device (recording_env (\<lambda>_. 0) NVM_ERR_UNKNOWN) (Some (replicate 37 0)) (Some [65]) 1 [] =
   Some (NVM_ERR_NAMESPACEENABLEFAILED, [Looked, Sent SUBOP_UNLOCK_UNIT, Reenumerated])"
proof -
  let ?E = "recording_env (\<lambda>_. 0) NVM_ERR_UNKNOWN"
  have "cstr (take 1 [65 :: u8]) = [65]" by (simp add: cstr_def)
  then have pay: "passphrase_payload (Some [65]) 1 = Some (padded 128 [65])"
    using passphrase_payload_eq [of "[65]" 1] by (simp add: readable_def)
  have a: "security_guards ?E (Some (replicate 37 0)) = NVM_SUCCESS"
    by (simp add: security_guards_def recording_env_def)
  have "exists_and_manageable (1, Some [locked_device]) (Some (replicate 37 0)) True = Some (NVM_SUCCESS, Some locked_device)"
    by code_simp
  then have b: "exists_manageable_device ?E (Some (replicate 37 0)) [] = Some (NVM_SUCCESS, Some locked_device, [Looked])"
    by (simp add: exists_manageable_device_def recording_env_def)
  have c: "passphrase_capable (disc_security_capabilities locked_device)"
    "disc_lock_state locked_device = LOCK_STATE_LOCKED"
    by (simp_all add: locked_device_def)
  have d: "check_passphrase (Some [65]) 1 = NVM_SUCCESS" by (simp add: check_passphrase_def NVM_PASSPHRASE_LEN_def)
  have e: "passphrase_command ?E locked_device SUBOP_UNLOCK_UNIT (Some [65]) 1 [Looked] =
      Some (NVM_SUCCESS, [Looked, Sent SUBOP_UNLOCK_UNIT])"
    by (simp add: passphrase_command_def pay [unfolded One_nat_def] run_set_def recording_env_def with_input_def new_cmd_def)
  have f: "se_reenumerate ?E (disc_handle locked_device) [Looked, Sent SUBOP_UNLOCK_UNIT] =
      (NVM_ERR_UNKNOWN, [Looked, Sent SUBOP_UNLOCK_UNIT, Reenumerated])"
    by (simp add: recording_env_def)
  show ?thesis using unlocked_device_cached_as_locked [OF a b c(1) d c(2) e f] by simp
qed

end
