(* ===== verification/Sensors_Facts.thy ===== *)
theory Sensors_Facts
  imports Sensors
begin

text \<open>
  What the sensors promise: the array is well formed, a sensor that is read and written back leaves the
  firmware as it was, and what is shown when the thresholds cannot be read.
\<close>

unbundle bit_operations_syntax

section \<open>Well-formed arrays\<close>

lemma on_sensor_keeps:
  assumes "on_sensor i f ps = Some ps'" "\<And>x x'. f x = Some x' \<Longrightarrow> v x' = v x"
  shows "map v ps' = map v ps"
proof -
  from assms(1) obtain x' where "i < length ps" "f (ps ! i) = Some x'" "ps' = ps[i := x']"
    by (auto simp: on_sensor_def rd_eq_Some wr_eq_Some split: Option.bind_splits)
  then show ?thesis using assms(2) [of "ps ! i" x'] by (simp add: map_update list_update_same_conv)
qed

lemma sensor_steps_keep_type:
  "media_temperature_sensor h th x = Some x' \<Longrightarrow> sensor_type x' = sensor_type x"
  "spare_capacity_sensor h th x = Some x' \<Longrightarrow> sensor_type x' = sensor_type x"
  "wear_level_sensor p h x = Some x' \<Longrightarrow> sensor_type x' = sensor_type x"
  "vendor_data_sensor fd h x = Some x' \<Longrightarrow> sensor_type x' = sensor_type x"
  "controller_temperature_sensor h th x = Some x' \<Longrightarrow> sensor_type x' = sensor_type x"
  "health_sensor h x = Some x' \<Longrightarrow> sensor_type x' = sensor_type x"
  "set_units u x = Some x' \<Longrightarrow> sensor_type x' = sensor_type x"
  unfolding media_temperature_sensor_def spare_capacity_sensor_def wear_level_sensor_def vendor_data_sensor_def
    controller_temperature_sensor_def health_sensor_def set_units_def
  by (auto simp: Let_def split: if_splits Option.bind_splits)

lemma sensor_steps_keep_units:
  "media_temperature_sensor h th x = Some x' \<Longrightarrow> sensor_units x' = sensor_units x"
  "spare_capacity_sensor h th x = Some x' \<Longrightarrow> sensor_units x' = sensor_units x"
  "wear_level_sensor p h x = Some x' \<Longrightarrow> sensor_units x' = sensor_units x"
  "vendor_data_sensor fd h x = Some x' \<Longrightarrow> sensor_units x' = sensor_units x"
  "controller_temperature_sensor h th x = Some x' \<Longrightarrow> sensor_units x' = sensor_units x"
  "health_sensor h x = Some x' \<Longrightarrow> sensor_units x' = sensor_units x"
  unfolding media_temperature_sensor_def spare_capacity_sensor_def wear_level_sensor_def vendor_data_sensor_def
    controller_temperature_sensor_def health_sensor_def
  by (auto simp: Let_def split: if_splits Option.bind_splits)

definition shape :: "sensor \<Rightarrow> nat \<times> nat" where "shape x = (sensor_type x, sensor_units x)"

lemma on_sensor_shapes:
  "on_sensor i (media_temperature_sensor h th) ps = Some ps' \<Longrightarrow> map shape ps' = map shape ps"
  "on_sensor i (spare_capacity_sensor h th) ps = Some ps' \<Longrightarrow> map shape ps' = map shape ps"
  "on_sensor i (wear_level_sensor p h) ps = Some ps' \<Longrightarrow> map shape ps' = map shape ps"
  "on_sensor i (vendor_data_sensor fd h) ps = Some ps' \<Longrightarrow> map shape ps' = map shape ps"
  "on_sensor i (controller_temperature_sensor h th) ps = Some ps' \<Longrightarrow> map shape ps' = map shape ps"
  "on_sensor i (health_sensor h) ps = Some ps' \<Longrightarrow> map shape ps' = map shape ps"
  by (erule on_sensor_keeps, simp add: shape_def sensor_steps_keep_type sensor_steps_keep_units)+

lemma fill_keeps_shape:
  assumes "fill_smart_sensors p h th ps = Some ps'"
  shows "map shape ps' = map shape ps"
proof -
  from assms obtain s1 s2 s3 s4 s5 s6 s7 s8 where
    "on_sensor SENSOR_MEDIA_TEMPERATURE (media_temperature_sensor h th) ps = Some s1"
    "on_sensor SENSOR_SPARECAPACITY (spare_capacity_sensor h th) s1 = Some s2"
    "on_sensor SENSOR_WEARLEVEL (wear_level_sensor p h) s2 = Some s3"
    "on_sensor SENSOR_POWERCYCLES (vendor_data_sensor power_cycles h) s3 = Some s4"
    "on_sensor SENSOR_POWERONTIME (vendor_data_sensor power_on_seconds h) s4 = Some s5"
    "on_sensor SENSOR_UPTIME (vendor_data_sensor uptime h) s5 = Some s6"
    "on_sensor SENSOR_UNSAFESHUTDOWNS (vendor_data_sensor (\<lambda>h. ucast (unsafe_shutdowns h)) h) s6 = Some s7"
    "on_sensor SENSOR_CONTROLLER_TEMPERATURE (controller_temperature_sensor h th) s7 = Some s8"
    "on_sensor SENSOR_HEALTH (health_sensor h) s8 = Some ps'"
    unfolding fill_smart_sensors_def bind_eq_Some_conv by blast
  then show ?thesis by (simp only: on_sensor_shapes)
qed

lemma smart_log_keeps_shape:
  "get_smart_log_sensors E h ps t s = Some (rc, ps', s') \<Longrightarrow> map shape ps' = map shape ps"
  unfolding get_smart_log_sensors_def
  by (auto split: prod.splits if_splits Option.bind_splits dest!: fill_keeps_shape)

lemma fw_error_keeps_shape:
  "get_fw_error_log_sensors E h ps s = Some (rc, ps', s') \<Longrightarrow> map shape ps' = map shape ps"
  unfolding get_fw_error_log_sensors_def
  by (auto split: if_splits Option.bind_splits dest!: on_sensor_keeps [where v = shape] simp: shape_def)

definition unit_of :: "nat \<Rightarrow> nat" where
  "unit_of i = (if i \<ge> 10 then 0 else [UNIT_CELSIUS, UNIT_PERCENT, UNIT_PERCENT, UNIT_CYCLES, UNIT_SECONDS, UNIT_SECONDS,
     UNIT_COUNT, UNIT_COUNT, UNIT_CELSIUS, UNIT_COUNT] ! i)"

lemma on_sensor_units:
  "i < length ps \<Longrightarrow> on_sensor i (set_units u) ps = Some (ps[i := (ps ! i)\<lparr>sensor_units := u\<rparr>])"
  by (simp add: on_sensor_def set_units_def mem_simps)

text \<open>An initialised sensor that has not been read, and the category that fills an entry\<close>

definition initial_sensor :: "nat \<Rightarrow> sensor" where
  "initial_sensor i = zero_sensor\<lparr>sensor_type := i, sensor_units := unit_of i, current_state := SENSOR_NOT_INITIALIZED\<rparr>"

definition category_of :: "nat \<Rightarrow> u64" where
  "category_of i =
     (if i = SENSOR_FWERRORLOGCOUNT then SENSOR_CAT_FW_ERROR
      else if i < NVM_MAX_DEVICE_SENSORS then SENSOR_CAT_SMART_HEALTH else 0)"

lemma initialize_entries:
  assumes "10 \<le> count" "length ps = count"
  shows "\<exists>ps'. initialize_sensors ps count = Some ps' \<and> length ps' = count \<and>
    (\<forall>i < count. ps' ! i = initial_sensor i)"
proof -
  define xs where "xs = map (\<lambda>i. zero_sensor\<lparr>sensor_type := i, current_state := SENSOR_NOT_INITIALIZED\<rparr>) [0..<count]"
  have w: "wr_bytes ps 0 xs = Some xs" using assms by (simp add: wr_bytes_def xs_def)
  have l: "length xs = count" by (simp add: xs_def)
  have x: "xs ! i = zero_sensor\<lparr>sensor_type := i, current_state := SENSOR_NOT_INITIALIZED\<rparr>" if "i < count" for i
    using that by (simp add: xs_def)
  let ?u = "\<lambda>i. (xs ! i)\<lparr>sensor_units := unit_of i\<rparr>"
  have e: "initialize_sensors ps count = Some (xs[0 := ?u 0, 1 := ?u 1, 2 := ?u 2, 3 := ?u 3, 4 := ?u 4, 5 := ?u 5,
      6 := ?u 6, 7 := ?u 7, 8 := ?u 8, 9 := ?u 9])"
    unfolding initialize_sensors_def xs_def [symmetric] w
    using assms(1) l by (simp add: on_sensor_units unit_of_def)
  have "xs[0 := ?u 0, 1 := ?u 1, 2 := ?u 2, 3 := ?u 3, 4 := ?u 4, 5 := ?u 5, 6 := ?u 6, 7 := ?u 7, 8 := ?u 8,
      9 := ?u 9] ! i = initial_sensor i" if i: "i < count" for i
  proof (cases "i < 10")
    case True
    then have "i \<in> {0, 1, 2, 3, 4, 5, 6, 7, 8, 9}" by auto
    then show ?thesis using assms(1) l x [OF i] by (auto simp: nth_list_update initial_sensor_def)
  next
    case False
    then show ?thesis using x [OF i] by (simp add: nth_list_update initial_sensor_def unit_of_def zero_sensor_def)
  qed
  then show ?thesis using e l by simp
qed

lemma on_sensor_only:
  "on_sensor i f ps = Some ps' \<Longrightarrow> j \<noteq> i \<Longrightarrow> ps' ! j = ps ! j"
  by (auto simp: on_sensor_def wr_eq_Some split: Option.bind_splits)

text \<open>The SMART and health page fills all ten entries but one, the error logs that one.\<close>

lemma fill_only:
  assumes "fill_smart_sensors p h th ps = Some ps'" and "category_of j \<noteq> SENSOR_CAT_SMART_HEALTH"
  shows "ps' ! j = ps ! j"
proof -
  have n: "j \<notin> {SENSOR_MEDIA_TEMPERATURE, SENSOR_SPARECAPACITY, SENSOR_WEARLEVEL, SENSOR_POWERCYCLES, SENSOR_POWERONTIME,
      SENSOR_UPTIME, SENSOR_UNSAFESHUTDOWNS, SENSOR_CONTROLLER_TEMPERATURE, SENSOR_HEALTH}"
    using assms(2) by (intro notI) (auto simp: category_of_def NVM_MAX_DEVICE_SENSORS_def)
  from assms(1) obtain s1 s2 s3 s4 s5 s6 s7 s8 where
    "on_sensor SENSOR_MEDIA_TEMPERATURE (media_temperature_sensor h th) ps = Some s1"
    "on_sensor SENSOR_SPARECAPACITY (spare_capacity_sensor h th) s1 = Some s2"
    "on_sensor SENSOR_WEARLEVEL (wear_level_sensor p h) s2 = Some s3"
    "on_sensor SENSOR_POWERCYCLES (vendor_data_sensor power_cycles h) s3 = Some s4"
    "on_sensor SENSOR_POWERONTIME (vendor_data_sensor power_on_seconds h) s4 = Some s5"
    "on_sensor SENSOR_UPTIME (vendor_data_sensor uptime h) s5 = Some s6"
    "on_sensor SENSOR_UNSAFESHUTDOWNS (vendor_data_sensor (\<lambda>h. ucast (unsafe_shutdowns h)) h) s6 = Some s7"
    "on_sensor SENSOR_CONTROLLER_TEMPERATURE (controller_temperature_sensor h th) s7 = Some s8"
    "on_sensor SENSOR_HEALTH (health_sensor h) s8 = Some ps'"
    unfolding fill_smart_sensors_def bind_eq_Some_conv by blast
  note s = this [THEN on_sensor_only, of j]
  show ?thesis using n by (simp add: s)
qed

lemma smart_log_only:
  "get_smart_log_sensors E h ps t s = Some (rc, ps', s') \<Longrightarrow> category_of j \<noteq> SENSOR_CAT_SMART_HEALTH \<Longrightarrow>
   ps' ! j = ps ! j"
  unfolding get_smart_log_sensors_def
  by (auto split: prod.splits if_splits Option.bind_splits dest: fill_only)

lemma fw_error_only:
  "get_fw_error_log_sensors E h ps s = Some (rc, ps', s') \<Longrightarrow> category_of j \<noteq> SENSOR_CAT_FW_ERROR \<Longrightarrow>
   ps' ! j = ps ! j"
  unfolding get_fw_error_log_sensors_def
  by (auto simp: category_of_def split: if_splits Option.bind_splits dest: on_sensor_only)

lemma category_steps:
  assumes "get_sensors_by_category E x ps count categories thresholds s = Some (rc, ps', s')"
  shows "\<exists>s0. initialize_sensors ps count = Some s0 \<and> map shape ps' = map shape s0 \<and>
    (\<forall>j. categories AND category_of j = 0 \<longrightarrow> ps' ! j = s0 ! j) \<and>
    (categories AND SENSOR_CAT_SMART_HEALTH = 0 \<and> categories AND SENSOR_CAT_FW_ERROR = 0 \<longrightarrow>
       ps' = s0 \<and> s' = s \<and> rc = NVM_SUCCESS)"
proof -
  from assms obtain s0 r1 s1 d1 where
    i: "initialize_sensors ps count = Some s0" and
    a: "(if categories AND SENSOR_CAT_SMART_HEALTH \<noteq> 0 then do {
          (r, s1, d1) \<leftarrow> get_smart_log_sensors E (disc_handle x) s0
            ((ucast (thresholds AND SENSOR_CAT_SMART_HEALTH) :: u8) \<noteq> 0) s;
          Some (KEEP_ERROR NVM_SUCCESS r, s1, d1) }
        else Some (NVM_SUCCESS, s0, s)) = Some (r1, s1, d1)" and
    b: "(if categories AND SENSOR_CAT_FW_ERROR \<noteq> 0 then do {
       (r, s2, d2) \<leftarrow> get_fw_error_log_sensors E (disc_handle x) s1 d1;
       Some (KEEP_ERROR r1 r, s2, d2) }
     else Some (r1, s1, d1)) = Some (rc, ps', s')"
    unfolding get_sensors_by_category_def by (clarsimp simp: bind_eq_Some_conv)
  have "map shape s1 = map shape s0"
    using a by (cases "categories AND SENSOR_CAT_SMART_HEALTH \<noteq> 0")
      (auto simp: bind_eq_Some_conv dest: smart_log_keeps_shape)
  moreover have "map shape ps' = map shape s1"
    using b by (cases "categories AND SENSOR_CAT_FW_ERROR \<noteq> 0")
      (auto simp: bind_eq_Some_conv dest: fw_error_keeps_shape)
  ultimately have "map shape ps' = map shape s0" by simp
  moreover have "ps' ! j = s0 ! j" if j: "categories AND category_of j = 0" for j
  proof -
    have "s1 ! j = s0 ! j"
      using a j by (cases "categories AND SENSOR_CAT_SMART_HEALTH \<noteq> 0")
        (auto simp: bind_eq_Some_conv dest!: smart_log_only [where j = j])
    moreover have "ps' ! j = s1 ! j"
      using b j by (cases "categories AND SENSOR_CAT_FW_ERROR \<noteq> 0")
        (auto simp: bind_eq_Some_conv dest!: fw_error_only [where j = j])
    ultimately show ?thesis by simp
  qed
  moreover have "ps' = s0 \<and> s' = s \<and> rc = NVM_SUCCESS"
    if "categories AND SENSOR_CAT_SMART_HEALTH = 0 \<and> categories AND SENSOR_CAT_FW_ERROR = 0"
    using a b that by simp
  ultimately show ?thesis using i by blast
qed

text \<open>
  C16: For an array of at least ten sensors, whatever the firmware answers in payloads that are long enough to
  be read, entry \<open>i\<close> of the result has type \<open>i\<close>
  and the unit of that type, and an entry whose category is not asked for stays as it was initialised: the number of
  firmware errors unless the category of the error logs is asked for, the other nine unless that of the
  SMART and health page is, and the entries behind the ten always. With neither category no command is sent.
\<close>

theorem sensors_well_formed:
  assumes "get_sensors_by_category E x ps count categories thresholds s = Some (rc, ps', s')"
    and "NVM_MAX_DEVICE_SENSORS \<le> count" and "length ps = count"
  shows "length ps' = count \<and>
    (\<forall>i < count. sensor_type (ps' ! i) = i \<and> sensor_units (ps' ! i) = unit_of i \<and>
       (categories AND category_of i = 0 \<longrightarrow> ps' ! i = initial_sensor i)) \<and>
    (categories AND SENSOR_CAT_SMART_HEALTH = 0 \<and> categories AND SENSOR_CAT_FW_ERROR = 0 \<longrightarrow> s' = s)"
proof -
  from category_steps [OF assms(1)] obtain s0 where
    s0: "initialize_sensors ps count = Some s0" and sh: "map shape ps' = map shape s0" and
    kept: "\<forall>j. categories AND category_of j = 0 \<longrightarrow> ps' ! j = s0 ! j" and
    none: "categories AND SENSOR_CAT_SMART_HEALTH = 0 \<and> categories AND SENSOR_CAT_FW_ERROR = 0 \<longrightarrow>
       ps' = s0 \<and> s' = s \<and> rc = NVM_SUCCESS"
    by blast
  have "10 \<le> count" using assms(2) by (simp add: NVM_MAX_DEVICE_SENSORS_def)
  from initialize_entries [OF this assms(3)] s0 have
    l: "length s0 = count" and e: "\<forall>i < count. s0 ! i = initial_sensor i"
    by auto
  have l': "length ps' = count" using sh l by (metis length_map)
  have "shape (ps' ! i) = (i, unit_of i)" if "i < count" for i
  proof -
    have "shape (ps' ! i) = shape (s0 ! i)" using sh l l' that by (metis nth_map)
    then show ?thesis using e that by (simp add: shape_def initial_sensor_def)
  qed
  then show ?thesis using l' kept none e by (auto simp: shape_def)
qed

section \<open>Reading and writing thresholds\<close>

lemma wr16_same: "rd16 b off = Some v \<Longrightarrow> wr16 b off v = Some b"
proof -
  assume "rd16 b off = Some v"
  then have o: "off + 2 \<le> length b" and v: "v = word_of_nat (le_nat (take 2 (drop off b)))"
    by (auto simp: rd16_def rd_bytes_eq_Some)
  let ?w = "take 2 (drop off b)"
  have l: "length ?w = 2" using o by simp
  have "le_nat ?w < 2 ^ 16" using le_nat_bound [of ?w] l by simp
  then have "unat v = le_nat ?w" by (simp add: v unsigned_of_nat take_bit_nat_eq_self)
  then have "le_bytes 2 (unat v) = ?w" using le_bytes_le_nat [of ?w] l by simp
  moreover have "take off b @ ?w @ drop (off + 2) b = b" by (metis append_take_drop_id drop_drop add.commute)
  ultimately show ?thesis using o by (simp add: wr16_def wr_bytes_def)
qed

lemma set_enable_same:
  assumes "rd16 al 0 = Some en" "enabled \<longleftrightarrow> en AND 2 ^ k \<noteq> 0"
  shows "set_enable (2 ^ k) enabled al = Some al"
proof -
  have "en OR 2 ^ k = en" if "bit en k"
    by (rule bit_word_eqI) (use that in \<open>auto simp: bit_or_iff bit_exp_iff\<close>)
  moreover have "en AND NOT (2 ^ k) = en" if "\<not> bit en k"
    by (rule bit_word_eqI) (use that in \<open>auto simp: bit_and_iff bit_not_iff bit_exp_iff\<close>)
  ultimately show ?thesis
    using assms by (auto simp: set_enable_def wr16_same and_exp_eq_0_iff_not_bit)
qed

definition celsius_in_range :: "u16 \<Rightarrow> bool" where
  "celsius_in_range w \<longleftrightarrow> w < 0x8000 \<and> unat w * 625 < 2 ^ 24"

lemma celsius_trip:
  assumes "celsius_in_range w" "nvm_encode_temperature (fw_convert_fw_celsius_to_float w) = Some v"
  shows "fw_convert_float_to_fw_celsius (nvm_decode_temperature (ucast (ucast v :: u64))) = Some w"
proof -
  have "(ucast (ucast v :: u64) :: u32) = v" by (rule bit_word_eqI) (simp add: bit_simps)
  then show ?thesis using temperature_roundtrip [of w] assms by (auto simp: celsius_in_range_def)
qed

lemma thresholds_read:
  assumes "fw_get_id_dimm_device_characteristics pt l h d = (c, ch, d1)"
    and "fw_get_alarm_thresholds pt h d1 = (NVM_SUCCESS, al, d2)"
    and "get_sensor_thresholds pt l h d = Some (rc, th, d3)"
  shows "\<exists>en sp mt ct. rd16 al 0 = Some en \<and> rd al 2 = Some sp \<and> rd16 al 3 = Some mt \<and> rd16 al 5 = Some ct \<and>
    alarm_media_temp_threshold th = fw_convert_fw_celsius_to_float mt \<and>
    alarm_controller_temp_threshold th = fw_convert_fw_celsius_to_float ct \<and>
    alarm_spare_block_threshold th = sp \<and>
    is_media_alarm_threshold_enabled th = (en AND 2 \<noteq> 0) \<and>
    is_controller_alarm_threshold_enabled th = (en AND 4 \<noteq> 0) \<and>
    is_spare_alarm_threshold_enabled th = (en AND 1 \<noteq> 0)"
  using assms(3) unfolding get_sensor_thresholds_def assms(1,2) prod.case
  by (auto split: Option.bind_splits)

lemma media_settings:
  "media_temperature_sensor hh th x = Some x' \<Longrightarrow>
   \<exists>v. nvm_encode_temperature (alarm_media_temp_threshold th) = Some v \<and>
     upper_noncritical_threshold (settings x') = ucast v \<and>
     set_enabled (settings x') = is_media_alarm_threshold_enabled th"
  unfolding media_temperature_sensor_def by (auto simp: Let_def split: Option.bind_splits)

lemma controller_settings:
  "controller_temperature_sensor hh th x = Some x' \<Longrightarrow>
   \<exists>v. nvm_encode_temperature (alarm_controller_temp_threshold th) = Some v \<and>
     upper_noncritical_threshold (settings x') = ucast v \<and>
     set_enabled (settings x') = is_controller_alarm_threshold_enabled th"
  unfolding controller_temperature_sensor_def by (auto simp: Let_def split: Option.bind_splits)

lemma spare_settings:
  "spare_capacity_sensor hh th x = Some x' \<Longrightarrow>
   lower_noncritical_threshold (settings x') = ucast (alarm_spare_block_threshold th) \<and>
   set_enabled (settings x') = is_spare_alarm_threshold_enabled th"
  unfolding spare_capacity_sensor_def by (auto simp: Let_def)

text \<open>
  C19: The settings of a sensor, as they are read from the firmware, can be written back and change
  nothing: for the two temperatures if the threshold is not negative and below 1677 degrees, for the
  spare capacity if it is between 1 and 99 percent; a spare capacity that the firmware reports as 0 or as
  100 and more is refused when it is written back.
\<close>

theorem sensor_settings_roundtrip:
  assumes "fw_get_id_dimm_device_characteristics pt l h d = (c, ch, d1)"
    and "fw_get_alarm_thresholds pt h d1 = (NVM_SUCCESS, al, d2)"
    and "get_sensor_thresholds pt l h d = Some (rc, th, d3)"
  shows "(media_temperature_sensor hh th x = Some x1 \<and> (\<exists>w. rd16 al 3 = Some w \<and> celsius_in_range w) \<longrightarrow>
      change_alarm_thresholds SENSOR_MEDIA_TEMPERATURE (settings x1) al = Some (Inr al)) \<and>
    (controller_temperature_sensor hh th x = Some x2 \<and> (\<exists>w. rd16 al 5 = Some w \<and> celsius_in_range w) \<longrightarrow>
      change_alarm_thresholds SENSOR_CONTROLLER_TEMPERATURE (settings x2) al = Some (Inr al)) \<and>
    (spare_capacity_sensor hh th x = Some x3 \<longrightarrow>
      change_alarm_thresholds SENSOR_SPARECAPACITY (settings x3) al =
        Some (if 0 < al ! 2 \<and> al ! 2 < 100 then Inr al else Inl NVM_ERR_BADTHRESHOLD))"
proof (intro conjI impI; (elim conjE exE)?)
  from thresholds_read [OF assms] obtain en sp mt ct where
    r: "rd16 al 0 = Some en" "rd al 2 = Some sp" "rd16 al 3 = Some mt" "rd16 al 5 = Some ct" and
    m: "alarm_media_temp_threshold th = fw_convert_fw_celsius_to_float mt" and
    ct: "alarm_controller_temp_threshold th = fw_convert_fw_celsius_to_float ct" and
    sp: "alarm_spare_block_threshold th = sp" and
    en: "is_media_alarm_threshold_enabled th = (en AND 2 \<noteq> 0)"
      "is_controller_alarm_threshold_enabled th = (en AND 4 \<noteq> 0)"
      "is_spare_alarm_threshold_enabled th = (en AND 1 \<noteq> 0)"
    by blast
  have f: "set_enable 2 (en AND 2 \<noteq> 0) al = Some al" "set_enable 4 (en AND 4 \<noteq> 0) al = Some al"
    "set_enable 1 (en AND 1 \<noteq> 0) al = Some al"
    using set_enable_same [OF r(1), of "en AND 2 \<noteq> 0" 1] set_enable_same [OF r(1), of "en AND 4 \<noteq> 0" 2]
      set_enable_same [OF r(1), of "en AND 1 \<noteq> 0" 0] by simp_all
  {
    fix w assume "media_temperature_sensor hh th x = Some x1" and w: "rd16 al 3 = Some w" "celsius_in_range w"
    from media_settings [OF this(1)] obtain v where
      v: "nvm_encode_temperature (alarm_media_temp_threshold th) = Some v" and
      s: "upper_noncritical_threshold (settings x1) = ucast v"
        "set_enabled (settings x1) = is_media_alarm_threshold_enabled th"
      by blast
    have "w = mt" using w(1) r(3) by simp
    then show "change_alarm_thresholds SENSOR_MEDIA_TEMPERATURE (settings x1) al = Some (Inr al)"
      using celsius_trip [OF w(2), of v] v m f(1) en(1) wr16_same [OF r(3)] s
      by (simp add: change_alarm_thresholds_def)
  next
    fix w assume "controller_temperature_sensor hh th x = Some x2" and w: "rd16 al 5 = Some w" "celsius_in_range w"
    from controller_settings [OF this(1)] obtain v where
      v: "nvm_encode_temperature (alarm_controller_temp_threshold th) = Some v" and
      s: "upper_noncritical_threshold (settings x2) = ucast v"
        "set_enabled (settings x2) = is_controller_alarm_threshold_enabled th"
      by blast
    have "w = ct" using w(1) r(4) by simp
    then show "change_alarm_thresholds SENSOR_CONTROLLER_TEMPERATURE (settings x2) al = Some (Inr al)"
      using celsius_trip [OF w(2), of v] v ct f(2) en(2) wr16_same [OF r(4)] s
      by (simp add: change_alarm_thresholds_def)
  next
    assume "spare_capacity_sensor hh th x = Some x3"
    note s = spare_settings [OF this]
    have "unat sp < 2 ^ 64" using unsigned_less [of sp, where ?'a = nat] by simp
    then have u: "unat (ucast sp :: u64) = unat sp" by (simp add: unsigned_ucast_eq take_bit_nat_eq_self)
    have p: "0 < (ucast sp :: u64) \<longleftrightarrow> 0 < sp" "unat (ucast sp :: u64) < 100 \<longleftrightarrow> sp < 100"
      using u by (simp_all add: word_less_nat_alt)
    have b: "(ucast (ucast sp :: u64) :: u8) = sp" by (rule bit_word_eqI) (simp add: bit_simps)
    have al2: "al ! 2 = sp" "wr al 2 sp = Some al" using r(2) by (auto simp: rd_eq_Some wr_def)
    show "change_alarm_thresholds SENSOR_SPARECAPACITY (settings x3) al =
        Some (if 0 < al ! 2 \<and> al ! 2 < 100 then Inr al else Inl NVM_ERR_BADTHRESHOLD)"
      using s sp p b al2 f(3) en(3)
      by (simp add: change_alarm_thresholds_def LIMIT_SPARE_THRESHOLD_VALUE_def)
  }
qed

section \<open>Thresholds that cannot be read\<close>

lemma on_sensor_nth:
  "on_sensor i f ps = Some ps' \<Longrightarrow> f (ps ! i) = Some (ps' ! i) \<and> (\<forall>j. j \<noteq> i \<longrightarrow> ps' ! j = ps ! j)"
  by (auto simp: on_sensor_def rd_eq_Some wr_eq_Some split: Option.bind_splits)

lemma fill_media:
  assumes "fill_smart_sensors p h th ps = Some ps'"
  shows "media_temperature_sensor h th (ps ! 0) = Some (ps' ! 0)"
proof -
  from assms obtain s1 s2 s3 s4 s5 s6 s7 s8 where
    s: "on_sensor SENSOR_MEDIA_TEMPERATURE (media_temperature_sensor h th) ps = Some s1"
    "on_sensor SENSOR_SPARECAPACITY (spare_capacity_sensor h th) s1 = Some s2"
    "on_sensor SENSOR_WEARLEVEL (wear_level_sensor p h) s2 = Some s3"
    "on_sensor SENSOR_POWERCYCLES (vendor_data_sensor power_cycles h) s3 = Some s4"
    "on_sensor SENSOR_POWERONTIME (vendor_data_sensor power_on_seconds h) s4 = Some s5"
    "on_sensor SENSOR_UPTIME (vendor_data_sensor uptime h) s5 = Some s6"
    "on_sensor SENSOR_UNSAFESHUTDOWNS (vendor_data_sensor (\<lambda>h. ucast (unsafe_shutdowns h)) h) s6 = Some s7"
    "on_sensor SENSOR_CONTROLLER_TEMPERATURE (controller_temperature_sensor h th) s7 = Some s8"
    "on_sensor SENSOR_HEALTH (health_sensor h) s8 = Some ps'"
    unfolding fill_smart_sensors_def bind_eq_Some_conv by blast
  have "ps' ! 0 = s1 ! 0"
    using s(2-9) [THEN on_sensor_nth, THEN conjunct2, THEN spec [of _ 0]] by simp
  then show ?thesis using on_sensor_nth [OF s(1)] by simp
qed

lemma thresholds_unread:
  assumes "fw_get_id_dimm_device_characteristics pt l h d = (c, ch, d1)" "c < 0"
    and "get_sensor_thresholds pt l h d = Some (rc, th, d3)"
  shows "rc = c \<and> media_temp_shutdown th = 0"
  using assms unfolding get_sensor_thresholds_def
  by (auto simp: KEEP_ERROR_def zero_sensor_thresholds_def split: prod.splits Option.bind_splits if_splits)

text \<open>
  C37: If the temperatures at which a DIMM shuts down cannot be read, the call ends with that error, but
  the sensors are filled in all the same, against a limit of zero: every valid media temperature
  above zero is reported as fatal.
\<close>

theorem unread_thresholds_fatal:
  assumes "fw_get_smart_health (sn_ioctl E) h s = (NVM_SUCCESS, p, s1)"
    and "read_smart_health p = Some hh" and "media_temperature_field hh"
    and "0 < media_temperature hh" and "media_temperature hh < 0x8000"
    and "fw_get_id_dimm_device_characteristics (sn_ioctl E) (sn_local E) h s1 = (c, ch, s2)" and "c < 0"
    and "get_smart_log_sensors E h ps True s = Some (rc, ps', s')"
  shows "rc = c \<and> current_state (ps' ! SENSOR_MEDIA_TEMPERATURE) = SENSOR_FATAL"
proof -
  from assms(8) obtain trc th s3 where
    t: "get_sensor_thresholds (sn_ioctl E) (sn_local E) h s1 = Some (trc, th, s3)" and
    rc: "rc = KEEP_ERROR NVM_SUCCESS trc" and
    f: "fill_smart_sensors (sn_percent_used_threshold E) hh th ps = Some ps'"
    unfolding get_smart_log_sensors_def assms(1) prod.case
    using assms(2) by (auto simp: bind_eq_Some_conv)
  note u = thresholds_unread [OF assms(6,7) t]
  have n: "0 < unat (media_temperature hh)" "unat (media_temperature hh) < 2 ^ 15"
    using assms(4,5) by (simp_all add: word_less_nat_alt)
  then have "0 < fw_convert_fw_celsius_to_float (media_temperature hh)"
    unfolding fw_celsius_value by (simp del: of_nat_unat)
  then have "current_state (ps' ! SENSOR_MEDIA_TEMPERATURE) = SENSOR_FATAL"
    using fill_media [OF f] u assms(3)
    unfolding media_temperature_sensor_def
    by (auto simp: Let_def split: Option.bind_splits dest!: sym [of _ "ps' ! SENSOR_MEDIA_TEMPERATURE"])
  then show ?thesis using rc u by (simp add: KEEP_ERROR_def)
qed

section \<open>Examples\<close>

text \<open>A DIMM at 16 degrees with an alarm at 84 and 104 degrees and at 50 percent, all enabled.\<close>

definition alarm_page :: bytes where
  "alarm_page = [7, 0, 50, 0x40, 0x05, 0x80, 0x06] @ zeros 121"

definition sensor_driver :: "int \<Rightarrow> unit passthrough" where
  "sensor_driver limits d c =
     (if cmd_opcode c = PT_IDENTIFY_DIMM then (limits, zeros 8, [], ())
      else if cmd_opcode c = PT_GET_FEATURES then (0, alarm_page, [], ())
      else if cmd_sub_opcode c = SUBOP_SMART_HEALTH
      then (0, [8, 0, 0, 0, 0, 0, 0, 0, 0, 0, 0, 0, 0, 1] @ zeros 125, [], ())
      else (0, zeros 128, [], ()))"

definition sensor_example :: "int \<Rightarrow> unit sensor_env" where
  "sensor_example limits =
     \<lparr>sn_base = \<lparr>se_permitted = True, se_driver = True, se_feature = 0, se_devices = \<lambda>s. (0, None, s),
        se_ioctl = sensor_driver limits, se_reenumerate = \<lambda>h s. (0, s), se_invalidate = id, se_event = \<lambda>e s. s\<rparr>,
      sn_by_handle = \<lambda>h s. (0, None, s), sn_local = None, sn_percent_used_threshold = 90,
      sn_thresholds = zero_sensor_thresholds, sn_log_info = zeros 128, sn_type_arg = zeros 1024\<rparr>"

lemma sensor_driver_answers:
  "fw_get_smart_health (sensor_driver limits) h s =
     (0, [8, 0, 0, 0, 0, 0, 0, 0, 0, 0, 0, 0, 0, 1] @ zeros 125, ())"
  "fw_get_id_dimm_device_characteristics (sensor_driver limits) None h s = (limits, zeros 8, ())"
  "fw_get_alarm_thresholds (sensor_driver limits) h s = (0, alarm_page, ())"
  by (simp_all add: fw_get_smart_health_def fw_get_id_dimm_device_characteristics_def fw_get_alarm_thresholds_def
      run_get_def with_output_def new_cmd_def sensor_driver_def local_ioctl_passthrough_cmd_def)

definition example_thresholds :: sensor_thresholds where
  "example_thresholds = zero_sensor_thresholds\<lparr>
     alarm_media_temp_threshold := fw_convert_fw_celsius_to_float 0x540,
     alarm_controller_temp_threshold := fw_convert_fw_celsius_to_float 0x680, alarm_spare_block_threshold := 50,
     is_media_alarm_threshold_enabled := True, is_controller_alarm_threshold_enabled := True,
     is_spare_alarm_threshold_enabled := True\<rparr>"

lemma zero_celsius: "fw_convert_fw_celsius_to_float 0 = 0"
  by (simp add: fw_celsius_value)

lemma alarm_page_fields:
  "rd16 alarm_page 0 = Some 7" "rd alarm_page 2 = Some 50" "rd16 alarm_page 3 = Some 0x540" "rd16 alarm_page 5 = Some 0x680"
  "alarm_page ! 2 = 50"
  by code_simp+

lemma example_thresholds_read:
  "get_sensor_thresholds (sensor_driver limits) None h s = Some (KEEP_ERROR limits 0, example_thresholds, ())"
proof -
  have z: "rd16 (zeros 8) 2 = Some 0" "rd16 (zeros 8) 0 = Some 0" "rd16 (zeros 8) 4 = Some 0" "rd16 (zeros 8) 6 = Some 0"
    by code_simp+
  have "zero_sensor_thresholds\<lparr>media_temp_shutdown := 0, controller_temp_shutdown := 0, throttling_start := 0,
      throttling_stop := 0\<rparr> = zero_sensor_thresholds"
    by (simp add: zero_sensor_thresholds_def)
  then show ?thesis
    by (simp add: get_sensor_thresholds_def sensor_driver_answers z zero_celsius alarm_page_fields example_thresholds_def)
qed

lemma encode_defined: "celsius_in_range w \<Longrightarrow> \<exists>v. nvm_encode_temperature (fw_convert_fw_celsius_to_float w) = Some v"
  using temperature_roundtrip [of w] by (auto simp: celsius_in_range_def)

lemma example_in_range:
  "celsius_in_range 0" "celsius_in_range 0x100" "celsius_in_range 0x540" "celsius_in_range 0x680"
  by (simp_all add: celsius_in_range_def)

lemma example_sensors_defined:
  "media_temperature hh = 0x100 \<Longrightarrow> \<exists>x1. media_temperature_sensor hh example_thresholds x = Some x1"
  "\<not> sizeof_vendor_data_field hh \<Longrightarrow> \<exists>x2. controller_temperature_sensor hh example_thresholds x = Some x2"
  using encode_defined [OF example_in_range(1)] encode_defined [OF example_in_range(2)]
    encode_defined [OF example_in_range(3)] encode_defined [OF example_in_range(4)]
  by (auto simp: media_temperature_sensor_def controller_temperature_sensor_def example_thresholds_def
      zero_sensor_thresholds_def zero_celsius Let_def)

lemma on_sensor_defined:
  "i < length ps \<Longrightarrow> \<exists>x'. f (ps ! i) = Some x' \<Longrightarrow>
   \<exists>ps'. on_sensor i f ps = Some ps' \<and> length ps' = length ps \<and> (\<forall>j. j \<noteq> i \<longrightarrow> ps' ! j = ps ! j)"
  by (auto simp: on_sensor_def mem_simps)

lemma sensor_steps_total:
  "\<exists>x'. spare_capacity_sensor h th x = Some x'" "\<exists>x'. wear_level_sensor p h x = Some x'"
  "\<exists>x'. vendor_data_sensor fd h x = Some x'" "\<exists>x'. health_sensor h x = Some x'"
  by (simp_all add: spare_capacity_sensor_def wear_level_sensor_def vendor_data_sensor_def health_sensor_def Let_def)

lemma example_fill_defined:
  assumes "media_temperature hh = 0x100" "\<not> sizeof_vendor_data_field hh" "length ps = 10"
  shows "\<exists>ps'. fill_smart_sensors p hh example_thresholds ps = Some ps'"
proof -
  note d = on_sensor_defined and t = sensor_steps_total
  obtain s1 where s1: "on_sensor SENSOR_MEDIA_TEMPERATURE (media_temperature_sensor hh example_thresholds) ps = Some s1" "length s1 = 10"
    using d [of SENSOR_MEDIA_TEMPERATURE ps "media_temperature_sensor hh example_thresholds"] example_sensors_defined(1) [OF assms(1)] assms(3) by auto
  obtain s2 where s2: "on_sensor SENSOR_SPARECAPACITY (spare_capacity_sensor hh example_thresholds) s1 = Some s2" "length s2 = 10"
    using d [of SENSOR_SPARECAPACITY s1 "spare_capacity_sensor hh example_thresholds"] t(1) s1(2) by auto
  obtain s3 where s3: "on_sensor SENSOR_WEARLEVEL (wear_level_sensor p hh) s2 = Some s3" "length s3 = 10"
    using d [of SENSOR_WEARLEVEL s2 "wear_level_sensor p hh"] t(2) s2(2) by auto
  obtain s4 where s4: "on_sensor SENSOR_POWERCYCLES (vendor_data_sensor power_cycles hh) s3 = Some s4" "length s4 = 10"
    using d [of SENSOR_POWERCYCLES s3 "vendor_data_sensor power_cycles hh"] t(3) s3(2) by auto
  obtain s5 where s5: "on_sensor SENSOR_POWERONTIME (vendor_data_sensor power_on_seconds hh) s4 = Some s5" "length s5 = 10"
    using d [of SENSOR_POWERONTIME s4 "vendor_data_sensor power_on_seconds hh"] t(3) s4(2) by auto
  obtain s6 where s6: "on_sensor SENSOR_UPTIME (vendor_data_sensor uptime hh) s5 = Some s6" "length s6 = 10"
    using d [of SENSOR_UPTIME s5 "vendor_data_sensor uptime hh"] t(3) s5(2) by auto
  obtain s7 where s7: "on_sensor SENSOR_UNSAFESHUTDOWNS (vendor_data_sensor (\<lambda>h. ucast (unsafe_shutdowns h)) hh) s6 = Some s7" "length s7 = 10"
    using d [of SENSOR_UNSAFESHUTDOWNS s6 "vendor_data_sensor (\<lambda>h. ucast (unsafe_shutdowns h)) hh"] t(3) s6(2) by auto
  obtain s8 where s8: "on_sensor SENSOR_CONTROLLER_TEMPERATURE (controller_temperature_sensor hh example_thresholds) s7 = Some s8" "length s8 = 10"
    using d [of SENSOR_CONTROLLER_TEMPERATURE s7 "controller_temperature_sensor hh example_thresholds"] example_sensors_defined(2) [OF assms(2)] s7(2) by auto
  obtain s9 where s9: "on_sensor SENSOR_HEALTH (health_sensor hh) s8 = Some s9" "length s9 = 10"
    using d [of SENSOR_HEALTH s8 "health_sensor hh"] t(4) s8(2) by auto
  then show ?thesis unfolding fill_smart_sensors_def using s1 s2 s3 s4 s5 s6 s7 s8 s9 by (auto simp: bind_eq_Some_conv)
qed

theorem unread_thresholds_fatal_witness:
  "\<exists>ps'. get_smart_log_sensors (sensor_example (- 1)) 1 (replicate 10 zero_sensor) True () = Some (- 1, ps', ()) \<and>
     current_state (ps' ! SENSOR_MEDIA_TEMPERATURE) = SENSOR_FATAL"
proof -
  let ?p = "[8, 0, 0, 0, 0, 0, 0, 0, 0, 0, 0, 0, 0, 1] @ zeros 125 :: bytes"
  let ?hh = "\<lparr>validation_flags = 8, health_status = 0, spare = 0, percentage_used = 0, alarm_trips = 0,
    media_temperature = 0x100, controller_temperature = 0, power_cycles = 0, power_on_seconds = 0, uptime = 0,
    unsafe_shutdowns = 0\<rparr>"
  have e: "sn_ioctl (sensor_example (- 1)) = sensor_driver (- 1)" "sn_local (sensor_example (- 1)) = None"
    by (simp_all add: sensor_example_def)
  have h: "read_smart_health ?p = Some ?hh" by code_simp
  have f: "media_temperature_field ?hh" "\<not> sizeof_vendor_data_field ?hh" by code_simp+
  obtain ps' where "fill_smart_sensors (sn_percent_used_threshold (sensor_example (- 1))) ?hh example_thresholds
      (replicate 10 zero_sensor) = Some ps'"
    using example_fill_defined [of ?hh "replicate 10 zero_sensor"] f(2) by auto
  then have r: "get_smart_log_sensors (sensor_example (- 1)) 1 (replicate 10 zero_sensor) True () = Some (- 1, ps', ())"
    unfolding get_smart_log_sensors_def e sensor_driver_answers prod.case
    using h by (simp add: example_thresholds_read KEEP_ERROR_def)
  have "- 1 = (- 1 :: int) \<and> current_state (ps' ! SENSOR_MEDIA_TEMPERATURE) = SENSOR_FATAL"
    by (rule unread_thresholds_fatal [OF _ h f(1) _ _ _ _ r, where c = "- 1"])
      (simp_all add: e sensor_driver_answers)
  then show ?thesis using r by blast
qed

theorem sensor_settings_roundtrip_witness:
  "\<exists>(x1 :: sensor) (x2 :: sensor). change_alarm_thresholds SENSOR_MEDIA_TEMPERATURE (settings x1) alarm_page = Some (Inr alarm_page) \<and>
     change_alarm_thresholds SENSOR_CONTROLLER_TEMPERATURE (settings x2) alarm_page = Some (Inr alarm_page)"
proof -
  let ?hh = "\<lparr>validation_flags = 8, health_status = 0, spare = 0, percentage_used = 0, alarm_trips = 0,
    media_temperature = 0x100, controller_temperature = 0, power_cycles = 0, power_on_seconds = 0, uptime = 0,
    unsafe_shutdowns = 0\<rparr>"
  have "\<not> sizeof_vendor_data_field ?hh" by code_simp
  then obtain x1 x2 where x: "media_temperature_sensor ?hh example_thresholds zero_sensor = Some x1"
      "controller_temperature_sensor ?hh example_thresholds zero_sensor = Some x2"
    using example_sensors_defined(1) [of ?hh zero_sensor] example_sensors_defined(2) [of ?hh zero_sensor] by auto
  note t = sensor_settings_roundtrip [OF sensor_driver_answers(2) sensor_driver_answers(3) example_thresholds_read [of 0],
      where hh = ?hh and x = zero_sensor]
  have "change_alarm_thresholds SENSOR_MEDIA_TEMPERATURE (settings x1) alarm_page = Some (Inr alarm_page)"
    by (rule mp [OF t [THEN conjunct1]]) (use x alarm_page_fields(3) example_in_range(3) in blast)
  moreover have "change_alarm_thresholds SENSOR_CONTROLLER_TEMPERATURE (settings x2) alarm_page = Some (Inr alarm_page)"
    by (rule mp [OF t [THEN conjunct2, THEN conjunct1]]) (use x alarm_page_fields(4) example_in_range(4) in blast)
  ultimately show ?thesis by blast
qed

theorem sensors_well_formed_witness:
  "\<exists>ps'. get_sensors_by_category (sensor_example 0) zero_device_discovery (replicate 10 zero_sensor) 10 1 1 () =
     Some (0, ps', ()) \<and> sensor_type (ps' ! SENSOR_HEALTH) = SENSOR_HEALTH \<and>
     current_state (ps' ! SENSOR_FWERRORLOGCOUNT) = SENSOR_NOT_INITIALIZED"
proof -
  obtain s0 where i: "initialize_sensors (replicate 10 zero_sensor) 10 = Some s0" "length s0 = 10"
    using initialize_entries [of 10 "replicate 10 zero_sensor"] by auto
  let ?p = "[8, 0, 0, 0, 0, 0, 0, 0, 0, 0, 0, 0, 0, 1] @ zeros 125 :: bytes"
  let ?hh = "\<lparr>validation_flags = 8, health_status = 0, spare = 0, percentage_used = 0, alarm_trips = 0,
    media_temperature = 0x100, controller_temperature = 0, power_cycles = 0, power_on_seconds = 0, uptime = 0,
    unsafe_shutdowns = 0\<rparr>"
  have e: "sn_ioctl (sensor_example 0) = sensor_driver 0" "sn_local (sensor_example 0) = None"
    by (simp_all add: sensor_example_def)
  have h: "read_smart_health ?p = Some ?hh" by code_simp
  have f: "\<not> sizeof_vendor_data_field ?hh" by code_simp
  obtain ps' where "fill_smart_sensors (sn_percent_used_threshold (sensor_example 0)) ?hh example_thresholds s0 = Some ps'"
    using example_fill_defined [of ?hh s0] f i(2) by auto
  then have "get_smart_log_sensors (sensor_example 0) hd s0 True () = Some (0, ps', ())" for hd
    unfolding get_smart_log_sensors_def e sensor_driver_answers prod.case
    using h by (simp add: example_thresholds_read KEEP_ERROR_def)
  then have r: "get_sensors_by_category (sensor_example 0) zero_device_discovery (replicate 10 zero_sensor) 10 1 1 () =
      Some (0, ps', ())"
    by (simp add: get_sensors_by_category_def i KEEP_ERROR_def)
  have c: "(1 :: u64) AND category_of SENSOR_FWERRORLOGCOUNT = 0" by (simp add: category_of_def)
  show ?thesis using sensors_well_formed [OF r] r c by (auto simp: NVM_MAX_DEVICE_SENSORS_def initial_sensor_def)
qed

end
