(* ===== verification/Smbios.thy ===== *)
theory Smbios
  imports S_Str_Facts
begin

text \<open>
  The SMBIOS table walker of \<open>common/smbios/smbios.c\<close>. The table is a byte list \<open>m\<close> and a pointer
  into it is an index; \<open>None\<close> stands for \<open>NULL\<close>. Every function that takes the address
  \<open>p_remaining_length\<close> takes the value stored there and returns the updated value beside its
  result. The outer \<open>option\<close> is \<open>None\<close> when the C code reads outside the table.
\<close>

section \<open>Definitions\<close>

definition COMMON_ERR_INVALIDPARAMETER :: int where
  "COMMON_ERR_INVALIDPARAMETER = -39"

text \<open>\<open>sizeof (struct smbios_structure_header)\<close>; \<open>type\<close>, \<open>length\<close> and \<open>handle\<close> lie at offsets 0, 1
  and 2.\<close>

definition SMBIOS_HEADER_LEN :: nat where
  "SMBIOS_HEADER_LEN = 4"

fun smbios_end_loop :: "bytes \<Rightarrow> nat \<Rightarrow> nat \<Rightarrow> nat \<Rightarrow> (nat option \<times> nat) option" where
  "smbios_end_loop m p_byte 0 nulls_seen = Some (None, 0)"
| "smbios_end_loop m p_byte (Suc r) nulls_seen =
     (if nulls_seen = 2 then Some (Some p_byte, Suc r)
      else do {
        c \<leftarrow> rd m p_byte;
        smbios_end_loop m (Suc p_byte) r (if c = 0 then Suc nulls_seen else 0) })"

definition smbios_get_byte_after_end_of_string_list ::
    "bytes \<Rightarrow> nat \<Rightarrow> nat \<Rightarrow> (nat option \<times> nat) option" where
  "smbios_get_byte_after_end_of_string_list m p_strings remaining =
     smbios_end_loop m p_strings remaining 0"

definition smbios_get_next_structure ::
    "bytes \<Rightarrow> nat option \<Rightarrow> nat \<Rightarrow> (nat option \<times> nat) option" where
  "smbios_get_next_structure m p_current remaining =
     (case p_current of
        None \<Rightarrow> Some (None, remaining)
      | Some p \<Rightarrow>
          if remaining > 0 then do {
            len \<leftarrow> rd m (p + 1);
            if remaining \<ge> unat len
            then smbios_get_byte_after_end_of_string_list m (p + unat len) (remaining - unat len)
            else Some (None, 0) }
          else Some (None, remaining))"

lemma smbios_end_loop_bound:
  "smbios_end_loop m p r n = Some (q, r') \<Longrightarrow>
   (q = None \<longleftrightarrow> r' = 0) \<and> r' \<le> r \<and> (q = None \<or> n = 2 \<or> r' + (2 - n) \<le> r)"
proof (induction m p r n rule: smbios_end_loop.induct)
  case (1 m p n)
  then show ?case by simp
next
  case (2 m p r n)
  show ?case
  proof (cases "n = 2")
    case True
    then show ?thesis using 2(2) by auto
  next
    case False
    then obtain c where c: "rd m p = Some c"
      and e: "smbios_end_loop m (Suc p) r (if c = 0 then Suc n else 0) = Some (q, r')"
      using 2(2) by (cases "rd m p") auto
    show ?thesis
      using 2(1) [OF False c e] False by (auto split: if_splits)
  qed
qed

lemma smbios_next_bound:
  assumes "smbios_get_next_structure m (Some p) r = Some (q, r')" "r > 0"
  shows "(q = None \<longleftrightarrow> r' = 0) \<and> (q \<noteq> None \<longrightarrow> r' + 2 \<le> r)"
proof -
  obtain len where "rd m (p + 1) = Some len"
    using assms by (cases "rd m (p + 1)") (auto simp: smbios_get_next_structure_def)
  then show ?thesis
    using assms smbios_end_loop_bound [of m "p + unat len" "r - unat len" 0 q r']
    by (auto simp: smbios_get_next_structure_def smbios_get_byte_after_end_of_string_list_def
        split: if_splits)
qed

lemma smbios_next_dec:
  assumes "smbios_get_next_structure m (Some p) r = Some (Some q, r')"
  shows "r' < r"
proof (cases "r > 0")
  case True
  then show ?thesis using smbios_next_bound [OF assms] by simp
next
  case False
  then show ?thesis using assms by (simp add: smbios_get_next_structure_def)
qed

text \<open>The loop of \<open>smbios_get_next_structure_of_type\<close>. The branch in which a \<open>NULL\<close> pointer comes
  with bytes remaining, where the C loop would spin, does not arise (\<open>smbios_next_bound\<close>).\<close>

function smbios_next_of_type_loop ::
    "bytes \<Rightarrow> u8 \<Rightarrow> nat \<Rightarrow> nat \<Rightarrow> (nat option \<times> nat) option" where
  "smbios_next_of_type_loop m t p_next remaining =
     (if remaining > 0 then
        (case smbios_get_next_structure m (Some p_next) remaining of
           None \<Rightarrow> None
         | Some (None, r') \<Rightarrow> if r' > 0 then None else Some (None, r')
         | Some (Some q, r') \<Rightarrow>
             (case rd m q of
                None \<Rightarrow> None
              | Some c \<Rightarrow>
                  if c = t then Some (Some q, r') else smbios_next_of_type_loop m t q r'))
      else Some (Some p_next, remaining))"
  by pat_completeness auto
termination
  by (relation "measure (\<lambda>(m, t, p, r). r)") (auto dest!: smbios_next_dec)

definition smbios_get_next_structure_of_type ::
    "bytes \<Rightarrow> u8 \<Rightarrow> nat option \<Rightarrow> nat \<Rightarrow> (nat option \<times> nat) option" where
  "smbios_get_next_structure_of_type m t p_current remaining =
     (case p_current of
        None \<Rightarrow> Some (None, remaining)
      | Some p \<Rightarrow>
          if remaining > 0 then smbios_next_of_type_loop m t p remaining
          else Some (None, remaining))"

definition smbios_get_first_structure_of_type ::
    "bytes \<Rightarrow> u8 \<Rightarrow> nat option \<Rightarrow> nat \<Rightarrow> (nat option \<times> nat) option" where
  "smbios_get_first_structure_of_type m t p_current remaining =
     (case p_current of
        None \<Rightarrow> Some (None, remaining)
      | Some p \<Rightarrow>
          if remaining > SMBIOS_HEADER_LEN then do {
            c \<leftarrow> rd m p;
            if c = t then Some (Some p, remaining)
            else smbios_get_next_structure_of_type m t (Some p) remaining }
          else Some (None, remaining))"

function smbios_handle_loop ::
    "bytes \<Rightarrow> u16 \<Rightarrow> nat \<Rightarrow> nat \<Rightarrow> (nat option \<times> nat) option" where
  "smbios_handle_loop m h p_struct remaining =
     (case rd16 m (p_struct + 2) of
        None \<Rightarrow> None
      | Some h' \<Rightarrow>
          if h' = h then Some (Some p_struct, remaining)
          else
            (case smbios_get_next_structure m (Some p_struct) remaining of
               None \<Rightarrow> None
             | Some (None, r') \<Rightarrow> Some (None, r')
             | Some (Some q, r') \<Rightarrow>
                 if r' \<ge> SMBIOS_HEADER_LEN then smbios_handle_loop m h q r'
                 else Some (Some q, r')))"
  by pat_completeness auto
termination
  by (relation "measure (\<lambda>(m, h, p, r). r)") (auto dest!: smbios_next_dec)

definition smbios_get_structure_with_handle ::
    "bytes \<Rightarrow> u16 \<Rightarrow> nat option \<Rightarrow> nat \<Rightarrow> (nat option \<times> nat) option" where
  "smbios_get_structure_with_handle m h p_top remaining =
     (case p_top of
        None \<Rightarrow> Some (None, remaining)
      | Some p \<Rightarrow>
          if remaining \<ge> SMBIOS_HEADER_LEN then smbios_handle_loop m h p remaining
          else Some (None, remaining))"

fun smbios_next_string_loop :: "bytes \<Rightarrow> nat \<Rightarrow> bool \<Rightarrow> nat \<Rightarrow> nat option option" where
  "smbios_next_string_loop m p_cursor found_terminator 0 = Some None"
| "smbios_next_string_loop m p_cursor found_terminator (Suc r) = do {
     c \<leftarrow> rd m p_cursor;
     if found_terminator then Some (if c \<noteq> 0 then Some p_cursor else None)
     else smbios_next_string_loop m (Suc p_cursor) (c = 0) r }"

definition smbios_get_next_string :: "bytes \<Rightarrow> nat \<Rightarrow> nat \<Rightarrow> nat option option" where
  "smbios_get_next_string m p_current_str remaining =
     smbios_next_string_loop m p_current_str False remaining"

text \<open>The loop over the string number in \<open>smbios_get_structure_string\<close>: \<open>n\<close> counts the iterations
  left. The remaining length is passed on unchanged, as \<open>smbios_get_next_string\<close> leaves it.\<close>

fun smbios_string_loop :: "bytes \<Rightarrow> nat option \<Rightarrow> nat \<Rightarrow> nat \<Rightarrow> nat option option" where
  "smbios_string_loop m p_str remaining 0 = Some p_str"
| "smbios_string_loop m p_str remaining (Suc n) =
     (case p_str of
        None \<Rightarrow> Some None
      | Some p \<Rightarrow> do {
          p' \<leftarrow> smbios_get_next_string m p remaining;
          smbios_string_loop m p' remaining n })"

definition smbios_get_structure_string ::
    "bytes \<Rightarrow> nat option \<Rightarrow> nat \<Rightarrow> nat \<Rightarrow> nat option option" where
  "smbios_get_structure_string m p_structure data_length string_number =
     (case p_structure of
        None \<Rightarrow> Some None
      | Some p \<Rightarrow> do {
          len \<leftarrow> rd m (p + 1);
          if data_length > unat len \<and> string_number > 0 then do {
            let p_str = p + unat len;
            let remaining = data_length - unat len;
            c \<leftarrow> rd m p_str;
            first \<leftarrow> (if c = 0 then
                       (if remaining < 2 then Some None
                        else do {
                          d \<leftarrow> rd m (p_str + 1);
                          Some (if d = 0 then None else Some p_str) })
                     else Some (Some p_str));
            smbios_string_loop m first remaining (string_number - 1) }
          else Some None })"

definition smbios_copy_structure_string_to_buffer ::
    "bytes \<Rightarrow> nat option \<Rightarrow> nat \<Rightarrow> nat \<Rightarrow> bytes option \<Rightarrow> nat \<Rightarrow> bytes option option" where
  "smbios_copy_structure_string_to_buffer m p_structure data_length string_number p_buf buf_length =
     (case p_buf of
        None \<Rightarrow> Some None
      | Some buf \<Rightarrow>
          if buf_length > 0 then do {
            buf0 \<leftarrow> wr_bytes buf 0 (replicate buf_length 0);
            p_str \<leftarrow> smbios_get_structure_string m p_structure data_length string_number;
            (case p_str of
               None \<Rightarrow> Some (Some buf0)
             | Some p \<Rightarrow> do {
                 (buf1, _) \<leftarrow> s_strcpy (Some buf0) (Some (drop p m)) buf_length;
                 Some buf1 }) }
          else Some (Some buf))"

lemma smbios_next_of_type_loop_bound:
  "smbios_next_of_type_loop m t p r = Some (Some q, r') \<Longrightarrow> r > 0 \<Longrightarrow> r' < r"
proof (induction m t p r rule: smbios_next_of_type_loop.induct)
  case (1 m t p r)
  obtain z s where e: "smbios_get_next_structure m (Some p) r = Some (Some z, s)"
    using 1(2,3) smbios_next_of_type_loop.simps [of m t p r]
    by (auto split: option.splits if_splits prod.splits)
  obtain c where c: "rd m z = Some c"
    using 1(2,3) smbios_next_of_type_loop.simps [of m t p r] e
    by (cases "rd m z") auto
  have d: "(if c = t then Some (Some z, s) else smbios_next_of_type_loop m t z s) = Some (Some q, r')"
    using 1(2,3) smbios_next_of_type_loop.simps [of m t p r] e c by auto
  have s: "s > 0 \<and> s < r"
    using smbios_next_bound [OF e 1(3)] by auto
  show ?case
  proof (cases "c = t")
    case True
    then show ?thesis using d s by simp
  next
    case False
    then have "smbios_next_of_type_loop m t z s = Some (Some q, r')" using d by simp
    then have "r' < s" using 1(1) [OF 1(3) e refl refl c False] s by simp
    then show ?thesis using s by simp
  qed
qed

lemma smbios_next_of_type_dec:
  "smbios_get_next_structure_of_type m t (Some p) r = Some (Some q, r') \<Longrightarrow> r' < r"
  using smbios_next_of_type_loop_bound [of m t p r q r']
  by (auto simp: smbios_get_next_structure_of_type_def split: if_splits)

function smbios_count_loop :: "bytes \<Rightarrow> u8 \<Rightarrow> nat \<Rightarrow> nat \<Rightarrow> int \<Rightarrow> int option" where
  "smbios_count_loop m t p_current remaining cnt =
     (case smbios_get_next_structure_of_type m t (Some p_current) remaining of
        None \<Rightarrow> None
      | Some (None, r') \<Rightarrow> Some (cnt + 1)
      | Some (Some q, r') \<Rightarrow> smbios_count_loop m t q r' (cnt + 1))"
  by pat_completeness auto
termination
  by (relation "measure (\<lambda>(m, t, p, r, c). r)") (auto dest!: smbios_next_of_type_dec)

definition smbios_get_structure_count_of_type ::
    "bytes \<Rightarrow> u8 \<Rightarrow> nat option \<Rightarrow> nat \<Rightarrow> int option" where
  "smbios_get_structure_count_of_type m t p_top data_length =
     (case p_top of
        None \<Rightarrow> Some COMMON_ERR_INVALIDPARAMETER
      | Some p \<Rightarrow>
          if data_length \<ge> SMBIOS_HEADER_LEN then do {
            (p_current, remaining) \<leftarrow> smbios_get_first_structure_of_type m t (Some p) data_length;
            (case p_current of
               None \<Rightarrow> Some 0
             | Some q \<Rightarrow> smbios_count_loop m t q remaining 0) }
          else Some COMMON_ERR_INVALIDPARAMETER)"

declare smbios_next_of_type_loop.simps [simp del] smbios_handle_loop.simps [simp del]
  smbios_count_loop.simps [simp del]

section \<open>Reference encoding\<close>

text \<open>A structure as the DMTF specification describes it: the formatted area of at most 255 bytes
  with its header, and the list of strings behind it, closed by two zero bytes.\<close>

record smbios_struct =
  sm_type :: u8
  sm_handle :: u16
  sm_body :: bytes
  sm_strings :: "bytes list"

definition wf_smbios :: "smbios_struct \<Rightarrow> bool" where
  "wf_smbios s \<longleftrightarrow> 4 + length (sm_body s) < 256 \<and> (\<forall>w \<in> set (sm_strings s). w \<noteq> [] \<and> 0 \<notin> set w)"

fun enc_strings :: "bytes list \<Rightarrow> bytes" where
  "enc_strings [] = [0]"
| "enc_strings (w # ws) = w @ 0 # enc_strings ws"

definition enc_string_list :: "bytes list \<Rightarrow> bytes" where
  "enc_string_list ws = (if ws = [] then [0, 0] else enc_strings ws)"

definition enc_smbios :: "smbios_struct \<Rightarrow> bytes" where
  "enc_smbios s =
     sm_type s # word_of_nat (4 + length (sm_body s)) # le_bytes 2 (unat (sm_handle s)) @
     sm_body s @ enc_string_list (sm_strings s)"

definition enc_table :: "smbios_struct list \<Rightarrow> bytes" where
  "enc_table ss = concat (map enc_smbios ss)"

lemma enc_table_simps [simp]:
  "enc_table [] = []" "enc_table (s # ss) = enc_smbios s @ enc_table ss"
  by (auto simp: enc_table_def)

lemma enc_smbios_neq_Nil [simp]: "enc_smbios s \<noteq> []"
  by (simp add: enc_smbios_def)

lemma enc_table_eq_Nil [simp]: "enc_table ss = [] \<longleftrightarrow> ss = []"
  by (cases ss) auto

lemma length_enc_strings_pos: "enc_strings ws \<noteq> []"
  by (cases ws) auto

lemma length_enc_smbios: "6 \<le> length (enc_smbios s)"
proof -
  have "2 \<le> length (enc_string_list (sm_strings s))" if "\<forall>w \<in> set (sm_strings s). True"
    using length_enc_strings_pos
    by (cases "sm_strings s") (auto simp: enc_string_list_def Suc_le_eq)
  then show ?thesis by (simp add: enc_smbios_def)
qed

lemma length_enc_table: "ss \<noteq> [] \<Longrightarrow> 6 \<le> length (enc_table ss)"
  using length_enc_smbios by (cases ss) (auto intro: trans_le_add1)

section \<open>Walking an encoded table\<close>

lemma smbios_end_word:
  assumes "0 \<notin> set w" and "w \<noteq> []" and "drop p m = w @ 0 # xs" and "n < 2"
  shows "smbios_end_loop m p (length w + Suc r) n = smbios_end_loop m (p + Suc (length w)) r 1"
  using assms
proof (induction w arbitrary: p n)
  case Nil
  then show ?case by simp
next
  case (Cons c w)
  have c: "rd m p = Some c" "drop (Suc p) m = w @ 0 # xs" "c \<noteq> 0"
    using rd_drop [of p m c "w @ 0 # xs"] Cons.prems by auto
  show ?case
  proof (cases "w = []")
    case True
    then have "rd m (Suc p) = Some 0" using rd_drop [of "Suc p" m 0 xs] c by simp
    then show ?thesis using True c Cons.prems by simp
  next
    case False
    have "smbios_end_loop m (Suc p) (length w + Suc r) 0 =
          smbios_end_loop m (Suc p + Suc (length w)) r 1"
      by (rule Cons.IH) (use Cons.prems c False in auto)
    then show ?thesis using c Cons.prems by simp
  qed
qed

lemma smbios_end_strings:
  assumes "\<forall>w \<in> set ws. w \<noteq> [] \<and> 0 \<notin> set w" and "n = 1 \<or> n = 0 \<and> ws \<noteq> []"
    and "drop p m = enc_strings ws @ xs"
  shows "smbios_end_loop m p (length (enc_strings ws) + r) n =
         smbios_end_loop m (p + length (enc_strings ws)) r 2"
  using assms
proof (induction ws arbitrary: p n)
  case Nil
  then have "rd m p = Some 0" using rd_drop [of p m 0 xs] by simp
  then show ?case using Nil by (simp add: numeral_2_eq_2)
next
  case (Cons w ws)
  have d: "drop p m = w @ 0 # (enc_strings ws @ xs)" using Cons.prems by simp
  have d2: "drop (p + Suc (length w)) m = enc_strings ws @ xs"
    using drop_append_at [of p m "w @ [0]"] d by simp
  have "smbios_end_loop m p (length w + Suc (length (enc_strings ws) + r)) n =
        smbios_end_loop m (p + Suc (length w)) (length (enc_strings ws) + r) 1"
    by (rule smbios_end_word) (use Cons.prems d in auto)
  also have "\<dots> = smbios_end_loop m (p + Suc (length w) + length (enc_strings ws)) r 2"
    by (rule Cons.IH) (use Cons.prems d2 in auto)
  finally show ?case by (simp add: add.assoc)
qed

lemma smbios_end_list:
  assumes "\<forall>w \<in> set ws. w \<noteq> [] \<and> 0 \<notin> set w" and "drop p m = enc_string_list ws @ xs"
  shows "smbios_get_byte_after_end_of_string_list m p (length (enc_string_list ws @ xs)) =
         Some (if xs = [] then None else Some (p + length (enc_string_list ws)), length xs)"
proof -
  have "smbios_end_loop m p (length (enc_string_list ws) + length xs) 0 =
        smbios_end_loop m (p + length (enc_string_list ws)) (length xs) 2"
  proof (cases "ws = []")
    case True
    then have "drop p m = 0 # 0 # xs" using assms by (simp add: enc_string_list_def)
    then have "rd m p = Some 0" "rd m (Suc p) = Some 0"
      using rd_drop [of p m 0 "0 # xs"] rd_drop [of "Suc p" m 0 xs] by auto
    then show ?thesis using True by (simp add: enc_string_list_def numeral_2_eq_2)
  next
    case False
    then show ?thesis
      using smbios_end_strings [of ws 0 p m xs "length xs"] assms by (simp add: enc_string_list_def)
  qed
  then show ?thesis
    by (cases xs) (auto simp: smbios_get_byte_after_end_of_string_list_def)
qed

lemma enc_smbios_fields:
  assumes "drop p m = enc_smbios s @ xs" and "wf_smbios s"
  shows "rd m p = Some (sm_type s)" and "rd m (Suc p) = Some (word_of_nat (4 + length (sm_body s)))"
    and "rd16 m (p + 2) = Some (sm_handle s)"
    and "unat (word_of_nat (4 + length (sm_body s)) :: u8) = 4 + length (sm_body s)"
    and "drop (p + (4 + length (sm_body s))) m = enc_string_list (sm_strings s) @ xs"
proof -
  let ?h = "le_bytes 2 (unat (sm_handle s))"
  let ?r = "sm_body s @ enc_string_list (sm_strings s) @ xs"
  have d: "drop p m = sm_type s # word_of_nat (4 + length (sm_body s)) # ?h @ ?r"
    using assms by (simp add: enc_smbios_def)
  show "rd m p = Some (sm_type s)" using rd_drop [OF d] by simp
  have d1: "drop (Suc p) m = word_of_nat (4 + length (sm_body s)) # ?h @ ?r"
    using rd_drop [OF d] by simp
  show "rd m (Suc p) = Some (word_of_nat (4 + length (sm_body s)))" using rd_drop [OF d1] by simp
  have d2: "drop (p + 2) m = ?h @ ?r" using rd_drop [OF d1] by simp
  have "length (drop (p + 2) m) = 2 + length ?r" using d2 by simp
  then have "p + 2 + 2 \<le> length m" by simp
  then have "rd16 m (p + 2) = Some (word_of_nat (le_nat ?h))"
    using d2 by (simp add: rd16_def rd_bytes_in)
  moreover have "unat (sm_handle s) < 65536" using unsigned_less [of "sm_handle s"] by simp
  then have "le_nat ?h = unat (sm_handle s)" by simp
  ultimately show "rd16 m (p + 2) = Some (sm_handle s)" by simp
  show "unat (word_of_nat (4 + length (sm_body s)) :: u8) = 4 + length (sm_body s)"
    using assms(2) unat_byte_of_nat [of "4 + length (sm_body s)"] by (simp add: wf_smbios_def)
  have "drop (p + 2 + length ?h + length (sm_body s)) m = enc_string_list (sm_strings s) @ xs"
    by (rule drop_append_at, rule drop_append_at [OF d2])
  moreover have "p + 2 + length ?h + length (sm_body s) = p + (4 + length (sm_body s))" by simp
  ultimately show "drop (p + (4 + length (sm_body s))) m = enc_string_list (sm_strings s) @ xs"
    by metis
qed

lemma smbios_next_enc:
  assumes "drop p m = enc_smbios s @ xs" and "wf_smbios s"
  shows "smbios_get_next_structure m (Some p) (length (enc_smbios s @ xs)) =
         Some (if xs = [] then None else Some (p + length (enc_smbios s)), length xs)"
proof -
  note f = enc_smbios_fields [OF assms]
  let ?l = "4 + length (sm_body s)"
  have len: "length (enc_smbios s) = ?l + length (enc_string_list (sm_strings s))"
    by (simp add: enc_smbios_def)
  have "smbios_get_next_structure m (Some p) (length (enc_smbios s @ xs)) =
        smbios_get_byte_after_end_of_string_list m (p + ?l) (length (enc_string_list (sm_strings s) @ xs))"
    using f(2,4) len by (simp add: smbios_get_next_structure_def)
  also have "\<dots> = Some (if xs = [] then None
      else Some (p + ?l + length (enc_string_list (sm_strings s))), length xs)"
    by (rule smbios_end_list) (use f(5) assms(2) in \<open>auto simp: wf_smbios_def\<close>)
  finally show ?thesis using len by (simp add: add.assoc)
qed

definition table_at :: "bytes \<Rightarrow> smbios_struct list \<Rightarrow> nat" where
  "table_at m ss = length m - length (enc_table ss)"

definition seek :: "('a \<Rightarrow> bool) \<Rightarrow> 'a list \<Rightarrow> 'a list" where
  "seek P = dropWhile (\<lambda>x. \<not> P x)"

definition found_at :: "bytes \<Rightarrow> smbios_struct list \<Rightarrow> nat option \<times> nat" where
  "found_at m ss = (if ss = [] then None else Some (table_at m ss), length (enc_table ss))"

lemma table_at_drop:
  "drop p m = enc_table ss \<Longrightarrow> ss \<noteq> [] \<Longrightarrow> table_at m ss = p"
  using length_enc_table [of ss] length_drop [of p m] by (simp add: table_at_def)

lemma smbios_next_table:
  assumes "drop p m = enc_table (s # ss)" and "wf_smbios s"
  shows "smbios_get_next_structure m (Some p) (length (enc_table (s # ss))) = Some (found_at m ss)"
    and "drop (p + length (enc_smbios s)) m = enc_table ss"
proof -
  show d: "drop (p + length (enc_smbios s)) m = enc_table ss"
    using drop_append_at [of p m "enc_smbios s"] assms by simp
  show "smbios_get_next_structure m (Some p) (length (enc_table (s # ss))) = Some (found_at m ss)"
    using smbios_next_enc [of p m s "enc_table ss"] assms table_at_drop [OF d]
    by (cases "ss = []") (auto simp: found_at_def)
qed

lemma smbios_next_of_type_table:
  assumes "drop p m = enc_table (s # ss)" and "\<forall>x \<in> set (s # ss). wf_smbios x"
  shows "smbios_next_of_type_loop m t p (length (enc_table (s # ss))) =
         Some (found_at m (seek (\<lambda>x. sm_type x = t) ss))"
  using assms
proof (induction ss arbitrary: p s)
  case Nil
  then show ?case
    using smbios_next_table(1) [of p m s "[]"] length_enc_smbios [of s]
    by (subst smbios_next_of_type_loop.simps) (auto simp: found_at_def seek_def)
next
  case (Cons s' ss)
  let ?q = "p + length (enc_smbios s)"
  have d: "drop ?q m = enc_table (s' # ss)"
    using smbios_next_table(2) [OF Cons.prems(1)] Cons.prems(2) by auto
  have n: "smbios_get_next_structure m (Some p) (length (enc_table (s # s' # ss))) =
           Some (Some ?q, length (enc_table (s' # ss)))"
    using smbios_next_table(1) [OF Cons.prems(1)] Cons.prems(2) table_at_drop [OF d]
    by (simp add: found_at_def)
  have r: "rd m ?q = Some (sm_type s')"
    using enc_smbios_fields(1) [of ?q m s' "enc_table ss"] d Cons.prems(2) by simp
  have pos: "0 < length (enc_table (s # s' # ss))" using length_enc_smbios [of s] by simp
  show ?case
  proof (cases "sm_type s' = t")
    case True
    then show ?thesis
      using n r pos table_at_drop [OF d]
      by (subst smbios_next_of_type_loop.simps) (simp add: found_at_def seek_def)
  next
    case False
    have "smbios_next_of_type_loop m t ?q (length (enc_table (s' # ss))) =
          Some (found_at m (seek (\<lambda>x. sm_type x = t) ss))"
      by (rule Cons.IH) (use d Cons.prems in auto)
    then show ?thesis
      using n r pos False
      by (subst smbios_next_of_type_loop.simps) (simp add: seek_def)
  qed
qed


section \<open>Results of the walker on an encoded table\<close>

lemma seek_Nil_iff: "seek P xs = [] \<longleftrightarrow> filter P xs = []"
  by (induction xs) (auto simp: seek_def)

lemma seek_Cons_filter: "seek P xs = y # ys \<Longrightarrow> filter P xs = y # filter P ys \<and> length ys < length xs"
  by (induction xs) (auto simp: seek_def split: if_splits)

lemma seek_suffix: "\<exists>zs. xs = zs @ seek P xs"
  unfolding seek_def using takeWhile_dropWhile_id by metis

lemma seek_at:
  assumes "drop p m = enc_table ss" and "seek P ss = y # ys"
  shows "drop (table_at m (y # ys)) m = enc_table (y # ys)"
proof -
  obtain zs where "ss = zs @ y # ys" using seek_suffix [of ss P] assms(2) by auto
  then have "drop p m = enc_table zs @ enc_table (y # ys)"
    using assms(1) by (simp add: enc_table_def)
  then have d: "drop (p + length (enc_table zs)) m = enc_table (y # ys)"
    by (rule drop_append_at)
  show ?thesis using table_at_drop [OF d] d by simp
qed

lemma smbios_first_table:
  assumes "ss \<noteq> []" and "drop p m = enc_table ss" and "\<forall>x \<in> set ss. wf_smbios x"
  shows "smbios_get_first_structure_of_type m t (Some p) (length (enc_table ss)) =
         Some (found_at m (seek (\<lambda>x. sm_type x = t) ss))"
proof -
  obtain s ss' where ss: "ss = s # ss'" using assms(1) by (cases ss) auto
  have r: "rd m p = Some (sm_type s)"
    using enc_smbios_fields(1) [of p m s "enc_table ss'"] assms ss by simp
  have pos: "SMBIOS_HEADER_LEN < length (enc_table ss)"
    using length_enc_table [OF assms(1)] by (simp add: SMBIOS_HEADER_LEN_def)
  have pos2: "0 < length (enc_table ss)" using assms(1) by simp
  show ?thesis
  proof (cases "sm_type s = t")
    case True
    then show ?thesis
      using r pos table_at_drop [OF assms(2,1)]
      by (simp add: smbios_get_first_structure_of_type_def found_at_def seek_def ss)
  next
    case False
    have "smbios_next_of_type_loop m t p (length (enc_table ss)) =
          Some (found_at m (seek (\<lambda>x. sm_type x = t) ss'))"
      using smbios_next_of_type_table [of p m s ss' t] assms ss by simp
    then show ?thesis
      using r pos pos2 False
      by (simp add: smbios_get_first_structure_of_type_def smbios_get_next_structure_of_type_def
          seek_def ss)
  qed
qed

lemma smbios_count_table:
  assumes "drop p m = enc_table (s # ss)" and "\<forall>x \<in> set (s # ss). wf_smbios x"
  shows "smbios_count_loop m t p (length (enc_table (s # ss))) cnt =
         Some (cnt + 1 + int (length (filter (\<lambda>x. sm_type x = t) ss)))"
  using assms
proof (induction "length ss" arbitrary: p s ss cnt rule: less_induct)
  case less
  let ?P = "\<lambda>x. sm_type x = t"
  have pos: "0 < length (enc_table (s # ss))" using length_enc_smbios [of s] by simp
  have n: "smbios_get_next_structure_of_type m t (Some p) (length (enc_table (s # ss))) =
           Some (found_at m (seek ?P ss))"
    using smbios_next_of_type_table [OF less.prems] pos
    by (simp add: smbios_get_next_structure_of_type_def)
  show ?case
  proof (cases "seek ?P ss")
    case Nil
    then have "filter ?P ss = []" using seek_Nil_iff by metis
    then show ?thesis using n Nil
      by (subst smbios_count_loop.simps) (simp add: found_at_def)
  next
    case (Cons y ys)
    note f = seek_Cons_filter [OF Cons]
    have wf: "\<forall>x \<in> set (y # ys). wf_smbios x"
      using seek_suffix [of ss ?P] less.prems(2) Cons by (metis Un_iff set_append list.set_intros(2))
    have d0: "drop (p + length (enc_smbios s)) m = enc_table ss"
      using smbios_next_table(2) [OF less.prems(1)] less.prems(2) by simp
    have "smbios_count_loop m t (table_at m (y # ys)) (length (enc_table (y # ys))) (cnt + 1) =
          Some (cnt + 1 + 1 + int (length (filter ?P ys)))"
      by (rule less.hyps) (use f seek_at [OF d0 Cons] wf in auto)
    then show ?thesis using n Cons f
      by (subst smbios_count_loop.simps) (simp add: found_at_def)
  qed
qed

lemma smbios_handle_table:
  assumes "drop p m = enc_table (s # ss)" and "\<forall>x \<in> set (s # ss). wf_smbios x"
  shows "smbios_handle_loop m h p (length (enc_table (s # ss))) =
         Some (found_at m (seek (\<lambda>x. sm_handle x = h) (s # ss)))"
  using assms
proof (induction ss arbitrary: p s)
  case Nil
  have "rd16 m (p + 2) = Some (sm_handle s)"
    using enc_smbios_fields(3) [of p m s "[]"] Nil by simp
  moreover have "table_at m [s] = p" using table_at_drop [OF Nil(1)] by simp
  ultimately show ?case
    using smbios_next_table(1) [OF Nil(1)] Nil(2)
    by (subst smbios_handle_loop.simps) (simp add: found_at_def seek_def)
next
  case (Cons s' ss)
  let ?q = "p + length (enc_smbios s)"
  have d: "drop ?q m = enc_table (s' # ss)"
    using smbios_next_table(2) [OF Cons.prems(1)] Cons.prems(2) by auto
  have n: "smbios_get_next_structure m (Some p) (length (enc_table (s # s' # ss))) =
           Some (Some ?q, length (enc_table (s' # ss)))"
    using smbios_next_table(1) [OF Cons.prems(1)] Cons.prems(2) table_at_drop [OF d]
    by (simp add: found_at_def)
  have r: "rd16 m (p + 2) = Some (sm_handle s)"
    using enc_smbios_fields(3) [of p m s "enc_table (s' # ss)"] Cons.prems by simp
  have t: "table_at m (s # s' # ss) = p" using table_at_drop [OF Cons.prems(1)] by simp
  have len: "SMBIOS_HEADER_LEN \<le> length (enc_table (s' # ss))"
    using length_enc_smbios [of s'] by (simp add: SMBIOS_HEADER_LEN_def)
  have IH: "smbios_handle_loop m h ?q (length (enc_table (s' # ss))) =
        Some (found_at m (seek (\<lambda>x. sm_handle x = h) (s' # ss)))"
    by (rule Cons.IH) (use d Cons.prems in auto)
  show ?case
  proof (cases "sm_handle s = h")
    case True
    then show ?thesis using r t by (subst smbios_handle_loop.simps) (simp add: found_at_def seek_def)
  next
    case False
    then have "seek (\<lambda>x. sm_handle x = h) (s # s' # ss) = seek (\<lambda>x. sm_handle x = h) (s' # ss)"
      by (simp add: seek_def)
    then show ?thesis using r n len IH False
      by (subst smbios_handle_loop.simps) simp
  qed
qed

section \<open>Strings of a structure\<close>

lemma smbios_next_string_loop_eq:
  assumes "0 \<notin> set w" and "drop p m = w @ 0 # c # xs"
  shows "smbios_next_string_loop m p False (length w + 2 + r) =
         Some (if c = 0 then None else Some (p + Suc (length w)))"
  using assms
proof (induction w arbitrary: p)
  case Nil
  have "rd m p = Some 0" "rd m (Suc p) = Some c"
    using rd_drop [of p m 0 "c # xs"] rd_drop [of "Suc p" m c xs] Nil by auto
  then show ?case by simp
next
  case (Cons a w)
  have a: "rd m p = Some a" "drop (Suc p) m = w @ 0 # c # xs" "a \<noteq> 0"
    using rd_drop [of p m a "w @ 0 # c # xs"] Cons.prems by auto
  then show ?case using Cons.IH [of "Suc p"] Cons.prems by simp
qed

lemma smbios_get_next_string_eq:
  assumes "0 \<notin> set w" and "drop p m = w @ 0 # c # xs" and "length w + 2 \<le> r"
  shows "smbios_get_next_string m p r = Some (if c = 0 then None else Some (p + Suc (length w)))"
  using smbios_next_string_loop_eq [OF assms(1,2)] assms(3)
  by (metis smbios_get_next_string_def le_add_diff_inverse)

lemma cstr_at: "0 \<notin> set w \<Longrightarrow> cstr ((w @ 0 # xs) :: bytes) = w"
  by (rule cstr_append_zero)

lemma smbios_string_loop_eq:
  assumes "\<forall>w \<in> set (w # ws). w \<noteq> [] \<and> 0 \<notin> set w"
    and "drop p m = enc_strings (w # ws) @ xs"
    and "length (enc_strings (w # ws)) \<le> r"
  shows "\<exists>q. smbios_string_loop m (Some p) r n = Some q \<and>
           (case q of None \<Rightarrow> length ws < n
            | Some i \<Rightarrow> n \<le> length ws \<and> cstr (drop i m) = (w # ws) ! n)"
  using assms
proof (induction n arbitrary: p w ws)
  case 0
  then show ?case by (auto intro: cstr_at)
next
  case (Suc n)
  have w: "0 \<notin> set w" using Suc.prems(1) by simp
  show ?case
  proof (cases ws)
    case Nil
    have "smbios_get_next_string m p r = Some None"
      using smbios_get_next_string_eq [OF w, of p m 0 xs r] Suc.prems(2,3) Nil by simp
    moreover have "smbios_string_loop m None r n = Some None" by (cases n) auto
    ultimately show ?thesis using Nil by simp
  next
    case (Cons v vs)
    obtain c v' where v: "v = c # v'" and c: "c \<noteq> 0"
      using Suc.prems(1) Cons by (cases v) auto
    have len: "length (enc_strings (w # ws)) = length w + 2 + (length v' + length (enc_strings vs) + 1)"
      using Cons v by simp
    have s: "smbios_get_next_string m p r = Some (Some (p + Suc (length w)))"
      using smbios_get_next_string_eq [OF w, of p m c "v' @ 0 # enc_strings vs @ xs" r]
        Suc.prems(2,3) Cons v c len by simp
    have d: "drop (p + Suc (length w)) m = enc_strings (v # vs) @ xs"
      using drop_append_at [of p m "w @ [0]"] Suc.prems(2) Cons by simp
    have "\<exists>q. smbios_string_loop m (Some (p + Suc (length w))) r n = Some q \<and>
           (case q of None \<Rightarrow> length vs < n
            | Some i \<Rightarrow> n \<le> length vs \<and> cstr (drop i m) = (v # vs) ! n)"
      by (rule Suc.IH) (use Suc.prems d Cons in auto)
    then show ?thesis using s Cons by (auto split: option.splits)
  qed
qed

lemma smbios_structure_string_eq:
  assumes "drop p m = enc_smbios s @ xs" and "wf_smbios s"
  shows "\<exists>q. smbios_get_structure_string m (Some p) (length (enc_smbios s @ xs)) k = Some q \<and>
           (case q of None \<Rightarrow> k = 0 \<or> length (sm_strings s) < k
            | Some i \<Rightarrow> 1 \<le> k \<and> k \<le> length (sm_strings s) \<and>
                cstr (drop i m) = sm_strings s ! (k - 1))"
proof (cases "k = 0")
  case True
  then show ?thesis
    using enc_smbios_fields(2) [OF assms]
    by (simp add: smbios_get_structure_string_def)
next
  case False
  note f = enc_smbios_fields [OF assms]
  let ?l = "4 + length (sm_body s)"
  let ?ws = "sm_strings s"
  have len: "length (enc_smbios s @ xs) = ?l + length (enc_string_list ?ws @ xs)"
    by (simp add: enc_smbios_def)
  show ?thesis
  proof (cases ?ws)
    case Nil
    then have d: "drop (p + ?l) m = 0 # 0 # xs" using f(5) by (simp add: enc_string_list_def)
    then have "rd m (p + ?l) = Some 0" "rd m (p + ?l + 1) = Some 0"
      using rd_drop [OF d] rd_drop [of "Suc (p + ?l)" m 0 xs] by auto
    moreover have "smbios_string_loop m None r j = Some None" for r j by (cases j) auto
    ultimately show ?thesis
      using f(2,4) False Nil len
      by (simp add: smbios_get_structure_string_def Let_def enc_string_list_def)
  next
    case (Cons w ws)
    obtain c w' where w: "w = c # w'" and c: "c \<noteq> 0"
      using assms(2) Cons by (cases w) (auto simp: wf_smbios_def)
    have d: "drop (p + ?l) m = enc_strings (w # ws) @ xs"
      using f(5) Cons by (simp add: enc_string_list_def)
    then have r: "rd m (p + ?l) = Some c"
      using rd_drop [of "p + ?l" m c] w by simp
    have "\<exists>q. smbios_string_loop m (Some (p + ?l)) (length (enc_smbios s @ xs) - ?l) (k - 1) = Some q \<and>
           (case q of None \<Rightarrow> length ws < k - 1
            | Some i \<Rightarrow> k - 1 \<le> length ws \<and> cstr (drop i m) = (w # ws) ! (k - 1))"
      by (rule smbios_string_loop_eq [OF _ d])
        (use assms(2) Cons len in \<open>auto simp: wf_smbios_def enc_string_list_def\<close>)
    then obtain q where q: "smbios_string_loop m (Some (p + ?l)) (length (enc_smbios s @ xs) - ?l) (k - 1) = Some q"
      "case q of None \<Rightarrow> length ws < k - 1
            | Some i \<Rightarrow> k - 1 \<le> length ws \<and> cstr (drop i m) = (w # ws) ! (k - 1)"
      by blast
    have big: "?l < length (enc_smbios s @ xs)"
      using len length_enc_strings_pos [of ?ws] Cons by (auto simp: enc_string_list_def)
    have "smbios_get_structure_string m (Some p) (length (enc_smbios s @ xs)) k = Some q"
      using f(2,4) False big r c q(1) by (simp add: smbios_get_structure_string_def Let_def)
    then show ?thesis using q(2) Cons False by (auto split: option.splits)
  qed
qed

section \<open>Properties\<close>

text \<open> C31: on every table that encodes a list of well-formed SMBIOS structures the walker never reads
  outside the table, and it counts exactly the structures of the requested type.\<close>

theorem smbios_count_correct:
  assumes "\<forall>s \<in> set ss. wf_smbios s" and "ss \<noteq> []"
  shows "smbios_get_structure_count_of_type (enc_table ss) t (Some 0) (length (enc_table ss)) =
         Some (int (length (filter (\<lambda>s. sm_type s = t) ss)))"
proof -
  let ?P = "\<lambda>s. sm_type s = t"
  let ?m = "enc_table ss"
  have d: "drop 0 ?m = enc_table ss" by simp
  have f: "smbios_get_first_structure_of_type ?m t (Some 0) (length ?m) = Some (found_at ?m (seek ?P ss))"
    by (rule smbios_first_table [OF assms(2) d assms(1)])
  have big: "SMBIOS_HEADER_LEN \<le> length ?m"
    using length_enc_table [OF assms(2)] by (simp add: SMBIOS_HEADER_LEN_def)
  show ?thesis
  proof (cases "seek ?P ss")
    case Nil
    then have "filter ?P ss = []" using seek_Nil_iff by metis
    then show ?thesis using f big Nil
      by (simp add: smbios_get_structure_count_of_type_def found_at_def)
  next
    case (Cons y ys)
    have wf: "\<forall>x \<in> set (y # ys). wf_smbios x"
      using seek_suffix [of ss ?P] assms(1) Cons by (metis Un_iff set_append)
    have "smbios_count_loop ?m t (table_at ?m (y # ys)) (length (enc_table (y # ys))) 0 =
          Some (0 + 1 + int (length (filter ?P ys)))"
      by (rule smbios_count_table [OF seek_at [OF d Cons] wf])
    then show ?thesis using f big Cons seek_Cons_filter [OF Cons]
      by (simp add: smbios_get_structure_count_of_type_def found_at_def)
  qed
qed

definition dimm_struct :: smbios_struct where
  "dimm_struct = \<lparr>sm_type = 17, sm_handle = 5, sm_body = [1, 2], sm_strings = [[68, 73], [77]]\<rparr>"

theorem smbios_count_correct_witness:
  "smbios_get_structure_count_of_type (enc_table [dimm_struct, dimm_struct]) 17 (Some 0)
     (length (enc_table [dimm_struct, dimm_struct])) = Some 2"
  using smbios_count_correct [of "[dimm_struct, dimm_struct]" 17]
  by (simp add: dimm_struct_def wf_smbios_def)

text \<open> Looking up a handle in a well-formed table gives the address of the first structure with
  that handle, whose header the table holds there, and \<open>NULL\<close> when no structure has it.\<close>

theorem smbios_handle_correct:
  assumes "\<forall>s \<in> set ss. wf_smbios s" and "ss \<noteq> []"
  shows "\<exists>q r. smbios_get_structure_with_handle (enc_table ss) h (Some 0) (length (enc_table ss)) =
             Some (q, r) \<and>
           (case q of
              None \<Rightarrow> h \<notin> sm_handle ` set ss
            | Some p \<Rightarrow> \<exists>pre s post. ss = pre @ s # post \<and> sm_handle s = h \<and>
                h \<notin> sm_handle ` set pre \<and> drop p (enc_table ss) = enc_table (s # post))"
proof -
  let ?m = "enc_table ss" and ?P = "\<lambda>x. sm_handle x = h"
  obtain s0 ss' where ss: "ss = s0 # ss'" using assms(2) by (cases ss) auto
  have d: "drop 0 ?m = enc_table ss" by simp
  have "SMBIOS_HEADER_LEN \<le> length ?m"
    using length_enc_table [OF assms(2)] by (simp add: SMBIOS_HEADER_LEN_def)
  then have r: "smbios_get_structure_with_handle ?m h (Some 0) (length ?m) = Some (found_at ?m (seek ?P ss))"
    using smbios_handle_table [of 0 ?m s0 ss' h] assms ss
    by (simp add: smbios_get_structure_with_handle_def)
  have split: "ss = takeWhile (\<lambda>x. \<not> ?P x) ss @ seek ?P ss" by (simp add: seek_def)
  have pre: "h \<notin> sm_handle ` set (takeWhile (\<lambda>x. \<not> ?P x) ss)"
    by (auto dest: set_takeWhileD)
  show ?thesis
  proof (cases "seek ?P ss")
    case Nil
    then show ?thesis using r pre split by (auto simp: found_at_def)
  next
    case (Cons s post)
    then have "s \<in> set (filter ?P ss)" using seek_Cons_filter by fastforce
    then have "sm_handle s = h" by simp
    then show ?thesis
      using r pre split Cons seek_at [OF d Cons] by (fastforce simp: found_at_def)
  qed
qed

theorem smbios_handle_correct_witness:
  "\<exists>q r. smbios_get_structure_with_handle (enc_table [dimm_struct]) 5 (Some 0)
     (length (enc_table [dimm_struct])) = Some (Some q, r)"
  using smbios_handle_correct [of "[dimm_struct]" 5]
  by (auto simp: dimm_struct_def wf_smbios_def split: option.splits)

text \<open> String number \<open>k\<close> of a structure in a well-formed table is the \<open>k\<close>-th string of its list,
  counted from 1, and \<open>NULL\<close> when \<open>k\<close> is zero or larger than the number of strings; no byte outside
  the table is read.\<close>

theorem smbios_string_correct:
  assumes "wf_smbios s"
  shows "\<exists>q. smbios_get_structure_string (enc_smbios s @ rest) (Some 0)
               (length (enc_smbios s @ rest)) k = Some q \<and>
           (case q of
              None \<Rightarrow> k = 0 \<or> length (sm_strings s) < k
            | Some i \<Rightarrow> 1 \<le> k \<and> k \<le> length (sm_strings s) \<and>
                cstr (drop i (enc_smbios s @ rest)) = sm_strings s ! (k - 1))"
  by (rule smbios_structure_string_eq) (use assms in auto)

theorem smbios_string_correct_witness:
  "\<exists>q. smbios_get_structure_string (enc_smbios dimm_struct) (Some 0)
     (length (enc_smbios dimm_struct)) 2 = Some (Some q)"
  using smbios_string_correct [of dimm_struct "[]" 2]
  by (auto simp: dimm_struct_def wf_smbios_def split: option.splits)

text \<open> When one to three bytes of padding follow the last structure, the search for a handle that
  no structure has does not give \<open>NULL\<close>: it returns the address of the padding, where there is no
  room for a structure header.\<close>

theorem smbios_handle_padding:
  assumes "wf_smbios s" and "sm_handle s \<noteq> h" and "1 \<le> length pad" and "length pad < 4"
  shows "smbios_get_structure_with_handle (enc_smbios s @ pad) h (Some 0)
           (length (enc_smbios s @ pad)) = Some (Some (length (enc_smbios s)), length pad)"
proof -
  have d: "drop 0 (enc_smbios s @ pad) = enc_smbios s @ pad" by simp
  have "pad \<noteq> []" using assms(3) by auto
  then have n: "smbios_get_next_structure (enc_smbios s @ pad) (Some 0) (length (enc_smbios s @ pad)) =
      Some (Some (length (enc_smbios s)), length pad)"
    using smbios_next_enc [OF d assms(1)] by simp
  have "rd16 (enc_smbios s @ pad) (0 + 2) = Some (sm_handle s)"
    by (rule enc_smbios_fields(3) [OF d assms(1)])
  then have "smbios_handle_loop (enc_smbios s @ pad) h 0 (length (enc_smbios s @ pad)) =
      Some (Some (length (enc_smbios s)), length pad)"
    unfolding smbios_handle_loop.simps [of "enc_smbios s @ pad" h 0 "length (enc_smbios s @ pad)"] n
    using assms by (simp add: SMBIOS_HEADER_LEN_def del: length_append)
  then show ?thesis
    using length_enc_smbios [of s]
    by (simp add: smbios_get_structure_with_handle_def SMBIOS_HEADER_LEN_def)
qed

theorem smbios_handle_padding_witness:
  "smbios_get_structure_with_handle (enc_smbios dimm_struct @ [0]) 9 (Some 0)
     (length (enc_smbios dimm_struct @ [0])) = Some (Some (length (enc_smbios dimm_struct)), 1)"
  using smbios_handle_padding [of dimm_struct 9 "[0]"]
  by (simp add: dimm_struct_def wf_smbios_def)

lemma smbios_one_byte_left:
  assumes "wf_smbios s" and "sm_type s \<noteq> t" and "b \<noteq> t"
  shows "smbios_get_structure_count_of_type (enc_smbios s @ [b]) t (Some 0)
           (length (enc_smbios s @ [b])) = None"
proof -
  let ?m = "enc_smbios s @ [b]"
  have d: "drop 0 ?m = enc_smbios s @ [b]" by simp
  have n: "smbios_get_next_structure ?m (Some 0) (length ?m) = Some (Some (length (enc_smbios s)), 1)"
    using smbios_next_enc [OF d assms(1)] by simp
  have b: "rd ?m (length (enc_smbios s)) = Some b" by (simp add: rd_def)
  have o: "rd ?m (Suc (length (enc_smbios s))) = None" by (simp add: rd_def)
  have e: "smbios_next_of_type_loop ?m t (length (enc_smbios s)) 1 = None"
    using o by (subst smbios_next_of_type_loop.simps) (simp add: smbios_get_next_structure_def)
  have f: "smbios_next_of_type_loop ?m t 0 (length ?m) = None"
    using n b e assms(3) by (subst smbios_next_of_type_loop.simps) simp
  have "rd ?m 0 = Some (sm_type s)" by (rule enc_smbios_fields(1) [OF d assms(1)])
  then show ?thesis
    using f length_enc_smbios [of s] assms(2)
    by (simp add: smbios_get_structure_count_of_type_def smbios_get_first_structure_of_type_def
        smbios_get_next_structure_of_type_def SMBIOS_HEADER_LEN_def)
qed

end
