(* ===== verification/Time_Utilities.thy ===== *)
theory Time_Utilities
  imports Revision
begin

text \<open>
  Date and time strings, \<open>common/time/time_utilities.c\<close>. A \<open>COMMON_DATETIME_STR\<close> is a buffer of 26
  bytes. \<open>int\<close> products that leave the range of \<open>int\<close> are undefined (\<open>int_mul\<close> gives \<open>None\<close>). The
  C library's \<open>mktime\<close>, \<open>gmtime\<close> and \<open>localtime\<close> depend on the host's time zone and are arguments.
\<close>

section \<open>Definitions\<close>

definition COMMON_DATETIME_LEN :: nat where "COMMON_DATETIME_LEN = 26"

datatype datetime_type = DATETIME_TYPE_UNKNOWN | DATETIME_TYPE_DATETIME | DATETIME_TYPE_INTERVAL

record tm =
  tm_sec :: int
  tm_min :: int
  tm_hour :: int
  tm_mday :: int
  tm_mon :: int
  tm_year :: int
  tm_wday :: int
  tm_isdst :: int

definition int_mul :: "int \<Rightarrow> int \<Rightarrow> int option" where
  "int_mul a b = (if - (2 ^ 31) \<le> a * b \<and> a * b < 2 ^ 31 then Some (a * b) else None)"

text \<open>\<open>atoi\<close>: white space, an optional sign, digits.\<close>

definition atoi :: "bytes \<Rightarrow> int" where
  "atoi b = (case ltrim (cstr b) of
       [] \<Rightarrow> 0
     | c # w \<Rightarrow>
         if c = 45 then - int (dec_val (takeWhile isdigit w))
         else if c = 43 then int (dec_val (takeWhile isdigit w))
         else int (dec_val (takeWhile isdigit (c # w))))"

text \<open>One field: \<open>s_strncpy(buf, len + 1, p_datetime_str, length)\<close> and \<open>atoi(buf)\<close>.\<close>

definition read_field :: "bytes \<Rightarrow> bytes \<Rightarrow> nat \<Rightarrow> nat \<Rightarrow> (bytes \<times> int) option" where
  "read_field buf datetime off len = do {
     b \<leftarrow> s_strncpy (Some buf) (len + 1) (Some (drop off datetime)) (COMMON_DATETIME_LEN - off);
     buf' \<leftarrow> b;
     Some (buf', atoi buf') }"

definition return_datetime_interval_seconds :: "bytes \<Rightarrow> u64 option" where
  "return_datetime_interval_seconds datetime = do {
     let buf = replicate 9 0;
     (buf, days) \<leftarrow> read_field buf datetime 0 8;
     d1 \<leftarrow> int_mul days 24;
     d2 \<leftarrow> int_mul d1 60;
     d3 \<leftarrow> int_mul d2 60;
     let secs = word_of_int d3;
     (buf, hours) \<leftarrow> read_field buf datetime 8 2;
     h1 \<leftarrow> int_mul hours 60;
     h2 \<leftarrow> int_mul h1 60;
     let secs = secs + word_of_int h2;
     (buf, minutes) \<leftarrow> read_field buf datetime 10 2;
     m1 \<leftarrow> int_mul minutes 60;
     let secs = secs + word_of_int m1;
     (buf, seconds) \<leftarrow> read_field buf datetime 12 2;
     Some (secs + word_of_int seconds) }"

definition return_datetime_seconds :: "(tm \<Rightarrow> int) \<Rightarrow> int \<Rightarrow> bytes \<Rightarrow> u64 option" where
  "return_datetime_seconds mktime wday0 datetime = do {
     let buf = replicate 5 0;
     (buf, year) \<leftarrow> read_field buf datetime 0 4;
     (buf, month) \<leftarrow> read_field buf datetime 4 2;
     (buf, day) \<leftarrow> read_field buf datetime 6 2;
     (buf, hour) \<leftarrow> read_field buf datetime 8 2;
     (buf, minute) \<leftarrow> read_field buf datetime 10 2;
     (buf, second) \<leftarrow> read_field buf datetime 12 2;
     Some (word_of_int (mktime
       \<lparr>tm_sec = second, tm_min = minute, tm_hour = hour, tm_mday = day,
        tm_mon = sint ((word_of_int month :: u32) - 1),
        tm_year = sint ((word_of_int year :: u32) - 1900),
        tm_wday = wday0, tm_isdst = -1\<rparr>)) }"

fun datetime_digits_loop :: "bytes \<Rightarrow> nat \<Rightarrow> nat \<Rightarrow> bool \<Rightarrow> bool option" where
  "datetime_digits_loop datetime i 0 bad_type = Some bad_type"
| "datetime_digits_loop datetime i (Suc k) bad_type = do {
     c \<leftarrow> rd datetime i;
     datetime_digits_loop datetime (Suc i) k
       (bad_type \<or> (i \<noteq> 14 \<and> i \<noteq> 21 \<and> i \<noteq> 25 \<and> \<not> isdigit c)) }"

definition convert_datetime_string_to_seconds ::
  "(tm \<Rightarrow> int) \<Rightarrow> int \<Rightarrow> bytes \<Rightarrow> (datetime_type \<times> u64) option" where
  "convert_datetime_string_to_seconds mktime wday0 datetime = do {
     n \<leftarrow> s_strnlen (Some datetime) COMMON_DATETIME_LEN;
     bad_type \<leftarrow>
       (if n = COMMON_DATETIME_LEN - 1 then do {
          bad \<leftarrow> datetime_digits_loop datetime 0 COMMON_DATETIME_LEN False;
          point \<leftarrow> rd datetime 14;
          sign \<leftarrow> rd datetime 21;
          nul \<leftarrow> rd datetime 25;
          Some (bad \<or> point \<noteq> 46 \<or> (sign \<noteq> 58 \<and> sign \<noteq> 43 \<and> sign \<noteq> 45) \<or> nul \<noteq> 0) }
        else Some True);
     if \<not> bad_type then do {
       sign \<leftarrow> rd datetime 21;
       if sign = 58 then do {
         secs \<leftarrow> return_datetime_interval_seconds datetime;
         Some (DATETIME_TYPE_INTERVAL, secs) }
       else do {
         secs \<leftarrow> return_datetime_seconds mktime wday0 datetime;
         Some (DATETIME_TYPE_DATETIME, secs) } }
     else Some (DATETIME_TYPE_UNKNOWN, 0) }"

text \<open>The text \<open>%08u%02d%02d%02d.000000:000\<close>.\<close>

definition interval_text :: "nat \<Rightarrow> nat \<Rightarrow> nat \<Rightarrow> nat \<Rightarrow> bytes" where
  "interval_text days hours minutes seconds =
     fmt_pad 8 days @ fmt_pad 2 hours @ fmt_pad 2 minutes @ fmt_pad 2 seconds @
     [46, 48, 48, 48, 48, 48, 48, 58, 48, 48, 48]"

definition convert_seconds_to_datetime_interval :: "u64 \<Rightarrow> bytes option \<Rightarrow> bytes option option" where
  "convert_seconds_to_datetime_interval secs datetime_buf =
     (case datetime_buf of
        None \<Rightarrow> Some None
      | Some b \<Rightarrow>
          (let seconds = unat secs mod 60;
               quotient = unat secs div 60;
               minutes = quotient mod 60;
               quotient = quotient div 60;
               hours = quotient mod 24;
               days = (quotient div 24) mod 2 ^ 32
           in map_option fst
                (s_snprintf (Some b) COMMON_DATETIME_LEN
                   (Some (interval_text days hours minutes seconds)))))"

definition get_tm_tzd_mins :: "tm \<Rightarrow> tm \<Rightarrow> int" where
  "get_tm_tzd_mins time_a time_b =
     (let day_diff =
        (if tm_wday time_b \<noteq> tm_wday time_a
         then (let d = tm_wday time_b - tm_wday time_a in if \<bar>d\<bar> > 1 then -1 else d)
         else 0)
      in (day_diff * 24 + (tm_hour time_b - tm_hour time_a)) * 60
         + (tm_min time_b - tm_min time_a))"

text \<open>\<open>gmtime\<close> and \<open>localtime\<close> may fail; the output pointer may be \<open>NULL\<close>.\<close>

definition get_timezone_diff ::
  "('t \<Rightarrow> tm option) \<Rightarrow> ('t \<Rightarrow> tm option) \<Rightarrow> 't \<Rightarrow> int option \<Rightarrow> int option" where
  "get_timezone_diff gmtime localtime raw_time timezone_diff_min =
     (case timezone_diff_min of
        None \<Rightarrow> None
      | Some _ \<Rightarrow>
          (case (gmtime raw_time, localtime raw_time) of
             (Some utcTime, Some localTime) \<Rightarrow> Some (get_tm_tzd_mins utcTime localTime)
           | _ \<Rightarrow> Some 0))"

section \<open>Fields of a date string\<close>

lemma digit_not_space: "isdigit c \<Longrightarrow> \<not> isspace c \<and> c \<noteq> 45 \<and> c \<noteq> 43 \<and> c \<noteq> 0"
proof -
  assume "isdigit c"
  then have "48 \<le> unat c" by (simp add: isdigit_def word_le_nat_alt)
  then show ?thesis by (auto simp: isspace_def word_le_nat_alt)
qed

lemma atoi_digits:
  assumes "\<forall>c \<in> set w. isdigit c" "w \<noteq> []"
  shows "atoi (w @ 0 # r) = int (dec_val w)"
proof -
  have "0 \<notin> set w" using assms digit_not_space by blast
  then have c: "cstr (w @ 0 # r) = w" by (rule cstr_append_zero)
  obtain x xs where w: "w = x # xs" using assms by (cases w) auto
  have x: "\<not> isspace x" "x \<noteq> 45" "x \<noteq> 43" using assms digit_not_space [of x] by (auto simp: w)
  have "takeWhile isdigit w = w" using assms by (simp add: takeWhile_eq_all_conv)
  then show ?thesis using x unfolding atoi_def c by (simp add: w ltrim_def)
qed

lemma read_field_digits:
  assumes date: "drop off datetime = w @ r" and w: "\<forall>c \<in> set w. isdigit c" "length w = len" "0 < len"
    and len: "len < length buf" "off + len \<le> 26" "length datetime = 26" "length buf \<le> 2 ^ 31"
  shows "\<exists>buf'. read_field buf datetime off len = Some (buf', int (dec_val w)) \<and>
           length buf' = length buf"
proof -
  have m: "min len (26 - off) = len" using len by simp
  have nz: "0 \<notin> set w" using w digit_not_space by blast
  have "cstr (take len (w @ r)) = w" using w nz by (simp add: cstr_id)
  moreover have "readable (w @ r) len" using w by (simp add: readable_def)
  ultimately have "s_strncpy (Some buf) (len + 1) (Some (drop off datetime)) (COMMON_DATETIME_LEN - off) =
      Some (Some (put_str buf 0 w))"
    using s_strncpy_eq [of "len + 1" buf "w @ r" "26 - off"] len m
    by (simp add: date COMMON_DATETIME_LEN_def)
  moreover have "put_str buf 0 w = w @ 0 # drop (Suc len) buf" using w by (simp add: put_str_def)
  moreover have "atoi (w @ 0 # drop (Suc len) buf) = int (dec_val w)"
    using w by (intro atoi_digits) auto
  moreover have "length (w @ 0 # drop (Suc len) buf) = length buf" using w len by simp
  ultimately show ?thesis by (simp add: read_field_def)
qed

section \<open>Intervals\<close>

lemma interval_text_length:
  assumes "days < 10 ^ 8" "hours < 100" "minutes < 100" "seconds < 100"
  shows "length (interval_text days hours minutes seconds) = 25"
  using assms fmt_pad_length [of days 8]
  by (simp add: interval_text_def fmt_pad_length)

lemma interval_text_parts:
  assumes "days < 10 ^ 8" "hours < 100" "minutes < 100" "seconds < 100"
  defines "t \<equiv> interval_text days hours minutes seconds @ [0]"
  shows "\<exists>r. drop 0 t = fmt_pad 8 days @ r" "\<exists>r. drop 8 t = fmt_pad 2 hours @ r"
    "\<exists>r. drop 10 t = fmt_pad 2 minutes @ r" "\<exists>r. drop 12 t = fmt_pad 2 seconds @ r"
    "drop 14 t = [46, 48, 48, 48, 48, 48, 48, 58, 48, 48, 48, 0]"
    "\<forall>c \<in> set (take 14 t). isdigit c" "length t = 26"
proof -
  have l: "length (fmt_pad 8 days) = 8" "length (fmt_pad 2 hours) = 2"
    "length (fmt_pad 2 minutes) = 2" "length (fmt_pad 2 seconds) = 2"
    using assms fmt_pad_length [of days 8] by (simp_all add: fmt_pad_length)
  show "\<exists>r. drop 0 t = fmt_pad 8 days @ r" by (simp add: t_def interval_text_def)
  show "\<exists>r. drop 8 t = fmt_pad 2 hours @ r" "\<exists>r. drop 10 t = fmt_pad 2 minutes @ r"
    "\<exists>r. drop 12 t = fmt_pad 2 seconds @ r"
    by (simp_all add: t_def interval_text_def l)
  show "drop 14 t = [46, 48, 48, 48, 48, 48, 48, 58, 48, 48, 48, 0]"
    by (simp add: t_def interval_text_def l)
  show "\<forall>c \<in> set (take 14 t). isdigit c"
    by (auto simp: t_def interval_text_def l dest: fmt_pad_digits)
  show "length t = 26" by (simp add: t_def interval_text_def l)
qed

definition datetime_pos_ok :: "bytes \<Rightarrow> nat \<Rightarrow> bool" where
  "datetime_pos_ok b j \<longleftrightarrow> j = 14 \<or> j = 21 \<or> j = 25 \<or> isdigit (b ! j)"

lemma datetime_digits_loop_ok:
  "i + k \<le> length b \<Longrightarrow> (\<And>j. i \<le> j \<Longrightarrow> j < i + k \<Longrightarrow> datetime_pos_ok b j) \<Longrightarrow>
   datetime_digits_loop b i k bad = Some bad"
proof (induction k arbitrary: i)
  case (Suc k)
  have "datetime_pos_ok b i" using Suc.prems(2) [of i] by simp
  moreover have "datetime_digits_loop b (Suc i) k bad = Some bad"
    using Suc.prems by (intro Suc.IH) auto
  ultimately show ?case using Suc.prems(1) by (auto simp: rd_in datetime_pos_ok_def)
qed simp

lemma interval_accepted:
  assumes "days < 10 ^ 8" "hours < 100" "minutes < 100" "seconds < 100"
  defines "t \<equiv> interval_text days hours minutes seconds @ [0]"
  shows "s_strnlen (Some t) 26 = Some 25" "datetime_digits_loop t 0 26 False = Some False"
    "t ! 14 = 46" "t ! 21 = 58" "t ! 25 = 0" "length t = 26"
proof -
  note p = interval_text_parts [OF assms(1-4), folded t_def]
  have nth: "t ! (14 + k) = [46, 48, 48, 48, 48, 48, 48, 58, 48, 48, 48, 0] ! k" if "k < 12" for k
  proof -
    have "t ! (14 + k) = drop 14 t ! k" using p(7) by simp
    then show ?thesis by (simp only: p(5))
  qed
  show "t ! 14 = 46" "t ! 21 = 58" "t ! 25 = 0" "length t = 26"
    using nth [of 0] nth [of 7] nth [of 11] p(7) by simp_all
  have dig: "isdigit (t ! j)" if "j < 14" for j
  proof -
    have "t ! j \<in> set (take 14 t)" using that p(7) by (auto simp: in_set_conv_nth intro!: exI [of _ j])
    then show ?thesis using p(6) by blast
  qed
  have tail: "datetime_pos_ok t (14 + k)" if "k < 12" for k
  proof -
    have "list_all (\<lambda>k. k = 0 \<or> k = 7 \<or> k = 11 \<or>
        isdigit ([46, 48, 48, 48, 48, 48, 48, 58, 48, 48, 48, 0] ! k)) [0..<12]" by code_simp
    then have "k = 0 \<or> k = 7 \<or> k = 11 \<or> isdigit (t ! (14 + k))"
      using that nth [OF that] by (simp add: list_all_iff)
    then show ?thesis by (auto simp: datetime_pos_ok_def)
  qed
  have ok: "datetime_pos_ok t j" if "j < 26" for j
    using that dig [of j] tail [of "j - 14"] by (cases "j < 14") (auto simp: datetime_pos_ok_def)
  then show "datetime_digits_loop t 0 26 False = Some False"
    using p(7) by (intro datetime_digits_loop_ok) auto
  have "0 \<notin> set (interval_text days hours minutes seconds)"
    using digit_not_space fmt_pad_digits by (fastforce simp: interval_text_def)
  then have "cstr t = interval_text days hours minutes seconds"
    unfolding t_def by (rule cstr_append_zero)
  then show "s_strnlen (Some t) 26 = Some 25"
    using s_strnlen_eq [of t 26] p(7) interval_text_length [OF assms(1-4)]
    by (simp add: readable_def)
qed

text \<open>
  Parsing a printed interval gives its fields back; the number of days in seconds must fit an
  \<open>int\<close>, since the code multiplies before it widens.
\<close>

lemma return_interval_text:
  assumes "days < 10 ^ 8" "hours < 24" "minutes < 60" "seconds < 60"
  defines "t \<equiv> interval_text days hours minutes seconds @ [0]"
  shows "days * 86400 < 2 ^ 31 \<Longrightarrow> return_datetime_interval_seconds t =
           Some (word_of_nat (days * 86400 + hours * 3600 + minutes * 60 + seconds))"
    and "2 ^ 31 \<le> days * 86400 \<Longrightarrow> return_datetime_interval_seconds t = None"
proof -
  have bnds: "hours < 100" "minutes < 100" "seconds < 100" using assms by auto
  note p = interval_text_parts [OF assms(1) bnds, folded t_def]
  note len = fmt_pad_length [of days 8] fmt_pad_length [of hours 2] fmt_pad_length [of minutes 2]
    fmt_pad_length [of seconds 2]
  obtain r1 r2 r3 r4 where r: "drop 0 t = fmt_pad 8 days @ r1" "drop 8 t = fmt_pad 2 hours @ r2"
    "drop 10 t = fmt_pad 2 minutes @ r3" "drop 12 t = fmt_pad 2 seconds @ r4"
    using p by blast
  obtain b1 where 1: "read_field (replicate 9 0) t 0 8 = Some (b1, int days)" "length b1 = 9"
    using read_field_digits [OF r(1), of 8 "replicate 9 0"] len assms(1) p(7) fmt_pad_digits by auto
  obtain b2 where 2: "read_field b1 t 8 2 = Some (b2, int hours)" "length b2 = 9"
    using read_field_digits [OF r(2), of 2 b1] 1(2) len bnds p(7) fmt_pad_digits by auto
  obtain b3 where 3: "read_field b2 t 10 2 = Some (b3, int minutes)" "length b3 = 9"
    using read_field_digits [OF r(3), of 2 b2] 2(2) len bnds p(7) fmt_pad_digits by auto
  obtain b4 where 4: "read_field b3 t 12 2 = Some (b4, int seconds)"
    using read_field_digits [OF r(4), of 2 b3] 3(2) len bnds p(7) fmt_pad_digits by auto
  show "days * 86400 < 2 ^ 31 \<Longrightarrow> return_datetime_interval_seconds t =
           Some (word_of_nat (days * 86400 + hours * 3600 + minutes * 60 + seconds))"
    using 1 2 3 4 assms
    by (simp add: return_datetime_interval_seconds_def int_mul_def ac_simps)
  show "2 ^ 31 \<le> days * 86400 \<Longrightarrow> return_datetime_interval_seconds t = None"
    using 1 assms by (simp add: return_datetime_interval_seconds_def int_mul_def)
qed

section \<open>Properties\<close>

text \<open>
  An interval that \<open>convert_seconds_to_datetime_interval\<close> prints is read back by
  \<open>convert_datetime_string_to_seconds\<close> as an interval of the same number of seconds, as long as
  the seconds of its whole days fit an \<open>int\<close>.
\<close>

theorem datetime_interval_roundtrip:
  assumes "unat secs div 86400 * 86400 < 2 ^ 31" and "length buf = 26"
  shows "\<exists>buf'. convert_seconds_to_datetime_interval secs (Some buf) = Some (Some buf') \<and>
           convert_datetime_string_to_seconds mktime wday0 buf' = Some (DATETIME_TYPE_INTERVAL, secs)"
proof -
  define m h d s where "m = unat secs div 60 mod 60" and "h = unat secs div 60 div 60 mod 24"
    and "d = unat secs div 60 div 60 div 24" and "s = unat secs mod 60"
  have d: "d * 86400 < 2 ^ 31" "d mod 2 ^ 32 = d" "d < 10 ^ 8"
    using assms(1) by (simp_all add: d_def div_mult2_eq [symmetric])
  have bnd: "h < 24" "m < 60" "s < 60" by (simp_all add: h_def m_def s_def)
  have val: "d * 86400 + h * 3600 + m * 60 + s = unat secs"
  proof -
    have "unat secs = unat secs div 60 * 60 + s" "unat secs div 60 = unat secs div 60 div 60 * 60 + m"
      "unat secs div 60 div 60 = d * 24 + h"
      by (simp_all add: s_def m_def d_def h_def)
    then show ?thesis by linarith
  qed
  let ?t = "interval_text d h m s @ [0]"
  have "0 \<notin> set (interval_text d h m s)"
    using digit_not_space fmt_pad_digits by (fastforce simp: interval_text_def)
  then have c: "cstr (take 25 (?t)) = interval_text d h m s"
    using interval_text_length [of d h m s] d bnd by (simp add: cstr_id)
  have "s_strcpy (Some buf) (Some ?t) 26 = Some (Some ?t, 25)"
    using s_strcpy_eq [of 26 buf ?t] assms(2) interval_text_length [of d h m s] d bnd c
    by (simp add: readable_def put_str_def)
  then have conv: "convert_seconds_to_datetime_interval secs (Some buf) = Some (Some ?t)"
    using d(2) by (simp add: convert_seconds_to_datetime_interval_def s_snprintf_def Let_def
        COMMON_DATETIME_LEN_def m_def h_def d_def s_def)
  note acc = interval_accepted [of d h m s]
  have "return_datetime_interval_seconds ?t = Some secs"
    using return_interval_text(1) [of d h m s] d bnd by (simp add: val)
  then have "convert_datetime_string_to_seconds mktime wday0 ?t = Some (DATETIME_TYPE_INTERVAL, secs)"
    using acc d bnd
    by (simp add: convert_datetime_string_to_seconds_def COMMON_DATETIME_LEN_def rd_in)
  with conv show ?thesis by blast
qed

theorem datetime_interval_roundtrip_witness:
  "\<exists>buf'. convert_seconds_to_datetime_interval 93784 (Some (replicate 26 0)) = Some (Some buf') \<and>
     convert_datetime_string_to_seconds (\<lambda>_. 0) 0 buf' = Some (DATETIME_TYPE_INTERVAL, 93784)"
  by (rule datetime_interval_roundtrip) simp_all

text \<open>
  The number of days is multiplied in \<open>int\<close>: for every well-formed interval whose days are
  \<open>2 ^ 31\<close> seconds or more the product overflows, and the conversion has undefined behaviour.
\<close>

theorem datetime_interval_overflow:
  assumes "2 ^ 31 \<le> days * 86400" and "days < 10 ^ 8" and "hours < 24" and "minutes < 60"
    and "seconds < 60"
  shows "convert_datetime_string_to_seconds mktime wday0
           (interval_text days hours minutes seconds @ [0]) = None"
proof -
  have bnds: "hours < 100" "minutes < 100" "seconds < 100" using assms by auto
  show ?thesis
    using interval_accepted [OF assms(2) bnds] return_interval_text(2) [OF assms(2-5,1)]
    by (simp add: convert_datetime_string_to_seconds_def COMMON_DATETIME_LEN_def rd_in)
qed

theorem datetime_interval_overflow_witness:
  "convert_datetime_string_to_seconds (\<lambda>_. 0) 0 (interval_text 24856 0 0 0 @ [0]) = None"
  by (rule datetime_interval_overflow) simp_all

text \<open>
  For two broken-down times whose week days are equal or neighbours within the week, the
  difference is the signed distance in minutes; from a Saturday to the following Sunday the
  code counts one day back where one day forward has passed.
\<close>

theorem tm_tzd_mins_days:
  "(tm_wday b = tm_wday a + k \<and> \<bar>k\<bar> \<le> 1 \<longrightarrow>
      get_tm_tzd_mins a b = (k * 24 + tm_hour b - tm_hour a) * 60 + tm_min b - tm_min a) \<and>
   (tm_wday a = 6 \<and> tm_wday b = 0 \<longrightarrow>
      get_tm_tzd_mins a b = (- 24 + tm_hour b - tm_hour a) * 60 + tm_min b - tm_min a)"
  by (auto simp: get_tm_tzd_mins_def Let_def)

theorem tm_tzd_mins_days_witness:
  "get_tm_tzd_mins
     \<lparr>tm_sec = 0, tm_min = 30, tm_hour = 23, tm_mday = 1, tm_mon = 0, tm_year = 70, tm_wday = 6, tm_isdst = 0\<rparr>
     \<lparr>tm_sec = 0, tm_min = 30, tm_hour = 0, tm_mday = 2, tm_mon = 0, tm_year = 70, tm_wday = 0, tm_isdst = 0\<rparr>
   = - 2820"
  using tm_tzd_mins_days
    [of "\<lparr>tm_sec = 0, tm_min = 30, tm_hour = 0, tm_mday = 2, tm_mon = 0, tm_year = 70, tm_wday = 0, tm_isdst = 0\<rparr>"
        "\<lparr>tm_sec = 0, tm_min = 30, tm_hour = 23, tm_mday = 1, tm_mon = 0, tm_year = 70, tm_wday = 6, tm_isdst = 0\<rparr>"]
  by simp

end
