(* ===== verification/Spec2Isabelle.thy ===== *)
theory Spec2Isabelle
  imports Capabilities Capabilities_Facts Common_Types Context_Cache Device_Capacities Device_Facts Device_Fw Device_Status Device_Status_Facts Device_Utilities Devices Devices_Facts Firmware Firmware_Facts Fletcher Guid Label_Cookies Label_Cookies_Facts Namespace_Labels Namespace_Labels_Facts Namespace_Populate Namespace_Populate_Facts Namespace_Tally Nfit Nfit_Dimms Nfit_Utilities Nvm_Context Nvm_Context_Facts Nvm_Types Passthrough Passthrough_Facts Pcat Pcat_Facts Pcd_Device Pcd_Device_Facts Pcd_Facts Pcd_Tables Pools Pools_Facts Prelude Revision S_Str S_Str_Facts Security Security_Facts Sensors Sensors_Facts Smbios Table_Walk Temperature Time_Utilities Utility Utility_Facts 
begin

text \<open>
  A verification library for the native management library of the NVM DIMM software (\<open>src/src\<close>):
  the code that finds the DIMMs, reads their configuration and labels, and keeps what it found in
  a context.

  \<^bold>\<open>The program.\<close> \<open>lib/\<close> is the library. \<open>lib/device.c\<close> and \<open>lib/lnx_adapter.c\<close> learn of the DIMMs
  from the NFIT, the ACPI table that \<open>acpi/\<close> reads and parses, and from SMBIOS (\<open>common/smbios\<close>);
  \<open>lib/nfit_utilities.c\<close> converts the NFIT to a topology and to interleave sets. Firmware
  commands go through one function, \<open>ioctl_passthrough_cmd\<close>. With it \<open>lib/platform_config_data.c\<close>
  reads and writes the platform configuration data (PCD) of a DIMM and \<open>lib/namespace_labels.c\<close> the label
  storage areas from which it builds the namespaces. \<open>lib/nvm_context.c\<close> caches devices, PCD, pools,
  namespaces and the NFIT for the callers; \<open>common/\<close> has strings, GUIDs, revisions, times and
  checksums. The C++ layers over the library (\<open>core\<close>, \<open>cli\<close>, \<open>wbem\<close>, \<open>monitor\<close>) and generated code
  (\<open>common/persistence\<close>, \<open>ixp\<close>) are not modelled.

  \<^bold>\<open>Conventions.\<close> A structure that the code casts from a buffer is the buffer: a byte list with
  \<open>fld\<close> for a field. Every access that may leave its object is \<open>rd\<close> or \<open>wr\<close> (\<open>Prelude\<close>), and a
  function whose result is \<open>None\<close> has run into undefined behaviour of C: an access outside an object, a
  use of freed memory, a division by 0, an overflow of \<open>int\<close>, or a loop that never ends. So
  \<open>f x = Some y\<close> says that the code returns and is memory-safe besides giving the result. Return codes
  are the \<open>NVM_ERR\<close> numbers. An output parameter is a component of the result; a pointer that may
  be \<open>NULL\<close> is an \<open>option\<close>, a heap object that may have been freed an \<open>'a ptr\<close>. Loops over an
  index are \<open>function\<close>s with a measure. Words have the width of the C type where arithmetic can
  wrap; sizes and counters that stay in their range are \<open>nat\<close>. Parameters stand for what is not
  under \<open>src/\<close>: the pass-through command (a state type \<open>'d\<close> for the devices and functions that return
  code, payload and new state), the allocator, mutexes, \<open>rand\<close>, SHA-1, the C library's time
  functions, the addresses of local buffers and the content of uninitialised ones.

  \<^bold>\<open>Theories.\<close>
  \<^item> \<open>Prelude\<close>: words, checked memory, little-endian fields, list lemmas; the collection \<open>mem_simps\<close>.
  \<^item> \<open>Common_Types\<close> (\<open>common/common_types.h\<close>): byte checksums and swaps. \<open>S_Str\<close>, \<open>S_Str_Facts\<close>
    (\<open>common/string/s_str.c\<close>): the safe string routines and their effect on the string that a buffer
    holds. \<open>Guid\<close> (\<open>common/guid\<close>, \<open>common/uid\<close>): printing, parsing, hashing, comparing.
    \<open>Revision\<close>, \<open>Time_Utilities\<close>, \<open>Smbios\<close>: the rest of \<open>common/\<close> that is modelled.
  \<^item> \<open>Nfit\<close> (\<open>acpi/acpi.c\<close>, \<open>lnx_acpi.c\<close>, \<open>nfit_parser.c\<close>, \<open>nfit.c\<close>): reading, checking and parsing the
    table; the main lemma says that a well-formed table parses to the list of its sub-tables.
    \<open>Nfit_Dimms\<close> (\<open>nfit_dimm.c\<close>, \<open>nfit_interleave.c\<close>) and \<open>Nfit_Utilities\<close> (\<open>lib/nfit_utilities.c\<close>):
    DIMMs and interleave sets, and their conversion.
  \<^item> \<open>Nvm_Types\<close>, \<open>Nvm_Context\<close>, \<open>Nvm_Context_Facts\<close>, \<open>Context_Cache\<close> (\<open>lib/nvm_context.c\<close>): the
    context as a record, one definition per function. \<open>reachable\<close> is the states that calls lead to, with
    an invariant by rule induction from which no call but one runs into undefined behaviour (the
    setter of the PCD namespace count dereferences a context that does not exist); whether the list of PCD
    namespaces is as long as its count is a second invariant, kept by the calls that do not break it;
    the locale \<open>keyed_cache\<close> is the contract of a cache keyed by UID, interpreted for the details and
    the PCD of a device.
  \<^item> \<open>Table_Walk\<close>: the locales \<open>guarded_table_loop\<close> and, its case without an invariant, \<open>table_loop\<close> for loops over
    length-prefixed tables. \<open>Pcd_Tables\<close>,
    \<open>Pcd_Facts\<close> (\<open>lib/platform_config_data.c\<close>): validation, construction and readers of a PCD,
    the readers as interpretations of \<open>table_loop\<close>. \<open>Pcd_Device\<close>, \<open>Pcd_Device_Facts\<close>: reading,
    writing and caching it.
  \<^item> \<open>Utility\<close>, \<open>Utility_Facts\<close> (\<open>lib/utility.h\<close>, \<open>lib/namespace_utils.c\<close>): interleave formats, greatest
    common divisor, rounding, block sizes and alignment. \<open>Device_Utilities\<close> (\<open>lib/device_utilities.c\<close>):
    look-ups and UIDs. \<open>Device_Capacities\<close>, \<open>Device_Facts\<close>: codes, capabilities from the SKU, and how
    the capacity of a DIMM is divided.
  \<^item> \<open>Fletcher\<close>, \<open>Label_Cookies\<close>, \<open>Label_Cookies_Facts\<close>, \<open>Namespace_Labels\<close>,
    \<open>Namespace_Labels_Facts\<close>, \<open>Namespace_Tally\<close>, \<open>Namespace_Populate\<close>, \<open>Namespace_Populate_Facts\<close>
    (\<open>lib/namespace_labels.c\<close>): the checksum against its closed form and what it detects; the
    cookies of interleave sets, with the code's sort against \<open>sort_key\<close>; index blocks, labels, and the
    namespaces. \<open>Namespace_Tally\<close> has the abstract specification, an association list from UID to
    sums, which reading the labels refines; \<open>Namespace_Populate_Facts\<close> lifts it to all DIMMs and to the cache.
  \<^item> \<open>Device_Fw\<close>, \<open>Temperature\<close> (\<open>lib/device_fw.c\<close>): one definition per firmware command over the parameter
    \<open>passthrough\<close>, the translation of the status, and the temperatures with a float as the rational number it
    stands for. \<open>Passthrough\<close>, \<open>Passthrough_Facts\<close> (\<open>lib/lnx_adapter_passthrough.c\<close>): the Linux implementation
    of that parameter over libndctl, with the transfer of large payloads through the mailboxes; that it ends and
    carries the whole payload when the mailboxes behave as documented, and when it does not.
  \<^item> \<open>Devices\<close>, \<open>Devices_Facts\<close> (\<open>lib/device.c\<close>): the listing of the devices from topology, SMBIOS and
    firmware, and what a listed device has been checked for. \<open>Security\<close>, \<open>Security_Facts\<close> (\<open>lib/security.c\<close>) and
    \<open>Sensors\<close>, \<open>Sensors_Facts\<close> (\<open>lib/sensor.c\<close>): the operations on them, their guards, payloads and retries, the
    sensors with their states, and the settings that can be written back.
  \<^item> \<open>Pcat\<close>, \<open>Pcat_Facts\<close> (the platform capability table, \<open>lib/platform_capabilities.c\<close> and its readers in
    \<open>capabilities.c\<close> and \<open>system.c\<close>): the loops over its tables as interpretations of \<open>guarded_table_loop\<close> and
    \<open>table_loop\<close>. \<open>Capabilities\<close>, \<open>Capabilities_Facts\<close> (\<open>lib/capabilities.c\<close>): the features as those of the driver
    cut down by the BIOS and by the SKUs of the DIMMs, and the cached result.
  \<^item> \<open>Pools\<close>, \<open>Pools_Facts\<close> (\<open>lib/pool.c\<close>, \<open>lib/pool_utilities.c\<close>): the collection of the data, the pools of the
    volatile memory and of the interleave sets with their capacities, health and security; that the list is the
    grouping of the sets by socket and kind, and that counting agrees with listing up to nine pools.
  \<^item> \<open>Firmware\<close>, \<open>Firmware_Facts\<close> (\<open>lib/update_firmware.c\<close>): the transfer of an image as one large
    payload, the wait for the device (a \<open>partial_function\<close>, since nothing bounds it) and the examination of the version;
    that the mailboxes take the whole image and that a successful update has passed the tests.
  \<^item> \<open>Device_Status\<close>, \<open>Device_Status_Facts\<close> (\<open>lib/device.c\<close> from \<open>get_fw_die_spare_policy\<close> on): the status, the
    settings, the performance and the details of one device and the capacities of all; that a status claims only what
    the device has answered, that settings are read back, and that the total capacities are sums.
  This theory has the property that spans the PCD, the device and the context.

  \<^bold>\<open>Bounds and fuel.\<close> No definition takes fuel. The loops that may run for ever, the reader of an
  ACPI table file, the loop that prints the extension tables of a PCD and the two transfers of large payloads, are
  \<open>partial_function\<close>s, whose result is \<open>None\<close> where they do not end. Bounds in
  hypotheses are those of the data: 64 KiB for a PCD partition, 130048 bytes for a label area with
  1012 or 506 labels, \<open>2 ^ 31\<close> for sizes that the code casts to \<open>int\<close>, 46340 labels for the
  product of label counts that is computed in \<open>int\<close>.

  \<^bold>\<open>Not modelled.\<close> Logging; access to files, the driver and the database (\<open>lib/save_state.c\<close>, \<open>support.c\<close>,
  \<open>persistence\<close>); the Windows and simulator builds and the small-payload variants of the label reader and of the
  firmware transfer, which the build leaves out; printing of tables; the \<open>printf\<close> family beyond \<open>s_snprintf\<close>. Concurrency
  is modelled as far as the code relies on it: a failing lock or unlock is an outcome of each
  operation on the context, and operations are atomic under the lock.
  Not modelled for lack of a faithful small model, or only glue over what is: support files and diagnostics, which write
  events to the database.
\<close>

section \<open>Building, writing and reading a PCD\<close>

text \<open>
  C3: Take a listed device whose partition behaves as documented (a command reads or writes the block that it
  names), with locks and allocations that succeed and sub-tables of at most 65476 bytes together, which is what
  the partition holds behind the header. A configuration that is built from well-formed sub-tables, written to a device and read back is
  the one that was built, byte for byte: what is read is the built image up to the end of its last table,
  header included, and behind the header it consists of the sub-tables, whatever was cached for the
  device and whatever the partition held before.
\<close>

theorem pcd_device_roundtrip:
  assumes "reachable s" and "partition_model mb handle R" and "R d mem"
    and "devices = (int (length ds), Some ds)" and "List.find (\<lambda>x. handle = disc_handle x) ds = Some x"
    and "length (disc_uid x) = NVM_UID_LEN"
    and "wf_part CURRENT_CONFIG_TABLE_SIGNATURE CURRENT_CONFIG_SIZE cur"
    and "wf_part CONFIG_INPUT_TABLE_SIGNATURE CONFIG_INPUT_SIZE inp"
    and "wf_part CONFIG_OUTPUT_TABLE_SIGNATURE CONFIG_OUTPUT_SIZE out"
    and "length (part_bytes cur @ part_bytes inp @ part_bytes out) \<le> 65476"
  shows "\<exists>m s1 d1 s2.
    build_platform_config_data (\<lambda>_. True) (part_arg cur) (part_arg inp) (part_arg out) (Some Null) =
      Some (NVM_SUCCESS, Some (Valid m)) \<and>
    set_dimm_platform_config all_ok mb devices handle m (s, d) = Some (NVM_SUCCESS, s1, d1) \<and>
    get_dimm_platform_config all_ok (\<lambda>_. True) mb devices handle Null (s1, d1) =
      Some (NVM_SUCCESS,
        Valid (take (PCD_SIZE + length (part_bytes cur @ part_bytes inp @ part_bytes out)) m), s2, d1) \<and>
    drop PCD_SIZE (take (PCD_SIZE + length (part_bytes cur @ part_bytes inp @ part_bytes out)) m) =
      part_bytes cur @ part_bytes inp @ part_bytes out"
proof -
  define t1 t2 t3 where t: "t1 = part_bytes cur" "t2 = part_bytes inp" "t3 = part_bytes out"
  let ?n = "60 + length (t1 @ t2 @ t3)"
  obtain c where c: "sum_list (take 60 (pcd_image c t1 t2 t3 (pcd_fill t1 t2 t3))) = 0"
    "build_platform_config_data (\<lambda>_. True) (part_arg cur) (part_arg inp) (part_arg out) (Some Null) =
      Some (NVM_SUCCESS, Some (Valid (pcd_image c t1 t2 t3 (pcd_fill t1 t2 t3))))"
    using build_eq [OF assms(7-10), of "\<lambda>_. True"] by (auto simp: t)
  let ?m = "pcd_image c t1 t2 t3 (pcd_fill t1 t2 t3)"
  have l: "length (t1 @ t2 @ t3) \<le> 65476" using assms(10) by (simp add: t)
  have tk: "take ?n ?m = pcd_image c t1 t2 t3 []" by (simp add: pcd_image_def)
  have "check_platform_config (Some (pcd_image c t1 t2 t3 [])) ?n = Some NVM_SUCCESS"
    using check_image [OF assms(7-10), of c "[]" ?n] c(1) by (simp add: t pcd_image_def)
  moreover have "length ?m = DEV_PLT_CFG_OEM_PARTITION_SIZE"
    using l by (simp add: pcd_image_def pcd_fill_def DEV_PLT_CFG_OEM_PARTITION_SIZE_def)
  ultimately have "\<exists>s1 d1 s2. set_dimm_platform_config all_ok mb devices handle ?m (s, d) = Some (NVM_SUCCESS, s1, d1) \<and>
      get_dimm_platform_config all_ok (\<lambda>_. True) mb devices handle Null (s1, d1) =
        Some (NVM_SUCCESS, Valid (pcd_image c t1 t2 t3 []), s2, d1)"
    using pcd_written_read_back [OF assms(1-6), of ?m ?n] pcd_image_total [OF l] l
    by (simp add: tk PCD_SIZE_def DEV_PLT_CFG_OEM_PARTITION_SIZE_def del: length_append)
  moreover have "drop 60 (pcd_image c t1 t2 t3 []) = t1 @ t2 @ t3"
    using pcd_image_facts(3) [of c t1 t2 t3 "[]"] by (simp add: pcd_image_def)
  ultimately show ?thesis using c(2) tk unfolding t [symmetric] PCD_SIZE_def by metis
qed

theorem pcd_device_roundtrip_witness:
  "\<exists>m s1 d1 s2.
     build_platform_config_data (\<lambda>_. True)
       (part_arg (Some ([67, 67, 85, 82, 62, 0, 0, 0, 142] @ replicate 47 0, [[1, 0, 6, 0, 0, 0]])))
       (part_arg None) (part_arg None) (Some Null) = Some (NVM_SUCCESS, Some (Valid m)) \<and>
     set_dimm_platform_config all_ok memory_mailbox (1, Some [zero_discovery]) 0 m
       (one_device, replicate 65536 0) = Some (NVM_SUCCESS, s1, d1) \<and>
     get_dimm_platform_config all_ok (\<lambda>_. True) memory_mailbox (1, Some [zero_discovery]) 0 Null (s1, d1) =
       Some (NVM_SUCCESS, Valid (take 122 m), s2, d1) \<and>
     drop 60 (take 122 m) = [67, 67, 85, 82, 62, 0, 0, 0, 142] @ replicate 47 0 @ [1, 0, 6, 0, 0, 0]"
proof -
  let ?cur = "Some ([67, 67, 85, 82, 62, 0, 0, 0, 142] @ replicate 47 0, [[1, 0, 6, 0, 0, 0]])"
  have w: "wf_part CURRENT_CONFIG_TABLE_SIGNATURE CURRENT_CONFIG_SIZE ?cur"
    by (simp add: wf_part_def wf_sub_table_def header_length_def rd32_def rd_bytes_def wf_pcd_ext_def
        ext_type_def fld_def pcd_sizes pcd_signatures sum_list_replicate)
  have n: "wf_part sig k None" for sig k by (simp add: wf_part_def)
  have f: "List.find (\<lambda>x. 0 = disc_handle x) [zero_discovery] = Some zero_discovery"
    by (simp add: zero_discovery_def)
  have b: "part_bytes ?cur @ part_bytes None @ part_bytes None =
      [67, 67, 85, 82, 62, 0, 0, 0, 142] @ replicate 47 0 @ [1, 0, 6, 0, 0, 0]"
    by (simp add: part_bytes_def)
  have l: "PCD_SIZE + length (part_bytes ?cur @ part_bytes None @ part_bytes None) = 122"
    unfolding b by (simp add: PCD_SIZE_def)
  have u: "length (disc_uid zero_discovery) = NVM_UID_LEN" by (simp add: zero_discovery_def)
  have s: "length (part_bytes ?cur @ part_bytes None @ part_bytes None) \<le> 65476" unfolding b by simp
  have d: "replicate 65536 0 = (replicate 65536 0 :: bytes) \<and>
      length (replicate 65536 0 :: bytes) = DEV_PLT_CFG_OEM_PARTITION_SIZE"
    by (simp add: DEV_PLT_CFG_OEM_PARTITION_SIZE_def)
  show ?thesis
    using pcd_device_roundtrip [OF reachable_one_device memory_mailbox_model, OF d, of "(1, Some [zero_discovery])"
        "[zero_discovery]" 0 zero_discovery, OF _ f u w n n s] unfolding l unfolding b PCD_SIZE_def by simp
qed

end
